(* ===== verification/Prelude.thy ===== *)
theory Prelude
  imports Main "HOL-Library.Word" "HOL-Library.Signed_Division"
begin

text \<open>
  Shared vocabulary of the development: names for the C integer types, the C conversions
  and comparisons the sources use, the collections of simplification rules the component
  theories add to, and generic facts about words that several components need.

  Conventions.  A C unsigned type of \<open>w\<close> bits is \<open>w word\<close>; a signed C type of the
  same width is the same word read with \<open>sint\<close> (\<open><s\<close>, \<open>signed_drop_bit\<close>,
  \<open>scast\<close>).  \<open>x << n\<close> is \<open>push_bit n x\<close>, \<open>x >> n\<close> is
  \<open>drop_bit n x\<close> for unsigned and \<open>signed_drop_bit n x\<close> for signed operands.
\<close>

unbundle bit_operations_syntax

type_synonym u8 = "8 word"
type_synonym u16 = "16 word"
type_synonym u32 = "32 word"
type_synonym u64 = "64 word"
type_synonym u128 = "128 word"

text \<open>Host memory: the bytes of the simulator's own address space, by host address.\<close>

type_synonym host_mem = "u64 \<Rightarrow> u8"

named_theorems c_cast \<open>definitions of the C conversions\<close>
named_theorems cpu_frame \<open>fields an operation on the CPU state leaves alone\<close>

text \<open>A C boolean used as an integer.\<close>

definition b2w :: "bool \<Rightarrow> 'a::len word" where
  [c_cast]: "b2w b = (if b then 1 else 0)"

text \<open>
  The signed conversions \<open>(int8_t)\<close>, \<open>(int16_t)\<close>, \<open>(int32_t)\<close> applied to
  a 64-bit register value and converted back to 64 bits: truncation, then sign extension.
\<close>

definition sext8 :: "u64 \<Rightarrow> u64" where
  [c_cast]: "sext8 x = scast (ucast x :: u8)"

definition sext16 :: "u64 \<Rightarrow> u64" where
  [c_cast]: "sext16 x = scast (ucast x :: u16)"

definition sext32 :: "u64 \<Rightarrow> u64" where
  [c_cast]: "sext32 x = scast (ucast x :: u32)"

lemma b2w_simps [simp]: "b2w True = 1" "b2w False = 0"
  by (simp_all add: b2w_def)

lemma b2w_eq_0_iff [simp]: "b2w b = (0 :: 'a::len word) \<longleftrightarrow> \<not> b"
  by (simp add: b2w_def)

lemma b2w_eq_1_iff [simp]: "b2w b = (1 :: 'a::len word) \<longleftrightarrow> b"
  by (simp add: b2w_def)

lemma and_1_odd: "(x :: 'a::len word) AND 1 = 0 \<longleftrightarrow> even x"
  by (simp add: and_one_eq even_iff_mod_2_eq_zero)

lemma bit_int_less_power:
  assumes "0 \<le> (e :: int)" and "e < 2 ^ k" and "bit e n"
  shows "n < k"
proof (rule ccontr)
  assume "\<not> n < k"
  with assms have "take_bit k e = e" by (simp add: take_bit_int_eq_self)
  with assms(3) \<open>\<not> n < k\<close> show False by (metis bit_take_bit_iff)
qed

section \<open>Integer division by a positive number\<close>

lemma zdiv_le_mult: "0 < c \<Longrightarrow> a div c * c \<le> (a :: int)"
  using pos_mod_sign [of c a] div_mult_mod_eq [of a c] by linarith

lemma zdiv_less_mult: "0 < c \<Longrightarrow> (a :: int) < (a div c + 1) * c"
  using pos_mod_bound [of c a] div_mult_mod_eq [of a c] by (subst distrib_right) linarith

lemma pos_zdiv_less_iff:
  assumes "0 < (c :: int)" shows "a div c < b \<longleftrightarrow> a < b * c"
proof
  assume "a div c < b"
  then have "(a div c + 1) * c \<le> b * c" using assms by (intro mult_right_mono) auto
  with zdiv_less_mult [OF assms, of a] show "a < b * c" by linarith
next
  assume "a < b * c"
  with zdiv_le_mult [OF assms, of a] have "a div c * c < b * c" by linarith
  with assms show "a div c < b" by (simp add: mult_less_cancel_right)
qed

lemma pos_le_zdiv_iff: "0 < (c :: int) \<Longrightarrow> b \<le> a div c \<longleftrightarrow> b * c \<le> a"
  using pos_zdiv_less_iff [of c a b] by (simp add: not_less [symmetric] del: not_less)

end
