(* ===== verification/Cutils.thy ===== *)
theory Cutils
  imports Prelude
begin

text \<open>
  The helpers of \<open>include/cutils.h\<close> the rest of the simulator relies on: integer
  minimum and maximum, little- and big-endian access to bytes in memory, byte swapping, and
  counting trailing zeros.  Memory is the host memory of the prelude, a pointer is its
  64-bit address.
\<close>

section \<open>Integer helpers\<close>

definition max_int :: "int \<Rightarrow> int \<Rightarrow> int" where
  "max_int a b = (if a > b then a else b)"

definition min_int :: "int \<Rightarrow> int \<Rightarrow> int" where
  "min_int a b = (if a < b then a else b)"

section \<open>Byte order\<close>

definition get_le16 :: "host_mem \<Rightarrow> u64 \<Rightarrow> u16" where
  "get_le16 m ptr = ucast (m ptr) OR push_bit 8 (ucast (m (ptr + 1)))"

definition get_le32 :: "host_mem \<Rightarrow> u64 \<Rightarrow> u32" where
  "get_le32 m ptr = ucast (m ptr) OR push_bit 8 (ucast (m (ptr + 1)))
     OR push_bit 16 (ucast (m (ptr + 2))) OR push_bit 24 (ucast (m (ptr + 3)))"

definition get_le64 :: "host_mem \<Rightarrow> u64 \<Rightarrow> u64" where
  "get_le64 m ptr = ucast (get_le32 m ptr) OR push_bit 32 (ucast (get_le32 m (ptr + 4)))"

definition put_le16 :: "host_mem \<Rightarrow> u64 \<Rightarrow> u16 \<Rightarrow> host_mem" where
  "put_le16 m ptr v = m(ptr := ucast v, ptr + 1 := ucast (drop_bit 8 v))"

definition put_le32 :: "host_mem \<Rightarrow> u64 \<Rightarrow> u32 \<Rightarrow> host_mem" where
  "put_le32 m ptr v = m(ptr := ucast v, ptr + 1 := ucast (drop_bit 8 v),
     ptr + 2 := ucast (drop_bit 16 v), ptr + 3 := ucast (drop_bit 24 v))"

definition put_le64 :: "host_mem \<Rightarrow> u64 \<Rightarrow> u64 \<Rightarrow> host_mem" where
  "put_le64 m ptr v = put_le32 (put_le32 m ptr (ucast v)) (ptr + 4) (ucast (drop_bit 32 v))"

definition get_be32 :: "host_mem \<Rightarrow> u64 \<Rightarrow> u32" where
  "get_be32 m d = push_bit 24 (ucast (m d)) OR push_bit 16 (ucast (m (d + 1)))
     OR push_bit 8 (ucast (m (d + 2))) OR ucast (m (d + 3))"

definition put_be32 :: "host_mem \<Rightarrow> u64 \<Rightarrow> u32 \<Rightarrow> host_mem" where
  "put_be32 m d v = m(d := ucast (drop_bit 24 v), d + 1 := ucast (drop_bit 16 v),
     d + 2 := ucast (drop_bit 8 v), d + 3 := ucast (drop_bit 0 v))"

definition put_be64 :: "host_mem \<Rightarrow> u64 \<Rightarrow> u64 \<Rightarrow> host_mem" where
  "put_be64 m d v = put_be32 (put_be32 m d (ucast (drop_bit 32 v))) (d + 4) (ucast v)"

definition bswap_32 :: "u32 \<Rightarrow> u32" where
  "bswap_32 v = drop_bit 24 (v AND 0xff000000) OR drop_bit 8 (v AND 0x00ff0000)
     OR push_bit 8 (v AND 0x0000ff00) OR push_bit 24 (v AND 0x000000ff)"

text \<open>\<open>cpu_to_be32\<close> on a little-endian host.\<close>

definition cpu_to_be32 :: "u32 \<Rightarrow> u32" where
  "cpu_to_be32 v = bswap_32 v"

section \<open>Counting trailing zeros\<close>

text \<open>
  \<open>__builtin_ctz\<close>: the number of zero bits below the lowest set bit, with the
  simulator's own answer 32 for 0.  \<open>ctz_below\<close> scans the \<open>k\<close> bits from position
  \<open>32 - k\<close> on.
\<close>

fun ctz_below :: "nat \<Rightarrow> u32 \<Rightarrow> nat" where
  "ctz_below 0 v = 0"
| "ctz_below (Suc k) v = (if odd v then 0 else Suc (ctz_below k (drop_bit 1 v)))"

definition ctz32 :: "u32 \<Rightarrow> nat" where
  "ctz32 v = (if v \<noteq> 0 then ctz_below 32 v else 32)"

text \<open>The binary search the header falls back to on other compilers.\<close>

definition ctz_step :: "nat \<Rightarrow> u32 \<Rightarrow> nat \<times> u32 \<Rightarrow> nat \<times> u32" where
  "ctz_step n msk cv = (case cv of (cnt, v) \<Rightarrow>
     if v AND msk = 0 then (cnt + n, drop_bit n v) else (cnt, v))"

definition ctz32_portable :: "u32 \<Rightarrow> nat" where
  "ctz32_portable val =
     (let cv = ctz_step 16 0x0000FFFF (0, val);
          cv = ctz_step 8 0x000000FF cv;
          cv = ctz_step 4 0x0000000F cv;
          cv = ctz_step 2 0x00000003 cv;
          cv = ctz_step 1 0x00000001 cv
      in case cv of (cnt, v) \<Rightarrow> if v AND 1 = 0 then cnt + 1 else cnt)"

section \<open>Properties\<close>

lemma ptr_distinct [simp]:
  "(ptr :: u64) + 1 \<noteq> ptr" "ptr + 2 \<noteq> ptr" "ptr + 3 \<noteq> ptr" "ptr + 4 \<noteq> ptr"
  "ptr + 2 \<noteq> ptr + 1" "ptr + 3 \<noteq> ptr + 1" "ptr + 3 \<noteq> ptr + 2"
  by simp_all

lemma get_put_le16 [simp]: "get_le16 (put_le16 m ptr v) ptr = v"
  by (rule bit_word_eqI) (auto simp: get_le16_def put_le16_def bit_simps)


lemma get_put_le32 [simp]: "get_le32 (put_le32 m ptr v) ptr = v"
proof (rule bit_word_eqI)
  fix n assume "n < LENGTH(32)"
  then consider "n < 8" | "8 \<le> n" "n < 16" | "16 \<le> n" "n < 24" | "24 \<le> n" "n < 32" by fastforce
  then show "bit (get_le32 (put_le32 m ptr v) ptr) n = bit v n"
    by cases (auto simp: get_le32_def put_le32_def bit_simps)
qed

lemma put_le32_other:
  "p \<notin> {ptr, ptr + 1, ptr + 2, ptr + 3} \<Longrightarrow> put_le32 m ptr v p = m p"
  by (simp add: put_le32_def)

lemma get_le32_put_le32_next: "get_le32 (put_le32 m (ptr + 4) v) ptr = get_le32 m ptr"
  by (simp add: get_le32_def put_le32_def)

lemma get_put_le64 [simp]: "get_le64 (put_le64 m ptr v) ptr = v"
proof -
  have "get_le64 (put_le64 m ptr v) ptr
      = ucast (ucast v :: u32) OR push_bit 32 (ucast (ucast (drop_bit 32 v) :: u32))"
    by (simp add: get_le64_def put_le64_def get_le32_put_le32_next)
  also have "\<dots> = v"
  proof (rule bit_word_eqI)
    fix n assume "n < LENGTH(64)"
    then consider "n < 32" | "32 \<le> n" "n < 64" by fastforce
    then show "bit (ucast (ucast v :: u32) OR push_bit 32 (ucast (ucast (drop_bit 32 v) :: u32)) :: u64) n = bit v n"
      by cases (auto simp: bit_simps)
  qed
  finally show ?thesis .
qed

lemma get_put_be32 [simp]: "get_be32 (put_be32 m d v) d = v"
proof (rule bit_word_eqI)
  fix n assume "n < LENGTH(32)"
  then consider "n < 8" | "8 \<le> n" "n < 16" | "16 \<le> n" "n < 24" | "24 \<le> n" "n < 32" by fastforce
  then show "bit (get_be32 (put_be32 m d v) d) n = bit v n"
    by cases (auto simp: get_be32_def put_be32_def bit_simps)
qed

text \<open>Storing a byte-swapped word little-endian is storing it big-endian.\<close>

lemma less_8_cases: "n < (8::nat) \<Longrightarrow> n = 0 \<or> n = 1 \<or> n = 2 \<or> n = 3 \<or> n = 4 \<or> n = 5 \<or> n = 6 \<or> n = 7"
  by auto

lemma ucast_drop_bswap:
  "(ucast (bswap_32 v) :: u8) = ucast (drop_bit 24 v)"
  "(ucast (drop_bit 8 (bswap_32 v)) :: u8) = ucast (drop_bit 16 v)"
  "(ucast (drop_bit 16 (bswap_32 v)) :: u8) = ucast (drop_bit 8 v)"
  "(ucast (drop_bit 24 (bswap_32 v)) :: u8) = ucast v"
  by (rule bit_word_eqI; auto simp: bswap_32_def bit_simps dest!: less_8_cases)+

lemma put_le32_cpu_to_be32: "put_le32 m d (cpu_to_be32 v) = put_be32 m d v"
  by (simp add: put_le32_def put_be32_def cpu_to_be32_def ucast_drop_bswap)

lemma odd_drop_bit_word: "odd (drop_bit n (v :: u32)) = bit v n"
  by (simp add: bit_iff_odd_drop_bit)

lemma ctz_below_char:
  "bit v i \<Longrightarrow> (\<forall>j<i. \<not> bit v j) \<Longrightarrow> i < k \<Longrightarrow> ctz_below k v = i"
proof (induction k arbitrary: v i)
  case 0
  then show ?case by simp
next
  case (Suc k)
  show ?case
  proof (cases i)
    case 0
    with Suc.prems show ?thesis by (simp add: bit_0)
  next
    case (Suc i')
    have "ctz_below k (drop_bit 1 v) = i'"
      by (rule Suc.IH) (use Suc.prems Suc in \<open>auto simp: bit_simps\<close>)
    moreover have "even v" using Suc.prems(2) Suc by (auto simp: bit_0)
    ultimately show ?thesis using Suc by simp
  qed
qed

text \<open>A nonzero word has a lowest set bit.\<close>

lemma lowest_bit_exists:
  fixes v :: u32
  assumes "v \<noteq> 0"
  obtains i where "i < 32" "bit v i" "\<forall>j<i. \<not> bit v j"
proof -
  from assms obtain k where "bit v k" by (auto simp: bit_eq_iff)
  define i where "i = (LEAST k. bit v k)"
  have "bit v i" unfolding i_def using \<open>bit v k\<close> by (rule LeastI)
  moreover have "\<forall>j<i. \<not> bit v j" unfolding i_def using not_less_Least by blast
  moreover have "i < 32" using bit_imp_le_length [OF \<open>bit v i\<close>] by simp
  ultimately show thesis using that by blast
qed

lemma ctz32_eqI: "i < 32 \<Longrightarrow> bit v i \<Longrightarrow> \<forall>j<i. \<not> bit v j \<Longrightarrow> ctz32 v = i"
  by (auto simp: ctz32_def ctz_below_char)

text \<open>
  The binary search keeps the position of the lowest set bit: a step either consumes
  \<open>n\<close> zero bits, or the lowest set bit is among the next \<open>n\<close>.
\<close>

lemma take_bit_eq_0_iff_bits: "take_bit n (v :: u32) = 0 \<longleftrightarrow> (\<forall>j<n. \<not> bit v j)"
  using bit_imp_le_length [of v] by (auto simp: bit_eq_iff bit_simps)

definition ctz_inv :: "nat \<Rightarrow> nat \<Rightarrow> nat \<times> u32 \<Rightarrow> bool" where
  "ctz_inv i b cv \<longleftrightarrow>
     (\<exists>k. bit (snd cv) k \<and> (\<forall>j<k. \<not> bit (snd cv) j) \<and> k < b \<and> fst cv + k = i)"

lemma ctz_inv_step:
  assumes "ctz_inv i (2 * n) cv"
  shows "ctz_inv i n (ctz_step n (mask n) cv)"
proof -
  obtain c v where cv: "cv = (c, v)" by (cases cv)
  from assms obtain k where k: "bit v k" "\<forall>j<k. \<not> bit v j" "k < 2 * n" "c + k = i"
    by (auto simp: ctz_inv_def cv)
  have zero: "take_bit n v = 0 \<longleftrightarrow> n \<le> k"
    using k(1,2) by (auto simp: take_bit_eq_0_iff_bits not_le) (meson not_less)
  show ?thesis
  proof (cases "n \<le> k")
    case True
    with k zero have "bit (drop_bit n v) (k - n)" "\<forall>j<k - n. \<not> bit (drop_bit n v) j"
      by (auto simp: bit_simps less_diff_conv)
    with True k zero show ?thesis
      by (auto simp: ctz_inv_def ctz_step_def cv simp flip: take_bit_eq_mask intro!: exI [of _ "k - n"])
  next
    case False
    with k zero show ?thesis
      by (auto simp: ctz_inv_def ctz_step_def cv simp flip: take_bit_eq_mask intro!: exI [of _ k])
  qed
qed

lemma ctz_inv_end: "ctz_inv i 1 (c, v) \<Longrightarrow> c = i \<and> odd v"
  by (auto simp: ctz_inv_def bit_0)

lemma ctz32_portable_nonzero:
  assumes "i < 32" "bit v i" "\<forall>j<i. \<not> bit v j"
  shows "ctz32_portable v = i"
proof -
  have "ctz_inv i (2 * 16) (0, v)" using assms by (auto simp: ctz_inv_def)
  note ctz_inv_step [OF this]
  then have "ctz_inv i (2 * 8) (ctz_step 16 (mask 16) (0, v))" by simp
  note ctz_inv_step [OF this]
  then have "ctz_inv i (2 * 4) (ctz_step 8 (mask 8) (ctz_step 16 (mask 16) (0, v)))" by simp
  note ctz_inv_step [OF this]
  then have "ctz_inv i (2 * 2) (ctz_step 4 (mask 4) (ctz_step 8 (mask 8) (ctz_step 16 (mask 16) (0, v))))"
    by simp
  note ctz_inv_step [OF this]
  then have "ctz_inv i (2 * 1) (ctz_step 2 (mask 2) (ctz_step 4 (mask 4)
      (ctz_step 8 (mask 8) (ctz_step 16 (mask 16) (0, v)))))"
    by simp
  note end' = ctz_inv_step [OF this]
  have m: "(mask 16 :: u32) = 0x0000FFFF" "(mask 8 :: u32) = 0xFF" "(mask 4 :: u32) = 0xF"
      "(mask 2 :: u32) = 3" "(mask 1 :: u32) = 1"
    by (simp_all add: mask_eq_exp_minus_1)
  obtain c w where cw: "ctz_step 1 1 (ctz_step 2 3 (ctz_step 4 15 (ctz_step 8 255 (ctz_step 16 65535 (0, v))))) = (c, w)"
    by fastforce
  from end' have "c = i \<and> odd w" unfolding m cw by (rule ctz_inv_end)
  then show ?thesis
    by (simp add: ctz32_portable_def cw and_one_eq odd_iff_mod_2_eq_one del: One_nat_def)
qed

lemma ctz32_portable_0: "ctz32_portable 0 = 32"
  by (simp add: ctz32_portable_def ctz_step_def)

lemma ctz32_portable_eq: "ctz32_portable v = ctz32 v"
proof (cases "v = 0")
  case True
  then show ?thesis by (simp add: ctz32_portable_0 ctz32_def)
next
  case False
  then obtain i where "i < 32" "bit v i" "\<forall>j<i. \<not> bit v j" by (rule lowest_bit_exists)
  then show ?thesis by (simp add: ctz32_portable_nonzero ctz32_eqI)
qed

end
