(* ===== verification/Iomem.thy ===== *)
theory Iomem
  imports Cutils
begin

text \<open>
  The physical memory map of \<open>include/iomem.h\<close> and \<open>src/iomem.cpp\<close>: the list of RAM
  and device ranges, the lookup of a physical address, registration, moving of a range, and the
  dirty-page bitmaps.  A pointer to a range is its index; the registered device callbacks are
  named by the number \<open>pr_opaque\<close>; host pointers are 64-bit words; the address the
  allocator returned for a block is an argument.  A failed \<open>assert\<close> is \<open>None\<close>.
\<close>

section \<open>Typed access to host memory\<close>

text \<open>
  \<open>*(uintN_t *)ptr\<close> for N = 8, 16, 32, 64 (\<open>size_log2\<close> 0 to 3) on the
  little-endian host, with the value zero-extended to 64 bits.
\<close>

definition host_load :: "nat \<Rightarrow> host_mem \<Rightarrow> u64 \<Rightarrow> u64" where
  "host_load size_log2 m ptr =
     (if size_log2 = 0 then ucast (m ptr)
      else if size_log2 = 1 then ucast (get_le16 m ptr)
      else if size_log2 = 2 then ucast (get_le32 m ptr)
      else get_le64 m ptr)"

definition host_store :: "nat \<Rightarrow> host_mem \<Rightarrow> u64 \<Rightarrow> u64 \<Rightarrow> host_mem" where
  "host_store size_log2 m ptr v =
     (if size_log2 = 0 then m(ptr := ucast v)
      else if size_log2 = 1 then put_le16 m ptr (ucast v)
      else if size_log2 = 2 then put_le32 m ptr (ucast v)
      else put_le64 m ptr v)"

section \<open>Ranges\<close>

abbreviation (input) DEVIO_SIZE8 :: u32 where "DEVIO_SIZE8 \<equiv> 1"
abbreviation (input) DEVIO_SIZE16 :: u32 where "DEVIO_SIZE16 \<equiv> 2"
abbreviation (input) DEVIO_SIZE32 :: u32 where "DEVIO_SIZE32 \<equiv> 4"
abbreviation (input) DEVIO_DISABLED :: u32 where "DEVIO_DISABLED \<equiv> 16"
abbreviation (input) DEVRAM_FLAG_ROM :: u32 where "DEVRAM_FLAG_ROM \<equiv> 1"
abbreviation (input) DEVRAM_FLAG_DIRTY_BITS :: u32 where "DEVRAM_FLAG_DIRTY_BITS \<equiv> 2"
abbreviation (input) DEVRAM_FLAG_DISABLED :: u32 where "DEVRAM_FLAG_DISABLED \<equiv> 4"
abbreviation (input) DEVRAM_PAGE_SIZE_LOG2 :: nat where "DEVRAM_PAGE_SIZE_LOG2 \<equiv> 12"
abbreviation (input) PHYS_MEM_RANGE_MAX :: nat where "PHYS_MEM_RANGE_MAX \<equiv> 32"

record PhysMemoryRange =
  pr_addr :: u64
  pr_org_size :: u64
  pr_size :: u64
  pr_is_ram :: bool
  pr_devram_flags :: u32
  pr_phys_mem :: u64
  pr_dirty_bits_size :: nat
  pr_dirty_bits :: bool
  pr_dirty_bits_tab :: "nat \<Rightarrow> nat \<Rightarrow> u32"
  pr_dirty_bits_index :: nat
  pr_opaque :: nat
  pr_devio_flags :: u32

text \<open>\<open>n_phys_mem_range\<close> is the length of the list.\<close>

type_synonym PhysMemoryMap = "PhysMemoryRange list"

definition phys_mem_map_init :: PhysMemoryMap where
  "phys_mem_map_init = []"

definition in_phys_range :: "u64 \<Rightarrow> PhysMemoryRange \<Rightarrow> bool" where
  "in_phys_range paddr pr \<longleftrightarrow> paddr \<ge> pr_addr pr \<and> paddr < pr_addr pr + pr_size pr"

text \<open>The scan runs from the most recently registered range down to the first one.\<close>

fun scan_ranges :: "PhysMemoryMap \<Rightarrow> u64 \<Rightarrow> nat \<Rightarrow> nat option" where
  "scan_ranges s paddr 0 = None"
| "scan_ranges s paddr (Suc i) =
     (if in_phys_range paddr (s ! i) then Some i else scan_ranges s paddr i)"

definition get_phys_mem_range :: "PhysMemoryMap \<Rightarrow> u64 \<Rightarrow> nat option" where
  "get_phys_mem_range s paddr = scan_ranges s paddr (length s)"

section \<open>Registration\<close>

definition register_ram_entry ::
  "PhysMemoryMap \<Rightarrow> u64 \<Rightarrow> u64 \<Rightarrow> u32 \<Rightarrow> PhysMemoryMap option" where
  "register_ram_entry s addr sz devram_flags =
     (if length s < PHYS_MEM_RANGE_MAX \<and> sz AND 0xfff = 0 \<and> sz \<noteq> 0 then
        Some (s @ [\<lparr>pr_addr = addr, pr_org_size = sz,
                     pr_size = (if devram_flags AND DEVRAM_FLAG_DISABLED \<noteq> 0 then 0 else sz),
                     pr_is_ram = True, pr_devram_flags = devram_flags AND NOT DEVRAM_FLAG_DISABLED,
                     pr_phys_mem = 0, pr_dirty_bits_size = 0, pr_dirty_bits = False,
                     pr_dirty_bits_tab = (\<lambda>_ _. 0), pr_dirty_bits_index = 0,
                     pr_opaque = 0, pr_devio_flags = 0\<rparr>])
      else None)"

text \<open>
  \<open>mallocz\<close> returned \<open>ptr\<close>: the block reads as zero (\<open>exit(1)\<close> on a null
  pointer is \<open>None\<close> as well).
\<close>

definition mallocz_block :: "u64 \<Rightarrow> u64 \<Rightarrow> host_mem \<Rightarrow> host_mem" where
  "mallocz_block ptr sz m = (\<lambda>p. if p - ptr < sz then 0 else m p)"

definition default_register_ram ::
  "u64 \<Rightarrow> PhysMemoryMap \<Rightarrow> u64 \<Rightarrow> u64 \<Rightarrow> u32 \<Rightarrow> host_mem
     \<Rightarrow> (PhysMemoryMap \<times> host_mem) option" where
  "default_register_ram ptr s addr sz devram_flags m =
     (case register_ram_entry s addr sz devram_flags of
        None \<Rightarrow> None
      | Some s' \<Rightarrow>
          if ptr = 0 then None
          else
            let pr = (last s')\<lparr>pr_phys_mem := ptr\<rparr>;
                pr = (if devram_flags AND DEVRAM_FLAG_DIRTY_BITS \<noteq> 0 then
                        let nb_pages = unat (drop_bit DEVRAM_PAGE_SIZE_LOG2 sz)
                        in pr\<lparr>pr_dirty_bits_size := ((nb_pages + 31) div 32) * 4,
                              pr_dirty_bits_index := 0,
                              pr_dirty_bits_tab := (\<lambda>_ _. 0),
                              pr_dirty_bits := True\<rparr>
                      else pr)
            in Some (butlast s' @ [pr], mallocz_block ptr sz m))"

definition cpu_register_device ::
  "PhysMemoryMap \<Rightarrow> u64 \<Rightarrow> u64 \<Rightarrow> nat \<Rightarrow> u32 \<Rightarrow> PhysMemoryMap option" where
  "cpu_register_device s addr sz opaque devio_flags =
     (if length s < PHYS_MEM_RANGE_MAX \<and> sz \<le> 0xffffffff then
        Some (s @ [\<lparr>pr_addr = addr, pr_org_size = sz,
                     pr_size = (if devio_flags AND DEVIO_DISABLED \<noteq> 0 then 0 else sz),
                     pr_is_ram = False, pr_devram_flags = 0,
                     pr_phys_mem = 0, pr_dirty_bits_size = 0, pr_dirty_bits = False,
                     pr_dirty_bits_tab = (\<lambda>_ _. 0), pr_dirty_bits_index = 0,
                     pr_opaque = opaque, pr_devio_flags = devio_flags\<rparr>])
      else None)"

section \<open>Dirty bits\<close>

definition phys_mem_set_dirty_bit :: "PhysMemoryRange \<Rightarrow> u64 \<Rightarrow> PhysMemoryRange" where
  "phys_mem_set_dirty_bit pr offset =
     (if pr_dirty_bits pr then
        let page_index = drop_bit DEVRAM_PAGE_SIZE_LOG2 offset;
            msk = push_bit (unat (page_index AND 0x1f)) 1;
            w = unat (drop_bit 5 page_index);
            tab = pr_dirty_bits_tab pr; k = pr_dirty_bits_index pr
        in pr\<lparr>pr_dirty_bits_tab := tab(k := (tab k)(w := tab k w OR msk))\<rparr>
      else pr)"

definition phys_mem_is_dirty_bit :: "PhysMemoryRange \<Rightarrow> u64 \<Rightarrow> bool" where
  "phys_mem_is_dirty_bit pr offset =
     (if \<not> pr_dirty_bits pr then True
      else
        let page_index = drop_bit DEVRAM_PAGE_SIZE_LOG2 offset;
            w = pr_dirty_bits_tab pr (pr_dirty_bits_index pr) (unat (drop_bit 5 page_index))
        in drop_bit (unat (page_index AND 0x1f)) w AND 1 \<noteq> 0)"

text \<open>
  Returns the bitmap and resets it by switching to the other table; the write TLB entries of the
  range are flushed first (\<open>flush\<close> is the callback \<open>flush_tlb_write_range\<close>) so that
  the next store to a page sets its bit again.
\<close>

definition default_get_dirty_bits ::
  "(u64 \<Rightarrow> u64 \<Rightarrow> 'c \<Rightarrow> 'c) \<Rightarrow> PhysMemoryRange \<Rightarrow> 'c
     \<Rightarrow> (nat \<Rightarrow> u32) \<times> PhysMemoryRange \<times> 'c" where
  "default_get_dirty_bits flush pr c =
     (let dirty_bits = pr_dirty_bits_tab pr (pr_dirty_bits_index pr);
          n = pr_dirty_bits_size pr div 4;
          has_dirty_bits = list_ex (\<lambda>i. dirty_bits i \<noteq> 0) [0..<n];
          c = (if has_dirty_bits \<and> pr_size pr \<noteq> 0
               then flush (pr_phys_mem pr) (pr_org_size pr) c else c);
          k = (if pr_dirty_bits_index pr = 0 then 1 else 0)
      in (dirty_bits,
          pr\<lparr>pr_dirty_bits_index := k,
             pr_dirty_bits_tab := (pr_dirty_bits_tab pr)(k := (\<lambda>i. if i < n then 0 else pr_dirty_bits_tab pr k i))\<rparr>,
          c))"

section \<open>Moving, enabling and disabling a range\<close>

text \<open>\<open>default_set_addr\<close>, which \<open>phys_mem_set_addr\<close> calls for devices and RAM alike.\<close>

definition default_set_addr ::
  "(u64 \<Rightarrow> u64 \<Rightarrow> 'c \<Rightarrow> 'c) \<Rightarrow> PhysMemoryRange \<Rightarrow> u64 \<Rightarrow> bool \<Rightarrow> 'c
     \<Rightarrow> PhysMemoryRange \<times> 'c" where
  "default_set_addr flush pr addr enabled c =
     (let c' = (if pr_is_ram pr then flush (pr_phys_mem pr) (pr_org_size pr) c else c)
      in if enabled then
           if pr_size pr = 0 \<or> pr_addr pr \<noteq> addr
           then (pr\<lparr>pr_addr := addr, pr_size := pr_org_size pr\<rparr>, c')
           else (pr, c)
         else
           if pr_size pr \<noteq> 0 then (pr\<lparr>pr_addr := 0, pr_size := 0\<rparr>, c')
           else (pr, c))"

definition phys_mem_set_addr ::
  "(u64 \<Rightarrow> u64 \<Rightarrow> 'c \<Rightarrow> 'c) \<Rightarrow> PhysMemoryMap \<Rightarrow> nat \<Rightarrow> u64 \<Rightarrow> bool \<Rightarrow> 'c
     \<Rightarrow> PhysMemoryMap \<times> 'c" where
  "phys_mem_set_addr flush s i addr enabled c =
     (case default_set_addr flush (s ! i) addr enabled c of (pr, c') \<Rightarrow> (s[i := pr], c'))"

section \<open>Lookup\<close>

lemma scan_ranges_Some:
  "scan_ranges s paddr n = Some i \<longleftrightarrow>
     i < n \<and> in_phys_range paddr (s ! i) \<and> (\<forall>j. i < j \<and> j < n \<longrightarrow> \<not> in_phys_range paddr (s ! j))"
  by (induction n) (auto simp: less_Suc_eq)

lemma scan_ranges_None:
  "scan_ranges s paddr n = None \<longleftrightarrow> (\<forall>j<n. \<not> in_phys_range paddr (s ! j))"
  by (induction n) (auto simp: less_Suc_eq)

lemma get_phys_mem_range_Some_length: "get_phys_mem_range s paddr = Some i \<Longrightarrow> i < length s"
  by (simp add: get_phys_mem_range_def scan_ranges_Some)

lemma scan_ranges_append: "n \<le> length s \<Longrightarrow> scan_ranges (s @ t) paddr n = scan_ranges s paddr n"
  by (induction n) (auto simp: nth_append)

lemma get_phys_mem_range_snoc:
  "get_phys_mem_range (s @ [pr]) paddr =
     (if in_phys_range paddr pr then Some (length s) else get_phys_mem_range s paddr)"
  by (simp add: get_phys_mem_range_def scan_ranges_append)

section \<open>Loads and stores of host memory\<close>

lemma ucast_ucast_mask:
  "k \<le> LENGTH('a::len) \<Longrightarrow> LENGTH('b::len) = k \<Longrightarrow> (ucast (ucast (x :: 'a word) :: 'b word) :: 'a word) = take_bit k x"
  by (rule bit_word_eqI) (auto simp: bit_ucast_iff bit_take_bit_iff)

lemma host_load_store:
  "host_load k (host_store k m p v) p = (if k = 0 then take_bit 8 v else if k = 1 then take_bit 16 v
     else if k = 2 then take_bit 32 v else v)"
  by (simp add: host_load_def host_store_def get_put_le16 get_put_le32 get_put_le64 ucast_ucast_mask)

section \<open>Dirty bits\<close>

lemma page_bit_less: "unat (x AND 31 :: u64) < 32"
proof -
  have "x AND 31 = take_bit 5 x" by (simp add: take_bit_eq_mask mask_eq_exp_minus_1)
  then show ?thesis
    using take_bit_nat_less_exp [of 5 "unat x"] by (simp add: unsigned_take_bit_eq)
qed

lemma page_index_split:
  "(page :: u64) = page' \<longleftrightarrow>
     unat (page AND 31) = unat (page' AND 31) \<and> unat (drop_bit 5 page) = unat (drop_bit 5 page')"
proof
  assume "unat (page AND 31) = unat (page' AND 31) \<and> unat (drop_bit 5 page) = unat (drop_bit 5 page')"
  then have lo: "page AND 31 = page' AND 31" and hi: "drop_bit 5 page = drop_bit 5 page'"
    by (simp_all add: word_unat_eq_iff)
  have m: "x AND 31 = take_bit 5 x" for x :: u64
    by (simp add: take_bit_eq_mask mask_eq_exp_minus_1)
  have "push_bit 5 (drop_bit 5 x) + take_bit 5 x = x" for x :: u64 by (rule bits_ident)
  then show "page = page'" using lo hi unfolding m by metis
qed simp

text \<open>Marking one page dirty changes the answer for that page only.\<close>

lemma is_dirty_set_dirty:
  "phys_mem_is_dirty_bit (phys_mem_set_dirty_bit pr offset) offset' \<longleftrightarrow>
     phys_mem_is_dirty_bit pr offset' \<or>
     drop_bit DEVRAM_PAGE_SIZE_LOG2 offset = drop_bit DEVRAM_PAGE_SIZE_LOG2 offset'"
  using page_bit_less [of "drop_bit 12 offset"] page_bit_less [of "drop_bit 12 offset'"]
    page_index_split [of "drop_bit 12 offset" "drop_bit 12 offset'"]
  by (auto simp: phys_mem_is_dirty_bit_def phys_mem_set_dirty_bit_def Let_def and_1_odd
      bit_iff_odd_drop_bit [symmetric] bit_or_iff bit_exp_iff
      simp del: drop_bit_drop_bit)

end
