(* ===== verification/Riscv_State.thy ===== *)
theory Riscv_State
  imports Iomem
begin

text \<open>
  The state of a hart (\<open>struct RISCVCPUState\<close> of \<open>include/riscv_cpu.h\<close>), the
  architectural constants of \<open>include/riscv.h\<close>, and the machine around the hart.  Arrays
  are functions from the index; the code masks every index into range.  The machine record extends
  the hart by what its operations reach through pointers: host memory, the physical memory map,
  the state of the devices and the two fields of \<open>VirtMachine\<close> the interpreter reads.
\<close>

section \<open>Constants\<close>

abbreviation (input) MIP_SSIP :: u32 where "MIP_SSIP \<equiv> 0x2"
abbreviation (input) MIP_MSIP :: u32 where "MIP_MSIP \<equiv> 0x8"
abbreviation (input) MIP_STIP :: u32 where "MIP_STIP \<equiv> 0x20"
abbreviation (input) MIP_MTIP :: u32 where "MIP_MTIP \<equiv> 0x80"
abbreviation (input) MIP_SEIP :: u32 where "MIP_SEIP \<equiv> 0x200"
abbreviation (input) MIP_MEIP :: u32 where "MIP_MEIP \<equiv> 0x800"
abbreviation (input) MIP_MCIP :: u32 where "MIP_MCIP \<equiv> 0x40000"

abbreviation (input) CAUSE_MISALIGNED_FETCH :: int where "CAUSE_MISALIGNED_FETCH \<equiv> 0"
abbreviation (input) CAUSE_FAULT_FETCH :: int where "CAUSE_FAULT_FETCH \<equiv> 1"
abbreviation (input) CAUSE_ILLEGAL_INSTRUCTION :: int where "CAUSE_ILLEGAL_INSTRUCTION \<equiv> 2"
abbreviation (input) CAUSE_BREAKPOINT :: int where "CAUSE_BREAKPOINT \<equiv> 3"
abbreviation (input) CAUSE_MISALIGNED_LOAD :: int where "CAUSE_MISALIGNED_LOAD \<equiv> 4"
abbreviation (input) CAUSE_FAULT_LOAD :: int where "CAUSE_FAULT_LOAD \<equiv> 5"
abbreviation (input) CAUSE_MISALIGNED_STORE :: int where "CAUSE_MISALIGNED_STORE \<equiv> 6"
abbreviation (input) CAUSE_FAULT_STORE :: int where "CAUSE_FAULT_STORE \<equiv> 7"
abbreviation (input) CAUSE_USER_ECALL :: int where "CAUSE_USER_ECALL \<equiv> 8"
abbreviation (input) CAUSE_FETCH_PAGE_FAULT :: int where "CAUSE_FETCH_PAGE_FAULT \<equiv> 12"
abbreviation (input) CAUSE_LOAD_PAGE_FAULT :: int where "CAUSE_LOAD_PAGE_FAULT \<equiv> 13"
abbreviation (input) CAUSE_STORE_PAGE_FAULT :: int where "CAUSE_STORE_PAGE_FAULT \<equiv> 15"

abbreviation (input) SCAUSE_MASK :: u64 where "SCAUSE_MASK \<equiv> 0x800000000000001f"
abbreviation (input) MCAUSE_MASK :: u64 where "MCAUSE_MASK \<equiv> 0x80000000000000ff"
abbreviation (input) CAUSE_INTERRUPT :: u64 where "CAUSE_INTERRUPT \<equiv> 0x8000000000000000"

abbreviation (input) PRV_U :: u8 where "PRV_U \<equiv> 0"
abbreviation (input) PRV_S :: u8 where "PRV_S \<equiv> 1"
abbreviation (input) PRV_H :: u8 where "PRV_H \<equiv> 2"
abbreviation (input) PRV_M :: u8 where "PRV_M \<equiv> 3"

abbreviation (input) MCPUID_C :: u32 where "MCPUID_C \<equiv> 0x4"
abbreviation (input) MCPUID_X :: u32 where "MCPUID_X \<equiv> 0x800000"
text \<open>\<open>MCPUID_SUPER | MCPUID_USER | MCPUID_I | MCPUID_M | MCPUID_A\<close>, then F, D and C.\<close>
abbreviation (input) MCPUID_IMA_SU :: u32 where "MCPUID_IMA_SU \<equiv> 0x141101"
abbreviation (input) MCPUID_F :: u32 where "MCPUID_F \<equiv> 0x20"
abbreviation (input) MCPUID_D :: u32 where "MCPUID_D \<equiv> 0x8"

abbreviation (input) MSTATUS_SIE :: u64 where "MSTATUS_SIE \<equiv> 0x2"
abbreviation (input) MSTATUS_MIE :: u64 where "MSTATUS_MIE \<equiv> 0x8"
abbreviation (input) MSTATUS_SPIE :: u64 where "MSTATUS_SPIE \<equiv> 0x20"
abbreviation (input) MSTATUS_MPIE :: u64 where "MSTATUS_MPIE \<equiv> 0x80"
abbreviation (input) MSTATUS_SPP :: u64 where "MSTATUS_SPP \<equiv> 0x100"
abbreviation (input) MSTATUS_MPP :: u64 where "MSTATUS_MPP \<equiv> 0x1800"
abbreviation (input) MSTATUS_FS :: u64 where "MSTATUS_FS \<equiv> 0x6000"
abbreviation (input) MSTATUS_XS :: u64 where "MSTATUS_XS \<equiv> 0x18000"
abbreviation (input) MSTATUS_MPRV :: u64 where "MSTATUS_MPRV \<equiv> 0x20000"
abbreviation (input) MSTATUS_SUM :: u64 where "MSTATUS_SUM \<equiv> 0x40000"
abbreviation (input) MSTATUS_MXR :: u64 where "MSTATUS_MXR \<equiv> 0x80000"
abbreviation (input) MSTATUS_TVM :: u64 where "MSTATUS_TVM \<equiv> 0x100000"
abbreviation (input) MSTATUS_TW :: u64 where "MSTATUS_TW \<equiv> 0x200000"
abbreviation (input) MSTATUS_TSR :: u64 where "MSTATUS_TSR \<equiv> 0x400000"
abbreviation (input) MSTATUS_UXL_MASK :: u64 where "MSTATUS_UXL_MASK \<equiv> 0x300000000"
abbreviation (input) MSTATUS_SXL_MASK :: u64 where "MSTATUS_SXL_MASK \<equiv> 0xc00000000"

abbreviation (input) MCONTROL_TYPE_AD_MATCH :: u64 where "MCONTROL_TYPE_AD_MATCH \<equiv> 0x2000000000000000"
abbreviation (input) MCONTROL_DMODE :: u64 where "MCONTROL_DMODE \<equiv> 0x0800000000000000"
abbreviation (input) MCONTROL_MAXMASK_4 :: u64 where "MCONTROL_MAXMASK_4 \<equiv> 0x0080000000000000"
abbreviation (input) MCONTROL_ACTION :: u64 where "MCONTROL_ACTION \<equiv> 0x3f000"
abbreviation (input) MCONTROL_MATCH :: u64 where "MCONTROL_MATCH \<equiv> 0x780"
abbreviation (input) MCONTROL_U :: u64 where "MCONTROL_U \<equiv> 0x8"
abbreviation (input) MCONTROL_EXECUTE :: u64 where "MCONTROL_EXECUTE \<equiv> 0x4"
abbreviation (input) MCONTROL_STORE :: u64 where "MCONTROL_STORE \<equiv> 0x2"
abbreviation (input) MCONTROL_LOAD :: u64 where "MCONTROL_LOAD \<equiv> 0x1"

abbreviation (input) PMPCFG_R :: u8 where "PMPCFG_R \<equiv> 0x1"
abbreviation (input) PMPCFG_W :: u8 where "PMPCFG_W \<equiv> 0x2"
abbreviation (input) PMPCFG_X :: u8 where "PMPCFG_X \<equiv> 0x4"
abbreviation (input) PMPCFG_A_MASK :: u8 where "PMPCFG_A_MASK \<equiv> 0x18"
abbreviation (input) PMPCFG_A_TOR :: u8 where "PMPCFG_A_TOR \<equiv> 0x8"
abbreviation (input) PMPCFG_A_NA4 :: u8 where "PMPCFG_A_NA4 \<equiv> 0x10"
abbreviation (input) PMPCFG_A_NAPOT :: u8 where "PMPCFG_A_NAPOT \<equiv> 0x18"
abbreviation (input) PMPCFG_RES :: u8 where "PMPCFG_RES \<equiv> 0x60"
abbreviation (input) PMPCFG_L :: u8 where "PMPCFG_L \<equiv> 0x80"
abbreviation (input) PMP_N :: nat where "PMP_N \<equiv> 8"
abbreviation (input) PMPADDR_MASK :: u64 where "PMPADDR_MASK \<equiv> 0x3fffffffff"

abbreviation (input) MAX_TRIGGERS :: nat where "MAX_TRIGGERS \<equiv> 1"
abbreviation (input) PG_SHIFT :: nat where "PG_SHIFT \<equiv> 12"
abbreviation (input) PG_MASK :: u64 where "PG_MASK \<equiv> 0xfff"
text \<open>\<open>SATP_MASK\<close> with \<open>ASID_BITS = 0\<close>.\<close>
abbreviation (input) SATP_MASK :: u64 where "SATP_MASK \<equiv> 0xf0000fffffffffff"
abbreviation (input) HPM_EVENT_MASKS :: u64 where "HPM_EVENT_MASKS \<equiv> 0xffffff07"
abbreviation (input) F32_HIGH :: u64 where "F32_HIGH \<equiv> 0xffffffff00000000"
abbreviation (input) F64_HIGH :: u64 where "F64_HIGH \<equiv> 0"
abbreviation (input) SBI_SHUTDOWN :: u64 where "SBI_SHUTDOWN \<equiv> 8"

section \<open>The state of a hart\<close>

record TLBEntry =
  tlb_vaddr :: u64
  tlb_mem_addend :: u64

record pmp_addr =
  pmp_lo :: u64
  pmp_hi :: u64

datatype RISCVCTFInfo =
    ctf_nop | ctf_taken_jump | ctf_taken_branch
  | ctf_taken_jalr | ctf_taken_jalr_pop | ctf_taken_jalr_push | ctf_taken_jalr_pop_push

record RISCVCPUState =
  pc :: u64
  reg :: "nat \<Rightarrow> u64"
  reg_prior :: "nat \<Rightarrow> u64"
  most_recently_written_reg :: int
  last_data_paddr :: u64
  fp_reg :: "nat \<Rightarrow> u64"
  most_recently_written_fp_reg :: int
  fflags :: u32
  frm :: u8
  priv :: u8
  fs :: u8
  insn_counter :: u64
  minstret :: u64
  mcycle :: u64
  debug_mode :: bool
  stop_the_counter :: bool
  power_down_flag :: bool
  terminate_simulation :: bool
  pending_exception :: int
  pending_tval :: u64
  mstatus :: u64
  mtvec :: u64
  mscratch :: u64
  mepc :: u64
  mcause :: u64
  mtval :: u64
  mvendorid :: u64
  marchid :: u64
  mimpid :: u64
  mhartid :: u64
  misa :: u32
  mie :: u32
  mip :: u32
  medeleg :: u32
  mideleg :: u32
  mcounteren :: u32
  mcountinhibit :: u32
  tselect :: u32
  tdata1 :: "nat \<Rightarrow> u64"
  tdata2 :: "nat \<Rightarrow> u64"
  mhpmevent :: "nat \<Rightarrow> u64"
  csr_pmpcfg :: "nat \<Rightarrow> u64"
  csr_pmpaddr :: "nat \<Rightarrow> u64"
  pmp_n :: nat
  pmp :: "nat \<Rightarrow> pmp_addr"
  pmpcfg :: "nat \<Rightarrow> u8"
  stvec :: u64
  sscratch :: u64
  sepc :: u64
  scause :: u64
  stval :: u64
  satp :: u64
  scounteren :: u32
  dcsr :: u64
  dpc :: u64
  dscratch :: u64
  plic_enable_irq :: "nat \<Rightarrow> u32"
  load_res :: u64
  physical_addr_len :: nat
  tlb_read :: "nat \<Rightarrow> TLBEntry"
  tlb_write :: "nat \<Rightarrow> TLBEntry"
  tlb_code :: "nat \<Rightarrow> TLBEntry"
  tlb_read_paddr_addend :: "nat \<Rightarrow> u64"
  tlb_write_paddr_addend :: "nat \<Rightarrow> u64"
  tlb_code_paddr_addend :: "nat \<Rightarrow> u64"
  benchmark_exit_code :: u64
  info :: RISCVCTFInfo
  next_addr :: u64
  timecmp :: u64
  ignore_sbi_shutdown :: bool

section \<open>The machine around a hart\<close>

record 'd RISCVMachine = RISCVCPUState +
  ram :: host_mem
  mem_map :: PhysMemoryMap
  devs :: 'd
  pending_interrupt :: int
  cosim :: bool

text \<open>
  What the hart calls through function pointers: \<open>read_func\<close> and \<open>write_func\<close> of the
  device with a given \<open>opaque\<close>, the optional CSR hooks of the machine (\<open>None\<close> is a
  null pointer; the boolean says whether the hook handled the access, C result 0), and the value a
  load from an unmapped address leaves in the caller's uninitialised variable.
\<close>

record 'm cpu_env =
  dev_read :: "nat \<Rightarrow> u32 \<Rightarrow> nat \<Rightarrow> 'm \<Rightarrow> u32 \<times> 'm"
  dev_write :: "nat \<Rightarrow> u32 \<Rightarrow> u32 \<Rightarrow> nat \<Rightarrow> 'm \<Rightarrow> 'm"
  hook_csr_read :: "(u32 \<Rightarrow> u32 \<Rightarrow> 'm \<Rightarrow> u64 option \<times> 'm) option"
  hook_csr_write :: "(u32 \<Rightarrow> u32 \<Rightarrow> u64 \<Rightarrow> 'm \<Rightarrow> bool \<times> 'm) option"
  mmio_value :: "u64 \<Rightarrow> u64"

section \<open>Registers\<close>

definition write_reg :: "nat \<Rightarrow> u64 \<Rightarrow> 'z RISCVCPUState_scheme \<Rightarrow> 'z RISCVCPUState_scheme" where
  "write_reg x v s = s\<lparr>most_recently_written_reg := int x,
     reg_prior := (reg_prior s)(x := reg s x), reg := (reg s)(x := v)\<rparr>"

definition write_fp_reg :: "nat \<Rightarrow> u64 \<Rightarrow> 'z RISCVCPUState_scheme \<Rightarrow> 'z RISCVCPUState_scheme" where
  "write_fp_reg x v s = s\<lparr>most_recently_written_fp_reg := int x,
     fp_reg := (fp_reg s)(x := v), fs := 3\<rparr>"

text \<open>\<open>CANONICAL_S49\<close>: sign extension from bit 48.\<close>

definition CANONICAL_S49 :: "u64 \<Rightarrow> u64" where
  "CANONICAL_S49 v = signed_drop_bit 15 (push_bit 15 v)"

end
