(* ===== verification/Softfp.thy ===== *)
theory Softfp
  imports Cutils
begin

text \<open>
  The software floating point of \<open>include/softfp_template.h\<close>, included by
  \<open>src/softfp.cpp\<close> for \<open>F_SIZE\<close> 32, 64 and 128.  The template is one group of
  polymorphic definitions: \<open>F_UINT\<close> is \<open>'a word\<close> and \<open>F_SIZE\<close> is
  \<open>LENGTH('a)\<close>.  Signs, 0 or 1 in a \<open>uint32_t\<close> in C, are booleans; exponents are
  integers (they stay far below 2^31 in absolute value); the flags \<open>*pfflags\<close> are
  threaded as a 32-bit word.  \<open>None\<close> is a failed \<open>assert\<close>.
\<close>

section \<open>Rounding modes, flags and classes (softfp.h)\<close>

datatype RoundingModeEnum = RM_RNE | RM_RTZ | RM_RDN | RM_RUP | RM_RMM

fun rm_code :: "RoundingModeEnum \<Rightarrow> nat" where
  "rm_code RM_RNE = 0"
| "rm_code RM_RTZ = 1"
| "rm_code RM_RDN = 2"
| "rm_code RM_RUP = 3"
| "rm_code RM_RMM = 4"

abbreviation (input) FFLAG_INVALID_OP :: u32 where "FFLAG_INVALID_OP \<equiv> 0x10"
abbreviation (input) FFLAG_DIVIDE_ZERO :: u32 where "FFLAG_DIVIDE_ZERO \<equiv> 8"
abbreviation (input) FFLAG_OVERFLOW :: u32 where "FFLAG_OVERFLOW \<equiv> 4"
abbreviation (input) FFLAG_UNDERFLOW :: u32 where "FFLAG_UNDERFLOW \<equiv> 2"
abbreviation (input) FFLAG_INEXACT :: u32 where "FFLAG_INEXACT \<equiv> 1"

abbreviation (input) FCLASS_NINF :: u32 where "FCLASS_NINF \<equiv> 1"
abbreviation (input) FCLASS_NNORMAL :: u32 where "FCLASS_NNORMAL \<equiv> 2"
abbreviation (input) FCLASS_NSUBNORMAL :: u32 where "FCLASS_NSUBNORMAL \<equiv> 4"
abbreviation (input) FCLASS_NZERO :: u32 where "FCLASS_NZERO \<equiv> 8"
abbreviation (input) FCLASS_PZERO :: u32 where "FCLASS_PZERO \<equiv> 0x10"
abbreviation (input) FCLASS_PSUBNORMAL :: u32 where "FCLASS_PSUBNORMAL \<equiv> 0x20"
abbreviation (input) FCLASS_PNORMAL :: u32 where "FCLASS_PNORMAL \<equiv> 0x40"
abbreviation (input) FCLASS_PINF :: u32 where "FCLASS_PINF \<equiv> 0x80"
abbreviation (input) FCLASS_SNAN :: u32 where "FCLASS_SNAN \<equiv> 0x100"
abbreviation (input) FCLASS_QNAN :: u32 where "FCLASS_QNAN \<equiv> 0x200"

section \<open>Format parameters\<close>

definition MANT_SIZE :: "'a::len itself \<Rightarrow> nat" where
  "MANT_SIZE t = (if LENGTH('a) = 32 then 23 else if LENGTH('a) = 64 then 52 else 112)"

definition EXP_SIZE :: "'a::len itself \<Rightarrow> nat" where
  "EXP_SIZE t = (if LENGTH('a) = 32 then 8 else if LENGTH('a) = 64 then 11 else 15)"

text \<open>\<open>#error unsupported F_SIZE\<close> for every other size.\<close>

definition sf_format :: "'a::len itself \<Rightarrow> bool" where
  "sf_format t \<longleftrightarrow> LENGTH('a) = 32 \<or> LENGTH('a) = 64 \<or> LENGTH('a) = 128"

definition EXP_MASK :: "'a::len itself \<Rightarrow> int" where
  "EXP_MASK t = 2 ^ EXP_SIZE t - 1"

definition MANT_MASK :: "'a::len word" where
  "MANT_MASK = push_bit (MANT_SIZE TYPE('a)) 1 - 1"

definition SIGN_MASK :: "'a::len word" where
  "SIGN_MASK = push_bit (LENGTH('a) - 1) 1"

definition IMANT_SIZE :: "'a::len itself \<Rightarrow> nat" where
  "IMANT_SIZE t = LENGTH('a) - 2"

definition RND_SIZE :: "'a::len itself \<Rightarrow> nat" where
  "RND_SIZE t = IMANT_SIZE t - MANT_SIZE t"

definition QNAN_MASK :: "'a::len word" where
  "QNAN_MASK = push_bit (MANT_SIZE TYPE('a) - 1) 1"

definition F_QNAN :: "'a::len word" where
  "F_QNAN = push_bit (MANT_SIZE TYPE('a)) (word_of_int (EXP_MASK TYPE('a)))
     OR push_bit (MANT_SIZE TYPE('a) - 1) 1"

section \<open>Counting leading zeros (softfp.cpp)\<close>

fun clz_upto :: "nat \<Rightarrow> 'a::len word \<Rightarrow> nat" where
  "clz_upto 0 a = 0"
| "clz_upto (Suc k) a = (if bit a k then 0 else Suc (clz_upto k a))"

definition clz :: "'a::len word \<Rightarrow> nat" where
  "clz a = (if a = 0 then LENGTH('a) else clz_upto LENGTH('a) a)"

section \<open>Packing, unpacking and rounding\<close>

definition pack_sf :: "bool \<Rightarrow> int \<Rightarrow> 'a::len word \<Rightarrow> 'a word" where
  "pack_sf a_sign a_exp a_mant =
     push_bit (LENGTH('a) - 1) (b2w a_sign)
     OR push_bit (MANT_SIZE TYPE('a)) (word_of_int a_exp) OR (a_mant AND MANT_MASK)"

definition sf_sign :: "'a::len word \<Rightarrow> bool" where
  "sf_sign a \<longleftrightarrow> drop_bit (LENGTH('a) - 1) a \<noteq> 0"

definition sf_exp :: "'a::len word \<Rightarrow> int" where
  "sf_exp a = uint (drop_bit (MANT_SIZE TYPE('a)) a AND word_of_int (EXP_MASK TYPE('a)))"

definition sf_mant :: "'a::len word \<Rightarrow> 'a word" where
  "sf_mant a = a AND MANT_MASK"

definition unpack_sf :: "'a::len word \<Rightarrow> bool \<times> int \<times> 'a word" where
  "unpack_sf a = (sf_sign a, sf_exp a, sf_mant a)"

definition rshift_rnd :: "'a::len word \<Rightarrow> int \<Rightarrow> 'a word" where
  "rshift_rnd a d =
     (if d \<noteq> 0 then
        if d \<ge> int LENGTH('a) then b2w (a \<noteq> 0)
        else let msk = push_bit (nat d) 1 - 1
             in drop_bit (nat d) a OR b2w (a AND msk \<noteq> 0)
      else a)"

text \<open>The rounding increment of \<open>round_pack_sf\<close> and of the integer conversions.\<close>

definition rnd_addend :: "RoundingModeEnum \<Rightarrow> bool \<Rightarrow> 'a::len word" where
  "rnd_addend rm a_sign =
     (case rm of
        RM_RNE \<Rightarrow> push_bit (RND_SIZE TYPE('a) - 1) 1
      | RM_RMM \<Rightarrow> push_bit (RND_SIZE TYPE('a) - 1) 1
      | RM_RTZ \<Rightarrow> 0
      | _ \<Rightarrow> if a_sign \<noteq> odd (rm_code rm) then push_bit (RND_SIZE TYPE('a)) 1 - 1 else 0)"

text \<open>\<open>a_mant\<close> is considered to have its top bit at \<open>F_SIZE - 2\<close>.\<close>

definition round_pack_sf ::
  "bool \<Rightarrow> int \<Rightarrow> 'a::len word \<Rightarrow> RoundingModeEnum \<Rightarrow> u32 \<Rightarrow> 'a word \<times> u32" where
  "round_pack_sf a_sign a_exp a_mant rm fflags =
     (let addend = rnd_addend rm a_sign;
          rnd_mask = push_bit (RND_SIZE TYPE('a)) 1 - 1;
          (a_exp, a_mant, rnd_bits, fflags) =
            (if a_exp \<le> 0 then
               let is_subnormal = (a_exp < 0 \<or> a_mant + addend < push_bit (LENGTH('a) - 1) 1);
                   diff = 1 - a_exp;
                   a_mant = rshift_rnd a_mant diff;
                   rnd_bits = a_mant AND rnd_mask
               in (1, a_mant, rnd_bits,
                   if is_subnormal \<and> rnd_bits \<noteq> 0 then fflags OR FFLAG_UNDERFLOW else fflags)
             else (a_exp, a_mant, a_mant AND rnd_mask, fflags));
          fflags = (if rnd_bits \<noteq> 0 then fflags OR FFLAG_INEXACT else fflags);
          a_mant = drop_bit (RND_SIZE TYPE('a)) (a_mant + addend);
          a_mant = (if rm = RM_RNE \<and> rnd_bits = push_bit (RND_SIZE TYPE('a) - 1) 1
                    then a_mant AND NOT 1 else a_mant);
          a_exp = a_exp + uint (drop_bit (MANT_SIZE TYPE('a) + 1) a_mant)
      in if a_mant \<le> MANT_MASK then (pack_sf a_sign 0 a_mant, fflags)
         else if a_exp \<ge> EXP_MASK TYPE('a) then
           (if addend = 0 then pack_sf a_sign (EXP_MASK TYPE('a) - 1) MANT_MASK
            else pack_sf a_sign (EXP_MASK TYPE('a)) 0,
            fflags OR FFLAG_OVERFLOW OR FFLAG_INEXACT)
         else (pack_sf a_sign a_exp a_mant, fflags))"

text \<open>\<open>a_mant\<close> is considered to have at most \<open>F_SIZE - 1\<close> bits.\<close>

definition normalize_sf ::
  "bool \<Rightarrow> int \<Rightarrow> 'a::len word \<Rightarrow> RoundingModeEnum \<Rightarrow> u32 \<Rightarrow> ('a word \<times> u32) option" where
  "normalize_sf a_sign a_exp a_mant rm fflags =
     (let shift = int (clz a_mant) - (int LENGTH('a) - 1 - int (IMANT_SIZE TYPE('a)))
      in if shift \<ge> 0
         then Some (round_pack_sf a_sign (a_exp - shift) (push_bit (nat shift) a_mant) rm fflags)
         else None)"

text \<open>The same with a double-word mantissa.\<close>

definition normalize2_sf ::
  "bool \<Rightarrow> int \<Rightarrow> 'a::len word \<Rightarrow> 'a word \<Rightarrow> RoundingModeEnum \<Rightarrow> u32
     \<Rightarrow> ('a word \<times> u32) option" where
  "normalize2_sf a_sign a_exp a_mant1 a_mant0 rm fflags =
     (let l = (if a_mant1 = 0 then LENGTH('a) + clz a_mant0 else clz a_mant1);
          shift = int l - (int LENGTH('a) - 1 - int (IMANT_SIZE TYPE('a)))
      in if shift \<ge> 0 then
           let sh = nat shift;
               a_exp = a_exp - shift;
               a_mant1 =
                 (if sh = 0 then a_mant1 OR b2w (a_mant0 \<noteq> 0)
                  else if sh < LENGTH('a) then
                    push_bit sh a_mant1 OR drop_bit (LENGTH('a) - sh) a_mant0
                      OR b2w (push_bit sh a_mant0 \<noteq> 0)
                  else push_bit (sh - LENGTH('a)) a_mant0)
           in Some (round_pack_sf a_sign a_exp a_mant1 rm fflags)
         else None)"

definition issignan_sf :: "'a::len word \<Rightarrow> bool" where
  "issignan_sf a \<longleftrightarrow>
     (let a_exp1 = uint (drop_bit (MANT_SIZE TYPE('a) - 1) a AND
                         (push_bit (EXP_SIZE TYPE('a) + 1) 1 - 1))
      in a_exp1 = 2 * EXP_MASK TYPE('a) \<and> sf_mant a \<noteq> 0)"

definition isnan_sf :: "'a::len word \<Rightarrow> bool" where
  "isnan_sf a \<longleftrightarrow> sf_exp a = EXP_MASK TYPE('a) \<and> sf_mant a \<noteq> 0"

definition normalize_subnormal_sf :: "'a::len word \<Rightarrow> int \<times> 'a word" where
  "normalize_subnormal_sf a_mant =
     (let shift = int (MANT_SIZE TYPE('a)) - (int LENGTH('a) - 1 - int (clz a_mant))
      in (1 - shift, push_bit (nat shift) a_mant))"

section \<open>Addition and subtraction\<close>

definition add_sf ::
  "'a::len word \<Rightarrow> 'a word \<Rightarrow> RoundingModeEnum \<Rightarrow> u32 \<Rightarrow> ('a word \<times> u32) option" where
  "add_sf a0 b0 rm fflags =
     (let (a, b) = (if a0 AND NOT SIGN_MASK < b0 AND NOT SIGN_MASK then (b0, a0) else (a0, b0));
          a_sign = sf_sign a; b_sign = sf_sign b;
          a_exp = sf_exp a; b_exp = sf_exp b;
          a_mant = push_bit 3 (sf_mant a); b_mant = push_bit 3 (sf_mant b)
      in if a_exp = EXP_MASK TYPE('a) then
           if a_mant \<noteq> 0 then
             Some (F_QNAN, if a_mant AND push_bit 3 QNAN_MASK = 0 \<or> issignan_sf b
                           then fflags OR FFLAG_INVALID_OP else fflags)
           else if b_exp = EXP_MASK TYPE('a) \<and> a_sign \<noteq> b_sign then
             Some (F_QNAN, fflags OR FFLAG_INVALID_OP)
           else Some (a, fflags)
         else
           let (a_exp, a_mant) =
                 (if a_exp = 0 then (1, a_mant)
                  else (a_exp, a_mant OR push_bit (MANT_SIZE TYPE('a) + 3) 1));
               (b_exp, b_mant) =
                 (if b_exp = 0 then (1, b_mant)
                  else (b_exp, b_mant OR push_bit (MANT_SIZE TYPE('a) + 3) 1));
               b_mant = rshift_rnd b_mant (a_exp - b_exp);
               (a_sign, a_mant) =
                 (if a_sign = b_sign then (a_sign, a_mant + b_mant)
                  else let m = a_mant - b_mant
                       in (if m = 0 then rm = RM_RDN else a_sign, m))
           in normalize_sf a_sign (a_exp + (int (RND_SIZE TYPE('a)) - 3)) a_mant rm fflags)"

definition sub_sf ::
  "'a::len word \<Rightarrow> 'a word \<Rightarrow> RoundingModeEnum \<Rightarrow> u32 \<Rightarrow> ('a word \<times> u32) option" where
  "sub_sf a b rm fflags = add_sf a (b XOR SIGN_MASK) rm fflags"

section \<open>Double-word multiplication\<close>

text \<open>With the double-width type \<open>F_ULONG\<close>: the pair (high, low) of the product.\<close>

definition mul_u_long :: "'a::len word \<Rightarrow> 'a word \<Rightarrow> 'a word \<times> 'a word" where
  "mul_u_long a b =
     (let r = uint a * uint b
      in (word_of_int (r div 2 ^ LENGTH('a)), word_of_int r))"

text \<open>Without it: schoolbook multiplication on halves.\<close>

definition mul_u_half :: "'a::len word \<Rightarrow> 'a word \<Rightarrow> 'a word \<times> 'a word" where
  "mul_u_half a b =
     (let h = LENGTH('a) div 2;
          a0 = take_bit h a; a1 = take_bit h (drop_bit h a);
          b0 = take_bit h b; b1 = take_bit h (drop_bit h b);
          r00 = a0 * b0; r01 = a0 * b1; r10 = a1 * b0; r11 = a1 * b1;
          r0 = take_bit h r00;
          c = drop_bit h r00 + take_bit h r01 + take_bit h r10;
          r1 = take_bit h c;
          c = drop_bit h c + drop_bit h r01 + drop_bit h r10 + take_bit h r11;
          r2 = take_bit h c;
          r3 = take_bit h (drop_bit h c + drop_bit h r11)
      in (push_bit h r3 OR r2, push_bit h r1 OR r0))"

text \<open>\<open>F_ULONG\<close> exists for 32 and, with \<open>HAVE_INT128\<close>, for 64 bits.\<close>

definition mul_u :: "'a::len word \<Rightarrow> 'a word \<Rightarrow> 'a word \<times> 'a word" where
  "mul_u a b = (if LENGTH('a) = 128 then mul_u_half a b else mul_u_long a b)"

section \<open>Multiplication\<close>

definition mul_sf ::
  "'a::len word \<Rightarrow> 'a word \<Rightarrow> RoundingModeEnum \<Rightarrow> u32 \<Rightarrow> ('a word \<times> u32) option" where
  "mul_sf a b rm fflags =
     (let r_sign = (sf_sign a \<noteq> sf_sign b);
          a_exp = sf_exp a; b_exp = sf_exp b;
          a_mant = sf_mant a; b_mant = sf_mant b;
          em = EXP_MASK TYPE('a)
      in if a_exp = em \<or> b_exp = em then
           if isnan_sf a \<or> isnan_sf b then
             Some (F_QNAN, if issignan_sf a \<or> issignan_sf b then fflags OR FFLAG_INVALID_OP else fflags)
           else if a_exp = em \<and> b_exp = 0 \<and> b_mant = 0 \<or> b_exp = em \<and> a_exp = 0 \<and> a_mant = 0 then
             Some (F_QNAN, fflags OR FFLAG_INVALID_OP)
           else Some (pack_sf r_sign em 0, fflags)
         else if a_exp = 0 \<and> a_mant = 0 then Some (pack_sf r_sign 0 0, fflags)
         else
           let (a_exp, a_mant) =
                 (if a_exp = 0 then normalize_subnormal_sf a_mant
                  else (a_exp, a_mant OR push_bit (MANT_SIZE TYPE('a)) 1))
           in if b_exp = 0 \<and> b_mant = 0 then Some (pack_sf r_sign 0 0, fflags)
              else
                let (b_exp, b_mant) =
                      (if b_exp = 0 then normalize_subnormal_sf b_mant
                       else (b_exp, b_mant OR push_bit (MANT_SIZE TYPE('a)) 1));
                    r_exp = a_exp + b_exp - 2 ^ (EXP_SIZE TYPE('a) - 1) + 2;
                    (r_mant, r_mant_low) =
                      mul_u (push_bit (RND_SIZE TYPE('a)) a_mant)
                            (push_bit (RND_SIZE TYPE('a) + 1) b_mant);
                    r_mant = r_mant OR b2w (r_mant_low \<noteq> 0)
                in normalize_sf r_sign r_exp r_mant rm fflags)"

end
