(* ===== verification/Softfp_Arith.thy ===== *)
theory Softfp_Arith
  imports Softfp
begin

text \<open>
  Fused multiply-add, division and square root of \<open>include/softfp_template.h\<close>, with
  the double-word division and the integer square root they rest on.
\<close>

section \<open>Fused multiply and add\<close>

text \<open>The special operands of \<open>fma_sf\<close>: some exponent is all ones.\<close>

definition fma_special ::
  "'a::len word \<Rightarrow> 'a word \<Rightarrow> 'a word \<Rightarrow> u32 \<Rightarrow> 'a word \<times> u32" where
  "fma_special a b c fflags =
     (let r_sign = (sf_sign a \<noteq> sf_sign b); c_sign = sf_sign c;
          a_exp = sf_exp a; b_exp = sf_exp b; c_exp = sf_exp c;
          a_mant = sf_mant a; b_mant = sf_mant b;
          em = EXP_MASK TYPE('a)
      in if a_exp = 0 \<and> a_mant = 0 \<and> b_exp = em \<and> b_mant = 0
            \<or> b_exp = 0 \<and> b_mant = 0 \<and> a_exp = em \<and> a_mant = 0 then
           (F_QNAN, fflags OR FFLAG_INVALID_OP)
         else if isnan_sf a \<or> isnan_sf b \<or> isnan_sf c then
           (F_QNAN, if issignan_sf a \<or> issignan_sf b \<or> issignan_sf c
                    then fflags OR FFLAG_INVALID_OP else fflags)
         else if a_exp = em \<and> b_exp = 0 \<and> b_mant = 0 \<or> b_exp = em \<and> a_exp = 0 \<and> a_mant = 0
                 \<or> (a_exp = em \<or> b_exp = em) \<and> c_exp = em \<and> r_sign \<noteq> c_sign then
           (F_QNAN, fflags OR FFLAG_INVALID_OP)
         else if c_exp = em then (pack_sf c_sign em 0, fflags)
         else (pack_sf r_sign em 0, fflags))"

text \<open>The label \<open>mul_zero\<close>: the product is a zero.\<close>

definition fma_mul_zero ::
  "bool \<Rightarrow> 'a::len word \<Rightarrow> RoundingModeEnum \<Rightarrow> u32 \<Rightarrow> 'a word \<times> u32" where
  "fma_mul_zero r_sign c rm fflags =
     (if sf_exp c = 0 \<and> sf_mant c = 0 then
        (pack_sf (if sf_sign c \<noteq> r_sign then rm = RM_RDN else r_sign) 0 0, fflags)
      else (c, fflags))"

text \<open>The right shift of the smaller double-word operand, with a sticky lowest bit.\<close>

definition fma_shift :: "int \<Rightarrow> 'a::len word \<Rightarrow> 'a word \<Rightarrow> 'a word \<times> 'a word" where
  "fma_shift shift c_mant1 c_mant0 =
     (if shift \<ge> 2 * int LENGTH('a) then (0, b2w (c_mant0 OR c_mant1 \<noteq> 0))
      else if shift \<ge> int LENGTH('a) + 1 then (0, rshift_rnd c_mant1 (shift - int LENGTH('a)))
      else if shift = int LENGTH('a) then (0, c_mant1 OR b2w (c_mant0 \<noteq> 0))
      else if shift \<noteq> 0 then
        let sh = nat shift; msk = push_bit sh 1 - 1
        in (drop_bit sh c_mant1,
            push_bit (LENGTH('a) - sh) c_mant1 OR drop_bit sh c_mant0 OR b2w (c_mant0 AND msk \<noteq> 0))
      else (c_mant1, c_mant0))"

text \<open>The addition of the double-word product and the double-word addend.\<close>

definition fma_add ::
  "bool \<Rightarrow> int \<Rightarrow> 'a::len word \<Rightarrow> 'a word \<Rightarrow> bool \<Rightarrow> int \<Rightarrow> 'a word \<Rightarrow> 'a word
     \<Rightarrow> RoundingModeEnum \<Rightarrow> u32 \<Rightarrow> ('a word \<times> u32) option" where
  "fma_add r_sign r_exp r_mant1 r_mant0 c_sign c_exp c_mant1 c_mant0 rm fflags =
     (let (r_sign, r_exp, r_mant1, r_mant0, c_sign, c_exp, c_mant1, c_mant0) =
            (if \<not> (r_exp > c_exp \<or> r_exp = c_exp \<and> r_mant1 \<ge> c_mant1)
             then (c_sign, c_exp, c_mant1, c_mant0, r_sign, r_exp, r_mant1, r_mant0)
             else (r_sign, r_exp, r_mant1, r_mant0, c_sign, c_exp, c_mant1, c_mant0));
          (c_mant1, c_mant0) = fma_shift (r_exp - c_exp) c_mant1 c_mant0;
          (r_sign, r_mant1, r_mant0) =
            (if r_sign = c_sign then
               let m0 = r_mant0 + c_mant0
               in (r_sign, r_mant1 + c_mant1 + b2w (m0 < c_mant0), m0)
             else
               let m0 = r_mant0 - c_mant0;
                   m1 = r_mant1 - c_mant1 - b2w (m0 > r_mant0)
               in (if m0 OR m1 = 0 then rm = RM_RDN else r_sign, m1, m0))
      in normalize2_sf r_sign r_exp r_mant1 r_mant0 rm fflags)"

definition fma_sf ::
  "'a::len word \<Rightarrow> 'a word \<Rightarrow> 'a word \<Rightarrow> RoundingModeEnum \<Rightarrow> u32
     \<Rightarrow> ('a word \<times> u32) option" where
  "fma_sf a b c rm fflags =
     (let r_sign = (sf_sign a \<noteq> sf_sign b); c_sign = sf_sign c;
          a_exp = sf_exp a; b_exp = sf_exp b; c_exp = sf_exp c;
          a_mant = sf_mant a; b_mant = sf_mant b; c_mant = sf_mant c;
          em = EXP_MASK TYPE('a)
      in if a_exp = em \<or> b_exp = em \<or> c_exp = em then Some (fma_special a b c fflags)
         else if a_exp = 0 \<and> a_mant = 0 \<or> b_exp = 0 \<and> b_mant = 0 then
           Some (fma_mul_zero r_sign c rm fflags)
         else
           let (a_exp, a_mant) =
                 (if a_exp = 0 then normalize_subnormal_sf a_mant
                  else (a_exp, a_mant OR push_bit (MANT_SIZE TYPE('a)) 1));
               (b_exp, b_mant) =
                 (if b_exp = 0 then normalize_subnormal_sf b_mant
                  else (b_exp, b_mant OR push_bit (MANT_SIZE TYPE('a)) 1));
               r_exp = a_exp + b_exp - 2 ^ (EXP_SIZE TYPE('a) - 1) + 3;
               (r_mant1, r_mant0) =
                 mul_u (push_bit (RND_SIZE TYPE('a)) a_mant) (push_bit (RND_SIZE TYPE('a)) b_mant);
               (r_exp, r_mant1, r_mant0) =
                 (if r_mant1 < push_bit (LENGTH('a) - 3) 1
                  then (r_exp - 1, push_bit 1 r_mant1 OR drop_bit (LENGTH('a) - 1) r_mant0,
                        push_bit 1 r_mant0)
                  else (r_exp, r_mant1, r_mant0))
           in if c_exp = 0 \<and> c_mant = 0 then
                normalize_sf r_sign r_exp (r_mant1 OR b2w (r_mant0 \<noteq> 0)) rm fflags
              else
                let (c_exp, c_mant) =
                      (if c_exp = 0 then normalize_subnormal_sf c_mant
                       else (c_exp, c_mant OR push_bit (MANT_SIZE TYPE('a)) 1))
                in fma_add r_sign r_exp r_mant1 r_mant0
                     c_sign (c_exp + 1) (push_bit (RND_SIZE TYPE('a) - 1) c_mant) 0 rm fflags)"

section \<open>Division\<close>

text \<open>Quotient and remainder of the double word \<open>ah:al\<close> by \<open>b\<close>, with \<open>F_ULONG\<close>.\<close>

definition divrem_u_long :: "'a::len word \<Rightarrow> 'a word \<Rightarrow> 'a word \<Rightarrow> 'a word \<times> 'a word" where
  "divrem_u_long ah al b =
     (let a = uint ah * 2 ^ LENGTH('a) + uint al
      in (word_of_int (a div uint b), word_of_int (a mod uint b)))"

text \<open>Without it: one bit of the quotient per iteration.\<close>

definition divrem_step :: "'a::len word \<Rightarrow> 'a word \<times> 'a word \<Rightarrow> 'a word \<times> 'a word" where
  "divrem_step b aa = (case aa of (a1, a0) \<Rightarrow>
     let ab = drop_bit (LENGTH('a) - 1) a1;
         a1 = push_bit 1 a1 OR drop_bit (LENGTH('a) - 1) a0;
         (a1, qb) = (if ab \<noteq> 0 \<or> a1 \<ge> b then (a1 - b, 1) else (a1, 0))
     in (a1, push_bit 1 a0 OR qb))"

fun divrem_loop :: "nat \<Rightarrow> 'a::len word \<Rightarrow> 'a word \<times> 'a word \<Rightarrow> 'a word \<times> 'a word" where
  "divrem_loop 0 b aa = aa"
| "divrem_loop (Suc n) b aa = divrem_loop n b (divrem_step b aa)"

definition divrem_u_bits ::
  "'a::len word \<Rightarrow> 'a word \<Rightarrow> 'a word \<Rightarrow> ('a word \<times> 'a word) option" where
  "divrem_u_bits a1 a0 b =
     (if a1 < b then
        case divrem_loop LENGTH('a) b (a1, a0) of (r, q) \<Rightarrow> Some (q, r)
      else None)"

definition divrem_u ::
  "'a::len word \<Rightarrow> 'a word \<Rightarrow> 'a word \<Rightarrow> ('a word \<times> 'a word) option" where
  "divrem_u ah al b =
     (if LENGTH('a) = 128 then divrem_u_bits ah al b else Some (divrem_u_long ah al b))"

definition div_sf ::
  "'a::len word \<Rightarrow> 'a word \<Rightarrow> RoundingModeEnum \<Rightarrow> u32 \<Rightarrow> ('a word \<times> u32) option" where
  "div_sf a b rm fflags =
     (let r_sign = (sf_sign a \<noteq> sf_sign b);
          a_exp = sf_exp a; b_exp = sf_exp b;
          a_mant = sf_mant a; b_mant = sf_mant b;
          em = EXP_MASK TYPE('a);
          fl_nan = (if issignan_sf a \<or> issignan_sf b then fflags OR FFLAG_INVALID_OP else fflags)
      in if a_exp = em then
           if a_mant \<noteq> 0 \<or> isnan_sf b then Some (F_QNAN, fl_nan)
           else if b_exp = em then Some (F_QNAN, fflags OR FFLAG_INVALID_OP)
           else Some (pack_sf r_sign em 0, fflags)
         else if b_exp = em then
           if b_mant \<noteq> 0 then Some (F_QNAN, fl_nan)
           else Some (pack_sf r_sign 0 0, fflags)
         else if b_exp = 0 \<and> b_mant = 0 then
           if a_exp = 0 \<and> a_mant = 0 then Some (F_QNAN, fflags OR FFLAG_INVALID_OP)
           else Some (pack_sf r_sign em 0, fflags OR FFLAG_DIVIDE_ZERO)
         else
           let (b_exp, b_mant) =
                 (if b_exp = 0 then normalize_subnormal_sf b_mant
                  else (b_exp, b_mant OR push_bit (MANT_SIZE TYPE('a)) 1))
           in if a_exp = 0 \<and> a_mant = 0 then Some (pack_sf r_sign 0 0, fflags)
              else
                let (a_exp, a_mant) =
                      (if a_exp = 0 then normalize_subnormal_sf a_mant
                       else (a_exp, a_mant OR push_bit (MANT_SIZE TYPE('a)) 1));
                    r_exp = a_exp - b_exp + 2 ^ (EXP_SIZE TYPE('a) - 1) - 1
                in case divrem_u a_mant 0 (push_bit 2 b_mant) of
                     None \<Rightarrow> None
                   | Some (r_mant, r) \<Rightarrow>
                       normalize_sf r_sign r_exp (if r \<noteq> 0 then r_mant OR 1 else r_mant) rm fflags)"

section \<open>Square root\<close>

text \<open>
  Newton's iteration on \<open>F_ULONG\<close>, an integer of \<open>w = 2 * F_SIZE\<close> bits: the loop
  ends when the next iterate is no longer smaller.
\<close>

function sqrt_newton :: "nat \<Rightarrow> int \<Rightarrow> int \<Rightarrow> int" where
  "sqrt_newton w a s =
     (let u = ((a div s + s) mod 2 ^ w) div 2
      in if u \<ge> s then s else sqrt_newton w a u)"
  by pat_completeness auto
termination
  by (relation "measure (\<lambda>(w, a, s). nat s)") (auto simp: not_le intro: le_less_trans [rotated] simp: pos_imp_zdiv_nonneg_iff)

declare sqrt_newton.simps [simp del]

text \<open>The exponent of the starting point: \<open>2 ^ l \<ge> a\<close>.\<close>

definition sqrt_l :: "'a::len word \<Rightarrow> 'a word \<Rightarrow> nat" where
  "sqrt_l ah al = (if ah \<noteq> 0 then 2 * LENGTH('a) - clz (ah - 1) else LENGTH('a) - clz (al - 1))"

definition sqrtrem_u_long :: "'a::len word \<Rightarrow> 'a word \<Rightarrow> bool \<times> 'a word" where
  "sqrtrem_u_long ah al =
     (if ah = 0 \<and> al = 0 then (False, 0)
      else
        let l = sqrt_l ah al;
            a = uint ah * 2 ^ LENGTH('a) + uint al;
            s = sqrt_newton (2 * LENGTH('a)) a (2 ^ ((l + 1) div 2))
        in (a \<noteq> (s * s) mod 2 ^ (2 * LENGTH('a)), word_of_int s))"

text \<open>The same loop on two words, dividing with \<open>divrem_u\<close>.\<close>

function sqrt_newton_w :: "'a::len word \<Rightarrow> 'a word \<Rightarrow> 'a word \<Rightarrow> 'a word option" where
  "sqrt_newton_w a1 a0 s =
     (case divrem_u a1 a0 s of
        None \<Rightarrow> None
      | Some (q, r) \<Rightarrow>
          let u = (q + s) div 2
          in if u \<ge> s then Some s else sqrt_newton_w a1 a0 u)"
  by pat_completeness auto
termination
  by (relation "measure (\<lambda>(a1, a0, s). unat s)") (auto simp: not_le simp flip: word_less_nat_alt)

declare sqrt_newton_w.simps [simp del]

definition sqrtrem_u_words :: "'a::len word \<Rightarrow> 'a word \<Rightarrow> (bool \<times> 'a word) option" where
  "sqrtrem_u_words a1 a0 =
     (if a1 = 0 \<and> a0 = 0 then Some (False, 0)
      else
        let l = sqrt_l a1 a0
        in case sqrt_newton_w a1 a0 (push_bit ((l + 1) div 2) 1) of
             None \<Rightarrow> None
           | Some s \<Rightarrow>
               let (sq1, sq0) = mul_u s s in Some (sq0 \<noteq> a0 \<or> sq1 \<noteq> a1, s))"

definition sqrtrem_u :: "'a::len word \<Rightarrow> 'a word \<Rightarrow> (bool \<times> 'a word) option" where
  "sqrtrem_u ah al =
     (if LENGTH('a) = 128 then sqrtrem_u_words ah al else Some (sqrtrem_u_long ah al))"

definition sqrt_sf ::
  "'a::len word \<Rightarrow> RoundingModeEnum \<Rightarrow> u32 \<Rightarrow> ('a word \<times> u32) option" where
  "sqrt_sf a rm fflags =
     (let a_sign = sf_sign a; a_exp = sf_exp a; a_mant = sf_mant a;
          em = EXP_MASK TYPE('a)
      in if a_exp = em then
           if a_mant \<noteq> 0 then
             Some (F_QNAN, if issignan_sf a then fflags OR FFLAG_INVALID_OP else fflags)
           else if a_sign then Some (F_QNAN, fflags OR FFLAG_INVALID_OP)
           else Some (a, fflags)
         else if a_sign then
           if a_exp = 0 \<and> a_mant = 0 then Some (a, fflags)
           else Some (F_QNAN, fflags OR FFLAG_INVALID_OP)
         else if a_exp = 0 \<and> a_mant = 0 then Some (pack_sf False 0 0, fflags)
         else
           let (a_exp, a_mant) =
                 (if a_exp = 0 then normalize_subnormal_sf a_mant
                  else (a_exp, a_mant OR push_bit (MANT_SIZE TYPE('a)) 1));
               a_exp = a_exp - em div 2;
               (a_exp, a_mant) = (if odd a_exp then (a_exp - 1, push_bit 1 a_mant) else (a_exp, a_mant));
               a_exp = drop_bit 1 a_exp + em div 2;
               a_mant = push_bit (LENGTH('a) - 4 - MANT_SIZE TYPE('a)) a_mant
           in case sqrtrem_u a_mant 0 of
                None \<Rightarrow> None
              | Some (inexact, s) \<Rightarrow>
                  normalize_sf a_sign a_exp (if inexact then s OR 1 else s) rm fflags)"

end
