(* ===== verification/Softfp_Cvt.thy ===== *)
theory Softfp_Cvt
  imports Softfp_Arith
begin

text \<open>
  Comparisons, classification and conversions: the rest of
  \<open>include/softfp_template.h\<close> and \<open>include/softfp_template_icvt.h\<close>, which is
  included for \<open>ICVT_SIZE\<close> 32, 64 and 128 (here \<open>LENGTH('i)\<close>).
\<close>

section \<open>Comparisons\<close>

text \<open>The NaN operands of \<open>min_sf\<close> and \<open>max_sf\<close>.\<close>

definition minmax_nan :: "'a::len word \<Rightarrow> 'a word \<Rightarrow> u32 \<Rightarrow> 'a word \<times> u32" where
  "minmax_nan a b fflags =
     (if isnan_sf a then if isnan_sf b then F_QNAN else b else a,
      if issignan_sf a \<or> issignan_sf b then fflags OR FFLAG_INVALID_OP else fflags)"

definition min_sf :: "'a::len word \<Rightarrow> 'a word \<Rightarrow> u32 \<Rightarrow> 'a word \<times> u32" where
  "min_sf a b fflags =
     (if isnan_sf a \<or> isnan_sf b then minmax_nan a b fflags
      else if sf_sign a \<noteq> sf_sign b then (if sf_sign a then a else b, fflags)
      else (if (a < b) \<noteq> sf_sign a then a else b, fflags))"

definition max_sf :: "'a::len word \<Rightarrow> 'a word \<Rightarrow> u32 \<Rightarrow> 'a word \<times> u32" where
  "max_sf a b fflags =
     (if isnan_sf a \<or> isnan_sf b then minmax_nan a b fflags
      else if sf_sign a \<noteq> sf_sign b then (if sf_sign a then b else a, fflags)
      else (if (a < b) \<noteq> sf_sign a then b else a, fflags))"

definition eq_quiet_sf :: "'a::len word \<Rightarrow> 'a word \<Rightarrow> u32 \<Rightarrow> bool \<times> u32" where
  "eq_quiet_sf a b fflags =
     (if isnan_sf a \<or> isnan_sf b then
        (False, if issignan_sf a \<or> issignan_sf b then fflags OR FFLAG_INVALID_OP else fflags)
      else if push_bit 1 (a OR b) = 0 then (True, fflags)
      else (a = b, fflags))"

definition le_sf :: "'a::len word \<Rightarrow> 'a word \<Rightarrow> u32 \<Rightarrow> bool \<times> u32" where
  "le_sf a b fflags =
     (if isnan_sf a \<or> isnan_sf b then (False, fflags OR FFLAG_INVALID_OP)
      else if sf_sign a \<noteq> sf_sign b then (sf_sign a \<or> push_bit 1 (a OR b) = 0, fflags)
      else if sf_sign a then (a \<ge> b, fflags)
      else (a \<le> b, fflags))"

definition lt_sf :: "'a::len word \<Rightarrow> 'a word \<Rightarrow> u32 \<Rightarrow> bool \<times> u32" where
  "lt_sf a b fflags =
     (if isnan_sf a \<or> isnan_sf b then (False, fflags OR FFLAG_INVALID_OP)
      else if sf_sign a \<noteq> sf_sign b then (sf_sign a \<and> push_bit 1 (a OR b) \<noteq> 0, fflags)
      else if sf_sign a then (a > b, fflags)
      else (a < b, fflags))"

definition fclass_sf :: "'a::len word \<Rightarrow> u32" where
  "fclass_sf a =
     (let a_sign = sf_sign a; a_exp = sf_exp a; a_mant = sf_mant a
      in if a_exp = EXP_MASK TYPE('a) then
           if a_mant \<noteq> 0 then if a_mant AND QNAN_MASK \<noteq> 0 then FCLASS_QNAN else FCLASS_SNAN
           else if a_sign then FCLASS_NINF else FCLASS_PINF
         else if a_exp = 0 then
           if a_mant = 0 then if a_sign then FCLASS_NZERO else FCLASS_PZERO
           else if a_sign then FCLASS_NSUBNORMAL else FCLASS_PSUBNORMAL
         else if a_sign then FCLASS_NNORMAL else FCLASS_PNORMAL)"

section \<open>Conversions between floats\<close>

text \<open>
  Widening, \<open>cvt_sf32_sf\<close> and \<open>cvt_sf64_sf\<close>: the source format is
  \<open>'s\<close>, \<open>0xff\<close> and \<open>0x7f\<close> (\<open>0x7ff\<close> and \<open>0x3ff\<close>) are its
  \<open>EXP_MASK\<close> and \<open>EXP_MASK / 2\<close>, 23 (52) its \<open>MANT_SIZE\<close>.
\<close>

definition cvt_widen_sf :: "'s::len word \<Rightarrow> u32 \<Rightarrow> 'a::len word \<times> u32" where
  "cvt_widen_sf a fflags =
     (let a_sign = sf_sign a; a_exp = sf_exp a; a_mant = sf_mant a
      in if a_exp = EXP_MASK TYPE('s) then
           if a_mant \<noteq> 0 then
             (F_QNAN, if issignan_sf a then fflags OR FFLAG_INVALID_OP else fflags)
           else (pack_sf a_sign (EXP_MASK TYPE('a)) 0, fflags)
         else if a_exp = 0 \<and> a_mant = 0 then (pack_sf a_sign 0 0, fflags)
         else
           let (a_exp, a_mant) = (if a_exp = 0 then normalize_subnormal_sf a_mant else (a_exp, a_mant));
               a_exp = a_exp - EXP_MASK TYPE('s) div 2 + EXP_MASK TYPE('a) div 2;
               a_mant = push_bit (MANT_SIZE TYPE('a) - MANT_SIZE TYPE('s)) (ucast a_mant)
           in (pack_sf a_sign a_exp a_mant, fflags))"

definition cvt_sf32_sf64 :: "u32 \<Rightarrow> u32 \<Rightarrow> u64 \<times> u32" where
  "cvt_sf32_sf64 a fflags = cvt_widen_sf a fflags"

definition cvt_sf32_sf128 :: "u32 \<Rightarrow> u32 \<Rightarrow> u128 \<times> u32" where
  "cvt_sf32_sf128 a fflags = cvt_widen_sf a fflags"

definition cvt_sf64_sf128 :: "u64 \<Rightarrow> u32 \<Rightarrow> u128 \<times> u32" where
  "cvt_sf64_sf128 a fflags = cvt_widen_sf a fflags"

text \<open>
  Narrowing, \<open>cvt_sf<F>_sf32\<close> and \<open>cvt_sf<F>_sf64\<close>: the target format is
  \<open>'t\<close>.  As in the source, the mantissa \<open>normalize_subnormal_sf\<close> returns is
  dropped and only the exponent it computes is kept.
\<close>

definition cvt_narrow_sf ::
  "'a::len word \<Rightarrow> RoundingModeEnum \<Rightarrow> u32 \<Rightarrow> ('t::len word \<times> u32) option" where
  "cvt_narrow_sf a rm fflags =
     (let a_sign = sf_sign a; a_exp = sf_exp a; a_mant = sf_mant a
      in if a_exp = EXP_MASK TYPE('a) then
           if a_mant \<noteq> 0 then
             Some (F_QNAN, if issignan_sf a then fflags OR FFLAG_INVALID_OP else fflags)
           else Some (pack_sf a_sign (EXP_MASK TYPE('t)) 0, fflags)
         else if a_exp = 0 \<and> a_mant = 0 then Some (pack_sf a_sign 0 0, fflags)
         else
           let (a_exp, a_mant) =
                 (if a_exp = 0 then (fst (normalize_subnormal_sf a_mant), a_mant)
                  else (a_exp, a_mant OR push_bit (MANT_SIZE TYPE('a)) 1));
               a_exp = a_exp - EXP_MASK TYPE('a) div 2 + EXP_MASK TYPE('t) div 2;
               a_mant = rshift_rnd a_mant (int (MANT_SIZE TYPE('a)) - (int LENGTH('t) - 2))
           in normalize_sf a_sign a_exp (ucast a_mant) rm fflags)"

definition cvt_sf64_sf32 :: "u64 \<Rightarrow> RoundingModeEnum \<Rightarrow> u32 \<Rightarrow> (u32 \<times> u32) option" where
  "cvt_sf64_sf32 a rm fflags = cvt_narrow_sf a rm fflags"

definition cvt_sf128_sf32 :: "u128 \<Rightarrow> RoundingModeEnum \<Rightarrow> u32 \<Rightarrow> (u32 \<times> u32) option" where
  "cvt_sf128_sf32 a rm fflags = cvt_narrow_sf a rm fflags"

definition cvt_sf128_sf64 :: "u128 \<Rightarrow> RoundingModeEnum \<Rightarrow> u32 \<Rightarrow> (u64 \<times> u32) option" where
  "cvt_sf128_sf64 a rm fflags = cvt_narrow_sf a rm fflags"

section \<open>Conversions between floats and integers\<close>

definition internal_cvt_sf_i ::
  "'a::len word \<Rightarrow> RoundingModeEnum \<Rightarrow> u32 \<Rightarrow> bool \<Rightarrow> 'i::len word \<times> u32" where
  "internal_cvt_sf_i a rm fflags is_unsigned =
     (let a_exp = sf_exp a; a_mant = sf_mant a;
          a_sign = (if a_exp = EXP_MASK TYPE('a) \<and> a_mant \<noteq> 0 then False else sf_sign a);
          (a_exp, a_mant) =
            (if a_exp = 0 then (1, a_mant)
             else (a_exp, a_mant OR push_bit (MANT_SIZE TYPE('a)) 1));
          a_mant = push_bit (RND_SIZE TYPE('a)) a_mant;
          a_exp = a_exp - EXP_MASK TYPE('a) div 2 - int (MANT_SIZE TYPE('a));
          r_max = (if is_unsigned then b2w a_sign - 1
                   else push_bit (LENGTH('i) - 1) 1 - b2w (\<not> a_sign)) :: 'i word;
          overflow = (r_max, fflags OR FFLAG_INVALID_OP)
      in if a_exp \<ge> 0 then
           if a_exp \<le> int LENGTH('i) - 1 - int (MANT_SIZE TYPE('a)) then
             let r = push_bit (nat a_exp) (ucast (drop_bit (RND_SIZE TYPE('a)) a_mant))
             in if r > r_max then overflow else (if a_sign then - r else r, fflags)
           else overflow
         else
           let a_mant = rshift_rnd a_mant (- a_exp);
               addend = rnd_addend rm a_sign;
               rnd_bits = a_mant AND (push_bit (RND_SIZE TYPE('a)) 1 - 1);
               a_mant = drop_bit (RND_SIZE TYPE('a)) (a_mant + addend);
               a_mant = (if rm = RM_RNE \<and> rnd_bits = push_bit (RND_SIZE TYPE('a) - 1) 1
                         then a_mant AND NOT 1 else a_mant)
           in if unat a_mant > unat r_max then overflow
              else
                let r = ucast a_mant
                in (if a_sign then - r else r,
                    if rnd_bits \<noteq> 0 then fflags OR FFLAG_INEXACT else fflags))"

definition cvt_sf_i ::
  "'a::len word \<Rightarrow> RoundingModeEnum \<Rightarrow> u32 \<Rightarrow> 'i::len word \<times> u32" where
  "cvt_sf_i a rm fflags = internal_cvt_sf_i a rm fflags False"

definition cvt_sf_u ::
  "'a::len word \<Rightarrow> RoundingModeEnum \<Rightarrow> u32 \<Rightarrow> 'i::len word \<times> u32" where
  "cvt_sf_u a rm fflags = internal_cvt_sf_i a rm fflags True"

definition internal_cvt_i_sf ::
  "'i::len word \<Rightarrow> RoundingModeEnum \<Rightarrow> u32 \<Rightarrow> bool \<Rightarrow> ('a::len word \<times> u32) option" where
  "internal_cvt_i_sf a rm fflags is_unsigned =
     (let (a_sign, r) = (if \<not> is_unsigned \<and> a <s 0 then (True, - a) else (False, a));
          a_exp = EXP_MASK TYPE('a) div 2 + int LENGTH('a) - 2;
          l = int LENGTH('i) - int (clz r) - (int LENGTH('a) - 1);
          (a_exp, r) =
            (if l > 0 then
               let msk = r AND (push_bit (nat l) 1 - 1)
               in (a_exp + l, drop_bit (nat l) r OR b2w (r AND msk \<noteq> 0))
             else (a_exp, r))
      in normalize_sf a_sign a_exp (ucast r) rm fflags)"

definition cvt_i_sf ::
  "'i::len word \<Rightarrow> RoundingModeEnum \<Rightarrow> u32 \<Rightarrow> ('a::len word \<times> u32) option" where
  "cvt_i_sf a rm fflags = internal_cvt_i_sf a rm fflags False"

definition cvt_u_sf ::
  "'i::len word \<Rightarrow> RoundingModeEnum \<Rightarrow> u32 \<Rightarrow> ('a::len word \<times> u32) option" where
  "cvt_u_sf a rm fflags = internal_cvt_i_sf a rm fflags True"

end
