(* ===== verification/Riscv_Mem.thy ===== *)
theory Riscv_Mem
  imports Riscv_State Softfp_Cvt
begin

text \<open>
  Memory accesses of a hart (\<open>src/riscv_cpu.cpp\<close>): physical memory protection, debug
  triggers, address translation, the read, write and code TLBs, loads, stores and instruction
  fetches.  A C result of 0 with a value is \<open>Some\<close> value, a result of -1 (exception
  pending) is \<open>None\<close>.  The configuration is the default one: \<open>FLEN\<close> 64,
  \<open>CONFIG_ALLOW_MISALIGNED_ACCESS\<close> 0, \<open>CONFIG_SW_MANAGED_A_AND_D\<close> 1,
  \<open>LIVECACHE\<close> and \<open>GOLDMEM\<close> off (the \<open>track_\<close> functions return the data).
\<close>

section \<open>Physical memory protection\<close>

text \<open>The privilege an access is checked with: \<open>mstatus.MPP\<close> under \<open>mstatus.MPRV\<close>.\<close>

definition access_priv :: "'z RISCVCPUState_scheme \<Rightarrow> bool \<Rightarrow> u8" where
  "access_priv s is_code =
     (if mstatus s AND MSTATUS_MPRV \<noteq> 0 \<and> \<not> is_code then ucast (drop_bit 11 (mstatus s) AND 3)
      else priv s)"

text \<open>The first entry from \<open>i\<close> on that intersects the access decides.\<close>

fun pmp_scan ::
  "'z RISCVCPUState_scheme \<Rightarrow> u8 \<Rightarrow> u64 \<Rightarrow> u64 \<Rightarrow> u8 \<Rightarrow> nat list \<Rightarrow> bool" where
  "pmp_scan s prv paddr sz perm [] = (prv = PRV_M)"
| "pmp_scan s prv paddr sz perm (i # is) =
     (if pmp_lo (pmp s i) \<le> paddr + sz - 1 \<and> paddr < pmp_hi (pmp s i) then
        if prv < PRV_M \<or> pmpcfg s i AND PMPCFG_L \<noteq> 0 then perm AND pmpcfg s i = perm else True
      else pmp_scan s prv paddr sz perm is)"

definition riscv_cpu_pmp_access_ok ::
  "'z RISCVCPUState_scheme \<Rightarrow> u64 \<Rightarrow> u64 \<Rightarrow> u8 \<Rightarrow> bool" where
  "riscv_cpu_pmp_access_ok s paddr sz perm =
     (if drop_bit (physical_addr_len s) paddr \<noteq> 0 then False
      else pmp_scan s (access_priv s (perm AND PMPCFG_X \<noteq> 0)) paddr sz perm [0..<pmp_n s])"

text \<open>\<open>None\<close>: blocked (\<open>*fail\<close>); otherwise the range found, if any.\<close>

definition get_phys_mem_range_pmp ::
  "('d, 'z) RISCVMachine_scheme \<Rightarrow> u64 \<Rightarrow> u64 \<Rightarrow> u8 \<Rightarrow> nat option option" where
  "get_phys_mem_range_pmp m paddr sz perm =
     (if \<not> riscv_cpu_pmp_access_ok m paddr sz perm then None
      else Some (get_phys_mem_range (mem_map m) paddr))"

section \<open>Triggers\<close>

definition trigger_match :: "u64 \<Rightarrow> u64 \<Rightarrow> u64 \<Rightarrow> bool" where
  "trigger_match td1 td2 addr =
     (let t_match = drop_bit 7 (td1 AND MCONTROL_MATCH);
          napot_mask = NOT ((td2 + 1) XOR td2)
      in t_match = 0 \<and> addr = td2
         \<or> t_match = 1 \<and> napot_mask AND addr = napot_mask AND td2
         \<or> t_match = 2 \<and> addr \<ge> td2
         \<or> t_match = 3 \<and> addr < td2)"

fun triggers_from ::
  "nat list \<Rightarrow> u64 \<Rightarrow> u64 \<Rightarrow> 'z RISCVCPUState_scheme \<Rightarrow> bool \<times> 'z RISCVCPUState_scheme" where
  "triggers_from [] t_mctl addr s = (False, s)"
| "triggers_from (i # is) t_mctl addr s =
     (if tdata1 s i AND t_mctl = t_mctl \<and> trigger_match (tdata1 s i) (tdata2 s i) addr then
        if tdata2 s i AND MCONTROL_ACTION \<noteq> 0 \<and> tdata1 s i AND MCONTROL_DMODE \<noteq> 0
        then (True, s\<lparr>debug_mode := True, pc := 0x0800\<rparr>)
        else (True, s\<lparr>pending_exception := CAUSE_BREAKPOINT, pending_tval := addr\<rparr>)
      else triggers_from is t_mctl addr s)"

definition check_triggers ::
  "u64 \<Rightarrow> u64 \<Rightarrow> 'z RISCVCPUState_scheme \<Rightarrow> bool \<times> 'z RISCVCPUState_scheme" where
  "check_triggers t_mctl addr s =
     (if debug_mode s then (False, s)
      else triggers_from [0..<MAX_TRIGGERS] (t_mctl OR push_bit (unat (priv s)) MCONTROL_U) addr s)"

section \<open>Physical accesses\<close>

definition range_ptr :: "PhysMemoryRange \<Rightarrow> u64 \<Rightarrow> u64" where
  "range_ptr pr paddr = pr_phys_mem pr + (paddr - pr_addr pr)"

text \<open>\<open>riscv_phys_read_u##size\<close> and \<open>riscv_phys_write_u##size\<close>; \<open>None\<close> is \<open>*fail\<close>.\<close>

definition riscv_phys_read ::
  "nat \<Rightarrow> ('d, 'z) RISCVMachine_scheme \<Rightarrow> u64 \<Rightarrow> u64 option" where
  "riscv_phys_read size_log2 m paddr =
     (case get_phys_mem_range_pmp m paddr (push_bit size_log2 1) PMPCFG_R of
        None \<Rightarrow> None
      | Some None \<Rightarrow> None
      | Some (Some i) \<Rightarrow> Some (host_load size_log2 (ram m) (range_ptr (mem_map m ! i) paddr)))"

definition riscv_phys_write ::
  "nat \<Rightarrow> ('d, 'z) RISCVMachine_scheme \<Rightarrow> u64 \<Rightarrow> u64 \<Rightarrow> ('d, 'z) RISCVMachine_scheme option" where
  "riscv_phys_write size_log2 m paddr v =
     (case get_phys_mem_range_pmp m paddr (push_bit size_log2 1) PMPCFG_W of
        None \<Rightarrow> None
      | Some None \<Rightarrow> None
      | Some (Some i) \<Rightarrow>
          if \<not> pr_is_ram (mem_map m ! i) then None
          else Some (m\<lparr>ram := host_store size_log2 (ram m) (range_ptr (mem_map m ! i) paddr) v\<rparr>))"

section \<open>Address translation\<close>

datatype riscv_memory_access_t = ACCESS_READ | ACCESS_WRITE | ACCESS_CODE

fun access_code :: "riscv_memory_access_t \<Rightarrow> nat" where
  "access_code ACCESS_READ = 0"
| "access_code ACCESS_WRITE = 1"
| "access_code ACCESS_CODE = 2"

text \<open>The results 0 (with \<open>*ppaddr\<close>), -1 and -2 of \<open>riscv_cpu_get_phys_addr\<close>.\<close>

datatype translation = Phys u64 | Page_fault | Access_fault

text \<open>The checks on a leaf entry at level \<open>j\<close>: the tests of the loop body from the \<open>xwr\<close> test on.\<close>

definition leaf_ok ::
  "'z RISCVCPUState_scheme \<Rightarrow> u8 \<Rightarrow> riscv_memory_access_t \<Rightarrow> u64 \<Rightarrow> nat \<Rightarrow> bool" where
  "leaf_ok s prv access pte j =
     (let xwr = drop_bit 1 pte AND 7
      in \<not> (xwr = 2 \<or> xwr = 6) \<and>
         (if prv = PRV_S then \<not> (pte AND 0x10 \<noteq> 0 \<and> mstatus s AND MSTATUS_SUM = 0)
          else pte AND 0x10 \<noteq> 0) \<and>
         (let xwr = (if mstatus s AND MSTATUS_MXR \<noteq> 0 then xwr OR drop_bit 2 xwr else xwr)
          in drop_bit (access_code access) xwr AND 1 \<noteq> 0) \<and>
         (push_bit j 1 - 1) AND ucast (drop_bit 10 pte) = (0 :: u32) \<and>
         pte AND 0x40 \<noteq> 0 \<and>
         \<not> (access = ACCESS_WRITE \<and> pte AND 0x80 = 0))"

text \<open>The walk with \<open>j + 1\<close> levels left; \<open>pte_addr\<close> is the table of this level.\<close>

fun pt_walk ::
  "('d, 'z) RISCVMachine_scheme \<Rightarrow> u8 \<Rightarrow> u64 \<Rightarrow> riscv_memory_access_t \<Rightarrow> nat \<Rightarrow> u64 \<Rightarrow> translation" where
  "pt_walk m prv vaddr access 0 pte_addr = Page_fault"
| "pt_walk m prv vaddr access (Suc j) pte_addr =
     (let vaddr_shift = PG_SHIFT + 9 * j;
          pte_idx = drop_bit vaddr_shift vaddr AND 0x1ff;
          pte_addr = pte_addr + push_bit 3 pte_idx
      in case riscv_phys_read 3 m pte_addr of
           None \<Rightarrow> Access_fault
         | Some pte \<Rightarrow>
             if pte AND 1 = 0 then Page_fault
             else
               let paddr = push_bit PG_SHIFT (drop_bit 10 pte)
               in if drop_bit 1 pte AND 7 \<noteq> 0 then
                    if leaf_ok m prv access pte j then
                      let vaddr_mask = push_bit vaddr_shift 1 - 1
                      in Phys ((paddr AND NOT vaddr_mask) OR (vaddr AND vaddr_mask))
                    else Page_fault
                  else pt_walk m prv vaddr access j paddr)"

text \<open>\<open>satp.MODE\<close> is 0, 8 (Sv39) or 9 (Sv48): \<open>csr_write\<close> stores no other mode.\<close>

definition riscv_cpu_get_phys_addr ::
  "('d, 'z) RISCVMachine_scheme \<Rightarrow> u64 \<Rightarrow> riscv_memory_access_t \<Rightarrow> translation" where
  "riscv_cpu_get_phys_addr m vaddr access =
     (let prv = access_priv m (access = ACCESS_CODE);
          mode = unat (drop_bit 60 (satp m) AND 0xf)
      in if prv = PRV_M then Phys vaddr
         else if mode = 0 then Phys vaddr
         else
           let levels = mode + 3 - 8;
               vaddr_shift = 64 - (PG_SHIFT + levels * 9)
           in if signed_drop_bit vaddr_shift (push_bit vaddr_shift vaddr) \<noteq> vaddr then Page_fault
              else pt_walk m prv vaddr access levels
                     (push_bit PG_SHIFT (satp m AND (push_bit 44 1 - 1))))"

section \<open>Loads and stores\<close>

definition set_exception :: "int \<Rightarrow> u64 \<Rightarrow> 'z RISCVCPUState_scheme \<Rightarrow> 'z RISCVCPUState_scheme" where
  "set_exception cause tval s = s\<lparr>pending_tval := tval, pending_exception := cause\<rparr>"

definition tlb_index :: "u64 \<Rightarrow> nat" where
  "tlb_index addr = unat (drop_bit PG_SHIFT addr AND 0xff)"

text \<open>The device branch of \<open>riscv_cpu_read_memory\<close>: a 64-bit access to a device with 32-bit registers is split.\<close>

definition device_load ::
  "('d, 'z) RISCVMachine_scheme cpu_env \<Rightarrow> PhysMemoryRange \<Rightarrow> u64 \<Rightarrow> nat
     \<Rightarrow> ('d, 'z) RISCVMachine_scheme \<Rightarrow> u64 \<times> ('d, 'z) RISCVMachine_scheme" where
  "device_load e pr offset size_log2 m =
     (if drop_bit size_log2 (pr_devio_flags pr) AND 1 \<noteq> 0 then
        case dev_read e (pr_opaque pr) (ucast offset) size_log2 m of (v, m) \<Rightarrow> (ucast v, m)
      else if pr_devio_flags pr AND DEVIO_SIZE32 \<noteq> 0 \<and> size_log2 = 3 then
        case dev_read e (pr_opaque pr) (ucast offset) 2 m of (lo, m) \<Rightarrow>
        case dev_read e (pr_opaque pr) (ucast (offset + 4)) 2 m of (hi, m) \<Rightarrow>
          (ucast lo OR push_bit 32 (ucast hi), m)
      else (0, m))"

definition riscv_cpu_read_memory ::
  "('d, 'z) RISCVMachine_scheme cpu_env \<Rightarrow> u64 \<Rightarrow> nat
     \<Rightarrow> ('d, 'z) RISCVMachine_scheme \<Rightarrow> u64 option \<times> ('d, 'z) RISCVMachine_scheme" where
  "riscv_cpu_read_memory e addr size_log2 m =
     (if addr AND (push_bit size_log2 1 - 1) \<noteq> 0 then (None, set_exception CAUSE_MISALIGNED_LOAD addr m)
      else
        case riscv_cpu_get_phys_addr m addr ACCESS_READ of
          Page_fault \<Rightarrow> (None, set_exception CAUSE_LOAD_PAGE_FAULT addr m)
        | Access_fault \<Rightarrow> (None, set_exception CAUSE_FAULT_LOAD addr m)
        | Phys paddr \<Rightarrow>
            (case get_phys_mem_range_pmp m paddr (push_bit size_log2 1) PMPCFG_R of
               None \<Rightarrow> (None, set_exception CAUSE_FAULT_LOAD addr m)
             | Some None \<Rightarrow> (Some (mmio_value e addr), m)
             | Some (Some i) \<Rightarrow>
                 let pr = mem_map m ! i;
                     (ret, m) =
                       (if pr_is_ram pr then
                          let tlb_idx = tlb_index addr; ptr = range_ptr pr paddr
                          in (host_load size_log2 (ram m) ptr,
                              m\<lparr>tlb_read := (tlb_read m)(tlb_idx :=
                                   \<lparr>tlb_vaddr = addr AND NOT PG_MASK, tlb_mem_addend = ptr - addr\<rparr>),
                                tlb_read_paddr_addend := (tlb_read_paddr_addend m)(tlb_idx := paddr - addr)\<rparr>)
                        else device_load e pr (paddr - pr_addr pr) size_log2 m)
                 in (Some ret, m\<lparr>last_data_paddr := paddr\<rparr>)))"

definition device_store ::
  "('d, 'z) RISCVMachine_scheme cpu_env \<Rightarrow> PhysMemoryRange \<Rightarrow> u64 \<Rightarrow> u64 \<Rightarrow> nat
     \<Rightarrow> ('d, 'z) RISCVMachine_scheme \<Rightarrow> ('d, 'z) RISCVMachine_scheme" where
  "device_store e pr offset v size_log2 m =
     (if drop_bit size_log2 (pr_devio_flags pr) AND 1 \<noteq> 0 then
        dev_write e (pr_opaque pr) (ucast offset) (ucast v) size_log2 m
      else if pr_devio_flags pr AND DEVIO_SIZE32 \<noteq> 0 \<and> size_log2 = 3 then
        dev_write e (pr_opaque pr) (ucast (offset + 4)) (ucast (drop_bit 32 v)) 2
          (dev_write e (pr_opaque pr) (ucast offset) (ucast v) 2 m)
      else m)"

text \<open>\<open>True\<close>: done (C result 0).\<close>

definition riscv_cpu_write_memory ::
  "('d, 'z) RISCVMachine_scheme cpu_env \<Rightarrow> u64 \<Rightarrow> u64 \<Rightarrow> nat
     \<Rightarrow> ('d, 'z) RISCVMachine_scheme \<Rightarrow> bool \<times> ('d, 'z) RISCVMachine_scheme" where
  "riscv_cpu_write_memory e addr v size_log2 m =
     (if addr AND (push_bit size_log2 1 - 1) \<noteq> 0 then (False, set_exception CAUSE_MISALIGNED_STORE addr m)
      else
        case riscv_cpu_get_phys_addr m addr ACCESS_WRITE of
          Page_fault \<Rightarrow> (False, set_exception CAUSE_STORE_PAGE_FAULT addr m)
        | Access_fault \<Rightarrow> (False, set_exception CAUSE_FAULT_STORE addr m)
        | Phys paddr \<Rightarrow>
            (case get_phys_mem_range_pmp m paddr (push_bit size_log2 1) PMPCFG_W of
               None \<Rightarrow> (False, set_exception CAUSE_FAULT_STORE addr m)
             | Some None \<Rightarrow> (True, m\<lparr>last_data_paddr := paddr\<rparr>)
             | Some (Some i) \<Rightarrow>
                 let pr = mem_map m ! i;
                     m = (if pr_is_ram pr then
                            let tlb_idx = tlb_index addr; ptr = range_ptr pr paddr
                            in m\<lparr>mem_map := (mem_map m)[i := phys_mem_set_dirty_bit pr (paddr - pr_addr pr)],
                                 tlb_write := (tlb_write m)(tlb_idx :=
                                   \<lparr>tlb_vaddr = addr AND NOT PG_MASK, tlb_mem_addend = ptr - addr\<rparr>),
                                 tlb_write_paddr_addend := (tlb_write_paddr_addend m)(tlb_idx := paddr - addr),
                                 ram := host_store size_log2 (ram m) ptr v\<rparr>
                          else device_store e pr (paddr - pr_addr pr) v size_log2 m)
                 in (True, m\<lparr>last_data_paddr := paddr\<rparr>)))"

text \<open>The tag a TLB entry must carry for an access of \<open>2 ^ size_log2\<close> bytes.\<close>

definition tlb_tag :: "nat \<Rightarrow> u64 \<Rightarrow> u64" where
  "tlb_tag size_log2 addr = addr AND NOT (PG_MASK AND NOT (push_bit size_log2 1 - 1))"

text \<open>\<open>target_read_u##size\<close> and \<open>target_write_u##size\<close>.\<close>

definition target_read ::
  "('d, 'z) RISCVMachine_scheme cpu_env \<Rightarrow> nat \<Rightarrow> u64
     \<Rightarrow> ('d, 'z) RISCVMachine_scheme \<Rightarrow> u64 option \<times> ('d, 'z) RISCVMachine_scheme" where
  "target_read e size_log2 addr m =
     (case check_triggers MCONTROL_LOAD addr m of (hit, m) \<Rightarrow>
        if hit then (None, m)
        else if addr AND (push_bit size_log2 1 - 1) \<noteq> 0 then (None, set_exception CAUSE_MISALIGNED_LOAD addr m)
        else if tlb_vaddr (tlb_read m (tlb_index addr)) = tlb_tag size_log2 addr then
          (Some (host_load size_log2 (ram m) (tlb_mem_addend (tlb_read m (tlb_index addr)) + addr)), m)
        else
          case riscv_cpu_read_memory e addr size_log2 m of
            (None, m) \<Rightarrow> (None, m)
          | (Some v, m) \<Rightarrow> (Some (take_bit (8 * 2 ^ size_log2) v), m))"

definition target_write ::
  "('d, 'z) RISCVMachine_scheme cpu_env \<Rightarrow> nat \<Rightarrow> u64 \<Rightarrow> u64
     \<Rightarrow> ('d, 'z) RISCVMachine_scheme \<Rightarrow> bool \<times> ('d, 'z) RISCVMachine_scheme" where
  "target_write e size_log2 addr v m =
     (case check_triggers MCONTROL_STORE addr m of (hit, m) \<Rightarrow>
        if hit then (False, m)
        else if addr AND (push_bit size_log2 1 - 1) \<noteq> 0 then (False, set_exception CAUSE_MISALIGNED_STORE addr m)
        else if tlb_vaddr (tlb_write m (tlb_index addr)) = tlb_tag size_log2 addr then
          (True, m\<lparr>ram := host_store size_log2 (ram m) (tlb_mem_addend (tlb_write m (tlb_index addr)) + addr) v\<rparr>)
        else riscv_cpu_write_memory e addr (take_bit (8 * 2 ^ size_log2) v) size_log2 m)"

section \<open>Instruction fetch\<close>

definition fetch_range ::
  "('d, 'z) RISCVMachine_scheme \<Rightarrow> u64 \<Rightarrow> u64 \<Rightarrow> u64 option" where
  "fetch_range m paddr sz =
     (case get_phys_mem_range_pmp m paddr sz PMPCFG_X of
        Some (Some i) \<Rightarrow> if pr_is_ram (mem_map m ! i) then Some (range_ptr (mem_map m ! i) paddr) else None
      | _ \<Rightarrow> None)"

definition target_read_insn_slow ::
  "nat \<Rightarrow> u64 \<Rightarrow> ('d, 'z) RISCVMachine_scheme \<Rightarrow> u32 option \<times> ('d, 'z) RISCVMachine_scheme" where
  "target_read_insn_slow sz addr m =
     (case riscv_cpu_get_phys_addr m addr ACCESS_CODE of
        Page_fault \<Rightarrow> (None, set_exception CAUSE_FETCH_PAGE_FAULT addr m)
      | Access_fault \<Rightarrow> (None, set_exception CAUSE_FAULT_FETCH addr m)
      | Phys paddr \<Rightarrow>
          (case fetch_range m paddr (of_nat (sz div 8)) of
             None \<Rightarrow> (None, set_exception CAUSE_FAULT_FETCH addr m)
           | Some ptr \<Rightarrow>
               let tlb_idx = tlb_index addr;
                   m = (if riscv_cpu_pmp_access_ok m (paddr AND NOT PG_MASK) (PG_MASK + 1) PMPCFG_X then
                          m\<lparr>tlb_code := (tlb_code m)(tlb_idx :=
                               \<lparr>tlb_vaddr = addr AND NOT PG_MASK, tlb_mem_addend = ptr - addr\<rparr>),
                            tlb_code_paddr_addend := (tlb_code_paddr_addend m)(tlb_idx := paddr - addr)\<rparr>
                        else m)
               in if tlb_idx \<noteq> tlb_index (addr + 2) \<and> sz = 32 then
                    case riscv_cpu_get_phys_addr m (addr + 2) ACCESS_CODE of
                      Page_fault \<Rightarrow> (None, set_exception CAUSE_FETCH_PAGE_FAULT addr m)
                    | Access_fault \<Rightarrow> (None, set_exception CAUSE_FAULT_FETCH addr m)
                    | Phys paddr_cross \<Rightarrow>
                        (case fetch_range m paddr_cross 2 of
                           None \<Rightarrow> (None, set_exception CAUSE_FAULT_FETCH addr m)
                         | Some ptr_cross \<Rightarrow>
                             (Some (ucast (get_le16 (ram m) ptr) OR
                                    push_bit 16 (ucast (get_le16 (ram m) ptr_cross))), m))
                  else if sz = 32 then (Some (get_le32 (ram m) ptr), m)
                  else (Some (ucast (get_le16 (ram m) ptr)), m)))"

definition target_read_insn_u16 ::
  "u64 \<Rightarrow> ('d, 'z) RISCVMachine_scheme \<Rightarrow> u16 option \<times> ('d, 'z) RISCVMachine_scheme" where
  "target_read_insn_u16 addr m =
     (if tlb_vaddr (tlb_code m (tlb_index addr)) = addr AND NOT PG_MASK then
        (Some (get_le16 (ram m) (tlb_mem_addend (tlb_code m (tlb_index addr)) + addr)), m)
      else
        case target_read_insn_slow 16 addr m of
          (None, m) \<Rightarrow> (None, m)
        | (Some i, m) \<Rightarrow> (Some (ucast i), m))"

section \<open>TLB maintenance\<close>

definition tlb_init :: "'z RISCVCPUState_scheme \<Rightarrow> 'z RISCVCPUState_scheme" where
  "tlb_init s = s\<lparr>tlb_read := (\<lambda>i. if i < 256 then (tlb_read s i)\<lparr>tlb_vaddr := - 1\<rparr> else tlb_read s i),
     tlb_write := (\<lambda>i. if i < 256 then (tlb_write s i)\<lparr>tlb_vaddr := - 1\<rparr> else tlb_write s i),
     tlb_code := (\<lambda>i. if i < 256 then (tlb_code s i)\<lparr>tlb_vaddr := - 1\<rparr> else tlb_code s i)\<rparr>"

definition tlb_flush_all :: "'z RISCVCPUState_scheme \<Rightarrow> 'z RISCVCPUState_scheme" where
  "tlb_flush_all s = tlb_init s"

definition tlb_flush_vaddr :: "u64 \<Rightarrow> 'z RISCVCPUState_scheme \<Rightarrow> 'z RISCVCPUState_scheme" where
  "tlb_flush_vaddr vaddr s = tlb_flush_all s"

definition riscv_cpu_flush_tlb_write_range_ram ::
  "u64 \<Rightarrow> u64 \<Rightarrow> 'z RISCVCPUState_scheme \<Rightarrow> 'z RISCVCPUState_scheme" where
  "riscv_cpu_flush_tlb_write_range_ram ram_ptr ram_size s =
     (let ram_end = ram_ptr + ram_size
      in s\<lparr>tlb_write := (\<lambda>i.
           let t = tlb_write s i; ptr = tlb_mem_addend t + tlb_vaddr t
           in if i < 256 \<and> tlb_vaddr t \<noteq> - 1 \<and> ram_ptr \<le> ptr \<and> ptr < ram_end
              then t\<lparr>tlb_vaddr := - 1\<rparr> else t)\<rparr>)"

end
