(* ===== verification/Riscv_CSR.thy ===== *)
theory Riscv_CSR
  imports Riscv_Mem
begin

text \<open>
  Control and status registers (\<open>src/riscv_cpu.cpp\<close>): \<open>mstatus\<close>, counters, triggers,
  physical memory protection, and the read and write dispatchers \<open>csr_read\<close> and
  \<open>csr_write\<close>.
\<close>

section \<open>mstatus\<close>

abbreviation (input) SSTATUS_MASK :: u64 where "SSTATUS_MASK \<equiv>
  MSTATUS_SIE OR MSTATUS_SPIE OR MSTATUS_SPP OR MSTATUS_FS OR MSTATUS_SUM OR MSTATUS_MXR
  OR MSTATUS_UXL_MASK"

abbreviation (input) MSTATUS_MASK :: u64 where "MSTATUS_MASK \<equiv>
  MSTATUS_SIE OR MSTATUS_MIE OR MSTATUS_SPIE OR MSTATUS_MPIE OR MSTATUS_SPP OR MSTATUS_MPP
  OR MSTATUS_FS OR MSTATUS_MPRV OR MSTATUS_SUM OR MSTATUS_MXR OR MSTATUS_TVM OR MSTATUS_TW
  OR MSTATUS_TSR OR MSTATUS_UXL_MASK OR MSTATUS_SXL_MASK"

definition get_mstatus :: "'z RISCVCPUState_scheme \<Rightarrow> u64 \<Rightarrow> u64" where
  "get_mstatus s msk =
     (let v = (mstatus s OR push_bit 13 (ucast (fs s))) AND msk;
          sd = (v AND MSTATUS_FS = MSTATUS_FS \<or> v AND MSTATUS_XS = MSTATUS_XS)
      in if sd then v OR push_bit 63 1 else v)"

definition set_mstatus :: "u64 \<Rightarrow> 'z RISCVCPUState_scheme \<Rightarrow> 'z RISCVCPUState_scheme" where
  "set_mstatus v s =
     (let md = mstatus s XOR v;
          s = (if md AND (MSTATUS_MPRV OR MSTATUS_SUM OR MSTATUS_MXR) \<noteq> 0
                  \<or> mstatus s AND MSTATUS_MPRV \<noteq> 0 \<and> md AND MSTATUS_MPP \<noteq> 0
               then tlb_flush_all s else s);
          msk = MSTATUS_MASK AND NOT (MSTATUS_FS OR MSTATUS_UXL_MASK OR MSTATUS_SXL_MASK)
      in s\<lparr>fs := ucast (drop_bit 13 v AND 3), mstatus := (mstatus s AND NOT msk) OR (v AND msk)\<rparr>)"

section \<open>Counters\<close>

definition counter_access_ok :: "'z RISCVCPUState_scheme \<Rightarrow> u32 \<Rightarrow> bool" where
  "counter_access_ok s csr =
     (let counteren = (if priv s = PRV_U then scounteren s
                       else if priv s = PRV_S then mcounteren s
                       else if priv s = PRV_M then - 1 else 0)
      in drop_bit (unat (csr AND 31)) counteren AND 1 \<noteq> 0)"

section \<open>Reading\<close>

text \<open>
  The switch of \<open>csr_read\<close>: \<open>None\<close> is an invalid or inaccessible register.
\<close>

definition csr_read_fp :: "'z RISCVCPUState_scheme \<Rightarrow> u32 \<Rightarrow> u64 option" where
  "csr_read_fp s csr =
     (if fs s = 0 then None
      else if csr = 0x001 then Some (ucast (fflags s))
      else if csr = 0x002 then Some (ucast (frm s))
      else Some (ucast (fflags s) OR push_bit 5 (ucast (frm s))))"

definition csr_read_switch :: "'z RISCVCPUState_scheme \<Rightarrow> u32 \<Rightarrow> u64 option" where
  "csr_read_switch s csr =
     (if csr = 0x001 \<or> csr = 0x002 \<or> csr = 0x003 then csr_read_fp s csr
      else if csr = 0x100 then Some (get_mstatus s SSTATUS_MASK)
      else if csr = 0x104 then Some (ucast (mie s AND mideleg s))
      else if csr = 0x105 then Some (stvec s)
      else if csr = 0x106 then Some (ucast (scounteren s))
      else if csr = 0x140 then Some (sscratch s)
      else if csr = 0x141 then Some (sepc s)
      else if csr = 0x142 then Some (scause s)
      else if csr = 0x143 then Some (stval s)
      else if csr = 0x144 then Some (ucast (mip s AND mideleg s))
      else if csr = 0x180 then
        if priv s = PRV_S \<and> mstatus s AND MSTATUS_TVM \<noteq> 0 then None else Some (satp s)
      else if csr = 0x300 then Some (get_mstatus s (- 1))
      else if csr = 0x301 then Some (ucast (misa s) OR push_bit 62 2)
      else if csr = 0x302 then Some (ucast (medeleg s))
      else if csr = 0x303 then Some (ucast (mideleg s))
      else if csr = 0x304 then Some (ucast (mie s))
      else if csr = 0x305 then Some (mtvec s)
      else if csr = 0x306 then Some (ucast (mcounteren s))
      else if csr = 0x320 then Some (ucast (mcountinhibit s))
      else if csr = 0x340 then Some (mscratch s)
      else if csr = 0x341 then Some (mepc s)
      else if csr = 0x342 then Some (mcause s)
      else if csr = 0x343 then Some (mtval s)
      else if csr = 0x344 then Some (ucast (mip s))
      else if csr = 0x7a0 then Some (ucast (tselect s))
      else if csr = 0x7a1 then Some (tdata1 s (unat (tselect s)))
      else if csr = 0x7a2 then Some (tdata2 s (unat (tselect s)))
      else if csr = 0x7b0 then if debug_mode s then Some (dcsr s) else None
      else if csr = 0x7b1 then if debug_mode s then Some (dpc s) else None
      else if csr = 0x7b2 then if debug_mode s then Some (dscratch s) else None
      else if csr = 0xb00 \<or> csr = 0xc00 then if counter_access_ok s csr then Some (mcycle s) else None
      else if csr = 0xb02 \<or> csr = 0xc02 then if counter_access_ok s csr then Some (minstret s) else None
      else if 0xb03 \<le> csr \<and> csr \<le> 0xb1f \<or> 0xc03 \<le> csr \<and> csr \<le> 0xc1f then
        if counter_access_ok s csr then Some 0 else None
      else if csr = 0xf14 then Some (mhartid s)
      else if csr = 0xf13 then Some (mimpid s)
      else if csr = 0xf12 then Some (marchid s)
      else if csr = 0xf11 then Some (mvendorid s)
      else if 0x323 \<le> csr \<and> csr \<le> 0x33f then Some (mhpmevent s (unat (csr AND 0x1f)))
      else if csr = 0x3a0 \<or> csr = 0x3a2 then Some (csr_pmpcfg s (unat (csr - 0x3a0)))
      else if 0x3b0 \<le> csr \<and> csr \<le> 0x3bf then Some (csr_pmpaddr s (unat (csr - 0x3b0)))
      else None)"

text \<open>The access checks, the hook, then the switch.\<close>

definition csr_read ::
  "('d, 'z) RISCVMachine_scheme cpu_env \<Rightarrow> u32 \<Rightarrow> u32 \<Rightarrow> bool
     \<Rightarrow> ('d, 'z) RISCVMachine_scheme \<Rightarrow> u64 option \<times> ('d, 'z) RISCVMachine_scheme" where
  "csr_read e funct3 csr will_write m =
     (if csr AND 0xc00 = 0xc00 \<and> will_write then (None, m)
      else if priv m < ucast (drop_bit 8 csr AND 3) then (None, m)
      else
        case hook_csr_read e of
          None \<Rightarrow> (csr_read_switch m csr, m)
        | Some hook \<Rightarrow>
            (case hook funct3 csr m of
               (Some v, m) \<Rightarrow> (Some v, m)
             | (None, m) \<Rightarrow> (csr_read_switch m csr, m)))"

section \<open>Rounding mode\<close>

definition set_frm :: "u8 \<Rightarrow> 'z RISCVCPUState_scheme \<Rightarrow> 'z RISCVCPUState_scheme" where
  "set_frm v s = s\<lparr>frm := v\<rparr>"

text \<open>The rounding modes 0 to 4; \<open>None\<close> is the result -1.\<close>

definition rm_of_code :: "u32 \<Rightarrow> RoundingModeEnum option" where
  "rm_of_code rm =
     (if rm = 0 then Some RM_RNE else if rm = 1 then Some RM_RTZ else if rm = 2 then Some RM_RDN
      else if rm = 3 then Some RM_RUP else if rm = 4 then Some RM_RMM else None)"

definition get_insn_rm :: "'z RISCVCPUState_scheme \<Rightarrow> u32 \<Rightarrow> RoundingModeEnum option" where
  "get_insn_rm s rm = rm_of_code (if rm = 7 then ucast (frm s) else rm)"

section \<open>PMP registers\<close>

fun trailing_ones :: "nat \<Rightarrow> nat \<Rightarrow> u64 \<Rightarrow> nat" where
  "trailing_ones 0 j a = j"
| "trailing_ones (Suc n) j a = (if bit a j then trailing_ones n (Suc j) a else j)"

definition napot_range :: "u64 \<Rightarrow> pmp_addr" where
  "napot_range a =
     (let j = trailing_ones 64 0 a + 3
      in if j \<ge> 64 then \<lparr>pmp_lo = 0, pmp_hi = - 1\<rparr>
         else
           let lo = push_bit 2 a AND NOT (push_bit j 1 - 1); hi = lo + push_bit j 1
           in \<lparr>pmp_lo = lo, pmp_hi = (if hi \<le> lo then - 1 else hi)\<rparr>)"

definition pmpcfg_byte :: "'z RISCVCPUState_scheme \<Rightarrow> nat \<Rightarrow> u8" where
  "pmpcfg_byte s i =
     (if i < 8 then ucast (drop_bit (i * 8) (csr_pmpcfg s 0))
      else ucast (drop_bit ((i - 8) * 8) (csr_pmpcfg s 2)))"

text \<open>The range entry \<open>i\<close> denotes; \<open>None\<close> when it is off.\<close>

definition pmp_entry :: "'z RISCVCPUState_scheme \<Rightarrow> nat \<Rightarrow> pmp_addr option" where
  "pmp_entry s i =
     (let a = pmpcfg_byte s i AND PMPCFG_A_MASK
      in if a = PMPCFG_A_TOR then
           Some \<lparr>pmp_lo = (if i = 0 then 0 else push_bit 2 (csr_pmpaddr s (i - 1))),
                 pmp_hi = push_bit 2 (csr_pmpaddr s i)\<rparr>
         else if a = PMPCFG_A_NA4 then
           Some \<lparr>pmp_lo = push_bit 2 (csr_pmpaddr s i), pmp_hi = push_bit 2 (csr_pmpaddr s i) + 4\<rparr>
         else if a = PMPCFG_A_NAPOT then Some (napot_range (csr_pmpaddr s i))
         else None)"

definition unpack_step :: "nat \<Rightarrow> 'z RISCVCPUState_scheme \<Rightarrow> 'z RISCVCPUState_scheme" where
  "unpack_step i s =
     (case pmp_entry s i of
        None \<Rightarrow> s
      | Some r \<Rightarrow> s\<lparr>pmpcfg := (pmpcfg s)(pmp_n s := pmpcfg_byte s i),
                     pmp := (pmp s)(pmp_n s := r), pmp_n := pmp_n s + 1\<rparr>)"

definition unpack_pmpaddrs :: "'z RISCVCPUState_scheme \<Rightarrow> 'z RISCVCPUState_scheme" where
  "unpack_pmpaddrs s = tlb_flush_all (fold unpack_step [0..<16] (s\<lparr>pmp_n := 0\<rparr>))"

text \<open>The new value of a configuration register: locked bytes keep their value.\<close>

definition pmpcfg_merge_byte :: "u64 \<Rightarrow> u64 \<Rightarrow> nat \<Rightarrow> u64" where
  "pmpcfg_merge_byte orig v i =
     (let cfg = drop_bit (i * 8) orig AND 255;
          cfg = (if cfg AND 0x80 = 0 then drop_bit (i * 8) v AND 255 else cfg)
      in cfg AND NOT 0x60)"

definition pmpcfg_merge :: "u64 \<Rightarrow> u64 \<Rightarrow> u64" where
  "pmpcfg_merge orig v =
     fold (\<lambda>i new_val. new_val OR push_bit (i * 8) (pmpcfg_merge_byte orig v i)) [0..<8] 0"

definition write_pmpcfg :: "nat \<Rightarrow> u64 \<Rightarrow> 'z RISCVCPUState_scheme \<Rightarrow> 'z RISCVCPUState_scheme" where
  "write_pmpcfg c v s =
     (if PMP_N \<le> c div 2 * 8 then s
      else unpack_pmpaddrs (s\<lparr>csr_pmpcfg := (csr_pmpcfg s)(c := pmpcfg_merge (csr_pmpcfg s c) v)\<rparr>))"

definition write_pmpaddr :: "nat \<Rightarrow> u64 \<Rightarrow> 'z RISCVCPUState_scheme \<Rightarrow> 'z RISCVCPUState_scheme" where
  "write_pmpaddr i v s =
     (if PMP_N \<le> i then s
      else
        let cfg = drop_bit (i * 8) (csr_pmpcfg s (i div 8))
        in if cfg AND 0x80 \<noteq> 0 then s
           else
             let cfg = drop_bit 8 cfg
             in if cfg AND 0x18 = 0x8 \<and> cfg AND 0x80 \<noteq> 0 then s
                else unpack_pmpaddrs (s\<lparr>csr_pmpaddr := (csr_pmpaddr s)(i := v AND PMPADDR_MASK)\<rparr>))"

section \<open>Writing\<close>

text \<open>A write through a mask, on a 32-bit register: \<open>r & ~mask | val & mask\<close>.\<close>

definition masked32 :: "u32 \<Rightarrow> u32 \<Rightarrow> u64 \<Rightarrow> u32" where
  "masked32 r msk v = (r AND NOT msk) OR (ucast v AND msk)"

text \<open>\<open>~1\<close> with compressed instructions, \<open>~3\<close> without.\<close>

definition pc_align_mask :: "'z RISCVCPUState_scheme \<Rightarrow> u64" where
  "pc_align_mask s = (if misa s AND MCPUID_C \<noteq> 0 then NOT 1 else NOT 3)"

text \<open>\<open>if (val & 1) val &= ~255 + 1\<close>, the alignment of vectored trap bases.\<close>

definition tvec_align :: "u64 \<Rightarrow> u64" where
  "tvec_align v = (if v AND 1 \<noteq> 0 then v AND (NOT 255 + 1) else v)"

definition write_tdata1 :: "u64 \<Rightarrow> 'z RISCVCPUState_scheme \<Rightarrow> 'z RISCVCPUState_scheme" where
  "write_tdata1 v s =
     (let t = unat (tselect s)
      in if tdata1 s t AND MCONTROL_DMODE = 0 \<or> debug_mode s then
           let msk = (if debug_mode s then 0x20800000000011df + 0x800000000000000 else 0x20800000000011df);
               v = v OR 0x2080000000000000
           in s\<lparr>tdata1 := (tdata1 s)(t := (tdata1 s t AND NOT msk) OR (v AND msk))\<rparr>
         else s)"

definition write_tdata2 :: "u64 \<Rightarrow> 'z RISCVCPUState_scheme \<Rightarrow> 'z RISCVCPUState_scheme" where
  "write_tdata2 v s =
     (let t = unat (tselect s)
      in if tdata1 s t AND MCONTROL_DMODE = 0 \<or> debug_mode s
         then s\<lparr>tdata2 := (tdata2 s)(t := v)\<rparr> else s)"

text \<open>
  \<open>stop_the_counter = dcsr & 0x600 != 0\<close> parses as \<open>dcsr & (0x600 != 0)\<close>: bit 0.
\<close>

definition write_dcsr :: "u64 \<Rightarrow> 'z RISCVCPUState_scheme \<Rightarrow> 'z RISCVCPUState_scheme" where
  "write_dcsr v s =
     (let d = (dcsr s AND NOT 0x603) OR (v AND 0x603)
      in s\<lparr>dcsr := d, stop_the_counter := (d AND 1 \<noteq> 0)\<rparr>)"

text \<open>Supervisor and user registers (numbers below 0x300).\<close>

definition csr_write_s ::
  "u32 \<Rightarrow> u64 \<Rightarrow> 'z RISCVCPUState_scheme \<Rightarrow> int \<times> 'z RISCVCPUState_scheme" where
  "csr_write_s csr v s =
     (if csr = 0x001 then (0, s\<lparr>fflags := ucast v AND 0x1f, fs := 3\<rparr>)
      else if csr = 0x002 then (0, (set_frm (ucast (v AND 7)) s)\<lparr>fs := 3\<rparr>)
      else if csr = 0x003 then
        (0, (set_frm (ucast (drop_bit 5 v AND 7)) s)\<lparr>fflags := ucast v AND 0x1f, fs := 3\<rparr>)
      else if csr = 0x100 then
        (0, set_mstatus ((mstatus s AND NOT SSTATUS_MASK) OR (v AND SSTATUS_MASK)) s)
      else if csr = 0x104 then (0, s\<lparr>mie := masked32 (mie s) (mideleg s) v\<rparr>)
      else if csr = 0x105 then (0, s\<lparr>stvec := tvec_align v AND NOT 2\<rparr>)
      else if csr = 0x106 then (0, s\<lparr>scounteren := ucast v\<rparr>)
      else if csr = 0x140 then (0, s\<lparr>sscratch := v\<rparr>)
      else if csr = 0x141 then (0, s\<lparr>sepc := CANONICAL_S49 (v AND pc_align_mask s)\<rparr>)
      else if csr = 0x142 then (0, s\<lparr>scause := v AND SCAUSE_MASK\<rparr>)
      else if csr = 0x143 then (0, s\<lparr>stval := CANONICAL_S49 v\<rparr>)
      else if csr = 0x144 then (0, s\<lparr>mip := masked32 (mip s) (mideleg s) v\<rparr>)
      else if csr = 0x180 then
        if priv s = PRV_S \<and> mstatus s AND MSTATUS_TVM \<noteq> 0 then (- 1, s)
        else
          let mode = drop_bit 60 v AND 15;
              s = (if mode = 0 \<or> mode = 8 \<or> mode = 9 then s\<lparr>satp := v AND SATP_MASK\<rparr> else s)
          in (2, tlb_flush_all s)
      else (- 1, s))"

text \<open>Machine registers.\<close>

definition csr_write_m ::
  "u32 \<Rightarrow> u64 \<Rightarrow> 'z RISCVCPUState_scheme \<Rightarrow> int \<times> 'z RISCVCPUState_scheme" where
  "csr_write_m csr v s =
     (if csr = 0x300 then (0, set_mstatus v s)
      else if csr = 0x301 then (0, s)
      else if csr = 0x302 then (0, s\<lparr>medeleg := masked32 (medeleg s) 0xb109 v\<rparr>)
      else if csr = 0x303 then
        (0, s\<lparr>mideleg := masked32 (mideleg s) (MIP_SSIP OR MIP_STIP OR MIP_SEIP) v\<rparr>)
      else if csr = 0x304 then
        (0, s\<lparr>mie := masked32 (mie s)
               (MIP_MCIP OR MIP_MEIP OR MIP_SEIP OR MIP_MTIP OR MIP_STIP OR MIP_MSIP OR MIP_SSIP) v\<rparr>)
      else if csr = 0x305 then
        (0, s\<lparr>mtvec := tvec_align v AND (push_bit (physical_addr_len s) 1 - 3)\<rparr>)
      else if csr = 0x306 then (0, s\<lparr>mcounteren := ucast v\<rparr>)
      else if csr = 0x320 then (0, s\<lparr>mcountinhibit := ucast (v AND NOT 2)\<rparr>)
      else if csr = 0x340 then (0, s\<lparr>mscratch := v\<rparr>)
      else if csr = 0x341 then (0, s\<lparr>mepc := CANONICAL_S49 (v AND pc_align_mask s)\<rparr>)
      else if csr = 0x342 then (0, s\<lparr>mcause := v AND MCAUSE_MASK\<rparr>)
      else if csr = 0x343 then (0, s\<lparr>mtval := CANONICAL_S49 v\<rparr>)
      else if csr = 0x344 then
        (0, s\<lparr>mip := masked32 (mip s) (MIP_SEIP OR MIP_STIP OR MIP_SSIP) v\<rparr>)
      else if 0x323 \<le> csr \<and> csr \<le> 0x33f then
        (0, s\<lparr>mhpmevent := (mhpmevent s)(unat (csr AND 0x1f) := v AND HPM_EVENT_MASKS)\<rparr>)
      else if csr = 0x3a0 \<or> csr = 0x3a2 then (0, write_pmpcfg (unat (csr - 0x3a0)) v s)
      else if 0x3b0 \<le> csr \<and> csr \<le> 0x3bf then (0, write_pmpaddr (unat (csr - 0x3b0)) v s)
      else if csr = 0xb00 then (0, s\<lparr>mcycle := v\<rparr>)
      else if csr = 0xb02 then (0, s\<lparr>minstret := v\<rparr>)
      else if 0xb03 \<le> csr \<and> csr \<le> 0xb1f then (0, s)
      else (- 1, s))"

text \<open>Trigger and debug registers.\<close>

definition csr_write_dbg ::
  "u32 \<Rightarrow> u64 \<Rightarrow> 'z RISCVCPUState_scheme \<Rightarrow> int \<times> 'z RISCVCPUState_scheme" where
  "csr_write_dbg csr v s =
     (if csr = 0x7a0 then (0, s\<lparr>tselect := ucast (v mod of_nat MAX_TRIGGERS)\<rparr>)
      else if csr = 0x7a1 then (0, write_tdata1 v s)
      else if csr = 0x7a2 then (0, write_tdata2 v s)
      else if csr = 0x7b0 then if debug_mode s then (0, write_dcsr v s) else (- 1, s)
      else if csr = 0x7b1 then if debug_mode s then (0, s\<lparr>dpc := v AND pc_align_mask s\<rparr>) else (- 1, s)
      else if csr = 0x7b2 then if debug_mode s then (0, s\<lparr>dscratch := v\<rparr>) else (- 1, s)
      else (- 1, s))"

definition csr_write_switch ::
  "u32 \<Rightarrow> u64 \<Rightarrow> 'z RISCVCPUState_scheme \<Rightarrow> int \<times> 'z RISCVCPUState_scheme" where
  "csr_write_switch csr v s =
     (if csr < 0x300 then csr_write_s csr v s
      else if 0x7a0 \<le> csr \<and> csr \<le> 0x7b2 then csr_write_dbg csr v s
      else csr_write_m csr v s)"

definition csr_write ::
  "('d, 'z) RISCVMachine_scheme cpu_env \<Rightarrow> u32 \<Rightarrow> u32 \<Rightarrow> u64
     \<Rightarrow> ('d, 'z) RISCVMachine_scheme \<Rightarrow> int \<times> ('d, 'z) RISCVMachine_scheme" where
  "csr_write e funct3 csr v m =
     (case hook_csr_write e of
        None \<Rightarrow> csr_write_switch csr v m
      | Some hook \<Rightarrow>
          (case hook funct3 csr v m of (handled, m) \<Rightarrow>
             if handled then (0, m) else csr_write_switch csr v m))"

end
