(* ===== verification/Riscv_Trap.thy ===== *)
theory Riscv_Trap
  imports Riscv_CSR
begin

text \<open>
  Traps and interrupts (\<open>src/riscv_cpu.cpp\<close>): taking an exception or an interrupt with
  delegation, returning from one, and the choice of the interrupt to take.
\<close>

section \<open>Privilege\<close>

definition set_priv :: "u8 \<Rightarrow> 'z RISCVCPUState_scheme \<Rightarrow> 'z RISCVCPUState_scheme" where
  "set_priv prv s = (if priv s \<noteq> prv then (tlb_flush_all s)\<lparr>priv := prv\<rparr> else s)"

section \<open>Taking a trap\<close>

definition delegated :: "'z RISCVCPUState_scheme \<Rightarrow> u64 \<Rightarrow> bool" where
  "delegated s cause =
     (if priv s \<le> PRV_S then
        if cause AND CAUSE_INTERRUPT \<noteq> 0 then drop_bit (unat (cause AND 63)) (mideleg s) AND 1 \<noteq> 0
        else drop_bit (unat cause) (medeleg s) AND 1 \<noteq> 0
      else False)"

text \<open>The status after a trap from \<open>prv\<close>: xPIE = xIE, xPP = \<open>prv\<close>, xIE = 0.\<close>

definition trap_status_s :: "u64 \<Rightarrow> u8 \<Rightarrow> u64" where
  "trap_status_s st prv =
     (let st = (st AND NOT MSTATUS_SPIE) OR push_bit 5 (b2w (st AND MSTATUS_SIE \<noteq> 0));
          st = (st AND NOT MSTATUS_SPP) OR push_bit 8 (ucast prv)
      in st AND NOT MSTATUS_SIE)"

definition trap_status_m :: "u64 \<Rightarrow> u8 \<Rightarrow> u64" where
  "trap_status_m st prv =
     (let st = (st AND NOT MSTATUS_MPIE) OR push_bit 7 (b2w (st AND MSTATUS_MIE \<noteq> 0));
          st = (st AND NOT MSTATUS_MPP) OR push_bit 11 (ucast prv)
      in st AND NOT MSTATUS_MIE)"

definition trap_to_s :: "u64 \<Rightarrow> u64 \<Rightarrow> 'z RISCVCPUState_scheme \<Rightarrow> 'z RISCVCPUState_scheme" where
  "trap_to_s cause tval s =
     set_priv PRV_S (s\<lparr>scause := cause, sepc := CANONICAL_S49 (pc s),
       stval := CANONICAL_S49 tval, mstatus := trap_status_s (mstatus s) (priv s)\<rparr>)"

definition trap_to_m :: "u64 \<Rightarrow> u64 \<Rightarrow> 'z RISCVCPUState_scheme \<Rightarrow> 'z RISCVCPUState_scheme" where
  "trap_to_m cause tval s =
     set_priv PRV_M (s\<lparr>mcause := cause, mepc := CANONICAL_S49 (pc s),
       mtval := CANONICAL_S49 tval, mstatus := trap_status_m (mstatus s) (priv s)\<rparr>)"

definition trap_target :: "u64 \<Rightarrow> u64 \<Rightarrow> u64" where
  "trap_target effective_tvec cause =
     (let base = effective_tvec AND NOT 3
      in if effective_tvec AND 3 = 1 \<and> cause AND CAUSE_INTERRUPT \<noteq> 0
         then base + 4 * (cause AND NOT CAUSE_INTERRUPT) else base)"

definition raise_exception2 :: "u64 \<Rightarrow> u64 \<Rightarrow> 'z RISCVCPUState_scheme \<Rightarrow> 'z RISCVCPUState_scheme" where
  "raise_exception2 cause tval s =
     (if delegated s cause then
        let s = trap_to_s cause tval s in s\<lparr>pc := trap_target (stvec s) cause\<rparr>
      else
        let s = trap_to_m cause tval s in s\<lparr>pc := trap_target (mtvec s) cause\<rparr>)"

definition raise_exception :: "u64 \<Rightarrow> 'z RISCVCPUState_scheme \<Rightarrow> 'z RISCVCPUState_scheme" where
  "raise_exception cause s = raise_exception2 cause 0 s"

section \<open>Returning from a trap\<close>

text \<open>\<open>Copy down xPIE to xIE and set xPIE\<close>\<close>

definition ret_status_s :: "u64 \<Rightarrow> u64" where
  "ret_status_s st =
     (let st = st AND NOT MSTATUS_SIE;
          st = st OR (drop_bit 4 st AND MSTATUS_SIE)
      in st OR MSTATUS_SPIE)"

definition ret_status_m :: "u64 \<Rightarrow> u64" where
  "ret_status_m st =
     (let st = st AND NOT MSTATUS_MIE;
          st = st OR (drop_bit 4 st AND MSTATUS_MIE)
      in st OR MSTATUS_MPIE)"

definition status_spp :: "u64 \<Rightarrow> u8" where
  "status_spp st = ucast (drop_bit 8 (st AND MSTATUS_SPP))"

definition status_mpp :: "u64 \<Rightarrow> u8" where
  "status_mpp st = ucast (drop_bit 11 (st AND MSTATUS_MPP))"

definition handle_sret :: "'z RISCVCPUState_scheme \<Rightarrow> 'z RISCVCPUState_scheme" where
  "handle_sret s =
     (let st = ret_status_s (mstatus s);
          s = set_priv (status_spp st) (s\<lparr>mstatus := st AND NOT MSTATUS_SPP\<rparr>)
      in s\<lparr>pc := sepc s\<rparr>)"

definition handle_mret :: "'z RISCVCPUState_scheme \<Rightarrow> 'z RISCVCPUState_scheme" where
  "handle_mret s =
     (let st = ret_status_m (mstatus s);
          s = set_priv (status_mpp st) (s\<lparr>mstatus := st AND NOT MSTATUS_MPP\<rparr>)
      in s\<lparr>pc := mepc s\<rparr>)"

definition handle_dret :: "'z RISCVCPUState_scheme \<Rightarrow> 'z RISCVCPUState_scheme" where
  "handle_dret s =
     (let s = set_priv (ucast (dcsr s AND 3)) (s\<lparr>stop_the_counter := False, debug_mode := False\<rparr>)
      in s\<lparr>pc := dpc s\<rparr>)"

section \<open>Interrupts\<close>

definition get_pending_irq_mask :: "'z RISCVCPUState_scheme \<Rightarrow> u32" where
  "get_pending_irq_mask s =
     (let pending_ints = mip s AND mie s
      in if pending_ints = 0 then 0
         else
           let enabled_ints =
                 (if priv s = PRV_M then if mstatus s AND MSTATUS_MIE \<noteq> 0 then NOT (mideleg s) else 0
                  else if priv s = PRV_S then
                    NOT (mideleg s) OR (if mstatus s AND MSTATUS_SIE \<noteq> 0 then mideleg s else 0)
                  else - 1)
           in pending_ints AND enabled_ints)"

text \<open>\<open>for (i = 31; i > 0; --i)\<close>; -1 when no bit is set.\<close>

fun irq_scan_down :: "u32 \<Rightarrow> nat \<Rightarrow> int" where
  "irq_scan_down local_ints 0 = - 1"
| "irq_scan_down local_ints (Suc i) =
     (if drop_bit (Suc i) local_ints AND 1 \<noteq> 0 then int (Suc i) else irq_scan_down local_ints i)"

definition get_irq_platspecific :: "u32 \<Rightarrow> int" where
  "get_irq_platspecific msk = irq_scan_down (msk AND push_bit 12 0xffffffff) 31"

definition irq_priorities :: "nat list" where
  "irq_priorities = [11, 3, 7, 10, 2, 6, 9, 1, 5, 8, 0, 4]"

fun irq_first :: "u32 \<Rightarrow> nat list \<Rightarrow> int" where
  "irq_first msk [] = - 1"
| "irq_first msk (p # ps) = (if drop_bit p msk AND 1 \<noteq> 0 then int p else irq_first msk ps)"

definition get_irq_num :: "u32 \<Rightarrow> int" where
  "get_irq_num msk =
     (if msk \<ge> push_bit 12 1 then get_irq_platspecific msk else irq_first msk irq_priorities)"

text \<open>\<open>True\<close>: an interrupt was taken (C result -1).\<close>

definition raise_interrupt :: "'z RISCVCPUState_scheme \<Rightarrow> bool \<times> 'z RISCVCPUState_scheme" where
  "raise_interrupt s =
     (let msk = get_pending_irq_mask s
      in if msk = 0 then (False, s)
         else (True, raise_exception (word_of_int (get_irq_num msk) OR CAUSE_INTERRUPT) s))"

section \<open>Interrupt pending bits\<close>

definition riscv_cpu_set_mip :: "u32 \<Rightarrow> ('d, 'z) RISCVMachine_scheme \<Rightarrow> ('d, 'z) RISCVMachine_scheme" where
  "riscv_cpu_set_mip msk m =
     (let m = m\<lparr>mip := mip m OR msk\<rparr>
      in if power_down_flag m \<and> mip m AND mie m \<noteq> 0 \<and> (pending_interrupt m \<noteq> - 1 \<or> \<not> cosim m)
         then m\<lparr>power_down_flag := False\<rparr> else m)"

definition riscv_cpu_reset_mip :: "u32 \<Rightarrow> 'z RISCVCPUState_scheme \<Rightarrow> 'z RISCVCPUState_scheme" where
  "riscv_cpu_reset_mip msk s = s\<lparr>mip := mip s AND NOT msk\<rparr>"

end
