(* ===== verification/Riscv_ALU.thy ===== *)
theory Riscv_ALU
  imports Riscv_State Softfp_Cvt
begin

text \<open>
  The arithmetic helpers at the top of \<open>include/dromajo_template.h\<close>, included for
  \<open>XLEN\<close> 32 and 64 (here \<open>LENGTH('a)\<close>), and the small helpers of
  \<open>src/riscv_cpu.cpp\<close> the interpreter decodes instructions with.
\<close>

section \<open>Division\<close>

definition div_xlen :: "'a::len word \<Rightarrow> 'a word \<Rightarrow> 'a word" where
  "div_xlen a b =
     (if b = 0 then - 1
      else if a = push_bit (LENGTH('a) - 1) 1 \<and> b = - 1 then a
      else word_of_int (sint a sdiv sint b))"

definition divu_xlen :: "'a::len word \<Rightarrow> 'a word \<Rightarrow> 'a word" where
  "divu_xlen a b = (if b = 0 then - 1 else a div b)"

definition rem_xlen :: "'a::len word \<Rightarrow> 'a word \<Rightarrow> 'a word" where
  "rem_xlen a b =
     (if b = 0 then a
      else if a = push_bit (LENGTH('a) - 1) 1 \<and> b = - 1 then 0
      else word_of_int (sint a smod sint b))"

definition remu_xlen :: "'a::len word \<Rightarrow> 'a word \<Rightarrow> 'a word" where
  "remu_xlen a b = (if b = 0 then a else a mod b)"

section \<open>High half of a product\<close>

text \<open>With a double-width type (\<open>int64_t\<close> for 32, \<open>int128_t\<close> for 64 bits), wrapping.\<close>

definition mulh_wide :: "'a::len word \<Rightarrow> 'a word \<Rightarrow> 'a word" where
  "mulh_wide a b = word_of_int ((sint a * sint b) div 2 ^ LENGTH('a))"

definition mulhsu_wide :: "'a::len word \<Rightarrow> 'a word \<Rightarrow> 'a word" where
  "mulhsu_wide a b = word_of_int ((sint a * uint b) div 2 ^ LENGTH('a))"

definition mulhu_wide :: "'a::len word \<Rightarrow> 'a word \<Rightarrow> 'a word" where
  "mulhu_wide a b = word_of_int ((uint a * uint b) div 2 ^ LENGTH('a))"

text \<open>Without one: \<open>UHALF_LEN\<close> is half the width.\<close>

definition mulhu_half :: "'a::len word \<Rightarrow> 'a word \<Rightarrow> 'a word" where
  "mulhu_half a b =
     (let h = LENGTH('a) div 2;
          a0 = take_bit h a; a1 = take_bit h (drop_bit h a);
          b0 = take_bit h b; b1 = take_bit h (drop_bit h b);
          r00 = a0 * b0; r01 = a0 * b1; r10 = a1 * b0; r11 = a1 * b1;
          c = drop_bit h r00 + take_bit h r01 + take_bit h r10;
          c = drop_bit h c + drop_bit h r01 + drop_bit h r10 + take_bit h r11;
          r2 = take_bit h c;
          r3 = take_bit h (drop_bit h c + drop_bit h r11)
      in push_bit h r3 OR r2)"

definition mulh_half :: "'a::len word \<Rightarrow> 'a word \<Rightarrow> 'a word" where
  "mulh_half a b =
     (let r1 = mulhu_half a b;
          r1 = (if a <s 0 then r1 - a else r1)
      in if b <s 0 then r1 - b else r1)"

definition mulhsu_half :: "'a::len word \<Rightarrow> 'a word \<Rightarrow> 'a word" where
  "mulhsu_half a b =
     (let r1 = mulhu_half a b in if a <s 0 then r1 - a else r1)"

section \<open>Decoding helpers\<close>

definition sext :: "u32 \<Rightarrow> nat \<Rightarrow> u32" where
  "sext v n = signed_drop_bit (32 - n) (push_bit (32 - n) v)"

text \<open>The assertion \<open>dst_pos_max >= dst_pos\<close> holds at every call: all arguments are literals.\<close>

definition get_field1 :: "u32 \<Rightarrow> nat \<Rightarrow> nat \<Rightarrow> nat \<Rightarrow> u32" where
  "get_field1 v src_pos dst_pos dst_pos_max =
     (let msk = push_bit dst_pos (push_bit (dst_pos_max - dst_pos + 1) 1 - 1)
      in if dst_pos \<ge> src_pos then push_bit (dst_pos - src_pos) v AND msk
         else drop_bit (src_pos - dst_pos) v AND msk)"

definition ctf_of_links :: "bool \<Rightarrow> bool \<Rightarrow> RISCVCTFInfo" where
  "ctf_of_links rd_link rs1_link =
     (if rd_link then if rs1_link then ctf_taken_jalr_pop_push else ctf_taken_jalr_push
      else if rs1_link then ctf_taken_jalr_pop else ctf_taken_jalr)"

definition ctf_compute_hint :: "nat \<Rightarrow> nat \<Rightarrow> RISCVCTFInfo" where
  "ctf_compute_hint rd rs1 =
     (let k = ctf_of_links (rd = 1 \<or> rd = 5) (rs1 = 1 \<or> rs1 = 5)
      in if k = ctf_taken_jalr_pop_push \<and> rs1 = rd then ctf_taken_jalr_push else k)"

definition f_qnan32 :: u64 where
  "f_qnan32 = 0x7fc00000"

definition f_unbox32 :: "u64 \<Rightarrow> u64" where
  "f_unbox32 r = (if r AND F32_HIGH \<noteq> F32_HIGH then f_qnan32 else r)"

definition f_unbox64 :: "u64 \<Rightarrow> u64" where
  "f_unbox64 r = r"

text \<open>\<open>-1U << 22\<close> when not boxed.\<close>

definition chkfp32 :: "u64 \<Rightarrow> u32" where
  "chkfp32 a = (if a AND 0xffffffff00000000 \<noteq> 0xffffffff00000000 then push_bit 22 (- 1) else ucast a)"

section \<open>Instruction fields\<close>

definition insn_opcode :: "u32 \<Rightarrow> u32" where
  "insn_opcode insn = insn AND 0x7f"

definition insn_rd :: "u32 \<Rightarrow> nat" where
  "insn_rd insn = unat (drop_bit 7 insn AND 0x1f)"

definition insn_rs1 :: "u32 \<Rightarrow> nat" where
  "insn_rs1 insn = unat (drop_bit 15 insn AND 0x1f)"

definition insn_rs2 :: "u32 \<Rightarrow> nat" where
  "insn_rs2 insn = unat (drop_bit 20 insn AND 0x1f)"

definition insn_rs3 :: "u32 \<Rightarrow> nat" where
  "insn_rs3 insn = unat (drop_bit 27 insn)"

definition insn_funct3 :: "u32 \<Rightarrow> u32" where
  "insn_funct3 insn = drop_bit 12 insn AND 7"

text \<open>\<open>(int32_t)insn >> 20\<close>\<close>

definition imm_i :: "u32 \<Rightarrow> u32" where
  "imm_i insn = signed_drop_bit 20 insn"

definition imm_s :: "u32 \<Rightarrow> u32" where
  "imm_s insn = signed_drop_bit 20 (push_bit 20
     ((drop_bit 7 insn AND 0x1f) OR (drop_bit 20 insn AND 0xfe0)))"

definition imm_b :: "u32 \<Rightarrow> u32" where
  "imm_b insn = signed_drop_bit 19 (push_bit 19
     ((drop_bit 19 insn AND push_bit 12 1) OR (drop_bit 20 insn AND 0x7e0)
      OR (drop_bit 7 insn AND 0x1e) OR (push_bit 4 insn AND push_bit 11 1)))"

definition imm_j :: "u32 \<Rightarrow> u32" where
  "imm_j insn = signed_drop_bit 11 (push_bit 11
     ((drop_bit 11 insn AND push_bit 20 1) OR (drop_bit 20 insn AND 0x7fe)
      OR (drop_bit 9 insn AND push_bit 11 1) OR (insn AND 0xff000)))"

text \<open>Immediates of the compressed instructions.\<close>

definition c_imm6 :: "u32 \<Rightarrow> u32" where
  "c_imm6 insn = get_field1 insn 12 5 5 OR get_field1 insn 2 0 4"

definition c_imm_j :: "u32 \<Rightarrow> u32" where
  "c_imm_j insn = sext (get_field1 insn 12 11 11 OR get_field1 insn 11 4 4 OR get_field1 insn 9 8 9
     OR get_field1 insn 8 10 10 OR get_field1 insn 7 6 6 OR get_field1 insn 6 7 7
     OR get_field1 insn 3 1 3 OR get_field1 insn 2 5 5) 12"

definition c_imm_b :: "u32 \<Rightarrow> u32" where
  "c_imm_b insn = sext (get_field1 insn 12 8 8 OR get_field1 insn 10 3 4 OR get_field1 insn 5 6 7
     OR get_field1 insn 3 1 2 OR get_field1 insn 2 5 5) 9"

definition c_imm_w :: "u32 \<Rightarrow> u32" where
  "c_imm_w insn = get_field1 insn 10 3 5 OR get_field1 insn 6 2 2 OR get_field1 insn 5 6 6"

definition c_imm_d :: "u32 \<Rightarrow> u32" where
  "c_imm_d insn = get_field1 insn 10 3 5 OR get_field1 insn 5 6 7"

definition c_reg :: "u32 \<Rightarrow> nat \<Rightarrow> nat" where
  "c_reg insn pos = unat ((drop_bit pos insn AND 7) OR 8)"

end
