(* ===== verification/Riscv_Exec.thy ===== *)
theory Riscv_Exec
  imports Riscv_Trap Riscv_ALU
begin

text \<open>
  The instructions of the interpreter (\<open>include/dromajo_template.h\<close> for \<open>XLEN\<close> 64):
  one definition per group of cases of its switch.  Each maps the machine to an outcome, the way
  control leaves the case, and the machine after it.  \<open>gpc\<close> is \<open>GET_PC()\<close>, the address of
  the instruction.
\<close>

section \<open>Outcomes\<close>

text \<open>
  \<open>C_NEXT_INSN\<close> and \<open>NEXT_INSN\<close> advance by 2 and 4 bytes, \<open>JUMP_INSN\<close> continues at
  \<open>s->pc\<close>; the next four are the labels of the same names (\<open>EXCEPTION\<close> is both
  \<open>mmu_exception\<close> and \<open>exception\<close>); \<open>ABORT\<close> is a failed assertion.
\<close>

datatype outcome =
    C_NEXT_INSN | NEXT_INSN | JUMP_INSN RISCVCTFInfo
  | ILLEGAL_INSN | EXCEPTION | DONE_INTERP | THE_END | ABORT

type_synonym ('d, 'z) exec = "('d, 'z) RISCVMachine_scheme \<Rightarrow> outcome \<times> ('d, 'z) RISCVMachine_scheme"

text \<open>\<open>if (rd != 0) write_reg(rd, val)\<close>\<close>

definition write_rd :: "nat \<Rightarrow> u64 \<Rightarrow> 'z RISCVCPUState_scheme \<Rightarrow> 'z RISCVCPUState_scheme" where
  "write_rd rd v s = (if rd \<noteq> 0 then write_reg rd v s else s)"

text \<open>A load that continues with the value read, or leaves at \<open>mmu_exception\<close>; and a store.\<close>

definition load_then ::
  "('d, 'z) RISCVMachine_scheme cpu_env \<Rightarrow> nat \<Rightarrow> u64 \<Rightarrow> outcome
     \<Rightarrow> (u64 \<Rightarrow> ('d, 'z) RISCVMachine_scheme \<Rightarrow> ('d, 'z) RISCVMachine_scheme) \<Rightarrow> ('d, 'z) exec" where
  "load_then e size_log2 addr nxt f m =
     (case target_read e size_log2 addr m of
        (None, m) \<Rightarrow> (EXCEPTION, m)
      | (Some rval, m) \<Rightarrow> (nxt, f rval m))"

definition store_then ::
  "('d, 'z) RISCVMachine_scheme cpu_env \<Rightarrow> nat \<Rightarrow> u64 \<Rightarrow> u64 \<Rightarrow> outcome \<Rightarrow> ('d, 'z) exec" where
  "store_then e size_log2 addr v nxt m =
     (case target_write e size_log2 addr v m of (ok, m) \<Rightarrow> (if ok then nxt else EXCEPTION, m))"

definition raise_pending :: "int \<Rightarrow> u64 \<Rightarrow> ('d, 'z) exec" where
  "raise_pending cause tval m = (EXCEPTION, m\<lparr>pending_exception := cause, pending_tval := tval\<rparr>)"

text \<open>\<open>s->pc = target; JUMP_INSN(kind)\<close>\<close>

definition jump_to :: "RISCVCTFInfo \<Rightarrow> u64 \<Rightarrow> ('d, 'z) exec" where
  "jump_to kind target m = (JUMP_INSN kind, m\<lparr>pc := target\<rparr>)"

section \<open>Compressed instructions\<close>

text \<open>\<open>C_QUADRANT(0)\<close>\<close>

definition exec_c0 :: "('d, 'z) RISCVMachine_scheme cpu_env \<Rightarrow> u32 \<Rightarrow> ('d, 'z) exec" where
  "exec_c0 e insn m =
     (let funct3 = drop_bit 13 insn AND 7;
          rd = c_reg insn 2; rs1 = c_reg insn 7;
          addr_w = reg m rs1 + scast (c_imm_w insn);
          addr_d = reg m rs1 + scast (c_imm_d insn)
      in if funct3 = 0 then
           let imm = get_field1 insn 11 4 5 OR get_field1 insn 7 6 9 OR get_field1 insn 6 2 2
                     OR get_field1 insn 5 3 3
           in if imm = 0 then (ILLEGAL_INSN, m)
              else (C_NEXT_INSN, write_reg rd (reg m 2 + scast imm) m)
         else if funct3 = 1 then
           if fs m = 0 then (ILLEGAL_INSN, m)
           else load_then e 3 addr_d C_NEXT_INSN (\<lambda>rval. write_fp_reg rd (rval OR F64_HIGH)) m
         else if funct3 = 2 then
           load_then e 2 addr_w C_NEXT_INSN (\<lambda>rval. write_reg rd (sext32 rval)) m
         else if funct3 = 3 then
           load_then e 3 addr_d C_NEXT_INSN (\<lambda>rval. write_reg rd rval) m
         else if funct3 = 5 then
           if fs m = 0 then (ILLEGAL_INSN, m)
           else store_then e 3 addr_d (fp_reg m rd) C_NEXT_INSN m
         else if funct3 = 6 then store_then e 2 addr_w (reg m rd) C_NEXT_INSN m
         else if funct3 = 7 then store_then e 3 addr_d (reg m rd) C_NEXT_INSN m
         else (ILLEGAL_INSN, m))"

text \<open>The arithmetic group \<open>case 4\<close> of quadrant 1.\<close>

definition exec_c1_alu :: "u32 \<Rightarrow> ('d, 'z) exec" where
  "exec_c1_alu insn m =
     (let funct3 = drop_bit 10 insn AND 3;
          rd = c_reg insn 7; rs2 = c_reg insn 2;
          sh = unat (c_imm6 insn);
          a = reg m rd; b = reg m rs2;
          op = (drop_bit 5 insn AND 3) OR (drop_bit 10 insn AND 4)
      in if funct3 = 0 then (C_NEXT_INSN, write_reg rd (drop_bit sh a) m)
         else if funct3 = 1 then (C_NEXT_INSN, write_reg rd (signed_drop_bit sh a) m)
         else if funct3 = 2 then (C_NEXT_INSN, write_reg rd (a AND scast (sext (c_imm6 insn) 6)) m)
         else if op = 0 then (C_NEXT_INSN, write_reg rd (a - b) m)
         else if op = 1 then (C_NEXT_INSN, write_reg rd (a XOR b) m)
         else if op = 2 then (C_NEXT_INSN, write_reg rd (a OR b) m)
         else if op = 3 then (C_NEXT_INSN, write_reg rd (a AND b) m)
         else if op = 4 then (C_NEXT_INSN, write_reg rd (sext32 (a - b)) m)
         else if op = 5 then (C_NEXT_INSN, write_reg rd (sext32 (a + b)) m)
         else (ILLEGAL_INSN, m))"

text \<open>\<open>case 3\<close> of quadrant 1: \<open>c.addi16sp\<close> and \<open>c.lui\<close>.\<close>

definition exec_c1_lui :: "u32 \<Rightarrow> ('d, 'z) exec" where
  "exec_c1_lui insn m =
     (let rd = insn_rd insn;
          imm_lui = sext (get_field1 insn 12 17 17 OR get_field1 insn 2 12 16) 18
      in if rd = 2 then
           let imm = sext (get_field1 insn 12 9 9 OR get_field1 insn 6 4 4 OR get_field1 insn 5 6 6
                           OR get_field1 insn 3 7 8 OR get_field1 insn 2 5 5) 10
           in if imm = 0 then (ILLEGAL_INSN, m)
              else (C_NEXT_INSN, write_reg 2 (reg m 2 + scast imm) m)
         else if imm_lui = 0 then (ILLEGAL_INSN, m)
         else if rd \<noteq> 0 then (C_NEXT_INSN, write_reg rd (scast imm_lui) m)
         else (C_NEXT_INSN, m))"

text \<open>\<open>C_QUADRANT(1)\<close>\<close>

definition exec_c1 :: "u64 \<Rightarrow> u32 \<Rightarrow> ('d, 'z) exec" where
  "exec_c1 gpc insn m =
     (let funct3 = drop_bit 13 insn AND 7;
          rd = insn_rd insn;
          imm = sext (c_imm6 insn) 6
      in if funct3 = 0 then
           (C_NEXT_INSN, if rd \<noteq> 0 then write_reg rd (reg m rd + scast imm) m else m)
         else if funct3 = 1 then
           if rd = 0 then (ILLEGAL_INSN, m)
           else (C_NEXT_INSN, write_reg rd (sext32 (reg m rd + scast imm)) m)
         else if funct3 = 2 then (C_NEXT_INSN, write_rd rd (scast imm) m)
         else if funct3 = 3 then exec_c1_lui insn m
         else if funct3 = 4 then exec_c1_alu insn m
         else if funct3 = 5 then jump_to ctf_taken_jump (gpc + scast (c_imm_j insn)) m
         else if funct3 = 6 then
           if reg m (c_reg insn 7) = 0 then jump_to ctf_taken_branch (gpc + scast (c_imm_b insn)) m
           else (C_NEXT_INSN, m)
         else
           if reg m (c_reg insn 7) \<noteq> 0 then jump_to ctf_taken_branch (gpc + scast (c_imm_b insn)) m
           else (C_NEXT_INSN, m))"

text \<open>\<open>case 4\<close> of quadrant 2: \<open>c.jr\<close>, \<open>c.mv\<close>, \<open>c.ebreak\<close>, \<open>c.jalr\<close>, \<open>c.add\<close>.\<close>

definition exec_c2_jr :: "u64 \<Rightarrow> u32 \<Rightarrow> ('d, 'z) exec" where
  "exec_c2_jr gpc insn m =
     (let rd = insn_rd insn; rs2 = unat (drop_bit 2 insn AND 0x1f)
      in if drop_bit 12 insn AND 1 = 0 then
           if rs2 = 0 then
             if rd = 0 then (ILLEGAL_INSN, m)
             else jump_to (ctf_compute_hint 0 rd) (reg m rd AND NOT 1) m
           else (C_NEXT_INSN, write_rd rd (reg m rs2) m)
         else
           if rs2 = 0 then
             if rd = 0 then raise_pending CAUSE_BREAKPOINT 0 m
             else (JUMP_INSN (ctf_compute_hint 1 rd),
                   write_reg 1 (gpc + 2) (m\<lparr>pc := reg m rd AND NOT 1\<rparr>))
           else (C_NEXT_INSN, write_rd rd (reg m rd + reg m rs2) m))"

text \<open>\<open>C_QUADRANT(2)\<close>\<close>

definition exec_c2 :: "('d, 'z) RISCVMachine_scheme cpu_env \<Rightarrow> u64 \<Rightarrow> u32 \<Rightarrow> ('d, 'z) exec" where
  "exec_c2 e gpc insn m =
     (let funct3 = drop_bit 13 insn AND 7;
          rd = insn_rd insn;
          rs2w = drop_bit 2 insn AND 0x1f; rs2 = unat rs2w;
          addr_ld = reg m 2 + scast (get_field1 insn 12 5 5 OR (rs2w AND 0x18) OR get_field1 insn 2 6 8);
          addr_lw = reg m 2 + scast (get_field1 insn 12 5 5 OR (rs2w AND 0x1c) OR get_field1 insn 2 6 7);
          addr_sd = reg m 2 + scast (get_field1 insn 10 3 5 OR get_field1 insn 7 6 8);
          addr_sw = reg m 2 + scast (get_field1 insn 9 2 5 OR get_field1 insn 7 6 7)
      in if funct3 = 0 then
           (C_NEXT_INSN, write_rd rd (push_bit (unat (get_field1 insn 12 5 5 OR rs2w)) (reg m rd)) m)
         else if funct3 = 1 then
           if fs m = 0 then (ILLEGAL_INSN, m)
           else load_then e 3 addr_ld C_NEXT_INSN (\<lambda>rval. write_fp_reg rd (rval OR F64_HIGH)) m
         else if funct3 = 2 then
           if rd = 0 then (ILLEGAL_INSN, m)
           else load_then e 2 addr_lw C_NEXT_INSN (\<lambda>rval. write_reg rd (sext32 rval)) m
         else if funct3 = 3 then
           if rd = 0 then (ILLEGAL_INSN, m)
           else load_then e 3 addr_ld C_NEXT_INSN (\<lambda>rval. write_reg rd rval) m
         else if funct3 = 4 then exec_c2_jr gpc insn m
         else if funct3 = 5 then
           if fs m = 0 then (ILLEGAL_INSN, m)
           else store_then e 3 addr_sd (fp_reg m rs2) C_NEXT_INSN m
         else if funct3 = 6 then store_then e 2 addr_sw (reg m rs2) C_NEXT_INSN m
         else store_then e 3 addr_sd (reg m rs2) C_NEXT_INSN m)"

section \<open>Jumps and branches\<close>

definition misaligned_target :: "'z RISCVCPUState_scheme \<Rightarrow> u64 \<Rightarrow> bool" where
  "misaligned_target s new_pc \<longleftrightarrow> misa s AND MCPUID_C = 0 \<and> new_pc AND 3 \<noteq> 0"

definition exec_lui :: "u32 \<Rightarrow> ('d, 'z) exec" where
  "exec_lui insn m = (NEXT_INSN, write_rd (insn_rd insn) (scast (insn AND 0xfffff000)) m)"

definition exec_auipc :: "u64 \<Rightarrow> u32 \<Rightarrow> ('d, 'z) exec" where
  "exec_auipc gpc insn m = (NEXT_INSN, write_rd (insn_rd insn) (gpc + scast (insn AND 0xfffff000)) m)"

definition exec_jal :: "u64 \<Rightarrow> u32 \<Rightarrow> ('d, 'z) exec" where
  "exec_jal gpc insn m =
     (let new_pc = gpc + scast (imm_j insn)
      in if misaligned_target m new_pc then raise_pending CAUSE_MISALIGNED_FETCH 0 m
         else jump_to ctf_taken_jump new_pc (write_rd (insn_rd insn) (gpc + 4) m))"

definition exec_jalr :: "u64 \<Rightarrow> u32 \<Rightarrow> ('d, 'z) exec" where
  "exec_jalr gpc insn m =
     (let rd = insn_rd insn; rs1 = insn_rs1 insn
      in if insn_funct3 insn \<noteq> 0 then (ILLEGAL_INSN, m)
         else
           let new_pc = (reg m rs1 + scast (imm_i insn)) AND NOT 1
           in if misaligned_target m new_pc then raise_pending CAUSE_MISALIGNED_FETCH 0 m
              else (JUMP_INSN (ctf_compute_hint rd rs1), write_rd rd (gpc + 4) (m\<lparr>pc := new_pc\<rparr>)))"

text \<open>\<open>None\<close>: the reserved \<open>funct3\<close> values 2 and 3.\<close>

definition branch_cond :: "u32 \<Rightarrow> u64 \<Rightarrow> u64 \<Rightarrow> bool option" where
  "branch_cond funct3 a b =
     (let k = drop_bit 1 funct3; neg = (funct3 AND 1 \<noteq> 0)
      in if k = 0 then Some ((a = b) \<noteq> neg)
         else if k = 2 then Some ((a <s b) \<noteq> neg)
         else if k = 3 then Some ((a < b) \<noteq> neg)
         else None)"

definition exec_branch :: "u64 \<Rightarrow> u32 \<Rightarrow> ('d, 'z) exec" where
  "exec_branch gpc insn m =
     (case branch_cond (insn_funct3 insn) (reg m (insn_rs1 insn)) (reg m (insn_rs2 insn)) of
        None \<Rightarrow> (ILLEGAL_INSN, m)
      | Some cond \<Rightarrow>
          if cond then
            let new_pc = gpc + scast (imm_b insn)
            in if misaligned_target m new_pc then raise_pending CAUSE_MISALIGNED_FETCH 0 m
               else jump_to ctf_taken_branch new_pc m
          else (NEXT_INSN, m))"

section \<open>Loads and stores\<close>

definition exec_load :: "('d, 'z) RISCVMachine_scheme cpu_env \<Rightarrow> u32 \<Rightarrow> ('d, 'z) exec" where
  "exec_load e insn m =
     (let funct3 = insn_funct3 insn; rd = insn_rd insn;
          addr = reg m (insn_rs1 insn) + scast (imm_i insn)
      in if funct3 = 0 then load_then e 0 addr NEXT_INSN (\<lambda>rval. write_rd rd (sext8 rval)) m
         else if funct3 = 1 then load_then e 1 addr NEXT_INSN (\<lambda>rval. write_rd rd (sext16 rval)) m
         else if funct3 = 2 then load_then e 2 addr NEXT_INSN (\<lambda>rval. write_rd rd (sext32 rval)) m
         else if funct3 = 4 then load_then e 0 addr NEXT_INSN (\<lambda>rval. write_rd rd rval) m
         else if funct3 = 5 then load_then e 1 addr NEXT_INSN (\<lambda>rval. write_rd rd rval) m
         else if funct3 = 3 then load_then e 3 addr NEXT_INSN (\<lambda>rval. write_rd rd rval) m
         else if funct3 = 6 then load_then e 2 addr NEXT_INSN (\<lambda>rval. write_rd rd rval) m
         else (ILLEGAL_INSN, m))"

definition exec_store :: "('d, 'z) RISCVMachine_scheme cpu_env \<Rightarrow> u32 \<Rightarrow> ('d, 'z) exec" where
  "exec_store e insn m =
     (let funct3 = insn_funct3 insn;
          addr = reg m (insn_rs1 insn) + scast (imm_s insn);
          v = reg m (insn_rs2 insn)
      in if funct3 = 0 then store_then e 0 addr v NEXT_INSN m
         else if funct3 = 1 then store_then e 1 addr v NEXT_INSN m
         else if funct3 = 2 then store_then e 2 addr v NEXT_INSN m
         else if funct3 = 3 then store_then e 3 addr v NEXT_INSN m
         else (ILLEGAL_INSN, m))"

section \<open>Integer arithmetic\<close>

text \<open>The value an arithmetic instruction computes, \<open>None\<close> for an illegal one.\<close>

definition op_imm :: "u32 \<Rightarrow> u64 \<Rightarrow> u32 \<Rightarrow> u64 option" where
  "op_imm funct3 a imm =
     (let sh = unat (imm AND 63)
      in if funct3 = 0 then Some (a + scast imm)
         else if funct3 = 1 then if imm AND NOT 63 \<noteq> 0 then None else Some (push_bit sh a)
         else if funct3 = 2 then Some (b2w (a <s scast imm))
         else if funct3 = 3 then Some (b2w (a < scast imm))
         else if funct3 = 4 then Some (a XOR scast imm)
         else if funct3 = 5 then
           if imm AND NOT (63 OR 0x400) \<noteq> 0 then None
           else if imm AND 0x400 \<noteq> 0 then Some (signed_drop_bit sh a)
           else Some (drop_bit sh a)
         else if funct3 = 6 then Some (a OR scast imm)
         else Some (a AND scast imm))"

definition op_imm_32 :: "u32 \<Rightarrow> u64 \<Rightarrow> u32 \<Rightarrow> u64 option" where
  "op_imm_32 funct3 a imm =
     (let sh = unat (imm AND 31)
      in if funct3 = 0 then Some (sext32 (a + scast imm))
         else if funct3 = 1 then if imm AND NOT 31 \<noteq> 0 then None else Some (sext32 (push_bit sh a))
         else if funct3 = 5 then
           if imm AND NOT (31 OR 0x400) \<noteq> 0 then None
           else if imm AND 0x400 \<noteq> 0 then Some (scast (signed_drop_bit sh (ucast a :: u32)))
           else Some (scast (drop_bit sh (ucast a :: u32)))
         else None)"

definition op_m :: "u32 \<Rightarrow> u64 \<Rightarrow> u64 \<Rightarrow> u64" where
  "op_m funct3 a b =
     (if funct3 = 0 then a * b
      else if funct3 = 1 then mulh_wide a b
      else if funct3 = 2 then mulhsu_wide a b
      else if funct3 = 3 then mulhu_wide a b
      else if funct3 = 4 then div_xlen a b
      else if funct3 = 5 then divu_xlen a b
      else if funct3 = 6 then rem_xlen a b
      else remu_xlen a b)"

text \<open>\<open>funct3 | 8\<close> for the alternate encoding (\<open>sub\<close>, \<open>sra\<close>).\<close>

definition alt_funct3 :: "u32 \<Rightarrow> u32" where
  "alt_funct3 insn = insn_funct3 insn OR (drop_bit 27 insn AND 8)"

definition op_reg :: "u32 \<Rightarrow> u64 \<Rightarrow> u64 \<Rightarrow> u64 option" where
  "op_reg insn a b =
     (let imm = drop_bit 25 insn; f = alt_funct3 insn; sh = unat (b AND 63)
      in if imm = 1 then Some (op_m (insn_funct3 insn) a b)
         else if imm AND NOT 0x20 \<noteq> 0 then None
         else if f = 0 then Some (a + b)
         else if f = 8 then Some (a - b)
         else if f = 1 then Some (push_bit sh a)
         else if f = 2 then Some (b2w (a <s b))
         else if f = 3 then Some (b2w (a < b))
         else if f = 4 then Some (a XOR b)
         else if f = 5 then Some (drop_bit sh a)
         else if f = 13 then Some (signed_drop_bit sh a)
         else if f = 6 then Some (a OR b)
         else if f = 7 then Some (a AND b)
         else None)"

definition op_m_32 :: "u32 \<Rightarrow> u32 \<Rightarrow> u32 \<Rightarrow> u64 option" where
  "op_m_32 funct3 a b =
     (if funct3 = 0 then Some (scast (a * b))
      else if funct3 = 4 then Some (scast (div_xlen a b))
      else if funct3 = 5 then Some (scast (divu_xlen a b))
      else if funct3 = 6 then Some (scast (rem_xlen a b))
      else if funct3 = 7 then Some (scast (remu_xlen a b))
      else None)"

definition op_reg_32 :: "u32 \<Rightarrow> u64 \<Rightarrow> u64 \<Rightarrow> u64 option" where
  "op_reg_32 insn a b =
     (let imm = drop_bit 25 insn; f = alt_funct3 insn; sh = unat (b AND 31); aw = ucast a :: u32
      in if imm = 1 then op_m_32 (insn_funct3 insn) aw (ucast b)
         else if imm AND NOT 0x20 \<noteq> 0 then None
         else if f = 0 then Some (sext32 (a + b))
         else if f = 8 then Some (sext32 (a - b))
         else if f = 1 then Some (scast (push_bit sh aw))
         else if f = 5 then Some (scast (drop_bit sh aw))
         else if f = 13 then Some (scast (signed_drop_bit sh aw))
         else None)"

definition exec_arith :: "u64 option \<Rightarrow> u32 \<Rightarrow> ('d, 'z) exec" where
  "exec_arith r insn m =
     (case r of None \<Rightarrow> (ILLEGAL_INSN, m) | Some v \<Rightarrow> (NEXT_INSN, write_rd (insn_rd insn) v m))"

section \<open>Atomic instructions\<close>

text \<open>The value an AMO of \<open>'a\<close> bits stores; \<open>v\<close> is the value loaded.\<close>

definition amo_op :: "u32 \<Rightarrow> 'a::len word \<Rightarrow> 'a word \<Rightarrow> 'a word" where
  "amo_op funct5 v v2 =
     (if funct5 = 1 then v2
      else if funct5 = 0 then v + v2
      else if funct5 = 4 then v XOR v2
      else if funct5 = 0xc then v AND v2
      else if funct5 = 8 then v OR v2
      else if funct5 = 0x10 then if v <s v2 then v else v2
      else if funct5 = 0x14 then if v2 <s v then v else v2
      else if funct5 = 0x18 then if v < v2 then v else v2
      else if v > v2 then v else v2)"

definition amo_funct :: "u32 \<Rightarrow> bool" where
  "amo_funct funct5 \<longleftrightarrow> funct5 \<in> {0, 1, 4, 8, 0xc, 0x10, 0x14, 0x18, 0x1c}"

text \<open>\<open>OP_A(size)\<close> with \<open>size = LENGTH('a)\<close>, 32 or 64.\<close>

definition op_a ::
  "'a::len itself \<Rightarrow> ('d, 'z) RISCVMachine_scheme cpu_env \<Rightarrow> nat \<Rightarrow> u32 \<Rightarrow> ('d, 'z) exec" where
  "op_a t e size_log2 insn m =
     (let addr = reg m (insn_rs1 insn); rd = insn_rd insn; rs2 = insn_rs2 insn;
          funct5 = drop_bit 27 insn;
          sx = (\<lambda>x. scast (ucast x :: 'a word) :: u64)
      in if funct5 = 2 then
           if rs2 \<noteq> 0 then (ILLEGAL_INSN, m)
           else load_then e size_log2 addr NEXT_INSN
                  (\<lambda>rval m. write_rd rd (sx rval) (m\<lparr>load_res := addr\<rparr>)) m
         else if funct5 = 3 then
           if addr AND (push_bit size_log2 1 - 1) \<noteq> 0 then
             (EXCEPTION, set_exception CAUSE_MISALIGNED_STORE addr m)
           else if load_res m = addr then
             case target_write e size_log2 addr (reg m rs2) m of (ok, m) \<Rightarrow>
               if ok then (NEXT_INSN, write_rd rd 0 (m\<lparr>load_res := - 1\<rparr>)) else (EXCEPTION, m)
           else (NEXT_INSN, write_rd rd 1 m)
         else if amo_funct funct5 then
           case target_read e size_log2 addr m of
             (None, m) \<Rightarrow>
               (EXCEPTION, if pending_exception m \<noteq> CAUSE_BREAKPOINT
                           then m\<lparr>pending_exception := pending_exception m + 2\<rparr> else m)
           | (Some rval, m) \<Rightarrow>
               (case target_write e size_log2 addr
                       (if funct5 = 1 then reg m rs2
                        else scast (amo_op funct5 (ucast rval :: 'a word) (ucast (reg m rs2)))) m of
                  (ok, m) \<Rightarrow>
                    if ok then (NEXT_INSN, write_rd rd (sx rval) m) else (EXCEPTION, m))
         else (ILLEGAL_INSN, m))"

definition exec_amo :: "('d, 'z) RISCVMachine_scheme cpu_env \<Rightarrow> u32 \<Rightarrow> ('d, 'z) exec" where
  "exec_amo e insn m =
     (let funct3 = insn_funct3 insn
      in if funct3 = 2 then op_a TYPE(32) e 2 insn m
         else if funct3 = 3 then op_a TYPE(64) e 3 insn m
         else (ILLEGAL_INSN, m))"

end
