(* ===== verification/Riscv_FP.thy ===== *)
theory Riscv_FP
  imports Riscv_Exec
begin

text \<open>
  Floating-point instructions: the FPU cases of \<open>include/dromajo_template.h\<close> and
  \<open>include/dromajo_fp_template.h\<close>, which the former includes for \<open>F_SIZE\<close> 32 and 64
  (here \<open>LENGTH('a)\<close>) since \<open>FLEN\<close> is 64.
\<close>

section \<open>NaN boxing\<close>

definition F_HIGH :: "'a::len itself \<Rightarrow> u64" where
  "F_HIGH t = (if LENGTH('a) = 32 then F32_HIGH else F64_HIGH)"

text \<open>\<open>unbox\<close> is \<open>f_unbox32\<close> or \<open>f_unbox64\<close>.\<close>

definition unbox :: "'a::len itself \<Rightarrow> u64 \<Rightarrow> u64" where
  "unbox t r = (if LENGTH('a) = 32 then f_unbox32 r else f_unbox64 r)"

text \<open>\<open>FSIGN_MASK32\<close> is the \<open>int\<close> \<open>1 << 31\<close>, so it is sign-extended when combined with a 64-bit value.\<close>

definition FSIGN_MASK :: "'a::len itself \<Rightarrow> u64" where
  "FSIGN_MASK t = (if LENGTH('a) = 32 then 0xffffffff80000000 else 0x8000000000000000)"

definition box_write :: "nat \<Rightarrow> 'a::len word \<Rightarrow> 'z RISCVCPUState_scheme \<Rightarrow> 'z RISCVCPUState_scheme" where
  "box_write rd r s = write_fp_reg rd (ucast r OR F_HIGH TYPE('a)) s"

text \<open>A result of the software floating point with its flags; \<open>None\<close> is a failed assertion.\<close>

definition fp_result :: "nat \<Rightarrow> ('a::len word \<times> u32) option \<Rightarrow> ('d, 'z) exec" where
  "fp_result rd r m =
     (case r of None \<Rightarrow> (ABORT, m) | Some (v, fl) \<Rightarrow> (NEXT_INSN, box_write rd v (m\<lparr>fflags := fl\<rparr>)))"

section \<open>Loads, stores and fused operations\<close>

definition exec_fp_load :: "('d, 'z) RISCVMachine_scheme cpu_env \<Rightarrow> u32 \<Rightarrow> ('d, 'z) exec" where
  "exec_fp_load e insn m =
     (let funct3 = insn_funct3 insn; rd = insn_rd insn;
          addr = reg m (insn_rs1 insn) + scast (imm_i insn)
      in if fs m = 0 then (ILLEGAL_INSN, m)
         else if funct3 = 2 then load_then e 2 addr NEXT_INSN (\<lambda>rval. write_fp_reg rd (rval OR F32_HIGH)) m
         else if funct3 = 3 then load_then e 3 addr NEXT_INSN (\<lambda>rval. write_fp_reg rd (rval OR F64_HIGH)) m
         else (ILLEGAL_INSN, m))"

definition exec_fp_store :: "('d, 'z) RISCVMachine_scheme cpu_env \<Rightarrow> u32 \<Rightarrow> ('d, 'z) exec" where
  "exec_fp_store e insn m =
     (let funct3 = insn_funct3 insn;
          addr = reg m (insn_rs1 insn) + scast (imm_s insn);
          v = fp_reg m (insn_rs2 insn)
      in if fs m = 0 then (ILLEGAL_INSN, m)
         else if funct3 = 2 then store_then e 2 addr v NEXT_INSN m
         else if funct3 = 3 then store_then e 3 addr v NEXT_INSN m
         else (ILLEGAL_INSN, m))"

text \<open>
  The opcodes 0x43 (\<open>fmadd\<close>), 0x47 (\<open>fmsub\<close>), 0x4b (\<open>fnmsub\<close>) and 0x4f
  (\<open>fnmadd\<close>) differ in the signs they flip: \<open>neg1\<close> of the first factor and
  \<open>neg3\<close> of the addend.
\<close>

definition exec_fma :: "bool \<Rightarrow> bool \<Rightarrow> u32 \<Rightarrow> ('d, 'z) exec" where
  "exec_fma neg1 neg3 insn m =
     (let funct = drop_bit 25 insn AND 3;
          rd = insn_rd insn;
          r1 = fp_reg m (insn_rs1 insn); r2 = fp_reg m (insn_rs2 insn); r3 = fp_reg m (insn_rs3 insn)
      in if fs m = 0 then (ILLEGAL_INSN, m)
         else
           case get_insn_rm m (insn_funct3 insn) of
             None \<Rightarrow> (ILLEGAL_INSN, m)
           | Some rm \<Rightarrow>
               if funct = 0 then
                 fp_result rd (fma_sf (chkfp32 r1 XOR (if neg1 then 0x80000000 else 0)) (chkfp32 r2)
                   (chkfp32 r3 XOR (if neg3 then 0x80000000 else 0)) rm (fflags m)) m
               else if funct = 1 then
                 fp_result rd (fma_sf (r1 XOR (if neg1 then 0x8000000000000000 else 0)) r2
                   (r3 XOR (if neg3 then 0x8000000000000000 else 0)) rm (fflags m)) m
               else (ILLEGAL_INSN, m))"

section \<open>The template\<close>

text \<open>Operations with a rounding mode on one or two operands.\<close>

definition fp_arith :: "'a::len itself \<Rightarrow> u32 \<Rightarrow> u32 \<Rightarrow> ('d, 'z) exec" where
  "fp_arith t op insn m =
     (let a = ucast (unbox t (fp_reg m (insn_rs1 insn))) :: 'a word;
          b = ucast (unbox t (fp_reg m (insn_rs2 insn))) :: 'a word;
          rd = insn_rd insn; fl = fflags m
      in case get_insn_rm m (insn_funct3 insn) of
           None \<Rightarrow> (ILLEGAL_INSN, m)
         | Some rm \<Rightarrow>
             if op = 0x00 then fp_result rd (add_sf a b rm fl) m
             else if op = 0x01 then fp_result rd (sub_sf a b rm fl) m
             else if op = 0x02 then fp_result rd (mul_sf a b rm fl) m
             else if op = 0x03 then fp_result rd (div_sf a b rm fl) m
             else if insn_rs2 insn \<noteq> 0 then (ILLEGAL_INSN, m)
             else fp_result rd (sqrt_sf a rm fl) m)"

text \<open>\<open>fsgnj\<close>, \<open>fsgnjn\<close> and \<open>fsgnjx\<close>\<close>

definition fp_sgnj :: "'a::len itself \<Rightarrow> u32 \<Rightarrow> ('d, 'z) exec" where
  "fp_sgnj t insn m =
     (let a = unbox t (fp_reg m (insn_rs1 insn)); b = unbox t (fp_reg m (insn_rs2 insn));
          sm = FSIGN_MASK t; rd = insn_rd insn; rm = insn_funct3 insn
      in if rm = 0 then (NEXT_INSN, write_fp_reg rd ((a AND NOT sm) OR (b AND sm) OR F_HIGH t) m)
         else if rm = 1 then
           (NEXT_INSN, write_fp_reg rd ((a AND NOT sm) OR ((b AND sm) XOR sm) OR F_HIGH t) m)
         else if rm = 2 then (NEXT_INSN, write_fp_reg rd ((a XOR (b AND sm)) OR F_HIGH t) m)
         else (ILLEGAL_INSN, m))"

definition fp_minmax :: "'a::len itself \<Rightarrow> u32 \<Rightarrow> ('d, 'z) exec" where
  "fp_minmax t insn m =
     (let a = ucast (unbox t (fp_reg m (insn_rs1 insn))) :: 'a word;
          b = ucast (unbox t (fp_reg m (insn_rs2 insn))) :: 'a word;
          rm = insn_funct3 insn
      in if rm = 0 then fp_result (insn_rd insn) (Some (min_sf a b (fflags m))) m
         else if rm = 1 then fp_result (insn_rd insn) (Some (max_sf a b (fflags m))) m
         else (ILLEGAL_INSN, m))"

text \<open>Float to integer.\<close>

definition fp_to_int :: "'a::len itself \<Rightarrow> u32 \<Rightarrow> ('d, 'z) exec" where
  "fp_to_int t insn m =
     (let a = ucast (unbox t (fp_reg m (insn_rs1 insn))) :: 'a word;
          rs2 = insn_rs2 insn; fl = fflags m;
          res = (\<lambda>v fl. (NEXT_INSN, write_rd (insn_rd insn) v (m\<lparr>fflags := fl\<rparr>)))
      in case get_insn_rm m (insn_funct3 insn) of
           None \<Rightarrow> (ILLEGAL_INSN, m)
         | Some rm \<Rightarrow>
             if rs2 = 0 then (case cvt_sf_i a rm fl of (v, fl) \<Rightarrow> res (scast (v :: u32)) fl)
             else if rs2 = 1 then (case cvt_sf_u a rm fl of (v, fl) \<Rightarrow> res (scast (v :: u32)) fl)
             else if rs2 = 2 then (case cvt_sf_i a rm fl of (v, fl) \<Rightarrow> res v fl)
             else if rs2 = 3 then (case cvt_sf_u a rm fl of (v, fl) \<Rightarrow> res v fl)
             else (ILLEGAL_INSN, m))"

definition fp_compare :: "'a::len itself \<Rightarrow> u32 \<Rightarrow> ('d, 'z) exec" where
  "fp_compare t insn m =
     (let a = ucast (unbox t (fp_reg m (insn_rs1 insn))) :: 'a word;
          b = ucast (unbox t (fp_reg m (insn_rs2 insn))) :: 'a word;
          rm = insn_funct3 insn;
          res = (\<lambda>(v, fl). (NEXT_INSN, write_rd (insn_rd insn) (b2w v) (m\<lparr>fflags := fl\<rparr>)))
      in if rm = 0 then res (le_sf a b (fflags m))
         else if rm = 1 then res (lt_sf a b (fflags m))
         else if rm = 2 then res (eq_quiet_sf a b (fflags m))
         else (ILLEGAL_INSN, m))"

text \<open>Integer to float.\<close>

definition int_to_fp :: "'a::len itself \<Rightarrow> u32 \<Rightarrow> ('d, 'z) exec" where
  "int_to_fp t insn m =
     (let x = reg m (insn_rs1 insn); rs2 = insn_rs2 insn; fl = fflags m;
          res = (\<lambda>r :: ('a word \<times> u32) option. fp_result (insn_rd insn) r m)
      in case get_insn_rm m (insn_funct3 insn) of
           None \<Rightarrow> (ILLEGAL_INSN, m)
         | Some rm \<Rightarrow>
             if rs2 = 0 then res (cvt_i_sf (ucast x :: u32) rm fl)
             else if rs2 = 1 then res (cvt_u_sf (ucast x :: u32) rm fl)
             else if rs2 = 2 then res (cvt_i_sf x rm fl)
             else if rs2 = 3 then res (cvt_u_sf x rm fl)
             else (ILLEGAL_INSN, m))"

text \<open>Between the formats: \<open>cvt.s.d\<close> for \<open>F_SIZE\<close> 32 and \<open>cvt.d.s\<close> for 64.\<close>

definition fp_to_fp :: "'a::len itself \<Rightarrow> u32 \<Rightarrow> ('d, 'z) exec" where
  "fp_to_fp t insn m =
     (let v = fp_reg m (insn_rs1 insn); rs2 = insn_rs2 insn; rd = insn_rd insn
      in case get_insn_rm m (insn_funct3 insn) of
           None \<Rightarrow> (ILLEGAL_INSN, m)
         | Some rm \<Rightarrow>
             if LENGTH('a) = 32 \<and> rs2 = 1 then fp_result rd (cvt_sf64_sf32 v rm (fflags m)) m
             else if LENGTH('a) = 64 \<and> rs2 = 0 then
               let v = (if v AND F32_HIGH \<noteq> F32_HIGH then f_qnan32 else v)
               in fp_result rd (Some (cvt_sf32_sf64 (ucast v) (fflags m))) m
             else (ILLEGAL_INSN, m))"

text \<open>\<open>fmv.x.w\<close> and \<open>fclass\<close>, then \<open>fmv.w.x\<close>.\<close>

definition fp_to_reg :: "'a::len itself \<Rightarrow> u32 \<Rightarrow> ('d, 'z) exec" where
  "fp_to_reg t insn m =
     (let v = fp_reg m (insn_rs1 insn); rm = insn_funct3 insn; rd = insn_rd insn
      in if insn_rs2 insn \<noteq> 0 then (ILLEGAL_INSN, m)
         else if rm = 0 then (NEXT_INSN, write_rd rd (if LENGTH('a) = 32 then sext32 v else v) m)
         else if rm = 1 then (NEXT_INSN, write_rd rd (ucast (fclass_sf (ucast (unbox t v) :: 'a word))) m)
         else (ILLEGAL_INSN, m))"

definition reg_to_fp :: "'a::len itself \<Rightarrow> u32 \<Rightarrow> ('d, 'z) exec" where
  "reg_to_fp t insn m =
     (let x = reg m (insn_rs1 insn)
      in if insn_rs2 insn \<noteq> 0 \<or> insn_funct3 insn \<noteq> 0 then (ILLEGAL_INSN, m)
         else (NEXT_INSN, write_fp_reg (insn_rd insn)
                 ((if LENGTH('a) = 32 then sext32 x else x) OR F_HIGH t) m))"

text \<open>The cases \<open>(op << 2) | OPID\<close> of one inclusion of the template.\<close>

definition fp_template :: "'a::len itself \<Rightarrow> u32 \<Rightarrow> u32 \<Rightarrow> ('d, 'z) exec" where
  "fp_template t op insn m =
     (if op = 0x00 \<or> op = 0x01 \<or> op = 0x02 \<or> op = 0x03 \<or> op = 0x0b then fp_arith t op insn m
      else if op = 0x04 then fp_sgnj t insn m
      else if op = 0x05 then fp_minmax t insn m
      else if op = 0x18 then fp_to_int t insn m
      else if op = 0x14 then fp_compare t insn m
      else if op = 0x1a then int_to_fp t insn m
      else if op = 0x08 then fp_to_fp t insn m
      else if op = 0x1c then fp_to_reg t insn m
      else if op = 0x1e then reg_to_fp t insn m
      else (ILLEGAL_INSN, m))"

definition exec_fp :: "u32 \<Rightarrow> ('d, 'z) exec" where
  "exec_fp insn m =
     (let imm = drop_bit 25 insn; op = drop_bit 2 imm; opid = imm AND 3
      in if fs m = 0 then (ILLEGAL_INSN, m)
         else if opid = 0 then fp_template TYPE(32) op insn m
         else if opid = 1 then fp_template TYPE(64) op insn m
         else (ILLEGAL_INSN, m))"

end
