(* ===== verification/Riscv_Interp.thy ===== *)
theory Riscv_Interp
  imports Riscv_FP
begin

text \<open>
  System instructions, instruction fetch and the main loop of \<open>riscv_cpu_interp64\<close>
  (\<open>include/dromajo_template.h\<close>).
\<close>

section \<open>Local variables of the interpreter\<close>

text \<open>
  \<open>n_cycles\<close> counts down and is the recursion argument of the loop; \<open>insn_counter_start\<close>
  is constant.
\<close>

record interp_locals =
  code_ptr :: u64
  code_end :: u64
  code_to_pc_addend :: u64
  insn_counter_addend :: u64
  insn_counter_start :: u64
  insn_executed :: int

definition GET_PC :: "interp_locals \<Rightarrow> u64" where
  "GET_PC lo = code_ptr lo + code_to_pc_addend lo"

definition GET_INSN_COUNTER :: "interp_locals \<Rightarrow> nat \<Rightarrow> u64" where
  "GET_INSN_COUNTER lo n = insn_counter_addend lo - of_nat n"

text \<open>
  The update of the counters, at CSR instructions and at \<open>the_end\<close>.  The \<open>int\<close>
  \<open>delta\<close> is asserted to be non-negative.
\<close>

definition update_counters ::
  "u64 \<Rightarrow> u64 \<Rightarrow> 'z RISCVCPUState_scheme \<Rightarrow> 'z RISCVCPUState_scheme option" where
  "update_counters counter start s =
     (let s = s\<lparr>insn_counter := counter\<rparr>;
          delta = ucast (counter - start) :: u32
      in if stop_the_counter s then Some s
         else if delta <s 0 then None
         else Some (s\<lparr>mcycle := mcycle s + scast delta, minstret := minstret s + scast delta\<rparr>))"

section \<open>System instructions\<close>

text \<open>What follows a CSR write with result \<open>err\<close>: \<open>rd\<close> is written, and a flushed TLB ends the straight-line code.\<close>

definition csr_finish :: "u64 \<Rightarrow> nat \<Rightarrow> u64 \<Rightarrow> int \<Rightarrow> ('d, 'z) exec" where
  "csr_finish gpc rd v2 err m =
     (if err = - 2 then (EXCEPTION, m)
      else if err < 0 then (ILLEGAL_INSN, m)
      else
        let m = write_rd rd v2 m
        in if err > 0 then (if err = 2 then JUMP_INSN ctf_nop else DONE_INTERP, m\<lparr>pc := gpc + 4\<rparr>)
           else (NEXT_INSN, m))"

text \<open>\<open>csrrw\<close>, \<open>csrrs\<close> and \<open>csrrc\<close> (\<open>funct3\<close> 1, 2, 3 after masking).\<close>

definition exec_csr ::
  "('d, 'z) RISCVMachine_scheme cpu_env \<Rightarrow> u64 \<Rightarrow> u64 \<Rightarrow> u64 \<Rightarrow> u32 \<Rightarrow> ('d, 'z) exec" where
  "exec_csr e counter start gpc insn m =
     (let funct3 = insn_funct3 insn; csr = drop_bit 20 insn;
          rd = insn_rd insn; rs1 = insn_rs1 insn;
          v = (if funct3 AND 4 \<noteq> 0 then of_nat rs1 else reg m rs1);
          funct3 = funct3 AND 3;
          will_write = (funct3 = 1 \<or> rs1 \<noteq> 0)
      in case update_counters counter start m of
           None \<Rightarrow> (ABORT, m)
         | Some m \<Rightarrow>
             (case csr_read e funct3 csr will_write m of
                (None, m) \<Rightarrow> (ILLEGAL_INSN, m)
              | (Some v2, m) \<Rightarrow>
                  if will_write then
                    let v = (if funct3 = 1 then v else if funct3 = 2 then v2 OR v else v2 AND NOT v)
                    in case csr_write e funct3 csr v m of (err, m) \<Rightarrow> csr_finish gpc rd v2 err m
                  else csr_finish gpc rd v2 0 m))"

text \<open>\<open>ecall\<close>, \<open>ebreak\<close>, \<open>sret\<close>, \<open>mret\<close>, \<open>dret\<close>, \<open>wfi\<close> and \<open>sfence.vma\<close>.\<close>

definition exec_priv :: "u64 \<Rightarrow> u32 \<Rightarrow> ('d, 'z) exec" where
  "exec_priv gpc insn m =
     (let imm = drop_bit 20 insn; operands = insn AND 0x000fff80
      in if imm = 0x000 then
           if operands \<noteq> 0 then (ILLEGAL_INSN, m)
           else
             let m = m\<lparr>pending_exception := CAUSE_USER_ECALL + uint (priv m), pending_tval := 0\<rparr>
             in (EXCEPTION,
                 if \<not> ignore_sbi_shutdown m \<and> priv m = PRV_M \<and> reg m 0x17 = SBI_SHUTDOWN
                 then m\<lparr>terminate_simulation := True\<rparr> else m)
         else if imm = 0x001 then
           if operands \<noteq> 0 then (ILLEGAL_INSN, m) else raise_pending CAUSE_BREAKPOINT 0 m
         else if imm = 0x102 then
           if operands \<noteq> 0 \<or> priv m < PRV_S \<or> priv m = PRV_S \<and> mstatus m AND MSTATUS_TSR \<noteq> 0
           then (ILLEGAL_INSN, m)
           else (DONE_INTERP, handle_sret (m\<lparr>pc := gpc\<rparr>))
         else if imm = 0x302 then
           if operands \<noteq> 0 \<or> priv m < PRV_M then (ILLEGAL_INSN, m)
           else (DONE_INTERP, handle_mret (m\<lparr>pc := gpc\<rparr>))
         else if imm = 0x7b2 then
           if \<not> debug_mode m \<or> operands \<noteq> 0 \<or> priv m < PRV_M then (ILLEGAL_INSN, m)
           else (DONE_INTERP, handle_dret (m\<lparr>pc := gpc\<rparr>))
         else if imm = 0x105 then
           if insn AND 0x00007f80 \<noteq> 0 \<or> priv m = PRV_U \<or> priv m = PRV_S \<and> mstatus m AND MSTATUS_TW \<noteq> 0
           then (ILLEGAL_INSN, m)
           else if mip m AND mie m = 0 \<and> pending_interrupt m = - 1 \<or> \<not> cosim m
           then (DONE_INTERP, m\<lparr>power_down_flag := True, pc := gpc + 4\<rparr>)
           else (NEXT_INSN, m)
         else if drop_bit 5 imm = 0x09 then
           if insn AND 0x00007f80 \<noteq> 0 \<or> priv m = PRV_U \<or> priv m = PRV_S \<and> mstatus m AND MSTATUS_TVM \<noteq> 0
           then (ILLEGAL_INSN, m)
           else
             let m = (if insn_rs1 insn = 0 then tlb_flush_all m
                      else tlb_flush_vaddr (reg m (insn_rs1 insn)) m)
             in jump_to ctf_nop (gpc + 4) m
         else (ILLEGAL_INSN, m))"

definition exec_system ::
  "('d, 'z) RISCVMachine_scheme cpu_env \<Rightarrow> u64 \<Rightarrow> u64 \<Rightarrow> u64 \<Rightarrow> u32 \<Rightarrow> ('d, 'z) exec" where
  "exec_system e counter start gpc insn m =
     (if insn_funct3 insn AND 3 = 0 then exec_priv gpc insn m
      else exec_csr e counter start gpc insn m)"

definition exec_misc_mem :: "u32 \<Rightarrow> ('d, 'z) exec" where
  "exec_misc_mem insn m =
     (if insn_funct3 insn = 0 \<or> insn_funct3 insn = 1 then (NEXT_INSN, m) else (ILLEGAL_INSN, m))"

section \<open>Dispatch\<close>

text \<open>The 32-bit opcodes of the switch.\<close>

definition exec_base ::
  "('d, 'z) RISCVMachine_scheme cpu_env \<Rightarrow> u64 \<Rightarrow> u64 \<Rightarrow> u64 \<Rightarrow> u32 \<Rightarrow> ('d, 'z) exec" where
  "exec_base e counter start gpc insn m =
     (let opcode = insn_opcode insn; a = reg m (insn_rs1 insn); b = reg m (insn_rs2 insn)
      in if opcode = 0x37 then exec_lui insn m
         else if opcode = 0x17 then exec_auipc gpc insn m
         else if opcode = 0x6f then exec_jal gpc insn m
         else if opcode = 0x67 then exec_jalr gpc insn m
         else if opcode = 0x63 then exec_branch gpc insn m
         else if opcode = 0x03 then exec_load e insn m
         else if opcode = 0x23 then exec_store e insn m
         else if opcode = 0x13 then exec_arith (op_imm (insn_funct3 insn) a (imm_i insn)) insn m
         else if opcode = 0x1b then exec_arith (op_imm_32 (insn_funct3 insn) a (imm_i insn)) insn m
         else if opcode = 0x33 then exec_arith (op_reg insn a b) insn m
         else if opcode = 0x3b then exec_arith (op_reg_32 insn a b) insn m
         else if opcode = 0x73 then exec_system e counter start gpc insn m
         else if opcode = 0x0f then exec_misc_mem insn m
         else if opcode = 0x2f then exec_amo e insn m
         else if opcode = 0x07 then exec_fp_load e insn m
         else if opcode = 0x27 then exec_fp_store e insn m
         else if opcode = 0x43 then exec_fma False False insn m
         else if opcode = 0x47 then exec_fma False True insn m
         else if opcode = 0x4b then exec_fma True False insn m
         else if opcode = 0x4f then exec_fma True True insn m
         else if opcode = 0x53 then exec_fp insn m
         else (ILLEGAL_INSN, m))"

definition exec_insn ::
  "('d, 'z) RISCVMachine_scheme cpu_env \<Rightarrow> u64 \<Rightarrow> u64 \<Rightarrow> u64 \<Rightarrow> u32 \<Rightarrow> ('d, 'z) exec" where
  "exec_insn e counter start gpc insn m =
     (let q = insn AND 3
      in if q = 0 then exec_c0 e insn m
         else if q = 1 then exec_c1 gpc insn m
         else if q = 2 then exec_c2 e gpc insn m
         else exec_base e counter start gpc insn m)"

section \<open>Fetch\<close>

definition interrupts_enabled :: "('d, 'z) RISCVMachine_scheme \<Rightarrow> bool" where
  "interrupts_enabled m \<longleftrightarrow> mip m AND mie m \<noteq> 0 \<and> (pending_interrupt m \<noteq> - 1 \<or> \<not> cosim m)"

text \<open>\<open>Inl\<close>: control leaves the loop body before an instruction was read.\<close>

definition fetch_tlb ::
  "interp_locals \<Rightarrow> ('d, 'z) RISCVMachine_scheme
     \<Rightarrow> (outcome + u32) \<times> interp_locals \<times> ('d, 'z) RISCVMachine_scheme" where
  "fetch_tlb lo m =
     (let addr = pc m; t = tlb_code m (tlb_index addr)
      in if tlb_vaddr t = addr AND NOT PG_MASK then
           let ptr = tlb_mem_addend t + addr;
               lo = lo\<lparr>code_ptr := ptr,
                      code_end := tlb_mem_addend t + ((addr AND NOT PG_MASK) + PG_MASK - 1),
                      code_to_pc_addend := addr - ptr\<rparr>
           in if code_ptr lo \<ge> code_end lo then
                let insn = ucast (get_le16 (ram m) ptr)
                in if insn AND 3 = 3 then
                     case target_read_insn_u16 (addr + 2) m of
                       (None, m) \<Rightarrow> (Inl EXCEPTION, lo, m)
                     | (Some insn_high, m) \<Rightarrow> (Inr (insn OR push_bit 16 (ucast insn_high)), lo, m)
                   else (Inr insn, lo, m)
              else (Inr (get_le32 (ram m) ptr), lo, m)
         else
           case target_read_insn_slow 32 addr m of
             (None, m) \<Rightarrow> (Inl EXCEPTION, lo, m)
           | (Some insn, m) \<Rightarrow> (Inr insn, lo, m))"

definition fetch_insn ::
  "interp_locals \<Rightarrow> ('d, 'z) RISCVMachine_scheme
     \<Rightarrow> (outcome + u32) \<times> interp_locals \<times> ('d, 'z) RISCVMachine_scheme" where
  "fetch_insn lo m =
     (if code_ptr lo \<ge> code_end lo then
        if interrupts_enabled m then
          case raise_interrupt m of (taken, m) \<Rightarrow>
            if taken then (Inl THE_END, lo, m) else fetch_tlb lo m
        else fetch_tlb lo m
      else (Inr (get_le32 (ram m) (code_ptr lo)), lo, m))"

section \<open>The main loop\<close>

text \<open>The end of an instruction inside the loop: \<open>None\<close> when the loop is left.\<close>

definition advance ::
  "outcome \<Rightarrow> interp_locals \<Rightarrow> ('d, 'z) RISCVMachine_scheme
     \<Rightarrow> (interp_locals \<times> ('d, 'z) RISCVMachine_scheme) option" where
  "advance out lo m =
     (case out of
        C_NEXT_INSN \<Rightarrow> Some (lo\<lparr>code_ptr := code_ptr lo + 2\<rparr>, m)
      | NEXT_INSN \<Rightarrow> Some (lo\<lparr>code_ptr := code_ptr lo + 4\<rparr>, m)
      | JUMP_INSN kind \<Rightarrow>
          Some (lo\<lparr>code_ptr := 0, code_end := 0, code_to_pc_addend := pc m\<rparr>,
                m\<lparr>info := kind, next_addr := pc m\<rparr>)
      | _ \<Rightarrow> None)"

text \<open>One iteration after the cycle check; the current value of \<open>n_cycles\<close> is \<open>n\<close>.\<close>

definition interp_body ::
  "('d, 'z) RISCVMachine_scheme cpu_env \<Rightarrow> nat \<Rightarrow> interp_locals \<Rightarrow> ('d, 'z) RISCVMachine_scheme
     \<Rightarrow> outcome \<times> interp_locals \<times> ('d, 'z) RISCVMachine_scheme" where
  "interp_body e n lo m =
     (let lo = lo\<lparr>insn_executed := insn_executed lo + 1\<rparr>
      in case check_triggers MCONTROL_EXECUTE (pc m) m of (hit, m) \<Rightarrow>
           if hit then (if debug_mode m then DONE_INTERP else EXCEPTION, lo, m)
           else
             case fetch_insn lo m of
               (Inl out, lo, m) \<Rightarrow> (out, lo, m)
             | (Inr insn, lo, m) \<Rightarrow>
                 (case exec_insn e (GET_INSN_COUNTER lo n) (insn_counter_start lo) (GET_PC lo) insn m of
                    (out, m) \<Rightarrow> (out, lo, m)))"

text \<open>The code after the label \<open>exception\<close>, up to \<open>done_interp\<close>.\<close>

definition take_exception ::
  "interp_locals \<Rightarrow> ('d, 'z) RISCVMachine_scheme \<Rightarrow> interp_locals \<times> ('d, 'z) RISCVMachine_scheme" where
  "take_exception lo m =
     (let m = m\<lparr>pc := GET_PC lo\<rparr>; x = pending_exception m
      in if x \<ge> 0 then
           (if x < CAUSE_USER_ECALL \<or> x > CAUSE_USER_ECALL + 3
            then lo\<lparr>insn_counter_addend := insn_counter_addend lo - 1, insn_executed := insn_executed lo - 1\<rparr>
            else lo,
            raise_exception2 (word_of_int x) (pending_tval m) m)
         else (lo, m))"

text \<open>The labels after the loop: the number of instructions executed, or \<open>None\<close> for a failed assertion.\<close>

definition the_end ::
  "nat \<Rightarrow> interp_locals \<Rightarrow> ('d, 'z) RISCVMachine_scheme
     \<Rightarrow> (int \<times> ('d, 'z) RISCVMachine_scheme) option" where
  "the_end n lo m =
     (case update_counters (GET_INSN_COUNTER lo n) (insn_counter_start lo) m of
        None \<Rightarrow> None
      | Some m \<Rightarrow> Some (insn_executed lo, m))"

definition leave_loop ::
  "outcome \<Rightarrow> nat \<Rightarrow> interp_locals \<Rightarrow> ('d, 'z) RISCVMachine_scheme
     \<Rightarrow> (int \<times> ('d, 'z) RISCVMachine_scheme) option" where
  "leave_loop out n lo m =
     (case out of
        ABORT \<Rightarrow> None
      | THE_END \<Rightarrow> the_end n lo m
      | DONE_INTERP \<Rightarrow> the_end (n - 1) lo m
      | ILLEGAL_INSN \<Rightarrow>
          (case take_exception lo (m\<lparr>pending_exception := CAUSE_ILLEGAL_INSTRUCTION, pending_tval := 0\<rparr>) of
             (lo, m) \<Rightarrow> the_end (n - 1) lo m)
      | _ \<Rightarrow> (case take_exception lo m of (lo, m) \<Rightarrow> the_end (n - 1) lo m))"

text \<open>The \<open>for\<close> loop, entered with \<open>n_cycles\<close> as its first argument.\<close>

fun interp_loop ::
  "('d, 'z) RISCVMachine_scheme cpu_env \<Rightarrow> nat \<Rightarrow> interp_locals \<Rightarrow> ('d, 'z) RISCVMachine_scheme
     \<Rightarrow> (int \<times> ('d, 'z) RISCVMachine_scheme) option" where
  "interp_loop e 0 lo m = the_end 0 lo m"
| "interp_loop e (Suc n) lo m =
     (let m = m\<lparr>pc := GET_PC lo\<rparr>
      in if n = 0 then the_end 0 lo m
         else
           case interp_body e n lo m of (out, lo, m) \<Rightarrow>
             (case advance out lo m of
                Some (lo, m) \<Rightarrow> interp_loop e n lo m
              | None \<Rightarrow> leave_loop out n lo m))"

definition riscv_cpu_interp64 ::
  "('d, 'z) RISCVMachine_scheme cpu_env \<Rightarrow> nat \<Rightarrow> ('d, 'z) RISCVMachine_scheme
     \<Rightarrow> (int \<times> ('d, 'z) RISCVMachine_scheme) option" where
  "riscv_cpu_interp64 e n m =
     (let start = insn_counter m;
          m = m\<lparr>most_recently_written_reg := - 1, most_recently_written_fp_reg := - 1, info := ctf_nop\<rparr>
      in if n = 0 then Some (0, m)
         else
           let lo = \<lparr>code_ptr = 0, code_end = 0, code_to_pc_addend = pc m,
                     insn_counter_addend = start + of_nat n, insn_counter_start = start, insn_executed = 0\<rparr>;
               (taken, m) = (if interrupts_enabled m then raise_interrupt m else (False, m))
           in if taken then
                the_end (n - 1) (lo\<lparr>insn_counter_addend := insn_counter_addend lo - 1\<rparr>) m
              else interp_loop e (n + 1) lo (m\<lparr>pending_exception := - 1\<rparr>))"

definition riscv_cpu_interp ::
  "('d, 'z) RISCVMachine_scheme cpu_env \<Rightarrow> nat \<Rightarrow> ('d, 'z) RISCVMachine_scheme
     \<Rightarrow> (int \<times> ('d, 'z) RISCVMachine_scheme) option" where
  "riscv_cpu_interp e n m = riscv_cpu_interp64 e n m"

end
