(* ===== verification/Riscv_Api.thy ===== *)
theory Riscv_Api
  imports Riscv_Interp
begin

text \<open>
  The functions \<open>src/riscv_cpu.cpp\<close> exports around the interpreter: creation of a hart,
  access to its registers for co-simulation, and the boot ROM a checkpoint restores a hart with.
  A failed \<open>assert\<close> or an \<open>exit\<close> is \<open>None\<close>.
\<close>

section \<open>Creation\<close>

text \<open>\<open>mallocz\<close> clears the structure; \<open>custom_extension\<close> and \<open>clear_ids\<close> are fields of the machine.\<close>

definition zeroed_cpu :: RISCVCPUState where
  "zeroed_cpu = \<lparr>pc = 0, reg = (\<lambda>_. 0), reg_prior = (\<lambda>_. 0), most_recently_written_reg = 0,
     last_data_paddr = 0, fp_reg = (\<lambda>_. 0), most_recently_written_fp_reg = 0, fflags = 0, frm = 0,
     priv = 0, fs = 0, insn_counter = 0, minstret = 0, mcycle = 0, debug_mode = False,
     stop_the_counter = False, power_down_flag = False, terminate_simulation = False,
     pending_exception = 0, pending_tval = 0, mstatus = 0, mtvec = 0, mscratch = 0, mepc = 0,
     mcause = 0, mtval = 0, mvendorid = 0, marchid = 0, mimpid = 0, mhartid = 0, misa = 0, mie = 0,
     mip = 0, medeleg = 0, mideleg = 0, mcounteren = 0, mcountinhibit = 0, tselect = 0,
     tdata1 = (\<lambda>_. 0), tdata2 = (\<lambda>_. 0), mhpmevent = (\<lambda>_. 0), csr_pmpcfg = (\<lambda>_. 0),
     csr_pmpaddr = (\<lambda>_. 0), pmp_n = 0, pmp = (\<lambda>_. \<lparr>pmp_lo = 0, pmp_hi = 0\<rparr>),
     pmpcfg = (\<lambda>_. 0), stvec = 0, sscratch = 0, sepc = 0, scause = 0, stval = 0, satp = 0,
     scounteren = 0, dcsr = 0, dpc = 0, dscratch = 0, plic_enable_irq = (\<lambda>_. 0), load_res = 0,
     physical_addr_len = 0, tlb_read = (\<lambda>_. \<lparr>tlb_vaddr = 0, tlb_mem_addend = 0\<rparr>),
     tlb_write = (\<lambda>_. \<lparr>tlb_vaddr = 0, tlb_mem_addend = 0\<rparr>),
     tlb_code = (\<lambda>_. \<lparr>tlb_vaddr = 0, tlb_mem_addend = 0\<rparr>),
     tlb_read_paddr_addend = (\<lambda>_. 0), tlb_write_paddr_addend = (\<lambda>_. 0),
     tlb_code_paddr_addend = (\<lambda>_. 0), benchmark_exit_code = 0, info = ctf_nop, next_addr = 0,
     timecmp = 0, ignore_sbi_shutdown = False\<rparr>"

definition riscv_cpu_init :: "u64 \<Rightarrow> bool \<Rightarrow> bool \<Rightarrow> u64 \<Rightarrow> RISCVCPUState" where
  "riscv_cpu_init reset_vector custom_extension clear_ids hartid =
     tlb_init (zeroed_cpu\<lparr>
       pc := reset_vector,
       priv := PRV_M,
       mstatus := push_bit 32 2 OR push_bit 34 2 OR push_bit 11 3,
       plic_enable_irq := (\<lambda>_. 0),
       misa := MCPUID_IMA_SU OR MCPUID_F OR MCPUID_D OR MCPUID_C
               OR (if custom_extension then MCPUID_X else 0),
       most_recently_written_reg := - 1,
       most_recently_written_fp_reg := - 1,
       mvendorid := (if clear_ids then 0 else 11 * 128 + 101),
       marchid := (if clear_ids then 0 else push_bit 63 1 OR 2),
       mimpid := (if clear_ids then 0 else 1),
       mhartid := hartid,
       tselect := 0,
       tdata1 := (\<lambda>i. if i < MAX_TRIGGERS then MCONTROL_TYPE_AD_MATCH OR MCONTROL_MAXMASK_4 else 0),
       tdata2 := (\<lambda>i. if i < MAX_TRIGGERS then NOT 0 else 0),
       dcsr := push_bit 30 1 + 3,
       benchmark_exit_code := 0\<rparr>)"

section \<open>Access to registers\<close>

definition riscv_set_pc :: "u64 \<Rightarrow> 'z RISCVCPUState_scheme \<Rightarrow> 'z RISCVCPUState_scheme" where
  "riscv_set_pc v s = s\<lparr>pc := v AND pc_align_mask s\<rparr>"

definition riscv_get_reg :: "'z RISCVCPUState_scheme \<Rightarrow> int \<Rightarrow> u64 option" where
  "riscv_get_reg s rn = (if 0 \<le> rn \<and> rn < 32 then Some (reg s (nat rn)) else None)"

definition riscv_get_reg_previous :: "'z RISCVCPUState_scheme \<Rightarrow> int \<Rightarrow> u64 option" where
  "riscv_get_reg_previous s rn = (if 0 \<le> rn \<and> rn < 32 then Some (reg_prior s (nat rn)) else None)"

definition riscv_get_fpreg :: "'z RISCVCPUState_scheme \<Rightarrow> int \<Rightarrow> u64 option" where
  "riscv_get_fpreg s rn = (if 0 \<le> rn \<and> rn < 32 then Some (fp_reg s (nat rn)) else None)"

definition riscv_set_reg ::
  "int \<Rightarrow> u64 \<Rightarrow> 'z RISCVCPUState_scheme \<Rightarrow> 'z RISCVCPUState_scheme option" where
  "riscv_set_reg rn v s = (if 0 < rn \<and> rn < 32 then Some (s\<lparr>reg := (reg s)(nat rn := v)\<rparr>) else None)"

definition riscv_repair_csr ::
  "nat \<Rightarrow> u64 \<Rightarrow> u64 \<Rightarrow> 'z RISCVCPUState_scheme \<Rightarrow> 'z RISCVCPUState_scheme" where
  "riscv_repair_csr reg_num csr_num csr_val s =
     (let c = csr_num AND 0xfff
      in if c = 0xb00 \<or> c = 0xc00 then s\<lparr>mcycle := csr_val, reg := (reg s)(reg_num := csr_val)\<rparr>
         else if c = 0xb02 \<or> c = 0xc02 then s\<lparr>minstret := csr_val, reg := (reg s)(reg_num := csr_val)\<rparr>
         else s)"

definition riscv_cpu_sync_regs :: "'z RISCVCPUState_scheme \<Rightarrow> 'z RISCVCPUState_scheme" where
  "riscv_cpu_sync_regs s = s\<lparr>reg_prior := (\<lambda>i. if 1 \<le> i \<and> i < 32 then reg s i else reg_prior s i)\<rparr>"

definition riscv_read_insn ::
  "u64 \<Rightarrow> ('d, 'z) RISCVMachine_scheme \<Rightarrow> u32 option \<times> ('d, 'z) RISCVMachine_scheme" where
  "riscv_read_insn addr m =
     (case target_read_insn_slow 32 addr m of (res, m') \<Rightarrow>
        (res, m'\<lparr>pending_exception := pending_exception m, pending_tval := pending_tval m\<rparr>))"

section \<open>Instruction words of the boot ROM\<close>

definition create_csrrw :: "u32 \<Rightarrow> u32 \<Rightarrow> u32" where
  "create_csrrw rs csrn = 0x1073 OR push_bit 20 (csrn AND 0xfff) OR push_bit 15 (rs AND 0x1f)"

definition create_csrrs :: "u32 \<Rightarrow> u32 \<Rightarrow> u32" where
  "create_csrrs rd csrn = 0x2073 OR push_bit 20 (csrn AND 0xfff) OR push_bit 7 (rd AND 0x1f)"

definition create_auipc :: "u32 \<Rightarrow> u32 \<Rightarrow> u32" where
  "create_auipc rd addr =
     (let addr = (if addr AND 0x800 \<noteq> 0 then addr + 0x800 else addr)
      in 0x17 OR push_bit 7 (rd AND 0x1f) OR push_bit 12 (drop_bit 12 addr))"

definition create_addi :: "u32 \<Rightarrow> u32 \<Rightarrow> u32" where
  "create_addi rd addr =
     (let pos = addr AND 0xfff
      in 0x13 OR push_bit 7 (rd AND 0x1f) OR push_bit 15 (rd AND 0x1f) OR push_bit 20 (pos AND 0xfff))"

definition create_seti :: "u32 \<Rightarrow> u32 \<Rightarrow> u32" where
  "create_seti rd data = 0x13 OR push_bit 7 (rd AND 0x1f) OR push_bit 20 (data AND 0xfff)"

definition create_ld :: "u32 \<Rightarrow> u32 \<Rightarrow> u32" where
  "create_ld rd rs1 = 3 OR push_bit 7 (rd AND 0x1f) OR push_bit 12 3 OR push_bit 15 (rs1 AND 0x1f)"

definition create_sd :: "u32 \<Rightarrow> u32 \<Rightarrow> u32" where
  "create_sd rs1 rs2 = 0x23 OR push_bit 20 (rs2 AND 0x1f) OR push_bit 12 3 OR push_bit 15 (rs1 AND 0x1f)"

definition create_fld :: "u32 \<Rightarrow> u32 \<Rightarrow> u32" where
  "create_fld rd rs1 = 7 OR push_bit 7 (rd AND 0x1f) OR push_bit 12 3 OR push_bit 15 (rs1 AND 0x1f)"

section \<open>Laying out the boot ROM\<close>

text \<open>
  The ROM under construction: its words, and the next free code and data word.  The array has
  \<open>ROM_SIZE / 4\<close> words; that every index stays below is what \<open>create_boot_rom\<close> checks
  at its end.
\<close>

record rom_builder =
  rom :: "nat \<Rightarrow> u32"
  code_pos :: nat
  data_pos :: nat

definition emit_code :: "u32 \<Rightarrow> rom_builder \<Rightarrow> rom_builder" where
  "emit_code w r = r\<lparr>rom := (rom r)(code_pos r := w), code_pos := code_pos r + 1\<rparr>"

definition emit_data :: "u32 \<Rightarrow> rom_builder \<Rightarrow> rom_builder" where
  "emit_data w r = r\<lparr>rom := (rom r)(data_pos r := w), data_pos := data_pos r + 1\<rparr>"

definition emit_data64 :: "u64 \<Rightarrow> rom_builder \<Rightarrow> rom_builder" where
  "emit_data64 v r = emit_data (ucast (drop_bit 32 v)) (emit_data (ucast v) r)"

text \<open>\<open>sizeof(uint32_t) * (*data_pos - *code_pos)\<close>\<close>

definition data_off :: "rom_builder \<Rightarrow> u32" where
  "data_off r = 4 * (of_nat (data_pos r) - of_nat (code_pos r))"

definition create_csr12_recovery :: "u32 \<Rightarrow> u16 \<Rightarrow> rom_builder \<Rightarrow> rom_builder" where
  "create_csr12_recovery csrn v r =
     emit_code (create_csrrw 1 csrn) (emit_code (create_seti 1 (ucast v AND 0xfff)) r)"

text \<open>\<open>auipc; addi; ld\<close> of the next data word pair into register \<open>rd\<close>, addressed through \<open>rd\<close>.\<close>

definition emit_load :: "u32 \<Rightarrow> rom_builder \<Rightarrow> rom_builder" where
  "emit_load rd r =
     (let off = data_off r
      in emit_code (create_ld rd rd) (emit_code (create_addi rd off) (emit_code (create_auipc rd off) r)))"

definition create_csr64_recovery :: "u32 \<Rightarrow> u64 \<Rightarrow> rom_builder \<Rightarrow> rom_builder" where
  "create_csr64_recovery csrn v r = emit_data64 v (emit_code (create_csrrw 1 csrn) (emit_load 1 r))"

definition create_reg_recovery :: "u32 \<Rightarrow> u64 \<Rightarrow> rom_builder \<Rightarrow> rom_builder" where
  "create_reg_recovery rn v r = emit_data64 v (emit_load rn r)"

definition create_io64_recovery :: "u64 \<Rightarrow> u64 \<Rightarrow> rom_builder \<Rightarrow> rom_builder" where
  "create_io64_recovery addr v r =
     (let r = emit_data64 addr (emit_load 1 r);
          r = emit_load 2 r
      in emit_data64 v (emit_code (create_sd 1 2) r))"

definition create_hang_nonzero_hart :: "rom_builder \<Rightarrow> rom_builder" where
  "create_hang_nonzero_hart r =
     emit_code 0xffdff06f (emit_code 0x10500073 (emit_code 0x00050663 (emit_code 0xf1402573 r)))"

text \<open>One floating-point register: as in the source, the high word comes from \<open>reg[i]\<close>.\<close>

definition create_fpreg_recovery :: "'z RISCVCPUState_scheme \<Rightarrow> nat \<Rightarrow> rom_builder \<Rightarrow> rom_builder" where
  "create_fpreg_recovery s i r =
     (let off = data_off r;
          r = emit_code (create_fld (of_nat i) 1) (emit_code (create_addi 1 off) (emit_code (create_auipc 1 off) r))
      in emit_data (ucast (drop_bit 32 (reg s i))) (emit_data (ucast (fp_reg s i)) r))"

definition recover_fp :: "'z RISCVCPUState_scheme \<Rightarrow> rom_builder \<Rightarrow> rom_builder" where
  "recover_fp s r =
     (if fs s \<noteq> 0 then
        fold (create_fpreg_recovery s) [0..<32]
          (create_csr12_recovery 0x003 (ucast (fflags s OR push_bit 5 (ucast (frm s))))
             (create_csr12_recovery 0x002 (ucast (frm s))
                (create_csr12_recovery 0x001 (ucast (fflags s)) r)))
      else r)"

definition recover_hpm :: "'z RISCVCPUState_scheme \<Rightarrow> rom_builder \<Rightarrow> rom_builder" where
  "recover_hpm s r =
     fold (\<lambda>i r. create_csr64_recovery (0x320 + of_nat i) (mhpmevent s i)
                   (create_csr12_recovery (0xb00 + of_nat i) 0 r)) [3..<32] r"

definition recover_machine_csrs :: "'z RISCVCPUState_scheme \<Rightarrow> rom_builder \<Rightarrow> rom_builder" where
  "recover_machine_csrs s r =
     (let r = create_csr64_recovery 0x7a0 (ucast (tselect s)) r;
          r = create_csr64_recovery 0x302 (ucast (medeleg s)) r;
          r = create_csr64_recovery 0x303 (ucast (mideleg s)) r;
          r = create_csr64_recovery 0x304 (ucast (mie s)) r;
          r = create_csr64_recovery 0x305 (mtvec s) r;
          r = create_csr64_recovery 0x105 (stvec s) r;
          r = create_csr12_recovery 0x320 (ucast (mcountinhibit s)) r;
          r = create_csr12_recovery 0x306 (ucast (mcounteren s)) r;
          r = create_csr12_recovery 0x106 (ucast (scounteren s)) r;
          r = fold (\<lambda>i. create_csr64_recovery (0x3b0 + of_nat i) (csr_pmpaddr s i)) [0..<16] r;
          r = fold (\<lambda>i. create_csr64_recovery (0x3a0 + of_nat i) (csr_pmpcfg s i)) [0, 2] r;
          r = create_csr64_recovery 0x340 (mscratch s) r;
          r = create_csr64_recovery 0x341 (mepc s) r;
          r = create_csr64_recovery 0x342 (mcause s) r;
          r = create_csr64_recovery 0x343 (mtval s) r;
          r = create_csr64_recovery 0x140 (sscratch s) r;
          r = create_csr64_recovery 0x141 (sepc s) r;
          r = create_csr64_recovery 0x142 (scause s) r;
          r = create_csr64_recovery 0x143 (stval s) r
      in create_csr64_recovery 0x344 (ucast (mip s)) r)"

text \<open>\<open>RTC_FREQ_DIV\<close> is 2000000000 / 1000000.\<close>

definition recover_tail :: "u64 \<Rightarrow> 'z RISCVCPUState_scheme \<Rightarrow> rom_builder \<Rightarrow> rom_builder" where
  "recover_tail clint_base_addr s r =
     (let r = fold (\<lambda>i. create_reg_recovery (of_nat i) (reg s i)) [3..<32] r;
          r = create_io64_recovery (clint_base_addr + 0x4000) (timecmp s) r;
          r = create_csr64_recovery 0xb02 (minstret s) r;
          r = create_csr64_recovery 0xb00 (mcycle s) r;
          r = create_io64_recovery (clint_base_addr + 0xbff8) (mcycle s div 2000) r;
          r = fold (\<lambda>i. create_reg_recovery (of_nat i) (reg s i)) [1..<3] r;
          r = emit_code (create_csrrw 1 0x7b2) r;
          r = create_csr64_recovery 0x180 (satp s) r;
          r = emit_code (create_csrrs 1 0x7b2) r
      in emit_code 0x7b200073 r)"

text \<open>The ROM before the final size check.\<close>

definition layout_boot_rom :: "nat \<Rightarrow> u64 \<Rightarrow> 'z RISCVCPUState_scheme \<Rightarrow> rom_builder" where
  "layout_boot_rom ncpus clint_base_addr s =
     (let r = \<lparr>rom = (\<lambda>_. 0), code_pos = 0, data_pos = 0xb00 div 4\<rparr>;
          r = (if ncpus = 1 then create_hang_nonzero_hart r else r);
          r = create_csr64_recovery 0x7b1 (pc s) r;
          r = create_csr12_recovery 0x7b0 (0x600 OR ucast (priv s)) r;
          r = create_csr64_recovery 0x300 (get_mstatus s (- 1)) r;
          r = create_csr64_recovery 0x301 (ucast (misa s) OR push_bit 62 2) r
      in recover_tail clint_base_addr s (recover_machine_csrs s (recover_hpm s (recover_fp s r))))"

text \<open>\<open>None\<close> is one of the two \<open>exit\<close> calls.\<close>

definition create_boot_rom :: "nat \<Rightarrow> u64 \<Rightarrow> 'z RISCVCPUState_scheme \<Rightarrow> (nat \<Rightarrow> u32) option" where
  "create_boot_rom ncpus clint_base_addr s =
     (if priv s = PRV_H then None
      else
        let r = layout_boot_rom ncpus clint_base_addr s
        in if 0x1000 div 4 \<le> data_pos r \<or> 0xb00 div 4 \<le> code_pos r then None else Some (rom r))"

end
