(* ===== verification/Riscv_Example.thy ===== *)
theory Riscv_Example
  imports Riscv_Api
begin

text \<open>
  A small concrete machine for evaluating properties on: one hart after reset, with 40 physical
  address bits, one page of RAM at the reset vector 0x80000000 (at host address 0x1000) and no
  devices.
\<close>

definition example_range :: PhysMemoryRange where
  "example_range = \<lparr>pr_addr = 0x80000000, pr_org_size = 0x1000, pr_size = 0x1000, pr_is_ram = True,
     pr_devram_flags = 2, pr_phys_mem = 0x1000, pr_dirty_bits_size = 4, pr_dirty_bits = True,
     pr_dirty_bits_tab = (\<lambda>_ _. 0), pr_dirty_bits_index = 0, pr_opaque = 0, pr_devio_flags = 0\<rparr>"

definition example_cpu :: RISCVCPUState where
  "example_cpu = (riscv_cpu_init 0x80000000 False False 0)\<lparr>physical_addr_len := 40\<rparr>"

definition example_machine :: "unit RISCVMachine" where
  "example_machine = RISCVCPUState.extend example_cpu
     (RISCVMachine.fields (\<lambda>_. 0) [example_range] () (- 1) False)"

lemma example_fields [simp]:
  "pc example_machine = 0x80000000" "priv example_machine = 3" "reg example_machine = (\<lambda>_. 0)"
  "physical_addr_len example_machine = 40" "pmp_n example_machine = 0"
  "mem_map example_machine = [example_range]" "ram example_machine = (\<lambda>_. 0)"
  "csr_pmpcfg example_machine = (\<lambda>_. 0)" "csr_pmpaddr example_machine = (\<lambda>_. 0)"
  "satp example_machine = 0" "tselect example_machine = 0" "mip example_machine = 0"
  "mie example_machine = 0" "debug_mode example_machine = False" "insn_counter example_machine = 0"
  "stop_the_counter example_machine = False" "pending_interrupt example_machine = - 1"
  "cosim example_machine = False" "medeleg example_machine = 0" "mtvec example_machine = 0"
  "mstatus example_machine = 0xa00001800" "devs example_machine = ()"
  "tdata2 example_machine = (\<lambda>i. if i = 0 then - 1 else 0)"
  "tdata1 example_machine = (\<lambda>i. if i = 0 then 0x2080000000000000 else 0)"
  "minstret example_machine = 0" "mcycle example_machine = 0"
  by (simp_all add: example_machine_def example_cpu_def RISCVCPUState.defs RISCVMachine.defs
      riscv_cpu_init_def tlb_init_def zeroed_cpu_def fun_eq_iff)

lemma example_tlbs [simp]:
  "i < 256 \<Longrightarrow> tlb_vaddr (tlb_read example_machine i) = - 1"
  "i < 256 \<Longrightarrow> tlb_vaddr (tlb_write example_machine i) = - 1"
  "i < 256 \<Longrightarrow> tlb_vaddr (tlb_code example_machine i) = - 1"
  by (simp_all add: example_machine_def example_cpu_def RISCVCPUState.defs RISCVMachine.defs
      riscv_cpu_init_def tlb_init_def zeroed_cpu_def)

lemma example_range_ok [simp]:
  "get_phys_mem_range [example_range] 0x80000000 = Some 0" "get_phys_mem_range [example_range] 0x80000008 = Some 0"
  "pr_is_ram example_range" "pr_phys_mem example_range = 0x1000" "pr_addr example_range = 0x80000000"
  by (simp_all add: get_phys_mem_range_def in_phys_range_def example_range_def)

end
