(* ===== verification/Base_Props.thy ===== *)
theory Base_Props
  imports Riscv_Example
begin

text \<open>
  The properties of the base components: byte order, bit search, the physical memory map and
  physical memory.
\<close>

section \<open>Byte order and bit search\<close>

text \<open>
  Storing and loading are inverse for every access width and byte order, and storing the
  byte-swapped word little-endian stores the word big-endian.
\<close>

theorem byte_order_roundtrip:
  "get_le16 (put_le16 m p a) p = a \<and> get_le32 (put_le32 m p b) p = b \<and>
   get_le64 (put_le64 m p c) p = c \<and> get_be32 (put_be32 m p b) p = b \<and>
   put_le32 m p (cpu_to_be32 b) = put_be32 m p b"
  by (simp add: put_le32_cpu_to_be32)

text \<open>
  The binary search for the lowest set bit returns what the compiler built-in returns: the
  position of the lowest set bit, and 32 for zero.
\<close>

theorem ctz32_correct:
  "ctz32_portable v = ctz32 v \<and>
   (if v = 0 then ctz32 v = 32
    else ctz32 v < 32 \<and> bit v (ctz32 v) \<and> (\<forall>j. j < ctz32 v \<longrightarrow> \<not> bit v j))"
proof (cases "v = 0")
  case True
  then show ?thesis by (simp add: ctz32_portable_eq) (simp add: ctz32_def)
next
  case False
  then obtain i where i: "i < 32" "bit v i" "\<forall>j<i. \<not> bit v j" by (rule lowest_bit_exists)
  with False show ?thesis by (simp add: ctz32_portable_eq ctz32_eqI [OF i])
qed

theorem ctz32_correct_witness: "bit (40 :: u32) (ctz32 40) \<and> \<not> bit (40 :: u32) 2"
proof -
  have "ctz32 40 = 3" by (rule ctz32_eqI) (auto simp: less_Suc_eq numeral_3_eq_3 bit_numeral_rec)
  then show ?thesis using ctz32_correct [of 40] by (simp split: if_splits)
qed

section \<open>The physical memory map\<close>

text \<open>
  A range registered later shadows the earlier ones: an address it contains resolves to it,
  every other address as before.
\<close>

theorem later_range_shadows:
  "get_phys_mem_range (s @ [pr]) paddr =
     (if in_phys_range paddr pr then Some (length s) else get_phys_mem_range s paddr)"
  by (rule get_phys_mem_range_snoc)

text \<open>
  Registering RAM succeeds exactly when a slot is free, the size is a non-zero number of
  pages and the allocation succeeds; the new memory reads as zero and no other byte changes.
\<close>

theorem register_ram_correct:
  "(case default_register_ram ptr s addr sz flags m of
      None \<Rightarrow> \<not> (length s < PHYS_MEM_RANGE_MAX \<and> sz AND 0xfff = 0 \<and> sz \<noteq> 0 \<and> ptr \<noteq> 0)
    | Some (s', m') \<Rightarrow>
        length s < PHYS_MEM_RANGE_MAX \<and> sz AND 0xfff = 0 \<and> sz \<noteq> 0 \<and> ptr \<noteq> 0 \<and>
        butlast s' = s \<and> pr_is_ram (last s') \<and> pr_addr (last s') = addr \<and> pr_phys_mem (last s') = ptr \<and>
        pr_size (last s') = (if flags AND DEVRAM_FLAG_DISABLED \<noteq> 0 then 0 else sz) \<and>
        m' = (\<lambda>p. if p - ptr < sz then 0 else m p))"
  by (auto simp: default_register_ram_def register_ram_entry_def mallocz_block_def Let_def
      split: if_splits)

text \<open>
  Dirty tracking: a store marks its own page and leaves the marks of all other pages;
  fetching the bitmap returns every mark and leaves no page of the range marked.
\<close>

theorem dirty_tracking_correct:
  assumes "pr_dirty_bits pr" and "pr_dirty_bits_index pr < 2"
    and "unat (drop_bit 17 offset') < pr_dirty_bits_size pr div 4"
  shows "(phys_mem_is_dirty_bit (phys_mem_set_dirty_bit pr offset) offset' \<longleftrightarrow>
      phys_mem_is_dirty_bit pr offset' \<or> drop_bit 12 offset = drop_bit 12 offset') \<and>
    (case default_get_dirty_bits flush pr c of (bits, pr', c') \<Rightarrow>
      (bit (bits (unat (drop_bit 17 offset'))) (unat (drop_bit 12 offset' AND 31))
        \<longleftrightarrow> phys_mem_is_dirty_bit pr offset') \<and> \<not> phys_mem_is_dirty_bit pr' offset')"
proof
  show "phys_mem_is_dirty_bit (phys_mem_set_dirty_bit pr offset) offset' \<longleftrightarrow>
      phys_mem_is_dirty_bit pr offset' \<or> drop_bit 12 offset = drop_bit 12 offset'"
    by (rule is_dirty_set_dirty)
  show "case default_get_dirty_bits flush pr c of (bits, pr', c') \<Rightarrow>
      (bit (bits (unat (drop_bit 17 offset'))) (unat (drop_bit 12 offset' AND 31))
        \<longleftrightarrow> phys_mem_is_dirty_bit pr offset') \<and> \<not> phys_mem_is_dirty_bit pr' offset'"
    using assms
    by (simp add: default_get_dirty_bits_def phys_mem_is_dirty_bit_def Let_def and_1_odd
        bit_iff_odd_drop_bit drop_bit_drop_bit)
qed

theorem dirty_tracking_correct_witness:
  "phys_mem_is_dirty_bit (phys_mem_set_dirty_bit example_range 8) 0x10 \<and>
   \<not> phys_mem_is_dirty_bit (fst (snd (default_get_dirty_bits (\<lambda>_ _ c :: unit. c) example_range ()))) 0x10"
  using dirty_tracking_correct [of example_range "0x10" 8 "\<lambda>_ _ c :: unit. c" "()"]
  by (auto simp: example_range_def split: prod.splits)

section \<open>Physical memory\<close>

lemma pmp_scan_ram: "pmp_scan (m\<lparr>ram := r\<rparr>) prv paddr sz perm is = pmp_scan m prv paddr sz perm is"
  by (induction "is") simp_all

lemma get_phys_mem_range_pmp_ram:
  "get_phys_mem_range_pmp (m\<lparr>ram := r\<rparr>) paddr sz perm = get_phys_mem_range_pmp m paddr sz perm"
  by (simp add: get_phys_mem_range_pmp_def riscv_cpu_pmp_access_ok_def pmp_scan_ram access_priv_def)



end
