(* ===== verification/Softfp_Lemmas.thy ===== *)
theory Softfp_Lemmas
  imports Softfp_Cvt
begin

text \<open>
  Facts about the fields of a float: the three format parameters, the value of each field
  as an integer, and that packing and unpacking are inverse.
\<close>

section \<open>Format parameters\<close>

lemma sf_sizes:
  assumes "sf_format TYPE('a::len)"
  shows "LENGTH('a) = MANT_SIZE TYPE('a) + EXP_SIZE TYPE('a) + 1"
    and "LENGTH('a) = MANT_SIZE TYPE('a) + RND_SIZE TYPE('a) + 2"
    and "7 \<le> RND_SIZE TYPE('a)" and "RND_SIZE TYPE('a) \<le> 14"
    and "23 \<le> MANT_SIZE TYPE('a)" and "8 \<le> EXP_SIZE TYPE('a)"
    and "RND_SIZE TYPE('a) < MANT_SIZE TYPE('a)"
    and "IMANT_SIZE TYPE('a) = LENGTH('a) - 2"
  using assms by (auto simp: sf_format_def MANT_SIZE_def EXP_SIZE_def RND_SIZE_def IMANT_SIZE_def)

lemma sf_format_32 [simp]: "sf_format TYPE(32)"
  and sf_format_64 [simp]: "sf_format TYPE(64)"
  and sf_format_128 [simp]: "sf_format TYPE(128)"
  by (simp_all add: sf_format_def)

lemma sf_params_32 [simp]:
  "MANT_SIZE TYPE(32) = 23" "EXP_SIZE TYPE(32) = 8" "RND_SIZE TYPE(32) = 7"
  "EXP_MASK TYPE(32) = 255"
  by (simp_all add: MANT_SIZE_def EXP_SIZE_def RND_SIZE_def IMANT_SIZE_def EXP_MASK_def)

lemma sf_params_64 [simp]:
  "MANT_SIZE TYPE(64) = 52" "EXP_SIZE TYPE(64) = 11" "RND_SIZE TYPE(64) = 10"
  "EXP_MASK TYPE(64) = 2047"
  by (simp_all add: MANT_SIZE_def EXP_SIZE_def RND_SIZE_def IMANT_SIZE_def EXP_MASK_def)

section \<open>Words as integers\<close>

lemma uint_push_bit_1: "n < LENGTH('a) \<Longrightarrow> uint (push_bit n 1 :: 'a::len word) = 2 ^ n"
  by (simp add: push_bit_of_1 uint_2p word_greater_zero_iff)

lemma push_bit_1_minus_1: "push_bit n 1 - 1 = (mask n :: 'a::len word)"
  by (simp add: push_bit_of_1 mask_eq_exp_minus_1)

lemma MANT_MASK_eq_mask: "MANT_MASK = (mask (MANT_SIZE TYPE('a)) :: 'a::len word)"
  unfolding MANT_MASK_def by (rule push_bit_1_minus_1)

lemma uint_take_bit: "uint (take_bit n a :: 'a::len word) = uint a mod 2 ^ n"
proof (cases "n \<le> LENGTH('a)")
  case True
  then show ?thesis by (simp add: unsigned_take_bit_eq flip: take_bit_eq_mod)
next
  case False
  then have "uint a < 2 ^ n"
    by (meson less_le_trans linorder_le_cases power_increasing uint_lt2p one_le_numeral)
  with False show ?thesis by (simp add: take_bit_word_eq_self)
qed

lemma uint_drop_bit: "uint (drop_bit n a :: 'a::len word) = uint a div 2 ^ n"
  by (simp add: unsigned_drop_bit_eq take_bit_int_eq_self flip: drop_bit_eq_div)

lemma uint_word_of_int_id:
  "0 \<le> k \<Longrightarrow> k < 2 ^ LENGTH('a) \<Longrightarrow> uint (word_of_int k :: 'a::len word) = k"
  by (simp add: uint_word_of_int)

section \<open>Fields\<close>

lemma uint_sf_mant: "uint (sf_mant (a :: 'a::len word)) = uint a mod 2 ^ MANT_SIZE TYPE('a)"
  by (simp add: sf_mant_def MANT_MASK_eq_mask uint_take_bit flip: take_bit_eq_mask)

lemma EXP_MASK_word: 
  "(word_of_int (EXP_MASK TYPE('a)) :: 'a::len word) = mask (EXP_SIZE TYPE('a))"
  by (simp add: EXP_MASK_def mask_eq_exp_minus_1)

lemma sf_exp_eq:
  "sf_exp (a :: 'a::len word) = (uint a div 2 ^ MANT_SIZE TYPE('a)) mod 2 ^ EXP_SIZE TYPE('a)"
  by (simp add: sf_exp_def EXP_MASK_word uint_take_bit uint_drop_bit flip: take_bit_eq_mask)

lemma sf_exp_range: "0 \<le> sf_exp (a :: 'a::len word)" "sf_exp a \<le> EXP_MASK TYPE('a)"
  using pos_mod_bound [of "2 ^ EXP_SIZE TYPE('a)" "uint a div 2 ^ MANT_SIZE TYPE('a)"]
  by (simp_all add: sf_exp_eq EXP_MASK_def)

lemma uint_sf_mant_range: "0 \<le> uint (sf_mant (a :: 'a::len word))"
  "uint (sf_mant a) < 2 ^ MANT_SIZE TYPE('a)"
  by (simp_all add: uint_sf_mant)

lemma sf_sign_iff: "sf_sign (a :: 'a::len word) \<longleftrightarrow> 2 ^ (LENGTH('a) - 1) \<le> uint a"
proof -
  have "drop_bit (LENGTH('a) - 1) a = 0 \<longleftrightarrow> uint a div 2 ^ (LENGTH('a) - 1) = 0"
    by (metis uint_drop_bit uint_0_iff)
  also have "\<dots> \<longleftrightarrow> uint a < 2 ^ (LENGTH('a) - 1)"
    by (auto simp: zdiv_eq_0_iff)
  finally show ?thesis by (auto simp: sf_sign_def)
qed

lemma uint_decomp:
  assumes "sf_format TYPE('a::len)"
  shows "uint (a :: 'a word) = of_bool (sf_sign a) * 2 ^ (LENGTH('a) - 1)
    + sf_exp a * 2 ^ MANT_SIZE TYPE('a) + uint (sf_mant a)"
proof -
  let ?M = "MANT_SIZE TYPE('a)" and ?E = "EXP_SIZE TYPE('a)"
  have F: "LENGTH('a) - 1 = ?M + ?E" using sf_sizes(1) [OF assms] by simp
  let ?q = "uint a div 2 ^ ?M" and ?r = "uint a mod 2 ^ ?M"
  have q: "?q div 2 ^ ?E = of_bool (sf_sign a)"
  proof -
    have "uint a < 2 * 2 ^ (?M + ?E)"
      using uint_lt2p [of a] sf_sizes(1) [OF assms] by simp
    then have "uint a div 2 ^ (?M + ?E) < 2" "0 \<le> uint a div 2 ^ (?M + ?E)"
      by (simp_all add: pos_imp_zdiv_nonneg_iff pos_zdiv_less_iff)
    moreover have "uint a div 2 ^ (?M + ?E) = 0 \<longleftrightarrow> \<not> sf_sign a"
      unfolding sf_sign_iff F by (auto simp: zdiv_eq_0_iff)
    ultimately have "uint a div 2 ^ (?M + ?E) = of_bool (sf_sign a)"
      by (cases "sf_sign a") auto
    then show ?thesis by (simp add: power_add zdiv_zmult2_eq)
  qed
  have "uint a = ?q * 2 ^ ?M + ?r" by (simp only: div_mult_mod_eq)
  also have "?q = ?q div 2 ^ ?E * 2 ^ ?E + ?q mod 2 ^ ?E" by (simp only: div_mult_mod_eq)
  also have "(\<dots>) * 2 ^ ?M + ?r = of_bool (sf_sign a) * 2 ^ (?M + ?E) + sf_exp a * 2 ^ ?M + ?r"
    unfolding q sf_exp_eq power_add by (simp only: algebra_simps)
  finally show ?thesis unfolding F uint_sf_mant .
qed

section \<open>Packing and unpacking\<close>

lemma sf_sign_bit: "sf_sign (a :: 'a::len word) \<longleftrightarrow> bit a (LENGTH('a) - 1)"
proof -
  have "bit a (LENGTH('a) - 1 + n) \<longleftrightarrow> n = 0 \<and> bit a (LENGTH('a) - 1)" for n
    by (cases n) (auto dest: bit_imp_le_length)
  then show ?thesis by (auto simp: sf_sign_def bit_eq_iff bit_drop_bit_eq)
qed

lemma bit_pack_sf:
  assumes f: "sf_format TYPE('a::len)" and e: "0 \<le> e" "e \<le> EXP_MASK TYPE('a)"
  shows "bit (pack_sf s e m :: 'a word) n \<longleftrightarrow>
    (if n < MANT_SIZE TYPE('a) then bit m n
     else if n < LENGTH('a) - 1 then bit e (n - MANT_SIZE TYPE('a))
     else n = LENGTH('a) - 1 \<and> s)"
proof -
  let ?M = "MANT_SIZE TYPE('a)" and ?E = "EXP_SIZE TYPE('a)"
  have L: "LENGTH('a) = ?M + ?E + 1" by (rule sf_sizes(1) [OF f])
  have top: "\<not> bit e k" if "?E \<le> k" for k
    using bit_int_less_power [of e ?E k] e that by (auto simp: EXP_MASK_def)
  show ?thesis
    using L top [of "n - ?M"]
    by (auto simp: pack_sf_def bit_or_iff bit_and_iff bit_push_bit_iff b2w_def bit_1_iff
      MANT_MASK_eq_mask bit_mask_iff bit_word_of_int_iff dest: bit_imp_le_length)
qed

lemma sf_fields_pack_sf:
  assumes f: "sf_format TYPE('a::len)" and e: "0 \<le> e" "e \<le> EXP_MASK TYPE('a)"
  shows "sf_sign (pack_sf s e m :: 'a word) = s"
    and "sf_exp (pack_sf s e m :: 'a word) = e"
    and "sf_mant (pack_sf s e m :: 'a word) = sf_mant m"
proof -
  let ?M = "MANT_SIZE TYPE('a)" and ?E = "EXP_SIZE TYPE('a)"
  have L: "LENGTH('a) = ?M + ?E + 1" by (rule sf_sizes(1) [OF f])
  have top: "\<not> bit e k" if "?E \<le> k" for k
    using bit_int_less_power [of e ?E k] e that by (auto simp: EXP_MASK_def)
  show "sf_sign (pack_sf s e m :: 'a word) = s"
    using L by (simp add: sf_sign_bit bit_pack_sf [OF f e])
  show "sf_mant (pack_sf s e m :: 'a word) = sf_mant m"
    by (auto simp: bit_eq_iff sf_mant_def bit_and_iff MANT_MASK_eq_mask bit_mask_iff
      bit_pack_sf [OF f e])
  have "drop_bit ?M (pack_sf s e m :: 'a word) AND mask ?E = word_of_int e"
  proof (rule bit_word_eqI)
    fix n assume "n < LENGTH('a)"
    then show "bit (drop_bit ?M (pack_sf s e m :: 'a word) AND mask ?E) n
        \<longleftrightarrow> bit (word_of_int e :: 'a word) n"
      using top [of n] L by (auto simp: bit_and_iff bit_drop_bit_eq bit_mask_iff
        bit_word_of_int_iff bit_pack_sf [OF f e])
  qed
  moreover have "e < 2 ^ LENGTH('a)"
  proof -
    have "e < 2 ^ ?E" using e by (simp add: EXP_MASK_def)
    also have "(2 :: int) ^ ?E \<le> 2 ^ LENGTH('a)" using L by (intro power_increasing) auto
    finally show ?thesis .
  qed
  ultimately show "sf_exp (pack_sf s e m :: 'a word) = e"
    using e by (simp add: sf_exp_def EXP_MASK_word uint_word_of_int_id)
qed

lemma pack_unpack_sf:
  assumes f: "sf_format TYPE('a::len)"
  shows "pack_sf (sf_sign a) (sf_exp a) (sf_mant a) = (a :: 'a word)"
proof (rule bit_word_eqI)
  let ?M = "MANT_SIZE TYPE('a)" and ?E = "EXP_SIZE TYPE('a)"
  have L: "LENGTH('a) = ?M + ?E + 1" by (rule sf_sizes(1) [OF f])
  have E: "bit (sf_exp a) k \<longleftrightarrow> bit a (?M + k) \<and> k < ?E" for k
    by (auto simp: sf_exp_def EXP_MASK_word bit_uint_iff bit_and_iff bit_drop_bit_eq bit_mask_iff
      dest: bit_imp_le_length)
  fix n assume "n < LENGTH('a)"
  then consider "n < ?M + ?E" | "n = ?M + ?E" using L by linarith
  then show "bit (pack_sf (sf_sign a) (sf_exp a) (sf_mant a)) n \<longleftrightarrow> bit a n"
    using L by cases (auto simp: bit_pack_sf [OF f sf_exp_range] E sf_sign_bit sf_mant_def bit_and_iff
      MANT_MASK_eq_mask bit_mask_iff)
qed


end
