(* ===== verification/Softfp_Order.thy ===== *)
theory Softfp_Order
  imports Softfp_Lemmas
begin

text \<open>
  The comparisons against an order on values.  A float that is not a NaN denotes the integer
  \<open>sf_scaled\<close>, its value in units of the smallest subnormal (\<open>2 ^ (2 - 2 ^ (EXP_SIZE - 1) -
  MANT_SIZE)\<close>); the infinities, which the formula maps beyond every finite float, are
  ordered correctly by it as well.
\<close>

section \<open>The value of a float in units of the smallest subnormal\<close>

definition sf_mag :: "'a::len word \<Rightarrow> int" where
  "sf_mag a = (if sf_exp a = 0 then uint (sf_mant a)
     else (2 ^ MANT_SIZE TYPE('a) + uint (sf_mant a)) * 2 ^ nat (sf_exp a - 1))"

definition sf_scaled :: "'a::len word \<Rightarrow> int" where
  "sf_scaled a = (if sf_sign a then - sf_mag a else sf_mag a)"

text \<open>All bits but the sign, as an integer.\<close>

definition sf_low :: "'a::len word \<Rightarrow> int" where
  "sf_low a = uint a mod 2 ^ (LENGTH('a) - 1)"

lemma sf_mag_nonneg: "0 \<le> sf_mag (a :: 'a::len word)"
  by (simp add: sf_mag_def)

lemma sf_low_nonneg: "0 \<le> sf_low (a :: 'a::len word)"
  by (simp add: sf_low_def)

lemma sf_low_eq:
  assumes "sf_format TYPE('a::len)"
  shows "sf_low (a :: 'a word) = sf_exp a * 2 ^ MANT_SIZE TYPE('a) + uint (sf_mant a)"
proof -
  let ?M = "MANT_SIZE TYPE('a)" and ?E = "EXP_SIZE TYPE('a)"
  have F: "LENGTH('a) - 1 = ?M + ?E" using sf_sizes(1) [OF assms] by simp
  have "sf_exp a * 2 ^ ?M + uint (sf_mant a) < (EXP_MASK TYPE('a) + 1) * 2 ^ ?M"
    using uint_sf_mant_range(2) [of a] mult_right_mono [OF sf_exp_range(2) [of a], of "2 ^ ?M"]
      zero_le_power [of "2 :: int" ?M]
    unfolding distrib_right by linarith
  then have "sf_exp a * 2 ^ ?M + uint (sf_mant a) < 2 ^ (?M + ?E)"
    by (simp add: EXP_MASK_def power_add mult.commute)
  then show ?thesis
    unfolding sf_low_def uint_decomp [OF assms, of a] F using sf_exp_range(1) [of a]
    by (simp add: add.assoc mod_pos_pos_trivial)
qed

lemma uint_eq_sf_low:
  assumes "sf_format TYPE('a::len)"
  shows "uint (a :: 'a word) = of_bool (sf_sign a) * 2 ^ (LENGTH('a) - 1) + sf_low a"
  using uint_decomp [OF assms, of a] sf_low_eq [OF assms, of a] by simp

text \<open>A smaller exponent field means a smaller magnitude, whatever the mantissas.\<close>

lemma sf_mag_upper:
  "sf_mag (a :: 'a::len word) < 2 ^ (MANT_SIZE TYPE('a) + nat (sf_exp a))"
proof (cases "sf_exp a = 0")
  case True
  then show ?thesis using uint_sf_mant_range [of a] by (simp add: sf_mag_def)
next
  case False
  then have e: "nat (sf_exp a) = Suc (nat (sf_exp a - 1))"
    using sf_exp_range(1) [of a] by simp
  have "(2 ^ MANT_SIZE TYPE('a) + uint (sf_mant a)) * 2 ^ nat (sf_exp a - 1)
      < (2 * 2 ^ MANT_SIZE TYPE('a)) * 2 ^ nat (sf_exp a - 1)"
    using uint_sf_mant_range [of a] by (intro mult_strict_right_mono) auto
  with False show ?thesis by (simp add: sf_mag_def e power_add)
qed

lemma sf_mag_lower:
  assumes "0 < sf_exp (a :: 'a::len word)"
  shows "2 ^ (MANT_SIZE TYPE('a) + nat (sf_exp a - 1)) \<le> sf_mag a"
proof -
  have "2 ^ MANT_SIZE TYPE('a) * 2 ^ nat (sf_exp a - 1)
      \<le> (2 ^ MANT_SIZE TYPE('a) + uint (sf_mant a)) * 2 ^ nat (sf_exp a - 1)"
    by (intro mult_right_mono) auto
  with assms show ?thesis by (simp add: sf_mag_def power_add)
qed

lemma sf_mag_exp_less:
  assumes "sf_exp (a :: 'a::len word) < sf_exp (b :: 'a word)"
  shows "sf_mag a < sf_mag b"
proof -
  have "(2 :: int) ^ (MANT_SIZE TYPE('a) + nat (sf_exp a))
      \<le> 2 ^ (MANT_SIZE TYPE('a) + nat (sf_exp b - 1))"
    using assms sf_exp_range(1) [of a] by (intro power_increasing) auto
  then show ?thesis
    using sf_mag_upper [of a] sf_mag_lower [of b] assms sf_exp_range(1) [of a] by linarith
qed

lemma sf_mag_less:
  assumes "sf_format TYPE('a::len)" and "sf_low (a :: 'a word) < sf_low (b :: 'a word)"
  shows "sf_mag a < sf_mag b"
proof (cases "sf_exp a = sf_exp b")
  case True
  then have "uint (sf_mant a) < uint (sf_mant b)"
    using assms(2) by (simp add: sf_low_eq [OF assms(1)])
  with True show ?thesis by (simp add: sf_mag_def)
next
  case False
  have "\<not> sf_exp b < sf_exp a"
  proof
    assume "sf_exp b < sf_exp a"
    then have "(sf_exp b + 1) * 2 ^ MANT_SIZE TYPE('a) \<le> sf_exp a * 2 ^ MANT_SIZE TYPE('a)"
      by (intro mult_right_mono) auto
    with assms(2) show False
      using uint_sf_mant_range [of a] uint_sf_mant_range [of b]
      by (simp add: sf_low_eq [OF assms(1)] algebra_simps)
  qed
  with False show ?thesis by (intro sf_mag_exp_less) simp
qed

lemma sf_mag_less_iff:
  assumes "sf_format TYPE('a::len)"
  shows "sf_mag (a :: 'a word) < sf_mag (b :: 'a word) \<longleftrightarrow> sf_low a < sf_low b"
proof
  assume "sf_mag a < sf_mag b"
  moreover have "sf_mag a = sf_mag b" if "sf_low a = sf_low b"
  proof -
    from that have "sf_exp a * 2 ^ MANT_SIZE TYPE('a) + uint (sf_mant a)
        = sf_exp b * 2 ^ MANT_SIZE TYPE('a) + uint (sf_mant b)"
      by (simp add: sf_low_eq [OF assms])
    then have "sf_mant a = sf_mant b \<and> sf_exp a = sf_exp b"
      using uint_sf_mant_range [of a] uint_sf_mant_range [of b]
      by (metis add.commute add_right_cancel mod_mult_self1 mod_pos_pos_trivial
        mult_cancel_right power_not_zero uint_word_of_int_eq word_of_int_uint zero_neq_numeral)
    then show ?thesis by (simp add: sf_mag_def)
  qed
  ultimately show "sf_low a < sf_low b"
    using sf_mag_less [OF assms, of b a] by (cases "sf_low a" "sf_low b" rule: linorder_cases) auto
qed (rule sf_mag_less [OF assms])

lemma sf_mag_eq_iff:
  assumes "sf_format TYPE('a::len)"
  shows "sf_mag (a :: 'a word) = sf_mag (b :: 'a word) \<longleftrightarrow> sf_low a = sf_low b"
  using sf_mag_less_iff [OF assms, of a b] sf_mag_less_iff [OF assms, of b a] by linarith

lemma sf_low_0_iff:
  assumes "sf_format TYPE('a::len)"
  shows "sf_mag (a :: 'a word) = 0 \<longleftrightarrow> sf_low a = 0"
  using sf_mag_eq_iff [OF assms, of a 0] by (simp add: sf_low_def sf_mag_def sf_exp_eq sf_mant_def)

lemma push_bit_1_eq_0_iff:
  "push_bit 1 (a :: 'a::len word) = 0 \<longleftrightarrow> sf_low a = 0"
proof -
  have "uint (push_bit 1 a) = push_bit 1 (sf_low a)"
    unfolding sf_low_def unsigned_push_bit_eq
    by (simp only: take_bit_push_bit take_bit_eq_mod [symmetric])
  moreover have "push_bit 1 a = 0 \<longleftrightarrow> uint (push_bit 1 a) = 0" by (rule uint_0_iff [symmetric])
  ultimately show ?thesis by simp
qed

lemma push_bit_1_or_eq_0_iff:
  "push_bit 1 (a OR b :: 'a::len word) = 0 \<longleftrightarrow> sf_low a = 0 \<and> sf_low b = 0"
  using push_bit_1_eq_0_iff [of a] push_bit_1_eq_0_iff [of b]
  by (auto simp: push_bit_or or_eq_0_iff)

lemma word_less_same_sign:
  assumes "sf_format TYPE('a::len)" and "sf_sign (a :: 'a word) = sf_sign (b :: 'a word)"
  shows "a < b \<longleftrightarrow> sf_low a < sf_low b"
  using assms(2) by (simp add: word_less_def uint_eq_sf_low [OF assms(1)])

lemma word_eq_sf_low:
  assumes "sf_format TYPE('a::len)"
  shows "(a :: 'a word) = b \<longleftrightarrow> sf_sign a = sf_sign b \<and> sf_low a = sf_low b"
proof
  assume "sf_sign a = sf_sign b \<and> sf_low a = sf_low b"
  then show "a = b"
    using uint_eq_sf_low [OF assms, of a] uint_eq_sf_low [OF assms, of b]
    by (simp add: word_uint_eq_iff)
qed simp

lemmas sf_order_simps =
  sf_scaled_def sf_mag_less_iff sf_mag_eq_iff sf_low_0_iff push_bit_1_or_eq_0_iff
  word_less_same_sign

section \<open>The comparisons are the order of values\<close>

lemma sf_scaled_less_iff:
  assumes "sf_format TYPE('a::len)"
  shows "sf_scaled (a :: 'a word) < sf_scaled (b :: 'a word) \<longleftrightarrow>
    (if sf_sign a \<noteq> sf_sign b then sf_sign a \<and> (sf_low a \<noteq> 0 \<or> sf_low b \<noteq> 0)
     else if sf_sign a then sf_low b < sf_low a else sf_low a < sf_low b)"
  using sf_mag_less_iff [OF assms, of a b] sf_mag_less_iff [OF assms, of b a]
    sf_low_0_iff [OF assms, of a] sf_low_0_iff [OF assms, of b]
    sf_mag_nonneg [of a] sf_mag_nonneg [of b]
  by (auto simp: sf_scaled_def)

lemma sf_scaled_eq_iff:
  assumes "sf_format TYPE('a::len)"
  shows "sf_scaled (a :: 'a word) = sf_scaled (b :: 'a word) \<longleftrightarrow>
    (if sf_sign a \<noteq> sf_sign b then sf_low a = 0 \<and> sf_low b = 0 else sf_low a = sf_low b)"
  using sf_scaled_less_iff [OF assms, of a b] sf_scaled_less_iff [OF assms, of b a]
    sf_low_nonneg [of a] sf_low_nonneg [of b]
  by (auto split: if_splits)

lemma lt_sf_value:
  assumes "sf_format TYPE('a::len)" and "\<not> isnan_sf a" and "\<not> isnan_sf (b :: 'a word)"
  shows "lt_sf a b fflags = (sf_scaled a < sf_scaled b, fflags)"
  using assms(2,3) word_less_same_sign [OF assms(1), of a b] word_less_same_sign [OF assms(1), of b a]
  unfolding lt_sf_def push_bit_1_or_eq_0_iff by (auto simp: sf_scaled_less_iff [OF assms(1)])

lemma le_sf_value:
  assumes "sf_format TYPE('a::len)" and "\<not> isnan_sf a" and "\<not> isnan_sf (b :: 'a word)"
  shows "le_sf a b fflags = (sf_scaled a \<le> sf_scaled b, fflags)"
  using assms(2,3) word_less_same_sign [OF assms(1), of a b] word_less_same_sign [OF assms(1), of b a]
  unfolding le_sf_def push_bit_1_or_eq_0_iff by (auto simp: not_less [symmetric] sf_scaled_less_iff [OF assms(1)] simp del: not_less)

lemma eq_quiet_sf_value:
  assumes "sf_format TYPE('a::len)" and "\<not> isnan_sf a" and "\<not> isnan_sf (b :: 'a word)"
  shows "eq_quiet_sf a b fflags = (sf_scaled a = sf_scaled b, fflags)"
  using assms(2,3)
  unfolding eq_quiet_sf_def push_bit_1_or_eq_0_iff by (auto simp: sf_scaled_eq_iff [OF assms(1)]
    word_eq_sf_low [OF assms(1)])

lemma min_sf_value:
  assumes "sf_format TYPE('a::len)" and "\<not> isnan_sf a" and "\<not> isnan_sf (b :: 'a word)"
  shows "min_sf a b fflags = (if sf_scaled b < sf_scaled a \<or>
           sf_scaled a = sf_scaled b \<and> sf_sign b then b else a, fflags)"
  using assms(2,3) word_less_same_sign [OF assms(1), of a b] 
  by (auto simp: min_sf_def sf_scaled_eq_iff [OF assms(1)] sf_scaled_less_iff [OF assms(1)]
    word_eq_sf_low [OF assms(1)])

lemma max_sf_value:
  assumes "sf_format TYPE('a::len)" and "\<not> isnan_sf a" and "\<not> isnan_sf (b :: 'a word)"
  shows "max_sf a b fflags = (if sf_scaled a < sf_scaled b \<or>
           sf_scaled a = sf_scaled b \<and> sf_sign a then b else a, fflags)"
  using assms(2,3) word_less_same_sign [OF assms(1), of a b] 
  by (auto simp: max_sf_def sf_scaled_eq_iff [OF assms(1)] sf_scaled_less_iff [OF assms(1)]
    word_eq_sf_low [OF assms(1)])

end
