(* ===== verification/Softfp_Wide.thy ===== *)
theory Softfp_Wide
  imports Softfp_Lemmas
begin

text \<open>
  The double-word helpers: the versions written without a double-width integer type (used for
  128-bit floats) compute what the versions with one do.
\<close>

section \<open>Words put together from parts\<close>

lemma uint_push_or:
  fixes x y :: "'a::len word"
  assumes "uint x * 2 ^ h < 2 ^ LENGTH('a)" and "uint y < 2 ^ h"
  shows "uint (push_bit h x OR y) = uint x * 2 ^ h + uint y"
proof -
  have "push_bit h (uint x) AND uint y = 0"
    using assms(2) by (auto simp: bit_eq_iff bit_and_iff bit_push_bit_iff
      dest: bit_int_less_power [OF uint_ge_0])
  then have "push_bit h (uint x) OR uint y = push_bit h (uint x) + uint y"
    by (simp add: disjunctive_add_eq_or)
  moreover have "take_bit LENGTH('a) (push_bit h (uint x)) = push_bit h (uint x)"
    using assms(1) by (simp add: take_bit_int_eq_self_iff push_bit_eq_mult)
  ultimately show ?thesis
    unfolding unsigned_or_eq unsigned_push_bit_eq by (simp add: push_bit_eq_mult)
qed

lemma uint_add_no_overflow:
  fixes x y :: "'a::len word"
  shows "uint x + uint y < 2 ^ LENGTH('a) \<Longrightarrow> uint (x + y) = uint x + uint y"
  by (simp only: uint_add_lem)

lemma uint_mult_no_overflow:
  fixes x y :: "'a::len word"
  shows "uint x * uint y < 2 ^ LENGTH('a) \<Longrightarrow> uint (x * y) = uint x * uint y"
  by (simp only: uint_mult_lem)

text \<open>The same as rules that compute the integer of a word expression from its parts.\<close>

lemma uint_eq_intros:
  fixes x y :: "'a::len word"
  shows "\<lbrakk>uint x = X; uint y = Y; X + Y < 2 ^ LENGTH('a)\<rbrakk> \<Longrightarrow> uint (x + y) = X + Y"
    and "\<lbrakk>uint x = X; uint y = Y; X * Y < 2 ^ LENGTH('a)\<rbrakk> \<Longrightarrow> uint (x * y) = X * Y"
    and "uint x = X \<Longrightarrow> uint (take_bit n x) = X mod 2 ^ n"
    and "uint x = X \<Longrightarrow> uint (drop_bit n x) = X div 2 ^ n"
    and "\<lbrakk>uint x = X; uint y = Y; X * 2 ^ n < 2 ^ LENGTH('a); Y < 2 ^ n\<rbrakk>
      \<Longrightarrow> uint (push_bit n x OR y) = X * 2 ^ n + Y"
  by (auto simp: uint_take_bit uint_drop_bit uint_push_or uint_add_no_overflow
    uint_mult_no_overflow)

section \<open>Multiplication\<close>

text \<open>Schoolbook multiplication in base \<open>H\<close> on the integers.\<close>

lemma schoolbook:
  fixes H A0 A1 B0 B1 :: int
  assumes "c = A0 * B0 div H + A0 * B1 mod H + A1 * B0 mod H"
    and "d = c div H + A0 * B1 div H + A1 * B0 div H + A1 * B1 mod H"
  shows "(A1 * H + A0) * (B1 * H + B0)
    = (d div H + A1 * B1 div H) * H ^ 3 + d mod H * H ^ 2 + c mod H * H + A0 * B0 mod H"
proof -
  have split: "x * k = x div H * (H * k) + x mod H * k" for x k :: int
    by (metis div_mult_mod_eq distrib_right mult.assoc)
  have "(A1 * H + A0) * (B1 * H + B0)
      = A1 * B1 * H ^ 2 + (A0 * B1) * H + (A1 * B0) * H + A0 * B0 * 1"
    by (simp add: algebra_simps power2_eq_square)
  also have "\<dots> = A1 * B1 div H * H ^ 3 + (A1 * B1 mod H + A0 * B1 div H + A1 * B0 div H) * H ^ 2
      + c * H + A0 * B0 mod H"
    unfolding split [of "A1 * B1"] split [of "A0 * B1"] split [of "A1 * B0"] split [of "A0 * B0"]
      assms(1) by (simp add: algebra_simps power2_eq_square power3_eq_cube)
  also have "c * H = c div H * H ^ 2 + c mod H * H"
    using split [of c H] by (simp add: power2_eq_square)
  also have "A1 * B1 div H * H ^ 3 + (A1 * B1 mod H + A0 * B1 div H + A1 * B0 div H) * H ^ 2
      + (c div H * H ^ 2 + c mod H * H) + A0 * B0 mod H
    = A1 * B1 div H * H ^ 3 + d * H ^ 2 + c mod H * H + A0 * B0 mod H"
    unfolding assms(2) by (simp add: algebra_simps)
  also have "d * H ^ 2 = d div H * H ^ 3 + d mod H * H ^ 2"
    using split [of d "H ^ 2"] by (simp add: power2_eq_square power3_eq_cube)
  finally show ?thesis by (simp add: algebra_simps)
qed

lemma mult_less_square:
  fixes a b H :: int
  assumes "0 \<le> a" "a < H" "0 \<le> b" "b < H"
  shows "a * b < H * H"
proof -
  have "a * b \<le> a * H" using assms by (intro mult_left_mono) auto
  also have "\<dots> < H * H" using assms by (intro mult_strict_right_mono) auto
  finally show ?thesis .
qed

lemma schoolbook_bounds:
  fixes H A0 A1 B0 B1 :: int
  assumes H: "4 \<le> H"
    and bnd: "0 \<le> A0" "A0 < H" "0 \<le> B0" "B0 < H" "0 \<le> A1" "A1 < H" "0 \<le> B1" "B1 < H"
    and c: "c = A0 * B0 div H + A0 * B1 mod H + A1 * B0 mod H"
    and d: "d = c div H + A0 * B1 div H + A1 * B0 div H + A1 * B1 mod H"
  shows "A0 * B0 div H + A0 * B1 mod H < H * H" and "c < H * H"
    and "c div H + A0 * B1 div H < H * H" and "c div H + A0 * B1 div H + A1 * B0 div H < H * H"
    and "d < H * H" and "0 \<le> d div H + A1 * B1 div H" and "d div H + A1 * B1 div H < H"
proof -
  have H0: "0 < H" using H by simp
  have HH: "4 * H \<le> H * H" using H by (intro mult_right_mono) auto
  have dv: "0 \<le> x * y div H \<and> x * y div H < H" if "0 \<le> x" "x < H" "0 \<le> y" "y < H" for x y
    using that mult_less_square [OF that] H0 by (simp add: pos_zdiv_less_iff pos_imp_zdiv_nonneg_iff)
  have md: "0 \<le> x mod H \<and> x mod H < H" for x using H0 by simp
  note dvs = dv [OF bnd(1-4)] dv [OF bnd(1,2,7,8)] dv [OF bnd(5,6,3,4)] dv [OF bnd(5-8)]
  note mds = md [of "A0 * B1"] md [of "A1 * B0"] md [of "A1 * B1"] md [of c] md [of d]
    md [of "A0 * B0"]
  show 1: "A0 * B0 div H + A0 * B1 mod H < H * H" and 2: "c < H * H"
    using dvs mds HH H0 unfolding c by linarith+
  have 3: "0 \<le> c" using dvs mds unfolding c by linarith
  have 4: "0 \<le> c div H" "c div H < H"
    using 2 3 H0 by (simp_all add: pos_zdiv_less_iff pos_imp_zdiv_nonneg_iff)
  show "c div H + A0 * B1 div H < H * H" "c div H + A0 * B1 div H + A1 * B0 div H < H * H"
    and "d < H * H"
    using dvs mds HH H0 4 unfolding d by linarith+
  have "0 \<le> d" using dvs mds 4 unfolding d by linarith
  then have 5: "0 \<le> d div H" using H0 by (simp add: pos_imp_zdiv_nonneg_iff)
  then show "0 \<le> d div H + A1 * B1 div H" using dvs by linarith
  let ?t = "d div H + A1 * B1 div H"
  have up: "x * H + y < H * H" if "0 \<le> x" "x < H" "0 \<le> y" "y < H" for x y :: int
  proof -
    have "(x + 1) * H \<le> H * H" using that H0 by (intro mult_right_mono) auto
    then show ?thesis using that by (simp add: distrib_right)
  qed
  have "?t * H ^ 3 \<le> ?t * H ^ 3 + d mod H * H ^ 2 + c mod H * H + A0 * B0 mod H"
    using mds H0 by (simp add: add_nonneg_nonneg)
  also have "\<dots> = (A1 * H + A0) * (B1 * H + B0)" by (rule schoolbook [OF c d, symmetric])
  also have "\<dots> < (H * H) * (H * H)"
    using bnd H0 by (intro mult_less_square up) auto
  finally have "?t * H ^ 3 < H * H ^ 3" by (simp add: power3_eq_cube mult.assoc)
  then show "?t < H" using H0 by simp
qed

text \<open>The product of two words, as a double word.\<close>

definition wide :: "'a::len word \<times> 'a word \<Rightarrow> int" where
  "wide p = uint (fst p) * 2 ^ LENGTH('a) + uint (snd p)"

lemma wide_inject: "wide (p :: 'a::len word \<times> 'a word) = wide q \<Longrightarrow> p = q"
proof -
  assume e: "wide p = wide q"
  have s: "uint (snd p) mod 2 ^ LENGTH('a) = uint (snd p)"
    "uint (snd q) mod 2 ^ LENGTH('a) = uint (snd q)" by (simp_all add: mod_pos_pos_trivial)
  from e have "wide p mod 2 ^ LENGTH('a) = wide q mod 2 ^ LENGTH('a)" by simp
  then have "uint (snd p) = uint (snd q)" unfolding wide_def mod_mult_self3 s .
  with e show ?thesis by (simp add: wide_def prod_eq_iff word_uint_eq_iff)
qed

lemma uint_product_less:
  fixes a b :: "'a::len word"
  shows "uint a * uint b < 2 ^ LENGTH('a) * 2 ^ LENGTH('a)"
  by (rule mult_less_square) auto

lemma wide_mul_u_long:
  fixes a b :: "'a::len word"
  shows "wide (mul_u_long a b) = uint a * uint b"
proof -
  have "uint a * uint b div 2 ^ LENGTH('a) < 2 ^ LENGTH('a)"
    using uint_product_less [of a b] by (simp add: pos_zdiv_less_iff)
  then show ?thesis
    unfolding wide_def mul_u_long_def Let_def fst_conv snd_conv uint_word_of_int
    by (simp add: pos_imp_zdiv_nonneg_iff mod_pos_pos_trivial div_mult_mod_eq)
qed

text \<open>The body of \<open>mul_u_half\<close> on the four halves.\<close>

lemma wide_mul_halves:
  fixes a0 a1 b0 b1 :: "'a::len word" and h :: nat
  defines "H \<equiv> (2 :: int) ^ h"
  assumes L: "2 ^ LENGTH('a) = H * H" and H: "4 \<le> H"
    and bnd: "uint a0 < H" "uint a1 < H" "uint b0 < H" "uint b1 < H"
    and C: "C = drop_bit h (a0 * b0) + take_bit h (a0 * b1) + take_bit h (a1 * b0)"
    and D: "D = drop_bit h C + drop_bit h (a0 * b1) + drop_bit h (a1 * b0) + take_bit h (a1 * b1)"
  shows "wide (push_bit h (take_bit h (drop_bit h D + drop_bit h (a1 * b1))) OR take_bit h D,
               push_bit h (take_bit h C) OR take_bit h (a0 * b0))
    = (uint a1 * H + uint a0) * (uint b1 * H + uint b0)"
proof -
  define c d where "c = uint a0 * uint b0 div H + uint a0 * uint b1 mod H + uint a1 * uint b0 mod H"
    and "d = c div H + uint a0 * uint b1 div H + uint a1 * uint b0 div H + uint a1 * uint b1 mod H"
  note sb = schoolbook_bounds [OF H uint_ge_0 bnd(1) uint_ge_0 bnd(3) uint_ge_0 bnd(2) uint_ge_0 bnd(4)
      c_def d_def]
  have r: "uint (a0 * b0) = uint a0 * uint b0" "uint (a0 * b1) = uint a0 * uint b1"
    "uint (a1 * b0) = uint a1 * uint b0" "uint (a1 * b1) = uint a1 * uint b1"
    by (intro uint_eq_intros(2) refl; simp add: L mult_less_square bnd)+
  have C': "uint C = c"
    unfolding C c_def H_def
    by (intro uint_eq_intros r; simp only: L H_def [symmetric] sb c_def [symmetric])
  have D': "uint D = d"
    unfolding D d_def H_def
    by (intro uint_eq_intros r C'; simp only: L H_def [symmetric] sb d_def [symmetric])
  let ?t = "d div H + uint a1 * uint b1 div H"
  have H0: "0 < H" and H1: "H < H * H" and HH: "x * H < H * H" if "x < H" for x
    using H that by simp_all
  have "uint (drop_bit h D + drop_bit h (a1 * b1)) = ?t"
    unfolding H_def by (intro uint_eq_intros r D')
      (use less_trans [OF sb(7) H1 [OF sb(7)]] in \<open>simp add: L H_def\<close>)
  then have T: "uint (take_bit h (drop_bit h D + drop_bit h (a1 * b1))) = ?t"
    using sb(6,7) by (simp add: uint_take_bit H_def [symmetric])
  have hi: "uint (push_bit h (take_bit h (drop_bit h D + drop_bit h (a1 * b1))) OR take_bit h D)
      = ?t * H + d mod H"
    unfolding H_def by (intro uint_eq_intros D' T [unfolded H_def])
      (use H sb(7) in \<open>simp_all add: L H_def [symmetric] HH\<close>)
  have lo: "uint (push_bit h (take_bit h C) OR take_bit h (a0 * b0))
      = c mod H * H + uint a0 * uint b0 mod H"
    unfolding H_def by (intro uint_eq_intros C' r)
      (use H in \<open>simp_all add: L H_def [symmetric] HH\<close>)
  have "(t * H + x) * (H * H) + (y * H + z) = t * H ^ 3 + x * H ^ 2 + y * H + z" for t x y z
    by (simp add: algebra_simps power2_eq_square power3_eq_cube)
  then show ?thesis
    unfolding wide_def fst_conv snd_conv hi lo L schoolbook [OF c_def d_def] .
qed

lemma wide_mul_u_half:
  fixes a b :: "'a::len word"
  assumes "sf_format TYPE('a)"
  shows "wide (mul_u_half a b) = uint a * uint b"
proof -
  define h where "h = LENGTH('a) div 2"
  have L: "2 ^ LENGTH('a) = (2 ^ h * 2 ^ h :: int)" and H: "(4 :: int) \<le> 2 ^ h"
    using assms power_increasing [of 2 h "2 :: int"] unfolding h_def sf_format_def
    by (auto simp: power_add [symmetric])
  have hi: "uint x div 2 ^ h < 2 ^ h" for x :: "'a word"
    using uint_lt2p [of x] unfolding L by (simp add: pos_zdiv_less_iff)
  have parts: "uint (take_bit h (drop_bit h x)) = uint x div 2 ^ h" for x :: "'a word"
    using hi [of x] by (simp add: uint_take_bit uint_drop_bit pos_imp_zdiv_nonneg_iff)
  have "wide (mul_u_half a b) = (uint a div 2 ^ h * 2 ^ h + uint a mod 2 ^ h)
      * (uint b div 2 ^ h * 2 ^ h + uint b mod 2 ^ h)"
    unfolding mul_u_half_def Let_def h_def [symmetric] uint_take_bit [symmetric] parts [symmetric]
    by (rule wide_mul_halves [OF L H _ _ _ _ refl refl])
      (simp_all only: parts hi uint_take_bit, simp_all)
  then show ?thesis by (simp only: div_mult_mod_eq)
qed

lemma mul_u_half_eq_long:
  "sf_format TYPE('a::len) \<Longrightarrow> mul_u_half a b = mul_u_long a (b :: 'a word)"
  by (rule wide_inject) (simp add: wide_mul_u_half wide_mul_u_long)

lemma wide_mul_u:
  "sf_format TYPE('a::len) \<Longrightarrow> wide (mul_u a b) = uint a * uint (b :: 'a word)"
  by (simp add: mul_u_def wide_mul_u_half wide_mul_u_long)

section \<open>Division\<close>

lemma uint_push1_or:
  fixes x y :: "'a::len word"
  assumes "uint y < 2"
  shows "uint (push_bit 1 x OR y) = 2 * uint x mod 2 ^ LENGTH('a) + uint y"
proof -
  have y: "n = 0" if "bit (uint y) n" for n
    using bit_int_less_power [OF uint_ge_0, of y 1 n] assms that by simp
  have "take_bit LENGTH('a) (push_bit 1 (uint x)) AND uint y = 0"
    by (rule bit_eqI) (auto simp: bit_and_iff bit_take_bit_iff bit_0 dest!: y)
  then show ?thesis
    unfolding unsigned_or_eq unsigned_push_bit_eq
    by (simp add: disjunctive_add_eq_or [symmetric] push_bit_eq_mult take_bit_eq_mod mult.commute)
qed

lemma top_bit_of_word:
  fixes x :: "'a::len word"
  shows "2 * uint x = uint (drop_bit (LENGTH('a) - 1) x) * 2 ^ LENGTH('a) + 2 * uint x mod 2 ^ LENGTH('a)"
    and "uint (drop_bit (LENGTH('a) - 1) x) < 2"
proof -
  let ?H = "2 ^ (LENGTH('a) - 1) :: int"
  have W: "2 ^ LENGTH('a) = 2 * ?H" by (simp flip: power_Suc)
  have "2 * uint x mod (2 * ?H) = 2 * (uint x mod ?H)" by (rule mult_mod_right [symmetric])
  moreover have "uint x = uint x div ?H * ?H + uint x mod ?H" by (simp only: div_mult_mod_eq)
  ultimately show "2 * uint x
      = uint (drop_bit (LENGTH('a) - 1) x) * 2 ^ LENGTH('a) + 2 * uint x mod 2 ^ LENGTH('a)"
    unfolding uint_drop_bit W by linarith
  show "uint (drop_bit (LENGTH('a) - 1) x) < 2"
    using uint_lt2p [of x] unfolding uint_drop_bit W by (simp add: pos_zdiv_less_iff)
qed

text \<open>
  One iteration doubles the double word and takes out the divisor once if it fits: what is
  left of the quotient bit \<open>q\<close> moves into the lowest bit.
\<close>

lemma divrem_step_wide:
  fixes a1 a0 b :: "'a::len word"
  assumes "a1 < b"
  shows "fst (divrem_step b (a1, a0)) < b"
    and "\<exists>q. 0 \<le> q \<and> q \<le> 1 \<and>
      2 * wide (a1, a0) = wide (divrem_step b (a1, a0)) + q * (uint b * 2 ^ LENGTH('a) - 1)"
proof -
  let ?W = "2 ^ LENGTH('a) :: int"
  define T where "T = drop_bit (LENGTH('a) - 1) a0"
  define full where "full = 2 * uint a1 + uint T"
  define s where "s = push_bit 1 a1 OR T"
  have T: "uint T < 2" unfolding T_def by (rule top_bit_of_word)
  have s: "uint s = 2 * uint a1 mod ?W + uint T" unfolding s_def by (rule uint_push1_or [OF T])
  note top = top_bit_of_word [of a1]
  have ab: "uint a1 + 1 \<le> uint b" using assms by (simp add: word_less_def)
  let ?q = "drop_bit (LENGTH('a) - 1) a1 \<noteq> 0 \<or> s \<ge> b"
  define a1' where "a1' = (if ?q then s - b else s)"
  have step: "divrem_step b (a1, a0) = (a1', push_bit 1 a0 OR b2w ?q)"
    by (simp add: divrem_step_def a1'_def s_def T_def Let_def b2w_def split: prod.split)
  have a1': "uint a1' = full - of_bool ?q * uint b \<and> uint a1' < uint b"
  proof (cases "drop_bit (LENGTH('a) - 1) a1 = 0")
    case True
    then have "uint s = full" using s top(1) by (simp add: full_def)
    then show ?thesis
      using True T ab uint_sub_lem [of b s] by (auto simp: a1'_def full_def word_le_def)
  next
    case False
    then have "uint (drop_bit (LENGTH('a) - 1) a1) = 1"
      using top(2) uint_ge_0 [of "drop_bit (LENGTH('a) - 1) a1"] uint_0_iff by (smt (verit))
    then have "uint s = full - ?W" using s top(1) by (simp add: full_def)
    moreover have "uint (s - b) = (uint s - uint b) mod ?W" by (simp add: uint_word_ariths)
    ultimately have "uint (s - b) = (full - uint b) mod ?W"
      by (metis (no_types, opaque_lifting) diff_diff_eq diff_diff_eq2 add.commute minus_mod_self2)
    moreover have "0 \<le> full - uint b" "full - uint b < uint b"
      using T ab uint_lt2p [of b] uint_ge_0 [of s] \<open>uint s = full - ?W\<close> uint_ge_0 [of T]
      unfolding full_def by linarith+
    ultimately show ?thesis
      using False uint_lt2p [of b] by (simp add: a1'_def)
  qed
  then show "fst (divrem_step b (a1, a0)) < b" by (simp add: step word_less_def)
  have a0: "uint (push_bit 1 a0 OR b2w ?q) = 2 * uint a0 mod ?W + of_bool ?q"
    by (subst uint_push1_or) (auto simp: b2w_def)
  have "2 * wide (a1, a0) = wide (divrem_step b (a1, a0)) + of_bool ?q * (uint b * ?W - 1)"
  proof -
    have alg: "2 * x = t * W + m \<Longrightarrow> 2 * (y * W + x) = (2 * y + t - q * B) * W + (m + q) + q * (B * W - 1)"
      for x t W m y q B :: int by (simp add: algebra_simps)
    show ?thesis
      unfolding step wide_def fst_conv snd_conv a0 conjunct1 [OF a1'] full_def T_def
      by (rule alg) (rule top_bit_of_word)
  qed
  then show "\<exists>q. 0 \<le> q \<and> q \<le> 1 \<and>
      2 * wide (a1, a0) = wide (divrem_step b (a1, a0)) + q * (uint b * ?W - 1)"
    by (intro exI [of _ "of_bool ?q"]) auto
qed

lemma divrem_loop_wide:
  fixes p :: "'a::len word \<times> 'a word"
  assumes "fst p < b"
  shows "fst (divrem_loop n b p) < b \<and> (\<exists>q. 0 \<le> q \<and> q < 2 ^ n \<and>
    2 ^ n * wide p = wide (divrem_loop n b p) + q * (uint b * 2 ^ LENGTH('a) - 1))"
  using assms
proof (induction n arbitrary: p)
  case 0
  then show ?case by auto
next
  case (Suc n)
  let ?B = "uint b * 2 ^ LENGTH('a) - 1" and ?s = "divrem_step b p"
  obtain q where q: "0 \<le> q" "q \<le> 1" "2 * wide p = wide ?s + q * ?B" and s: "fst ?s < b"
    using divrem_step_wide [of "fst p" b "snd p"] Suc.prems by auto
  from Suc.IH [OF s] obtain r where r: "0 \<le> r" "r < 2 ^ n"
    "2 ^ n * wide ?s = wide (divrem_loop n b ?s) + r * ?B" and f: "fst (divrem_loop n b ?s) < b"
    by auto
  have "2 ^ Suc n * wide p = 2 ^ n * wide ?s + 2 ^ n * q * ?B"
    using q(3) by (metis distrib_left mult.assoc mult.left_commute power_Suc)
  also have "\<dots> = wide (divrem_loop n b ?s) + (2 ^ n * q + r) * ?B"
    unfolding r(3) by (simp add: algebra_simps)
  finally have "2 ^ Suc n * wide p = wide (divrem_loop (Suc n) b p) + (2 ^ n * q + r) * ?B" by simp
  moreover have "0 \<le> 2 ^ n * q + r" "2 ^ n * q + r < 2 ^ Suc n"
    using q(1) r(1,2) mult_left_mono [OF q(2), of "2 ^ n"] zero_le_power [of "2 :: int" n]
      mult_nonneg_nonneg [of "2 ^ n" q] unfolding power_Suc by linarith+
  ultimately show ?case using f by auto
qed

lemma divrem_u_bits_correct:
  fixes a1 a0 b :: "'a::len word"
  assumes "a1 < b"
  shows "divrem_u_bits a1 a0 b = Some (word_of_int (wide (a1, a0) div uint b),
    word_of_int (wide (a1, a0) mod uint b))"
proof -
  let ?W = "2 ^ LENGTH('a) :: int"
  obtain r q where l: "divrem_loop LENGTH('a) b (a1, a0) = (r, q)" by fastforce
  from divrem_loop_wide [of "(a1, a0)" b "LENGTH('a)"] assms obtain k where
    k: "0 \<le> k" "k < ?W" "?W * wide (a1, a0) = wide (r, q) + k * (uint b * ?W - 1)" and r: "r < b"
    by (auto simp: l)
  have e: "uint q - k = ?W * (wide (a1, a0) - uint r - k * uint b)"
    using k(3) by (simp add: wide_def algebra_simps)
  then have "(uint q - k) mod ?W = 0" by simp
  then have "uint q mod ?W = k mod ?W" by (metis mod_eq_dvd_iff mod_0_imp_dvd)
  then have q: "uint q = k" using k(1,2) by simp
  with e have "wide (a1, a0) = k * uint b + uint r" by simp
  then have "wide (a1, a0) div uint b = k" "wide (a1, a0) mod uint b = uint r"
    using r le_less_trans [OF uint_ge_0 [of r], of "uint b"]
    by (simp_all add: word_less_def div_add1_eq)
  then have "word_of_int (wide (a1, a0) div uint b) = q" "word_of_int (wide (a1, a0) mod uint b) = r"
    using q by (metis word_of_int_uint)+
  then show ?thesis using assms by (simp add: divrem_u_bits_def l)
qed

end
