(* ===== verification/Softfp_Total.thy ===== *)
theory Softfp_Total
  imports Softfp_Wide Softfp_Order
begin

text \<open>
  The assertions of the soft-float code never fail: the mantissa handed to \<open>normalize_sf\<close> always
  leaves the top bit clear, and the divisions are always by a large enough divisor.  Every
  operation on a supported format therefore returns a result.
\<close>

section \<open>Upper bounds of words\<close>

text \<open>\<open>below k a\<close>: no bit at position \<open>k\<close> or above is set.\<close>

definition below :: "nat \<Rightarrow> 'a::len word \<Rightarrow> bool" where
  "below k a \<longleftrightarrow> uint a < 2 ^ k"

lemma below_iff_bits: "below k (a :: 'a::len word) \<longleftrightarrow> (\<forall>n. bit a n \<longrightarrow> n < k)"
proof
  assume "below k a"
  then show "\<forall>n. bit a n \<longrightarrow> n < k"
    using bit_int_less_power [of "uint a" k] bit_imp_le_length [of a] by (auto simp: below_def bit_uint_iff)
next
  assume "\<forall>n. bit a n \<longrightarrow> n < k"
  then have "take_bit k a = a" by (intro bit_word_eqI) (auto simp: bit_take_bit_iff)
  then have "uint a = uint a mod 2 ^ k" by (metis uint_take_bit)
  then show "below k a" by (metis below_def pos_mod_bound zero_less_numeral zero_less_power)
qed

lemma below_mono: "below k a \<Longrightarrow> k \<le> l \<Longrightarrow> below l a"
  by (auto simp: below_iff_bits)

lemma below_simps [simp]:
  "below k (0 :: 'a::len word)" "below k (a OR b) \<longleftrightarrow> below k a \<and> below k (b :: 'a::len word)"
  by (auto simp: below_iff_bits bit_or_iff)

lemma below_and: "below k a \<Longrightarrow> below k (a AND b)" "below k b \<Longrightarrow> below k (a AND b)"
  by (auto simp: below_iff_bits bit_and_iff)

lemma below_b2w: "0 < k \<Longrightarrow> below k (b2w c :: 'a::len word)"
  by (auto simp: below_iff_bits b2w_def bit_1_iff)

lemma below_1: "0 < k \<Longrightarrow> below k (1 :: 'a::len word)"
  by (auto simp: below_iff_bits bit_1_iff)

lemma below_push: "below k (a :: 'a::len word) \<Longrightarrow> k + n \<le> l \<Longrightarrow> below l (push_bit n a)"
  by (auto simp: below_iff_bits bit_push_bit_iff)

lemma below_push_1: "n < l \<Longrightarrow> below l (push_bit n 1 :: 'a::len word)"
  by (rule below_push [of 1]) (simp_all add: below_1)

lemma below_drop: "below (k + n) (a :: 'a::len word) \<Longrightarrow> below k (drop_bit n a)"
  by (auto simp: below_iff_bits bit_drop_bit_eq)

lemma below_sf_mant: "below (MANT_SIZE TYPE('a)) (sf_mant (a :: 'a::len word))"
  by (simp add: below_def uint_sf_mant_range)

lemma below_add:
  assumes "below k (a :: 'a::len word)" "below k b" "Suc k \<le> l" "k < LENGTH('a)"
  shows "below l (a + b)"
proof -
  have "uint a + uint b < 2 ^ Suc k" using assms(1,2) by (simp add: below_def)
  moreover have "(2 :: int) ^ Suc k \<le> 2 ^ l" "(2 :: int) ^ Suc k \<le> 2 ^ LENGTH('a)"
    using assms(3,4) by (intro power_increasing; simp)+
  ultimately show ?thesis by (simp add: below_def uint_add_no_overflow)
qed

lemma below_diff: "b \<le> a \<Longrightarrow> below k (a :: 'a::len word) \<Longrightarrow> below k (a - b)"
  using uint_sub_lem [of b a] uint_ge_0 [of b] unfolding below_def word_le_def by linarith

lemma uint_push: "below k (a :: 'a::len word) \<Longrightarrow> k + n \<le> LENGTH('a) \<Longrightarrow> uint (push_bit n a) = uint a * 2 ^ n"
proof -
  assume "below k a" and "k + n \<le> LENGTH('a)"
  then have "uint a * 2 ^ n < 2 ^ k * 2 ^ n" by (simp add: below_def)
  also have "\<dots> \<le> 2 ^ LENGTH('a)" using \<open>k + n \<le> LENGTH('a)\<close> by (simp flip: power_add)
  finally show ?thesis
    by (simp add: unsigned_push_bit_eq [of n a] take_bit_int_eq_self push_bit_eq_mult [of n "uint a"]
        del: push_bit_eq_mult)
qed

section \<open>Leading zeros\<close>

lemma clz_upto_top: "bit a h \<Longrightarrow> h < k \<Longrightarrow> (\<And>n. bit a n \<Longrightarrow> n < k \<Longrightarrow> n \<le> h) \<Longrightarrow> clz_upto k a = k - 1 - h"
proof (induction k)
  case (Suc k)
  show ?case
  proof (cases "bit a k")
    case True
    then have "k = h" using Suc.prems(2) Suc.prems(3) [of k] by simp
    with True show ?thesis by simp
  next
    case False
    then have "h < k" using Suc.prems(1,2) by (metis less_antisym)
    with False Suc show ?thesis by (simp add: less_Suc_eq)
  qed
qed simp

lemma clz_top:
  assumes "bit (a :: 'a::len word) h" "below (Suc h) a"
  shows "clz a = LENGTH('a) - 1 - h"
proof -
  have "a \<noteq> 0" using assms(1) by auto
  moreover have "clz_upto LENGTH('a) a = LENGTH('a) - 1 - h"
    using assms bit_imp_le_length [OF assms(1)] by (intro clz_upto_top) (auto simp: below_iff_bits)
  ultimately show ?thesis by (simp add: clz_def)
qed

lemma top_bit_ex:
  assumes "(a :: 'a::len word) \<noteq> 0"
  obtains h where "bit a h" "below (Suc h) a"
proof -
  have ex: "\<exists>h. bit a h" using assms by (auto simp: bit_eq_iff)
  have bnd: "\<And>n. bit a n \<Longrightarrow> n \<le> LENGTH('a)" by (meson bit_imp_le_length less_imp_le)
  obtain h where "bit a h" "\<And>n. bit a n \<Longrightarrow> n \<le> h"
    using GreatestI_ex_nat [OF ex] Greatest_le_nat [OF _ bnd] by (metis bnd)
  then show ?thesis using that by (auto simp: below_iff_bits less_Suc_eq_le)
qed

lemma clz_pos: "below (LENGTH('a) - 1) (a :: 'a::len word) \<Longrightarrow> 1 \<le> clz a"
proof (cases "a = 0")
  case False
  assume b: "below (LENGTH('a) - 1) a"
  from False obtain h where h: "bit a h" "below (Suc h) a" by (rule top_bit_ex)
  with b have "h < LENGTH('a) - 1" by (simp add: below_iff_bits)
  with clz_top [OF h] show ?thesis by simp
qed (simp add: clz_def Suc_le_eq)

section \<open>Normalisation\<close>

lemma normalize_sf_Some:
  assumes "sf_format TYPE('a::len)" and "below (LENGTH('a) - 1) (m :: 'a word)"
  shows "normalize_sf s e m rm fl = Some (round_pack_sf s (e - int (clz m - 1)) (push_bit (clz m - 1) m) rm fl)"
  using clz_pos [OF assms(2)] sf_sizes(8,2) [OF assms(1)]
  by (simp add: normalize_sf_def Let_def nat_diff_distrib of_nat_diff)

lemma normalize2_sf_Some:
  assumes "sf_format TYPE('a::len)" and "below (LENGTH('a) - 1) (m1 :: 'a word)"
  shows "\<exists>r. normalize2_sf s e m1 m0 rm fl = Some r"
  using clz_pos [OF assms(2)] sf_sizes(8,2) [OF assms(1)]
  by (auto simp: normalize2_sf_def Let_def)

text \<open>The mantissa and exponent of a non-zero finite float, brought to the form with the hidden bit.\<close>

lemma normalize_subnormal_bounds:
  assumes "sf_format TYPE('a::len)" and "m \<noteq> 0" and "below (MANT_SIZE TYPE('a)) (m :: 'a word)"
  obtains k where "normalize_subnormal_sf m = (1 - int k, push_bit k m)"
    and "uint (push_bit k m) = uint m * 2 ^ k"
    and "2 ^ MANT_SIZE TYPE('a) \<le> uint (push_bit k m)" and "below (Suc (MANT_SIZE TYPE('a))) (push_bit k m)"
proof -
  let ?M = "MANT_SIZE TYPE('a)"
  from assms(2) obtain h where h: "bit m h" "below (Suc h) m" by (rule top_bit_ex)
  have hM: "h < ?M" using h(1) assms(3) by (simp add: below_iff_bits)
  have L: "?M + 2 \<le> LENGTH('a)" using sf_sizes(2) [OF assms(1)] by simp
  let ?k = "?M - h"
  have "clz m = LENGTH('a) - 1 - h" by (rule clz_top [OF h])
  then have "int ?M - (int LENGTH('a) - 1 - int (clz m)) = int ?k" using hM L by simp
  then have n: "normalize_subnormal_sf m = (1 - int ?k, push_bit ?k m)"
    by (simp add: normalize_subnormal_sf_def Let_def)
  have u: "uint (push_bit ?k m) = uint m * 2 ^ ?k" using h(2) hM L by (intro uint_push) auto
  have "2 ^ h \<le> uint m"
  proof -
    have "\<not> below h m" using h(1) by (auto simp: below_iff_bits)
    then show ?thesis by (simp add: below_def)
  qed
  then have "2 ^ h * 2 ^ ?k \<le> uint m * 2 ^ ?k" by (rule mult_right_mono) simp
  then have "2 ^ ?M \<le> uint (push_bit ?k m)" using hM by (simp add: u flip: power_add)
  moreover have "below (Suc ?M) (push_bit ?k m)" using h(2) hM by (intro below_push [of "Suc h"]) auto
  ultimately show ?thesis using that n u by blast
qed

lemma hidden_bit_bounds:
  assumes "sf_format TYPE('a::len)"
  shows "uint (sf_mant a OR push_bit (MANT_SIZE TYPE('a)) 1 :: 'a word)
      = 2 ^ MANT_SIZE TYPE('a) + uint (sf_mant a)"
    and "below (Suc (MANT_SIZE TYPE('a))) (sf_mant a OR push_bit (MANT_SIZE TYPE('a)) 1 :: 'a word)"
proof -
  let ?M = "MANT_SIZE TYPE('a)"
  have L: "?M < LENGTH('a)" using sf_sizes(2) [OF assms] by simp
  have "uint (push_bit ?M 1 OR sf_mant a :: 'a word) = uint (1 :: 'a word) * 2 ^ ?M + uint (sf_mant a)"
    using L uint_sf_mant_range(2) [of a]
    by (intro uint_push_or) (simp_all add: power_strict_increasing)
  then show "uint (sf_mant a OR push_bit ?M 1 :: 'a word) = 2 ^ ?M + uint (sf_mant a)"
    by (simp add: or.commute)
  show "below (Suc ?M) (sf_mant a OR push_bit ?M 1 :: 'a word)"
    using below_mono [OF below_sf_mant, of "Suc ?M" a] below_push_1 [of ?M "Suc ?M"] by simp
qed

lemma significand_bounds:
  assumes "sf_format TYPE('a::len)" and "\<not> (sf_exp a = 0 \<and> sf_mant a = 0)"
  obtains e m where "(if sf_exp a = 0 then normalize_subnormal_sf (sf_mant a)
      else (sf_exp a, sf_mant a OR push_bit (MANT_SIZE TYPE('a)) 1)) = (e, m :: 'a word)"
    and "2 ^ MANT_SIZE TYPE('a) \<le> uint m" and "below (Suc (MANT_SIZE TYPE('a))) m"
proof (cases "sf_exp a = 0")
  case True
  with assms(2) have "sf_mant a \<noteq> 0" by simp
  then show ?thesis
    using normalize_subnormal_bounds [OF assms(1) _ below_sf_mant, of a] that True by metis
next
  case False
  then show ?thesis
    using that [of "sf_exp a"] hidden_bit_bounds [OF assms(1), of a] uint_sf_mant_range(1) [of a] by simp
qed

section \<open>Multiplication\<close>

lemma mul_u_high:
  assumes "sf_format TYPE('a::len)" and "uint (x :: 'a word) * uint y < 2 ^ (LENGTH('a) + k)"
  shows "below k (fst (mul_u x y))"
proof -
  have "uint (fst (mul_u x y)) * 2 ^ LENGTH('a) \<le> wide (mul_u x y)" by (simp add: wide_def)
  also have "\<dots> < 2 ^ k * 2 ^ LENGTH('a)" using assms(2) by (simp add: wide_mul_u [OF assms(1)] power_add mult.commute)
  finally show ?thesis by (simp add: below_def)
qed

lemma product_bound:
  assumes "below i (a :: 'a::len word)" "below j (b :: 'a word)" "i + p \<le> LENGTH('a)" "j + q \<le> LENGTH('a)"
  shows "uint (push_bit p a) * uint (push_bit q b) < 2 ^ (i + p + (j + q))"
proof -
  have "uint (push_bit p a) < 2 ^ (i + p)" "uint (push_bit q b) < 2 ^ (j + q)"
    using below_push [OF assms(1), of p "i + p"] below_push [OF assms(2), of q "j + q"]
    by (simp_all add: below_def)
  then show ?thesis by (simp add: power_add [of 2 "i + p" "j + q"] mult_strict_mono')
qed

theorem mul_sf_total:
  assumes f: "sf_format TYPE('a::len)"
  shows "\<exists>r. mul_sf a (b :: 'a word) rm fl = Some r"
proof (cases "sf_exp a = EXP_MASK TYPE('a) \<or> sf_exp b = EXP_MASK TYPE('a)
    \<or> sf_exp a = 0 \<and> sf_mant a = 0 \<or> sf_exp b = 0 \<and> sf_mant b = 0")
  case True
  then show ?thesis by (auto simp: mul_sf_def Let_def split: prod.split)
next
  case False
  let ?M = "MANT_SIZE TYPE('a)" and ?R = "RND_SIZE TYPE('a)"
  from False obtain ea ma eb mb where
    a: "(if sf_exp a = 0 then normalize_subnormal_sf (sf_mant a)
      else (sf_exp a, sf_mant a OR push_bit ?M 1)) = (ea, ma)" "below (Suc ?M) ma"
    and b: "(if sf_exp b = 0 then normalize_subnormal_sf (sf_mant b)
      else (sf_exp b, sf_mant b OR push_bit ?M 1)) = (eb, mb)" "below (Suc ?M) mb"
    using significand_bounds [OF f, of a] significand_bounds [OF f, of b] by metis
  have L: "LENGTH('a) = ?M + ?R + 2" by (rule sf_sizes(2) [OF f])
  let ?p = "mul_u (push_bit ?R ma) (push_bit (?R + 1) mb)"
  have "uint (push_bit ?R ma) * uint (push_bit (?R + 1) mb) < 2 ^ (Suc ?M + ?R + (Suc ?M + (?R + 1)))"
    using a(2) b(2) L by (intro product_bound) auto
  then have "below (LENGTH('a) - 1) (fst ?p)" by (intro mul_u_high [OF f]) (simp add: L)
  then have "below (LENGTH('a) - 1) (fst ?p OR b2w (snd ?p \<noteq> 0))" using L by (simp add: below_b2w)
  then show ?thesis
    using False a(1) b(1) by (simp add: mul_sf_def Let_def normalize_sf_Some [OF f] case_prod_beta)
qed

section \<open>Addition\<close>

lemma below_rshift_rnd:
  assumes "below (k + d) (a :: 'a::len word)" "0 < k"
  shows "below k (rshift_rnd a (int d))"
proof -
  have "below k (drop_bit d a)" by (rule below_drop [OF assms(1)])
  then show ?thesis
    using assms by (auto simp: rshift_rnd_def Let_def intro: below_b2w [OF assms(2)])
qed

lemma uint_without_sign:
  assumes "sf_format TYPE('a::len)"
  shows "uint (a AND NOT SIGN_MASK :: 'a word) = sf_low a"
proof -
  have "a AND NOT SIGN_MASK = take_bit (LENGTH('a) - 1) a"
    by (rule bit_word_eqI)
      (auto simp: SIGN_MASK_def push_bit_of_1 bit_and_iff bit_not_iff bit_exp_iff bit_take_bit_iff)
  then show ?thesis by (simp add: sf_low_def uint_take_bit)
qed

text \<open>The operand of larger magnitude also has the larger aligned mantissa.\<close>

lemma aligned_le:
  assumes f: "sf_format TYPE('a::len)" and le: "sf_low (b :: 'a word) \<le> sf_low a"
    and A: "(if sf_exp a = 0 then (1, push_bit 3 (sf_mant a))
      else (sf_exp a, push_bit 3 (sf_mant a) OR push_bit (MANT_SIZE TYPE('a) + 3) 1)) = (ea, ma)"
    and B: "(if sf_exp b = 0 then (1, push_bit 3 (sf_mant b))
      else (sf_exp b, push_bit 3 (sf_mant b) OR push_bit (MANT_SIZE TYPE('a) + 3) 1)) = (eb, mb)"
  shows "below (MANT_SIZE TYPE('a) + 4) ma" and "below (MANT_SIZE TYPE('a) + 4) (rshift_rnd mb (ea - eb))"
    and "rshift_rnd mb (ea - eb) \<le> ma"
proof -
  let ?M = "MANT_SIZE TYPE('a)"
  have L: "?M + 9 \<le> LENGTH('a)" using sf_sizes(2,3) [OF f] by simp
  have mu: "uint (push_bit 3 (sf_mant x)) = uint (sf_mant x) * 8" "below (?M + 3) (push_bit 3 (sf_mant x))"
    "uint (push_bit 3 (sf_mant x) OR push_bit (?M + 3) 1) = 2 ^ (?M + 3) + uint (sf_mant x) * 8"
    for x :: "'a word"
  proof -
    show u: "uint (push_bit 3 (sf_mant x)) = uint (sf_mant x) * 8"
      using uint_push [OF below_sf_mant, of 3 x] L by simp
    show b: "below (?M + 3) (push_bit 3 (sf_mant x))" by (rule below_push [OF below_sf_mant]) simp
    have "uint (push_bit (?M + 3) 1 OR push_bit 3 (sf_mant x)) =
        uint (1 :: 'a word) * 2 ^ (?M + 3) + uint (push_bit 3 (sf_mant x))"
      using L b by (intro uint_push_or) (simp_all add: below_def power_strict_increasing)
    then show "uint (push_bit 3 (sf_mant x) OR push_bit (?M + 3) 1) = 2 ^ (?M + 3) + uint (sf_mant x) * 8"
      by (simp add: u or.commute)
  qed
  have bA: "below (?M + 4) ma" and bB: "below (?M + 4) mb"
    using A B below_mono [OF mu(2), of "?M + 4"] below_push_1 [of "?M + 3" "?M + 4"]
    by (auto split: if_splits)
  show "below (?M + 4) ma" by (rule bA)
  have lex: "sf_exp b < sf_exp a \<or> sf_exp b = sf_exp a \<and> uint (sf_mant b) \<le> uint (sf_mant a)"
  proof -
    have "sf_exp b * 2 ^ ?M + uint (sf_mant b) \<le> sf_exp a * 2 ^ ?M + uint (sf_mant a)"
      using le by (simp add: sf_low_eq [OF f])
    moreover have "sf_exp b * 2 ^ ?M + 0 \<ge> (sf_exp a + 1) * 2 ^ ?M" if "sf_exp a < sf_exp b"
      using that by (simp add: mult_right_mono)
    ultimately show ?thesis
      using uint_sf_mant_range [of a] uint_sf_mant_range [of b]
      by (cases "sf_exp a < sf_exp b"; cases "sf_exp a = sf_exp b") (auto simp: distrib_right)
  qed
  have nn: "0 \<le> sf_exp b" "0 \<le> sf_exp a" by (simp_all add: sf_exp_range)
  then have d: "eb \<le> ea" using lex A B by (auto split: if_splits)
  then obtain n where n: "ea - eb = int n" using zero_le_imp_eq_int [of "ea - eb"] by auto
  show "below (?M + 4) (rshift_rnd mb (ea - eb))"
    unfolding n using below_mono [OF bB, of "?M + 4 + n"] by (intro below_rshift_rnd) auto
  show "rshift_rnd mb (ea - eb) \<le> ma"
  proof (cases "n = 0")
    case True
    then have "ea = eb" using n by simp
    then have "uint mb \<le> uint ma"
      using lex A B nn mu uint_sf_mant_range(2) [of b] uint_sf_mant_range(1) [of a]
      by (auto split: if_splits simp: power_add simp del: uint_ge_0 unsigned_greater_eq)
    then show ?thesis using True n by (simp add: rshift_rnd_def word_le_def)
  next
    case False
    then have "sf_exp a \<noteq> 0" using A B n nn by (auto split: if_splits)
    then have "2 ^ (?M + 3) \<le> uint ma" using A mu(3) uint_sf_mant_range(1) [of a] by (auto split: if_splits)
    moreover have "below (?M + 3) (rshift_rnd mb (int n))"
      using below_mono [OF bB, of "?M + 3 + n"] False by (intro below_rshift_rnd) auto
    ultimately show ?thesis by (simp add: n below_def word_le_def)
  qed
qed

theorem add_sf_total:
  assumes f: "sf_format TYPE('a::len)"
  shows "\<exists>r. add_sf a0 (b0 :: 'a word) rm fl = Some r"
proof -
  let ?M = "MANT_SIZE TYPE('a)"
  have L: "?M + 9 \<le> LENGTH('a)" using sf_sizes(2,3) [OF f] by simp
  obtain a b where ab: "(if a0 AND NOT SIGN_MASK < b0 AND NOT SIGN_MASK then (b0, a0) else (a0, b0)) = (a, b)"
    by fastforce
  then have le: "sf_low b \<le> sf_low a"
    by (auto simp: word_less_def uint_without_sign [OF f] split: if_splits)
  obtain ea ma eb mb where
    A: "(if sf_exp a = 0 then (1, push_bit 3 (sf_mant a))
      else (sf_exp a, push_bit 3 (sf_mant a) OR push_bit (?M + 3) 1)) = (ea, ma)"
    and B: "(if sf_exp b = 0 then (1, push_bit 3 (sf_mant b))
      else (sf_exp b, push_bit 3 (sf_mant b) OR push_bit (?M + 3) 1)) = (eb, mb)"
    by (metis surj_pair)
  note bnd = aligned_le [OF f le A B]
  have "below (LENGTH('a) - 1) (ma + rshift_rnd mb (ea - eb))"
    using L by (intro below_add [OF bnd(1,2)]) auto
  moreover have "below (LENGTH('a) - 1) (ma - rshift_rnd mb (ea - eb))"
    using below_mono [OF below_diff [OF bnd(3,1)]] L by simp
  ultimately show ?thesis
    unfolding add_sf_def ab Let_def prod.case A B
    by (auto simp: normalize_sf_Some [OF f])
qed

theorem sub_sf_total: "sf_format TYPE('a::len) \<Longrightarrow> \<exists>r. sub_sf a (b :: 'a word) rm fl = Some r"
  using add_sf_total [of a "b XOR SIGN_MASK" rm fl] by (simp add: sub_sf_def)

section \<open>Fused multiply and add\<close>

lemma below_fma_shift:
  assumes "below k (c1 :: 'a::len word)" "0 < k"
  shows "below k (fst (fma_shift (int n) c1 c0))"
    and "0 < n \<Longrightarrow> below (k - 1) (fst (fma_shift (int n) c1 c0))"
proof -
  have "below k (drop_bit n c1)" using below_mono [OF assms(1)] by (intro below_drop) simp
  then show "below k (fst (fma_shift (int n) c1 c0))"
    using assms by (simp add: fma_shift_def Let_def)
  assume "0 < n"
  then have "below (k - 1) (drop_bit n c1)" using below_mono [OF assms(1)] by (intro below_drop) simp
  then show "below (k - 1) (fst (fma_shift (int n) c1 c0))"
    using \<open>0 < n\<close> by (simp add: fma_shift_def Let_def)
qed

lemma below_add_carry:
  assumes "below k (a :: 'a::len word)" "below k b" "Suc k < LENGTH('a)"
  shows "below (Suc k) (a + b + b2w c)"
proof -
  have s: "uint a + uint b + 1 < 2 ^ Suc k" using assms(1,2) by (simp add: below_def)
  also have "(2 :: int) ^ Suc k \<le> 2 ^ LENGTH('a)" using assms(3) by (intro power_increasing) simp_all
  finally have l: "uint a + uint b + 1 < 2 ^ LENGTH('a)" .
  then have "uint (a + b) = uint a + uint b" by (intro uint_add_no_overflow) simp
  moreover have "uint (b2w c :: 'a word) \<le> 1" by (simp add: b2w_def)
  ultimately have "uint (a + b + b2w c) = uint a + uint b + uint (b2w c :: 'a word)"
    using l by (subst uint_add_no_overflow) simp_all
  with s \<open>uint (b2w c :: 'a word) \<le> 1\<close> show ?thesis by (simp add: below_def)
qed

lemma below_sub_borrow:
  assumes "below k (a :: 'a::len word)" "b < a \<or> b \<le> a \<and> \<not> c"
  shows "below k (a - b - b2w c)"
proof -
  have "b \<le> a" using assms(2) by auto
  moreover from this have "(b2w c :: 'a word) \<le> a - b"
  proof (cases c)
    case True
    then have "uint b < uint a" using assms(2) by (simp add: word_less_def)
    then show ?thesis using True uint_sub_lem [of b a] by (simp add: word_le_def)
  qed simp
  ultimately show ?thesis using assms(1) by (intro below_diff) auto
qed

lemma fma_add_total:
  assumes f: "sf_format TYPE('a::len)"
    and r: "2 ^ (LENGTH('a) - 3) \<le> uint r1" "below (LENGTH('a) - 2) (r1 :: 'a word)"
    and c: "2 ^ (LENGTH('a) - 3) \<le> uint c1" "below (LENGTH('a) - 2) (c1 :: 'a word)"
  shows "\<exists>x. fma_add rs re r1 r0 cs ce c1 0 rm fl = Some x"
proof -
  have L: "30 \<le> LENGTH('a)" using sf_sizes(2,3,5) [OF f] by simp
  have main: "\<exists>x. (case fma_shift (e - d) qh ql of (qh, ql) \<Rightarrow>
      case if s = t then let m0 = pl + ql in (s, ph + qh + b2w (m0 < ql), m0)
           else let m0 = pl - ql; m1 = ph - qh - b2w (m0 > pl)
             in (if m0 OR m1 = 0 then rm = RM_RDN else s, m1, m0) of
        (s, ph, pl) \<Rightarrow> normalize2_sf s e ph pl rm fl) = Some x"
    if p: "2 ^ (LENGTH('a) - 3) \<le> uint ph" "below (LENGTH('a) - 2) (ph :: 'a word)"
      and q: "below (LENGTH('a) - 2) (qh :: 'a word)"
      and o: "d < e \<or> d = e \<and> (qh < ph \<or> qh \<le> ph \<and> ql = 0)"
    for e d ph pl qh ql s t
  proof -
    obtain n where n: "e - d = int n" using o zero_le_imp_eq_int [of "e - d"] by auto
    obtain u1 u0 where u: "fma_shift (e - d) qh ql = (u1, u0)" by fastforce
    have u1: "below (LENGTH('a) - 2) u1"
      using below_fma_shift(1) [OF q, of n ql] L u by (simp add: n)
    have ord: "u1 < ph \<or> u1 \<le> ph \<and> u0 = 0"
    proof (cases "n = 0")
      case True
      then show ?thesis using o u n by (simp add: fma_shift_def)
    next
      case False
      then have "below (LENGTH('a) - 2 - 1) u1"
        using below_fma_shift(2) [OF q, of n ql] L u by (simp add: n)
      then have "uint u1 < uint ph" using p(1) by (simp add: below_def numeral_3_eq_3)
      then show ?thesis by (simp add: word_less_def)
    qed
    have "below (LENGTH('a) - 1) (ph + u1 + b2w x)" for x
      using below_add_carry [OF p(2) u1, of x] L by (simp add: Suc_diff_Suc numeral_2_eq_2)
    moreover have "below (LENGTH('a) - 1) (ph - u1 - b2w (pl < pl - u0))"
      using ord below_mono [OF below_sub_borrow [OF p(2)], of u1 "pl < pl - u0" "LENGTH('a) - 1"] by auto
    ultimately show ?thesis using normalize2_sf_Some [OF f] by (simp add: u Let_def)
  qed
  show ?thesis
  proof (cases "re > ce \<or> re = ce \<and> r1 \<ge> c1")
    case True
    then have "ce < re \<or> ce = re \<and> (c1 < r1 \<or> c1 \<le> r1 \<and> (0 :: 'a word) = 0)" by auto
    from main [OF r c(2) this] True show ?thesis by (simp add: fma_add_def Let_def)
  next
    case False
    then have "re < ce \<or> re = ce \<and> (r1 < c1 \<or> r1 \<le> c1 \<and> r0 = 0)" by (auto simp: not_le)
    from main [OF c r(2) this] False show ?thesis by (simp add: fma_add_def Let_def)
  qed
qed

text \<open>The product of two mantissas, aligned so that its high word has its top bit at \<open>F_SIZE - 3\<close>.\<close>

lemma fma_product_bounds:
  assumes f: "sf_format TYPE('a::len)"
    and a: "2 ^ MANT_SIZE TYPE('a) \<le> uint ma" "below (Suc (MANT_SIZE TYPE('a))) (ma :: 'a word)"
    and b: "2 ^ MANT_SIZE TYPE('a) \<le> uint mb" "below (Suc (MANT_SIZE TYPE('a))) (mb :: 'a word)"
    and p: "mul_u (push_bit (RND_SIZE TYPE('a)) ma) (push_bit (RND_SIZE TYPE('a)) mb) = (p1, p0)"
  shows "below (LENGTH('a) - 2) p1"
    and "\<not> p1 < push_bit (LENGTH('a) - 3) 1 \<Longrightarrow> 2 ^ (LENGTH('a) - 3) \<le> uint p1"
    and "p1 < push_bit (LENGTH('a) - 3) 1 \<Longrightarrow>
      2 ^ (LENGTH('a) - 3) \<le> uint (push_bit 1 p1 OR drop_bit (LENGTH('a) - 1) p0)"
    and "p1 < push_bit (LENGTH('a) - 3) 1 \<Longrightarrow>
      below (LENGTH('a) - 2) (push_bit 1 p1 OR drop_bit (LENGTH('a) - 1) p0)"
proof -
  let ?M = "MANT_SIZE TYPE('a)" and ?R = "RND_SIZE TYPE('a)" and ?L = "LENGTH('a)"
  have L: "?L = ?M + ?R + 2" "7 \<le> ?R" "23 \<le> ?M" using sf_sizes(2,3,5) [OF f] by simp_all
  let ?P = "uint (push_bit ?R ma) * uint (push_bit ?R mb)"
  have "?P < 2 ^ (Suc ?M + ?R + (Suc ?M + ?R))" using a(2) b(2) L by (intro product_bound) auto
  then show p1: "below (?L - 2) p1"
    using mul_u_high [OF f, of "push_bit ?R ma" "push_bit ?R mb" "?L - 2"] L by (simp add: p)
  have half: "uint (push_bit (?L - 3) 1 :: 'a word) = 2 ^ (?L - 3)" by (rule uint_push_bit_1) (use L in simp)
  then show "\<not> p1 < push_bit (?L - 3) 1 \<Longrightarrow> 2 ^ (?L - 3) \<le> uint p1" by (simp add: word_less_def)
  have "uint (push_bit ?R ma) = uint ma * 2 ^ ?R" "uint (push_bit ?R mb) = uint mb * 2 ^ ?R"
    using L by (auto intro: uint_push [OF a(2)] uint_push [OF b(2)])
  then have "2 ^ (?M + ?R) \<le> uint (push_bit ?R ma)" "2 ^ (?M + ?R) \<le> uint (push_bit ?R mb)"
    using mult_right_mono [OF a(1), of "2 ^ ?R"] mult_right_mono [OF b(1), of "2 ^ ?R"]
    by (simp_all add: power_add)
  then have "2 ^ (?M + ?R) * 2 ^ (?M + ?R) \<le> ?P" by (intro mult_mono) auto
  moreover have "?P = uint p1 * 2 ^ ?L + uint p0"
    using wide_mul_u [OF f, of "push_bit ?R ma" "push_bit ?R mb"] by (simp add: p wide_def)
  moreover have "?M + ?R + (?M + ?R) = ?L - 4 + ?L" using L by simp
  then have "(2 :: int) ^ (?M + ?R) * 2 ^ (?M + ?R) = 2 ^ (?L - 4) * 2 ^ ?L"
    by (simp only: power_add [symmetric])
  ultimately have "2 ^ (?L - 4) * 2 ^ ?L < (uint p1 + 1) * 2 ^ ?L"
    using uint_lt2p [of p0] unfolding distrib_right mult_1 by linarith
  then have lo: "2 ^ (?L - 4) \<le> uint p1" by (simp add: mult_less_cancel_right)
  assume "p1 < push_bit (?L - 3) 1"
  then have hi: "uint p1 < 2 ^ (?L - 3)" by (simp only: word_less_def half)
  have "(2 :: int) ^ (?L - 3) * 2 ^ 1 < 2 ^ ?L" using L by (simp only: power_add [symmetric]) (simp add: power_strict_increasing)
  then have "uint p1 * 2 ^ 1 < 2 ^ ?L" using hi by simp
  moreover have d: "uint (drop_bit (?L - 1) p0) < 2 ^ 1" using top_bit_of_word(2) [of p0] by simp
  ultimately have u: "uint (push_bit 1 p1 OR drop_bit (?L - 1) p0) = uint p1 * 2 ^ 1 + uint (drop_bit (?L - 1) p0)"
    by (rule uint_push_or)
  have e: "(2 :: int) ^ (?L - 3) = 2 ^ (?L - 4) * 2" "(2 :: int) ^ (?L - 2) = 2 ^ (?L - 3) * 2"
    using L by (simp_all flip: power_Suc2 add: Suc_diff_Suc numeral_eq_Suc)
  show "2 ^ (?L - 3) \<le> uint (push_bit 1 p1 OR drop_bit (?L - 1) p0)"
    unfolding u e(1) power_one_right using lo uint_ge_0 [of "drop_bit (?L - 1) p0"] by linarith
  show "below (?L - 2) (push_bit 1 p1 OR drop_bit (?L - 1) p0)"
    unfolding below_def u e(2) using hi d by simp
qed

theorem fma_sf_total:
  assumes f: "sf_format TYPE('a::len)"
  shows "\<exists>r. fma_sf a b (c :: 'a word) rm fl = Some r"
proof (cases "sf_exp a = EXP_MASK TYPE('a) \<or> sf_exp b = EXP_MASK TYPE('a) \<or> sf_exp c = EXP_MASK TYPE('a)
    \<or> sf_exp a = 0 \<and> sf_mant a = 0 \<or> sf_exp b = 0 \<and> sf_mant b = 0")
  case True
  then show ?thesis by (auto simp: fma_sf_def Let_def)
next
  case False
  let ?M = "MANT_SIZE TYPE('a)" and ?R = "RND_SIZE TYPE('a)"
  from False obtain ea ma eb mb where
    a: "(if sf_exp a = 0 then normalize_subnormal_sf (sf_mant a)
      else (sf_exp a, sf_mant a OR push_bit ?M 1)) = (ea, ma)" "2 ^ ?M \<le> uint ma" "below (Suc ?M) ma"
    and b: "(if sf_exp b = 0 then normalize_subnormal_sf (sf_mant b)
      else (sf_exp b, sf_mant b OR push_bit ?M 1)) = (eb, mb)" "2 ^ ?M \<le> uint mb" "below (Suc ?M) mb"
    using significand_bounds [OF f, of a] significand_bounds [OF f, of b] by metis
  have L: "LENGTH('a) = ?M + ?R + 2" "7 \<le> ?R" using sf_sizes(2,3) [OF f] by simp_all
  obtain p1 p0 where p: "mul_u (push_bit ?R ma) (push_bit ?R mb) = (p1, p0)" by fastforce
  obtain r1 r0 re where r: "(if p1 < push_bit (LENGTH('a) - 3) 1
      then (ea + eb - 2 ^ (EXP_SIZE TYPE('a) - 1) + 3 - 1,
            push_bit 1 p1 OR drop_bit (LENGTH('a) - 1) p0, push_bit 1 p0)
      else (ea + eb - 2 ^ (EXP_SIZE TYPE('a) - 1) + 3, p1, p0)) = (re, r1, r0)"
    by (metis surj_pair)
  from r have r1: "2 ^ (LENGTH('a) - 3) \<le> uint r1" "below (LENGTH('a) - 2) r1"
    using fma_product_bounds [OF f a(2,3) b(2,3) p] by (auto split: if_splits)
  show ?thesis
  proof (cases "sf_exp c = 0 \<and> sf_mant c = 0")
    case True
    have "below (LENGTH('a) - 1) (r1 OR b2w (r0 \<noteq> 0))"
      using below_mono [OF r1(2)] L by (simp add: below_b2w)
    then show ?thesis
      using False True unfolding fma_sf_def Let_def a(1) b(1) prod.case p r
      by (simp add: normalize_sf_Some [OF f])
  next
    case c0: False
    then obtain ec mc where
      c: "(if sf_exp c = 0 then normalize_subnormal_sf (sf_mant c)
        else (sf_exp c, sf_mant c OR push_bit ?M 1)) = (ec, mc)" "2 ^ ?M \<le> uint mc" "below (Suc ?M) mc"
      using significand_bounds [OF f, of c] by metis
    have "uint (push_bit (?R - 1) mc) = uint mc * 2 ^ (?R - 1)" using L by (intro uint_push [OF c(3)]) simp
    then have "2 ^ (LENGTH('a) - 3) \<le> uint (push_bit (?R - 1) mc)"
      using mult_right_mono [OF c(2), of "2 ^ (?R - 1)"] L by (simp flip: power_add)
    moreover have "below (LENGTH('a) - 2) (push_bit (?R - 1) mc)" using L by (intro below_push [OF c(3)]) simp
    ultimately have "\<exists>x. fma_add s re r1 r0 t e (push_bit (?R - 1) mc) 0 rm fl = Some x" for s t e
      by (rule fma_add_total [OF f r1])
    then show ?thesis
      using False c0 unfolding fma_sf_def Let_def a(1) b(1) c(1) prod.case p r by auto
  qed
qed

section \<open>Division\<close>

lemma divrem_u_exact:
  assumes "sf_format TYPE('a::len)" and "a1 < (b :: 'a word)"
  shows "divrem_u a1 a0 b =
    Some (word_of_int (wide (a1, a0) div uint b), word_of_int (wide (a1, a0) mod uint b))"
  using divrem_u_bits_correct [OF assms(2), of a0]
  by (simp add: divrem_u_def divrem_u_long_def wide_def Let_def)

theorem div_sf_total:
  assumes f: "sf_format TYPE('a::len)"
  shows "\<exists>r. div_sf a (b :: 'a word) rm fl = Some r"
proof (cases "sf_exp a = EXP_MASK TYPE('a) \<or> sf_exp b = EXP_MASK TYPE('a)
    \<or> sf_exp a = 0 \<and> sf_mant a = 0 \<or> sf_exp b = 0 \<and> sf_mant b = 0")
  case True
  then show ?thesis by (auto simp: div_sf_def Let_def split: prod.split)
next
  case False
  let ?M = "MANT_SIZE TYPE('a)" and ?R = "RND_SIZE TYPE('a)" and ?W = "2 ^ LENGTH('a) :: int"
  from False obtain ea ma eb mb where
    a: "(if sf_exp a = 0 then normalize_subnormal_sf (sf_mant a)
      else (sf_exp a, sf_mant a OR push_bit ?M 1)) = (ea, ma)" "2 ^ ?M \<le> uint ma" "below (Suc ?M) ma"
    and b: "(if sf_exp b = 0 then normalize_subnormal_sf (sf_mant b)
      else (sf_exp b, sf_mant b OR push_bit ?M 1)) = (eb, mb)" "2 ^ ?M \<le> uint mb" "below (Suc ?M) mb"
    using significand_bounds [OF f, of a] significand_bounds [OF f, of b] by metis
  have L: "LENGTH('a) = ?M + ?R + 2" "7 \<le> ?R" using sf_sizes(2,3) [OF f] by simp_all
  have ub: "uint (push_bit 2 mb) = uint mb * 4" using L uint_push [OF b(3), of 2] by simp
  have a2: "uint ma < 2 * 2 ^ ?M" using a(3) by (simp add: below_def)
  then have "uint ma < uint (push_bit 2 mb)" using b(2) uint_ge_0 [of mb] unfolding ub by linarith
  then have lt: "ma < push_bit 2 mb" by (simp add: word_less_def)
  let ?q = "wide (ma, 0) div uint (push_bit 2 mb)"
  have "uint ma * ?W < 2 ^ (LENGTH('a) - 1) * (uint mb * 4)"
  proof -
    have "uint ma * ?W < 2 * 2 ^ ?M * ?W" using a2 by simp
    also have "\<dots> \<le> 2 * uint mb * ?W" using b(2) by simp
    also have "\<dots> = 2 ^ (LENGTH('a) - 1) * (uint mb * 4)" using L by simp
    finally show ?thesis .
  qed
  moreover have "0 < uint mb" using b(2) zero_less_power [of "2 :: int" ?M] by linarith
  ultimately have q: "?q < 2 ^ (LENGTH('a) - 1)" "0 \<le> ?q"
    by (simp_all add: wide_def ub pos_zdiv_less_iff pos_imp_zdiv_nonneg_iff)
  have "(2 :: int) ^ (LENGTH('a) - 1) \<le> ?W" by (rule power_increasing) simp_all
  then have "uint (word_of_int ?q :: 'a word) = ?q"
    using q by (intro uint_word_of_int_id) linarith+
  with q have "below (LENGTH('a) - 1) (word_of_int ?q :: 'a word)" by (simp add: below_def)
  then have "below (LENGTH('a) - 1) (if x then word_of_int ?q OR 1 else word_of_int ?q :: 'a word)" for x
    using L by (simp add: below_1)
  then show ?thesis
    using False unfolding div_sf_def Let_def a(1) b(1) prod.case divrem_u_exact [OF f lt] option.case
    by (auto simp: normalize_sf_Some [OF f])
qed

section \<open>Conversions\<close>

lemma below_ucast: "below k (a :: 'a::len word) \<Longrightarrow> below k (ucast a :: 'b::len word)"
  by (simp add: below_iff_bits bit_ucast_iff)

lemma below_clz: "below (LENGTH('a) - clz a) (a :: 'a::len word)"
proof (cases "a = 0")
  case False
  then obtain h where h: "bit a h" "below (Suc h) a" by (rule top_bit_ex)
  have "h < LENGTH('a)" by (rule bit_imp_le_length [OF h(1)])
  then show ?thesis using h(2) by (simp add: clz_top [OF h])
qed simp

theorem cvt_narrow_sf_total:
  assumes f: "sf_format TYPE('a::len)" and g: "sf_format TYPE('t::len)" and lt: "LENGTH('t) < LENGTH('a)"
  shows "\<exists>r. (cvt_narrow_sf (a :: 'a word) rm fl :: ('t word \<times> u32) option) = Some r"
proof -
  let ?M = "MANT_SIZE TYPE('a)"
  have L: "LENGTH('t) - 1 \<le> ?M" "2 \<le> LENGTH('t)"
    using f g lt by (auto simp: sf_format_def MANT_SIZE_def)
  define n where "n = ?M - (LENGTH('t) - 2)"
  have n: "int ?M - (int LENGTH('t) - 2) = int n" "LENGTH('t) - 1 + n = Suc ?M"
    using L by (auto simp: n_def)
  have "below (LENGTH('t) - 1) (ucast (rshift_rnd m (int n)) :: 't word)" if "below (Suc ?M) m" for m :: "'a word"
    using that L n by (intro below_ucast below_rshift_rnd) auto
  moreover have "below (Suc ?M) (sf_mant a)" by (rule below_mono [OF below_sf_mant]) simp
  ultimately show ?thesis
    using hidden_bit_bounds(2) [OF f, of a]
    by (simp add: cvt_narrow_sf_def Let_def n normalize_sf_Some [OF g] split: prod.split)
qed

theorem cvt_int_sf_total:
  assumes g: "sf_format TYPE('a::len)"
  shows "\<exists>r. (internal_cvt_i_sf (a :: 'i::len word) rm fl u :: ('a word \<times> u32) option) = Some r"
proof -
  obtain s r where r: "(if \<not> u \<and> a <s 0 then (True, - a) else (False, a)) = (s, r)" by fastforce
  let ?l = "int LENGTH('i) - int (clz r) - (int LENGTH('a) - 1)"
  have L: "30 \<le> LENGTH('a)" using sf_sizes(2,3,5) [OF g] by simp
  have "below (LENGTH('a) - 1) (drop_bit (nat ?l) r OR b2w c)" for c
    using L by (simp add: below_b2w) (intro below_drop below_mono [OF below_clz], simp)
  moreover have "below (LENGTH('a) - 1) r" if "\<not> 0 < ?l"
    using that L by (intro below_mono [OF below_clz]) simp
  ultimately show ?thesis
    unfolding internal_cvt_i_sf_def r Let_def prod.case
    by (cases "0 < ?l") (simp_all add: below_ucast normalize_sf_Some [OF g])
qed

section \<open>Square root\<close>

lemma clz_upto_le: "clz_upto k a \<le> k"
  by (induction k) auto

text \<open>Newton's iteration from above ends at the integer square root.\<close>

lemma newton_step:
  assumes "0 < s" "0 < (a :: int)" "a < (s + 1) * (s + 1)" and u: "u = (a div s + s) div 2"
  shows "a div s \<le> s + 2" and "s \<le> u \<Longrightarrow> s * s \<le> a"
    and "u < s \<Longrightarrow> 0 < u \<and> a < (u + 1) * (u + 1)"
proof -
  have "a \<le> (s + 2) * s" using assms(3) by (simp add: algebra_simps)
  then have "a div s \<le> (s + 2) * s div s" using assms(1) by (intro zdiv_mono1) simp_all
  then show "a div s \<le> s + 2" using assms(1) by simp
  have m: "s * (a div s) + a mod s = a" "0 \<le> a mod s" "a mod s < s" using assms(1) by simp_all
  show "s * s \<le> a" if "s \<le> u"
  proof -
    have "s \<le> a div s" using that by (simp add: u)
    then have "s * s \<le> s * (a div s)" using assms(1) by simp
    with m show ?thesis by linarith
  qed
  assume "u < s"
  have h: "a div s + s \<le> 2 * u + 1" by (simp add: u)
  have "0 \<le> a div s" using assms(1,2) by (simp add: pos_imp_zdiv_nonneg_iff)
  then have "0 \<le> u" using assms(1) by (simp add: u)
  have "0 < u"
  proof (rule ccontr)
    assume "\<not> 0 < u"
    with \<open>0 \<le> u\<close> h assms(1) \<open>0 \<le> a div s\<close> have "s = 1" "a div s = 0" by linarith+
    with assms(2) show False by simp
  qed
  have "s * (a div s) \<le> s * (2 * u + 1 - s)" using h assms(1) by (intro mult_left_mono) simp_all
  also have "s * (2 * u + 1 - s) = s * (2 * u + 2 - s) - s" by (simp add: algebra_simps)
  finally have "a < s * (2 * u + 2 - s)" using m by linarith
  also have "\<dots> \<le> (u + 1) * (u + 1)" using zero_le_square [of "u + 1 - s"] by (simp add: algebra_simps)
  finally show "0 < u \<and> a < (u + 1) * (u + 1)" using \<open>0 < u\<close> by simp
qed

lemma sqrt_newton_floor:
  "0 < s \<Longrightarrow> 0 < a \<Longrightarrow> a < (s + 1) * (s + 1) \<Longrightarrow> 2 * s + 2 < 2 ^ w \<Longrightarrow> r = sqrt_newton w a s \<Longrightarrow>
   0 < r \<and> r \<le> s \<and> r * r \<le> a \<and> a < (r + 1) * (r + 1)"
proof (induction w a s rule: sqrt_newton.induct)
  case (1 w a s)
  define u where "u = (a div s + s) div 2"
  note st = newton_step [OF 1(2,3,4) u_def]
  have "0 \<le> a div s" using 1(2,3) by (simp add: pos_imp_zdiv_nonneg_iff)
  then have "(a div s + s) mod 2 ^ w = a div s + s" using st(1) 1(2,5) by (intro mod_pos_pos_trivial) linarith+
  then have r: "r = (if u \<ge> s then s else sqrt_newton w a u)"
    and u: "u = (a div s + s) mod 2 ^ w div 2"
    using 1(6) sqrt_newton.simps [of w a s] by (simp_all add: u_def Let_def)
  show ?case
  proof (cases "s \<le> u")
    case True
    then show ?thesis using st(2) r 1(2,4) by simp
  next
    case False
    then have "0 < r \<and> r \<le> u \<and> r * r \<le> a \<and> a < (r + 1) * (r + 1)"
      using st(3) r 1(3,5) by (intro 1(1) [OF u]) auto
    with False show ?thesis by simp
  qed
qed

lemma sqrt_start:
  assumes "ah \<noteq> 0 \<or> al \<noteq> (0 :: 'a::len word)" and "ah = 0 \<or> al = 0"
  shows "wide (ah, al) \<le> 2 ^ sqrt_l ah al" "sqrt_l ah al \<le> 2 * LENGTH('a)"
proof -
  have dec: "uint x \<le> 2 ^ (LENGTH('a) - clz (x - 1))" if "x \<noteq> 0" for x :: "'a word"
  proof -
    have "uint (x - 1) = uint x - 1" using word_gt_0 [of x] that
      by (subst uint_sub_lem [THEN iffD1]) (simp_all add: word_less_def)
    then show ?thesis using below_clz [of "x - 1"] by (simp add: below_def)
  qed
  have c: "clz x \<le> LENGTH('a)" for x :: "'a word" by (simp add: clz_def clz_upto_le)
  show "wide (ah, al) \<le> 2 ^ sqrt_l ah al"
  proof (cases "ah = 0")
    case True
    then show ?thesis using assms(1) dec [of al] by (simp add: wide_def sqrt_l_def)
  next
    case False
    have "uint ah * 2 ^ LENGTH('a) \<le> 2 ^ (LENGTH('a) - clz (ah - 1)) * 2 ^ LENGTH('a)"
      using dec [OF False] by simp
    also have "\<dots> = 2 ^ (2 * LENGTH('a) - clz (ah - 1))"
      using c [of "ah - 1"] by (simp flip: power_add)
    finally show ?thesis using False assms(2) by (simp add: wide_def sqrt_l_def)
  qed
  show "sqrt_l ah al \<le> 2 * LENGTH('a)"
    unfolding sqrt_l_def by (simp only: split: if_split) linarith
qed

lemma sqrtrem_u_long_floor:
  assumes "4 \<le> LENGTH('a::len)" and "ah \<noteq> 0 \<or> al \<noteq> (0 :: 'a word)" and "ah = 0 \<or> al = 0"
    and "sqrtrem_u_long ah al = (inexact, s)"
  shows "uint s * uint s \<le> wide (ah, al)" "wide (ah, al) < (uint s + 1) * (uint s + 1)"
    and "inexact \<longleftrightarrow> uint s * uint s \<noteq> wide (ah, al)"
proof -
  let ?a = "wide (ah, al)" and ?l = "sqrt_l ah al" and ?L = "LENGTH('a)"
  define r where "r = sqrt_newton (2 * ?L) ?a (2 ^ ((?l + 1) div 2))"
  have "uint ah * 2 ^ ?L + uint al \<noteq> 0"
    using assms(2) uint_ge_0 [of al] by (simp add: add_nonneg_eq_0_iff uint_0_iff)
  then have pos: "0 < ?a" by (simp add: wide_def order_less_le)
  have lt: "?a < 2 ^ ?L * 2 ^ ?L"
  proof -
    have "(uint ah + 1) * 2 ^ ?L \<le> 2 ^ ?L * 2 ^ ?L"
      using zless_imp_add1_zle [OF uint_lt2p [of ah]] by (rule mult_right_mono) simp
    then show ?thesis using uint_lt2p [of al] unfolding wide_def fst_conv snd_conv distrib_right mult_1 by linarith
  qed
  have "(2 :: int) ^ ?l \<le> 2 ^ ((?l + 1) div 2) * 2 ^ ((?l + 1) div 2)"
    unfolding power_add [symmetric] by (rule power_increasing) simp_all
  then have st: "?a < (2 ^ ((?l + 1) div 2) + 1) * (2 ^ ((?l + 1) div 2) + 1)"
    using sqrt_start(1) [OF assms(2,3)] zero_less_power [of "2 :: int" "(?l + 1) div 2"]
    unfolding distrib_left distrib_right by linarith
  have "2 * (2 :: int) ^ ((?l + 1) div 2) + 2 \<le> 2 ^ Suc ?L + 2 ^ 1"
    using power_increasing [of "(?l + 1) div 2" ?L "2 :: int"] sqrt_start(2) [OF assms(2,3)] by simp
  also have "\<dots> < 2 ^ Suc ?L + 2 ^ Suc ?L" by (intro add_strict_left_mono power_strict_increasing) simp_all
  also have "\<dots> = 2 ^ (?L + 2)" by simp
  also have "\<dots> \<le> 2 ^ (2 * ?L)" using assms(1) by (intro power_increasing) simp_all
  finally have r: "0 < r \<and> r * r \<le> ?a \<and> ?a < (r + 1) * (r + 1)"
    using sqrt_newton_floor [OF _ pos st _ r_def] by simp
  then have "r < 2 ^ ?L" using lt mult_mono [of "2 ^ ?L" r "2 ^ ?L" r] by (cases "r < 2 ^ ?L") simp_all
  then have u: "uint (word_of_int r :: 'a word) = r" using r by (intro uint_word_of_int_id) simp_all
  have "r * r mod 2 ^ (2 * ?L) = r * r"
    using r lt by (intro mod_pos_pos_trivial) (auto simp: mult_2 power_add)
  then have "inexact \<longleftrightarrow> ?a \<noteq> r * r" "s = word_of_int r"
    using assms(2,4) by (auto simp: sqrtrem_u_long_def wide_def r_def Let_def split: if_splits)
  with r u show "uint s * uint s \<le> ?a" "?a < (uint s + 1) * (uint s + 1)"
    "inexact \<longleftrightarrow> uint s * uint s \<noteq> ?a" by auto
qed

theorem sqrt_sf_total:
  assumes f: "sf_format TYPE('a::len)" and "LENGTH('a) \<noteq> 128"
  shows "\<exists>r. sqrt_sf (a :: 'a word) rm fl = Some r"
proof (cases "sf_exp a = EXP_MASK TYPE('a) \<or> sf_sign a \<or> sf_exp a = 0 \<and> sf_mant a = 0")
  case True
  then show ?thesis by (auto simp: sqrt_sf_def Let_def)
next
  case False
  let ?M = "MANT_SIZE TYPE('a)" and ?L = "LENGTH('a)"
  from False obtain ea ma where
    a: "(if sf_exp a = 0 then normalize_subnormal_sf (sf_mant a)
      else (sf_exp a, sf_mant a OR push_bit ?M 1)) = (ea, ma)" "2 ^ ?M \<le> uint ma" "below (Suc ?M) ma"
    using significand_bounds [OF f, of a] by metis
  have L: "?L = ?M + RND_SIZE TYPE('a) + 2" "7 \<le> RND_SIZE TYPE('a)" using sf_sizes(2,3) [OF f] by simp_all
  obtain e m where e: "(if odd (ea - EXP_MASK TYPE('a) div 2) then (ea - EXP_MASK TYPE('a) div 2 - 1, push_bit 1 ma)
      else (ea - EXP_MASK TYPE('a) div 2, ma)) = (e, m)" by fastforce
  moreover have "2 ^ ?M \<le> uint ma * 2" using a(2) uint_ge_0 [of ma] by linarith
  ultimately have m: "below (?M + 2) m" "2 ^ ?M \<le> uint m"
    using below_push [OF a(3), of 1 "?M + 2"] below_mono [OF a(3), of "?M + 2"] a(2) uint_push [OF a(3), of 1] L
    by (auto split: if_splits)
  let ?m = "push_bit (?L - 4 - ?M) m"
  obtain i s where s: "sqrtrem_u_long ?m 0 = (i, s)" by fastforce
  have b: "below (?L - 2) ?m" using below_push [OF m(1)] L by simp
  have u: "uint ?m = uint m * 2 ^ (?L - 4 - ?M)" using L by (intro uint_push [OF m(1)]) simp
  have "below (?L - 1) s"
  proof (rule ccontr)
    assume "\<not> below (?L - 1) s"
    then have "2 ^ (?L - 1) \<le> uint s" by (simp add: below_def)
    then have "2 ^ (?L - 1) * 2 ^ (?L - 1) \<le> uint s * uint s" by (intro mult_mono) simp_all
    also have "\<dots> \<le> wide (?m, 0)" 
    proof (rule sqrtrem_u_long_floor [OF _ _ _ s])
      show "?m \<noteq> 0 \<or> (0 :: 'a word) \<noteq> 0" using u m(2) zero_less_power [of "2 :: int" ?M] by auto
    qed (use L in simp_all)
    also have "\<dots> < 2 ^ (?L - 2) * 2 ^ ?L" using b by (simp add: wide_def below_def)
    also have "\<dots> = 2 ^ (?L - 1) * 2 ^ (?L - 1)" using L by (simp flip: power_add)
    finally show False by simp
  qed
  then have "below (?L - 1) (if i then s OR 1 else s)" using L by (simp add: below_1)
  then show ?thesis
    using False assms(2) s unfolding sqrt_sf_def Let_def a(1) e prod.case
    by (simp add: normalize_sf_Some [OF f] sqrtrem_u_def)
qed

end
