(* ===== verification/Softfp_Props.thy ===== *)
theory Softfp_Props
  imports Softfp_Order Softfp_Wide Softfp_Total
begin

text \<open>
  The properties of the soft-float component: the comparisons decide the order of the values the
  operands denote, classification is a partition, and the double-word helpers compute exact
  products and quotients.
\<close>

lemma sf_formats: "sf_format TYPE(32)" "sf_format TYPE(64)" "sf_format TYPE(128)"
  by (simp_all add: sf_format_def)

section \<open>Comparisons\<close>

lemmas sf_eval = isnan_sf_def sf_exp_def sf_sign_def sf_mant_def EXP_MASK_def EXP_SIZE_def MANT_SIZE_def
  MANT_MASK_def sf_formats

text \<open>
  The three comparisons on any two floats of a supported format compare by value, the two zeros
  being equal, and set no flag.  A NaN operand makes all of them false; it raises the invalid flag
  in \<open>lt_sf\<close> and \<open>le_sf\<close>, and in the quiet comparison only when it is signalling.
\<close>

theorem comparisons_correct:
  assumes "sf_format TYPE('a::len)"
  shows "lt_sf a (b :: 'a word) fflags =
      (if isnan_sf a \<or> isnan_sf b then (False, fflags OR FFLAG_INVALID_OP)
       else (sf_scaled a < sf_scaled b, fflags)) \<and>
    le_sf a b fflags =
      (if isnan_sf a \<or> isnan_sf b then (False, fflags OR FFLAG_INVALID_OP)
       else (sf_scaled a \<le> sf_scaled b, fflags)) \<and>
    eq_quiet_sf a b fflags =
      (if isnan_sf a \<or> isnan_sf b
       then (False, if issignan_sf a \<or> issignan_sf b then fflags OR FFLAG_INVALID_OP else fflags)
       else (sf_scaled a = sf_scaled b, fflags))"
  using lt_sf_value [OF assms, of a b fflags] le_sf_value [OF assms, of a b fflags]
    eq_quiet_sf_value [OF assms, of a b fflags]
  by (auto simp: lt_sf_def le_sf_def eq_quiet_sf_def)

theorem comparisons_correct_witness:
  "sf_format TYPE(32) \<and> le_sf (0 :: u32) 0x80000000 0 =
     (sf_scaled (0 :: u32) \<le> sf_scaled (0x80000000 :: u32), 0)"
  using comparisons_correct [of "0 :: u32" "0x80000000" 0] by (simp add: sf_eval)

text \<open>
  \<open>min_sf\<close> and \<open>max_sf\<close>: one NaN operand gives the other one, two give the canonical NaN;
  two numbers give the smaller (larger) one, where the negative zero is below the positive one.
\<close>

theorem min_max_sf_correct:
  assumes "sf_format TYPE('a::len)"
  shows "min_sf a (b :: 'a word) fflags =
    (if isnan_sf a \<or> isnan_sf b then minmax_nan a b fflags
     else (if sf_scaled b < sf_scaled a \<or> sf_scaled a = sf_scaled b \<and> sf_sign b then b else a, fflags)) \<and>
    max_sf a b fflags =
    (if isnan_sf a \<or> isnan_sf b then minmax_nan a b fflags
     else (if sf_scaled a < sf_scaled b \<or> sf_scaled a = sf_scaled b \<and> sf_sign a then b else a, fflags))"
  using min_sf_value [OF assms, of a b fflags] max_sf_value [OF assms, of a b fflags]
  by (auto simp: min_sf_def max_sf_def)

theorem min_max_sf_correct_witness:
  "sf_format TYPE(32) \<and> min_sf (0 :: u32) 0x80000000 0 =
     (if sf_scaled (0x80000000 :: u32) < sf_scaled (0 :: u32)
         \<or> sf_scaled (0 :: u32) = sf_scaled (0x80000000 :: u32) \<and> sf_sign (0x80000000 :: u32)
      then 0x80000000 else 0, 0)"
  using min_max_sf_correct [of "0 :: u32" "0x80000000" 0] by (simp add: sf_eval)

section \<open>Representation\<close>

lemma issignan_iff:
  assumes "sf_format TYPE('a::len)"
  shows "issignan_sf (a :: 'a word) \<longleftrightarrow> isnan_sf a \<and> \<not> bit a (MANT_SIZE TYPE('a) - 1)"
proof -
  let ?M = "MANT_SIZE TYPE('a)" and ?E = "EXP_SIZE TYPE('a)"
  have M: "?M = Suc (?M - 1)" using assms by (auto simp: sf_format_def MANT_SIZE_def)
  let ?x = "uint a div 2 ^ (?M - 1)"
  have "uint (drop_bit (?M - 1) a AND (push_bit (?E + 1) 1 - 1)) = ?x mod 2 ^ (?E + 1)"
    by (simp only: push_bit_1_minus_1 uint_drop_bit uint_take_bit flip: take_bit_eq_mask)
  also have "\<dots> = 2 * (?x div 2 mod 2 ^ ?E) + ?x mod 2"
    using zmod_zmult2_eq [of "2 ^ ?E" ?x 2] by simp
  also have "?x div 2 = uint a div 2 ^ ?M"
    by (subst M) (simp add: zdiv_zmult2_eq [symmetric] mult.commute)
  finally have e: "uint (drop_bit (?M - 1) a AND (push_bit (?E + 1) 1 - 1)) = 2 * sf_exp a + ?x mod 2"
    by (simp add: sf_exp_eq)
  have b: "bit a (?M - 1) \<longleftrightarrow> ?x mod 2 = 1"
    using bit_uint_iff [of a "?M - 1"] bit_imp_le_length [of a "?M - 1"]
    by (auto simp: bit_iff_odd [of "uint a"] odd_iff_mod_2_eq_one)
  have "2 * k + x mod 2 = 2 * l \<longleftrightarrow> k = l \<and> x mod 2 \<noteq> 1" for k l x :: int by presburger
  then show ?thesis unfolding issignan_sf_def isnan_sf_def Let_def e b by auto
qed

lemma qnan_bit:
  assumes "sf_format TYPE('a::len)"
  shows "sf_mant (a :: 'a word) AND QNAN_MASK \<noteq> 0 \<longleftrightarrow> bit a (MANT_SIZE TYPE('a) - 1)"
proof -
  let ?M = "MANT_SIZE TYPE('a)"
  have M: "?M - 1 < ?M" "?M < LENGTH('a)" using assms by (auto simp: sf_format_def MANT_SIZE_def)
  then have "sf_mant a AND QNAN_MASK \<noteq> 0 \<longleftrightarrow> bit (sf_mant a) (?M - 1)"
    by (auto simp: QNAN_MASK_def push_bit_of_1 and_exp_eq_0_iff_not_bit)
  also have "\<dots> \<longleftrightarrow> bit a (?M - 1)"
    using M by (simp add: sf_mant_def MANT_MASK_eq_mask bit_and_iff bit_mask_iff)
  finally show ?thesis .
qed

lemma sf_scaled_sign:
  "sf_scaled a = 0 \<longleftrightarrow> sf_exp a = 0 \<and> sf_mant a = 0" "sf_scaled a < 0 \<longleftrightarrow> sf_sign a \<and> sf_scaled a \<noteq> 0"
  for a :: "'a::len word"
proof -
  have "sf_mag a = 0 \<longleftrightarrow> sf_exp a = 0 \<and> sf_mant a = 0"
    using uint_sf_mant_range(1) [of a] zero_less_power [of "2 :: int" "MANT_SIZE TYPE('a)"]
    by (auto simp: sf_mag_def uint_0_iff simp del: zero_less_power)
      (metis add_nonneg_eq_0_iff less_irrefl less_imp_le uint_ge_0)
  then show "sf_scaled a = 0 \<longleftrightarrow> sf_exp a = 0 \<and> sf_mant a = 0" by (simp add: sf_scaled_def)
  show "sf_scaled a < 0 \<longleftrightarrow> sf_sign a \<and> sf_scaled a \<noteq> 0"
    using sf_mag_nonneg [of a] by (auto simp: sf_scaled_def)
qed

text \<open>
  \<open>fclass_sf\<close> returns exactly one of the ten class bits: 8 and 9 for signalling and quiet
  NaNs, 0 to 2 for negative numbers, 3 and 4 for the zeros, 5 to 7 for positive ones.
\<close>

theorem fclass_sf_partition:
  assumes "sf_format TYPE('a::len)"
  shows "\<exists>k < 10. fclass_sf (a :: 'a word) = push_bit k 1 \<and>
    (isnan_sf a \<longleftrightarrow> k = 8 \<or> k = 9) \<and> (issignan_sf a \<longleftrightarrow> k = 8) \<and>
    (k < 8 \<longrightarrow> (sf_scaled a < 0 \<longleftrightarrow> k < 3) \<and> (sf_scaled a = 0 \<longleftrightarrow> k = 3 \<or> k = 4))"
proof -
  define k :: nat where "k = (if sf_exp a = EXP_MASK TYPE('a) then
      if sf_mant a \<noteq> 0 then if bit a (MANT_SIZE TYPE('a) - 1) then 9 else 8 else if sf_sign a then 0 else 7
    else if sf_exp a = 0 then
      if sf_mant a = 0 then if sf_sign a then 3 else 4 else if sf_sign a then 2 else 5
    else if sf_sign a then 1 else 6)"
  have "EXP_MASK TYPE('a) \<noteq> 0" using assms by (auto simp: sf_format_def EXP_MASK_def EXP_SIZE_def)
  then show ?thesis
    by (intro exI [of _ k])
      (auto simp: k_def fclass_sf_def Let_def qnan_bit [OF assms] issignan_iff [OF assms]
        isnan_sf_def sf_scaled_sign)
qed

theorem fclass_sf_partition_witness:
  "sf_format TYPE(32) \<and> (\<exists>k < 10. fclass_sf (0x7fc00000 :: u32) = push_bit k 1 \<and>
    (isnan_sf (0x7fc00000 :: u32) \<longleftrightarrow> k = 8 \<or> k = 9))"
  using fclass_sf_partition [of "0x7fc00000 :: u32"] by auto

text \<open>
  Packing and unpacking are inverse: a float is rebuilt from its three fields, and the fields
  of a packed float are the ones given.
\<close>

lemma mask_bound: "uint (mask k :: 'a::len word) \<le> 2 ^ k - 1"
  using pos_mod_bound [of "2 ^ k" "uint (- 1 :: 'a word)"]
  by (simp add: uint_take_bit flip: take_bit_minus_one_eq_mask)

theorem pack_unpack_roundtrip:
  assumes "sf_format TYPE('a::len)" and "0 \<le> e" and "e \<le> EXP_MASK TYPE('a)" and "m \<le> MANT_MASK"
  shows "unpack_sf (pack_sf s e m :: 'a word) = (s, e, m) \<and>
    (case unpack_sf (a :: 'a word) of (s, e, m) \<Rightarrow> pack_sf s e m) = a"
proof
  have "uint m \<le> 2 ^ MANT_SIZE TYPE('a) - 1"
    using assms(4) order_trans [OF _ mask_bound] by (simp add: word_le_def MANT_MASK_eq_mask)
  then have "uint (sf_mant m) = uint m" by (simp add: uint_sf_mant mod_pos_pos_trivial)
  then have "sf_mant m = m" by (rule word_uint_eqI)
  then show "unpack_sf (pack_sf s e m :: 'a word) = (s, e, m)"
    by (simp add: unpack_sf_def sf_fields_pack_sf [OF assms(1-3)])
  show "(case unpack_sf a of (s, e, m) \<Rightarrow> pack_sf s e m) = a"
    by (simp add: unpack_sf_def pack_unpack_sf [OF assms(1)])
qed

theorem pack_unpack_roundtrip_witness:
  "sf_format TYPE(32) \<and> unpack_sf (pack_sf True 127 5 :: u32) = (True, 127, 5)"
  using pack_unpack_roundtrip [of 127 "5 :: u32" True] by (simp add: MANT_MASK_def)

section \<open>Double-word arithmetic\<close>

text \<open>
  The multiplication on halves, used where no double-width type exists, gives the same high
  and low words as the double-width multiplication, and both are the exact product.
\<close>

theorem mul_u_exact:
  assumes "sf_format TYPE('a::len)"
  shows "mul_u_half a b = mul_u_long a (b :: 'a word) \<and> wide (mul_u a b) = uint a * uint b"
  using mul_u_half_eq_long [OF assms] wide_mul_u [OF assms] by simp

theorem mul_u_exact_witness:
  "sf_format TYPE(32) \<and> mul_u_half (0xffffffff :: u32) 0xffffffff = mul_u_long 0xffffffff 0xffffffff"
  using mul_u_exact [of "0xffffffff :: u32" "0xffffffff"] by simp

text \<open>
  The bit-by-bit division returns, for a dividend whose high word is below the divisor, the
  quotient and remainder of the double word; otherwise its assertion fails.
\<close>

theorem divrem_u_bits_exact:
  "divrem_u_bits a1 a0 (b :: 'a::len word) =
     (if a1 < b then Some (word_of_int (wide (a1, a0) div uint b), word_of_int (wide (a1, a0) mod uint b))
      else None)"
  by (simp add: divrem_u_bits_correct) (simp add: divrem_u_bits_def)

section \<open>Totality and square root\<close>

text \<open>
  C40. The assertions of the arithmetic never fail: on single and double precision every
  operation with a rounding mode returns a result for all operands, flags and modes.
\<close>

theorem fp_ops_return:
  assumes "sf_format TYPE('a::len)" and "LENGTH('a) \<noteq> 128"
  shows "(\<exists>r. add_sf a (b :: 'a word) rm fl = Some r) \<and> (\<exists>r. sub_sf a b rm fl = Some r) \<and>
    (\<exists>r. mul_sf a b rm fl = Some r) \<and> (\<exists>r. fma_sf a b c rm fl = Some r) \<and>
    (\<exists>r. div_sf a b rm fl = Some r) \<and> (\<exists>r. sqrt_sf a rm fl = Some r) \<and>
    (\<exists>r. (internal_cvt_i_sf (x :: 'i::len word) rm fl u :: ('a word \<times> u32) option) = Some r)"
  by (intro conjI add_sf_total sub_sf_total mul_sf_total fma_sf_total div_sf_total sqrt_sf_total
      cvt_int_sf_total assms)

theorem fp_ops_return_witness:
  "sf_format TYPE(64) \<and> (\<exists>r. fma_sf (0x7fefffffffffffff :: u64) 1 0x8000000000000001 RM_RUP 0 = Some r) \<and>
    (\<exists>r. sqrt_sf (1 :: u64) RM_RNE 0 = Some r)"
  using fp_ops_return [of "0x7fefffffffffffff :: u64" 1 RM_RUP 0 "0x8000000000000001" "1 :: u64" False]
    fp_ops_return [of "1 :: u64" 1 RM_RNE 0 1 "1 :: u64" False] by simp

text \<open>
  The integer square root under \<open>sqrt_sf\<close>: for a double word with one half zero, which is
  what \<open>sqrt_sf\<close> passes, Newton's iteration returns the largest integer whose square does not
  exceed it, and reports whether the root is inexact.
\<close>

theorem sqrtrem_u_floor:
  assumes "4 \<le> LENGTH('a::len)" and "ah \<noteq> 0 \<or> al \<noteq> (0 :: 'a word)" and "ah = 0 \<or> al = 0"
    and "sqrtrem_u_long ah al = (inexact, s)"
  shows "uint s * uint s \<le> wide (ah, al) \<and> wide (ah, al) < (uint s + 1) * (uint s + 1) \<and>
    (inexact \<longleftrightarrow> uint s * uint s \<noteq> wide (ah, al))"
  using sqrtrem_u_long_floor [OF assms] by blast

theorem sqrtrem_u_floor_witness:
  "\<exists>inexact s. sqrtrem_u_long (0 :: u32) 10 = (inexact, s) \<and> uint s * uint s \<le> 10 \<and> 10 < (uint s + 1) * (uint s + 1)"
proof -
  obtain i s where "sqrtrem_u_long (0 :: u32) 10 = (i, s)" by fastforce
  then show ?thesis using sqrtrem_u_floor [of "0 :: u32" 10 i s] by (auto simp: wide_def)
qed

text \<open>
  With both halves non-zero the starting point may lie below the root, contrary to its
  comment, and the iteration stops too early: here the double word is \<open>2 ^ 33 - 1\<close>.
\<close>

theorem sqrtrem_u_low_word:
  "sqrtrem_u_long (1 :: u32) 0xffffffff = (True, 0x10000) \<and>
    (0x10001 :: int) * 0x10001 < wide (1 :: u32, 0xffffffff)"
  by (simp add: sqrtrem_u_long_def sqrt_l_def clz_def sqrt_newton.simps wide_def)

end
