(* ===== verification/Riscv_PMP.thy ===== *)
theory Riscv_PMP
  imports Riscv_Api Softfp_Lemmas
begin

text \<open>
  Physical memory protection: the table of ranges the simulator keeps unpacked is what the CSRs
  say, so a check against the table is the check the architecture prescribes; locked entries do
  not change.
\<close>

section \<open>The architectural check\<close>

text \<open>Entry \<open>i\<close> is active and its range meets the bytes \<open>paddr .. paddr + sz - 1\<close>.\<close>

definition pmp_matches :: "'z RISCVCPUState_scheme \<Rightarrow> u64 \<Rightarrow> u64 \<Rightarrow> nat \<Rightarrow> bool" where
  "pmp_matches s paddr sz i =
     (case pmp_entry s i of
        None \<Rightarrow> False
      | Some r \<Rightarrow> pmp_lo r \<le> paddr + sz - 1 \<and> paddr < pmp_hi r)"

text \<open>The lowest-numbered matching entry of the 16 decides.\<close>

definition pmp_spec :: "'z RISCVCPUState_scheme \<Rightarrow> u8 \<Rightarrow> u64 \<Rightarrow> u64 \<Rightarrow> u8 \<Rightarrow> bool" where
  "pmp_spec s prv paddr sz perm =
     (case find (pmp_matches s paddr sz) [0..<16] of
        None \<Rightarrow> prv = PRV_M
      | Some i \<Rightarrow>
          if prv < PRV_M \<or> pmpcfg_byte s i AND PMPCFG_L \<noteq> 0
          then perm AND pmpcfg_byte s i = perm else True)"

section \<open>Unpacking\<close>

definition active_entries :: "'z RISCVCPUState_scheme \<Rightarrow> nat \<Rightarrow> nat list" where
  "active_entries s k = filter (\<lambda>i. pmp_entry s i \<noteq> None) [0..<k]"

text \<open>The unpacked table lists the first \<open>k\<close> entries of the CSRs.\<close>

definition unpacked_upto :: "nat \<Rightarrow> 'z RISCVCPUState_scheme \<Rightarrow> bool" where
  "unpacked_upto k s \<longleftrightarrow>
     pmp_n s = length (active_entries s k) \<and>
     (\<forall>n < pmp_n s. Some (pmp s n) = pmp_entry s (active_entries s k ! n) \<and>
        pmpcfg s n = pmpcfg_byte s (active_entries s k ! n))"

abbreviation pmp_unpacked :: "'z RISCVCPUState_scheme \<Rightarrow> bool" where
  "pmp_unpacked s \<equiv> unpacked_upto 16 s"

text \<open>The CSR side depends on the two register files only.\<close>

lemma pmp_entry_cong:
  "csr_pmpcfg s = csr_pmpcfg t \<Longrightarrow> csr_pmpaddr s = csr_pmpaddr t \<Longrightarrow>
     pmp_entry s i = pmp_entry t i \<and> pmpcfg_byte s i = pmpcfg_byte t i \<and> active_entries s k = active_entries t k"
  by (simp only: pmp_entry_def pmpcfg_byte_def active_entries_def simp_thms)

lemma unpacked_upto_cong:
  assumes "csr_pmpcfg s = csr_pmpcfg t" "csr_pmpaddr s = csr_pmpaddr t"
    "pmp_n s = pmp_n t" "pmp s = pmp t" "pmpcfg s = pmpcfg t"
  shows "unpacked_upto k s = unpacked_upto k t"
  using pmp_entry_cong [OF assms(1,2)] assms(3-5) by (simp add: unpacked_upto_def)

lemma unpack_step_csrs [simp]:
  "csr_pmpcfg (unpack_step i s) = csr_pmpcfg s" "csr_pmpaddr (unpack_step i s) = csr_pmpaddr s"
  by (simp_all add: unpack_step_def split: option.split)

lemma unpacked_step:
  assumes "unpacked_upto i s"
  shows "unpacked_upto (Suc i) (unpack_step i s)"
proof (cases "pmp_entry s i")
  case None
  then show ?thesis
    using assms by (simp add: unpacked_upto_def unpack_step_def active_entries_def)
next
  case (Some r)
  let ?t = "unpack_step i s"
  note c = pmp_entry_cong [of ?t s, simplified]
  have act: "active_entries ?t (Suc i) = active_entries s i @ [i]"
    using Some c by (simp add: active_entries_def)
  have t: "?t = s\<lparr>pmpcfg := (pmpcfg s)(pmp_n s := pmpcfg_byte s i), pmp := (pmp s)(pmp_n s := r),
      pmp_n := pmp_n s + 1\<rparr>"
    using Some by (simp add: unpack_step_def)
  have n: "pmp_n s = length (active_entries s i)" using assms by (simp add: unpacked_upto_def)
  show ?thesis
    unfolding unpacked_upto_def act
  proof (intro conjI allI impI)
    show "pmp_n ?t = length (active_entries s i @ [i])" by (simp add: t n)
    fix m assume "m < pmp_n ?t"
    then consider "m < pmp_n s" | "m = pmp_n s" by (auto simp: t less_Suc_eq)
    then show "Some (pmp ?t m) = pmp_entry ?t ((active_entries s i @ [i]) ! m)"
      and "pmpcfg ?t m = pmpcfg_byte ?t ((active_entries s i @ [i]) ! m)"
      using assms Some n c
      by (cases; simp add: t nth_append unpacked_upto_def)+
  qed
qed

lemma unpacked_fold:
  assumes "pmp_n s = 0"
  shows "unpacked_upto k (fold unpack_step [0..<k] s)"
proof (induction k)
  case 0
  from assms show ?case by (simp add: unpacked_upto_def active_entries_def)
qed (simp add: unpacked_step)

lemma pmp_unpacked_unpack: "pmp_unpacked (unpack_pmpaddrs s)"
  unfolding unpack_pmpaddrs_def tlb_flush_all_def tlb_init_def
  by (subst unpacked_upto_cong [where t = "fold unpack_step [0..<16] (s\<lparr>pmp_n := 0\<rparr>)"])
    (simp_all add: unpacked_fold del: upt_rec_numeral)

section \<open>The table check is the architectural check\<close>

lemma pmp_scan_map:
  assumes "\<forall>n \<in> set ns. Some (pmp s n) = pmp_entry s (f n) \<and> pmpcfg s n = pmpcfg_byte s (f n)"
  shows "pmp_scan s prv paddr sz perm ns =
    (case find (pmp_matches s paddr sz) (map f ns) of
        None \<Rightarrow> prv = PRV_M
      | Some i \<Rightarrow>
          if prv < PRV_M \<or> pmpcfg_byte s i AND PMPCFG_L \<noteq> 0
          then perm AND pmpcfg_byte s i = perm else True)"
  using assms
proof (induction ns)
  case (Cons n ns)
  then have "pmp_entry s (f n) = Some (pmp s n)" and c: "pmpcfg_byte s (f n) = pmpcfg s n"
    by (metis list.set_intros(1))+
  then have m: "pmp_matches s paddr sz (f n) \<longleftrightarrow>
      pmp_lo (pmp s n) \<le> paddr + sz - 1 \<and> paddr < pmp_hi (pmp s n)"
    by (simp add: pmp_matches_def)
  have IH: "pmp_scan s prv paddr sz perm ns =
    (case find (pmp_matches s paddr sz) (map f ns) of
        None \<Rightarrow> prv = PRV_M
      | Some i \<Rightarrow>
          if prv < PRV_M \<or> pmpcfg_byte s i AND PMPCFG_L \<noteq> 0
          then perm AND pmpcfg_byte s i = perm else True)"
    using Cons.prems by (intro Cons.IH) simp
  show ?case
  proof (cases "pmp_matches s paddr sz (f n)")
    case True
    then show ?thesis using m by (simp add: c)
  next
    case False
    then show ?thesis using m IH by (simp only: pmp_scan.simps list.map find.simps if_False)
  qed
qed simp

lemma find_filter:
  "(\<forall>x \<in> set xs. P x \<longrightarrow> Q x) \<Longrightarrow> find P (filter Q xs) = find P xs"
  by (induction xs) auto

lemma pmp_scan_eq_spec:
  assumes "pmp_unpacked s"
  shows "pmp_scan s prv paddr sz perm [0..<pmp_n s] = pmp_spec s prv paddr sz perm"
proof -
  let ?a = "active_entries s 16"
  have n: "pmp_n s = length ?a" using assms by (simp add: unpacked_upto_def)
  have "map (\<lambda>n. ?a ! n) [0..<pmp_n s] = ?a" unfolding n by (rule map_nth)
  moreover have "find (pmp_matches s paddr sz) ?a = find (pmp_matches s paddr sz) [0..<16]"
    unfolding active_entries_def
    by (rule find_filter) (auto simp: pmp_matches_def split: option.splits)
  moreover have "pmp_scan s prv paddr sz perm [0..<pmp_n s] =
    (case find (pmp_matches s paddr sz) (map (\<lambda>n. ?a ! n) [0..<pmp_n s]) of
        None \<Rightarrow> prv = PRV_M
      | Some i \<Rightarrow>
          if prv < PRV_M \<or> pmpcfg_byte s i AND PMPCFG_L \<noteq> 0
          then perm AND pmpcfg_byte s i = perm else True)"
    using assms by (intro pmp_scan_map) (auto simp: unpacked_upto_def)
  ultimately show ?thesis by (simp only: pmp_spec_def)
qed

section \<open>Writing the registers\<close>

lemma unpack_fold_csrs [simp]:
  "csr_pmpcfg (fold unpack_step is s) = csr_pmpcfg s"
  "csr_pmpaddr (fold unpack_step is s) = csr_pmpaddr s"
  by (induction "is" arbitrary: s) simp_all

lemma unpack_pmpaddrs_csrs [simp]:
  "csr_pmpcfg (unpack_pmpaddrs s) = csr_pmpcfg s" "csr_pmpaddr (unpack_pmpaddrs s) = csr_pmpaddr s"
  unfolding unpack_pmpaddrs_def tlb_flush_all_def tlb_init_def
  by (simp_all del: upt_rec_numeral)

lemma bit_or_fold:
  "bit (fold (\<lambda>i r. r OR push_bit (i * 8) (B i)) [0..<k] 0 :: u64) n \<longleftrightarrow>
     (\<exists>i<k. i * 8 \<le> n \<and> n < 64 \<and> bit (B i) (n - i * 8))"
  by (induction k) (auto simp: bit_or_iff bit_push_bit_iff less_Suc_eq)

text \<open>Byte \<open>i\<close> of a word.\<close>

definition byte_of :: "u64 \<Rightarrow> nat \<Rightarrow> u8" where
  "byte_of w i = ucast (drop_bit (i * 8) w)"

lemma bit_byte_of: "bit (byte_of w i) n \<longleftrightarrow> n < 8 \<and> bit w (i * 8 + n)"
  by (auto simp: byte_of_def bit_unsigned_iff bit_drop_bit_eq)

lemma bit_255: "bit (255 :: u64) n \<longleftrightarrow> n < 8"
  using bit_mask_iff [of 8 n, where 'a = u64] by (auto simp: mask_eq_exp_minus_1)

lemma bit_0x60: "bit (0x60 :: u64) n \<longleftrightarrow> n = 5 \<or> n = 6" "bit (0x60 :: u8) n \<longleftrightarrow> n = 5 \<or> n = 6"
proof -
  have "(0x60 :: u64) = 2 ^ 5 OR 2 ^ 6" "(0x60 :: u8) = 2 ^ 5 OR 2 ^ 6" by simp_all
  then show "bit (0x60 :: u64) n \<longleftrightarrow> n = 5 \<or> n = 6" "bit (0x60 :: u8) n \<longleftrightarrow> n = 5 \<or> n = 6"
    by (auto simp only: bit_or_iff bit_exp_iff) (simp_all add: bit_exp_iff)
qed

lemma lock_bit: "(x :: u64) AND 0x80 = 0 \<longleftrightarrow> \<not> bit x 7" "(y :: u8) AND 0x80 = 0 \<longleftrightarrow> \<not> bit y 7"
  using and_exp_eq_0_iff_not_bit [of x 7] and_exp_eq_0_iff_not_bit [of y 7] by simp_all

lemma bit_pmpcfg_merge_byte:
  "bit (pmpcfg_merge_byte orig v i) n \<longleftrightarrow> n < 8 \<and> n \<noteq> 5 \<and> n \<noteq> 6 \<and>
     (if bit orig (i * 8 + 7) then bit orig (i * 8 + n) else bit v (i * 8 + n))"
proof -
  have l: "(drop_bit (i * 8) orig AND 255) AND 0x80 = 0 \<longleftrightarrow> \<not> bit orig (i * 8 + 7)"
    unfolding lock_bit by (simp only: bit_and_iff bit_255 bit_drop_bit_eq o_apply) simp
  show ?thesis
    unfolding pmpcfg_merge_byte_def Let_def l
    by (cases "bit orig (i * 8 + 7)"; simp only: if_True if_False simp_thms bit_and_iff bit_255 bit_drop_bit_eq
      o_apply bit_not_iff bit_0x60; auto dest: bit_imp_le_length)
qed

lemma byte_of_pmpcfg_merge:
  assumes "i < 8"
  shows "byte_of (pmpcfg_merge orig v) i =
    (if bit (byte_of orig i) 7 then byte_of orig i else byte_of v i) AND NOT 0x60"
proof (rule bit_word_eqI)
  fix n assume "n < LENGTH(8)"
  then have n: "n < 8" by simp
  have one: "(\<exists>j<8. j * 8 \<le> i * 8 + n \<and> i * 8 + n < 64 \<and> bit (pmpcfg_merge_byte orig v j) (i * 8 + n - j * 8))
      \<longleftrightarrow> bit (pmpcfg_merge_byte orig v i) n"
  proof
    assume "\<exists>j<8. j * 8 \<le> i * 8 + n \<and> i * 8 + n < 64 \<and> bit (pmpcfg_merge_byte orig v j) (i * 8 + n - j * 8)"
    then obtain j where j: "j * 8 \<le> i * 8 + n" "bit (pmpcfg_merge_byte orig v j) (i * 8 + n - j * 8)"
      by blast
    then have "i * 8 + n - j * 8 < 8" by (simp only: bit_pmpcfg_merge_byte)
    with j(1) n have "j = i" by linarith
    with j(2) show "bit (pmpcfg_merge_byte orig v i) n" by simp
  next
    assume "bit (pmpcfg_merge_byte orig v i) n"
    moreover have "i * 8 + n < 64" using assms n by linarith
    ultimately show "\<exists>j<8. j * 8 \<le> i * 8 + n \<and> i * 8 + n < 64 \<and>
        bit (pmpcfg_merge_byte orig v j) (i * 8 + n - j * 8)"
      using assms by (intro exI [of _ i]) simp
  qed
  have b7: "bit (byte_of orig i) 7 \<longleftrightarrow> bit orig (i * 8 + 7)" by (simp add: bit_byte_of)
  have "bit (byte_of (pmpcfg_merge orig v) i) n \<longleftrightarrow> bit (pmpcfg_merge_byte orig v i) n"
    using n unfolding bit_byte_of pmpcfg_merge_def bit_or_fold one by simp
  also have "\<dots> \<longleftrightarrow> bit ((if bit (byte_of orig i) 7 then byte_of orig i else byte_of v i) AND NOT 0x60) n"
    unfolding b7 bit_pmpcfg_merge_byte bit_and_iff bit_not_iff bit_0x60
    using n by (auto simp: bit_byte_of)
  finally show "bit (byte_of (pmpcfg_merge orig v) i) n \<longleftrightarrow>
    bit ((if bit (byte_of orig i) 7 then byte_of orig i else byte_of v i) AND NOT 0x60) n"
    .
qed

section \<open>Locked entries\<close>

lemma pmpcfg_byte_low: "i < 8 \<Longrightarrow> pmpcfg_byte s i = byte_of (csr_pmpcfg s 0) i"
  by (simp add: pmpcfg_byte_def byte_of_def)

text \<open>The reserved bits of every configuration byte are clear.\<close>

definition pmp_res_clear :: "'z RISCVCPUState_scheme \<Rightarrow> bool" where
  "pmp_res_clear s \<longleftrightarrow> (\<forall>i<8. pmpcfg_byte s i AND PMPCFG_RES = 0)"

lemma and_not_self: "(x :: 'a::len word) AND m = 0 \<Longrightarrow> x AND NOT m = x"
  by (auto simp: bit_eq_iff bit_and_iff bit_not_iff)

lemma write_pmpcfg_byte:
  assumes "i < 8"
  shows "pmpcfg_byte (write_pmpcfg c v s) i =
    (if c = 0 then (if pmpcfg_byte s i AND PMPCFG_L \<noteq> 0 then pmpcfg_byte s i else byte_of v i) AND NOT PMPCFG_RES
     else pmpcfg_byte s i)"
  using assms
  by (simp add: write_pmpcfg_def pmpcfg_byte_low byte_of_pmpcfg_merge lock_bit)

lemma write_pmpcfg_addr [simp]: "csr_pmpaddr (write_pmpcfg c v s) = csr_pmpaddr s"
  by (simp add: write_pmpcfg_def)

lemma write_pmpaddr_cfg [simp]: "csr_pmpcfg (write_pmpaddr i v s) = csr_pmpcfg s"
  by (simp add: write_pmpaddr_def Let_def)

lemma cfg_byte_bits:
  assumes "i < 8"
  shows "drop_bit (i * 8) (csr_pmpcfg s 0) AND 0x80 \<noteq> 0 \<longleftrightarrow> pmpcfg_byte s i AND PMPCFG_L \<noteq> 0"
  using assms by (simp add: lock_bit pmpcfg_byte_low bit_byte_of bit_drop_bit_eq)

lemma bit_two_power: "bit (2 ^ k :: 'a::len word) n \<longleftrightarrow> k < LENGTH('a) \<and> n = k"
  by (auto simp: bit_exp_iff)

lemma bit_0x18: "bit (0x18 :: u64) n \<longleftrightarrow> n = 3 \<or> n = 4" "bit (0x18 :: u8) n \<longleftrightarrow> n = 3 \<or> n = 4"
  "bit (0x8 :: u64) n \<longleftrightarrow> n = 3" "bit (0x8 :: u8) n \<longleftrightarrow> n = 3"
  using bit_or_iff [of "2 ^ 3 :: u64" "2 ^ 4" n] bit_or_iff [of "2 ^ 3 :: u8" "2 ^ 4" n]
    bit_two_power [of 3 n, where 'a = 64] bit_two_power [of 3 n, where 'a = 8]
    bit_two_power [of 4 n, where 'a = 64] bit_two_power [of 4 n, where 'a = 8]
  by simp_all

lemma and_two_bits:
  fixes x m k :: "'a::len word"
  assumes "\<And>n. bit m n \<longleftrightarrow> n = i \<or> n = j" and "\<And>n. bit k n \<longleftrightarrow> n = i" and "i \<noteq> j"
  shows "x AND m = k \<longleftrightarrow> bit x i \<and> \<not> bit x j"
proof
  assume "x AND m = k"
  then have "bit x n \<and> bit m n \<longleftrightarrow> bit k n" for n by (simp flip: bit_and_iff)
  from this [of i] this [of j] show "bit x i \<and> \<not> bit x j" using assms by simp
next
  assume "bit x i \<and> \<not> bit x j"
  then show "x AND m = k" using assms by (intro bit_word_eqI) (auto simp: bit_and_iff)
qed

lemma cfg_byte_tor:
  assumes "i < 8"
  shows "drop_bit (i * 8) (csr_pmpcfg s 0) AND 0x18 = 0x8 \<longleftrightarrow> pmpcfg_byte s i AND PMPCFG_A_MASK = PMPCFG_A_TOR"
  using assms and_two_bits [OF bit_0x18(1,3), of "drop_bit (i * 8) (csr_pmpcfg s 0)"]
    and_two_bits [OF bit_0x18(2,4), of "pmpcfg_byte s i"]
  by (simp add: pmpcfg_byte_low bit_byte_of bit_drop_bit_eq)

lemma write_pmpaddr_addr:
  "csr_pmpaddr (write_pmpaddr j v s) i =
    (if i = j \<and> j < 8 \<and> pmpcfg_byte s j AND PMPCFG_L = 0 \<and>
       \<not> (j < 7 \<and> pmpcfg_byte s (j + 1) AND PMPCFG_A_MASK = PMPCFG_A_TOR \<and> pmpcfg_byte s (j + 1) AND PMPCFG_L \<noteq> 0)
     then v AND PMPADDR_MASK else csr_pmpaddr s i)"
proof (cases "j < 8")
  case True
  then have j: "j div 8 = 0" by simp
  have nxt: "drop_bit 8 (drop_bit (j * 8) w) = drop_bit ((j + 1) * 8) w" for w :: u64
    by (simp add: add.commute)
  have "\<not> (drop_bit 64 (csr_pmpcfg s 0) AND 0x80 \<noteq> 0)" by (simp add: lock_bit bit_drop_bit_eq)
  then show ?thesis
    using True cfg_byte_bits [of j s] cfg_byte_bits [of "j + 1" s] cfg_byte_tor [of "j + 1" s]
    unfolding write_pmpaddr_def Let_def j nxt
    by (cases "j = 7") auto
qed (simp add: write_pmpaddr_def)

lemmas csr_write_defs = csr_write_switch_def csr_write_s_def csr_write_m_def csr_write_dbg_def Let_def
  set_mstatus_def set_frm_def tlb_flush_all_def tlb_init_def write_tdata1_def write_tdata2_def write_dcsr_def

lemma csr_write_pmpcfg:
  "\<not> (csr = 0x3a0 \<or> csr = 0x3a2) \<Longrightarrow> csr_pmpcfg (snd (csr_write_switch csr v s)) = csr_pmpcfg s"
  by (simp add: csr_write_defs if_distrib [of snd] if_distrib [of csr_pmpcfg] split del: if_split cong del: if_weak_cong)

lemma csr_write_pmpaddr:
  "\<not> (0x3b0 \<le> csr \<and> csr \<le> 0x3bf) \<Longrightarrow> csr_pmpaddr (snd (csr_write_switch csr v s)) = csr_pmpaddr s"
  by (simp add: csr_write_defs if_distrib [of snd] if_distrib [of csr_pmpaddr]
    split del: if_split cong del: if_weak_cong) auto

lemma csr_write_switch_pmpcfg:
  "csr = 0x3a0 \<or> csr = 0x3a2 \<Longrightarrow> csr_write_switch csr v s = (0, write_pmpcfg (unat (csr - 0x3a0)) v s)"
  by (auto simp: csr_write_switch_def csr_write_m_def)

lemma csr_write_switch_pmpaddr:
  assumes "0x3b0 \<le> csr" "csr \<le> (0x3bf :: u32)"
  shows "csr_write_switch csr v s = (0, write_pmpaddr (unat (csr - 0x3b0)) v s)"
proof -
  have "\<not> csr < 0x300" "\<not> (0x7a0 \<le> csr \<and> csr \<le> 0x7b2)" "\<not> (0x323 \<le> csr \<and> csr \<le> 0x33f)"
    using assms by (auto simp: word_le_nat_alt word_less_nat_alt)
  moreover have "csr \<notin> {0x300, 0x301, 0x302, 0x303, 0x304, 0x305, 0x306, 0x320, 0x340, 0x341, 0x342, 0x343,
      0x344, 0x3a0, 0x3a2}"
    using assms by auto
  ultimately show ?thesis using assms by (auto simp: csr_write_switch_def csr_write_m_def)
qed

lemma pmp_entry_eqI:
  assumes "pmpcfg_byte t i = pmpcfg_byte s i" and "csr_pmpaddr t i = csr_pmpaddr s i"
    and "i \<noteq> 0 \<Longrightarrow> pmpcfg_byte s i AND PMPCFG_A_MASK = PMPCFG_A_TOR \<Longrightarrow>
      csr_pmpaddr t (i - 1) = csr_pmpaddr s (i - 1)"
  shows "pmp_entry t i = pmp_entry s i"
  using assms by (auto simp: pmp_entry_def Let_def)

lemma locked_byte_kept:
  assumes "i < 8" and "pmp_res_clear s" and "pmpcfg_byte s i AND PMPCFG_L \<noteq> 0"
  shows "pmpcfg_byte (snd (csr_write_switch csr v s)) i = pmpcfg_byte s i"
proof (cases "csr = 0x3a0 \<or> csr = 0x3a2")
  case True
  have "pmpcfg_byte s i AND NOT PMPCFG_RES = pmpcfg_byte s i"
    using assms(1,2) by (intro and_not_self) (simp add: pmp_res_clear_def)
  then show ?thesis
    unfolding csr_write_switch_pmpcfg [OF True] snd_conv write_pmpcfg_byte [OF assms(1)]
    using assms(3) by simp
next
  case False
  then show ?thesis using csr_write_pmpcfg [OF False, of v s] by (simp add: pmpcfg_byte_def)
qed

lemma locked_addr_kept:
  assumes "i < 8" and "pmpcfg_byte s i AND PMPCFG_L \<noteq> 0"
  shows "csr_pmpaddr (snd (csr_write_switch csr v s)) i = csr_pmpaddr s i"
    and "i \<noteq> 0 \<Longrightarrow> pmpcfg_byte s i AND PMPCFG_A_MASK = PMPCFG_A_TOR \<Longrightarrow>
      csr_pmpaddr (snd (csr_write_switch csr v s)) (i - 1) = csr_pmpaddr s (i - 1)"
proof -
  have "csr_pmpaddr (snd (csr_write_switch csr v s)) k = csr_pmpaddr s k"
    if "k = i \<or> i \<noteq> 0 \<and> pmpcfg_byte s i AND PMPCFG_A_MASK = PMPCFG_A_TOR \<and> k = i - 1" for k
  proof (cases "0x3b0 \<le> csr \<and> csr \<le> 0x3bf")
    case True
    then have sw: "csr_write_switch csr v s = (0, write_pmpaddr (unat (csr - 0x3b0)) v s)"
      using csr_write_switch_pmpaddr by blast
    show ?thesis
      unfolding sw snd_conv write_pmpaddr_addr using that assms by (auto split: if_split)
  next
    case False
    then show ?thesis by (simp only: csr_write_pmpaddr [OF False])
  qed
  then show "csr_pmpaddr (snd (csr_write_switch csr v s)) i = csr_pmpaddr s i"
    and "i \<noteq> 0 \<Longrightarrow> pmpcfg_byte s i AND PMPCFG_A_MASK = PMPCFG_A_TOR \<Longrightarrow>
      csr_pmpaddr (snd (csr_write_switch csr v s)) (i - 1) = csr_pmpaddr s (i - 1)"
    by blast+
qed

lemma locked_entry_kept:
  assumes "i < 8" and "pmp_res_clear s" and "pmpcfg_byte s i AND PMPCFG_L \<noteq> 0"
  shows "pmp_entry (snd (csr_write_switch csr v s)) i = pmp_entry s i"
  using locked_byte_kept [OF assms] locked_addr_kept [OF assms(1,3)] by (rule pmp_entry_eqI)

lemma pmp_res_clear_csr_write:
  assumes "pmp_res_clear s"
  shows "pmp_res_clear (snd (csr_write_switch csr v s))"
proof (cases "csr = 0x3a0 \<or> csr = 0x3a2")
  case True
  have "(x AND NOT m) AND m = 0" for x m :: u8
    by (simp add: bit_eq_iff bit_and_iff bit_not_iff)
  then show ?thesis
    using assms unfolding csr_write_switch_pmpcfg [OF True] snd_conv pmp_res_clear_def
    by (auto simp only: write_pmpcfg_byte split: if_split)
next
  case False
  from assms show ?thesis
    using csr_write_pmpcfg [OF False, of v s] by (simp add: pmpcfg_byte_def pmp_res_clear_def)
qed

end
