(* ===== verification/Riscv_Trap_Lemmas.thy ===== *)
theory Riscv_Trap_Lemmas
  imports Riscv_Api Softfp_Lemmas
begin

text \<open>
  Traps: returning from a trap undoes taking it, and the interrupt chosen is a pending one of the
  highest priority.
\<close>

section \<open>Bits of the status register\<close>

named_theorems mstatus_bits \<open>positions of the fields of mstatus\<close>

lemma bit_field_masks [mstatus_bits]:
  "bit (MSTATUS_SIE :: u64) n \<longleftrightarrow> n = 1" "bit (MSTATUS_MIE :: u64) n \<longleftrightarrow> n = 3"
  "bit (MSTATUS_SPIE :: u64) n \<longleftrightarrow> n = 5" "bit (MSTATUS_MPIE :: u64) n \<longleftrightarrow> n = 7"
  "bit (MSTATUS_SPP :: u64) n \<longleftrightarrow> n = 8" "bit (MSTATUS_MPP :: u64) n \<longleftrightarrow> n = 11 \<or> n = 12"
proof -
  have p: "bit (2 ^ k :: u64) n \<longleftrightarrow> k < 64 \<and> n = k" for k n
    by (auto simp: bit_exp_iff)
  have "(0x1800 :: u64) = 2 ^ 11 OR 2 ^ 12" by simp
  then show "bit (0x1800 :: u64) n \<longleftrightarrow> n = 11 \<or> n = 12"
    by (simp only: bit_or_iff p) auto
  show "bit (0x2 :: u64) n \<longleftrightarrow> n = 1" "bit (0x8 :: u64) n \<longleftrightarrow> n = 3"
    "bit (0x20 :: u64) n \<longleftrightarrow> n = 5" "bit (0x80 :: u64) n \<longleftrightarrow> n = 7" "bit (0x100 :: u64) n \<longleftrightarrow> n = 8"
    using p [of 1 n] p [of 3 n] p [of 5 n] p [of 7 n] p [of 8 n] by simp_all
qed

lemma and_pow2_ne_0: "k < LENGTH('a) \<Longrightarrow> (x :: 'a::len word) AND 2 ^ k \<noteq> 0 \<longleftrightarrow> bit x k"
  by (simp add: and_exp_eq_0_iff_not_bit)

lemma mie_sie_bits [mstatus_bits]:
  "(x :: u64) AND MSTATUS_MIE \<noteq> 0 \<longleftrightarrow> bit x 3" "x AND MSTATUS_SIE \<noteq> 0 \<longleftrightarrow> bit x 1"
  using and_pow2_ne_0 [of 3 x] and_pow2_ne_0 [of 1 x] by simp_all

lemma bit_b2w [mstatus_bits]: "bit (b2w b :: 'a::len word) n \<longleftrightarrow> b \<and> n = 0"
  by (auto simp: b2w_def bit_1_iff)

lemma priv_bits: "(p :: u8) \<le> 3 \<Longrightarrow> bit p n \<Longrightarrow> n \<le> 1"
proof -
  assume "p \<le> 3" "bit p n"
  then have "uint p < 2 ^ 2" by (simp add: word_le_def)
  with \<open>bit p n\<close> show "n \<le> 1"
    using bit_int_less_power [of "uint p" 2 n] bit_imp_le_length [OF \<open>bit p n\<close>]
    by (simp add: bit_uint_iff)
qed

lemma priv_le_1: "(p :: u8) \<le> 1 \<Longrightarrow> p = 0 \<or> p = 1"
  using word_unat_eq_iff [of p 0] word_unat_eq_iff [of p 1]
  by (auto simp: word_le_nat_alt le_Suc_eq)

lemmas bit_expand = bit_and_iff bit_or_iff bit_not_iff bit_push_bit_iff bit_drop_bit_eq
  bit_unsigned_iff o_apply

section \<open>Trap and return\<close>

lemma bit_trap_status_m:
  assumes "prv \<le> 3"
  shows "bit (trap_status_m st prv) n \<longleftrightarrow>
    (if n = 7 then bit st 3 else if n = 11 then bit prv 0 else if n = 12 then bit prv 1
     else n \<noteq> 3 \<and> bit st n)"
proof -
  have p: "bit prv k \<longleftrightarrow> k = 0 \<and> bit prv 0 \<or> k = 1 \<and> bit prv 1" for k
    using priv_bits [OF assms, of k] by (auto simp: le_Suc_eq)
  consider "n = 3" | "n = 7" | "n = 11" | "n = 12" | "n \<notin> {3, 7, 11, 12}" by auto
  then show ?thesis
    by cases (simp_all only: trap_status_m_def Let_def bit_expand mstatus_bits p [of "n - 11"],
      auto dest: bit_imp_le_length)
qed

lemma bit_trap_status_s:
  assumes "prv \<le> 1"
  shows "bit (trap_status_s st prv) n \<longleftrightarrow>
    (if n = 5 then bit st 1 else if n = 8 then bit prv 0 else n \<noteq> 1 \<and> bit st n)"
proof -
  have p: "bit prv k \<longleftrightarrow> k = 0 \<and> bit prv 0" for k
    using priv_le_1 [OF assms] by (auto simp: bit_1_iff)
  consider "n = 1" | "n = 5" | "n = 8" | "n \<notin> {1, 5, 8}" by auto
  then show ?thesis
    by cases (simp_all only: trap_status_s_def Let_def bit_expand mstatus_bits p [of "n - 8"],
      auto dest: bit_imp_le_length)
qed

lemma bit_ret_status_m:
  "bit (ret_status_m st) n \<longleftrightarrow> n = 7 \<or> (if n = 3 then bit st 7 else bit st n)"
  by (simp only: ret_status_m_def Let_def bit_expand mstatus_bits)
    (auto dest: bit_imp_le_length)

lemma bit_ret_status_s:
  "bit (ret_status_s st) n \<longleftrightarrow> n = 5 \<or> (if n = 1 then bit st 5 else bit st n)"
  by (simp only: ret_status_s_def Let_def bit_expand mstatus_bits)
    (auto dest: bit_imp_le_length)

lemma ret_trap_status_m:
  assumes "prv \<le> 3"
  shows "ret_status_m (trap_status_m st prv) AND NOT MSTATUS_MPP = (st AND NOT MSTATUS_MPP) OR MSTATUS_MPIE"
    and "status_mpp (ret_status_m (trap_status_m st prv)) = prv"
proof -
  show "ret_status_m (trap_status_m st prv) AND NOT MSTATUS_MPP = (st AND NOT MSTATUS_MPP) OR MSTATUS_MPIE"
  proof (rule bit_word_eqI)
    fix n assume "n < LENGTH(64)"
    then show "bit (ret_status_m (trap_status_m st prv) AND NOT MSTATUS_MPP) n \<longleftrightarrow>
        bit ((st AND NOT MSTATUS_MPP) OR MSTATUS_MPIE) n"
      by (simp only: bit_expand mstatus_bits bit_ret_status_m bit_trap_status_m [OF assms]) auto
  qed
  show "status_mpp (ret_status_m (trap_status_m st prv)) = prv"
  proof (rule bit_word_eqI)
    fix n assume "n < LENGTH(8)"
    have p: "bit prv n \<longleftrightarrow> n = 0 \<and> bit prv 0 \<or> n = 1 \<and> bit prv 1"
      using priv_bits [OF assms, of n] by (auto simp: le_Suc_eq)
    show "bit (status_mpp (ret_status_m (trap_status_m st prv))) n \<longleftrightarrow> bit prv n"
      unfolding p using \<open>n < LENGTH(8)\<close>
      by (simp only: status_mpp_def bit_expand mstatus_bits bit_ret_status_m bit_trap_status_m [OF assms])
        auto
  qed
qed

lemma ret_trap_status_s:
  assumes "prv \<le> 1"
  shows "ret_status_s (trap_status_s st prv) AND NOT MSTATUS_SPP = (st AND NOT MSTATUS_SPP) OR MSTATUS_SPIE"
    and "status_spp (ret_status_s (trap_status_s st prv)) = prv"
proof -
  show "ret_status_s (trap_status_s st prv) AND NOT MSTATUS_SPP = (st AND NOT MSTATUS_SPP) OR MSTATUS_SPIE"
  proof (rule bit_word_eqI)
    fix n assume "n < LENGTH(64)"
    then show "bit (ret_status_s (trap_status_s st prv) AND NOT MSTATUS_SPP) n \<longleftrightarrow>
        bit ((st AND NOT MSTATUS_SPP) OR MSTATUS_SPIE) n"
      by (simp only: bit_expand mstatus_bits bit_ret_status_s bit_trap_status_s [OF assms]) auto
  qed
  have p: "bit prv k \<longleftrightarrow> k = 0 \<and> bit prv 0" for k
    using priv_le_1 [OF assms] by (auto simp: bit_1_iff)
  show "status_spp (ret_status_s (trap_status_s st prv)) = prv"
  proof (rule bit_word_eqI)
    fix n assume "n < LENGTH(8)"
    then show "bit (status_spp (ret_status_s (trap_status_s st prv))) n \<longleftrightarrow> bit prv n"
      unfolding p [of n]
      by (simp only: status_spp_def bit_expand mstatus_bits bit_ret_status_s bit_trap_status_s [OF assms])
        auto
  qed
qed

lemmas trap_defs = raise_exception2_def trap_to_m_def trap_to_s_def handle_mret_def handle_sret_def
  set_priv_def tlb_flush_all_def tlb_init_def Let_def

lemma mret_after_trap:
  assumes "\<not> delegated s cause" and "priv s \<le> 3"
  shows "priv (handle_mret (raise_exception2 cause tval s)) = priv s"
    and "pc (handle_mret (raise_exception2 cause tval s)) = CANONICAL_S49 (pc s)"
    and "mstatus (handle_mret (raise_exception2 cause tval s))
      = (mstatus s AND NOT MSTATUS_MPP) OR MSTATUS_MPIE"
  using assms(1) ret_trap_status_m [OF assms(2), of "mstatus s"]
  by (cases "priv s = 3"; simp add: trap_defs)+

lemma sret_after_trap:
  assumes "delegated s cause"
  shows "priv (handle_sret (raise_exception2 cause tval s)) = priv s"
    and "pc (handle_sret (raise_exception2 cause tval s)) = CANONICAL_S49 (pc s)"
    and "mstatus (handle_sret (raise_exception2 cause tval s))
      = (mstatus s AND NOT MSTATUS_SPP) OR MSTATUS_SPIE"
proof -
  have "priv s \<le> 1" using assms by (auto simp: delegated_def split: if_splits)
  note st = ret_trap_status_s [OF this, of "mstatus s"]
  show "priv (handle_sret (raise_exception2 cause tval s)) = priv s"
    and "pc (handle_sret (raise_exception2 cause tval s)) = CANONICAL_S49 (pc s)"
    and "mstatus (handle_sret (raise_exception2 cause tval s))
      = (mstatus s AND NOT MSTATUS_SPP) OR MSTATUS_SPIE"
    using assms st by (cases "priv s = 1"; simp add: trap_defs)+
qed

section \<open>The interrupt that is taken\<close>

lemma irq_scan_down_eq:
  "(\<exists>i. 1 \<le> i \<and> i \<le> n \<and> bit x i) \<Longrightarrow>
     irq_scan_down x n \<ge> 1 \<and> irq_scan_down x n \<le> int n \<and> bit x (nat (irq_scan_down x n)) \<and>
     (\<forall>j. int j > irq_scan_down x n \<and> j \<le> n \<longrightarrow> \<not> bit x j)"
proof (induction n)
  case (Suc n)
  show ?case
  proof (cases "bit x (Suc n)")
    case True
    then show ?thesis by (simp add: and_1_odd bit_iff_odd_drop_bit nat_add_distrib)
  next
    case False
    with Suc.prems have "\<exists>i. 1 \<le> i \<and> i \<le> n \<and> bit x i" by (metis le_Suc_eq)
    from Suc.IH [OF this] False show ?thesis
      by (auto simp: and_1_odd bit_iff_odd_drop_bit le_Suc_eq)
  qed
qed simp

lemma irq_first_eq:
  "(\<exists>p \<in> set ps. bit x p) \<Longrightarrow>
     \<exists>us p vs. ps = us @ p # vs \<and> irq_first x ps = int p \<and> bit x p \<and> (\<forall>u \<in> set us. \<not> bit x u)"
proof (induction ps)
  case (Cons p ps)
  show ?case
  proof (cases "bit x p")
    case True
    then show ?thesis by (intro exI [of _ "[]"]) (simp add: and_1_odd bit_iff_odd_drop_bit)
  next
    case False
    with Cons.prems have "\<exists>q \<in> set ps. bit x q" by simp
    from Cons.IH [OF this] obtain us q vs where "ps = us @ q # vs" "irq_first x ps = int q"
      "bit x q" "\<forall>u \<in> set us. \<not> bit x u" by blast
    with False show ?thesis
      by (intro exI [of _ "p # us"] exI [of _ q] exI [of _ vs])
        (auto simp: and_1_odd bit_iff_odd_drop_bit)
  qed
qed simp

lemma mask_below_12:
  assumes "(x :: u32) < 2 ^ 12" and "bit x i"
  shows "i < 12"
proof -
  have "uint x < 2 ^ 12" using assms(1) by (simp add: word_less_def)
  then show ?thesis
    using assms(2) bit_int_less_power [of "uint x" 12 i] bit_imp_le_length [OF assms(2)]
    by (simp add: bit_uint_iff)
qed

lemma irq_priorities_all: "i < 12 \<Longrightarrow> i \<in> set irq_priorities"
  by (simp add: irq_priorities_def) presburger

lemma get_irq_num_local:
  assumes "(x :: u32) \<noteq> 0" and "x < 2 ^ 12"
  shows "\<exists>us p vs. irq_priorities = us @ p # vs \<and> get_irq_num x = int p \<and> bit x p
    \<and> (\<forall>u \<in> set us. \<not> bit x u)"
proof -
  from assms(1) obtain i where "bit x i" by (auto simp: bit_eq_iff)
  with mask_below_12 [OF assms(2)] have "\<exists>p \<in> set irq_priorities. bit x p"
    using irq_priorities_all by blast
  from irq_first_eq [OF this] show ?thesis using assms(2) by (auto simp: get_irq_num_def not_le)
qed

lemma get_irq_num_platform:
  assumes "(x :: u32) \<ge> 2 ^ 12"
  shows "get_irq_num x \<ge> 12 \<and> get_irq_num x \<le> 31 \<and> bit x (nat (get_irq_num x))
    \<and> (\<forall>j. int j > get_irq_num x \<longrightarrow> \<not> bit x j)"
proof -
  define y where "y = x AND push_bit 12 0xffffffff"
  have y: "bit y i \<longleftrightarrow> bit x i \<and> 12 \<le> i" for i
  proof -
    have "bit (push_bit 12 0xffffffff :: u32) i \<longleftrightarrow> 12 \<le> i \<and> i < 32"
    proof -
      have "push_bit 12 0xffffffff = (NOT (mask 12) :: u32)" by (simp add: mask_eq_exp_minus_1)
      then show ?thesis by (simp only: bit_not_iff bit_mask_iff) auto
    qed
    then show ?thesis by (auto simp only: y_def bit_and_iff dest: bit_imp_le_length) (auto dest: bit_imp_le_length)
  qed
  have "\<exists>i. 12 \<le> i \<and> bit x i"
  proof (rule ccontr)
    assume "\<nexists>i. 12 \<le> i \<and> bit x i"
    then have "take_bit 12 x = x" by (auto simp: bit_eq_iff bit_take_bit_iff not_le [symmetric])
    then have "uint x < 2 ^ 12" by (metis uint_take_bit pos_mod_bound zero_less_numeral zero_less_power)
    with assms show False by (simp add: word_le_def)
  qed
  then obtain i where "12 \<le> i" "bit y i" by (auto simp: y)
  moreover from this have "i \<le> 31" using bit_imp_le_length [of y i] by simp
  ultimately have ex: "\<exists>i. 1 \<le> i \<and> i \<le> 31 \<and> bit y i" by (intro exI [of _ i]) simp
  let ?n = "irq_scan_down y 31"
  have n: "1 \<le> ?n" "?n \<le> 31" "bit y (nat ?n)" "\<forall>j. int j > ?n \<and> j \<le> 31 \<longrightarrow> \<not> bit y j"
    using irq_scan_down_eq [OF ex] by auto
  have g: "get_irq_num x = ?n"
    using assms unfolding get_irq_num_def get_irq_platspecific_def y_def by simp
  have "\<not> bit x j" if "int j > ?n" for j
  proof (cases "j \<le> 31")
    case True
    with n(3,4) that show ?thesis by (auto simp: y)
  qed (auto dest: bit_imp_le_length)
  with n show ?thesis unfolding g y by auto
qed

end
