(* ===== verification/Riscv_Invariant.thy ===== *)
theory Riscv_Invariant
  imports Riscv_PMP Riscv_Trap_Lemmas
begin

text \<open>
  Invariants of a hart under the interpreter.  \<open>hart_core\<close> collects the fields that only CSR
  writes, traps and trap returns change; a predicate on these fields that CSR writes keep is
  therefore kept by every instruction and by whole runs.  The locale \<open>hart_invariant\<close> states
  what such a predicate and the callbacks of the environment have to satisfy.
\<close>

section \<open>The fields an invariant may depend on\<close>

definition hart_core where
  "hart_core s = (reg s 0, priv s, satp s, tselect s, csr_pmpcfg s, csr_pmpaddr s,
     pmp_n s, pmp s, pmpcfg s)"

text \<open>The core of the hart together with the devices, which only device accesses change.\<close>

definition machine_core where
  "machine_core m = (hart_core m, devs m)"

lemma machine_core_write_reg [cpu_frame]: "x \<noteq> 0 \<Longrightarrow> machine_core (write_reg x v s) = machine_core s"
  by (simp add: machine_core_def hart_core_def write_reg_def)

lemma machine_core_write_rd [cpu_frame]: "machine_core (write_rd x v s) = machine_core s"
  by (simp add: write_rd_def machine_core_write_reg)

lemma machine_core_write_fp_reg [cpu_frame]: "machine_core (write_fp_reg x v s) = machine_core s"
  by (simp add: machine_core_def hart_core_def write_fp_reg_def)

lemma machine_core_tlb [cpu_frame]:
  "machine_core (tlb_flush_all s) = machine_core s" "machine_core (tlb_flush_vaddr a s) = machine_core s"
  "machine_core (tlb_init s) = machine_core s"
  by (simp_all add: machine_core_def hart_core_def tlb_flush_vaddr_def tlb_flush_all_def tlb_init_def)

lemma machine_core_set_exception [cpu_frame]: "machine_core (set_exception c t s) = machine_core s"
  by (simp add: machine_core_def hart_core_def set_exception_def)

text \<open>Updates of single fields outside the core.\<close>

lemma machine_core_updates [cpu_frame]:
  "machine_core (s\<lparr>pc := x1\<rparr>) = machine_core s"
  "machine_core (s\<lparr>pending_exception := x2\<rparr>) = machine_core s"
  "machine_core (s\<lparr>pending_tval := x3\<rparr>) = machine_core s"
  "machine_core (s\<lparr>load_res := x4\<rparr>) = machine_core s"
  "machine_core (s\<lparr>fflags := x5\<rparr>) = machine_core s"
  "machine_core (s\<lparr>debug_mode := x6\<rparr>) = machine_core s"
  "machine_core (s\<lparr>terminate_simulation := x6\<rparr>) = machine_core s"
  "machine_core (s\<lparr>power_down_flag := x6\<rparr>) = machine_core s"
  "machine_core (s\<lparr>stop_the_counter := x6\<rparr>) = machine_core s"
  "machine_core (s\<lparr>insn_counter := x7\<rparr>) = machine_core s"
  "machine_core (s\<lparr>mcycle := x7\<rparr>) = machine_core s"
  "machine_core (s\<lparr>minstret := x7\<rparr>) = machine_core s"
  "machine_core (s\<lparr>last_data_paddr := x7\<rparr>) = machine_core s"
  "machine_core (s\<lparr>mstatus := x7\<rparr>) = machine_core s"
  "machine_core (s\<lparr>info := x8\<rparr>) = machine_core s"
  "machine_core (s\<lparr>next_addr := x7\<rparr>) = machine_core s"
  "machine_core (s\<lparr>most_recently_written_reg := x9\<rparr>) = machine_core s"
  "machine_core (s\<lparr>most_recently_written_fp_reg := x9\<rparr>) = machine_core s"
  "machine_core (s\<lparr>tlb_read := t1\<rparr>) = machine_core s"
  "machine_core (s\<lparr>tlb_write := t1\<rparr>) = machine_core s"
  "machine_core (s\<lparr>tlb_code := t1\<rparr>) = machine_core s"
  "machine_core (s\<lparr>tlb_read_paddr_addend := t2\<rparr>) = machine_core s"
  "machine_core (s\<lparr>tlb_write_paddr_addend := t2\<rparr>) = machine_core s"
  "machine_core (s\<lparr>tlb_code_paddr_addend := t2\<rparr>) = machine_core s"
  "machine_core (s\<lparr>scause := x7\<rparr>) = machine_core s" "machine_core (s\<lparr>sepc := x7\<rparr>) = machine_core s"
  "machine_core (s\<lparr>stval := x7\<rparr>) = machine_core s" "machine_core (s\<lparr>mcause := x7\<rparr>) = machine_core s"
  "machine_core (s\<lparr>mepc := x7\<rparr>) = machine_core s" "machine_core (s\<lparr>mtval := x7\<rparr>) = machine_core s"
  by (simp_all add: machine_core_def hart_core_def)

lemma machine_core_machine_updates [cpu_frame]:
  "machine_core (m\<lparr>ram := r\<rparr>) = machine_core m" "machine_core (m\<lparr>mem_map := mm\<rparr>) = machine_core m"
  by (simp_all add: machine_core_def hart_core_def)

lemma machine_core_triggers [cpu_frame]: "machine_core (snd (check_triggers t a s)) = machine_core s"
  by (simp add: check_triggers_def cpu_frame)

lemma c_reg_pos [simp]: "c_reg insn k \<noteq> 0"
proof -
  have "bit ((drop_bit k insn AND 7) OR 8 :: u32) 3" by (simp add: bit_or_iff)
  then have "(drop_bit k insn AND 7) OR 8 \<noteq> (0 :: u32)" by (metis bit_0_eq bot_apply bot_bool_def)
  then show ?thesis by (simp add: c_reg_def unat_eq_0)
qed

lemma three_mask: "(3 :: 'a::len word) = mask 2"
  by (simp add: mask_eq_exp_minus_1)

lemma status_priv_bounds:
  "status_spp st \<le> 3" "status_mpp st \<le> 3" "ucast (x AND 3 :: u64) \<le> (3 :: u8)"
proof -
  have le3: "ucast y \<le> (3 :: u8)" if "\<And>n. n > 1 \<Longrightarrow> \<not> bit y n" for y :: u64
  proof -
    have "(ucast y :: u8) = ucast y AND mask 2"
      by (rule bit_word_eqI) (use that in \<open>auto simp: bit_simps not_less intro: ccontr\<close>)
    then show ?thesis by (metis three_mask word_and_le1)
  qed
  show "status_spp st \<le> 3" unfolding status_spp_def
    by (rule le3) (simp add: bit_drop_bit_eq bit_and_iff bit_numeral_iff bit_1_iff)
  show "status_mpp st \<le> 3" unfolding status_mpp_def
    by (rule le3) (simp add: bit_drop_bit_eq bit_and_iff three_mask bit_mask_iff)
  show "ucast (x AND 3 :: u64) \<le> (3 :: u8)"
    by (rule le3) (simp add: three_mask bit_simps)
qed

section \<open>Predicates kept by the interpreter\<close>

locale hart_invariant =
  fixes e :: "('d, 'z) RISCVMachine_scheme cpu_env"
    and P :: "('d, 'z) RISCVMachine_scheme \<Rightarrow> bool"
  assumes core_only: "machine_core s = machine_core t \<Longrightarrow> P s = P t"
    and priv_change: "P s \<Longrightarrow> p \<le> 3 \<Longrightarrow> P (s\<lparr>priv := p\<rparr>)"
    and csr_write_keeps: "P s \<Longrightarrow> P (snd (csr_write_switch csr v s))"
    and dev_read_keeps: "P m \<Longrightarrow> P (snd (dev_read e k off sz m))"
    and dev_write_keeps: "P m \<Longrightarrow> P (dev_write e k off w sz m)"
    and hook_read_keeps: "hook_csr_read e = Some hr \<Longrightarrow> P m \<Longrightarrow> P (snd (hr f csr m))"
    and hook_write_keeps: "hook_csr_write e = Some hw \<Longrightarrow> P m \<Longrightarrow> P (snd (hw f csr v m))"
begin

text \<open>Everything outside the core is irrelevant to \<open>P\<close>.\<close>

lemmas P_simps = machine_core_updates [THEN core_only] machine_core_machine_updates [THEN core_only]
  machine_core_write_reg [THEN core_only] machine_core_write_rd [THEN core_only]
  machine_core_write_fp_reg [THEN core_only] machine_core_tlb [THEN core_only]
  machine_core_set_exception [THEN core_only] machine_core_triggers [THEN core_only]

lemma P_device_load: "P m \<Longrightarrow> P (snd (device_load e pr off k m))"
  by (auto simp: device_load_def split: prod.splits) (metis dev_read_keeps snd_conv)+

lemma P_device_store: "P m \<Longrightarrow> P (device_store e pr off v k m)"
  by (simp add: device_store_def dev_write_keeps)

lemma P_read_memory: "P m \<Longrightarrow> P (snd (riscv_cpu_read_memory e addr k m))"
  using P_device_load [of m]
  by (auto simp: riscv_cpu_read_memory_def Let_def P_simps split: translation.splits option.splits
      prod.splits if_splits) (metis snd_conv)

lemma P_write_memory: "P m \<Longrightarrow> P (snd (riscv_cpu_write_memory e addr v k m))"
  by (simp add: riscv_cpu_write_memory_def Let_def P_simps P_device_store
      split: translation.split option.split)

lemma P_target_read: "P m \<Longrightarrow> P (snd (target_read e k addr m))"
proof (cases "check_triggers MCONTROL_LOAD addr m")
  case (Pair hit m1)
  assume "P m"
  then have "P m1" using Pair by (metis machine_core_triggers core_only snd_conv)
  then show ?thesis
    using P_read_memory [of m1 addr k]
    by (auto simp: target_read_def Pair P_simps split: option.splits prod.splits)
qed

lemma P_target_write: "P m \<Longrightarrow> P (snd (target_write e k addr v m))"
proof (cases "check_triggers MCONTROL_STORE addr m")
  case (Pair hit m1)
  assume "P m"
  then have "P m1" using Pair by (metis machine_core_triggers core_only snd_conv)
  then show ?thesis
    using P_write_memory by (auto simp: target_write_def Pair P_simps)
qed

lemma P_insn_slow: "P m \<Longrightarrow> P (snd (target_read_insn_slow sz addr m))"
  by (auto simp: target_read_insn_slow_def Let_def P_simps split: translation.splits option.splits)

lemma P_insn_u16: "P m \<Longrightarrow> P (snd (target_read_insn_u16 addr m))"
  using P_insn_slow [of m 16 addr]
  by (auto simp: target_read_insn_u16_def split: option.splits prod.splits)

lemma P_load_then:
  "P m \<Longrightarrow> (\<And>v m. P m \<Longrightarrow> P (f v m)) \<Longrightarrow> P (snd (load_then e k addr nxt f m))"
  using P_target_read [of m k addr]
  by (auto simp: load_then_def split: prod.splits option.splits)

lemma P_store_then: "P m \<Longrightarrow> P (snd (store_then e k addr v nxt m))"
  using P_target_write [of m k addr v] by (auto simp: store_then_def split: prod.splits)

lemma P_jump: "P m \<Longrightarrow> P (snd (jump_to k t m))" "P m \<Longrightarrow> P (snd (raise_pending c t m))"
  by (simp_all add: jump_to_def raise_pending_def P_simps)

lemma P_exec_c0: "P m \<Longrightarrow> P (snd (exec_c0 e insn m))"
  by (simp add: exec_c0_def Let_def P_simps P_load_then P_store_then)

lemma P_exec_c1: "P m \<Longrightarrow> P (snd (exec_c1 gpc insn m))"
  by (simp add: exec_c1_def exec_c1_lui_def exec_c1_alu_def Let_def P_simps P_jump)

lemma P_exec_c2: "P m \<Longrightarrow> P (snd (exec_c2 e gpc insn m))"
  by (simp add: exec_c2_def exec_c2_jr_def Let_def P_simps P_load_then P_store_then P_jump)

lemma P_arith:
  "P m \<Longrightarrow> P (snd (exec_lui insn m))" "P m \<Longrightarrow> P (snd (exec_auipc gpc insn m))"
  "P m \<Longrightarrow> P (snd (exec_jal gpc insn m))" "P m \<Longrightarrow> P (snd (exec_jalr gpc insn m))"
  "P m \<Longrightarrow> P (snd (exec_branch gpc insn m))" "P m \<Longrightarrow> P (snd (exec_arith r insn m))"
  "P m \<Longrightarrow> P (snd (exec_misc_mem insn m))"
  by (simp_all add: exec_lui_def exec_auipc_def exec_jal_def exec_jalr_def exec_branch_def Let_def
      exec_arith_def exec_misc_mem_def P_jump P_simps split: option.split)

lemma P_mem:
  "P m \<Longrightarrow> P (snd (exec_load e insn m))" "P m \<Longrightarrow> P (snd (exec_store e insn m))"
  "P m \<Longrightarrow> P (snd (exec_fp_load e insn m))" "P m \<Longrightarrow> P (snd (exec_fp_store e insn m))"
  by (simp_all add: exec_load_def exec_store_def exec_fp_load_def exec_fp_store_def Let_def
      P_load_then P_store_then P_simps)

lemma P_write_then:
  "P m \<Longrightarrow> (\<And>m. P m \<Longrightarrow> P (g m))
    \<Longrightarrow> P (snd (case target_write e k addr v m of (ok, m) \<Rightarrow> if ok then (x, g m) else (y, m)))"
  using P_target_write [of m k addr v] by (simp add: case_prod_beta)

lemma P_op_a: "P m \<Longrightarrow> P (snd (op_a t e k insn m))"
proof -
  assume P: "P m"
  show ?thesis
  proof (cases "target_read e k (reg m (insn_rs1 insn)) m")
    case (Pair r m1)
    then have "P m1" using P_target_read [OF P, of k "reg m (insn_rs1 insn)"] by simp
    with P Pair show ?thesis
      by (simp add: op_a_def Let_def P_simps P_load_then P_write_then if_distrib [of snd] if_distrib [of P]
          split: option.split split del: if_split cong del: if_weak_cong)
  qed
qed

lemma P_exec_amo: "P m \<Longrightarrow> P (snd (exec_amo e insn m))"
  by (simp add: exec_amo_def Let_def P_op_a)

lemma P_fp_result: "P m \<Longrightarrow> P (snd (fp_result rd r m))"
  by (simp add: fp_result_def box_write_def P_simps split: option.split prod.split)

lemma P_fp_ops:
  "P m \<Longrightarrow> P (snd (fp_arith t op insn m))" "P m \<Longrightarrow> P (snd (fp_sgnj t insn m))"
  "P m \<Longrightarrow> P (snd (fp_minmax t insn m))" "P m \<Longrightarrow> P (snd (fp_to_int t insn m))"
  "P m \<Longrightarrow> P (snd (fp_compare t insn m))" "P m \<Longrightarrow> P (snd (int_to_fp t insn m))"
  "P m \<Longrightarrow> P (snd (fp_to_fp t insn m))" "P m \<Longrightarrow> P (snd (fp_to_reg t insn m))"
  "P m \<Longrightarrow> P (snd (reg_to_fp t insn m))"
  by (simp_all add: fp_arith_def fp_sgnj_def fp_minmax_def fp_to_int_def fp_compare_def
      int_to_fp_def fp_to_fp_def fp_to_reg_def reg_to_fp_def Let_def P_fp_result P_simps case_prod_beta
      if_distrib [of snd] if_distrib [of P]
      split: option.split split del: if_split cong del: if_weak_cong)

lemma P_fp_template: "P m \<Longrightarrow> P (snd (fp_template t op insn m))"
  by (simp add: fp_template_def P_fp_ops)

lemma P_exec_fp: "P m \<Longrightarrow> P (snd (exec_fp insn m))" "P m \<Longrightarrow> P (snd (exec_fma n1 n3 insn m))"
  by (simp_all add: exec_fp_def exec_fma_def Let_def P_fp_template P_fp_result split: option.split)

lemma P_set_priv: "P s \<Longrightarrow> p \<le> 3 \<Longrightarrow> P (set_priv p s)"
  by (simp add: set_priv_def priv_change P_simps)

lemma P_trap: "P s \<Longrightarrow> P (raise_exception2 c t s)"
  by (simp add: raise_exception2_def trap_to_s_def trap_to_m_def Let_def P_simps P_set_priv)

lemma P_interrupt: "P s \<Longrightarrow> P (snd (raise_interrupt s))"
  by (simp add: raise_interrupt_def raise_exception_def Let_def P_trap)

lemma P_returns:
  "P s \<Longrightarrow> P (handle_sret s)" "P s \<Longrightarrow> P (handle_mret s)" "P s \<Longrightarrow> P (handle_dret s)"
  by (simp_all add: handle_sret_def handle_mret_def handle_dret_def Let_def P_simps P_set_priv
      status_priv_bounds)

lemma P_exec_priv: "P m \<Longrightarrow> P (snd (exec_priv gpc insn m))"
  by (simp add: exec_priv_def Let_def P_simps P_jump P_returns)

lemma P_counters: "update_counters c st s = Some s' \<Longrightarrow> P s \<Longrightarrow> P s'"
  by (auto simp: update_counters_def Let_def P_simps split: if_splits)

lemma P_csr_read: "P m \<Longrightarrow> P (snd (csr_read e f csr w m))"
  by (auto simp: csr_read_def split: option.splits prod.splits)
    (metis hook_read_keeps snd_conv)+

lemma P_csr_write: "P m \<Longrightarrow> P (snd (csr_write e f csr v m))"
  by (auto simp: csr_write_def csr_write_keeps split: option.splits prod.splits)
    (metis hook_write_keeps csr_write_keeps snd_conv)+

lemma P_csr_finish: "P m \<Longrightarrow> P (snd (csr_finish gpc rd v err m))"
  by (simp add: csr_finish_def Let_def P_simps)

lemma P_exec_csr: "P m \<Longrightarrow> P (snd (exec_csr e c st gpc insn m))"
  unfolding exec_csr_def Let_def
  by (auto split: option.split prod.split intro!: P_csr_finish)
    (metis P_counters P_csr_read P_csr_write snd_conv)+

lemma P_exec_base: "P m \<Longrightarrow> P (snd (exec_base e c st gpc insn m))"
  by (simp add: exec_base_def Let_def exec_system_def P_arith P_mem P_exec_amo P_exec_fp
      P_exec_priv P_exec_csr)

lemma P_exec_insn: "P m \<Longrightarrow> P (snd (exec_insn e c st gpc insn m))"
  by (simp add: exec_insn_def Let_def P_exec_c0 P_exec_c1 P_exec_c2 P_exec_base)

text \<open>Fetch and the loop.\<close>

lemma P_fetch_tlb: "P m \<Longrightarrow> P (snd (snd (fetch_tlb lo m)))"
proof -
  assume P: "P m"
  have "P (snd (target_read_insn_u16 (pc m + 2) m))" "P (snd (target_read_insn_slow 32 (pc m) m))"
    using P by (simp_all add: P_insn_u16 P_insn_slow)
  with P show ?thesis
    by (auto simp: fetch_tlb_def Let_def split: prod.split option.split)
qed

lemma P_fetch_insn: "P m \<Longrightarrow> P (snd (snd (fetch_insn lo m)))"
  using P_interrupt [of m]
  by (auto simp: fetch_insn_def P_fetch_tlb split: prod.split)

lemma P_interp_body: "P m \<Longrightarrow> P (snd (snd (interp_body e n lo m)))"
proof -
  assume P: "P m"
  obtain hit m1 where trig: "check_triggers MCONTROL_EXECUTE (pc m) m = (hit, m1)" by fastforce
  then have P1: "P m1" using P by (metis machine_core_triggers core_only snd_conv)
  let ?lo = "lo\<lparr>insn_executed := insn_executed lo + 1\<rparr>"
  obtain r lo2 m2 where f: "fetch_insn ?lo m1 = (r, lo2, m2)" by (metis prod_cases3)
  then have P2: "P m2" using P_fetch_insn [OF P1, of ?lo] by simp
  show ?thesis
    using P1 P2 P_exec_insn [OF P2]
    by (auto simp: interp_body_def Let_def trig f split: sum.split prod.split)
      (metis snd_conv)
qed

lemma P_take_exception: "P m \<Longrightarrow> P (snd (take_exception lo m))"
  by (simp add: take_exception_def Let_def P_simps P_trap)

lemma P_the_end: "the_end n lo m = Some (k, m') \<Longrightarrow> P m \<Longrightarrow> P m'"
  by (auto simp: the_end_def P_counters split: option.splits)

lemma P_leave_loop: "leave_loop out n lo m = Some (k, m') \<Longrightarrow> P m \<Longrightarrow> P m'"
  using P_take_exception [of m lo]
    P_take_exception [of "m\<lparr>pending_exception := CAUSE_ILLEGAL_INSTRUCTION, pending_tval := 0\<rparr>" lo]
  by (auto simp: leave_loop_def P_simps split: outcome.splits prod.splits dest: P_the_end)

lemma P_advance: "advance out lo m = Some (lo', m') \<Longrightarrow> P m \<Longrightarrow> P m'"
  by (auto simp: advance_def P_simps split: outcome.splits)

lemma P_interp_loop: "interp_loop e n lo m = Some (k, m') \<Longrightarrow> P m \<Longrightarrow> P m'"
proof (induction n arbitrary: lo m)
  case 0
  then show ?case by (simp add: P_the_end)
next
  case (Suc n)
  obtain out lo1 m1 where body: "interp_body e n lo (m\<lparr>pc := GET_PC lo\<rparr>) = (out, lo1, m1)"
    by (metis prod_cases3)
  have P1: "P m1"
    using P_interp_body [of "m\<lparr>pc := GET_PC lo\<rparr>" n lo] Suc.prems(2) by (simp add: body P_simps)
  show ?case
  proof (cases "n = 0")
    case True
    with Suc.prems show ?thesis by (auto simp: P_simps dest: P_the_end)
  next
    case False
    with Suc.prems(1) P1 show ?thesis
      by (auto simp: body Let_def split: option.splits dest: P_leave_loop P_advance intro: Suc.IH)
  qed
qed

theorem P_interp64:
  assumes run: "riscv_cpu_interp64 e n m = Some (k, m')" and P: "P m"
  shows "P m'"
proof (cases "n = 0")
  case True
  with run P show ?thesis by (auto simp: riscv_cpu_interp64_def Let_def P_simps)
next
  case False
  let ?m = "m\<lparr>most_recently_written_reg := - 1, most_recently_written_fp_reg := - 1, info := ctf_nop\<rparr>"
  obtain taken m1 where irq: "(if interrupts_enabled ?m then raise_interrupt ?m else (False, ?m)) = (taken, m1)"
    by (metis surj_pair)
  have "P ?m" using P by (simp add: P_simps)
  then have P1: "P m1" using irq P_interrupt [of ?m] by (metis snd_conv)
  then have P2: "P (m1\<lparr>pending_exception := - 1\<rparr>)" by (simp add: P_simps)
  from run False irq P1 P2 show ?thesis
    by (auto simp: riscv_cpu_interp64_def Let_def simp del: interp_loop.simps split: if_splits
        dest: P_the_end P_interp_loop)
qed

end

end
