(* ===== verification/Riscv_Run.thy ===== *)
theory Riscv_Run
  imports Riscv_Invariant
begin

text \<open>
  What holds of a hart over whole runs of \<open>riscv_cpu_interp64\<close>: the well-formedness of its
  architectural state, and the persistence of locked PMP entries.
\<close>

section \<open>Well-formed harts\<close>

text \<open>
  \<open>x0\<close> reads as zero, the privilege level and the trigger index are in range, \<open>satp\<close> holds one
  of the supported modes, and the unpacked PMP table agrees with the PMP registers, whose
  reserved bits are clear.
\<close>

definition satp_mode_ok :: "u64 \<Rightarrow> bool" where
  "satp_mode_ok v \<longleftrightarrow> drop_bit 60 v AND 15 \<in> {0, 8, 9}"

definition hart_ok :: "'z RISCVCPUState_scheme \<Rightarrow> bool" where
  "hart_ok s \<longleftrightarrow> reg s 0 = 0 \<and> priv s \<le> 3 \<and> tselect s = 0 \<and> satp_mode_ok (satp s)
     \<and> pmp_unpacked s \<and> pmp_res_clear s"

lemma hart_ok_core: "hart_core s = hart_core t \<Longrightarrow> hart_ok s = hart_ok t"
proof -
  assume "hart_core s = hart_core t"
  then have eqs: "reg s 0 = reg t 0" "priv s = priv t" "satp s = satp t" "tselect s = tselect t"
    "csr_pmpcfg s = csr_pmpcfg t" "csr_pmpaddr s = csr_pmpaddr t" "pmp_n s = pmp_n t" "pmp s = pmp t"
    "pmpcfg s = pmpcfg t"
    by (simp_all add: hart_core_def)
  then have "pmp_unpacked s = pmp_unpacked t" by (intro unpacked_upto_cong)
  with eqs show ?thesis by (simp add: hart_ok_def pmp_res_clear_def pmpcfg_byte_def)
qed

lemma hart_ok_priv: "hart_ok s \<Longrightarrow> p \<le> 3 \<Longrightarrow> hart_ok (s\<lparr>priv := p\<rparr>)"
  using unpacked_upto_cong [of "s\<lparr>priv := p\<rparr>" s 16]
  by (simp add: hart_ok_def pmp_res_clear_def pmpcfg_byte_def)

section \<open>CSR writes\<close>

lemma unpack_fold_frame:
  "reg (fold unpack_step xs s) = reg s" "priv (fold unpack_step xs s) = priv s"
  "satp (fold unpack_step xs s) = satp s" "tselect (fold unpack_step xs s) = tselect s"
  by (induction xs arbitrary: s) (simp_all add: unpack_step_def split: option.split)

lemma write_pmp_frame:
  "reg (write_pmpcfg c v s) = reg s" "priv (write_pmpcfg c v s) = priv s"
  "satp (write_pmpcfg c v s) = satp s" "tselect (write_pmpcfg c v s) = tselect s"
  "reg (write_pmpaddr i v s) = reg s" "priv (write_pmpaddr i v s) = priv s"
  "satp (write_pmpaddr i v s) = satp s" "tselect (write_pmpaddr i v s) = tselect s"
  by (simp_all add: write_pmpcfg_def write_pmpaddr_def unpack_pmpaddrs_def unpack_fold_frame
      tlb_flush_all_def tlb_init_def Let_def del: upt_rec_numeral)

lemmas csr_frame_defs = csr_write_defs write_pmp_frame write_tdata1_def
  write_tdata2_def write_dcsr_def set_mstatus_def set_frm_def tlb_flush_all_def tlb_init_def

lemma csr_write_reg: "reg (snd (csr_write_switch csr v s)) = reg s"
  by (simp add: csr_frame_defs if_distrib [of snd] if_distrib [of reg]
    split del: if_split cong del: if_weak_cong)

lemma csr_write_priv: "priv (snd (csr_write_switch csr v s)) = priv s"
  by (simp add: csr_frame_defs if_distrib [of snd] if_distrib [of priv]
    split del: if_split cong del: if_weak_cong)

lemma csr_write_tselect:
  "tselect s = 0 \<Longrightarrow> tselect (snd (csr_write_switch csr v s)) = 0"
  by (simp add: csr_frame_defs if_distrib [of snd] if_distrib [of tselect]
    split del: if_split cong del: if_weak_cong)

lemma satp_mode_mask: "satp_mode_ok (v AND SATP_MASK) = satp_mode_ok v"
proof -
  have k: "(15 :: u64) = mask 4" "SATP_MASK = push_bit 60 (mask 4) OR (mask 44 :: u64)"
    by (simp_all add: mask_eq_exp_minus_1)
  have "drop_bit 60 (v AND SATP_MASK) AND 15 = (drop_bit 60 v AND 15 :: u64)"
    unfolding k by (rule bit_word_eqI) (auto simp: bit_simps)
  then show ?thesis by (simp only: satp_mode_ok_def)
qed

lemma csr_write_satp_eq:
  "satp (snd (csr_write_switch csr v s)) =
     (if csr = 0x180 \<and> \<not> (priv s = PRV_S \<and> mstatus s AND MSTATUS_TVM \<noteq> 0) \<and> satp_mode_ok v
      then v AND SATP_MASK else satp s)"
  by (simp add: csr_frame_defs satp_mode_ok_def if_distrib [of snd] if_distrib [of satp]
    split del: if_split cong del: if_weak_cong) auto

lemma csr_write_satp:
  "satp_mode_ok (satp s) \<Longrightarrow> satp_mode_ok (satp (snd (csr_write_switch csr v s)))"
  unfolding csr_write_satp_eq by (auto simp only: satp_mode_mask split: if_split)

lemma csr_write_pmp_table:
  assumes "\<not> (csr = 0x3a0 \<or> csr = 0x3a2)" and "\<not> (0x3b0 \<le> csr \<and> csr \<le> 0x3bf)"
  shows "pmp_n (snd (csr_write_switch csr v s)) = pmp_n s"
    and "pmp (snd (csr_write_switch csr v s)) = pmp s"
    and "pmpcfg (snd (csr_write_switch csr v s)) = pmpcfg s"
  using assms
  by (simp_all add: csr_frame_defs if_distrib [of snd] if_distrib [of pmp_n] if_distrib [of pmp]
      if_distrib [of pmpcfg] split del: if_split cong del: if_weak_cong) auto

lemma write_pmp_unpacked:
  "pmp_unpacked s \<Longrightarrow> pmp_unpacked (write_pmpcfg c v s)"
  "pmp_unpacked s \<Longrightarrow> pmp_unpacked (write_pmpaddr i v s)"
  by (simp_all add: write_pmpcfg_def write_pmpaddr_def pmp_unpacked_unpack Let_def)

lemma csr_write_unpacked:
  assumes "pmp_unpacked s"
  shows "pmp_unpacked (snd (csr_write_switch csr v s))"
proof -
  consider "csr = 0x3a0 \<or> csr = 0x3a2" | "0x3b0 \<le> csr" "csr \<le> 0x3bf"
    | "\<not> (csr = 0x3a0 \<or> csr = 0x3a2)" "\<not> (0x3b0 \<le> csr \<and> csr \<le> 0x3bf)" by blast
  then show ?thesis
  proof cases
    case 1
    with assms show ?thesis by (simp only: csr_write_switch_pmpcfg snd_conv write_pmp_unpacked)
  next
    case 2
    with assms show ?thesis by (simp only: csr_write_switch_pmpaddr snd_conv write_pmp_unpacked)
  next
    case 3
    then show ?thesis
      using assms by (subst unpacked_upto_cong [of _ s])
        (simp_all only: csr_write_pmp_table csr_write_pmpcfg csr_write_pmpaddr not_False_eq_True)
  qed
qed

lemma hart_ok_csr_write: "hart_ok s \<Longrightarrow> hart_ok (snd (csr_write_switch csr v s))"
  by (simp add: hart_ok_def csr_write_reg csr_write_priv csr_write_tselect csr_write_satp
      csr_write_unpacked pmp_res_clear_csr_write)

section \<open>Runs\<close>

text \<open>
  Callbacks of the board (devices and CSR hooks) that leave the core of the hart alone: they may
  change the devices, the RAM, pending interrupts and the like.
\<close>

definition env_safe :: "('d, 'z) RISCVMachine_scheme cpu_env \<Rightarrow> bool" where
  "env_safe e \<longleftrightarrow>
     (\<forall>k off sz m. hart_core (snd (dev_read e k off sz m)) = hart_core m) \<and>
     (\<forall>k off w sz m. hart_core (dev_write e k off w sz m) = hart_core m) \<and>
     (\<forall>hr f csr m. hook_csr_read e = Some hr \<longrightarrow> hart_core (snd (hr f csr m)) = hart_core m) \<and>
     (\<forall>hw f csr v m. hook_csr_write e = Some hw \<longrightarrow> hart_core (snd (hw f csr v m)) = hart_core m)"

locale safe_env =
  fixes e :: "('d, 'z) RISCVMachine_scheme cpu_env"
  assumes safe: "env_safe e"
begin

text \<open>A predicate on the core that CSR writes and changes of privilege keep is an invariant.\<close>

lemma core_invariant:
  fixes P :: "('d, 'z) RISCVMachine_scheme \<Rightarrow> bool"
  assumes core: "\<And>s t. hart_core s = hart_core t \<Longrightarrow> P s = P t"
    and prv: "\<And>s p. P s \<Longrightarrow> p \<le> 3 \<Longrightarrow> P (s\<lparr>priv := p\<rparr>)"
    and csr: "\<And>s csr v. P s \<Longrightarrow> P (snd (csr_write_switch csr v s))"
  shows "hart_invariant e P"
proof -
  have dr: "hart_core (snd (dev_read e k off sz m)) = hart_core m"
    and dw: "hart_core (dev_write e k off w sz m) = hart_core m"
    and hr: "hook_csr_read e = Some hr \<Longrightarrow> hart_core (snd (hr f c m)) = hart_core m"
    and hw: "hook_csr_write e = Some hw \<Longrightarrow> hart_core (snd (hw f c v m)) = hart_core m"
    for k off sz w m hr hw f c v
    using safe by (simp_all add: env_safe_def)
  have mc: "machine_core s = machine_core t \<Longrightarrow> P s = P t" for s t by (rule core) (simp add: machine_core_def)
  show ?thesis
    by unfold_locales
      (fact prv csr | erule mc | simp only: dr [THEN core] dw [THEN core] hr [THEN core] hw [THEN core])+
qed

end

text \<open>A locked PMP entry \<open>i\<close> with configuration byte \<open>b\<close> and range \<open>r\<close>.\<close>

definition pmp_locked :: "nat \<Rightarrow> u8 \<Rightarrow> pmp_addr option \<Rightarrow> 'z RISCVCPUState_scheme \<Rightarrow> bool" where
  "pmp_locked i b r s \<longleftrightarrow> i < 8 \<and> b AND PMPCFG_L \<noteq> 0 \<and> pmp_res_clear s
     \<and> pmpcfg_byte s i = b \<and> pmp_entry s i = r"

lemma pmp_locked_cong:
  assumes "csr_pmpcfg s = csr_pmpcfg t" "csr_pmpaddr s = csr_pmpaddr t"
  shows "pmp_locked i b r s = pmp_locked i b r t"
  using pmp_entry_cong [OF assms] assms by (simp add: pmp_locked_def pmp_res_clear_def pmpcfg_byte_def)

lemma pmp_locked_csr_write:
  "pmp_locked i b r s \<Longrightarrow> pmp_locked i b r (snd (csr_write_switch csr v s))"
  by (auto simp: pmp_locked_def pmp_res_clear_csr_write locked_byte_kept locked_entry_kept)

sublocale safe_env \<subseteq> hart: hart_invariant e hart_ok
  by (rule core_invariant) (fact hart_ok_core hart_ok_priv hart_ok_csr_write)+

sublocale safe_env \<subseteq> locked: hart_invariant e "pmp_locked i b r" for i b r
proof (rule core_invariant)
  fix s t :: "('a, 'b) RISCVMachine_scheme"
  assume "hart_core s = hart_core t"
  then show "pmp_locked i b r s = pmp_locked i b r t"
    by (intro pmp_locked_cong) (simp_all add: hart_core_def)
next
  fix s :: "('a, 'b) RISCVMachine_scheme" and p
  assume "pmp_locked i b r s"
  then show "pmp_locked i b r (s\<lparr>priv := p\<rparr>)"
    using pmp_locked_cong [of "s\<lparr>priv := p\<rparr>" s i b r] by simp
qed (fact pmp_locked_csr_write)

context safe_env
begin

lemma run_keeps_hart_ok: "riscv_cpu_interp64 e n m = Some (k, m') \<Longrightarrow> hart_ok m \<Longrightarrow> hart_ok m'"
  by (rule hart.P_interp64)

lemma run_keeps_locked:
  "riscv_cpu_interp64 e n m = Some (k, m') \<Longrightarrow> pmp_locked i b r m \<Longrightarrow> pmp_locked i b r m'"
  by (rule locked.P_interp64)

end

text \<open>
  Boards whose devices keep their own state and raise or clear interrupt lines, as the interrupt
  controllers do through \<open>riscv_cpu_set_mip\<close> and \<open>riscv_cpu_reset_mip\<close>, and that install no CSR hooks.
\<close>

definition board_env ::
  "(nat \<Rightarrow> u32 \<Rightarrow> nat \<Rightarrow> 'd \<Rightarrow> u32 \<times> 'd \<times> u32) \<Rightarrow> (nat \<Rightarrow> u32 \<Rightarrow> u32 \<Rightarrow> nat \<Rightarrow> 'd \<Rightarrow> 'd \<times> u32 \<times> u32)
     \<Rightarrow> (u64 \<Rightarrow> u64) \<Rightarrow> ('d, 'z) RISCVMachine_scheme cpu_env" where
  "board_env rd wr mmio =
     \<lparr>dev_read = (\<lambda>k off sz m. case rd k off sz (devs m) of
        (v, d, up) \<Rightarrow> (v, riscv_cpu_set_mip up (m\<lparr>devs := d\<rparr>))),
      dev_write = (\<lambda>k off w sz m. case wr k off w sz (devs m) of
        (d, up, down) \<Rightarrow> riscv_cpu_reset_mip down (riscv_cpu_set_mip up (m\<lparr>devs := d\<rparr>))),
      hook_csr_read = None, hook_csr_write = None, mmio_value = mmio\<rparr>"

lemma hart_core_mip [simp]:
  "hart_core (riscv_cpu_set_mip k m) = hart_core m" "hart_core (riscv_cpu_reset_mip k s) = hart_core s"
  "hart_core (m\<lparr>devs := d\<rparr>) = hart_core m"
  by (simp_all add: riscv_cpu_set_mip_def riscv_cpu_reset_mip_def Let_def hart_core_def)

interpretation board: safe_env "board_env rd wr mmio" for rd wr mmio
  by unfold_locales (simp add: env_safe_def board_env_def split: prod.split)

end
