(* ===== verification/Riscv_ALU_Lemmas.thy ===== *)
theory Riscv_ALU_Lemmas
  imports Riscv_ALU Softfp_Wide
begin

text \<open>
  The arithmetic helpers against their meaning: the high half of a product, and quotient and
  remainder with the results RISC-V prescribes for division by zero and for overflow.
\<close>

section \<open>High half of a product\<close>

lemma mulhu_half_eq: "mulhu_half a b = fst (mul_u_half a b)"
  by (simp add: mulhu_half_def mul_u_half_def Let_def)

lemma mulhu_half_eq_wide:
  "sf_format TYPE('a::len) \<Longrightarrow> mulhu_half a (b :: 'a word) = mulhu_wide a b"
  by (simp add: mulhu_half_eq mul_u_half_eq_long mul_u_long_def mulhu_wide_def Let_def)

section \<open>Division\<close>

lemma div_rem_xlen: "div_xlen a b * b + rem_xlen a b = (a :: 'a::len word)"
proof -
  have "word_of_int (sint a sdiv sint b) * b + word_of_int (sint a smod sint b)
      = (word_of_int (sint a sdiv sint b * sint b + sint a smod sint b) :: 'a word)"
    by simp
  also have "\<dots> = a" unfolding sdiv_mult_smod_eq by simp
  finally have main: "word_of_int (sint a sdiv sint b) * b + word_of_int (sint a smod sint b) = a" .
  have "(2 :: 'a word) * 2 ^ (LENGTH('a) - Suc 0) = 0" by (simp flip: power_Suc)
  with main show ?thesis by (auto simp: div_xlen_def rem_xlen_def)
qed

lemma divu_remu_xlen: "divu_xlen a b * b + remu_xlen a b = (a :: 'a::len word)"
  by (simp add: divu_xlen_def remu_xlen_def div_mult_mod_eq)

lemma abs_smod_less: "(b :: int) \<noteq> 0 \<Longrightarrow> \<bar>a smod b\<bar> < \<bar>b\<bar>"
  by (simp add: signed_modulo_int_def abs_mult abs_sgn_eq)

lemma smod_range:
  fixes a b :: "'a::len word"
  assumes "b \<noteq> 0"
  shows "sint (word_of_int (sint a smod sint b) :: 'a word) = sint a smod sint b"
proof -
  let ?h = "2 ^ (LENGTH('a) - 1) :: int"
  have b: "sint b \<noteq> 0" using assms by (simp add: signed_eq_0_iff)
  have "\<bar>sint a smod sint b\<bar> < \<bar>sint b\<bar>" by (rule abs_smod_less [OF b])
  moreover have "- ?h \<le> sint b" "sint b < ?h"
    using sint_greater_eq [of b] sint_less [of b] by simp_all
  ultimately have "- ?h \<le> sint a smod sint b" "sint a smod sint b < ?h" by linarith+
  then show ?thesis by (simp add: sint_sbintrunc' signed_take_bit_int_eq_self)
qed

lemma rem_xlen_sint:
  fixes a b :: "'a::len word"
  assumes "b \<noteq> 0"
  shows "\<bar>sint (rem_xlen a b)\<bar> < \<bar>sint b\<bar>"
    and "sint (rem_xlen a b) = 0 \<or> sgn (sint (rem_xlen a b)) = sgn (sint a)"
proof -
  have b: "sint b \<noteq> 0" using assms by (simp add: signed_eq_0_iff)
  have c: "rem_xlen a b = 0 \<or> sint (rem_xlen a b) = sint a smod sint b"
    using assms smod_range [OF assms, of a] by (auto simp: rem_xlen_def)
  then show "\<bar>sint (rem_xlen a b)\<bar> < \<bar>sint b\<bar>" using abs_smod_less [OF b, of "sint a"] b by auto
  from c show "sint (rem_xlen a b) = 0 \<or> sgn (sint (rem_xlen a b)) = sgn (sint a)"
  proof
    assume "sint (rem_xlen a b) = sint a smod sint b"
    moreover have "sint a smod sint b = sgn (sint a) * (\<bar>sint a\<bar> mod \<bar>sint b\<bar>)"
      by (simp add: signed_modulo_int_def)
    moreover have "0 \<le> \<bar>sint a\<bar> mod \<bar>sint b\<bar>" using b by simp
    ultimately show ?thesis by (auto simp: sgn_mult sgn_if split: if_splits)
  qed simp
qed

lemma remu_xlen_less: "b \<noteq> 0 \<Longrightarrow> remu_xlen a b < (b :: 'a::len word)"
  by (simp add: remu_xlen_def word_less_def uint_mod word_neq_0_conv uint_0_iff order.not_eq_order_implies_strict)

end
