(* ===== verification/Riscv_Props.thy ===== *)
theory Riscv_Props
  imports Riscv_Run Riscv_ALU_Lemmas
begin

text \<open>
  The properties of the hart's parts: arithmetic helpers, traps and interrupts, physical memory
  protection.
\<close>

lemma hart_ok_init: "hart_ok (riscv_cpu_init rv ce ci h)"
proof -
  let ?s = "riscv_cpu_init rv ce ci h"
  have cfg: "csr_pmpcfg ?s = (\<lambda>_. 0)" "pmp_n ?s = 0"
    by (simp_all add: riscv_cpu_init_def tlb_init_def zeroed_cpu_def)
  then have byte: "pmpcfg_byte ?s i = 0" for i by (simp add: pmpcfg_byte_def)
  then have "active_entries ?s 16 = []" by (simp add: active_entries_def pmp_entry_def Let_def)
  then have "pmp_unpacked ?s" using cfg by (simp add: unpacked_upto_def)
  moreover have "pmp_res_clear ?s" using byte by (simp add: pmp_res_clear_def)
  ultimately show ?thesis
    by (simp add: hart_ok_def) (simp add: riscv_cpu_init_def tlb_init_def zeroed_cpu_def satp_mode_ok_def)
qed

section \<open>Arithmetic\<close>

text \<open>
  C36. Signed and unsigned division and remainder on words of any width: quotient times divisor plus
  remainder is the dividend for every operand pair, including the divisor zero and the overflowing
  quotient; for a non-zero divisor the remainder is smaller than the divisor and, when signed, has
  the sign of the dividend; the quotient by zero has all bits set.
\<close>

theorem division_correct:
  fixes a b :: "'a::len word"
  shows "div_xlen a b * b + rem_xlen a b = a \<and> divu_xlen a b * b + remu_xlen a b = a \<and>
    (b \<noteq> 0 \<longrightarrow> \<bar>sint (rem_xlen a b)\<bar> < \<bar>sint b\<bar> \<and> remu_xlen a b < b \<and>
      (sint (rem_xlen a b) = 0 \<or> sgn (sint (rem_xlen a b)) = sgn (sint a))) \<and>
    (b = 0 \<longrightarrow> div_xlen a b = - 1 \<and> divu_xlen a b = - 1)"
  using div_rem_xlen [of a b] rem_xlen_sint [of b a] divu_remu_xlen [of a b] remu_xlen_less [of b a]
  by (auto simp: divu_xlen_def div_xlen_def)

theorem division_correct_witness:
  "(3 :: u64) \<noteq> 0 \<and> \<bar>sint (rem_xlen (- 7) 3 :: u64)\<bar> < \<bar>sint (3 :: u64)\<bar>"
  using division_correct [of "- 7 :: u64" 3] by simp

lemma sint_uint_sign: "sint (a :: 'a::len word) = uint a - of_bool (a <s 0) * 2 ^ LENGTH('a)"
proof -
  let ?top = "bit (uint a) (LENGTH('a) - Suc 0)"
  have e: "sint a = uint a - 2 ^ LENGTH('a) * of_bool ?top"
    using signed_take_bit_eq_take_bit_minus [of "LENGTH('a) - Suc 0" "uint a"]
    by (simp add: sint_uint take_bit_int_eq_self)
  then have "?top \<longleftrightarrow> sint a < 0" using uint_lt2p [of a] uint_ge_0 [of a] by (auto simp: not_less)
  then show ?thesis using e by (simp add: word_sless_alt)
qed

lemma mulh_wide_eq:
  "mulh_wide a b = mulhu_wide a b - (if a <s 0 then b else 0) - (if b <s 0 then a else 0)"
  "mulhsu_wide a b = mulhu_wide a b - (if a <s 0 then b else 0)" for a b :: "'a::len word"
proof -
  let ?L = "2 ^ LENGTH('a) :: int" and ?s = "of_bool (a <s 0) :: int" and ?t = "of_bool (b <s 0) :: int"
  have "sint a * sint b = uint a * uint b + (?s * ?t * ?L - ?s * uint b - ?t * uint a) * ?L"
    by (simp add: sint_uint_sign algebra_simps)
  then have "sint a * sint b div ?L = uint a * uint b div ?L + (?s * ?t * ?L - ?s * uint b - ?t * uint a)"
    by simp
  then show "mulh_wide a b = mulhu_wide a b - (if a <s 0 then b else 0) - (if b <s 0 then a else 0)"
    by (simp add: mulh_wide_def mulhu_wide_def word_of_int_2p_len)
  have "sint a * uint b = uint a * uint b + (- ?s * uint b) * ?L"
    by (simp add: sint_uint_sign algebra_simps)
  then have "sint a * uint b div ?L = uint a * uint b div ?L - ?s * uint b"
    using div_mult_self1 [of ?L "uint a * uint b" "- ?s * uint b"] by simp
  then show "mulhsu_wide a b = mulhu_wide a b - (if a <s 0 then b else 0)"
    by (simp add: mulhsu_wide_def mulhu_wide_def)
qed



section \<open>Traps\<close>

text \<open>
  C5. A trap taken in machine mode followed by \<open>mret\<close>: the hart is back at the (49-bit
  canonical) trapping address and privilege level, the interrupt enable bit MIE has its old value,
  MPIE is set and MPP is cleared; no other bit of mstatus changes.
\<close>

theorem mret_undoes_trap:
  assumes "\<not> delegated s cause" and "priv s \<le> 3"
  shows "let t = handle_mret (raise_exception2 cause tval s)
    in priv t = priv s \<and> pc t = CANONICAL_S49 (pc s) \<and>
       mstatus t = (mstatus s AND NOT MSTATUS_MPP) OR MSTATUS_MPIE"
  using mret_after_trap [OF assms] by simp

lemma delegated_M: "priv s = 3 \<Longrightarrow> \<not> delegated s cause"
  by (simp add: delegated_def word_le_nat_alt)

lemma priv_init [simp]: "priv (riscv_cpu_init rv ce ci h) = 3"
  by (simp add: riscv_cpu_init_def tlb_init_def)

theorem mret_undoes_trap_witness:
  "let s = riscv_cpu_init 0x80000000 False False 0; t = handle_mret (raise_exception2 2 0 s)
   in \<not> delegated s 2 \<and> priv t = 3"
  using mret_undoes_trap [of "riscv_cpu_init 0x80000000 False False 0" 2 0]
  by (simp add: delegated_M Let_def)

text \<open>
  The same for a trap delegated to supervisor mode and \<open>sret\<close>, with SIE, SPIE and SPP.
\<close>

theorem sret_undoes_trap:
  assumes "delegated s cause"
  shows "let t = handle_sret (raise_exception2 cause tval s)
    in priv t = priv s \<and> pc t = CANONICAL_S49 (pc s) \<and>
       mstatus t = (mstatus s AND NOT MSTATUS_SPP) OR MSTATUS_SPIE"
  using sret_after_trap [OF assms] by simp

theorem sret_undoes_trap_witness:
  "let s = zeroed_cpu\<lparr>medeleg := 0x100\<rparr>; t = handle_sret (raise_exception2 8 0 s)
   in delegated s 8 \<and> priv t = 0"
  using sret_undoes_trap [of "zeroed_cpu\<lparr>medeleg := 0x100\<rparr>" 8 0]
  by (simp add: delegated_def Let_def zeroed_cpu_def)

text \<open>
  The interrupt chosen from a non-empty mask is a pending one; among platform interrupts
  (12 to 31) the highest number wins, and they win over the standard ones, which are taken in
  the order 11, 3, 7, 10, 2, 6, 9, 1, 5, 8, 0, 4.
\<close>

theorem get_irq_num_priority:
  assumes "(msk :: u32) \<noteq> 0"
  shows "if msk \<ge> 2 ^ 12
    then get_irq_num msk \<ge> 12 \<and> get_irq_num msk \<le> 31 \<and> bit msk (nat (get_irq_num msk))
      \<and> (\<forall>j. int j > get_irq_num msk \<longrightarrow> \<not> bit msk j)
    else \<exists>us p vs. irq_priorities = us @ p # vs \<and> get_irq_num msk = int p \<and> bit msk p
      \<and> (\<forall>u \<in> set us. \<not> bit msk u)"
  using get_irq_num_platform [of msk] get_irq_num_local [OF assms] by (simp add: not_le)

theorem get_irq_num_priority_witness:
  "(0x888 :: u32) \<noteq> 0 \<and> (\<exists>us p vs. irq_priorities = us @ p # vs \<and> get_irq_num 0x888 = int p \<and> bit (0x888 :: u32) p
      \<and> (\<forall>u \<in> set us. \<not> bit (0x888 :: u32) u))"
  using get_irq_num_priority [of "0x888"] by simp

section \<open>Physical memory protection\<close>



end
