(* ===== verification/Riscv_Total.thy ===== *)
theory Riscv_Total
  imports Riscv_Run Softfp_Total
begin

text \<open>
  The interpreter always returns: none of its assertions fails, and the number of instructions
  it reports and the counters it advances stay within the number of cycles asked for.
\<close>

section \<open>No instruction fails an assertion\<close>

lemma fp_result_ok [simp]: "fst (fp_result rd r m) = ABORT \<longleftrightarrow> r = None"
  by (auto simp: fp_result_def split: prod.split option.split)

lemma returns: "\<exists>v. r = Some v \<Longrightarrow> r \<noteq> None"
  by auto

lemma load_store_ok:
  "nxt \<noteq> ABORT \<Longrightarrow> fst (load_then e k addr nxt f m) \<noteq> ABORT"
  "nxt \<noteq> ABORT \<Longrightarrow> fst (store_then e k addr v nxt m) \<noteq> ABORT"
  by (simp_all add: load_then_def store_then_def split: prod.split option.split)

lemma raise_jump_ok:
  "fst (raise_pending c t m) \<noteq> ABORT" "fst (jump_to k a m) \<noteq> ABORT"
  by (simp_all add: raise_pending_def jump_to_def)

lemma if_ok: "fst x \<noteq> ABORT \<Longrightarrow> fst y \<noteq> ABORT \<Longrightarrow> fst (if c then x else y) \<noteq> ABORT"
  by simp

lemma illegal_ok: "fst (ILLEGAL_INSN, m) \<noteq> ABORT"
  by simp

lemmas exec_ok = load_store_ok raise_jump_ok

lemma exec_c0_ok: "fst (exec_c0 e insn m) \<noteq> ABORT"
  by (simp add: exec_c0_def Let_def exec_ok)

lemma exec_c1_ok: "fst (exec_c1 gpc insn m) \<noteq> ABORT"
  by (simp add: exec_c1_def exec_c1_lui_def exec_c1_alu_def Let_def exec_ok)

lemma exec_c2_ok: "fst (exec_c2 e gpc insn m) \<noteq> ABORT"
  by (simp add: exec_c2_def exec_c2_jr_def Let_def exec_ok)

lemma exec_int_ok:
  "fst (exec_lui insn m) \<noteq> ABORT" "fst (exec_auipc gpc insn m) \<noteq> ABORT"
  "fst (exec_jal gpc insn m) \<noteq> ABORT" "fst (exec_jalr gpc insn m) \<noteq> ABORT"
  "fst (exec_branch gpc insn m) \<noteq> ABORT" "fst (exec_load e insn m) \<noteq> ABORT"
  "fst (exec_store e insn m) \<noteq> ABORT" "fst (exec_arith r insn m) \<noteq> ABORT"
  "fst (exec_misc_mem insn m) \<noteq> ABORT" "fst (exec_priv gpc insn m) \<noteq> ABORT"
  by (simp_all add: exec_lui_def exec_auipc_def exec_jal_def exec_jalr_def exec_branch_def exec_load_def
      exec_store_def exec_arith_def exec_misc_mem_def exec_priv_def Let_def exec_ok split: option.split)

lemma op_a_ok: "fst (op_a t e k insn m) \<noteq> ABORT"
  by (simp add: op_a_def Let_def exec_ok split: prod.split option.split)

lemma exec_amo_ok: "fst (exec_amo e insn m) \<noteq> ABORT"
  by (simp add: exec_amo_def Let_def op_a_ok)

lemma cvt_sf_total:
  assumes "sf_format TYPE('a::len)"
  shows "\<exists>v. (cvt_i_sf (x :: 'i::len word) rm fl :: ('a word \<times> u32) option) = Some v"
    and "\<exists>v. (cvt_u_sf x rm fl :: ('a word \<times> u32) option) = Some v"
  using cvt_int_sf_total [OF assms] by (simp_all add: cvt_i_sf_def cvt_u_sf_def)

lemma exec_fma_ok: "fst (exec_fma n1 n3 insn m) \<noteq> ABORT"
  by (simp add: exec_fma_def Let_def fma_sf_total [THEN returns] split: option.split)

lemma fp_template_ok:
  assumes f: "sf_format TYPE('a::len)" and L: "LENGTH('a) \<noteq> 128"
  shows "fst (fp_template TYPE('a) op insn m) \<noteq> ABORT"
proof -
  have "fst (fp_arith TYPE('a) op insn m) \<noteq> ABORT"
    by (simp add: fp_arith_def Let_def add_sf_total [OF f, THEN returns] sub_sf_total [OF f, THEN returns] mul_sf_total [OF f, THEN returns]
        div_sf_total [OF f, THEN returns] sqrt_sf_total [OF f L, THEN returns] split: option.split)
  moreover have "fst (int_to_fp TYPE('a) insn m) \<noteq> ABORT"
    by (simp add: int_to_fp_def Let_def cvt_sf_total [OF f, THEN returns] split: option.split)
  moreover have "cvt_sf64_sf32 a rm fl \<noteq> None" for a rm fl
    using cvt_narrow_sf_total [where 'a = 64 and 't = 32, of a rm fl] by (auto simp add: cvt_sf64_sf32_def)
  then have "fst (fp_to_fp TYPE('a) insn m) \<noteq> ABORT"
    by (simp add: fp_to_fp_def Let_def split: option.split)
  moreover have "fst (fp_to_int TYPE('a) insn m) \<noteq> ABORT" "fst (fp_compare TYPE('a) insn m) \<noteq> ABORT"
    by (simp_all add: fp_to_int_def fp_compare_def Let_def split: option.split prod.split)
  moreover have "fst (fp_sgnj TYPE('a) insn m) \<noteq> ABORT" "fst (fp_minmax TYPE('a) insn m) \<noteq> ABORT"
    "fst (fp_to_reg TYPE('a) insn m) \<noteq> ABORT" "fst (reg_to_fp TYPE('a) insn m) \<noteq> ABORT"
    by (simp_all add: fp_sgnj_def fp_minmax_def fp_to_reg_def reg_to_fp_def Let_def)
  ultimately show ?thesis by (simp add: fp_template_def)
qed

lemma exec_fp_ok:
  "fst (exec_fp insn m) \<noteq> ABORT" "fst (exec_fp_load e insn m) \<noteq> ABORT" "fst (exec_fp_store e insn m) \<noteq> ABORT"
  by (simp_all add: exec_fp_def exec_fp_load_def exec_fp_store_def Let_def fp_template_ok exec_ok)

section \<open>Counters\<close>

text \<open>\<open>delta\<close> is the number of cycles spent, which fits an \<open>int\<close>.\<close>

lemma update_counters_Some:
  assumes "j < 2 ^ 31"
  shows "\<exists>s'. update_counters (start + of_nat j) start s = Some s' \<and> insn_counter s' = start + of_nat j"
proof -
  have "take_bit 64 j = j" using assms by (intro take_bit_nat_eq_self) simp
  then have u: "ucast (of_nat j :: u64) = (of_nat j :: u32)" by (simp add: unsigned_of_nat)
  have "sint (of_nat j :: u32) = int j" using assms by (simp add: signed_of_nat signed_take_bit_int_eq_self)
  then have "\<not> (of_nat j :: u32) <s 0" by (simp add: word_sless_alt)
  with u show ?thesis by (simp add: update_counters_def Let_def)
qed

text \<open>The counter of the instruction at cycle \<open>n\<close> of a run over \<open>N\<close> cycles.\<close>

definition counting :: "nat \<Rightarrow> nat \<Rightarrow> interp_locals \<Rightarrow> bool" where
  "counting N c lo \<longleftrightarrow> c \<le> N \<and> N < 2 ^ 31 \<and> insn_counter_addend lo = insn_counter_start lo + of_nat c"

lemma counting_counter:
  "counting N c lo \<Longrightarrow> n \<le> c \<Longrightarrow> GET_INSN_COUNTER lo n = insn_counter_start lo + of_nat (c - n)"
  by (simp add: counting_def GET_INSN_COUNTER_def)

lemma the_end_Some:
  assumes "counting N c lo" "n \<le> c"
  shows "\<exists>m'. the_end n lo m = Some (insn_executed lo, m')
    \<and> insn_counter m' = insn_counter_start lo + of_nat (c - n)"
proof -
  have "c - n < 2 ^ 31" using assms by (auto simp: counting_def)
  from update_counters_Some [OF this, of "insn_counter_start lo" m]
  show ?thesis by (auto simp: the_end_def counting_counter [OF assms])
qed

lemma csr_finish_ok: "fst (csr_finish gpc rd v2 err m) \<noteq> ABORT"
  by (simp add: csr_finish_def Let_def)

lemma exec_csr_ok:
  assumes "update_counters counter start m = Some s"
  shows "fst (exec_csr e counter start gpc insn m) \<noteq> ABORT"
proof -
  obtain r u where r: "csr_read e (insn_funct3 insn AND 3) (drop_bit 20 insn)
      (insn_funct3 insn AND 3 = 1 \<or> insn_rs1 insn \<noteq> 0) s = (r, u)"
    by fastforce
  show ?thesis
  proof (cases r)
    case None
    then show ?thesis unfolding exec_csr_def Let_def assms option.case r by simp
  next
    case (Some v)
    show ?thesis
      unfolding exec_csr_def Let_def assms option.case r Some case_prod_beta fst_conv option.case
      by (intro if_ok csr_finish_ok)
  qed
qed

lemma exec_insn_ok:
  assumes "counting N c lo" "n \<le> c"
  shows "fst (exec_insn e (GET_INSN_COUNTER lo n) (insn_counter_start lo) gpc insn m) \<noteq> ABORT"
proof -
  have "c - n < 2 ^ 31" using assms by (auto simp: counting_def)
  from update_counters_Some [OF this, of "insn_counter_start lo" m]
  have "fst (exec_csr e (GET_INSN_COUNTER lo n) (insn_counter_start lo) gpc insn m) \<noteq> ABORT"
    unfolding counting_counter [OF assms] by (elim exE conjE) (rule exec_csr_ok)
  then show ?thesis
    unfolding exec_insn_def exec_base_def exec_system_def Let_def
    by (intro if_ok illegal_ok exec_c0_ok exec_c1_ok exec_c2_ok exec_int_ok exec_amo_ok exec_fma_ok exec_fp_ok)
qed

text \<open>Fetching moves only the code pointers.\<close>

lemma fetch_insn_locals:
  assumes "fetch_insn lo m = (r, lo', m')"
  shows "insn_counter_addend lo' = insn_counter_addend lo" "insn_counter_start lo' = insn_counter_start lo"
    "insn_executed lo' = insn_executed lo" "r \<noteq> Inl ABORT" "r = Inl x \<Longrightarrow> x = EXCEPTION \<or> x = THE_END"
  using assms
  by (auto simp: fetch_insn_def fetch_tlb_def Let_def split: if_splits prod.splits option.splits)

lemma interp_body_locals:
  assumes "interp_body e n lo m = (out, lo', m')" "counting N c lo" "n \<le> c"
  shows "counting N c lo'" "insn_counter_start lo' = insn_counter_start lo"
    "insn_executed lo' = insn_executed lo + 1" "out \<noteq> ABORT"
proof -
  obtain hit t where t: "check_triggers MCONTROL_EXECUTE (pc m) m = (hit, t)" by fastforce
  let ?lo = "lo\<lparr>insn_executed := insn_executed lo + 1\<rparr>"
  have c: "counting N c ?lo" using assms(2) by (simp add: counting_def)
  obtain r l u where f: "fetch_insn ?lo t = (r, l, u)" by (metis prod_cases3)
  note fl = fetch_insn_locals [OF f]
  have cl: "counting N c l" using c fl by (simp add: counting_def)
  have "lo' = (if hit then ?lo else l)" and o: "out \<noteq> ABORT"
    using assms(1) t f fl(4) exec_insn_ok [OF cl assms(3), of e _ _ u]
    by (auto simp: interp_body_def Let_def split: prod.splits sum.splits if_splits) (metis fst_conv)+
  then show "counting N c lo'" "insn_counter_start lo' = insn_counter_start lo"
    "insn_executed lo' = insn_executed lo + 1" "out \<noteq> ABORT"
    using c cl fl by simp_all
qed

section \<open>Runs return\<close>

text \<open>What a run that spent \<open>j\<close> of its cycles reports: an interrupt taken inside the loop is counted as an instruction.\<close>

definition run_result ::
  "nat \<Rightarrow> u64 \<Rightarrow> (int \<times> ('d, 'z) RISCVMachine_scheme) option \<Rightarrow> bool" where
  "run_result N start r \<longleftrightarrow> (\<exists>k m' j. r = Some (k, m') \<and> insn_counter m' = start + of_nat j
     \<and> (k = int j \<or> k = int j + 1) \<and> 0 \<le> k \<and> k \<le> int N)"

lemma the_end_result:
  assumes "counting N c lo" "n \<le> c"
    "insn_executed lo = int (c - n) \<or> insn_executed lo = int (c - n) + 1" "insn_executed lo \<le> int N"
  shows "run_result N (insn_counter_start lo) (the_end n lo m)"
  using the_end_Some [OF assms(1,2), of m] assms(3,4) by (auto simp: run_result_def)

lemma take_exception_result:
  assumes "counting N c lo" "Suc n \<le> c" "insn_executed lo = int (c - n)" "take_exception lo m = (lo', m')"
  shows "run_result N (insn_counter_start lo) (the_end n lo' m')"
proof -
  from assms(4) consider "lo' = lo"
    | "lo' = lo\<lparr>insn_counter_addend := insn_counter_addend lo - 1, insn_executed := insn_executed lo - 1\<rparr>"
    by (auto simp: take_exception_def Let_def split: if_splits)
  then show ?thesis
  proof cases
    case 1
    then show ?thesis using the_end_result [of N c lo n m'] assms by (simp add: counting_def)
  next
    case 2
    then have "counting N (c - 1) lo'" using assms(1,2) by (auto simp: counting_def)
    then show ?thesis using the_end_result [of N "c - 1" lo' n m'] assms 2 by (simp add: counting_def of_nat_diff)
  qed
qed

lemma leave_loop_result:
  assumes "counting N c lo" "0 < n" "n \<le> c" "insn_executed lo = int (c - n) + 1" "out \<noteq> ABORT"
  shows "run_result N (insn_counter_start lo) (leave_loop out n lo m)"
proof -
  have e: "insn_executed lo = int (c - (n - 1))" "insn_executed lo \<le> int N" "Suc (n - 1) \<le> c"
    using assms by (auto simp: counting_def)
  have "run_result N (insn_counter_start lo) (the_end n lo m)"
    "run_result N (insn_counter_start lo) (the_end (n - 1) lo m)"
    using assms e by (auto intro!: the_end_result)
  moreover have "run_result N (insn_counter_start lo)
      (case take_exception lo x of (lo, m) \<Rightarrow> the_end (n - 1) lo m)" for x :: "('a, 'b) RISCVMachine_scheme"
    using take_exception_result [OF assms(1) e(3,1)] by (auto split: prod.split)
  ultimately show ?thesis using assms(5) unfolding leave_loop_def by (cases out) simp_all
qed

lemma advance_locals:
  assumes "advance out lo m = Some (lo', m')"
  shows "insn_counter_addend lo' = insn_counter_addend lo" "insn_counter_start lo' = insn_counter_start lo"
    "insn_executed lo' = insn_executed lo"
  using assms by (auto simp: advance_def split: outcome.splits)

lemma interp_loop_result:
  "counting N N lo \<Longrightarrow> n \<le> Suc N \<Longrightarrow> 0 < n \<Longrightarrow> insn_executed lo = int (Suc N - n)
    \<Longrightarrow> run_result N (insn_counter_start lo) (interp_loop e n lo m)"
proof (induction e n lo m rule: interp_loop.induct)
  case (2 e n lo m)
  show ?case
  proof (cases "n = 0")
    case True
    then show ?thesis using 2 by (simp add: the_end_result)
  next
    case False
    let ?m = "m\<lparr>pc := GET_PC lo\<rparr>"
    obtain out l u where b: "interp_body e n lo ?m = (out, l, u)" by (metis prod_cases3)
    note bl = interp_body_locals [OF b 2(2)]
    have n: "n \<le> N" using 2 by simp
    show ?thesis
    proof (cases "advance out l u")
      case None
      have "run_result N (insn_counter_start lo) (leave_loop out n l u)"
        using leave_loop_result [of N N l n out u] bl n False 2(5) by simp
      then show ?thesis using False None b by simp
    next
      case (Some p)
      then obtain l2 u2 where p: "advance out l u = Some (l2, u2)" by fastforce
      note al = advance_locals [OF p]
      have "run_result N (insn_counter_start l2) (interp_loop e n l2 u2)"
        using 2(1) [OF refl False b [symmetric] refl p refl] bl al n False 2(5)
        by (simp add: counting_def)
      then show ?thesis using False p b al bl n by simp
    qed
  qed
qed simp

theorem interp64_returns:
  assumes "n < 2 ^ 31"
  shows "\<exists>k m' j. riscv_cpu_interp64 e n m = Some (k, m') \<and> insn_counter m' = insn_counter m + of_nat j
    \<and> (k = int j \<or> k = int j + 1) \<and> 0 \<le> k \<and> k \<le> int n"
proof -
  let ?m = "m\<lparr>most_recently_written_reg := - 1, most_recently_written_fp_reg := - 1, info := ctf_nop\<rparr>"
  let ?lo = "\<lparr>code_ptr = 0, code_end = 0, code_to_pc_addend = pc m, insn_counter_addend = insn_counter m + of_nat n,
    insn_counter_start = insn_counter m, insn_executed = 0\<rparr>"
  obtain taken u where t: "(if interrupts_enabled ?m then raise_interrupt ?m else (False, ?m)) = (taken, u)"
    by fastforce
  have "run_result n (insn_counter m) (riscv_cpu_interp64 e n m)"
  proof (cases "n = 0")
    case True
    then show ?thesis by (auto simp: riscv_cpu_interp64_def run_result_def Let_def intro: exI [of _ 0])
  next
    case False
    have "run_result n (insn_counter m) (interp_loop e (n + 1) ?lo (u\<lparr>pending_exception := - 1\<rparr>))"
      using interp_loop_result [of n ?lo "n + 1"] assms by (simp add: counting_def)
    moreover have "run_result n (insn_counter m)
        (the_end (n - 1) (?lo\<lparr>insn_counter_addend := insn_counter_addend ?lo - 1\<rparr>) u)"
      using the_end_result [of n "n - 1" "?lo\<lparr>insn_counter_addend := insn_counter_addend ?lo - 1\<rparr>" "n - 1" u]
        False assms by (simp add: counting_def of_nat_diff)
    ultimately show ?thesis using False t by (simp add: riscv_cpu_interp64_def Let_def)
  qed
  then show ?thesis by (simp add: run_result_def)
qed

end
