(* ===== verification/Run_Props.thy ===== *)
theory Run_Props
  imports Riscv_Total Riscv_Props Riscv_Example
begin

text \<open>
  Properties of whole runs of a hart and of the states its host can bring it into.
\<close>

section \<open>What the host does with a hart\<close>

text \<open>
  A hart under a host: the host runs it, moves its \<open>pc\<close>, overwrites registers with the values of a
  design under test, raises and clears interrupt lines, peeks at instructions, saves the
  registers for the next comparison, and writes memory and device state behind its back.
\<close>

inductive host_step ::
  "('d, 'z) RISCVMachine_scheme cpu_env \<Rightarrow> ('d, 'z) RISCVMachine_scheme \<Rightarrow> ('d, 'z) RISCVMachine_scheme \<Rightarrow> bool"
  for e where
  run: "riscv_cpu_interp e n m = Some (k, m') \<Longrightarrow> host_step e m m'"
| set_pc: "host_step e m (riscv_set_pc v m)"
| set_reg: "riscv_set_reg rn v m = Some m' \<Longrightarrow> host_step e m m'"
| sync_regs: "host_step e m (riscv_cpu_sync_regs m)"
| set_mip: "host_step e m (riscv_cpu_set_mip w m)"
| reset_mip: "host_step e m (riscv_cpu_reset_mip w m)"
| read_insn: "host_step e m (snd (riscv_read_insn addr m))"
| memory: "host_step e m (m\<lparr>ram := r, devs := d\<rparr>)"
| inject: "host_step e m (m\<lparr>pending_interrupt := i, cosim := c\<rparr>)"

text \<open>A machine whose hart was just created.\<close>

definition reset_machine :: "('d, 'z) RISCVMachine_scheme \<Rightarrow> bool" where
  "reset_machine m \<longleftrightarrow>
     (\<exists>rv ce ci h l. RISCVCPUState.truncate m = (riscv_cpu_init rv ce ci h)\<lparr>physical_addr_len := l\<rparr>)"

inductive hart_reachable ::
  "('d, 'z) RISCVMachine_scheme cpu_env \<Rightarrow> ('d, 'z) RISCVMachine_scheme \<Rightarrow> bool" for e where
  reset: "reset_machine m \<Longrightarrow> hart_reachable e m"
| step: "hart_reachable e m \<Longrightarrow> host_step e m m' \<Longrightarrow> hart_reachable e m'"

lemma hart_core_truncate: "hart_core (RISCVCPUState.truncate m) = hart_core m"
  by (simp add: hart_core_def RISCVCPUState.defs)

lemma hart_ok_reset: "reset_machine m \<Longrightarrow> hart_ok m"
proof -
  assume "reset_machine m"
  then obtain rv ce ci h l where "RISCVCPUState.truncate m = (riscv_cpu_init rv ce ci h)\<lparr>physical_addr_len := l\<rparr>"
    by (auto simp: reset_machine_def)
  then have "hart_core m = hart_core (riscv_cpu_init rv ce ci h)"
    using hart_core_truncate [of m] by (simp add: hart_core_def)
  then show "hart_ok m" using hart_ok_core hart_ok_init by metis
qed

lemma host_core:
  "riscv_set_reg rn v m = Some m' \<Longrightarrow> hart_core m' = hart_core m"
  "hart_core (riscv_set_pc w m) = hart_core m" "hart_core (riscv_cpu_sync_regs m) = hart_core m"
  "hart_core (riscv_cpu_set_mip x m) = hart_core m" "hart_core (riscv_cpu_reset_mip x m) = hart_core m"
  "hart_core (m\<lparr>ram := r, devs := d\<rparr>) = hart_core m"
  "hart_core (m\<lparr>pending_interrupt := i, cosim := c\<rparr>) = hart_core m"
  by (auto simp: riscv_set_reg_def riscv_set_pc_def riscv_cpu_sync_regs_def hart_core_def
      riscv_cpu_set_mip_def riscv_cpu_reset_mip_def Let_def split: if_splits)

context safe_env
begin

lemma host_step_keeps_ok: "host_step e m m' \<Longrightarrow> hart_ok m \<Longrightarrow> hart_ok m'"
proof (induction rule: host_step.induct)
  case (run n m k m')
  then show ?case using run_keeps_hart_ok by (simp add: riscv_cpu_interp_def)
next
  case (read_insn m addr)
  then have "hart_ok (snd (target_read_insn_slow 32 addr m))" by (rule hart.P_insn_slow)
  then show ?case by (rule hart_ok_core [THEN iffD1, rotated]) (simp add: riscv_read_insn_def case_prod_beta hart_core_def)
next
  case (set_reg rn v m m')
  then show ?case using hart_ok_core host_core(1) by metis
qed (simp_all only: hart_ok_core [OF host_core(2)] hart_ok_core [OF host_core(3)] hart_ok_core [OF host_core(4)]
     hart_ok_core [OF host_core(5)] hart_ok_core [OF host_core(6)] hart_ok_core [OF host_core(7)])

lemma reachable_ok: "hart_reachable e m \<Longrightarrow> hart_ok m"
  by (induction rule: hart_reachable.induct) (auto intro: hart_ok_reset host_step_keeps_ok)

end

section \<open>Properties\<close>

lemma example_reset: "reset_machine example_machine"
  unfolding reset_machine_def
  by (rule exI [of _ "0x80000000"], rule exI [of _ False], rule exI [of _ False], rule exI [of _ 0], rule exI [of _ 40])
    (simp add: example_machine_def example_cpu_def RISCVCPUState.defs RISCVMachine.defs)

text \<open>A board without devices.\<close>

definition bare_env :: "(unit, 'z) RISCVMachine_scheme cpu_env" where
  "bare_env = board_env (\<lambda>_ _ _ d. (0, d, 0)) (\<lambda>_ _ _ _ d. (d, 0, 0)) id"

lemma bare_env_safe: "env_safe bare_env"
  unfolding bare_env_def by (rule board.safe)





text \<open>
  C3. A locked PMP entry stays as it is over every run, whatever software does in any privilege
  mode: its configuration byte and the range it protects do not change.
\<close>

theorem locked_pmp_entry_kept:
  assumes "env_safe e" and "pmp_res_clear m" and "i < 8" and "pmpcfg_byte m i AND PMPCFG_L \<noteq> 0"
    and "riscv_cpu_interp e n m = Some (k, m')"
  shows "pmpcfg_byte m' i = pmpcfg_byte m i \<and> pmp_entry m' i = pmp_entry m i"
  using safe_env.run_keeps_locked [OF safe_env.intro [OF assms(1)], of n m k m' i "pmpcfg_byte m i" "pmp_entry m i"] assms
  by (simp add: pmp_locked_def riscv_cpu_interp_def)

text \<open>Entry 0 locked (NAPOT, no permissions).\<close>

definition locked_example :: "unit RISCVMachine" where
  "locked_example = example_machine\<lparr>csr_pmpcfg := (\<lambda>_. 0)(0 := 0x98), csr_pmpaddr := (\<lambda>_. 0)(0 := 0x200001ff)\<rparr>"

theorem locked_pmp_entry_kept_witness:
  "\<exists>k m'. riscv_cpu_interp bare_env 100 locked_example = Some (k, m')
     \<and> pmpcfg_byte locked_example 0 AND PMPCFG_L \<noteq> 0 \<and> pmpcfg_byte m' 0 = pmpcfg_byte locked_example 0"
proof -
  obtain k m' where r: "riscv_cpu_interp bare_env 100 locked_example = Some (k, m')"
    using interp64_returns [of 100 bare_env locked_example] by (auto simp: riscv_cpu_interp_def)
  have b: "pmpcfg_byte locked_example i = (if i = 0 then 0x98 else 0)" for i
  proof (cases "i < 8")
    case True
    then have "i \<in> {0, 1, 2, 3, 4, 5, 6, 7}" by auto
    then show ?thesis by (auto simp: pmpcfg_byte_def locked_example_def drop_bit_eq_div)
  qed (simp add: pmpcfg_byte_def locked_example_def)
  then have "pmp_res_clear locked_example" by (simp add: pmp_res_clear_def)
  then show ?thesis using r locked_pmp_entry_kept [OF bare_env_safe _ _ _ r, of 0] b [of 0] by simp
qed

end
