(* ===== verification/Uart.thy ===== *)
theory Uart
  imports Iomem
begin

text \<open>
  The serial devices: the DesignWare UART (\<open>src/dw_apb_uart.cpp\<close>), the SiFive UART of
  \<open>src/riscv_machine.cpp\<close>, and the console they are connected to
  (\<open>console_read\<close> and \<open>console_write\<close> of \<open>src/dromajo_main.cpp\<close>).  The devices
  reach the console and their interrupt line through the function pointers of
  \<open>CharacterDevice\<close> and \<open>IRQSignal\<close>: these are the fields of \<open>uart_io\<close>, functions on
  the state \<open>'w\<close> of the world around the device.  A failed assertion is \<open>None\<close>.
\<close>

section \<open>The world of a UART\<close>

text \<open>
  \<open>cs_read old w\<close> is \<open>read_data(opaque, &c, 1)\<close> on a variable holding \<open>old\<close>: the content
  of the variable afterwards, whether the result is non-zero, and the world.
\<close>

record 'w uart_io =
  cs_read :: "u8 \<Rightarrow> 'w \<Rightarrow> u8 \<times> bool \<times> 'w"
  cs_write :: "u8 \<Rightarrow> 'w \<Rightarrow> 'w"
  irq_line :: "bool \<Rightarrow> 'w \<Rightarrow> 'w"

section \<open>DesignWare UART\<close>

text \<open>
  The fields the code uses (\<open>rx_fifo\<close>, \<open>rx_fifo_len\<close> and \<open>fcr\<close> are never
  accessed); \<open>last_irq_level\<close> is 0 or 1.
\<close>

record DW_apb_uart_state =
  last_irq_level :: bool
  div_latch :: u16
  rhr :: u8
  ier :: u8
  isr :: u8
  lcr :: u8
  mcr :: u8
  lsr :: u8
  msr :: u8
  spr :: u8

text \<open>\<open>calloc\<close>\<close>

definition dw_uart_init :: DW_apb_uart_state where
  "dw_uart_init = \<lparr>last_irq_level = False, div_latch = 0, rhr = 0, ier = 0, isr = 0, lcr = 0,
     mcr = 0, lsr = 0, msr = 0, spr = 0\<rparr>"

type_synonym 'w dw = "DW_apb_uart_state \<times> 'w"

definition isr_nibble :: "DW_apb_uart_state \<Rightarrow> u8" where
  "isr_nibble s =
     (if ier s AND 4 \<noteq> 0 \<and> lsr s AND 30 \<noteq> 0 then 6
      else if ier s AND 1 \<noteq> 0 \<and> lsr s AND 1 \<noteq> 0 then 4
      else if ier s AND 2 \<noteq> 0 \<and> lsr s AND 32 \<noteq> 0 then 2
      else if ier s AND 8 \<noteq> 0 \<and> msr s AND 15 \<noteq> 15 then 0
      else 1)"

definition update_isr :: "'w uart_io \<Rightarrow> 'w dw \<Rightarrow> 'w dw" where
  "update_isr io = (\<lambda>(s, w).
     let s = s\<lparr>isr := (isr s AND 0xf0) + isr_nibble s\<rparr>;
         irq_level = (isr s AND 1 = 0)
     in if last_irq_level s \<noteq> irq_level then (s\<lparr>last_irq_level := irq_level\<rparr>, irq_line io irq_level w)
        else (s, w))"

definition dw_apb_uart_poll :: "'w uart_io \<Rightarrow> 'w dw \<Rightarrow> 'w dw" where
  "dw_apb_uart_poll io = (\<lambda>(s, w).
     if lsr s AND 1 = 0 then
       case cs_read io (rhr s) w of (c, got, w) \<Rightarrow>
         update_isr io (s\<lparr>rhr := c, lsr := lsr s OR b2w got\<rparr>, w)
     else (s, w))"

text \<open>\<open>lcr\<close> bit 7 (DLAB) selects the divisor latch.\<close>

definition dlab :: "DW_apb_uart_state \<Rightarrow> bool" where
  "dlab s \<longleftrightarrow> lcr s AND 0x80 \<noteq> 0"

definition read_rhr :: "'w uart_io \<Rightarrow> 'w dw \<Rightarrow> u8 \<times> 'w dw" where
  "read_rhr io = (\<lambda>(s, w).
     if dlab s then (ucast (div_latch s AND 255), s, w)
     else (rhr s, update_isr io (s\<lparr>lsr := lsr s AND NOT 1 AND NOT 30\<rparr>, w)))"

definition write_thr :: "'w uart_io \<Rightarrow> u8 \<Rightarrow> 'w dw \<Rightarrow> 'w dw" where
  "write_thr io v = (\<lambda>(s, w).
     if dlab s then (s\<lparr>div_latch := (div_latch s AND NOT 255) + ucast v\<rparr>, w)
     else
       let w = cs_write io v w
       in dw_apb_uart_poll io (update_isr io (s\<lparr>lsr := lsr s AND NOT 0x60\<rparr>, w)))"

definition read_ier :: "DW_apb_uart_state \<Rightarrow> u8" where
  "read_ier s = (if dlab s then ucast (drop_bit 8 (div_latch s)) else ier s)"

definition write_ier :: "'w uart_io \<Rightarrow> u8 \<Rightarrow> 'w dw \<Rightarrow> 'w dw" where
  "write_ier io v = (\<lambda>(s, w).
     if dlab s then (s\<lparr>div_latch := (div_latch s AND 255) + ucast v * 256\<rparr>, w)
     else update_isr io (s\<lparr>ier := v AND 0xff\<rparr>, w))"

definition read_lsr :: "'w uart_io \<Rightarrow> 'w dw \<Rightarrow> u8 \<times> 'w dw" where
  "read_lsr io = (\<lambda>(s, w).
     let s = s\<lparr>lsr := (lsr s OR 0x60) AND NOT 0x9e\<rparr>;
         (s, w) = update_isr io (dw_apb_uart_poll io (s, w))
     in (lsr s, s, w))"

definition read_msr :: "'w uart_io \<Rightarrow> 'w dw \<Rightarrow> u8 \<times> 'w dw" where
  "read_msr io = (\<lambda>(s, w). (msr s, update_isr io (s\<lparr>msr := msr s AND NOT 15\<rparr>, w)))"

definition dw_apb_uart_read :: "'w uart_io \<Rightarrow> u32 \<Rightarrow> 'w dw \<Rightarrow> (u32 \<times> 'w dw) option" where
  "dw_apb_uart_read io offset = (\<lambda>(s, w).
     if \<not> (offset mod 4 = 0 \<and> offset < 256) then None
     else
       let r = offset div 4
       in Some (if r = 0 then apfst ucast (read_rhr io (s, w))
                else if r = 1 then (ucast (read_ier s), s, w)
                else if r = 2 then (ucast (isr s), s, w)
                else if r = 3 then (ucast (lcr s), s, w)
                else if r = 4 then (ucast (mcr s), s, w)
                else if r = 5 then apfst ucast (read_lsr io (s, w))
                else if r = 6 then apfst ucast (read_msr io (s, w))
                else if r = 7 then (ucast (spr s), s, w)
                else (0, s, w)))"

definition dw_apb_uart_write :: "'w uart_io \<Rightarrow> u32 \<Rightarrow> u32 \<Rightarrow> 'w dw \<Rightarrow> 'w dw option" where
  "dw_apb_uart_write io offset v = (\<lambda>(s, w).
     if \<not> (offset mod 4 = 0 \<and> offset < 256) then None
     else
       let r = offset div 4; v = ucast (v AND 255) :: u8
       in Some (if r = 0 then write_thr io v (s, w)
                else if r = 1 then write_ier io v (s, w)
                else if r = 3 then (s\<lparr>lcr := v\<rparr>, w)
                else if r = 4 then (s\<lparr>mcr := v\<rparr>, w)
                else if r = 7 then (s\<lparr>spr := v\<rparr>, w)
                else (s, w)))"

section \<open>SiFive UART\<close>

record SiFiveUARTState =
  si_rx_fifo_len :: u32
  si_ie :: u32
  si_txctrl :: u32
  si_rxctrl :: u32
  si_div :: u32

definition sifive_uart_init :: SiFiveUARTState where
  "sifive_uart_init = \<lparr>si_rx_fifo_len = 0, si_ie = 0, si_txctrl = 0, si_rxctrl = 0, si_div = 0\<rparr>"

text \<open>\<open>uart_update_irq\<close> only prints a message.\<close>

definition uart_read :: "'w uart_io \<Rightarrow> u32 \<Rightarrow> SiFiveUARTState \<times> 'w \<Rightarrow> u32 \<times> SiFiveUARTState \<times> 'w" where
  "uart_read io offset = (\<lambda>(s, w).
     if offset = 4 then
       (case cs_read io 0 w of (r, ret, w) \<Rightarrow> (if ret then ucast r else 0x80000000, s, w))
     else if offset = 0 then (0, s, w)
     else if offset = 16 then (si_ie s, s, w)
     else if offset = 20 then (if si_rx_fifo_len s \<noteq> 0 then 2 else 0, s, w)
     else if offset = 8 then (si_txctrl s, s, w)
     else if offset = 12 then (si_rxctrl s, s, w)
     else if offset = 24 then (si_div s, s, w)
     else (0, s, w))"

definition uart_write ::
  "'w uart_io \<Rightarrow> u32 \<Rightarrow> u32 \<Rightarrow> SiFiveUARTState \<times> 'w \<Rightarrow> SiFiveUARTState \<times> 'w" where
  "uart_write io offset v = (\<lambda>(s, w).
     if offset = 0 then (s, cs_write io (ucast v) w)
     else if offset = 16 then (s\<lparr>si_ie := v\<rparr>, w)
     else if offset = 8 then (s\<lparr>si_txctrl := v\<rparr>, w)
     else if offset = 12 then (s\<lparr>si_rxctrl := v\<rparr>, w)
     else if offset = 24 then (s\<lparr>si_div := v\<rparr>, w)
     else (s, w))"

section \<open>Console\<close>

text \<open>
  The standard streams: the bytes available on the input, the bytes written, and whether
  \<open>exit\<close> was called (\<open>C-b x\<close>).
\<close>

record STDIODevice =
  stdin_bytes :: "u8 list"
  stdout_bytes :: "u8 list"
  console_esc_state :: bool
  console_exit :: bool

definition console_write :: "u8 \<Rightarrow> 'z STDIODevice_scheme \<Rightarrow> 'z STDIODevice_scheme" where
  "console_write ch s = s\<lparr>stdout_bytes := stdout_bytes s @ [ch]\<rparr>"

text \<open>\<open>console_read\<close> with \<open>len\<close> 1 (the only value used), on a buffer holding \<open>old\<close>.\<close>

definition console_read ::
  "u8 \<Rightarrow> 'z STDIODevice_scheme \<Rightarrow> u8 \<times> bool \<times> 'z STDIODevice_scheme" where
  "console_read old s =
     (case stdin_bytes s of
        [] \<Rightarrow> (old, False, s)
      | ch # rest \<Rightarrow>
          let s = s\<lparr>stdin_bytes := rest\<rparr>
          in if console_esc_state s then
               let s = s\<lparr>console_esc_state := False\<rparr>
               in if ch = 0x78 then (ch, False, s\<lparr>console_exit := True\<rparr>)
                  else (ch, ch = 1, s)
             else if ch = 2 then (ch, False, s\<lparr>console_esc_state := True\<rparr>)
             else (ch, True, s))"

end
