(* ===== verification/Board.thy ===== *)
theory Board
  imports Riscv_Api Uart
begin

text \<open>
  The machine around the harts (\<open>src/riscv_machine.cpp\<close>): the state shared by all harts, the
  core-local interruptor (CLINT), the platform interrupt controller (PLIC), the wiring of the
  UARTs, and the loop that runs the harts (\<open>virt_machine_run\<close> of
  \<open>src/dromajo_main.cpp\<close>, \<open>iterate_core\<close> of \<open>src/dromajo.cpp\<close>).
\<close>

section \<open>The machine\<close>

text \<open>
  \<open>struct RISCVMachine\<close> with the \<open>VirtMachine\<close> fields the model uses.  \<open>cpu_state\<close> has
  \<open>ncpus\<close> harts; the static array \<open>plic_priority\<close>, host memory, the console and the UARTs
  the memory map points to are part of the record.  \<open>board_aborted\<close> records that an assertion
  failed or a null pointer of \<open>cpu_state\<close> was followed.
\<close>

record Board =
  cpu_state :: "nat \<Rightarrow> RISCVCPUState"
  ncpus :: nat
  board_ram :: host_mem
  board_map :: PhysMemoryMap
  board_pending_interrupt :: int
  board_pending_exception :: int
  board_cosim :: bool
  maxinsns :: u64
  plic_pending_irq :: u32
  plic_served_irq :: u32
  plic_priority :: "nat \<Rightarrow> u32"
  htif_tohost_addr :: u64
  fromhost_addr :: u64
  board_stdio :: STDIODevice
  sifive_uart :: SiFiveUARTState
  dw_uart :: DW_apb_uart_state
  board_aborted :: bool

text \<open>
  A hart sees the board through its pointer \<open>machine\<close>: \<open>hart_view i b\<close> is hart \<open>i\<close> with
  what it reaches, \<open>put_view i m\<close> the board after the hart has changed its state, the memory and
  the devices.
\<close>

definition hart_view :: "nat \<Rightarrow> 'v Board_scheme \<Rightarrow> 'v Board_scheme RISCVMachine" where
  "hart_view i b = RISCVCPUState.extend (cpu_state b i)
     (RISCVMachine.fields (board_ram b) (board_map b) b (board_pending_interrupt b) (board_cosim b))"

definition put_view :: "nat \<Rightarrow> 'v Board_scheme RISCVMachine \<Rightarrow> 'v Board_scheme" where
  "put_view i m = (devs m)\<lparr>cpu_state := (cpu_state (devs m))(i := RISCVCPUState.truncate m),
     board_ram := ram m, board_map := mem_map m, board_pending_interrupt := pending_interrupt m,
     board_cosim := cosim m\<rparr>"

definition on_hart ::
  "nat \<Rightarrow> ('v Board_scheme RISCVMachine \<Rightarrow> 'v Board_scheme RISCVMachine) \<Rightarrow> 'v Board_scheme \<Rightarrow> 'v Board_scheme" where
  "on_hart i f b = put_view i (f (hart_view i b))"

definition abort_board :: "'v Board_scheme \<Rightarrow> 'v Board_scheme" where
  "abort_board b = b\<lparr>board_aborted := True\<rparr>"

section \<open>CLINT\<close>

abbreviation (input) RTC_FREQ_DIV :: u64 where "RTC_FREQ_DIV \<equiv> 2000"

definition rtc_get_time :: "'v Board_scheme \<Rightarrow> u64" where
  "rtc_get_time b = mcycle (cpu_state b 0) div RTC_FREQ_DIV"

definition clint_width :: "nat \<Rightarrow> u32 \<Rightarrow> u32" where
  "clint_width size_log2 v = (if size_log2 = 1 then v AND 0xffff else v)"

definition clint_read :: "u32 \<Rightarrow> nat \<Rightarrow> 'v Board_scheme \<Rightarrow> u32" where
  "clint_read offset size_log2 b =
     (let v =
        (if offset < 0x4000 then
           let hartid = unat (drop_bit 2 offset)
           in if ncpus b \<le> hartid then 0 else b2w (mip (cpu_state b hartid) AND MIP_MSIP \<noteq> 0)
         else if offset = 0xbff8 then ucast (rtc_get_time b)
         else if offset = 0xbffc then ucast (drop_bit 32 (rtc_get_time b))
         else if offset < 0xbff8 then
           let hartid = unat (drop_bit 3 (offset - 0x4000))
           in if ncpus b \<le> hartid then 0
              else if drop_bit 2 offset AND 1 \<noteq> 0 then ucast (drop_bit 32 (timecmp (cpu_state b hartid)))
              else ucast (timecmp (cpu_state b hartid))
         else 0)
      in clint_width size_log2 v)"

definition update_cpu :: "nat \<Rightarrow> (RISCVCPUState \<Rightarrow> RISCVCPUState) \<Rightarrow> 'v Board_scheme \<Rightarrow> 'v Board_scheme" where
  "update_cpu i f b = b\<lparr>cpu_state := (cpu_state b)(i := f (cpu_state b i))\<rparr>"

text \<open>
  In the write of the low half of \<open>mtimecmp\<close> the mask \<open>~0xffffffff\<close> is the complement of an
  \<open>unsigned int\<close>, that is 0, so the high half is cleared.
\<close>

definition clint_write :: "u32 \<Rightarrow> u32 \<Rightarrow> nat \<Rightarrow> 'v Board_scheme \<Rightarrow> 'v Board_scheme" where
  "clint_write offset v size_log2 b =
     (let v = clint_width size_log2 v
      in if offset < 0x4000 then
           let hartid = unat (drop_bit 2 offset)
           in if ncpus b \<le> hartid then b
              else if v AND 1 \<noteq> 0 then on_hart hartid (riscv_cpu_set_mip MIP_MSIP) b
              else on_hart hartid (riscv_cpu_reset_mip MIP_MSIP) b
         else if offset = 0xbff8 then
           let mtime = (rtc_get_time b AND 0xffffffff00000000) + ucast v
           in update_cpu 0 (\<lambda>s. s\<lparr>mcycle := mtime * RTC_FREQ_DIV\<rparr>) b
         else if offset = 0xbffc then
           let mtime = (rtc_get_time b AND 0xffffffff) + push_bit 32 (ucast v)
           in update_cpu 0 (\<lambda>s. s\<lparr>mcycle := mtime * RTC_FREQ_DIV\<rparr>) b
         else if offset < 0xbff8 then
           let hartid = unat (drop_bit 3 (offset - 0x4000))
           in if ncpus b \<le> hartid then b
              else if drop_bit 2 offset AND 1 \<noteq> 0 then
                on_hart hartid (riscv_cpu_reset_mip MIP_MTIP)
                  (update_cpu hartid (\<lambda>s. s\<lparr>timecmp := (timecmp s AND 0xffffffff) OR push_bit 32 (ucast v)\<rparr>) b)
              else
                on_hart hartid (riscv_cpu_reset_mip MIP_MTIP)
                  (update_cpu hartid (\<lambda>s. s\<lparr>timecmp := (timecmp s AND ucast (NOT (0xffffffff :: u32))) OR ucast v\<rparr>) b)
         else b)"

section \<open>PLIC\<close>

abbreviation (input) MAX_CPUS :: u32 where "MAX_CPUS \<equiv> 8"
abbreviation (input) PLIC_NUM_SOURCES :: u32 where "PLIC_NUM_SOURCES \<equiv> 127"
abbreviation (input) PLIC_PRIORITY_BASE :: u32 where "PLIC_PRIORITY_BASE \<equiv> 4"
abbreviation (input) PLIC_PENDING_BASE :: u32 where "PLIC_PENDING_BASE \<equiv> 0x1000"
abbreviation (input) PLIC_ENABLE_BASE :: u32 where "PLIC_ENABLE_BASE \<equiv> 0x2000"
abbreviation (input) PLIC_ENABLE_STRIDE :: u32 where "PLIC_ENABLE_STRIDE \<equiv> 0x80"
abbreviation (input) PLIC_CONTEXT_BASE :: u32 where "PLIC_CONTEXT_BASE \<equiv> 0x200000"
abbreviation (input) PLIC_CONTEXT_STRIDE :: u32 where "PLIC_CONTEXT_STRIDE \<equiv> 0x1000"

definition plic_mask :: "'v Board_scheme \<Rightarrow> u32" where
  "plic_mask b = plic_pending_irq b AND NOT (plic_served_irq b)"

definition plic_update_mip :: "nat \<Rightarrow> 'v Board_scheme \<Rightarrow> 'v Board_scheme" where
  "plic_update_mip hartid b =
     (let upd = (\<lambda>ctx mip_mask b.
            if plic_mask b AND plic_enable_irq (cpu_state b hartid) ctx \<noteq> 0
            then on_hart hartid (riscv_cpu_set_mip mip_mask) b
            else on_hart hartid (riscv_cpu_reset_mip mip_mask) b)
      in upd 1 MIP_MEIP (upd 0 MIP_SEIP b))"

text \<open>\<open>None\<close>: the assertion on the width fails, or \<open>cpu_state[hartid]\<close> is a null pointer.\<close>

definition plic_read :: "u32 \<Rightarrow> nat \<Rightarrow> 'v Board_scheme \<Rightarrow> (u32 \<times> 'v Board_scheme) option" where
  "plic_read offset size_log2 b =
     (if size_log2 \<noteq> 2 then None
      else if PLIC_PRIORITY_BASE \<le> offset \<and> offset < PLIC_PRIORITY_BASE + push_bit 2 PLIC_NUM_SOURCES then
        Some (plic_priority b (unat (drop_bit 2 (offset - PLIC_PRIORITY_BASE))), b)
      else if PLIC_PENDING_BASE \<le> offset \<and> offset < PLIC_PENDING_BASE + drop_bit 3 PLIC_NUM_SOURCES then
        Some (if offset = PLIC_PENDING_BASE then plic_pending_irq b else 0, b)
      else if PLIC_ENABLE_BASE \<le> offset \<and> offset < PLIC_ENABLE_BASE + PLIC_ENABLE_STRIDE * MAX_CPUS then
        let addrid = unat ((offset - PLIC_ENABLE_BASE) div PLIC_ENABLE_STRIDE); hartid = addrid div 2
        in Some (if hartid < ncpus b then plic_enable_irq (cpu_state b hartid) (addrid mod 2) else 0, b)
      else if PLIC_CONTEXT_BASE \<le> offset \<and> offset < PLIC_CONTEXT_BASE + PLIC_CONTEXT_STRIDE * MAX_CPUS then
        let hartid = unat ((offset - PLIC_CONTEXT_BASE) div PLIC_CONTEXT_STRIDE);
            wordid = drop_bit 2 (offset AND (PLIC_CONTEXT_STRIDE - 1));
            msk = plic_mask b
        in if wordid = 1 \<and> msk \<noteq> 0 then
             let i = ctz32 msk;
                 b = b\<lparr>plic_served_irq := plic_served_irq b OR push_bit i 1,
                       plic_pending_irq := plic_pending_irq b AND NOT (push_bit i 1)\<rparr>
             in if hartid < ncpus b then Some (of_nat i, plic_update_mip hartid b) else None
           else Some (0, b)
      else Some (0, b))"

definition plic_write :: "u32 \<Rightarrow> u32 \<Rightarrow> nat \<Rightarrow> 'v Board_scheme \<Rightarrow> 'v Board_scheme option" where
  "plic_write offset v size_log2 b =
     (if size_log2 \<noteq> 2 then None
      else if PLIC_PRIORITY_BASE \<le> offset \<and> offset < PLIC_PRIORITY_BASE + push_bit 2 PLIC_NUM_SOURCES then
        Some (b\<lparr>plic_priority := (plic_priority b)(unat (drop_bit 2 (offset - PLIC_PRIORITY_BASE)) := v AND 7)\<rparr>)
      else if PLIC_PENDING_BASE \<le> offset \<and> offset < PLIC_PENDING_BASE + drop_bit 3 PLIC_NUM_SOURCES then Some b
      else if PLIC_ENABLE_BASE \<le> offset \<and> offset < PLIC_ENABLE_BASE + PLIC_ENABLE_STRIDE * MAX_CPUS then
        let addrid = unat ((offset - PLIC_ENABLE_BASE) div PLIC_ENABLE_STRIDE); hartid = addrid div 2
        in Some (if hartid < ncpus b
                 then update_cpu hartid (\<lambda>s. s\<lparr>plic_enable_irq := (plic_enable_irq s)(addrid mod 2 := v)\<rparr>) b
                 else b)
      else if PLIC_CONTEXT_BASE \<le> offset \<and> offset < PLIC_CONTEXT_BASE + PLIC_CONTEXT_STRIDE * MAX_CPUS then
        let wordid = drop_bit 2 (offset AND (PLIC_CONTEXT_STRIDE - 1))
        in Some (if wordid = 0 then b\<lparr>plic_priority := (plic_priority b)(0 := v)\<rparr>
                 else if wordid = 1 then
                   b\<lparr>plic_served_irq := plic_served_irq b AND NOT (push_bit (unat (v AND 31)) 1)\<rparr>
                 else b)
      else Some b)"

definition plic_set_irq :: "nat \<Rightarrow> bool \<Rightarrow> 'v Board_scheme \<Rightarrow> 'v Board_scheme" where
  "plic_set_irq irq_num state b =
     (let b = (if state then b\<lparr>plic_pending_irq := plic_pending_irq b OR push_bit irq_num 1\<rparr>
               else b\<lparr>plic_pending_irq := plic_pending_irq b AND NOT (push_bit irq_num 1)\<rparr>)
      in fold plic_update_mip [0..<ncpus b] b)"

section \<open>Devices\<close>

text \<open>
  The console and an interrupt line of the PLIC as seen from a UART.  Both DesignWare UARTs are
  registered with the state of the first one, whose line is \<open>DW_APB_UART0_IRQ\<close> = 3.
\<close>

definition board_io :: "nat \<Rightarrow> 'v Board_scheme uart_io" where
  "board_io irq =
     \<lparr>cs_read = (\<lambda>old b. case console_read old (board_stdio b) of (c, got, s) \<Rightarrow> (c, got, b\<lparr>board_stdio := s\<rparr>)),
      cs_write = (\<lambda>ch b. b\<lparr>board_stdio := console_write ch (board_stdio b)\<rparr>),
      irq_line = plic_set_irq irq\<rparr>"

text \<open>
  The registered callbacks, by the number that stands for their \<open>opaque\<close> pointer: 0 the SiFive
  UART, 1 the DesignWare UART, 2 the CLINT, 3 the PLIC, and from 4 on the devices of the virtio
  bus, which are parameters.
\<close>

record 'b bus =
  bus_read :: "nat \<Rightarrow> u32 \<Rightarrow> nat \<Rightarrow> 'b \<Rightarrow> u32 \<times> 'b"
  bus_write :: "nat \<Rightarrow> u32 \<Rightarrow> u32 \<Rightarrow> nat \<Rightarrow> 'b \<Rightarrow> 'b"

definition board_read ::
  "'v Board_scheme bus \<Rightarrow> nat \<Rightarrow> u32 \<Rightarrow> nat \<Rightarrow> 'v Board_scheme \<Rightarrow> u32 \<times> 'v Board_scheme" where
  "board_read bus k offset size_log2 b =
     (if k = 0 then
        case uart_read (board_io 3) offset (sifive_uart b, b) of (v, s, b) \<Rightarrow> (v, b\<lparr>sifive_uart := s\<rparr>)
      else if k = 1 then
        case dw_apb_uart_read (board_io 3) offset (dw_uart b, b) of
          None \<Rightarrow> (0, abort_board b)
        | Some (v, s, b) \<Rightarrow> (v, b\<lparr>dw_uart := s\<rparr>)
      else if k = 2 then (clint_read offset size_log2 b, b)
      else if k = 3 then
        case plic_read offset size_log2 b of None \<Rightarrow> (0, abort_board b) | Some r \<Rightarrow> r
      else bus_read bus k offset size_log2 b)"

definition board_write ::
  "'v Board_scheme bus \<Rightarrow> nat \<Rightarrow> u32 \<Rightarrow> u32 \<Rightarrow> nat \<Rightarrow> 'v Board_scheme \<Rightarrow> 'v Board_scheme" where
  "board_write bus k offset v size_log2 b =
     (if k = 0 then
        case uart_write (board_io 3) offset v (sifive_uart b, b) of (s, b) \<Rightarrow> b\<lparr>sifive_uart := s\<rparr>
      else if k = 1 then
        case dw_apb_uart_write (board_io 3) offset v (dw_uart b, b) of
          None \<Rightarrow> abort_board b
        | Some (s, b) \<Rightarrow> b\<lparr>dw_uart := s\<rparr>
      else if k = 2 then clint_write offset v size_log2 b
      else if k = 3 then
        case plic_write offset v size_log2 b of None \<Rightarrow> abort_board b | Some b \<Rightarrow> b
      else bus_write bus k offset v size_log2 b)"

text \<open>What hart \<open>i\<close> calls; the machine installs no CSR hooks of its own.\<close>

definition hart_env ::
  "'v Board_scheme bus \<Rightarrow> (u64 \<Rightarrow> u64) \<Rightarrow> nat \<Rightarrow> 'v Board_scheme RISCVMachine cpu_env" where
  "hart_env bus mmio i =
     \<lparr>dev_read = (\<lambda>k offset sz m. case board_read bus k offset sz (put_view i m) of (v, b) \<Rightarrow> (v, hart_view i b)),
      dev_write = (\<lambda>k offset v sz m. hart_view i (board_write bus k offset v sz (put_view i m))),
      hook_csr_read = None, hook_csr_write = None, mmio_value = mmio\<rparr>"

section \<open>Creation\<close>

text \<open>
  The devices of \<open>virt_machine_init\<close> in the order they are registered (before the virtio
  devices), after RAM and boot ROM.
\<close>

abbreviation (input) DEVIO_ALL :: u32 where "DEVIO_ALL \<equiv> DEVIO_SIZE32 OR DEVIO_SIZE16 OR DEVIO_SIZE8"

definition register_devices :: "u64 \<Rightarrow> u64 \<Rightarrow> u64 \<Rightarrow> u64 \<Rightarrow> PhysMemoryMap \<Rightarrow> PhysMemoryMap option" where
  "register_devices clint_base clint_size plic_base plic_size mm =
     Option.bind (cpu_register_device mm 0x54000000 32 0 DEVIO_SIZE32) (\<lambda>mm.
     Option.bind (cpu_register_device mm 0x12002000 0x1000 1 DEVIO_ALL) (\<lambda>mm.
     Option.bind (cpu_register_device mm 0x12007000 0x1000 1 DEVIO_ALL) (\<lambda>mm.
     Option.bind (cpu_register_device mm clint_base clint_size 2 DEVIO_ALL) (\<lambda>mm.
     cpu_register_device mm plic_base plic_size 3 DEVIO_SIZE32))))"

text \<open>The harts and interrupt controllers as \<open>virt_machine_init\<close> leaves them; memory is filled by \<open>copy_kernel\<close>.\<close>

definition board_init ::
  "nat \<Rightarrow> u64 \<Rightarrow> bool \<Rightarrow> bool \<Rightarrow> nat \<Rightarrow> host_mem \<Rightarrow> PhysMemoryMap \<Rightarrow> STDIODevice \<Rightarrow> u64 \<Rightarrow> u64 \<Rightarrow> u64 \<Rightarrow> Board option" where
  "board_init n rv ce ci pal mem mm stdio tohost fromhost maxi =
     (if 8 < n then None
      else Some \<lparr>cpu_state = (\<lambda>i. (riscv_cpu_init rv ce ci (of_nat i))\<lparr>physical_addr_len := pal, debug_mode := True\<rparr>),
        ncpus = n, board_ram = mem, board_map = mm,
        board_pending_interrupt = - 1, board_pending_exception = - 1, board_cosim = False, maxinsns = maxi,
        plic_pending_irq = 0, plic_served_irq = 0, plic_priority = (\<lambda>_. 0),
        htif_tohost_addr = tohost, fromhost_addr = fromhost, board_stdio = stdio,
        sifive_uart = sifive_uart_init, dw_uart = dw_uart_init, board_aborted = False\<rparr>)"

section \<open>Running\<close>

text \<open>The \<open>int64_t\<close> difference decides whether the timer has expired.\<close>

definition virt_machine_get_sleep_duration :: "nat \<Rightarrow> int \<Rightarrow> 'v Board_scheme \<Rightarrow> int \<times> 'v Board_scheme" where
  "virt_machine_get_sleep_duration hartid ms_delay b =
     (let s = cpu_state b hartid; d = timecmp s - rtc_get_time b;
          (ms_delay, b) =
            (if mip s AND MIP_MTIP = 0 \<and> rtc_get_time b > 0 then
               if d \<le>s 0 then (0, on_hart hartid (riscv_cpu_set_mip MIP_MTIP) b)
               else
                 let ms = sint d div 1000
                 in (if ms < ms_delay then ms else ms_delay, b)
             else (ms_delay, b))
      in (if power_down_flag (cpu_state b hartid) then ms_delay else 0, b))"

text \<open>
  The HTIF requests after an instruction.  A failed physical read gives the value 0; \<open>None\<close> is
  one of the calls of \<open>exit\<close>.
\<close>

definition phys_value :: "nat \<Rightarrow> ('d, 'z) RISCVMachine_scheme \<Rightarrow> u64 \<Rightarrow> u64" where
  "phys_value k m a = (case riscv_phys_read k m a of None \<Rightarrow> 0 | Some v \<Rightarrow> v)"

fun htif_chars :: "('d, 'z) RISCVMachine_scheme \<Rightarrow> u64 \<Rightarrow> nat list \<Rightarrow> u8 list option" where
  "htif_chars m addr [] = Some []"
| "htif_chars m addr (i # is) =
     (case riscv_phys_read 3 m (addr + of_nat i) of
        None \<Rightarrow> None
      | Some v \<Rightarrow> map_option ((#) (ucast v)) (htif_chars m addr is))"

definition htif_print :: "nat \<Rightarrow> u32 \<Rightarrow> 'v Board_scheme \<Rightarrow> 'v Board_scheme option" where
  "htif_print hartid tohost b =
     (let m = hart_view hartid b; addr = phys_value 3 m (ucast (tohost + 16));
          len = phys_value 3 m (ucast (tohost + 24))
      in if riscv_phys_read 3 m (ucast tohost) \<noteq> Some 64 then None
         else
           case htif_chars m addr [0..<unat len] of
             None \<Rightarrow> None
           | Some cs \<Rightarrow>
               let m = (case riscv_phys_write 3 m (htif_tohost_addr b) 0 of None \<Rightarrow> m | Some m \<Rightarrow> m)
               in case riscv_phys_write 3 m (fromhost_addr b) 1 of
                    None \<Rightarrow> None
                  | Some m \<Rightarrow>
                      let b = put_view hartid m; io = board_stdio b
                      in Some (b\<lparr>board_stdio := io\<lparr>stdout_bytes := stdout_bytes io @ cs\<rparr>\<rparr>))"

text \<open>\<open>None\<close>: the simulator exits or aborts; otherwise whether to keep going.\<close>

definition virt_machine_run ::
  "'v Board_scheme bus \<Rightarrow> (u64 \<Rightarrow> u64) \<Rightarrow> nat \<Rightarrow> 'v Board_scheme \<Rightarrow> (bool \<times> 'v Board_scheme) option" where
  "virt_machine_run bus mmio hartid b =
     (let b = snd (virt_machine_get_sleep_duration hartid 10 b)
      in case riscv_cpu_interp64 (hart_env bus mmio hartid) 1 (hart_view hartid b) of
           None \<Rightarrow> None
         | Some (k, m) \<Rightarrow>
             let b = put_view hartid m;
                 go_on = (\<not> terminate_simulation (cpu_state b hartid) \<and> maxinsns b > 0)
             in if htif_tohost_addr b = 0 then Some (go_on, b)
                else
                  case riscv_phys_read 2 (hart_view hartid b) (htif_tohost_addr b) of
                    None \<Rightarrow> Some (go_on, b)
                  | Some tohost \<Rightarrow>
                      if tohost AND 1 \<noteq> 0 then
                        Some (False, if tohost \<noteq> 1 then update_cpu hartid (\<lambda>s. s\<lparr>benchmark_exit_code := tohost\<rparr>) b else b)
                      else if tohost \<noteq> 0 then map_option (Pair True) (htif_print hartid (ucast tohost) b)
                      else Some (go_on, b))"

text \<open>\<open>iterate_core\<close> without its trace output; the result says whether to keep going.\<close>

definition iterate_core ::
  "'v Board_scheme bus \<Rightarrow> (u64 \<Rightarrow> u64) \<Rightarrow> nat \<Rightarrow> 'v Board_scheme \<Rightarrow> (bool \<times> 'v Board_scheme) option" where
  "iterate_core bus mmio hartid b =
     (let stop = (maxinsns b = 0); b = b\<lparr>maxinsns := maxinsns b - 1\<rparr>
      in if stop then Some (False, b)
         else
           let last_pc = pc (cpu_state b hartid);
               b = on_hart hartid (\<lambda>m. snd (riscv_read_insn last_pc m)) b
           in case virt_machine_run bus mmio hartid b of
                None \<Rightarrow> None
              | Some (keep_going, b) \<Rightarrow>
                  Some (pc (cpu_state b hartid) \<noteq> last_pc \<and> keep_going, b))"

text \<open>One round of the main loop over all harts.\<close>

fun iterate_cores ::
  "'v Board_scheme bus \<Rightarrow> (u64 \<Rightarrow> u64) \<Rightarrow> nat list \<Rightarrow> 'v Board_scheme \<Rightarrow> (bool \<times> 'v Board_scheme) option" where
  "iterate_cores bus mmio [] b = Some (False, b)"
| "iterate_cores bus mmio (i # is) b =
     (case iterate_core bus mmio i b of
        None \<Rightarrow> None
      | Some (k, b) \<Rightarrow> map_option (\<lambda>(ks, b). (k \<or> ks, b)) (iterate_cores bus mmio is b))"

text \<open>The main loop, for a number of rounds; \<open>False\<close> in the result: the simulation has ended.\<close>

fun main_loop ::
  "'v Board_scheme bus \<Rightarrow> (u64 \<Rightarrow> u64) \<Rightarrow> nat \<Rightarrow> 'v Board_scheme \<Rightarrow> (bool \<times> 'v Board_scheme) option" where
  "main_loop bus mmio 0 b = Some (True, b)"
| "main_loop bus mmio (Suc n) b =
     (case iterate_cores bus mmio [0..<ncpus b] b of
        None \<Rightarrow> None
      | Some (keep_going, b) \<Rightarrow> if keep_going then main_loop bus mmio n b else Some (False, b))"

end
