(* ===== verification/Uart_Lemmas.thy ===== *)
theory Uart_Lemmas
  imports Uart
begin

text \<open>
  The DesignWare UART as a pair of byte queues with a level-triggered interrupt: every access
  keeps the bytes in order, and the interrupt line follows the enabled conditions.
\<close>

section \<open>Accesses of a driver\<close>

datatype uart_op = Rd u32 | Wr u32 u32

text \<open>
  One access, with the byte received and the byte transmitted by it: a read of the receive
  register while data is ready, a write of the transmit register, both with DLAB clear.
\<close>

definition uart_access ::
  "'w uart_io \<Rightarrow> uart_op \<Rightarrow> 'w dw \<Rightarrow> (u8 list \<times> u8 list \<times> 'w dw) option" where
  "uart_access io op d =
     (case op of
        Rd offset \<Rightarrow>
          map_option (\<lambda>(v, d').
            (if offset = 0 \<and> \<not> dlab (fst d) \<and> odd (lsr (fst d)) then [ucast v] else [], [], d'))
            (dw_apb_uart_read io offset d)
      | Wr offset v \<Rightarrow>
          map_option (\<lambda>d'. ([], if offset = 0 \<and> \<not> dlab (fst d) then [ucast v] else [], d'))
            (dw_apb_uart_write io offset v d))"

fun uart_run :: "'w uart_io \<Rightarrow> uart_op list \<Rightarrow> 'w dw \<Rightarrow> (u8 list \<times> u8 list \<times> 'w dw) option" where
  "uart_run io [] d = Some ([], [], d)"
| "uart_run io (op # ops) d =
     (case uart_access io op d of
        None \<Rightarrow> None
      | Some (r, t, d') \<Rightarrow>
          map_option (\<lambda>(rs, ts, d''). (r @ rs, t @ ts, d'')) (uart_run io ops d'))"

section \<open>The interrupt condition\<close>

definition uart_condition :: "DW_apb_uart_state \<Rightarrow> bool" where
  "uart_condition s \<longleftrightarrow> ier s AND 4 \<noteq> 0 \<and> lsr s AND 30 \<noteq> 0 \<or> ier s AND 1 \<noteq> 0 \<and> lsr s AND 1 \<noteq> 0
     \<or> ier s AND 2 \<noteq> 0 \<and> lsr s AND 32 \<noteq> 0 \<or> ier s AND 8 \<noteq> 0 \<and> msr s AND 15 \<noteq> 15"

lemma nibble_even [simp]: "even (x AND 0xf0 :: u8)" "even (isr_nibble s) \<longleftrightarrow> uart_condition s"
  by (simp_all add: even_and_iff) (auto simp: isr_nibble_def uart_condition_def)

text \<open>The status register and the recorded level agree with the condition.\<close>

definition irq_synced :: "DW_apb_uart_state \<Rightarrow> bool" where
  "irq_synced s \<longleftrightarrow> (last_irq_level s \<longleftrightarrow> uart_condition s) \<and> (even (isr s) \<longleftrightarrow> uart_condition s)"

text \<open>The bytes the driver has not read yet: the one in the holding register, then those outside.\<close>

definition uart_rx :: "('w \<Rightarrow> u8 list) \<Rightarrow> 'w dw \<Rightarrow> u8 list" where
  "uart_rx incoming d = (if odd (lsr (fst d)) then [rhr (fst d)] else []) @ incoming (snd d)"

lemma ucast_ucast_u8: "ucast (ucast (x :: u8) :: u32) = x"
  by (rule bit_word_eqI) (auto simp: bit_simps)

locale char_device =
  fixes io :: "'w uart_io"
    and incoming :: "'w \<Rightarrow> u8 list"
    and sent :: "'w \<Rightarrow> u8 list"
    and line :: "'w \<Rightarrow> bool"
  assumes read_byte: "cs_read io old w = (c, True, w') \<Longrightarrow> incoming w = c # incoming w'"
    and read_nothing: "cs_read io old w = (c, False, w') \<Longrightarrow> incoming w' = incoming w"
    and read_frame: "cs_read io old w = (c, got, w') \<Longrightarrow> sent w' = sent w \<and> line w' = line w"
    and write_sent: "sent (cs_write io b w) = sent w @ [b]"
    and write_frame: "incoming (cs_write io b w) = incoming w" "line (cs_write io b w) = line w"
    and irq_line: "line (irq_line io l w) = l"
    and irq_frame: "incoming (irq_line io l w) = incoming w" "sent (irq_line io l w) = sent w"
begin

abbreviation rx :: "'w dw \<Rightarrow> u8 list" where "rx \<equiv> uart_rx incoming"

abbreviation line_known :: "'w dw \<Rightarrow> bool" where
  "line_known d \<equiv> line (snd d) = last_irq_level (fst d)"

abbreviation synced :: "'w dw \<Rightarrow> bool" where
  "synced d \<equiv> irq_synced (fst d) \<and> line_known d"

lemma update_isr_frame [simp]:
  "lsr (fst (update_isr io d)) = lsr (fst d)" "rhr (fst (update_isr io d)) = rhr (fst d)"
  "lcr (fst (update_isr io d)) = lcr (fst d)" "ier (fst (update_isr io d)) = ier (fst d)"
  "incoming (snd (update_isr io d)) = incoming (snd d)" "sent (snd (update_isr io d)) = sent (snd d)"
  by (simp_all add: update_isr_def irq_frame Let_def split: prod.split)

lemma update_isr_rx [simp]: "rx (update_isr io d) = rx d"
  by (simp add: uart_rx_def)

lemma update_isr_level:
  "last_irq_level (fst (update_isr io (s, w))) = uart_condition s"
  "even (isr (fst (update_isr io (s, w)))) = uart_condition s"
  "uart_condition (fst (update_isr io (s, w))) = uart_condition s"
  by (simp_all add: update_isr_def Let_def and_1_odd) (simp_all add: uart_condition_def)

lemma update_isr_line: "line_known d \<Longrightarrow> line_known (update_isr io d)"
  by (cases d) (simp add: update_isr_def Let_def irq_line)

lemma update_isr_synced: "line_known d \<Longrightarrow> synced (update_isr io d)"
  using update_isr_line [of d] by (cases d) (simp add: irq_synced_def update_isr_level)

lemma poll_cases:
  obtains "odd (lsr s)" "dw_apb_uart_poll io (s, w) = (s, w)"
  | c w' where "even (lsr s)" "cs_read io (rhr s) w = (c, True, w')"
    "dw_apb_uart_poll io (s, w) = update_isr io (s\<lparr>rhr := c, lsr := lsr s OR 1\<rparr>, w')"
  | c w' where "even (lsr s)" "cs_read io (rhr s) w = (c, False, w')"
    "dw_apb_uart_poll io (s, w) = update_isr io (s\<lparr>rhr := c\<rparr>, w')"
proof (cases "odd (lsr s)")
  case True
  then show ?thesis by (intro that(1)) (simp_all add: dw_apb_uart_poll_def and_1_odd)
next
  case False
  obtain c got w' where "cs_read io (rhr s) w = (c, got, w')" by (metis prod_cases3)
  with False show ?thesis
    using that(2) [of c w'] that(3) [of c w'] by (cases got) (simp_all add: dw_apb_uart_poll_def and_1_odd)
qed

lemma poll_frame:
  "lcr (fst (dw_apb_uart_poll io (s, w))) = lcr s" "sent (snd (dw_apb_uart_poll io (s, w))) = sent w"
  by (cases s w rule: poll_cases; simp add: read_frame)+

lemma poll_rx: "rx (dw_apb_uart_poll io (s, w)) = rx (s, w)"
  by (cases s w rule: poll_cases) (simp_all add: uart_rx_def read_byte read_nothing even_or_iff)

lemma poll_line: "line_known (s, w) \<Longrightarrow> line_known (dw_apb_uart_poll io (s, w))"
  by (cases s w rule: poll_cases) (simp_all add: update_isr_line read_frame)

lemma poll_synced: "synced (s, w) \<Longrightarrow> synced (dw_apb_uart_poll io (s, w))"
  by (cases s w rule: poll_cases) (simp_all add: update_isr_synced read_frame)

lemma read_lsr_correct:
  assumes "read_lsr io (s, w) = (v, d')" "line_known (s, w)"
  shows "rx d' = rx (s, w)" "sent (snd d') = sent w" "synced d'" "v = lsr (fst d')"
proof -
  let ?s = "s\<lparr>lsr := (lsr s OR 0x60) AND NOT 0x9e\<rparr>"
  have "d' = update_isr io (dw_apb_uart_poll io (?s, w)) \<and> v = lsr (fst d')"
    using assms(1) unfolding read_lsr_def prod.case Let_def case_prod_beta prod.collapse by fastforce
  then have d': "d' = update_isr io (dw_apb_uart_poll io (?s, w))" "v = lsr (fst d')" by blast+
  have "odd (lsr ?s) = odd (lsr s)" by (simp add: even_and_iff even_or_iff even_not_iff)
  then have "rx (?s, w) = rx (s, w)" by (simp add: uart_rx_def)
  then show "rx d' = rx (s, w)" "sent (snd d') = sent w" "v = lsr (fst d')"
    using d' poll_rx [of ?s w] poll_frame(2) [of ?s w] by simp_all
  show "synced d'" unfolding d'(1) by (rule update_isr_synced [OF poll_line]) (use assms(2) in simp)
qed

lemma read_rhr_correct:
  assumes "read_rhr io (s, w) = (v, d')" "\<not> dlab s"
  shows "rx (s, w) = (if odd (lsr s) then [v] else []) @ rx d'" "sent (snd d') = sent w"
    "line_known (s, w) \<Longrightarrow> synced d'"
proof -
  have d: "d' = update_isr io (s\<lparr>lsr := lsr s AND NOT 1 AND NOT 30\<rparr>, w)" "v = rhr s"
    using assms by (simp_all add: read_rhr_def)
  show "rx (s, w) = (if odd (lsr s) then [v] else []) @ rx d'" "sent (snd d') = sent w"
    by (simp_all add: d uart_rx_def even_and_iff even_not_iff)
  show "line_known (s, w) \<Longrightarrow> synced d'" unfolding d by (rule update_isr_synced) simp
qed

lemma write_thr_correct:
  assumes "write_thr io v (s, w) = d'" "\<not> dlab s"
  shows "rx d' = rx (s, w)" "sent (snd d') = sent w @ [v]" "line_known (s, w) \<Longrightarrow> line_known d'"
    "line_known (s, w) \<Longrightarrow> synced d'"
proof -
  let ?d = "update_isr io (s\<lparr>lsr := lsr s AND NOT 0x60\<rparr>, cs_write io v w)"
  have d: "d' = dw_apb_uart_poll io (fst ?d, snd ?d)" using assms by (simp add: write_thr_def)
  have "rx ?d = rx (s, w)" "sent (snd ?d) = sent w @ [v]"
    by (simp_all add: uart_rx_def even_and_iff even_not_iff write_frame write_sent)
  then show "rx d' = rx (s, w)" "sent (snd d') = sent w @ [v]"
    using poll_rx [of "fst ?d" "snd ?d"] poll_frame(2) [of "fst ?d" "snd ?d"] by (simp_all add: d)
  have "line_known (s, w) \<Longrightarrow> synced ?d" by (rule update_isr_synced) (simp add: write_frame)
  then show "line_known (s, w) \<Longrightarrow> synced d'" "line_known (s, w) \<Longrightarrow> line_known d'"
    using poll_synced [of "fst ?d" "snd ?d"] poll_line [of "fst ?d" "snd ?d"] by (simp_all add: d)
qed

lemma pure_update:
  "ier s' = ier s \<Longrightarrow> lsr s' = lsr s \<Longrightarrow> msr s' = msr s \<Longrightarrow> isr s' = isr s \<Longrightarrow> rhr s' = rhr s
    \<Longrightarrow> last_irq_level s' = last_irq_level s \<Longrightarrow> rx (s', w) = rx (s, w) \<and> (synced (s, w) \<longrightarrow> synced (s', w))"
  by (simp add: uart_rx_def irq_synced_def uart_condition_def)

lemma read_cases:
  assumes "dw_apb_uart_read io offset (s, w) = Some (v, d')"
  obtains (rhr) "offset = 0" "\<not> dlab s" "read_rhr io (s, w) = (ucast v, d')"
    | (lsr) "offset \<noteq> 0" "read_lsr io (s, w) = (lsr (fst d'), d')"
    | (msr) "offset \<noteq> 0" "d' = update_isr io (s\<lparr>msr := msr s AND NOT 15\<rparr>, w)"
    | (other) "offset \<noteq> 0 \<or> dlab s" "d' = (s, w)"
proof -
  have off: "offset mod 4 = 0" "offset < 256" using assms by (auto simp: dw_apb_uart_read_def split: if_splits)
  have z: "offset div 4 = 0 \<longleftrightarrow> offset = 0" using off(1) div_mult_mod_eq [of offset 4] by auto
  note r = assms [unfolded dw_apb_uart_read_def prod.case Let_def]
  consider "offset = 0" | "offset div 4 = 5" | "offset div 4 = 6" | "offset \<noteq> 0" "offset div 4 \<noteq> 5" "offset div 4 \<noteq> 6"
    by blast
  then show ?thesis
  proof cases
    case 1
    then show ?thesis using r rhr other by (cases "dlab s") (auto simp: read_rhr_def ucast_ucast_u8)
  next
    case 2
    then show ?thesis
      using r z off lsr by (auto simp: read_lsr_def Let_def case_prod_beta ucast_ucast_u8)
  next
    case 3
    then show ?thesis using r z off msr by (auto simp: read_msr_def)
  next
    case 4
    then show ?thesis using r z off other by (auto split: if_splits)
  qed
qed

text \<open>An access that receives \<open>r\<close> and transmits \<open>t\<close>.\<close>

abbreviation transfers :: "'w dw \<Rightarrow> u8 list \<Rightarrow> u8 list \<Rightarrow> 'w dw \<Rightarrow> bool" where
  "transfers d r t d' \<equiv> rx d = r @ rx d' \<and> sent (snd d') = sent (snd d) @ t \<and> synced d'"

lemma read_correct:
  assumes "dw_apb_uart_read io offset (s, w) = Some (v, d')" "synced (s, w)"
  shows "transfers (s, w) (if offset = 0 \<and> \<not> dlab s \<and> odd (lsr s) then [ucast v] else []) [] d'"
  using assms(1)
proof (cases rule: read_cases)
  case rhr
  then show ?thesis using read_rhr_correct [OF rhr(3,2)] assms(2) by auto
next
  case lsr
  then show ?thesis using read_lsr_correct [OF lsr(2)] assms(2) by simp
next
  case msr
  have "synced d'" unfolding msr by (rule update_isr_synced) (use assms(2) in simp)
  then show ?thesis using msr by (simp add: uart_rx_def)
qed (use assms(2) in auto)

lemma write_cases:
  assumes "dw_apb_uart_write io offset v (s, w) = Some d'"
  obtains (thr) "offset = 0" "\<not> dlab s" "write_thr io (ucast v) (s, w) = d'"
    | (ier) "offset \<noteq> 0" "d' = update_isr io (s\<lparr>ier := ucast v AND 0xff\<rparr>, w)"
    | (other) s' where "offset \<noteq> 0 \<or> dlab s" "d' = (s', w)" "ier s' = ier s" "lsr s' = lsr s" "msr s' = msr s"
        "isr s' = isr s" "rhr s' = rhr s" "last_irq_level s' = last_irq_level s"
proof -
  define q where "q = offset div 4"
  have c: "offset mod 4 = 0 \<and> offset < 256" using assms by (auto simp: dw_apb_uart_write_def split: if_splits)
  then have z: "q = 0 \<longleftrightarrow> offset = 0" using div_mult_mod_eq [of offset 4] by (auto simp: q_def)
  have m: "(255 :: u32) = mask 8" by (simp add: mask_eq_exp_minus_1)
  have v: "(ucast (v AND 255) :: u8) = ucast v" unfolding m by (rule bit_word_eqI) (auto simp: bit_simps)
  have r: "d' = (if q = 0 then write_thr io (ucast v) (s, w)
      else if q = 1 then write_ier io (ucast v) (s, w)
      else if q = 3 then (s\<lparr>lcr := ucast v\<rparr>, w)
      else if q = 4 then (s\<lparr>mcr := ucast v\<rparr>, w)
      else if q = 7 then (s\<lparr>spr := ucast v\<rparr>, w) else (s, w))"
    using assms c unfolding dw_apb_uart_write_def prod.case Let_def v q_def [symmetric] by simp
  show ?thesis
  proof (cases "dlab s")
    case True
    then show ?thesis
      using r by (intro other [of "fst d'"]) (simp_all add: write_thr_def write_ier_def split: if_splits)
  next
    case False
    then show ?thesis
      using r z thr ier other [of "fst d'"] by (cases "q = 0"; cases "q = 1") (auto simp: write_ier_def)
  qed
qed

lemma write_correct:
  assumes "dw_apb_uart_write io offset v (s, w) = Some d'" "synced (s, w)"
  shows "transfers (s, w) [] (if offset = 0 \<and> \<not> dlab s then [ucast v] else []) d'"
  using assms(1)
proof (cases rule: write_cases)
  case thr
  then show ?thesis using write_thr_correct [OF thr(3,2)] assms(2) by simp
next
  case ier
  have "synced d'" unfolding ier by (rule update_isr_synced) (use assms(2) in simp)
  then show ?thesis using ier by (simp add: uart_rx_def)
next
  case (other s')
  then show ?thesis using assms(2) pure_update [of s' s w] by auto
qed

lemma access_transfers:
  assumes "uart_access io op d = Some (r, t, d')" "synced d"
  shows "transfers d r t d'"
proof (cases op)
  case (Rd offset)
  then show ?thesis
    using assms read_correct [of offset "fst d" "snd d"] by (auto simp: uart_access_def)
next
  case (Wr offset v)
  then show ?thesis
    using assms write_correct [of offset v "fst d" "snd d"] by (auto simp: uart_access_def)
qed

lemma run_transfers:
  "uart_run io ops d = Some (r, t, d') \<Longrightarrow> synced d \<Longrightarrow> transfers d r t d'"
proof (induction ops arbitrary: d r t d')
  case (Cons op ops)
  from Cons.prems(1) obtain r1 t1 e r2 t2 where
    s: "uart_access io op d = Some (r1, t1, e)" "uart_run io ops e = Some (r2, t2, d')" "r = r1 @ r2" "t = t1 @ t2"
    by (auto split: option.splits)
  have "transfers d r1 t1 e" by (rule access_transfers [OF s(1) Cons.prems(2)])
  then show ?case using Cons.IH [OF s(2)] s(3,4) by simp
qed simp

text \<open>Reset leaves the status register out of step; the first write to IER repairs it.\<close>

lemma init_then_ier_synced:
  assumes "\<not> line w" "dw_apb_uart_write io 4 v (dw_uart_init, w) = Some d"
  shows "synced d"
  using assms update_isr_synced [of "(dw_uart_init\<lparr>ier := ucast (v AND 255) AND 0xff\<rparr>, w)"]
  by (auto simp: dw_apb_uart_write_def write_ier_def dlab_def dw_uart_init_def)

end

text \<open>The assertions on the offset hold for aligned accesses to the first 256 bytes.\<close>

definition uart_op_ok :: "uart_op \<Rightarrow> bool" where
  "uart_op_ok op \<longleftrightarrow> (case op of Rd offset \<Rightarrow> offset mod 4 = 0 \<and> offset < 256
     | Wr offset v \<Rightarrow> offset mod 4 = 0 \<and> offset < 256)"

lemma uart_access_returns: "uart_op_ok op \<longleftrightarrow> uart_access io op d \<noteq> None"
  unfolding uart_op_ok_def uart_access_def dw_apb_uart_read_def dw_apb_uart_write_def Let_def case_prod_beta
  by (cases op) (simp_all only: uart_op.case option.map split: if_split, simp_all)

lemma uart_run_returns: "list_all uart_op_ok ops \<Longrightarrow> \<exists>r t d'. uart_run io ops d = Some (r, t, d')"
proof (induction ops arbitrary: d)
  case (Cons op ops)
  then obtain r t e where e: "uart_access io op d = Some (r, t, e)" using uart_access_returns [of op io d] by auto
  obtain r2 t2 f where "uart_run io ops e = Some (r2, t2, f)" using Cons.IH [of e] Cons.prems by auto
  with e show ?case by simp
qed simp

end
