(* ===== verification/Board_Lemmas.thy ===== *)
theory Board_Lemmas
  imports Board Uart_Lemmas Riscv_Total
begin

text \<open>
  Facts about the board: what its devices leave alone, the state of the PLIC, and the safety of
  the callbacks it gives to a hart.
\<close>

section \<open>Views\<close>

lemma hart_view_simps [simp]:
  "RISCVCPUState.truncate (hart_view i b) = cpu_state b i" "ram (hart_view i b) = board_ram b"
  "mem_map (hart_view i b) = board_map b" "devs (hart_view i b) = b"
  "pending_interrupt (hart_view i b) = board_pending_interrupt b" "cosim (hart_view i b) = board_cosim b"
  by (simp_all add: hart_view_def RISCVCPUState.defs RISCVMachine.defs)

lemma hart_view_fields [simp]:
  "mip (hart_view i b) = mip (cpu_state b i)" "mie (hart_view i b) = mie (cpu_state b i)"
  "power_down_flag (hart_view i b) = power_down_flag (cpu_state b i)"
  "hart_core (hart_view i b) = hart_core (cpu_state b i)"
  by (simp_all add: hart_view_def RISCVCPUState.defs RISCVMachine.defs hart_core_def)

lemma put_view_simps [simp]:
  "cpu_state (put_view i m) = (cpu_state (devs m))(i := RISCVCPUState.truncate m)"
  "plic_pending_irq (put_view i m) = plic_pending_irq (devs m)" "plic_served_irq (put_view i m) = plic_served_irq (devs m)"
  "ncpus (put_view i m) = ncpus (devs m)" "board_stdio (put_view i m) = board_stdio (devs m)"
  "board_ram (put_view i m) = ram m" "board_map (put_view i m) = mem_map m"
  "plic_priority (put_view i m) = plic_priority (devs m)" "dw_uart (put_view i m) = dw_uart (devs m)"
  "sifive_uart (put_view i m) = sifive_uart (devs m)"
  by (simp_all add: put_view_def)

text \<open>An interrupt line of one hart changes its \<open>mip\<close> and may wake it up, nothing else.\<close>

definition cpu_set_mip :: "u32 \<Rightarrow> 'v Board_scheme \<Rightarrow> RISCVCPUState \<Rightarrow> RISCVCPUState" where
  "cpu_set_mip msk b s =
     (let s = s\<lparr>mip := mip s OR msk\<rparr>
      in if power_down_flag s \<and> mip s AND mie s \<noteq> 0 \<and> (board_pending_interrupt b \<noteq> - 1 \<or> \<not> board_cosim b)
         then s\<lparr>power_down_flag := False\<rparr> else s)"

lemma truncate_updates [simp]:
  "RISCVCPUState.truncate (m\<lparr>mip := x\<rparr>) = (RISCVCPUState.truncate m)\<lparr>mip := x\<rparr>"
  "RISCVCPUState.truncate (m\<lparr>power_down_flag := f\<rparr>) = (RISCVCPUState.truncate m)\<lparr>power_down_flag := f\<rparr>"
  by (simp_all add: RISCVCPUState.defs)

lemma on_hart_set_mip:
  "on_hart i (riscv_cpu_set_mip msk) b = update_cpu i (cpu_set_mip msk b) b"
  by (auto simp: on_hart_def put_view_def update_cpu_def riscv_cpu_set_mip_def cpu_set_mip_def Let_def)

lemma on_hart_reset_mip:
  "on_hart i (riscv_cpu_reset_mip msk) b = update_cpu i (\<lambda>s. s\<lparr>mip := mip s AND NOT msk\<rparr>) b"
  by (simp add: on_hart_def put_view_def update_cpu_def riscv_cpu_reset_mip_def)

lemma hart_core_mip_update: "hart_core (s\<lparr>mip := x\<rparr>) = hart_core s"
  by (simp add: hart_core_def)

lemma cpu_set_mip_simps [simp]:
  "mip (cpu_set_mip msk b s) = mip s OR msk" "plic_enable_irq (cpu_set_mip msk b s) = plic_enable_irq s"
  "hart_core (cpu_set_mip msk b s) = hart_core s" "timecmp (cpu_set_mip msk b s) = timecmp s"
  by (simp_all add: cpu_set_mip_def Let_def hart_core_def)

lemma update_cpu_simps [simp]:
  "cpu_state (update_cpu i f b) = (cpu_state b)(i := f (cpu_state b i))"
  "plic_pending_irq (update_cpu i f b) = plic_pending_irq b" "plic_served_irq (update_cpu i f b) = plic_served_irq b"
  "ncpus (update_cpu i f b) = ncpus b" "board_stdio (update_cpu i f b) = board_stdio b"
  "plic_mask (update_cpu i f b) = plic_mask b" "plic_priority (update_cpu i f b) = plic_priority b"
  "dw_uart (update_cpu i f b) = dw_uart b"
  by (simp_all add: update_cpu_def plic_mask_def)

section \<open>Harts are left alone\<close>

text \<open>What no device touches: the core of every hart and the parameters of the run.\<close>

definition run_limits :: "'v Board_scheme \<Rightarrow> u64 \<times> nat \<times> u64" where
  "run_limits b = (maxinsns b, ncpus b, htif_tohost_addr b)"

definition keeps_cores :: "'v Board_scheme \<Rightarrow> 'v Board_scheme \<Rightarrow> bool" where
  "keeps_cores b b' \<longleftrightarrow> run_limits b' = run_limits b \<and> (\<forall>i. hart_core (cpu_state b' i) = hart_core (cpu_state b i))"

lemma run_limits_updates [simp]:
  "run_limits (update_cpu i f b) = run_limits b" "run_limits (b\<lparr>board_stdio := io\<rparr>) = run_limits b"
  "run_limits (b\<lparr>plic_pending_irq := x\<rparr>) = run_limits b" "run_limits (b\<lparr>plic_served_irq := x\<rparr>) = run_limits b"
  "run_limits (b\<lparr>plic_priority := p\<rparr>) = run_limits b" "run_limits (b\<lparr>sifive_uart := t\<rparr>) = run_limits b"
  "run_limits (b\<lparr>dw_uart := u\<rparr>) = run_limits b" "run_limits (b\<lparr>board_aborted := a\<rparr>) = run_limits b"
  "run_limits (put_view i m) = run_limits (devs m)"
  by (simp_all add: run_limits_def update_cpu_def put_view_def)

lemma keeps_cores_refl: "cpu_state b' = cpu_state b \<Longrightarrow> run_limits b' = run_limits b \<Longrightarrow> keeps_cores b b'"
  by (simp add: keeps_cores_def)

lemma keeps_cores_trans: "keeps_cores a b \<Longrightarrow> keeps_cores b c \<Longrightarrow> keeps_cores a c"
  by (simp add: keeps_cores_def)

lemma keeps_cores_update: "(\<And>s. hart_core (f s) = hart_core s) \<Longrightarrow> keeps_cores b (update_cpu i f b)"
  by (simp add: keeps_cores_def)

lemma plic_update_mip_eq:
  "plic_update_mip i b =
     (let s = plic_mask b AND plic_enable_irq (cpu_state b i) 0 \<noteq> 0;
          e = plic_mask b AND plic_enable_irq (cpu_state b i) 1 \<noteq> 0;
          f = (\<lambda>c msk b. if c then update_cpu i (cpu_set_mip msk b) b
                         else update_cpu i (\<lambda>s. s\<lparr>mip := mip s AND NOT msk\<rparr>) b)
      in f e MIP_MEIP (f s MIP_SEIP b))"
  by (simp add: plic_update_mip_def Let_def on_hart_set_mip on_hart_reset_mip)

lemma plic_update_mip_simps [simp]:
  "plic_pending_irq (plic_update_mip i b) = plic_pending_irq b" "plic_served_irq (plic_update_mip i b) = plic_served_irq b"
  "ncpus (plic_update_mip i b) = ncpus b" "board_stdio (plic_update_mip i b) = board_stdio b"
  "plic_mask (plic_update_mip i b) = plic_mask b" "plic_priority (plic_update_mip i b) = plic_priority b"
  "plic_enable_irq (cpu_state (plic_update_mip i b) j) = plic_enable_irq (cpu_state b j)"
  "j \<noteq> i \<Longrightarrow> cpu_state (plic_update_mip i b) j = cpu_state b j"
  by (simp_all add: plic_update_mip_eq Let_def)

lemma keeps_plic_update [simp]: "keeps_cores b (plic_update_mip i b)"
  by (simp add: plic_update_mip_eq Let_def keeps_cores_def hart_core_mip_update)

lemma core_plic_update:
  "hart_core (cpu_state (plic_update_mip i b) j) = hart_core (cpu_state b j)"
  "run_limits (plic_update_mip i b) = run_limits b"
  using keeps_plic_update [of b i] by (simp_all add: keeps_cores_def)

lemma plic_update_fold_simps [simp]:
  "plic_pending_irq (fold plic_update_mip is b) = plic_pending_irq b"
  "plic_served_irq (fold plic_update_mip is b) = plic_served_irq b"
  "ncpus (fold plic_update_mip is b) = ncpus b" "board_stdio (fold plic_update_mip is b) = board_stdio b"
  "plic_mask (fold plic_update_mip is b) = plic_mask b"
  "plic_enable_irq (cpu_state (fold plic_update_mip is b) j) = plic_enable_irq (cpu_state b j)"
  "j \<notin> set is \<Longrightarrow> cpu_state (fold plic_update_mip is b) j = cpu_state b j"
  by (induction "is" arbitrary: b) simp_all

lemma keeps_plic_fold [simp]: "keeps_cores b (fold plic_update_mip is b)"
proof (induction "is" arbitrary: b)
  case (Cons i "is")
  show ?case using keeps_cores_trans [OF keeps_plic_update Cons.IH] by simp
qed (simp add: keeps_cores_refl)

lemma keeps_set_irq [simp]: "keeps_cores b (plic_set_irq irq st b)"
  unfolding plic_set_irq_def Let_def
  by (rule keeps_cores_trans [OF _ keeps_plic_fold]) (simp add: keeps_cores_def)

lemma hart_core_dev_updates:
  "hart_core (s\<lparr>mcycle := x\<rparr>) = hart_core s" "hart_core (s\<lparr>timecmp := x\<rparr>) = hart_core s"
  "hart_core (s\<lparr>plic_enable_irq := e\<rparr>) = hart_core s"
  by (simp_all add: hart_core_def)

lemma keeps_clint_write: "keeps_cores b (clint_write offset v k b)"
  by (simp add: clint_write_def Let_def on_hart_set_mip on_hart_reset_mip keeps_cores_def
      hart_core_mip_update hart_core_dev_updates)

lemma keeps_plic_read: "plic_read offset k b = Some (v, b') \<Longrightarrow> keeps_cores b b'"
  by (auto simp: plic_read_def Let_def keeps_cores_def core_plic_update split: if_splits)

lemma keeps_plic_write: "plic_write offset v k b = Some b' \<Longrightarrow> keeps_cores b b'"
  by (auto simp: plic_write_def Let_def keeps_cores_def hart_core_dev_updates split: if_splits)

lemma board_io_simps [simp]:
  "cs_read (board_io irq) old b = (case console_read old (board_stdio b) of (c, got, s) \<Rightarrow> (c, got, b\<lparr>board_stdio := s\<rparr>))"
  "cs_write (board_io irq) ch b = b\<lparr>board_stdio := console_write ch (board_stdio b)\<rparr>"
  "irq_line (board_io irq) = plic_set_irq irq"
  by (simp_all add: board_io_def)

text \<open>A predicate on the world that the console and the interrupt line keep is kept by the UARTs.\<close>

locale uart_invariant =
  fixes io :: "'w uart_io" and Q :: "'w \<Rightarrow> bool"
  assumes read_keeps: "Q w \<Longrightarrow> Q (snd (snd (cs_read io old w)))"
    and write_keeps: "Q w \<Longrightarrow> Q (cs_write io c w)"
    and irq_keeps: "Q w \<Longrightarrow> Q (irq_line io l w)"
begin

lemma update_isr_keeps: "Q (snd d) \<Longrightarrow> Q (snd (update_isr io d))"
  by (cases d) (simp add: update_isr_def Let_def irq_keeps)

lemma poll_keeps: "Q (snd d) \<Longrightarrow> Q (snd (dw_apb_uart_poll io d))"
  using read_keeps [of "snd d" "rhr (fst d)"]
  by (cases d) (auto simp: dw_apb_uart_poll_def update_isr_keeps split: prod.splits)

lemma dw_read_keeps: "dw_apb_uart_read io offset (s, w) = Some (v, s', w') \<Longrightarrow> Q w \<Longrightarrow> Q w'"
  using update_isr_keeps [of "(s\<lparr>lsr := lsr s AND NOT 1 AND NOT 30\<rparr>, w)"] update_isr_keeps [of "(s\<lparr>msr := msr s AND NOT 15\<rparr>, w)"]
    update_isr_keeps [OF poll_keeps, of "(s\<lparr>lsr := (lsr s OR 0x60) AND NOT 0x9e\<rparr>, w)"]
  by (auto simp: dw_apb_uart_read_def read_rhr_def read_lsr_def read_msr_def Let_def apfst_def case_prod_beta
      split: if_splits)

lemma dw_write_keeps: "dw_apb_uart_write io offset v (s, w) = Some (s', w') \<Longrightarrow> Q w \<Longrightarrow> Q w'"
  using poll_keeps [OF update_isr_keeps, of "(s\<lparr>lsr := lsr s AND NOT 0x60\<rparr>, cs_write io (ucast (v AND 255)) w)"]
    update_isr_keeps [of "(s\<lparr>ier := ucast (v AND 255) AND 0xff\<rparr>, w)"] write_keeps [of w]
  by (auto simp: dw_apb_uart_write_def write_thr_def write_ier_def Let_def split: if_splits)

lemma sifive_keeps:
  "uart_read io offset (t, w) = (v, t', w') \<Longrightarrow> Q w \<Longrightarrow> Q w'"
  "uart_write io offset u (t, w) = (t', w') \<Longrightarrow> Q w \<Longrightarrow> Q w'"
  using read_keeps [of w 0] write_keeps [of w]
  by (auto simp: uart_read_def uart_write_def split: if_splits prod.splits)

end

interpretation uart_cores: uart_invariant "board_io irq" "keeps_cores b" for irq b
proof
  fix w :: "'a Board_scheme" and old c l
  assume k: "keeps_cores b w"
  show "keeps_cores b (snd (snd (cs_read (board_io irq) old w)))"
    using k by (simp add: keeps_cores_def split: prod.split)
  show "keeps_cores b (cs_write (board_io irq) c w)" using k by (simp add: keeps_cores_def)
  show "keeps_cores b (irq_line (board_io irq) l w)" using keeps_cores_trans [OF k keeps_set_irq] by simp
qed

text \<open>Virtio devices that leave the core of the harts alone.\<close>

definition bus_safe :: "'v Board_scheme bus \<Rightarrow> bool" where
  "bus_safe bus \<longleftrightarrow> (\<forall>k offset sz b. keeps_cores b (snd (bus_read bus k offset sz b))) \<and>
     (\<forall>k offset v sz b. keeps_cores b (bus_write bus k offset v sz b))"

lemma keeps_device_updates:
  "keeps_cores b (w\<lparr>sifive_uart := t\<rparr>) = keeps_cores b w" "keeps_cores b (w\<lparr>dw_uart := u\<rparr>) = keeps_cores b w"
  "keeps_cores b (abort_board w) = keeps_cores b w" "keeps_cores b b"
  by (simp_all add: keeps_cores_def abort_board_def)

lemma keeps_board_read:
  assumes "bus_safe bus"
  shows "keeps_cores b (snd (board_read bus k offset sz b))"
proof -
  consider "k = 0" | "k = 1" | "k = 2" | "k = 3" | "k > 3" by linarith
  then show ?thesis
  proof cases
    case 1
    then show ?thesis
      using uart_cores.sifive_keeps(1) [of 3 offset "sifive_uart b" b _ _ _ b]
      by (simp add: board_read_def keeps_device_updates split: prod.split)
  next
    case 2
    then show ?thesis
      using uart_cores.dw_read_keeps [of 3 offset "dw_uart b" b _ _ _ b]
      by (simp add: board_read_def keeps_device_updates split: prod.split option.split)
  qed (use assms keeps_plic_read [of offset sz b] in
      \<open>auto simp: board_read_def keeps_device_updates bus_safe_def split: option.split\<close>)
qed

lemma keeps_board_write:
  assumes "bus_safe bus"
  shows "keeps_cores b (board_write bus k offset v sz b)"
proof -
  consider "k = 0" | "k = 1" | "k = 2" | "k = 3" | "k > 3" by linarith
  then show ?thesis
  proof cases
    case 1
    then show ?thesis
      using uart_cores.sifive_keeps(2) [of 3 offset v "sifive_uart b" b _ _ b]
      by (simp add: board_write_def keeps_device_updates split: prod.split)
  next
    case 2
    then show ?thesis
      using uart_cores.dw_write_keeps [of 3 offset v "dw_uart b" b _ _ b]
      by (simp add: board_write_def keeps_device_updates split: prod.split option.split)
  qed (use assms keeps_plic_write [of offset v sz b] in
      \<open>auto simp: board_write_def keeps_device_updates keeps_clint_write bus_safe_def split: option.split\<close>)
qed

lemma core_of_truncate: "hart_core (RISCVCPUState.truncate m) = hart_core m"
  by (simp add: hart_core_def RISCVCPUState.defs)

lemma hart_env_safe: "bus_safe bus \<Longrightarrow> env_safe (hart_env bus mmio i)"
proof -
  assume s: "bus_safe bus"
  have r: "hart_core (snd (dev_read (hart_env bus mmio i) k off sz m)) = hart_core m" for k off sz m
    using keeps_board_read [OF s, of "put_view i m" k off sz]
    by (simp add: hart_env_def keeps_cores_def case_prod_beta core_of_truncate)
  have w: "hart_core (dev_write (hart_env bus mmio i) k off v sz m) = hart_core m" for k off v sz m
    using keeps_board_write [OF s, of "put_view i m" k off v sz]
    by (simp add: hart_env_def keeps_cores_def core_of_truncate)
  show ?thesis unfolding env_safe_def r w by (simp add: hart_env_def)
qed

section \<open>All harts stay well formed\<close>

definition harts_ok :: "'v Board_scheme \<Rightarrow> bool" where
  "harts_ok b \<longleftrightarrow> (\<forall>i. hart_ok (cpu_state b i))"

text \<open>The same from inside hart \<open>i\<close>, whose own slot in \<open>cpu_state\<close> is out of date.\<close>

definition view_ok :: "nat \<Rightarrow> u64 \<times> nat \<times> u64 \<Rightarrow> 'v Board_scheme RISCVMachine \<Rightarrow> bool" where
  "view_ok i l m \<longleftrightarrow> run_limits (devs m) = l \<and> hart_ok m \<and> (\<forall>j. j \<noteq> i \<longrightarrow> hart_ok (cpu_state (devs m) j))"

lemma write_pmp_devs:
  "devs (write_pmpcfg c v s) = devs s" "devs (write_pmpaddr k v s) = devs s"
proof -
  have "devs (fold unpack_step xs t) = devs t" for xs and t :: "('a, 'b) RISCVMachine_scheme"
    by (induction xs arbitrary: t) (simp_all add: unpack_step_def split: option.split)
  then show "devs (write_pmpcfg c v s) = devs s" "devs (write_pmpaddr k v s) = devs s"
    by (simp_all add: write_pmpcfg_def write_pmpaddr_def unpack_pmpaddrs_def tlb_flush_all_def tlb_init_def Let_def
        del: upt_rec_numeral)
qed

lemma csr_write_devs: "devs (snd (csr_write_switch csr v s)) = devs s"
  by (simp add: csr_frame_defs write_pmp_devs if_distrib [of snd] if_distrib [of devs]
    split del: if_split cong del: if_weak_cong)

lemma keeps_cores_ok: "keeps_cores b b' \<Longrightarrow> hart_ok (cpu_state b' i) = hart_ok (cpu_state b i)"
  by (rule hart_ok_core) (simp add: keeps_cores_def)

lemma view_ok_core: "machine_core s = machine_core t \<Longrightarrow> view_ok i l s = view_ok i l t"
  using hart_ok_core [of s t] by (simp add: machine_core_def view_ok_def)

lemma view_ok_put: "view_ok i l m \<longleftrightarrow> run_limits (put_view i m) = l \<and> harts_ok (put_view i m)"
  using hart_ok_core [OF core_of_truncate, of m] by (auto simp: view_ok_def harts_ok_def)

lemma view_ok_hart_view: "view_ok i l (hart_view i b) \<longleftrightarrow> run_limits b = l \<and> harts_ok b"
  using hart_ok_core [of "hart_view i b" "cpu_state b i"] by (auto simp: view_ok_def harts_ok_def)

lemma keeps_cores_harts_ok: "keeps_cores b b' \<Longrightarrow> harts_ok b' = harts_ok b"
  by (simp add: harts_ok_def keeps_cores_ok)

lemma keeps_cores_limits: "keeps_cores b b' \<Longrightarrow> run_limits b' = run_limits b"
  by (simp add: keeps_cores_def)

lemma view_ok_invariant:
  assumes "bus_safe bus"
  shows "hart_invariant (hart_env bus mmio i) (view_ok i l)"
proof
  fix s :: "'a Board_scheme RISCVMachine" and p csr v k off sz w
  assume ok: "view_ok i l s"
  then have put: "harts_ok (put_view i s)" "run_limits (put_view i s) = l" unfolding view_ok_put by auto
  show "p \<le> 3 \<Longrightarrow> view_ok i l (s\<lparr>priv := p\<rparr>)" using ok by (simp add: view_ok_def hart_ok_priv)
  show "view_ok i l (snd (csr_write_switch csr v s))"
    using ok by (simp add: view_ok_def hart_ok_csr_write csr_write_devs)
  have r: "keeps_cores (put_view i s) (snd (board_read bus k off sz (put_view i s)))" by (rule keeps_board_read [OF assms])
  show "view_ok i l (snd (dev_read (hart_env bus mmio i) k off sz s))"
    using put keeps_cores_harts_ok [OF r] keeps_cores_limits [OF r]
    by (simp add: hart_env_def case_prod_beta view_ok_hart_view)
  have w: "keeps_cores (put_view i s) (board_write bus k off w sz (put_view i s))" by (rule keeps_board_write [OF assms])
  show "view_ok i l (dev_write (hart_env bus mmio i) k off w sz s)"
    using put keeps_cores_harts_ok [OF w] keeps_cores_limits [OF w]
    by (simp add: hart_env_def view_ok_hart_view)
qed (erule view_ok_core | simp add: hart_env_def)+

lemma sleep_keeps_cores: "keeps_cores b (snd (virt_machine_get_sleep_duration i d b))"
  by (simp add: virt_machine_get_sleep_duration_def Let_def on_hart_set_mip keeps_cores_def split: prod.split)

lemma phys_write_core: "riscv_phys_write k m a v = Some m' \<Longrightarrow> machine_core m' = machine_core m"
  by (auto simp: riscv_phys_write_def machine_core_def hart_core_def split: option.splits if_splits)

text \<open>What one step of a hart promises: every hart stays well formed and the limits of the run stay.\<close>

definition board_ok :: "u64 \<times> nat \<times> u64 \<Rightarrow> 'v Board_scheme \<Rightarrow> bool" where
  "board_ok l b \<longleftrightarrow> run_limits b = l \<and> harts_ok b"

lemma board_ok_put: "board_ok l (put_view i m) = view_ok i l m"
  unfolding board_ok_def view_ok_put ..

lemma board_ok_view: "view_ok i l (hart_view i b) = board_ok l b"
  unfolding board_ok_def view_ok_hart_view ..

lemma board_ok_keeps: "keeps_cores b b' \<Longrightarrow> board_ok l b' = board_ok l b"
  by (simp add: board_ok_def keeps_cores_harts_ok keeps_cores_limits)

lemma htif_print_ok: "htif_print i tohost b = Some b' \<Longrightarrow> board_ok l b \<Longrightarrow> board_ok l b'"
proof -
  assume h: "htif_print i tohost b = Some b'" and ok: "board_ok l b"
  let ?m = "hart_view i b"
  define m1 where "m1 = (case riscv_phys_write 3 ?m (htif_tohost_addr b) 0 of None \<Rightarrow> ?m | Some m \<Rightarrow> m)"
  have m1: "machine_core m1 = machine_core ?m"
    by (simp add: m1_def phys_write_core split: option.split)
  from h obtain m2 io where "riscv_phys_write 3 m1 (fromhost_addr b) 1 = Some m2" "b' = (put_view i m2)\<lparr>board_stdio := io\<rparr>"
    by (auto simp: htif_print_def Let_def m1_def split: option.splits if_splits)
  moreover from this(1) m1 have "view_ok i l m2 = view_ok i l ?m" using phys_write_core view_ok_core by metis
  ultimately show "board_ok l b'"
    using ok board_ok_put [of l i m2] by (simp add: board_ok_view board_ok_def harts_ok_def)
qed

lemma virt_machine_run_ok:
  assumes "bus_safe bus" "virt_machine_run bus mmio i b = Some (go, b')" "board_ok l b"
  shows "board_ok l b' \<and> (go \<longrightarrow> fst l > 0 \<or> snd (snd l) \<noteq> 0)"
proof -
  let ?b = "snd (virt_machine_get_sleep_duration i 10 b)"
  from assms(2) obtain k m where r: "riscv_cpu_interp64 (hart_env bus mmio i) 1 (hart_view i ?b) = Some (k, m)"
    by (auto simp: virt_machine_run_def Let_def split: option.splits)
  have "view_ok i l (hart_view i ?b)"
    using assms(3) unfolding board_ok_view by (rule board_ok_keeps [OF sleep_keeps_cores, THEN iffD2])
  then have "view_ok i l m" by (rule hart_invariant.P_interp64 [OF view_ok_invariant [OF assms(1)] r])
  then have ok: "board_ok l (put_view i m)" by (simp add: board_ok_put)
  have upd: "board_ok l (update_cpu i (\<lambda>s. s\<lparr>benchmark_exit_code := x\<rparr>) (put_view i m))" for x
    by (rule board_ok_keeps [THEN iffD2, OF keeps_cores_update ok]) (simp add: hart_core_def)
  have lim: "maxinsns (put_view i m) = fst l" "htif_tohost_addr (put_view i m) = snd (snd l)"
    using ok by (auto simp: board_ok_def run_limits_def)
  show ?thesis
    using assms(2) ok upd htif_print_ok [OF _ ok]
    by (auto simp: virt_machine_run_def Let_def r [unfolded One_nat_def] lim split: option.splits if_splits)
qed

lemma riscv_read_insn_core:
  fixes bus :: "'v Board_scheme bus" and m :: "'v Board_scheme RISCVMachine"
  assumes "bus_safe bus"
  shows "view_ok i l m \<Longrightarrow> view_ok i l (snd (riscv_read_insn a m))"
proof -
  assume "view_ok i l m"
  then have "view_ok i l (snd (target_read_insn_slow 32 a m))"
    by (rule hart_invariant.P_insn_slow [OF view_ok_invariant [OF assms]])
  then show ?thesis
    by (rule view_ok_core [THEN iffD1, rotated]) (simp add: riscv_read_insn_def case_prod_beta machine_core_def hart_core_def)
qed

text \<open>The state \<open>iterate_core\<close> runs the hart in: the budget is reduced and the instruction fetched.\<close>

lemma iterate_core_fetch_ok:
  fixes bus :: "'v Board_scheme bus" and b :: "'v Board_scheme"
  assumes "bus_safe bus" "board_ok (n, r) b"
  shows "board_ok (n - 1, r) (on_hart i (\<lambda>m. snd (riscv_read_insn (pc (cpu_state b i)) m)) (b\<lparr>maxinsns := maxinsns b - 1\<rparr>))"
  unfolding on_hart_def board_ok_put
  by (rule riscv_read_insn_core [OF assms(1)], unfold board_ok_view)
    (use assms(2) in \<open>auto simp: board_ok_def harts_ok_def run_limits_def\<close>)

lemma iterate_core_ok:
  assumes "bus_safe bus" "iterate_core bus mmio i b = Some (go, b')" "board_ok (n, r) b"
  shows "board_ok (n - 1, r) b' \<and> (go \<longrightarrow> n > 1 \<or> snd r \<noteq> 0)"
proof (cases "n = 0")
  case True
  then show ?thesis using assms by (auto simp: iterate_core_def harts_ok_def board_ok_def run_limits_def)
next
  case False
  then have n: "n - 1 > 0 \<Longrightarrow> n > 1" by unat_arith
  have "maxinsns b = n" using assms(3) by (auto simp: board_ok_def run_limits_def)
  then show ?thesis
    using assms(2) False n virt_machine_run_ok [OF assms(1) _ iterate_core_fetch_ok [OF assms(1,3), of i]]
    by (auto simp: iterate_core_def Let_def split: option.splits)
qed

lemma iterate_cores_ok:
  "bus_safe bus \<Longrightarrow> iterate_cores bus mmio is b = Some (go, b') \<Longrightarrow> board_ok (n, r) b \<Longrightarrow>
     board_ok (n - of_nat (length is), r) b'"
proof (induction "is" arbitrary: b go n)
  case (Cons i "is")
  from Cons.prems(2) obtain k c ks where
    "iterate_core bus mmio i b = Some (k, c)" "iterate_cores bus mmio is c = Some (ks, b')"
    by (auto split: option.splits)
  then show ?case
    using iterate_core_ok [OF Cons.prems(1) _ Cons.prems(3)] Cons.IH [OF Cons.prems(1), of c ks "n - 1"]
    by (simp add: diff_diff_eq)
qed simp

section \<open>The main loop\<close>

lemma virt_machine_run_returns:
  assumes "bus_safe bus" "board_ok (n, c, 0) b"
  shows "\<exists>go b'. virt_machine_run bus mmio i b = Some (go, b')"
proof -
  let ?b = "snd (virt_machine_get_sleep_duration i 10 b)"
  obtain k m where r: "riscv_cpu_interp64 (hart_env bus mmio i) 1 (hart_view i ?b) = Some (k, m)"
    using interp64_returns [of 1 "hart_env bus mmio i" "hart_view i ?b"] by auto
  have "view_ok i (n, c, 0) (hart_view i ?b)"
    using assms(2) unfolding board_ok_view by (rule board_ok_keeps [OF sleep_keeps_cores, THEN iffD2])
  then have "view_ok i (n, c, 0) m" by (rule hart_invariant.P_interp64 [OF view_ok_invariant [OF assms(1)] r])
  then have "board_ok (n, c, 0) (put_view i m)" by (simp add: board_ok_put)
  then have "htif_tohost_addr (put_view i m) = 0" by (simp add: board_ok_def run_limits_def)
  then show ?thesis by (simp add: virt_machine_run_def Let_def r [unfolded One_nat_def])
qed

lemma iterate_core_returns:
  assumes "bus_safe bus" "board_ok (n, c, 0) b"
  shows "\<exists>go b'. iterate_core bus mmio i b = Some (go, b')"
  using virt_machine_run_returns [OF assms(1) iterate_core_fetch_ok [OF assms, of i], of mmio i]
  by (auto simp: iterate_core_def Let_def)

lemma iterate_cores_returns:
  "bus_safe bus \<Longrightarrow> board_ok (n, c, 0) b \<Longrightarrow> \<exists>go b'. iterate_cores bus mmio is b = Some (go, b')"
proof (induction "is" arbitrary: b n)
  case (Cons i "is")
  obtain k b1 where b1: "iterate_core bus mmio i b = Some (k, b1)" using iterate_core_returns [OF Cons.prems] by blast
  then have "board_ok (n - 1, c, 0) b1" using iterate_core_ok [OF Cons.prems(1) b1 Cons.prems(2)] by simp
  then obtain ks b2 where "iterate_cores bus mmio is b1 = Some (ks, b2)" using Cons.IH [OF Cons.prems(1)] by blast
  with b1 show ?case by simp
qed auto

lemma main_loop_ok:
  "bus_safe bus \<Longrightarrow> main_loop bus mmio rounds b = Some (go, b') \<Longrightarrow> harts_ok b \<Longrightarrow> harts_ok b'"
proof (induction rounds arbitrary: b)
  case (Suc rounds)
  from Suc.prems(2) obtain k c where c: "iterate_cores bus mmio [0..<ncpus b] b = Some (k, c)"
    by (auto split: option.splits)
  have "harts_ok c"
    using iterate_cores_ok [OF Suc.prems(1) c, of "fst (run_limits b)" "snd (run_limits b)"] Suc.prems(3)
    by (simp add: board_ok_def)
  then show ?case using Suc c by (cases k) (auto split: option.splits)
qed simp

lemma main_loop_ends:
  "bus_safe bus \<Longrightarrow> board_ok (n, 1, 0) b \<Longrightarrow> unat n \<le> rounds \<Longrightarrow>
     \<exists>b'. main_loop bus mmio (Suc rounds) b = Some (False, b')"
proof (induction rounds arbitrary: b n)
  case 0
  from iterate_cores_returns [OF 0(1,2)] obtain k c where "iterate_cores bus mmio [0..<1] b = Some (k, c)" by blast
  moreover from 0 have "n = 0" "ncpus b = 1" "maxinsns b = 0" by (auto simp: board_ok_def run_limits_def unat_eq_0)
  ultimately show ?case by (auto simp: iterate_core_def)
next
  case (Suc rounds)
  have nc: "ncpus b = 1" using Suc.prems(2) by (simp add: board_ok_def run_limits_def)
  obtain k c where c: "iterate_core bus mmio 0 b = Some (k, c)" using iterate_core_returns [OF Suc.prems(1,2)] by blast
  note ok = iterate_core_ok [OF Suc.prems(1) c Suc.prems(2)]
  show ?case
  proof (cases k)
    case True
    then have "1 < n" using ok by simp
    then have "unat (n - 1) \<le> rounds" using Suc.prems(3) by unat_arith
    then obtain b' where "main_loop bus mmio (Suc rounds) c = Some (False, b')" using Suc.IH Suc.prems(1) ok by blast
    with c nc True show ?thesis by simp
  qed (use c nc in simp)
qed

end
