(* ===== verification/Plic_Lemmas.thy ===== *)
theory Plic_Lemmas
  imports Board_Lemmas
begin

text \<open>
  The interrupt controller as a claim/complete protocol: an abstract controller that keeps a set of
  pending and a set of served sources, and the refinement of \<open>plic_set_irq\<close>, \<open>plic_read\<close> and
  \<open>plic_write\<close> to it.
\<close>

section \<open>Single registers\<close>

lemma bit_exp_u32: "bit (push_bit i 1 :: u32) k \<longleftrightarrow> k = i \<and> i < 32"
  by (auto simp: bit_simps)

lemma ctz32_bit: "v \<noteq> 0 \<Longrightarrow> ctz32 v < 32 \<and> bit v (ctz32 v) \<and> (\<forall>j. j < ctz32 v \<longrightarrow> \<not> bit v j)"
proof -
  assume "v \<noteq> 0"
  then obtain j where j: "bit v j" by (auto simp: bit_eq_iff)
  define i where "i = (LEAST i. bit v i)"
  have i: "bit v i" unfolding i_def using j by (rule LeastI)
  have least: "\<And>k. k < i \<Longrightarrow> \<not> bit v k" unfolding i_def by (rule not_less_Least)
  have "ctz32 v = i" by (rule ctz32_eqI) (use i least bit_imp_le_length [OF i] in auto)
  moreover have "i < 32" using bit_imp_le_length [OF i] by simp
  ultimately show ?thesis using i least by simp
qed

lemma bit_plic_mask: "bit (plic_mask b) k \<longleftrightarrow> bit (plic_pending_irq b) k \<and> \<not> bit (plic_served_irq b) k"
  using bit_imp_le_length [of "plic_pending_irq b" k] by (auto simp: plic_mask_def bit_simps)

text \<open>The external interrupt lines of hart \<open>i\<close> agree with the controller.\<close>

definition plic_lines :: "nat \<Rightarrow> 'v Board_scheme \<Rightarrow> bool" where
  "plic_lines i b \<longleftrightarrow>
     (mip (cpu_state b i) AND MIP_SEIP \<noteq> 0 \<longleftrightarrow> plic_mask b AND plic_enable_irq (cpu_state b i) 0 \<noteq> 0) \<and>
     (mip (cpu_state b i) AND MIP_MEIP \<noteq> 0 \<longleftrightarrow> plic_mask b AND plic_enable_irq (cpu_state b i) 1 \<noteq> 0)"

lemma mip_bit_simps:
  "x AND MIP_SEIP \<noteq> 0 \<longleftrightarrow> bit (x :: u32) 9" "x AND MIP_MEIP \<noteq> 0 \<longleftrightarrow> bit (x :: u32) 11"
  "x AND MIP_MTIP \<noteq> 0 \<longleftrightarrow> bit (x :: u32) 7" "x AND MIP_MSIP \<noteq> 0 \<longleftrightarrow> bit (x :: u32) 3"
  by (simp_all add: bit_iff_and_push_bit_not_eq_0)

lemma plic_update_mip_lines: "plic_lines i (plic_update_mip i b)"
  unfolding plic_lines_def mip_bit_simps
  by (simp add: plic_update_mip_eq Let_def bit_simps bit_numeral_rec numeral_eq_Suc)

lemma plic_lines_other: "j \<noteq> i \<Longrightarrow> plic_lines j (plic_update_mip i b) = plic_lines j b"
  by (simp add: plic_lines_def)

lemma plic_fold_lines: "plic_lines i b \<or> i \<in> set is \<Longrightarrow> plic_lines i (fold plic_update_mip is b)"
proof (induction "is" arbitrary: b)
  case (Cons j "is")
  have "plic_lines i (plic_update_mip j b) \<or> i \<in> set is"
    using Cons.prems by (cases "i = j") (auto simp: plic_lines_other plic_update_mip_lines)
  then show ?case using Cons.IH by simp
qed simp

lemma set_irq_lines: "i < ncpus b \<Longrightarrow> plic_lines i (plic_set_irq irq st b)"
  by (simp add: plic_set_irq_def Let_def plic_fold_lines)

section \<open>The abstract controller\<close>

record plic_spec =
  pending :: "nat set"
  served :: "nat set"

definition plic_abs :: "'v Board_scheme \<Rightarrow> plic_spec" where
  "plic_abs b = \<lparr>pending = {k. bit (plic_pending_irq b) k}, served = {k. bit (plic_served_irq b) k}\<rparr>"

datatype plic_event =
    Line nat bool
  | Claim nat
  | Complete nat u32
  | Enable nat u32

text \<open>
  What an event does to the abstract controller.  A claim is answered with the smallest pending
  source that is not being served; enables have no influence on claims.
\<close>

fun spec_step :: "plic_event \<Rightarrow> plic_spec \<Rightarrow> u32 \<times> plic_spec" where
  "spec_step (Line k l) p = (0, p\<lparr>pending := (if l then insert k (pending p) else pending p - {k})\<rparr>)"
| "spec_step (Claim h) p =
     (if pending p - served p = {} then (0, p)
      else let i = Min (pending p - served p)
           in (of_nat i, p\<lparr>served := insert i (served p), pending := pending p - {i}\<rparr>))"
| "spec_step (Complete h v) p = (0, p\<lparr>served := served p - {unat v mod 32}\<rparr>)"
| "spec_step (Enable h v) p = (0, p)"

text \<open>The same on the board: the lines of the devices and the memory-mapped registers.\<close>

fun plic_step :: "plic_event \<Rightarrow> 'v Board_scheme \<Rightarrow> (u32 \<times> 'v Board_scheme) option" where
  "plic_step (Line k l) b = Some (0, plic_set_irq k l b)"
| "plic_step (Claim h) b = plic_read (0x200004 + 0x1000 * of_nat h) 2 b"
| "plic_step (Complete h v) b = map_option (Pair 0) (plic_write (0x200004 + 0x1000 * of_nat h) v 2 b)"
| "plic_step (Enable c v) b = map_option (Pair 0) (plic_write (0x2000 + 0x80 * of_nat c) v 2 b)"

fun plic_run :: "plic_event list \<Rightarrow> 'v Board_scheme \<Rightarrow> (u32 list \<times> 'v Board_scheme) option" where
  "plic_run [] b = Some ([], b)"
| "plic_run (e # es) b =
     (case plic_step e b of
        None \<Rightarrow> None
      | Some (v, b) \<Rightarrow> map_option (apfst ((#) v)) (plic_run es b))"

fun spec_run :: "plic_event list \<Rightarrow> plic_spec \<Rightarrow> u32 list \<times> plic_spec" where
  "spec_run [] p = ([], p)"
| "spec_run (e # es) p = (case spec_step e p of (v, p) \<Rightarrow> apfst ((#) v) (spec_run es p))"

text \<open>Sources are the lines of a 32-bit register; contexts and harts are those of the board.\<close>

definition plic_event_ok :: "nat \<Rightarrow> plic_event \<Rightarrow> bool" where
  "plic_event_ok n e \<longleftrightarrow>
     (case e of Line k l \<Rightarrow> k < 32 | Claim h \<Rightarrow> h < n \<and> h < 8 | Complete h v \<Rightarrow> h < 8 | Enable c v \<Rightarrow> c < 8)"

lemma hart_index_cases: "h < 8 \<Longrightarrow> h \<in> {0, 1, 2, 3, 4, 5, 6, 7 :: nat}"
  by auto

lemma context_offset:
  assumes "h < 8" and off: "off = (0x200004 + 0x1000 * of_nat h :: u32)"
  shows "\<not> off < 0x200" "\<not> off < 0x100f" "\<not> off < 0x2400" "0x200000 \<le> off" "off < 0x208000"
    "unat ((off - 0x200000) div 0x1000) = h" "drop_bit 2 (off AND 0xfff) = 1"
  using hart_index_cases [OF assms(1)] unfolding off by (elim insertE; simp)+

lemma claim_eq:
  assumes "h < 8" "h < ncpus b"
  shows "plic_read (0x200004 + 0x1000 * of_nat h) 2 b =
    (if plic_mask b = 0 then Some (0, b)
     else let i = ctz32 (plic_mask b)
          in Some (of_nat i, plic_update_mip h (b\<lparr>plic_served_irq := plic_served_irq b OR push_bit i 1,
               plic_pending_irq := plic_pending_irq b AND NOT (push_bit i 1)\<rparr>)))"
proof -
  define off :: u32 where "off = 0x200004 + 0x1000 * of_nat h"
  show ?thesis using context_offset [OF assms(1) off_def] assms(2)
    unfolding off_def [symmetric] plic_read_def Let_def by simp
qed

lemma complete_eq:
  assumes "h < 8"
  shows "plic_write (0x200004 + 0x1000 * of_nat h) v 2 b =
    Some (b\<lparr>plic_served_irq := plic_served_irq b AND NOT (push_bit (unat v mod 32) 1)\<rparr>)"
proof -
  define off :: u32 where "off = 0x200004 + 0x1000 * of_nat h"
  have "(31 :: u32) = mask 5" by (simp add: mask_eq_exp_minus_1)
  then have "v AND 31 = take_bit 5 v" by (simp add: take_bit_eq_mask)
  then have "unat (v AND 31) = unat v mod 32" by (simp add: take_bit_eq_mod unat_mod)
  then show ?thesis using context_offset [OF assms(1) off_def]
    unfolding off_def [symmetric] plic_write_def Let_def by simp
qed

lemma enable_offset:
  assumes "c < 8" and off: "off = (0x2000 + 0x80 * of_nat c :: u32)"
  shows "\<not> off < 0x200" "\<not> off < 0x100f" "0x2000 \<le> off" "off < 0x2400" "unat ((off - 0x2000) div 0x80) = c"
  using hart_index_cases [OF assms(1)] unfolding off by (elim insertE; simp)+

lemma enable_eq:
  assumes "c < 8"
  shows "plic_write (0x2000 + 0x80 * of_nat c) v 2 b =
    Some (if c div 2 < ncpus b
          then update_cpu (c div 2) (\<lambda>s. s\<lparr>plic_enable_irq := (plic_enable_irq s)(c mod 2 := v)\<rparr>) b else b)"
proof -
  define off :: u32 where "off = 0x2000 + 0x80 * of_nat c"
  show ?thesis using enable_offset [OF assms(1) off_def]
    unfolding off_def [symmetric] plic_write_def Let_def by simp
qed

lemma plic_step_ncpus: "plic_step e b = Some (v, b') \<Longrightarrow> plic_event_ok (ncpus b) e \<Longrightarrow> ncpus b' = ncpus b"
  by (cases e)
    (auto simp: plic_event_ok_def claim_eq complete_eq enable_eq Let_def plic_set_irq_def split: if_splits)

lemma plic_mask_abs: "{k. bit (plic_mask b) k} = pending (plic_abs b) - served (plic_abs b)"
  by (auto simp: bit_plic_mask plic_abs_def)

lemma ctz32_Min: "v \<noteq> 0 \<Longrightarrow> ctz32 v = Min {k. bit v k}"
proof (rule sym, rule Min_eqI)
  show "finite {k. bit v k}" by (rule finite_subset [of _ "{..<32}"]) (use bit_imp_le_length [of v] in auto)
qed (use ctz32_bit [of v] in \<open>auto simp: not_less [symmetric]\<close>)

lemma plic_step_refines:
  assumes "plic_event_ok (ncpus b) e"
  obtains b' where "plic_step e b = Some (fst (spec_step e (plic_abs b)), b')"
    "plic_abs b' = snd (spec_step e (plic_abs b))" "ncpus b' = ncpus b"
proof (cases e)
  case (Claim h)
  show ?thesis
  proof (cases "plic_mask b = 0")
    case True
    then have "pending (plic_abs b) - served (plic_abs b) = {}" by (simp flip: plic_mask_abs)
    then show ?thesis using that assms True Claim by (simp add: plic_event_ok_def claim_eq)
  next
    case False
    let ?i = "ctz32 (plic_mask b)"
    have i: "?i < 32" using ctz32_bit [OF False] by simp
    have "{k. bit (plic_mask b) k} \<noteq> {}" using False by (auto simp: bit_eq_iff)
    then have ne: "pending (plic_abs b) - served (plic_abs b) \<noteq> {}" by (simp flip: plic_mask_abs)
    have mn: "Min (pending (plic_abs b) - served (plic_abs b)) = ?i" by (simp add: ctz32_Min [OF False] plic_mask_abs)
    let ?b = "b\<lparr>plic_served_irq := plic_served_irq b OR push_bit ?i 1,
      plic_pending_irq := plic_pending_irq b AND NOT (push_bit ?i 1)\<rparr>"
    have "plic_step e b = Some (of_nat ?i, plic_update_mip h ?b)"
      using assms False Claim by (simp add: plic_event_ok_def claim_eq Let_def)
    moreover have "spec_step e (plic_abs b) =
        (of_nat ?i, (plic_abs b)\<lparr>served := insert ?i (served (plic_abs b)), pending := pending (plic_abs b) - {?i}\<rparr>)"
      unfolding Claim spec_step.simps Let_def mn using ne by simp
    moreover have "plic_abs (plic_update_mip h ?b) = snd (spec_step e (plic_abs b))"
      unfolding calculation(2) using i by (auto simp: plic_abs_def bit_simps dest: bit_imp_le_length)
    ultimately show ?thesis by (intro that [of "plic_update_mip h ?b"]) simp_all
  qed
next
  case (Line k l)
  have "plic_abs (plic_set_irq k l b) = snd (spec_step e (plic_abs b))"
    using assms Line by (auto simp: plic_event_ok_def plic_abs_def plic_set_irq_def Let_def bit_simps
        dest: bit_imp_le_length [where 'a = 32, simplified])
  then show ?thesis using Line by (intro that [of "plic_set_irq k l b"]) (simp_all add: plic_set_irq_def Let_def)
next
  case (Complete h v)
  let ?b = "b\<lparr>plic_served_irq := plic_served_irq b AND NOT (push_bit (unat v mod 32) 1)\<rparr>"
  have "plic_abs ?b = snd (spec_step e (plic_abs b))"
    using Complete by (auto simp: plic_abs_def bit_simps dest: bit_imp_le_length)
  then show ?thesis using assms Complete by (intro that [of ?b]) (simp_all add: plic_event_ok_def complete_eq)
next
  case (Enable c v)
  let ?b = "if c div 2 < ncpus b
    then update_cpu (c div 2) (\<lambda>s. s\<lparr>plic_enable_irq := (plic_enable_irq s)(c mod 2 := v)\<rparr>) b else b"
  have "plic_abs ?b = plic_abs b" "ncpus ?b = ncpus b" by (simp_all add: plic_abs_def)
  then show ?thesis using assms Enable by (intro that [of ?b]) (simp_all add: plic_event_ok_def enable_eq)
qed

lemma plic_run_refines:
  "list_all (plic_event_ok (ncpus b)) es \<Longrightarrow>
     \<exists>b'. plic_run es b = Some (fst (spec_run es (plic_abs b)), b') \<and> plic_abs b' = snd (spec_run es (plic_abs b))"
proof (induction es arbitrary: b)
  case (Cons e es)
  then obtain c where c: "plic_step e b = Some (fst (spec_step e (plic_abs b)), c)"
    "plic_abs c = snd (spec_step e (plic_abs b))" "ncpus c = ncpus b"
    using plic_step_refines [of b e] by auto
  then obtain b' where "plic_run es c = Some (fst (spec_run es (plic_abs c)), b')"
    "plic_abs b' = snd (spec_run es (plic_abs c))"
    using Cons.IH [of c] Cons.prems by auto
  with c show ?case by (auto simp: case_prod_beta)
qed simp

section \<open>Claims of the abstract controller\<close>

lemma spec_claim_served:
  assumes "spec_step (Claim h) p = (v, p')" "v \<noteq> 0" "pending p \<subseteq> {..<32}"
  shows "unat v \<in> served p'" "unat v \<notin> served p"
proof -
  let ?i = "Min (pending p - served p)"
  have ne: "pending p - served p \<noteq> {}" using assms by (auto split: if_splits)
  moreover have "finite (pending p - served p)" using assms(3) finite_subset by blast
  ultimately have i: "?i \<in> pending p - served p" by (rule Min_in [rotated])
  have "v = of_nat ?i" "p' = p\<lparr>served := insert ?i (served p), pending := pending p - {?i}\<rparr>"
    using assms(1) ne by (auto simp: Let_def split: if_splits)
  moreover have "unat (of_nat ?i :: u32) = ?i" using i assms(3) by (auto simp: unat_of_nat)
  ultimately show "unat v \<in> served p'" "unat v \<notin> served p" using i by simp_all
qed

lemma spec_step_pending:
  "plic_event_ok n e \<Longrightarrow> pending p \<subseteq> {..<32} \<Longrightarrow> pending (snd (spec_step e p)) \<subseteq> {..<32}"
  by (cases e) (auto simp: plic_event_ok_def Let_def)

lemma spec_run_pending:
  "list_all (plic_event_ok n) es \<Longrightarrow> pending p \<subseteq> {..<32} \<Longrightarrow> pending (snd (spec_run es p)) \<subseteq> {..<32}"
proof (induction es arbitrary: p)
  case (Cons e es)
  then show ?case using spec_step_pending [of n e p] by (simp add: case_prod_beta)
qed simp

text \<open>A source is being served until it is completed.\<close>

lemma spec_run_served:
  "k \<in> served p \<Longrightarrow> \<forall>h c. Complete h c \<in> set es \<longrightarrow> unat c mod 32 \<noteq> k \<Longrightarrow> k \<in> served (snd (spec_run es p))"
proof (induction es arbitrary: p)
  case (Cons e es)
  have "k \<in> served (snd (spec_step e p))"
    using Cons.prems by (cases e) (auto simp: Let_def)
  then show ?case using Cons by (simp add: case_prod_beta)
qed simp

lemma spec_run_append:
  "spec_run (xs @ ys) p = (fst (spec_run xs p) @ fst (spec_run ys (snd (spec_run xs p))), snd (spec_run ys (snd (spec_run xs p))))"
  by (induction xs arbitrary: p) (simp_all add: case_prod_beta)

lemma spec_no_double_claim:
  assumes "list_all (plic_event_ok n) es" "pending p \<subseteq> {..<32}"
    and "spec_run (Claim h # es @ [Claim h']) p = (v # vs @ [v], p')" "v \<noteq> 0"
  shows "\<exists>g c. Complete g c \<in> set es \<and> unat c mod 32 = unat v"
proof (rule ccontr)
  assume nc: "\<not> ?thesis"
  obtain p1 where p1: "spec_step (Claim h) p = (v, p1)" "spec_run (es @ [Claim h']) p1 = (vs @ [v], p')"
    using assms(3) by (cases "spec_step (Claim h) p"; cases "spec_run (es @ [Claim h']) (snd (spec_step (Claim h) p))")
      (simp del: spec_step.simps)
  let ?q = "snd (spec_run es p1)"
  have "pending p1 \<subseteq> {..<32}" using p1(1) assms(2) by (auto simp: Let_def split: if_splits)
  then have q: "pending ?q \<subseteq> {..<32}" by (rule spec_run_pending [OF assms(1)])
  have "unat v \<in> served p1" by (rule spec_claim_served [OF p1(1) assms(4,2)])
  then have s: "unat v \<in> served ?q" by (rule spec_run_served) (use nc in blast)
  have "fst (spec_step (Claim h') ?q) = v"
    using p1(2) by (simp only: spec_run_append) (simp add: case_prod_beta del: spec_step.simps)
  then have "unat v \<notin> served ?q" by (intro spec_claim_served(2) [OF _ assms(4) q, of h']) (simp add: prod_eq_iff)
  with s show False by simp
qed

end
