(* ===== verification/Board_Props.thy ===== *)
theory Board_Props
  imports Plic_Lemmas Run_Props
begin

text \<open>
  Properties of the board: the interrupt controllers, the UART on the console, and the
  simulation of all harts together.
\<close>

section \<open>The console behind the UART\<close>

text \<open>
  The bytes a stream of key presses delivers: \<open>C-b\<close> (2) starts an escape sequence, which
  delivers a byte only when it is completed by \<open>C-a\<close> (1).
\<close>

fun unescape :: "bool \<Rightarrow> u8 list \<Rightarrow> u8 list" where
  "unescape esc [] = []"
| "unescape esc (ch # chs) =
     (if esc then (if ch = 1 then [ch] else []) @ unescape False chs
      else if ch = 2 then unescape True chs
      else ch # unescape False chs)"

definition board_incoming :: "'v Board_scheme \<Rightarrow> u8 list" where
  "board_incoming b = unescape (console_esc_state (board_stdio b)) (stdin_bytes (board_stdio b))"

definition board_sent :: "'v Board_scheme \<Rightarrow> u8 list" where
  "board_sent b = stdout_bytes (board_stdio b)"

definition board_line :: "'v Board_scheme \<Rightarrow> bool" where
  "board_line b = bit (plic_pending_irq b) 3"

lemma console_read_cases:
  "console_read old s = (c, got, s') \<Longrightarrow> stdout_bytes s' = stdout_bytes s \<and>
     unescape (console_esc_state s) (stdin_bytes s) = (if got then [c] else []) @ unescape (console_esc_state s') (stdin_bytes s')"
  by (auto simp: console_read_def Let_def split: list.splits if_splits)

lemma set_irq_simps [simp]:
  "board_stdio (plic_set_irq irq l b) = board_stdio b"
  "plic_served_irq (plic_set_irq irq l b) = plic_served_irq b" "ncpus (plic_set_irq irq l b) = ncpus b"
  "plic_pending_irq (plic_set_irq irq l b) =
     (if l then plic_pending_irq b OR push_bit irq 1 else plic_pending_irq b AND NOT (push_bit irq 1))"
  by (simp_all add: plic_set_irq_def Let_def)

interpretation board_uart: char_device "board_io 3" board_incoming board_sent board_line
proof
  fix old c w' got l ch and w :: "'a Board_scheme"
  show "cs_read (board_io 3) old w = (c, True, w') \<Longrightarrow> board_incoming w = c # board_incoming w'"
    "cs_read (board_io 3) old w = (c, False, w') \<Longrightarrow> board_incoming w' = board_incoming w"
    by (auto simp: board_incoming_def dest!: console_read_cases split: prod.splits)
  show "cs_read (board_io 3) old w = (c, got, w') \<Longrightarrow> board_sent w' = board_sent w \<and> board_line w' = board_line w"
    by (auto simp: board_sent_def board_line_def dest!: console_read_cases split: prod.splits)
  show "board_sent (cs_write (board_io 3) ch w) = board_sent w @ [ch]"
    "board_incoming (cs_write (board_io 3) ch w) = board_incoming w" "board_line (cs_write (board_io 3) ch w) = board_line w"
    by (simp_all add: board_sent_def board_incoming_def board_line_def console_write_def)
  show "board_line (irq_line (board_io 3) l w) = l"
    by (simp add: board_line_def bit_simps)
  show "board_incoming (irq_line (board_io 3) l w) = board_incoming w" "board_sent (irq_line (board_io 3) l w) = board_sent w"
    by (simp_all add: board_incoming_def board_sent_def)
qed

section \<open>Running the machine\<close>

text \<open>A machine with one hart, one page of memory and no virtio devices.\<close>

definition plain_bus :: "'v Board_scheme bus" where
  "plain_bus = \<lparr>bus_read = (\<lambda>_ _ _ b. (0, b)), bus_write = (\<lambda>_ _ _ _ b. b)\<rparr>"

lemma plain_bus_safe: "bus_safe plain_bus"
  by (simp add: bus_safe_def plain_bus_def keeps_cores_refl)

definition example_stdio :: STDIODevice where
  "example_stdio = \<lparr>stdin_bytes = [65, 2, 1, 66], stdout_bytes = [], console_esc_state = False, console_exit = False\<rparr>"

definition example_board :: Board where
  "example_board = the (board_init 1 0x80000000 False False 40 (\<lambda>_. 0) [example_range] example_stdio 0 0 100)"

lemma example_board_init:
  "board_init 1 0x80000000 False False 40 (\<lambda>_. 0) [example_range] example_stdio 0 0 100 = Some example_board"
  by (simp add: example_board_def board_init_def)

lemma example_board_simps [simp]:
  "ncpus example_board = 1" "maxinsns example_board = 100" "htif_tohost_addr example_board = 0"
  "plic_pending_irq example_board = 0" "plic_served_irq example_board = 0" "board_stdio example_board = example_stdio"
  "dw_uart example_board = dw_uart_init" "board_cosim example_board = False"
  "cpu_state example_board i = (riscv_cpu_init 0x80000000 False False (of_nat i))\<lparr>physical_addr_len := 40, debug_mode := True\<rparr>"
  by (simp_all add: example_board_def board_init_def)

lemma board_init_ok: "board_init n rv ce ci pal mem mm io th fh maxi = Some b \<Longrightarrow> board_ok (maxi, n, th) b"
proof -
  assume i: "board_init n rv ce ci pal mem mm io th fh maxi = Some b"
  have "hart_ok ((riscv_cpu_init rv ce ci h)\<lparr>physical_addr_len := pal, debug_mode := True\<rparr>)" for h
    by (rule hart_ok_core [THEN iffD1, OF _ hart_ok_init]) (simp add: hart_core_def)
  then show ?thesis using i by (auto simp: board_init_def board_ok_def run_limits_def harts_ok_def split: if_splits)
qed





text \<open>
  With two harts the budget can run out between them: hart 0 finds it at zero and stops, and the
  decrement wraps around, so that hart 1 is given \<open>2 ^ 64 - 1\<close> more instructions.
\<close>

theorem maxinsns_wraps:
  assumes "bus_safe bus" and "harts_ok b" and "htif_tohost_addr b = 0" and "maxinsns b = 0"
  shows "\<exists>go b'. iterate_cores bus mmio [0, 1] b = Some (go, b') \<and> maxinsns b' = - 2"
proof -
  have ok: "board_ok (0, ncpus b, 0) b" using assms by (simp add: board_ok_def run_limits_def)
  obtain go b' where r: "iterate_cores bus mmio [0, 1] b = Some (go, b')"
    using iterate_cores_returns [OF assms(1) ok] by blast
  then show ?thesis using iterate_cores_ok [OF assms(1) r ok] by (auto simp: board_ok_def run_limits_def)
qed

theorem maxinsns_wraps_witness:
  "\<exists>go b'. iterate_cores plain_bus id [0, 1] (example_board\<lparr>ncpus := 2, maxinsns := 0\<rparr>) = Some (go, b') \<and> maxinsns b' = - 2"
  by (rule maxinsns_wraps [OF plain_bus_safe])
    (use board_init_ok [OF example_board_init] in \<open>simp_all add: board_ok_def harts_ok_def\<close>)

section \<open>The interrupt controller\<close>

text \<open>
  C8. The PLIC implements the claim/complete protocol: any sequence of changes of device lines, claims,
  completions and writes to enables runs without a failing assertion, gives the answers of the
  abstract controller and ends in the state it prescribes.  Claims are answered with the smallest
  source that is pending and not being served.
\<close>

theorem plic_refines_spec:
  assumes "list_all (plic_event_ok (ncpus b)) es"
  shows "\<exists>b'. plic_run es b = Some (fst (spec_run es (plic_abs b)), b') \<and> plic_abs b' = snd (spec_run es (plic_abs b))"
  by (rule plic_run_refines [OF assms])

theorem plic_refines_spec_witness:
  "\<exists>b'. plic_run [Line 5 True, Line 3 True, Claim 0] example_board = Some ([0, 0, 3], b') \<and>
     plic_abs b' = \<lparr>pending = {5}, served = {3}\<rparr>"
proof -
  have e: "plic_abs example_board = \<lparr>pending = {}, served = {}\<rparr>" by (simp add: plic_abs_def)
  have "spec_run [Line 5 True, Line 3 True, Claim 0] \<lparr>pending = {}, served = {}\<rparr> = ([0, 0, 3], \<lparr>pending = {5}, served = {3}\<rparr>)"
    by (simp add: Let_def)
  then show ?thesis
    using plic_refines_spec [of example_board "[Line 5 True, Line 3 True, Claim 0]"] by (simp add: e plic_event_ok_def)
qed

text \<open>
  C9. No source is handed out twice: when two claims are answered with the same source, it was
  completed in between.
\<close>

theorem plic_no_double_claim:
  assumes "list_all (plic_event_ok (ncpus b)) es" and "plic_event_ok (ncpus b) (Claim h)" and "plic_event_ok (ncpus b) (Claim h')"
    and "plic_run (Claim h # es @ [Claim h']) b = Some (v # vs @ [v], b')" and "v \<noteq> 0"
  shows "\<exists>g c. Complete g c \<in> set es \<and> unat c mod 32 = unat v"
proof -
  have "list_all (plic_event_ok (ncpus b)) (Claim h # es @ [Claim h'])" using assms(1-3) by simp
  then have "fst (spec_run (Claim h # es @ [Claim h']) (plic_abs b)) = v # vs @ [v]"
    using plic_run_refines [of b "Claim h # es @ [Claim h']"] assms(4) by auto
  then obtain p' where "spec_run (Claim h # es @ [Claim h']) (plic_abs b) = (v # vs @ [v], p')" by (metis prod.collapse)
  moreover have "pending (plic_abs b) \<subseteq> {..<32}" using bit_imp_le_length [of "plic_pending_irq b"] by (auto simp: plic_abs_def)
  ultimately show ?thesis using spec_no_double_claim [OF assms(1)] assms(5) by blast
qed

theorem plic_no_double_claim_witness:
  "\<exists>b'. plic_run [Claim 0, Line 3 True, Complete 0 3, Claim 0] (plic_set_irq 3 True example_board) = Some ([3, 0, 0, 3], b')
     \<and> (\<exists>g c. Complete g c \<in> set [Line 3 True, Complete 0 3] \<and> unat c mod 32 = 3)"
proof -
  let ?b = "plic_set_irq 3 True example_board" and ?es = "[Line 3 True, Complete 0 3]"
  have e: "plic_abs ?b = \<lparr>pending = {3}, served = {}\<rparr>" 
    using bit_exp_u32 [of 3] by (simp add: plic_abs_def)
  have "spec_run (Claim 0 # ?es @ [Claim 0]) \<lparr>pending = {3}, served = {}\<rparr> = ([3, 0, 0, 3], \<lparr>pending = {}, served = {3}\<rparr>)"
    by (simp add: Let_def)
  then obtain b' where r: "plic_run (Claim 0 # ?es @ [Claim 0]) ?b = Some (3 # [0, 0] @ [3], b')"
    using plic_run_refines [of ?b "Claim 0 # ?es @ [Claim 0]"] by (auto simp: e plic_event_ok_def)
  show ?thesis using plic_no_double_claim [OF _ _ _ r] r by (auto simp: plic_event_ok_def)
qed

text \<open>
  Whenever a device changes its line, the external interrupt bits of every hart agree with the
  controller afterwards: supervisor-external is pending exactly when a pending, unserved source is
  enabled in the first context of the hart, machine-external when one is enabled in the second.
\<close>

theorem device_line_reaches_harts:
  assumes "h < ncpus b"
  shows "(mip (cpu_state (plic_set_irq irq l b) h) AND MIP_SEIP \<noteq> 0 \<longleftrightarrow>
       plic_mask (plic_set_irq irq l b) AND plic_enable_irq (cpu_state b h) 0 \<noteq> 0) \<and>
     (mip (cpu_state (plic_set_irq irq l b) h) AND MIP_MEIP \<noteq> 0 \<longleftrightarrow>
       plic_mask (plic_set_irq irq l b) AND plic_enable_irq (cpu_state b h) 1 \<noteq> 0)"
proof -
  have "plic_enable_irq (cpu_state (plic_set_irq irq l b) h) = plic_enable_irq (cpu_state b h)"
    by (simp add: plic_set_irq_def Let_def)
  then show ?thesis using set_irq_lines [OF assms, of irq l] by (simp add: plic_lines_def)
qed

theorem device_line_reaches_harts_witness:
  "mip (cpu_state (plic_set_irq 3 True (update_cpu 0 (\<lambda>s. s\<lparr>plic_enable_irq := (\<lambda>_. 8)\<rparr>) example_board)) 0) AND MIP_MEIP \<noteq> 0"
proof -
  let ?b = "update_cpu 0 (\<lambda>s. s\<lparr>plic_enable_irq := (\<lambda>_. 8)\<rparr>) example_board"
  have "plic_mask (plic_set_irq 3 True ?b) = 8" by (simp add: plic_mask_def)
  then show ?thesis using device_line_reaches_harts [of 0 ?b 3 True] by simp
qed

text \<open>
  C35. A completion does not raise the interrupt again: when the line of the only source rises while it
  is being served, it is pending and enabled after its completion, but the hart is not told.
\<close>

theorem plic_completion_loses_interrupt:
  assumes "0 < ncpus b" and "plic_pending_irq b = 0" and "plic_served_irq b = 0" and "k < 32"
  shows "\<exists>b'. plic_run [Enable 1 (push_bit k 1), Line k True, Claim 0, Line k True, Complete 0 (of_nat k)] b = Some ([0, 0, of_nat k, 0, 0], b')
     \<and> plic_mask b' AND plic_enable_irq (cpu_state b' 0) 1 \<noteq> 0 \<and> mip (cpu_state b' 0) AND MIP_MEIP = 0"
proof -
  let ?m = "push_bit k 1 :: u32"
  have m: "?m \<noteq> 0" using assms(4) bit_exp_u32 [of k k] by (metis bit_0_eq bot_apply bot_bool_def)
  have ctz: "ctz32 ?m = k" using assms(4) by (intro ctz32_eqI) (auto simp: bit_exp_iff)
  define b1 where "b1 = update_cpu 0 (\<lambda>s. s\<lparr>plic_enable_irq := (plic_enable_irq s)(1 := ?m)\<rparr>) b"
  define b2 where "b2 = plic_set_irq k True b1"
  have b2: "plic_pending_irq b2 = ?m" "plic_served_irq b2 = 0" "plic_mask b2 = ?m" "ncpus b2 = ncpus b"
    using assms(2,3) by (simp_all add: b2_def b1_def plic_mask_def)
  define b3 where "b3 = plic_update_mip 0 (b2\<lparr>plic_served_irq := ?m, plic_pending_irq := 0\<rparr>)"
  define b4 where "b4 = plic_set_irq k True b3"
  define b5 where "b5 = b4\<lparr>plic_served_irq := 0\<rparr>"
  have en: "plic_enable_irq (cpu_state b5 0) 1 = ?m"
    by (simp add: b5_def b4_def b3_def b2_def b1_def plic_set_irq_def Let_def)
  have b4: "plic_pending_irq b4 = ?m" "plic_served_irq b4 = ?m" "plic_mask b4 = 0" "ncpus b3 = ncpus b"
    using b2 by (simp_all add: b4_def b3_def plic_mask_def)
  have "plic_lines 0 b4" unfolding b4_def by (rule set_irq_lines) (use b4 assms(1) in simp)
  then have meip: "mip (cpu_state b5 0) AND MIP_MEIP = 0" by (simp add: plic_lines_def b4 b5_def)
  have msk: "plic_mask b5 = ?m" using b4 by (simp add: b5_def plic_mask_def)
  have steps: "plic_step (Enable 1 ?m) b = Some (0, b1)" "plic_step (Line k True) b1 = Some (0, b2)"
    "plic_step (Claim 0) b2 = Some (of_nat k, b3)" "plic_step (Line k True) b3 = Some (0, b4)"
    "plic_step (Complete 0 (of_nat k)) b4 = Some (0, b5)"
    using enable_eq [of 1 ?m b] claim_eq [of 0 b2] complete_eq [of 0 "of_nat k" b4] assms(1,4) m b2 b4 ctz
    by (simp_all add: b1_def b2_def b3_def b4_def b5_def Let_def unat_of_nat)
  have "plic_mask b5 AND plic_enable_irq (cpu_state b5 0) 1 \<noteq> 0" unfolding en msk using m by simp
  then show ?thesis using meip steps by (simp del: plic_step.simps)
qed

theorem plic_completion_loses_interrupt_witness:
  "\<exists>b'. plic_run [Enable 1 (push_bit 3 1), Line 3 True, Claim 0, Line 3 True, Complete 0 (of_nat 3)] example_board = Some ([0, 0, of_nat 3, 0, 0], b')
     \<and> plic_mask b' AND plic_enable_irq (cpu_state b' 0) 1 \<noteq> 0 \<and> mip (cpu_state b' 0) AND MIP_MEIP = 0"
  by (rule plic_completion_loses_interrupt) simp_all

section \<open>The timer\<close>

definition mtimecmp_offset :: "nat \<Rightarrow> u32" where
  "mtimecmp_offset h = 0x4000 + 8 * of_nat h"

lemma mtimecmp_offsets:
  assumes "h < 8" "off = mtimecmp_offset h"
  shows "\<not> off < 0x4000" "off \<noteq> 0xbff8" "off \<noteq> 0xbffc" "off < 0xbff8" "unat (drop_bit 3 (off - 0x4000)) = h" "drop_bit 2 off AND 1 = 0"
    "\<not> off + 4 < 0x4000" "off + 4 \<noteq> 0xbff8" "off + 4 \<noteq> 0xbffc" "off + 4 < 0xbff8" "unat (drop_bit 3 (off + 4 - 0x4000)) = h" "drop_bit 2 (off + 4) AND 1 = 1"
  using hart_index_cases [OF assms(1)] unfolding assms(2) mtimecmp_offset_def by (elim insertE; simp)+

lemma clint_write_mtimecmp:
  assumes "h < 8" "h < ncpus b"
  shows "clint_write (mtimecmp_offset h) v 2 b =
      update_cpu h (\<lambda>s. s\<lparr>timecmp := ucast v, mip := mip s AND NOT MIP_MTIP\<rparr>) b"
    "clint_write (mtimecmp_offset h + 4) v 2 b =
      update_cpu h (\<lambda>s. s\<lparr>timecmp := (timecmp s AND 0xffffffff) OR push_bit 32 (ucast v), mip := mip s AND NOT MIP_MTIP\<rparr>) b"
proof -
  define off where "off = mtimecmp_offset h"
  note o = mtimecmp_offsets [OF assms(1) off_def]
  have "\<not> off + 4 < 16384" using o(7) by simp
  then show "clint_write (mtimecmp_offset h) v 2 b =
      update_cpu h (\<lambda>s. s\<lparr>timecmp := ucast v, mip := mip s AND NOT MIP_MTIP\<rparr>) b"
    "clint_write (mtimecmp_offset h + 4) v 2 b =
      update_cpu h (\<lambda>s. s\<lparr>timecmp := (timecmp s AND 0xffffffff) OR push_bit 32 (ucast v), mip := mip s AND NOT MIP_MTIP\<rparr>) b"
    using o assms(2) unfolding off_def [symmetric] clint_write_def Let_def clint_width_def on_hart_reset_mip
    by (simp_all add: update_cpu_def)
qed

lemma clint_read_mtimecmp:
  assumes "h < 8" "h < ncpus b"
  shows "clint_read (mtimecmp_offset h) 2 b = ucast (timecmp (cpu_state b h))"
    "clint_read (mtimecmp_offset h + 4) 2 b = ucast (drop_bit 32 (timecmp (cpu_state b h)))"
proof -
  define off where "off = mtimecmp_offset h"
  note o = mtimecmp_offsets [OF assms(1) off_def]
  show "clint_read (mtimecmp_offset h) 2 b = ucast (timecmp (cpu_state b h))"
    "clint_read (mtimecmp_offset h + 4) 2 b = ucast (drop_bit 32 (timecmp (cpu_state b h)))"
    using o assms(2) unfolding off_def [symmetric] clint_read_def Let_def clint_width_def by simp_all
qed

lemma u64_halves:
  "(ucast (ucast (t :: u64) :: u32) AND 0xffffffff) OR push_bit 32 (ucast (ucast (drop_bit 32 t) :: u32)) = t"
proof -
  have m: "(0xffffffff :: u64) = mask 32" by (simp add: mask_eq_exp_minus_1)
  show ?thesis unfolding m
    by (rule bit_word_eqI) (auto simp: bit_simps)
qed

text \<open>Both halves of \<open>mtimecmp\<close>, the low one first.\<close>

definition write_mtimecmp :: "nat \<Rightarrow> u64 \<Rightarrow> 'v Board_scheme \<Rightarrow> 'v Board_scheme" where
  "write_mtimecmp h t b =
     clint_write (mtimecmp_offset h + 4) (ucast (drop_bit 32 t)) 2 (clint_write (mtimecmp_offset h) (ucast t) 2 b)"

lemma write_mtimecmp_eq:
  assumes "h < 8" "h < ncpus b"
  shows "write_mtimecmp h t b = update_cpu h (\<lambda>s. s\<lparr>timecmp := t, mip := mip s AND NOT MIP_MTIP\<rparr>) b"
  using assms u64_halves [of t]
  by (simp add: write_mtimecmp_def clint_write_mtimecmp) (simp add: update_cpu_def and.assoc)

text \<open>
  Writing the two halves of \<open>mtimecmp\<close> of a hart, the low one first, sets the 64-bit value, which
  the two halves read back; the timer interrupt of the hart is cleared and no other hart changes.
  In the other order the value is lost: the write of the low half clears the high half.
\<close>

theorem mtimecmp_roundtrip:
  assumes "h < ncpus b" and "h < 8"
  shows "let b' = write_mtimecmp h t b
    in timecmp (cpu_state b' h) = t \<and> mip (cpu_state b' h) AND MIP_MTIP = 0
     \<and> clint_read (mtimecmp_offset h) 2 b' = ucast t \<and> clint_read (mtimecmp_offset h + 4) 2 b' = ucast (drop_bit 32 t)
     \<and> (\<forall>j. j \<noteq> h \<longrightarrow> cpu_state b' j = cpu_state b j)
     \<and> timecmp (cpu_state (clint_write (mtimecmp_offset h) lo 2 (clint_write (mtimecmp_offset h + 4) hi 2 b)) h) = ucast lo"
  using assms by (simp add: Let_def write_mtimecmp_eq clint_read_mtimecmp clint_write_mtimecmp and.assoc)

theorem mtimecmp_roundtrip_witness:
  "timecmp (cpu_state (write_mtimecmp 0 0x123456789a example_board) 0) = 0x123456789a
   \<and> timecmp (cpu_state (clint_write (mtimecmp_offset 0) 7 2 (clint_write (mtimecmp_offset 0 + 4) 1 2 example_board)) 0) = 7"
  using mtimecmp_roundtrip [of 0 example_board "0x123456789a" 7 1] by (simp add: Let_def)

lemma neg_signed_le: "(d :: u64) < 2 ^ 63 \<Longrightarrow> - d \<le>s 0"
proof -
  assume "d < 2 ^ 63"
  then have d: "uint d < 2 ^ 63" by (simp add: word_less_def)
  have p: "0 \<le> uint d" by simp
  have "sint d = uint d"
    unfolding sint_uint using d by (simp add: signed_take_bit_int_eq_self order_trans [OF _ p])
  then have "sint (- d) = signed_take_bit 63 (- uint d)" by (simp add: sint_word_ariths(4))
  also have "\<dots> = - uint d" using d by (intro signed_take_bit_int_eq_self) (simp_all add: le_less_trans [OF _ zero_less_numeral])
  finally show ?thesis by (simp add: word_sle_eq)
qed

lemma sleep_duration_expired:
  assumes "mip (cpu_state b h) AND MIP_MTIP = 0" "0 < rtc_get_time b" "timecmp (cpu_state b h) - rtc_get_time b \<le>s 0"
  shows "snd (virt_machine_get_sleep_duration h d b) = update_cpu h (cpu_set_mip MIP_MTIP b) b"
  using assms by (simp add: virt_machine_get_sleep_duration_def Let_def on_hart_set_mip)

text \<open>
  C34. A timer that is set to a time that has passed fires: after the comparison that precedes every
  step the timer interrupt of the hart is pending, and a hart that waits for interrupts with the
  timer interrupt enabled is awake.
\<close>

theorem timer_fires:
  assumes "h < ncpus b" and "h < 8" and "0 < rtc_get_time b" and "rtc_get_time b - t < 2 ^ 63"
    and "mie (cpu_state b h) AND MIP_MTIP \<noteq> 0" and "\<not> board_cosim b"
  shows "let b' = snd (virt_machine_get_sleep_duration h 10 (write_mtimecmp h t b))
    in mip (cpu_state b' h) AND MIP_MTIP \<noteq> 0 \<and> \<not> power_down_flag (cpu_state b' h)"
proof -
  let ?c = "write_mtimecmp h t b"
  have c: "?c = update_cpu h (\<lambda>s. s\<lparr>timecmp := t, mip := mip s AND NOT MIP_MTIP\<rparr>) b"
    by (rule write_mtimecmp_eq [OF assms(2,1)])
  have r: "rtc_get_time ?c = rtc_get_time b" by (simp add: c rtc_get_time_def)
  have "- (rtc_get_time b - t) \<le>s 0" by (rule neg_signed_le [OF assms(4)])
  then have "snd (virt_machine_get_sleep_duration h 10 ?c) = update_cpu h (cpu_set_mip MIP_MTIP ?c) ?c"
    using assms(3) by (intro sleep_duration_expired) (simp_all add: r, simp_all add: c and.assoc)
  moreover have "\<not> board_cosim ?c" using assms(6) by (simp add: c update_cpu_def)
  moreover have "(x OR MIP_MTIP) AND mie (cpu_state b h) \<noteq> 0" for x
    using assms(5) mip_bit_simps(3) [of "mie (cpu_state b h)"] by (auto simp: bit_eq_iff bit_simps)
  ultimately show ?thesis
    by (simp add: Let_def cpu_set_mip_def) (simp add: c mip_bit_simps(3) bit_simps bit_numeral_rec numeral_eq_Suc)
qed

theorem timer_fires_witness:
  "\<not> power_down_flag (cpu_state (snd (virt_machine_get_sleep_duration 0 10 (write_mtimecmp 0 1
     (update_cpu 0 (\<lambda>s. s\<lparr>mcycle := 6000, mie := MIP_MTIP, power_down_flag := True\<rparr>) example_board)))) 0)"
proof -
  let ?b = "update_cpu 0 (\<lambda>s. s\<lparr>mcycle := 6000, mie := MIP_MTIP, power_down_flag := True\<rparr>) example_board"
  have "rtc_get_time ?b = 3" by (simp add: rtc_get_time_def)
  moreover have "\<not> board_cosim ?b" by (simp add: update_cpu_def)
  ultimately show ?thesis using timer_fires [of 0 ?b 1] by (simp add: Let_def)
qed

section \<open>The UART on the console\<close>

text \<open>
  A driver that uses the UART of the machine loses and invents nothing: over every sequence of
  aligned register accesses, which all return, the bytes it has read followed by those it can still
  read are the bytes typed on the console (escape sequences removed), in order; the bytes it wrote
  are appended to the output; and the interrupt line is up exactly when an enabled condition holds.
\<close>

theorem uart_transfers_in_order:
  assumes "list_all uart_op_ok ops" and "irq_synced s" and "board_line b = last_irq_level s"
  shows "\<exists>r t s' b'. uart_run (board_io 3) ops (s, b) = Some (r, t, (s', b'))
     \<and> uart_rx board_incoming (s, b) = r @ uart_rx board_incoming (s', b')
     \<and> board_sent b' = board_sent b @ t \<and> irq_synced s' \<and> (board_line b' \<longleftrightarrow> uart_condition s')"
proof -
  obtain r t s' b' where r: "uart_run (board_io 3) ops (s, b) = Some (r, t, (s', b'))"
    using uart_run_returns [OF assms(1)] by (metis prod.exhaust_sel)
  from board_uart.run_transfers [OF r] assms(2,3) show ?thesis using r by (auto simp: irq_synced_def)
qed

theorem uart_transfers_in_order_witness:
  "\<exists>r t s' b'. uart_run (board_io 3) [Wr 0 0x48, Rd 20, Rd 0, Wr 0 0x49] (dw_uart_init\<lparr>isr := 1\<rparr>, example_board) = Some (r, t, (s', b'))
     \<and> uart_rx board_incoming (dw_uart_init\<lparr>isr := 1\<rparr>, example_board) = r @ uart_rx board_incoming (s', b') \<and> board_sent b' = t"
proof -
  have "irq_synced (dw_uart_init\<lparr>isr := 1\<rparr>)" by (simp add: irq_synced_def uart_condition_def dw_uart_init_def)
  moreover have "board_line example_board = last_irq_level (dw_uart_init\<lparr>isr := 1\<rparr>)"
    by (simp add: board_line_def dw_uart_init_def)
  moreover have "list_all uart_op_ok [Wr 0 0x48, Rd 20, Rd 0, Wr 0 0x49]" by (simp add: uart_op_ok_def)
  moreover have "board_sent example_board = []" by (simp add: board_sent_def example_stdio_def)
  ultimately show ?thesis
    using uart_transfers_in_order [of "[Wr 0 0x48, Rd 20, Rd 0, Wr 0 0x49]" "dw_uart_init\<lparr>isr := 1\<rparr>" example_board]
    by (metis append_Nil)
qed

end
