(* ===== verification/Fdt.thy ===== *)
theory Fdt
  imports Cutils
begin

text \<open>
  The device tree the simulator builds for the guest (\<open>fdt_*\<close> and \<open>riscv_build_fdt\<close> of
  \<open>src/riscv_machine.cpp\<close>).  The host is little-endian; buffers are lists of the bytes written
  so far.  Strings are Isabelle strings without the character 0; \<open>c_str\<close> is their memory image.
\<close>

section \<open>Bytes\<close>

definition c_str :: "string \<Rightarrow> u8 list" where
  "c_str s = map of_char s @ [0]"

text \<open>The memory image of a \<open>uint32_t\<close>.\<close>

definition le32_bytes :: "u32 \<Rightarrow> u8 list" where
  "le32_bytes v = [ucast v, ucast (drop_bit 8 v), ucast (drop_bit 16 v), ucast (drop_bit 24 v)]"

section \<open>The builder\<close>

text \<open>
  \<open>tab\<close> holds the bytes of the first \<open>tab_len\<close> words of the table, \<open>string_table\<close> the
  first \<open>string_table_len\<close> bytes of the string table; the two sizes are those of the
  allocations.
\<close>

record FDTState =
  tab :: "u8 list"
  tab_size :: int
  open_node_count :: int
  string_table :: "u8 list"
  string_table_size :: int

definition tab_len :: "FDTState \<Rightarrow> int" where
  "tab_len s = int (length (tab s)) div 4"

definition fdt_init :: FDTState where
  "fdt_init = \<lparr>tab = [], tab_size = 0, open_node_count = 0, string_table = [], string_table_size = 0\<rparr>"

definition fdt_alloc_len :: "int \<Rightarrow> FDTState \<Rightarrow> FDTState" where
  "fdt_alloc_len len s =
     (if len > tab_size s then s\<lparr>tab_size := max_int len (tab_size s * 3 div 2)\<rparr> else s)"

definition fdt_put32 :: "u32 \<Rightarrow> FDTState \<Rightarrow> FDTState" where
  "fdt_put32 v s =
     (let s = fdt_alloc_len (tab_len s + 1) s in s\<lparr>tab := tab s @ le32_bytes (cpu_to_be32 v)\<rparr>)"

definition fdt_put_data :: "u8 list \<Rightarrow> FDTState \<Rightarrow> FDTState" where
  "fdt_put_data data s =
     (let len = int (length data); len1 = (len + 3) div 4;
          s = fdt_alloc_len (tab_len s + len1) s
      in s\<lparr>tab := tab s @ data @ replicate (nat ((- len) mod 4)) 0\<rparr>)"

abbreviation (input) FDT_BEGIN_NODE :: u32 where "FDT_BEGIN_NODE \<equiv> 1"
abbreviation (input) FDT_END_NODE :: u32 where "FDT_END_NODE \<equiv> 2"
abbreviation (input) FDT_PROP :: u32 where "FDT_PROP \<equiv> 3"
abbreviation (input) FDT_NOP :: u32 where "FDT_NOP \<equiv> 4"
abbreviation (input) FDT_END :: u32 where "FDT_END \<equiv> 9"

definition fdt_begin_node :: "string \<Rightarrow> FDTState \<Rightarrow> FDTState" where
  "fdt_begin_node name s =
     (let s = fdt_put_data (c_str name) (fdt_put32 FDT_BEGIN_NODE s)
      in s\<lparr>open_node_count := open_node_count s + 1\<rparr>)"

text \<open>\<open>%llx\<close> and \<open>snprintf\<close> into a buffer of 256 characters.\<close>

fun hex_digits :: "nat \<Rightarrow> string" where
  "hex_digits n = (if n < 16 then [''0123456789abcdef'' ! n] else hex_digits (n div 16) @ [''0123456789abcdef'' ! (n mod 16)])"

declare hex_digits.simps [simp del]

definition node_num_name :: "string \<Rightarrow> u64 \<Rightarrow> string" where
  "node_num_name name n = take 255 (name @ ''@'' @ hex_digits (unat n))"

definition fdt_begin_node_num :: "string \<Rightarrow> u64 \<Rightarrow> FDTState \<Rightarrow> FDTState" where
  "fdt_begin_node_num name n s = fdt_begin_node (node_num_name name n) s"

definition fdt_end_node :: "FDTState \<Rightarrow> FDTState" where
  "fdt_end_node s = (let s = fdt_put32 FDT_END_NODE s in s\<lparr>open_node_count := open_node_count s - 1\<rparr>)"

text \<open>The string that starts at a position (up to the character 0), and the search for a name.\<close>

definition string_at :: "u8 list \<Rightarrow> nat \<Rightarrow> u8 list" where
  "string_at st pos = takeWhile (\<lambda>c. c \<noteq> 0) (drop pos st)"

function find_string :: "u8 list \<Rightarrow> string \<Rightarrow> nat \<Rightarrow> nat option" where
  "find_string st name pos =
     (if pos < length st then
        if string_at st pos = map of_char name then Some pos
        else find_string st name (pos + length (string_at st pos) + 1)
      else None)"
  by pat_completeness auto
termination by (relation "measure (\<lambda>(st, name, pos). length st - pos)") auto

declare find_string.simps [simp del]

definition fdt_get_string_offset :: "string \<Rightarrow> FDTState \<Rightarrow> nat \<times> FDTState" where
  "fdt_get_string_offset name s =
     (case find_string (string_table s) name 0 of
        Some pos \<Rightarrow> (pos, s)
      | None \<Rightarrow>
          let name_size = length name + 1;
              new_len = int (length (string_table s)) + int name_size;
              s = (if new_len > string_table_size s
                   then s\<lparr>string_table_size := max_int new_len (string_table_size s * 3 div 2)\<rparr> else s)
          in (length (string_table s), s\<lparr>string_table := string_table s @ c_str name\<rparr>))"

definition fdt_prop :: "string \<Rightarrow> u8 list \<Rightarrow> FDTState \<Rightarrow> FDTState" where
  "fdt_prop prop_name data s =
     (let s = fdt_put32 (of_nat (length data)) (fdt_put32 FDT_PROP s);
          (off, s) = fdt_get_string_offset prop_name s
      in fdt_put_data data (fdt_put32 (of_nat off) s))"

definition fdt_prop_tab_u32 :: "string \<Rightarrow> u32 list \<Rightarrow> FDTState \<Rightarrow> FDTState" where
  "fdt_prop_tab_u32 prop_name tb s =
     (let s = fdt_put32 (of_nat (length tb) * 4) (fdt_put32 FDT_PROP s);
          (off, s) = fdt_get_string_offset prop_name s
      in fold fdt_put32 tb (fdt_put32 (of_nat off) s))"

definition fdt_prop_u32 :: "string \<Rightarrow> u32 \<Rightarrow> FDTState \<Rightarrow> FDTState" where
  "fdt_prop_u32 prop_name v = fdt_prop_tab_u32 prop_name [v]"

definition u64_words :: "u64 \<Rightarrow> u32 list" where
  "u64_words v = [ucast (drop_bit 32 v), ucast v]"

definition fdt_prop_u64 :: "string \<Rightarrow> u64 \<Rightarrow> FDTState \<Rightarrow> FDTState" where
  "fdt_prop_u64 prop_name v = fdt_prop_tab_u32 prop_name (u64_words v)"

definition fdt_prop_tab_u64_2 :: "string \<Rightarrow> u64 \<Rightarrow> u64 \<Rightarrow> FDTState \<Rightarrow> FDTState" where
  "fdt_prop_tab_u64_2 prop_name v0 v1 = fdt_prop_tab_u32 prop_name (u64_words v0 @ u64_words v1)"

definition fdt_prop_str :: "string \<Rightarrow> string \<Rightarrow> FDTState \<Rightarrow> FDTState" where
  "fdt_prop_str prop_name str = fdt_prop prop_name (c_str str)"

definition fdt_prop_tab_str :: "string \<Rightarrow> string list \<Rightarrow> FDTState \<Rightarrow> FDTState" where
  "fdt_prop_tab_str prop_name strs = fdt_prop prop_name (concat (map c_str strs))"

text \<open>
  \<open>fdt_output\<close>: the bytes written to \<open>dst\<close>, in the order of their addresses; \<open>None\<close>:
  the assertion on open nodes fails.
\<close>

definition pad8 :: "nat \<Rightarrow> u8 list" where
  "pad8 pos = replicate ((8 - pos mod 8) mod 8) 0"

definition fdt_header :: "nat \<Rightarrow> nat \<Rightarrow> nat \<Rightarrow> nat \<Rightarrow> nat \<Rightarrow> nat \<Rightarrow> u8 list" where
  "fdt_header totalsize off_struct off_strings off_rsvmap size_strings size_struct =
     concat (map (\<lambda>v. le32_bytes (cpu_to_be32 v))
       [0xd00dfeed, of_nat totalsize, of_nat off_struct, of_nat off_strings, of_nat off_rsvmap, 17, 16, 0,
        of_nat size_strings, of_nat size_struct])"

definition fdt_output :: "FDTState \<Rightarrow> u8 list option" where
  "fdt_output s =
     (if open_node_count s \<noteq> 0 then None
      else
        let s = fdt_put32 FDT_END s;
            dt_struct_size = length (tab s); dt_strings_size = length (string_table s);
            off_dt_struct = 40; pos = off_dt_struct + dt_struct_size;
            pad = pad8 pos; off_mem_rsvmap = pos + length pad;
            off_dt_strings = off_mem_rsvmap + 16; pos = off_dt_strings + dt_strings_size;
            pad2 = pad8 pos
        in Some (fdt_header (pos + length pad2) off_dt_struct off_dt_strings off_mem_rsvmap dt_strings_size dt_struct_size
                 @ tab s @ pad @ replicate 16 0 @ string_table s @ pad2))"

section \<open>The tree of the machine\<close>

text \<open>What \<open>riscv_build_fdt\<close> reads: the fields of \<open>RISCVMachine\<close> and its other arguments.\<close>

record FBDevice =
  fb_size :: u32
  fb_width :: u32
  fb_height :: u32
  fb_stride :: u32

record fdt_params =
  f_ncpus :: nat
  f_misa :: "nat \<Rightarrow> u32"
  f_ram_base :: u64
  f_ram_size :: u64
  f_clint_base :: u64
  f_clint_size :: u64
  f_plic_base :: u64
  f_plic_size :: u64
  f_virtio_count :: nat
  f_fb_dev :: "FBDevice option"
  f_cmd_line :: "string option"
  f_initrd_start :: u64
  f_initrd_end :: u64

definition isa_string :: "u32 \<Rightarrow> string" where
  "isa_string misa = ''rv64'' @ map (\<lambda>i. ''abcdefghijklmnopqrstuvwxyz'' ! i) (filter (bit misa) [0..<26])"

text \<open>The phandle of the interrupt controller of a hart: \<open>cur_phandle\<close> starts at 1.\<close>

definition hart_phandle :: "nat \<Rightarrow> u32" where
  "hart_phandle hartid = of_nat hartid + 1"

definition cpu_ops :: "fdt_params \<Rightarrow> nat \<Rightarrow> (FDTState \<Rightarrow> FDTState) list" where
  "cpu_ops p hartid =
     [fdt_begin_node_num ''cpu'' (of_nat hartid),
      fdt_prop_str ''device_type'' ''cpu'',
      fdt_prop_u32 ''reg'' (of_nat hartid),
      fdt_prop_str ''status'' ''okay'',
      fdt_prop_str ''compatible'' ''riscv'',
      fdt_prop_str ''riscv,isa'' (isa_string (f_misa p hartid)),
      fdt_prop_str ''mmu-type'' ''riscv,sv48'',
      fdt_prop_u32 ''clock-frequency'' 2000000000,
      fdt_begin_node ''interrupt-controller'',
      fdt_prop_u32 ''#interrupt-cells'' 1,
      fdt_prop ''interrupt-controller'' [],
      fdt_prop_str ''compatible'' ''riscv,cpu-intc'',
      fdt_prop_u32 ''phandle'' (hart_phandle hartid),
      fdt_prop_u32 ''linux,phandle'' (hart_phandle hartid),
      fdt_end_node,
      fdt_end_node]"

definition irq_pairs :: "fdt_params \<Rightarrow> u32 \<Rightarrow> u32 \<Rightarrow> u32 list" where
  "irq_pairs p a b = concat (map (\<lambda>h. [hart_phandle h, a, hart_phandle h, b]) [0..<f_ncpus p])"

definition plic_phandle :: "fdt_params \<Rightarrow> u32" where
  "plic_phandle p = of_nat (f_ncpus p) + 1"

abbreviation (input) VIRTIO_BASE_ADDR :: u64 where "VIRTIO_BASE_ADDR \<equiv> 0x40010000"
abbreviation (input) VIRTIO_SIZE :: u64 where "VIRTIO_SIZE \<equiv> 0x1000"

definition virtio_ops :: "fdt_params \<Rightarrow> nat \<Rightarrow> (FDTState \<Rightarrow> FDTState) list" where
  "virtio_ops p i =
     [fdt_begin_node_num ''virtio'' (VIRTIO_BASE_ADDR + of_nat i * VIRTIO_SIZE),
      fdt_prop_str ''compatible'' ''virtio,mmio'',
      fdt_prop_tab_u64_2 ''reg'' (VIRTIO_BASE_ADDR + of_nat i * VIRTIO_SIZE) VIRTIO_SIZE,
      fdt_prop_tab_u32 ''interrupts-extended'' [plic_phandle p, 4 + of_nat i],
      fdt_end_node]"

definition uart_ops :: "fdt_params \<Rightarrow> u64 \<Rightarrow> u32 \<Rightarrow> (FDTState \<Rightarrow> FDTState) list" where
  "uart_ops p base_addr irq =
     [fdt_begin_node_num ''uart'' base_addr,
      fdt_prop_tab_u64_2 ''reg'' base_addr 0x1000,
      fdt_prop_u32 ''current-speed'' 115200,
      fdt_prop_u32 ''clock-frequency'' 25000000,
      fdt_prop_u32 ''reg-shift'' 2,
      fdt_prop_u32 ''reg-io-width'' 4,
      fdt_prop_str ''compatible'' ''ns16550a'',
      fdt_prop_u32 ''interrupt-parent'' (plic_phandle p),
      fdt_prop_u32 ''interrupts'' irq,
      fdt_end_node]"

definition fb_ops :: "FBDevice option \<Rightarrow> (FDTState \<Rightarrow> FDTState) list" where
  "fb_ops fb =
     (case fb of
        None \<Rightarrow> []
      | Some d \<Rightarrow>
          [fdt_begin_node_num ''framebuffer'' 0x41000000,
           fdt_prop_str ''compatible'' ''simple-framebuffer'',
           fdt_prop_tab_u64_2 ''reg'' 0x41000000 (scast (fb_size d)),
           fdt_prop_u32 ''width'' (fb_width d),
           fdt_prop_u32 ''height'' (fb_height d),
           fdt_prop_u32 ''stride'' (fb_stride d),
           fdt_prop_str ''format'' ''a8r8g8b8'',
           fdt_end_node])"

definition clint_ops :: "fdt_params \<Rightarrow> (FDTState \<Rightarrow> FDTState) list" where
  "clint_ops p =
     [fdt_begin_node_num ''clint'' (f_clint_base p),
      fdt_prop_str ''compatible'' ''riscv,clint0'',
      fdt_prop_tab_u32 ''interrupts-extended'' (irq_pairs p 3 7),
      fdt_prop_tab_u64_2 ''reg'' (f_clint_base p) (f_clint_size p),
      fdt_end_node]"

definition plic_ops :: "fdt_params \<Rightarrow> (FDTState \<Rightarrow> FDTState) list" where
  "plic_ops p =
     [fdt_begin_node_num ''plic'' (f_plic_base p),
      fdt_prop_u32 ''#interrupt-cells'' 1,
      fdt_prop ''interrupt-controller'' [],
      fdt_prop_str ''compatible'' ''riscv,plic0'',
      fdt_prop_u32 ''riscv,ndev'' 31,
      fdt_prop_tab_u64_2 ''reg'' (f_plic_base p) (f_plic_size p),
      fdt_prop_tab_u32 ''interrupts-extended'' (irq_pairs p 9 11),
      fdt_prop_u32 ''phandle'' (plic_phandle p),
      fdt_end_node]"

definition soc_ops :: "fdt_params \<Rightarrow> (FDTState \<Rightarrow> FDTState) list" where
  "soc_ops p =
     [fdt_begin_node ''soc'',
      fdt_prop_u32 ''#address-cells'' 2,
      fdt_prop_u32 ''#size-cells'' 2,
      fdt_prop_tab_str ''compatible'' [''ucbbar,dromajo-bar-soc'', ''simple-bus''],
      fdt_prop ''ranges'' []]
     @ clint_ops p @ plic_ops p
     @ concat (map (virtio_ops p) [0..<f_virtio_count p])
     @ uart_ops p 0x12002000 3 @ uart_ops p 0x12007000 15
     @ fb_ops (f_fb_dev p)
     @ [fdt_end_node]"

definition chosen_ops :: "fdt_params \<Rightarrow> (FDTState \<Rightarrow> FDTState) list" where
  "chosen_ops p =
     [fdt_begin_node ''chosen'',
      fdt_prop_str ''bootargs'' (case f_cmd_line p of None \<Rightarrow> [] | Some c \<Rightarrow> c)]
     @ (if f_initrd_start p \<noteq> 0 \<and> f_initrd_start p < f_initrd_end p
        then [fdt_prop_u64 ''linux,initrd-start'' (f_initrd_start p), fdt_prop_u64 ''linux,initrd-end'' (f_initrd_end p)]
        else [])
     @ [fdt_end_node]"

definition machine_ops :: "fdt_params \<Rightarrow> (FDTState \<Rightarrow> FDTState) list" where
  "machine_ops p =
     [fdt_begin_node [],
      fdt_prop_u32 ''#address-cells'' 2,
      fdt_prop_u32 ''#size-cells'' 2,
      fdt_prop_str ''compatible'' ''ucbbar,dromajo-bar_dev'',
      fdt_prop_str ''model'' ''ucbbar,dromajo-bare'',
      fdt_begin_node ''cpus'',
      fdt_prop_u32 ''#address-cells'' 1,
      fdt_prop_u32 ''#size-cells'' 0,
      fdt_prop_u32 ''timebase-frequency'' 1000000]
     @ concat (map (cpu_ops p) [0..<f_ncpus p])
     @ [fdt_end_node,
        fdt_begin_node_num ''memory'' (f_ram_base p),
        fdt_prop_str ''device_type'' ''memory'',
        fdt_prop_tab_u32 ''reg'' (u64_words (f_ram_base p) @ u64_words (f_ram_size p)),
        fdt_end_node]
     @ soc_ops p @ chosen_ops p @ [fdt_end_node]"

definition fdt_build :: "fdt_params \<Rightarrow> FDTState" where
  "fdt_build p = fold (\<lambda>op. op) (machine_ops p) fdt_init"

text \<open>
  \<open>riscv_build_fdt\<close>: the bytes stored at \<open>dst\<close>; with a \<open>dtb_name\<close> the content of that
  file.  \<open>None\<close>: a failed assertion.
\<close>

definition riscv_build_fdt :: "u8 list option \<Rightarrow> fdt_params \<Rightarrow> u8 list option" where
  "riscv_build_fdt dtb p = (case dtb of None \<Rightarrow> fdt_output (fdt_build p) | Some bytes \<Rightarrow> Some bytes)"

end
