(* ===== verification/Fdt_Lemmas.thy ===== *)
theory Fdt_Lemmas
  imports Fdt
begin

text \<open>
  A reader for flattened device trees (version 17 of the format), written from the format and not
  from the builder, and the proof that it recovers the tree a sequence of builder calls describes.
\<close>

section \<open>Reading a blob\<close>

datatype 'n dtree = DNode 'n "('n \<times> u8 list) list" "'n dtree list"

text \<open>A node under construction: name, properties and finished children.\<close>

type_synonym dframe = "u8 list \<times> (u8 list \<times> u8 list) list \<times> u8 list dtree list"

fun take32 :: "u8 list \<Rightarrow> (u32 \<times> u8 list) option" where
  "take32 (a # b # c # d # bs) =
     Some (push_bit 24 (ucast a) OR push_bit 16 (ucast b) OR push_bit 8 (ucast c) OR ucast d, bs)"
| "take32 _ = None"

definition round4 :: "nat \<Rightarrow> nat" where
  "round4 n = 4 * ((n + 3) div 4)"

definition take_data :: "nat \<Rightarrow> u8 list \<Rightarrow> (u8 list \<times> u8 list) option" where
  "take_data n bs = (if round4 n \<le> length bs then Some (take n bs, drop (round4 n) bs) else None)"

definition take_name :: "u8 list \<Rightarrow> (u8 list \<times> u8 list) option" where
  "take_name bs = map_option (apfst butlast) (take_data (length (takeWhile (\<lambda>c. c \<noteq> 0) bs) + 1) bs)"

lemma take32_length: "take32 bs = Some (v, bs') \<Longrightarrow> length bs' < length bs"
  by (cases bs rule: take32.cases) auto

lemma take_data_length: "take_data n bs = Some (d, bs') \<Longrightarrow> length bs' \<le> length bs"
  by (auto simp: take_data_def split: if_splits)

lemma take_name_length: "take_name bs = Some (d, bs') \<Longrightarrow> length bs' \<le> length bs"
  by (auto simp: take_name_def dest: take_data_length)

function parse_struct :: "u8 list \<Rightarrow> u8 list \<Rightarrow> dframe list \<Rightarrow> u8 list dtree option" where
  "parse_struct strs bs stk =
     (case take32 bs of
        None \<Rightarrow> None
      | Some (tok, bs) \<Rightarrow>
          if tok = FDT_BEGIN_NODE then
            (case take_name bs of None \<Rightarrow> None | Some (n, bs) \<Rightarrow> parse_struct strs bs ((n, [], []) # stk))
          else if tok = FDT_PROP then
            (case take32 bs of None \<Rightarrow> None | Some (len, bs) \<Rightarrow>
             case take32 bs of None \<Rightarrow> None | Some (off, bs) \<Rightarrow>
             case take_data (unat len) bs of None \<Rightarrow> None | Some (d, bs) \<Rightarrow>
             case stk of
               (n, ps, []) # stk \<Rightarrow> parse_struct strs bs ((n, ps @ [(string_at strs (unat off), d)], []) # stk)
             | _ \<Rightarrow> None)
          else if tok = FDT_END_NODE then
            (case stk of
               (n, ps, ks) # (n', ps', ks') # stk \<Rightarrow> parse_struct strs bs ((n', ps', ks' @ [DNode n ps ks]) # stk)
             | _ \<Rightarrow> None)
          else if tok = FDT_NOP then parse_struct strs bs stk
          else if tok = FDT_END \<and> bs = [] then
            (case stk of [(_, [], [t])] \<Rightarrow> Some t | _ \<Rightarrow> None)
          else None)"
  by pat_completeness auto
termination
  by (relation "measure (\<lambda>(strs, bs, stk). length bs)")
    (auto dest!: take32_length take_data_length take_name_length)

declare parse_struct.simps [simp del]

definition header_word :: "u8 list \<Rightarrow> nat \<Rightarrow> nat" where
  "header_word blob k = (case take32 (drop (4 * k) blob) of None \<Rightarrow> 0 | Some (v, _) \<Rightarrow> unat v)"

text \<open>Magic number, version, size, alignment and the empty reservation map are checked.\<close>

definition fdt_parse :: "u8 list \<Rightarrow> u8 list dtree option" where
  "fdt_parse blob =
     (let size = header_word blob 1; off_struct = header_word blob 2; off_strings = header_word blob 3;
          off_rsvmap = header_word blob 4; size_strings = header_word blob 8; size_struct = header_word blob 9
      in if header_word blob 0 = 0xd00dfeed \<and> header_word blob 5 = 17 \<and> header_word blob 6 = 16 \<and> size = length blob
            \<and> off_struct mod 4 = 0 \<and> off_rsvmap mod 8 = 0 \<and> off_struct + size_struct \<le> size
            \<and> off_strings + size_strings \<le> size \<and> take 16 (drop off_rsvmap blob) = replicate 16 0
         then parse_struct (take size_strings (drop off_strings blob)) (take size_struct (drop off_struct blob)) [([], [], [])]
         else None)"

section \<open>Events\<close>

text \<open>The calls of the builder as events; a tree is the sequence of its events.\<close>

datatype dt_event = Begin "u8 list" | Prop "u8 list" "u8 list" | End

primrec tree_events :: "u8 list dtree \<Rightarrow> dt_event list" where
  "tree_events (DNode n ps ks) = Begin n # map (\<lambda>(m, d). Prop m d) ps @ concat (map tree_events ks) @ [End]"

fun frame_step :: "dt_event \<Rightarrow> dframe list \<Rightarrow> dframe list option" where
  "frame_step (Begin n) stk = Some ((n, [], []) # stk)"
| "frame_step (Prop m d) ((n, ps, []) # stk) = Some ((n, ps @ [(m, d)], []) # stk)"
| "frame_step End ((n, ps, ks) # (n', ps', ks') # stk) = Some ((n', ps', ks' @ [DNode n ps ks]) # stk)"
| "frame_step _ _ = None"

fun frame_run :: "dt_event list \<Rightarrow> dframe list \<Rightarrow> dframe list option" where
  "frame_run [] stk = Some stk"
| "frame_run (e # es) stk = Option.bind (frame_step e stk) (frame_run es)"

lemma frame_run_append: "frame_run (es @ fs) stk = Option.bind (frame_run es stk) (frame_run fs)"
  by (induction es arbitrary: stk) (auto split: bind_splits)

lemma frame_run_props:
  "frame_run (map (\<lambda>(m, d). Prop m d) ps) ((n, qs, []) # stk) = Some ((n, qs @ ps, []) # stk)"
  by (induction ps arbitrary: qs) auto

lemma frame_run_tree:
  "frame_run (tree_events t) ((n, ps, ks) # stk) = Some ((n, ps, ks @ [t]) # stk)"
proof (induction t arbitrary: n ps ks stk)
  case (DNode m qs ts)
  have kids: "frame_run (concat (map tree_events us)) ((m, qs, vs) # (n, ps, ks) # stk)
      = Some ((m, qs, vs @ us) # (n, ps, ks) # stk)" if "set us \<subseteq> set ts" for us vs
    using that DNode.IH by (induction us arbitrary: vs) (auto simp: frame_run_append)
  show ?case using kids [of ts "[]"] by (simp add: frame_run_append frame_run_props)
qed

section \<open>Encoding\<close>

definition be32 :: "u32 \<Rightarrow> u8 list" where
  "be32 v = [ucast (drop_bit 24 v), ucast (drop_bit 16 v), ucast (drop_bit 8 v), ucast v]"

definition pad4 :: "u8 list \<Rightarrow> u8 list" where
  "pad4 d = d @ replicate (round4 (length d) - length d) 0"

lemma le32_bytes_be: "le32_bytes (cpu_to_be32 v) = be32 v"
  using ucast_drop_bswap [of v]
  by (simp add: le32_bytes_def be32_def cpu_to_be32_def)

lemma length_be32 [simp]: "length (be32 v) = 4"
  by (simp add: be32_def)

lemma take32_be32 [simp]: "take32 (be32 v @ bs) = Some (v, bs)"
proof -
  have "push_bit 24 (ucast (ucast (drop_bit 24 v) :: u8)) OR push_bit 16 (ucast (ucast (drop_bit 16 v) :: u8))
      OR push_bit 8 (ucast (ucast (drop_bit 8 v) :: u8)) OR ucast (ucast v :: u8) = v"
    (is "?w = v")
  proof (rule bit_word_eqI)
    fix k
    assume "k < LENGTH(32)"
    then consider "k < 8" | "8 \<le> k" "k < 16" | "16 \<le> k" "k < 24" | "24 \<le> k" "k < 32" by fastforce
    then show "bit ?w k = bit v k" by cases (auto simp: bit_simps)
  qed
  then show ?thesis by (simp add: be32_def)
qed

lemma round4_ge: "n \<le> round4 n"
  by (simp add: round4_def)

lemma length_pad4 [simp]: "length (pad4 d) = round4 (length d)"
  using round4_ge [of "length d"] by (simp add: pad4_def)

lemma take_data_pad4 [simp]: "take_data (length d) (pad4 d @ bs) = Some (d, bs)"
proof -
  have "take (length d) (pad4 d @ bs) = d" by (simp add: pad4_def)
  moreover have "drop (round4 (length d)) (pad4 d @ bs) = bs" by simp
  ultimately show ?thesis by (simp add: take_data_def)
qed

lemma takeWhile_name: "0 \<notin> set n \<Longrightarrow> takeWhile (\<lambda>c. c \<noteq> (0 :: u8)) (n @ 0 # bs) = n"
  by (induction n) auto

lemma take_name_pad4 [simp]: "0 \<notin> set n \<Longrightarrow> take_name (pad4 (n @ [0]) @ bs) = Some (n, bs)"
  using take_data_pad4 [of "n @ [0]" bs] takeWhile_name [of n "replicate (round4 (length n + 1) - (length n + 1)) 0 @ bs"]
  by (simp add: take_name_def pad4_def)

section \<open>The string table\<close>

definition terminated :: "u8 list \<Rightarrow> bool" where
  "terminated st \<longleftrightarrow> st = [] \<or> last st = 0"

lemma string_at_append: "terminated st \<Longrightarrow> pos < length st \<Longrightarrow> string_at (st @ ext) pos = string_at st pos"
proof -
  assume t: "terminated st" and p: "pos < length st"
  then have "0 \<in> set (drop pos st)" by (metis drop_eq_Nil last_drop last_in_set leD terminated_def list.size(3) not_less_zero)
  then show ?thesis using p by (simp add: string_at_def takeWhile_append1)
qed

lemma find_string_Some: "find_string st name pos = Some k \<Longrightarrow> k < length st \<and> string_at st k = map of_char name"
  by (induction st name pos rule: find_string.induct) (subst (asm) (2) find_string.simps, auto split: if_splits)

text \<open>What looking up a name gives: its offset, and the table with the name in it.\<close>

definition string_off :: "u8 list \<Rightarrow> string \<Rightarrow> nat" where
  "string_off st name = (case find_string st name 0 of Some k \<Rightarrow> k | None \<Rightarrow> length st)"

definition add_string :: "u8 list \<Rightarrow> string \<Rightarrow> u8 list" where
  "add_string st name = (case find_string st name 0 of Some k \<Rightarrow> st | None \<Rightarrow> st @ c_str name)"

lemma terminated_add: "terminated st \<Longrightarrow> terminated (add_string st name)"
  by (simp add: add_string_def terminated_def c_str_def split: option.split)

lemma add_string_prefix: "\<exists>x. add_string st name = st @ x"
  by (simp add: add_string_def split: option.split)

lemma string_off_less: "string_off st name < length (add_string st name)"
  using find_string_Some [of st name 0] by (auto simp: string_off_def add_string_def c_str_def split: option.split)

lemma string_at_off:
  assumes "terminated st" "0 \<notin> set (map of_char name :: u8 list)"
  shows "string_at (add_string st name @ x) (string_off st name) = map of_char name"
proof (cases "find_string st name 0")
  case None
  then show ?thesis
    using takeWhile_name [OF assms(2), of x] by (simp add: string_off_def add_string_def string_at_def c_str_def)
next
  case (Some k)
  then show ?thesis
    using find_string_Some [OF Some] string_at_append [OF assms(1)] by (simp add: string_off_def add_string_def)
qed

section \<open>The builder as an encoder of events\<close>

text \<open>
  The bytes a call appends to the structure block when the string table is \<open>st\<close>, and the table
  afterwards.  Here the names are strings, as in the calls.
\<close>

datatype fdt_call = CBegin string | CProp string "u8 list" | CEnd

fun call_bytes :: "u8 list \<Rightarrow> fdt_call \<Rightarrow> u8 list" where
  "call_bytes st (CBegin n) = be32 FDT_BEGIN_NODE @ pad4 (c_str n)"
| "call_bytes st (CProp n d) =
     be32 FDT_PROP @ be32 (of_nat (length d)) @ be32 (of_nat (string_off st n)) @ pad4 d"
| "call_bytes st CEnd = be32 FDT_END_NODE"

fun call_strings :: "u8 list \<Rightarrow> fdt_call \<Rightarrow> u8 list" where
  "call_strings st (CProp n d) = add_string st n"
| "call_strings st _ = st"

fun call_depth :: "fdt_call \<Rightarrow> int" where
  "call_depth (CBegin n) = 1"
| "call_depth (CProp n d) = 0"
| "call_depth CEnd = - 1"

fun call_event :: "fdt_call \<Rightarrow> dt_event" where
  "call_event (CBegin n) = Begin (map of_char n)"
| "call_event (CProp n d) = Prop (map of_char n) d"
| "call_event CEnd = End"

text \<open>The buffers are large enough for what has been written.\<close>

definition fdt_fits :: "FDTState \<Rightarrow> bool" where
  "fdt_fits s \<longleftrightarrow> length (tab s) mod 4 = 0 \<and> int (length (tab s)) \<le> 4 * tab_size s
     \<and> int (length (string_table s)) \<le> string_table_size s"

definition implements :: "(FDTState \<Rightarrow> FDTState) \<Rightarrow> fdt_call \<Rightarrow> bool" where
  "implements op c \<longleftrightarrow> (\<forall>s. fdt_fits s \<longrightarrow> fdt_fits (op s) \<and> tab (op s) = tab s @ call_bytes (string_table s) c
     \<and> string_table (op s) = call_strings (string_table s) c \<and> open_node_count (op s) = open_node_count s + call_depth c)"

lemma alloc_simps [simp]:
  "tab (fdt_alloc_len n s) = tab s" "string_table (fdt_alloc_len n s) = string_table s"
  "open_node_count (fdt_alloc_len n s) = open_node_count s" "string_table_size (fdt_alloc_len n s) = string_table_size s"
  by (auto simp: fdt_alloc_len_def)

lemma alloc_size: "tab_size s \<le> tab_size (fdt_alloc_len n s)" "n \<le> tab_size (fdt_alloc_len n s)"
  by (auto simp: fdt_alloc_len_def max_int_def)

lemma put32_simps [simp]:
  "tab (fdt_put32 v s) = tab s @ be32 v" "string_table (fdt_put32 v s) = string_table s"
  "open_node_count (fdt_put32 v s) = open_node_count s"
  by (simp_all add: fdt_put32_def Let_def le32_bytes_be)

lemma put32_fits: "fdt_fits s \<Longrightarrow> fdt_fits (fdt_put32 v s)"
  using alloc_size(2) [of "tab_len s + 1" s]
  by (auto simp: fdt_fits_def fdt_put32_def Let_def tab_len_def le32_bytes_def)

lemma pad_count: "nat ((- int n) mod 4) = round4 n - n"
proof -
  have "(- int n) mod 4 = 4 * ((int n + 3) div 4) - int n" by presburger
  then have "(- int n) mod 4 = int (round4 n) - int n" by (simp add: round4_def zdiv_int)
  then show ?thesis using round4_ge [of n] by simp
qed

lemma put_data_simps [simp]:
  "tab (fdt_put_data d s) = tab s @ pad4 d" "string_table (fdt_put_data d s) = string_table s"
  "open_node_count (fdt_put_data d s) = open_node_count s"
  by (simp_all add: fdt_put_data_def Let_def pad4_def pad_count)

lemma put_data_fits: "fdt_fits s \<Longrightarrow> fdt_fits (fdt_put_data d s)"
proof -
  assume f: "fdt_fits s"
  let ?n = "tab_len s + (int (length d) + 3) div 4"
  have "string_table_size (fdt_put_data d s) = string_table_size s" "tab_size (fdt_put_data d s) = tab_size (fdt_alloc_len ?n s)"
    by (simp_all add: fdt_put_data_def Let_def)
  moreover have "int (length (tab s) + round4 (length d)) = 4 * ?n" using f by (auto simp: fdt_fits_def tab_len_def round4_def)
  ultimately show ?thesis using f alloc_size(2) [of ?n s] by (auto simp: fdt_fits_def round4_def)
qed

lemma string_offset_simps:
  "fst (fdt_get_string_offset n s) = string_off (string_table s) n"
  "string_table (snd (fdt_get_string_offset n s)) = add_string (string_table s) n"
  "tab (snd (fdt_get_string_offset n s)) = tab s"
  "open_node_count (snd (fdt_get_string_offset n s)) = open_node_count s"
  "fdt_fits s \<Longrightarrow> fdt_fits (snd (fdt_get_string_offset n s))"
  by (auto simp: fdt_get_string_offset_def string_off_def add_string_def Let_def fdt_fits_def max_int_def c_str_def
      split: option.split)

lemma impl_begin: "implements (fdt_begin_node n) (CBegin n)"
  unfolding implements_def
proof (intro allI impI)
  fix s assume "fdt_fits s"
  then have "fdt_fits (fdt_put_data (c_str n) (fdt_put32 1 s))" by (intro put_data_fits put32_fits)
  then show "fdt_fits (fdt_begin_node n s) \<and> tab (fdt_begin_node n s) = tab s @ call_bytes (string_table s) (CBegin n)
     \<and> string_table (fdt_begin_node n s) = call_strings (string_table s) (CBegin n)
     \<and> open_node_count (fdt_begin_node n s) = open_node_count s + call_depth (CBegin n)"
    by (simp add: fdt_begin_node_def Let_def fdt_fits_def)
qed

lemma impl_end: "implements fdt_end_node CEnd"
  using put32_fits by (simp add: implements_def fdt_end_node_def Let_def fdt_fits_def)

lemma impl_prop: "implements (fdt_prop n d) (CProp n d)"
proof -
  have "fdt_fits (fdt_prop n d s)" if "fdt_fits s" for s
    using that by (auto simp: fdt_prop_def Let_def case_prod_beta intro!: put_data_fits put32_fits string_offset_simps(5))
  then show ?thesis by (simp add: implements_def fdt_prop_def Let_def case_prod_beta string_offset_simps)
qed

lemma fold_put32_simps:
  "tab (fold fdt_put32 vs s) = tab s @ concat (map be32 vs)" "string_table (fold fdt_put32 vs s) = string_table s"
  "open_node_count (fold fdt_put32 vs s) = open_node_count s" "fdt_fits s \<Longrightarrow> fdt_fits (fold fdt_put32 vs s)"
  by (induction vs arbitrary: s) (simp_all add: put32_fits)

lemma length_concat_be32 [simp]: "length (concat (map be32 vs)) = 4 * length vs"
  by (induction vs) simp_all

lemma impl_tab_u32: "implements (fdt_prop_tab_u32 n vs) (CProp n (concat (map be32 vs)))"
proof -
  have "fdt_fits (fdt_prop_tab_u32 n vs s)" if "fdt_fits s" for s
    using that by (auto simp: fdt_prop_tab_u32_def Let_def case_prod_beta
        intro!: fold_put32_simps(4) put32_fits string_offset_simps(5))
  moreover have "pad4 (concat (map be32 vs)) = concat (map be32 vs)" by (simp add: pad4_def round4_def)
  ultimately show ?thesis
    by (simp add: implements_def fdt_prop_tab_u32_def Let_def case_prod_beta string_offset_simps fold_put32_simps mult.commute)
qed

lemmas impl_calls = impl_begin impl_end impl_prop impl_tab_u32

section \<open>Whole sequences\<close>

fun enc :: "u8 list \<Rightarrow> fdt_call list \<Rightarrow> u8 list" where
  "enc st [] = []"
| "enc st (c # cs) = call_bytes st c @ enc (call_strings st c) cs"

abbreviation enc_strings :: "u8 list \<Rightarrow> fdt_call list \<Rightarrow> u8 list" where
  "enc_strings st cs \<equiv> foldl call_strings st cs"

lemma run_ops:
  "list_all2 implements ops cs \<Longrightarrow> fdt_fits s \<Longrightarrow>
     fdt_fits (fold (\<lambda>op. op) ops s) \<and> tab (fold (\<lambda>op. op) ops s) = tab s @ enc (string_table s) cs
     \<and> string_table (fold (\<lambda>op. op) ops s) = enc_strings (string_table s) cs
     \<and> open_node_count (fold (\<lambda>op. op) ops s) = open_node_count s + sum_list (map call_depth cs)"
proof (induction arbitrary: s rule: list_all2_induct)
  case (Cons op ops c cs)
  from Cons.hyps(1) Cons.prems have "fdt_fits (op s)" "tab (op s) = tab s @ call_bytes (string_table s) c"
    "string_table (op s) = call_strings (string_table s) c" "open_node_count (op s) = open_node_count s + call_depth c"
    by (auto simp: implements_def)
  then show ?case using Cons.IH [of "op s"] by simp
qed simp

definition call_ok :: "fdt_call \<Rightarrow> bool" where
  "call_ok c \<longleftrightarrow> (case c of CBegin n \<Rightarrow> 0 \<notin> set (map of_char n :: u8 list)
     | CProp n d \<Rightarrow> 0 \<notin> set (map of_char n :: u8 list) \<and> length d < 2 ^ 32 | CEnd \<Rightarrow> True)"

lemma call_strings_terminated: "terminated st \<Longrightarrow> terminated (call_strings st c)"
  by (cases c) (simp_all add: terminated_add)

lemma enc_strings_prefix: "\<exists>x. enc_strings st cs = st @ x"
proof (induction cs arbitrary: st)
  case (Cons c cs)
  obtain y where "call_strings st c = st @ y" using add_string_prefix by (cases c) auto
  then show ?case using Cons.IH [of "call_strings st c"] by auto
qed simp

lemma parse_call:
  assumes "call_ok c" "terminated st" "strs = call_strings st c @ x" "length strs < 2 ^ 32"
  shows "parse_struct strs (call_bytes st c @ bs) stk =
    Option.bind (frame_step (call_event c) stk) (parse_struct strs bs)"
proof (cases c)
  case (CBegin n)
  then have "take_name (pad4 (c_str n) @ bs) = Some (map of_char n, bs)" using assms(1) by (simp add: call_ok_def c_str_def)
  then show ?thesis using CBegin by (subst parse_struct.simps) simp
next
  case (CProp n d)
  have l: "unat (of_nat (length d) :: u32) = length d" using CProp assms(1) by (simp add: call_ok_def unat_of_nat)
  have "string_off st n < length strs" using string_off_less [of st n] assms(3) CProp by simp
  then have o: "unat (of_nat (string_off st n) :: u32) = string_off st n" using assms(4) by (simp add: unat_of_nat)
  have a: "string_at strs (string_off st n) = map of_char n"
    using string_at_off [OF assms(2)] CProp assms(1,3) by (simp add: call_ok_def)
  show ?thesis
    using CProp by (subst parse_struct.simps) (simp add: l o a split: list.split)
next
  case CEnd
  then show ?thesis by (subst parse_struct.simps) (simp split: list.split)
qed

lemma parse_enc:
  "terminated st \<Longrightarrow> list_all call_ok cs \<Longrightarrow> strs = enc_strings st cs @ x \<Longrightarrow> length strs < 2 ^ 32 \<Longrightarrow>
     parse_struct strs (enc st cs @ bs) stk = Option.bind (frame_run (map call_event cs) stk) (parse_struct strs bs)"
proof (induction cs arbitrary: st stk)
  case (Cons c cs)
  obtain y where "enc_strings (call_strings st c) cs = call_strings st c @ y" using enc_strings_prefix by blast
  then have strs: "strs = call_strings st c @ (y @ x)" using Cons.prems(3) by simp
  have "parse_struct strs (call_bytes st c @ (enc (call_strings st c) cs @ bs)) stk =
      Option.bind (frame_step (call_event c) stk) (parse_struct strs (enc (call_strings st c) cs @ bs))"
    by (rule parse_call [OF _ Cons.prems(1) strs Cons.prems(4)]) (use Cons.prems(2) in simp)
  then show ?case
    using Cons.IH [OF call_strings_terminated [OF Cons.prems(1)] _ _ Cons.prems(4)] Cons.prems(2,3)
    by (auto split: bind_splits)
qed simp

section \<open>Trees\<close>

primrec tree_calls :: "string dtree \<Rightarrow> fdt_call list" where
  "tree_calls (DNode n ps ks) = CBegin n # map (\<lambda>(m, d). CProp m d) ps @ concat (map tree_calls ks) @ [CEnd]"

abbreviation tree_image :: "string dtree \<Rightarrow> u8 list dtree" where
  "tree_image \<equiv> map_dtree (map of_char)"

lemma tree_calls_events: "map call_event (tree_calls t) = tree_events (tree_image t)"
proof (induction t)
  case (DNode n ps ks)
  have "map call_event (concat (map tree_calls us)) = concat (map tree_events (map tree_image us))" if "set us \<subseteq> set ks" for us
    using that DNode.IH by (induction us) auto
  from this [of ks] show ?case by (simp add: case_prod_beta comp_def)
qed

lemma tree_calls_depth: "sum_list (map call_depth (tree_calls t)) = 0"
proof (induction t)
  case (DNode n ps ks)
  have "sum_list (map call_depth (concat (map tree_calls us))) = 0" if "set us \<subseteq> set ks" for us
    using that DNode.IH by (induction us) auto
  from this [of ks] show ?case by (simp add: comp_def case_prod_beta)
qed

text \<open>The output for a sequence of calls that describes a tree is read back as that tree.\<close>

definition blob :: "fdt_call list \<Rightarrow> u8 list" where
  "blob cs =
     (let str = enc [] cs @ be32 FDT_END; sts = enc_strings [] cs; pos = 40 + length str;
          rsv = pos + length (pad8 pos); pos2 = rsv + 16 + length sts
      in fdt_header (pos2 + length (pad8 pos2)) 40 (rsv + 16) rsv (length sts) (length str)
         @ str @ pad8 pos @ replicate 16 0 @ sts @ pad8 pos2)"

lemma fdt_output_blob:
  assumes "list_all2 implements ops (tree_calls t)"
  shows "fdt_output (fold (\<lambda>op. op) ops fdt_init) = Some (blob (tree_calls t))"
proof -
  have "fdt_fits fdt_init" by (simp add: fdt_fits_def fdt_init_def)
  from run_ops [OF assms this] show ?thesis
    by (simp add: fdt_output_def blob_def Let_def tree_calls_depth fdt_init_def)
qed

lemma header_words:
  assumes "k < length vs"
  shows "take32 (drop (4 * k) (concat (map be32 vs) @ bs)) = Some (vs ! k, concat (map be32 (drop (Suc k) vs)) @ bs)"
  using assms
proof (induction vs arbitrary: k)
  case (Cons v vs)
  then show ?case by (cases k) simp_all
qed simp

lemma length_pad8: "(p + length (pad8 p)) mod 8 = 0"
proof -
  have "p mod 8 < 8" by simp
  then have "p mod 8 + (8 - p mod 8) mod 8 = 0 \<or> p mod 8 + (8 - p mod 8) mod 8 = 8" by (cases "p mod 8 = 0") auto
  then have "(p mod 8 + (8 - p mod 8) mod 8) mod 8 = 0" by auto
  then show ?thesis by (simp add: pad8_def mod_add_left_eq)
qed

lemma fdt_parse_blob:
  assumes "list_all call_ok (tree_calls t)" "length (blob (tree_calls t)) < 2 ^ 32"
  shows "fdt_parse (blob (tree_calls t)) = Some (tree_image t)"
proof -
  let ?cs = "tree_calls t"
  define str where "str = enc [] ?cs @ be32 FDT_END"
  define sts where "sts = enc_strings [] ?cs"
  define pos where "pos = 40 + length str"
  define rsv where "rsv = pos + length (pad8 pos)"
  define pos2 where "pos2 = rsv + 16 + length sts"
  define size where "size = pos2 + length (pad8 pos2)"
  define ws :: "u32 list" where "ws = [0xd00dfeed, of_nat size, of_nat 40, of_nat (rsv + 16), of_nat rsv, 17, 16, 0,
        of_nat (length sts), of_nat (length str)]"
  let ?b = "blob ?cs"
  have b: "?b = concat (map be32 ws) @ str @ pad8 pos @ replicate 16 0 @ sts @ pad8 pos2"
    by (simp add: blob_def fdt_header_def Let_def le32_bytes_be ws_def size_def pos2_def rsv_def pos_def sts_def str_def)
  have len: "length ws = 10" by (simp add: ws_def)
  have size: "length ?b = size" unfolding b by (simp add: len size_def pos2_def rsv_def pos_def)
  have hw: "header_word ?b k = unat (ws ! k)" if "k < 10" for k
    using that header_words [of k ws] by (simp add: header_word_def b len)
  have small: "size < 2 ^ 32" using assms(2) size by simp
  then have "rsv + 16 < 2 ^ 32" "rsv < 2 ^ 32" "length sts < 2 ^ 32" "length str < 2 ^ 32"
    by (simp_all add: size_def pos2_def rsv_def pos_def)
  with small have h: "header_word ?b 0 = 0xd00dfeed" "header_word ?b 1 = size" "header_word ?b 2 = 40"
    "header_word ?b 3 = rsv + 16" "header_word ?b 4 = rsv" "header_word ?b 5 = 17" "header_word ?b 6 = 16"
    "header_word ?b 8 = length sts" "header_word ?b 9 = length str"
    by (simp_all add: hw, simp_all add: ws_def unat_of_nat del: of_nat_add)
  have drops: "drop 40 ?b = str @ pad8 pos @ replicate 16 0 @ sts @ pad8 pos2"
    "drop rsv ?b = replicate 16 0 @ sts @ pad8 pos2" "drop (rsv + 16) ?b = sts @ pad8 pos2"
    unfolding b by (simp_all add: len rsv_def pos_def)
  have "terminated []" by (simp add: terminated_def)
  from parse_enc [OF this assms(1), of sts "[]" "be32 FDT_END" "[([], [], [])]"] \<open>length sts < 2 ^ 32\<close>
  have "parse_struct sts str [([], [], [])] = parse_struct sts (be32 FDT_END @ []) [([], [], [tree_image t])]"
    by (simp add: str_def sts_def tree_calls_events frame_run_tree)
  also have "\<dots> = Some (tree_image t)" by (subst parse_struct.simps) (simp only: take32_be32, simp)
  finally have p: "parse_struct sts str [([], [], [])] = Some (tree_image t)" .
  have "rsv mod 8 = 0" unfolding rsv_def by (rule length_pad8)
  then show ?thesis
    unfolding fdt_parse_def h drops size Let_def using p by (simp add: size_def pos2_def rsv_def pos_def)
qed

end
