(* ===== verification/Fdt_Props.thy ===== *)
theory Fdt_Props
  imports Fdt_Lemmas
begin

text \<open>
  The device tree a guest finds: the tree the machine describes, and the size of its encoding.
\<close>

section \<open>The tree\<close>

definition be64 :: "u64 \<Rightarrow> u8 list" where
  "be64 v = be32 (ucast (drop_bit 32 v)) @ be32 (ucast v)"

definition cpu_tree :: "fdt_params \<Rightarrow> nat \<Rightarrow> string dtree" where
  "cpu_tree p hartid =
     DNode (node_num_name ''cpu'' (of_nat hartid))
       [(''device_type'', c_str ''cpu''), (''reg'', be32 (of_nat hartid)), (''status'', c_str ''okay''),
        (''compatible'', c_str ''riscv''), (''riscv,isa'', c_str (isa_string (f_misa p hartid))),
        (''mmu-type'', c_str ''riscv,sv48''), (''clock-frequency'', be32 2000000000)]
       [DNode ''interrupt-controller''
          [(''#interrupt-cells'', be32 1), (''interrupt-controller'', []), (''compatible'', c_str ''riscv,cpu-intc''),
           (''phandle'', be32 (hart_phandle hartid)), (''linux,phandle'', be32 (hart_phandle hartid))] []]"

definition virtio_tree :: "fdt_params \<Rightarrow> nat \<Rightarrow> string dtree" where
  "virtio_tree p i =
     (let base = VIRTIO_BASE_ADDR + of_nat i * VIRTIO_SIZE
      in DNode (node_num_name ''virtio'' base)
           [(''compatible'', c_str ''virtio,mmio''), (''reg'', be64 base @ be64 VIRTIO_SIZE),
            (''interrupts-extended'', be32 (plic_phandle p) @ be32 (4 + of_nat i))] [])"

definition uart_tree :: "fdt_params \<Rightarrow> u64 \<Rightarrow> u32 \<Rightarrow> string dtree" where
  "uart_tree p base irq =
     DNode (node_num_name ''uart'' base)
       [(''reg'', be64 base @ be64 0x1000), (''current-speed'', be32 115200), (''clock-frequency'', be32 25000000),
        (''reg-shift'', be32 2), (''reg-io-width'', be32 4), (''compatible'', c_str ''ns16550a''),
        (''interrupt-parent'', be32 (plic_phandle p)), (''interrupts'', be32 irq)] []"

definition fb_trees :: "FBDevice option \<Rightarrow> string dtree list" where
  "fb_trees fb =
     (case fb of None \<Rightarrow> [] | Some d \<Rightarrow>
        [DNode (node_num_name ''framebuffer'' 0x41000000)
           [(''compatible'', c_str ''simple-framebuffer''), (''reg'', be64 0x41000000 @ be64 (scast (fb_size d))),
            (''width'', be32 (fb_width d)), (''height'', be32 (fb_height d)), (''stride'', be32 (fb_stride d)),
            (''format'', c_str ''a8r8g8b8'')] []])"

definition irq_table :: "fdt_params \<Rightarrow> u32 \<Rightarrow> u32 \<Rightarrow> u8 list" where
  "irq_table p a b =
     concat (map (\<lambda>h. be32 (hart_phandle h) @ be32 a @ be32 (hart_phandle h) @ be32 b) [0..<f_ncpus p])"

definition clint_tree :: "fdt_params \<Rightarrow> string dtree" where
  "clint_tree p =
     DNode (node_num_name ''clint'' (f_clint_base p))
       [(''compatible'', c_str ''riscv,clint0''), (''interrupts-extended'', irq_table p 3 7),
        (''reg'', be64 (f_clint_base p) @ be64 (f_clint_size p))] []"

definition plic_tree :: "fdt_params \<Rightarrow> string dtree" where
  "plic_tree p =
     DNode (node_num_name ''plic'' (f_plic_base p))
       [(''#interrupt-cells'', be32 1), (''interrupt-controller'', []), (''compatible'', c_str ''riscv,plic0''),
        (''riscv,ndev'', be32 31), (''reg'', be64 (f_plic_base p) @ be64 (f_plic_size p)),
        (''interrupts-extended'', irq_table p 9 11), (''phandle'', be32 (plic_phandle p))] []"

definition soc_tree :: "fdt_params \<Rightarrow> string dtree" where
  "soc_tree p =
     DNode ''soc''
       [(''#address-cells'', be32 2), (''#size-cells'', be32 2),
        (''compatible'', c_str ''ucbbar,dromajo-bar-soc'' @ c_str ''simple-bus''), (''ranges'', [])]
       ([clint_tree p, plic_tree p] @ map (virtio_tree p) [0..<f_virtio_count p]
        @ [uart_tree p 0x12002000 3, uart_tree p 0x12007000 15] @ fb_trees (f_fb_dev p))"

definition memory_tree :: "fdt_params \<Rightarrow> string dtree" where
  "memory_tree p =
     DNode (node_num_name ''memory'' (f_ram_base p))
       [(''device_type'', c_str ''memory''), (''reg'', be64 (f_ram_base p) @ be64 (f_ram_size p))] []"

definition chosen_tree :: "fdt_params \<Rightarrow> string dtree" where
  "chosen_tree p =
     DNode ''chosen''
       ([(''bootargs'', c_str (case f_cmd_line p of None \<Rightarrow> [] | Some c \<Rightarrow> c))]
        @ (if f_initrd_start p \<noteq> 0 \<and> f_initrd_start p < f_initrd_end p
           then [(''linux,initrd-start'', be64 (f_initrd_start p)), (''linux,initrd-end'', be64 (f_initrd_end p))] else [])) []"

definition machine_tree :: "fdt_params \<Rightarrow> string dtree" where
  "machine_tree p =
     DNode []
       [(''#address-cells'', be32 2), (''#size-cells'', be32 2),
        (''compatible'', c_str ''ucbbar,dromajo-bar_dev''), (''model'', c_str ''ucbbar,dromajo-bare'')]
       [DNode ''cpus''
          [(''#address-cells'', be32 1), (''#size-cells'', be32 0), (''timebase-frequency'', be32 1000000)]
          (map (cpu_tree p) [0..<f_ncpus p]),
        memory_tree p, soc_tree p, chosen_tree p]"

section \<open>The builder describes it\<close>

lemma impl_u32: "implements (fdt_prop_u32 n v) (CProp n (be32 v))"
  using impl_tab_u32 [of n "[v]"] by (simp add: fdt_prop_u32_def)

lemma impl_u64: "implements (fdt_prop_u64 n v) (CProp n (be64 v))"
  using impl_tab_u32 [of n "u64_words v"] by (simp add: fdt_prop_u64_def u64_words_def be64_def)

lemma impl_u64_2: "implements (fdt_prop_tab_u64_2 n v w) (CProp n (be64 v @ be64 w))"
  using impl_tab_u32 [of n "u64_words v @ u64_words w"] by (simp add: fdt_prop_tab_u64_2_def u64_words_def be64_def)

lemma impl_str: "implements (fdt_prop_str n s) (CProp n (c_str s))"
  using impl_prop [of n "c_str s"] by (simp add: fdt_prop_str_def)

lemma impl_tab_str: "implements (fdt_prop_tab_str n ss) (CProp n (concat (map c_str ss)))"
  using impl_prop [of n "concat (map c_str ss)"] by (simp add: fdt_prop_tab_str_def)

lemma impl_begin_num: "implements (fdt_begin_node_num n k) (CBegin (node_num_name n k))"
proof -
  have "fdt_begin_node_num n k = fdt_begin_node (node_num_name n k)" by (rule ext) (simp add: fdt_begin_node_num_def)
  then show ?thesis using impl_begin by simp
qed

lemmas impls = impl_begin impl_begin_num impl_end impl_prop impl_u32 impl_u64 impl_u64_2 impl_str

lemma list_all2_concat_map:
  "(\<And>x. list_all2 R (f x) (g x)) \<Longrightarrow> list_all2 R (concat (map f xs)) (concat (map g xs))"
  by (induction xs) (auto intro: list_all2_appendI)

lemma irq_pairs_table: "concat (map be32 (irq_pairs p a b)) = irq_table p a b"
proof -
  have "concat (map be32 (concat (map (\<lambda>h. [hart_phandle h, a, hart_phandle h, b]) hs)))
      = concat (map (\<lambda>h. be32 (hart_phandle h) @ be32 a @ be32 (hart_phandle h) @ be32 b) hs)" for hs
    by (induction hs) simp_all
  then show ?thesis by (simp add: irq_pairs_def irq_table_def)
qed

lemma impl_irq_pairs: "implements (fdt_prop_tab_u32 n (irq_pairs p a b)) (CProp n (irq_table p a b))"
  using impl_tab_u32 [of n "irq_pairs p a b"] by (simp add: irq_pairs_table)

lemma cpu_ops_tree: "list_all2 implements (cpu_ops p h) (tree_calls (cpu_tree p h))"
  by (simp add: cpu_ops_def cpu_tree_def impls)

lemma virtio_ops_tree: "list_all2 implements (virtio_ops p i) (tree_calls (virtio_tree p i))"
  using impl_tab_u32 [of "''interrupts-extended''" "[plic_phandle p, 4 + of_nat i]"]
  by (simp add: virtio_ops_def virtio_tree_def Let_def impls)

lemma uart_ops_tree: "list_all2 implements (uart_ops p a irq) (tree_calls (uart_tree p a irq))"
  by (simp add: uart_ops_def uart_tree_def impls)

lemma fb_ops_tree: "list_all2 implements (fb_ops fb) (concat (map tree_calls (fb_trees fb)))"
  by (simp add: fb_ops_def fb_trees_def impls split: option.split)

lemma soc_ops_tree: "list_all2 implements (soc_ops p) (tree_calls (soc_tree p))"
proof -
  have clint: "list_all2 implements (clint_ops p) (tree_calls (clint_tree p))"
    and plic: "list_all2 implements (plic_ops p) (tree_calls (plic_tree p))"
    by (simp_all add: clint_ops_def clint_tree_def plic_ops_def plic_tree_def impls impl_irq_pairs)
  have "list_all2 implements (concat (map (virtio_ops p) is)) (concat (map tree_calls (map (virtio_tree p) is)))" for "is"
    using list_all2_concat_map [of implements "virtio_ops p" "\<lambda>i. tree_calls (virtio_tree p i)" "is", OF virtio_ops_tree]
    by (simp add: comp_def)
  with clint plic show ?thesis
    using impl_tab_str [of "''compatible''" "[''ucbbar,dromajo-bar-soc'', ''simple-bus'']"]
    by (auto simp: soc_ops_def soc_tree_def impls intro!: list_all2_appendI uart_ops_tree fb_ops_tree)
qed

lemma machine_ops_tree: "list_all2 implements (machine_ops p) (tree_calls (machine_tree p))"
proof -
  have "list_all2 implements (concat (map (cpu_ops p) is)) (concat (map tree_calls (map (cpu_tree p) is)))" for "is"
    using list_all2_concat_map [of implements "cpu_ops p" "\<lambda>i. tree_calls (cpu_tree p i)" "is", OF cpu_ops_tree]
    by (simp add: comp_def)
  moreover have "list_all2 implements (chosen_ops p) (tree_calls (chosen_tree p))"
    by (simp add: chosen_ops_def chosen_tree_def impls)
  moreover have "implements (fdt_prop_tab_u32 ''reg'' (u64_words (f_ram_base p) @ u64_words (f_ram_size p)))
      (CProp ''reg'' (be64 (f_ram_base p) @ be64 (f_ram_size p)))"
    using impl_u64_2 [of "''reg''" "f_ram_base p" "f_ram_size p"] by (simp add: fdt_prop_tab_u64_2_def)
  ultimately show ?thesis
    using soc_ops_tree [of p]
    by (auto simp: machine_ops_def machine_tree_def memory_tree_def impls intro!: list_all2_appendI)
qed

section \<open>Well-formed calls\<close>

lemma of_char_u8_inject: "(of_char c :: u8) = of_char d \<longleftrightarrow> c = d"
proof (cases c)
  case c: (Char b0 b1 b2 b3 b4 b5 b6 b7)
  show ?thesis
  proof (cases d)
    case d: (Char d0 d1 d2 d3 d4 d5 d6 d7)
    let ?b = "[b0, b1, b2, b3, b4, b5, b6, b7]" and ?d = "[d0, d1, d2, d3, d4, d5, d6, d7]"
    have "?b = ?d" if "(horner_sum of_bool 2 ?b :: u8) = horner_sum of_bool 2 ?d"
    proof (rule nth_equalityI)
      fix k
      assume "k < length ?b"
      then show "?b ! k = ?d ! k"
        using that bit_horner_sum_bit_word_iff [of ?b k, where 'a = 8] bit_horner_sum_bit_word_iff [of ?d k, where 'a = 8]
        by (simp del: horner_sum_simps)
    qed simp
    then show ?thesis by (auto simp: c d of_char_def simp del: horner_sum_simps)
  qed
qed

lemma of_char_u8_0: "(of_char c :: u8) = 0 \<longleftrightarrow> c = CHR 0x00"
  using of_char_u8_inject [of c "CHR 0x00"] by simp

lemma no_nul: "(0 :: u8) \<in> of_char ` A \<longleftrightarrow> CHR 0x00 \<in> A"
  by (auto simp: image_iff of_char_u8_0 eq_commute [of 0])

lemma hex_digits_chars: "set (hex_digits n) \<subseteq> set ''0123456789abcdef''"
proof (induction n rule: hex_digits.induct)
  case (1 n)
  have "k < 16 \<Longrightarrow> ''0123456789abcdef'' ! k \<in> set ''0123456789abcdef''" for k by (rule nth_mem) simp
  then show ?case using 1 by (subst hex_digits.simps) auto
qed

lemma node_num_no_nul: "CHR 0x00 \<notin> set n \<Longrightarrow> CHR 0x00 \<notin> set (node_num_name n k)"
  using hex_digits_chars [of "unat k"] set_take_subset [of 255 "n @ ''@'' @ hex_digits (unat k)"]
  unfolding node_num_name_def by auto

lemma length_c_str [simp]: "length (c_str s) = length s + 1"
  by (simp add: c_str_def)

lemma length_be64 [simp]: "length (be64 v) = 8"
  by (simp add: be64_def)

lemma length_irq_table [simp]: "length (irq_table p a b) = 16 * f_ncpus p"
proof -
  have "length (concat (map (\<lambda>h. be32 (hart_phandle h) @ be32 a @ be32 (hart_phandle h) @ be32 b) hs)) = 16 * length hs" for hs
    by (induction hs) simp_all
  then show ?thesis by (simp add: irq_table_def)
qed

lemma length_isa_string: "length (isa_string m) \<le> 30"
  using length_filter_le [of "bit m" "[0..<26]"] by (simp add: isa_string_def)

text \<open>Bounds on the parameters; the command line is the only part of arbitrary length.\<close>

definition fdt_params_ok :: "fdt_params \<Rightarrow> bool" where
  "fdt_params_ok p \<longleftrightarrow> f_ncpus p \<le> 8 \<and> f_virtio_count p \<le> 28 \<and> length (case f_cmd_line p of None \<Rightarrow> [] | Some c \<Rightarrow> c) < 2 ^ 16"

lemma list_all_concat_map: "list_all P (concat (map f xs)) \<longleftrightarrow> (\<forall>x \<in> set xs. list_all P (f x))"
  by (induction xs) auto

lemma machine_calls_ok: "fdt_params_ok p \<Longrightarrow> list_all call_ok (tree_calls (machine_tree p))"
proof -
  assume ok: "fdt_params_ok p"
  have cpu: "list_all call_ok (tree_calls (cpu_tree p h))" for h
    using length_isa_string [of "f_misa p h"] by (simp add: cpu_tree_def call_ok_def no_nul node_num_no_nul)
  have virtio: "list_all call_ok (tree_calls (virtio_tree p i))" for i
    by (simp add: virtio_tree_def call_ok_def no_nul node_num_no_nul Let_def)
  have uart: "list_all call_ok (tree_calls (uart_tree p a i))" for a i
    by (simp add: uart_tree_def call_ok_def no_nul node_num_no_nul)
  have fb: "list_all call_ok (concat (map tree_calls (fb_trees fb)))" for fb
    by (simp add: fb_trees_def call_ok_def no_nul node_num_no_nul split: option.split)
  have ints: "list_all call_ok (tree_calls (clint_tree p))" "list_all call_ok (tree_calls (plic_tree p))"
    using ok by (simp_all add: clint_tree_def plic_tree_def call_ok_def no_nul node_num_no_nul fdt_params_ok_def)
  have soc: "list_all call_ok (tree_calls (soc_tree p))"
    using virtio uart fb ints by (simp add: soc_tree_def list_all_concat_map) (simp add: call_ok_def no_nul)
  have "list_all call_ok (tree_calls (memory_tree p))" "list_all call_ok (tree_calls (chosen_tree p))"
    using ok by (simp_all add: memory_tree_def chosen_tree_def call_ok_def no_nul node_num_no_nul fdt_params_ok_def)
  then show ?thesis
    using soc cpu by (simp add: machine_tree_def list_all_concat_map) (simp add: call_ok_def no_nul)
qed

section \<open>Size\<close>

fun call_len :: "fdt_call \<Rightarrow> nat" where
  "call_len (CBegin n) = 4 + round4 (length n + 1)"
| "call_len (CProp n d) = 12 + round4 (length d)"
| "call_len CEnd = 4"

lemma length_enc: "length (enc st cs) = sum_list (map call_len cs)"
proof (induction cs arbitrary: st)
  case (Cons c cs)
  then show ?case by (cases c) simp_all
qed simp

text \<open>The string table holds every property name once.\<close>

fun call_names :: "fdt_call list \<Rightarrow> string list" where
  "call_names (CProp n d # cs) = n # call_names cs"
| "call_names (_ # cs) = call_names cs"
| "call_names [] = []"

definition add_name :: "string list \<Rightarrow> string \<Rightarrow> string list" where
  "add_name ns n = (if n \<in> set ns then ns else ns @ [n])"

lemma find_string_names:
  "\<forall>n \<in> set ns. CHR 0x00 \<notin> set n \<Longrightarrow> find_string (pre @ concat (map c_str ns)) name (length pre) = None \<longleftrightarrow> name \<notin> set ns"
proof (induction ns arbitrary: pre)
  case Nil
  then show ?case by (subst find_string.simps) simp
next
  case (Cons n ns)
  let ?st = "pre @ concat (map c_str (n # ns))"
  have s: "string_at ?st (length pre) = map of_char n"
    using Cons.prems takeWhile_name [of "map of_char n" "concat (map c_str ns)"]
    by (simp add: string_at_def c_str_def no_nul)
  have e: "map of_char n = (map of_char name :: u8 list) \<longleftrightarrow> n = name"
    by (metis (mono_tags, lifting) inj_mapD inj_onI of_char_u8_inject map_eq_conv list.inj_map_strong)
  have "find_string (pre @ concat (map c_str (n # ns))) name (length pre + length n + 1) = None \<longleftrightarrow> name \<notin> set ns"
    using Cons.IH [of "pre @ c_str n"] Cons.prems by (simp add: add.assoc)
  then show ?case using s e by (subst find_string.simps) (simp add: add.assoc)
qed

lemma add_string_names:
  "\<forall>n \<in> set ns. CHR 0x00 \<notin> set n \<Longrightarrow> add_string (concat (map c_str ns)) name = concat (map c_str (add_name ns name))"
  using find_string_names [of ns "[]" name] by (auto simp: add_string_def add_name_def split: option.split)

lemma enc_strings_names:
  "\<forall>n \<in> set ns. CHR 0x00 \<notin> set n \<Longrightarrow> list_all call_ok cs \<Longrightarrow>
     enc_strings (concat (map c_str ns)) cs = concat (map c_str (foldl add_name ns (call_names cs)))"
proof (induction cs arbitrary: ns)
  case (Cons c cs)
  show ?case
  proof (cases c)
    case (CProp n d)
    then have "\<forall>m \<in> set (add_name ns n). CHR 0x00 \<notin> set m" using Cons.prems by (auto simp: add_name_def call_ok_def no_nul)
    then show ?thesis using CProp Cons.IH [of "add_name ns n"] Cons.prems add_string_names [OF Cons.prems(1), of n] by simp
  qed (use Cons in auto)
qed simp

lemma add_name_fold:
  "distinct ns \<Longrightarrow> distinct (foldl add_name ns xs) \<and> set (foldl add_name ns xs) = set ns \<union> set xs"
proof (induction xs arbitrary: ns)
  case (Cons x xs)
  then show ?case using Cons.IH [of "add_name ns x"] by (auto simp: add_name_def)
qed simp

lemma length_enc_strings:
  "list_all call_ok cs \<Longrightarrow> length (enc_strings [] cs) = (\<Sum>n \<in> set (call_names cs). length n + 1)"
proof -
  assume "list_all call_ok cs"
  then have e: "enc_strings [] cs = concat (map c_str (foldl add_name [] (call_names cs)))" (is "_ = concat (map c_str ?ns)")
    using enc_strings_names [of "[]" cs] by simp
  have "length (concat (map c_str ns)) = sum_list (map (\<lambda>n. length n + 1) ns)" for ns by (induction ns) simp_all
  moreover have "distinct ?ns" "set ?ns = set (call_names cs)" using add_name_fold [of "[]" "call_names cs"] by simp_all
  ultimately show ?thesis unfolding e using sum_list_distinct_conv_sum_set [of ?ns "\<lambda>n. length n + 1"] by simp
qed

lemma call_names_append [simp]: "call_names (xs @ ys) = call_names xs @ call_names ys"
  by (induction xs rule: call_names.induct) simp_all

lemma call_names_concat: "set (call_names (concat (map f xs))) = (\<Union>x \<in> set xs. set (call_names (f x)))"
  by (induction xs) simp_all

abbreviation tree_len :: "string dtree \<Rightarrow> nat" where
  "tree_len t \<equiv> sum_list (map call_len (tree_calls t))"

lemma sum_call_len_concat: "sum_list (map call_len (concat (map f xs))) = sum_list (map (\<lambda>x. sum_list (map call_len (f x))) xs)"
  by (induction xs) simp_all

lemma round4_mono: "a \<le> b \<Longrightarrow> round4 a \<le> round4 b"
  by (simp add: round4_def div_le_mono)

lemma round4_numeral [simp]: "round4 (numeral n) = 4 * ((numeral n + 3) div 4)" "round4 0 = 0"
  by (simp_all add: round4_def)

lemma round4_Suc [simp]:
  "round4 (Suc (Suc (Suc (Suc n)))) = 4 + round4 n" "round4 (Suc 0) = 4" "round4 (Suc (Suc 0)) = 4"
  "round4 (Suc (Suc (Suc 0))) = 4"
  using div_add_self1 [of 4 "n + 3"] by (simp_all add: round4_def)

lemma hex_digits_length: "n < 16 ^ Suc k \<Longrightarrow> length (hex_digits n) \<le> Suc k"
proof (induction k arbitrary: n)
  case 0
  then show ?case by (subst hex_digits.simps) simp
next
  case (Suc k)
  then have "n div 16 < 16 ^ Suc k" by (simp add: less_mult_imp_div_less)
  then show ?case using Suc.IH [of "n div 16"] by (subst hex_digits.simps) simp
qed

lemma hex_digits_nonempty: "1 \<le> length (hex_digits n)"
  by (subst hex_digits.simps) simp

lemma node_num_length:
  "length n \<le> 20 \<Longrightarrow> length n + 2 \<le> length (node_num_name n k) \<and> length (node_num_name n k) \<le> length n + 17"
proof -
  have "unat k < 16 ^ Suc 15" using unsigned_less [of k] by simp
  then have "length (hex_digits (unat k)) \<le> 16" using hex_digits_length [of "unat k" 15] by simp
  then show "length n \<le> 20 \<Longrightarrow> ?thesis" using hex_digits_nonempty [of "unat k"] by (simp add: node_num_name_def)
qed

lemma cpu_tree_len:
  assumes "h < 8" "12 \<le> length (isa_string (f_misa p h))" "length (isa_string (f_misa p h)) \<le> 15"
  shows "tree_len (cpu_tree p h) = 276"
proof -
  have "unat (of_nat h :: u64) = h" using assms(1) by (simp add: unat_of_nat)
  then have "length (node_num_name ''cpu'' (of_nat h)) = 5"
    using assms(1) by (simp add: node_num_name_def hex_digits.simps [of h])
  moreover have "round4 (length (isa_string (f_misa p h)) + 1) = 16"
    using round4_mono [of 13 "length (isa_string (f_misa p h)) + 1"] round4_mono [of "length (isa_string (f_misa p h)) + 1" 16] assms
    by simp
  ultimately show ?thesis by (simp add: cpu_tree_def)
qed

lemma machine_len:
  assumes "\<forall>h < f_ncpus p. 12 \<le> length (isa_string (f_misa p h)) \<and> length (isa_string (f_misa p h)) \<le> 15"
    and "f_ncpus p \<le> 8"
  shows "tree_len (machine_tree p) = 176 + 276 * f_ncpus p + tree_len (memory_tree p) + tree_len (soc_tree p) + tree_len (chosen_tree p)"
proof -
  have "sum_list (map (\<lambda>h. tree_len (cpu_tree p h)) [0..<n]) = 276 * n" if "n \<le> f_ncpus p" for n
    using that
  proof (induction n)
    case (Suc n)
    then show ?case using cpu_tree_len [of n p] assms by simp
  qed simp
  from this [of "f_ncpus p"] show ?thesis by (simp add: machine_tree_def sum_call_len_concat comp_def)
qed

lemma soc_len:
  "tree_len (soc_tree p) = 104 + tree_len (clint_tree p) + tree_len (plic_tree p)
     + sum_list (map (\<lambda>i. tree_len (virtio_tree p i)) [0..<f_virtio_count p])
     + tree_len (uart_tree p 0x12002000 3) + tree_len (uart_tree p 0x12007000 15) + sum_list (map tree_len (fb_trees (f_fb_dev p)))"
  by (simp add: soc_tree_def sum_call_len_concat comp_def)

text \<open>The property names of every machine, and those of the optional parts.\<close>

definition base_names :: "string list" where
  "base_names = [''#address-cells'', ''#size-cells'', ''compatible'', ''model'', ''timebase-frequency'', ''device_type'', ''reg'',
     ''status'', ''riscv,isa'', ''mmu-type'', ''clock-frequency'', ''#interrupt-cells'', ''interrupt-controller'', ''phandle'',
     ''linux,phandle'', ''ranges'', ''interrupts-extended'', ''riscv,ndev'', ''current-speed'', ''reg-shift'', ''reg-io-width'',
     ''interrupt-parent'', ''interrupts'', ''bootargs'']"

definition extra_names :: "string list" where
  "extra_names = [''width'', ''height'', ''stride'', ''format'', ''linux,initrd-start'', ''linux,initrd-end'']"

lemmas tree_defs = machine_tree_def cpu_tree_def memory_tree_def soc_tree_def chosen_tree_def clint_tree_def plic_tree_def
  virtio_tree_def uart_tree_def fb_trees_def Let_def

lemma machine_names_upper: "set (call_names (tree_calls (machine_tree p))) \<subseteq> set (base_names @ extra_names)"
  by (auto simp: tree_defs call_names_concat base_names_def extra_names_def split: option.splits if_splits)

lemma machine_names_plain:
  "f_fb_dev p = None \<Longrightarrow> f_initrd_start p = 0 \<Longrightarrow> set (call_names (tree_calls (machine_tree p))) \<subseteq> set base_names"
  by (auto simp: tree_defs call_names_concat base_names_def)

lemma machine_names_lower: "0 < f_ncpus p \<Longrightarrow> set base_names \<subseteq> set (call_names (tree_calls (machine_tree p)))"
  by (simp add: tree_defs call_names_concat base_names_def)

lemma names_sum: "(\<Sum>n \<in> set base_names. length n + 1) = 293" "(\<Sum>n \<in> set (base_names @ extra_names). length n + 1) = 356"
  by (subst sum_list_distinct_conv_sum_set [symmetric]; simp add: base_names_def extra_names_def)+

lemma strings_length:
  assumes "fdt_params_ok p"
  shows "length (enc_strings [] (tree_calls (machine_tree p))) \<le> 356"
    "f_fb_dev p = None \<Longrightarrow> f_initrd_start p = 0 \<Longrightarrow> length (enc_strings [] (tree_calls (machine_tree p))) \<le> 293"
    "0 < f_ncpus p \<Longrightarrow> 293 \<le> length (enc_strings [] (tree_calls (machine_tree p)))"
proof -
  let ?N = "set (call_names (tree_calls (machine_tree p)))" and ?f = "\<lambda>n :: string. length n + 1"
  note len = length_enc_strings [OF machine_calls_ok [OF assms]]
  show "length (enc_strings [] (tree_calls (machine_tree p))) \<le> 356"
    unfolding len names_sum(2) [symmetric] by (rule sum_mono2) (use machine_names_upper in auto)
  show "length (enc_strings [] (tree_calls (machine_tree p))) \<le> 293" if "f_fb_dev p = None" "f_initrd_start p = 0"
    unfolding len names_sum(1) [symmetric] by (rule sum_mono2) (use machine_names_plain [OF that] in auto)
  show "293 \<le> length (enc_strings [] (tree_calls (machine_tree p)))" if "0 < f_ncpus p"
    unfolding len names_sum(1) [symmetric] by (rule sum_mono2) (use machine_names_lower [OF that] in auto)
qed

lemma length_blob:
  assumes "S = tree_len t" "T = length (enc_strings [] (tree_calls t))"
  shows "60 + S + T \<le> length (blob (tree_calls t))" "length (blob (tree_calls t)) \<le> 74 + S + T"
proof -
  have p: "length (pad8 k) \<le> 7" for k
    using mod_less_divisor [of 8 "8 - k mod 8"] by (simp add: pad8_def del: mod_less_divisor)
  have h: "length (fdt_header a b c d e f) = 40" for a b c d e f by (simp add: fdt_header_def le32_bytes_def)
  show "60 + S + T \<le> length (blob (tree_calls t))" "length (blob (tree_calls t)) \<le> 74 + S + T"
    using p [of "40 + (S + 4)"] p [of "40 + (S + 4) + length (pad8 (40 + (S + 4))) + 16 + T"]
    by (simp_all add: blob_def Let_def h length_enc assms)
qed

lemma uart_len: "tree_len (uart_tree p 0x12002000 i) = 172" "tree_len (uart_tree p 0x12007000 i) = 172"
  by (simp_all add: uart_tree_def node_num_name_def hex_digits.simps)

lemma virtio_len: "80 \<le> tree_len (virtio_tree p i)" "tree_len (virtio_tree p i) \<le> 120"
proof -
  define n where "n = length (node_num_name ''virtio'' (VIRTIO_BASE_ADDR + of_nat i * VIRTIO_SIZE)) + 1"
  have "9 \<le> n" "n \<le> 24" using node_num_length [of "''virtio''" "VIRTIO_BASE_ADDR + of_nat i * VIRTIO_SIZE"] by (simp_all add: n_def)
  then have "12 \<le> round4 n" "round4 n \<le> 24" using round4_mono [of 9 n] round4_mono [of n 24] by simp_all
  then show "80 \<le> tree_len (virtio_tree p i)" "tree_len (virtio_tree p i) \<le> 120"
    by (simp_all add: virtio_tree_def Let_def n_def)
qed

lemma interrupt_len:
  "224 + 32 * f_ncpus p \<le> tree_len (clint_tree p) + tree_len (plic_tree p)"
  "tree_len (clint_tree p) + tree_len (plic_tree p) \<le> 256 + 32 * f_ncpus p"
proof -
  define c where "c = length (node_num_name ''clint'' (f_clint_base p)) + 1"
  define q where "q = length (node_num_name ''plic'' (f_plic_base p)) + 1"
  have "8 \<le> c" "c \<le> 24" "7 \<le> q" "q \<le> 24"
    using node_num_length [of "''clint''" "f_clint_base p"] node_num_length [of "''plic''" "f_plic_base p"] by (simp_all add: c_def q_def)
  then have r: "8 \<le> round4 c" "round4 c \<le> 24" "8 \<le> round4 q" "round4 q \<le> 24"
    using round4_mono [of 8 c] round4_mono [of c 24] round4_mono [of 7 q] round4_mono [of q 24] by simp_all
  have "round4 (16 * f_ncpus p) = 16 * f_ncpus p" by (simp add: round4_def)
  then have "tree_len (clint_tree p) + tree_len (plic_tree p) = 208 + round4 c + round4 q + 32 * f_ncpus p"
    by (simp add: clint_tree_def plic_tree_def c_def q_def)
  with r show "224 + 32 * f_ncpus p \<le> tree_len (clint_tree p) + tree_len (plic_tree p)"
    "tree_len (clint_tree p) + tree_len (plic_tree p) \<le> 256 + 32 * f_ncpus p" by simp_all
qed

lemma memory_len: "64 \<le> tree_len (memory_tree p)" "tree_len (memory_tree p) \<le> 84"
proof -
  define n where "n = length (node_num_name ''memory'' (f_ram_base p)) + 1"
  have "9 \<le> n" "n \<le> 24" using node_num_length [of "''memory''" "f_ram_base p"] by (simp_all add: n_def)
  then have "12 \<le> round4 n" "round4 n \<le> 24" using round4_mono [of 9 n] round4_mono [of n 24] by simp_all
  then show "64 \<le> tree_len (memory_tree p)" "tree_len (memory_tree p) \<le> 84" by (simp_all add: memory_tree_def n_def)
qed

abbreviation cmd_len :: "fdt_params \<Rightarrow> nat" where
  "cmd_len p \<equiv> length (case f_cmd_line p of None \<Rightarrow> [] | Some c \<Rightarrow> c)"

lemma chosen_len:
  "28 + round4 (cmd_len p + 1) \<le> tree_len (chosen_tree p)" "tree_len (chosen_tree p) \<le> 68 + round4 (cmd_len p + 1)"
  "f_initrd_start p = 0 \<Longrightarrow> tree_len (chosen_tree p) = 28 + round4 (cmd_len p + 1)"
  by (simp_all add: chosen_tree_def)

text \<open>A crude bound that holds for all parameters.\<close>

lemma cpu_len_bound: "tree_len (cpu_tree p h) \<le> 400"
proof -
  have "round4 (length (isa_string (f_misa p h)) + 1) \<le> 32" "round4 (length (node_num_name ''cpu'' (of_nat h)) + 1) \<le> 24"
    using round4_mono [of "length (isa_string (f_misa p h)) + 1" 32] length_isa_string [of "f_misa p h"]
      round4_mono [of "length (node_num_name ''cpu'' (of_nat h)) + 1" 24] node_num_length [of "''cpu''" "of_nat h"]
    by simp_all
  then show ?thesis by (simp add: cpu_tree_def)
qed

lemma fb_len_bound: "sum_list (map tree_len (fb_trees fb)) \<le> 300"
  using round4_mono [of "length (node_num_name ''framebuffer'' 0x41000000) + 1" 32] node_num_length [of "''framebuffer''" "0x41000000"]
  by (simp add: fb_trees_def split: option.split)

lemma sum_list_bound: "(\<And>x. f x \<le> b) \<Longrightarrow> sum_list (map f xs) \<le> b * length xs" for b :: nat
  by (induction xs) (auto simp: add_mono)

lemma machine_blob_small: "fdt_params_ok p \<Longrightarrow> length (blob (tree_calls (machine_tree p))) < 2 ^ 32"
proof -
  assume ok: "fdt_params_ok p"
  have "sum_list (map (\<lambda>h. tree_len (cpu_tree p h)) [0..<f_ncpus p]) \<le> 3200"
    using sum_list_bound [of "\<lambda>h. tree_len (cpu_tree p h)" 400 "[0..<f_ncpus p]", OF cpu_len_bound] ok by (simp add: fdt_params_ok_def)
  moreover have "sum_list (map (\<lambda>i. tree_len (virtio_tree p i)) [0..<f_virtio_count p]) \<le> 3360"
    using sum_list_bound [of "\<lambda>h. tree_len (virtio_tree p h)" 120 "[0..<f_virtio_count p]", OF virtio_len(2)] ok by (simp add: fdt_params_ok_def)
  moreover have "round4 (cmd_len p + 1) \<le> 65540"
    using round4_mono [of "cmd_len p + 1" 65537] ok by (simp add: fdt_params_ok_def)
  moreover have "tree_len (machine_tree p) = 176 + sum_list (map (\<lambda>h. tree_len (cpu_tree p h)) [0..<f_ncpus p])
      + tree_len (memory_tree p) + tree_len (soc_tree p) + tree_len (chosen_tree p)"
    by (simp add: machine_tree_def sum_call_len_concat comp_def)
  moreover have "f_ncpus p \<le> 8" using ok by (simp add: fdt_params_ok_def)
  ultimately have "tree_len (machine_tree p) \<le> 100000"
    using memory_len(2) [of p] soc_len [of p] interrupt_len(2) [of p] chosen_len(2) [of p] uart_len [of p 3] uart_len [of p 15]
      fb_len_bound [of "f_fb_dev p"] by linarith
  then show ?thesis using length_blob(2) [OF refl refl, of "machine_tree p"] strings_length(1) [OF ok] by simp
qed

section \<open>Properties\<close>

definition example_params :: fdt_params where
  "example_params = \<lparr>f_ncpus = 8, f_misa = (\<lambda>_. 0x14112d), f_ram_base = 0x80000000, f_ram_size = 0x10000000,
     f_clint_base = 0x02000000, f_clint_size = 0xc0000, f_plic_base = 0x10000000, f_plic_size = 0x2000000,
     f_virtio_count = 0, f_fb_dev = None, f_cmd_line = Some ''console=hvc0'', f_initrd_start = 0, f_initrd_end = 0\<rparr>"

lemma fdt_init_fits: "fdt_fits fdt_init"
  by (simp add: fdt_fits_def fdt_init_def)

lemma build_fdt_parses:
  assumes "fdt_params_ok p" "riscv_build_fdt None p = Some bytes"
  shows "fdt_parse bytes = Some (map_dtree (map of_char) (machine_tree p))"
  using assms fdt_output_blob [OF machine_ops_tree, of p] fdt_parse_blob [OF machine_calls_ok [OF assms(1)] machine_blob_small [OF assms(1)]]
  by (simp add: riscv_build_fdt_def fdt_build_def)

lemma build_fdt_returns: "\<exists>bytes. riscv_build_fdt None p = Some bytes"
  using fdt_output_blob [OF machine_ops_tree, of p] by (simp add: riscv_build_fdt_def fdt_build_def)

lemma device_tree_size:
  assumes "fdt_params_ok p" and "riscv_build_fdt None p = Some bytes"
    and "\<forall>h < f_ncpus p. 12 \<le> length (isa_string (f_misa p h)) \<and> length (isa_string (f_misa p h)) \<le> 15"
  shows "(f_virtio_count p = 0 \<and> f_fb_dev p = None \<and> f_initrd_start p = 0 \<and>
      length (case f_cmd_line p of None \<Rightarrow> [] | Some c \<Rightarrow> c) < 16 \<longrightarrow> 256 + length bytes \<le> 0x1000) \<and>
    (f_ncpus p = 8 \<and> 0 < f_virtio_count p \<longrightarrow> 256 + length bytes > 0x1000)"
proof -
  have b: "bytes = blob (tree_calls (machine_tree p))"
    using assms(2) fdt_output_blob [OF machine_ops_tree, of p] by (simp add: riscv_build_fdt_def fdt_build_def)
  have n: "f_ncpus p \<le> 8" using assms(1) by (simp add: fdt_params_ok_def)
  note m = machine_len [OF assms(3) n] and bl = length_blob [OF refl refl, of "machine_tree p"]
  show ?thesis
  proof (intro conjI impI)
    assume a: "f_virtio_count p = 0 \<and> f_fb_dev p = None \<and> f_initrd_start p = 0 \<and> cmd_len p < 16"
    then have "round4 (cmd_len p + 1) \<le> 16" using round4_mono [of "cmd_len p + 1" 16] by simp
    then show "256 + length bytes \<le> 0x1000"
      using a n m bl(2) strings_length(2) [OF assms(1)] memory_len(2) [of p] soc_len [of p] interrupt_len(2) [of p] chosen_len(3) [of p]
        uart_len [of p 3] uart_len [of p 15] by (simp add: b fb_trees_def)
  next
    assume a: "f_ncpus p = 8 \<and> 0 < f_virtio_count p"
    then have "[0..<f_virtio_count p] = 0 # [1..<f_virtio_count p]" by (simp add: upt_conv_Cons)
    then have "80 \<le> sum_list (map (\<lambda>i. tree_len (virtio_tree p i)) [0..<f_virtio_count p])"
      using virtio_len(1) [of p 0] by simp
    moreover have "4 \<le> round4 (cmd_len p + 1)" using round4_mono [of 1 "cmd_len p + 1"] by simp
    ultimately show "256 + length bytes > 0x1000"
      using a m bl(1) strings_length(3) [OF assms(1)] memory_len(1) [of p] soc_len [of p] interrupt_len(1) [of p] chosen_len(1) [of p]
        uart_len [of p 3] uart_len [of p 15] by (simp add: b)
  qed
qed

text \<open>
  C13. The device tree the machine builds is well formed and complete: the tables the builder fills fit
  into their allocations, the assertion on open nodes holds, and a reader of the format finds in the
  bytes exactly the tree that describes the machine, with every node, property and value in order.
\<close>

theorem device_tree_roundtrip:
  assumes "fdt_params_ok p"
  shows "fdt_fits (fdt_build p) \<and>
    (\<exists>bytes. riscv_build_fdt None p = Some bytes \<and> fdt_parse bytes = Some (map_dtree (map of_char) (machine_tree p)))"
  using run_ops [OF machine_ops_tree fdt_init_fits, of p] build_fdt_returns [of p] build_fdt_parses [OF assms]
  by (auto simp: fdt_build_def)

lemma example_params_ok: "fdt_params_ok example_params"
  by (simp add: fdt_params_ok_def example_params_def)

theorem device_tree_roundtrip_witness:
  "\<exists>bytes. riscv_build_fdt None example_params = Some bytes \<and> fdt_parse bytes = Some (map_dtree (map of_char) (machine_tree example_params))"
  by (rule device_tree_roundtrip [OF example_params_ok, THEN conjunct2])

text \<open>
  The size of the device tree is not checked against the boot ROM of 4096 bytes, in which it starts
  at offset 256.  For up to eight harts it fits when there are no virtio devices, no frame buffer
  and no initial RAM disk and the command line is short; with eight harts and a virtio device it
  always runs past the end of the ROM.  (The ISA string has between 12 and 15 characters; after reset it is
  \<open>rv64acdfimsu\<close>.)
\<close>

theorem device_tree_rom_size:
  assumes "fdt_params_ok p" and "riscv_build_fdt None p = Some bytes"
    and "\<forall>h < f_ncpus p. 12 \<le> length (isa_string (f_misa p h)) \<and> length (isa_string (f_misa p h)) \<le> 15"
  shows "(f_virtio_count p = 0 \<and> f_fb_dev p = None \<and> f_initrd_start p = 0 \<and>
      length (case f_cmd_line p of None \<Rightarrow> [] | Some c \<Rightarrow> c) < 16 \<longrightarrow> 256 + length bytes \<le> 0x1000) \<and>
    (f_ncpus p = 8 \<and> 0 < f_virtio_count p \<longrightarrow> 256 + length bytes > 0x1000)"
  by (rule device_tree_size [OF assms])

theorem device_tree_rom_size_witness:
  "\<exists>bytes bytes'. riscv_build_fdt None example_params = Some bytes \<and> 256 + length bytes \<le> 0x1000 \<and>
     riscv_build_fdt None (example_params\<lparr>f_virtio_count := 1\<rparr>) = Some bytes' \<and> 256 + length bytes' > 0x1000"
proof -
  let ?p = example_params and ?q = "example_params\<lparr>f_virtio_count := 1\<rparr>"
  have isa: "isa_string 0x14112d = ''rv64acdfimsu''"
    by (simp add: isa_string_def upt_rec bit_numeral_rec numeral_eq_Suc)
  obtain b where b: "riscv_build_fdt None ?p = Some b"
    using fdt_output_blob [OF machine_ops_tree, of ?p] by (simp add: riscv_build_fdt_def fdt_build_def)
  obtain c where c: "riscv_build_fdt None ?q = Some c"
    using fdt_output_blob [OF machine_ops_tree, of ?q] by (simp add: riscv_build_fdt_def fdt_build_def)
  have "fdt_params_ok ?q" by (simp add: fdt_params_ok_def example_params_def)
  then show ?thesis
    using b c device_tree_rom_size [OF example_params_ok b] device_tree_rom_size [OF _ c]
    by (simp add: example_params_def isa)
qed

end
