(* ===== verification/Cosim.thy ===== *)
theory Cosim
  imports Board
begin

text \<open>
  Lock-step co-simulation (\<open>src/dromajo_cosim.cpp\<close>): the simulator executes the instruction a
  device under test (DUT) has committed and compares program counter, instruction and result.  The
  build without \<open>GOLDMEM_INORDER\<close> is modelled, the calls that option adds in theory
  \<open>Cosim_Gold\<close>; logging is left out.
\<close>

definition dromajo_cosim_init :: "'v Board_scheme \<Rightarrow> 'v Board_scheme" where
  "dromajo_cosim_init b = b\<lparr>board_cosim := True, board_pending_interrupt := - 1, board_pending_exception := - 1\<rparr>"

section \<open>Instructions\<close>

definition is_store_conditional :: "u32 \<Rightarrow> bool" where
  "is_store_conditional insn \<longleftrightarrow>
     (let opcode = insn AND 0x7f; funct3 = drop_bit 12 insn AND 7
      in opcode = 0x2f \<and> drop_bit 27 insn = 3 \<and> (funct3 = 2 \<or> funct3 = 3))"

text \<open>Atomic operations and load-reserved, not store-conditional.\<close>

definition is_amo :: "u32 \<Rightarrow> bool" where
  "is_amo insn \<longleftrightarrow>
     insn AND 0x7f = 0x2f \<and> drop_bit 27 insn \<in> {1, 2, 0, 4, 0xc, 0x8, 0x10, 0x14, 0x18, 0x1c}"

text \<open>
  \<open>pa0\<close> is the undefined content of the variable \<open>pa\<close> when the translation fails; the register
  number comes from a 5-bit field or is a compressed one, so that the assertion of
  \<open>riscv_get_reg_previous\<close> holds.
\<close>

definition is_mmio_load ::
  "u64 \<Rightarrow> nat \<Rightarrow> u64 \<Rightarrow> u64 \<Rightarrow> ('d, 'z) RISCVMachine_scheme \<Rightarrow> bool option" where
  "is_mmio_load pa0 rs1 offset sz m =
     map_option (\<lambda>prev.
        let va = prev + offset;
            pa = (case riscv_cpu_get_phys_addr m va ACCESS_READ of Phys pa \<Rightarrow> pa | _ \<Rightarrow> pa0)
        in riscv_cpu_pmp_access_ok m pa sz PMPCFG_R \<and> get_phys_mem_range (mem_map m) pa = None)
       (riscv_get_reg_previous m (int rs1))"

text \<open>The counters and interrupt-pending registers whose value is taken from the DUT.\<close>

definition dut_csr :: "u32 \<Rightarrow> bool" where
  "dut_csr csrno \<longleftrightarrow> 0xb00 \<le> csrno \<and> csrno < 0xb20 \<or> 0xc00 \<le> csrno \<and> csrno < 0xc20 \<or> csrno = 0x344 \<or> csrno = 0x144"

text \<open>Base register, offset and destination of a load or atomic operation.\<close>

definition dut_load :: "u32 \<Rightarrow> (nat \<times> u64 \<times> nat) option" where
  "dut_load insn =
     (let opcode = insn AND 0x7f; rd = unat (drop_bit 7 insn AND 0x1f); rdc = unat (drop_bit 2 insn AND 7) + 8
      in if (opcode = 3 \<or> is_amo insn) \<and> rd \<noteq> 0 then
           Some (unat (drop_bit 15 insn AND 0x1f), if opcode = 3 then scast (signed_drop_bit 20 insn) else 0, rd)
         else if insn AND 0xe003 = 0x6000 \<and> rdc \<noteq> 0 then
           Some (unat (drop_bit 7 insn AND 7) + 8, ucast (get_field1 insn 10 3 5 OR get_field1 insn 5 6 7), rdc)
         else if insn AND 0xe003 = 0x4000 \<and> rdc \<noteq> 0 then
           Some (unat (drop_bit 7 insn AND 7) + 8,
                 ucast (get_field1 insn 10 3 5 OR get_field1 insn 6 2 2 OR get_field1 insn 5 6 6), rdc)
         else None)"

definition handle_dut_overrides ::
  "u64 \<Rightarrow> u32 \<Rightarrow> u64 \<Rightarrow> ('d, 'z) RISCVMachine_scheme \<Rightarrow> ('d, 'z) RISCVMachine_scheme option" where
  "handle_dut_overrides pa0 insn dut_wdata m =
     (let opcode = insn AND 0x7f; csrno = drop_bit 20 insn; rd = unat (drop_bit 7 insn AND 0x1f);
          sz = ucast (drop_bit 12 insn AND 3)
      in case (if opcode = 0x73 \<and> rd \<noteq> 0 \<and> dut_csr csrno then riscv_set_reg (int rd) dut_wdata m else Some m) of
           None \<Rightarrow> None
         | Some m \<Rightarrow>
             (case dut_load insn of
                None \<Rightarrow> Some m
              | Some (rs1, offset, rd) \<Rightarrow>
                  case is_mmio_load pa0 rs1 offset sz m of
                    None \<Rightarrow> None
                  | Some mmio \<Rightarrow> if mmio then riscv_set_reg (int rd) dut_wdata m else Some m))"

section \<open>Traps\<close>

text \<open>\<open>None\<close>: the assertion that no interrupt is pending fails.\<close>

definition dromajo_cosim_raise_trap :: "u64 \<Rightarrow> 'v Board_scheme \<Rightarrow> 'v Board_scheme option" where
  "dromajo_cosim_raise_trap cause b =
     (if cause <s 0 then
        if board_pending_interrupt b \<noteq> - 1 then None
        else Some (b\<lparr>board_pending_interrupt := uint (cause AND 63)\<rparr>)
      else Some (b\<lparr>board_pending_exception := sint (ucast cause :: u32)\<rparr>))"

section \<open>Steps\<close>

text \<open>
  How the loop of \<open>dromajo_cosim_step\<close> ends: it needs more than the given number of rounds, an
  assertion fails, the cause of an exception differs (the function returns), or an instruction
  was executed: the integer and the floating-point register written, the program counter and the
  instruction.
\<close>

datatype 'b cosim_run =
    Cosim_fuel
  | Cosim_abort
  | Cosim_cause 'b
  | Cosim_insn int int u64 u32 'b

definition emu_fetch :: "nat \<Rightarrow> u32 \<Rightarrow> 'v Board_scheme \<Rightarrow> u32 \<times> 'v Board_scheme" where
  "emu_fetch hartid insn0 b =
     (case riscv_read_insn (pc (cpu_state b hartid)) (hart_view hartid b) of
        (res, m) \<Rightarrow>
          let emu_insn = (case res of None \<Rightarrow> insn0 | Some i \<Rightarrow> i)
          in (if emu_insn AND 3 \<noteq> 3 then emu_insn AND 0xffff else emu_insn, put_view hartid m))"

definition run_hart ::
  "'v Board_scheme bus \<Rightarrow> (u64 \<Rightarrow> u64) \<Rightarrow> nat \<Rightarrow> 'v Board_scheme \<Rightarrow> (int \<times> 'v Board_scheme) option" where
  "run_hart bus mmio hartid b =
     map_option (\<lambda>(k, m). (k, put_view hartid m)) (riscv_cpu_interp64 (hart_env bus mmio hartid) 1 (hart_view hartid b))"

text \<open>A failed store-conditional of the DUT is taken over.\<close>

definition fail_sc :: "nat \<Rightarrow> u64 \<Rightarrow> u32 \<Rightarrow> u64 \<Rightarrow> 'v Board_scheme \<Rightarrow> 'v Board_scheme cosim_run" where
  "fail_sc hartid emu_pc emu_insn dut_wdata b =
     (let iregno = uint (drop_bit 7 emu_insn AND 0x1f); m = hart_view hartid b
      in case (if iregno > 0 then riscv_set_reg iregno dut_wdata m else Some m) of
           None \<Rightarrow> Cosim_abort
         | Some m \<Rightarrow> Cosim_insn iregno (- 1) emu_pc emu_insn (put_view hartid (riscv_set_pc (emu_pc + 4) m)))"

text \<open>The interrupt raised by the DUT races an exception: the exception is taken first.\<close>

definition race_exception ::
  "'v Board_scheme bus \<Rightarrow> (u64 \<Rightarrow> u64) \<Rightarrow> nat \<Rightarrow> 'v Board_scheme \<Rightarrow> (bool \<times> 'v Board_scheme) option" where
  "race_exception bus mmio hartid b =
     (if board_pending_interrupt b \<noteq> - 1 \<and> board_pending_exception b \<noteq> - 1 then
        map_option (\<lambda>(k, b).
          let s = cpu_state b hartid; cause = (if priv s = PRV_S then scause s else mcause s)
          in (board_pending_exception b = sint (ucast cause :: u32), b)) (run_hart bus mmio hartid b)
      else Some (True, b))"

fun cosim_loop ::
  "'v Board_scheme bus \<Rightarrow> (u64 \<Rightarrow> u64) \<Rightarrow> nat \<Rightarrow> u64 \<Rightarrow> u32 \<Rightarrow> u64 \<Rightarrow> nat \<Rightarrow> u32 \<Rightarrow> 'v Board_scheme
     \<Rightarrow> 'v Board_scheme cosim_run" where
  "cosim_loop bus mmio hartid dut_pc dut_insn dut_wdata 0 insn0 b = Cosim_fuel"
| "cosim_loop bus mmio hartid dut_pc dut_insn dut_wdata (Suc fuel) insn0 b =
     (let emu_pc = pc (cpu_state b hartid); (emu_insn, b) = emu_fetch hartid insn0 b
      in if emu_pc = dut_pc \<and> emu_insn = dut_insn \<and> is_store_conditional emu_insn \<and> dut_wdata \<noteq> 0 then
           fail_sc hartid emu_pc emu_insn dut_wdata b
         else
           case race_exception bus mmio hartid b of
             None \<Rightarrow> Cosim_abort
           | Some (same, b) \<Rightarrow>
               if \<not> same then Cosim_cause b
               else
                 let b = (if board_pending_interrupt b \<noteq> - 1
                          then on_hart hartid (riscv_cpu_set_mip
                                 (mip (cpu_state b hartid) OR push_bit (nat (board_pending_interrupt b)) 1)) b
                          else b)
                 in case run_hart bus mmio hartid b of
                      None \<Rightarrow> Cosim_abort
                    | Some (k, b) \<Rightarrow>
                        if k \<noteq> 0 then
                          Cosim_insn (most_recently_written_reg (cpu_state b hartid))
                            (most_recently_written_fp_reg (cpu_state b hartid)) emu_pc emu_insn b
                        else
                          cosim_loop bus mmio hartid dut_pc dut_insn dut_wdata fuel emu_insn
                            (b\<lparr>board_pending_interrupt := - 1, board_pending_exception := - 1\<rparr>))"

text \<open>The value written, if any; \<open>None\<close>: an assertion on the register number fails.\<close>

definition emu_result :: "int \<Rightarrow> int \<Rightarrow> RISCVCPUState \<Rightarrow> u64 option option" where
  "emu_result iregno fregno s =
     (if iregno > 0 then map_option Some (riscv_get_reg s iregno)
      else if fregno \<ge> 0 then map_option Some (riscv_get_fpreg s fregno)
      else Some None)"

text \<open>\<open>pa0\<close> and \<open>insn0\<close> are the undefined initial contents of \<open>pa\<close> and \<open>emu_insn\<close>.\<close>

datatype 'b cosim_result =
    Step_fuel
  | Step_abort
  | Step_code int 'b

definition cosim_compare ::
  "u64 \<Rightarrow> nat \<Rightarrow> u64 \<Rightarrow> u32 \<Rightarrow> u64 \<Rightarrow> bool \<Rightarrow> int \<Rightarrow> int \<Rightarrow> u64 \<Rightarrow> u32 \<Rightarrow> 'v Board_scheme
     \<Rightarrow> 'v Board_scheme cosim_result" where
  "cosim_compare pa0 hartid dut_pc dut_insn dut_wdata check iregno fregno emu_pc emu_insn b =
     (case (if check then map_option (put_view hartid) (handle_dut_overrides pa0 emu_insn dut_wdata (hart_view hartid b))
            else Some b) of
        None \<Rightarrow> Step_abort
      | Some b \<Rightarrow>
          (case emu_result iregno fregno (cpu_state b hartid) of
             None \<Rightarrow> Step_abort
           | Some wdata \<Rightarrow>
               if \<not> check then Step_code 0 b
               else
                 let mismatch = (emu_pc \<noteq> dut_pc \<or> emu_insn \<noteq> dut_insn \<and> emu_insn AND 3 = 3
                                 \<or> wdata \<noteq> None \<and> wdata \<noteq> Some dut_wdata)
                 in Step_code (if mismatch then 0x1fff else 0) (update_cpu hartid riscv_cpu_sync_regs b)))"

definition dromajo_cosim_step ::
  "'v Board_scheme bus \<Rightarrow> (u64 \<Rightarrow> u64) \<Rightarrow> nat \<Rightarrow> u32 \<Rightarrow> u64 \<Rightarrow> nat \<Rightarrow> u64 \<Rightarrow> u32 \<Rightarrow> u64 \<Rightarrow> bool \<Rightarrow> 'v Board_scheme
     \<Rightarrow> 'v Board_scheme cosim_result" where
  "dromajo_cosim_step bus mmio fuel insn0 pa0 hartid dut_pc dut_insn dut_wdata check b =
     (if ncpus b \<le> hartid then Step_abort
      else if maxinsns b = 0 then Step_code 1 b
      else
        let b = b\<lparr>maxinsns := maxinsns b - 1\<rparr>
        in if terminate_simulation (cpu_state b hartid) then Step_code 1 b
           else
             case cosim_loop bus mmio hartid dut_pc dut_insn dut_wdata fuel insn0 b of
               Cosim_fuel \<Rightarrow> Step_fuel
             | Cosim_abort \<Rightarrow> Step_abort
             | Cosim_cause b \<Rightarrow> Step_code 0x1fff b
             | Cosim_insn iregno fregno emu_pc emu_insn b \<Rightarrow>
                 cosim_compare pa0 hartid dut_pc dut_insn dut_wdata check iregno fregno emu_pc emu_insn b)"

section \<open>Memory written by the DUT\<close>

text \<open>\<open>None\<close>: \<open>abort\<close> is called.  \<open>MLEN\<close> is 64.\<close>

definition dromajo_cosim_override_mem ::
  "'v Board_scheme bus \<Rightarrow> u64 \<Rightarrow> u64 \<Rightarrow> nat \<Rightarrow> 'v Board_scheme \<Rightarrow> 'v Board_scheme option" where
  "dromajo_cosim_override_mem bus dut_paddr dut_val size_log2 b =
     (case get_phys_mem_range (board_map b) dut_paddr of
        None \<Rightarrow> Some b
      | Some i \<Rightarrow>
          let pr = board_map b ! i; offset = dut_paddr - pr_addr pr
          in if pr_is_ram pr then
               if size_log2 > 3 then None
               else Some (b\<lparr>board_map := (board_map b)[i := phys_mem_set_dirty_bit pr offset],
                            board_ram := host_store size_log2 (board_ram b) (range_ptr pr dut_paddr) dut_val\<rparr>)
             else if drop_bit size_log2 (pr_devio_flags pr) AND 1 \<noteq> 0 then
               Some (board_write bus (pr_opaque pr) (ucast offset) (ucast dut_val) size_log2 b)
             else if pr_devio_flags pr AND DEVIO_SIZE32 \<noteq> 0 \<and> size_log2 = 3 then
               Some (board_write bus (pr_opaque pr) (ucast (offset + 4)) (ucast (drop_bit 32 dut_val)) 2
                       (board_write bus (pr_opaque pr) (ucast offset) (ucast dut_val) 2 b))
             else Some b)"

end
