(* ===== verification/Cosim_Props.thy ===== *)
theory Cosim_Props
  imports Cosim Board_Props
begin

text \<open>
  Properties of the co-simulation interface: what an accepted step means, which differences are
  taken over from the device under test, and that no call leaves a hart ill-formed.
\<close>

section \<open>Calls keep the harts well formed\<close>

lemma set_reg_core: "riscv_set_reg rn v m = Some m' \<Longrightarrow> machine_core m' = machine_core m"
  by (auto simp: riscv_set_reg_def machine_core_def hart_core_def split: if_splits)

lemma overrides_core: "handle_dut_overrides pa0 insn w m = Some m' \<Longrightarrow> machine_core m' = machine_core m"
  by (auto simp: handle_dut_overrides_def Let_def split: option.splits if_splits dest!: set_reg_core)

lemma emu_fetch_ok:
  fixes bus :: "'v Board_scheme bus" and b :: "'v Board_scheme"
  assumes "bus_safe bus" "board_ok l b"
  shows "board_ok l (snd (emu_fetch h insn0 b))"
proof -
  have "view_ok h l (hart_view h b)" using assms(2) by (simp add: board_ok_view)
  then have "view_ok h l (snd (riscv_read_insn (pc (cpu_state b h)) (hart_view h b)))"
    by (rule riscv_read_insn_core [OF assms(1)])
  then show ?thesis by (simp add: emu_fetch_def case_prod_beta Let_def board_ok_put)
qed

lemma run_hart_ok:
  assumes "bus_safe bus" "run_hart bus mmio h b = Some (k, b')" "board_ok l b"
  shows "board_ok l b'"
proof -
  from assms(2) obtain m where r: "riscv_cpu_interp64 (hart_env bus mmio h) 1 (hart_view h b) = Some (k, m)" "b' = put_view h m"
    by (auto simp: run_hart_def)
  have "view_ok h l (hart_view h b)" using assms(3) by (simp add: board_ok_view)
  then have "view_ok h l m" by (rule hart_invariant.P_interp64 [OF view_ok_invariant [OF assms(1)] r(1)])
  then show ?thesis by (simp add: r(2) board_ok_put)
qed

lemma run_hart_returns: "\<exists>k b'. run_hart bus mmio h b = Some (k, b')"
  using interp64_returns [of 1 "hart_env bus mmio h" "hart_view h b"] by (auto simp: run_hart_def)

lemma set_mip_board_ok: "board_ok l (on_hart h (riscv_cpu_set_mip x) b) = board_ok l b"
  by (rule board_ok_keeps) (simp add: on_hart_set_mip keeps_cores_update)

lemma pending_board_ok:
  "board_ok l (b\<lparr>board_pending_interrupt := i, board_pending_exception := e\<rparr>) = board_ok l b"
  by (rule board_ok_keeps) (simp add: keeps_cores_def run_limits_def)

lemma race_exception_ok:
  assumes "bus_safe bus" "race_exception bus mmio h b = Some (same, b')" "board_ok l b"
  shows "board_ok l b'"
  using assms run_hart_ok [OF assms(1) _ assms(3)] by (auto simp: race_exception_def Let_def split: if_splits)

lemma set_pc_core: "machine_core (riscv_set_pc w m) = machine_core m"
  by (simp add: riscv_set_pc_def machine_core_def hart_core_def)

lemma fail_sc_ok:
  assumes "fail_sc h p i w b = Cosim_insn ir fr q j b'" "board_ok l b"
  shows "board_ok l b'"
proof -
  obtain m where "machine_core m = machine_core (hart_view h b)" "b' = put_view h (riscv_set_pc (p + 4) m)"
    using assms(1) by (auto simp: fail_sc_def Let_def split: option.splits if_splits dest: set_reg_core)
  then have "view_ok h l (riscv_set_pc (p + 4) m) = view_ok h l (hart_view h b)"
    by (intro view_ok_core) (simp add: set_pc_core)
  then show ?thesis using assms(2) \<open>b' = _\<close> by (simp add: board_ok_view board_ok_put)
qed

fun loop_board :: "'b cosim_run \<Rightarrow> 'b option" where
  "loop_board (Cosim_cause b) = Some b"
| "loop_board (Cosim_insn i f p j b) = Some b"
| "loop_board _ = None"

lemma cosim_loop_ok:
  "bus_safe bus \<Longrightarrow> board_ok l b \<Longrightarrow> loop_board (cosim_loop bus mmio h dp di dw fuel insn0 b) = Some b' \<Longrightarrow> board_ok l b'"
proof (induction fuel arbitrary: insn0 b)
  case (Suc fuel)
  obtain i c where f: "emu_fetch h insn0 b = (i, c)" by fastforce
  then have c: "board_ok l c" using emu_fetch_ok [OF Suc.prems(1,2), of h insn0] by simp
  show ?case
  proof (cases "pc (cpu_state b h) = dp \<and> i = di \<and> is_store_conditional i \<and> dw \<noteq> 0")
    case True
    then have "loop_board (fail_sc h (pc (cpu_state b h)) i dw c) = Some b'"
      using Suc.prems(3) unfolding cosim_loop.simps f Let_def prod.case if_P [OF True] by simp
    then obtain ir fr q j where "fail_sc h (pc (cpu_state b h)) i dw c = Cosim_insn ir fr q j b'"
      by (auto simp: fail_sc_def Let_def split: option.splits)
    then show ?thesis using fail_sc_ok c by blast
  next
    case False
    then obtain same d where d: "race_exception bus mmio h c = Some (same, d)"
      using Suc.prems(3) f by (auto simp: Let_def split: option.splits)
    have dok: "board_ok l d" by (rule race_exception_ok [OF Suc.prems(1) d c])
    define g where "g = (if board_pending_interrupt d \<noteq> - 1
      then on_hart h (riscv_cpu_set_mip (mip (cpu_state d h) OR push_bit (nat (board_pending_interrupt d)) 1)) d else d)"
    have gok: "board_ok l g" using dok by (simp add: g_def set_mip_board_ok)
    obtain k t where r: "run_hart bus mmio h g = Some (k, t)" using run_hart_returns by blast
    have tok: "board_ok l t" by (rule run_hart_ok [OF Suc.prems(1) r gok])
    have eq: "cosim_loop bus mmio h dp di dw (Suc fuel) insn0 b =
        (if \<not> same then Cosim_cause d
         else if k \<noteq> 0 then Cosim_insn (most_recently_written_reg (cpu_state t h)) (most_recently_written_fp_reg (cpu_state t h))
           (pc (cpu_state b h)) i t
         else cosim_loop bus mmio h dp di dw fuel i (t\<lparr>board_pending_interrupt := - 1, board_pending_exception := - 1\<rparr>))"
      unfolding cosim_loop.simps f Let_def prod.case if_not_P [OF False] d option.case g_def [symmetric] r by simp
    show ?thesis
      using Suc.prems(3) Suc.IH [OF Suc.prems(1), of "t\<lparr>board_pending_interrupt := - 1, board_pending_exception := - 1\<rparr>" i] dok tok
      unfolding eq by (auto simp: pending_board_ok split: if_splits)
  qed
qed simp

lemma cosim_compare_ok:
  assumes "cosim_compare pa0 h dp di dw chk ir fr p i b = Step_code code b'" "board_ok l b"
  shows "board_ok l b'"
proof -
  obtain c where c: "board_ok l c" "b' = c \<or> b' = update_cpu h riscv_cpu_sync_regs c"
  proof (cases chk)
    case True
    then obtain m where m: "handle_dut_overrides pa0 i dw (hart_view h b) = Some m"
      using assms(1) by (auto simp: cosim_compare_def split: option.splits)
    have "view_ok h l m = view_ok h l (hart_view h b)" by (rule view_ok_core [OF overrides_core [OF m]])
    then have "board_ok l (put_view h m)" using assms(2) by (simp add: board_ok_put board_ok_view)
    then show ?thesis
      using that [of "put_view h m"] assms(1) True m by (auto simp: cosim_compare_def Let_def split: option.splits)
  next
    case False
    then show ?thesis using that [of b] assms by (auto simp: cosim_compare_def split: option.splits)
  qed
  have "board_ok l (update_cpu h riscv_cpu_sync_regs c) = board_ok l c"
    by (rule board_ok_keeps [OF keeps_cores_update]) (simp add: riscv_cpu_sync_regs_def hart_core_def)
  then show ?thesis using c by auto
qed

lemma cosim_step_ok:
  assumes "bus_safe bus" "harts_ok b"
    "dromajo_cosim_step bus mmio fuel insn0 pa0 h dp di dw chk b = Step_code code b'"
  shows "harts_ok b'"
proof -
  let ?c = "b\<lparr>maxinsns := maxinsns b - 1\<rparr>"
  have c: "board_ok (run_limits ?c) ?c" using assms(2) by (simp add: board_ok_def harts_ok_def)
  then have ok: "harts_ok ?c" by (simp add: board_ok_def)
  show ?thesis
  proof (cases "cosim_loop bus mmio h dp di dw fuel insn0 ?c")
    case (Cosim_cause d)
    then have "board_ok (run_limits ?c) d" using cosim_loop_ok [OF assms(1) c] by (metis loop_board.simps(1))
    then show ?thesis
      using assms(2,3) ok Cosim_cause by (auto simp: dromajo_cosim_step_def Let_def board_ok_def split: if_splits)
  next
    case (Cosim_insn ir fr p i d)
    then have d: "board_ok (run_limits ?c) d" using cosim_loop_ok [OF assms(1) c] by (metis loop_board.simps(2))
    show ?thesis
      using assms(2,3) ok Cosim_insn cosim_compare_ok [OF _ d]
      by (auto simp: dromajo_cosim_step_def Let_def board_ok_def split: if_splits)
  qed (use assms(2,3) ok in \<open>auto simp: dromajo_cosim_step_def Let_def split: if_splits\<close>)
qed

lemma override_mem_ok:
  assumes "bus_safe bus" "harts_ok b" "dromajo_cosim_override_mem bus a v k b = Some b'"
  shows "harts_ok b'"
proof -
  have w: "harts_ok (board_write bus n off x sz c) = harts_ok c" for n off x sz c
    by (rule keeps_cores_harts_ok [OF keeps_board_write [OF assms(1)]])
  show ?thesis
    using assms(2,3) by (auto simp: dromajo_cosim_override_mem_def Let_def w split: option.splits if_splits)
      (auto simp: harts_ok_def)
qed

text \<open>The harness of a DUT calls the interface in any order.\<close>

inductive cosim_call :: "'v Board_scheme bus \<Rightarrow> 'v Board_scheme \<Rightarrow> 'v Board_scheme \<Rightarrow> bool" for bus where
  step: "dromajo_cosim_step bus mmio fuel insn0 pa0 h dp di dw chk b = Step_code code b' \<Longrightarrow> cosim_call bus b b'"
| trap: "dromajo_cosim_raise_trap cause b = Some b' \<Longrightarrow> cosim_call bus b b'"
| memory: "dromajo_cosim_override_mem bus a v k b = Some b' \<Longrightarrow> cosim_call bus b b'"

lemma raise_trap_ok: "dromajo_cosim_raise_trap cause b = Some b' \<Longrightarrow> harts_ok b \<Longrightarrow> harts_ok b'"
  by (auto simp: dromajo_cosim_raise_trap_def harts_ok_def split: if_splits)

lemma cosim_calls_ok: "(cosim_call bus)\<^sup>*\<^sup>* b b' \<Longrightarrow> bus_safe bus \<Longrightarrow> harts_ok b \<Longrightarrow> harts_ok b'"
proof (induction rule: rtranclp_induct)
  case (step c d)
  from step.hyps(2) step.IH step.prems show ?case
    by (cases rule: cosim_call.cases) (auto intro: cosim_step_ok raise_trap_ok override_mem_ok)
qed

section \<open>A board with a store-conditional\<close>

text \<open>\<open>sc.w a0, a2, (a1)\<close> at the reset vector.\<close>

definition sc_ram :: host_mem where
  "sc_ram a = (if a = 0x1000 then 0x2f else if a = 0x1001 then 0xa5 else if a = 0x1002 then 0xc5
     else if a = 0x1003 then 0x18 else 0)"

definition sc_board :: Board where
  "sc_board = dromajo_cosim_init (example_board\<lparr>board_ram := sc_ram\<rparr>)"

lemma sc_board_simps [simp]:
  "cpu_state sc_board = cpu_state example_board" "board_ram sc_board = sc_ram" "board_map sc_board = [example_range]"
  "ncpus sc_board = 1" "maxinsns sc_board = 100" "board_pending_interrupt sc_board = - 1"
  by (simp_all add: sc_board_def dromajo_cosim_init_def example_board_def board_init_def)

text \<open>A fetch in machine mode without PMP entries.\<close>

lemma m_mode_fetch:
  assumes "priv m = 3" "pmp_n m = 0" "drop_bit (physical_addr_len m) addr = 0" "drop_bit (physical_addr_len m) (addr AND NOT PG_MASK) = 0"
    and "get_phys_mem_range (mem_map m) addr = Some i" "pr_is_ram (mem_map m ! i)" "tlb_index addr = tlb_index (addr + 2)"
  shows "target_read_insn_slow 32 addr m =
    (Some (get_le32 (ram m) (range_ptr (mem_map m ! i) addr)),
     m\<lparr>tlb_code := (tlb_code m)(tlb_index addr :=
          \<lparr>tlb_vaddr = addr AND NOT PG_MASK, tlb_mem_addend = range_ptr (mem_map m ! i) addr - addr\<rparr>),
        tlb_code_paddr_addend := (tlb_code_paddr_addend m)(tlb_index addr := 0)\<rparr>)"
  using assms
  by (simp add: target_read_insn_slow_def riscv_cpu_get_phys_addr_def access_priv_def fetch_range_def
      get_phys_mem_range_pmp_def riscv_cpu_pmp_access_ok_def Let_def)

lemma sc_board_view:
  "priv (hart_view h (sc_board\<lparr>maxinsns := n\<rparr>)) = 3" "pmp_n (hart_view h (sc_board\<lparr>maxinsns := n\<rparr>)) = 0"
  "physical_addr_len (hart_view h (sc_board\<lparr>maxinsns := n\<rparr>)) = 40" "mstatus (hart_view h (sc_board\<lparr>maxinsns := n\<rparr>)) AND MSTATUS_MPRV = 0"
  by (simp_all add: hart_view_def RISCVCPUState.defs RISCVMachine.defs riscv_cpu_init_def tlb_init_def zeroed_cpu_def)

lemma sc_board_pc: "pc (cpu_state sc_board 0) = 0x80000000"
  by (simp add: riscv_cpu_init_def tlb_init_def)

lemma sc_board_running: "\<not> terminate_simulation (cpu_state sc_board 0)"
  by (simp add: riscv_cpu_init_def tlb_init_def zeroed_cpu_def)

lemma sc_board_fetch: "fst (emu_fetch 0 0 (sc_board\<lparr>maxinsns := n\<rparr>)) = 0x18c5a52f"
proof -
  have "get_le32 sc_ram 0x1000 = 0x18c5a52f" by (simp add: get_le32_def get_le16_def sc_ram_def)
  moreover have "range_ptr example_range 0x80000000 = 0x1000" by (simp add: range_ptr_def)
  moreover have "pc (cpu_state (sc_board\<lparr>maxinsns := n\<rparr>) 0) = 0x80000000" using sc_board_pc by simp
  ultimately show ?thesis
    using m_mode_fetch [of "hart_view 0 (sc_board\<lparr>maxinsns := n\<rparr>)" "0x80000000" 0, unfolded sc_board_view]
    by (simp add: emu_fetch_def riscv_read_insn_def tlb_index_def case_prod_beta)
qed

section \<open>Frame lemmas\<close>

lemma read_insn_frame:
  "pc (snd (riscv_read_insn a m)) = pc m" "reg (snd (riscv_read_insn a m)) = reg m"
  "ram (snd (riscv_read_insn a m)) = ram m" "devs (snd (riscv_read_insn a m)) = devs m"
  "mem_map (snd (riscv_read_insn a m)) = mem_map m" "misa (snd (riscv_read_insn a m)) = misa m"
  by (simp_all add: riscv_read_insn_def target_read_insn_slow_def set_exception_def case_prod_beta Let_def
      split: translation.split option.split)

lemma truncate_fields [simp]:
  "misa (RISCVCPUState.truncate m) = misa m"
  "pc (RISCVCPUState.truncate m) = pc m" "reg (RISCVCPUState.truncate m) = reg m" "fp_reg (RISCVCPUState.truncate m) = fp_reg m"
  by (simp_all add: RISCVCPUState.defs)

lemma hart_view_regs [simp]:
  "misa (hart_view h b) = misa (cpu_state b h)"
  "pc (hart_view h b) = pc (cpu_state b h)" "reg (hart_view h b) = reg (cpu_state b h)" "fp_reg (hart_view h b) = fp_reg (cpu_state b h)"
  by (simp_all add: hart_view_def RISCVCPUState.defs RISCVMachine.defs)

lemma emu_fetch_frame:
  "pc (cpu_state (snd (emu_fetch h i b)) h) = pc (cpu_state b h)" "reg (cpu_state (snd (emu_fetch h i b)) h) = reg (cpu_state b h)"
  "board_ram (snd (emu_fetch h i b)) = board_ram b" "misa (cpu_state (snd (emu_fetch h i b)) h) = misa (cpu_state b h)"
  by (simp_all add: emu_fetch_def case_prod_beta Let_def read_insn_frame)

lemma put_view_hart_view [simp]: "put_view h (hart_view h b) = b"
  by (simp add: put_view_def)

lemma sync_regs_simps [simp]:
  "reg (riscv_cpu_sync_regs s) = reg s" "fp_reg (riscv_cpu_sync_regs s) = fp_reg s" "pc (riscv_cpu_sync_regs s) = pc s"
  by (simp_all add: riscv_cpu_sync_regs_def)

section \<open>Differences taken over from the DUT\<close>

lemma opcode_odd: "insn AND 0x7f = k \<Longrightarrow> odd k \<Longrightarrow> odd (insn :: u32)"
  by (auto simp: even_and_iff)

lemma not_compressed: "odd (insn :: u32) \<Longrightarrow> insn AND 0xe003 \<noteq> 0x6000 \<and> insn AND 0xe003 \<noteq> 0x4000"
proof
  assume o: "odd insn"
  then have "odd (insn AND 0xe003)" by (simp add: even_and_iff)
  then show "insn AND 0xe003 \<noteq> 0x6000" "insn AND 0xe003 \<noteq> 0x4000" by auto
qed

lemma dut_load_csr: "insn AND 0x7f = 0x73 \<Longrightarrow> dut_load insn = None"
  using not_compressed [of insn] opcode_odd [of insn "0x73"] by (simp add: dut_load_def is_amo_def Let_def)

lemma dut_load_sc: "is_store_conditional insn \<Longrightarrow> dut_load insn = None"
  using not_compressed [of insn] opcode_odd [of insn "0x2f"]
  by (auto simp: dut_load_def is_amo_def is_store_conditional_def Let_def)

lemma reg_field_range: "unat (x AND 0x1f :: u32) < 32"
proof -
  have "x AND 0x1f \<le> (0x1f :: u32)" by (rule word_and_le1)
  then have "unat (x AND 0x1f) \<le> unat (0x1f :: u32)" by (simp only: word_le_nat_alt)
  then show ?thesis by simp
qed

lemma failed_sc_step:
  assumes "h < ncpus b" and "maxinsns b \<noteq> 0" and "\<not> terminate_simulation (cpu_state b h)"
    and "fst (emu_fetch h insn0 (b\<lparr>maxinsns := maxinsns b - 1\<rparr>)) = insn" and "is_store_conditional insn"
    and "drop_bit 7 insn AND 0x1f \<noteq> 0" and "w \<noteq> 0"
  shows "\<exists>b'. dromajo_cosim_step bus mmio (Suc fuel) insn0 pa0 h (pc (cpu_state b h)) insn w True b = Step_code 0 b' \<and>
    reg (cpu_state b' h) = (reg (cpu_state b h))(unat (drop_bit 7 insn AND 0x1f) := w) \<and>
    pc (cpu_state b' h) = (pc (cpu_state b h) + 4) AND pc_align_mask (cpu_state b h) \<and> board_ram b' = board_ram b"
proof -
  let ?c = "b\<lparr>maxinsns := maxinsns b - 1\<rparr>"
  define rd where "rd = unat (drop_bit 7 insn AND 0x1f)"
  have u: "uint (drop_bit 7 insn AND 0x1f) = int rd" unfolding rd_def by (rule uint_nat)
  have rd: "0 < rd" "rd < 32"
    using reg_field_range [of "drop_bit 7 insn"] unat_eq_zero [of "drop_bit 7 insn AND 0x1f"] assms(6)
    by (simp_all only: rd_def neq0_conv [symmetric] not_False_eq_True)
  define d where "d = snd (emu_fetch h insn0 ?c)"
  have f: "emu_fetch h insn0 ?c = (insn, d)" using assms(4) by (simp add: d_def prod_eq_iff)
  have fr: "pc (cpu_state d h) = pc (cpu_state b h)" "reg (cpu_state d h) = reg (cpu_state b h)" "board_ram d = board_ram b"
    "misa (cpu_state d h) = misa (cpu_state b h)"
    unfolding d_def using emu_fetch_frame [of h insn0 ?c] by simp_all
  define m where "m = (hart_view h d)\<lparr>reg := (reg (hart_view h d))(rd := w)\<rparr>"
  have "riscv_set_reg (int rd) w (hart_view h d) = Some m" using rd by (simp add: riscv_set_reg_def m_def)
  then have sc: "fail_sc h (pc (cpu_state b h)) insn w d =
      Cosim_insn (int rd) (- 1) (pc (cpu_state b h)) insn (put_view h (riscv_set_pc (pc (cpu_state b h) + 4) m))"
    using rd by (simp add: fail_sc_def u)
  let ?b = "put_view h (riscv_set_pc (pc (cpu_state b h) + 4) m)"
  have "cosim_loop bus mmio h (pc (cpu_state b h)) insn w (Suc fuel) insn0 ?c = Cosim_insn (int rd) (- 1) (pc (cpu_state b h)) insn ?b"
    using sc f assms(5,7) by (simp add: Let_def)
  moreover have "handle_dut_overrides pa0 insn w (hart_view h ?b) = Some (hart_view h ?b)"
    using dut_load_sc [OF assms(5)] assms(5) by (auto simp: handle_dut_overrides_def Let_def is_store_conditional_def)
  moreover have r: "reg (cpu_state ?b h) = (reg (cpu_state b h))(rd := w)"
    "pc (cpu_state ?b h) = (pc (cpu_state b h) + 4) AND pc_align_mask (cpu_state b h)" "board_ram ?b = board_ram b"
    using fr by (simp_all add: riscv_set_pc_def m_def pc_align_mask_def)
  moreover have "emu_result (int rd) (- 1) (cpu_state ?b h) = Some (Some w)"
    using r(1) rd by (simp add: emu_result_def riscv_get_reg_def)
  ultimately have "dromajo_cosim_step bus mmio (Suc fuel) insn0 pa0 h (pc (cpu_state b h)) insn w True b
      = Step_code 0 (update_cpu h riscv_cpu_sync_regs ?b)"
    using assms(1-3) by (simp add: dromajo_cosim_step_def cosim_compare_def Let_def del: put_view_simps(1))
  then show ?thesis using r by (simp add: update_cpu_def rd_def)
qed


lemma sc_insn: "is_store_conditional 0x18c5a52f" "drop_bit 7 (0x18c5a52f :: u32) AND 0x1f = 10"
  by (simp_all add: is_store_conditional_def)

lemma sc_board_step:
  assumes "w \<noteq> 0"
  shows "\<exists>b'. dromajo_cosim_step bus mmio (Suc fuel) 0 pa0 0 0x80000000 0x18c5a52f w True sc_board = Step_code 0 b' \<and>
    reg (cpu_state b' 0) = (reg (cpu_state sc_board 0))(10 := w)"
proof -
  have "\<exists>b'. dromajo_cosim_step bus mmio (Suc fuel) 0 pa0 0 (pc (cpu_state sc_board 0)) 0x18c5a52f w True sc_board = Step_code 0 b' \<and>
    reg (cpu_state b' 0) = (reg (cpu_state sc_board 0))(unat (drop_bit 7 (0x18c5a52f :: u32) AND 0x1f) := w) \<and>
    pc (cpu_state b' 0) = (pc (cpu_state sc_board 0) + 4) AND pc_align_mask (cpu_state sc_board 0) \<and> board_ram b' = board_ram sc_board"
    by (rule failed_sc_step) (use assms sc_board_running in \<open>simp_all add: sc_insn sc_board_fetch del: sc_board_simps(1)\<close>)
  then show ?thesis unfolding sc_board_pc by (auto simp: sc_insn)
qed

lemma sc_board_ok: "harts_ok sc_board"
  using board_init_ok [OF example_board_init] by (simp add: board_ok_def harts_ok_def)

section \<open>Values of the DUT\<close>

lemma hart_view_prior [simp]: "reg_prior (hart_view h b) = reg_prior (cpu_state b h)"
  by (simp add: hart_view_def RISCVCPUState.defs RISCVMachine.defs)

lemma compare_at_rd:
  assumes "handle_dut_overrides pa0 insn w (hart_view h b) = Some m" "0 < rd" "rd < 32"
  shows "cosim_compare pa0 h p insn w True (int rd) fr p insn b =
    Step_code (if reg m rd = w then 0 else 0x1fff) (update_cpu h riscv_cpu_sync_regs (put_view h m))"
  using assms by (simp add: cosim_compare_def emu_result_def riscv_get_reg_def Let_def)

lemma dut_load_insn:
  assumes "insn AND 0x7f = 3" "drop_bit 7 insn AND 0x1f \<noteq> 0"
  shows "dut_load insn = Some (unat (drop_bit 15 insn AND 0x1f), scast (signed_drop_bit 20 insn), unat (drop_bit 7 insn AND 0x1f))"
  using assms unat_eq_zero [of "drop_bit 7 insn AND 0x1f"] by (simp add: dut_load_def Let_def del: unat_eq_zero)

lemma overrides_csr:
  assumes "insn AND 0x7f = 0x73" "dut_csr (drop_bit 20 insn)" "rd = unat (drop_bit 7 insn AND 0x1f)" "0 < rd"
  shows "handle_dut_overrides pa0 insn w m = Some (m\<lparr>reg := (reg m)(rd := w)\<rparr>)"
proof -
  have "rd < 32" using reg_field_range [of "drop_bit 7 insn"] assms(3) by simp
  then have "riscv_set_reg (int rd) w m = Some (m\<lparr>reg := (reg m)(rd := w)\<rparr>)"
    using assms(4) by (simp add: riscv_set_reg_def)
  then show ?thesis
    using assms(1,2,4) dut_load_csr [OF assms(1)] unfolding handle_dut_overrides_def Let_def assms(3) [symmetric] by simp
qed

lemma overrides_load:
  assumes "insn AND 0x7f = 3" "rd = unat (drop_bit 7 insn AND 0x1f)" "0 < rd"
    and "riscv_cpu_get_phys_addr m (reg_prior m (unat (drop_bit 15 insn AND 0x1f)) + scast (signed_drop_bit 20 insn)) ACCESS_READ = Phys pa"
  shows "handle_dut_overrides pa0 insn w m =
    Some (if riscv_cpu_pmp_access_ok m pa (ucast (drop_bit 12 insn AND 3)) PMPCFG_R \<and> get_phys_mem_range (mem_map m) pa = None
          then m\<lparr>reg := (reg m)(rd := w)\<rparr> else m)"
proof -
  have rd: "rd < 32" using reg_field_range [of "drop_bit 7 insn"] assms(2) by simp
  define rs where "rs = unat (drop_bit 15 insn AND 0x1f)"
  have "rs < 32" using reg_field_range [of "drop_bit 15 insn"] unfolding rs_def .
  then have p: "riscv_get_reg_previous m (int rs) = Some (reg_prior m rs)" by (simp add: riscv_get_reg_previous_def)
  have "drop_bit 7 insn AND 0x1f \<noteq> 0" using assms(2,3) by auto
  note l = dut_load_insn [OF assms(1) this, folded rs_def assms(2)]
  have "riscv_set_reg (int rd) w m = Some (m\<lparr>reg := (reg m)(rd := w)\<rparr>)"
    using assms(3) rd by (simp add: riscv_set_reg_def)
  then show ?thesis
    using assms(1) assms(4) [folded rs_def] p
    unfolding handle_dut_overrides_def Let_def is_mmio_load_def assms(2) [symmetric] l by simp
qed

section \<open>Memory written by the DUT\<close>

lemma dirty_bit_range [simp]:
  "in_phys_range a (phys_mem_set_dirty_bit pr off) = in_phys_range a pr" "range_ptr (phys_mem_set_dirty_bit pr off) a = range_ptr pr a"
  by (simp_all add: in_phys_range_def range_ptr_def phys_mem_set_dirty_bit_def Let_def)

lemma nth_dirty: "in_phys_range a (s[i := phys_mem_set_dirty_bit (s ! i) off] ! n) = in_phys_range a (s ! n)"
  by (cases "i = n"; cases "n < length s") (simp_all add: list_update_beyond)

lemma scan_ranges_dirty:
  "scan_ranges (s[i := phys_mem_set_dirty_bit (s ! i) off]) a n = scan_ranges s a n"
  by (induction n) (simp_all add: nth_dirty)

lemma range_dirty: "get_phys_mem_range (s[i := phys_mem_set_dirty_bit (s ! i) off]) a = get_phys_mem_range s a"
  by (simp add: get_phys_mem_range_def scan_ranges_dirty)

lemma pmp_scan_view: "pmp_scan (hart_view h b) = pmp_scan (cpu_state b h)"
proof (intro ext)
  show "pmp_scan (hart_view h b) q a n p is = pmp_scan (cpu_state b h) q a n p is" for q a n p "is"
    by (induction "is") (simp_all add: hart_view_def RISCVCPUState.defs RISCVMachine.defs)
qed

lemma pmp_access_view: "riscv_cpu_pmp_access_ok (hart_view h b) = riscv_cpu_pmp_access_ok (cpu_state b h)"
  by (intro ext)
    (simp add: riscv_cpu_pmp_access_ok_def pmp_scan_view access_priv_def, simp add: hart_view_def RISCVCPUState.defs RISCVMachine.defs)

lemma view_memory [simp]: "ram (hart_view h b) = board_ram b" "mem_map (hart_view h b) = board_map b"
  by (simp_all add: hart_view_def RISCVCPUState.defs RISCVMachine.defs)

section \<open>Properties\<close>

text \<open>
  C11. No call of the co-simulation interface, in any order and with any values from the DUT, makes a
  hart ill-formed.
\<close>

theorem cosim_calls_keep_harts_ok:
  assumes "bus_safe bus" and "harts_ok b" and "(cosim_call bus)\<^sup>*\<^sup>* b b'"
  shows "harts_ok b'"
  using cosim_calls_ok [OF assms(3,1,2)] .

theorem cosim_calls_keep_harts_ok_witness:
  "\<exists>b'. dromajo_cosim_step plain_bus id 1 0 0 0 0x80000000 0x18c5a52f 1 True sc_board = Step_code 0 b' \<and> harts_ok b'"
proof -
  obtain b' where s: "dromajo_cosim_step plain_bus id (Suc 0) 0 0 0 0x80000000 0x18c5a52f 1 True sc_board = Step_code 0 b'"
    using sc_board_step [of 1 plain_bus id 0 0] by auto
  then have "(cosim_call plain_bus)\<^sup>*\<^sup>* sc_board b'" by (blast intro: cosim_call.step)
  then have "harts_ok b'" by (rule cosim_calls_keep_harts_ok [OF plain_bus_safe sc_board_ok])
  with s show ?thesis by simp
qed



text \<open>
  C12. A store-conditional that fails on the DUT fails in the simulator: the step is accepted, the
  destination holds the failure code of the DUT, the program counter moves on, and neither memory
  nor another register of the hart changes.
\<close>

theorem failed_sc_taken_over:
  assumes "h < ncpus b" and "maxinsns b \<noteq> 0" and "\<not> terminate_simulation (cpu_state b h)"
    and "fst (emu_fetch h insn0 (b\<lparr>maxinsns := maxinsns b - 1\<rparr>)) = insn" and "is_store_conditional insn"
    and "drop_bit 7 insn AND 0x1f \<noteq> 0" and "w \<noteq> 0"
  shows "\<exists>b'. dromajo_cosim_step bus mmio (Suc fuel) insn0 pa0 h (pc (cpu_state b h)) insn w True b = Step_code 0 b' \<and>
    reg (cpu_state b' h) = (reg (cpu_state b h))(unat (drop_bit 7 insn AND 0x1f) := w) \<and>
    pc (cpu_state b' h) = (pc (cpu_state b h) + 4) AND pc_align_mask (cpu_state b h) \<and> board_ram b' = board_ram b"
  by (rule failed_sc_step [OF assms])

theorem failed_sc_taken_over_witness:
  "\<exists>b'. dromajo_cosim_step plain_bus id (Suc 0) 0 0 0 (pc (cpu_state sc_board 0)) 0x18c5a52f 1 True sc_board = Step_code 0 b' \<and>
    reg (cpu_state b' 0) = (reg (cpu_state sc_board 0))(10 := 1)"
proof -
  have "\<exists>b'. dromajo_cosim_step plain_bus id (Suc 0) 0 0 0 (pc (cpu_state sc_board 0)) 0x18c5a52f 1 True sc_board = Step_code 0 b' \<and>
    reg (cpu_state b' 0) = (reg (cpu_state sc_board 0))(unat (drop_bit 7 (0x18c5a52f :: u32) AND 0x1f) := 1) \<and>
    pc (cpu_state b' 0) = (pc (cpu_state sc_board 0) + 4) AND pc_align_mask (cpu_state sc_board 0) \<and> board_ram b' = board_ram sc_board"
    by (rule failed_sc_taken_over) (use sc_board_running in \<open>simp_all add: sc_insn sc_board_fetch del: sc_board_simps(1)\<close>)
  then show ?thesis by (auto simp: sc_insn)
qed

text \<open>
  Which results follow the DUT.  A read of a counter or interrupt-pending register is accepted
  with any value, which becomes the value of the simulated register.  A load whose address no memory
  range covers is treated the same way if the PMP admits it; any other load is accepted exactly if
  the values agree, and the register keeps the simulated value.
\<close>

theorem dut_values_accepted:
  assumes "rd = unat (drop_bit 7 insn AND 0x1f)" and "0 < rd"
    and "va = reg_prior (cpu_state b h) (unat (drop_bit 15 insn AND 0x1f)) + scast (signed_drop_bit 20 insn)"
  shows "(insn AND 0x7f = 0x73 \<and> dut_csr (drop_bit 20 insn) \<longrightarrow>
      (\<exists>b'. cosim_compare pa0 h p insn w True (int rd) fr p insn b = Step_code 0 b' \<and>
         reg (cpu_state b' h) = (reg (cpu_state b h))(rd := w))) \<and>
    (insn AND 0x7f = 3 \<and> riscv_cpu_get_phys_addr (hart_view h b) va ACCESS_READ = Phys pa \<longrightarrow>
      (let io = riscv_cpu_pmp_access_ok (cpu_state b h) pa (ucast (drop_bit 12 insn AND 3)) PMPCFG_R \<and>
           get_phys_mem_range (board_map b) pa = None
       in \<exists>b'. cosim_compare pa0 h p insn w True (int rd) fr p insn b =
             Step_code (if io \<or> reg (cpu_state b h) rd = w then 0 else 0x1fff) b' \<and>
           reg (cpu_state b' h) = (if io then (reg (cpu_state b h))(rd := w) else reg (cpu_state b h))))"
proof (intro conjI impI; (elim conjE)?)
  have rd: "rd < 32" using reg_field_range [of "drop_bit 7 insn"] assms(1) by simp
  show "\<exists>b'. cosim_compare pa0 h p insn w True (int rd) fr p insn b = Step_code 0 b' \<and>
      reg (cpu_state b' h) = (reg (cpu_state b h))(rd := w)" if c: "insn AND 0x7f = 0x73" "dut_csr (drop_bit 20 insn)"
    using compare_at_rd [OF overrides_csr [OF c assms(1,2), of pa0 w "hart_view h b"] assms(2) rd, of p fr] by (simp add: update_cpu_def)
  show "let io = riscv_cpu_pmp_access_ok (cpu_state b h) pa (ucast (drop_bit 12 insn AND 3)) PMPCFG_R \<and>
           get_phys_mem_range (board_map b) pa = None
       in \<exists>b'. cosim_compare pa0 h p insn w True (int rd) fr p insn b =
             Step_code (if io \<or> reg (cpu_state b h) rd = w then 0 else 0x1fff) b' \<and>
           reg (cpu_state b' h) = (if io then (reg (cpu_state b h))(rd := w) else reg (cpu_state b h))"
    if c: "insn AND 0x7f = 3" "riscv_cpu_get_phys_addr (hart_view h b) va ACCESS_READ = Phys pa"
    using compare_at_rd [OF overrides_load [OF c(1) assms(1,2), of "hart_view h b" pa pa0 w] assms(2) rd, of p fr] c(2) assms(3)
    by (simp add: update_cpu_def pmp_access_view)
qed

theorem dut_values_accepted_witness:
  "\<exists>b'. cosim_compare 0 0 0x80000000 0xb0002573 99 True 10 (- 1) 0x80000000 0xb0002573 sc_board = Step_code 0 b' \<and>
     reg (cpu_state b' 0) = (reg (cpu_state sc_board 0))(10 := 99)"
proof -
  have "int 10 = 10" by simp
  then show ?thesis
    using dut_values_accepted [of 10 "0xb0002573" _ sc_board 0 0 "0x80000000" 99 "- 1"] by (simp add: dut_csr_def)
qed

text \<open>
  Memory written by the DUT is seen by every hart: after \<open>dromajo_cosim_override_mem\<close> of a RAM
  location, a physical read by any hart that may read there returns the value, truncated to the
  access width.
\<close>

theorem dut_memory_visible:
  assumes "get_phys_mem_range (board_map b) a = Some i" and "pr_is_ram (board_map b ! i)" and "k \<le> 3"
    and "riscv_phys_read k (hart_view h b) a \<noteq> None"
  shows "\<exists>b'. dromajo_cosim_override_mem bus a v k b = Some b' \<and>
    riscv_phys_read k (hart_view h b') a =
      Some (if k = 0 then take_bit 8 v else if k = 1 then take_bit 16 v else if k = 2 then take_bit 32 v else v)"
proof -
  have ok: "riscv_cpu_pmp_access_ok (cpu_state b h) a (push_bit k 1) PMPCFG_R"
    using assms(4) by (auto simp: riscv_phys_read_def get_phys_mem_range_pmp_def pmp_access_view split: option.splits if_splits)
  have "i < length (board_map b)" by (rule get_phys_mem_range_Some_length [OF assms(1)])
  then show ?thesis
    using assms(1-3) ok
    by (simp add: dromajo_cosim_override_mem_def Let_def riscv_phys_read_def get_phys_mem_range_pmp_def pmp_access_view
        range_dirty host_load_store)
qed

theorem dut_memory_visible_witness:
  "\<exists>b'. dromajo_cosim_override_mem plain_bus 0x80000008 0x1122334455667788 2 sc_board = Some b' \<and>
     riscv_phys_read 2 (hart_view 0 b') 0x80000008 = Some 0x55667788"
proof -
  have "riscv_phys_read 2 (hart_view 0 sc_board) 0x80000008 \<noteq> None"
    using sc_board_view [of 0 "maxinsns sc_board"]
    by (simp add: riscv_phys_read_def get_phys_mem_range_pmp_def riscv_cpu_pmp_access_ok_def access_priv_def del: sc_board_simps(1,2,4-))
  then show ?thesis
    using dut_memory_visible [of sc_board "0x80000008" 0 2 0 plain_bus "0x1122334455667788"] by simp
qed

end
