(* ===== verification/Elf64.thy ===== *)
theory Elf64
  imports Cutils "HOL-Library.Monad_Syntax"
begin

text \<open>
  ELF images (\<open>src/elf64.cpp\<close>).  An image is the list of its bytes; a pointer into it is the
  64-bit offset from its start.  \<open>None\<close> is a read outside of the image.  The layout of the
  structures is that of \<open><elf.h>\<close>.
\<close>

section \<open>Reading the image\<close>

fun img_le :: "u8 list \<Rightarrow> u64 \<Rightarrow> nat \<Rightarrow> u64 option" where
  "img_le img off 0 = Some 0"
| "img_le img off (Suc n) =
     (if unat off < length img
      then map_option (\<lambda>r. ucast (img ! unat off) OR push_bit 8 r) (img_le img (off + 1) n)
      else None)"

abbreviation e_machine :: "u8 list \<Rightarrow> u64 option" where "e_machine img \<equiv> img_le img 18 2"
abbreviation e_entry :: "u8 list \<Rightarrow> u64 option" where "e_entry img \<equiv> img_le img 24 8"
abbreviation e_phoff :: "u8 list \<Rightarrow> u64 option" where "e_phoff img \<equiv> img_le img 32 8"
abbreviation e_shoff :: "u8 list \<Rightarrow> u64 option" where "e_shoff img \<equiv> img_le img 40 8"
abbreviation e_ehsize :: "u8 list \<Rightarrow> u64 option" where "e_ehsize img \<equiv> img_le img 52 2"
abbreviation e_phentsize :: "u8 list \<Rightarrow> u64 option" where "e_phentsize img \<equiv> img_le img 54 2"
abbreviation e_phnum :: "u8 list \<Rightarrow> u64 option" where "e_phnum img \<equiv> img_le img 56 2"
abbreviation e_shnum :: "u8 list \<Rightarrow> u64 option" where "e_shnum img \<equiv> img_le img 60 2"
abbreviation e_shstrndx :: "u8 list \<Rightarrow> u64 option" where "e_shstrndx img \<equiv> img_le img 62 2"

abbreviation (input) SIZEOF_EHDR :: nat where "SIZEOF_EHDR \<equiv> 64"
abbreviation (input) SIZEOF_PHDR :: u64 where "SIZEOF_PHDR \<equiv> 56"
abbreviation (input) SIZEOF_SHDR :: u64 where "SIZEOF_SHDR \<equiv> 64"
abbreviation (input) SIZEOF_SYM :: u64 where "SIZEOF_SYM \<equiv> 24"

section \<open>Headers\<close>

definition elf64_is_riscv64 :: "u8 list \<Rightarrow> bool option" where
  "elf64_is_riscv64 img =
     (if length img < SIZEOF_EHDR then Some False
      else do {
        magic \<leftarrow> img_le img 0 4;
        if magic \<noteq> 0x464c457f then Some False else do {
        cls \<leftarrow> img_le img 4 1;
        if cls \<noteq> 2 then Some False else do {
        dat \<leftarrow> img_le img 5 1;
        if dat \<noteq> 1 then Some False else do {
        machine \<leftarrow> e_machine img;
        if machine \<noteq> 0xf3 then Some False else do {
        ehsize \<leftarrow> e_ehsize img;
        if ehsize \<noteq> of_nat SIZEOF_EHDR then Some False else do {
        phentsize \<leftarrow> e_phentsize img;
        Some (phentsize = SIZEOF_PHDR)}}}}}})"

definition elf64_get_entrypoint :: "u8 list \<Rightarrow> u64 option" where
  "elf64_get_entrypoint img = e_entry img"

section \<open>Symbols\<close>

text \<open>\<open>strcmp (key, p) == 0\<close> for the string at offset \<open>off\<close> of the image.\<close>

fun strcmp_eq :: "u8 list \<Rightarrow> u8 list \<Rightarrow> u64 \<Rightarrow> bool option" where
  "strcmp_eq img [] off = map_option (\<lambda>c. c = 0) (img_le img off 1)"
| "strcmp_eq img (k # ks) off =
     (case img_le img off 1 of
        None \<Rightarrow> None
      | Some c \<Rightarrow> if c = ucast k then strcmp_eq img ks (off + 1) else Some False)"

text \<open>
  The loop over the sections \<open>is\<close>: offsets of the string table and of the symbol table and the
  number of symbols, an \<open>int\<close>.
\<close>

fun find_tables ::
  "u8 list \<Rightarrow> u64 \<Rightarrow> u64 \<Rightarrow> nat list \<Rightarrow> u64 option \<times> (u64 \<times> int) option
     \<Rightarrow> (u64 option \<times> (u64 \<times> int) option) option" where
  "find_tables img shdr shstrndx [] tabs = Some tabs"
| "find_tables img shdr shstrndx (i # is) (strtab, symtab) =
     (let sh = shdr + of_nat i * SIZEOF_SHDR
      in do {
        sh_type \<leftarrow> img_le img (sh + 4) 4;
        strtab \<leftarrow> (if sh_type = 3 \<and> of_nat i \<noteq> shstrndx then map_option Some (img_le img (sh + 24) 8) else Some strtab);
        symtab \<leftarrow> (if sh_type = 2 then do {
            sh_offset \<leftarrow> img_le img (sh + 24) 8;
            sh_size \<leftarrow> img_le img (sh + 32) 8;
            Some (Some (sh_offset, sint (ucast (sh_size div SIZEOF_SYM) :: u32)))}
          else Some symtab);
        find_tables img shdr shstrndx is (strtab, symtab)})"

text \<open>The loop over the symbols \<open>is\<close>.\<close>

fun find_symbol :: "u8 list \<Rightarrow> u8 list \<Rightarrow> u64 \<Rightarrow> u64 \<Rightarrow> nat list \<Rightarrow> u64 option option" where
  "find_symbol img key strtab symtab [] = Some None"
| "find_symbol img key strtab symtab (i # is) =
     (let sym = symtab + of_nat i * SIZEOF_SYM
      in do {
        st_name \<leftarrow> img_le img sym 4;
        same \<leftarrow> strcmp_eq img key (strtab + st_name);
        st_info \<leftarrow> (if same then img_le img (sym + 4) 1 else Some 0);
        if same \<and> drop_bit 4 st_info = 1 then map_option Some (img_le img (sym + 8) 8)
        else find_symbol img key strtab symtab is})"

text \<open>
  The image is at address \<open>base\<close>; the comparisons of pointers with its end are those of
  addresses.  \<open>Some None\<close>: the function returns \<open>false\<close>.
\<close>

definition past_end :: "u64 \<Rightarrow> u8 list \<Rightarrow> u64 \<Rightarrow> bool" where
  "past_end base img off \<longleftrightarrow> base + off > base + of_nat (length img)"

definition elf64_find_global :: "u64 \<Rightarrow> u8 list \<Rightarrow> u8 list \<Rightarrow> u64 option option" where
  "elf64_find_global base img key = do {
     shoff \<leftarrow> e_shoff img;
     if shoff + SIZEOF_SHDR - 1 > of_nat (length img) then Some None else do {
     shstrndx \<leftarrow> e_shstrndx img;
     if past_end base img (shoff + (shstrndx + 1) * SIZEOF_SHDR) then Some None else do {
     shnum \<leftarrow> e_shnum img;
     if past_end base img (shoff + shnum * SIZEOF_SHDR) then Some None else do {
     tabs \<leftarrow> find_tables img shoff shstrndx [0..<unat shnum] (None, None);
     case tabs of
       (Some strtab, Some (symtab, symtab_len)) \<Rightarrow>
         if past_end base img (symtab + of_int symtab_len * SIZEOF_SYM) then Some None
         else find_symbol img key strtab symtab [0..<nat symtab_len]
     | _ \<Rightarrow> Some None}}}}"

end
