(* ===== verification/Boot.thy ===== *)
theory Boot
  imports Elf64 Fdt Board
begin

text \<open>
  Creation of the machine (\<open>src/riscv_machine.cpp\<close>, \<open>copy_kernel\<close> and
  \<open>virt_machine_init\<close>): memory and devices are registered, firmware, kernel and initial RAM disk are
  copied into RAM, the boot ROM and the device tree into ROM.
\<close>

section \<open>Results\<close>

text \<open>
  An error is reported and the creation fails, or the simulator stops: a failed assertion,
  \<open>exit\<close>, or a copy that starts at a null pointer or reads outside of a file.
\<close>

datatype boot_error = Boot_failed | Boot_aborted

definition boot_bind :: "boot_error + 'a \<Rightarrow> ('a \<Rightarrow> boot_error + 'b) \<Rightarrow> boot_error + 'b" where
  "boot_bind r f = (case r of Inl e \<Rightarrow> Inl e | Inr x \<Rightarrow> f x)"

definition or_abort :: "'a option \<Rightarrow> boot_error + 'a" where
  "or_abort r = (case r of None \<Rightarrow> Inl Boot_aborted | Some x \<Rightarrow> Inr x)"

text \<open>Memory map and host memory while the machine is created.\<close>

type_synonym boot_mem = "PhysMemoryMap \<times> host_mem"

definition get_ram_ptr :: "PhysMemoryMap \<Rightarrow> u64 \<Rightarrow> u64 option" where
  "get_ram_ptr mm paddr =
     (case get_phys_mem_range mm paddr of
        None \<Rightarrow> None
      | Some i \<Rightarrow> if pr_is_ram (mm ! i) then Some (range_ptr (mm ! i) paddr) else None)"

text \<open>\<open>memcpy\<close> of the bytes \<open>bs\<close>.\<close>

definition copy_bytes :: "u64 \<Rightarrow> u8 list \<Rightarrow> host_mem \<Rightarrow> host_mem" where
  "copy_bytes ptr bs m = (\<lambda>p. if unat (p - ptr) < length bs then bs ! unat (p - ptr) else m p)"

definition copy_to :: "u64 \<Rightarrow> u8 list \<Rightarrow> boot_mem \<Rightarrow> boot_error + boot_mem" where
  "copy_to paddr bs bm =
     (case get_ram_ptr (fst bm) paddr of
        None \<Rightarrow> if bs = [] then Inr bm else Inl Boot_aborted
      | Some ptr \<Rightarrow> Inr (fst bm, copy_bytes ptr bs (snd bm)))"

text \<open>\<open>alloc n\<close> is the block the host allocator returns for the range with index \<open>n\<close>.\<close>

definition cpu_register_ram :: "(nat \<Rightarrow> u64) \<Rightarrow> u64 \<Rightarrow> u64 \<Rightarrow> boot_mem \<Rightarrow> boot_error + boot_mem" where
  "cpu_register_ram alloc addr sz bm =
     or_abort (default_register_ram (alloc (length (fst bm))) (fst bm) addr sz 0 (snd bm))"

section \<open>Loading\<close>

abbreviation (input) ROM_SIZE :: u64 where "ROM_SIZE \<equiv> 0x1000"
abbreviation (input) ROM_BASE_ADDR :: u64 where "ROM_BASE_ADDR \<equiv> 0x10000"
abbreviation (input) BOOT_BASE_ADDR :: u64 where "BOOT_BASE_ADDR \<equiv> 0x10000"
abbreviation (input) RAM_BASE_ADDR :: u64 where "RAM_BASE_ADDR \<equiv> 0x80000000"
abbreviation (input) KERNEL_OFFSET :: u64 where "KERNEL_OFFSET \<equiv> 0x200000"

text \<open>The bytes of a segment in the file.\<close>

definition img_slice :: "u8 list \<Rightarrow> u64 \<Rightarrow> u64 \<Rightarrow> u8 list option" where
  "img_slice img off n =
     (if unat off + unat n \<le> length img then Some (take (unat n) (drop (unat off) img)) else None)"

definition load_segment ::
  "(nat \<Rightarrow> u64) \<Rightarrow> u8 list \<Rightarrow> u64 \<Rightarrow> bool \<times> boot_mem \<Rightarrow> boot_error + bool \<times> boot_mem" where
  "load_segment alloc img ph st =
     boot_bind (or_abort (img_le img ph 4)) (\<lambda>p_type.
       if p_type \<noteq> 1 then Inr st
       else
         boot_bind (or_abort (img_le img (ph + 40) 8)) (\<lambda>p_memsz.
         boot_bind (or_abort (img_le img (ph + 16) 8)) (\<lambda>p_vaddr.
         let rounded_size = (p_memsz + 0x1000 - 1) AND NOT 0xfff
         in boot_bind
              (if p_vaddr = BOOT_BASE_ADDR then Inr (True, snd st)
               else if p_vaddr \<noteq> RAM_BASE_ADDR
               then boot_bind (cpu_register_ram alloc p_vaddr rounded_size (snd st)) (\<lambda>bm. Inr (fst st, bm))
               else Inr st)
              (\<lambda>st.
                 boot_bind (or_abort (img_le img (ph + 8) 8)) (\<lambda>p_offset.
                 boot_bind (or_abort (img_le img (ph + 32) 8)) (\<lambda>p_filesz.
                 boot_bind (or_abort (img_slice img p_offset p_filesz)) (\<lambda>bs.
                 boot_bind (copy_to p_vaddr bs (snd st)) (\<lambda>bm. Inr (fst st, bm)))))))))"

fun load_segments ::
  "(nat \<Rightarrow> u64) \<Rightarrow> u8 list \<Rightarrow> u64 \<Rightarrow> nat list \<Rightarrow> bool \<times> boot_mem \<Rightarrow> boot_error + bool \<times> boot_mem" where
  "load_segments alloc img phoff [] st = Inr st"
| "load_segments alloc img phoff (i # is) st =
     boot_bind (load_segment alloc img (phoff + of_nat i * SIZEOF_PHDR) st) (load_segments alloc img phoff is)"

text \<open>The flag says whether the image brings its own boot ROM.\<close>

definition load_elf_image :: "(nat \<Rightarrow> u64) \<Rightarrow> u8 list \<Rightarrow> boot_mem \<Rightarrow> boot_error + bool \<times> boot_mem" where
  "load_elf_image alloc img bm =
     boot_bind (or_abort (e_phoff img)) (\<lambda>phoff.
     boot_bind (or_abort (e_phnum img)) (\<lambda>phnum.
     load_segments alloc img phoff [0..<unat phnum] (False, bm)))"

text \<open>The content of the boot ROM file is an argument; \<open>None\<close>: it cannot be opened.\<close>

definition load_bootrom :: "u8 list option \<Rightarrow> boot_mem \<Rightarrow> boot_error + nat \<times> boot_mem" where
  "load_bootrom file bm =
     (case file of
        None \<Rightarrow> Inl Boot_failed
      | Some bs \<Rightarrow> boot_bind (copy_to ROM_BASE_ADDR bs bm) (\<lambda>bm. Inr (length bs, bm)))"

definition bootrom_code :: "nat \<Rightarrow> u64 \<Rightarrow> u32 list" where
  "bootrom_code n ram_base =
     [0xf1402573]
     @ (if n = 1 then [0x00050663, 0x10500073, 0xffdff06f] else [0x00000013, 0x00000013, 0x00000013])
     @ [0x00000597, 0x0f058593, 0x60300413, 0x7b041073]
     @ (if ram_base = 0xc000000000 then [0x0030041b, 0x02641413]
        else if ram_base = 0x80000000 then [0x0010041b, 0x01f41413] else [0x0010041b, 0x02741413])
     @ [0x7b141073, 0x7b200073]"

text \<open>Twelve words are written, the size of thirteen is returned.\<close>

definition generate_bootrom :: "nat \<Rightarrow> u64 \<Rightarrow> boot_mem \<Rightarrow> boot_error + nat \<times> boot_mem" where
  "generate_bootrom n ram_base bm =
     (if ram_base \<noteq> 0x80000000 \<and> ram_base \<noteq> 0x8000000000 \<and> ram_base \<noteq> 0xc000000000 then Inl Boot_failed
      else boot_bind (copy_to ROM_BASE_ADDR (concat (map le32_bytes (bootrom_code n ram_base))) bm) (\<lambda>bm. Inr (52, bm)))"

section \<open>Parameters\<close>

text \<open>
  The fields of \<open>VirtMachineParams\<close> that \<open>virt_machine_init\<close> reads.  Files are given by
  their content: \<open>vp_bootrom\<close> and \<open>vp_dtb\<close> are \<open>None\<close> without the option.
\<close>

record VirtMachineParams =
  vp_ram_base_addr :: u64
  vp_ram_size :: u64
  vp_console :: STDIODevice
  vp_drive_count :: nat
  vp_fs_count :: nat
  vp_eth_count :: nat
  vp_htif_base_addr :: u64
  vp_fromhost_addr :: u64
  vp_cmdline :: "string option"
  vp_input_device :: "string option"
  vp_bios :: "u8 list option"
  vp_kernel :: "u8 list option"
  vp_initrd :: "u8 list option"
  vp_maxinsns :: u64
  vp_bootrom :: "u8 list option option"
  vp_dtb :: "u8 list option"
  vp_compact_bootrom :: bool
  vp_reset_vector :: u64
  vp_ncpus :: nat
  vp_plic_base_addr :: u64
  vp_plic_size :: u64
  vp_clint_base_addr :: u64
  vp_clint_size :: u64
  vp_custom_extension :: bool
  vp_clear_ids :: bool
  vp_physical_addr_len :: nat

definition virt_machine_set_defaults :: "STDIODevice \<Rightarrow> VirtMachineParams" where
  "virt_machine_set_defaults console =
     \<lparr>vp_ram_base_addr = RAM_BASE_ADDR, vp_ram_size = 0, vp_console = console, vp_drive_count = 0, vp_fs_count = 0,
      vp_eth_count = 0, vp_htif_base_addr = 0, vp_fromhost_addr = 0, vp_cmdline = None, vp_input_device = None,
      vp_bios = None, vp_kernel = None, vp_initrd = None, vp_maxinsns = 0, vp_bootrom = None, vp_dtb = None,
      vp_compact_bootrom = False, vp_reset_vector = BOOT_BASE_ADDR, vp_ncpus = 0, vp_plic_base_addr = 0x10000000,
      vp_plic_size = 0x2000000, vp_clint_base_addr = 0x02000000, vp_clint_size = 0xc0000, vp_custom_extension = False,
      vp_clear_ids = False, vp_physical_addr_len = 40\<rparr>"

text \<open>The simulator is started with an ELF file instead of a configuration file.\<close>

definition load_elf_and_fake_the_config :: "u64 \<Rightarrow> u8 list \<Rightarrow> VirtMachineParams \<Rightarrow> (bool \<times> VirtMachineParams) option" where
  "load_elf_and_fake_the_config base buf p = do {
     elf \<leftarrow> elf64_is_riscv64 buf;
     if \<not> elf then Some (False, p) else do {
     entry \<leftarrow> elf64_get_entrypoint buf;
     tohost \<leftarrow> elf64_find_global base buf (map of_char ''tohost'');
     fromhost \<leftarrow> elf64_find_global base buf (map of_char ''fromhost'');
     Some (True, p\<lparr>vp_bios := Some buf, vp_ram_size := push_bit 20 256, vp_ram_base_addr := entry,
       vp_htif_base_addr := (case tohost of None \<Rightarrow> vp_htif_base_addr p | Some a \<Rightarrow> a),
       vp_fromhost_addr := (case fromhost of None \<Rightarrow> vp_fromhost_addr p | Some a \<Rightarrow> a)\<rparr>)}}"

section \<open>Copying the files\<close>

definition virtio_count :: "VirtMachineParams \<Rightarrow> nat" where
  "virtio_count p = vp_eth_count p + vp_drive_count p + vp_fs_count p + (if vp_input_device p = None then 0 else 2)"

definition fdt_params_of :: "VirtMachineParams \<Rightarrow> u64 \<Rightarrow> u64 \<Rightarrow> fdt_params" where
  "fdt_params_of p initrd_start initrd_end =
     \<lparr>f_ncpus = vp_ncpus p,
      f_misa = (\<lambda>i. misa (riscv_cpu_init (vp_reset_vector p) (vp_custom_extension p) (vp_clear_ids p) (of_nat i))),
      f_ram_base = vp_ram_base_addr p, f_ram_size = vp_ram_size p,
      f_clint_base = vp_clint_base_addr p, f_clint_size = vp_clint_size p,
      f_plic_base = vp_plic_base_addr p, f_plic_size = vp_plic_size p,
      f_virtio_count = virtio_count p, f_fb_dev = None, f_cmd_line = vp_cmdline p,
      f_initrd_start = initrd_start, f_initrd_end = initrd_end\<rparr>"

definition load_firmware ::
  "(nat \<Rightarrow> u64) \<Rightarrow> VirtMachineParams \<Rightarrow> u8 list \<Rightarrow> boot_mem \<Rightarrow> boot_error + bool \<times> boot_mem" where
  "load_firmware alloc p fw bm =
     boot_bind (or_abort (elf64_is_riscv64 fw)) (\<lambda>elf.
       if elf then
         boot_bind (load_elf_image alloc fw bm) (\<lambda>(has_bootrom, bm).
         boot_bind (or_abort (elf64_get_entrypoint fw)) (\<lambda>entry.
           if \<not> has_bootrom \<and> entry \<noteq> vp_ram_base_addr p then Inl Boot_failed else Inr (has_bootrom, bm)))
       else boot_bind (copy_to (vp_ram_base_addr p) fw bm) (\<lambda>bm. Inr (False, bm)))"

definition load_kernel :: "VirtMachineParams \<Rightarrow> boot_mem \<Rightarrow> boot_error + boot_mem" where
  "load_kernel p bm =
     (case vp_kernel p of
        None \<Rightarrow> Inr bm
      | Some [] \<Rightarrow> Inr bm
      | Some bs \<Rightarrow>
          if vp_ram_size p \<le> KERNEL_OFFSET then Inl Boot_failed
          else if unat (vp_ram_size p - KERNEL_OFFSET) < length bs then Inl Boot_failed
          else copy_to (vp_ram_base_addr p + KERNEL_OFFSET) bs bm)"

text \<open>The result contains \<open>initrd_start\<close> and \<open>initrd_end\<close>.\<close>

definition load_initrd :: "VirtMachineParams \<Rightarrow> boot_mem \<Rightarrow> boot_error + (u64 \<times> u64) \<times> boot_mem" where
  "load_initrd p bm =
     (case vp_initrd p of
        None \<Rightarrow> Inr ((0, 0), bm)
      | Some [] \<Rightarrow> Inr ((0, 0), bm)
      | Some bs \<Rightarrow>
          if unat (vp_ram_size p) < length bs then Inl Boot_failed
          else
            let initrd_end = vp_ram_base_addr p + vp_ram_size p;
                initrd_start = push_bit 12 (drop_bit 12 (initrd_end - of_nat (length bs)))
            in boot_bind (copy_to initrd_start bs bm) (\<lambda>bm. Inr ((initrd_start, initrd_end), bm)))"

definition setup_rom :: "VirtMachineParams \<Rightarrow> u64 \<times> u64 \<Rightarrow> boot_mem \<Rightarrow> boot_error + boot_mem" where
  "setup_rom p initrd bm =
     boot_bind (case vp_bootrom p of
                  Some file \<Rightarrow> load_bootrom file bm
                | None \<Rightarrow> generate_bootrom (vp_ncpus p) (vp_ram_base_addr p) bm) (\<lambda>(n, bm).
     let fdt_off = (if vp_compact_bootrom p then n else 256)
     in boot_bind (or_abort (get_ram_ptr (fst bm) ROM_BASE_ADDR)) (\<lambda>ptr.
        boot_bind (or_abort (riscv_build_fdt (vp_dtb p) (fdt_params_of p (fst initrd) (snd initrd)))) (\<lambda>blob.
        Inr (fst bm, copy_bytes (ptr + of_nat fdt_off) blob (snd bm)))))"

text \<open>\<open>copy_kernel\<close>; the harts enter debug mode in \<open>board_init\<close>.\<close>

definition copy_kernel :: "(nat \<Rightarrow> u64) \<Rightarrow> VirtMachineParams \<Rightarrow> u8 list \<Rightarrow> boot_mem \<Rightarrow> boot_error + boot_mem" where
  "copy_kernel alloc p fw bm =
     (if unat (vp_ram_size p) < length fw then Inl Boot_failed
      else
        boot_bind (load_firmware alloc p fw bm) (\<lambda>(has_bootrom, bm).
        boot_bind (load_kernel p bm) (\<lambda>bm.
        boot_bind (load_initrd p bm) (\<lambda>(initrd, bm).
        if has_bootrom then Inr bm else setup_rom p initrd bm))))"

section \<open>The machine\<close>

text \<open>
  The MMIO branch of \<open>virtio_init\<close>, called for each device with the next address and interrupt line;
  the callbacks are numbered from 4 on.
\<close>

fun register_virtio :: "nat list \<Rightarrow> PhysMemoryMap \<Rightarrow> PhysMemoryMap option" where
  "register_virtio [] mm = Some mm"
| "register_virtio (i # is) mm =
     Option.bind (cpu_register_device mm (VIRTIO_BASE_ADDR + of_nat i * VIRTIO_SIZE) 4096 (4 + i) DEVIO_ALL)
       (register_virtio is)"

definition virt_machine_init :: "(nat \<Rightarrow> u64) \<Rightarrow> host_mem \<Rightarrow> VirtMachineParams \<Rightarrow> boot_error + Board" where
  "virt_machine_init alloc mem p =
     (if 8 < vp_ncpus p then Inl Boot_failed
      else
        boot_bind (cpu_register_ram alloc (vp_ram_base_addr p) (vp_ram_size p) (phys_mem_map_init, mem)) (\<lambda>bm.
        boot_bind (cpu_register_ram alloc ROM_BASE_ADDR ROM_SIZE bm) (\<lambda>bm.
        boot_bind (or_abort (register_devices (vp_clint_base_addr p) (vp_clint_size p) (vp_plic_base_addr p)
                               (vp_plic_size p) (fst bm))) (\<lambda>mm.
        boot_bind (or_abort (register_virtio [0..<vp_eth_count p + vp_drive_count p + vp_fs_count p] mm)) (\<lambda>mm.
        boot_bind
          (case vp_input_device p of
             None \<Rightarrow> Inr mm
           | Some dev \<Rightarrow>
               if dev = ''virtio''
               then or_abort (register_virtio [virtio_count p - 2..<virtio_count p] mm)
               else Inl Boot_failed) (\<lambda>mm.
        case vp_bios p of
          None \<Rightarrow> Inl Boot_failed
        | Some fw \<Rightarrow>
            boot_bind (copy_kernel alloc p fw (mm, snd bm)) (\<lambda>(mm, mem).
            or_abort (board_init (vp_ncpus p) (vp_reset_vector p) (vp_custom_extension p) (vp_clear_ids p)
              (vp_physical_addr_len p) mem mm (vp_console p) (vp_htif_base_addr p) (vp_fromhost_addr p) (vp_maxinsns p)))))))))"

end
