(* ===== verification/Boot_Run.thy ===== *)
theory Boot_Run
  imports Boot Board_Props
begin

text \<open>
  Execution of the generated boot ROM on a hart: single steps of \<open>riscv_cpu_interp64\<close> in machine
  and debug mode out of the boot ROM, and the composition of the twelve instructions.
\<close>

section \<open>Fetching from the boot ROM\<close>

text \<open>
  What stays the same while the boot ROM runs: machine mode, debug mode, no interrupt, no PMP entry,
  memory \<open>r\<close> and map \<open>mm\<close> with the boot ROM at host address \<open>ptr\<close>, and a code TLB that
  agrees with it.
\<close>

definition rom_at :: "PhysMemoryMap \<Rightarrow> nat \<Rightarrow> u64 \<Rightarrow> bool" where
  "rom_at mm k ptr \<longleftrightarrow> pr_is_ram (mm ! k) \<and> ptr \<le> - 0x1000 \<and>
     (\<forall>a. a AND NOT PG_MASK = 0x10000 \<longrightarrow> get_phys_mem_range mm a = Some k \<and> range_ptr (mm ! k) a = ptr + (a - 0x10000))"

definition booting ::
  "host_mem \<Rightarrow> PhysMemoryMap \<Rightarrow> nat \<Rightarrow> u64 \<Rightarrow> ('d, 'z) RISCVMachine_scheme \<Rightarrow> bool" where
  "booting r mm k ptr m \<longleftrightarrow> priv m = PRV_M \<and> debug_mode m \<and> pmp_n m = 0 \<and> mip m AND mie m = 0 \<and>
     17 \<le> physical_addr_len m \<and> physical_addr_len m \<le> 64 \<and> ram m = r \<and> mem_map m = mm \<and> rom_at mm k ptr \<and>
     (tlb_vaddr (tlb_code m 16) = 0x10000 \<longrightarrow> tlb_mem_addend (tlb_code m 16) = ptr - 0x10000)"

text \<open>The registers the boot ROM works with.\<close>

definition boot_regs :: "('d, 'z) RISCVMachine_scheme \<Rightarrow> (nat \<Rightarrow> u64) \<times> u64 \<times> u64 \<times> u64 \<times> u32" where
  "boot_regs m = (reg m, dcsr m, dpc m, mhartid m, misa m)"

text \<open>The state in which the instruction at \<open>pc\<close> is executed.\<close>

definition fetched :: "u64 \<Rightarrow> ('d, 'z) RISCVMachine_scheme \<Rightarrow> ('d, 'z) RISCVMachine_scheme" where
  "fetched ptr m =
     (let m = m\<lparr>most_recently_written_reg := - 1, most_recently_written_fp_reg := - 1, info := ctf_nop,
            pending_exception := - 1, pc := pc m\<rparr>
      in if tlb_vaddr (tlb_code m 16) = 0x10000 then m
         else m\<lparr>tlb_code := (tlb_code m)(16 := \<lparr>tlb_vaddr = 0x10000, tlb_mem_addend = ptr - 0x10000\<rparr>),
                tlb_code_paddr_addend := (tlb_code_paddr_addend m)(16 := 0)\<rparr>)"

lemma drop_bit_small_word:
  fixes a :: u64
  assumes "unat a < 2 ^ 17" "17 \<le> n"
  shows "drop_bit n a = 0"
proof -
  have "(2::nat) ^ 17 \<le> 2 ^ n" using assms(2) by (intro power_increasing) simp_all
  moreover have "unat (drop_bit n a) = unat a div 2 ^ n" by (subst unat_drop_bit_eq) (rule drop_bit_eq_div)
  ultimately have "unat (drop_bit n a) = 0" using assms(1) by simp
  then show ?thesis by (simp only: unat_eq_zero)
qed

lemma rom_slow_fetch:
  assumes "booting r mm k ptr m" "a AND NOT PG_MASK = 0x10000" "tlb_index a = 16" "tlb_index (a + 2) = 16" "unat a < 2 ^ 17"
  shows "target_read_insn_slow 32 a m =
    (Some (get_le32 r (ptr + (a - 0x10000))),
     m\<lparr>tlb_code := (tlb_code m)(16 := \<lparr>tlb_vaddr = 0x10000, tlb_mem_addend = ptr - 0x10000\<rparr>),
       tlb_code_paddr_addend := (tlb_code_paddr_addend m)(16 := 0)\<rparr>)"
proof -
  have d: "drop_bit (physical_addr_len m) a = 0" "drop_bit (physical_addr_len m) (0x10000 :: u64) = 0"
    using assms(1,5) by (simp_all add: booting_def drop_bit_small_word)
  have g: "get_phys_mem_range mm a = Some k" "range_ptr (mm ! k) a = ptr + (a - 0x10000)" "pr_is_ram (mm ! k)"
    using assms(1,2) by (simp_all add: booting_def rom_at_def)
  have p: "ptr + (a - 0x10000) - a = ptr - 0x10000" by simp
  show ?thesis
    using assms(1-4) d g p
    by (simp add: booting_def target_read_insn_slow_def riscv_cpu_get_phys_addr_def access_priv_def fetch_range_def
      get_phys_mem_range_pmp_def riscv_cpu_pmp_access_ok_def Let_def)
qed

lemma word_less_offset: "d < 0xffe \<Longrightarrow> ptr \<le> - 0x1000 \<Longrightarrow> ptr + d < ptr + (0xffe :: u64)"
  by (uint_arith, simp)

lemma fetch_tlb_hit:
  assumes "tlb_vaddr (tlb_code m (tlb_index (pc m))) = pc m AND NOT PG_MASK"
    and "q = tlb_mem_addend (tlb_code m (tlb_index (pc m))) + pc m"
    and "c = tlb_mem_addend (tlb_code m (tlb_index (pc m))) + ((pc m AND NOT PG_MASK) + PG_MASK - 1)" and "q < c"
  shows "fetch_tlb lo m = (Inr (get_le32 (ram m) q), lo\<lparr>code_ptr := q, code_end := c, code_to_pc_addend := pc m - q\<rparr>, m)"
  unfolding fetch_tlb_def Let_def if_P [OF assms(1)] assms(2,3) [symmetric] using assms(4) by (simp add: not_le [symmetric])

lemma rom_fetch:
  assumes "booting r mm k ptr m" "pc m AND NOT PG_MASK = 0x10000" "tlb_index (pc m) = 16" "tlb_index (pc m + 2) = 16" "unat (pc m) < 2 ^ 17"
    and "pc m - 0x10000 < 0xffe" "code_ptr lo = 0" "code_end lo = 0" "code_to_pc_addend lo = pc m"
  shows "\<exists>lo'. fetch_insn lo m = (Inr (get_le32 r (ptr + (pc m - 0x10000))), lo',
      if tlb_vaddr (tlb_code m 16) = 0x10000 then m
         else m\<lparr>tlb_code := (tlb_code m)(16 := \<lparr>tlb_vaddr = 0x10000, tlb_mem_addend = ptr - 0x10000\<rparr>),
                tlb_code_paddr_addend := (tlb_code_paddr_addend m)(16 := 0)\<rparr>) \<and>
     GET_PC lo' = pc m \<and> insn_counter_addend lo' = insn_counter_addend lo \<and> insn_counter_start lo' = insn_counter_start lo \<and>
     insn_executed lo' = insn_executed lo"
proof (cases "tlb_vaddr (tlb_code m 16) = 0x10000")
  case True
  then have t: "tlb_mem_addend (tlb_code m 16) = ptr - 0x10000" using assms(1) by (simp add: booting_def)
  have ptr: "ptr \<le> - 0x1000" using assms(1) by (simp add: booting_def rom_at_def)
  define d where "d = pc m - 0x10000"
  have d: "pc m = 0x10000 + d" "d < 0xffe" using assms(6) by (simp_all add: d_def)
  have lt: "ptr + d < ptr + 0xffe" by (rule word_less_offset [OF d(2) ptr])
  let ?lo = "lo\<lparr>code_ptr := ptr + d, code_end := ptr + 0xffe, code_to_pc_addend := 0x10000 - ptr\<rparr>"
  have "fetch_tlb lo m = (Inr (get_le32 (ram m) (ptr + d)), ?lo, m)"
    using fetch_tlb_hit [of m "ptr + d" "ptr + 0xffe" lo] True lt t assms(2,3) d(1) by (simp add: add.commute)
  then have "fetch_insn lo m = (Inr (get_le32 r (ptr + (pc m - 0x10000))), ?lo, m)"
    using assms(1,7,8) by (simp add: booting_def fetch_insn_def interrupts_enabled_def d_def)
  moreover have "GET_PC ?lo = pc m" by (simp add: GET_PC_def d(1))
  ultimately show ?thesis using True by (intro exI [of _ ?lo]) simp
next
  case False
  then show ?thesis
    using assms rom_slow_fetch [OF assms(1-5)]
    by (auto simp: booting_def fetch_insn_def interrupts_enabled_def fetch_tlb_def Let_def GET_PC_def)
qed

section \<open>Single steps\<close>

definition rom_pc :: "u64 \<Rightarrow> bool" where
  "rom_pc a \<longleftrightarrow> a AND NOT PG_MASK = 0x10000 \<and> tlb_index a = 16 \<and> tlb_index (a + 2) = 16 \<and> unat a < 2 ^ 17 \<and> a - 0x10000 < 0xffe"

text \<open>The update of the counters after one instruction.\<close>

definition counted :: "u64 \<Rightarrow> 'z RISCVCPUState_scheme \<Rightarrow> 'z RISCVCPUState_scheme" where
  "counted c s =
     (let s = s\<lparr>insn_counter := c + 1\<rparr>
      in if stop_the_counter s then s else s\<lparr>mcycle := mcycle s + 1, minstret := minstret s + 1\<rparr>)"

lemma update_counters_1: "update_counters (c + 1) c s = Some (counted c s)"
  by (simp add: update_counters_def counted_def Let_def word_sless_alt)

lemma boot_step:
  assumes "booting r mm k ptr m" "rom_pc (pc m)"
    and ex: "exec_insn e (insn_counter m) (insn_counter m) (pc m) (get_le32 r (ptr + (pc m - 0x10000))) (fetched ptr m) = (out, n)"
  shows "out = NEXT_INSN \<Longrightarrow> riscv_cpu_interp64 e 1 m = Some (1, counted (insn_counter m) (n\<lparr>pc := pc m + 4\<rparr>))"
    and "out = JUMP_INSN kind \<Longrightarrow> riscv_cpu_interp64 e 1 m = Some (1, counted (insn_counter m) (n\<lparr>info := kind, next_addr := pc n\<rparr>))"
    and "out = DONE_INTERP \<Longrightarrow> riscv_cpu_interp64 e 1 m = Some (1, counted (insn_counter m) n)"
proof -
  let ?c = "insn_counter m"
  let ?m = "m\<lparr>most_recently_written_reg := - 1, most_recently_written_fp_reg := - 1, info := ctf_nop, pending_exception := - 1, pc := pc m\<rparr>"
  let ?lo = "\<lparr>code_ptr = 0, code_end = 0, code_to_pc_addend = pc m, insn_counter_addend = ?c + 1, insn_counter_start = ?c, insn_executed = 0\<rparr>"
  have b: "booting r mm k ptr ?m" using assms(1) by (simp add: booting_def)
  obtain lo where lo: "fetch_insn (?lo\<lparr>insn_executed := 1\<rparr>) ?m = (Inr (get_le32 r (ptr + (pc m - 0x10000))), lo, fetched ptr m)"
    "GET_PC lo = pc m" "insn_counter_addend lo = ?c + 1" "insn_counter_start lo = ?c" "insn_executed lo = 1"
    using rom_fetch [OF b, of "?lo\<lparr>insn_executed := 1\<rparr>"] assms(2) by (auto simp: rom_pc_def fetched_def Let_def)
  have tr: "check_triggers MCONTROL_EXECUTE (pc m) ?m = (False, ?m)" using assms(1) by (simp add: booting_def check_triggers_def)
  have body: "interp_body e 1 ?lo ?m = (out, lo, n)"
    using tr lo ex by (simp add: interp_body_def GET_INSN_COUNTER_def Let_def)
  have run: "riscv_cpu_interp64 e 1 m = (case advance out lo n of Some (lo, m) \<Rightarrow> interp_loop e 1 lo m | None \<Rightarrow> leave_loop out 1 lo n)"
  proof -
    have "riscv_cpu_interp64 e 1 m = interp_loop e (Suc 1) ?lo ?m"
      using assms(1) by (simp add: riscv_cpu_interp64_def interrupts_enabled_def booting_def numeral_2_eq_2 Let_def)
    also have "\<dots> = (case interp_body e 1 ?lo ?m of (out, lo, m) \<Rightarrow>
        (case advance out lo m of Some (lo, m) \<Rightarrow> interp_loop e 1 lo m | None \<Rightarrow> leave_loop out 1 lo m))"
      by (simp only: interp_loop.simps(2)) (simp add: GET_PC_def)
    finally show ?thesis by (simp only: body prod.case)
  qed
  have pc: "code_ptr lo + 4 + code_to_pc_addend lo = pc m + 4" using lo(2) by (simp add: GET_PC_def algebra_simps)
  show "riscv_cpu_interp64 e 1 m = Some (1, counted ?c (n\<lparr>pc := pc m + 4\<rparr>))" if "out = NEXT_INSN"
    unfolding run using that lo(3-5) by (simp add: pc advance_def the_end_def GET_INSN_COUNTER_def GET_PC_def update_counters_1)
  show "riscv_cpu_interp64 e 1 m = Some (1, counted ?c (n\<lparr>info := kind, next_addr := pc n\<rparr>))" if "out = JUMP_INSN kind"
    unfolding run using that lo(3-5) by (simp add: advance_def the_end_def GET_INSN_COUNTER_def GET_PC_def update_counters_1)
  show "riscv_cpu_interp64 e 1 m = Some (1, counted ?c n)" if "out = DONE_INTERP"
    unfolding run using that lo(3-5) by (simp add: advance_def leave_loop_def the_end_def GET_INSN_COUNTER_def update_counters_1)
qed

lemma booting_fetched: "booting r mm k ptr m \<Longrightarrow> booting r mm k ptr (fetched ptr m)"
  by (simp add: booting_def fetched_def Let_def)

lemma boot_regs_fetched: "boot_regs (fetched ptr m) = boot_regs m"
  by (simp add: boot_regs_def fetched_def Let_def)

lemma booting_counted: "booting r mm k ptr (counted c m) = booting r mm k ptr m" "boot_regs (counted c m) = boot_regs m" "pc (counted c m) = pc m"
  by (simp_all add: booting_def boot_regs_def counted_def Let_def)

lemma booting_pc:
  "booting r mm k ptr (m\<lparr>pc := a\<rparr>) = booting r mm k ptr m" "boot_regs (m\<lparr>pc := a\<rparr>) = boot_regs m"
  "booting r mm k ptr (m\<lparr>info := i, next_addr := a\<rparr>) = booting r mm k ptr m" "boot_regs (m\<lparr>info := i, next_addr := a\<rparr>) = boot_regs m"
  by (simp_all add: booting_def boot_regs_def)

lemma booting_write_rd:
  "booting r mm k ptr (write_rd rd v m) = booting r mm k ptr m"
  "boot_regs (write_rd rd v m) = (if rd = 0 then boot_regs m else ((reg m)(rd := v), dcsr m, dpc m, mhartid m, misa m))"
  by (simp_all add: booting_def boot_regs_def write_rd_def write_reg_def)

text \<open>One instruction that does not jump.\<close>

lemma boot_advance:
  assumes "booting r mm k ptr m" "rom_pc (pc m)" "get_le32 r (ptr + (pc m - 0x10000)) = insn"
    and ex: "\<And>n c. booting r mm k ptr n \<Longrightarrow> boot_regs n = boot_regs m \<Longrightarrow>
      \<exists>n'. exec_insn e c c (pc m) insn n = (NEXT_INSN, n') \<and> booting r mm k ptr n' \<and> boot_regs n' = R"
  shows "\<exists>m'. riscv_cpu_interp64 e 1 m = Some (1, m') \<and> booting r mm k ptr m' \<and> pc m' = pc m + 4 \<and> boot_regs m' = R"
proof -
  obtain n where n: "exec_insn e (insn_counter m) (insn_counter m) (pc m) insn (fetched ptr m) = (NEXT_INSN, n)"
    "booting r mm k ptr n" "boot_regs n = R"
    using ex [OF booting_fetched [OF assms(1)] boot_regs_fetched] by blast
  then show ?thesis
    using boot_step(1) [OF assms(1,2), of e NEXT_INSN n] assms(3) by (simp add: booting_counted booting_pc)
qed

lemma boot_jump:
  assumes "booting r mm k ptr m" "rom_pc (pc m)" "get_le32 r (ptr + (pc m - 0x10000)) = insn"
    and ex: "\<And>n c. booting r mm k ptr n \<Longrightarrow> boot_regs n = boot_regs m \<Longrightarrow> exec_insn e c c (pc m) insn n = (JUMP_INSN kind, n\<lparr>pc := a\<rparr>)"
  shows "\<exists>m'. riscv_cpu_interp64 e 1 m = Some (1, m') \<and> booting r mm k ptr m' \<and> pc m' = a \<and> boot_regs m' = boot_regs m"
  using boot_step(2) [OF assms(1,2), of e "JUMP_INSN kind" "(fetched ptr m)\<lparr>pc := a\<rparr>" kind]
    ex [OF booting_fetched [OF assms(1)] boot_regs_fetched] assms(1,3)
  by (simp add: booting_counted booting_pc booting_fetched boot_regs_fetched)

section \<open>The instructions of the boot ROM\<close>

lemmas exec_simps = exec_insn_def exec_base_def insn_opcode_def insn_rd_def insn_rs1_def insn_rs2_def insn_funct3_def imm_i_def
  exec_arith_def exec_auipc_def op_imm_def op_imm_32_def

lemma counters_booting:
  assumes "booting r mm k ptr n"
  shows "\<exists>n'. update_counters c c n = Some n' \<and> booting r mm k ptr n' \<and> boot_regs n' = boot_regs n"
  using assms by (simp add: update_counters_def Let_def booting_def boot_regs_def)

lemma exec_csrr_mhartid:
  assumes "booting r mm k ptr n" "hook_csr_read e = None"
  shows "\<exists>n'. exec_insn e c c gpc 0xf1402573 n = (NEXT_INSN, n') \<and> booting r mm k ptr n' \<and>
    boot_regs n' = ((reg n)(10 := mhartid n), dcsr n, dpc n, mhartid n, misa n)"
proof -
  obtain a where u: "update_counters c c n = Some a" "booting r mm k ptr a" "boot_regs a = boot_regs n"
    using counters_booting [OF assms(1)] by blast
  have "priv a = PRV_M" using u(2) by (simp add: booting_def)
  then have "csr_read e 2 0xf14 False a = (Some (mhartid a), a)"
    using assms(2) by (simp add: csr_read_def csr_read_switch_def)
  then show ?thesis
    using u by (simp add: exec_simps exec_system_def exec_csr_def csr_finish_def booting_write_rd) (simp add: boot_regs_def)
qed

lemma exec_csrw_debug:
  assumes "booting r mm k ptr n" "hook_csr_read e = None" "hook_csr_write e = None"
  shows "\<exists>n'. exec_insn e c c gpc 0x7b041073 n = (NEXT_INSN, n') \<and> booting r mm k ptr n' \<and>
      boot_regs n' = (reg n, (dcsr n AND NOT 0x603) OR (reg n 8 AND 0x603), dpc n, mhartid n, misa n)"
    and "\<exists>n'. exec_insn e c c gpc 0x7b141073 n = (NEXT_INSN, n') \<and> booting r mm k ptr n' \<and>
      boot_regs n' = (reg n, dcsr n, reg n 8 AND pc_align_mask n, mhartid n, misa n)"
proof -
  obtain a where u: "update_counters c c n = Some a" "booting r mm k ptr a" "boot_regs a = boot_regs n"
    using counters_booting [OF assms(1)] by blast
  have a: "priv a = PRV_M" "debug_mode a" using u(2) by (simp_all add: booting_def)
  have "csr_read e 1 0x7b0 True a = (Some (dcsr a), a)" "csr_read e 1 0x7b1 True a = (Some (dpc a), a)"
    "csr_write e 1 0x7b0 v a = (0, write_dcsr v a)" "csr_write e 1 0x7b1 v a = (0, a\<lparr>dpc := v AND pc_align_mask a\<rparr>)" for v
    using a assms(2,3) by (simp_all add: csr_read_def csr_read_switch_def csr_write_def csr_write_switch_def csr_write_dbg_def)
  moreover have "booting r mm k ptr (write_dcsr v a)" "booting r mm k ptr (a\<lparr>dpc := v\<rparr>)" for v
    using u(2) by (simp_all add: booting_def write_dcsr_def Let_def)
  ultimately show "\<exists>n'. exec_insn e c c gpc 0x7b041073 n = (NEXT_INSN, n') \<and> booting r mm k ptr n' \<and>
      boot_regs n' = (reg n, (dcsr n AND NOT 0x603) OR (reg n 8 AND 0x603), dpc n, mhartid n, misa n)"
    and "\<exists>n'. exec_insn e c c gpc 0x7b141073 n = (NEXT_INSN, n') \<and> booting r mm k ptr n' \<and>
      boot_regs n' = (reg n, dcsr n, reg n 8 AND pc_align_mask n, mhartid n, misa n)"
    using u by (simp_all add: exec_simps exec_system_def exec_csr_def csr_finish_def write_rd_def)
      (simp_all add: boot_regs_def write_dcsr_def Let_def pc_align_mask_def)
qed

lemma exec_boot_alu:
  "exec_insn e c c' gpc 0x00000013 n = (NEXT_INSN, n)"
  "exec_insn e c c' gpc 0x00000597 n = (NEXT_INSN, write_rd 11 gpc n)"
  "exec_insn e c c' gpc 0x0f058593 n = (NEXT_INSN, write_rd 11 (reg n 11 + 240) n)"
  "exec_insn e c c' gpc 0x60300413 n = (NEXT_INSN, write_rd 8 (reg n 0 + 1539) n)"
  "exec_insn e c c' gpc 0x0030041b n = (NEXT_INSN, write_rd 8 (sext32 (reg n 0 + 3)) n)"
  "exec_insn e c c' gpc 0x0010041b n = (NEXT_INSN, write_rd 8 (sext32 (reg n 0 + 1)) n)"
  "exec_insn e c c' gpc 0x02641413 n = (NEXT_INSN, write_rd 8 (push_bit 38 (reg n 8)) n)"
  "exec_insn e c c' gpc 0x01f41413 n = (NEXT_INSN, write_rd 8 (push_bit 31 (reg n 8)) n)"
  "exec_insn e c c' gpc 0x02741413 n = (NEXT_INSN, write_rd 8 (push_bit 39 (reg n 8)) n)"
  by (simp_all add: exec_simps write_rd_def)

lemma exec_beqz:
  assumes "reg n 10 = reg n 0"
  shows "exec_insn e c c' 0x10004 0x00050663 n = (JUMP_INSN ctf_taken_branch, n\<lparr>pc := 0x10010\<rparr>)"
  using assms by (simp add: exec_simps exec_branch_def branch_cond_def imm_b_def misaligned_target_def jump_to_def Let_def)

lemma exec_dret:
  assumes "booting r mm k ptr n" "dcsr n AND 3 = 3"
  shows "\<exists>n'. exec_insn e c c' gpc 0x7b200073 n = (DONE_INTERP, n') \<and> boot_regs n' = boot_regs n \<and> pc n' = dpc n \<and>
    priv n' = PRV_M \<and> \<not> debug_mode n' \<and> ram n' = r \<and> mem_map n' = mm"
  using assms by (simp add: exec_simps exec_system_def exec_priv_def handle_dret_def set_priv_def boot_regs_def booting_def)

section \<open>Running the boot ROM\<close>

text \<open>Instructions executed one at a time, as the main loop does.\<close>

fun single_steps ::
  "('d, 'z) RISCVMachine_scheme cpu_env \<Rightarrow> nat \<Rightarrow> ('d, 'z) RISCVMachine_scheme \<Rightarrow> ('d, 'z) RISCVMachine_scheme option" where
  "single_steps e 0 m = Some m"
| "single_steps e (Suc j) m = (case riscv_cpu_interp64 e 1 m of None \<Rightarrow> None | Some (_, m) \<Rightarrow> single_steps e j m)"

definition boot_at ::
  "host_mem \<Rightarrow> PhysMemoryMap \<Rightarrow> nat \<Rightarrow> u64 \<Rightarrow> u64 \<Rightarrow> (nat \<Rightarrow> u64) \<times> u64 \<times> u64 \<times> u64 \<times> u32 \<Rightarrow> ('d, 'z) RISCVMachine_scheme \<Rightarrow> bool" where
  "boot_at r mm k ptr a R m \<longleftrightarrow> booting r mm k ptr m \<and> pc m = a \<and> boot_regs m = R"

definition rom_word :: "host_mem \<Rightarrow> u64 \<Rightarrow> u64 \<Rightarrow> u32 \<Rightarrow> bool" where
  "rom_word r ptr a insn \<longleftrightarrow> rom_pc a \<and> get_le32 r (ptr + (a - 0x10000)) = insn"

definition steps_to :: "('d, 'z) RISCVMachine_scheme cpu_env \<Rightarrow> ('d, 'z) RISCVMachine_scheme \<Rightarrow> ('d, 'z) RISCVMachine_scheme \<Rightarrow> bool" where
  "steps_to e m m' \<longleftrightarrow> riscv_cpu_interp64 e 1 m = Some (1, m')"

lemma at_step:
  assumes "boot_at r mm k ptr a R m" "rom_word r ptr a insn"
    and "\<And>n c. booting r mm k ptr n \<Longrightarrow> boot_regs n = R \<Longrightarrow>
      \<exists>n'. exec_insn e c c a insn n = (NEXT_INSN, n') \<and> booting r mm k ptr n' \<and> boot_regs n' = R'"
  obtains m' where "steps_to e m m'" "boot_at r mm k ptr (a + 4) R' m'"
  using boot_advance [of r mm k ptr m insn e R'] assms
  by (fastforce simp: boot_at_def rom_word_def steps_to_def)

lemma at_alu:
  fixes e :: "('d, 'z) RISCVMachine_scheme cpu_env"
  assumes "boot_at r mm k ptr a (x, R) m" "rom_word r ptr a insn"
    and ex: "\<And>n c. exec_insn e c c a insn n = (NEXT_INSN, write_rd rd (f (reg n)) n)" and "rd \<noteq> 0"
  obtains m' where "steps_to e m m'" "boot_at r mm k ptr (a + 4) (x(rd := f x), R) m'"
proof (rule at_step [OF assms(1,2)])
  fix n :: "('d, 'z) RISCVMachine_scheme" and c assume n: "booting r mm k ptr n" "boot_regs n = (x, R)"
  then show "\<exists>n'. exec_insn e c c a insn n = (NEXT_INSN, n') \<and> booting r mm k ptr n' \<and> boot_regs n' = (x(rd := f x), R)"
    using assms(4) by (auto simp: ex booting_write_rd) (simp_all add: boot_regs_def)
qed

lemma align_kept:
  fixes v :: u64
  assumes "v AND 3 = 0"
  shows "v AND pc_align_mask n = v"
proof -
  have b: "bit v n \<Longrightarrow> \<not> bit (3 :: u64) n" for n
    using arg_cong [OF assms, of "\<lambda>x. bit x n"] by (auto simp: bit_and_iff)
  have keep: "v AND NOT q = v" if q: "\<And>n. bit q n \<Longrightarrow> bit (3 :: u64) n" for q
  proof (rule bit_word_eqI)
    show "bit (v AND NOT q) n = bit v n" if "n < LENGTH(64)" for n
      using b [of n] q [of n] that by (simp only: bit_and_iff bit_not_iff possible_bit_word) blast
  qed
  have "v AND NOT 3 = v" by (rule keep)
  moreover have "v AND NOT 1 = v" by (rule keep) (auto simp: bit_1_iff)
  ultimately show ?thesis by (simp add: pc_align_mask_def)
qed

lemma at_csrw:
  fixes e :: "('d, 'z) RISCVMachine_scheme cpu_env"
  assumes hooks: "hook_csr_read e = None" "hook_csr_write e = None" and m: "boot_at r mm k ptr a (x, d, p, h, i) m"
  shows "rom_word r ptr a 0x7b041073 \<Longrightarrow>
      \<exists>m'. steps_to e m m' \<and> boot_at r mm k ptr (a + 4) (x, (d AND NOT 0x603) OR (x 8 AND 0x603), p, h, i) m'"
    and "rom_word r ptr a 0x7b141073 \<Longrightarrow> x 8 AND 3 = 0 \<Longrightarrow>
      \<exists>m'. steps_to e m m' \<and> boot_at r mm k ptr (a + 4) (x, d, x 8, h, i) m'"
proof -
  show "\<exists>m'. steps_to e m m' \<and> boot_at r mm k ptr (a + 4) (x, (d AND NOT 0x603) OR (x 8 AND 0x603), p, h, i) m'"
    if w: "rom_word r ptr a 0x7b041073"
  proof (rule at_step [OF m w])
    fix n :: "('d, 'z) RISCVMachine_scheme" and c assume n: "booting r mm k ptr n" "boot_regs n = (x, d, p, h, i)"
    show "\<exists>n'. exec_insn e c c a 0x7b041073 n = (NEXT_INSN, n') \<and> booting r mm k ptr n' \<and>
        boot_regs n' = (x, (d AND NOT 0x603) OR (x 8 AND 0x603), p, h, i)"
      using exec_csrw_debug(1) [OF n(1) hooks, of c a] n(2) unfolding boot_regs_def by simp
  qed blast
  show "\<exists>m'. steps_to e m m' \<and> boot_at r mm k ptr (a + 4) (x, d, x 8, h, i) m'"
    if w: "rom_word r ptr a 0x7b141073" and al: "x 8 AND 3 = 0"
  proof (rule at_step [OF m w])
    fix n :: "('d, 'z) RISCVMachine_scheme" and c assume n: "booting r mm k ptr n" "boot_regs n = (x, d, p, h, i)"
    show "\<exists>n'. exec_insn e c c a 0x7b141073 n = (NEXT_INSN, n') \<and> booting r mm k ptr n' \<and> boot_regs n' = (x, d, x 8, h, i)"
      using exec_csrw_debug(2) [OF n(1) hooks, of c a] n(2) unfolding boot_regs_def by (simp add: align_kept [OF al])
  qed blast
qed

lemma at_dret:
  assumes "boot_at r mm k ptr a (x, d, p, h, i) m" "rom_word r ptr a 0x7b200073" "d AND 3 = 3"
  obtains m' where "steps_to e m m'" "pc m' = p" "reg m' = x" "priv m' = PRV_M" "\<not> debug_mode m'" "ram m' = r" "mem_map m' = mm"
proof -
  have b: "booting r mm k ptr (fetched ptr m)" "dcsr (fetched ptr m) = d" "boot_regs (fetched ptr m) = (x, d, p, h, i)"
    using assms(1) booting_fetched [of r mm k ptr m] boot_regs_fetched [of ptr m] by (simp_all add: boot_at_def boot_regs_def)
  obtain n where n: "exec_insn e (insn_counter m) (insn_counter m) a 0x7b200073 (fetched ptr m) = (DONE_INTERP, n)"
    "boot_regs n = (x, d, p, h, i)" "pc n = p" "priv n = PRV_M" "\<not> debug_mode n" "ram n = r" "mem_map n = mm"
    using exec_dret [OF b(1), of e "insn_counter m" "insn_counter m" a] b(2,3) assms(3) by (auto simp: boot_regs_def)
  show ?thesis
    using that [of "counted (insn_counter m) n"] boot_step(3) [of r mm k ptr m e DONE_INTERP n] n assms(1,2)
    by (simp add: boot_at_def rom_word_def steps_to_def counted_def Let_def boot_regs_def)
qed

text \<open>The part after label 1, common to all variants.\<close>

lemma boot_tail:
  fixes e :: "('d, 'z) RISCVMachine_scheme cpu_env"
  assumes m: "boot_at r mm k ptr 0x10010 (x, d, p, h, i) m" "x 0 = 0" and hooks: "hook_csr_read e = None" "hook_csr_write e = None"
    and w: "rom_word r ptr 0x10010 0x00000597" "rom_word r ptr 0x10014 0x0f058593" "rom_word r ptr 0x10018 0x60300413"
      "rom_word r ptr 0x1001c 0x7b041073" "rom_word r ptr 0x10020 l1" "rom_word r ptr 0x10024 l2"
      "rom_word r ptr 0x10028 0x7b141073" "rom_word r ptr 0x1002c 0x7b200073"
    and l1: "\<And>n c. exec_insn e c c 0x10020 l1 n = (NEXT_INSN, write_rd 8 (sext32 (reg n 0 + b)) n)"
    and l2: "\<And>n c. exec_insn e c c 0x10024 l2 n = (NEXT_INSN, write_rd 8 (push_bit s (reg n 8)) n)"
    and base: "push_bit s (sext32 b) = base" "base AND 3 = 0"
  shows "\<exists>z. single_steps e 8 m = Some z \<and> pc z = base \<and> reg z = x(11 := 0x10100, 8 := base) \<and>
    priv z = PRV_M \<and> \<not> debug_mode z \<and> ram z = r \<and> mem_map z = mm"
proof -
  let ?d = "(d AND NOT 0x603) OR (1539 AND 0x603)"
  obtain m1 where m1: "steps_to e m m1" "boot_at r mm k ptr 0x10014 (x(11 := 0x10010), d, p, h, i) m1"
    using at_alu [OF m(1) w(1), of e 11 "\<lambda>_. 0x10010"] by (auto simp: exec_boot_alu)
  obtain m2 where m2: "steps_to e m1 m2" "boot_at r mm k ptr 0x10018 (x(11 := 0x10100), d, p, h, i) m2"
    using at_alu [OF m1(2) w(2), of e 11 "\<lambda>x. x 11 + 240"] by (auto simp: exec_boot_alu)
  obtain m3 where m3: "steps_to e m2 m3" "boot_at r mm k ptr 0x1001c (x(11 := 0x10100, 8 := 1539), d, p, h, i) m3"
    using at_alu [OF m2(2) w(3), of e 8 "\<lambda>x. x 0 + 1539"] m(2) by (auto simp: exec_boot_alu)
  obtain m4 where m4: "steps_to e m3 m4" "boot_at r mm k ptr 0x10020 (x(11 := 0x10100, 8 := 1539), ?d, p, h, i) m4"
    using at_csrw(1) [OF hooks m3(2) w(4)] by auto
  obtain m5 where m5: "steps_to e m4 m5" "boot_at r mm k ptr 0x10024 (x(11 := 0x10100, 8 := sext32 b), ?d, p, h, i) m5"
    using at_alu [OF m4(2) w(5), of e 8 "\<lambda>x. sext32 (x 0 + b)"] m(2) l1 by auto
  obtain m6 where m6: "steps_to e m5 m6" "boot_at r mm k ptr 0x10028 (x(11 := 0x10100, 8 := base), ?d, p, h, i) m6"
    using at_alu [OF m5(2) w(6), of e 8 "\<lambda>x. push_bit s (x 8)"] l2 base(1) by auto
  obtain m7 where m7: "steps_to e m6 m7" "boot_at r mm k ptr 0x1002c (x(11 := 0x10100, 8 := base), ?d, base, h, i) m7"
    using at_csrw(2) [OF hooks m6(2) w(7)] base(2) by auto
  have "?d AND 3 = 3" by (rule bit_word_eqI) (auto simp: bit_simps bit_numeral_rec split: nat.splits)
  then obtain m8 where m8: "steps_to e m7 m8" "pc m8 = base" "reg m8 = x(11 := 0x10100, 8 := base)" "priv m8 = PRV_M" "\<not> debug_mode m8"
    "ram m8 = r" "mem_map m8 = mm"
    using at_dret [OF m7(2) w(8)] by metis
  have "single_steps e 8 m = Some m8"
    using m1(1) m2(1) m3(1) m4(1) m5(1) m6(1) m7(1) m8(1) by (simp add: steps_to_def eval_nat_numeral)
  then show ?thesis using m8 by blast
qed

lemma at_nop:
  fixes e :: "('d, 'z) RISCVMachine_scheme cpu_env"
  assumes "boot_at r mm k ptr a R m" "rom_word r ptr a 0x00000013"
  obtains m' where "steps_to e m m'" "boot_at r mm k ptr (a + 4) R m'"
proof (rule at_step [OF assms])
  show "\<exists>n'. exec_insn e c c a 0x00000013 n = (NEXT_INSN, n') \<and> booting r mm k ptr n' \<and> boot_regs n' = R"
    if "booting r mm k ptr n" "boot_regs n = R" for n :: "('d, 'z) RISCVMachine_scheme" and c
    using that by (simp add: exec_boot_alu)
qed

lemma at_csrr:
  fixes e :: "('d, 'z) RISCVMachine_scheme cpu_env"
  assumes "hook_csr_read e = None" "boot_at r mm k ptr a (x, d, p, h, i) m" "rom_word r ptr a 0xf1402573"
  obtains m' where "steps_to e m m'" "boot_at r mm k ptr (a + 4) (x(10 := h), d, p, h, i) m'"
proof (rule at_step [OF assms(2,3)])
  fix n :: "('d, 'z) RISCVMachine_scheme" and c assume n: "booting r mm k ptr n" "boot_regs n = (x, d, p, h, i)"
  show "\<exists>n'. exec_insn e c c a 0xf1402573 n = (NEXT_INSN, n') \<and> booting r mm k ptr n' \<and> boot_regs n' = (x(10 := h), d, p, h, i)"
    using exec_csrr_mhartid [OF n(1) assms(1), of c a] n(2) unfolding boot_regs_def by simp
qed

lemma at_beqz:
  assumes "boot_at r mm k ptr 0x10004 (x, R) m" "rom_word r ptr 0x10004 0x00050663" "x 10 = x 0"
  obtains m' where "steps_to e m m'" "boot_at r mm k ptr 0x10010 (x, R) m'"
  using boot_jump [of r mm k ptr m "0x00050663" e ctf_taken_branch "0x10010"] assms exec_beqz [of _ e]
  by (auto simp: boot_at_def rom_word_def steps_to_def boot_regs_def)

text \<open>The first four instructions reach label 1.\<close>

lemma boot_head:
  assumes m: "boot_at r mm k ptr 0x10000 (x, d, p, h, i) m" and "x 0 = 0" and "hook_csr_read e = None"
    and w0: "rom_word r ptr 0x10000 0xf1402573"
    and w: "n = 1 \<Longrightarrow> h = 0 \<and> rom_word r ptr 0x10004 0x00050663"
      "n \<noteq> 1 \<Longrightarrow> rom_word r ptr 0x10004 0x13 \<and> rom_word r ptr 0x10008 0x13 \<and> rom_word r ptr 0x1000c 0x13"
  obtains m' where "single_steps e (if n = (1 :: nat) then 2 else 4) m = Some m'" "boot_at r mm k ptr 0x10010 (x(10 := h), d, p, h, i) m'"
proof -
  obtain m1 where m1: "steps_to e m m1" "boot_at r mm k ptr 0x10004 (x(10 := h), d, p, h, i) m1"
    using at_csrr [OF assms(3) m w0] by auto
  show ?thesis
  proof (cases "n = 1")
    case True
    obtain m2 where m2: "steps_to e m1 m2" "boot_at r mm k ptr 0x10010 (x(10 := h), d, p, h, i) m2"
      using at_beqz [OF m1(2)] w(1) [OF True] assms(2) by auto
    then show ?thesis using that [of m2] m1(1) True by (simp add: steps_to_def eval_nat_numeral)
  next
    case False
    note v = w(2) [OF False]
    obtain m2 where m2: "steps_to e m1 m2" "boot_at r mm k ptr 0x10008 (x(10 := h), d, p, h, i) m2"
      using at_nop [OF m1(2)] v by auto
    obtain m3 where m3: "steps_to e m2 m3" "boot_at r mm k ptr 0x1000c (x(10 := h), d, p, h, i) m3"
      using at_nop [OF m2(2)] v by auto
    obtain m4 where m4: "steps_to e m3 m4" "boot_at r mm k ptr 0x10010 (x(10 := h), d, p, h, i) m4"
      using at_nop [OF m3(2)] v by auto
    then show ?thesis using that [of m4] m1(1) m2(1) m3(1) False by (simp add: steps_to_def eval_nat_numeral)
  qed
qed

lemma single_steps_add: "single_steps e (i + j) m = Option.bind (single_steps e i m) (single_steps e j)"
  by (induction i arbitrary: m) (auto split: option.split)

text \<open>The words of the boot ROM.\<close>

definition rom_words :: "host_mem \<Rightarrow> u64 \<Rightarrow> u32 list \<Rightarrow> bool" where
  "rom_words r ptr ws \<longleftrightarrow> (\<forall>i < length ws. get_le32 r (ptr + 4 * of_nat i) = ws ! i)"

lemma rom_words_nth:
  "rom_words r ptr ws \<Longrightarrow> i < length ws \<Longrightarrow> rom_pc a \<Longrightarrow> a = 0x10000 + 4 * of_nat i \<Longrightarrow> rom_word r ptr a (ws ! i)"
  by (simp add: rom_words_def rom_word_def)

lemma rom_pc_code:
  "rom_pc 0x10000"
  "rom_pc 0x10004"
  "rom_pc 0x10008"
  "rom_pc 0x1000c"
  "rom_pc 0x10010"
  "rom_pc 0x10014"
  "rom_pc 0x10018"
  "rom_pc 0x1001c"
  "rom_pc 0x10020"
  "rom_pc 0x10024"
  "rom_pc 0x10028"
  "rom_pc 0x1002c"
  by (simp_all add: rom_pc_def tlb_index_def)

lemma bootrom_nth:
  "bootrom_code n base ! 0 = 0xf1402573" "bootrom_code n base ! 1 = (if n = 1 then 0x00050663 else 0x13)"
  "bootrom_code n base ! 2 = (if n = 1 then 0x10500073 else 0x13)" "bootrom_code n base ! 3 = (if n = 1 then 0xffdff06f else 0x13)"
  "bootrom_code n base ! 4 = 0x00000597" "bootrom_code n base ! 5 = 0x0f058593" "bootrom_code n base ! 6 = 0x60300413"
  "bootrom_code n base ! 7 = 0x7b041073" "bootrom_code n base ! 8 = (if base = 0xc000000000 then 0x0030041b else 0x0010041b)"
  "bootrom_code n base ! 9 = (if base = 0xc000000000 then 0x02641413 else if base = 0x80000000 then 0x01f41413 else 0x02741413)"
  "bootrom_code n base ! 10 = 0x7b141073" "bootrom_code n base ! 11 = 0x7b200073"
  by (simp_all add: bootrom_code_def)

lemma bootrom_words:
  assumes "rom_words r ptr (bootrom_code n base)"
  shows
    "rom_word r ptr 0x10000 (bootrom_code n base ! 0)"
    "rom_word r ptr 0x10004 (bootrom_code n base ! 1)"
    "rom_word r ptr 0x10008 (bootrom_code n base ! 2)"
    "rom_word r ptr 0x1000c (bootrom_code n base ! 3)"
    "rom_word r ptr 0x10010 (bootrom_code n base ! 4)"
    "rom_word r ptr 0x10014 (bootrom_code n base ! 5)"
    "rom_word r ptr 0x10018 (bootrom_code n base ! 6)"
    "rom_word r ptr 0x1001c (bootrom_code n base ! 7)"
    "rom_word r ptr 0x10020 (bootrom_code n base ! 8)"
    "rom_word r ptr 0x10024 (bootrom_code n base ! 9)"
    "rom_word r ptr 0x10028 (bootrom_code n base ! 10)"
    "rom_word r ptr 0x1002c (bootrom_code n base ! 11)"
proof -
  have l: "length (bootrom_code n base) = 12" by (simp add: bootrom_code_def)
  note nth = rom_words_nth [OF assms]
  show
    "rom_word r ptr 0x10000 (bootrom_code n base ! 0)"
    "rom_word r ptr 0x10004 (bootrom_code n base ! 1)"
    "rom_word r ptr 0x10008 (bootrom_code n base ! 2)"
    "rom_word r ptr 0x1000c (bootrom_code n base ! 3)"
    "rom_word r ptr 0x10010 (bootrom_code n base ! 4)"
    "rom_word r ptr 0x10014 (bootrom_code n base ! 5)"
    "rom_word r ptr 0x10018 (bootrom_code n base ! 6)"
    "rom_word r ptr 0x1001c (bootrom_code n base ! 7)"
    "rom_word r ptr 0x10020 (bootrom_code n base ! 8)"
    "rom_word r ptr 0x10024 (bootrom_code n base ! 9)"
    "rom_word r ptr 0x10028 (bootrom_code n base ! 10)"
    "rom_word r ptr 0x1002c (bootrom_code n base ! 11)"
    by (rule nth; simp add: l rom_pc_code)+
qed

lemma boot_rom_runs:
  fixes e :: "('d, 'z) RISCVMachine_scheme cpu_env"
  assumes "booting r mm k ptr m" "pc m = 0x10000" "reg m 0 = 0" and hooks: "hook_csr_read e = None" "hook_csr_write e = None"
    and ws: "rom_words r ptr (bootrom_code n base)" and "base \<in> {0x80000000, 0x8000000000, 0xc000000000}" and "n = 1 \<Longrightarrow> mhartid m = 0"
  shows "\<exists>z. single_steps e (if n = 1 then 10 else 12) m = Some z \<and> pc z = base \<and>
    reg z = (reg m)(10 := mhartid m, 11 := 0x10100, 8 := base) \<and> priv z = PRV_M \<and> \<not> debug_mode z \<and> ram z = r \<and> mem_map z = mm"
proof -
  let ?c = "bootrom_code n base"
  note W = bootrom_words [OF ws, unfolded bootrom_nth]
  have at: "boot_at r mm k ptr 0x10000 (reg m, dcsr m, dpc m, mhartid m, misa m) m"
    using assms(1,2) by (simp add: boot_at_def boot_regs_def)
  obtain m' where m': "single_steps e (if n = 1 then 2 else 4) m = Some m'"
    "boot_at r mm k ptr 0x10010 ((reg m)(10 := mhartid m), dcsr m, dpc m, mhartid m, misa m) m'"
    using boot_head [OF at assms(3) hooks(1) W(1), of n] W(2-4) assms(8) by (auto split: if_splits)
  let ?P = "\<lambda>z. pc z = base \<and> reg z = (reg m)(10 := mhartid m, 11 := 0x10100, 8 := base) \<and>
    priv z = PRV_M \<and> \<not> debug_mode z \<and> ram z = r \<and> mem_map z = mm"
  have "\<exists>z. single_steps e 8 m' = Some z \<and> ?P z"
  proof -
    note tail = boot_tail [OF m'(2) _ hooks W(5-12)]
    consider "base = 0x80000000" | "base = 0x8000000000" | "base = 0xc000000000" using assms(7) by blast
    then show ?thesis
    proof cases
      case 1
      then show ?thesis using tail [of 1 31 base] assms(3) by (simp add: exec_boot_alu sext32_def)
    next
      case 2
      then show ?thesis using tail [of 1 39 base] assms(3) by (simp add: exec_boot_alu sext32_def)
    next
      case 3
      then show ?thesis using tail [of 3 38 base] assms(3) by (simp add: exec_boot_alu sext32_def)
    qed
  qed
  then show ?thesis
    using m'(1) single_steps_add [of e 2 8 m] single_steps_add [of e 4 8 m] by auto
qed

end
