(* ===== verification/Elf_Props.thy ===== *)
theory Elf_Props
  imports Elf64
begin

text \<open>
  Properties of the reading of ELF images: the test of the format stays inside of the file, what the
  search for a symbol finds is that symbol, and the image that escapes its tests.
\<close>

section \<open>Reads\<close>

lemma img_le_in_bounds:
  "unat off + n \<le> length img \<Longrightarrow> length img < 2 ^ 64 \<Longrightarrow> \<exists>v. img_le img off n = Some v"
proof (induction n arbitrary: off)
  case (Suc n)
  then have "unat (off + 1) = unat off + 1" by (simp add: unat_plus_if')
  then show ?case using Suc.IH [of "off + 1"] Suc.prems by auto
qed simp

section \<open>Symbols\<close>

lemma find_symbol_Cons:
  assumes "find_symbol img key strtab symtab (i # is) = Some (Some v)"
  shows "(\<exists>name info. img_le img (symtab + of_nat i * SIZEOF_SYM) 4 = Some name \<and>
     strcmp_eq img key (strtab + name) = Some True \<and> img_le img (symtab + of_nat i * SIZEOF_SYM + 4) 1 = Some info \<and>
     drop_bit 4 info = 1 \<and> img_le img (symtab + of_nat i * SIZEOF_SYM + 8) 8 = Some v) \<or>
     find_symbol img key strtab symtab is = Some (Some v)"
  using assms unfolding find_symbol.simps Let_def Option.bind_eq_Some_conv
  by (elim exE conjE) (simp split: if_splits del: img_le.simps)

lemma find_symbol_sound:
  "find_symbol img key strtab symtab is = Some (Some v) \<Longrightarrow>
   \<exists>i \<in> set is. \<exists>name info. img_le img (symtab + of_nat i * SIZEOF_SYM) 4 = Some name \<and>
     strcmp_eq img key (strtab + name) = Some True \<and> img_le img (symtab + of_nat i * SIZEOF_SYM + 4) 1 = Some info \<and>
     drop_bit 4 info = 1 \<and> img_le img (symtab + of_nat i * SIZEOF_SYM + 8) 8 = Some v"
proof (induction "is")
  case (Cons i "is")
  from find_symbol_Cons [OF Cons.prems] show ?case
  proof
    assume "find_symbol img key strtab symtab is = Some (Some v)"
    from Cons.IH [OF this] show ?thesis by (rule bexE) (rule bexI, assumption, simp)
  next
  qed (rule bexI [where x = i], assumption, simp)
qed simp

lemma strcmp_eq_string:
  "strcmp_eq img key off = Some True \<longleftrightarrow>
   (\<forall>j < length key. img_le img (off + of_nat j) 1 = Some (ucast (key ! j))) \<and> img_le img (off + of_nat (length key)) 1 = Some 0"
proof (induction key arbitrary: off)
  case (Cons k ks)
  have all: "(\<forall>j < length (k # ks). img_le img (off + of_nat j) 1 = Some (ucast ((k # ks) ! j))) \<longleftrightarrow>
      img_le img off 1 = Some (ucast k) \<and> (\<forall>j < length ks. img_le img (off + 1 + of_nat j) 1 = Some (ucast (ks ! j)))"
    by (subst length_Cons, subst All_less_Suc2) (simp add: add.assoc)
  have off: "off + of_nat (length (k # ks)) = off + 1 + of_nat (length ks)" by simp
  have "strcmp_eq img (k # ks) off = Some True \<longleftrightarrow>
      img_le img off 1 = Some (ucast k) \<and> strcmp_eq img ks (off + 1) = Some True"
    by (simp del: img_le.simps One_nat_def split: option.split)
  then show ?case unfolding all off Cons.IH [of "off + 1"] by blast
qed (simp del: img_le.simps One_nat_def)

section \<open>The offset of the section headers\<close>

definition wrapping_elf :: "u8 list" where
  "wrapping_elf = [0x7f, 0x45, 0x4c, 0x46, 2, 1, 0, 0, 0, 0, 0, 0, 0, 0, 0, 0, 2, 0, 0xf3, 0, 1, 0, 0, 0,
     0, 0, 0, 0x80, 0, 0, 0, 0, 0x40, 0, 0, 0, 0, 0, 0, 0, 0xc1, 0xff, 0xff, 0xff, 0xff, 0xff, 0xff, 0xff,
     0, 0, 0, 0, 64, 0, 56, 0, 0, 0, 64, 0, 1, 0, 0, 0]"

lemma img_le_numeral:
  "img_le img off (numeral n) =
     (if unat off < length img
      then map_option (\<lambda>r. ucast (img ! unat off) OR push_bit 8 r) (img_le img (off + 1) (pred_numeral n))
      else None)"
  by (simp add: numeral_eq_Suc)

lemma length_wrapping_elf: "length wrapping_elf = 64"
  by (simp add: wrapping_elf_def)

lemma wrapping_elf_header:
  "img_le wrapping_elf 0 4 = Some 0x464c457f" "img_le wrapping_elf 4 1 = Some 2" "img_le wrapping_elf 5 1 = Some 1"
  "e_machine wrapping_elf = Some 0xf3" "e_ehsize wrapping_elf = Some 64" "e_phentsize wrapping_elf = Some 56"
  "e_shoff wrapping_elf = Some (- 63)" "e_shnum wrapping_elf = Some 1" "e_shstrndx wrapping_elf = Some 0"
  by (simp_all add: img_le_numeral length_wrapping_elf wrapping_elf_def)

lemma wrapping_elf_accepted: "elf64_is_riscv64 wrapping_elf = Some True"
  unfolding elf64_is_riscv64_def wrapping_elf_header by (simp add: wrapping_elf_header length_wrapping_elf del: img_le.simps One_nat_def)

lemma wrapping_elf_past: "img_le wrapping_elf (- 59) 4 = None"
proof -
  have "unat (- 59 :: u64) = 2 ^ 64 - 59" by simp
  then show ?thesis by (simp add: img_le_numeral length_wrapping_elf)
qed

text \<open>
  An image whose section header table is said to start 63 bytes before the end of the address space
  passes the test of the format and the test of the offset, whose sum wraps, and the search for a
  symbol reads outside of it.
\<close>

lemma accepted_elf_read_outside:
  "elf64_is_riscv64 wrapping_elf = Some True \<and> elf64_find_global 0x1000 wrapping_elf key = None"
proof -
  have "find_tables wrapping_elf (- 63) 0 [0..<1] (None, None) = None"
    by (simp add: wrapping_elf_past del: img_le.simps)
  then show ?thesis
    by (simp add: wrapping_elf_accepted elf64_find_global_def wrapping_elf_header length_wrapping_elf past_end_def del: img_le.simps One_nat_def)
qed

section \<open>What the tests give\<close>

lemma if_not_None: "a \<noteq> None \<Longrightarrow> b \<noteq> None \<Longrightarrow> (if c then a else b) \<noteq> None"
  by simp

lemma elf64_is_riscv64_total:
  assumes "length img < 2 ^ 64"
  shows "elf64_is_riscv64 img \<noteq> None"
proof (cases "length img < SIZEOF_EHDR")
  case False
  have rd: "\<exists>v. img_le img off n = Some v" if "unat off + n \<le> 64" for off n
    using img_le_in_bounds [of off n img] that False assms by simp
  have bind: "Option.bind (img_le img off n) f \<noteq> None" if "unat off + n \<le> 64" "\<And>v. f v \<noteq> None" for off n and f :: "u64 \<Rightarrow> bool option"
    using rd [OF that(1)] that(2) by auto
  show ?thesis unfolding elf64_is_riscv64_def if_not_P [OF False]
    by (intro bind if_not_None) (simp_all del: img_le.simps One_nat_def)
qed (simp add: elf64_is_riscv64_def)

lemma elf64_find_global_symbol:
  assumes "elf64_find_global base img key = Some (Some v)"
  obtains strtab symtab i where "find_symbol img key strtab symtab [0..<i] = Some (Some v)"
proof -
  from assms obtain tabs where "(case tabs of
       (Some strtab, Some (symtab, symtab_len)) \<Rightarrow>
         if past_end base img (symtab + of_int symtab_len * SIZEOF_SYM) then Some None
         else find_symbol img key strtab symtab [0..<nat symtab_len]
     | _ \<Rightarrow> Some None) = Some (Some v)"
    unfolding elf64_find_global_def
    by (simp only: Option.bind_eq_Some_conv option.inject option.distinct option.simps split: if_split_asm) blast
  then show thesis
    by (cases tabs, cases "fst tabs"; cases "snd tabs") (auto split: if_split_asm intro: that)
qed

definition example_elf :: "u8 list" where
  "example_elf = [
    127, 69, 76, 70, 2, 1, 0, 0, 0, 0, 0, 0, 0, 0, 0, 0, 0, 0, 243, 0, 0, 0, 0, 0, 0, 0, 0, 0, 0,
     0, 0, 0, 0, 0, 0, 0, 0, 0, 0, 0, 64, 0, 0, 0, 0, 0, 0, 0, 0, 0, 0, 0, 64, 0, 56, 0, 0, 0,
     64, 0, 2, 0, 0, 0, 0, 0, 0, 0, 2, 0, 0, 0, 0, 0, 0, 0, 0, 0, 0, 0, 0, 0, 0, 0, 0, 0, 0, 0,
     192, 0, 0, 0, 0, 0, 0, 0, 24, 0, 0, 0, 0, 0, 0, 0, 0, 0, 0, 0, 0, 0, 0, 0, 0, 0, 0, 0, 0, 0,
     0, 0, 0, 0, 0, 0, 0, 0, 0, 0, 0, 0, 0, 0, 3, 0, 0, 0, 0, 0, 0, 0, 0, 0, 0, 0, 0, 0, 0, 0, 0,
     0, 0, 0, 216, 0, 0, 0, 0, 0, 0, 0, 3, 0, 0, 0, 0, 0, 0, 0, 0, 0, 0, 0, 0, 0, 0, 0, 0, 0, 0,
     0, 0, 0, 0, 0, 0, 0, 0, 0, 0, 0, 0, 0, 0, 0, 0, 0, 16, 0, 0, 0, 0, 0, 0, 128, 0, 0, 0, 0, 0,
     0, 0, 0, 0, 0, 0, 0, 103, 111, 0]"

lemma length_example_elf: "length example_elf = 219"
  by (simp add: example_elf_def)

lemma example_elf_reads:
  "e_shoff example_elf = Some 64" "e_shnum example_elf = Some 2" "e_shstrndx example_elf = Some 0"
  "img_le example_elf 68 4 = Some 2" "img_le example_elf 88 8 = Some 192" "img_le example_elf 96 8 = Some 24"
  "img_le example_elf 132 4 = Some 3" "img_le example_elf 152 8 = Some 216"
  "img_le example_elf 192 4 = Some 0" "img_le example_elf 196 1 = Some 16" "img_le example_elf 200 8 = Some 0x80000000"
  "img_le example_elf 216 1 = Some 0x67" "img_le example_elf 217 1 = Some 0x6f" "img_le example_elf 218 1 = Some 0"
  by (simp_all add: img_le_numeral length_example_elf example_elf_def)

lemma example_elf_found: "elf64_find_global 0x1000 example_elf [0x67, 0x6f] = Some (Some 0x80000000)"
proof -
  have tabs: "find_tables example_elf 64 0 [0..<2] (None, None) = Some (Some 216, Some (192, 1))"
    by (simp add: upt_conv_Cons example_elf_reads del: img_le.simps)
  have "drop_bit 4 (16 :: u64) = 1" by (simp add: drop_bit_eq_div)
  note reads = example_elf_reads this
  have sym: "find_symbol example_elf [0x67, 0x6f] 216 192 [0] = Some (Some 0x80000000)"
    using reads by (simp del: img_le.simps)
  show ?thesis
    using tabs sym by (simp add: elf64_find_global_def example_elf_reads length_example_elf past_end_def del: img_le.simps)
qed


end
