(* ===== verification/Boot_Props.thy ===== *)
theory Boot_Props
  imports Boot_Run Elf_Props Fdt_Props
begin

text \<open>
  Properties of the creation of the machine: what is where in memory, and what the harts do until
  they reach the firmware.
\<close>

section \<open>Memory images\<close>

lemma copy_bytes_nth:
  assumes "j < length bs" "length bs \<le> 2 ^ 64"
  shows "copy_bytes ptr bs m (ptr + of_nat j) = bs ! j"
proof -
  have "unat (of_nat j :: u64) = j" using assms by (simp add: unat_of_nat)
  then show ?thesis using assms(1) by (simp add: copy_bytes_def)
qed

lemma copy_bytes_other: "length bs \<le> unat (p - ptr) \<Longrightarrow> copy_bytes ptr bs m p = m p"
  by (simp add: copy_bytes_def)

lemma concat_le32_nth:
  assumes "i < length ws" "j < 4"
  shows "concat (map le32_bytes ws) ! (4 * i + j) = le32_bytes (ws ! i) ! j"
  using assms
proof (induction ws arbitrary: i)
  case (Cons w ws)
  have l: "length (le32_bytes w) = 4" by (simp add: le32_bytes_def)
  show ?case
  proof (cases i)
    case 0
    then show ?thesis using Cons.prems l by (simp add: nth_append)
  next
    case (Suc i')
    then show ?thesis using Cons l by (simp add: nth_append)
  qed
qed simp

lemma length_concat_le32 [simp]: "length (concat (map le32_bytes ws)) = 4 * length ws"
  by (induction ws) (simp_all add: le32_bytes_def)

lemma le32_bytes_get:
  assumes "\<And>j. j < 4 \<Longrightarrow> m (p + of_nat j) = le32_bytes w ! j"
  shows "get_le32 m p = w"
proof -
  have "m p = ucast w" "m (p + 1) = ucast (drop_bit 8 w)" "m (p + 2) = ucast (drop_bit 16 w)" "m (p + 3) = ucast (drop_bit 24 w)"
    using assms [of 0] assms [of 1] assms [of 2] assms [of 3] by (simp_all add: le32_bytes_def)
  then have "get_le32 m p = get_le32 (put_le32 m p w) p" by (simp add: get_le32_def put_le32_def)
  then show ?thesis by simp
qed

lemma rom_words_copy:
  assumes "4 * length ws \<le> 2 ^ 64" "\<And>j. j < 4 * length ws \<Longrightarrow> r (ptr + of_nat j) = concat (map le32_bytes ws) ! j"
  shows "rom_words r ptr ws"
  unfolding rom_words_def
proof (intro allI impI le32_bytes_get)
  fix i j :: nat assume ij: "i < length ws" "j < 4"
  have "ptr + 4 * of_nat i + of_nat j = ptr + of_nat (4 * i + j)" by simp
  then show "r (ptr + 4 * of_nat i + of_nat j) = le32_bytes (ws ! i) ! j"
    using assms(2) [of "4 * i + j"] ij concat_le32_nth [OF ij] by (simp add: add.assoc)
qed

section \<open>The parts of the creation\<close>

lemma boot_bind_Inr: "boot_bind r f = Inr y \<longleftrightarrow> (\<exists>x. r = Inr x \<and> f x = Inr y)"
  by (simp add: boot_bind_def split: sum.split)

lemma or_abort_Inr: "or_abort r = Inr x \<longleftrightarrow> r = Some x"
  by (simp add: or_abort_def split: option.split)

lemmas boot_Inr = boot_bind_Inr or_abort_Inr

lemma copy_to_Inr:
  "copy_to a bs bm = Inr bm' \<longleftrightarrow>
    (\<exists>ptr. get_ram_ptr (fst bm) a = Some ptr \<and> bm' = (fst bm, copy_bytes ptr bs (snd bm))) \<or>
    get_ram_ptr (fst bm) a = None \<and> bs = [] \<and> bm' = bm"
  by (auto simp: copy_to_def split: option.splits)

text \<open>The image has a segment at the address of the boot ROM.\<close>

definition brings_bootrom :: "u8 list \<Rightarrow> bool" where
  "brings_bootrom img \<longleftrightarrow>
     (\<exists>phoff phnum. e_phoff img = Some phoff \<and> e_phnum img = Some phnum \<and>
        list_ex (\<lambda>i. img_le img (phoff + of_nat i * SIZEOF_PHDR) 4 = Some 1 \<and>
           img_le img (phoff + of_nat i * SIZEOF_PHDR + 16) 8 = Some BOOT_BASE_ADDR) [0..<unat phnum])"

lemma load_segment_flag:
  assumes "load_segment alloc img ph st = Inr st'"
    and "\<not> (img_le img ph 4 = Some 1 \<and> img_le img (ph + 16) 8 = Some BOOT_BASE_ADDR)"
  shows "fst st' = fst st"
  using assms by (auto simp: load_segment_def boot_Inr Let_def split: if_splits)

lemma load_segments_flag:
  "load_segments alloc img phoff is st = Inr st' \<Longrightarrow>
   \<not> list_ex (\<lambda>i. img_le img (phoff + of_nat i * SIZEOF_PHDR) 4 = Some 1 \<and>
       img_le img (phoff + of_nat i * SIZEOF_PHDR + 16) 8 = Some BOOT_BASE_ADDR) is \<Longrightarrow> fst st' = fst st"
proof (induction "is" arbitrary: st)
  case (Cons i "is")
  then show ?case using load_segment_flag [of alloc img "phoff + of_nat i * SIZEOF_PHDR" st] by (auto simp: boot_Inr)
qed simp

lemma load_firmware_flag:
  assumes "load_firmware alloc p fw bm = Inr (has_bootrom, bm')" "\<not> brings_bootrom fw"
  shows "\<not> has_bootrom"
  using assms load_segments_flag [of alloc fw _ _ "(False, bm)"]
  by (fastforce simp: load_firmware_def load_elf_image_def brings_bootrom_def boot_Inr split: if_splits)

text \<open>Where the initial RAM disk goes.\<close>

definition initrd_range :: "VirtMachineParams \<Rightarrow> u64 \<times> u64" where
  "initrd_range p =
     (case vp_initrd p of
        None \<Rightarrow> (0, 0)
      | Some [] \<Rightarrow> (0, 0)
      | Some bs \<Rightarrow>
          let e = vp_ram_base_addr p + vp_ram_size p
          in (push_bit 12 (drop_bit 12 (e - of_nat (length bs))), e))"

lemma load_initrd_range: "load_initrd p bm = Inr (initrd, bm') \<Longrightarrow> initrd = initrd_range p"
  by (auto simp: load_initrd_def initrd_range_def boot_Inr Let_def split: option.splits list.splits if_splits)

text \<open>The generated boot ROM and the device tree are written last.\<close>

lemma setup_rom_Inr:
  assumes "setup_rom p initrd bm = Inr bm'" "vp_bootrom p = None" "\<not> vp_compact_bootrom p"
  obtains ptr bytes where "get_ram_ptr (fst bm) ROM_BASE_ADDR = Some ptr"
    "riscv_build_fdt (vp_dtb p) (fdt_params_of p (fst initrd) (snd initrd)) = Some bytes" "fst bm' = fst bm"
    "snd bm' = copy_bytes (ptr + 256) bytes (copy_bytes ptr (concat (map le32_bytes (bootrom_code (vp_ncpus p) (vp_ram_base_addr p)))) (snd bm))"
    "vp_ram_base_addr p \<in> {0x80000000, 0x8000000000, 0xc000000000}"
proof -
  have "concat (map le32_bytes (bootrom_code (vp_ncpus p) (vp_ram_base_addr p))) \<noteq> []" by (simp add: bootrom_code_def le32_bytes_def)
  then show ?thesis
    using assms that by (auto simp: setup_rom_def generate_bootrom_def boot_Inr copy_to_Inr Let_def split: if_splits)
qed

lemma copy_kernel_Inr:
  assumes "copy_kernel alloc p fw bm = Inr bm'" "\<not> brings_bootrom fw"
  obtains bm1 bm2 bm3 where "load_firmware alloc p fw bm = Inr (False, bm1)" "load_kernel p bm1 = Inr bm2"
    "load_initrd p bm2 = Inr (initrd_range p, bm3)" "setup_rom p (initrd_range p) bm3 = Inr bm'"
proof -
  obtain hb bm1 where f: "load_firmware alloc p fw bm = Inr (hb, bm1)"
    and k: "boot_bind (load_kernel p bm1) (\<lambda>bm. boot_bind (load_initrd p bm) (\<lambda>(initrd, bm).
        if hb then Inr bm else setup_rom p initrd bm)) = Inr bm'"
    using assms(1) by (auto simp: copy_kernel_def boot_bind_Inr split: if_splits)
  have hb: "\<not> hb" by (rule load_firmware_flag [OF f assms(2)])
  obtain bm2 initrd bm3 where k2: "load_kernel p bm1 = Inr bm2" "load_initrd p bm2 = Inr (initrd, bm3)" "setup_rom p initrd bm3 = Inr bm'"
    using k hb by (auto simp: boot_bind_Inr)
  then show ?thesis using that f hb load_initrd_range [OF k2(2)] by simp
qed

lemma virt_machine_init_Inr:
  assumes "virt_machine_init alloc mem p = Inr b" "vp_bios p = Some fw"
  obtains bm where "copy_kernel alloc p fw bm = Inr (board_map b, board_ram b)" "vp_ncpus p \<le> 8"
    "cpu_state b = (\<lambda>i. (riscv_cpu_init (vp_reset_vector p) (vp_custom_extension p) (vp_clear_ids p) (of_nat i))
       \<lparr>physical_addr_len := vp_physical_addr_len p, debug_mode := True\<rparr>)" "board_pending_interrupt b = - 1" "ncpus b = vp_ncpus p"
  using assms that by (auto simp: virt_machine_init_def board_init_def boot_Inr split: if_splits option.splits)

section \<open>From reset to the firmware\<close>

lemma rom_at_ptr:
  assumes "rom_at mm k ptr"
  shows "get_ram_ptr mm 0x10000 = Some ptr" "get_ram_ptr mm 0x10100 = Some (ptr + 256)"
  using assms by (simp_all add: rom_at_def get_ram_ptr_def)

lemma rom_content:
  assumes "length bytes \<le> 0xf00"
    and r: "r = copy_bytes (ptr + 256) bytes (copy_bytes ptr (concat (map le32_bytes (bootrom_code n base))) m)"
  shows "rom_words r ptr (bootrom_code n base)" and "map (\<lambda>i. r (ptr + 256 + of_nat i)) [0..<length bytes] = bytes"
proof -
  let ?r = r and ?ws = "bootrom_code n base"
  have l: "length ?ws = 12" by (simp add: bootrom_code_def)
  show "rom_words ?r ptr ?ws"
  proof (rule rom_words_copy)
    fix j assume j: "j < 4 * length ?ws"
    then have u: "unat (of_nat j :: u64) = j" "j < 48" using l by (simp_all add: unat_of_nat)
    have "unat (of_nat j - 256 :: u64) \<ge> 2 ^ 64 - 256"
      using u by (simp add: unat_sub_if')
    then have "length bytes \<le> unat (ptr + of_nat j - (ptr + 256))" using assms(1) by simp
    then have "?r (ptr + of_nat j) = copy_bytes ptr (concat (map le32_bytes ?ws)) m (ptr + of_nat j)" unfolding r by (rule copy_bytes_other)
    then show "?r (ptr + of_nat j) = concat (map le32_bytes ?ws) ! j" using j l by (simp add: copy_bytes_nth)
  qed (simp add: l)
  show "map (\<lambda>i. ?r (ptr + 256 + of_nat i)) [0..<length bytes] = bytes"
    using assms(1) by (intro nth_equalityI) (simp_all add: r copy_bytes_nth)
qed

lemma booting_start:
  assumes "cpu_state b = (\<lambda>i. (riscv_cpu_init 0x10000 ce ci (of_nat i))\<lparr>physical_addr_len := pal, debug_mode := True\<rparr>)"
    and "17 \<le> pal" "pal \<le> 64" "rom_at (board_map b) k ptr"
  shows "booting (board_ram b) (board_map b) k ptr (hart_view h b)" "pc (hart_view h b) = 0x10000" "reg (hart_view h b) = (\<lambda>_. 0)"
    "mhartid (hart_view h b) = of_nat h"
  using assms
  by (simp_all add: booting_def hart_view_def RISCVCPUState.defs RISCVMachine.defs riscv_cpu_init_def tlb_init_def zeroed_cpu_def)

section \<open>Where the files are\<close>

lemma copy_bytes_disjoint: "(\<And>x. unat x < length bs \<Longrightarrow> ptr + x \<noteq> p) \<Longrightarrow> copy_bytes ptr bs m p = m p"
  by (metis add_diff_eq add_diff_cancel_left' copy_bytes_def)

lemma copy_bytes_Nil [simp]: "copy_bytes ptr [] m = m"
  by (simp add: copy_bytes_def)

lemma copy_bytes_at:
  assumes "o1 + length bs \<le> 2 ^ 64" "j < 2 ^ 64"
  shows "copy_bytes (rp + of_nat o1) bs m (rp + of_nat j) =
    (if o1 \<le> j \<and> j < o1 + length bs then bs ! (j - o1) else m (rp + of_nat j))"
proof (cases "o1 < 2 ^ 64")
  case True
  have "unat (of_nat j :: u64) = j" "unat (of_nat o1 :: u64) = o1" using assms(2) True by (simp_all add: unat_of_nat)
  then have "unat (of_nat j - of_nat o1 :: u64) = (if o1 \<le> j then j - o1 else j + 2 ^ 64 - o1)" by (simp add: unat_sub_if')
  then show ?thesis using assms by (auto simp: copy_bytes_def)
next
  case False
  then have "length bs = 0" using assms(1) by linarith
  then show ?thesis by auto
qed

text \<open>The content of the files, empty when there is none.\<close>

definition file_bytes :: "u8 list option \<Rightarrow> u8 list" where
  "file_bytes f = (case f of None \<Rightarrow> [] | Some bs \<Rightarrow> bs)"

text \<open>Offset of the initial RAM disk in RAM; the end of RAM without one.\<close>

definition initrd_offset :: "VirtMachineParams \<Rightarrow> nat" where
  "initrd_offset p =
     (if file_bytes (vp_initrd p) = [] then unat (vp_ram_size p)
      else unat (fst (initrd_range p) - vp_ram_base_addr p))"

lemma load_kernel_copy:
  assumes "load_kernel p (mm, m) = Inr bm"
    and ram: "\<And>a. a - vp_ram_base_addr p < vp_ram_size p \<Longrightarrow> get_ram_ptr mm a = Some (rp + (a - vp_ram_base_addr p))"
  shows "bm = (mm, copy_bytes (rp + of_nat 0x200000) (file_bytes (vp_kernel p)) m)"
    and "file_bytes (vp_kernel p) \<noteq> [] \<Longrightarrow> 0x200000 + length (file_bytes (vp_kernel p)) \<le> unat (vp_ram_size p)"
proof -
  show "bm = (mm, copy_bytes (rp + of_nat 0x200000) (file_bytes (vp_kernel p)) m)"
    using assms(1) ram [of "vp_ram_base_addr p + 0x200000"]
    by (auto simp: load_kernel_def file_bytes_def copy_to_Inr not_le split: option.splits list.splits if_splits)
  show "0x200000 + length (file_bytes (vp_kernel p)) \<le> unat (vp_ram_size p)" if "file_bytes (vp_kernel p) \<noteq> []"
    using assms(1) that
    by (auto simp: load_kernel_def file_bytes_def unat_sub_if' word_le_nat_alt split: option.splits list.splits if_splits)
qed

lemma unat_round_page: "unat (push_bit 12 (drop_bit 12 (w :: u64))) = unat w div 4096 * 4096"
proof -
  have "unat w div 4096 * 4096 \<le> unat w" by simp
  also have "unat w < 2 ^ 64" using unsigned_less [of w] by simp
  finally have "take_bit 64 (unat w div 4096 * 4096) = unat w div 4096 * 4096" by (rule take_bit_nat_eq_self)
  moreover have "unat (push_bit 12 (drop_bit 12 w)) = take_bit LENGTH(64) (push_bit 12 (drop_bit 12 (unat w)))"
    by (simp only: unsigned_push_bit_eq unat_drop_bit_eq)
  ultimately show ?thesis by (simp add: push_bit_eq_mult drop_bit_eq_div)
qed

lemma initrd_offset_bounds:
  assumes "unat (vp_ram_base_addr p) + unat (vp_ram_size p) < 2 ^ 64" "4096 dvd unat (vp_ram_base_addr p)"
    and "file_bytes (vp_initrd p) \<noteq> []" "length (file_bytes (vp_initrd p)) \<le> unat (vp_ram_size p)"
  shows "initrd_offset p + length (file_bytes (vp_initrd p)) \<le> unat (vp_ram_size p)"
    and "fst (initrd_range p) = vp_ram_base_addr p + of_nat (initrd_offset p)" and "4096 dvd unat (fst (initrd_range p))"
proof -
  let ?B = "unat (vp_ram_base_addr p)" and ?S = "unat (vp_ram_size p)" and ?L = "length (file_bytes (vp_initrd p))"
  let ?w = "vp_ram_base_addr p + vp_ram_size p - of_nat ?L"
  have "unat (of_nat ?L :: u64) = ?L" using assms(1,4) by (simp add: unat_of_nat)
  moreover have "unat (vp_ram_base_addr p + vp_ram_size p) = ?B + ?S" using assms(1) by (simp add: unat_plus_if')
  ultimately have w: "unat ?w = ?B + (?S - ?L)" using assms(4) by (simp add: unat_sub_if')
  have s: "fst (initrd_range p) = push_bit 12 (drop_bit 12 ?w)"
    using assms(3) by (auto simp: initrd_range_def file_bytes_def Let_def split: option.splits list.splits)
  obtain q where q: "?B = 4096 * q" using assms(2) by blast
  have "unat (fst (initrd_range p)) = ?B + (?S - ?L) div 4096 * 4096"
    by (simp add: s unat_round_page w q)
  moreover from this show "4096 dvd unat (fst (initrd_range p))" using q by simp
  ultimately have o: "initrd_offset p = (?S - ?L) div 4096 * 4096"
    using assms(3) by (simp add: initrd_offset_def unat_sub_if')
  then show "initrd_offset p + ?L \<le> ?S" using assms(4) div_times_less_eq_dividend [of "?S - ?L" 4096] by linarith
  show "fst (initrd_range p) = vp_ram_base_addr p + of_nat (initrd_offset p)"
    using assms(3) by (simp add: initrd_offset_def)
qed

lemma load_initrd_copy:
  assumes "load_initrd p (mm, m) = Inr (initrd, bm)"
    and ram: "\<And>a. a - vp_ram_base_addr p < vp_ram_size p \<Longrightarrow> get_ram_ptr mm a = Some (rp + (a - vp_ram_base_addr p))"
    and base: "unat (vp_ram_base_addr p) + unat (vp_ram_size p) < 2 ^ 64" "4096 dvd unat (vp_ram_base_addr p)"
  shows "bm = (mm, copy_bytes (rp + of_nat (initrd_offset p)) (file_bytes (vp_initrd p)) m)"
    and "length (file_bytes (vp_initrd p)) \<le> unat (vp_ram_size p)"
proof -
  show len: "length (file_bytes (vp_initrd p)) \<le> unat (vp_ram_size p)"
    using assms(1) by (auto simp: load_initrd_def file_bytes_def split: option.splits list.splits if_splits)
  show "bm = (mm, copy_bytes (rp + of_nat (initrd_offset p)) (file_bytes (vp_initrd p)) m)"
  proof (cases "file_bytes (vp_initrd p) = []")
    case True
    then show ?thesis using assms(1) by (auto simp: load_initrd_def file_bytes_def split: option.splits list.splits)
  next
    case False
    note b = initrd_offset_bounds [OF base False len]
    have "length (file_bytes (vp_initrd p)) > 0" using False by simp
    then have "initrd_offset p < unat (vp_ram_size p)" using b(1) by linarith
    then have lt: "of_nat (initrd_offset p) < vp_ram_size p" using base(1) by (simp add: word_less_nat_alt unat_of_nat)
    have "copy_to (fst (initrd_range p)) (file_bytes (vp_initrd p)) (mm, m) = Inr bm"
      using assms(1) False
      by (auto simp: load_initrd_def initrd_range_def file_bytes_def boot_Inr Let_def split: option.splits list.splits if_splits)
    then show ?thesis using ram [of "fst (initrd_range p)"] lt by (auto simp: b(2) copy_to_Inr)
  qed
qed

lemma load_map:
  "copy_to a bs bm = Inr bm' \<Longrightarrow> fst bm' = fst bm" "load_kernel p bm = Inr bm' \<Longrightarrow> fst bm' = fst bm"
  "load_initrd p bm = Inr (r, bm') \<Longrightarrow> fst bm' = fst bm"
  by (auto simp: load_kernel_def load_initrd_def copy_to_Inr boot_Inr Let_def split: option.splits list.splits if_splits)

lemma boot_files:
  assumes c: "copy_kernel alloc p fw (mm, m) = Inr (mm', m')" and raw: "elf64_is_riscv64 fw = Some False"
    and rom: "vp_bootrom p = None" "\<not> vp_compact_bootrom p"
    and ram: "\<And>a. a - vp_ram_base_addr p < vp_ram_size p \<Longrightarrow> get_ram_ptr mm' a = Some (rp + (a - vp_ram_base_addr p))"
    and q: "get_ram_ptr mm' ROM_BASE_ADDR = Some q"
    and size: "unat (vp_ram_base_addr p) + unat (vp_ram_size p) < 2 ^ 64"
  obtains bytes code m1 where
    "riscv_build_fdt (vp_dtb p) (fdt_params_of p (fst (initrd_range p)) (snd (initrd_range p))) = Some bytes"
    "m' = copy_bytes (q + 256) bytes (copy_bytes q code m1)" "length code = 48"
    "m1 = copy_bytes (rp + of_nat (initrd_offset p)) (file_bytes (vp_initrd p))
            (copy_bytes (rp + of_nat 0x200000) (file_bytes (vp_kernel p)) (copy_bytes rp fw m))"
    "file_bytes (vp_kernel p) \<noteq> [] \<longrightarrow> 0x200000 + length (file_bytes (vp_kernel p)) \<le> unat (vp_ram_size p)"
    "initrd_offset p + length (file_bytes (vp_initrd p)) \<le> unat (vp_ram_size p)" "length fw \<le> unat (vp_ram_size p)"
    "4096 dvd unat (vp_ram_base_addr p)"
proof -
  have nb: "load_firmware alloc p fw (mm, m) = Inr (hb, bm1) \<Longrightarrow> \<not> hb \<and> copy_to (vp_ram_base_addr p) fw (mm, m) = Inr bm1" for hb bm1
    using raw by (auto simp: load_firmware_def boot_Inr)
  have fw: "length fw \<le> unat (vp_ram_size p)" using c by (auto simp: copy_kernel_def split: if_splits)
  obtain bm1 bm2 initrd bm3 where s: "copy_to (vp_ram_base_addr p) fw (mm, m) = Inr bm1" "load_kernel p bm1 = Inr bm2"
    "load_initrd p bm2 = Inr (initrd, bm3)" "setup_rom p initrd bm3 = Inr (mm', m')"
    using c nb by (fastforce simp: copy_kernel_def boot_bind_Inr split: if_splits)
  note i = load_initrd_range [OF s(3)]
  obtain q' bytes where r: "get_ram_ptr (fst bm3) ROM_BASE_ADDR = Some q'"
    "riscv_build_fdt (vp_dtb p) (fdt_params_of p (fst (initrd_range p)) (snd (initrd_range p))) = Some bytes" "mm' = fst bm3"
    "m' = copy_bytes (q' + 256) bytes (copy_bytes q' (concat (map le32_bytes (bootrom_code (vp_ncpus p) (vp_ram_base_addr p)))) (snd bm3))"
    "vp_ram_base_addr p \<in> {0x80000000, 0x8000000000, 0xc000000000}"
    by (rule setup_rom_Inr [OF s(4) [unfolded i] rom, unfolded fst_conv snd_conv]) metis
  have base: "4096 dvd unat (vp_ram_base_addr p)" using r(5) by auto
  have mm: "fst bm1 = mm" "fst bm2 = mm" "fst bm3 = mm" "mm' = mm" using load_map s(1-3) r(3) by auto
  note ram' = ram [unfolded mm(4)]
  have f: "bm1 = (mm, copy_bytes rp fw m)"
  proof (cases "fw = []")
    case False
    then have "0 < length fw" by simp
    then have "0 < unat (vp_ram_size p)" using fw by linarith
    then have "vp_ram_base_addr p - vp_ram_base_addr p < vp_ram_size p" by (simp add: word_less_nat_alt)
    then show ?thesis using ram' [of "vp_ram_base_addr p"] s(1) by (auto simp: copy_to_Inr)
  qed (use s(1) in \<open>auto simp: copy_to_Inr\<close>)
  note k = load_kernel_copy [OF s(2) [unfolded f] ram']
  have "load_initrd p (mm, copy_bytes (rp + of_nat 0x200000) (file_bytes (vp_kernel p)) (copy_bytes rp fw m)) = Inr (initrd, bm3)"
    using s(3) k(1) by simp
  note d = load_initrd_copy [OF this ram' size base]
  have off: "initrd_offset p + length (file_bytes (vp_initrd p)) \<le> unat (vp_ram_size p)"
    using initrd_offset_bounds(1) [OF size base _ d(2)] by (cases "file_bytes (vp_initrd p) = []") (simp_all add: initrd_offset_def)
  have "q' = q" using r(1) q mm by simp
  then show ?thesis
    using that [OF r(2) _ _ refl _ off fw base] k(2) r(4) d(1) by (simp add: bootrom_code_def le32_bytes_def)
qed

section \<open>An example\<close>

definition example_alloc :: "nat \<Rightarrow> u64" where
  "example_alloc n = (if n = 0 then 0x100000000 else 0x200000)"

definition example_vm :: VirtMachineParams where
  "example_vm = (virt_machine_set_defaults example_stdio)\<lparr>vp_bios := Some [0x13, 0, 0, 0], vp_ram_size := 0x10000000, vp_ncpus := 2\<rparr>"

lemma example_vm_simps [simp]:
  "vp_ram_base_addr example_vm = 0x80000000" "vp_ram_size example_vm = 0x10000000" "vp_bios example_vm = Some [0x13, 0, 0, 0]"
  "vp_kernel example_vm = None" "vp_initrd example_vm = None" "vp_bootrom example_vm = None" "vp_dtb example_vm = None"
  "vp_compact_bootrom example_vm = False" "vp_reset_vector example_vm = 0x10000" "vp_ncpus example_vm = 2"
  "vp_physical_addr_len example_vm = 40" "vp_cmdline example_vm = None" "vp_input_device example_vm = None"
  "vp_drive_count example_vm = 0" "vp_fs_count example_vm = 0" "vp_eth_count example_vm = 0"
  "vp_plic_base_addr example_vm = 0x10000000" "vp_plic_size example_vm = 0x2000000" "vp_clint_base_addr example_vm = 0x02000000"
  "vp_clint_size example_vm = 0xc0000"
  by (simp_all add: example_vm_def virt_machine_set_defaults_def)

definition example_ram :: "u64 \<Rightarrow> u64 \<Rightarrow> u64 \<Rightarrow> PhysMemoryRange" where
  "example_ram a n q = \<lparr>pr_addr = a, pr_org_size = n, pr_size = n, pr_is_ram = True, pr_devram_flags = 0, pr_phys_mem = q,
     pr_dirty_bits_size = 0, pr_dirty_bits = False, pr_dirty_bits_tab = \<lambda>_ _. 0, pr_dirty_bits_index = 0, pr_opaque = 0, pr_devio_flags = 0\<rparr>"

definition example_dev :: "u64 \<Rightarrow> u64 \<Rightarrow> nat \<Rightarrow> u32 \<Rightarrow> PhysMemoryRange" where
  "example_dev a n k f = (example_ram a n 0)\<lparr>pr_is_ram := False, pr_opaque := k, pr_devio_flags := f\<rparr>"

definition example_map :: PhysMemoryMap where
  "example_map = [example_ram 0x80000000 0x10000000 0x100000000, example_ram 0x10000 0x1000 0x200000, example_dev 0x54000000 32 0 4,
     example_dev 0x12002000 0x1000 1 7, example_dev 0x12007000 0x1000 1 7, example_dev 0x02000000 0xc0000 2 7,
     example_dev 0x10000000 0x2000000 3 4]"

lemma page_bounds:
  fixes a :: u64
  assumes "a AND NOT 0xfff = 0x10000"
  shows "0x10000 \<le> a" "a < 0x11000"
proof -
  have "a = (a AND NOT 0xfff) OR (a AND 0xfff)" by (metis bit.conj_disj_distrib bit.disj_cancel_left and.right_neutral)
  also have "\<dots> = (a AND NOT 0xfff) + (a AND 0xfff)"
    by (rule disjunctive_add [symmetric]) (auto simp only: bit_and_iff bit_not_iff)
  finally have "a = 0x10000 + (a AND 0xfff)" using assms by simp
  moreover have "a AND 0xfff \<le> 0xfff" by (rule word_and_le1)
  ultimately obtain d where "a = 0x10000 + d" "d \<le> 0xfff" by blast
  moreover have "0x10000 \<le> 0x10000 + d" "0x10000 + d \<le> 0x10fff"
    using \<open>d \<le> 0xfff\<close> word_plus_mono_right2 [of "0x10000" "0xfff" d] word_plus_mono_right [of d "0xfff" "0x10000"] by simp_all
  ultimately show "0x10000 \<le> a" "a < 0x11000" using le_less_trans [of "0x10000 + d" "0x10fff" "0x11000"] by simp_all
qed

lemma example_rom: "rom_at example_map 1 0x200000"
proof -
  have "get_phys_mem_range example_map a = Some 1" if a: "0x10000 \<le> a" "a < 0x11000" for a
  proof -
    have dev: "\<not> in_phys_range a (example_dev c s k f)" if "0x11000 \<le> c" for c s k f
      using less_le_trans [OF a(2) that] by (simp add: in_phys_range_def example_dev_def example_ram_def not_le)
    have "\<not> in_phys_range a (example_dev 0x54000000 s k f)" "\<not> in_phys_range a (example_dev 0x12002000 s k f)"
      "\<not> in_phys_range a (example_dev 0x12007000 s k f)" "\<not> in_phys_range a (example_dev 0x02000000 s k f)"
      "\<not> in_phys_range a (example_dev 0x10000000 s k f)" for s k f
      by (simp_all add: dev)
    moreover have "in_phys_range a (example_ram 0x10000 0x1000 q)" for q using a by (simp add: in_phys_range_def example_ram_def)
    ultimately show ?thesis by (simp add: get_phys_mem_range_def example_map_def numeral_eq_Suc)
  qed
  then show ?thesis
    using page_bounds by (auto simp: rom_at_def example_map_def example_ram_def range_ptr_def)
qed

lemma example_vm_boots:
  obtains b where "virt_machine_init example_alloc (\<lambda>_. 0) example_vm = Inr b" "board_map b = example_map"
proof -
  obtain bytes where "riscv_build_fdt None (fdt_params_of example_vm 0 0) = Some bytes" using build_fdt_returns by blast
  then have "\<exists>b. virt_machine_init example_alloc (\<lambda>_. 0) example_vm = Inr b \<and> board_map b = example_map"
    by (simp add: virt_machine_init_def cpu_register_ram_def default_register_ram_def register_ram_entry_def phys_mem_map_init_def
      example_alloc_def boot_bind_def or_abort_def register_devices_def cpu_register_device_def Let_def virtio_count_def
      copy_kernel_def load_firmware_def elf64_is_riscv64_def copy_to_def get_ram_ptr_def get_phys_mem_range_def in_phys_range_def
      load_kernel_def load_initrd_def setup_rom_def generate_bootrom_def board_init_def example_map_def example_dev_def example_ram_def)
  then show ?thesis using that by auto
qed

lemma example_fdt_fits:
  assumes "riscv_build_fdt (vp_dtb example_vm) (fdt_params_of example_vm (fst (initrd_range example_vm)) (snd (initrd_range example_vm))) = Some bytes"
  shows "length bytes \<le> 0xf00"
proof -
  let ?fp = "fdt_params_of example_vm (fst (initrd_range example_vm)) (snd (initrd_range example_vm))"
  have fp: "fdt_params_ok ?fp" by (simp add: fdt_params_ok_def fdt_params_of_def virtio_count_def)
  have bytes: "riscv_build_fdt None ?fp = Some bytes" using assms by simp
  have "f_misa ?fp h = 0x14112d" for h
    by (simp add: fdt_params_of_def example_vm_def virt_machine_set_defaults_def riscv_cpu_init_def tlb_init_def)
  moreover have "isa_string 0x14112d = ''rv64acdfimsu''" by (simp add: isa_string_def upt_rec bit_numeral_rec numeral_eq_Suc)
  ultimately show ?thesis
    using device_tree_size [OF fp bytes] by (simp add: fdt_params_of_def virtio_count_def initrd_range_def)
qed

lemma example_ram_ptr:
  assumes "a - 0x80000000 < 0x10000000"
  shows "get_ram_ptr example_map a = Some (0x100000000 + (a - 0x80000000))"
proof -
  define d where "d = a - 0x80000000"
  have a: "unat a = 0x80000000 + unat d" "unat d < 0x10000000"
  proof -
    show d: "unat d < 0x10000000" using assms by (simp add: d_def word_less_nat_alt)
    have "a = 0x80000000 + d" by (simp add: d_def)
    then show "unat a = 0x80000000 + unat d" using d by (simp add: unat_plus_if')
  qed
  have "\<not> in_phys_range a (example_dev 0x54000000 32 k f)" "\<not> in_phys_range a (example_dev 0x12002000 0x1000 k f)"
    "\<not> in_phys_range a (example_dev 0x12007000 0x1000 k f)" "\<not> in_phys_range a (example_dev 0x02000000 0xc0000 k f)"
    "\<not> in_phys_range a (example_dev 0x10000000 0x2000000 k f)" "\<not> in_phys_range a (example_ram 0x10000 0x1000 q)"
    "in_phys_range a (example_ram 0x80000000 0x10000000 q)" for k f q
    using a by (simp_all add: in_phys_range_def example_dev_def example_ram_def word_less_nat_alt word_le_nat_alt)
  then have "get_phys_mem_range example_map a = Some 0" by (simp add: get_phys_mem_range_def example_map_def numeral_eq_Suc)
  then show ?thesis by (simp add: get_ram_ptr_def example_map_def example_ram_def range_ptr_def)
qed



text \<open>
  Where the files are after the machine has been created with a raw firmware image.  The initial
  RAM disk is complete, starts on a page boundary and ends within RAM; the kernel is complete at
  offset 0x200000 if it ends before the RAM disk; the firmware is complete at the start of RAM
  if it ends before the kernel and the RAM disk.  Nothing else is needed of the host than that its
  blocks for RAM and boot ROM do not overlap.
\<close>

theorem boot_layout:
  assumes "virt_machine_init alloc mem p = Inr b" and "vp_bios p = Some fw" and "elf64_is_riscv64 fw = Some False"
    and "vp_bootrom p = None" and "\<not> vp_compact_bootrom p"
    and "\<And>a. a - vp_ram_base_addr p < vp_ram_size p \<Longrightarrow> get_ram_ptr (board_map b) a = Some (rp + (a - vp_ram_base_addr p))"
    and "get_ram_ptr (board_map b) ROM_BASE_ADDR = Some q"
    and "\<And>x y. x < 0x1000 \<Longrightarrow> y < vp_ram_size p \<Longrightarrow> q + x \<noteq> rp + y"
    and "unat (vp_ram_base_addr p) + unat (vp_ram_size p) < 2 ^ 64"
    and "\<And>bytes. riscv_build_fdt (vp_dtb p) (fdt_params_of p (fst (initrd_range p)) (snd (initrd_range p))) = Some bytes \<Longrightarrow> length bytes \<le> 0xf00"
    and "ks = file_bytes (vp_kernel p)" and "ds = file_bytes (vp_initrd p)"
  shows "initrd_offset p + length ds \<le> unat (vp_ram_size p) \<and> (ds \<noteq> [] \<longrightarrow> 4096 dvd initrd_offset p) \<and>
    (\<forall>i<length ds. board_ram b (rp + of_nat (initrd_offset p + i)) = ds ! i) \<and>
    (0x200000 + length ks \<le> initrd_offset p \<longrightarrow> (\<forall>i<length ks. board_ram b (rp + of_nat (0x200000 + i)) = ks ! i)) \<and>
    ((ks = [] \<or> length fw \<le> 0x200000) \<and> length fw \<le> initrd_offset p \<longrightarrow> (\<forall>i<length fw. board_ram b (rp + of_nat i) = fw ! i))"
proof -
  obtain bm where "copy_kernel alloc p fw bm = Inr (board_map b, board_ram b)" using virt_machine_init_Inr [OF assms(1,2)] by metis
  then obtain mm m where c: "copy_kernel alloc p fw (mm, m) = Inr (board_map b, board_ram b)" by (cases bm) auto
  obtain bytes code m1 where f:
    "riscv_build_fdt (vp_dtb p) (fdt_params_of p (fst (initrd_range p)) (snd (initrd_range p))) = Some bytes"
    "board_ram b = copy_bytes (q + 256) bytes (copy_bytes q code m1)" "length code = 48"
    "m1 = copy_bytes (rp + of_nat (initrd_offset p)) ds (copy_bytes (rp + of_nat 0x200000) ks (copy_bytes rp fw m))"
    "ks \<noteq> [] \<longrightarrow> 0x200000 + length ks \<le> unat (vp_ram_size p)"
    "initrd_offset p + length ds \<le> unat (vp_ram_size p)" "length fw \<le> unat (vp_ram_size p)" "4096 dvd unat (vp_ram_base_addr p)"
    by (rule boot_files [OF c assms(3-7,9), folded assms(11,12)]) blast
  have bytes: "length bytes \<le> 0xf00" by (rule assms(10) [OF f(1)])
  have keep: "board_ram b (rp + of_nat j) = m1 (rp + of_nat j)" if j: "j < unat (vp_ram_size p)" for j
  proof -
    have y: "of_nat j < vp_ram_size p" using j assms(9) by (simp add: word_less_nat_alt unat_of_nat)
    have "q + 256 + x \<noteq> rp + of_nat j" if x: "unat x < length bytes" for x
    proof -
      have "256 + x < 0x1000" using x bytes by (simp add: word_less_nat_alt unat_plus_if')
      from assms(8) [OF this y] show ?thesis by (simp add: add.assoc)
    qed
    moreover have "q + x \<noteq> rp + of_nat j" if "unat x < length code" for x
      using assms(8) [OF _ y, of x] that f(3) by (simp add: word_less_nat_alt)
    ultimately show ?thesis by (simp add: f(2) copy_bytes_disjoint)
  qed
  have S: "unat (vp_ram_size p) < 2 ^ 64" using assms(9) by simp
  have m1: "m1 (rp + of_nat j) =
      (if initrd_offset p \<le> j \<and> j < initrd_offset p + length ds then ds ! (j - initrd_offset p)
       else if 0x200000 \<le> j \<and> j < 0x200000 + length ks then ks ! (j - 0x200000)
       else if j < length fw then fw ! j else m (rp + of_nat j))" if "j < unat (vp_ram_size p)" for j
  proof -
    have "0x200000 + length ks \<le> 2 ^ 64" using f(5) S by (cases "ks = []") auto
    then show ?thesis using that S f(6,7) by (simp add: f(4) copy_bytes_at copy_bytes_at [of 0, simplified] del: of_nat_numeral)
  qed
  have "ds \<noteq> [] \<longrightarrow> 4096 dvd initrd_offset p"
  proof
    assume ds: "ds \<noteq> []"
    then have l: "file_bytes (vp_initrd p) \<noteq> []" "length (file_bytes (vp_initrd p)) \<le> unat (vp_ram_size p)" using f(6) assms(12) by simp_all
    note o = initrd_offset_bounds [OF assms(9) f(8) l]
    have "unat (of_nat (initrd_offset p) :: u64) = initrd_offset p" using o(1) S by (simp add: unat_of_nat)
    then have "unat (fst (initrd_range p)) = unat (vp_ram_base_addr p) + initrd_offset p"
      using o(1) assms(9) by (simp add: o(2) unat_plus_if')
    then show "4096 dvd initrd_offset p" using o(3) f(8) by (metis dvd_add_right_iff)
  qed
  then show ?thesis using f(5-7) by (auto simp: keep m1 simp del: of_nat_add)
qed

theorem boot_layout_witness:
  "\<exists>b. virt_machine_init example_alloc (\<lambda>_. 0) example_vm = Inr b \<and> (\<forall>i<4. board_ram b (0x100000000 + of_nat i) = [0x13, 0, 0, 0] ! i)"
proof -
  obtain b where b: "virt_machine_init example_alloc (\<lambda>_. 0) example_vm = Inr b" "board_map b = example_map"
    by (rule example_vm_boots)
  note fit = example_fdt_fits
  have ram: "get_ram_ptr (board_map b) a = Some (0x100000000 + (a - vp_ram_base_addr example_vm))"
    if "a - vp_ram_base_addr example_vm < vp_ram_size example_vm" for a
    using example_ram_ptr [of a] that b(2) by simp
  have q: "get_ram_ptr (board_map b) ROM_BASE_ADDR = Some 0x200000" using rom_at_ptr(1) [OF example_rom] b(2) by simp
  have dis: "0x200000 + x \<noteq> 0x100000000 + y" if "x < 0x1000" "y < vp_ram_size example_vm" for x y :: u64
  proof
    assume "0x200000 + x = 0x100000000 + y"
    then have "unat (0x200000 + x) = unat (0x100000000 + y)" by (rule arg_cong)
    then show False using that by (simp add: word_less_nat_alt unat_plus_if')
  qed
  show ?thesis
    using boot_layout [OF b(1) _ _ _ _ ram q dis _ fit refl refl, of "[0x13, 0, 0, 0]"] b(1)
    by (simp add: elf64_is_riscv64_def file_bytes_def initrd_offset_def)
qed

end
