(* ===== verification/Virtio.thy ===== *)
theory Virtio
  imports Boot
begin

text \<open>
  Virtio devices (\<open>src/virtio.cpp\<close>): the virtqueues in the memory of the guest, the registers
  of the MMIO and of the PCI transport, and the configuration space.  What a device does with a request is the
  callback \<open>device_recv\<close>, an argument of the operations here; the devices are in \<open>Virtio_Devices\<close>.

  An operation returns \<open>None\<close> when the simulator stops at an assertion, accesses a buffer out of
  bounds, uses an uninitialised variable, or does not return.  A C \<open>int\<close> is an \<open>int\<close> in the range of
  32 bits; \<open>c_int\<close> is the conversion from \<open>uint32_t\<close>.
\<close>

section \<open>State\<close>

abbreviation (input) MAX_QUEUE :: nat where "MAX_QUEUE \<equiv> 8"
abbreviation (input) MAX_CONFIG_SPACE_SIZE :: nat where "MAX_CONFIG_SPACE_SIZE \<equiv> 256"
abbreviation (input) MAX_QUEUE_NUM :: u32 where "MAX_QUEUE_NUM \<equiv> 16"
abbreviation (input) VIRTIO_PAGE_SIZE :: int where "VIRTIO_PAGE_SIZE \<equiv> 4096"
abbreviation (input) VRING_DESC_F_NEXT :: u16 where "VRING_DESC_F_NEXT \<equiv> 1"
abbreviation (input) VRING_DESC_F_WRITE :: u16 where "VRING_DESC_F_WRITE \<equiv> 2"

record QueueState =
  qs_ready :: u32
  qs_num :: u32
  last_avail_idx :: u16
  desc_addr :: u64
  avail_addr :: u64
  used_addr :: u64
  manual_recv :: bool

record VIRTIODesc =
  vd_addr :: u64
  vd_len :: u32
  vd_flags :: u16
  vd_next :: u16

text \<open>
  \<open>v_ram\<close> is the host memory, which contains the memory of the guest; \<open>v_irq\<close> are the levels
  \<open>set_irq\<close> was called with, in order.  The configuration space starts at position 0.
\<close>

record VIRTIODevice =
  v_map :: PhysMemoryMap
  v_ram :: host_mem
  v_irq :: "bool list"
  int_status :: u32
  v_status :: u32
  device_features_sel :: u32
  queue_sel :: u32
  v_queue :: "nat \<Rightarrow> QueueState"
  device_id :: u32
  vendor_id :: u32
  device_features :: u32
  config_space_size :: u32
  config_space :: host_mem

text \<open>The callback: the queue, the head of the chain, the sizes of its readable and writable parts.\<close>

type_synonym 's device_recv = "'s \<Rightarrow> nat \<Rightarrow> u16 \<Rightarrow> int \<Rightarrow> int \<Rightarrow> (int \<times> 's) option"

definition c_int :: "u32 \<Rightarrow> int" where
  "c_int w = sint w"

definition virtio_set_irq :: "bool \<Rightarrow> 'z VIRTIODevice_scheme \<Rightarrow> 'z VIRTIODevice_scheme" where
  "virtio_set_irq level s = s\<lparr>v_irq := v_irq s @ [level]\<rparr>"

definition update_queue :: "nat \<Rightarrow> (QueueState \<Rightarrow> QueueState) \<Rightarrow> 'z VIRTIODevice_scheme \<Rightarrow> 'z VIRTIODevice_scheme" where
  "update_queue i f s = s\<lparr>v_queue := (v_queue s)(i := f (v_queue s i))\<rparr>"

definition reset_queue :: "QueueState \<Rightarrow> QueueState" where
  "reset_queue qs = qs\<lparr>qs_ready := 0, qs_num := MAX_QUEUE_NUM, desc_addr := 0, avail_addr := 0, used_addr := 0, last_avail_idx := 0\<rparr>"

definition virtio_reset :: "'z VIRTIODevice_scheme \<Rightarrow> 'z VIRTIODevice_scheme" where
  "virtio_reset s =
     fold (\<lambda>i. update_queue i reset_queue) [0..<MAX_QUEUE]
       (s\<lparr>v_status := 0, queue_sel := 0, device_features_sel := 0, int_status := 0\<rparr>)"

text \<open>\<open>virtio_init\<close> after the registration of the device, on a zeroed structure.\<close>

definition virtio_init :: "PhysMemoryMap \<Rightarrow> host_mem \<Rightarrow> u32 \<Rightarrow> u32 \<Rightarrow> VIRTIODevice" where
  "virtio_init mm mem dev config_size =
     virtio_reset
       \<lparr>v_map = mm, v_ram = mem, v_irq = [], int_status = 0, v_status = 0, device_features_sel = 0, queue_sel = 0,
        v_queue = (\<lambda>_. \<lparr>qs_ready = 0, qs_num = 0, last_avail_idx = 0, desc_addr = 0, avail_addr = 0, used_addr = 0,
                     manual_recv = False\<rparr>),
        device_id = dev, vendor_id = 0xffff, device_features = 0, config_space_size = config_size, config_space = (\<lambda>_. 0)\<rparr>"

section \<open>Memory of the guest\<close>

definition virtio_mmio_get_ram_ptr :: "'z VIRTIODevice_scheme \<Rightarrow> u64 \<Rightarrow> u64 option" where
  "virtio_mmio_get_ram_ptr s paddr =
     (case get_phys_mem_range (v_map s) paddr of
        None \<Rightarrow> None
      | Some i \<Rightarrow> if pr_is_ram (v_map s ! i) then Some (range_ptr (v_map s ! i) paddr) else None)"

definition virtio_read16 :: "'z VIRTIODevice_scheme \<Rightarrow> u64 \<Rightarrow> u16" where
  "virtio_read16 s addr =
     (if addr AND 1 \<noteq> 0 then 0
      else case virtio_mmio_get_ram_ptr s addr of None \<Rightarrow> 0 | Some ptr \<Rightarrow> get_le16 (v_ram s) ptr)"

definition virtio_write16 :: "'z VIRTIODevice_scheme \<Rightarrow> u64 \<Rightarrow> u16 \<Rightarrow> 'z VIRTIODevice_scheme" where
  "virtio_write16 s addr v =
     (if addr AND 1 \<noteq> 0 then s
      else case virtio_mmio_get_ram_ptr s addr of None \<Rightarrow> s | Some ptr \<Rightarrow> s\<lparr>v_ram := put_le16 (v_ram s) ptr v\<rparr>)"

definition virtio_write32 :: "'z VIRTIODevice_scheme \<Rightarrow> u64 \<Rightarrow> u32 \<Rightarrow> 'z VIRTIODevice_scheme" where
  "virtio_write32 s addr v =
     (if addr AND 3 \<noteq> 0 then s
      else case virtio_mmio_get_ram_ptr s addr of None \<Rightarrow> s | Some ptr \<Rightarrow> s\<lparr>v_ram := put_le32 (v_ram s) ptr v\<rparr>)"

text \<open>The bytes up to the end of the page, at most \<open>count\<close>.\<close>

definition page_part :: "u64 \<Rightarrow> int \<Rightarrow> int" where
  "page_part addr count = min_int count (VIRTIO_PAGE_SIZE - uint (addr AND 0xfff))"

definition host_bytes :: "host_mem \<Rightarrow> u64 \<Rightarrow> nat \<Rightarrow> u8 list" where
  "host_bytes m ptr n = map (\<lambda>i. m (ptr + of_nat i)) [0..<n]"

lemma page_part_pos: "0 < count \<Longrightarrow> 0 < page_part addr count"
proof -
  have "addr AND 0xfff \<le> 0xfff" by (rule word_and_le1)
  then have "uint (addr AND 0xfff) \<le> 0xfff" by (simp add: word_le_def)
  then show "0 < count \<Longrightarrow> 0 < page_part addr count" by (simp add: page_part_def min_int_def)
qed

text \<open>
  Copying from and to a buffer of the host, from position \<open>pos\<close> on.  The result is 0, or -1 when a
  page is not RAM, and what has been copied until then.
\<close>

definition copy_into :: "u8 list \<Rightarrow> int \<Rightarrow> u8 list \<Rightarrow> u8 list option" where
  "copy_into buf pos bs =
     (if 0 \<le> pos \<and> nat pos + length bs \<le> length buf
      then Some (take (nat pos) buf @ bs @ drop (nat pos + length bs) buf) else None)"

definition copy_out :: "u8 list \<Rightarrow> int \<Rightarrow> nat \<Rightarrow> u8 list option" where
  "copy_out buf pos n =
     (if 0 \<le> pos \<and> nat pos + n \<le> length buf then Some (take n (drop (nat pos) buf)) else None)"

function virtio_memcpy_from_ram ::
  "'z VIRTIODevice_scheme \<Rightarrow> u8 list \<Rightarrow> int \<Rightarrow> u64 \<Rightarrow> int \<Rightarrow> (int \<times> u8 list) option" where
  "virtio_memcpy_from_ram s buf pos addr count =
     (if count > 0 then
        let l = page_part addr count
        in case virtio_mmio_get_ram_ptr s addr of
             None \<Rightarrow> Some (- 1, buf)
           | Some ptr \<Rightarrow>
               Option.bind (copy_into buf pos (host_bytes (v_ram s) ptr (nat l)))
                 (\<lambda>buf. virtio_memcpy_from_ram s buf (pos + l) (addr + of_int l) (count - l))
      else Some (0, buf))"
  by pat_completeness auto
termination by (relation "measure (\<lambda>(s, buf, pos, addr, count). nat count)") (use page_part_pos in auto)

function virtio_memcpy_to_ram ::
  "'z VIRTIODevice_scheme \<Rightarrow> u64 \<Rightarrow> u8 list \<Rightarrow> int \<Rightarrow> int \<Rightarrow> (int \<times> 'z VIRTIODevice_scheme) option" where
  "virtio_memcpy_to_ram s addr buf pos count =
     (if count > 0 then
        let l = page_part addr count
        in case virtio_mmio_get_ram_ptr s addr of
             None \<Rightarrow> Some (- 1, s)
           | Some ptr \<Rightarrow>
               Option.bind (copy_out buf pos (nat l))
                 (\<lambda>bs. virtio_memcpy_to_ram (s\<lparr>v_ram := copy_bytes ptr bs (v_ram s)\<rparr>) (addr + of_int l) buf (pos + l) (count - l))
      else Some (0, s))"
  by pat_completeness auto
termination by (relation "measure (\<lambda>(s, addr, buf, pos, count). nat count)") (use page_part_pos in auto)

declare virtio_memcpy_from_ram.simps [simp del] virtio_memcpy_to_ram.simps [simp del]

section \<open>Descriptors\<close>

text \<open>The memory representation of a descriptor.\<close>

definition le16_bytes :: "u16 \<Rightarrow> u8 list" where
  "le16_bytes v = [ucast v, ucast (drop_bit 8 v)]"

definition le64_bytes :: "u64 \<Rightarrow> u8 list" where
  "le64_bytes v = le32_bytes (ucast v) @ le32_bytes (ucast (drop_bit 32 v))"

definition desc_bytes :: "VIRTIODesc \<Rightarrow> u8 list" where
  "desc_bytes d = le64_bytes (vd_addr d) @ le32_bytes (vd_len d) @ le16_bytes (vd_flags d) @ le16_bytes (vd_next d)"

definition list_mem :: "u8 list \<Rightarrow> host_mem" where
  "list_mem bs p = (if unat p < length bs then bs ! unat p else 0)"

definition desc_at :: "host_mem \<Rightarrow> u64 \<Rightarrow> VIRTIODesc" where
  "desc_at m p = \<lparr>vd_addr = get_le64 m p, vd_len = get_le32 m (p + 8), vd_flags = get_le16 m (p + 12), vd_next = get_le16 m (p + 14)\<rparr>"

definition read_desc :: "'z VIRTIODevice_scheme \<Rightarrow> u8 list \<Rightarrow> nat \<Rightarrow> u16 \<Rightarrow> (int \<times> u8 list) option" where
  "read_desc s buf q i = virtio_memcpy_from_ram s buf 0 (desc_addr (v_queue s q) + ucast i * 16) 16"

text \<open>
  The result of \<open>get_desc\<close> is never looked at.  The first call of a function fills an uninitialised
  variable: if it fails the variable must not be used.  A later call that fails keeps the
  old content, or the part of it beyond the first page.
\<close>

definition first_desc :: "'z VIRTIODevice_scheme \<Rightarrow> nat \<Rightarrow> u16 \<Rightarrow> VIRTIODesc option" where
  "first_desc s q i =
     (case read_desc s (replicate 16 0) q i of
        Some (r, bs) \<Rightarrow> if r < 0 then None else Some (desc_at (list_mem bs) 0)
      | None \<Rightarrow> None)"

definition get_desc :: "'z VIRTIODevice_scheme \<Rightarrow> VIRTIODesc \<Rightarrow> nat \<Rightarrow> u16 \<Rightarrow> VIRTIODesc" where
  "get_desc s d q i =
     (case read_desc s (desc_bytes d) q i of
        Some (r, bs) \<Rightarrow> desc_at (list_mem bs) 0
      | None \<Rightarrow> d)"

definition has_next :: "VIRTIODesc \<Rightarrow> bool" where
  "has_next d \<longleftrightarrow> vd_flags d AND VRING_DESC_F_NEXT \<noteq> 0"

definition is_write :: "VIRTIODesc \<Rightarrow> bool" where
  "is_write d \<longleftrightarrow> vd_flags d AND VRING_DESC_F_WRITE \<noteq> 0"

section \<open>Copying from and to a chain of descriptors\<close>

text \<open>
  The loops follow the links the guest has written and need not end.  \<open>Some None\<close>: the function
  returns -1.
\<close>

partial_function (option) find_write ::
  "'z VIRTIODevice_scheme \<Rightarrow> nat \<Rightarrow> VIRTIODesc \<Rightarrow> VIRTIODesc option option" where
  "find_write s q d =
     (if is_write d then Some (Some d)
      else if \<not> has_next d then Some None
      else find_write s q (get_desc s d q (vd_next d)))"

partial_function (option) find_offset ::
  "'z VIRTIODevice_scheme \<Rightarrow> nat \<Rightarrow> bool \<Rightarrow> VIRTIODesc \<Rightarrow> int \<Rightarrow> (VIRTIODesc \<times> int) option option" where
  "find_offset s q w d offset =
     (if is_write d \<noteq> w then Some None
      else if offset < c_int (vd_len d) then Some (Some (d, offset))
      else if \<not> has_next d then Some None
      else find_offset s q w (get_desc s d q (vd_next d)) (c_int (of_int offset - vd_len d)))"

text \<open>One of the two copies, from or to the buffer at position \<open>pos\<close>.\<close>

definition desc_copy ::
  "'z VIRTIODevice_scheme \<Rightarrow> bool \<Rightarrow> u64 \<Rightarrow> u8 list \<Rightarrow> int \<Rightarrow> int \<Rightarrow> ('z VIRTIODevice_scheme \<times> u8 list) option" where
  "desc_copy s w addr buf pos l =
     (if w then map_option (\<lambda>(r, s). (s, buf)) (virtio_memcpy_to_ram s addr buf pos l)
      else map_option (\<lambda>(r, buf). (s, buf)) (virtio_memcpy_from_ram s buf pos addr l))"

partial_function (option) copy_chain ::
  "'z VIRTIODevice_scheme \<Rightarrow> nat \<Rightarrow> bool \<Rightarrow> VIRTIODesc \<Rightarrow> int \<Rightarrow> u8 list \<Rightarrow> int \<Rightarrow> int
     \<Rightarrow> (int \<times> 'z VIRTIODevice_scheme \<times> u8 list) option" where
  "copy_chain s q w d offset buf pos count =
     (let l = min_int count (c_int (vd_len d - of_int offset))
      in Option.bind (desc_copy s w (vd_addr d + of_int offset) buf pos l) (\<lambda>(s, buf).
         if count - l = 0 then Some (0, s, buf)
         else if 2 ^ 31 \<le> count - l then None
         else if offset + l = c_int (vd_len d) then
           if \<not> has_next d then Some (- 1, s, buf)
           else
             let d = get_desc s d q (vd_next d)
             in if is_write d \<noteq> w then Some (- 1, s, buf)
                else copy_chain s q w d 0 buf (pos + l) (count - l)
         else copy_chain s q w d (offset + l) buf (pos + l) (count - l)))"

definition memcpy_to_from_queue ::
  "'z VIRTIODevice_scheme \<Rightarrow> u8 list \<Rightarrow> nat \<Rightarrow> u16 \<Rightarrow> int \<Rightarrow> int \<Rightarrow> bool \<Rightarrow> (int \<times> 'z VIRTIODevice_scheme \<times> u8 list) option" where
  "memcpy_to_from_queue s buf q i offset count to_queue =
     (if count = 0 then Some (0, s, buf)
      else
        Option.bind (first_desc s q i) (\<lambda>d.
        Option.bind (if to_queue then find_write s q d else Some (Some d)) (\<lambda>d.
        case d of
          None \<Rightarrow> Some (- 1, s, buf)
        | Some d \<Rightarrow>
            Option.bind (find_offset s q to_queue d offset) (\<lambda>p.
            case p of
              None \<Rightarrow> Some (- 1, s, buf)
            | Some (d, offset) \<Rightarrow> copy_chain s q to_queue d offset buf 0 count))))"

definition memcpy_from_queue ::
  "'z VIRTIODevice_scheme \<Rightarrow> u8 list \<Rightarrow> nat \<Rightarrow> u16 \<Rightarrow> int \<Rightarrow> int \<Rightarrow> (int \<times> u8 list) option" where
  "memcpy_from_queue s buf q i offset count =
     map_option (\<lambda>(r, s, buf). (r, buf)) (memcpy_to_from_queue s buf q i offset count False)"

definition memcpy_to_queue ::
  "'z VIRTIODevice_scheme \<Rightarrow> nat \<Rightarrow> u16 \<Rightarrow> int \<Rightarrow> u8 list \<Rightarrow> int \<Rightarrow> (int \<times> 'z VIRTIODevice_scheme) option" where
  "memcpy_to_queue s q i offset buf count =
     map_option (\<lambda>(r, s, buf). (r, s)) (memcpy_to_from_queue s buf q i offset count True)"

section \<open>Queues\<close>

text \<open>The descriptor is entered into the used ring and the interrupt raised.\<close>

definition virtio_consume_desc :: "'z VIRTIODevice_scheme \<Rightarrow> nat \<Rightarrow> u16 \<Rightarrow> u32 \<Rightarrow> 'z VIRTIODevice_scheme" where
  "virtio_consume_desc s q desc_idx desc_len =
     (let qs = v_queue s q;
          index = virtio_read16 s (used_addr qs + 2);
          s = virtio_write16 s (used_addr qs + 2) (index + 1);
          addr = used_addr qs + 4 + ucast ((ucast index AND (qs_num qs - 1)) * 8 :: u32);
          s = virtio_write32 s addr (ucast desc_idx);
          s = virtio_write32 s (addr + 4) desc_len
      in virtio_set_irq True (s\<lparr>int_status := int_status s OR 1\<rparr>))"

partial_function (option) sum_write :: "'z VIRTIODevice_scheme \<Rightarrow> nat \<Rightarrow> VIRTIODesc \<Rightarrow> int \<Rightarrow> int option option" where
  "sum_write s q d write_size =
     (if \<not> is_write d then Some None
      else
        let write_size = c_int (of_int write_size + vd_len d)
        in if \<not> has_next d then Some (Some write_size)
           else sum_write s q (get_desc s d q (vd_next d)) write_size)"

partial_function (option) sum_read :: "'z VIRTIODevice_scheme \<Rightarrow> nat \<Rightarrow> VIRTIODesc \<Rightarrow> int \<Rightarrow> (int \<times> int) option option" where
  "sum_read s q d read_size =
     (if is_write d then map_option (map_option (\<lambda>write_size. (read_size, write_size))) (sum_write s q d 0)
      else
        let read_size = c_int (of_int read_size + vd_len d)
        in if \<not> has_next d then Some (Some (read_size, 0))
           else sum_read s q (get_desc s d q (vd_next d)) read_size)"

definition get_desc_rw_size :: "'z VIRTIODevice_scheme \<Rightarrow> nat \<Rightarrow> u16 \<Rightarrow> (int \<times> int) option option" where
  "get_desc_rw_size s q i = Option.bind (first_desc s q i) (\<lambda>d. sum_read s q d 0)"

text \<open>The head of the chain at the position \<open>last_avail_idx\<close> of the available ring.\<close>

definition avail_idx :: "'z VIRTIODevice_scheme \<Rightarrow> nat \<Rightarrow> u16" where
  "avail_idx s q = virtio_read16 s (avail_addr (v_queue s q) + 2)"

definition next_avail :: "'z VIRTIODevice_scheme \<Rightarrow> nat \<Rightarrow> u16" where
  "next_avail s q =
     (let qs = v_queue s q
      in virtio_read16 s (avail_addr qs + 4 + ucast ((ucast (last_avail_idx qs) AND (qs_num qs - 1)) * 2 :: u32)))"

definition bump_avail :: "nat \<Rightarrow> 'z VIRTIODevice_scheme \<Rightarrow> 'z VIRTIODevice_scheme" where
  "bump_avail q s = update_queue q (\<lambda>qs. qs\<lparr>last_avail_idx := last_avail_idx qs + 1\<rparr>) s"

partial_function (option) notify_loop ::
  "'z VIRTIODevice_scheme device_recv \<Rightarrow> nat \<Rightarrow> u16 \<Rightarrow> 'z VIRTIODevice_scheme \<Rightarrow> 'z VIRTIODevice_scheme option" where
  "notify_loop recv q avail s =
     (if last_avail_idx (v_queue s q) = avail then Some s
      else
        let i = next_avail s q
        in Option.bind (get_desc_rw_size s q i) (\<lambda>sizes.
           case sizes of
             None \<Rightarrow> notify_loop recv q avail (bump_avail q s)
           | Some (read_size, write_size) \<Rightarrow>
               Option.bind (recv s q i read_size write_size) (\<lambda>(r, s).
               if r < 0 then Some s else notify_loop recv q avail (bump_avail q s))))"

definition queue_notify ::
  "'z VIRTIODevice_scheme device_recv \<Rightarrow> nat \<Rightarrow> 'z VIRTIODevice_scheme \<Rightarrow> 'z VIRTIODevice_scheme option" where
  "queue_notify recv q s =
     (if manual_recv (v_queue s q) then Some s else notify_loop recv q (avail_idx s q) s)"

section \<open>Configuration space\<close>

definition virtio_config_read :: "'z VIRTIODevice_scheme \<Rightarrow> u32 \<Rightarrow> nat \<Rightarrow> u32 option" where
  "virtio_config_read s offset size_log2 =
     (if size_log2 = 0 then
        Some (if offset < config_space_size s then ucast (config_space s (ucast offset)) else 0)
      else if size_log2 = 1 then
        Some (if offset < config_space_size s - 1 then ucast (get_le16 (config_space s) (ucast offset)) else 0)
      else if size_log2 = 2 then
        Some (if offset < config_space_size s - 3 then get_le32 (config_space s) (ucast offset) else 0)
      else None)"

text \<open>\<open>config_write\<close> is the callback; it does nothing for the devices without one.\<close>

definition virtio_config_write ::
  "('z VIRTIODevice_scheme \<Rightarrow> 'z VIRTIODevice_scheme) \<Rightarrow> 'z VIRTIODevice_scheme \<Rightarrow> u32 \<Rightarrow> u32 \<Rightarrow> nat \<Rightarrow> 'z VIRTIODevice_scheme" where
  "virtio_config_write config_write s offset v size_log2 =
     (if size_log2 = 0 then
        if offset < config_space_size s
        then config_write (s\<lparr>config_space := (config_space s)(ucast offset := ucast v)\<rparr>) else s
      else if size_log2 = 1 then
        if offset < config_space_size s - 1
        then config_write (s\<lparr>config_space := put_le16 (config_space s) (ucast offset) (ucast v)\<rparr>) else s
      else if size_log2 = 2 then
        if offset < config_space_size s - 3
        then config_write (s\<lparr>config_space := put_le32 (config_space s) (ucast offset) v\<rparr>) else s
      else s)"

section \<open>MMIO registers\<close>

definition selected :: "'z VIRTIODevice_scheme \<Rightarrow> QueueState" where
  "selected s = v_queue s (unat (queue_sel s))"

definition read_features :: "'z VIRTIODevice_scheme \<Rightarrow> u32" where
  "read_features s =
     (if device_features_sel s = 0 then device_features s else if device_features_sel s = 1 then 1 else 0)"

definition virtio_mmio_read :: "'z VIRTIODevice_scheme \<Rightarrow> u32 \<Rightarrow> nat \<Rightarrow> u32 option" where
  "virtio_mmio_read s offset size_log2 =
     (if offset \<ge> 0x100 then virtio_config_read s (offset - 0x100) size_log2
      else if size_log2 = 2 then
        Some (if offset = 0x000 then 0x74726976
              else if offset = 0x004 then 2
              else if offset = 0x008 then device_id s
              else if offset = 0x00c then vendor_id s
              else if offset = 0x010 then read_features s
              else if offset = 0x014 then device_features_sel s
              else if offset = 0x030 then queue_sel s
              else if offset = 0x034 then MAX_QUEUE_NUM
              else if offset = 0x038 then qs_num (selected s)
              else if offset = 0x080 then ucast (desc_addr (selected s))
              else if offset = 0x090 then ucast (avail_addr (selected s))
              else if offset = 0x0a0 then ucast (used_addr (selected s))
              else if offset = 0x084 then ucast (drop_bit 32 (desc_addr (selected s)))
              else if offset = 0x094 then ucast (drop_bit 32 (avail_addr (selected s)))
              else if offset = 0x0a4 then ucast (drop_bit 32 (used_addr (selected s)))
              else if offset = 0x044 then qs_ready (selected s)
              else if offset = 0x060 then int_status s
              else if offset = 0x070 then v_status s
              else 0)
      else Some 0)"

definition set_low32 :: "u64 \<Rightarrow> u32 \<Rightarrow> u64" where
  "set_low32 a v = (a AND NOT 0xffffffff) OR ucast v"

definition set_high32 :: "u64 \<Rightarrow> u32 \<Rightarrow> u64" where
  "set_high32 a v = (a AND 0xffffffff) OR push_bit 32 (ucast v)"

definition update_selected :: "(QueueState \<Rightarrow> QueueState) \<Rightarrow> 'z VIRTIODevice_scheme \<Rightarrow> 'z VIRTIODevice_scheme" where
  "update_selected f s = update_queue (unat (queue_sel s)) f s"

definition set_queue_num :: "u32 \<Rightarrow> 'z VIRTIODevice_scheme \<Rightarrow> 'z VIRTIODevice_scheme" where
  "set_queue_num v s = (if v AND (v - 1) = 0 \<and> v > 0 then update_selected (\<lambda>qs. qs\<lparr>qs_num := v\<rparr>) s else s)"

definition write_status :: "u32 \<Rightarrow> 'z VIRTIODevice_scheme \<Rightarrow> 'z VIRTIODevice_scheme" where
  "write_status v s =
     (let s = s\<lparr>v_status := v\<rparr> in if v = 0 then virtio_reset (virtio_set_irq False s) else s)"

definition interrupt_ack :: "u32 \<Rightarrow> 'z VIRTIODevice_scheme \<Rightarrow> 'z VIRTIODevice_scheme" where
  "interrupt_ack v s =
     (let s = s\<lparr>int_status := int_status s AND NOT v\<rparr>
      in if int_status s = 0 then virtio_set_irq False s else s)"

definition virtio_mmio_write ::
  "'z VIRTIODevice_scheme device_recv \<Rightarrow> ('z VIRTIODevice_scheme \<Rightarrow> 'z VIRTIODevice_scheme)
     \<Rightarrow> 'z VIRTIODevice_scheme \<Rightarrow> u32 \<Rightarrow> u32 \<Rightarrow> nat \<Rightarrow> 'z VIRTIODevice_scheme option" where
  "virtio_mmio_write recv config_write s offset v size_log2 =
     (if offset \<ge> 0x100 then Some (virtio_config_write config_write s (offset - 0x100) v size_log2)
      else if size_log2 = 2 then
        if offset = 0x014 then Some (s\<lparr>device_features_sel := v\<rparr>)
        else if offset = 0x030 then Some (if v < of_nat MAX_QUEUE then s\<lparr>queue_sel := v\<rparr> else s)
        else if offset = 0x038 then Some (set_queue_num v s)
        else if offset = 0x080 then Some (update_selected (\<lambda>qs. qs\<lparr>desc_addr := set_low32 (desc_addr qs) v\<rparr>) s)
        else if offset = 0x090 then Some (update_selected (\<lambda>qs. qs\<lparr>avail_addr := set_low32 (avail_addr qs) v\<rparr>) s)
        else if offset = 0x0a0 then Some (update_selected (\<lambda>qs. qs\<lparr>used_addr := set_low32 (used_addr qs) v\<rparr>) s)
        else if offset = 0x084 then Some (update_selected (\<lambda>qs. qs\<lparr>desc_addr := set_high32 (desc_addr qs) v\<rparr>) s)
        else if offset = 0x094 then Some (update_selected (\<lambda>qs. qs\<lparr>avail_addr := set_high32 (avail_addr qs) v\<rparr>) s)
        else if offset = 0x0a4 then Some (update_selected (\<lambda>qs. qs\<lparr>used_addr := set_high32 (used_addr qs) v\<rparr>) s)
        else if offset = 0x070 then Some (write_status v s)
        else if offset = 0x044 then Some (update_selected (\<lambda>qs. qs\<lparr>qs_ready := v AND 1\<rparr>) s)
        else if offset = 0x050 then (if v < of_nat MAX_QUEUE then queue_notify recv (unat v) s else Some s)
        else if offset = 0x064 then Some (interrupt_ack v s)
        else Some s
      else Some s)"

section \<open>PCI registers\<close>

text \<open>The read of the interrupt status has an effect, so that the device is returned, too.\<close>

definition virtio_pci_read :: "'z VIRTIODevice_scheme \<Rightarrow> u32 \<Rightarrow> nat \<Rightarrow> (u32 \<times> 'z VIRTIODevice_scheme) option" where
  "virtio_pci_read s offset1 size_log2 =
     (let offset = offset1 AND 0xfff; page = drop_bit 12 offset1
      in if page = 0 then
           Some (if size_log2 = 2 then
                   if offset = 0x004 then read_features s
                   else if offset = 0x000 then device_features_sel s
                   else if offset = 0x020 then ucast (desc_addr (selected s))
                   else if offset = 0x028 then ucast (avail_addr (selected s))
                   else if offset = 0x030 then ucast (used_addr (selected s))
                   else if offset = 0x024 then ucast (drop_bit 32 (desc_addr (selected s)))
                   else if offset = 0x02c then ucast (drop_bit 32 (avail_addr (selected s)))
                   else if offset = 0x034 then ucast (drop_bit 32 (used_addr (selected s)))
                   else 0
                 else if size_log2 = 1 then
                   if offset = 0x012 then MAX_QUEUE_NUM
                   else if offset = 0x016 then queue_sel s
                   else if offset = 0x018 then qs_num (selected s)
                   else if offset = 0x01c then qs_ready (selected s)
                   else 0
                 else if size_log2 = 0 \<and> offset = 0x014 then v_status s
                 else 0, s)
         else if page = 1 then
           Some (if offset = 0 \<and> size_log2 = 0 then (int_status s, virtio_set_irq False (s\<lparr>int_status := 0\<rparr>)) else (0, s))
         else if page = 2 then map_option (\<lambda>v. (v, s)) (virtio_config_read s offset size_log2)
         else Some (0, s))"

definition virtio_pci_write ::
  "'z VIRTIODevice_scheme device_recv \<Rightarrow> ('z VIRTIODevice_scheme \<Rightarrow> 'z VIRTIODevice_scheme)
     \<Rightarrow> 'z VIRTIODevice_scheme \<Rightarrow> u32 \<Rightarrow> u32 \<Rightarrow> nat \<Rightarrow> 'z VIRTIODevice_scheme option" where
  "virtio_pci_write recv config_write s offset1 v size_log2 =
     (let offset = offset1 AND 0xfff; page = drop_bit 12 offset1
      in if page = 0 then
           Some (if size_log2 = 2 then
                   if offset = 0x000 then s\<lparr>device_features_sel := v\<rparr>
                   else if offset = 0x020 then update_selected (\<lambda>qs. qs\<lparr>desc_addr := set_low32 (desc_addr qs) v\<rparr>) s
                   else if offset = 0x028 then update_selected (\<lambda>qs. qs\<lparr>avail_addr := set_low32 (avail_addr qs) v\<rparr>) s
                   else if offset = 0x030 then update_selected (\<lambda>qs. qs\<lparr>used_addr := set_low32 (used_addr qs) v\<rparr>) s
                   else if offset = 0x024 then update_selected (\<lambda>qs. qs\<lparr>desc_addr := set_high32 (desc_addr qs) v\<rparr>) s
                   else if offset = 0x02c then update_selected (\<lambda>qs. qs\<lparr>avail_addr := set_high32 (avail_addr qs) v\<rparr>) s
                   else if offset = 0x034 then update_selected (\<lambda>qs. qs\<lparr>used_addr := set_high32 (used_addr qs) v\<rparr>) s
                   else s
                 else if size_log2 = 1 then
                   if offset = 0x016 then (if v < of_nat MAX_QUEUE then s\<lparr>queue_sel := v\<rparr> else s)
                   else if offset = 0x018 then set_queue_num v s
                   else if offset = 0x01c then update_selected (\<lambda>qs. qs\<lparr>qs_ready := v AND 1\<rparr>) s
                   else s
                 else if size_log2 = 0 \<and> offset = 0x014 then write_status v s
                 else s)
         else if page = 2 then Some (virtio_config_write config_write s offset v size_log2)
         else if page = 3 then (if v < of_nat MAX_QUEUE then queue_notify recv (unat v) s else Some s)
         else Some s)"

definition virtio_config_change_notify :: "'z VIRTIODevice_scheme \<Rightarrow> 'z VIRTIODevice_scheme" where
  "virtio_config_change_notify s = virtio_set_irq True (s\<lparr>int_status := int_status s OR 2\<rparr>)"

end
