(* ===== verification/Virtio_Devices.thy ===== *)
theory Virtio_Devices
  imports Virtio
begin

text \<open>
  The devices behind the virtio transport (\<open>src/virtio.cpp\<close>): block, network, console and input
  device, and the files that back a disk (\<open>BlockDeviceFile\<close> of \<open>src/dromajo_main.cpp\<close>).  The
  function \<open>fresh\<close> is the content of a block of memory that \<open>malloc\<close> or the stack provides, which
  the code does not initialise.
\<close>

section \<open>Disk images\<close>

datatype BlockDeviceModeEnum = BF_MODE_RO | BF_MODE_RW | BF_MODE_SNAPSHOT

abbreviation (input) SECTOR_SIZE :: nat where "SECTOR_SIZE \<equiv> 512"

text \<open>The image is a stream with a position; \<open>sector_table\<close> has the written sectors in snapshot mode.\<close>

record BlockDeviceFile =
  bf_data :: "u8 list"
  bf_pos :: nat
  nb_sectors :: int
  bf_mode :: BlockDeviceModeEnum
  sector_table :: "nat \<Rightarrow> u8 list option"

definition bf_seek :: "u64 \<Rightarrow> BlockDeviceFile \<Rightarrow> BlockDeviceFile" where
  "bf_seek off bf = (if sint off < 0 then bf else bf\<lparr>bf_pos := unat off\<rparr>)"

text \<open>A short read fails the assertion of the callers.\<close>

definition bf_fread :: "nat \<Rightarrow> BlockDeviceFile \<Rightarrow> (u8 list \<times> BlockDeviceFile) option" where
  "bf_fread n bf =
     (if bf_pos bf + n \<le> length (bf_data bf)
      then Some (take n (drop (bf_pos bf) (bf_data bf)), bf\<lparr>bf_pos := bf_pos bf + n\<rparr>) else None)"

definition bf_fwrite :: "u8 list \<Rightarrow> BlockDeviceFile \<Rightarrow> BlockDeviceFile" where
  "bf_fwrite bs bf =
     (if bs = [] then bf
      else
        let data = bf_data bf @ replicate (bf_pos bf - length (bf_data bf)) 0
        in bf\<lparr>bf_data := take (bf_pos bf) data @ bs @ drop (bf_pos bf + length bs) data,
              bf_pos := bf_pos bf + length bs\<rparr>)"

definition block_device_init :: "u8 list \<Rightarrow> BlockDeviceModeEnum \<Rightarrow> BlockDeviceFile" where
  "block_device_init file mode =
     \<lparr>bf_data = file, bf_pos = length file, nb_sectors = int (length file) div 512, bf_mode = mode, sector_table = (\<lambda>_. None)\<rparr>"

definition bf_get_sector_count :: "BlockDeviceFile \<Rightarrow> int" where
  "bf_get_sector_count bf = nb_sectors bf"

text \<open>\<open>n\<close> sectors in snapshot mode; an index outside of \<open>sector_table\<close> is \<open>None\<close>.\<close>

fun read_sectors :: "nat \<Rightarrow> u64 \<Rightarrow> BlockDeviceFile \<Rightarrow> (u8 list \<times> BlockDeviceFile) option" where
  "read_sectors 0 sector_num bf = Some ([], bf)"
| "read_sectors (Suc n) sector_num bf =
     (if nb_sectors bf \<le> uint sector_num then None
      else
        Option.bind
          (case sector_table bf (unat sector_num) of
             None \<Rightarrow> bf_fread SECTOR_SIZE (bf_seek (sector_num * 512) bf)
           | Some bs \<Rightarrow> Some (bs, bf)) (\<lambda>(bs, bf).
        map_option (\<lambda>(rest, bf). (bs @ rest, bf)) (read_sectors n (sector_num + 1) bf)))"

text \<open>The bytes read, in front of the buffer.  \<open>n\<close> is not negative.\<close>

definition bf_read_async :: "u64 \<Rightarrow> nat \<Rightarrow> BlockDeviceFile \<Rightarrow> (int \<times> u8 list \<times> BlockDeviceFile) option" where
  "bf_read_async sector_num n bf =
     (case bf_mode bf of
        BF_MODE_SNAPSHOT \<Rightarrow> map_option (\<lambda>(bs, bf). (0, bs, bf)) (read_sectors n sector_num bf)
      | _ \<Rightarrow> map_option (\<lambda>(bs, bf). (0, bs, bf)) (bf_fread (n * SECTOR_SIZE) (bf_seek (sector_num * 512) bf)))"

fun write_sectors :: "nat \<Rightarrow> u64 \<Rightarrow> u8 list \<Rightarrow> BlockDeviceFile \<Rightarrow> BlockDeviceFile option" where
  "write_sectors 0 sector_num buf bf = Some bf"
| "write_sectors (Suc n) sector_num buf bf =
     (if nb_sectors bf \<le> uint sector_num then None
      else write_sectors n (sector_num + 1) (drop SECTOR_SIZE buf)
             (bf\<lparr>sector_table := (sector_table bf)(unat sector_num \<mapsto> take SECTOR_SIZE buf)\<rparr>))"

definition bf_write_async :: "u64 \<Rightarrow> u8 list \<Rightarrow> nat \<Rightarrow> BlockDeviceFile \<Rightarrow> (int \<times> BlockDeviceFile) option" where
  "bf_write_async sector_num buf n bf =
     (case bf_mode bf of
        BF_MODE_RO \<Rightarrow> Some (- 1, bf)
      | BF_MODE_RW \<Rightarrow> Some (0, bf_fwrite (take (n * SECTOR_SIZE) buf) (bf_seek (sector_num * 512) bf))
      | BF_MODE_SNAPSHOT \<Rightarrow>
          if nb_sectors bf < uint (ucast (sector_num + of_nat n) :: u32) then Some (- 1, bf)
          else map_option (\<lambda>bf. (0, bf)) (write_sectors n sector_num buf bf))"

section \<open>Block device\<close>

abbreviation (input) VIRTIO_BLK_T_IN :: u32 where "VIRTIO_BLK_T_IN \<equiv> 0"
abbreviation (input) VIRTIO_BLK_T_OUT :: u32 where "VIRTIO_BLK_T_OUT \<equiv> 1"
abbreviation (input) VIRTIO_BLK_S_OK :: u8 where "VIRTIO_BLK_S_OK \<equiv> 0"
abbreviation (input) VIRTIO_BLK_S_IOERR :: u8 where "VIRTIO_BLK_S_IOERR \<equiv> 1"

record BlockRequest =
  req_type :: u32
  req_buf :: "u8 list"
  req_write_size :: int
  req_queue_idx :: nat
  req_desc_idx :: u16

record VIRTIOBlockDevice = VIRTIODevice +
  blk_bs :: BlockDeviceFile
  req_in_progress :: bool
  blk_req :: BlockRequest

text \<open>A block of \<open>n\<close> bytes; \<open>malloc\<close> fails on the huge sizes that negative numbers stand for.\<close>

definition malloc_buf :: "(nat \<Rightarrow> u8 list) \<Rightarrow> int \<Rightarrow> u8 list option" where
  "malloc_buf fresh n = (if n < 0 then None else Some (fresh (nat n)))"

definition virtio_block_req_end :: "'z VIRTIOBlockDevice_scheme \<Rightarrow> int \<Rightarrow> 'z VIRTIOBlockDevice_scheme option" where
  "virtio_block_req_end s ret =
     (let q = req_queue_idx (blk_req s); i = req_desc_idx (blk_req s);
          status = (if ret < 0 then VIRTIO_BLK_S_IOERR else VIRTIO_BLK_S_OK)
      in if req_type (blk_req s) = VIRTIO_BLK_T_IN then
           let write_size = req_write_size (blk_req s)
           in Option.bind (copy_into (req_buf (blk_req s)) (write_size - 1) [status]) (\<lambda>buf.
              map_option (\<lambda>(r, s). virtio_consume_desc s q i (of_int write_size)) (memcpy_to_queue s q i 0 buf write_size))
         else if req_type (blk_req s) = VIRTIO_BLK_T_OUT then
           map_option (\<lambda>(r, s). virtio_consume_desc s q i 1) (memcpy_to_queue s q i 0 [status] 1)
         else None)"

text \<open>The end of a request; a positive result means that it ends later, in the callback.\<close>

definition block_finish :: "'z VIRTIOBlockDevice_scheme \<Rightarrow> int \<Rightarrow> (int \<times> 'z VIRTIOBlockDevice_scheme) option" where
  "block_finish s ret =
     (if ret > 0 then Some (0, s\<lparr>req_in_progress := True\<rparr>)
      else map_option (\<lambda>s. (0, s)) (virtio_block_req_end s ret))"

definition block_read :: "(nat \<Rightarrow> u8 list) \<Rightarrow> 'z VIRTIOBlockDevice_scheme \<Rightarrow> u64 \<Rightarrow> int \<Rightarrow> (int \<times> 'z VIRTIOBlockDevice_scheme) option" where
  "block_read fresh s sector_num write_size =
     Option.bind (malloc_buf fresh write_size) (\<lambda>buf.
     Option.bind (bf_read_async sector_num (nat ((write_size - 1) sdiv 512)) (blk_bs s)) (\<lambda>(ret, bs, bf).
     Option.bind (copy_into buf 0 bs) (\<lambda>buf.
     block_finish (s\<lparr>blk_bs := bf, blk_req := (blk_req s)\<lparr>req_buf := buf, req_write_size := write_size\<rparr>\<rparr>) ret)))"

definition block_write ::
  "(nat \<Rightarrow> u8 list) \<Rightarrow> 'z VIRTIOBlockDevice_scheme \<Rightarrow> nat \<Rightarrow> u16 \<Rightarrow> u64 \<Rightarrow> int \<Rightarrow> int \<Rightarrow> (int \<times> 'z VIRTIOBlockDevice_scheme) option" where
  "block_write fresh s q i sector_num read_size write_size =
     (if write_size < 1 then None
      else
        let len = read_size - 16
        in Option.bind (malloc_buf fresh len) (\<lambda>buf.
           Option.bind (memcpy_from_queue s buf q i 16 len) (\<lambda>(r, buf).
           Option.bind (bf_write_async sector_num buf (nat (len sdiv 512)) (blk_bs s)) (\<lambda>(ret, bf).
           block_finish (s\<lparr>blk_bs := bf\<rparr>) ret))))"

definition virtio_block_recv_request :: "(nat \<Rightarrow> u8 list) \<Rightarrow> 'z VIRTIOBlockDevice_scheme device_recv" where
  "virtio_block_recv_request fresh s q i read_size write_size =
     (if req_in_progress s then Some (- 1, s)
      else
        Option.bind (memcpy_from_queue s (fresh 16) q i 0 16) (\<lambda>(r, h).
        if r < 0 then Some (0, s)
        else
          let type = get_le32 (list_mem h) 0; sector_num = get_le64 (list_mem h) 8;
              s = s\<lparr>blk_req := (blk_req s)\<lparr>req_type := type, req_queue_idx := q, req_desc_idx := i\<rparr>\<rparr>
          in if type = VIRTIO_BLK_T_IN then block_read fresh s sector_num write_size
             else if type = VIRTIO_BLK_T_OUT then block_write fresh s q i sector_num read_size write_size
             else Some (0, s)))"

definition virtio_block_req_cb :: "(nat \<Rightarrow> u8 list) \<Rightarrow> 'z VIRTIOBlockDevice_scheme \<Rightarrow> int \<Rightarrow> 'z VIRTIOBlockDevice_scheme option" where
  "virtio_block_req_cb fresh s ret =
     Option.bind (virtio_block_req_end s ret) (\<lambda>s.
     queue_notify (virtio_block_recv_request fresh) (req_queue_idx (blk_req s)) (s\<lparr>req_in_progress := False\<rparr>))"

definition virtio_block_init :: "PhysMemoryMap \<Rightarrow> host_mem \<Rightarrow> BlockDeviceFile \<Rightarrow> VIRTIOBlockDevice" where
  "virtio_block_init mm mem bf =
     (let n = bf_get_sector_count bf
      in VIRTIODevice.extend
           ((virtio_init mm mem 2 8)\<lparr>config_space := put_le32 (put_le32 (\<lambda>_. 0) 0 (of_int n)) 4 (of_int (n div 2 ^ 32))\<rparr>)
           \<lparr>blk_bs = bf, req_in_progress = False,
            blk_req = \<lparr>req_type = 0, req_buf = [], req_write_size = 0, req_queue_idx = 0, req_desc_idx = 0\<rparr>\<rparr>)"

section \<open>Network device\<close>

text \<open>\<open>net_sent\<close> are the packets handed to the network.\<close>

record VIRTIONetDevice = VIRTIODevice +
  net_sent :: "u8 list list"

abbreviation (input) net_header_size :: int where "net_header_size \<equiv> 12"

definition virtio_net_recv_request :: "(nat \<Rightarrow> u8 list) \<Rightarrow> 'z VIRTIONetDevice_scheme device_recv" where
  "virtio_net_recv_request fresh s q i read_size write_size =
     (if q = 1 then
        Option.bind (memcpy_from_queue s (fresh 12) q i 0 net_header_size) (\<lambda>(r, h).
        if r < 0 then Some (0, s)
        else
          let len = read_size - net_header_size
          in Option.bind (malloc_buf fresh len) (\<lambda>buf.
             Option.bind (memcpy_from_queue s buf q i net_header_size len) (\<lambda>(r, buf).
             Some (0, virtio_consume_desc (s\<lparr>net_sent := net_sent s @ [buf]\<rparr>) q i 0))))
      else Some (0, s))"

definition virtio_net_can_write_packet :: "'z VIRTIODevice_scheme \<Rightarrow> bool" where
  "virtio_net_can_write_packet s \<longleftrightarrow>
     qs_ready (v_queue s 0) \<noteq> 0 \<and> last_avail_idx (v_queue s 0) \<noteq> avail_idx s 0"

definition virtio_net_write_packet :: "'z VIRTIODevice_scheme \<Rightarrow> u8 list \<Rightarrow> 'z VIRTIODevice_scheme option" where
  "virtio_net_write_packet s buf =
     (if qs_ready (v_queue s 0) = 0 \<or> last_avail_idx (v_queue s 0) = avail_idx s 0 then Some s
      else
        let i = next_avail s 0
        in Option.bind (get_desc_rw_size s 0 i) (\<lambda>sizes.
           case sizes of
             None \<Rightarrow> Some s
           | Some (read_size, write_size) \<Rightarrow>
               let len = net_header_size + int (length buf)
               in if len > write_size then Some s
                  else
                    Option.bind (memcpy_to_queue s 0 i 0 (replicate 12 0) net_header_size) (\<lambda>(r, s).
                    Option.bind (memcpy_to_queue s 0 i net_header_size buf (int (length buf))) (\<lambda>(r, s).
                    Some (bump_avail 0 (virtio_consume_desc s 0 i (of_int len)))))))"

definition virtio_net_init :: "PhysMemoryMap \<Rightarrow> host_mem \<Rightarrow> u8 list \<Rightarrow> VIRTIONetDevice" where
  "virtio_net_init mm mem mac_addr =
     VIRTIODevice.extend
       (update_queue 0 (\<lambda>qs. qs\<lparr>manual_recv := True\<rparr>)
          ((virtio_init mm mem 1 8)\<lparr>device_features := push_bit 5 1, config_space := copy_bytes 0 (take 6 mac_addr) (\<lambda>_. 0)\<rparr>))
       \<lparr>net_sent = []\<rparr>"

section \<open>Console device\<close>

record VIRTIOConsoleDevice = VIRTIODevice +
  con_cs :: STDIODevice

definition virtio_console_recv_request :: "(nat \<Rightarrow> u8 list) \<Rightarrow> 'z VIRTIOConsoleDevice_scheme device_recv" where
  "virtio_console_recv_request fresh s q i read_size write_size =
     (if q = 1 then
        Option.bind (malloc_buf fresh read_size) (\<lambda>buf.
        Option.bind (memcpy_from_queue s buf q i 0 read_size) (\<lambda>(r, buf).
        Some (0, virtio_consume_desc (s\<lparr>con_cs := fold console_write buf (con_cs s)\<rparr>) q i 0)))
      else Some (0, s))"

definition virtio_console_can_write_data :: "'z VIRTIODevice_scheme \<Rightarrow> bool" where
  "virtio_console_can_write_data s \<longleftrightarrow>
     qs_ready (v_queue s 0) \<noteq> 0 \<and> last_avail_idx (v_queue s 0) \<noteq> avail_idx s 0"

definition virtio_console_get_write_len :: "'z VIRTIODevice_scheme \<Rightarrow> int option" where
  "virtio_console_get_write_len s =
     (if qs_ready (v_queue s 0) = 0 \<or> last_avail_idx (v_queue s 0) = avail_idx s 0 then Some 0
      else map_option (\<lambda>sizes. case sizes of None \<Rightarrow> 0 | Some (r, w) \<Rightarrow> w) (get_desc_rw_size s 0 (next_avail s 0)))"

text \<open>The bytes are copied to the next chain of queue 0, which is consumed.\<close>

definition push_buffer :: "'z VIRTIODevice_scheme \<Rightarrow> u8 list \<Rightarrow> 'z VIRTIODevice_scheme option" where
  "push_buffer s buf =
     (let i = next_avail s 0
      in map_option (\<lambda>(r, s). bump_avail 0 (virtio_consume_desc s 0 i (of_nat (length buf))))
           (memcpy_to_queue s 0 i 0 buf (int (length buf))))"

definition virtio_console_write_data :: "'z VIRTIODevice_scheme \<Rightarrow> u8 list \<Rightarrow> (int \<times> 'z VIRTIODevice_scheme) option" where
  "virtio_console_write_data s buf =
     (if qs_ready (v_queue s 0) = 0 \<or> last_avail_idx (v_queue s 0) = avail_idx s 0 then Some (0, s)
      else map_option (\<lambda>s. (int (length buf), s)) (push_buffer s buf))"

definition virtio_console_resize_event :: "'z VIRTIODevice_scheme \<Rightarrow> u16 \<Rightarrow> u16 \<Rightarrow> 'z VIRTIODevice_scheme" where
  "virtio_console_resize_event s width height =
     virtio_config_change_notify (s\<lparr>config_space := put_le16 (put_le16 (config_space s) 0 width) 2 height\<rparr>)"

definition virtio_console_init :: "PhysMemoryMap \<Rightarrow> host_mem \<Rightarrow> STDIODevice \<Rightarrow> VIRTIOConsoleDevice" where
  "virtio_console_init mm mem cs =
     VIRTIODevice.extend
       (update_queue 0 (\<lambda>qs. qs\<lparr>manual_recv := True\<rparr>) ((virtio_init mm mem 3 4)\<lparr>device_features := 1\<rparr>))
       \<lparr>con_cs = cs\<rparr>"

section \<open>Input devices\<close>

datatype VirtioInputTypeEnum = VIRTIO_INPUT_TYPE_KEYBOARD | VIRTIO_INPUT_TYPE_MOUSE | VIRTIO_INPUT_TYPE_TABLET

record VIRTIOInputDevice = VIRTIODevice +
  inp_type :: VirtioInputTypeEnum
  buttons_state :: u32

abbreviation (input) VIRTIO_INPUT_EV_SYN :: u16 where "VIRTIO_INPUT_EV_SYN \<equiv> 0"
abbreviation (input) VIRTIO_INPUT_EV_KEY :: u16 where "VIRTIO_INPUT_EV_KEY \<equiv> 1"
abbreviation (input) VIRTIO_INPUT_EV_REL :: u16 where "VIRTIO_INPUT_EV_REL \<equiv> 2"
abbreviation (input) VIRTIO_INPUT_EV_ABS :: u16 where "VIRTIO_INPUT_EV_ABS \<equiv> 3"

definition buttons_list :: "u16 list" where
  "buttons_list = [0x110, 0x111, 0x112]"

definition virtio_input_recv_request :: "'z VIRTIODevice_scheme device_recv" where
  "virtio_input_recv_request s q i read_size write_size =
     Some (0, if q = 1 then virtio_consume_desc s q i 0 else s)"

text \<open>The flag is the result 0; without it the event could not be sent and the result is -1.\<close>

definition virtio_input_queue_event ::
  "'z VIRTIODevice_scheme \<Rightarrow> u16 \<Rightarrow> u16 \<Rightarrow> u32 \<Rightarrow> (bool \<times> 'z VIRTIODevice_scheme) option" where
  "virtio_input_queue_event s type code v =
     (if qs_ready (v_queue s 0) = 0 \<or> last_avail_idx (v_queue s 0) = avail_idx s 0 then Some (False, s)
      else map_option (\<lambda>s. (True, s)) (push_buffer s (le16_bytes type @ le16_bytes code @ le32_bytes v)))"

text \<open>Events in order, until one cannot be sent.\<close>

fun send_events :: "(u16 \<times> u16 \<times> u32) list \<Rightarrow> 'z VIRTIODevice_scheme \<Rightarrow> (bool \<times> 'z VIRTIODevice_scheme) option" where
  "send_events [] s = Some (True, s)"
| "send_events ((type, code, v) # es) s =
     Option.bind (virtio_input_queue_event s type code v) (\<lambda>(ok, s). if ok then send_events es s else Some (False, s))"

definition virtio_input_send_key_event ::
  "'z VIRTIOInputDevice_scheme \<Rightarrow> bool \<Rightarrow> u16 \<Rightarrow> (bool \<times> 'z VIRTIOInputDevice_scheme) option" where
  "virtio_input_send_key_event s down key_code =
     (if inp_type s \<noteq> VIRTIO_INPUT_TYPE_KEYBOARD then Some (False, s)
      else send_events [(VIRTIO_INPUT_EV_KEY, key_code, if down then 1 else 0), (VIRTIO_INPUT_EV_SYN, 0, 0)] s)"

definition button_events :: "u32 \<Rightarrow> u32 \<Rightarrow> (u16 \<times> u16 \<times> u32) list" where
  "button_events buttons old =
     (if buttons = old then []
      else concat (map (\<lambda>i. let b = drop_bit i buttons AND 1 in
             if b \<noteq> drop_bit i old AND 1 then [(VIRTIO_INPUT_EV_KEY, buttons_list ! i, b)] else []) [0..<3]))"

definition virtio_input_send_mouse_event ::
  "'z VIRTIOInputDevice_scheme \<Rightarrow> u32 \<Rightarrow> u32 \<Rightarrow> u32 \<Rightarrow> u32 \<Rightarrow> (bool \<times> 'z VIRTIOInputDevice_scheme) option" where
  "virtio_input_send_mouse_event s dx dy dz buttons =
     (if inp_type s = VIRTIO_INPUT_TYPE_KEYBOARD then Some (False, s)
      else
        let ev = (if inp_type s = VIRTIO_INPUT_TYPE_MOUSE then VIRTIO_INPUT_EV_REL else VIRTIO_INPUT_EV_ABS)
        in Option.bind (send_events
             ([(ev, 0, dx), (ev, 1, dy)] @ (if dz \<noteq> 0 then [(VIRTIO_INPUT_EV_REL, 8, dz)] else [])
              @ button_events buttons (buttons_state s)) s) (\<lambda>(ok, s).
           if ok then send_events [(VIRTIO_INPUT_EV_SYN, 0, 0)] (s\<lparr>buttons_state := buttons\<rparr>) else Some (False, s)))"

definition virtio_set_bit :: "u64 \<Rightarrow> nat \<Rightarrow> host_mem \<Rightarrow> host_mem" where
  "virtio_set_bit t k m = m(t + of_nat (k div 8) := m (t + of_nat (k div 8)) OR push_bit (k mod 8) 1)"

definition input_name :: "VirtioInputTypeEnum \<Rightarrow> string" where
  "input_name t =
     (case t of
        VIRTIO_INPUT_TYPE_KEYBOARD \<Rightarrow> ''virtio_keyboard''
      | VIRTIO_INPUT_TYPE_MOUSE \<Rightarrow> ''virtio_mouse''
      | VIRTIO_INPUT_TYPE_TABLET \<Rightarrow> ''virtio_tablet'')"

definition pointer_keys :: "host_mem \<Rightarrow> host_mem" where
  "pointer_keys config =
     fold (virtio_set_bit 8) (map unat buttons_list) (copy_bytes 8 (replicate 64 0) (config(2 := 64)))"

definition input_ev_bits :: "VirtioInputTypeEnum \<Rightarrow> host_mem \<Rightarrow> host_mem" where
  "input_ev_bits t config0 =
     (let ev = config0 1; config = config0(2 := 0)
      in case t of
           VIRTIO_INPUT_TYPE_KEYBOARD \<Rightarrow>
             if ev = 1 then copy_bytes 8 (replicate 16 0xff) (config(2 := 16))
             else if ev = 0x14 then config(2 := 1) else config
         | VIRTIO_INPUT_TYPE_MOUSE \<Rightarrow>
             if ev = 1 then pointer_keys config
             else if ev = 2 then fold (virtio_set_bit 8) [0, 1, 8] (config(2 := 2, 8 := 0, 9 := 0)) else config
         | VIRTIO_INPUT_TYPE_TABLET \<Rightarrow>
             if ev = 1 then pointer_keys config
             else if ev = 2 then virtio_set_bit 8 8 (config(2 := 2, 8 := 0, 9 := 0))
             else if ev = 3 then fold (virtio_set_bit 8) [0, 1] (config(2 := 1, 8 := 0)) else config)"

definition input_config :: "VirtioInputTypeEnum \<Rightarrow> host_mem \<Rightarrow> host_mem" where
  "input_config t config =
     (if config 0 = 0 then config
      else if config 0 = 1 then
        copy_bytes 8 (map of_char (input_name t)) (config(2 := of_nat (length (input_name t))))
      else if config 0 = 0x11 then input_ev_bits t config
      else if config 0 = 0x12 then
        if t = VIRTIO_INPUT_TYPE_TABLET \<and> config 1 \<le> 1 then
          put_le32 (put_le32 (put_le32 (put_le32 (put_le32 (config(2 := 20)) 8 0) 12 0x7fff) 16 0) 20 0) 24 0
        else config
      else config(2 := 0))"

definition virtio_input_config_write :: "'z VIRTIOInputDevice_scheme \<Rightarrow> 'z VIRTIOInputDevice_scheme" where
  "virtio_input_config_write s = s\<lparr>config_space := input_config (inp_type s) (config_space s)\<rparr>"

definition virtio_input_init :: "PhysMemoryMap \<Rightarrow> host_mem \<Rightarrow> VirtioInputTypeEnum \<Rightarrow> VIRTIOInputDevice" where
  "virtio_input_init mm mem t =
     VIRTIODevice.extend (update_queue 0 (\<lambda>qs. qs\<lparr>manual_recv := True\<rparr>) (virtio_init mm mem 18 256))
       \<lparr>inp_type = t, buttons_state = 0\<rparr>"

end
