(* ===== verification/Virtio_Lemmas.thy ===== *)
theory Virtio_Lemmas
  imports Virtio_Devices
begin

text \<open>
  Shared facts on the virtio devices.  The first part is the contract of the callbacks of a device,
  a locale, and the invariant of the registers that follows from it; the second part says what the
  loops over a chain of descriptors do with the memory the chain stands for.
\<close>

section \<open>What an operation leaves alone\<close>

text \<open>Only the memory of the guest differs.\<close>

definition ram_only :: "'z VIRTIODevice_scheme \<Rightarrow> 'z VIRTIODevice_scheme \<Rightarrow> bool" where
  "ram_only s s' \<longleftrightarrow> (\<exists>m. s' = s\<lparr>v_ram := m\<rparr>)"

lemma ram_only_refl [simp]: "ram_only s s"
  unfolding ram_only_def by (rule exI [of _ "v_ram s"]) simp

lemma ram_only_upd [simp]: "ram_only s (s\<lparr>v_ram := m\<rparr>)"
  by (auto simp: ram_only_def)

lemma ram_only_trans: "ram_only s t \<Longrightarrow> ram_only t u \<Longrightarrow> ram_only s u"
  by (auto simp: ram_only_def)

lemma ram_only_fields:
  assumes "ram_only s s'"
  shows "v_map s' = v_map s" "v_queue s' = v_queue s" "queue_sel s' = queue_sel s" "int_status s' = int_status s"
    "v_irq s' = v_irq s" "config_space_size s' = config_space_size s" "VIRTIODevice.more s' = VIRTIODevice.more s"
  using assms by (auto simp: ram_only_def)

lemma write_ram_only: "ram_only s (virtio_write16 s a v)" "ram_only s (virtio_write32 s a w)"
  by (simp_all add: virtio_write16_def virtio_write32_def split: option.split)

lemma memcpy_to_ram_only: "virtio_memcpy_to_ram s addr buf pos count = Some (r, s') \<Longrightarrow> ram_only s s'"
proof (induction s addr buf pos count arbitrary: r s' rule: virtio_memcpy_to_ram.induct)
  case (1 s addr buf pos count)
  show ?case
  proof (cases "0 < count")
    case True
    show ?thesis
    proof (cases "virtio_mmio_get_ram_ptr s addr")
      case None
      then show ?thesis using 1(2) True by (simp add: virtio_memcpy_to_ram.simps)
    next
      case (Some ptr)
      then obtain bs where bs: "copy_out buf pos (nat (page_part addr count)) = Some bs" "virtio_memcpy_to_ram (s\<lparr>v_ram := copy_bytes ptr bs (v_ram s)\<rparr>)
          (addr + of_int (page_part addr count)) buf (pos + page_part addr count) (count - page_part addr count) = Some (r, s')"
        using 1(2) True by (subst (asm) virtio_memcpy_to_ram.simps) (auto simp: Let_def Option.bind_eq_Some_conv)
      from 1(1) [OF True refl Some bs] show ?thesis by (rule ram_only_trans [OF ram_only_upd])
    qed
  qed (use 1(2) in \<open>simp add: virtio_memcpy_to_ram.simps\<close>)
qed

lemma desc_copy_ram_only: "desc_copy s w a buf pos l = Some (s', buf') \<Longrightarrow> ram_only s s'"
  by (auto simp: desc_copy_def split: if_splits dest: memcpy_to_ram_only)

lemma copy_chain_ram_only':
  fixes s :: "'z VIRTIODevice_scheme"
  shows "copy_chain s q w d offset buf pos count = Some y \<Longrightarrow> ram_only s (fst (snd y))"
proof (rule copy_chain.raw_induct [where P = "\<lambda>s q w d offset buf pos count y. ram_only s (fst (snd y))"])
  fix rec :: "'z VIRTIODevice_scheme \<Rightarrow> nat \<Rightarrow> bool \<Rightarrow> VIRTIODesc \<Rightarrow> int \<Rightarrow> u8 list \<Rightarrow> int \<Rightarrow> int
      \<Rightarrow> (int \<times> 'z VIRTIODevice_scheme \<times> u8 list) option"
    and s q w offset buf pos count y and d :: VIRTIODesc
  assume IH: "\<And>s q w d offset buf pos count y. rec s q w d offset buf pos count = Some y \<Longrightarrow> ram_only s (fst (snd y))"
  let ?l = "min_int count (c_int (vd_len d - of_int offset))"
  assume "(let l = ?l in Option.bind (desc_copy s w (vd_addr d + of_int offset) buf pos l) (\<lambda>(s, buf).
         if count - l = 0 then Some (0, s, buf)
         else if 2 ^ 31 \<le> count - l then None
         else if offset + l = c_int (vd_len d) then
           if \<not> has_next d then Some (- 1, s, buf)
           else
             let d = get_desc s d q (vd_next d)
             in if is_write d \<noteq> w then Some (- 1, s, buf)
                else rec s q w d 0 buf (pos + l) (count - l)
         else rec s q w d (offset + l) buf (pos + l) (count - l))) = Some y"
  then obtain t b where t: "desc_copy s w (vd_addr d + of_int offset) buf pos ?l = Some (t, b)"
    and "ram_only t (fst (snd y))"
    by (auto simp: Let_def Option.bind_eq_Some_conv split: if_split_asm dest: IH)
  then show "ram_only s (fst (snd y))" by (blast intro: desc_copy_ram_only ram_only_trans)
qed

lemma copy_chain_ram_only: "copy_chain s q w d offset buf pos count = Some (r, s', buf') \<Longrightarrow> ram_only s s'"
  using copy_chain_ram_only' by fastforce

lemma memcpy_to_queue_only: "memcpy_to_queue s q i offset buf count = Some (r, s') \<Longrightarrow> ram_only s s'"
  by (auto simp: memcpy_to_queue_def memcpy_to_from_queue_def Option.bind_eq_Some_conv
      split: if_splits option.splits) (erule copy_chain_ram_only)

section \<open>The contract of a device\<close>

text \<open>The level of the interrupt line, and its agreement with the interrupt status.\<close>

definition irq_level :: "'z VIRTIODevice_scheme \<Rightarrow> bool" where
  "irq_level s \<longleftrightarrow> v_irq s \<noteq> [] \<and> last (v_irq s)"

definition irq_ok :: "'z VIRTIODevice_scheme \<Rightarrow> bool" where
  "irq_ok s \<longleftrightarrow> (irq_level s \<longleftrightarrow> int_status s \<noteq> 0)"

definition virtio_ok :: "'z VIRTIODevice_scheme \<Rightarrow> bool" where
  "virtio_ok s \<longleftrightarrow> irq_ok s \<and> queue_sel s < 8 \<and> 4 \<le> config_space_size s \<and> config_space_size s \<le> 256 \<and>
     (\<forall>q < 8. qs_num (v_queue s q) \<noteq> 0 \<and> qs_num (v_queue s q) AND (qs_num (v_queue s q) - 1) = 0)"

text \<open>What a device may do while it serves a request.\<close>

definition serves :: "'z VIRTIODevice_scheme \<Rightarrow> 'z VIRTIODevice_scheme \<Rightarrow> bool" where
  "serves s s' \<longleftrightarrow> v_map s' = v_map s \<and> v_queue s' = v_queue s \<and> queue_sel s' = queue_sel s \<and>
     config_space_size s' = config_space_size s \<and> (irq_ok s \<longrightarrow> irq_ok s')"

lemma serves_refl [simp]: "serves s s"
  by (simp add: serves_def)

lemma serves_trans: "serves s t \<Longrightarrow> serves t u \<Longrightarrow> serves s u"
  by (simp add: serves_def)

lemma serves_ok: "serves s s' \<Longrightarrow> virtio_ok s \<Longrightarrow> virtio_ok s'"
  by (simp add: serves_def virtio_ok_def)

lemma ram_only_serves: "ram_only s s' \<Longrightarrow> serves s s'"
  by (auto simp: ram_only_def serves_def irq_ok_def irq_level_def)

lemma consume_serves: "serves s (virtio_consume_desc s q i n)"
proof -
  let ?t = "\<lambda>a v b x c y. virtio_write32 (virtio_write32 (virtio_write16 s a v) b x) c y"
  have "ram_only s (?t a v b x c y)" for a v b x c y
    by (intro ram_only_trans [OF ram_only_trans [OF write_ram_only(1) write_ram_only(2)] write_ram_only(2)])
  note f = ram_only_fields [OF this]
  have or: "w OR 1 \<noteq> 0" for w :: u32 using or_eq_0_iff [of w 1] by simp
  show ?thesis
    by (simp add: virtio_consume_desc_def Let_def serves_def virtio_set_irq_def irq_ok_def irq_level_def f or)
qed

lemma bump_avail_ok [simp]: "virtio_ok (bump_avail q s) = virtio_ok s" "v_map (bump_avail q s) = v_map s"
  by (auto simp: bump_avail_def update_queue_def virtio_ok_def irq_ok_def irq_level_def)

lemma update_selected_ok:
  assumes "virtio_ok s" "\<And>qs. qs_num (f qs) = qs_num qs"
  shows "virtio_ok (update_selected f s)" "v_map (update_selected f s) = v_map s"
  using assms by (auto simp: update_selected_def update_queue_def virtio_ok_def irq_ok_def irq_level_def)

lemma set_queue_num_ok: "virtio_ok s \<Longrightarrow> virtio_ok (set_queue_num v s)" "v_map (set_queue_num v s) = v_map s"
  by (auto simp: set_queue_num_def update_selected_def update_queue_def virtio_ok_def irq_ok_def irq_level_def word_gt_0)

lemma fold_reset:
  "fold (\<lambda>i. update_queue i reset_queue) [0..<n] s = s\<lparr>v_queue := (\<lambda>i. if i < n then reset_queue (v_queue s i) else v_queue s i)\<rparr>"
  by (induction n) (auto simp: update_queue_def fun_eq_iff)

lemma virtio_reset_eq:
  "virtio_reset s = s\<lparr>v_status := 0, queue_sel := 0, device_features_sel := 0, int_status := 0,
     v_queue := (\<lambda>i. if i < 8 then reset_queue (v_queue s i) else v_queue s i)\<rparr>"
  by (simp add: virtio_reset_def fold_reset cong: if_cong)

lemma write_status_ok: "virtio_ok s \<Longrightarrow> virtio_ok (write_status v s)" "v_map (write_status v s) = v_map s"
  by (auto simp: write_status_def virtio_reset_eq virtio_set_irq_def virtio_ok_def irq_ok_def irq_level_def reset_queue_def Let_def)

lemma interrupt_ack_ok: "virtio_ok s \<Longrightarrow> virtio_ok (interrupt_ack v s)" "v_map (interrupt_ack v s) = v_map s"
  by (auto simp: interrupt_ack_def virtio_set_irq_def virtio_ok_def irq_ok_def irq_level_def Let_def)

lemma simple_fields_ok:
  "virtio_ok s \<Longrightarrow> virtio_ok (s\<lparr>device_features_sel := v\<rparr>)"
  "virtio_ok s \<Longrightarrow> w < 8 \<Longrightarrow> virtio_ok (s\<lparr>queue_sel := w\<rparr>)"
  by (auto simp: virtio_ok_def irq_ok_def irq_level_def)

lemmas register_ok = update_selected_ok set_queue_num_ok write_status_ok interrupt_ack_ok simple_fields_ok

locale virtio_backend =
  fixes recv :: "'z VIRTIODevice_scheme device_recv"
    and config_write :: "'z VIRTIODevice_scheme \<Rightarrow> 'z VIRTIODevice_scheme"
  assumes recv_serves: "recv s q i r w = Some (x, s') \<Longrightarrow> serves s s'"
    and config_write_serves: "serves s (config_write s)"
begin

lemma notify_loop_keeps:
  assumes "notify_loop recv q avail s = Some s'"
  shows "virtio_ok s \<longrightarrow> virtio_ok s' \<and> v_map s' = v_map s"
proof -
  have "notify_loop r q avail s = Some s' \<Longrightarrow> r = recv \<longrightarrow> virtio_ok s \<longrightarrow> virtio_ok s' \<and> v_map s' = v_map s" for r
  proof (rule notify_loop.raw_induct [where P = "\<lambda>r q avail s s'. r = recv \<longrightarrow> virtio_ok s \<longrightarrow> virtio_ok s' \<and> v_map s' = v_map s"])
    fix loop :: "'z VIRTIODevice_scheme device_recv \<Rightarrow> nat \<Rightarrow> u16 \<Rightarrow> 'z VIRTIODevice_scheme \<Rightarrow> 'z VIRTIODevice_scheme option"
      and r q avail s s'
    assume IH: "\<And>r q avail s s'. loop r q avail s = Some s' \<Longrightarrow> r = recv \<longrightarrow> virtio_ok s \<longrightarrow> virtio_ok s' \<and> v_map s' = v_map s"
      and run: "(if last_avail_idx (v_queue s q) = avail then Some s
        else let i = next_avail s q in Option.bind (get_desc_rw_size s q i) (\<lambda>sizes.
           case sizes of
             None \<Rightarrow> loop r q avail (bump_avail q s)
           | Some (read_size, write_size) \<Rightarrow>
               Option.bind (r s q i read_size write_size) (\<lambda>(x, s).
               if x < 0 then Some s else loop r q avail (bump_avail q s)))) = Some s'"
    show "r = recv \<longrightarrow> virtio_ok s \<longrightarrow> virtio_ok s' \<and> v_map s' = v_map s"
    proof (intro impI)
      assume r: "r = recv" and ok: "virtio_ok s"
      show "virtio_ok s' \<and> v_map s' = v_map s"
      proof (cases "last_avail_idx (v_queue s q) = avail")
        case True
        then show ?thesis using run ok by simp
      next
        case False
        obtain sizes where sizes: "get_desc_rw_size s q (next_avail s q) = Some sizes"
          using run False by (auto simp: Let_def Option.bind_eq_Some_conv)
        show ?thesis
        proof (cases sizes)
          case None
          then have "loop recv q avail (bump_avail q s) = Some s'" using run False sizes r by (simp add: Let_def)
          from IH [OF this] show ?thesis using ok by simp
        next
          case (Some mn)
          obtain x t where t: "recv s q (next_avail s q) (fst mn) (snd mn) = Some (x, t)"
            "(if x < 0 then Some t else loop recv q avail (bump_avail q t)) = Some s'"
            using run False sizes r Some by (cases mn) (auto simp: Let_def Option.bind_eq_Some_conv)
          have "virtio_ok t" "v_map t = v_map s"
            using recv_serves [OF t(1)] serves_ok [OF recv_serves [OF t(1)] ok] by (simp_all add: serves_def)
          then show ?thesis using t(2) IH [of recv q avail "bump_avail q t" s'] by (cases "x < 0") simp_all
        qed
      qed
    qed
  qed
  then show ?thesis using assms by blast
qed

lemma queue_notify_keeps:
  "queue_notify recv q s = Some s' \<Longrightarrow> virtio_ok s \<Longrightarrow> virtio_ok s' \<and> v_map s' = v_map s"
  using notify_loop_keeps by (auto simp: queue_notify_def split: if_split_asm)

lemma config_write_keeps:
  "virtio_ok s \<Longrightarrow> virtio_ok (virtio_config_write config_write s offset v sz) \<and> v_map (virtio_config_write config_write s offset v sz) = v_map s"
proof -
  have "serves s (config_write (s\<lparr>config_space := c\<rparr>))" for c
    using config_write_serves [of "s\<lparr>config_space := c\<rparr>"] by (simp add: serves_def irq_ok_def irq_level_def)
  moreover assume "virtio_ok s"
  ultimately show ?thesis using serves_ok by (auto simp: virtio_config_write_def serves_def)
qed

lemma mmio_write_keeps:
  assumes "virtio_mmio_write recv config_write s offset v sz = Some s'" "virtio_ok s"
  shows "virtio_ok s' \<and> v_map s' = v_map s"
  using assms config_write_keeps [OF assms(2)] queue_notify_keeps [OF _ assms(2)]
  unfolding virtio_mmio_write_def
  by (auto simp: register_ok split: if_split_asm)

lemma pci_read_keeps:
  assumes "virtio_pci_read s offset sz = Some (v, s')" "virtio_ok s"
  shows "virtio_ok s' \<and> v_map s' = v_map s"
proof -
  have "virtio_ok (virtio_set_irq False (s\<lparr>int_status := 0\<rparr>))" "v_map (virtio_set_irq False (s\<lparr>int_status := 0\<rparr>)) = v_map s"
    using assms(2) by (auto simp: virtio_set_irq_def virtio_ok_def irq_ok_def irq_level_def)
  then show ?thesis
    using assms unfolding virtio_pci_read_def Let_def by (auto split: if_split_asm)
qed

lemma pci_write_keeps:
  assumes "virtio_pci_write recv config_write s offset v sz = Some s'" "virtio_ok s"
  shows "virtio_ok s' \<and> v_map s' = v_map s"
  using assms config_write_keeps [OF assms(2)] queue_notify_keeps [OF _ assms(2)]
  unfolding virtio_pci_write_def Let_def
  by (auto simp: register_ok split: if_split_asm)

end

section \<open>The devices satisfy the contract\<close>

lemma block_updates_serve [simp]:
  fixes s :: "'z VIRTIOBlockDevice_scheme"
  shows "serves s (s\<lparr>blk_bs := b\<rparr>)" "serves s (s\<lparr>blk_req := r\<rparr>)" "serves s (s\<lparr>req_in_progress := x\<rparr>)"
    "serves s (s\<lparr>blk_bs := b, blk_req := r\<rparr>)"
  by (simp_all add: serves_def irq_ok_def irq_level_def)

lemma req_end_serves: "virtio_block_req_end s ret = Some s' \<Longrightarrow> serves s s'"
  by (auto simp: virtio_block_req_end_def Let_def Option.bind_eq_Some_conv split: if_split_asm
      dest!: memcpy_to_queue_only intro: serves_trans [OF ram_only_serves consume_serves])

lemma block_finish_serves: "block_finish s ret = Some (x, s') \<Longrightarrow> serves s s'"
  by (auto simp: block_finish_def split: if_split_asm dest: req_end_serves)

lemma block_read_serves: "block_read fresh s k w = Some (x, s') \<Longrightarrow> serves s s'"
  unfolding block_read_def Option.bind_eq_Some_conv
  by (clarsimp simp: Option.bind_eq_Some_conv) (drule block_finish_serves, erule serves_trans [OF block_updates_serve(4)])

lemma block_write_serves: "block_write fresh s q i k r w = Some (x, s') \<Longrightarrow> serves s s'"
  unfolding block_write_def Let_def
  by (clarsimp simp: Option.bind_eq_Some_conv split: if_split_asm)
     (drule block_finish_serves, erule serves_trans [OF block_updates_serve(1)])

lemma block_recv_serves:
  assumes "virtio_block_recv_request fresh s q i r w = Some (x, s')"
  shows "serves s s'"
proof (cases "req_in_progress s")
  case True
  then show ?thesis using assms by (simp add: virtio_block_recv_request_def)
next
  case False
  obtain y h where h: "memcpy_from_queue s (fresh 16) q i 0 16 = Some (y, h)"
    using assms False by (auto simp: virtio_block_recv_request_def Option.bind_eq_Some_conv)
  define t where "t = s\<lparr>blk_req := (blk_req s)\<lparr>req_type := get_le32 (list_mem h) 0, req_queue_idx := q, req_desc_idx := i\<rparr>\<rparr>"
  have t: "serves s t" by (simp add: t_def)
  have "(if y < 0 then Some (0, s)
      else if get_le32 (list_mem h) 0 = 0 then block_read fresh t (get_le64 (list_mem h) 8) w
      else if get_le32 (list_mem h) 0 = 1 then block_write fresh t q i (get_le64 (list_mem h) 8) r w
      else Some (0, t)) = Some (x, s')"
    using assms False h unfolding t_def virtio_block_recv_request_def Let_def by simp
  then consider "s' = s" | "s' = t" | k where "block_read fresh t k w = Some (x, s')"
    | k where "block_write fresh t q i k r w = Some (x, s')" by (auto split: if_split_asm)
  then show ?thesis
  proof cases
    case 3
    from serves_trans [OF t block_read_serves [OF this]] show ?thesis .
  next
    case 4
    from serves_trans [OF t block_write_serves [OF this]] show ?thesis .
  qed (use t in simp_all)
qed

lemma net_recv_serves:
  fixes s :: "'z VIRTIONetDevice_scheme"
  assumes "virtio_net_recv_request fresh s q i r w = Some (x, s')"
  shows "serves s s'"
proof -
  have "serves s (s\<lparr>net_sent := p\<rparr>)" for p by (simp add: serves_def irq_ok_def irq_level_def)
  from serves_trans [OF this consume_serves] show ?thesis
    using assms by (auto simp: virtio_net_recv_request_def Let_def Option.bind_eq_Some_conv split: if_split_asm)
qed

lemma console_recv_serves:
  fixes s :: "'z VIRTIOConsoleDevice_scheme"
  assumes "virtio_console_recv_request fresh s q i r w = Some (x, s')"
  shows "serves s s'"
proof -
  have "serves s (s\<lparr>con_cs := p\<rparr>)" for p by (simp add: serves_def irq_ok_def irq_level_def)
  from serves_trans [OF this consume_serves] show ?thesis
    using assms by (auto simp: virtio_console_recv_request_def Option.bind_eq_Some_conv split: if_split_asm)
qed

lemma input_config_serves: "serves s (virtio_input_config_write s)"
  by (simp add: virtio_input_config_write_def serves_def irq_ok_def irq_level_def)

interpretation blk: virtio_backend "virtio_block_recv_request fresh" id for fresh
  by unfold_locales (simp_all add: block_recv_serves)

interpretation net: virtio_backend "virtio_net_recv_request fresh" id for fresh
  by unfold_locales (simp_all add: net_recv_serves)

interpretation con: virtio_backend "virtio_console_recv_request fresh" id for fresh
  by unfold_locales (simp_all add: console_recv_serves)

interpretation inp: virtio_backend virtio_input_recv_request virtio_input_config_write
  by unfold_locales (auto simp: virtio_input_recv_request_def input_config_serves intro: consume_serves)

end
