(* ===== verification/Virtio_Chain.thy ===== *)
theory Virtio_Chain
  imports Virtio_Lemmas
begin

text \<open>
  What a chain of descriptors stands for: a list of host addresses, those of its readable part and
  those of its writable part.  Copying from a chain reads the bytes at these addresses, copying to
  it stores there, across all borders of pages and descriptors.
\<close>

section \<open>Lists of addresses\<close>

definition addrs :: "u64 \<Rightarrow> nat \<Rightarrow> u64 list" where
  "addrs p n = map (\<lambda>i. p + of_nat i) [0..<n]"

fun poke :: "u64 list \<Rightarrow> u8 list \<Rightarrow> host_mem \<Rightarrow> host_mem" where
  "poke (a # as) (b # bs) m = poke as bs (m(a := b))"
| "poke _ _ m = m"

definition overlay :: "u8 list \<Rightarrow> nat \<Rightarrow> u8 list \<Rightarrow> u8 list" where
  "overlay buf pos bs = take pos buf @ bs @ drop (pos + length bs) buf"

lemma length_addrs [simp]: "length (addrs p n) = n"
  by (simp add: addrs_def)

lemma addrs_0 [simp]: "addrs p 0 = []"
  by (simp add: addrs_def)

lemma addrs_add: "addrs p (m + n) = addrs p m @ addrs (p + of_nat m) n"
  by (induction n) (simp_all add: addrs_def add.assoc)

lemma addrs_Suc: "addrs p (Suc n) = addrs p n @ [p + of_nat n]"
  by (simp add: addrs_def)

lemma take_addrs: "take k (addrs p n) = addrs p (min k n)"
  by (simp add: addrs_def take_map min_def)

lemma drop_addrs: "k \<le> n \<Longrightarrow> drop k (addrs p n) = addrs (p + of_nat k) (n - k)"
  using addrs_add [of p k "n - k"] by (metis append_eq_conv_conj le_add_diff_inverse length_addrs)

lemma host_bytes_addrs: "host_bytes m p n = map m (addrs p n)"
  by (simp add: host_bytes_def addrs_def)

lemma poke_append: "length as = length bs \<Longrightarrow> poke (as @ as') (bs @ bs') m = poke as' bs' (poke as bs m)"
  by (induction as bs m rule: poke.induct) auto

lemma poke_other: "p \<notin> set as \<Longrightarrow> poke as bs m p = m p"
  by (induction as bs m rule: poke.induct) auto

lemma poke_map: "distinct as \<Longrightarrow> length as = length bs \<Longrightarrow> map (poke as bs m) as = bs"
proof (induction as bs m rule: poke.induct)
  case (1 a as b bs m)
  then show ?case by (simp add: poke_other del: fun_upd_apply) simp
qed auto

lemma poke_Nil [simp]: "poke as [] m = m"
  by (cases as) auto

lemma copy_bytes_poke: "length bs \<le> 2 ^ 64 \<Longrightarrow> copy_bytes p bs m = poke (addrs p (length bs)) bs m"
proof (induction bs rule: rev_induct)
  case Nil
  show ?case by (simp add: copy_bytes_def)
next
  case (snoc b bs)
  have "copy_bytes p (bs @ [b]) m = (copy_bytes p bs m)(p + of_nat (length bs) := b)"
  proof
    fix x
    have "unat (x - p) = length bs \<longleftrightarrow> x = p + of_nat (length bs)"
    proof
      assume "unat (x - p) = length bs"
      then have "x - p = of_nat (length bs)" by (metis of_nat_unat ucast_id)
      then show "x = p + of_nat (length bs)" by (metis add.commute diff_add_cancel)
    qed (use snoc.prems in \<open>simp add: unat_of_nat\<close>)
    then show "copy_bytes p (bs @ [b]) m x = ((copy_bytes p bs m)(p + of_nat (length bs) := b)) x"
      by (auto simp: copy_bytes_def nth_append less_Suc_eq)
  qed
  then show ?case using snoc by (simp add: addrs_Suc poke_append del: fun_upd_apply)
qed

lemma overlay_append:
  "pos + length bs + length cs \<le> length buf \<Longrightarrow>
   overlay (overlay buf pos bs) (pos + length bs) cs = overlay buf pos (bs @ cs)"
  by (cases bs) (auto simp: overlay_def min_def add.assoc add.left_commute add.commute)

lemma length_overlay [simp]: "pos + length bs \<le> length buf \<Longrightarrow> length (overlay buf pos bs) = length buf"
  by (simp add: overlay_def)

lemma overlay_Nil [simp]: "overlay buf pos [] = buf"
  by (simp add: overlay_def)

lemma copy_into_overlay:
  "pos + length bs \<le> length buf \<Longrightarrow> copy_into buf (int pos) bs = Some (overlay buf pos bs)"
  by (simp add: copy_into_def overlay_def)

lemma overlay_all: "length bs = length buf \<Longrightarrow> overlay buf 0 bs = bs"
  by (simp add: overlay_def)

section \<open>Memory that is contiguous in the host\<close>

definition linear :: "PhysMemoryMap \<Rightarrow> u64 \<Rightarrow> nat \<Rightarrow> u64 \<Rightarrow> bool" where
  "linear mm a n p \<longleftrightarrow> (\<forall>i < n. get_ram_ptr mm (a + of_nat i) = Some (p + of_nat i))"

lemma ram_ptr_eq: "virtio_mmio_get_ram_ptr s = get_ram_ptr (v_map s)"
  by (rule ext) (simp add: virtio_mmio_get_ram_ptr_def get_ram_ptr_def)

lemma linear_ptr: "linear mm a n p \<Longrightarrow> 0 < n \<Longrightarrow> get_ram_ptr mm a = Some p"
  unfolding linear_def by (drule spec [of _ 0]) simp

lemma linear_drop:
  assumes "linear mm a n p" "k \<le> n"
  shows "linear mm (a + of_nat k) (n - k) (p + of_nat k)"
  unfolding linear_def
proof (intro allI impI)
  fix i assume "i < n - k"
  then have "get_ram_ptr mm (a + of_nat (k + i)) = Some (p + of_nat (k + i))" using assms unfolding linear_def by (simp del: of_nat_add)
  then show "get_ram_ptr mm (a + of_nat k + of_nat i) = Some (p + of_nat k + of_nat i)" by (simp add: add.assoc)
qed

lemma linear_take: "linear mm a n p \<Longrightarrow> k \<le> n \<Longrightarrow> linear mm a k p"
  by (simp add: linear_def)

lemma linear_part: "linear mm a n p \<Longrightarrow> k + l \<le> n \<Longrightarrow> linear mm (a + of_nat k) l (p + of_nat k)"
  using linear_take [OF linear_drop [of mm a n p k], of l] by simp

lemma page_part_le: "0 < count \<Longrightarrow> page_part a count \<le> count"
  by (simp add: page_part_def min_int_def)

lemma page_part_nat:
  assumes "0 < n"
  obtains l where "page_part a (int n) = int l" "0 < l" "l \<le> n"
proof -
  have "0 < page_part a (int n)" "page_part a (int n) \<le> int n"
    using page_part_pos [of "int n"] page_part_le [of "int n"] assms by simp_all
  then show thesis using that [of "nat (page_part a (int n))"] by simp
qed

lemma memcpy_from_ram_linear:
  "linear (v_map s) a n p \<Longrightarrow> pos + n \<le> length buf \<Longrightarrow>
   virtio_memcpy_from_ram s buf (int pos) a (int n) = Some (0, overlay buf pos (map (v_ram s) (addrs p n)))"
proof (induction n arbitrary: buf pos a p rule: less_induct)
  case (less n)
  show ?case
  proof (cases "n = 0")
    case True
    then show ?thesis by (simp add: virtio_memcpy_from_ram.simps)
  next
    case False
    then obtain l where l: "page_part a (int n) = int l" "0 < l" "l \<le> n" using page_part_nat [of n a] by blast
    let ?b = "map (v_ram s) (addrs p l)"
    have ptr: "virtio_mmio_get_ram_ptr s a = Some p" using less.prems(1) False by (simp add: ram_ptr_eq linear_ptr)
    have into: "copy_into buf (int pos) ?b = Some (overlay buf pos ?b)"
      using less.prems(2) l by (intro copy_into_overlay) simp
    have "virtio_memcpy_from_ram s buf (int pos) a (int n) =
        virtio_memcpy_from_ram s (overlay buf pos ?b) (int (pos + l)) (a + of_nat l) (int (n - l))"
      using False l into by (subst virtio_memcpy_from_ram.simps) (simp add: ptr host_bytes_addrs Let_def of_nat_diff)
    also have "\<dots> = Some (0, overlay (overlay buf pos ?b) (pos + l) (map (v_ram s) (addrs (p + of_nat l) (n - l))))"
      using less.prems l by (intro less.IH linear_drop) simp_all
    also have "overlay (overlay buf pos ?b) (pos + l) (map (v_ram s) (addrs (p + of_nat l) (n - l))) =
        overlay buf pos (map (v_ram s) (addrs p n))"
      using overlay_append [of pos ?b "map (v_ram s) (addrs (p + of_nat l) (n - l))" buf] less.prems(2) l
        addrs_add [of p l "n - l"] by simp
    finally show ?thesis .
  qed
qed

lemma memcpy_to_ram_linear:
  "linear (v_map s) a n p \<Longrightarrow> n \<le> 2 ^ 64 \<Longrightarrow> pos + n \<le> length buf \<Longrightarrow>
   virtio_memcpy_to_ram s a buf (int pos) (int n) = Some (0, s\<lparr>v_ram := poke (addrs p n) (take n (drop pos buf)) (v_ram s)\<rparr>)"
proof (induction n arbitrary: s pos a p rule: less_induct)
  case (less n)
  show ?case
  proof (cases "n = 0")
    case True
    then show ?thesis by (simp add: virtio_memcpy_to_ram.simps)
  next
    case False
    then obtain l where l: "page_part a (int n) = int l" "0 < l" "l \<le> n" using page_part_nat [of n a] by blast
    let ?b = "take l (drop pos buf)" and ?c = "take (n - l) (drop (pos + l) buf)"
    let ?s = "s\<lparr>v_ram := poke (addrs p l) ?b (v_ram s)\<rparr>"
    have len: "length ?b = l" using less.prems l by simp
    have ptr: "virtio_mmio_get_ram_ptr s a = Some p" using less.prems(1) False by (simp add: ram_ptr_eq linear_ptr)
    have out: "copy_out buf (int pos) l = Some ?b" using less.prems(3) l by (simp add: copy_out_def)
    have "virtio_memcpy_to_ram s a buf (int pos) (int n) = virtio_memcpy_to_ram ?s (a + of_nat l) buf (int (pos + l)) (int (n - l))"
      using False l out less.prems(2) copy_bytes_poke [of ?b p "v_ram s"] len
      by (subst virtio_memcpy_to_ram.simps) (simp add: ptr Let_def of_nat_diff)
    also have "\<dots> = Some (0, ?s\<lparr>v_ram := poke (addrs (p + of_nat l) (n - l)) ?c (v_ram ?s)\<rparr>)"
      using less.prems l linear_drop [OF less.prems(1) l(3)] by (intro less.IH) simp_all
    also have "poke (addrs (p + of_nat l) (n - l)) ?c (v_ram ?s) = poke (addrs p n) (take n (drop pos buf)) (v_ram s)"
    proof -
      have "take n (drop pos buf) = ?b @ ?c" using l by (metis add.commute drop_drop le_add_diff_inverse take_add)
      then show ?thesis using poke_append [of "addrs p l" ?b "addrs (p + of_nat l) (n - l)" ?c] len addrs_add [of p l "n - l"] l by simp
    qed
    finally show ?thesis by simp
  qed
qed

section \<open>Descriptors in memory\<close>

definition desc_in :: "'z VIRTIODevice_scheme \<Rightarrow> nat \<Rightarrow> u16 \<Rightarrow> VIRTIODesc \<Rightarrow> bool" where
  "desc_in s q i d \<longleftrightarrow>
     (\<exists>p. linear (v_map s) (desc_addr (v_queue s q) + ucast i * 16) 16 p \<and> desc_at (v_ram s) p = d)"

lemma list_mem_addrs: "k < n \<Longrightarrow> n \<le> 2 ^ 64 \<Longrightarrow> list_mem (map m (addrs p n)) (of_nat k) = m (p + of_nat k)"
  by (simp add: list_mem_def unat_of_nat addrs_def)

lemma desc_at_list: "desc_at (list_mem (map m (addrs p 16))) 0 = desc_at m p"
proof -
  have b: "list_mem (map m (addrs p 16)) (numeral k) = m (p + numeral k)" if "numeral k < (16 :: nat)" for k
    using list_mem_addrs [OF that, of m p] by simp
  have "list_mem (map m (addrs p 16)) 0 = m p" "list_mem (map m (addrs p 16)) 1 = m (p + 1)"
    using list_mem_addrs [of 0 16 m p] list_mem_addrs [of 1 16 m p] by simp_all
  then show ?thesis by (simp add: desc_at_def get_le64_def get_le32_def get_le16_def b add.assoc)
qed

lemma length_desc_bytes: "length (desc_bytes d) = 16"
  by (simp add: desc_bytes_def le64_bytes_def le32_bytes_def le16_bytes_def)

lemma read_desc_in:
  assumes "desc_in s q i d" "length buf = 16"
  obtains bs where "read_desc s buf q i = Some (0, bs)" "desc_at (list_mem bs) 0 = d"
proof -
  from assms(1) obtain p where p: "linear (v_map s) (desc_addr (v_queue s q) + ucast i * 16) 16 p" "desc_at (v_ram s) p = d"
    by (auto simp: desc_in_def)
  have "read_desc s buf q i = Some (0, map (v_ram s) (addrs p 16))"
    using memcpy_from_ram_linear [OF p(1), of 0 buf] assms(2) by (simp add: read_desc_def overlay_all)
  then show thesis using that p(2) by (simp add: desc_at_list)
qed

lemma get_desc_in: "desc_in s q i d \<Longrightarrow> get_desc s d0 q i = d"
  by (rule read_desc_in [of s q i d "desc_bytes d0"]) (simp_all add: get_desc_def length_desc_bytes)

lemma first_desc_in: "desc_in s q i d \<Longrightarrow> first_desc s q i = Some d"
  by (rule read_desc_in [of s q i d "replicate 16 0"]) (simp_all add: first_desc_def)

text \<open>The descriptors \<open>ds\<close> follow the descriptor \<open>d\<close>.\<close>

fun links :: "'z VIRTIODevice_scheme \<Rightarrow> nat \<Rightarrow> VIRTIODesc \<Rightarrow> VIRTIODesc list \<Rightarrow> bool" where
  "links s q d [] \<longleftrightarrow> True"
| "links s q d (d' # ds) \<longleftrightarrow> has_next d \<and> desc_in s q (vd_next d) d' \<and> links s q d' ds"

text \<open>The chain with head \<open>i\<close>, complete.\<close>

definition chain :: "'z VIRTIODevice_scheme \<Rightarrow> nat \<Rightarrow> u16 \<Rightarrow> VIRTIODesc list \<Rightarrow> bool" where
  "chain s q i ds \<longleftrightarrow> (\<exists>d ds'. ds = d # ds' \<and> desc_in s q i d \<and> links s q d ds' \<and> \<not> has_next (last ds))"

definition seg_ptr :: "'z VIRTIODevice_scheme \<Rightarrow> VIRTIODesc \<Rightarrow> u64" where
  "seg_ptr s d = the (get_ram_ptr (v_map s) (vd_addr d))"

definition seg_ok :: "'z VIRTIODevice_scheme \<Rightarrow> VIRTIODesc \<Rightarrow> bool" where
  "seg_ok s d \<longleftrightarrow> unat (vd_len d) < 2 ^ 31 \<and> linear (v_map s) (vd_addr d) (unat (vd_len d)) (seg_ptr s d)"

definition slots :: "'z VIRTIODevice_scheme \<Rightarrow> VIRTIODesc list \<Rightarrow> u64 list" where
  "slots s ds = concat (map (\<lambda>d. addrs (seg_ptr s d) (unat (vd_len d))) ds)"

lemma slots_simps [simp]:
  "slots s [] = []" "slots s (d # ds) = addrs (seg_ptr s d) (unat (vd_len d)) @ slots s ds"
  "slots s (ds @ es) = slots s ds @ slots s es"
  by (simp_all add: slots_def)

lemma slots_ram [simp]: "slots (s\<lparr>v_ram := m\<rparr>) = slots s" "seg_ok (s\<lparr>v_ram := m\<rparr>) = seg_ok s"
  by (simp_all add: fun_eq_iff slots_def seg_ok_def seg_ptr_def)

lemma c_int_small: "unat w < 2 ^ 31 \<Longrightarrow> c_int w = int (unat w)"
proof -
  assume "unat w < 2 ^ 31"
  then have "int (unat w) < int (2 ^ 31)" by (simp only: of_nat_less_iff)
  then have "uint w < 2 ^ 31" by simp
  moreover have "- (2 ^ 31) \<le> uint w" by (rule order_trans [OF _ uint_ge_0]) simp
  ultimately have "sint w = uint w" unfolding sint_uint by (simp add: signed_take_bit_int_eq_self)
  then show ?thesis by (simp add: c_int_def)
qed

lemma c_int_less: "unat w < 2 ^ 31 \<Longrightarrow> int off < c_int w \<longleftrightarrow> off < unat w"
  by (simp only: c_int_small of_nat_less_iff)

lemma len_rest:
  assumes "off \<le> unat (len :: u32)" "unat len < 2 ^ 31"
  shows "c_int (len - of_int (int off)) = int (unat len - off)"
proof -
  have "unat (of_nat off :: u32) = off" using assms by (simp add: unat_of_nat)
  then have "unat (len - of_nat off) = unat len - off" using assms(1) by (simp add: unat_sub word_le_nat_alt)
  then show ?thesis using c_int_small [of "len - of_nat off"] assms by simp
qed

lemma links_ram: "links s q d (xs @ e # ds) \<Longrightarrow> links s q e ds"
  by (induction xs arbitrary: d) auto

section \<open>Reading a chain\<close>

lemma desc_copy_from:
  assumes "seg_ok s d" "off + l \<le> unat (vd_len d)" "pos + l \<le> length buf"
  shows "desc_copy s False (vd_addr d + of_nat off) buf (int pos) (int l) =
    Some (s, overlay buf pos (map (v_ram s) (addrs (seg_ptr s d + of_nat off) l)))"
proof -
  have "linear (v_map s) (vd_addr d + of_nat off) l (seg_ptr s d + of_nat off)"
    using assms(1,2) unfolding seg_ok_def by (auto intro: linear_part)
  from memcpy_from_ram_linear [OF this assms(3)] show ?thesis by (simp add: desc_copy_def)
qed

lemma slots_split:
  assumes "off \<le> unat (vd_len d)" "unat (vd_len d) - off < n"
  shows "take n (drop off (slots s (d # ds))) =
    addrs (seg_ptr s d + of_nat off) (unat (vd_len d) - off) @ take (n - (unat (vd_len d) - off)) (slots s ds)"
  using assms by (simp add: drop_addrs take_addrs)

lemma slots_first:
  assumes "off \<le> unat (vd_len d)" "n \<le> unat (vd_len d) - off"
  shows "take n (drop off (slots s (d # ds))) = addrs (seg_ptr s d + of_nat off) n"
  using assms by (simp add: drop_addrs take_addrs min_def)

text \<open>One step of the loop: the last descriptor, or one that is used up.\<close>

lemma copy_chain_last:
  assumes "c_int (vd_len d - of_int off) = r" "count \<le> r" "desc_copy s w (vd_addr d + of_int off) buf pos count = Some (t, b)"
  shows "copy_chain s q w d off buf pos count = Some (0, t, b)"
  using assms by (subst copy_chain.simps) (auto simp: Let_def min_int_def)

lemma copy_chain_next:
  assumes "c_int (vd_len d - of_int off) = r" "r < count" "count - r < 2 ^ 31" "off + r = c_int (vd_len d)"
    "desc_copy s w (vd_addr d + of_int off) buf pos r = Some (t, b)"
    "has_next d" "get_desc t d q (vd_next d) = e" "is_write e = w"
  shows "copy_chain s q w d off buf pos count = copy_chain t q w e 0 b (pos + r) (count - r)"
proof -
  have m: "min_int count r = r" using assms(2) by (simp add: min_int_def)
  show ?thesis using assms(2-8) by (subst copy_chain.simps) (simp add: Let_def assms(1) m)
qed

lemma desc_bounds:
  assumes "seg_ok s d" "off \<le> unat (vd_len d)"
  shows "c_int (vd_len d - of_int (int off)) = int (unat (vd_len d) - off)"
    "int off + int (unat (vd_len d) - off) = c_int (vd_len d)"
  using len_rest [OF assms(2)] c_int_small [of "vd_len d"] assms by (simp_all add: seg_ok_def of_nat_diff)

lemma copy_from_last:
  assumes "seg_ok s d" "off \<le> unat (vd_len d)" "n \<le> unat (vd_len d) - off" "pos + n \<le> length buf"
  shows "copy_chain s q False d (int off) buf (int pos) (int n) =
     Some (0, s, overlay buf pos (map (v_ram s) (take n (drop off (slots s (d # ds))))))"
proof -
  have "off + n \<le> unat (vd_len d)" using assms(2,3) by simp
  then have "desc_copy s False (vd_addr d + of_int (int off)) buf (int pos) (int n) =
      Some (s, overlay buf pos (map (v_ram s) (addrs (seg_ptr s d + of_nat off) n)))"
    using desc_copy_from [OF assms(1) _ assms(4)] by simp
  from copy_chain_last [OF desc_bounds(1) [OF assms(1,2)] _ this] show ?thesis
    using assms(3) unfolding slots_first [OF assms(2,3)] by (simp only: of_nat_le_iff)
qed

lemma copy_chain_from:
  "links s q d ds \<Longrightarrow> list_all (\<lambda>e. seg_ok s e \<and> \<not> is_write e) (d # ds) \<Longrightarrow> off \<le> unat (vd_len d) \<Longrightarrow> n < 2 ^ 31 \<Longrightarrow>
   off + n \<le> length (slots s (d # ds)) \<Longrightarrow> pos + n \<le> length buf \<Longrightarrow>
   copy_chain s q False d (int off) buf (int pos) (int n) =
     Some (0, s, overlay buf pos (map (v_ram s) (take n (drop off (slots s (d # ds))))))"
proof (induction ds arbitrary: d off pos n buf)
  case Nil
  then show ?case by (intro copy_from_last) simp_all
next
  case (Cons e ds)
  define r where "r = unat (vd_len d) - off"
  have ok: "seg_ok s d" using Cons.prems(2) by simp
  note bounds = desc_bounds [OF ok Cons.prems(3), folded r_def]
  show ?case
  proof (cases "n \<le> r")
    case True
    then show ?thesis using ok Cons.prems(3,6) unfolding r_def by (intro copy_from_last) simp_all
  next
    case False
    let ?b = "overlay buf pos (map (v_ram s) (addrs (seg_ptr s d + of_nat off) r))"
    have copy: "desc_copy s False (vd_addr d + of_int (int off)) buf (int pos) (int r) = Some (s, ?b)"
      using Cons.prems(3,6) False ok desc_copy_from [of s d off r pos buf] unfolding r_def by simp
    have nxt: "has_next d" "get_desc s d q (vd_next d) = e" "is_write e = False"
      using Cons.prems(1,2) by (simp_all add: get_desc_in)
    have "copy_chain s q False d (int off) buf (int pos) (int n) = copy_chain s q False e (int 0) ?b (int (pos + r)) (int (n - r))"
      using copy_chain_next [OF bounds(1) _ _ bounds(2) copy nxt, of "int n"] False Cons.prems(4) by (simp add: of_nat_diff)
    also have "\<dots> = Some (0, s, overlay ?b (pos + r) (map (v_ram s) (take (n - r) (drop 0 (slots s (e # ds))))))"
      using Cons.prems False by (intro Cons.IH) (simp_all add: r_def)
    finally show ?thesis
      using overlay_append [of pos "map (v_ram s) (addrs (seg_ptr s d + of_nat off) r)" "map (v_ram s) (take (n - r) (slots s (e # ds)))" buf]
        Cons.prems False slots_split [of off d n s "e # ds"] unfolding r_def by simp
  qed
qed

section \<open>Writing to a chain\<close>

text \<open>The entries of the descriptor table that follow \<open>d\<close> are not at the addresses in \<open>A\<close>.\<close>

definition entry_addrs :: "'z VIRTIODevice_scheme \<Rightarrow> nat \<Rightarrow> u16 \<Rightarrow> u64 list" where
  "entry_addrs s q i = addrs (the (get_ram_ptr (v_map s) (desc_addr (v_queue s q) + ucast i * 16))) 16"

fun off_table :: "'z VIRTIODevice_scheme \<Rightarrow> nat \<Rightarrow> VIRTIODesc \<Rightarrow> VIRTIODesc list \<Rightarrow> u64 set \<Rightarrow> bool" where
  "off_table s q d [] A \<longleftrightarrow> True"
| "off_table s q d (e # ds) A \<longleftrightarrow> set (entry_addrs s q (vd_next d)) \<inter> A = {} \<and> off_table s q e ds A"

lemma off_table_mono: "off_table s q d ds A \<Longrightarrow> B \<subseteq> A \<Longrightarrow> off_table s q d ds B"
  by (induction ds arbitrary: d) auto

lemma off_table_ram [simp]: "off_table (s\<lparr>v_ram := m\<rparr>) q d ds A = off_table s q d ds A"
  by (induction ds arbitrary: d) (simp_all add: entry_addrs_def)

lemma off_table_suffix: "off_table s q d (xs @ e # ds) A \<Longrightarrow> off_table s q e ds A"
  by (induction xs arbitrary: d) auto

lemma desc_at_cong:
  assumes "\<And>a. a \<in> set (addrs p 16) \<Longrightarrow> m' a = m a"
  shows "desc_at m' p = desc_at m p"
proof -
  have "map m' (addrs p 16) = map m (addrs p 16)" using assms by simp
  then show ?thesis using desc_at_list [of m' p] desc_at_list [of m p] by metis
qed

lemma desc_in_poke:
  assumes "desc_in s q i d" "set (entry_addrs s q i) \<inter> set as = {}"
  shows "desc_in (s\<lparr>v_ram := poke as bs (v_ram s)\<rparr>) q i d"
proof -
  obtain p where p: "linear (v_map s) (desc_addr (v_queue s q) + ucast i * 16) 16 p" "desc_at (v_ram s) p = d"
    using assms(1) by (auto simp: desc_in_def)
  then have "set (addrs p 16) \<inter> set as = {}" using assms(2) linear_ptr [OF p(1)] by (simp add: entry_addrs_def)
  then have "desc_at (poke as bs (v_ram s)) p = desc_at (v_ram s) p" by (intro desc_at_cong poke_other) blast
  then show ?thesis using p by (auto simp: desc_in_def)
qed

lemma links_poke:
  "links s q d ds \<Longrightarrow> off_table s q d ds (set as) \<Longrightarrow> links (s\<lparr>v_ram := poke as bs (v_ram s)\<rparr>) q d ds"
  by (induction ds arbitrary: d) (auto intro: desc_in_poke)

lemma desc_copy_to:
  assumes "seg_ok s d" "off + l \<le> unat (vd_len d)" "pos + l \<le> length buf"
  shows "desc_copy s True (vd_addr d + of_nat off) buf (int pos) (int l) =
    Some (s\<lparr>v_ram := poke (addrs (seg_ptr s d + of_nat off) l) (take l (drop pos buf)) (v_ram s)\<rparr>, buf)"
proof -
  have "linear (v_map s) (vd_addr d + of_nat off) l (seg_ptr s d + of_nat off)"
    using assms(1,2) unfolding seg_ok_def by (auto intro: linear_part)
  moreover have "l \<le> 2 ^ 64" using assms(1,2) unfolding seg_ok_def by simp
  ultimately show ?thesis unfolding desc_copy_def by (simp add: memcpy_to_ram_linear [OF _ _ assms(3)])
qed

lemma copy_to_last:
  assumes "seg_ok s d" "off \<le> unat (vd_len d)" "n \<le> unat (vd_len d) - off" "pos + n \<le> length buf"
  shows "copy_chain s q True d (int off) buf (int pos) (int n) =
     Some (0, s\<lparr>v_ram := poke (take n (drop off (slots s (d # ds)))) (take n (drop pos buf)) (v_ram s)\<rparr>, buf)"
proof -
  have "off + n \<le> unat (vd_len d)" using assms(2,3) by simp
  then have "desc_copy s True (vd_addr d + of_int (int off)) buf (int pos) (int n) =
      Some (s\<lparr>v_ram := poke (addrs (seg_ptr s d + of_nat off) n) (take n (drop pos buf)) (v_ram s)\<rparr>, buf)"
    using desc_copy_to [OF assms(1) _ assms(4)] by simp
  from copy_chain_last [OF desc_bounds(1) [OF assms(1,2)] _ this] show ?thesis
    using assms(3) unfolding slots_first [OF assms(2,3)] by (simp only: of_nat_le_iff)
qed

lemma copy_chain_to:
  "links s q d ds \<Longrightarrow> off_table s q d ds (set (slots s (d # ds))) \<Longrightarrow> list_all (\<lambda>e. seg_ok s e \<and> is_write e) (d # ds) \<Longrightarrow>
   off \<le> unat (vd_len d) \<Longrightarrow> n < 2 ^ 31 \<Longrightarrow> off + n \<le> length (slots s (d # ds)) \<Longrightarrow> pos + n \<le> length buf \<Longrightarrow>
   copy_chain s q True d (int off) buf (int pos) (int n) =
     Some (0, s\<lparr>v_ram := poke (take n (drop off (slots s (d # ds)))) (take n (drop pos buf)) (v_ram s)\<rparr>, buf)"
proof (induction ds arbitrary: s d off pos n)
  case Nil
  then show ?case by (intro copy_to_last) simp_all
next
  case (Cons e ds)
  define r where "r = unat (vd_len d) - off"
  have ok: "seg_ok s d" using Cons.prems(3) by simp
  note bounds = desc_bounds [OF ok Cons.prems(4), folded r_def]
  show ?case
  proof (cases "n \<le> r")
    case True
    then show ?thesis using ok Cons.prems(4,7) unfolding r_def by (intro copy_to_last) simp_all
  next
    case False
    let ?as = "addrs (seg_ptr s d + of_nat off) r" and ?b = "take r (drop pos buf)" and ?c = "take (n - r) (drop (pos + r) buf)"
    let ?t = "s\<lparr>v_ram := poke ?as ?b (v_ram s)\<rparr>"
    have copy: "desc_copy s True (vd_addr d + of_int (int off)) buf (int pos) (int r) = Some (?t, buf)"
      using Cons.prems(4,7) False ok desc_copy_to [of s d off r pos buf] unfolding r_def by simp
    have sub: "set ?as \<subseteq> set (slots s (d # e # ds))"
      using drop_addrs [OF Cons.prems(4), of "seg_ptr s d"] set_drop_subset [of off "addrs (seg_ptr s d) (unat (vd_len d))"]
      unfolding r_def by auto
    have links: "links ?t q d (e # ds)" using links_poke [OF Cons.prems(1)] off_table_mono [OF Cons.prems(2) sub] by blast
    have nxt: "has_next d" "get_desc ?t d q (vd_next d) = e" "is_write e = True"
      using links Cons.prems(3) by (simp_all add: get_desc_in)
    have "copy_chain s q True d (int off) buf (int pos) (int n) = copy_chain ?t q True e (int 0) buf (int (pos + r)) (int (n - r))"
      using copy_chain_next [OF bounds(1) _ _ bounds(2) copy nxt, of "int n"] False Cons.prems(5) by (simp add: of_nat_diff)
    also have "\<dots> = Some (0, ?t\<lparr>v_ram := poke (take (n - r) (drop 0 (slots ?t (e # ds)))) ?c (v_ram ?t)\<rparr>, buf)"
    proof (rule Cons.IH)
      show "off_table ?t q e ds (set (slots ?t (e # ds)))" using off_table_mono [OF Cons.prems(2)] by simp
      show "list_all (\<lambda>e. seg_ok ?t e \<and> is_write e) (e # ds)" "links ?t q e ds" using Cons.prems(3) links by simp_all
      show "0 + (n - r) \<le> length (slots ?t (e # ds))" using Cons.prems(4,6) False by (simp add: r_def)
      show "0 \<le> unat (vd_len e)" "n - r < 2 ^ 31" "pos + r + (n - r) \<le> length buf" using Cons.prems(5,7) False by simp_all
    qed
    also have "poke (take (n - r) (drop 0 (slots ?t (e # ds)))) ?c (v_ram ?t) =
        poke (take n (drop off (slots s (d # e # ds)))) (take n (drop pos buf)) (v_ram s)"
    proof -
      have "take n (drop pos buf) = ?b @ ?c" using False by (metis add.commute drop_drop le_add_diff_inverse nat_le_linear take_add)
      moreover have "length ?b = r" using False Cons.prems(7) by simp
      ultimately show ?thesis
        using poke_append [of ?as ?b] slots_split [of off d n s "e # ds"] Cons.prems(4) False unfolding r_def by simp
    qed
    finally show ?thesis by simp
  qed
qed

section \<open>Walking along a chain\<close>

lemma c_int_diff:
  assumes "unat len \<le> off" "off < 2 ^ 31"
  shows "c_int (of_int (int off) - len) = int (off - unat len)"
proof -
  have "unat (of_nat off :: u32) = off" using assms by (simp add: unat_of_nat)
  then have "unat (of_nat off - len) = off - unat len" using assms(1) by (simp add: unat_sub word_le_nat_alt)
  then show ?thesis using c_int_small [of "of_nat off - len"] assms by simp
qed

lemma c_int_add:
  assumes "acc + unat len < 2 ^ 31"
  shows "c_int (of_int (int acc) + len) = int (acc + unat len)"
proof -
  have "unat (of_nat acc + len) = acc + unat len"
    using assms by (simp add: unat_word_ariths unat_of_nat)
  then show ?thesis using c_int_small [of "of_nat acc + len"] assms by simp
qed

lemma find_offset_pos:
  "links s q d ds \<Longrightarrow> list_all (\<lambda>e. seg_ok s e \<and> is_write e = w) (d # ds) \<Longrightarrow> off < 2 ^ 31 \<Longrightarrow> off < length (slots s (d # ds)) \<Longrightarrow>
   \<exists>xs e es off'. d # ds = xs @ e # es \<and> off = length (slots s xs) + off' \<and> off' < unat (vd_len e) \<and>
     find_offset s q w d (int off) = Some (Some (e, int off'))"
proof (induction ds arbitrary: d off)
  case Nil
  then have "find_offset s q w d (int off) = Some (Some (d, int off))"
    by (subst find_offset.simps) (simp add: c_int_less seg_ok_def)
  then show ?case using Nil.prems by (intro exI [of _ "[]"] exI [of _ d] exI [of _ off]) simp
next
  case (Cons e ds)
  have len: "unat (vd_len d) < 2 ^ 31" "is_write d = w" using Cons.prems(2) by (simp_all add: seg_ok_def)
  show ?case
  proof (cases "off < unat (vd_len d)")
    case True
    then have "find_offset s q w d (int off) = Some (Some (d, int off))"
      using len by (subst find_offset.simps) (simp add: c_int_less)
    then show ?thesis using True by (intro exI [of _ "[]"] exI [of _ d] exI [of _ "e # ds"] exI [of _ off]) simp
  next
    case False
    have "find_offset s q w d (int off) = find_offset s q w e (int (off - unat (vd_len d)))"
      using False len Cons.prems(1,3) c_int_diff [of "vd_len d" off] get_desc_in [of s q "vd_next d" e d]
      by (subst find_offset.simps) (simp add: c_int_less)
    moreover have "\<exists>xs e' es off'. e # ds = xs @ e' # es \<and> off - unat (vd_len d) = length (slots s xs) + off' \<and>
      off' < unat (vd_len e') \<and> find_offset s q w e (int (off - unat (vd_len d))) = Some (Some (e', int off'))"
      by (rule Cons.IH) (use Cons.prems False in simp_all)
    then obtain xs e' es off' where "e # ds = xs @ e' # es" "off - unat (vd_len d) = length (slots s xs) + off'"
      "off' < unat (vd_len e')" "find_offset s q w e (int (off - unat (vd_len d))) = Some (Some (e', int off'))" by blast
    ultimately show ?thesis using False
      by (intro exI [of _ "d # xs"] exI [of _ e'] exI [of _ es] exI [of _ off']) simp
  qed
qed

lemma find_write_pos:
  "links s q d ds \<Longrightarrow> d # ds = rs @ e # es \<Longrightarrow> list_all (\<lambda>e. \<not> is_write e) rs \<Longrightarrow> is_write e \<Longrightarrow>
   find_write s q d = Some (Some e)"
proof (induction rs arbitrary: d ds)
  case Nil
  then show ?case by (subst find_write.simps) simp
next
  case (Cons r rs)
  then obtain e' ds' where "ds = e' # ds'" by (cases ds) auto
  with Cons show ?case using get_desc_in [of s q "vd_next d" e' d] Cons.IH [of e' ds'] by (subst find_write.simps) simp
qed

lemma sum_write_slots:
  "links s q d ds \<Longrightarrow> list_all is_write (d # ds) \<Longrightarrow> \<not> has_next (last (d # ds)) \<Longrightarrow> acc + length (slots s (d # ds)) < 2 ^ 31 \<Longrightarrow>
   sum_write s q d (int acc) = Some (Some (int (acc + length (slots s (d # ds)))))"
proof (induction ds arbitrary: d acc)
  case Nil
  then show ?case using c_int_add [of acc "vd_len d"] by (subst sum_write.simps) simp
next
  case (Cons e ds)
  have "sum_write s q d (int acc) = sum_write s q e (int (acc + unat (vd_len d)))"
    using Cons.prems c_int_add [of acc "vd_len d"] get_desc_in [of s q "vd_next d" e d] by (subst sum_write.simps) (simp add: Let_def)
  then show ?case using Cons.IH [of e "acc + unat (vd_len d)"] Cons.prems by (simp add: add.assoc)
qed

lemma sum_read_slots:
  "links s q d ds \<Longrightarrow> d # ds = rs @ ws \<Longrightarrow> list_all (\<lambda>e. \<not> is_write e) rs \<Longrightarrow> list_all is_write ws \<Longrightarrow> \<not> has_next (last (d # ds)) \<Longrightarrow>
   acc + length (slots s rs) < 2 ^ 31 \<Longrightarrow> length (slots s ws) < 2 ^ 31 \<Longrightarrow>
   sum_read s q d (int acc) = Some (Some (int (acc + length (slots s rs)), int (length (slots s ws))))"
proof (induction rs arbitrary: d ds acc)
  case Nil
  then have "is_write d" "ws = d # ds" by auto
  then show ?case using sum_write_slots [of s q d ds 0] Nil.prems by (subst sum_read.simps) simp
next
  case (Cons r rs)
  then have r: "r = d" "\<not> is_write d" by auto
  have acc: "c_int (of_int (int acc) + vd_len d) = int (acc + unat (vd_len d))"
    using Cons.prems(6) r by (intro c_int_add) simp
  show ?case
  proof (cases ds)
    case Nil
    then show ?thesis using Cons.prems r acc by (subst sum_read.simps) (simp add: Let_def)
  next
    case (Cons e es)
    have "sum_read s q d (int acc) = sum_read s q e (int (acc + unat (vd_len d)))"
      using Cons.prems(1) Cons r acc get_desc_in [of s q "vd_next d" e d] by (subst sum_read.simps) (simp add: Let_def)
    moreover have "rs @ ws \<noteq> []" using Cons.prems(2) Cons by auto
    ultimately show ?thesis using Cons.IH [of e es "acc + unat (vd_len d)"] Cons.prems Cons r by (auto simp: add.assoc)
  qed
qed

section \<open>Requests\<close>

text \<open>
  The chain with head \<open>i\<close> consists of the readable descriptors \<open>rs\<close> and the writable ones
  \<open>ws\<close>; each names a part of RAM that is contiguous in the host.
\<close>

definition request :: "'z VIRTIODevice_scheme \<Rightarrow> nat \<Rightarrow> u16 \<Rightarrow> VIRTIODesc list \<Rightarrow> VIRTIODesc list \<Rightarrow> bool" where
  "request s q i rs ws \<longleftrightarrow> chain s q i (rs @ ws) \<and> list_all (\<lambda>e. seg_ok s e \<and> \<not> is_write e) rs \<and>
     list_all (\<lambda>e. seg_ok s e \<and> is_write e) ws \<and> length (slots s rs) < 2 ^ 31 \<and> length (slots s ws) < 2 ^ 31"

lemma request_sizes:
  assumes "request s q i rs ws"
  shows "get_desc_rw_size s q i = Some (Some (int (length (slots s rs)), int (length (slots s ws))))"
proof -
  from assms obtain d ds where d: "rs @ ws = d # ds" "desc_in s q i d" "links s q d ds" "\<not> has_next (last (d # ds))"
    by (auto simp: request_def chain_def)
  have "sum_read s q d (int 0) = Some (Some (int (0 + length (slots s rs)), int (length (slots s ws))))"
    using assms d by (intro sum_read_slots) (auto simp: request_def list_all_iff)
  then show ?thesis using d(2) by (simp add: get_desc_rw_size_def first_desc_in)
qed

lemma links_prefix: "links s q d (xs @ ys) \<Longrightarrow> links s q d xs"
  by (induction xs arbitrary: d) auto

lemma memcpy_from_queue_chain:
  assumes "request s q i rs ws" "off + n \<le> length (slots s rs)" "n \<le> length buf"
  shows "memcpy_from_queue s buf q i (int off) (int n) = Some (0, overlay buf 0 (map (v_ram s) (take n (drop off (slots s rs)))))"
proof (cases "n = 0")
  case True
  then show ?thesis by (simp add: memcpy_from_queue_def memcpy_to_from_queue_def)
next
  case False
  then obtain d ds where rs: "rs = d # ds" using assms(2) by (cases rs) auto
  have d: "desc_in s q i d" "links s q d ds" using assms(1) rs links_prefix by (auto simp: request_def chain_def)
  have all: "list_all (\<lambda>e. seg_ok s e \<and> \<not> is_write e) (d # ds)" "length (slots s (d # ds)) < 2 ^ 31"
    using assms(1) rs by (simp_all add: request_def)
  obtain xs e es off' where e: "d # ds = xs @ e # es" "off = length (slots s xs) + off'" "off' < unat (vd_len e)"
    "find_offset s q False d (int off) = Some (Some (e, int off'))"
    using find_offset_pos [of s q d ds False off] d(2) all assms(2) False rs by (auto simp: list_all_iff)
  have sl: "slots s rs = slots s xs @ slots s (e # es)" using rs e(1) by (metis slots_simps(3))
  have "links s q e es" using d(2) e(1) links_ram by (cases xs) auto
  moreover have "list_all (\<lambda>e. seg_ok s e \<and> \<not> is_write e) (e # es)" using all(1) unfolding e(1) by simp
  moreover have "off' + n \<le> length (slots s (e # es))" using assms(2) e(2) sl by simp
  ultimately have "copy_chain s q False e (int off') buf (int 0) (int n) =
      Some (0, s, overlay buf 0 (map (v_ram s) (take n (drop off' (slots s (e # es))))))"
    using e(3) assms all(2) rs by (intro copy_chain_from) simp_all
  then show ?thesis
    using False d(1) e(4) sl e(2) by (simp add: memcpy_from_queue_def memcpy_to_from_queue_def first_desc_in)
qed

lemma memcpy_to_queue_chain:
  assumes "request s q i rs (w # ws)" "off_table s q w ws (set (slots s (w # ws)))"
    "off + length buf \<le> length (slots s (w # ws))"
  shows "memcpy_to_queue s q i (int off) buf (int (length buf)) =
    Some (0, s\<lparr>v_ram := poke (take (length buf) (drop off (slots s (w # ws)))) buf (v_ram s)\<rparr>)"
proof (cases "buf = []")
  case True
  then show ?thesis by (simp add: memcpy_to_queue_def memcpy_to_from_queue_def)
next
  case False
  obtain d ds where d: "rs @ w # ws = d # ds" "desc_in s q i d" "links s q d ds"
    using assms(1) by (auto simp: request_def chain_def)
  have all: "list_all (\<lambda>e. seg_ok s e \<and> is_write e) (w # ws)" "length (slots s (w # ws)) < 2 ^ 31" "list_all (\<lambda>e. \<not> is_write e) rs"
    using assms(1) by (auto simp: request_def list_all_iff)
  have fw: "find_write s q d = Some (Some w)" using find_write_pos [OF d(3) d(1) [symmetric] all(3)] all(1) by simp
  have lw: "links s q w ws" using d(1,3) links_ram by (cases rs) auto
  have "0 < length buf" using False by simp
  then have pos: "off < length (slots s (w # ws))" "off < 2 ^ 31" using assms(3) all(2) by linarith+
  obtain xs e es off' where e: "w # ws = xs @ e # es" "off = length (slots s xs) + off'" "off' < unat (vd_len e)"
    "find_offset s q True w (int off) = Some (Some (e, int off'))"
    using find_offset_pos [OF lw _ pos(2,1), of True] all(1) by auto
  have sl: "slots s (w # ws) = slots s xs @ slots s (e # es)" using e(1) by (metis slots_simps(3))
  have "links s q e es" using lw e(1) links_ram by (cases xs) auto
  moreover have "off_table s q e es (set (slots s (e # es)))"
  proof (rule off_table_mono)
    show "off_table s q e es (set (slots s (w # ws)))" using assms(2) e(1) off_table_suffix by (cases xs) auto
    show "set (slots s (e # es)) \<subseteq> set (slots s (w # ws))" unfolding sl by auto
  qed
  moreover have "list_all (\<lambda>e. seg_ok s e \<and> is_write e) (e # es)" using all(1) unfolding e(1) by simp
  moreover have "off' + length buf \<le> length (slots s (e # es))"
    using assms(3) unfolding sl e(2) length_append by linarith
  ultimately have "copy_chain s q True e (int off') buf (int 0) (int (length buf)) =
      Some (0, s\<lparr>v_ram := poke (take (length buf) (drop off' (slots s (e # es)))) (take (length buf) (drop 0 buf)) (v_ram s)\<rparr>, buf)"
    using e(3) assms(3) all(2) by (intro copy_chain_to) simp_all
  then show ?thesis
    using False d(2) fw e(4) sl e(2) by (simp add: memcpy_to_queue_def memcpy_to_from_queue_def first_desc_in)
qed

end
