(* ===== verification/Virtio_Block.thy ===== *)
theory Virtio_Block
  imports Virtio_Chain
begin

text \<open>
  The block device: what a disk is as a function from sector numbers to sectors, what the used ring
  tells the driver, and what the device does with a request whose chain is in memory.
\<close>

section \<open>Disks as sectors\<close>

definition sector :: "BlockDeviceFile \<Rightarrow> nat \<Rightarrow> u8 list" where
  "sector bf j =
     (if bf_mode bf = BF_MODE_SNAPSHOT \<and> sector_table bf j \<noteq> None then the (sector_table bf j)
      else take 512 (drop (512 * j) (bf_data bf)))"

definition n_sectors :: "BlockDeviceFile \<Rightarrow> nat" where
  "n_sectors bf = length (bf_data bf) div 512"

definition disk_ok :: "BlockDeviceFile \<Rightarrow> bool" where
  "disk_ok bf \<longleftrightarrow> nb_sectors bf = int (n_sectors bf) \<and> length (bf_data bf) < 2 ^ 40 \<and>
     (\<forall>j bs. sector_table bf j = Some bs \<longrightarrow> length bs = 512)"

lemma disk_ok_init: "length file < 2 ^ 40 \<Longrightarrow> disk_ok (block_device_init file mode)"
  by (simp add: disk_ok_def n_sectors_def block_device_init_def zdiv_int)

lemma length_sector: "disk_ok bf \<Longrightarrow> j < n_sectors bf \<Longrightarrow> length (sector bf j) = 512"
  by (auto simp: sector_def disk_ok_def n_sectors_def)

lemma bf_seek_pos:
  assumes "unat k * 512 < 2 ^ 63"
  shows "bf_seek (k * 512) bf = bf\<lparr>bf_pos := unat k * 512\<rparr>"
proof -
  have u: "unat (k * 512) = unat k * 512" using assms by (simp add: unat_word_ariths)
  have "int (unat (k * 512)) < int (2 ^ 63)" using assms unfolding u by (simp only: of_nat_less_iff)
  then have "uint (k * 512) < 2 ^ 63" by simp
  moreover have "- (2 ^ 63) \<le> uint (k * 512)" by (rule order_trans [OF _ uint_ge_0]) simp
  ultimately have "sint (k * 512) = uint (k * 512)" unfolding sint_uint by (simp add: signed_take_bit_int_eq_self)
  then show ?thesis using u by (simp add: bf_seek_def)
qed

lemma sector_pos [simp]:
  "sector (bf\<lparr>bf_pos := p\<rparr>) = sector bf" "disk_ok (bf\<lparr>bf_pos := p\<rparr>) = disk_ok bf" "n_sectors (bf\<lparr>bf_pos := p\<rparr>) = n_sectors bf"
  by (auto simp: fun_eq_iff sector_def disk_ok_def n_sectors_def)

lemma disk_bounds:
  assumes "disk_ok bf" "m \<le> n_sectors bf"
  shows "m * 512 \<le> length (bf_data bf)" "m * 512 < 2 ^ 40"
proof -
  have "m * 512 \<le> n_sectors bf * 512" using assms(2) by simp
  also have "\<dots> \<le> length (bf_data bf)" unfolding n_sectors_def by (rule div_times_less_eq_dividend)
  finally show "m * 512 \<le> length (bf_data bf)" .
  then show "m * 512 < 2 ^ 40" using assms(1) by (simp add: disk_ok_def)
qed

lemma sector_in_table:
  assumes "disk_ok bf" "unat k < n_sectors bf"
  shows "\<not> nb_sectors bf \<le> uint k"
proof -
  have "int (unat k) < int (n_sectors bf)" using assms(2) by (simp only: of_nat_less_iff)
  then show ?thesis using assms(1) by (simp add: disk_ok_def)
qed

lemma read_sectors_ok:
  "disk_ok bf \<Longrightarrow> bf_mode bf = BF_MODE_SNAPSHOT \<Longrightarrow> unat k + n \<le> n_sectors bf \<Longrightarrow>
   \<exists>p. read_sectors n k bf = Some (concat (map (sector bf) [unat k..<unat k + n]), bf\<lparr>bf_pos := p\<rparr>)"
proof (induction n arbitrary: k bf)
  case 0
  show ?case by (rule exI [of _ "bf_pos bf"]) simp
next
  case (Suc n)
  note b = disk_bounds [OF Suc.prems(1,3)]
  have k1: "unat (k + 1) = unat k + 1" using b(2) by (simp add: unat_plus_if')
  have lt: "\<not> nb_sectors bf \<le> uint k" using Suc.prems(3) by (intro sector_in_table Suc.prems(1)) simp
  have "\<exists>p. (case sector_table bf (unat k) of None \<Rightarrow> bf_fread SECTOR_SIZE (bf_seek (k * 512) bf) | Some bs \<Rightarrow> Some (bs, bf)) =
      Some (sector bf (unat k), bf\<lparr>bf_pos := p\<rparr>)"
  proof (cases "sector_table bf (unat k)")
    case None
    have "bf_seek (k * 512) bf = bf\<lparr>bf_pos := unat k * 512\<rparr>" using b(2) by (intro bf_seek_pos) simp
    then have "bf_fread 512 (bf_seek (k * 512) bf) = Some (sector bf (unat k), bf\<lparr>bf_pos := unat k * 512 + 512\<rparr>)"
      using b(1) None Suc.prems(2) by (simp add: bf_fread_def sector_def mult.commute)
    then show ?thesis using None by auto
  next
    case (Some bs)
    then show ?thesis using Suc.prems(2) by (intro exI [of _ "bf_pos bf"]) (simp add: sector_def)
  qed
  then obtain p where p: "(case sector_table bf (unat k) of None \<Rightarrow> bf_fread SECTOR_SIZE (bf_seek (k * 512) bf) | Some bs \<Rightarrow> Some (bs, bf)) =
      Some (sector bf (unat k), bf\<lparr>bf_pos := p\<rparr>)" by blast
  obtain p' where p': "read_sectors n (k + 1) (bf\<lparr>bf_pos := p\<rparr>) =
      Some (concat (map (sector (bf\<lparr>bf_pos := p\<rparr>)) [unat (k + 1)..<unat (k + 1) + n]), (bf\<lparr>bf_pos := p\<rparr>)\<lparr>bf_pos := p'\<rparr>)"
    using Suc.IH [of "bf\<lparr>bf_pos := p\<rparr>" "k + 1"] Suc.prems k1 by auto
  have upt: "[unat k..<unat k + Suc n] = unat k # [unat k + 1..<unat k + 1 + n]" by (simp add: upt_conv_Cons)
  have "read_sectors (Suc n) k bf = Some (concat (map (sector bf) [unat k..<unat k + Suc n]), bf\<lparr>bf_pos := p'\<rparr>)"
    unfolding read_sectors.simps if_not_P [OF lt] p upt using p' k1 by simp
  then show ?case by blast
qed

lemma concat_sectors:
  assumes "disk_ok bf" "bf_mode bf \<noteq> BF_MODE_SNAPSHOT" "k + n \<le> n_sectors bf"
  shows "concat (map (sector bf) [k..<k + n]) = take (n * 512) (drop (k * 512) (bf_data bf))"
  using assms(3)
proof (induction n)
  case (Suc n)
  let ?d = "drop (k * 512) (bf_data bf)"
  have eq: "Suc n * 512 = n * 512 + 512" "n * 512 + k * 512 = 512 * (k + n)" by simp_all
  have "take (Suc n * 512) ?d = take (n * 512) ?d @ take 512 (drop (n * 512) ?d)" unfolding eq(1) by (rule take_add)
  also have "take 512 (drop (n * 512) ?d) = sector bf (k + n)"
    using assms(2) unfolding drop_drop eq(2) by (simp add: sector_def)
  finally show ?case using Suc by simp
qed simp

lemma bf_read_sectors:
  assumes "disk_ok bf" "unat k + n \<le> n_sectors bf"
  shows "\<exists>p. bf_read_async k n bf = Some (0, concat (map (sector bf) [unat k..<unat k + n]), bf\<lparr>bf_pos := p\<rparr>)"
proof (cases "bf_mode bf = BF_MODE_SNAPSHOT")
  case True
  then show ?thesis using read_sectors_ok [OF assms(1) True assms(2)] by (auto simp: bf_read_async_def)
next
  case False
  note b = disk_bounds [OF assms]
  have "bf_seek (k * 512) bf = bf\<lparr>bf_pos := unat k * 512\<rparr>" using b(2) by (intro bf_seek_pos) simp
  then have "bf_fread (n * 512) (bf_seek (k * 512) bf) =
      Some (take (n * 512) (drop (unat k * 512) (bf_data bf)), bf\<lparr>bf_pos := unat k * 512 + n * 512\<rparr>)"
    using b(1) by (simp add: bf_fread_def add_mult_distrib)
  then show ?thesis
    using False concat_sectors [OF assms(1) False assms(2)] by (cases "bf_mode bf") (auto simp: bf_read_async_def)
qed

text \<open>The disk after sectors have been written.\<close>

definition disk_update :: "nat \<Rightarrow> u8 list \<Rightarrow> nat \<Rightarrow> (nat \<Rightarrow> u8 list) \<Rightarrow> nat \<Rightarrow> u8 list" where
  "disk_update k buf n d j = (if k \<le> j \<and> j < k + n then take 512 (drop ((j - k) * 512) buf) else d j)"

lemma write_sectors_ok:
  "disk_ok bf \<Longrightarrow> bf_mode bf = BF_MODE_SNAPSHOT \<Longrightarrow> unat k + n \<le> n_sectors bf \<Longrightarrow> length buf = n * 512 \<Longrightarrow>
   \<exists>bf'. write_sectors n k buf bf = Some bf' \<and> disk_ok bf' \<and> bf_data bf' = bf_data bf \<and> bf_mode bf' = bf_mode bf \<and>
     n_sectors bf' = n_sectors bf \<and> sector bf' = disk_update (unat k) buf n (sector bf)"
proof (induction n arbitrary: k buf bf)
  case 0
  then show ?case by (auto simp: disk_update_def fun_eq_iff)
next
  case (Suc n)
  note b = disk_bounds [OF Suc.prems(1,3)]
  have k1: "unat (k + 1) = unat k + 1" using b(2) by (simp add: unat_plus_if')
  have lt: "\<not> nb_sectors bf \<le> uint k" using Suc.prems(3) by (intro sector_in_table Suc.prems(1)) simp
  let ?bf = "bf\<lparr>sector_table := (sector_table bf)(unat k \<mapsto> take 512 buf)\<rparr>"
  have ok: "disk_ok ?bf" "n_sectors ?bf = n_sectors bf" using Suc.prems(1,4) by (auto simp: disk_ok_def n_sectors_def)
  then obtain bf' where bf': "write_sectors n (k + 1) (drop 512 buf) ?bf = Some bf'" "disk_ok bf'" "bf_data bf' = bf_data bf"
    "bf_mode bf' = bf_mode bf" "n_sectors bf' = n_sectors bf" "sector bf' = disk_update (unat k + 1) (drop 512 buf) n (sector ?bf)"
    using Suc.IH [of ?bf "k + 1" "drop 512 buf"] Suc.prems k1 by auto
  have "disk_update (unat k + 1) (drop 512 buf) n (sector ?bf) j = disk_update (unat k) buf (Suc n) (sector bf) j" for j
  proof (cases "j = unat k")
    case True
    then show ?thesis using Suc.prems(2) by (simp add: disk_update_def sector_def)
  next
    case False
    then have "unat k < j \<Longrightarrow> (j - unat k) * 512 = (j - (unat k + 1)) * 512 + 512" by (simp add: algebra_simps diff_mult_distrib)
    then show ?thesis using False by (auto simp: disk_update_def sector_def)
  qed
  then show ?case using bf' lt by (auto simp: fun_eq_iff)
qed

lemma patch_sector:
  assumes "length buf = n * 512" "(k + n) * 512 \<le> length data"
  shows "take 512 (drop (j * 512) (take (k * 512) data @ buf @ drop ((k + n) * 512) data)) =
    (if k \<le> j \<and> j < k + n then take 512 (drop ((j - k) * 512) buf) else take 512 (drop (j * 512) data))"
proof -
  have l: "length (take (k * 512) data) = k * 512" using assms(2) by (simp add: add_mult_distrib)
  consider m where "k = j + Suc m" | m r where "j = k + m" "n = m + Suc r" | m where "j = k + n + m"
    by (metis add.assoc less_iff_Suc_add linorder_not_less nat_le_iff_add add_Suc_right)
  then show ?thesis
  proof cases
    case 1
    then show ?thesis using assms(2) by (simp add: drop_take add_mult_distrib)
  next
    case 2
    then show ?thesis using l assms(1) by (simp add: add_mult_distrib)
  next
    case 3
    then show ?thesis using l assms by (simp add: add_mult_distrib add.commute add.left_commute)
  qed
qed

lemma sector_write:
  assumes "disk_ok bf" "bf_mode bf = BF_MODE_RW" "k + n \<le> n_sectors bf" "length buf = n * 512" "0 < n"
  shows "disk_ok (bf_fwrite buf (bf\<lparr>bf_pos := k * 512\<rparr>))"
    "sector (bf_fwrite buf (bf\<lparr>bf_pos := k * 512\<rparr>)) = disk_update k buf n (sector bf)"
proof -
  have le: "(k + n) * 512 \<le> length (bf_data bf)"
    by (rule disk_bounds(1) [OF assms(1,3)])
  let ?d = "take (k * 512) (bf_data bf) @ buf @ drop (k * 512 + length buf) (bf_data bf)"
  have d: "bf_fwrite buf (bf\<lparr>bf_pos := k * 512\<rparr>) = bf\<lparr>bf_data := ?d, bf_pos := k * 512 + n * 512\<rparr>"
    using le assms(4,5) by (auto simp: bf_fwrite_def Let_def)
  show "disk_ok (bf_fwrite buf (bf\<lparr>bf_pos := k * 512\<rparr>))"
    unfolding d using assms(1,4) le by (simp add: disk_ok_def n_sectors_def add_mult_distrib)
  have "take 512 (drop (512 * j) ?d) = disk_update k buf n (sector bf) j" for j
    using patch_sector [OF assms(4) le, of j] assms(2,4)
    by (simp add: disk_update_def sector_def mult.commute add_mult_distrib)
  then show "sector (bf_fwrite buf (bf\<lparr>bf_pos := k * 512\<rparr>)) = disk_update k buf n (sector bf)"
    unfolding d using assms(2) by (simp add: fun_eq_iff sector_def)
qed

lemma bf_write_sectors:
  assumes "disk_ok bf" "unat k + n \<le> n_sectors bf" "length buf = n * 512" "bf_mode bf \<noteq> BF_MODE_RO"
  shows "\<exists>bf'. bf_write_async k buf n bf = Some (0, bf') \<and> disk_ok bf' \<and> n_sectors bf' = n_sectors bf \<and>
    bf_mode bf' = bf_mode bf \<and> sector bf' = disk_update (unat k) buf n (sector bf) \<and>
    (bf_mode bf = BF_MODE_SNAPSHOT \<longrightarrow> bf_data bf' = bf_data bf)"
proof (cases "bf_mode bf = BF_MODE_SNAPSHOT")
  case True
  have small: "unat k + n < 2 ^ 32" using disk_bounds(2) [OF assms(1,2)] by simp
  then have "unat (k + of_nat n) = unat k + n" by (simp add: unat_word_ariths unat_of_nat)
  then have u: "uint (k + of_nat n) = int (unat k + n)" by (metis uint_nat)
  have "int (unat k + n) < int (2 ^ 32)" using small by (simp only: of_nat_less_iff)
  then have "uint (ucast (k + of_nat n) :: u32) = int (unat k + n)"
    unfolding u [symmetric] by (simp add: unsigned_ucast_eq unsigned_take_bit_eq take_bit_int_eq_self)
  moreover have "int (unat k + n) \<le> nb_sectors bf" using assms(1,2) unfolding disk_ok_def by (metis of_nat_le_iff)
  ultimately have "\<not> nb_sectors bf < uint (ucast (k + of_nat n) :: u32)" by simp
  moreover obtain bf' where "write_sectors n k buf bf = Some bf'" "disk_ok bf'" "bf_data bf' = bf_data bf" "bf_mode bf' = bf_mode bf"
    "n_sectors bf' = n_sectors bf" "sector bf' = disk_update (unat k) buf n (sector bf)"
    using write_sectors_ok [OF assms(1) True assms(2,3)] by blast
  ultimately show ?thesis using True by (simp add: bf_write_async_def)
next
  case False
  then have rw: "bf_mode bf = BF_MODE_RW" using assms(4) by (cases "bf_mode bf") auto
  have seek: "bf_seek (k * 512) bf = bf\<lparr>bf_pos := unat k * 512\<rparr>"
    using disk_bounds(2) [OF assms(1,2)] by (intro bf_seek_pos) simp
  show ?thesis
  proof (cases "n = 0")
    case True
    have "disk_update (unat k) buf 0 (sector bf) = sector bf" by (auto simp: disk_update_def fun_eq_iff)
    then show ?thesis using True assms rw seek by (simp add: bf_write_async_def bf_fwrite_def)
  next
    case False
    let ?bf = "bf_fwrite buf (bf\<lparr>bf_pos := unat k * 512\<rparr>)"
    have "n_sectors ?bf = n_sectors bf" "bf_mode ?bf = bf_mode bf"
      using disk_bounds(1) [OF assms(1,2)] assms(3) by (simp_all add: bf_fwrite_def n_sectors_def Let_def add_mult_distrib)
    then show ?thesis using sector_write [OF assms(1) rw assms(2,3)] False rw seek assms(3) by (simp add: bf_write_async_def)
  qed
qed

section \<open>The used ring\<close>

text \<open>The used ring of queue \<open>q\<close> is aligned and contiguous in the host, from \<open>u\<close> on.\<close>

definition ring_len :: "'z VIRTIODevice_scheme \<Rightarrow> nat \<Rightarrow> nat" where
  "ring_len s q = 4 + 8 * unat (qs_num (v_queue s q))"

definition ring_at :: "'z VIRTIODevice_scheme \<Rightarrow> nat \<Rightarrow> u64 \<Rightarrow> bool" where
  "ring_at s q u \<longleftrightarrow> used_addr (v_queue s q) AND 3 = 0 \<and> qs_num (v_queue s q) \<noteq> 0 \<and> qs_num (v_queue s q) \<le> 0x8000 \<and>
     linear (v_map s) (used_addr (v_queue s q)) (ring_len s q) u"

definition used_index :: "'z VIRTIODevice_scheme \<Rightarrow> nat \<Rightarrow> u16 \<Rightarrow> nat" where
  "used_index s q index = unat (ucast index AND (qs_num (v_queue s q) - 1))"

lemma used_index_less: "qs_num (v_queue s q) \<noteq> 0 \<Longrightarrow> used_index s q index < unat (qs_num (v_queue s q))"
proof -
  assume "qs_num (v_queue s q) \<noteq> 0"
  then have "unat (qs_num (v_queue s q) - 1) < unat (qs_num (v_queue s q))"
    using unat_minus_one [of "qs_num (v_queue s q)"] unat_gt_0 [of "qs_num (v_queue s q)"] by linarith
  moreover have "ucast index AND (qs_num (v_queue s q) - 1) \<le> qs_num (v_queue s q) - 1" by (rule word_and_le1)
  ultimately show ?thesis unfolding used_index_def word_le_nat_alt by linarith
qed

lemma and_3_iff: "(w :: u64) AND 3 = 0 \<longleftrightarrow> uint w mod 4 = 0"
proof -
  have "uint (w AND 3) = uint w AND mask 2" by (simp add: uint_and mask_eq_exp_minus_1)
  also have "\<dots> = uint w mod 4" by (simp flip: take_bit_eq_mask add: take_bit_eq_mod)
  finally show ?thesis by (metis uint_0_iff)
qed

lemma align4: "(a :: u64) AND 3 = 0 \<Longrightarrow> (a + 4 * b) AND 3 = 0"
proof -
  assume "a AND 3 = 0"
  then have "(uint a + 4 * uint b) mod 4 = 0" by (simp add: and_3_iff mod_add_eq)
  moreover have "uint (a + 4 * b) = (uint a + 4 * uint b) mod 2 ^ 64" by (simp add: uint_word_ariths mod_simps)
  ultimately show ?thesis unfolding and_3_iff by (simp add: mod_mod_cancel)
qed

lemma align2: "(a :: u64) AND 3 = 0 \<Longrightarrow> (a + 2) AND 1 = 0"
proof -
  have and1: "w AND 1 = 0 \<longleftrightarrow> uint w mod 2 = 0" for w :: u64
  proof -
    have "uint (w AND 1) = uint w mod 2" by (simp add: and_one_eq uint_mod)
    then show ?thesis by (metis uint_0_iff)
  qed
  assume "a AND 3 = 0"
  then have e: "uint a mod 2 = 0" unfolding and_3_iff by presburger
  have "uint (a + 2) = (uint a + 2) mod 2 ^ 64" by (simp add: uint_word_ariths)
  then have "uint (a + 2) mod 2 = (uint a + 2) mod 2" by (simp add: mod_mod_cancel)
  then show ?thesis unfolding and1 using e by presburger
qed

lemma ring_element:
  assumes "ring_at s q u" "k < unat (qs_num (v_queue s q))" "a \<le> 7"
  shows "get_ram_ptr (v_map s) (used_addr (v_queue s q) + of_nat (4 + 8 * k + a)) = Some (u + of_nat (4 + 8 * k + a))"
  using assms by (simp add: ring_at_def linear_def ring_len_def del: of_nat_add of_nat_mult)

lemma ring_addr:
  assumes "ring_at s q u"
  shows "ucast ((ucast index AND (qs_num (v_queue s q) - 1)) * 8 :: u32) = (of_nat (8 * used_index s q index) :: u64)"
proof -
  let ?x = "ucast index AND (qs_num (v_queue s q) - 1)"
  have num: "unat (qs_num (v_queue s q)) \<le> 0x8000" "qs_num (v_queue s q) \<noteq> 0"
    using assms by (simp_all add: ring_at_def word_le_nat_alt)
  then have "unat ?x < 0x8000" using used_index_less [OF num(2), of index] unfolding used_index_def by linarith
  then have "unat (?x * 8) = 8 * unat ?x" by (simp add: unat_word_ariths)
  then have "of_nat (unat (?x * 8)) = (of_nat (8 * used_index s q index) :: u64)" by (simp add: used_index_def)
  then show ?thesis by (metis of_nat_unat)
qed

text \<open>Consuming a descriptor enters it into the ring, moves the index on and raises the interrupt.\<close>

definition ring_enter :: "u64 \<Rightarrow> nat \<Rightarrow> u16 \<Rightarrow> u32 \<Rightarrow> host_mem \<Rightarrow> host_mem" where
  "ring_enter u k i n m =
     put_le32 (put_le32 (put_le16 m (u + 2) (get_le16 m (u + 2) + 1)) (u + of_nat (4 + 8 * k)) (ucast i)) (u + of_nat (8 + 8 * k)) n"

lemma consume_ring:
  assumes "ring_at s q u" "k = used_index s q (get_le16 (v_ram s) (u + 2))"
  shows "virtio_consume_desc s q i n =
    virtio_set_irq True (s\<lparr>v_ram := ring_enter u k i n (v_ram s), int_status := int_status s OR 1\<rparr>)"
proof -
  let ?a = "used_addr (v_queue s q)"
  have al: "?a AND 3 = 0" and num: "qs_num (v_queue s q) \<noteq> 0" using assms(1) by (simp_all add: ring_at_def)
  have k: "k < unat (qs_num (v_queue s q))" unfolding assms(2) by (rule used_index_less [OF num])
  have p2: "get_ram_ptr (v_map s) (?a + 2) = Some (u + 2)"
    using assms(1) unfolding ring_at_def linear_def ring_len_def by (auto dest!: spec [of _ 2])
  have p4: "get_ram_ptr (v_map s) (?a + of_nat (4 + 8 * k)) = Some (u + of_nat (4 + 8 * k))"
    using ring_element [OF assms(1) k, of 0] by simp
  have p8: "get_ram_ptr (v_map s) (?a + of_nat (8 + 8 * k)) = Some (u + of_nat (8 + 8 * k))"
    using ring_element [OF assms(1) k, of 4] by (simp add: add.commute)
  have al4: "(?a + of_nat (4 + 8 * k)) AND 3 = 0" "(?a + of_nat (8 + 8 * k)) AND 3 = 0"
    using align4 [OF al, of "of_nat (1 + 2 * k)"] align4 [OF al, of "of_nat (2 + 2 * k)"] by (simp_all add: algebra_simps)
  have r: "virtio_read16 s (?a + 2) = get_le16 (v_ram s) (u + 2)"
    by (simp add: virtio_read16_def ram_ptr_eq p2 align2 [OF al])
  have w16: "virtio_write16 s (?a + 2) v = s\<lparr>v_ram := put_le16 (v_ram s) (u + 2) v\<rparr>" for v
    by (simp add: virtio_write16_def ram_ptr_eq p2 align2 [OF al])
  have w4: "virtio_write32 (s\<lparr>v_ram := m\<rparr>) (?a + of_nat (4 + 8 * k)) v = s\<lparr>v_ram := put_le32 m (u + of_nat (4 + 8 * k)) v\<rparr>" for m v
    by (simp only: virtio_write32_def ram_ptr_eq al4) (simp add: p4 del: of_nat_add of_nat_mult)
  have w8: "virtio_write32 (s\<lparr>v_ram := m\<rparr>) (?a + of_nat (8 + 8 * k)) v = s\<lparr>v_ram := put_le32 m (u + of_nat (8 + 8 * k)) v\<rparr>" for m v
    by (simp only: virtio_write32_def ram_ptr_eq al4) (simp add: p8 del: of_nat_add of_nat_mult)
  have a4: "?a + 4 + ucast ((ucast (get_le16 (v_ram s) (u + 2)) AND (qs_num (v_queue s q) - 1)) * 8 :: u32) = ?a + of_nat (4 + 8 * k)"
    unfolding ring_addr [OF assms(1)] assms(2) by (simp add: add.assoc)
  have a8: "?a + of_nat (4 + 8 * k) + 4 = ?a + of_nat (8 + 8 * k)" by simp
  show ?thesis
    unfolding virtio_consume_desc_def Let_def r w16 a4 a8 w4 w8 ring_enter_def by simp
qed

lemma ring_put_other:
  assumes "k < 0x8000" "p \<notin> set (addrs u (12 + 8 * k))"
  shows "ring_enter u k i n m p = m p"
proof -
  have mem: "u + of_nat j \<in> set (addrs u (12 + 8 * k))" if "j < 12 + 8 * k" for j using that by (auto simp: addrs_def)
  have "p \<noteq> u + of_nat j" if "j < 12 + 8 * k" for j using mem [OF that] assms(2) by blast
  from this [of 2] this [of 3] this [of "4 + 8 * k"] this [of "4 + 8 * k + 1"] this [of "4 + 8 * k + 2"] this [of "4 + 8 * k + 3"]
    this [of "8 + 8 * k"] this [of "8 + 8 * k + 1"] this [of "8 + 8 * k + 2"] this [of "8 + 8 * k + 3"]
  show ?thesis by (simp add: ring_enter_def put_le32_def put_le16_def add.assoc add.commute add.left_commute)
qed

lemma of_nat_inj_u64:
  assumes "a < 2 ^ 64" "b < 2 ^ 64"
  shows "(of_nat a :: u64) = of_nat b \<longleftrightarrow> a = b"
proof -
  have "unat (of_nat a :: u64) = a" "unat (of_nat b :: u64) = b" using assms by (simp_all add: unat_of_nat)
  then show ?thesis by metis
qed

lemma put_le32_off:
  assumes "b < 2 ^ 32" "a < 2 ^ 31" "b < a \<or> a + 4 \<le> b"
  shows "put_le32 m (u + of_nat a) v (u + of_nat b) = m (u + of_nat b)"
proof -
  have ne: "u + of_nat b \<noteq> u + of_nat (a + j)" if "j < 4" for j
    using assms that of_nat_inj_u64 [of b "a + j"] by auto
  have "u + of_nat b \<notin> {u + of_nat a, u + of_nat a + 1, u + of_nat a + 2, u + of_nat a + 3}"
    using ne [of 0] ne [of 1] ne [of 2] ne [of 3] by (simp add: add.commute add.left_commute)
  then show ?thesis by (rule put_le32_other)
qed

lemma get_le32_off:
  assumes "\<And>j. j < 4 \<Longrightarrow> m' (u + of_nat (b + j)) = m (u + of_nat (b + j))"
  shows "get_le32 m' (u + of_nat b) = get_le32 m (u + of_nat b)"
  using assms [of 0] assms [of 1] assms [of 2] assms [of 3]
  by (simp add: get_le32_def add.assoc add.commute add.left_commute)

lemma ring_enter_content:
  assumes "k < 0x8000"
  shows "get_le16 (ring_enter u k i n m) (u + 2) = get_le16 m (u + 2) + 1"
    "get_le32 (ring_enter u k i n m) (u + of_nat (4 + 8 * k)) = ucast i"
    "get_le32 (ring_enter u k i n m) (u + of_nat (8 + 8 * k)) = n"
proof -
  let ?m = "put_le16 m (u + 2) (get_le16 m (u + 2) + 1)"
  have o: "ring_enter u k i n m (u + of_nat b) = ?m (u + of_nat b)" if "b < 4 + 8 * k" for b
    using that assms put_le32_off [of b "8 + 8 * k"] put_le32_off [of b "4 + 8 * k"] by (simp add: ring_enter_def)
  have "ring_enter u k i n m (u + 2) = ?m (u + 2)" "ring_enter u k i n m (u + 2 + 1) = ?m (u + 2 + 1)"
    using o [of 2] o [of 3] by (simp_all add: add.assoc)
  then have "get_le16 (ring_enter u k i n m) (u + 2) = get_le16 ?m (u + 2)" by (simp only: get_le16_def)
  then show "get_le16 (ring_enter u k i n m) (u + 2) = get_le16 m (u + 2) + 1" by simp
  show "get_le32 (ring_enter u k i n m) (u + of_nat (8 + 8 * k)) = n" by (simp add: ring_enter_def)
  have "get_le32 (ring_enter u k i n m) (u + of_nat (4 + 8 * k)) = get_le32 (put_le32 ?m (u + of_nat (4 + 8 * k)) (ucast i)) (u + of_nat (4 + 8 * k))"
    unfolding ring_enter_def by (rule get_le32_off) (rule put_le32_off, use assms in simp_all)
  then show "get_le32 (ring_enter u k i n m) (u + of_nat (4 + 8 * k)) = ucast i" by simp
qed

section \<open>Requests of a driver\<close>

lemma desc_in_cong: "v_map s = v_map t \<Longrightarrow> v_queue s = v_queue t \<Longrightarrow> v_ram s = v_ram t \<Longrightarrow> desc_in s = desc_in t"
  by (intro ext) (simp add: desc_in_def)

lemma seg_cong: "v_map s = v_map t \<Longrightarrow> seg_ok s = seg_ok t \<and> slots s = slots t"
  by (simp add: fun_eq_iff seg_ok_def slots_def seg_ptr_def)

lemma request_cong:
  assumes "v_map s = v_map t" "v_queue s = v_queue t" "v_ram s = v_ram t"
  shows "request s q i rs ws = request t q i rs ws"
proof -
  have "links s q d ds = links t q d ds" for d ds
    using desc_in_cong [OF assms] by (induction ds arbitrary: d) simp_all
  then show ?thesis using desc_in_cong [OF assms] seg_cong [OF assms(1)] by (simp add: request_def chain_def)
qed

lemma off_table_cong:
  assumes "v_map s = v_map t" "v_queue s = v_queue t"
  shows "off_table s q d ds A = off_table t q d ds A"
  using assms by (induction ds arbitrary: d) (simp_all add: entry_addrs_def)

definition blk_header :: "u32 \<Rightarrow> u32 \<Rightarrow> u64 \<Rightarrow> u8 list" where
  "blk_header type ioprio k = le32_bytes type @ le32_bytes ioprio @ le64_bytes k"

lemma length_blk_header [simp]: "length (blk_header t p k) = 16"
  by (simp add: blk_header_def le32_bytes_def le64_bytes_def)

lemma list_mem_numeral: "list_mem bs (numeral n) = (if unat (numeral n :: u64) < length bs then bs ! unat (numeral n :: u64) else 0)"
  by (simp add: list_mem_def)

lemma list_mem_cong_le64: "(\<And>j. j < 8 \<Longrightarrow> m (a + of_nat j) = m' (b + of_nat j)) \<Longrightarrow> get_le64 m a = get_le64 m' b"
proof -
  assume e: "\<And>j. j < 8 \<Longrightarrow> m (a + of_nat j) = m' (b + of_nat j)"
  show ?thesis using e [of 0] e [of 1] e [of 2] e [of 3] e [of 4] e [of 5] e [of 6] e [of 7]
    by (simp add: get_le64_def get_le32_def add.assoc)
qed

lemma header_fields:
  "get_le32 (list_mem (blk_header t p k)) 0 = t" "get_le64 (list_mem (blk_header t p k)) 8 = k"
proof -
  let ?m = "put_le64 (put_le32 (put_le32 (\<lambda>_. 0) 0 t) 4 p) 8 k"
  have m: "list_mem (blk_header t p k) (of_nat j) = ?m (of_nat j)" if "j < 16" for j
  proof -
    have "j = 0 \<or> j = 1 \<or> j = 2 \<or> j = 3 \<or> j = 4 \<or> j = 5 \<or> j = 6 \<or> j = 7 \<or> j = 8 \<or> j = 9 \<or> j = 10 \<or> j = 11 \<or>
      j = 12 \<or> j = 13 \<or> j = 14 \<or> j = 15" using that by presburger
    then show ?thesis
      by (elim disjE) (simp_all add: list_mem_def blk_header_def le32_bytes_def le64_bytes_def put_le64_def put_le32_def)
  qed
  have "get_le32 (list_mem (blk_header t p k)) 0 = get_le32 ?m 0"
    using m [of 0] m [of 1] m [of 2] m [of 3] by (simp add: get_le32_def)
  also have "\<dots> = get_le32 (put_le32 (\<lambda>_. 0) 0 t) 0"
    by (simp add: get_le32_def put_le64_def put_le32_def)
  finally show "get_le32 (list_mem (blk_header t p k)) 0 = t" by simp
  have "get_le64 (list_mem (blk_header t p k)) 8 = get_le64 ?m 8"
    using m [of 8] m [of 9] m [of 10] m [of 11] m [of 12] m [of 13] m [of 14] m [of 15]
    by (intro list_mem_cong_le64) (auto dest!: less_8_cases)
  then show "get_le64 (list_mem (blk_header t p k)) 8 = k" by simp
qed

text \<open>
  The driver has made one more chain available in queue \<open>q\<close>: its readable part holds the header of a
  request of type \<open>t\<close> for sector \<open>k\<close> and the bytes \<open>data\<close>.
\<close>

definition blk_posted ::
  "'z VIRTIODevice_scheme \<Rightarrow> nat \<Rightarrow> u64 \<Rightarrow> u16 \<Rightarrow> VIRTIODesc list \<Rightarrow> VIRTIODesc list \<Rightarrow> u32 \<Rightarrow> u64 \<Rightarrow> u8 list \<Rightarrow> bool" where
  "blk_posted s q u i rs ws t k data \<longleftrightarrow>
     \<not> manual_recv (v_queue s q) \<and> avail_idx s q = last_avail_idx (v_queue s q) + 1 \<and> next_avail s q = i \<and>
     ws \<noteq> [] \<and> request s q i rs ws \<and> off_table s q (hd ws) (tl ws) (set (slots s ws)) \<and> distinct (slots s ws) \<and>
     ring_at s q u \<and> set (slots s ws) \<inter> set (addrs u (ring_len s q)) = {} \<and>
     (\<exists>p. map (v_ram s) (slots s rs) = blk_header t p k @ data)"

lemma posted_header:
  assumes "blk_posted s q u i rs ws t k data" "\<And>n. length (fresh n) = n"
  obtains p where "memcpy_from_queue s (fresh 16) q i 0 16 = Some (0, blk_header t p k)" "length (slots s rs) = 16 + length data"
proof -
  from assms(1) obtain p where p: "map (v_ram s) (slots s rs) = blk_header t p k @ data" and r: "request s q i rs ws"
    by (auto simp: blk_posted_def)
  have len: "length (slots s rs) = 16 + length data" using arg_cong [OF p, of length] by simp
  have "map (v_ram s) (take 16 (slots s rs)) = blk_header t p k" using p by (simp flip: take_map)
  then show thesis
    using memcpy_from_queue_chain [OF r, of 0 16 "fresh 16"] len assms(2) that by (simp add: overlay_all)
qed

lemma posted_data:
  assumes "blk_posted s q u i rs ws t k data" "\<And>n. length (fresh n) = n"
  shows "memcpy_from_queue s (fresh (length data)) q i 16 (int (length data)) = Some (0, data)"
proof -
  from assms(1) obtain p where p: "map (v_ram s) (slots s rs) = blk_header t p k @ data" and r: "request s q i rs ws"
    by (auto simp: blk_posted_def)
  have len: "length (slots s rs) = 16 + length data" using arg_cong [OF p, of length] by simp
  have "map (v_ram s) (take (length data) (drop 16 (slots s rs))) = data" using p by (simp flip: take_map drop_map)
  then show ?thesis
    using memcpy_from_queue_chain [OF r, of 16 "length data" "fresh (length data)"] len assms(2) by (simp add: overlay_all)
qed

lemma posted_write:
  assumes "blk_posted s q u i rs ws t k data" "length buf \<le> length (slots s ws)" "v_map s' = v_map s" "v_queue s' = v_queue s" "v_ram s' = v_ram s"
  shows "memcpy_to_queue s' q i 0 buf (int (length buf)) = Some (0, s'\<lparr>v_ram := poke (take (length buf) (slots s ws)) buf (v_ram s)\<rparr>)"
proof -
  from assms(1) obtain w ws' where ws: "ws = w # ws'" by (cases ws) (auto simp: blk_posted_def)
  note seg = seg_cong [OF assms(3)]
  have "request s' q i rs (w # ws')" "off_table s' q w ws' (set (slots s' (w # ws')))"
    using assms(1) ws request_cong [OF assms(3-5)] off_table_cong [OF assms(3,4)] seg by (simp_all add: blk_posted_def)
  from memcpy_to_queue_chain [OF this, of 0 buf] show ?thesis using assms(2,5) ws seg by simp
qed

text \<open>The chain has been entered into the used ring with length \<open>n\<close> and the interrupt raised.\<close>

definition blk_done :: "'z VIRTIOBlockDevice_scheme \<Rightarrow> 'z VIRTIOBlockDevice_scheme \<Rightarrow> nat \<Rightarrow> u64 \<Rightarrow> u16 \<Rightarrow> nat \<Rightarrow> bool" where
  "blk_done s s' q u i n \<longleftrightarrow>
     (let index = get_le16 (v_ram s) (u + 2); k = used_index s q index
      in get_le16 (v_ram s') (u + 2) = index + 1 \<and> get_le32 (v_ram s') (u + of_nat (4 + 8 * k)) = ucast i \<and>
         get_le32 (v_ram s') (u + of_nat (8 + 8 * k)) = of_nat n) \<and>
     last_avail_idx (v_queue s' q) = last_avail_idx (v_queue s q) + 1 \<and> int_status s' AND 1 = 1 \<and> irq_level s' \<and>
     \<not> req_in_progress s'"

lemma notify_one:
  assumes "blk_posted s q u i rs ws t k data"
    and "recv s q i (int (length (slots s rs))) (int (length (slots s ws))) = Some (0, s')" "v_queue s' = v_queue s"
  shows "queue_notify recv q s = Some (bump_avail q s')"
proof -
  have p: "\<not> manual_recv (v_queue s q)" "avail_idx s q = last_avail_idx (v_queue s q) + 1" "next_avail s q = i"
    "get_desc_rw_size s q i = Some (Some (int (length (slots s rs)), int (length (slots s ws))))"
    using assms(1) request_sizes [of s q i rs ws] by (auto simp: blk_posted_def)
  have "last_avail_idx (v_queue (bump_avail q s') q) = last_avail_idx (v_queue s q) + 1"
    using assms(3) by (simp add: bump_avail_def update_queue_def)
  then have "notify_loop recv q (last_avail_idx (v_queue s q) + 1) (bump_avail q s') = Some (bump_avail q s')"
    by (subst notify_loop.simps) simp
  then have "notify_loop recv q (last_avail_idx (v_queue s q) + 1) s = Some (bump_avail q s')"
    using p(3,4) assms(2) by (subst notify_loop.simps) (simp add: Let_def)
  then show ?thesis using p(1,2) by (simp add: queue_notify_def)
qed

lemma or_1_and_1: "(w OR 1) AND 1 = (1 :: u32)"
  by (rule bit_word_eqI) (auto simp: bit_simps)

text \<open>What follows the copy of the answer \<open>buf\<close> to the chain.\<close>

lemma answer_done:
  fixes s :: "'z VIRTIOBlockDevice_scheme"
  assumes "blk_posted s q u i rs ws t k data" "length buf \<le> length (slots s ws)"
    and "v_map s1 = v_map s" "v_queue s1 = v_queue s" "v_irq s1 = v_irq s" "int_status s1 = int_status s" "\<not> req_in_progress s1"
    and "s' = bump_avail q (virtio_consume_desc (s1\<lparr>v_ram := poke (take (length buf) (slots s ws)) buf (v_ram s)\<rparr>) q i (of_nat n))"
  shows "map (v_ram s') (take (length buf) (slots s ws)) = buf \<and> blk_done s s' q u i n \<and> blk_bs s' = blk_bs s1"
proof -
  let ?as = "take (length buf) (slots s ws)"
  let ?t = "s1\<lparr>v_ram := poke ?as buf (v_ram s)\<rparr>"
  have p: "distinct (slots s ws)" "ring_at s q u" "set (slots s ws) \<inter> set (addrs u (ring_len s q)) = {}"
    using assms(1) by (simp_all add: blk_posted_def)
  have num: "qs_num (v_queue s q) \<noteq> 0" "unat (qs_num (v_queue s q)) \<le> 0x8000" using p(2) by (simp_all add: ring_at_def word_le_nat_alt)
  define j where "j = used_index s q (get_le16 (v_ram s) (u + 2))"
  have j: "j < unat (qs_num (v_queue s q))" unfolding j_def by (rule used_index_less [OF num(1)])
  have ring: "u + of_nat b \<in> set (addrs u (ring_len s q))" if "b < ring_len s q" for b using that by (auto simp: addrs_def)
  have sub: "set ?as \<subseteq> set (slots s ws)" by (rule set_take_subset)
  have same: "poke ?as buf (v_ram s) (u + of_nat b) = v_ram s (u + of_nat b)" if "b < ring_len s q" for b
    using ring [OF that] p(3) sub by (intro poke_other) blast
  have idx: "get_le16 (poke ?as buf (v_ram s)) (u + 2) = get_le16 (v_ram s) (u + 2)"
    using same [of 2] same [of 3] by (simp add: get_le16_def ring_len_def add.assoc)
  have at: "ring_at ?t q u" using p(2) assms(3,4) by (simp add: ring_at_def ring_len_def)
  have "j = used_index ?t q (get_le16 (v_ram ?t) (u + 2))" using idx assms(4) by (simp add: j_def used_index_def)
  note c = consume_ring [OF at this, of i "of_nat n"]
  have ram: "v_ram s' = ring_enter u j i (of_nat n) (poke ?as buf (v_ram s))"
    unfolding assms(8) c by (simp add: bump_avail_def update_queue_def virtio_set_irq_def)
  have small: "j < 0x8000" using j num(2) by linarith
  have le: "12 + 8 * j \<le> ring_len s q" using j by (simp add: ring_len_def)
  have keep: "v_ram s' a = poke ?as buf (v_ram s) a" if "a \<in> set ?as" for a
  proof -
    have "a \<notin> set (addrs u (12 + 8 * j))" using that sub p(3) ring le by (auto simp: addrs_def)
    then show ?thesis unfolding ram by (rule ring_put_other [OF small])
  qed
  have "map (v_ram s') ?as = map (poke ?as buf (v_ram s)) ?as" by (rule map_cong [OF refl]) (rule keep)
  also have "\<dots> = buf" using p(1) assms(2) by (intro poke_map) simp_all
  finally have "map (v_ram s') ?as = buf" .
  moreover have "blk_bs s' = blk_bs s1" unfolding assms(8) c by (simp add: bump_avail_def update_queue_def virtio_set_irq_def)
  moreover have "blk_done s s' q u i n"
    unfolding blk_done_def Let_def j_def [symmetric] ram ring_enter_content [OF small] idx
    unfolding assms(8) c
    using assms(4,7) by (simp add: bump_avail_def update_queue_def virtio_set_irq_def irq_level_def or_1_and_1)
  ultimately show ?thesis by blast
qed

lemma posted_fields [simp]:
  fixes s :: "'z VIRTIOBlockDevice_scheme"
  shows "v_map (s\<lparr>blk_req := r\<rparr>) = v_map s" "v_queue (s\<lparr>blk_req := r\<rparr>) = v_queue s" "v_ram (s\<lparr>blk_req := r\<rparr>) = v_ram s"
    "v_map (s\<lparr>blk_bs := b\<rparr>) = v_map s" "v_queue (s\<lparr>blk_bs := b\<rparr>) = v_queue s" "v_ram (s\<lparr>blk_bs := b\<rparr>) = v_ram s"
  by simp_all

lemma posted_cong:
  assumes "blk_posted s q u i rs ws t k data" "v_map s' = v_map s" "v_queue s' = v_queue s" "v_ram s' = v_ram s"
  shows "blk_posted s' q u i rs ws t k data"
proof -
  have "avail_idx s' q = avail_idx s q" "next_avail s' q = next_avail s q"
    using assms(2-4) by (simp_all add: avail_idx_def next_avail_def virtio_read16_def ram_ptr_eq Let_def split: option.split)
  then show ?thesis
    using assms(1,3,4) request_cong [OF assms(2-4)] off_table_cong [OF assms(2,3)] seg_cong [OF assms(2)]
    by (simp add: blk_posted_def ring_at_def ring_len_def assms(2))
qed

text \<open>A write request.\<close>

lemma serve_out:
  fixes s :: "'z VIRTIOBlockDevice_scheme"
  assumes post: "blk_posted s q u i rs ws 1 k data" and fresh: "\<And>n. length (fresh n) = n"
    and idle: "\<not> req_in_progress s" and room: "1 \<le> length (slots s ws)"
    and disk: "bf_write_async k data (length data div 512) (blk_bs s) = Some (ret, bf')" "ret \<le> 0"
  shows "\<exists>s'. queue_notify (virtio_block_recv_request fresh) q s = Some s' \<and> blk_bs s' = bf' \<and>
    v_ram s' (hd (slots s ws)) = (if ret < 0 then 1 else 0) \<and> blk_done s s' q u i 1"
proof -
  obtain p where h: "memcpy_from_queue s (fresh 16) q i 0 16 = Some (0, blk_header 1 p k)" "length (slots s rs) = 16 + length data"
    using posted_header [OF post fresh] .
  have ne: "slots s ws \<noteq> []" using room by auto
  let ?status = "if ret < 0 then 1 else 0 :: u8"
  define s1 where "s1 = s\<lparr>blk_req := (blk_req s)\<lparr>req_type := 1, req_queue_idx := q, req_desc_idx := i\<rparr>\<rparr>"
  define s2 where "s2 = s1\<lparr>blk_bs := bf'\<rparr>"
  have data: "memcpy_from_queue s1 (fresh (length data)) q i 16 (int (length data)) = Some (0, data)"
    by (rule posted_data [OF posted_cong [OF post] fresh]) (simp_all add: s1_def)
  have status: "memcpy_to_queue s2 q i 0 [?status] 1 = Some (0, s2\<lparr>v_ram := poke (take 1 (slots s ws)) [?status] (v_ram s)\<rparr>)"
    using posted_write [OF post, of "[?status]" s2] room by (simp add: s1_def s2_def)
  let ?t = "virtio_consume_desc (s2\<lparr>v_ram := poke (take 1 (slots s ws)) [?status] (v_ram s)\<rparr>) q i 1"
  have "block_finish s2 ret = Some (0, ?t)"
    using disk(2) status by (simp add: block_finish_def virtio_block_req_end_def Let_def s1_def s2_def)
  moreover have "nat (int (length data) sdiv 512) = length data div 512"
    by (simp add: signed_divide_int_def nat_div_distrib)
  ultimately have "block_write fresh s1 q i k (int (length (slots s rs))) (int (length (slots s ws))) = Some (0, ?t)"
    using room ne h(2) data disk(1) unfolding block_write_def Let_def malloc_buf_def by (simp add: s1_def s2_def)
  then have "virtio_block_recv_request fresh s q i (int (length (slots s rs))) (int (length (slots s ws))) = Some (0, ?t)"
    using idle h(1) by (simp add: virtio_block_recv_request_def header_fields Let_def s1_def)
  moreover have "v_queue ?t = v_queue s"
    using consume_serves [of "s2\<lparr>v_ram := poke (take 1 (slots s ws)) [?status] (v_ram s)\<rparr>" q i 1] by (simp add: serves_def s1_def s2_def)
  ultimately have run: "queue_notify (virtio_block_recv_request fresh) q s = Some (bump_avail q ?t)"
    by (rule notify_one [OF post])
  have "map (v_ram (bump_avail q ?t)) (take (length [?status]) (slots s ws)) = [?status] \<and>
      blk_done s (bump_avail q ?t) q u i 1 \<and> blk_bs (bump_avail q ?t) = blk_bs s2"
    using room idle by (intro answer_done [OF post]) (simp_all add: s1_def s2_def)
  moreover have "take 1 (slots s ws) = [hd (slots s ws)]" using room by (cases "slots s ws") simp_all
  ultimately show ?thesis using run by (auto simp: s2_def)
qed

text \<open>A read request.\<close>

lemma serve_in:
  fixes s :: "'z VIRTIOBlockDevice_scheme"
  assumes post: "blk_posted s q u i rs ws 0 k data" and fresh: "\<And>n. length (fresh n) = n"
    and idle: "\<not> req_in_progress s" and room: "length (slots s ws) = n * 512 + 1"
    and disk: "bf_read_async k n (blk_bs s) = Some (0, bs, bf')" "length bs = n * 512"
  shows "\<exists>s'. queue_notify (virtio_block_recv_request fresh) q s = Some s' \<and> blk_bs s' = bf' \<and>
    map (v_ram s') (slots s ws) = bs @ [0] \<and> blk_done s s' q u i (n * 512 + 1)"
proof -
  obtain p where h: "memcpy_from_queue s (fresh 16) q i 0 16 = Some (0, blk_header 0 p k)" "length (slots s rs) = 16 + length data"
    using posted_header [OF post fresh] .
  let ?n = "n * 512 + 1" and ?b = "bs @ drop (n * 512) (fresh (n * 512 + 1))"
  define s1 where "s1 = s\<lparr>blk_req := (blk_req s)\<lparr>req_type := 0, req_queue_idx := q, req_desc_idx := i\<rparr>\<rparr>"
  define s2 where "s2 = s1\<lparr>blk_bs := bf', blk_req := (blk_req s1)\<lparr>req_buf := ?b, req_write_size := int ?n\<rparr>\<rparr>"
  have into: "copy_into (fresh ?n) 0 bs = Some ?b"
    using fresh [of ?n] disk(2) by (simp add: copy_into_def)
  have mark: "copy_into ?b (int ?n - 1) [0] = Some (bs @ [0])"
  proof -
    have "copy_into ?b (int (n * 512)) [0] = Some (overlay ?b (n * 512) [0])"
      by (rule copy_into_overlay) (use fresh [of ?n] disk(2) in simp)
    moreover have "overlay ?b (n * 512) [0] = bs @ [0]" using fresh [of ?n] disk(2) by (simp add: overlay_def)
    ultimately show ?thesis by simp
  qed
  have answer: "memcpy_to_queue s2 q i 0 (bs @ [0]) (int ?n) = Some (0, s2\<lparr>v_ram := poke (slots s ws) (bs @ [0]) (v_ram s)\<rparr>)"
    using posted_write [OF post, of "bs @ [0]" s2] room disk(2) by (simp add: s1_def s2_def)
  let ?t = "virtio_consume_desc (s2\<lparr>v_ram := poke (take (length (bs @ [0])) (slots s ws)) (bs @ [0]) (v_ram s)\<rparr>) q i (of_nat ?n)"
  have "virtio_block_req_end s2 0 = Some ?t"
  proof -
    have f: "req_type (blk_req s2) = 0" "req_queue_idx (blk_req s2) = q" "req_desc_idx (blk_req s2) = i"
      "req_write_size (blk_req s2) = int ?n" "req_buf (blk_req s2) = ?b" by (simp_all add: s1_def s2_def)
    show ?thesis
      unfolding virtio_block_req_end_def Let_def f using mark answer room disk(2) by simp
  qed
  then have "block_finish s2 0 = Some (0, ?t)" by (simp add: block_finish_def)
  moreover have "nat ((int ?n - 1) sdiv 512) = n" by (cases "n = 0") (simp_all add: signed_divide_int_def sgn_mult)
  moreover have "nat (1 + int n * 512) = Suc (n * 512)" by (simp add: nat_eq_iff)
  ultimately have "block_read fresh s1 k (int ?n) = Some (0, ?t)"
    using disk(1) into unfolding block_read_def malloc_buf_def by (simp add: s1_def s2_def)
  then have "virtio_block_recv_request fresh s q i (int (length (slots s rs))) (int (length (slots s ws))) = Some (0, ?t)"
    using idle h(1) unfolding room by (simp add: virtio_block_recv_request_def header_fields Let_def s1_def)
  moreover have "v_queue ?t = v_queue s"
    using consume_serves [of "s2\<lparr>v_ram := poke (take (length (bs @ [0])) (slots s ws)) (bs @ [0]) (v_ram s)\<rparr>" q i "of_nat ?n"]
    by (simp add: serves_def s1_def s2_def)
  ultimately have run: "queue_notify (virtio_block_recv_request fresh) q s = Some (bump_avail q ?t)"
    by (rule notify_one [OF post])
  have "map (v_ram (bump_avail q ?t)) (take (length (bs @ [0])) (slots s ws)) = bs @ [0] \<and>
      blk_done s (bump_avail q ?t) q u i ?n \<and> blk_bs (bump_avail q ?t) = blk_bs s2"
    using room idle disk(2) by (intro answer_done [OF post]) (simp_all add: s1_def s2_def)
  then show ?thesis using run room disk(2) by (auto simp: s2_def)
qed

end
