(* ===== verification/Virtio_Props.thy ===== *)
theory Virtio_Props
  imports Virtio_Block
begin

text \<open>
  Properties of the virtio devices: the invariant of their registers, what the block device does
  with a request, the disk behind it, and chains that never end.
\<close>

section \<open>Registers\<close>

text \<open>
  What a driver and the host do with a device: register accesses through either transport, changes
  of the memory of the guest, data for queue 0, and a change of the configuration.
\<close>

datatype virtio_op =
  Mmio_write u32 u32 nat
| Pci_read u32 nat
| Pci_write u32 u32 nat
| Guest_memory host_mem
| Network_packet "u8 list"
| Console_data "u8 list"
| Console_resize u16 u16
| Input_event u16 u16 u32

fun virtio_step ::
  "'z VIRTIODevice_scheme device_recv \<Rightarrow> ('z VIRTIODevice_scheme \<Rightarrow> 'z VIRTIODevice_scheme)
     \<Rightarrow> virtio_op \<Rightarrow> 'z VIRTIODevice_scheme \<Rightarrow> 'z VIRTIODevice_scheme option" where
  "virtio_step recv cw (Mmio_write off v sz) s = virtio_mmio_write recv cw s off v sz"
| "virtio_step recv cw (Pci_read off sz) s = map_option snd (virtio_pci_read s off sz)"
| "virtio_step recv cw (Pci_write off v sz) s = virtio_pci_write recv cw s off v sz"
| "virtio_step recv cw (Guest_memory m) s = Some (s\<lparr>v_ram := m\<rparr>)"
| "virtio_step recv cw (Network_packet bs) s = virtio_net_write_packet s bs"
| "virtio_step recv cw (Console_data bs) s = map_option snd (virtio_console_write_data s bs)"
| "virtio_step recv cw (Console_resize w h) s = Some (virtio_console_resize_event s w h)"
| "virtio_step recv cw (Input_event t c v) s = map_option snd (virtio_input_queue_event s t c v)"

fun virtio_run ::
  "'z VIRTIODevice_scheme device_recv \<Rightarrow> ('z VIRTIODevice_scheme \<Rightarrow> 'z VIRTIODevice_scheme)
     \<Rightarrow> virtio_op list \<Rightarrow> 'z VIRTIODevice_scheme \<Rightarrow> 'z VIRTIODevice_scheme option" where
  "virtio_run recv cw [] s = Some s"
| "virtio_run recv cw (x # xs) s = Option.bind (virtio_step recv cw x s) (virtio_run recv cw xs)"

lemma push_buffer_ok: "push_buffer s bs = Some s' \<Longrightarrow> virtio_ok s \<Longrightarrow> virtio_ok s'"
  by (auto simp: push_buffer_def Let_def dest!: memcpy_to_queue_only
      intro: serves_ok [OF serves_trans [OF ram_only_serves consume_serves]])

lemma net_packet_ok:
  assumes "virtio_net_write_packet s bs = Some s'" "virtio_ok s"
  shows "virtio_ok s'"
proof (cases "qs_ready (v_queue s 0) = 0 \<or> last_avail_idx (v_queue s 0) = avail_idx s 0")
  case True
  then show ?thesis using assms by (simp add: virtio_net_write_packet_def)
next
  case False
  let ?i = "next_avail s 0" and ?len = "net_header_size + int (length bs)"
  obtain sizes where g: "get_desc_rw_size s 0 ?i = Some sizes"
    using assms(1) False by (cases "get_desc_rw_size s 0 ?i") (simp_all add: virtio_net_write_packet_def Let_def)
  note run = assms(1) [unfolded virtio_net_write_packet_def Let_def if_not_P [OF False] g Option.bind.simps]
  show ?thesis
  proof (cases "\<exists>m n. sizes = Some (m, n) \<and> \<not> ?len > n")
    case True
    then obtain m n where sz: "sizes = Some (m, n)" "\<not> ?len > n" by blast
    note run = run [unfolded sz(1) option.case prod.case if_not_P [OF sz(2)]]
    obtain r t where 1: "memcpy_to_queue s 0 ?i 0 (replicate 12 0) 12 = Some (r, t)"
      using run by (cases "memcpy_to_queue s 0 ?i 0 (replicate 12 0) 12") auto
    note run = run [unfolded 1 Option.bind.simps prod.case]
    obtain r' t' where 2: "memcpy_to_queue t 0 ?i 12 bs (int (length bs)) = Some (r', t')"
      using run by (cases "memcpy_to_queue t 0 ?i 12 bs (int (length bs))") auto
    have s': "s' = bump_avail 0 (virtio_consume_desc t' 0 ?i (of_int ?len))"
      using run [unfolded 2 Option.bind.simps prod.case] by simp
    have "serves s t'" using memcpy_to_queue_only [OF 1] memcpy_to_queue_only [OF 2] ram_only_trans ram_only_serves by blast
    from serves_ok [OF serves_trans [OF this consume_serves] assms(2)] show ?thesis unfolding s' by simp
  next
    case no: False
    have "s' = s"
    proof (cases sizes)
      case None
      then show ?thesis using run by simp
    next
      case (Some mn)
      then show ?thesis using run no by (cases mn) simp
    qed
    then show ?thesis using assms(2) by simp
  qed
qed

lemma resize_ok: "virtio_ok s \<Longrightarrow> virtio_ok (virtio_console_resize_event s w h)"
proof -
  have "w OR 2 \<noteq> 0" for w :: u32 using or_eq_0_iff [of w 2] by simp
  then show "virtio_ok s \<Longrightarrow> ?thesis"
    by (simp add: virtio_console_resize_event_def virtio_config_change_notify_def virtio_set_irq_def virtio_ok_def irq_ok_def irq_level_def)
qed

lemma virtio_step_ok:
  assumes "virtio_backend recv cw" "virtio_step recv cw x s = Some s'" "virtio_ok s"
  shows "virtio_ok s'"
proof (cases x)
  case (Guest_memory m)
  then show ?thesis using assms ram_only_serves [of s "s\<lparr>v_ram := m\<rparr>"] by (auto intro: serves_ok)
next
  case (Network_packet bs)
  then show ?thesis using assms net_packet_ok by auto
next
  case (Pci_read off sz)
  then obtain v where "virtio_pci_read s off sz = Some (v, s')" using assms(2) by auto
  from virtio_backend.pci_read_keeps [OF assms(1) this assms(3)] show ?thesis ..
qed (use assms virtio_backend.mmio_write_keeps [OF assms(1)] virtio_backend.pci_write_keeps [OF assms(1)] push_buffer_ok resize_ok in
    \<open>auto simp: virtio_console_write_data_def virtio_input_queue_event_def split: if_split_asm\<close>)

lemma virtio_run_ok:
  "virtio_backend recv cw \<Longrightarrow> virtio_run recv cw xs s = Some s' \<Longrightarrow> virtio_ok s \<Longrightarrow> virtio_ok s'"
  by (induction xs arbitrary: s) (auto simp: Option.bind_eq_Some_conv dest: virtio_step_ok)

lemma virtio_init_ok: "4 \<le> n \<Longrightarrow> n \<le> 256 \<Longrightarrow> virtio_ok (virtio_init mm mem dev n)"
  by (simp add: virtio_init_def virtio_reset_eq virtio_ok_def irq_ok_def irq_level_def reset_queue_def)

lemma extend_ok: "virtio_ok (VIRTIODevice.extend s e) = virtio_ok (s :: VIRTIODevice)"
  by (simp add: virtio_ok_def irq_ok_def irq_level_def VIRTIODevice.defs)

lemma init_updates_ok:
  "virtio_ok (update_queue q (\<lambda>qs. qs\<lparr>manual_recv := b\<rparr>) s) = virtio_ok s"
  "virtio_ok (s\<lparr>config_space := c\<rparr>) = virtio_ok s" "virtio_ok (s\<lparr>device_features := f\<rparr>) = virtio_ok s"
  "virtio_ok (s\<lparr>device_features := f, config_space := c\<rparr>) = virtio_ok s"
  by (auto simp: virtio_ok_def irq_ok_def irq_level_def update_queue_def)

lemma device_init_ok:
  "virtio_ok (virtio_block_init mm mem bf)" "virtio_ok (virtio_net_init mm mem mac)"
  "virtio_ok (virtio_console_init mm mem cs)" "virtio_ok (virtio_input_init mm mem t)"
  by (simp_all add: virtio_block_init_def virtio_net_init_def virtio_console_init_def virtio_input_init_def
      virtio_init_ok extend_ok init_updates_ok Let_def)

lemma config_offset:
  assumes "off < n - of_nat j" "j < 4" "4 \<le> n" "n \<le> (256 :: u32)"
  shows "(ucast off + of_nat j :: u64) < 256"
proof -
  have "unat (of_nat j :: u32) = j" using assms(2) by (simp add: unat_of_nat)
  then have "unat (n - of_nat j) = unat n - j" using assms(2,3) by (simp add: unat_sub word_le_nat_alt)
  then have lt: "unat off + j < 256" using assms by (simp add: word_less_nat_alt word_le_nat_alt)
  have "(ucast off + of_nat j :: u64) = of_nat (unat off + j)" by simp
  moreover have "unat (of_nat (unat off + j) :: u64) = unat off + j" using lt by (simp only: unat_of_nat) simp
  ultimately show ?thesis using lt by (simp only: word_less_nat_alt) simp
qed

lemma config_read_within:
  assumes "virtio_ok s" "\<forall>p < 256. c p = config_space s p"
  shows "virtio_config_read (s\<lparr>config_space := c\<rparr>) off sz = virtio_config_read s off sz"
proof -
  have "4 \<le> config_space_size s" "config_space_size s \<le> 256" using assms(1) by (simp_all add: virtio_ok_def)
  then have at: "c (ucast off + of_nat j) = config_space s (ucast off + of_nat j)"
    if "off < config_space_size s - of_nat j" "j < 4" for j
    using config_offset [OF that] assms(2) by blast
  have up: "off < config_space_size s - of_nat j" if "off < config_space_size s - of_nat k" "j \<le> k" "k < 4" for j k
  proof -
    have "unat (of_nat j :: u32) = j" "unat (of_nat k :: u32) = k" using that by (simp_all add: unat_of_nat)
    then have "unat (config_space_size s - of_nat j) = unat (config_space_size s) - j" "unat (config_space_size s - of_nat k) = unat (config_space_size s) - k"
      using that \<open>4 \<le> config_space_size s\<close> by (simp_all add: unat_sub word_le_nat_alt)
    then show ?thesis using that by (simp add: word_less_nat_alt)
  qed
  have "get_le16 c (ucast off) = get_le16 (config_space s) (ucast off)" if "off < config_space_size s - 1"
    using at [of 0] at [of 1] up [of 1 0] that by (simp add: get_le16_def)
  moreover have "get_le32 c (ucast off) = get_le32 (config_space s) (ucast off)" if "off < config_space_size s - 3"
    using at [of 0] at [of 1] at [of 2] at [of 3] up [of 3 0] up [of 3 1] up [of 3 2] that by (simp add: get_le32_def)
  ultimately show ?thesis using at [of 0] by (simp add: virtio_config_read_def)
qed


section \<open>The disk\<close>

text \<open>
  C17. The file behind a disk implements an array of sectors.  Reading returns the sectors; writing
  replaces exactly the sectors written, is refused on a read-only disk, and in snapshot mode
  leaves the image file as it was.
\<close>

theorem disk_refines_sectors:
  assumes "disk_ok bf" "unat k + n \<le> n_sectors bf" "length buf = n * 512"
  shows "(\<exists>bf'. bf_read_async k n bf = Some (0, concat (map (sector bf) [unat k..<unat k + n]), bf') \<and>
      sector bf' = sector bf \<and> disk_ok bf') \<and>
    (bf_mode bf = BF_MODE_RO \<longrightarrow> bf_write_async k buf n bf = Some (- 1, bf)) \<and>
    (bf_mode bf \<noteq> BF_MODE_RO \<longrightarrow> (\<exists>bf'. bf_write_async k buf n bf = Some (0, bf') \<and> disk_ok bf' \<and>
      sector bf' = disk_update (unat k) buf n (sector bf) \<and> (bf_mode bf = BF_MODE_SNAPSHOT \<longrightarrow> bf_data bf' = bf_data bf)))"
proof (intro conjI impI)
  show "\<exists>bf'. bf_read_async k n bf = Some (0, concat (map (sector bf) [unat k..<unat k + n]), bf') \<and> sector bf' = sector bf \<and> disk_ok bf'"
    using bf_read_sectors [OF assms(1,2)] assms(1) by auto
  show "bf_mode bf = BF_MODE_RO \<Longrightarrow> bf_write_async k buf n bf = Some (- 1, bf)" by (simp add: bf_write_async_def)
qed (use bf_write_sectors [OF assms] in blast)

definition example_disk :: BlockDeviceFile where
  "example_disk = block_device_init (replicate 2048 3) BF_MODE_SNAPSHOT"

lemma example_disk_ok: "disk_ok example_disk" "n_sectors example_disk = 4" "bf_mode example_disk = BF_MODE_SNAPSHOT"
  using disk_ok_init [of "replicate 2048 3" BF_MODE_SNAPSHOT]
  by (simp_all add: example_disk_def n_sectors_def block_device_init_def)

theorem disk_refines_sectors_witness:
  "\<exists>bf'. bf_write_async 2 (replicate 512 7) 1 example_disk = Some (0, bf') \<and>
     sector bf' = disk_update 2 (replicate 512 7) 1 (sector example_disk) \<and> bf_data bf' = bf_data example_disk"
  using disk_refines_sectors [OF example_disk_ok(1), of 2 1 "replicate 512 7"] by (auto simp: example_disk_ok)

section \<open>Requests\<close>

lemma length_concat_sectors:
  assumes "disk_ok bf" "k + n \<le> n_sectors bf"
  shows "length (concat (map (sector bf) [k..<k + n])) = n * 512"
  using assms(2) by (induction n) (simp_all add: length_sector [OF assms(1)])

lemma block_served_in:
  fixes s :: "'z VIRTIOBlockDevice_scheme"
  assumes "\<And>n. length (fresh n) = n" "disk_ok (blk_bs s)" "\<not> req_in_progress s" "unat k + n \<le> n_sectors (blk_bs s)"
    and "blk_posted s q u i rs ws 0 k data" "length (slots s ws) = n * 512 + 1"
  shows "\<exists>s'. queue_notify (virtio_block_recv_request fresh) q s = Some s' \<and> blk_done s s' q u i (n * 512 + 1) \<and> disk_ok (blk_bs s') \<and>
    sector (blk_bs s') = sector (blk_bs s) \<and>
    map (v_ram s') (slots s ws) = concat (map (sector (blk_bs s)) [unat k..<unat k + n]) @ [0]"
proof -
  obtain p where p: "bf_read_async k n (blk_bs s) = Some (0, concat (map (sector (blk_bs s)) [unat k..<unat k + n]), (blk_bs s)\<lparr>bf_pos := p\<rparr>)"
    using bf_read_sectors [OF assms(2,4)] by blast
  from serve_in [OF assms(5,1,3,6) p length_concat_sectors [OF assms(2,4)]] show ?thesis using assms(2) by auto
qed


lemma concat_disk_update:
  "length buf = n * 512 \<Longrightarrow> concat (map (disk_update k buf n d) [k..<k + n]) = buf"
proof -
  have part: "concat (map (disk_update k buf n d) [k..<k + m]) = take (m * 512) buf" if "m \<le> n" for m
    using that
  proof (induction m)
    case (Suc m)
    then have "disk_update k buf n d (k + m) = take 512 (drop (m * 512) buf)" by (simp add: disk_update_def)
    then show ?case using Suc take_add [of "m * 512" 512 buf] by (simp add: add.commute)
  qed simp
  show "length buf = n * 512 \<Longrightarrow> ?thesis" using part [of n] by simp
qed

text \<open>
  C15. What a driver writes to the disk it reads back: after a write request has been served, a
  read request for the same sectors, in whatever queue, at whatever addresses and with whatever other
  changes the driver has made to the memory in between, returns the bytes written and status 0.
\<close>

theorem block_write_read:
  fixes s s2 :: "'z VIRTIOBlockDevice_scheme"
  assumes "\<And>n. length (fresh n) = n" "disk_ok (blk_bs s)" "\<not> req_in_progress s" "unat k + n \<le> n_sectors (blk_bs s)"
    and "blk_posted s q u i rs ws 1 k data" "length data = n * 512" "slots s ws \<noteq> []" "bf_mode (blk_bs s) \<noteq> BF_MODE_RO"
  shows "\<exists>s1. queue_notify (virtio_block_recv_request fresh) q s = Some s1 \<and>
    (blk_bs s2 = blk_bs s1 \<and> \<not> req_in_progress s2 \<and> blk_posted s2 q' u' i' rs' ws' 0 k data' \<and> length (slots s2 ws') = n * 512 + 1 \<longrightarrow>
      (\<exists>s3. queue_notify (virtio_block_recv_request fresh) q' s2 = Some s3 \<and> map (v_ram s3) (slots s2 ws') = data @ [0]))"
proof -
  have room: "1 \<le> length (slots s ws)" using assms(7) by (simp add: Suc_le_eq)
  have div: "length data div 512 = n" using assms(6) by simp
  obtain bf' where bf': "bf_write_async k data (length data div 512) (blk_bs s) = Some (0, bf')" "disk_ok bf'"
    "sector bf' = disk_update (unat k) data n (sector (blk_bs s))" "n_sectors bf' = n_sectors (blk_bs s)"
    using bf_write_sectors [OF assms(2,4,6,8)] div by auto
  obtain s1 where s1: "queue_notify (virtio_block_recv_request fresh) q s = Some s1" "blk_bs s1 = bf'"
    using serve_out [OF assms(5,1,3) room bf'(1)] by auto
  show ?thesis
  proof (rule exI [of _ s1], intro conjI impI; (elim conjE)?)
    assume s2: "blk_bs s2 = blk_bs s1" "\<not> req_in_progress s2" "blk_posted s2 q' u' i' rs' ws' 0 k data'" "length (slots s2 ws') = n * 512 + 1"
    have bs: "blk_bs s2 = bf'" using s2(1) s1(2) by simp
    then have d: "disk_ok (blk_bs s2)" "unat k + n \<le> n_sectors (blk_bs s2)" using bf'(2,4) assms(4) by simp_all
    obtain s3 where "queue_notify (virtio_block_recv_request fresh) q' s2 = Some s3"
      "map (v_ram s3) (slots s2 ws') = concat (map (sector (blk_bs s2)) [unat k..<unat k + n]) @ [0]"
      using block_served_in [OF assms(1) d(1) s2(2) d(2) s2(3,4)] by blast
    then show "\<exists>s3. queue_notify (virtio_block_recv_request fresh) q' s2 = Some s3 \<and> map (v_ram s3) (slots s2 ws') = data @ [0]"
      using concat_disk_update [OF assms(6)] by (simp add: bs bf'(3))
  qed (rule s1(1))
qed

section \<open>Chains without end\<close>

lemma sum_write_loop:
  fixes s :: "'z VIRTIODevice_scheme"
  assumes d: "desc_in s q i d" "has_next d" "vd_next d = i" "is_write d"
  shows "sum_write s q d n = None"
proof -
  have "sum_write s' q' d' n = Some y \<Longrightarrow> \<not> (s' = s \<and> q' = q \<and> d' = d)" for s' q' d' y
  proof (rule sum_write.raw_induct [where P = "\<lambda>s' q' d' n y. \<not> (s' = s \<and> q' = q \<and> d' = d)"])
    fix rec :: "'z VIRTIODevice_scheme \<Rightarrow> nat \<Rightarrow> VIRTIODesc \<Rightarrow> int \<Rightarrow> int option option" and s' q' d' n y
    assume IH: "\<And>s' q' d' n y. rec s' q' d' n = Some y \<Longrightarrow> \<not> (s' = s \<and> q' = q \<and> d' = d)"
      and run: "(if \<not> is_write d' then Some None
        else let write_size = c_int (of_int n + vd_len d')
             in if \<not> has_next d' then Some (Some write_size) else rec s' q' (get_desc s' d' q' (vd_next d')) write_size) = Some y"
    show "\<not> (s' = s \<and> q' = q \<and> d' = d)"
      using run IH [of s q d _ y] d get_desc_in [OF d(1), of d] by (auto simp: Let_def split: if_split_asm)
  qed
  then show ?thesis by (cases "sum_write s q d n") auto
qed

lemma sum_read_loop:
  fixes s :: "'z VIRTIODevice_scheme"
  assumes d: "desc_in s q i d" "has_next d" "vd_next d = i"
  shows "sum_read s q d n = None"
proof (cases "is_write d")
  case True
  then show ?thesis using sum_write_loop [OF d] by (subst sum_read.simps) simp
next
  case False
  have "sum_read s' q' d' n = Some y \<Longrightarrow> \<not> (s' = s \<and> q' = q \<and> d' = d)" for s' q' d' y
  proof (rule sum_read.raw_induct [where P = "\<lambda>s' q' d' n y. \<not> (s' = s \<and> q' = q \<and> d' = d)"])
    fix rec :: "'z VIRTIODevice_scheme \<Rightarrow> nat \<Rightarrow> VIRTIODesc \<Rightarrow> int \<Rightarrow> (int \<times> int) option option" and s' q' d' n y
    assume IH: "\<And>s' q' d' n y. rec s' q' d' n = Some y \<Longrightarrow> \<not> (s' = s \<and> q' = q \<and> d' = d)"
      and run: "(if is_write d' then map_option (map_option (\<lambda>write_size. (n, write_size))) (sum_write s' q' d' 0)
        else let read_size = c_int (of_int n + vd_len d')
             in if \<not> has_next d' then Some (Some (read_size, 0)) else rec s' q' (get_desc s' d' q' (vd_next d')) read_size) = Some y"
    show "\<not> (s' = s \<and> q' = q \<and> d' = d)"
      using run IH [of s q d _ y] d False get_desc_in [OF d(1), of d] by (auto simp: Let_def split: if_split_asm)
  qed
  then show ?thesis by (cases "sum_read s q d n") auto
qed

text \<open>
  C19. A driver that makes a descriptor available which names itself as the next one stops the
  simulator: the notification of the queue never returns, whatever the device.
\<close>

theorem descriptor_loop_hangs:
  assumes "desc_in s q i d" "has_next d" "vd_next d = i"
    and "\<not> manual_recv (v_queue s q)" "avail_idx s q \<noteq> last_avail_idx (v_queue s q)" "next_avail s q = i"
  shows "queue_notify recv q s = None"
proof -
  have "get_desc_rw_size s q i = None"
    using sum_read_loop [OF assms(1-3)] first_desc_in [OF assms(1)] by (simp add: get_desc_rw_size_def)
  then have "notify_loop recv q (avail_idx s q) s = None" using assms(5,6) by (subst notify_loop.simps) simp
  then show ?thesis using assms(4) by (simp add: queue_notify_def)
qed

section \<open>An example\<close>

text \<open>
  A block device in a machine with 64 KiB of RAM at 0x80000000; its memory holds a chain of two
  descriptors, a readable one with the header of a request and what follows it, and a writable one.
\<close>

definition vx_map :: PhysMemoryMap where
  "vx_map = [\<lparr>pr_addr = 0x80000000, pr_org_size = 0x10000, pr_size = 0x10000, pr_is_ram = True, pr_devram_flags = 0,
     pr_phys_mem = 0x100000, pr_dirty_bits_size = 0, pr_dirty_bits = False, pr_dirty_bits_tab = (\<lambda>_ _. 0),
     pr_dirty_bits_index = 0, pr_opaque = 0, pr_devio_flags = 0\<rparr>]"

definition vx_read :: "u32 \<Rightarrow> VIRTIODesc" where
  "vx_read len = \<lparr>vd_addr = 0x80000400, vd_len = len, vd_flags = 1, vd_next = 1\<rparr>"

definition vx_write :: "u32 \<Rightarrow> VIRTIODesc" where
  "vx_write len = \<lparr>vd_addr = 0x80001000, vd_len = len, vd_flags = 2, vd_next = 0\<rparr>"

definition vx_ram :: "u32 \<Rightarrow> u32 \<Rightarrow> u32 \<Rightarrow> u64 \<Rightarrow> host_mem" where
  "vx_ram t rlen wlen k =
     copy_bytes 0x100000 (desc_bytes (vx_read rlen)) (copy_bytes 0x100010 (desc_bytes (vx_write wlen))
       (copy_bytes 0x100102 [1, 0, 0, 0] (copy_bytes 0x100400 (blk_header t 0 k) (\<lambda>_. 7))))"

definition vx_queue :: QueueState where
  "vx_queue = \<lparr>qs_ready = 1, qs_num = 16, last_avail_idx = 0, desc_addr = 0x80000000, avail_addr = 0x80000100,
     used_addr = 0x80000200, manual_recv = False\<rparr>"

definition vx_device :: "BlockDeviceFile \<Rightarrow> host_mem \<Rightarrow> VIRTIOBlockDevice" where
  "vx_device bf m = (virtio_block_init vx_map m bf)\<lparr>v_queue := (\<lambda>_. vx_queue)\<rparr>"

lemma vx_simps [simp]:
  "v_map (vx_device bf m) = vx_map" "v_ram (vx_device bf m) = m" "v_queue (vx_device bf m) = (\<lambda>_. vx_queue)"
  "blk_bs (vx_device bf m) = bf" "req_in_progress (vx_device bf m) = False"
  by (simp_all add: vx_device_def virtio_block_init_def VIRTIODevice.defs virtio_init_def virtio_reset_eq Let_def)

lemma vx_ptr:
  assumes "j < 0x10000"
  shows "get_ram_ptr vx_map (0x80000000 + of_nat j) = Some (0x100000 + of_nat j)"
proof -
  have "unat (0x80000000 + of_nat j :: u64) = 0x80000000 + j" using assms by (simp add: unat_word_ariths unat_of_nat)
  then have "in_phys_range (0x80000000 + of_nat j) (vx_map ! 0)"
    using assms by (simp add: in_phys_range_def vx_map_def word_le_nat_alt word_less_nat_alt)
  then have "get_phys_mem_range vx_map (0x80000000 + of_nat j) = Some 0"
    by (simp add: get_phys_mem_range_def vx_map_def)
  then show ?thesis by (simp add: get_ram_ptr_def vx_map_def range_ptr_def)
qed

lemma vx_linear:
  assumes "j + n \<le> 0x10000"
  shows "linear vx_map (0x80000000 + of_nat j) n (0x100000 + of_nat j)"
  unfolding linear_def
proof (intro allI impI)
  fix i assume "i < n"
  then have "get_ram_ptr vx_map (0x80000000 + of_nat (j + i)) = Some (0x100000 + of_nat (j + i))" using assms by (intro vx_ptr) simp
  then show "get_ram_ptr vx_map (0x80000000 + of_nat j + of_nat i) = Some (0x100000 + of_nat j + of_nat i)" by (simp add: add.assoc)
qed

lemma copy_bytes_read: "length bs \<le> 2 ^ 64 \<Longrightarrow> map (copy_bytes p bs m) (addrs p (length bs)) = bs"
proof -
  assume l: "length bs \<le> 2 ^ 64"
  have "(p + of_nat i = p + of_nat j) = (i = j)" if "i < length bs" "j < length bs" for i j
    using of_nat_inj_u64 [of i j] that l by simp
  then have "distinct (addrs p (length bs))" by (simp add: addrs_def distinct_map inj_on_def)
  then show ?thesis using poke_map [of "addrs p (length bs)" bs m] copy_bytes_poke [OF l] by simp
qed

lemma copy_bytes_skip:
  assumes "length bs \<le> j" "j + n \<le> 2 ^ 64"
  shows "map (copy_bytes p bs m) (addrs (p + of_nat j) n) = map m (addrs (p + of_nat j) n)"
proof (rule map_cong [OF refl])
  fix a assume "a \<in> set (addrs (p + of_nat j) n)"
  then obtain i where i: "a = p + of_nat j + of_nat i" "i < n" by (auto simp: addrs_def)
  have "unat (of_nat (j + i) :: u64) = j + i" using i(2) assms(2) by (simp only: unat_of_nat) simp
  moreover have "a - p = of_nat (j + i)" using i(1) by simp
  ultimately have "unat (a - p) = j + i" by simp
  then show "copy_bytes p bs m a = m a" using assms(1) by (simp add: copy_bytes_def)
qed

lemma desc_at_bytes:
  assumes "map m (addrs p 16) = desc_bytes d"
  shows "desc_at m p = d"
proof -
  let ?m = "put_le16 (put_le16 (put_le32 (put_le64 (\<lambda>_. 0) 0 (vd_addr d)) 8 (vd_len d)) 12 (vd_flags d)) 14 (vd_next d)"
  have m: "list_mem (desc_bytes d) (of_nat j) = ?m (of_nat j)" if "j < 16" for j
  proof -
    have "j = 0 \<or> j = 1 \<or> j = 2 \<or> j = 3 \<or> j = 4 \<or> j = 5 \<or> j = 6 \<or> j = 7 \<or> j = 8 \<or> j = 9 \<or> j = 10 \<or> j = 11 \<or>
      j = 12 \<or> j = 13 \<or> j = 14 \<or> j = 15" using that by presburger
    then show ?thesis
      by (elim disjE) (simp_all add: list_mem_def desc_bytes_def le16_bytes_def le32_bytes_def le64_bytes_def
          put_le64_def put_le32_def put_le16_def)
  qed
  have "desc_at m p = desc_at (list_mem (desc_bytes d)) 0" using desc_at_list [of m p] assms by simp
  also have "\<dots> = desc_at ?m 0"
    using m [of 0] m [of 1] m [of 2] m [of 3] m [of 4] m [of 5] m [of 6] m [of 7] m [of 8] m [of 9] m [of 10] m [of 11]
      m [of 12] m [of 13] m [of 14] m [of 15]
    by (simp add: desc_at_def get_le64_def get_le32_def get_le16_def)
  also have "\<dots> = d"
  proof -
    have "get_le64 ?m 0 = get_le64 (put_le64 (\<lambda>_. 0) 0 (vd_addr d)) 0" "get_le32 ?m 8 = get_le32 (put_le32 (\<lambda>_. 0) 8 (vd_len d)) 8"
      "get_le16 ?m 12 = get_le16 (put_le16 (\<lambda>_. 0) 12 (vd_flags d)) 12" "get_le16 ?m 14 = get_le16 (put_le16 (\<lambda>_. 0) 14 (vd_next d)) 14"
      by (simp_all add: get_le64_def get_le32_def get_le16_def put_le64_def put_le32_def put_le16_def)
    then show ?thesis by (simp add: desc_at_def)
  qed
  finally show ?thesis .
qed

lemma vx_ram_simps:
  "desc_at (vx_ram t rlen wlen k) 0x100000 = vx_read rlen"
  "desc_at (vx_ram t rlen wlen k) 0x100010 = vx_write wlen"
  "get_le16 (vx_ram t rlen wlen k) 0x100102 = 1" "get_le16 (vx_ram t rlen wlen k) 0x100104 = 0"
  "map (vx_ram t rlen wlen k) (addrs 0x100400 16) = blk_header t 0 k"
proof -
  have len: "length (desc_bytes d) = 16" for d by (simp add: desc_bytes_def le16_bytes_def le32_bytes_def le64_bytes_def)
  let ?m3 = "copy_bytes 0x100400 (blk_header t 0 k) (\<lambda>_. 7)"
  let ?m2 = "copy_bytes 0x100102 [1, 0, 0, 0] ?m3"
  let ?m1 = "copy_bytes 0x100010 (desc_bytes (vx_write wlen)) ?m2"
  show "desc_at (vx_ram t rlen wlen k) 0x100000 = vx_read rlen"
    unfolding vx_ram_def by (rule desc_at_bytes) (use copy_bytes_read [of "desc_bytes (vx_read rlen)"] len in simp)
  have "map (vx_ram t rlen wlen k) (addrs 0x100010 16) = map ?m1 (addrs 0x100010 16)"
    unfolding vx_ram_def using copy_bytes_skip [of "desc_bytes (vx_read rlen)" 16 16 "0x100000"] len by simp
  also have "\<dots> = desc_bytes (vx_write wlen)" using copy_bytes_read [of "desc_bytes (vx_write wlen)"] len by simp
  finally show "desc_at (vx_ram t rlen wlen k) 0x100010 = vx_write wlen" by (rule desc_at_bytes)
  have far: "vx_ram t rlen wlen k p = ?m2 p" if "32 \<le> p - 0x100000" "p - 0x100010 \<ge> 16" for p
    using that len by (simp add: vx_ram_def copy_bytes_def word_le_nat_alt)
  have "vx_ram t rlen wlen k 0x100102 = 1" "vx_ram t rlen wlen k 0x100103 = 0" "vx_ram t rlen wlen k 0x100104 = 0" "vx_ram t rlen wlen k 0x100105 = 0"
    by (simp_all add: far) (simp_all add: copy_bytes_def)
  then show "get_le16 (vx_ram t rlen wlen k) 0x100102 = 1" "get_le16 (vx_ram t rlen wlen k) 0x100104 = 0" by (simp_all add: get_le16_def)
  have "map (vx_ram t rlen wlen k) (addrs 0x100400 16) = map ?m1 (addrs 0x100400 16)"
    unfolding vx_ram_def using copy_bytes_skip [of "desc_bytes (vx_read rlen)" "0x400" 16 "0x100000"] len by simp
  also have "\<dots> = map ?m2 (addrs 0x100400 16)"
    using copy_bytes_skip [of "desc_bytes (vx_write wlen)" "0x3f0" 16 "0x100010"] len by simp
  also have "\<dots> = map ?m3 (addrs 0x100400 16)"
    using copy_bytes_skip [of "[1, 0, 0, 0]" "0x2fe" 16 "0x100102"] by simp
  also have "\<dots> = blk_header t 0 k" using copy_bytes_read [of "blk_header t 0 k"] by simp
  finally show "map (vx_ram t rlen wlen k) (addrs 0x100400 16) = blk_header t 0 k" .
qed

lemma vx_data: "n \<le> 0x1000 \<Longrightarrow> map (vx_ram t rlen wlen k) (addrs 0x100410 n) = replicate n 7"
proof -
  have len: "length (desc_bytes d) = 16" for d by (simp add: desc_bytes_def le16_bytes_def le32_bytes_def le64_bytes_def)
  assume n: "n \<le> 0x1000"
  have "vx_ram t rlen wlen k (0x100410 + of_nat i) = 7" if "i < n" for i
  proof -
    have far: "unat (c + of_nat i :: u64) = i + unat c" if "unat c < 0x10000" for c
      using that \<open>i < n\<close> n by (simp add: unat_word_ariths unat_of_nat)
    have skip: "copy_bytes (0x100410 - c) bs m (0x100410 + of_nat i) = m (0x100410 + of_nat i)" if "length bs \<le> unat c" "unat c < 0x10000" for c bs m
      using far [OF that(2)] that(1) by (simp add: copy_bytes_def add.commute)
    show ?thesis
      using skip [of "desc_bytes (vx_read rlen)" "0x410"] skip [of "desc_bytes (vx_write wlen)" "0x400"] skip [of "[1, 0, 0, 0]" "0x30e"]
        skip [of "blk_header t 0 k" 16]
      by (simp add: vx_ram_def len)
  qed
  then show "map (vx_ram t rlen wlen k) (addrs 0x100410 n) = replicate n 7"
    by (intro nth_equalityI) (simp_all add: addrs_def)
qed

lemma vx_linear_numeral:
  "linear vx_map 0x80000000 16 0x100000" "linear vx_map 0x80000010 16 0x100010" "linear vx_map 0x80000200 132 0x100200"
  "n \<le> 0x1000 \<Longrightarrow> linear vx_map 0x80000400 n 0x100400" "n \<le> 0x1000 \<Longrightarrow> linear vx_map 0x80001000 n 0x101000"
  using vx_linear [of 0 16] vx_linear [of 16 16] vx_linear [of "0x200" 132] vx_linear [of "0x400" n] vx_linear [of "0x1000" n] by simp_all

lemma vx_ptr_numeral:
  "get_ram_ptr vx_map 0x80000000 = Some 0x100000" "get_ram_ptr vx_map 0x80000010 = Some 0x100010"
  "get_ram_ptr vx_map 0x80000102 = Some 0x100102" "get_ram_ptr vx_map 0x80000104 = Some 0x100104"
  "get_ram_ptr vx_map 0x80000400 = Some 0x100400" "get_ram_ptr vx_map 0x80001000 = Some 0x101000"
  using vx_ptr [of 0] vx_ptr [of 16] vx_ptr [of "0x102"] vx_ptr [of "0x104"] vx_ptr [of "0x400"] vx_ptr [of "0x1000"] by simp_all

lemma vx_desc_in:
  assumes "v_map s = vx_map" "v_queue s q = vx_queue"
  shows "desc_in s q 0 (desc_at (v_ram s) 0x100000)" "desc_in s q 1 (desc_at (v_ram s) 0x100010)"
  using assms vx_linear_numeral(1,2) unfolding desc_in_def by (auto simp: vx_queue_def)

lemma vx_avail:
  assumes "v_map s = vx_map" "v_queue s q = vx_queue"
  shows "avail_idx s q = get_le16 (v_ram s) 0x100102" "next_avail s q = get_le16 (v_ram s) 0x100104"
  by (simp_all add: assms avail_idx_def next_avail_def virtio_read16_def ram_ptr_eq vx_ptr_numeral vx_queue_def)

lemma vx_slots:
  "slots (vx_device bf m) [vx_read n] = addrs 0x100400 (unat n)" "slots (vx_device bf m) [vx_write n] = addrs 0x101000 (unat n)"
  by (simp_all add: seg_ptr_def vx_read_def vx_write_def vx_ptr_numeral)

lemma addrs_unat: "p + of_nat n = e \<Longrightarrow> unat p + n < 2 ^ 64 \<Longrightarrow> a \<in> set (addrs p n) \<Longrightarrow> unat p \<le> unat a \<and> unat a < unat p + n"
  by (auto simp: addrs_def unat_word_ariths unat_of_nat)

lemma vx_posted:
  assumes "rlen = 16 + of_nat n" "n \<le> 0x800" "0 < wlen" "wlen \<le> 0x800"
  shows "blk_posted (vx_device bf (vx_ram t rlen wlen k)) q 0x100200 0 [vx_read rlen] [vx_write wlen] t k (replicate n 7)"
proof -
  let ?s = "vx_device bf (vx_ram t rlen wlen k)"
  have rl: "unat rlen = 16 + n" using assms(1,2) by (simp add: unat_word_ariths unat_of_nat)
  have wl: "0 < unat wlen" "unat wlen \<le> 0x800" using assms(3,4) by (simp_all add: word_le_nat_alt word_less_nat_alt)
  have d: "desc_in ?s q 0 (vx_read rlen)" "desc_in ?s q 1 (vx_write wlen)"
    using vx_desc_in [of ?s q] by (simp_all add: vx_ram_simps)
  have flags: "has_next (vx_read rlen)" "\<not> is_write (vx_read rlen)" "\<not> has_next (vx_write wlen)" "is_write (vx_write wlen)" "vd_next (vx_read rlen) = 1"
    by (simp_all add: has_next_def is_write_def vx_read_def vx_write_def)
  have seg: "seg_ok ?s (vx_read rlen)" "seg_ok ?s (vx_write wlen)"
    using rl wl assms(2) vx_linear_numeral(4,5) by (simp_all add: seg_ok_def seg_ptr_def vx_read_def vx_write_def vx_ptr_numeral)
  have "chain ?s q 0 ([vx_read rlen] @ [vx_write wlen])" using d flags by (auto simp: chain_def)
  then have "request ?s q 0 [vx_read rlen] [vx_write wlen]"
    using flags seg rl wl assms(2) unfolding request_def vx_slots by simp
  moreover have "distinct (slots ?s [vx_write wlen])"
    using wl of_nat_inj_u64 unfolding vx_slots by (auto simp: addrs_def distinct_map inj_on_def)
  moreover have "ring_at ?s q 0x100200" using vx_linear_numeral(3) by (simp add: ring_at_def ring_len_def vx_queue_def)
  moreover have "set (slots ?s [vx_write wlen]) \<inter> set (addrs 0x100200 (ring_len ?s q)) = {}"
    using addrs_unat [of "0x101000" "unat wlen"] addrs_unat [of "0x100200" 132] wl unfolding vx_slots by (fastforce simp: ring_len_def vx_queue_def)
  moreover have "map (v_ram ?s) (slots ?s [vx_read rlen]) = blk_header t 0 k @ replicate n 7"
    using vx_ram_simps(5) [of t rlen wlen k] vx_data [of n t rlen wlen k] assms(2) addrs_add [of "0x100400" 16 n]
    unfolding vx_slots rl by simp
  ultimately show ?thesis
    unfolding blk_posted_def using vx_avail [of ?s q] by (auto simp: vx_ram_simps vx_queue_def)
qed

definition example_console :: STDIODevice where
  "example_console = \<lparr>stdin_bytes = [], stdout_bytes = [], console_esc_state = False, console_exit = False\<rparr>"



theorem block_write_read_witness:
  "\<exists>s1 s3. queue_notify (virtio_block_recv_request (\<lambda>n. replicate n 0)) 0 (vx_device example_disk (vx_ram 1 528 1 2)) = Some s1 \<and>
     queue_notify (virtio_block_recv_request (\<lambda>n. replicate n 0)) 0 (vx_device (blk_bs s1) (vx_ram 0 16 513 2)) = Some s3 \<and>
     map (v_ram s3) (addrs 0x101000 513) = replicate 512 7 @ [0]"
proof -
  let ?recv = "virtio_block_recv_request (\<lambda>n. replicate n 0)" and ?s = "vx_device example_disk (vx_ram 1 528 1 2)"
  have post: "blk_posted ?s 0 0x100200 0 [vx_read 528] [vx_write 1] 1 2 (replicate 512 7)" by (rule vx_posted) simp_all
  have post': "blk_posted (vx_device bf (vx_ram 0 16 513 2)) 0 0x100200 0 [vx_read 16] [vx_write 513] 0 2 []" for bf
    using vx_posted [of 16 0 513 bf 0 2 0] by simp
  have slots: "slots ?s [vx_write 1] \<noteq> []" unfolding vx_slots by (simp add: addrs_def)
  have ok: "disk_ok (blk_bs ?s)" "\<not> req_in_progress ?s" "unat (2 :: u64) + 1 \<le> n_sectors (blk_bs ?s)"
    "length (replicate 512 (7 :: u8)) = 1 * 512" "bf_mode (blk_bs ?s) \<noteq> BF_MODE_RO"
    by (simp_all add: example_disk_ok)
  have len: "length (replicate n (0 :: u8)) = n" for n by simp
  note run = block_write_read [OF len ok(1-3) post ok(4) slots ok(5)]
  obtain s1 where s1: "queue_notify ?recv 0 ?s = Some s1" using run by blast
  have "length (slots (vx_device (blk_bs s1) (vx_ram 0 16 513 2)) [vx_write 513]) = 1 * 512 + 1" unfolding vx_slots by simp
  then obtain s3 where "queue_notify ?recv 0 (vx_device (blk_bs s1) (vx_ram 0 16 513 2)) = Some s3"
    "map (v_ram s3) (slots (vx_device (blk_bs s1) (vx_ram 0 16 513 2)) [vx_write 513]) = replicate 512 7 @ [0]"
    using run [of "vx_device (blk_bs s1) (vx_ram 0 16 513 2)" 0 "0x100200" 0 "[vx_read 16]" "[vx_write 513]" "[]"] s1 post' [of "blk_bs s1"]
    by auto
  then show ?thesis using s1 unfolding vx_slots by auto
qed

definition vx_loop :: VIRTIODesc where
  "vx_loop = \<lparr>vd_addr = 0x80000400, vd_len = 16, vd_flags = 1, vd_next = 0\<rparr>"

definition vx_loop_ram :: host_mem where
  "vx_loop_ram = copy_bytes 0x100000 (desc_bytes vx_loop) (copy_bytes 0x100102 [1, 0, 0, 0] (\<lambda>_. 7))"

theorem descriptor_loop_hangs_witness:
  "queue_notify (virtio_block_recv_request (\<lambda>n. replicate n 0)) 0 (vx_device example_disk vx_loop_ram) = None"
proof -
  let ?s = "vx_device example_disk vx_loop_ram"
  have len: "length (desc_bytes vx_loop) = 16" by (simp add: desc_bytes_def le16_bytes_def le32_bytes_def le64_bytes_def)
  then have "desc_at vx_loop_ram 0x100000 = vx_loop"
    unfolding vx_loop_ram_def by (intro desc_at_bytes) (use copy_bytes_read [of "desc_bytes vx_loop"] in simp)
  then have d: "desc_in ?s 0 0 vx_loop" using vx_desc_in(1) [of ?s 0] by simp
  have "vx_loop_ram 0x100102 = 1" "vx_loop_ram 0x100103 = 0" "vx_loop_ram 0x100104 = 0" "vx_loop_ram 0x100105 = 0"
    by (simp_all add: vx_loop_ram_def copy_bytes_def len)
  then have idx: "get_le16 vx_loop_ram 0x100102 = 1" "get_le16 vx_loop_ram 0x100104 = 0" by (simp_all add: get_le16_def)
  show ?thesis
    by (rule descriptor_loop_hangs [OF d]) (use vx_avail [of ?s 0] idx in \<open>simp_all add: vx_loop_def has_next_def vx_queue_def\<close>)
qed

end
