(* ===== verification/LiveCache.thy ===== *)
theory LiveCache
  imports Prelude
begin

text \<open>
  The cache the simulator can keep beside memory to know which lines to warm up when a snapshot is
  restored (\<open>include/LiveCacheCore.h\<close>, \<open>include/LiveCache.h\<close>, \<open>src/LiveCache.cpp\<close>; builds with LIVECACHE).
  Lines live in an array \<open>lines\<close>; \<open>content\<close> is the array of pointers to them, in the order of use
  within a set.  \<open>None\<close> is a failed assertion or an access outside of an array.
\<close>

section \<open>Powers of two\<close>

definition roundUpPower2 :: "u32 \<Rightarrow> u32" where
  "roundUpPower2 x =
     (let x = x - 1;
          x = x OR drop_bit 1 x;
          x = x OR drop_bit 2 x;
          x = x OR drop_bit 4 x;
          x = x OR drop_bit 8 x;
          x = x OR drop_bit 16 x
      in x + 1)"

text \<open>The loop need not end: above \<open>2 ^ 31\<close> the shifted \<open>m\<close> becomes 0.\<close>

partial_function (option) log2_loop :: "u32 \<Rightarrow> u32 \<Rightarrow> u32 \<Rightarrow> u32 option" where
  "log2_loop n m i = (if m < n then log2_loop n (push_bit 1 m) (i + 1) else Some i)"

definition log2i :: "u32 \<Rightarrow> u32 option" where
  "log2i n =
     (if n = 1 then Some 0
      else
        let n = roundUpPower2 n
        in if n AND (n - 1) \<noteq> 0 then None else log2_loop n 1 0)"

section \<open>Lines and geometry\<close>

datatype StateType = Line_M | Line_E | Line_S | Line_I

record CacheLine =
  line_tag :: u64
  line_state :: StateType
  line_st :: bool
  line_order :: u64

definition isValid :: "CacheLine \<Rightarrow> bool" where
  "isValid l \<longleftrightarrow> line_state l \<noteq> Line_I"

definition invalidate :: "CacheLine \<Rightarrow> CacheLine" where
  "invalidate l = l\<lparr>line_state := Line_I\<rparr>"

definition clearTag :: "CacheLine \<Rightarrow> CacheLine" where
  "clearTag l = l\<lparr>line_tag := 0\<rparr>"

definition setTag :: "u64 \<Rightarrow> CacheLine \<Rightarrow> CacheLine option" where
  "setTag a l = (if a = 0 then None else Some (l\<lparr>line_tag := a\<rparr>))"

datatype ReplacementPolicy = LRU | LRUp | RANDOM

text \<open>The class of a cache: associative with a policy, or direct mapped.\<close>

datatype CacheKind = CacheAssoc ReplacementPolicy | CacheDM

record Cache =
  lineSize :: u32
  assoc :: u32
  log2Assoc :: nat
  log2AddrLs :: nat
  maskAssoc :: u64
  sets :: u32
  maskSets :: u32
  log2Sets :: nat
  numLines :: u32
  xorIndex :: bool
  kind :: CacheKind
  lines :: "CacheLine list"
  content :: "nat list"
  irand :: u16

definition calcTag :: "Cache \<Rightarrow> u64 \<Rightarrow> u64" where
  "calcTag c addr = drop_bit (log2AddrLs c) addr"

definition calcIndex4Tag :: "Cache \<Rightarrow> u64 \<Rightarrow> u64" where
  "calcIndex4Tag c tag =
     (let tag = (if xorIndex c then tag XOR drop_bit (log2Sets c) tag else tag)
      in push_bit (log2Assoc c) (tag AND ucast (maskSets c)))"

definition calcAddr4Tag :: "Cache \<Rightarrow> u64 \<Rightarrow> u64" where
  "calcAddr4Tag c tag = push_bit (log2AddrLs c) tag"

text \<open>
  The constructors: \<open>fresh\<close> gives the fields \<open>st\<close> and \<open>order\<close> of the lines, which nothing initialises.
\<close>

definition new_line :: "bool \<times> u64 \<Rightarrow> CacheLine" where
  "new_line f =
     invalidate (clearTag (clearTag \<lparr>line_tag = 0, line_state = Line_I, line_st = fst f, line_order = snd f\<rparr>))"

definition CacheGeneric_new ::
  "(nat \<Rightarrow> bool \<times> u64) \<Rightarrow> u32 \<Rightarrow> u32 \<Rightarrow> u32 \<Rightarrow> bool \<Rightarrow> CacheKind \<Rightarrow> Cache option" where
  "CacheGeneric_new fresh s a b xr k =
     (if b = 0 \<or> a = 0 then None
      else
        let n = s div b; st = n div a
        in case (log2i a, log2i b, log2i st) of
             (Some la, Some lb, Some ls) \<Rightarrow>
               if n = 0 \<or> (k \<noteq> CacheDM \<and> sint n \<le> sint a) then None
               else Some \<lparr>lineSize = b, assoc = a, log2Assoc = unat la, log2AddrLs = unat lb, maskAssoc = ucast (a - 1),
                      sets = st, maskSets = st - 1, log2Sets = unat ls, numLines = n, xorIndex = xr, kind = k,
                      lines = map (\<lambda>i. new_line (fresh i)) [0..<unat n], content = [0..<unat n], irand = 0\<rparr>
           | _ \<Rightarrow> None)"

definition Cache_create ::
  "(nat \<Rightarrow> bool \<times> u64) \<Rightarrow> u32 \<Rightarrow> u32 \<Rightarrow> u32 \<Rightarrow> ReplacementPolicy \<Rightarrow> bool \<Rightarrow> Cache option" where
  "Cache_create fresh sz a b p xr =
     (if a = 1 then CacheGeneric_new fresh sz 1 b xr CacheDM
      else CacheGeneric_new fresh sz a b xr (CacheAssoc p))"

section \<open>Lookup\<close>

text \<open>The tags behind the pointers \<open>ws\<close>; the pointers of the set at an index, if they are in the array.\<close>

definition tag_at :: "Cache \<Rightarrow> nat list \<Rightarrow> nat \<Rightarrow> u64" where
  "tag_at c ws w = line_tag (lines c ! (ws ! w))"

definition the_set :: "Cache \<Rightarrow> u64 \<Rightarrow> nat list option" where
  "the_set c idx =
     (if unat idx + unat (assoc c) \<le> length (content c) then Some (take (unat (assoc c)) (drop (unat idx) (content c))) else None)"

definition put_set :: "Cache \<Rightarrow> u64 \<Rightarrow> nat list \<Rightarrow> Cache" where
  "put_set c idx ws = c\<lparr>content := take (unat idx) (content c) @ ws @ drop (unat idx + length ws) (content c)\<rparr>"

text \<open>The way \<open>w\<close> moves to the front: the ways before it are shifted from the back to the front.\<close>

fun shift_ways :: "nat \<Rightarrow> nat list \<Rightarrow> nat list" where
  "shift_ways 0 ws = ws"
| "shift_ways (Suc l) ws = shift_ways l (ws[Suc l := ws ! l])"

definition to_front :: "nat \<Rightarrow> nat list \<Rightarrow> nat list" where
  "to_front w ws = (shift_ways w ws)[0 := ws ! w]"

text \<open>The first way with a tag, from \<open>w\<close> on.\<close>

fun find_way :: "(nat \<Rightarrow> bool) \<Rightarrow> nat \<Rightarrow> nat \<Rightarrow> nat option" where
  "find_way hit w 0 = None"
| "find_way hit w (Suc n) = (if hit w then Some w else find_way hit (w + 1) n)"

definition findLinePrivate :: "Cache \<Rightarrow> u64 \<Rightarrow> (nat option \<times> Cache) option" where
  "findLinePrivate c addr =
     (let tag = calcTag c addr; idx = calcIndex4Tag c tag
      in case kind c of
           CacheDM \<Rightarrow>
             if tag = 0 then None
             else if length (content c) \<le> unat idx then None
             else
               let l = content c ! unat idx
               in if line_tag (lines c ! l) = tag then (if isValid (lines c ! l) then Some (Some l, c) else None)
                  else Some (None, c)
         | CacheAssoc p \<Rightarrow>
             case the_set c idx of
               None \<Rightarrow> None
             | Some ws \<Rightarrow>
                 if tag_at c ws 0 = tag then Some (Some (ws ! 0), c)
                 else
                   case find_way (\<lambda>w. tag_at c ws w = tag) 1 (unat (assoc c) - 1) of
                     None \<Rightarrow> Some (None, c)
                   | Some w \<Rightarrow> Some (Some (ws ! w), put_set c idx (to_front w ws)))"

section \<open>Replacement\<close>

text \<open>The scan from the last way to the first: the way with the tag, and a free way.\<close>

fun replace_scan :: "(nat \<Rightarrow> bool) \<Rightarrow> (nat \<Rightarrow> bool) \<Rightarrow> nat \<Rightarrow> nat option \<Rightarrow> nat option \<times> nat option" where
  "replace_scan hit valid 0 free = (None, free)"
| "replace_scan hit valid (Suc l) free =
     (if hit l then (Some l, free)
      else replace_scan hit valid l (if \<not> valid l then Some l else if free = None then Some l else free))"

definition bump_irand :: "Cache \<Rightarrow> u16 \<Rightarrow> u16" where
  "bump_irand c r = (r + 1) AND ucast (maskAssoc c)"

definition next_irand :: "Cache \<Rightarrow> u16 \<Rightarrow> u16" where
  "next_irand c r = (let r = bump_irand c r in if r = 0 then bump_irand c r else r)"

text \<open>The way to replace when there is no hit.\<close>

definition victim :: "ReplacementPolicy \<Rightarrow> Cache \<Rightarrow> nat \<times> Cache" where
  "victim p c =
     (if p = RANDOM then (unat (irand c), c\<lparr>irand := next_irand c (irand c)\<rparr>) else (unat (assoc c) - 1, c))"

definition findLine2Replace :: "Cache \<Rightarrow> u64 \<Rightarrow> (nat \<times> Cache) option" where
  "findLine2Replace c addr =
     (let tag = calcTag c addr; idx = calcIndex4Tag c tag
      in case kind c of
           CacheDM \<Rightarrow> if unat idx < length (content c) then Some (content c ! unat idx, c) else None
         | CacheAssoc p \<Rightarrow>
             if tag = 0 then None
             else
               case the_set c idx of
                 None \<Rightarrow> None
               | Some ws \<Rightarrow>
                   if tag_at c ws 0 = tag then Some (ws ! 0, c)
                   else
                     let (hit, free) = replace_scan (\<lambda>w. tag_at c ws w = tag) (\<lambda>w. isValid (lines c ! (ws ! w))) (unat (assoc c)) None
                     in if hit = None \<and> free = None then None
                        else
                          let (w, c) = (case hit of Some w \<Rightarrow> (w, c) | None \<Rightarrow> victim p c)
                          in if hit = None \<and> w = 0 then Some (ws ! 0, c)
                             else if length ws \<le> w then None
                             else Some (ws ! w, if p = LRUp then c else put_set c idx (to_front w ws)))"

definition update_line :: "nat \<Rightarrow> CacheLine \<Rightarrow> Cache \<Rightarrow> Cache" where
  "update_line l ln c = c\<lparr>lines := (lines c)[l := ln]\<rparr>"

definition fillLine :: "Cache \<Rightarrow> u64 \<Rightarrow> (nat \<times> Cache) option" where
  "fillLine c addr =
     Option.bind (findLine2Replace c addr) (\<lambda>(l, c).
     map_option (\<lambda>ln. (l, update_line l ln c)) (setTag (calcTag c addr) (lines c ! l)))"

text \<open>The second \<open>fillLine\<close> reports the address of the line it replaces.\<close>

definition fillLine_replaced :: "Cache \<Rightarrow> u64 \<Rightarrow> (u64 \<times> nat \<times> Cache) option" where
  "fillLine_replaced c addr =
     Option.bind (findLine2Replace c addr) (\<lambda>(l, c).
       let newTag = calcTag c addr; ln = lines c ! l;
           rplcAddr = (if isValid ln \<and> line_tag ln \<noteq> newTag then calcAddr4Tag c (line_tag ln) else 0)
       in map_option (\<lambda>ln. (rplcAddr, l, update_line l ln c)) (setTag newTag ln))"

definition getPLine :: "Cache \<Rightarrow> u32 \<Rightarrow> nat option" where
  "getPLine c l = (if l < numLines c then Some (content c ! unat l) else None)"

section \<open>The cache beside memory\<close>

record LiveCache =
  cacheBank :: Cache
  lc_lineSize :: u32
  lineSizeBits :: nat
  lineCount :: u64
  maxOrder :: u64
  mem_base :: u64
  mem_end :: u64
  nReadHit :: int
  nReadMiss :: int
  nWriteHit :: int
  nWriteMiss :: int

definition LiveCache_new :: "(nat \<Rightarrow> bool \<times> u64) \<Rightarrow> u32 \<Rightarrow> u64 \<Rightarrow> u64 \<Rightarrow> LiveCache option" where
  "LiveCache_new fresh sz base msize =
     Option.bind (Cache_create fresh sz 16 64 LRU False) (\<lambda>c.
     Option.bind (log2i (lineSize c)) (\<lambda>bits.
       if sint (lineSize c) < 4096 then
         Some \<lparr>cacheBank = c, lc_lineSize = lineSize c, lineSizeBits = unat bits, lineCount = ucast (numLines c), maxOrder = 0,
           mem_base = base, mem_end = base + msize, nReadHit = 0, nReadMiss = 0, nWriteHit = 0, nWriteMiss = 0\<rparr>
       else None))"

text \<open>\<open>l->order = maxOrder++\<close>, and the field \<open>st\<close>.\<close>

definition set_order :: "nat \<Rightarrow> (bool \<Rightarrow> bool) \<Rightarrow> LiveCache \<Rightarrow> LiveCache" where
  "set_order l f s =
     (let ln = lines (cacheBank s) ! l
      in s\<lparr>cacheBank := update_line l (ln\<lparr>line_order := maxOrder s, line_st := f (line_st ln)\<rparr>) (cacheBank s),
           maxOrder := maxOrder s + 1\<rparr>)"

definition LiveCache_read :: "LiveCache \<Rightarrow> u64 \<Rightarrow> LiveCache option" where
  "LiveCache_read s addr =
     (if addr < mem_base s \<or> addr > mem_end s then Some s
      else
        Option.bind (findLinePrivate (cacheBank s) addr) (\<lambda>(hit, c).
        let s = s\<lparr>cacheBank := c\<rparr>
        in case hit of
             Some l \<Rightarrow> Some ((set_order l id s)\<lparr>nReadHit := nReadHit s + 1\<rparr>)
           | None \<Rightarrow>
               map_option (\<lambda>(l, c). set_order l (\<lambda>_. False) (s\<lparr>nReadMiss := nReadMiss s + 1, cacheBank := c\<rparr>)) (fillLine c addr)))"

definition LiveCache_write :: "LiveCache \<Rightarrow> u64 \<Rightarrow> LiveCache option" where
  "LiveCache_write s addr =
     (if addr < mem_base s \<or> addr > mem_end s then Some s
      else
        Option.bind (findLinePrivate (cacheBank s) addr) (\<lambda>(hit, c).
        let s = s\<lparr>cacheBank := c\<rparr>
        in case hit of
             Some l \<Rightarrow> Some ((set_order l (\<lambda>_. True) s)\<lparr>nWriteHit := nWriteHit s + 1\<rparr>)
           | None \<Rightarrow>
               map_option (\<lambda>(l, c). set_order l (\<lambda>_. True) (s\<lparr>nWriteMiss := nWriteMiss s + 1, cacheBank := c\<rparr>)) (fillLine c addr)))"

section \<open>Traversal in the order of use\<close>

fun merge_lines :: "CacheLine list \<Rightarrow> CacheLine list \<Rightarrow> CacheLine list" where
  "merge_lines (a # as) (b # bs) =
     (if line_order a \<le> line_order b then a # merge_lines as (b # bs) else b # merge_lines (a # as) bs)"
| "merge_lines as [] = as"
| "merge_lines [] bs = bs"

function mergeSort :: "CacheLine list \<Rightarrow> CacheLine list" where
  "mergeSort arr =
     (if length arr < 2 then arr
      else if length arr = 2 then
        (if line_order (arr ! 0) > line_order (arr ! 1) then [arr ! 1, arr ! 0] else arr)
      else
        let mid = length arr div 2
        in merge_lines (mergeSort (take mid arr)) (mergeSort (drop mid arr)))"
  by pat_completeness auto
termination by (relation "measure length") auto

declare mergeSort.simps [simp del]

fun line_addrs :: "Cache \<Rightarrow> CacheLine list \<Rightarrow> u64 list option" where
  "line_addrs c [] = Some []"
| "line_addrs c (l # ls) =
     (if line_tag l = 0 then line_addrs c ls
      else
        let a = calcAddr4Tag c (line_tag l)
        in if line_st l then map_option ((#) (1 OR a)) (line_addrs c ls)
           else if a AND 1 \<noteq> 0 then None
           else map_option ((#) a) (line_addrs c ls))"

text \<open>\<open>lineCount\<close> is the number of lines of the bank, so that the assertion of \<open>getPLine\<close> holds.\<close>

definition used_lines :: "LiveCache \<Rightarrow> CacheLine list" where
  "used_lines s =
     (let c = cacheBank s
      in filter (\<lambda>l. line_order l \<noteq> 0) (map (\<lambda>i. lines c ! (content c ! i)) [0..<unat (lineCount s)]))"

definition LiveCache_traverse :: "LiveCache \<Rightarrow> u64 list option" where
  "LiveCache_traverse s = line_addrs (cacheBank s) (mergeSort (used_lines s))"

end
