(* ===== verification/LiveCache_Lemmas.thy ===== *)
theory LiveCache_Lemmas
  imports LiveCache "HOL-Library.Multiset"
begin

text \<open>
  The cache as what is left of its history: each set holds the last sixteen different lines accessed,
  the most recent one first.
\<close>

section \<open>Powers of two\<close>

lemma smear_step:
  fixes x y :: "'a::len word"
  assumes "\<And>i. bit x i \<longleftrightarrow> (\<exists>d<n. bit y (i + d))"
  shows "bit (x OR drop_bit n x) i \<longleftrightarrow> (\<exists>d<2 * n. bit y (i + d))"
proof -
  have "bit (x OR drop_bit n x) i \<longleftrightarrow> (\<exists>d<n. bit y (i + d)) \<or> (\<exists>d<n. bit y (i + (n + d)))"
    by (simp add: bit_or_iff bit_drop_bit_eq assms add.commute add.left_commute)
  also have "\<dots> \<longleftrightarrow> (\<exists>d<2 * n. bit y (i + d))"
  proof
    assume "\<exists>d<2 * n. bit y (i + d)"
    then obtain d where d: "d < 2 * n" "bit y (i + d)" by blast
    show "(\<exists>d<n. bit y (i + d)) \<or> (\<exists>d<n. bit y (i + (n + d)))"
    proof (cases "d < n")
      case False
      then have "d - n < n" "bit y (i + (n + (d - n)))" using d by simp_all
      then show ?thesis by blast
    qed (use d in blast)
  next
    assume "(\<exists>d<n. bit y (i + d)) \<or> (\<exists>d<n. bit y (i + (n + d)))"
    then show "\<exists>d<2 * n. bit y (i + d)"
    proof
      assume "\<exists>d<n. bit y (i + (n + d))"
      then obtain d where "d < n" "bit y (i + (n + d))" by blast
      then show ?thesis by (intro exI [of _ "n + d"]) simp
    next
      assume "\<exists>d<n. bit y (i + d)"
      then obtain d where "d < n" "bit y (i + d)" by blast
      then show ?thesis by (intro exI [of _ d]) simp
    qed
  qed
  finally show ?thesis .
qed

lemma smear_bits:
  obtains s where "roundUpPower2 (y + 1) = s + 1" "\<And>i. bit s i \<longleftrightarrow> (\<exists>j<32. bit y (i + j))"
proof -
  define a where "a = y OR drop_bit 1 y"
  define b where "b = a OR drop_bit 2 a"
  define c where "c = b OR drop_bit 4 b"
  define d where "d = c OR drop_bit 8 c"
  have a: "bit a i \<longleftrightarrow> (\<exists>j<2. bit y (i + j))" for i
    using smear_step [of y 1 y i] unfolding a_def by simp
  have b: "bit b i \<longleftrightarrow> (\<exists>j<4. bit y (i + j))" for i
    using smear_step [of a 2 y i] a unfolding b_def by simp
  have c: "bit c i \<longleftrightarrow> (\<exists>j<8. bit y (i + j))" for i
    using smear_step [of b 4 y i] b unfolding c_def by simp
  have d: "bit d i \<longleftrightarrow> (\<exists>j<16. bit y (i + j))" for i
    using smear_step [of c 8 y i] c unfolding d_def by simp
  have "roundUpPower2 (y + 1) = (d OR drop_bit 16 d) + 1"
    unfolding roundUpPower2_def Let_def add_diff_cancel_right' a_def b_def c_def d_def by (rule refl)
  then show thesis using that smear_step [of d 16 y] d by simp
qed

lemma smear_mask:
  fixes y :: u32
  assumes "unat y < 2 ^ k" "k = 0 \<or> 2 ^ (k - 1) \<le> unat y"
  shows "roundUpPower2 (y + 1) = mask k + 1"
proof -
  have low: "\<not> bit y j" if "k \<le> j" for j
  proof
    assume "bit y j"
    then have "bit (unat y) j" by (simp add: bit_unsigned_iff possible_bit_def bit_imp_le_length)
    then have "\<not> even (unat y div 2 ^ j)" by (simp add: bit_iff_odd)
    moreover have "unat y < 2 ^ j" using assms(1) that by (meson less_le_trans one_le_numeral power_increasing)
    ultimately show False by simp
  qed
  have top: "bit y (k - 1)" if "k > 0"
  proof -
    have "unat y div 2 ^ (k - 1) = 1"
      using assms that by (intro div_nat_eqI) (simp_all add: power_eq_if)
    then have "bit (unat y) (k - 1)" by (simp add: bit_iff_odd)
    then show ?thesis by (simp add: bit_unsigned_iff)
  qed
  have ex: "(\<exists>j<32. bit y (i + j)) \<longleftrightarrow> i < k" if "i < 32" for i
  proof
    assume "i < k"
    moreover from this have "k - 1 < 32" using top bit_imp_le_length [of y "k - 1"] by simp
    ultimately show "\<exists>j<32. bit y (i + j)" using top by (intro exI [of _ "k - 1 - i"]) simp
  next
    assume "\<exists>j<32. bit y (i + j)"
    then obtain j where "bit y (i + j)" by blast
    then show "i < k" using low [of "i + j"] by force
  qed
  obtain s where s: "roundUpPower2 (y + 1) = s + 1" "\<And>i. bit s i \<longleftrightarrow> (\<exists>j<32. bit y (i + j))" using smear_bits [of y] by metis
  have "s = mask k"
  proof (rule bit_word_eqI)
    fix i assume "i < LENGTH(32)"
    then show "bit s i = bit (mask k :: u32) i" unfolding s(2) using ex [of i] by (simp add: bit_mask_iff)
  qed
  then show ?thesis using s(1) by simp
qed

lemma unat_pow2: "k < 32 \<Longrightarrow> unat ((2 :: u32) ^ k) = 2 ^ k"
proof -
  assume "k < 32"
  then have "(2 :: nat) ^ k < 2 ^ 32" by (intro power_strict_increasing) simp_all
  moreover have "unat ((2 :: u32) ^ k) = 2 ^ k mod 2 ^ 32" using unat_of_nat [where ?'a = 32, of "2 ^ k"] by simp
  ultimately show ?thesis by simp
qed

lemma log2_loop_pow2:
  assumes "k < 32" "j \<le> k"
  shows "log2_loop (2 ^ k) (2 ^ j) (of_nat j) = Some (of_nat k)"
  using assms
proof (induction "k - j" arbitrary: j)
  case 0
  then show ?case by (subst log2_loop.simps) simp
next
  case (Suc d)
  have less: "(2 :: u32) ^ j < 2 ^ k"
  proof -
    have "unat ((2 :: u32) ^ j) = 2 ^ j" "unat ((2 :: u32) ^ k) = 2 ^ k" using Suc by (simp_all add: unat_pow2)
    then show ?thesis using Suc by (simp add: word_less_nat_alt)
  qed
  have "log2_loop (2 ^ k) (2 ^ Suc j) (of_nat (Suc j)) = Some (of_nat k)" using Suc by (intro Suc.hyps) simp_all
  then show ?case using less by (subst log2_loop.simps) (simp add: push_bit_eq_mult mult.commute add.commute)
qed

text \<open>\<open>log2i\<close> is the logarithm rounded up, as long as that power of two is a 32-bit number.\<close>

lemma log2i_ceiling:
  assumes "0 < x" "unat x \<le> 2 ^ 31"
  obtains k where "log2i x = Some (of_nat k)" "k < 32" "unat x \<le> 2 ^ k" "k = 0 \<or> 2 ^ (k - 1) < unat x"
proof (cases "x = 1")
  case True
  then show thesis using that [of 0] by (simp add: log2i_def)
next
  case False
  define y where "y = x - 1"
  have x: "x = y + 1" by (simp add: y_def)
  have x0: "unat x \<noteq> 0" using assms(1) by (metis unat_eq_0 word_neq_0_conv)
  have y: "unat y = unat x - 1" unfolding y_def using assms(1) by (metis unat_minus_one word_neq_0_conv)
  have "unat x \<noteq> 1" using False by (metis unsigned_1 word_unat_eq_iff)
  then have y1: "1 \<le> unat y" using y x0 by linarith
  then obtain n where n: "2 ^ n \<le> unat y" "unat y < 2 ^ (n + 1)" using ex_power_ivl1 [of 2 "unat y"] by auto
  have n31: "n < 31"
  proof (rule ccontr)
    assume "\<not> n < 31"
    then have "(2 :: nat) ^ 31 \<le> 2 ^ n" by (intro power_increasing) simp_all
    also have "\<dots> \<le> unat y" by (rule n(1))
    finally show False using y x0 assms(2) by linarith
  qed
  have r: "roundUpPower2 x = 2 ^ (n + 1)"
    unfolding x using smear_mask [of y "n + 1"] n by (simp add: mask_eq_decr_exp)
  have "(2 :: u32) ^ (n + 1) AND (2 ^ (n + 1) - 1) = 0"
    unfolding mask_eq_decr_exp [symmetric] by (rule bit_word_eqI) (auto simp: bit_simps)
  then have "log2i x = Some (of_nat (n + 1))"
    using log2_loop_pow2 [of "n + 1" 0] n31 False unfolding log2i_def Let_def r by simp
  then show thesis using that [of "n + 1"] n n31 y x0 by simp
qed

section \<open>Sets\<close>

text \<open>What the constructor fixes and no access changes.\<close>

definition geometry :: "Cache \<Rightarrow> bool" where
  "geometry c \<longleftrightarrow> kind c = CacheAssoc LRU \<and> assoc c = 16 \<and> log2Assoc c = 4 \<and> log2AddrLs c = 6 \<and> \<not> xorIndex c \<and>
     maskSets c = sets c - 1 \<and> 0 < sets c \<and> 16 * unat (sets c) \<le> unat (numLines c) \<and> unat (numLines c) < 2 ^ 31 \<and>
     length (content c) = unat (numLines c) \<and> length (lines c) = unat (numLines c) \<and>
     distinct (content c) \<and> set (content c) \<subseteq> {..<unat (numLines c)}"

definition set_of :: "u32 \<Rightarrow> u64 \<Rightarrow> nat" where
  "set_of n t = unat (t AND ucast (n - 1))"

text \<open>The pointers and the lines of a set.\<close>

definition ptrs :: "Cache \<Rightarrow> nat \<Rightarrow> nat list" where
  "ptrs c k = take 16 (drop (16 * k) (content c))"

definition ways :: "Cache \<Rightarrow> nat \<Rightarrow> CacheLine list" where
  "ways c k = map ((!) (lines c)) (ptrs c k)"

lemma set_of_less: "0 < n \<Longrightarrow> set_of n t < unat n"
proof -
  assume "0 < n"
  have "t AND ucast (n - 1) \<le> (ucast (n - 1) :: u64)" by (rule word_and_le1)
  then have "set_of n t \<le> unat (n - 1)" unfolding set_of_def word_le_nat_alt unsigned_ucast_eq using take_bit_nat_less_eq_self order_trans by blast
  also have "\<dots> < unat n" using \<open>0 < n\<close> by (metis diff_less unat_minus_one unat_gt_0 word_neq_0_conv zero_less_one)
  finally show ?thesis .
qed

lemma index_of_set:
  assumes "geometry c"
  shows "unat (calcIndex4Tag c t) = 16 * set_of (sets c) t"
proof -
  have lt: "set_of (sets c) t < 2 ^ 32" using set_of_less [of "sets c" t] assms unsigned_less [of "sets c"]
    by (auto simp: geometry_def intro: less_trans)
  have "calcIndex4Tag c t = push_bit 4 (t AND ucast (sets c - 1))" using assms by (simp add: calcIndex4Tag_def geometry_def)
  then show ?thesis using lt by (simp add: push_bit_eq_mult set_of_def unat_word_ariths)
qed

lemma ptrs_facts:
  assumes "geometry c" "k < unat (sets c)"
  shows "16 * k + 16 \<le> length (content c)" "length (ptrs c k) = 16" "length (ways c k) = 16" "distinct (ptrs c k)"
    "set (ptrs c k) \<subseteq> {..<unat (numLines c)}"
proof -
  have "16 * k + 16 \<le> 16 * unat (sets c)" using assms(2) by simp
  also have "\<dots> \<le> length (content c)" using assms(1) by (simp add: geometry_def)
  finally show l: "16 * k + 16 \<le> length (content c)" .
  then show "length (ptrs c k) = 16" by (simp add: ptrs_def)
  then show "length (ways c k) = 16" by (simp add: ways_def)
  show "distinct (ptrs c k)" using assms(1) by (simp add: ptrs_def geometry_def)
  have "set (ptrs c k) \<subseteq> set (content c)" unfolding ptrs_def by (meson set_take_subset set_drop_subset subset_trans)
  then show "set (ptrs c k) \<subseteq> {..<unat (numLines c)}" using assms(1) by (auto simp: geometry_def)
qed

lemma the_set_ptrs:
  assumes "geometry c" "k = set_of (sets c) t"
  shows "the_set c (calcIndex4Tag c t) = Some (ptrs c k)"
proof -
  have "k < unat (sets c)" using assms set_of_less by (simp add: geometry_def)
  from ptrs_facts(1) [OF assms(1) this] show ?thesis
    using assms by (simp add: the_set_def index_of_set ptrs_def geometry_def)
qed

lemma shift_ways_eq:
  "w < length ws \<Longrightarrow> shift_ways w ws = take 1 ws @ take w ws @ drop (Suc w) ws"
proof (induction w arbitrary: ws)
  case 0
  then show ?case by (cases ws) simp_all
next
  case (Suc w)
  let ?ws = "ws[Suc w := ws ! w]"
  have "shift_ways (Suc w) ws = take 1 ?ws @ take w ?ws @ drop (Suc w) ?ws" using Suc by simp
  also have "take 1 ?ws = take 1 ws" by (cases ws) simp_all
  also have "take w ?ws = take w ws" by simp
  also have "drop (Suc w) ?ws = ws ! w # drop (Suc (Suc w)) ws"
    using Suc.prems by (simp add: Cons_nth_drop_Suc [symmetric])
  also have "take w ws @ ws ! w # drop (Suc (Suc w)) ws = take (Suc w) ws @ drop (Suc (Suc w)) ws"
    using Suc.prems by (simp add: take_Suc_conv_app_nth)
  finally show ?case .
qed

lemma to_front_eq: "w < length ws \<Longrightarrow> to_front w ws = ws ! w # take w ws @ drop (Suc w) ws"
  unfolding to_front_def shift_ways_eq by (cases ws) simp_all

lemma find_way_None: "find_way hit w n = None \<longleftrightarrow> (\<forall>j<n. \<not> hit (w + j))"
  by (induction n arbitrary: w) (auto simp: less_Suc_eq_0_disj)

lemma find_way_Some: "find_way hit w n = Some j \<Longrightarrow> hit j \<and> w \<le> j \<and> j < w + n"
proof (induction n arbitrary: w)
  case (Suc n)
  show ?case
  proof (cases "hit w")
    case False
    then have "find_way hit (w + 1) n = Some j" using Suc.prems by simp
    then show ?thesis using Suc.IH by fastforce
  qed (use Suc.prems in simp)
qed simp

lemma replace_scan_miss:
  "(\<And>j. j < n \<Longrightarrow> \<not> hit j) \<Longrightarrow> 0 < n \<or> free \<noteq> None \<Longrightarrow> fst (replace_scan hit valid n free) = None \<and> snd (replace_scan hit valid n free) \<noteq> None"
  by (induction n arbitrary: free) auto


section \<open>One access\<close>

text \<open>The line at the pointer of way \<open>j\<close> is replaced by \<open>ln\<close> and moves to the front of its set.\<close>

definition touch :: "Cache \<Rightarrow> nat \<Rightarrow> nat \<Rightarrow> CacheLine \<Rightarrow> Cache" where
  "touch c k j ln =
     c\<lparr>content := take (16 * k) (content c) @ to_front j (ptrs c k) @ drop (16 * k + 16) (content c),
       lines := (lines c)[ptrs c k ! j := ln]\<rparr>"

lemma content_split:
  assumes "geometry c" "k < unat (sets c)"
  shows "content c = take (16 * k) (content c) @ ptrs c k @ drop (16 * k + 16) (content c)"
  unfolding ptrs_def by (simp add: add.commute flip: take_add drop_drop)

lemma to_front_perm: "w < length ws \<Longrightarrow> mset (to_front w ws) = mset ws"
proof -
  assume w: "w < length ws"
  have "mset ws = mset (take w ws @ ws ! w # drop (Suc w) ws)" using w by (simp add: id_take_nth_drop [symmetric])
  then show ?thesis by (simp add: to_front_eq [OF w])
qed

lemma touch_geometry:
  assumes "geometry c" "k < unat (sets c)" "j < 16"
  shows "geometry (touch c k j ln)"
proof -
  let ?c = "take (16 * k) (content c) @ to_front j (ptrs c k) @ drop (16 * k + 16) (content c)"
  have "mset ?c = mset (content c)"
    using content_split [OF assms(1,2)] to_front_perm [of j "ptrs c k"] ptrs_facts(2) [OF assms(1,2)] assms(3)
    by (metis mset_append)
  then have "length ?c = length (content c)" "set ?c = set (content c)" "distinct ?c = distinct (content c)"
    using mset_eq_length mset_eq_setD mset_eq_imp_distinct_iff by blast+
  then show ?thesis using assms(1) unfolding geometry_def touch_def by simp
qed

lemma ptrs_touch:
  assumes "geometry c" "k < unat (sets c)" "j < 16" "i < unat (sets c)"
  shows "ptrs (touch c k j ln) i = (if i = k then to_front j (ptrs c k) else ptrs c i)"
proof -
  note len = ptrs_facts(1,2) [OF assms(1,2)]
  have f: "length (to_front j (ptrs c k)) = 16" using len(2) assms(3) by (simp add: to_front_eq)
  have t: "length (take (16 * k) (content c)) = 16 * k" using len(1) by simp
  consider "i = k" | "i < k" | "k < i" by linarith
  then show ?thesis
  proof cases
    case 1
    then show ?thesis using f t by (simp add: ptrs_def touch_def)
  next
    case 2
    have "take 16 (drop (16 * i) (content (touch c k j ln))) = take 16 (drop (16 * i) (take (16 * k) (content c)))"
      using 2 t by (simp add: touch_def)
    also have "\<dots> = take 16 (drop (16 * i) (content c))" using 2 by (simp add: drop_take min_def)
    finally show ?thesis using 2 by (simp add: ptrs_def)
  next
    case 3
    then have e: "16 * i - 16 * k - 16 + (16 * k + 16) = 16 * i" by simp
    have "drop (16 * i) (content (touch c k j ln)) = drop (16 * i - 16 * k - 16) (drop (16 * k + 16) (content c))"
      using 3 f t by (simp add: touch_def)
    also have "\<dots> = drop (16 * i) (content c)" unfolding drop_drop e by (rule refl)
    finally show ?thesis using 3 by (simp add: ptrs_def)
  qed
qed

lemma ptrs_disjoint:
  assumes "geometry c" "k < unat (sets c)" "i < unat (sets c)" "i \<noteq> k"
  shows "set (ptrs c i) \<inter> set (ptrs c k) = {}"
proof -
  have "\<exists>a b. content c = a @ ptrs c i @ b \<and> (set (ptrs c k) \<subseteq> set a \<or> set (ptrs c k) \<subseteq> set b)"
  proof (cases "k < i")
    case True
    then have "16 * k + 16 \<le> 16 * i" by simp
    then have "ptrs c k = drop (16 * k) (take (16 * k + 16) (take (16 * i) (content c)))"
      by (simp add: ptrs_def drop_take min_def)
    then have "set (ptrs c k) \<subseteq> set (take (16 * i) (content c))" by (metis set_take_subset set_drop_subset subset_trans)
    then show ?thesis using content_split [OF assms(1,3)] by blast
  next
    case False
    then have "16 * k - (16 * i + 16) + (16 * i + 16) = 16 * k" using assms(4) by linarith
    then have "ptrs c k = take 16 (drop (16 * k - (16 * i + 16)) (drop (16 * i + 16) (content c)))"
      unfolding ptrs_def drop_drop by simp
    then have "set (ptrs c k) \<subseteq> set (drop (16 * i + 16) (content c))" by (metis set_take_subset set_drop_subset subset_trans)
    then show ?thesis using content_split [OF assms(1,3)] by blast
  qed
  then obtain a b where ab: "content c = a @ ptrs c i @ b" "set (ptrs c k) \<subseteq> set a \<or> set (ptrs c k) \<subseteq> set b" by blast
  have "distinct (a @ ptrs c i @ b)" using assms(1) ab(1) by (simp add: geometry_def)
  then show ?thesis using ab(2) by auto
qed

lemma ways_touch:
  assumes "geometry c" "k < unat (sets c)" "j < 16" "i < unat (sets c)"
  shows "ways (touch c k j ln) i =
    (if i = k then ln # take j (ways c k) @ drop (Suc j) (ways c k) else ways c i)"
proof -
  note P = ptrs_facts [OF assms(1,2)]
  let ?p = "ptrs c k ! j"
  have lines: "lines (touch c k j ln) = (lines c)[?p := ln]" by (simp add: touch_def)
  have "?p \<in> set (ptrs c k)" using P(2) assms(3) by simp
  then have in_lines: "?p < length (lines c)" using P(5) assms(1) by (auto simp: geometry_def)
  show ?thesis
  proof (cases "i = k")
    case True
    have split: "ptrs c k = take j (ptrs c k) @ ?p # drop (Suc j) (ptrs c k)" using P(2) assms(3) by (simp add: id_take_nth_drop)
    have "?p \<notin> set (take j (ptrs c k)) \<union> set (drop (Suc j) (ptrs c k))"
      using P(4) by (subst (asm) split) auto
    then have "map ((!) ((lines c)[?p := ln])) (take j (ptrs c k) @ drop (Suc j) (ptrs c k)) =
        map ((!) (lines c)) (take j (ptrs c k) @ drop (Suc j) (ptrs c k))"
      by (intro map_cong refl nth_list_update_neq) auto
    then show ?thesis
      using True ptrs_touch [OF assms] P(2) assms(3) in_lines lines
      by (simp add: ways_def to_front_eq take_map drop_map)
  next
    case False
    have "?p \<in> set (ptrs c k)" using P(2) assms(3) by simp
    then have "?p \<notin> set (ptrs c i)" using ptrs_disjoint [OF assms(1,2,4) False] by blast
    then have "map ((!) ((lines c)[?p := ln])) (ptrs c i) = map ((!) (lines c)) (ptrs c i)"
      by (intro map_cong refl nth_list_update_neq) auto
    then show ?thesis using False ptrs_touch [OF assms] lines by (simp add: ways_def)
  qed
qed

lemma way_tag: "geometry c \<Longrightarrow> k < unat (sets c) \<Longrightarrow> j < 16 \<Longrightarrow> tag_at c (ptrs c k) j = line_tag (ways c k ! j)"
  by (simp add: tag_at_def ways_def ptrs_facts(2))

lemma update_put_set:
  assumes "geometry c" "k = set_of (sets c) t" "j < 16"
  shows "update_line (ptrs c k ! j) ln (put_set c (calcIndex4Tag c t) (to_front j (ptrs c k))) = touch c k j ln"
proof -
  have k: "k < unat (sets c)" using assms set_of_less by (simp add: geometry_def)
  have "length (to_front j (ptrs c k)) = 16" using ptrs_facts(2) [OF assms(1) k] assms(3) by (simp add: to_front_eq)
  then show ?thesis using assms(1,2) by (simp add: update_line_def put_set_def touch_def index_of_set)
qed

lemma put_set_front:
  assumes "geometry c" "k = set_of (sets c) t"
  shows "put_set c (calcIndex4Tag c t) (to_front 0 (ptrs c k)) = c"
proof -
  have k: "k < unat (sets c)" using assms set_of_less by (simp add: geometry_def)
  have "to_front 0 (ptrs c k) = ptrs c k" using ptrs_facts(2) [OF assms(1) k] by (cases "ptrs c k") (simp_all add: to_front_def)
  then show ?thesis
    using assms content_split [OF assms(1) k] ptrs_facts(2) [OF assms(1) k] by (simp add: put_set_def index_of_set)
qed

lemma find_hit:
  assumes "geometry c" "t = calcTag c addr" "k = set_of (sets c) t" "j < 16" "line_tag (ways c k ! j) = t"
    and "\<And>i. i < j \<Longrightarrow> line_tag (ways c k ! i) \<noteq> t"
  shows "findLinePrivate c addr = Some (Some (ptrs c k ! j), put_set c (calcIndex4Tag c t) (to_front j (ptrs c k)))"
proof -
  have k: "k < unat (sets c)" using assms(1,3) set_of_less by (simp add: geometry_def)
  note tag = way_tag [OF assms(1) k]
  have kd: "kind c = CacheAssoc LRU" "unat (assoc c) = 16" using assms(1) by (simp_all add: geometry_def)
  note run = findLinePrivate_def [of c addr, unfolded Let_def assms(2) [symmetric] kd(1) CacheKind.case the_set_ptrs [OF assms(1,3)] option.case]
  show ?thesis
  proof (cases j)
    case 0
    then show ?thesis using run tag assms(5) put_set_front [OF assms(1,3)] by simp
  next
    case (Suc i)
    have front: "tag_at c (ptrs c k) 0 \<noteq> t" using tag assms(6) Suc by simp
    have "find_way (\<lambda>w. tag_at c (ptrs c k) w = t) 1 15 \<noteq> None"
      using tag [OF assms(4)] assms(4,5) Suc unfolding find_way_None by (auto intro!: exI [of _ i])
    then obtain w where w: "find_way (\<lambda>w. tag_at c (ptrs c k) w = t) 1 15 = Some w" by blast
    have "w = j"
    proof -
      have "find_way hit b n = Some w \<Longrightarrow> hit j \<Longrightarrow> b \<le> j \<Longrightarrow> (\<And>i. i < j \<Longrightarrow> b \<le> i \<Longrightarrow> \<not> hit i) \<Longrightarrow> w = j" for hit b n
      proof (induction n arbitrary: b)
        case (Suc n)
        show ?case
        proof (cases "hit b")
          case True
          then have "\<not> b < j" using Suc.prems(4) [of b] by blast
          then show ?thesis using Suc.prems(1,3) True by simp
        next
          case False
          then have "b \<noteq> j" using Suc.prems(2) by blast
          then show ?thesis using Suc.IH [of "b + 1"] Suc.prems False by simp
        qed
      qed simp
      from this [OF w] show ?thesis using tag assms(4-6) Suc by simp
    qed
    then show ?thesis using run front w kd(2) by simp
  qed
qed

lemma find_miss:
  assumes "geometry c" "t = calcTag c addr" "k = set_of (sets c) t" "\<And>i. i < 16 \<Longrightarrow> line_tag (ways c k ! i) \<noteq> t"
  shows "findLinePrivate c addr = Some (None, c)"
proof -
  have k: "k < unat (sets c)" using assms(1,3) set_of_less by (simp add: geometry_def)
  note tag = way_tag [OF assms(1) k]
  have kd: "kind c = CacheAssoc LRU" "unat (assoc c) = 16" using assms(1) by (simp_all add: geometry_def)
  note run = findLinePrivate_def [of c addr, unfolded Let_def assms(2) [symmetric] kd(1) CacheKind.case the_set_ptrs [OF assms(1,3)] option.case]
  have "find_way (\<lambda>w. tag_at c (ptrs c k) w = t) 1 15 = None"
    unfolding find_way_None using tag assms(4) by simp
  then show ?thesis using run tag [of 0] assms(4) [of 0] kd(2) by simp
qed

lemma replace_miss:
  assumes "geometry c" "t = calcTag c addr" "k = set_of (sets c) t" "t \<noteq> 0" "\<And>i. i < 16 \<Longrightarrow> line_tag (ways c k ! i) \<noteq> t"
  shows "findLine2Replace c addr = Some (ptrs c k ! 15, put_set c (calcIndex4Tag c t) (to_front 15 (ptrs c k)))"
proof -
  have k: "k < unat (sets c)" using assms(1,3) set_of_less by (simp add: geometry_def)
  note tag = way_tag [OF assms(1) k]
  have kd: "kind c = CacheAssoc LRU" "unat (assoc c) = 16" using assms(1) by (simp_all add: geometry_def)
  let ?scan = "replace_scan (\<lambda>w. tag_at c (ptrs c k) w = t) (\<lambda>w. isValid (lines c ! (ptrs c k ! w))) 16 None"
  have "fst ?scan = None \<and> snd ?scan \<noteq> None" by (rule replace_scan_miss) (use tag assms(5) in simp_all)
  then obtain f where scan: "?scan = (None, Some f)" by (cases ?scan) auto
  note run = findLine2Replace_def [of c addr, unfolded Let_def assms(2) [symmetric] kd CacheKind.case if_not_P [OF assms(4)]
      the_set_ptrs [OF assms(1,3)] option.case scan]
  show ?thesis using run tag [of 0] assms(5) [of 0] ptrs_facts(2) [OF assms(1) k] kd(2) by (simp add: victim_def)
qed

definition LiveCache_access :: "bool \<Rightarrow> LiveCache \<Rightarrow> u64 \<Rightarrow> LiveCache option" where
  "LiveCache_access w s addr = (if w then LiveCache_write s addr else LiveCache_read s addr)"

lemma access_hit:
  fixes s :: LiveCache
  defines "c \<equiv> cacheBank s"
  assumes "geometry c" "mem_base s \<le> addr" "addr \<le> mem_end s" "t = calcTag c addr" "k = set_of (sets c) t" "j < 16"
    "line_tag (ways c k ! j) = t" "\<And>i. i < j \<Longrightarrow> line_tag (ways c k ! i) \<noteq> t"
  shows "\<exists>s'. LiveCache_access w s addr = Some s' \<and>
     cacheBank s' = touch c k j ((ways c k ! j)\<lparr>line_order := maxOrder s, line_st := w \<or> line_st (ways c k ! j)\<rparr>) \<and>
     maxOrder s' = maxOrder s + 1 \<and> mem_base s' = mem_base s \<and> mem_end s' = mem_end s \<and> lineCount s' = lineCount s"
proof -
  have k: "k < unat (sets c)" using assms(2,6) set_of_less by (simp add: geometry_def)
  have way: "lines c ! (ptrs c k ! j) = ways c k ! j" using ptrs_facts(2) [OF assms(2) k] assms(7) by (simp add: ways_def)
  note up = update_put_set [OF assms(2,6,7)]
  have rng: "\<not> (addr < mem_base s \<or> mem_end s < addr)" using assms(3,4) by auto
  have find: "findLinePrivate (cacheBank s) addr = Some (Some (ptrs c k ! j), put_set c (calcIndex4Tag c t) (to_front j (ptrs c k)))"
    using find_hit [OF assms(2,5,6,7,8)] assms(9) by (simp add: c_def)
  have ln: "lines (put_set c x y) = lines c" for x y by (simp add: put_set_def)
  show ?thesis
  proof (cases w)
    case True
    then show ?thesis
      unfolding LiveCache_access_def LiveCache_write_def if_P [OF True] if_not_P [OF rng] find Option.bind.simps prod.case Let_def option.case
      using way up ln by (simp add: set_order_def c_def)
  next
    case False
    then show ?thesis
      unfolding LiveCache_access_def LiveCache_read_def if_not_P [OF False] if_not_P [OF rng] find Option.bind.simps prod.case Let_def option.case
      using way up ln by (simp add: set_order_def c_def)
  qed
qed

lemma update_line_twice: "update_line l ln (update_line l ln' c) = update_line l ln c"
  by (simp add: update_line_def)

lemma access_miss:
  fixes s :: LiveCache
  defines "c \<equiv> cacheBank s"
  assumes "geometry c" "mem_base s \<le> addr" "addr \<le> mem_end s" "t = calcTag c addr" "k = set_of (sets c) t" "t \<noteq> 0"
    "\<And>i. i < 16 \<Longrightarrow> line_tag (ways c k ! i) \<noteq> t"
  shows "\<exists>s'. LiveCache_access w s addr = Some s' \<and>
     cacheBank s' = touch c k 15 ((ways c k ! 15)\<lparr>line_tag := t, line_order := maxOrder s, line_st := w\<rparr>) \<and>
     maxOrder s' = maxOrder s + 1 \<and> mem_base s' = mem_base s \<and> mem_end s' = mem_end s \<and> lineCount s' = lineCount s"
proof -
  have k: "k < unat (sets c)" using assms(2,6) set_of_less by (simp add: geometry_def)
  note P = ptrs_facts [OF assms(2) k]
  let ?p = "ptrs c k ! 15"
  have way: "lines c ! ?p = ways c k ! 15" using P(2) by (simp add: ways_def)
  have "?p \<in> set (ptrs c k)" using P(2) by simp
  then have in_lines: "?p < length (lines c)" using P(5) assms(2) by (auto simp: geometry_def)
  have rng: "\<not> (addr < mem_base s \<or> mem_end s < addr)" using assms(3,4) by auto
  have find: "findLinePrivate (cacheBank s) addr = Some (None, c)" using find_miss [OF assms(2,5,6)] assms(8) by (simp add: c_def)
  let ?c = "put_set c (calcIndex4Tag c t) (to_front 15 (ptrs c k))"
  have lnc: "lines ?c = lines c" "calcTag ?c addr = t" using assms(5) by (simp_all add: put_set_def calcTag_def)
  have fill: "fillLine c addr = Some (?p, update_line ?p ((ways c k ! 15)\<lparr>line_tag := t\<rparr>) ?c)"
  proof -
    have "findLine2Replace c addr = Some (?p, ?c)" using replace_miss [OF assms(2,5,6,7)] assms(8) by blast
    then show ?thesis by (simp add: fillLine_def lnc way setTag_def assms(7))
  qed
  have new: "lines (update_line ?p ln ?c) ! ?p = ln" for ln using in_lines lnc by (simp add: update_line_def)
  have up: "update_line ?p ln ?c = touch c k 15 ln" for ln by (rule update_put_set [OF assms(2,6)]) simp
  then have up2: "update_line ?p ln (touch c k 15 ln') = touch c k 15 ln" for ln ln' by (metis update_line_twice)
  show ?thesis
  proof (cases w)
    case True
    then show ?thesis
      unfolding LiveCache_access_def LiveCache_write_def if_P [OF True] if_not_P [OF rng] find Option.bind.simps prod.case Let_def option.case
        fill
      using new up up2 by (simp add: set_order_def c_def)
  next
    case False
    then show ?thesis
      unfolding LiveCache_access_def LiveCache_read_def if_not_P [OF False] if_not_P [OF rng] find Option.bind.simps prod.case Let_def option.case
        fill
      using new up up2 by (simp add: set_order_def c_def)
  qed
qed

section \<open>The history\<close>

text \<open>
  A history is the list of accesses, the latest first: whether it was a write, and the line.  \<open>cached\<close>
  are the lines of a set, \<open>written\<close> tells whether a line has been written since it came into the
  cache, \<open>last_access\<close> is the number of its last access.
\<close>

fun recency :: "(bool \<times> u64) list \<Rightarrow> u64 list" where
  "recency [] = []"
| "recency ((w, t) # h) = t # removeAll t (recency h)"

definition cached :: "u32 \<Rightarrow> nat \<Rightarrow> (bool \<times> u64) list \<Rightarrow> u64 list" where
  "cached n k h = take 16 (filter (\<lambda>t. set_of n t = k) (recency h))"

fun written :: "u32 \<Rightarrow> (bool \<times> u64) list \<Rightarrow> u64 \<Rightarrow> bool" where
  "written n [] t \<longleftrightarrow> False"
| "written n ((w, t') # h) t \<longleftrightarrow>
     (if t' = t then w \<or> (t \<in> set (cached n (set_of n t) h) \<and> written n h t) else written n h t)"

fun last_access :: "(bool \<times> u64) list \<Rightarrow> u64 \<Rightarrow> u64" where
  "last_access [] t = 0"
| "last_access ((w, t') # h) t = (if t' = t then of_nat (length h) else last_access h t)"

lemma recency_eq: "recency h = rev (remdups (map snd (rev h)))"
proof (induction h)
  case (Cons x h)
  have r: "remdups (xs @ [t]) = removeAll t (remdups xs) @ [t]" for xs and t :: u64
    by (induction xs) auto
  show ?case by (cases x) (simp add: Cons r removeAll_filter_not_eq rev_filter)
qed simp

lemma recency_set: "distinct (recency h)" "set (recency h) = snd ` set h"
  by (simp_all add: recency_eq)

definition entry :: "CacheLine \<Rightarrow> u64 \<times> bool \<times> u64" where
  "entry l = (line_tag l, line_st l, line_order l)"

definition entries :: "u32 \<Rightarrow> nat \<Rightarrow> (bool \<times> u64) list \<Rightarrow> (u64 \<times> bool \<times> u64) list" where
  "entries n k h = map (\<lambda>t. (t, written n h t, last_access h t)) (cached n k h)"

text \<open>A set holds the entries of its cached lines and lines that have never been used.\<close>

definition holds :: "CacheLine list \<Rightarrow> (u64 \<times> bool \<times> u64) list \<Rightarrow> bool" where
  "holds ws es \<longleftrightarrow> length ws = 16 \<and> length es \<le> 16 \<and> map entry (take (length es) ws) = es \<and>
     (\<forall>l \<in> set (drop (length es) ws). line_tag l = 0)"

definition follows :: "LiveCache \<Rightarrow> (bool \<times> u64) list \<Rightarrow> bool" where
  "follows s h \<longleftrightarrow> geometry (cacheBank s) \<and> (\<forall>x \<in> set h. snd x \<noteq> 0) \<and> maxOrder s = of_nat (length h) \<and>
     (\<forall>k < unat (sets (cacheBank s)). holds (ways (cacheBank s) k) (entries (sets (cacheBank s)) k h)) \<and>
     (\<forall>i. 16 * unat (sets (cacheBank s)) \<le> i \<and> i < length (content (cacheBank s)) \<longrightarrow>
        line_tag (lines (cacheBank s) ! (content (cacheBank s) ! i)) = 0)"

lemma cached_access:
  "cached n k ((w, t) # h) = (if set_of n t = k then t # take 15 (removeAll t (filter (\<lambda>t. set_of n t = k) (recency h))) else cached n k h)"
proof (cases "set_of n t = k")
  case True
  have "filter (\<lambda>t. set_of n t = k) (removeAll t r) = removeAll t (filter (\<lambda>t. set_of n t = k) r)" for r
    by (induction r) auto
  then show ?thesis using True by (simp add: cached_def)
next
  case False
  have "filter (\<lambda>t. set_of n t = k) (removeAll t r) = filter (\<lambda>t. set_of n t = k) r" for r
    using False by (induction r) auto
  then show ?thesis using False by (simp add: cached_def)
qed

text \<open>The lines of a set after an access to the line \<open>t\<close> of that set.\<close>

lemma take_removeAll:
  assumes "distinct r"
  shows "take 15 (removeAll t r) =
    (if t \<in> set (take 16 r) then removeAll t (take 16 r) else take 15 (take 16 r))"
proof (cases "t \<in> set (take 16 r)")
  case True
  then obtain j where j: "j < length (take 16 r)" "take 16 r ! j = t" by (metis in_set_conv_nth)
  then have j': "j < 16" "j < length r" "r ! j = t" by simp_all
  have split: "r = take j r @ t # drop (Suc j) r" using j'(2,3) id_take_nth_drop by metis
  have "distinct (take j r @ t # drop (Suc j) r)" using split assms by metis
  then have nin: "t \<notin> set (take j r)" "t \<notin> set (drop (Suc j) r)" by auto
  have rem: "removeAll t (xs @ t # ys) = xs @ ys" if "t \<notin> set xs" "t \<notin> set ys" for xs ys using that by simp
  have "removeAll t r = take j r @ drop (Suc j) r" using rem [OF nin] split by metis
  moreover have t16: "take 16 r = take j r @ t # take (15 - j) (drop (Suc j) r)"
  proof -
    have "take 16 (take j r @ t # drop (Suc j) r) = take j r @ t # take (15 - j) (drop (Suc j) r)"
      using j' by (simp add: min_def take_Cons')
    then show ?thesis using split by metis
  qed
  moreover have "removeAll t (take 16 r) = take j r @ take (15 - j) (drop (Suc j) r)"
    unfolding t16 by (rule rem [OF nin(1)]) (meson in_set_takeD nin(2))
  moreover have "take 15 (take j r @ drop (Suc j) r) = take j r @ take (15 - j) (drop (Suc j) r)"
    using j' by (simp add: min_absorb2)
  ultimately show ?thesis using True by simp
next
  case False
  have "take 15 (removeAll t r) = take 15 r"
  proof -
    have "r = take 16 r @ drop 16 r" by simp
    then have "removeAll t r = take 16 r @ removeAll t (drop 16 r)" using False by (metis removeAll_append removeAll_id)
    moreover have "take 15 (take 16 r @ removeAll t (drop 16 r)) = take 15 r"
    proof (cases "length r \<le> 15")
      case False
      then show ?thesis by simp
    qed simp
    ultimately show ?thesis by simp
  qed
  then show ?thesis using False by simp
qed


lemma cached_step:
  assumes "set_of n t = k"
  shows "cached n k ((w, t) # h) =
    t # (if t \<in> set (cached n k h) then removeAll t (cached n k h) else take 15 (cached n k h))"
proof -
  have "distinct (filter (\<lambda>t. set_of n t = k) (recency h))" by (simp add: recency_set)
  from take_removeAll [OF this] show ?thesis unfolding cached_access if_P [OF assms] by (simp add: cached_def)
qed

lemma cached_facts: "distinct (cached n k h)" "length (cached n k h) \<le> 16" "t \<in> set (cached n k h) \<Longrightarrow> t \<in> snd ` set h \<and> set_of n t = k"
proof -
  show "distinct (cached n k h)" by (simp add: cached_def recency_set distinct_take)
  show "length (cached n k h) \<le> 16" by (simp add: cached_def)
  assume "t \<in> set (cached n k h)"
  then have "t \<in> set (filter (\<lambda>t. set_of n t = k) (recency h))" unfolding cached_def by (rule in_set_takeD)
  then show "t \<in> snd ` set h \<and> set_of n t = k" by (simp add: recency_set)
qed

lemma entries_other:
  assumes "set_of n t \<noteq> k"
  shows "entries n k ((w, t) # h) = entries n k h"
proof -
  have "t' \<noteq> t" if "t' \<in> set (cached n k h)" for t' using cached_facts(3) [OF that] assms by blast
  then have "t \<notin> set (cached n k h)" by blast
  then show ?thesis using assms by (auto simp: entries_def cached_access)
qed

lemma entries_step:
  assumes "set_of n t = k"
  shows "entries n k ((w, t) # h) =
    (t, w \<or> (t \<in> set (cached n k h) \<and> written n h t), of_nat (length h)) #
      (if t \<in> set (cached n k h) then filter (\<lambda>e. fst e \<noteq> t) (entries n k h) else take 15 (entries n k h))"
proof -
  let ?e = "\<lambda>h t'. (t', written n h t', last_access h t')"
  have eq: "map (?e ((w, t) # h)) ts = map (?e h) ts" if "t \<notin> set ts" for ts using that by (induction ts) auto
  have r: "map (?e h) (removeAll t ts) = filter (\<lambda>e. fst e \<noteq> t) (map (?e h) ts)" for ts by (induction ts) auto
  show ?thesis
  proof (cases "t \<in> set (cached n k h)")
    case True
    have "map (?e ((w, t) # h)) (removeAll t (cached n k h)) = map (?e h) (removeAll t (cached n k h))"
      by (rule eq) simp
    then show ?thesis using True assms r by (simp add: entries_def cached_step)
  next
    case False
    then have "t \<notin> set (take 15 (cached n k h))" by (meson in_set_takeD)
    from eq [OF this] show ?thesis using False assms by (simp add: entries_def cached_step take_map)
  qed
qed

lemma holds_tag:
  assumes "holds ws es" "j < length es"
  shows "line_tag (ws ! j) = fst (es ! j)" "line_st (ws ! j) = fst (snd (es ! j))"
proof -
  have "entry (ws ! j) = es ! j" using assms nth_map [of j "take (length es) ws" entry] by (auto simp: holds_def)
  then have "es ! j = (line_tag (ws ! j), line_st (ws ! j), line_order (ws ! j))" by (simp add: entry_def)
  then show "line_tag (ws ! j) = fst (es ! j)" "line_st (ws ! j) = fst (snd (es ! j))" by simp_all
qed

lemma holds_unused: "holds ws es \<Longrightarrow> length es \<le> j \<Longrightarrow> j < 16 \<Longrightarrow> line_tag (ws ! j) = 0"
proof -
  assume h: "holds ws es" "length es \<le> j" "j < 16"
  have "length ws = 16" using h(1) by (simp add: holds_def)
  then have "drop (length es) ws ! (j - length es) \<in> set (drop (length es) ws)" using h(2,3) by (intro nth_mem) simp
  then have "ws ! j \<in> set (drop (length es) ws)" using h(2,3) \<open>length ws = 16\<close> by simp
  then show ?thesis using h(1) by (simp add: holds_def)
qed

lemma holds_hit:
  assumes "holds ws es" "j < length es" "distinct (map fst es)" "entry ln = e" "t = fst (es ! j)"
  shows "holds (ln # take j ws @ drop (Suc j) ws) (e # filter (\<lambda>x. fst x \<noteq> t) es)"
proof -
  have len: "length ws = 16" "length es \<le> 16" using assms(1) by (simp_all add: holds_def)
  have ne: "filter (\<lambda>x. fst x \<noteq> t) xs = xs" if "t \<notin> fst ` set xs" for xs :: "(u64 \<times> bool \<times> u64) list"
    using that by (induction xs) auto
  have split: "es = take j es @ es ! j # drop (Suc j) es" using assms(2) by (simp add: id_take_nth_drop)
  have "distinct (map fst (take j es @ es ! j # drop (Suc j) es))" using assms(3) split by metis
  then have "filter (\<lambda>x. fst x \<noteq> t) (take j es) = take j es" "filter (\<lambda>x. fst x \<noteq> t) (drop (Suc j) es) = drop (Suc j) es"
    using ne [of "take j es"] ne [of "drop (Suc j) es"] unfolding assms(5) by auto
  moreover have "filter (\<lambda>x. fst x \<noteq> t) (take j es @ es ! j # drop (Suc j) es) =
      filter (\<lambda>x. fst x \<noteq> t) (take j es) @ filter (\<lambda>x. fst x \<noteq> t) (drop (Suc j) es)" using assms(5) by simp
  ultimately have f: "filter (\<lambda>x. fst x \<noteq> t) es = take j es @ drop (Suc j) es" using split by metis
  have m: "map entry (take (length es) ws) = es" using assms(1) by (simp add: holds_def)
  have "take j (map entry (take (length es) ws)) = take j es" "drop (Suc j) (map entry (take (length es) ws)) = drop (Suc j) es" unfolding m by simp_all
  then have mm: "map entry (take j ws) = take j es" "map entry (take (length es - Suc j) (drop (Suc j) ws)) = drop (Suc j) es"
    using assms(2) by (simp_all add: take_map drop_map drop_take min_def)
  have "drop (length es - Suc j) (drop (Suc j) ws) = drop (length es) ws"
  proof -
    have e: "length es - Suc j + Suc j = length es" using assms(2) by simp
    show ?thesis unfolding drop_drop e by (rule refl)
  qed
  moreover have jl: "j < 16" "length (take j ws) = j" using assms(2) len by simp_all
  moreover have tk: "take (length es) (ln # take j ws @ drop (Suc j) ws) = ln # take j ws @ take (length es - Suc j) (drop (Suc j) ws)"
    and dr: "drop (length es) (ln # take j ws @ drop (Suc j) ws) = drop (length es - Suc j) (drop (Suc j) ws)"
    using assms(2) jl by (cases "length es"; simp)+
  moreover have le: "length (e # take j es @ drop (Suc j) es) = length es" using assms(2) by simp
  ultimately show ?thesis
    using assms(1,4) len mm unfolding holds_def f le tk dr by simp
qed

lemma holds_miss:
  assumes "holds ws es" "entry ln = e"
  shows "holds (ln # take 15 ws) (e # take 15 es)"
proof -
  have len: "length ws = 16" "length es \<le> 16" and m: "map entry (take (length es) ws) = es"
    and z: "\<forall>l \<in> set (drop (length es) ws). line_tag l = 0" using assms(1) by (simp_all add: holds_def)
  show ?thesis
  proof (cases "length es \<le> 15")
    case True
    have "set (drop (length es) (take 15 ws)) \<subseteq> set (drop (length es) ws)" by (metis drop_take set_take_subset)
    then show ?thesis using True assms(2) len m z by (auto simp: holds_def min_def)
  next
    case False
    then have "length es = 16" using len(2) by simp
    then have "map entry (take 15 ws) = take 15 es" using m len by (metis take_all take_map order_refl)
    then show ?thesis using \<open>length es = 16\<close> assms(2) len by (simp add: holds_def)
  qed
qed


text \<open>What an access leaves alone, and the pointers beyond the sets.\<close>

lemma touch_rest:
  assumes "geometry c" "k < unat (sets c)" "j < 16" "16 * unat (sets c) \<le> i" "i < length (content c)"
  shows "lines (touch c k j ln) ! (content (touch c k j ln) ! i) = lines c ! (content c ! i)"
proof -
  note P = ptrs_facts [OF assms(1,2)]
  have ik: "16 * k + 16 \<le> i" using assms(2,4) by linarith
  let ?a = "take (16 * k) (content c) @ to_front j (ptrs c k)"
  have la: "length ?a = 16 * k + 16" using P(1,2) assms(3) by (simp add: to_front_eq)
  have "(?a @ drop (16 * k + 16) (content c)) ! i = drop (16 * k + 16) (content c) ! (i - (16 * k + 16))"
  proof -
    have "(xs @ ys) ! i = ys ! (i - length xs)" if "length xs \<le> i" for xs ys :: "nat list" using that by (simp add: nth_append)
    from this [of ?a "drop (16 * k + 16) (content c)"] show ?thesis using ik unfolding la by blast
  qed
  then have c: "content (touch c k j ln) ! i = content c ! i" using P(1) ik by (simp add: touch_def)
  have "ptrs c k ! j = content c ! (16 * k + j)" using P(1) assms(3) by (simp add: ptrs_def)
  moreover have "content c ! (16 * k + j) \<noteq> content c ! i"
    using assms(1,3,5) ik by (subst nth_eq_iff_index_eq) (auto simp: geometry_def)
  ultimately show ?thesis unfolding c by (simp add: touch_def)
qed

lemma follows_facts:
  assumes "follows s h"
  shows "geometry (cacheBank s)" "\<forall>x \<in> set h. snd x \<noteq> 0" "maxOrder s = of_nat (length h)"
    "k < unat (sets (cacheBank s)) \<Longrightarrow> holds (ways (cacheBank s) k) (entries (sets (cacheBank s)) k h)"
    "16 * unat (sets (cacheBank s)) \<le> i \<Longrightarrow> i < length (content (cacheBank s)) \<Longrightarrow>
       line_tag (lines (cacheBank s) ! (content (cacheBank s) ! i)) = 0"
  using assms by (simp_all add: follows_def)

lemma follows_touch:
  fixes s :: LiveCache
  defines "c \<equiv> cacheBank s" and "n \<equiv> sets (cacheBank s)"
  assumes F: "follows s h" and k: "k = set_of n t" and "t \<noteq> 0"
    and s': "cacheBank s' = touch c k j ln" "j < 16" "maxOrder s' = maxOrder s + 1"
    and new: "holds (ln # take j (ways c k) @ drop (Suc j) (ways c k)) (entries n k ((w, t) # h))"
  shows "follows s' ((w, t) # h) \<and> sets (cacheBank s') = n \<and> numLines (cacheBank s') = numLines c"
proof -
  note F = follows_facts [OF F, folded c_def n_def]
  have kn: "k < unat n" using F(1) set_of_less unfolding k by (simp add: geometry_def n_def c_def)
  have kn': "k < unat (sets c)" using kn by (simp add: n_def c_def)
  have same: "sets (touch c k j ln) = n" "numLines (touch c k j ln) = numLines c" "length (content (touch c k j ln)) = length (content c)"
    using touch_geometry [OF F(1) kn' s'(2)] F(1) by (simp_all add: touch_def geometry_def n_def c_def)
  have "holds (ways (touch c k j ln) i) (entries n i ((w, t) # h))" if i: "i < unat n" for i
  proof -
    have i': "i < unat (sets c)" using i by (simp add: n_def c_def)
    show ?thesis
    proof (cases "i = k")
      case True
      then show ?thesis using ways_touch [OF F(1) kn' s'(2) i'] new by simp
    next
      case False
      then have "set_of n t \<noteq> i" by (simp add: k)
      then show ?thesis using False ways_touch [OF F(1) kn' s'(2) i'] entries_other F(4) [OF i] by simp
    qed
  qed
  moreover have "line_tag (lines (touch c k j ln) ! (content (touch c k j ln) ! i)) = 0"
    if "16 * unat n \<le> i" "i < length (content c)" for i
    using touch_rest [OF F(1) kn' s'(2)] that F(5) [OF that] by (simp add: n_def c_def)
  moreover have "geometry (touch c k j ln)" by (rule touch_geometry [OF F(1) kn' s'(2)])
  ultimately show ?thesis
    using F(2,3) same assms(5) unfolding follows_def s'(1,3) by (simp add: add.commute)
qed

lemma follows_hit:
  fixes s :: LiveCache
  defines "c \<equiv> cacheBank s" and "n \<equiv> sets (cacheBank s)"
  assumes F: "follows s h" and rng: "mem_base s \<le> addr" "addr \<le> mem_end s" and t: "t = calcTag c addr" "t \<noteq> 0"
    and k: "k = set_of n t" and cached: "t \<in> set (cached n k h)"
  shows "\<exists>s' j ln. LiveCache_access w s addr = Some s' \<and> cacheBank s' = touch c k j ln \<and> j < 16 \<and> maxOrder s' = maxOrder s + 1 \<and>
    holds (ln # take j (ways c k) @ drop (Suc j) (ways c k)) (entries n k ((w, t) # h)) \<and>
    mem_base s' = mem_base s \<and> mem_end s' = mem_end s \<and> lineCount s' = lineCount s"
proof -
  let ?es = "entries n k h"
  note F = follows_facts [OF F, folded c_def n_def]
  have kn: "k < unat n" using F(1) set_of_less unfolding k by (simp add: geometry_def n_def c_def)
  note H = F(4) [OF kn]
  have fst: "map fst ?es = cached n k h" by (simp add: entries_def o_def)
  obtain j where j: "j < length ?es" "fst (?es ! j) = t" using cached unfolding fst [symmetric] by (auto simp: in_set_conv_nth)
  have j16: "j < 16" using j(1) H by (simp add: holds_def)
  have d: "distinct (map fst ?es)" unfolding fst by (rule cached_facts)
  have tag: "line_tag (ways c k ! j) = t" using holds_tag(1) [OF H j(1)] j(2) by simp
  have before: "line_tag (ways c k ! i) \<noteq> t" if "i < j" for i
  proof -
    have "map fst ?es ! i \<noteq> map fst ?es ! j" using d that j(1) by (subst nth_eq_iff_index_eq) auto
    then show ?thesis using holds_tag(1) [OF H, of i] that j by simp
  qed
  let ?ln = "(ways c k ! j)\<lparr>line_order := maxOrder s, line_st := w \<or> line_st (ways c k ! j)\<rparr>"
  have k': "k = set_of (sets c) t" using k by (simp add: n_def c_def)
  obtain s' where s': "LiveCache_access w s addr = Some s'" "cacheBank s' = touch c k j ?ln" "maxOrder s' = maxOrder s + 1"
      "mem_base s' = mem_base s" "mem_end s' = mem_end s" "lineCount s' = lineCount s"
    using access_hit [of s addr t k j w, folded c_def, OF F(1) rng t(1) k' j16 tag before] by blast
  have "?es ! j = (t, written n h t, last_access h t)"
  proof -
    have "cached n k h ! j = t" using fst j by (metis nth_map)
    then show ?thesis using j(1) by (simp add: entries_def)
  qed
  then have "entry ?ln = (t, w \<or> written n h t, of_nat (length h))" using tag holds_tag(2) [OF H j(1)] F(3) by (simp add: entry_def)
  from holds_hit [OF H j(1) d this j(2) [symmetric]]
  have "holds (?ln # take j (ways c k) @ drop (Suc j) (ways c k)) (entries n k ((w, t) # h))"
    using cached entries_step [OF k [symmetric], of w h] by simp
  then show ?thesis using s' j16 by blast
qed

lemma follows_miss:
  fixes s :: LiveCache
  defines "c \<equiv> cacheBank s" and "n \<equiv> sets (cacheBank s)"
  assumes F: "follows s h" and rng: "mem_base s \<le> addr" "addr \<le> mem_end s" and t: "t = calcTag c addr" "t \<noteq> 0"
    and k: "k = set_of n t" and uncached: "t \<notin> set (cached n k h)"
  shows "\<exists>s' j ln. LiveCache_access w s addr = Some s' \<and> cacheBank s' = touch c k j ln \<and> j < 16 \<and> maxOrder s' = maxOrder s + 1 \<and>
    holds (ln # take j (ways c k) @ drop (Suc j) (ways c k)) (entries n k ((w, t) # h)) \<and>
    mem_base s' = mem_base s \<and> mem_end s' = mem_end s \<and> lineCount s' = lineCount s"
proof -
  let ?es = "entries n k h"
  note F = follows_facts [OF F, folded c_def n_def]
  have kn: "k < unat n" using F(1) set_of_less unfolding k by (simp add: geometry_def n_def c_def)
  note H = F(4) [OF kn]
  have fst: "map fst ?es = cached n k h" by (simp add: entries_def o_def)
  have none: "line_tag (ways c k ! i) \<noteq> t" if "i < 16" for i
  proof (cases "i < length ?es")
    case True
    then have "fst (?es ! i) \<in> set (cached n k h)" using fst by (metis length_map nth_map nth_mem)
    then show ?thesis using holds_tag(1) [OF H True] uncached by auto
  next
    case False
    then show ?thesis using holds_unused [OF H _ that] t(2) by simp
  qed
  let ?ln = "(ways c k ! 15)\<lparr>line_tag := t, line_order := maxOrder s, line_st := w\<rparr>"
  have k': "k = set_of (sets c) t" using k by (simp add: n_def c_def)
  obtain s' where s': "LiveCache_access w s addr = Some s'" "cacheBank s' = touch c k 15 ?ln" "maxOrder s' = maxOrder s + 1"
      "mem_base s' = mem_base s" "mem_end s' = mem_end s" "lineCount s' = lineCount s"
    using access_miss [of s addr t k w, folded c_def, OF F(1) rng t(1) k' t(2) none] by blast
  have "entry ?ln = (t, w, of_nat (length h))" using F(3) by (simp add: entry_def)
  from holds_miss [OF H this]
  have "holds (?ln # take 15 (ways c k) @ drop (Suc 15) (ways c k)) (entries n k ((w, t) # h))"
    using uncached entries_step [OF k [symmetric], of w h] H by (simp add: holds_def)
  then show ?thesis using s' by (intro exI [of _ s'] exI [of _ 15] exI [of _ ?ln]) simp
qed

lemma follows_step:
  assumes "follows s h" "mem_base s \<le> addr" "addr \<le> mem_end s" "calcTag (cacheBank s) addr \<noteq> 0"
  shows "\<exists>s'. LiveCache_access w s addr = Some s' \<and> follows s' ((w, calcTag (cacheBank s) addr) # h) \<and>
    sets (cacheBank s') = sets (cacheBank s) \<and> numLines (cacheBank s') = numLines (cacheBank s) \<and>
    mem_base s' = mem_base s \<and> mem_end s' = mem_end s \<and> lineCount s' = lineCount s"
proof -
  let ?t = "calcTag (cacheBank s) addr"
  let ?k = "set_of (sets (cacheBank s)) ?t"
  obtain s' j ln where s': "LiveCache_access w s addr = Some s'" "cacheBank s' = touch (cacheBank s) ?k j ln" "j < 16" "maxOrder s' = maxOrder s + 1"
      "holds (ln # take j (ways (cacheBank s) ?k) @ drop (Suc j) (ways (cacheBank s) ?k)) (entries (sets (cacheBank s)) ?k ((w, ?t) # h))"
      "mem_base s' = mem_base s" "mem_end s' = mem_end s" "lineCount s' = lineCount s"
    using follows_hit [OF assms(1-3) refl assms(4) refl, of w] follows_miss [OF assms(1-3) refl assms(4) refl, of w] by blast
  from follows_touch [OF assms(1) refl assms(4) s'(2-5)] s' show ?thesis by blast
qed

end
