(* ===== verification/LiveCache_Traverse.thy ===== *)
theory LiveCache_Traverse
  imports LiveCache_Lemmas
begin

text \<open>
  Runs of the cache from its creation on, and the traversal: the sort is a stable sort by the order of
  access, and what the traversal returns is a part of the history.
\<close>

section \<open>The sort\<close>

lemma mset_merge_lines [simp]: "mset (merge_lines as bs) = mset as + mset bs"
  by (induction as bs rule: merge_lines.induct) (auto simp: add_ac)

lemma set_merge_lines [simp]: "set (merge_lines as bs) = set as \<union> set bs"
  by (metis mset_merge_lines set_mset_mset set_mset_union)

lemma sorted_merge_lines:
  "sorted (map line_order as) \<Longrightarrow> sorted (map line_order bs) \<Longrightarrow> sorted (map line_order (merge_lines as bs))"
proof (induction as bs rule: merge_lines.induct)
  case (1 a as b bs)
  then show ?case by (cases "line_order a \<le> line_order b") auto
qed simp_all

lemma merge_lines_stable:
  "sorted (map line_order as) \<Longrightarrow>
   filter (\<lambda>l. line_order l = k) (merge_lines as bs) = filter (\<lambda>l. line_order l = k) as @ filter (\<lambda>l. line_order l = k) bs"
proof (induction as bs rule: merge_lines.induct)
  case (1 a as b bs)
  show ?case
  proof (cases "line_order a \<le> line_order b")
    case True
    then show ?thesis using 1 by simp
  next
    case False
    then have "filter (\<lambda>l. line_order l = k) (a # as) = []" if "line_order b = k"
      using that 1(3) by (auto simp: filter_empty_conv)
    then show ?thesis using False 1 by auto
  qed
qed simp_all

lemma mergeSort_facts:
  "mset (mergeSort arr) = mset arr \<and> sorted (map line_order (mergeSort arr)) \<and>
   (\<forall>k. filter (\<lambda>l. line_order l = k) (mergeSort arr) = filter (\<lambda>l. line_order l = k) arr)"
proof (induction arr rule: mergeSort.induct)
  case (1 arr)
  consider "length arr < 2" | "length arr = 2" | "2 < length arr" by linarith
  then show ?case
  proof cases
    case 1
    then have ms: "mergeSort arr = arr" by (subst mergeSort.simps) simp
    have "arr = [] \<or> (\<exists>a. arr = [a])" using 1 by (cases arr; cases "tl arr") auto
    then show ?thesis unfolding ms by auto
  next
    case 2
    then obtain a b where ab: "arr = [a, b]" by (cases arr; cases "tl arr") auto
    have ms: "mergeSort arr = (if line_order a > line_order b then [b, a] else [a, b])"
      by (subst mergeSort.simps) (simp add: ab)
    show ?thesis unfolding ms unfolding ab by auto
  next
    case 3
    let ?m = "length arr div 2"
    have ms: "mergeSort arr = merge_lines (mergeSort (take ?m arr)) (mergeSort (drop ?m arr))"
      using 3 by (subst mergeSort.simps) (simp add: Let_def)
    have n: "\<not> length arr < 2" "length arr \<noteq> 2" using 3 by simp_all
    note I = 1(1) [OF n refl] 1(2) [OF n refl]
    have "mset (take ?m arr) + mset (drop ?m arr) = mset arr" by (metis append_take_drop_id mset_append)
    moreover have "filter P (take ?m arr) @ filter P (drop ?m arr) = filter P arr" for P
      by (metis append_take_drop_id filter_append)
    ultimately show ?thesis unfolding ms using I by (simp add: sorted_merge_lines merge_lines_stable)
  qed
qed

lemma mergeSort_sorts: "mergeSort arr = sort_key line_order arr"
  using mergeSort_facts [of arr] by (intro properties_for_sort_key [symmetric]) (auto simp: eq_commute)

section \<open>Order and recency\<close>

text \<open>The number of the last access as a natural number.\<close>

fun last_nat :: "(bool \<times> u64) list \<Rightarrow> u64 \<Rightarrow> nat" where
  "last_nat [] t = 0"
| "last_nat ((w, t') # h) t = (if t' = t then length h else last_nat h t)"

lemma last_access_nat: "last_access h t = of_nat (last_nat h t)"
  by (induction h t rule: last_nat.induct) auto

lemma last_nat_less: "t \<in> snd ` set h \<Longrightarrow> last_nat h t < length h"
  by (induction h t rule: last_nat.induct) (auto intro: less_SucI)

lemma last_unat: "length h < 2 ^ 64 \<Longrightarrow> t \<in> snd ` set h \<Longrightarrow> unat (last_access h t) = last_nat h t"
  using last_nat_less [of t h] by (simp add: last_access_nat unat_of_nat)

lemma recency_sorted: "sorted_wrt (\<lambda>a b. last_nat h b < last_nat h a) (recency h)"
proof (induction h)
  case (Cons x h)
  obtain w t where x: "x = (w, t)" by (cases x)
  have "sorted_wrt (\<lambda>a b. last_nat h b < last_nat h a) (removeAll t (recency h))"
    using Cons by (simp add: removeAll_filter_not_eq sorted_wrt_filter)
  then have "sorted_wrt (\<lambda>a b. last_nat (x # h) b < last_nat (x # h) a) (removeAll t (recency h))"
    by (rule sorted_wrt_mono_rel [rotated]) (auto simp: x)
  moreover have "last_nat (x # h) b < length h" if "b \<in> set (removeAll t (recency h))" for b
    using that last_nat_less [of b h] by (auto simp: x recency_set)
  ultimately show ?case by (simp add: x)
qed simp

lemma last_nat_0:
  "t \<in> snd ` set h \<Longrightarrow> last_nat h t = 0 \<longleftrightarrow> t \<notin> snd ` set (butlast h)"
proof (induction h)
  case (Cons x h)
  show ?case
  proof (cases "h = []")
    case True
    then show ?thesis using Cons by (cases x) auto
  next
    case False
    then show ?thesis using Cons by (cases x) auto
  qed
qed simp

lemma remdups_tl: "remdups (tl xs) = filter (\<lambda>x. x \<in> set (tl xs)) (remdups xs)"
proof (cases xs)
  case (Cons x ys)
  have "filter (\<lambda>x. x \<in> set ys) (remdups ys) = remdups ys" by (simp add: filter_id_conv)
  then show ?thesis by (simp add: Cons)
qed simp

text \<open>The lines accessed after the first access, in the order of their last access.\<close>

lemma reaccessed:
  "remdups (tl (map snd (rev h))) = filter (\<lambda>t. last_nat h t \<noteq> 0) (rev (recency h))"
proof -
  have "set (tl (map snd (rev h))) = snd ` set (butlast h)" by (cases h rule: rev_cases) simp_all
  moreover have "rev (recency h) = remdups (map snd (rev h))" by (simp add: recency_eq)
  ultimately have "remdups (tl (map snd (rev h))) = filter (\<lambda>t. t \<in> snd ` set (butlast h)) (rev (recency h))"
    using remdups_tl by metis
  also have "\<dots> = filter (\<lambda>t. last_nat h t \<noteq> 0) (rev (recency h))"
    by (rule filter_cong [OF refl]) (use last_nat_0 in \<open>auto simp: recency_set\<close>)
  finally show ?thesis .
qed

section \<open>The lines in use\<close>

lemma take_blocks: "take (16 * m) xs = concat (map (\<lambda>k. take 16 (drop (16 * k) xs)) [0..<m])"
proof (induction m)
  case (Suc m)
  have "take (16 * Suc m) xs = take (16 * m + 16) xs" by (simp add: add.commute)
  also have "\<dots> = take (16 * m) xs @ take 16 (drop (16 * m) xs)" by (rule take_add)
  finally show ?case using Suc by simp
qed simp

lemma holds_filter:
  assumes "holds ws (map (\<lambda>t. (t, f t)) ts)" "\<forall>t \<in> set ts. t \<noteq> 0"
  shows "map entry (filter (\<lambda>l. line_tag l \<noteq> 0) ws) = map (\<lambda>t. (t, f t)) ts"
proof -
  let ?n = "length ts" and ?P = "\<lambda>l. line_tag l \<noteq> 0"
  have m: "map entry (take ?n ws) = map (\<lambda>t. (t, f t)) ts" and z: "\<forall>l \<in> set (drop ?n ws). line_tag l = 0"
    using assms(1) by (simp_all add: holds_def)
  have "fst (entry l) \<in> set ts" if "l \<in> set (take ?n ws)" for l
  proof -
    have "entry l \<in> set (map entry (take ?n ws))" using that by simp
    then show ?thesis unfolding m by auto
  qed
  then have "filter ?P (take ?n ws) = take ?n ws" using assms(2) by (auto simp: filter_id_conv entry_def)
  moreover have "filter ?P (drop ?n ws) = []" using z by (simp add: filter_empty_conv)
  moreover have "filter ?P ws = filter ?P (take ?n ws) @ filter ?P (drop ?n ws)" by (metis append_take_drop_id filter_append)
  ultimately show ?thesis using m by simp
qed

text \<open>All lines that are in the cache, set by set.\<close>

definition all_cached :: "u32 \<Rightarrow> (bool \<times> u64) list \<Rightarrow> u64 list" where
  "all_cached n h = concat (map (\<lambda>k. cached n k h) [0..<unat n])"

lemma all_cached_facts:
  "distinct (all_cached n h)" "0 < n \<Longrightarrow> set (all_cached n h) = {t \<in> snd ` set h. t \<in> set (cached n (set_of n t) h)}"
proof -
  let ?c = "\<lambda>m. concat (map (\<lambda>k. cached n k h) [0..<m])"
  have sets: "t \<in> set (?c m) \<longleftrightarrow> set_of n t < m \<and> t \<in> set (cached n (set_of n t) h)" for t m
    using cached_facts(3) by (induction m) (auto simp: less_Suc_eq)
  have "distinct (?c m)" for m
  proof (induction m)
    case (Suc m)
    have "set (?c m) \<inter> set (cached n m h) = {}" using sets cached_facts(3) by fastforce
    then show ?case using Suc cached_facts(1) by simp
  qed simp
  then show "distinct (all_cached n h)" by (simp add: all_cached_def)
  assume "0 < n"
  then show "set (all_cached n h) = {t \<in> snd ` set h. t \<in> set (cached n (set_of n t) h)}"
    using sets cached_facts(3) set_of_less unfolding all_cached_def by blast
qed

lemma valid_lines:
  fixes s :: LiveCache
  defines "c \<equiv> cacheBank s" and "n \<equiv> sets (cacheBank s)"
  assumes F: "follows s h" and "lineCount s = ucast (numLines c)"
  shows "map entry (filter (\<lambda>l. line_tag l \<noteq> 0) (map (\<lambda>i. lines c ! (content c ! i)) [0..<unat (lineCount s)])) =
    map (\<lambda>t. (t, written n h t, last_access h t)) (all_cached n h)"
proof -
  let ?P = "\<lambda>l. line_tag l \<noteq> 0" and ?g = "(!) (lines c)" and ?m = "unat n"
  note F = follows_facts [OF F, folded c_def n_def]
  have len: "length (content c) = unat (numLines c)" "unat (numLines c) < 2 ^ 31" "16 * ?m \<le> unat (numLines c)"
    using F(1) by (simp_all add: geometry_def n_def c_def)
  then have "unat (lineCount s) = length (content c)" unfolding assms(4) by (simp add: unsigned_ucast_eq take_bit_nat_eq_self)
  then have all: "map (\<lambda>i. ?g (content c ! i)) [0..<unat (lineCount s)] = map ?g (content c)"
    by (intro nth_equalityI) simp_all
  have blocks: "map ?g (take (16 * ?m) (content c)) = concat (map (ways c) [0..<?m])"
  proof -
    have "ways c = (\<lambda>k. map ?g (take 16 (drop (16 * k) (content c))))" by (rule ext) (simp add: ways_def ptrs_def)
    then show ?thesis unfolding take_blocks by (simp add: map_concat o_def)
  qed
  have rest: "filter ?P (map ?g (drop (16 * ?m) (content c))) = []"
  proof -
    have "line_tag (?g x) = 0" if x: "x \<in> set (drop (16 * ?m) (content c))" for x
    proof -
      obtain i where "i < length (drop (16 * ?m) (content c))" "x = drop (16 * ?m) (content c) ! i" using x by (metis in_set_conv_nth)
      then show ?thesis using F(5) [of "16 * ?m + i"] len by simp
    qed
    then show ?thesis by (auto simp: filter_empty_conv)
  qed
  have "filter ?P (map ?g (content c)) = filter ?P (map ?g (take (16 * ?m) (content c))) @ filter ?P (map ?g (drop (16 * ?m) (content c)))"
    by (metis append_take_drop_id filter_append map_append)
  also have "\<dots> = concat (map (\<lambda>k. filter ?P (ways c k)) [0..<?m])"
    unfolding rest blocks by (simp add: filter_concat o_def)
  finally have f: "filter ?P (map ?g (content c)) = concat (map (\<lambda>k. filter ?P (ways c k)) [0..<?m])" .
  have "map entry (filter ?P (ways c k)) = map (\<lambda>t. (t, written n h t, last_access h t)) (cached n k h)" if "k < ?m" for k
  proof (rule holds_filter)
    show "holds (ways c k) (map (\<lambda>t. (t, written n h t, last_access h t)) (cached n k h))" using F(4) [OF that] by (simp add: entries_def)
    show "\<forall>t \<in> set (cached n k h). t \<noteq> 0" using F(2) cached_facts(3) [of _ n k h] by force
  qed
  then have "map entry (concat (map (\<lambda>k. filter ?P (ways c k)) [0..<?m])) =
      concat (map (\<lambda>k. map (\<lambda>t. (t, written n h t, last_access h t)) (cached n k h)) [0..<?m])"
    unfolding map_concat map_map o_def by (intro arg_cong [where f = concat] map_cong refl) simp
  then show ?thesis unfolding all f by (simp add: all_cached_def map_concat o_def)
qed

text \<open>Lists sorted by distinct keys are determined by their elements.\<close>

lemma sorted_keys_unique:
  fixes f :: "'a \<Rightarrow> 'b::linorder"
  assumes "sorted (map f xs)" "distinct (map f xs)" "sorted (map f ys)" "distinct (map f ys)" "set xs = set ys"
  shows "xs = ys"
proof -
  have "inj_on f (set xs \<union> set ys)" using assms(2,5) by (simp add: distinct_map)
  then show ?thesis using map_sorted_distinct_set_unique [of f xs ys] assms by simp
qed

lemma line_addrs_map:
  assumes "log2AddrLs c = 6"
  shows "line_addrs c ls =
    Some (map (\<lambda>(t, w, n). push_bit 6 t OR b2w w) (map entry (filter (\<lambda>l. line_tag l \<noteq> 0) ls)))"
proof (induction ls)
  case (Cons l ls)
  have "push_bit 6 t AND 1 = 0" for t :: u64 by (rule bit_word_eqI) (auto simp: bit_simps)
  then show ?case using Cons assms by (cases "line_st l") (simp_all add: calcAddr4Tag_def entry_def or.commute Let_def)
qed simp

definition expected_traverse :: "u32 \<Rightarrow> (bool \<times> u64) list \<Rightarrow> u64 list" where
  "expected_traverse n h =
     map (\<lambda>t. push_bit 6 t OR b2w (written n h t))
       (filter (\<lambda>t. t \<in> set (cached n (set_of n t) h)) (remdups (tl (map snd (rev h)))))"

lemma traverse_follows:
  fixes s :: LiveCache
  defines "c \<equiv> cacheBank s" and "n \<equiv> sets (cacheBank s)"
  assumes F: "follows s h" and lc: "lineCount s = ucast (numLines c)" and short: "length h < 2 ^ 64"
  shows "LiveCache_traverse s = Some (expected_traverse n h)"
proof -
  let ?all = "map (\<lambda>i. lines c ! (content c ! i)) [0..<unat (lineCount s)]"
  let ?e = "\<lambda>t. (t, written n h t, last_access h t)" and ?key = "\<lambda>e :: u64 \<times> bool \<times> u64. snd (snd e)"
  let ?V = "filter (\<lambda>l. line_order l \<noteq> 0) (filter (\<lambda>l. line_tag l \<noteq> 0) ?all)"
  let ?T = "filter (\<lambda>t. t \<in> set (cached n (set_of n t) h)) (remdups (tl (map snd (rev h))))"
  have geo: "geometry c" using F by (simp add: follows_def c_def)
  then have n0: "0 < n" by (simp add: geometry_def n_def c_def)
  have ord: "line_order l = ?key (entry l)" for l by (simp add: entry_def)
  have V: "map entry ?V = map ?e (filter (\<lambda>t. last_access h t \<noteq> 0) (all_cached n h))"
  proof -
    have fe: "map entry (filter (\<lambda>l. line_order l \<noteq> 0) ls) = filter (\<lambda>e. ?key e \<noteq> 0) (map entry ls)" for ls
      by (induction ls) (simp_all add: entry_def)
    have v: "map entry (filter (\<lambda>l. line_tag l \<noteq> 0) ?all) = map ?e (all_cached n h)"
      unfolding c_def n_def by (rule valid_lines [OF F lc [unfolded c_def]])
    show ?thesis unfolding fe v by (simp add: filter_map o_def)
  qed
  have in_h: "t \<in> snd ` set h" if "t \<in> set (all_cached n h)" for t using that all_cached_facts(2) [OF n0] by blast
  have inj: "inj_on (last_access h) (snd ` set h)"
  proof (rule inj_onI)
    fix a b assume ab: "a \<in> snd ` set h" "b \<in> snd ` set h" "last_access h a = last_access h b"
    then have eq: "last_nat h a = last_nat h b" using last_unat [OF short] by metis
    have inj_nat: "a \<in> snd ` set h \<Longrightarrow> b \<in> snd ` set h \<Longrightarrow> last_nat h a = last_nat h b \<Longrightarrow> a = b"
    proof (induction h)
      case (Cons x h)
      then show ?case using last_nat_less [of a h] last_nat_less [of b h] by (cases x) (auto split: if_splits)
    qed simp
    then show "a = b" using ab eq by blast
  qed
  let ?S = "sort_key line_order ?V"
  have keys: "map ?key (map entry ls) = map line_order ls" for ls by (simp add: ord)
  have dV: "distinct (map line_order ?V)"
  proof -
    have "distinct (map (last_access h) (filter (\<lambda>t. last_access h t \<noteq> 0) (all_cached n h)))"
      using all_cached_facts(1) in_h by (auto simp: distinct_map intro: inj_on_subset [OF inj])
    moreover have "map line_order ?V = map (last_access h) (filter (\<lambda>t. last_access h t \<noteq> 0) (all_cached n h))"
      unfolding keys [symmetric] V by (simp add: o_def)
    ultimately show ?thesis by simp
  qed
  have "map entry ?S = map ?e ?T"
  proof (rule sorted_keys_unique [of ?key])
    show "sorted (map ?key (map entry ?S))" unfolding keys by simp
    have "mset (map line_order ?S) = mset (map line_order ?V)" by (simp del: filter_filter)
    then show "distinct (map ?key (map entry ?S))" unfolding keys using dV mset_eq_imp_distinct_iff by metis
    have T: "?T = filter (\<lambda>t. t \<in> set (cached n (set_of n t) h)) (filter (\<lambda>t. last_nat h t \<noteq> 0) (rev (recency h)))"
      unfolding reaccessed by (rule refl)
    have Th: "set ?T \<subseteq> snd ` set h" unfolding T by (auto simp: recency_set)
    have "sorted_wrt (\<lambda>a b. last_nat h a < last_nat h b) (rev (recency h))" using recency_sorted by (simp add: sorted_wrt_rev)
    then have w: "sorted_wrt (\<lambda>a b. last_nat h a < last_nat h b) ?T" unfolding T by (intro sorted_wrt_filter)
    have "sorted_wrt (\<lambda>a b. last_access h a \<le> last_access h b) ?T"
    proof (rule sorted_wrt_mono_rel [OF _ w])
      fix x y assume "x \<in> set ?T" "y \<in> set ?T" "last_nat h x < last_nat h y"
      then show "last_access h x \<le> last_access h y"
        using last_unat [OF short subsetD [OF Th]] unfolding word_le_nat_alt by simp
    qed
    then show "sorted (map ?key (map ?e ?T))" by (simp add: sorted_map o_def)
    have "distinct ?T" by simp
    then show "distinct (map ?key (map ?e ?T))" using inj_on_subset [OF inj Th] by (simp add: o_def distinct_map)
    have "set ?T = {t \<in> set (all_cached n h). last_access h t \<noteq> 0}"
    proof -
      have "last_access h t \<noteq> 0 \<longleftrightarrow> last_nat h t \<noteq> 0" if "t \<in> snd ` set h" for t
        using last_unat [OF short that] by (metis unat_eq_0)
      then show ?thesis unfolding T all_cached_facts(2) [OF n0] by (auto simp: recency_set)
    qed
    moreover have "set ?S = set ?V" by (simp del: filter_filter)
    ultimately show "set (map entry ?S) = set (map ?e ?T)"
    proof -
      assume S: "set ?S = set ?V" and T: "set ?T = {t \<in> set (all_cached n h). last_access h t \<noteq> 0}"
      have "set (map entry ?S) = set (map entry ?V)" unfolding set_map S by (rule refl)
      also have "\<dots> = set (map ?e (filter (\<lambda>t. last_access h t \<noteq> 0) (all_cached n h)))" unfolding V by (rule refl)
      also have "\<dots> = set (map ?e ?T)" unfolding set_map T by simp
      finally show ?thesis .
    qed
  qed
  moreover have "filter (\<lambda>l. line_tag l \<noteq> 0) (mergeSort (used_lines s)) = ?S"
    unfolding mergeSort_sorts used_lines_def Let_def c_def filter_sort by (simp add: conj_commute)
  moreover have "log2AddrLs c = 6" using geo by (simp add: geometry_def)
  ultimately show ?thesis
    using line_addrs_map [of c "mergeSort (used_lines s)"]
    by (simp add: LiveCache_traverse_def expected_traverse_def c_def o_def)
qed

end
