(* ===== verification/LiveCache_Props.thy ===== *)
theory LiveCache_Props
  imports LiveCache_Traverse
begin

text \<open>
  Properties of the cache beside memory: it holds the lines last used, and the traversal lists them in
  the order of their last use.
\<close>

fun LiveCache_run :: "(bool \<times> u64) list \<Rightarrow> LiveCache \<Rightarrow> LiveCache option" where
  "LiveCache_run [] s = Some s"
| "LiveCache_run ((w, addr) # ops) s = Option.bind (LiveCache_access w s addr) (LiveCache_run ops)"

text \<open>The accesses that are tracked, with the numbers of their lines, in order.\<close>

definition tracked :: "u64 \<Rightarrow> u64 \<Rightarrow> (bool \<times> u64) list \<Rightarrow> (bool \<times> u64) list" where
  "tracked base msize ops =
     map (\<lambda>(w, a). (w, drop_bit 6 a)) (filter (\<lambda>(w, a). base \<le> a \<and> a \<le> base + msize) ops)"

text \<open>The number of sets.\<close>

definition cache_sets :: "u32 \<Rightarrow> u32" where
  "cache_sets sz = sz div 64 div 16"

lemma log2i_16: "log2i 16 = Some 4"
proof -
  obtain k where k: "log2i 16 = Some (of_nat k)" "k < 32" "16 \<le> (2 :: nat) ^ k" "k = 0 \<or> (2 :: nat) ^ (k - 1) < 16"
    by (rule log2i_ceiling [of 16]) simp_all
  have "\<not> k < 4"
  proof
    assume "k < 4"
    then have "(2 :: nat) ^ k \<le> 2 ^ 3" by (intro power_increasing) simp_all
    then show False using k(3) by simp
  qed
  moreover have "\<not> 4 < k"
  proof
    assume "4 < k"
    then have "(2 :: nat) ^ 4 \<le> 2 ^ (k - 1)" by (intro power_increasing) simp_all
    then show False using k(4) \<open>4 < k\<close> by simp
  qed
  ultimately have "k = 4" by simp
  then show ?thesis using k(1) by simp
qed

lemma log2i_64: "log2i 64 = Some 6"
proof -
  obtain k where k: "log2i 64 = Some (of_nat k)" "k < 32" "64 \<le> (2 :: nat) ^ k" "k = 0 \<or> (2 :: nat) ^ (k - 1) < 64"
    by (rule log2i_ceiling [of 64]) simp_all
  have "\<not> k < 6"
  proof
    assume "k < 6"
    then have "(2 :: nat) ^ k \<le> 2 ^ 5" by (intro power_increasing) simp_all
    then show False using k(3) by simp
  qed
  moreover have "\<not> 6 < k"
  proof
    assume "6 < k"
    then have "(2 :: nat) ^ 6 \<le> 2 ^ (k - 1)" by (intro power_increasing) simp_all
    then show False using k(4) \<open>6 < k\<close> by simp
  qed
  ultimately have "k = 6" by simp
  then show ?thesis using k(1) by simp
qed

lemma new_follows:
  assumes "1088 \<le> sz"
  shows "\<exists>s. LiveCache_new fresh sz base msize = Some s \<and> follows s [] \<and> sets (cacheBank s) = cache_sets sz \<and>
    lineCount s = ucast (numLines (cacheBank s)) \<and> mem_base s = base \<and> mem_end s = base + msize"
proof -
  let ?n = "sz div 64" and ?st = "sz div 64 div 16"
  have n: "unat ?n = unat sz div 64" "unat ?st = unat sz div 64 div 16" by (simp_all add: unat_div)
  have sz: "1088 \<le> unat sz" "unat sz < 4294967296" using assms unsigned_less [of sz] by (simp_all add: word_le_nat_alt)
  have bounds: "17 \<le> unat ?n" "unat ?n < 67108864" "1 \<le> unat ?st" "unat ?st < 4194304"
    using sz unfolding n by linarith+
  have st: "0 < ?st" "unat ?st \<le> 2 ^ 31" using bounds(3,4) by (simp_all add: word_less_nat_alt)
  obtain k where k: "log2i ?st = Some (of_nat k)" by (rule log2i_ceiling [OF st])
  have "sint ?n = int (unat ?n)"
  proof -
    have "int (unat ?n) < int 67108864" using bounds(2) by (simp only: of_nat_less_iff)
    then have "uint ?n < 2 ^ 31" by simp
    moreover have "- (2 ^ 31) \<le> uint ?n" by (rule order_trans [OF _ uint_ge_0]) simp
    ultimately show ?thesis unfolding sint_uint by (simp add: signed_take_bit_int_eq_self)
  qed
  moreover have "int 17 \<le> int (unat ?n)" using bounds(1) by (simp only: of_nat_le_iff)
  ultimately have "\<not> sint ?n \<le> sint (16 :: u32)" by simp
  moreover have "?n \<noteq> 0" using bounds(1) by (metis not_numeral_le_zero unat_0)
  ultimately obtain c where c: "Cache_create fresh sz 16 64 LRU False = Some c" "kind c = CacheAssoc LRU" "assoc c = 16" "log2Assoc c = 4"
      "log2AddrLs c = 6" "\<not> xorIndex c" "maskSets c = ?st - 1" "sets c = ?st" "numLines c = ?n" "lineSize c = 64"
      "lines c = map (\<lambda>i. new_line (fresh i)) [0..<unat ?n]" "content c = [0..<unat ?n]"
    using k by (simp add: Cache_create_def CacheGeneric_new_def Let_def log2i_16 log2i_64)
  have geo: "geometry c" using c bounds n by (auto simp: geometry_def word_less_nat_alt)
  have tag0: "line_tag (lines c ! i) = 0" if "i < unat ?n" for i
    using that c(11) by (simp add: new_line_def clearTag_def invalidate_def)
  have "holds (ways c i) []" if i: "i < unat ?st" for i
  proof -
    have i': "i < unat (sets c)" using i c(8) by simp
    have "line_tag l = 0" if "l \<in> set (ways c i)" for l
    proof -
      obtain p where "p \<in> set (ptrs c i)" "l = lines c ! p" using \<open>l \<in> set (ways c i)\<close> by (auto simp: ways_def)
      then show ?thesis using ptrs_facts(5) [OF geo i'] tag0 c(9) by auto
    qed
    then show ?thesis using ptrs_facts(3) [OF geo i'] by (simp add: holds_def)
  qed
  then have F: "follows (s\<lparr>cacheBank := c, maxOrder := 0\<rparr>) []" for s
    using geo tag0 c by (simp add: follows_def entries_def cached_def)
  have "sint (64 :: u32) < 4096" by simp
  then show ?thesis
    using c(1,8,9,10) log2i_64 F [of "\<lparr>cacheBank = c, lc_lineSize = lineSize c, lineSizeBits = 6, lineCount = ucast (numLines c), maxOrder = 0,
        mem_base = base, mem_end = base + msize, nReadHit = 0, nReadMiss = 0, nWriteHit = 0, nWriteMiss = 0\<rparr>"]
    by (simp add: LiveCache_new_def cache_sets_def)
qed

lemma run_follows:
  assumes "follows s h" "64 \<le> mem_base s"
  shows "\<exists>s'. LiveCache_run ops s = Some s' \<and> follows s' (rev (tracked (mem_base s) (mem_end s - mem_base s) ops) @ h) \<and>
    sets (cacheBank s') = sets (cacheBank s) \<and> numLines (cacheBank s') = numLines (cacheBank s) \<and> lineCount s' = lineCount s"
  using assms
proof (induction ops arbitrary: s h)
  case Nil
  then show ?case by (simp add: tracked_def)
next
  case (Cons x ops)
  obtain w addr where x: "x = (w, addr)" by (cases x)
  show ?case
  proof (cases "mem_base s \<le> addr \<and> addr \<le> mem_end s")
    case True
    have t: "calcTag (cacheBank s) addr = drop_bit 6 addr" using Cons.prems(1) by (simp add: calcTag_def follows_def geometry_def)
    have "64 \<le> unat addr" using True Cons.prems(2) by (simp add: word_le_nat_alt)
    moreover have "unat (drop_bit 6 addr) = unat addr div 64" by (simp add: drop_bit_eq_div unat_div)
    ultimately have "unat (drop_bit 6 addr) \<noteq> 0" by (simp add: div_eq_0_iff)
    then have "calcTag (cacheBank s) addr \<noteq> 0" unfolding t by (metis unat_0)
    then obtain s' where s': "LiveCache_access w s addr = Some s'" "follows s' ((w, drop_bit 6 addr) # h)"
        "sets (cacheBank s') = sets (cacheBank s)" "numLines (cacheBank s') = numLines (cacheBank s)" "mem_base s' = mem_base s"
        "mem_end s' = mem_end s" "lineCount s' = lineCount s"
      using follows_step [OF Cons.prems(1) conjunct1 [OF True] conjunct2 [OF True], of w] t by auto
    have "64 \<le> mem_base s'" using Cons.prems(2) s'(5) by simp
    from Cons.IH [OF s'(2) this] show ?thesis using s' True x by (auto simp: tracked_def)
  next
    case False
    then have "LiveCache_access w s addr = Some s" by (auto simp: LiveCache_access_def LiveCache_read_def LiveCache_write_def)
    moreover have "tracked (mem_base s) (mem_end s - mem_base s) (x # ops) = tracked (mem_base s) (mem_end s - mem_base s) ops"
      using False x by (auto simp: tracked_def)
    ultimately show ?thesis using Cons x by simp
  qed
qed

lemma cached_recent:
  "cached n k (rev xs) = take 16 (rev (remdups (filter (\<lambda>t. set_of n t = k) (map snd xs))))"
  by (simp add: cached_def recency_eq rev_filter remdups_filter)

lemma cache_run:
  assumes "1088 \<le> sz" "64 \<le> base"
  obtains s0 s where "LiveCache_new fresh sz base msize = Some s0" "LiveCache_run ops s0 = Some s"
    "follows s (rev (tracked base msize ops))" "sets (cacheBank s) = cache_sets sz" "lineCount s = ucast (numLines (cacheBank s))"
proof -
  obtain s0 where s0: "LiveCache_new fresh sz base msize = Some s0" "follows s0 []" "sets (cacheBank s0) = cache_sets sz"
      "lineCount s0 = ucast (numLines (cacheBank s0))" "mem_base s0 = base" "mem_end s0 = base + msize"
    using new_follows [OF assms(1)] by blast
  have "64 \<le> mem_base s0" using s0(5) assms(2) by simp
  from run_follows [OF s0(2) this, of ops] show thesis using that s0 by auto
qed

text \<open>
  C24. The cache implements replacement of the least recently used line: after any sequence of
  reads and writes none of which fails, each set holds exactly the last sixteen different lines of that set
  that were accessed, the latest first, whatever the uninitialised fields of the lines contained.
\<close>

theorem live_cache_lru:
  assumes "1088 \<le> sz" "64 \<le> base"
  shows "\<exists>s0 s. LiveCache_new fresh sz base msize = Some s0 \<and> LiveCache_run ops s0 = Some s \<and>
    (\<forall>k < unat (cache_sets sz).
       filter (\<lambda>t. t \<noteq> 0) (map line_tag (ways (cacheBank s) k)) =
       take 16 (rev (remdups (filter (\<lambda>t. set_of (cache_sets sz) t = k) (map snd (tracked base msize ops))))))"
proof -
  let ?h = "rev (tracked base msize ops)" and ?n = "cache_sets sz"
  obtain s0 s where s: "LiveCache_new fresh sz base msize = Some s0" "LiveCache_run ops s0 = Some s" "follows s ?h"
      "sets (cacheBank s) = ?n"
    by (rule cache_run [OF assms])
  have "filter (\<lambda>t. t \<noteq> 0) (map line_tag (ways (cacheBank s) k)) = cached ?n k ?h" if "k < unat ?n" for k
  proof -
    have "map entry (filter (\<lambda>l. line_tag l \<noteq> 0) (ways (cacheBank s) k)) =
        map (\<lambda>t. (t, written ?n ?h t, last_access ?h t)) (cached ?n k ?h)"
    proof (rule holds_filter)
      show "holds (ways (cacheBank s) k) (map (\<lambda>t. (t, written ?n ?h t, last_access ?h t)) (cached ?n k ?h))"
        using s(3,4) that by (simp add: follows_def entries_def)
      show "\<forall>t \<in> set (cached ?n k ?h). t \<noteq> 0" using s(3) cached_facts(3) [of _ ?n k ?h] by (force simp: follows_def)
    qed
    from arg_cong [OF this, of "map fst"] show ?thesis by (simp add: o_def entry_def filter_map)
  qed
  then show ?thesis using s(1,2) unfolding cached_recent by blast
qed

text \<open>
  The traversal lists the lines in the cache in the order of their last access, each with a flag
  that tells whether it has been written since it came into the cache.  The line of the very first
  access is left out unless it has been accessed again: its order number is 0, which stands for
  an unused line.
\<close>

theorem live_cache_traverse:
  assumes "1088 \<le> sz" "64 \<le> base" "length ops < 2 ^ 64"
  shows "\<exists>s0 s. LiveCache_new fresh sz base msize = Some s0 \<and> LiveCache_run ops s0 = Some s \<and>
    (let xs = tracked base msize ops; n = cache_sets sz; lns = map snd xs
     in LiveCache_traverse s =
        Some (map (\<lambda>t. push_bit 6 t OR b2w (written n (rev xs) t))
          (filter (\<lambda>t. t \<in> set (take 16 (rev (remdups (filter (\<lambda>u. set_of n u = set_of n t) lns))))) (remdups (tl lns)))))"
proof -
  obtain s0 s where s: "LiveCache_new fresh sz base msize = Some s0" "LiveCache_run ops s0 = Some s"
      "follows s (rev (tracked base msize ops))" "sets (cacheBank s) = cache_sets sz" "lineCount s = ucast (numLines (cacheBank s))"
    by (rule cache_run [OF assms(1,2)])
  have "length (rev (tracked base msize ops)) < 2 ^ 64"
    unfolding tracked_def length_rev length_map by (rule le_less_trans [OF length_filter_le assms(3)])
  from traverse_follows [OF s(3,5) this] show ?thesis
    using s(1,2) unfolding s(4) expected_traverse_def cached_recent rev_rev_ident Let_def by blast
qed

section \<open>An example\<close>

text \<open>A cache of one set; the first line is read twice, with a write to the next one in between.\<close>

definition example_accesses :: "(bool \<times> u64) list" where
  "example_accesses = [(False, 0x80000008), (True, 0x80000040), (False, 0x100), (False, 0x80000010)]"

lemma example_tracked:
  "tracked 0x80000000 0x10000 example_accesses = [(False, 0x2000000), (True, 0x2000001), (False, 0x2000000)]"
  by (simp add: tracked_def example_accesses_def drop_bit_eq_div)

theorem live_cache_lru_witness:
  "\<exists>s0 s. LiveCache_new (\<lambda>_. (True, 7)) 1088 0x80000000 0x10000 = Some s0 \<and> LiveCache_run example_accesses s0 = Some s \<and>
     filter (\<lambda>t. t \<noteq> 0) (map line_tag (ways (cacheBank s) 0)) = [0x2000000, 0x2000001]"
  using live_cache_lru [of 1088 "0x80000000" "\<lambda>_. (True, 7)" "0x10000" example_accesses]
  by (auto simp: example_tracked cache_sets_def set_of_def)

theorem live_cache_traverse_witness:
  "\<exists>s0 s. LiveCache_new (\<lambda>_. (True, 7)) 1088 0x80000000 0x10000 = Some s0 \<and> LiveCache_run example_accesses s0 = Some s \<and>
     LiveCache_traverse s = Some [0x80000041, 0x80000000]"
proof -
  have len: "length example_accesses < 2 ^ 64" by (simp add: example_accesses_def)
  have w: "written 1 (rev (tracked 0x80000000 0x10000 example_accesses)) 0x2000001"
    "\<not> written 1 (rev (tracked 0x80000000 0x10000 example_accesses)) 0x2000000"
    by (simp_all add: example_tracked)
  show ?thesis
    using live_cache_traverse [OF _ _ len, of 1088 "0x80000000" "\<lambda>_. (True, 7)" "0x10000"] w
    by (simp add: example_tracked cache_sets_def set_of_def Let_def push_bit_eq_mult)
qed

end
