(* ===== verification/Gold.thy ===== *)
theory Gold
  imports Prelude "HOL-Library.Monad_Syntax"
begin

text \<open>
  The gold memory checker (\<open>gold/Gold_data.hpp\<close>, \<open>gold/Gold_mem.hpp\<close>,
  \<open>gold/Gold_core.cpp\<close>): the bytes a memory operation touches, the memory all cores share, and
  the queue of a core's operations in flight.

  \<open>None\<close> is a failed \<open>assert\<close> or an access outside a container.  The bytes that
  \<open>rand_data.any()\<close> supplies for an address not yet written are an argument \<open>rnd\<close> of the
  operation, by address.  What the checker prints about an error is a message; dumps and traces are
  left out.
\<close>

section \<open>Chunks of bytes\<close>

record gold_chunk =
  gc_addr :: u64
  gc_data :: "u8 list"

text \<open>\<open>addr + data.size()\<close>\<close>

definition chunk_end :: "gold_chunk \<Rightarrow> u64" where
  "chunk_end c = gc_addr c + of_nat (length (gc_data c))"

definition chunk_is_hit :: "u64 \<Rightarrow> gold_chunk \<Rightarrow> bool" where
  "chunk_is_hit a c \<longleftrightarrow> gc_addr c \<le> a \<and> a < chunk_end c"

definition chunk_set_byte :: "u64 \<Rightarrow> u8 \<Rightarrow> gold_chunk \<Rightarrow> gold_chunk option" where
  "chunk_set_byte a b c =
     (if chunk_is_hit a c \<and> unat (a - gc_addr c) < length (gc_data c)
      then Some (c\<lparr>gc_data := (gc_data c)[unat (a - gc_addr c) := b]\<rparr>) else None)"

definition chunk_get_byte :: "u64 \<Rightarrow> gold_chunk \<Rightarrow> u8 option" where
  "chunk_get_byte a c =
     (if chunk_is_hit a c \<and> unat (a - gc_addr c) < length (gc_data c)
      then Some (gc_data c ! unat (a - gc_addr c)) else None)"

definition chunk_addrs :: "gold_chunk \<Rightarrow> u64 list" where
  "chunk_addrs c = map (\<lambda>i. gc_addr c + of_nat i) [0..<length (gc_data c)]"

record gold_data =
  gd_chunks :: "gold_chunk list"
  gd_device :: bool

definition gd_new :: gold_data where
  "gd_new = \<lparr>gd_chunks = [], gd_device = False\<rparr>"

definition gd_clear :: "gold_data \<Rightarrow> gold_data" where
  "gd_clear d = d\<lparr>gd_device := False, gd_chunks := []\<rparr>"

definition gd_has_data :: "gold_data \<Rightarrow> bool" where
  "gd_has_data d \<longleftrightarrow> gd_chunks d \<noteq> []"

definition gd_set_device :: "gold_data \<Rightarrow> gold_data" where
  "gd_set_device d = d\<lparr>gd_device := True\<rparr>"

text \<open>A loop whose body may fail.\<close>

fun fold_opt :: "('a \<Rightarrow> 'b \<Rightarrow> 'b option) \<Rightarrow> 'a list \<Rightarrow> 'b \<Rightarrow> 'b option" where
  "fold_opt f [] s = Some s"
| "fold_opt f (x # xs) s = (case f x s of None \<Rightarrow> None | Some s \<Rightarrow> fold_opt f xs s)"

section \<open>Overlap\<close>

definition gd_has_full_overlap :: "u64 \<Rightarrow> u8 \<Rightarrow> gold_data \<Rightarrow> bool" where
  "gd_has_full_overlap addr sz d \<longleftrightarrow>
     (\<exists>c \<in> set (gd_chunks d). gc_addr c \<le> addr \<and> addr + ucast sz \<le> chunk_end c)"

definition gd_has_partial_overlap :: "u64 \<Rightarrow> u8 \<Rightarrow> gold_data \<Rightarrow> bool" where
  "gd_has_partial_overlap addr sz d \<longleftrightarrow>
     (\<exists>c \<in> set (gd_chunks d). gc_addr c \<le> addr \<and> addr < chunk_end c
        \<or> gc_addr c < addr + ucast sz \<and> addr + ucast sz \<le> chunk_end c)"

text \<open>The size of a chunk is passed as a \<open>uint8_t\<close>.\<close>

definition chunk_size8 :: "gold_chunk \<Rightarrow> u8" where
  "chunk_size8 c = of_nat (length (gc_data c))"

definition gd_overlaps :: "gold_data \<Rightarrow> gold_data \<Rightarrow> bool" where
  "gd_overlaps d d2 \<longleftrightarrow> (\<exists>c \<in> set (gd_chunks d2). gd_has_partial_overlap (gc_addr c) (chunk_size8 c) d)"

definition gd_has_byte :: "u64 \<Rightarrow> gold_data \<Rightarrow> bool" where
  "gd_has_byte addr d = gd_has_full_overlap addr 1 d"

section \<open>Adding addresses\<close>

text \<open>After sorting, chunks neither overlap nor touch.\<close>

definition sort_chunks :: "gold_chunk list \<Rightarrow> gold_chunk list option" where
  "sort_chunks cs =
     (let cs = sort_key gc_addr cs
      in if successively (\<lambda>a b. chunk_end a < gc_addr b) cs then Some cs else None)"

definition gd_set_addr :: "u8 \<Rightarrow> u64 \<Rightarrow> u8 \<Rightarrow> gold_data \<Rightarrow> gold_data option" where
  "gd_set_addr r addr sz d =
     (if gd_has_partial_overlap addr sz d then None
      else map_option (\<lambda>cs. d\<lparr>gd_chunks := cs\<rparr>)
             (sort_chunks (gd_chunks d @ [\<lparr>gc_addr = addr, gc_data = replicate (unat sz) r\<rparr>])))"

text \<open>
  The loop of \<open>add_addr\<close>: \<open>Some None\<close> when no chunk contains or touches the address.  The condition
  to merge with the next chunk is the source's, \<open>chunks.size() < i\<close>.
\<close>

function add_addr_loop :: "u8 \<Rightarrow> u64 \<Rightarrow> gold_chunk list \<Rightarrow> nat \<Rightarrow> gold_chunk list option option" where
  "add_addr_loop r addr cs i =
     (if length cs \<le> i then Some None
      else
        let c = cs ! i
        in if chunk_is_hit addr c then Some (Some cs)
           else if gc_addr c - 1 = addr then
             (if 0 < i \<and> \<not> chunk_is_hit (addr - 1) (cs ! (i - 1))
              then Some (Some (cs[i := \<lparr>gc_addr = gc_addr c - 1, gc_data = r # gc_data c\<rparr>]))
              else None)
           else if chunk_end c = addr then
             let cs' = cs[i := c\<lparr>gc_data := gc_data c @ [r]\<rparr>]
             in if length cs' < i \<and> gc_addr (cs' ! (i + 1)) = addr
                then Some (Some (take (i + 1) (cs'[i := c\<lparr>gc_data := gc_data c @ [r] @ gc_data (cs' ! (i + 1))\<rparr>])
                                 @ drop (i + 2) cs'))
                else Some (Some cs')
           else add_addr_loop r addr cs (i + 1))"
  by pat_completeness auto
termination by (relation "measure (\<lambda>(r, addr, cs, i). length cs - i)") auto

declare add_addr_loop.simps [simp del]

definition gd_add_addr :: "(u64 \<Rightarrow> u8) \<Rightarrow> u64 \<Rightarrow> gold_data \<Rightarrow> gold_data option" where
  "gd_add_addr rnd addr d =
     (case add_addr_loop (rnd addr) addr (gd_chunks d) 0 of
        None \<Rightarrow> None
      | Some (Some cs) \<Rightarrow> Some (d\<lparr>gd_chunks := cs\<rparr>)
      | Some None \<Rightarrow> gd_set_addr (rnd addr) addr 1 d)"

definition gd_add_range :: "(u64 \<Rightarrow> u8) \<Rightarrow> u64 \<Rightarrow> u8 \<Rightarrow> gold_data \<Rightarrow> gold_data option" where
  "gd_add_range rnd addr sz d = fold_opt (\<lambda>i. gd_add_addr rnd (addr + of_nat i)) [0..<unat sz] d"

section \<open>Reading and writing bytes\<close>

fun chunks_set_byte :: "u64 \<Rightarrow> u8 \<Rightarrow> gold_chunk list \<Rightarrow> gold_chunk list option" where
  "chunks_set_byte addr b [] = None"
| "chunks_set_byte addr b (c # cs) =
     (if chunk_is_hit addr c then map_option (\<lambda>c. c # cs) (chunk_set_byte addr b c)
      else map_option (Cons c) (chunks_set_byte addr b cs))"

definition gd_set_byte :: "u64 \<Rightarrow> u8 \<Rightarrow> gold_data \<Rightarrow> gold_data option" where
  "gd_set_byte addr b d = map_option (\<lambda>cs. d\<lparr>gd_chunks := cs\<rparr>) (chunks_set_byte addr b (gd_chunks d))"

fun chunks_get_byte :: "(u64 \<Rightarrow> u8) \<Rightarrow> u64 \<Rightarrow> gold_chunk list \<Rightarrow> u8 option" where
  "chunks_get_byte rnd addr [] = Some (rnd addr)"
| "chunks_get_byte rnd addr (c # cs) =
     (if chunk_is_hit addr c then chunk_get_byte addr c else chunks_get_byte rnd addr cs)"

definition gd_get_byte :: "(u64 \<Rightarrow> u8) \<Rightarrow> u64 \<Rightarrow> gold_data \<Rightarrow> u8 option" where
  "gd_get_byte rnd addr d = chunks_get_byte rnd addr (gd_chunks d)"

definition gd_set_data :: "u64 \<Rightarrow> u8 \<Rightarrow> u64 \<Rightarrow> gold_data \<Rightarrow> gold_data option" where
  "gd_set_data addr sz v d =
     (if 8 < sz then None
      else map_option fst (fold_opt
             (\<lambda>i (d, v). map_option (\<lambda>d. (d, drop_bit 8 v)) (gd_set_byte (addr + of_nat i) (ucast (v AND 0xff)) d))
             [0..<unat sz] (d, v)))"

definition gd_get_data :: "(u64 \<Rightarrow> u8) \<Rightarrow> u64 \<Rightarrow> u8 \<Rightarrow> gold_data \<Rightarrow> u64 option" where
  "gd_get_data rnd addr sz d =
     (if 8 < sz then None
      else fold_opt
             (\<lambda>i v. map_option (\<lambda>b. push_bit 8 v OR ucast b) (gd_get_byte rnd (addr + ucast sz - of_nat i - 1) d))
             [0..<unat sz] 0)"

section \<open>Two sets of bytes\<close>

definition gd_add_newer :: "(u64 \<Rightarrow> u8) \<Rightarrow> gold_data \<Rightarrow> gold_data \<Rightarrow> gold_data option" where
  "gd_add_newer rnd d2 d =
     fold_opt (\<lambda>c d. do {
       d \<leftarrow> gd_add_range rnd (gc_addr c) (chunk_size8 c) d;
       fold_opt (\<lambda>i. gd_set_byte (gc_addr c + of_nat i) (gc_data c ! i)) [0..<length (gc_data c)] d
     }) (gd_chunks d2) d"

definition gd_update_newer :: "gold_data \<Rightarrow> gold_data \<Rightarrow> gold_data option" where
  "gd_update_newer d2 d =
     fold_opt (\<lambda>c d.
       if gd_has_partial_overlap (gc_addr c) (chunk_size8 c) d then
         fold_opt (\<lambda>i d. if gd_has_byte (gc_addr c + of_nat i) d
                          then gd_set_byte (gc_addr c + of_nat i) (gc_data c ! i) d else Some d)
           [0..<length (gc_data c)] d
       else Some d) (gd_chunks d2) d"

text \<open>\<open>operator!=\<close>\<close>

fun chunks_ne :: "gold_chunk list \<Rightarrow> gold_chunk list \<Rightarrow> bool" where
  "chunks_ne (c1 # cs1) (c2 # cs2) =
     (if gc_addr c1 \<noteq> gc_addr c2 then False
      else if gc_data c1 \<noteq> gc_data c2 then False
      else chunks_ne cs1 cs2)"
| "chunks_ne [] [] = True"
| "chunks_ne _ _ = False"

definition gd_ne :: "gold_data \<Rightarrow> gold_data \<Rightarrow> bool" where
  "gd_ne d d2 = (if gd_device d \<and> gd_device d2 then False else chunks_ne (gd_chunks d) (gd_chunks d2))"

section \<open>The memory\<close>

type_synonym gold_mem = "u64 \<rightharpoonup> u8"

definition mem_st_perform :: "gold_data \<Rightarrow> gold_mem \<Rightarrow> gold_mem" where
  "mem_st_perform d m =
     fold (\<lambda>c m. fold (\<lambda>i m. m(gc_addr c + of_nat i \<mapsto> gc_data c ! i)) [0..<length (gc_data c)] m) (gd_chunks d) m"

text \<open>A byte the memory does not hold yet comes from \<open>get_byte\<close> and is kept.\<close>

definition mem_ld_byte :: "(u64 \<Rightarrow> u8) \<Rightarrow> u64 \<Rightarrow> gold_mem \<times> gold_data \<Rightarrow> (gold_mem \<times> gold_data) option" where
  "mem_ld_byte gb a = (\<lambda>(m, d).
     case m a of
       None \<Rightarrow> map_option (Pair (m(a \<mapsto> gb a))) (gd_set_byte a (gb a) d)
     | Some b \<Rightarrow> map_option (Pair m) (gd_set_byte a b d))"

definition mem_ld_perform :: "(u64 \<Rightarrow> u8) \<Rightarrow> gold_data \<Rightarrow> gold_mem \<Rightarrow> (gold_mem \<times> gold_data) option" where
  "mem_ld_perform gb d m = fold_opt (mem_ld_byte gb) (concat (map chunk_addrs (gd_chunks d))) (m, d)"

end
