(* ===== verification/Gold_Core.thy ===== *)
theory Gold_Core
  imports Gold
begin

text \<open>
  A core of the gold memory checker (\<open>gold/Gold_core.hpp\<close>, \<open>gold/Gold_core.cpp\<close>) and the
  functions the co-simulation calls (\<open>gold/bridge_inorder.cpp\<close>).
\<close>

section \<open>State\<close>

datatype mem_op = Mem_invalid | Mem_load | Mem_store | Mem_ack | Mem_rel | Mem_ackrel

text \<open>The text of \<open>error\<close> names the stores whose data changed a load; here it is the list of their ids.\<close>

record rob_entry =
  re_rid :: int
  re_ld :: gold_data
  re_st :: gold_data
  re_op :: mem_op
  re_performed :: bool
  re_error :: "int list"

definition rob_entry_new :: "int \<Rightarrow> rob_entry" where
  "rob_entry_new i =
     \<lparr>re_rid = i, re_ld = gd_new, re_st = gd_new, re_op = Mem_invalid, re_performed = False, re_error = []\<rparr>"

datatype gold_msg =
    Msg_nuke_safe int int
  | Msg_not_in_rob int
  | Msg_ld_no_addr int
  | Msg_ld_forward int int
  | Msg_st_no_addr int
  | Msg_data_changed int
  | Msg_merge_missing int int
  | Msg_merge_unperformed int int int
  | Msg_merge_overlap int int int
  | Msg_st_gone int
  | Msg_st_not_safe int
  | Msg_st_older_overlap int int
  | Msg_oldest int "int list"
  | Msg_mismatch nat int u64 u8 u64 u64

text \<open>
  What the cores share: the memory, the last instruction id given, the entry \<open>find_entry\<close> returns
  for an id it does not find (a static variable), and the messages, latest first.
\<close>

record gold_sys =
  g_mem :: gold_mem
  g_instid :: int
  g_inv :: rob_entry
  g_out :: "gold_msg list"

text \<open>The front of the queue, its youngest entry, comes first.\<close>

record gold_core =
  co_rob :: "rob_entry list"
  co_pnr :: int
  co_cid :: int

type_synonym gold_pair = "gold_core \<times> gold_sys"

definition gold_core_new :: "int \<Rightarrow> gold_core" where
  "gold_core_new i = \<lparr>co_rob = [], co_pnr = 0, co_cid = i\<rparr>"

definition gold_say :: "gold_msg \<Rightarrow> gold_sys \<Rightarrow> gold_sys" where
  "gold_say x s = s\<lparr>g_out := x # g_out s\<rparr>"

section \<open>Finding entries\<close>

text \<open>\<open>std::find_if\<close> from the front and, through reverse iterators, from the back.\<close>

fun rob_find :: "int \<Rightarrow> rob_entry list \<Rightarrow> nat option" where
  "rob_find iid [] = None"
| "rob_find iid (e # es) = (if re_rid e = iid then Some 0 else map_option Suc (rob_find iid es))"

definition rob_rfind :: "int \<Rightarrow> rob_entry list \<Rightarrow> nat option" where
  "rob_rfind iid es = map_option (\<lambda>k. length es - Suc k) (rob_find iid (rev es))"

definition rob_modify :: "nat \<Rightarrow> (rob_entry \<Rightarrow> rob_entry) \<Rightarrow> gold_core \<Rightarrow> gold_core" where
  "rob_modify k f c = c\<lparr>co_rob := (co_rob c)[k := f (co_rob c ! k)]\<rparr>"

definition find_entry :: "int \<Rightarrow> gold_pair \<Rightarrow> rob_entry \<times> gold_pair" where
  "find_entry iid = (\<lambda>(c, s).
     case rob_find iid (co_rob c) of
       None \<Rightarrow> (g_inv s, c, gold_say (Msg_not_in_rob iid) s)
     | Some k \<Rightarrow> (co_rob c ! k, c, s))"

text \<open>Assignment through the reference \<open>find_entry\<close> has returned.\<close>

definition put_entry :: "int \<Rightarrow> rob_entry \<Rightarrow> gold_pair \<Rightarrow> gold_pair" where
  "put_entry iid e = (\<lambda>(c, s).
     case rob_find iid (co_rob c) of
       None \<Rightarrow> (c, s\<lparr>g_inv := e\<rparr>)
     | Some k \<Rightarrow> (rob_modify k (\<lambda>_. e) c, s))"

text \<open>The client changes the data \<open>ld_data_ref\<close> and \<open>st_data_ref\<close> refer to.\<close>

definition with_ld_data :: "int \<Rightarrow> (gold_data \<Rightarrow> gold_data option) \<Rightarrow> gold_pair \<Rightarrow> gold_pair option" where
  "with_ld_data iid f p =
     (let (e, p) = find_entry iid p in map_option (\<lambda>d. put_entry iid (e\<lparr>re_ld := d\<rparr>) p) (f (re_ld e)))"

definition with_st_data :: "int \<Rightarrow> (gold_data \<Rightarrow> gold_data option) \<Rightarrow> gold_pair \<Rightarrow> gold_pair option" where
  "with_st_data iid f p =
     (let (e, p) = find_entry iid p in map_option (\<lambda>d. put_entry iid (e\<lparr>re_st := d\<rparr>) p) (f (re_st e)))"

section \<open>The queue\<close>

text \<open>The counter is an \<open>int\<close>, whose overflow is undefined.\<close>

definition gold_inorder :: "gold_pair \<Rightarrow> (int \<times> gold_pair) option" where
  "gold_inorder = (\<lambda>(c, s).
     if g_instid s = 2 ^ 31 - 1 then None
     else
       let i = g_instid s + 1
       in Some (i, c\<lparr>co_rob := rob_entry_new i # co_rob c\<rparr>, s\<lparr>g_instid := i\<rparr>))"

definition gold_set_type :: "int \<Rightarrow> mem_op \<Rightarrow> gold_core \<Rightarrow> gold_core" where
  "gold_set_type iid op c =
     (case rob_find iid (co_rob c) of
        None \<Rightarrow> c
      | Some k \<Rightarrow> rob_modify k (\<lambda>e. e\<lparr>re_op := op, re_performed := False\<rparr>) c)"

definition gold_set_safe :: "int \<Rightarrow> gold_core \<Rightarrow> gold_core" where
  "gold_set_safe iid c = (if co_pnr c \<le> iid then c\<lparr>co_pnr := iid\<rparr> else c)"

definition gold_nuke :: "int \<Rightarrow> gold_pair \<Rightarrow> gold_pair" where
  "gold_nuke iid = (\<lambda>(c, s).
     if iid < co_pnr c then (c, gold_say (Msg_nuke_safe iid (co_pnr c)) s)
     else (c\<lparr>co_rob := dropWhile (\<lambda>e. iid \<le> re_rid e) (co_rob c)\<rparr>, s))"

definition gold_has_error :: "int \<Rightarrow> gold_core \<Rightarrow> bool" where
  "gold_has_error iid c =
     (case rob_find iid (co_rob c) of None \<Rightarrow> True | Some k \<Rightarrow> re_error (co_rob c ! k) \<noteq> [])"

section \<open>Loads\<close>

text \<open>Stores older than a load, the oldest first, give it their bytes.\<close>

definition ld_forward :: "int \<Rightarrow> rob_entry \<Rightarrow> gold_sys \<times> gold_data \<Rightarrow> (gold_sys \<times> gold_data) option" where
  "ld_forward iid e = (\<lambda>(s, d).
     if \<not> re_rid e < iid then None
     else if gd_has_data (re_st e)
       then map_option (Pair (gold_say (Msg_ld_forward iid (re_rid e)) s)) (gd_update_newer (re_st e) d)
     else Some (s, d))"

definition gold_ld_perform :: "(u64 \<Rightarrow> u8) \<Rightarrow> int \<Rightarrow> gold_pair \<Rightarrow> gold_pair option" where
  "gold_ld_perform gb iid p =
     (let (ent, c, s) = find_entry iid p
      in if \<not> gd_has_data (re_ld ent) then Some (c, gold_say (Msg_ld_no_addr iid) s)
         else do {
           (m, d) \<leftarrow> mem_ld_perform gb (re_ld ent) (g_mem s);
           let s = s\<lparr>g_mem := m\<rparr>;
           (s, d) \<leftarrow>
             (if co_rob c = [] then None
              else if re_rid (last (co_rob c)) = iid then Some (s, d)
              else if rob_rfind iid (co_rob c) = None then None
              else fold_opt (ld_forward iid) (takeWhile (\<lambda>e. re_rid e \<noteq> iid) (rev (co_rob c))) (s, d));
           Some (put_entry iid (ent\<lparr>re_ld := d, re_performed := True, re_error := []\<rparr>) (c, s))
         })"

section \<open>Stores\<close>

text \<open>A younger load is performed again, and the data before and after are compared.\<close>

definition st_check_load :: "(u64 \<Rightarrow> u8) \<Rightarrow> int \<Rightarrow> nat \<Rightarrow> gold_pair \<Rightarrow> gold_pair option" where
  "st_check_load gb iid k = (\<lambda>(c, s).
     let e = co_rob c ! k
     in if \<not> gd_has_data (re_ld e) \<or> \<not> re_performed e then Some (c, s)
        else do {
          p \<leftarrow> gold_ld_perform gb (re_rid e) (c, s);
          let (e', c, s) = find_entry (re_rid e) p;
          Some (if gd_ne (re_ld e') (re_ld (co_rob c ! k))
                then (rob_modify k (\<lambda>e. e\<lparr>re_error := [iid]\<rparr>) c, gold_say (Msg_data_changed (re_rid e)) s)
                else (c, s))
        })"

definition gold_st_locally_perform :: "(u64 \<Rightarrow> u8) \<Rightarrow> int \<Rightarrow> gold_pair \<Rightarrow> gold_pair option" where
  "gold_st_locally_perform gb iid p =
     (let (ent, c, s) = find_entry iid p
      in if \<not> gd_has_data (re_st ent) then Some (c, gold_say (Msg_st_no_addr iid) s)
         else
           let p = put_entry iid (ent\<lparr>re_performed := True\<rparr>) (c, s)
           in case rob_rfind iid (co_rob (fst p)) of
                None \<Rightarrow> None
              | Some k \<Rightarrow> fold_opt (st_check_load gb iid) (rev [0..<k]) p)"

definition rob_st_merge :: "(u64 \<Rightarrow> u8) \<Rightarrow> rob_entry \<Rightarrow> rob_entry \<Rightarrow> rob_entry option" where
  "rob_st_merge rnd d2 e =
     (if \<not> re_rid e < re_rid d2 then None
      else map_option (\<lambda>d. e\<lparr>re_st := d, re_error := re_error e @ re_error d2,
                             re_performed := (re_performed e \<or> re_performed d2)\<rparr>)
             (gd_add_newer rnd (re_st d2) (re_st e)))"

text \<open>
  The loop of \<open>st_locally_merged\<close> from the entry after the younger store; \<open>k1\<close> is the place of the
  older store.
\<close>

function st_merge_loop ::
  "(u64 \<Rightarrow> u8) \<Rightarrow> int \<Rightarrow> int \<Rightarrow> rob_entry \<Rightarrow> nat option \<Rightarrow> nat \<Rightarrow> gold_pair \<Rightarrow> gold_pair option" where
  "st_merge_loop rnd iid1 iid2 d2 k1 k (c, s) =
     (if length (co_rob c) \<le> k then Some (c, s)
      else
        let e = co_rob c ! k
        in if re_rid e < iid1 then Some (c, s)
           else if re_rid e = iid1 then
             (if k1 \<noteq> Some k then None
              else map_option (\<lambda>e. (rob_modify k (\<lambda>_. e) c, s)) (rob_st_merge rnd d2 e))
           else
             let s = (if gd_overlaps (re_ld e) (re_st d2) \<and> \<not> re_performed e
                      then gold_say (Msg_merge_unperformed iid2 iid1 (re_rid e)) s else s);
                 s = (if gd_overlaps (re_st e) (re_st d2)
                      then gold_say (Msg_merge_overlap iid2 iid1 (re_rid e)) s else s)
             in st_merge_loop rnd iid1 iid2 d2 k1 (k + 1) (c, s))"
  by pat_completeness auto
termination
  by (relation "measure (\<lambda>(rnd, iid1, iid2, d2, k1, k, c, s). length (co_rob c) - k)") auto

declare st_merge_loop.simps [simp del]

definition gold_st_locally_merged :: "(u64 \<Rightarrow> u8) \<Rightarrow> int \<Rightarrow> int \<Rightarrow> gold_pair \<Rightarrow> gold_pair option" where
  "gold_st_locally_merged rnd iid1' iid2' = (\<lambda>(c, s).
     let iid1 = min iid1' iid2'; iid2 = max iid1' iid2';
         k1 = rob_find iid1 (co_rob c); k2 = rob_find iid2 (co_rob c);
         s = (if k1 = None \<or> k2 = None then gold_say (Msg_merge_missing iid1 iid2) s else s);
         (d2, p) = find_entry iid2 (c, s)
     in case k2 of None \<Rightarrow> None | Some k \<Rightarrow> st_merge_loop rnd iid1 iid2 d2 k1 (k + 1) p)"

text \<open>The messages about older stores that overlap; then the message about the first load retired with an error.\<close>

definition say_older_overlaps :: "int \<Rightarrow> gold_data \<Rightarrow> rob_entry list \<Rightarrow> gold_sys \<Rightarrow> gold_sys" where
  "say_older_overlaps iid d es s =
     fold (\<lambda>e s. if gd_overlaps (re_st e) d then gold_say (Msg_st_older_overlap iid (re_rid e)) s else s) es s"

definition say_oldest :: "rob_entry list \<Rightarrow> gold_sys \<Rightarrow> gold_sys" where
  "say_oldest es s =
     (case find (\<lambda>e. re_error e \<noteq> [] \<or> \<not> re_performed e) es of
        None \<Rightarrow> s | Some e \<Rightarrow> gold_say (Msg_oldest (re_rid e) (re_error e)) s)"

text \<open>Entries are retired from the back, up to and including the store.\<close>

definition rob_retire :: "int \<Rightarrow> gold_pair \<Rightarrow> gold_pair option" where
  "rob_retire iid = (\<lambda>(c, s).
     case dropWhile (\<lambda>e. re_rid e \<noteq> iid) (rev (co_rob c)) of
       [] \<Rightarrow> None
     | e # es \<Rightarrow>
         Some (c\<lparr>co_rob := rev es\<rparr>, say_oldest (takeWhile (\<lambda>e. re_rid e \<noteq> iid) (rev (co_rob c))) s))"

definition gold_st_globally_perform :: "(u64 \<Rightarrow> u8) \<Rightarrow> int \<Rightarrow> gold_pair \<Rightarrow> gold_pair option" where
  "gold_st_globally_perform gb iid = (\<lambda>(c, s).
     case rob_find iid (co_rob c) of
       None \<Rightarrow> Some (c, gold_say (Msg_st_gone iid) s)
     | Some k \<Rightarrow>
         let s = (if iid < co_pnr c then gold_say (Msg_st_not_safe iid) s else s);
             older = drop (k + 1) (co_rob c);
             only_reads = (\<forall>e \<in> set older. \<not> gd_has_data (re_st e));
             s = say_older_overlaps iid (re_st (co_rob c ! k)) older s
         in do {
              (c, s) \<leftarrow> gold_st_locally_perform gb iid (c, s);
              let s = s\<lparr>g_mem := mem_st_perform (re_st (co_rob c ! k)) (g_mem s)\<rparr>;
              (c, s) \<leftarrow>
                (if only_reads then rob_retire iid (c, s)
                 else Some (c\<lparr>co_rob := take k (co_rob c) @ drop (k + 1) (co_rob c)\<rparr>, s));
              if rob_find iid (co_rob c) = None then Some (c, s) else None
            })"

section \<open>The functions the co-simulation calls\<close>

record gold_bridge =
  br_sys :: gold_sys
  br_cores :: "gold_core list"

definition check_inorder_start :: gold_bridge where
  "check_inorder_start =
     \<lparr>br_sys = \<lparr>g_mem = Map.empty, g_instid = 0, g_inv = rob_entry_new 0, g_out = []\<rparr>, br_cores = []\<rparr>"

definition check_inorder_init :: "nat \<Rightarrow> gold_bridge \<Rightarrow> gold_bridge" where
  "check_inorder_init ncores b = b\<lparr>br_cores := br_cores b @ map (\<lambda>i. gold_core_new (int i)) [0..<ncores]\<rparr>"

definition on_core ::
  "nat \<Rightarrow> (gold_pair \<Rightarrow> ('a \<times> gold_pair) option) \<Rightarrow> gold_bridge \<Rightarrow> ('a \<times> gold_bridge) option" where
  "on_core cid f b =
     (if cid < length (br_cores b) then
        map_option (\<lambda>(x, c, s). (x, b\<lparr>br_sys := s, br_cores := (br_cores b)[cid := c]\<rparr>))
          (f (br_cores b ! cid, br_sys b))
      else None)"

definition set_device_if :: "bool \<Rightarrow> gold_data \<Rightarrow> gold_data" where
  "set_device_if io d = (if io then gd_set_device d else d)"

text \<open>
  The comparison: on a mismatch the process exits, so \<open>False\<close> is the end of the run.
  \<open>rnd\<close> numbers the uses of random bytes within a call.
\<close>

definition compare_load ::
  "(u64 \<Rightarrow> u8) \<Rightarrow> nat \<Rightarrow> int \<Rightarrow> u64 \<Rightarrow> u8 \<Rightarrow> u64 \<Rightarrow> bool \<Rightarrow> gold_pair \<Rightarrow> (bool \<times> gold_pair) option" where
  "compare_load rnd cid rid addr sz rd_data io p =
     (let (e, c, s) = find_entry rid p
      in map_option (\<lambda>data2.
           if \<not> io \<and> data2 \<noteq> rd_data
           then (False, c, gold_say (Msg_mismatch cid rid addr sz rd_data data2) s) else (True, c, s))
         (gd_get_data rnd addr sz (re_ld e)))"

definition check_inorder_load ::
  "(nat \<Rightarrow> u64 \<Rightarrow> u8) \<Rightarrow> (u64 \<Rightarrow> u8) \<Rightarrow> nat \<Rightarrow> u64 \<Rightarrow> u8 \<Rightarrow> u64 \<Rightarrow> bool \<Rightarrow> gold_bridge \<Rightarrow> (bool \<times> gold_bridge) option" where
  "check_inorder_load rnd gb cid addr sz rd_data io = on_core cid (\<lambda>p. do {
     (rid, p) \<leftarrow> gold_inorder p;
     p \<leftarrow> with_ld_data rid (\<lambda>d. map_option (set_device_if io) (gd_add_range (rnd 0) addr sz d)) p;
     p \<leftarrow> gold_ld_perform gb rid p;
     compare_load (rnd 1) cid rid addr sz rd_data io p
   })"

definition check_inorder_store ::
  "(nat \<Rightarrow> u64 \<Rightarrow> u8) \<Rightarrow> (u64 \<Rightarrow> u8) \<Rightarrow> nat \<Rightarrow> u64 \<Rightarrow> u8 \<Rightarrow> u64 \<Rightarrow> bool \<Rightarrow> gold_bridge \<Rightarrow> (bool \<times> gold_bridge) option" where
  "check_inorder_store rnd gb cid addr sz st_data io = on_core cid (\<lambda>p. do {
     (rid, p) \<leftarrow> gold_inorder p;
     p \<leftarrow> with_st_data rid (\<lambda>d. do {
            d \<leftarrow> gd_add_range (rnd 0) addr sz d;
            map_option (set_device_if io) (gd_set_data addr sz st_data d) }) p;
     p \<leftarrow> gold_st_globally_perform gb rid p;
     Some (True, p)
   })"

definition check_inorder_amo ::
  "(nat \<Rightarrow> u64 \<Rightarrow> u8) \<Rightarrow> (u64 \<Rightarrow> u8) \<Rightarrow> nat \<Rightarrow> u64 \<Rightarrow> u8 \<Rightarrow> u64 \<Rightarrow> u64 \<Rightarrow> bool \<Rightarrow> gold_bridge \<Rightarrow> (bool \<times> gold_bridge) option"
  where
  "check_inorder_amo rnd gb cid addr sz st_data rd_data io = on_core cid (\<lambda>p. do {
     (rid, p) \<leftarrow> gold_inorder p;
     p \<leftarrow> with_st_data rid (\<lambda>d. do {
            d \<leftarrow> gd_add_range (rnd 0) addr sz d;
            map_option (set_device_if io) (gd_set_data addr sz st_data d) }) p;
     p \<leftarrow> with_ld_data rid (\<lambda>d. map_option (set_device_if io) (gd_add_range (rnd 1) addr sz d)) p;
     p \<leftarrow> gold_ld_perform gb rid p;
     (ok, p) \<leftarrow> compare_load (rnd 2) cid rid addr sz rd_data io p;
     if \<not> ok then Some (False, p)
     else do {
       p \<leftarrow> gold_st_globally_perform gb rid p;
       Some (True, p)
     }
   })"

end
