(* ===== verification/Gold_Lemmas.thy ===== *)
theory Gold_Lemmas
  imports Gold_Core
begin

text \<open>
  Lemmas on the gold memory checker: what the operations on data do on one block of consecutive
  bytes, which is the only shape the in-order functions build.
\<close>

lemma fold_opt_append: "fold_opt f (xs @ ys) s = Option.bind (fold_opt f xs s) (fold_opt f ys)"
  by (induction xs arbitrary: s) (auto split: option.splits)

lemma fold_opt_cong:
  "s = t \<Longrightarrow> xs = ys \<Longrightarrow> (\<And>x s. x \<in> set ys \<Longrightarrow> f x s = g x s) \<Longrightarrow> fold_opt f xs s = fold_opt g ys t"
  by (induction xs arbitrary: ys s t) (auto split: option.splits)

lemma fold_opt_Some: "(\<And>x. x \<in> set xs \<Longrightarrow> f x s = Some s) \<Longrightarrow> fold_opt f xs s = Some s"
  by (induction xs) auto

text \<open>An induction over the rounds of a counting loop.\<close>

lemma fold_opt_upt:
  assumes "P 0 s"
    and "\<And>i s. i < n \<Longrightarrow> P i s \<Longrightarrow> \<exists>s'. f i s = Some s' \<and> P (Suc i) s'"
  shows "\<exists>s'. fold_opt f [0..<n] s = Some s' \<and> P n s'"
  using assms(2)
proof (induction n)
  case 0
  then show ?case using assms(1) by simp
next
  case (Suc n)
  then obtain s' where "fold_opt f [0..<n] s = Some s'" "P n s'" by (metis less_Suc_eq)
  with Suc.prems [of n s'] show ?case by (auto simp: fold_opt_append split: option.splits)
qed

section \<open>Blocks\<close>

definition blk :: "bool \<Rightarrow> u64 \<Rightarrow> u8 list \<Rightarrow> gold_data" where
  "blk dev addr bs = \<lparr>gd_chunks = (if bs = [] then [] else [\<lparr>gc_addr = addr, gc_data = bs\<rparr>]), gd_device = dev\<rparr>"

text \<open>The addresses of the block do not reach the end of the address space.\<close>

definition fits :: "u64 \<Rightarrow> nat \<Rightarrow> bool" where
  "fits addr n \<longleftrightarrow> unat addr + n < 2 ^ 64"

lemma fits_less: "fits addr n \<Longrightarrow> k \<le> n \<Longrightarrow> fits addr k"
  by (simp add: fits_def)

lemma unat_add_fits:
  assumes "fits addr n" and "i \<le> n" shows "unat (addr + of_nat i) = unat addr + i"
  using assms unfolding fits_def
  by (subst unat_word_ariths) (simp add: unat_of_nat mod_add_right_eq take_bit_eq_mod)

lemma unat_of_nat_fits: "fits addr n \<Longrightarrow> i \<le> n \<Longrightarrow> unat (of_nat i :: u64) = i"
  by (simp add: fits_def unat_of_nat take_bit_eq_mod)

lemma offset_fits: "fits addr n \<Longrightarrow> i \<le> n \<Longrightarrow> unat (addr + of_nat i - addr) = i"
  by (simp add: unat_of_nat_fits)

lemma hit_block:
  assumes "fits addr (length bs)"
  shows "chunk_is_hit a \<lparr>gc_addr = addr, gc_data = bs\<rparr> \<longleftrightarrow> unat (a - addr) < length bs"
proof -
  have *: "chunk_is_hit a \<lparr>gc_addr = addr, gc_data = bs\<rparr> \<longleftrightarrow>
      unat addr \<le> unat a \<and> unat a < unat addr + length bs"
    by (simp add: chunk_is_hit_def chunk_end_def word_le_nat_alt word_less_nat_alt unat_add_fits [OF assms])
  have "unat (a - addr) = (if unat addr \<le> unat a then unat a - unat addr else 2 ^ 64 + unat a - unat addr)"
    using unsigned_less [of addr] by (auto simp: unat_sub_if')
  with * assms show ?thesis unfolding fits_def using unsigned_less [of a] by (auto split: if_splits)
qed

lemma hit_block_off:
  "fits addr (length bs) \<Longrightarrow> i \<le> length bs \<Longrightarrow>
   chunk_is_hit (addr + of_nat i) \<lparr>gc_addr = addr, gc_data = bs\<rparr> \<longleftrightarrow> i < length bs"
  by (simp add: hit_block unat_of_nat_fits)

lemma set_byte_blk:
  assumes "fits addr (length bs)" and "i < length bs"
  shows "gd_set_byte (addr + of_nat i) b (blk dev addr bs) = Some (blk dev addr (bs[i := b]))"
  using assms hit_block_off [OF assms(1), of i] offset_fits [OF assms(1), of i]
  by (auto simp: gd_set_byte_def blk_def chunk_set_byte_def)

lemma get_byte_blk:
  assumes "fits addr (length bs)" and "i < length bs"
  shows "gd_get_byte rnd (addr + of_nat i) (blk dev addr bs) = Some (bs ! i)"
  using assms hit_block_off [OF assms(1), of i] offset_fits [OF assms(1), of i]
  by (auto simp: gd_get_byte_def blk_def chunk_get_byte_def)

lemma has_data_blk: "gd_has_data (blk dev addr bs) \<longleftrightarrow> bs \<noteq> []"
  by (simp add: gd_has_data_def blk_def)

lemma add_addr_blk:
  assumes "fits addr (Suc (length bs))"
  shows "gd_add_addr rnd (addr + of_nat (length bs)) (blk dev addr bs) =
         Some (blk dev addr (bs @ [rnd (addr + of_nat (length bs))]))"
proof (cases "bs = []")
  case True
  then show ?thesis
    by (simp add: gd_add_addr_def blk_def add_addr_loop.simps gd_set_addr_def gd_has_partial_overlap_def
        sort_chunks_def)
next
  case False
  let ?a = "addr + of_nat (length bs)" and ?c = "\<lparr>gc_addr = addr, gc_data = bs\<rparr>"
  have fits: "fits addr (length bs)" using assms by (simp add: fits_def)
  have miss: "\<not> chunk_is_hit ?a ?c" using hit_block_off [OF fits, of "length bs"] by simp
  have below: "addr - 1 \<noteq> ?a"
  proof
    assume "addr - 1 = ?a"
    then have "of_nat (Suc (length bs)) = (0 :: u64)" by (simp add: algebra_simps)
    moreover have "Suc (length bs) < 2 ^ 64" using assms by (simp add: fits_def)
    ultimately show False by (simp add: word_of_nat_eq_0_iff nat_dvd_not_less del: of_nat_Suc)
  qed
  have "add_addr_loop (rnd ?a) ?a [?c] 0 = Some (Some [\<lparr>gc_addr = addr, gc_data = bs @ [rnd ?a]\<rparr>])"
    using miss below by (subst add_addr_loop.simps) (simp add: chunk_end_def Let_def)
  then show ?thesis using False by (simp add: gd_add_addr_def blk_def)
qed

text \<open>Extending the first chunk downwards fails the assertion \<open>i > 0\<close>.\<close>

lemma add_addr_below_first:
  assumes "fits addr (length bs)" and "bs \<noteq> []"
  shows "gd_add_addr rnd (addr - 1) (blk dev addr bs) = None"
proof -
  have "unat ((addr - 1) - addr) = unat (- 1 :: u64)" by simp
  then have "\<not> chunk_is_hit (addr - 1) \<lparr>gc_addr = addr, gc_data = bs\<rparr>"
    using assms(1) by (simp add: hit_block [OF assms(1)] fits_def unsigned_minus_1_eq_mask mask_eq_exp_minus_1)
  then show ?thesis using assms(2)
    by (simp add: gd_add_addr_def blk_def) (subst add_addr_loop.simps, simp)
qed

lemma add_range_new:
  assumes "fits addr (unat sz)"
  shows "gd_add_range rnd addr sz gd_new = Some (blk False addr (map (\<lambda>i. rnd (addr + of_nat i)) [0..<unat sz]))"
proof -
  have "\<exists>d. fold_opt (\<lambda>i. gd_add_addr rnd (addr + of_nat i)) [0..<unat sz] gd_new = Some d \<and>
      d = blk False addr (map (\<lambda>i. rnd (addr + of_nat i)) [0..<unat sz])"
  proof (rule fold_opt_upt)
    show "gd_new = blk False addr (map (\<lambda>i. rnd (addr + of_nat i)) [0..<0])"
      by (simp add: gd_new_def blk_def)
  next
    fix i d assume "i < unat sz" and d: "d = blk False addr (map (\<lambda>i. rnd (addr + of_nat i)) [0..<i])"
    then have "fits addr (Suc (length (map (\<lambda>i. rnd (addr + of_nat i)) [0..<i])))"
      using fits_less [OF assms] by simp
    from add_addr_blk [OF this, of rnd False]
    show "\<exists>d'. gd_add_addr rnd (addr + of_nat i) d = Some d' \<and>
        d' = blk False addr (map (\<lambda>i. rnd (addr + of_nat i)) [0..<Suc i])"
      by (simp add: d)
  qed
  then show ?thesis by (simp add: gd_add_range_def)
qed

section \<open>Values\<close>

definition le_bytes :: "nat \<Rightarrow> u64 \<Rightarrow> u8 list" where
  "le_bytes n v = map (\<lambda>i. ucast (drop_bit (8 * i) v)) [0..<n]"

lemma set_data_blk:
  assumes "fits addr (length bs)" and "length bs = unat sz" and "sz \<le> 8"
  shows "gd_set_data addr sz v (blk dev addr bs) = Some (blk dev addr (le_bytes (unat sz) v))"
proof -
  have mask_8: "(255 :: u64) = mask 8" by (simp add: mask_eq_exp_minus_1)
  let ?f = "\<lambda>i (d, v). map_option (\<lambda>d. (d, drop_bit 8 v)) (gd_set_byte (addr + of_nat i) (ucast (v AND 0xff)) d)"
  have "\<exists>p. fold_opt ?f [0..<unat sz] (blk dev addr bs, v) = Some p \<and>
      p = (blk dev addr (le_bytes (unat sz) v @ drop (unat sz) bs), drop_bit (8 * unat sz) v)"
  proof (rule fold_opt_upt)
    show "(blk dev addr bs, v) = (blk dev addr (le_bytes 0 v @ drop 0 bs), drop_bit (8 * 0) v)"
      by (simp add: le_bytes_def)
  next
    fix i p assume i: "i < unat sz" and p: "p = (blk dev addr (le_bytes i v @ drop i bs), drop_bit (8 * i) v)"
    let ?bs = "le_bytes i v @ drop i bs" and ?b = "ucast (drop_bit (8 * i) v AND 0xff) :: u8"
    have b: "?b = ucast (drop_bit (8 * i) v)"
      by (rule bit_word_eqI) (auto simp: bit_simps mask_8)
    have len: "length ?bs = length bs" using i assms(2) by (simp add: le_bytes_def)
    have "?bs[i := ?b] = le_bytes (Suc i) v @ drop (Suc i) bs"
      unfolding b using i assms(2)
      by (simp add: le_bytes_def list_update_append Cons_nth_drop_Suc [symmetric])
    with set_byte_blk [of addr ?bs i ?b dev] i assms(1,2) len
    show "\<exists>p'. ?f i p = Some p' \<and>
        p' = (blk dev addr (le_bytes (Suc i) v @ drop (Suc i) bs), drop_bit (8 * Suc i) v)"
      by (simp add: p drop_bit_drop_bit add.commute)
  qed
  then show ?thesis using assms(2,3) by (auto simp: gd_set_data_def not_le [symmetric])
qed

text \<open>The value of a list of bytes, least significant first.\<close>

definition le_nat :: "u8 list \<Rightarrow> nat" where
  "le_nat bs = (\<Sum>i<length bs. unat (bs ! i) * 256 ^ i)"

lemma le_nat_Nil [simp]: "le_nat [] = 0"
  by (simp add: le_nat_def)

lemma le_nat_Cons: "le_nat (b # bs) = unat b + 256 * le_nat bs"
  by (simp add: le_nat_def sum.lessThan_Suc_shift sum_distrib_left algebra_simps del: sum.lessThan_Suc)

lemma le_nat_less: "le_nat bs < 256 ^ length bs"
proof (induction bs)
  case (Cons b bs)
  then show ?case using unsigned_less [of b, where 'a = nat] by (simp add: le_nat_Cons)
qed simp

lemma get_step:
  assumes "unat (v :: u64) = le_nat bs" and "length bs < 8"
  shows "unat (push_bit 8 v OR ucast (b :: u8)) = le_nat (b # bs)"
proof -
  have small: "le_nat bs < 256 ^ 7"
    using le_nat_less [of bs] assms(2) power_increasing [of "length bs" 7 "256 :: nat"] by linarith
  have disj: "push_bit 8 v AND ucast b = (0 :: u64)"
    by (rule bit_word_eqI) (auto simp: bit_simps dest: bit_imp_le_length)
  have "unat (ucast b :: u64) = unat b" "unat b < 256"
    using unsigned_less [of b, where 'a = nat] by (simp_all add: unsigned_ucast_eq take_bit_nat_eq_self)
  then have "unat (push_bit 8 v + ucast b) = le_nat (b # bs)"
    using small assms(1) by (simp add: le_nat_Cons push_bit_eq_mult unat_word_ariths)
  then show ?thesis by (simp only: disjunctive_add_eq_or [OF disj])
qed

lemma get_data_blk:
  assumes "fits addr (length bs)" and "length bs = unat sz" and "sz \<le> 8"
  shows "\<exists>v. gd_get_data rnd addr sz (blk dev addr bs) = Some v \<and> unat v = le_nat bs"
proof -
  have n: "unat sz \<le> 8" using assms(3) by (simp add: word_le_nat_alt)
  let ?f = "\<lambda>i v. map_option (\<lambda>b. push_bit 8 v OR ucast b)
                   (gd_get_byte rnd (addr + ucast sz - of_nat i - 1) (blk dev addr bs))"
  have "\<exists>v. fold_opt ?f [0..<unat sz] 0 = Some v \<and> unat (v :: u64) = le_nat (drop (unat sz - unat sz) bs)"
  proof (rule fold_opt_upt [where P = "\<lambda>i (v :: u64). unat v = le_nat (drop (unat sz - i) bs)"])
    show "unat (0 :: u64) = le_nat (drop (unat sz - 0) bs)" using assms(2) by simp
  next
    fix i and v :: u64 assume i: "i < unat sz" and v: "unat v = le_nat (drop (unat sz - i) bs)"
    let ?k = "unat sz - Suc i"
    have k: "?k < length bs" using i assms(2) by simp
    have "(ucast sz :: u64) = of_nat (?k + i + 1)" using i by simp
    then have a: "addr + ucast sz - of_nat i - 1 = addr + of_nat ?k" by (simp only: of_nat_add) simp
    have d: "drop ?k bs = bs ! ?k # drop (unat sz - i) bs"
      using Cons_nth_drop_Suc [OF k] i by (simp add: Suc_diff_Suc)
    have "length (drop (unat sz - i) bs) < 8" using i n assms(2) by simp
    then show "\<exists>v'. ?f i v = Some v' \<and> unat v' = le_nat (drop (unat sz - Suc i) bs)"
      using get_byte_blk [OF assms(1) k, of rnd dev] get_step [OF v] unfolding a d by simp
  qed
  then show ?thesis using assms(3) by (simp add: gd_get_data_def not_less)
qed

end
