(* ===== verification/Gold_Spec.thy ===== *)
theory Gold_Spec
  imports Gold_Lemmas
begin

text \<open>
  What the in-order gold memory checker promises: one memory, shared by all cores and updated in
  the order of the calls, whose bytes are taken from the simulator when first read.
\<close>

section \<open>The abstract memory\<close>

definition sc_touch :: "(u64 \<Rightarrow> u8) \<Rightarrow> u64 \<Rightarrow> nat \<Rightarrow> gold_mem \<Rightarrow> gold_mem" where
  "sc_touch gb addr n m = (\<lambda>a. if unat (a - addr) < n \<and> m a = None then Some (gb a) else m a)"

definition sc_read :: "u64 \<Rightarrow> nat \<Rightarrow> gold_mem \<Rightarrow> nat" where
  "sc_read addr n m = le_nat (map (\<lambda>i. the (m (addr + of_nat i))) [0..<n])"

definition sc_write :: "u64 \<Rightarrow> nat \<Rightarrow> u64 \<Rightarrow> gold_mem \<Rightarrow> gold_mem" where
  "sc_write addr n v m =
     (\<lambda>a. if unat (a - addr) < n then Some (ucast (drop_bit (8 * unat (a - addr)) v)) else m a)"

text \<open>A load, store or atomic operation: core, address, size, data, and whether the address is a device.\<close>

datatype gold_op =
    Op_load nat u64 u8 u64 bool
  | Op_store nat u64 u8 u64 bool
  | Op_amo nat u64 u8 u64 u64 bool

fun op_core :: "gold_op \<Rightarrow> nat" where
  "op_core (Op_load cid _ _ _ _) = cid"
| "op_core (Op_store cid _ _ _ _) = cid"
| "op_core (Op_amo cid _ _ _ _ _) = cid"

fun op_range :: "gold_op \<Rightarrow> u64 \<times> u8" where
  "op_range (Op_load _ addr sz _ _) = (addr, sz)"
| "op_range (Op_store _ addr sz _ _) = (addr, sz)"
| "op_range (Op_amo _ addr sz _ _ _) = (addr, sz)"

fun sc_op :: "(u64 \<Rightarrow> u8) \<Rightarrow> gold_op \<Rightarrow> gold_mem \<Rightarrow> bool \<times> gold_mem" where
  "sc_op gb (Op_load cid addr sz rd io) m =
     (let m = sc_touch gb addr (unat sz) m in (io \<or> unat rd = sc_read addr (unat sz) m, m))"
| "sc_op gb (Op_store cid addr sz st io) m = (True, sc_write addr (unat sz) st m)"
| "sc_op gb (Op_amo cid addr sz st rd io) m =
     (let m = sc_touch gb addr (unat sz) m
      in if io \<or> unat rd = sc_read addr (unat sz) m then (True, sc_write addr (unat sz) st m) else (False, m))"

text \<open>A run stops at the first mismatch.  Each call has its own random bytes and simulator memory.\<close>

fun sc_run :: "((nat \<Rightarrow> u64 \<Rightarrow> u8) \<times> (u64 \<Rightarrow> u8) \<times> gold_op) list \<Rightarrow> gold_mem \<Rightarrow> bool \<times> gold_mem" where
  "sc_run [] m = (True, m)"
| "sc_run ((rnd, gb, x) # xs) m =
     (case sc_op gb x m of (ok, m) \<Rightarrow> if ok then sc_run xs m else (False, m))"

fun bridge_op ::
  "(nat \<Rightarrow> u64 \<Rightarrow> u8) \<Rightarrow> (u64 \<Rightarrow> u8) \<Rightarrow> gold_op \<Rightarrow> gold_bridge \<Rightarrow> (bool \<times> gold_bridge) option" where
  "bridge_op rnd gb (Op_load cid addr sz rd io) b = check_inorder_load rnd gb cid addr sz rd io b"
| "bridge_op rnd gb (Op_store cid addr sz st io) b = check_inorder_store rnd gb cid addr sz st io b"
| "bridge_op rnd gb (Op_amo cid addr sz st rd io) b = check_inorder_amo rnd gb cid addr sz st rd io b"

fun bridge_run ::
  "((nat \<Rightarrow> u64 \<Rightarrow> u8) \<times> (u64 \<Rightarrow> u8) \<times> gold_op) list \<Rightarrow> gold_bridge \<Rightarrow> (bool \<times> gold_bridge) option" where
  "bridge_run [] b = Some (True, b)"
| "bridge_run ((rnd, gb, x) # xs) b =
     (case bridge_op rnd gb x b of
        None \<Rightarrow> None
      | Some (ok, b) \<Rightarrow> if ok then bridge_run xs b else Some (False, b))"

section \<open>The memory and one block\<close>

lemma offset_eq_iff: "(a :: u64) = addr + of_nat i \<longleftrightarrow> a - addr = of_nat i"
  by (metis add.commute add_diff_cancel_left' diff_add_cancel)

lemma offset_unat_eq: "fits addr n \<Longrightarrow> i \<le> n \<Longrightarrow> (a = addr + of_nat i) = (unat (a - addr) = i)"
  unfolding offset_eq_iff by (metis unat_of_nat_fits word_unat_eq_iff)

lemma sc_touch_0 [simp]: "sc_touch gb addr 0 m = m"
  by (simp add: sc_touch_def fun_eq_iff)

lemma sc_touch_Suc:
  assumes "fits addr n" and "i < n"
  shows "sc_touch gb addr (Suc i) m =
    (let a = addr + of_nat i; m = sc_touch gb addr i m
     in if m a = None then m(a \<mapsto> gb a) else m)"
  using offset_unat_eq [OF assms(1), of i] assms(2)
  by (auto simp: sc_touch_def Let_def fun_eq_iff less_Suc_eq)

lemma sc_touch_Some: "fits addr n \<Longrightarrow> i < k \<Longrightarrow> k \<le> n \<Longrightarrow> sc_touch gb addr k m (addr + of_nat i) \<noteq> None"
  by (simp add: sc_touch_def unat_of_nat_fits [of addr n])

lemma sc_touch_mono: "sc_touch gb addr k m a = Some v \<Longrightarrow> k \<le> n \<Longrightarrow> sc_touch gb addr n m a = Some v"
  by (auto simp: sc_touch_def split: if_splits)

definition mem_bytes :: "u64 \<Rightarrow> nat \<Rightarrow> gold_mem \<Rightarrow> u8 list" where
  "mem_bytes addr n m = map (\<lambda>i. the (m (addr + of_nat i))) [0..<n]"

lemma length_mem_bytes [simp]: "length (mem_bytes addr n m) = n"
  by (simp add: mem_bytes_def)

lemma mem_bytes_0 [simp]: "mem_bytes addr 0 m = []"
  by (simp add: mem_bytes_def)

lemma mem_bytes_touch:
  assumes "fits addr n" and "i < n"
  shows "mem_bytes addr i (sc_touch gb addr (Suc i) m) = mem_bytes addr i (sc_touch gb addr i m)"
  unfolding mem_bytes_def
proof (rule map_cong [OF refl])
  fix j assume "j \<in> set [0..<i]"
  then have "sc_touch gb addr i m (addr + of_nat j) \<noteq> None" using sc_touch_Some [OF assms(1)] assms(2) by simp
  then obtain v where v: "sc_touch gb addr i m (addr + of_nat j) = Some v" by blast
  with sc_touch_mono [OF v, of "Suc i"]
  show "the (sc_touch gb addr (Suc i) m (addr + of_nat j)) = the (sc_touch gb addr i m (addr + of_nat j))" by simp
qed

lemma ld_perform_blk:
  fixes gb m
  assumes fits: "fits addr (length bs)"
  defines "m' \<equiv> sc_touch gb addr (length bs) m"
  shows "mem_ld_perform gb (blk dev addr bs) m = Some (m', blk dev addr (mem_bytes addr (length bs) m'))"
proof -
  let ?f = "\<lambda>i. mem_ld_byte gb (addr + of_nat i)"
  let ?P = "\<lambda>i p. p = (sc_touch gb addr i m,
                blk dev addr (mem_bytes addr i (sc_touch gb addr i m) @ drop i bs))"
  have "\<exists>p. fold_opt ?f [0..<length bs] (m, blk dev addr bs) = Some p \<and> ?P (length bs) p"
  proof (rule fold_opt_upt)
    show "?P 0 (m, blk dev addr bs)" by simp
  next
    fix i p assume i: "i < length bs" and p: "?P i p"
    let ?a = "addr + of_nat i" and ?m = "sc_touch gb addr i m" and ?m' = "sc_touch gb addr (Suc i) m"
    let ?bs = "mem_bytes addr i ?m @ drop i bs"
    have len: "length ?bs = length bs" using i by simp
    have b: "?m' ?a \<noteq> None" using sc_touch_Some [OF fits, of i "Suc i"] i by simp
    have "?bs[i := the (?m' ?a)] = mem_bytes addr (Suc i) ?m' @ drop (Suc i) bs"
      using i mem_bytes_touch [OF fits i, of gb m]
      by (simp add: list_update_append Cons_nth_drop_Suc [symmetric] mem_bytes_def)
    with set_byte_blk [of addr ?bs i "the (?m' ?a)" dev] fits i len
    have "gd_set_byte ?a (the (?m' ?a)) (blk dev addr ?bs) =
        Some (blk dev addr (mem_bytes addr (Suc i) ?m' @ drop (Suc i) bs))"
      by simp
    then show "\<exists>p'. ?f i p = Some p' \<and> ?P (Suc i) p'"
      unfolding p mem_ld_byte_def sc_touch_Suc [OF fits i] Let_def
      by (auto split: option.splits)
  qed
  moreover have "fold_opt (mem_ld_byte gb) (concat (map chunk_addrs (gd_chunks (blk dev addr bs)))) =
      fold_opt ?f [0..<length bs]"
  proof -
    have "fold_opt (mem_ld_byte gb) (map g xs) s = fold_opt (\<lambda>i. mem_ld_byte gb (g i)) xs s" for g xs s
      by (induction xs arbitrary: s) (auto split: option.splits)
    then show ?thesis by (auto simp: blk_def chunk_addrs_def fun_eq_iff simp del: split_paired_All)
  qed
  ultimately show ?thesis by (simp add: mem_ld_perform_def m'_def)
qed

lemma length_le_bytes [simp]: "length (le_bytes n v) = n"
  by (simp add: le_bytes_def)

lemma le_bytes_0 [simp]: "le_bytes 0 v = []"
  by (simp add: le_bytes_def)

lemma st_perform_blk:
  assumes "fits addr n"
  shows "mem_st_perform (blk dev addr (le_bytes n v)) m = sc_write addr n v m"
proof -
  have "fold (\<lambda>i m. m(addr + of_nat i \<mapsto> le_bytes n v ! i)) [0..<k] m = sc_write addr k v m" if "k \<le> n" for k
    using that
  proof (induction k)
    case 0
    then show ?case by (simp add: sc_write_def fun_eq_iff)
  next
    case (Suc k)
    then show ?case using offset_unat_eq [OF assms, of k]
      by (auto simp: sc_write_def fun_eq_iff less_Suc_eq le_bytes_def)
  qed
  from this [of n] show ?thesis
    by (cases "n = 0") (auto simp: mem_st_perform_def blk_def le_bytes_def)
qed

end
