(* ===== verification/Gold_Order.thy ===== *)
theory Gold_Order
  imports Gold_Spec
begin

text \<open>
  One call of the in-order checker is one step of the abstract memory: the call works on the
  youngest entry of the core's queue, below which only loads wait.
\<close>

section \<open>The youngest entry\<close>

definition quiet :: "int \<Rightarrow> rob_entry list \<Rightarrow> bool" where
  "quiet rid es \<longleftrightarrow> (\<forall>e \<in> set es. re_rid e < rid \<and> \<not> gd_has_data (re_st e))"

lemma quiet_ne: "quiet rid es \<Longrightarrow> \<forall>e \<in> set es. re_rid e \<noteq> rid"
  by (auto simp: quiet_def)

lemma rob_find_None: "rob_find rid es = None \<longleftrightarrow> (\<forall>e \<in> set es. re_rid e \<noteq> rid)"
  by (induction es) auto

lemma rob_find_append:
  "\<forall>e \<in> set xs. re_rid e \<noteq> rid \<Longrightarrow> rob_find rid (xs @ ys) = map_option ((+) (length xs)) (rob_find rid ys)"
  by (cases "rob_find rid ys"; induction xs) auto

lemma rob_rfind_front:
  assumes "quiet rid es" and "re_rid e = rid" shows "rob_rfind rid (e # es) = Some 0"
  using assms rob_find_append [of "rev es" rid "[e]"] quiet_ne [OF assms(1)]
  by (simp add: rob_rfind_def)

lemma front_split:
  assumes "quiet rid es" and "re_rid e = rid"
  shows "takeWhile (\<lambda>e. re_rid e \<noteq> rid) (rev es @ [e]) = rev es"
    and "dropWhile (\<lambda>e. re_rid e \<noteq> rid) (rev es @ [e]) = [e]"
  using assms(2) quiet_ne [OF assms(1)] takeWhile_append2 [of "rev es" "\<lambda>e. re_rid e \<noteq> rid" "[e]"]
    dropWhile_append2 [of "rev es" "\<lambda>e. re_rid e \<noteq> rid" "[e]"]
  by auto

lemma find_front:
  "co_rob c = e # es \<Longrightarrow> re_rid e = rid \<Longrightarrow> find_entry rid (c, s) = (e, c, s)"
  by (simp add: find_entry_def)

lemma put_front:
  "co_rob c = e # es \<Longrightarrow> re_rid e = rid \<Longrightarrow> put_entry rid e' (c, s) = (c\<lparr>co_rob := e' # es\<rparr>, s)"
  by (simp add: put_entry_def rob_modify_def)

lemma forward_quiet: "quiet rid es \<Longrightarrow> fold_opt (ld_forward rid) (rev es) (s, d) = Some (s, d)"
  by (rule fold_opt_Some) (auto simp: quiet_def ld_forward_def)

lemma ld_perform_front:
  fixes gb s
  assumes rob: "co_rob c = e # es" "re_rid e = rid" and quiet: "quiet rid es"
    and ld: "re_ld e = blk io addr bs" and fits: "fits addr (length bs)"
  defines "m' \<equiv> sc_touch gb addr (length bs) (g_mem s)"
  shows "\<exists>c' s' e'. gold_ld_perform gb rid (c, s) = Some (c', s') \<and> co_rob c' = e' # es \<and> re_rid e' = rid \<and>
    re_st e' = re_st e \<and> re_ld e' = blk io addr (mem_bytes addr (length bs) m') \<and>
    g_mem s' = m' \<and> g_instid s' = g_instid s"
proof (cases "bs = []")
  case True
  then show ?thesis
    using rob ld by (simp add: gold_ld_perform_def find_front has_data_blk gold_say_def m'_def mem_bytes_def)
next
  case False
  have "(if co_rob c = [] then None
         else if re_rid (last (co_rob c)) = rid then Some (t, d)
         else if rob_rfind rid (co_rob c) = None then None
         else fold_opt (ld_forward rid) (takeWhile (\<lambda>e. re_rid e \<noteq> rid) (rev (co_rob c))) (t, d)) = Some (t, d)" for t d
    using rob quiet by (simp add: rob_rfind_front front_split forward_quiet)
  then show ?thesis
    using False rob ld ld_perform_blk [OF fits, of gb io "g_mem s"]
    by (simp add: gold_ld_perform_def find_front put_front has_data_blk m'_def)
qed

lemma st_locally_front:
  assumes rob: "co_rob c = e # es" "re_rid e = rid" and quiet: "quiet rid es"
  shows "\<exists>c' s' e'. gold_st_locally_perform gb rid (c, s) = Some (c', s') \<and> co_rob c' = e' # es \<and> re_rid e' = rid \<and>
    re_st e' = re_st e \<and> g_mem s' = g_mem s \<and> g_instid s' = g_instid s"
  using rob rob_rfind_front [OF quiet, of "e\<lparr>re_performed := True\<rparr>"]
  by (simp add: gold_st_locally_perform_def find_front put_front gold_say_def)

lemma say_frame [simp]:
  "g_mem (gold_say x s) = g_mem s" "g_instid (gold_say x s) = g_instid s"
  "g_mem (say_oldest es s) = g_mem s" "g_instid (say_oldest es s) = g_instid s"
  by (simp_all add: gold_say_def say_oldest_def split: option.splits)

lemma say_older_frame [simp]:
  "g_mem (say_older_overlaps iid d es s) = g_mem s" "g_instid (say_older_overlaps iid d es s) = g_instid s"
  unfolding say_older_overlaps_def by (induction es arbitrary: s) (simp_all add: gold_say_def)

lemma st_globally_front:
  assumes rob: "co_rob c = e # es" "re_rid e = rid" and quiet: "quiet rid es"
    and st: "re_st e = blk io addr (le_bytes n v)" and fits: "fits addr n"
  shows "\<exists>c' s'. gold_st_globally_perform gb rid (c, s) = Some (c', s') \<and> co_rob c' = [] \<and>
    g_mem s' = sc_write addr n v (g_mem s) \<and> g_instid s' = g_instid s"
proof -
  let ?t = "if rid < co_pnr c then gold_say (Msg_st_not_safe rid) s else s"
  let ?s = "say_older_overlaps rid (re_st e) es ?t"
  have frame: "g_mem ?s = g_mem s" "g_instid ?s = g_instid s" by simp_all
  obtain c1 s1 e1 where 1: "gold_st_locally_perform gb rid (c, ?s) = Some (c1, s1)" "co_rob c1 = e1 # es"
      "re_rid e1 = rid" "re_st e1 = re_st e" "g_mem s1 = g_mem s" "g_instid s1 = g_instid s"
    using st_locally_front [OF rob quiet, of gb ?s] unfolding frame by blast
  have "\<forall>e \<in> set es. \<not> gd_has_data (re_st e)" using quiet by (simp add: quiet_def)
  with rob 1 st st_perform_blk [OF fits, of io v "g_mem s"] front_split(2) [OF quiet 1(3)]
  show ?thesis by (simp add: gold_st_globally_perform_def Let_def rob_retire_def)
qed

section \<open>The calls\<close>

definition bridge_inv :: "gold_bridge \<Rightarrow> bool" where
  "bridge_inv b \<longleftrightarrow>
     (\<forall>c \<in> set (br_cores b). \<forall>e \<in> set (co_rob c). re_rid e \<le> g_instid (br_sys b) \<and> \<not> gd_has_data (re_st e))"

lemma on_core_cases:
  assumes cid: "cid < length (br_cores b)" and inv: "bridge_inv b"
    and f: "f (br_cores b ! cid, br_sys b) = Some (x, c, s)"
    and i: "g_instid (br_sys b) \<le> g_instid s"
  shows "\<exists>b'. on_core cid f b = Some (x, b') \<and> br_sys b' = s \<and> length (br_cores b') = length (br_cores b) \<and>
    ((\<forall>e \<in> set (co_rob c). re_rid e \<le> g_instid s \<and> \<not> gd_has_data (re_st e)) \<longrightarrow> bridge_inv b')"
proof -
  let ?b = "b\<lparr>br_sys := s, br_cores := (br_cores b)[cid := c]\<rparr>"
  have "bridge_inv ?b" if es: "\<forall>e \<in> set (co_rob c). re_rid e \<le> g_instid s \<and> \<not> gd_has_data (re_st e)"
    unfolding bridge_inv_def
  proof (intro ballI)
    fix c' e assume "c' \<in> set (br_cores ?b)" and e: "e \<in> set (co_rob c')"
    then have "c' = c \<or> c' \<in> set (br_cores b)"
      using set_update_subset_insert [of "br_cores b" cid c] by auto
    with e es inv i show "re_rid e \<le> g_instid (br_sys ?b) \<and> \<not> gd_has_data (re_st e)"
      unfolding bridge_inv_def by fastforce
  qed
  with cid f show ?thesis by (simp add: on_core_def)
qed

lemma inorder_front:
  assumes "g_instid s < 2 ^ 31 - 1"
    and "\<forall>e \<in> set (co_rob c). re_rid e \<le> g_instid s \<and> \<not> gd_has_data (re_st e)"
  shows "gold_inorder (c, s) = Some (g_instid s + 1,
      c\<lparr>co_rob := rob_entry_new (g_instid s + 1) # co_rob c\<rparr>, s\<lparr>g_instid := g_instid s + 1\<rparr>)"
    and "quiet (g_instid s + 1) (co_rob c)"
  using assms by (fastforce simp: gold_inorder_def quiet_def Let_def)+

lemma set_device_blk: "set_device_if io (blk False addr bs) = blk io addr bs"
  by (simp add: set_device_if_def gd_set_device_def blk_def)

lemma with_ld_front:
  "co_rob c = e # es \<Longrightarrow> re_rid e = rid \<Longrightarrow> f (re_ld e) = Some d \<Longrightarrow>
   with_ld_data rid f (c, s) = Some (c\<lparr>co_rob := e\<lparr>re_ld := d\<rparr> # es\<rparr>, s)"
  by (simp add: with_ld_data_def find_front put_front)

lemma with_st_front:
  "co_rob c = e # es \<Longrightarrow> re_rid e = rid \<Longrightarrow> f (re_st e) = Some d \<Longrightarrow>
   with_st_data rid f (c, s) = Some (c\<lparr>co_rob := e\<lparr>re_st := d\<rparr> # es\<rparr>, s)"
  by (simp add: with_st_data_def find_front put_front)

lemma new_entry [simp]:
  "re_rid (rob_entry_new i) = i" "re_ld (rob_entry_new i) = gd_new" "re_st (rob_entry_new i) = gd_new"
  by (simp_all add: rob_entry_new_def)

lemma fill_ld:
  assumes "fits addr (unat sz)"
  shows "\<exists>bs. map_option (set_device_if io) (gd_add_range rnd addr sz gd_new) = Some (blk io addr bs) \<and> length bs = unat sz"
  by (rule exI [of _ "map (\<lambda>i. rnd (addr + of_nat i)) [0..<unat sz]"])
     (simp add: add_range_new [OF assms] set_device_blk)

lemma fill_st:
  assumes "fits addr (unat sz)" and "sz \<le> 8"
  shows "Option.bind (gd_add_range rnd addr sz gd_new) (\<lambda>d. map_option (set_device_if io) (gd_set_data addr sz v d)) =
    Some (blk io addr (le_bytes (unat sz) v))"
  using add_range_new [OF assms(1)] set_data_blk [of addr "map (\<lambda>i. rnd (addr + of_nat i)) [0..<unat sz]"] assms
  by (simp add: set_device_blk)

lemma compare_front:
  assumes "co_rob c = e # es" "re_rid e = rid" "re_ld e = blk io' addr (mem_bytes addr (unat sz) m)"
    and "fits addr (unat sz)" "sz \<le> 8"
  shows "\<exists>s'. compare_load rnd cid rid addr sz rd io (c, s) =
      Some (io \<or> unat rd = sc_read addr (unat sz) m, c, s') \<and> g_mem s' = g_mem s \<and> g_instid s' = g_instid s"
proof -
  obtain v where v: "gd_get_data rnd addr sz (re_ld e) = Some v" "unat v = le_nat (mem_bytes addr (unat sz) m)"
    using get_data_blk [of addr "mem_bytes addr (unat sz) m"] assms by force
  then have "v = rd \<longleftrightarrow> unat rd = sc_read addr (unat sz) m"
    unfolding sc_read_def mem_bytes_def by (metis word_unat_eq_iff)
  with v(1) assms(1,2) show ?thesis by (auto simp: compare_load_def find_front)
qed

end
