(* ===== verification/Gold_Flags.thy ===== *)
theory Gold_Flags
  imports Gold_Order
begin

text \<open>
  What a store does to the younger loads of its core: each that has been performed is performed
  again and marked, whether or not its bytes have changed.
\<close>

section \<open>Shapes\<close>

text \<open>Operations that write bytes keep addresses and sizes, on which all tests of overlap depend.\<close>

definition data_shape :: "gold_data \<Rightarrow> (u64 \<times> nat) list \<times> bool" where
  "data_shape d = (map (\<lambda>c. (gc_addr c, length (gc_data c))) (gd_chunks d), gd_device d)"

definition data_wf :: "gold_data \<Rightarrow> bool" where
  "data_wf d \<longleftrightarrow> (\<forall>c \<in> set (gd_chunks d). fits (gc_addr c) (length (gc_data c)))"

definition data_hit :: "u64 \<Rightarrow> gold_data \<Rightarrow> bool" where
  "data_hit a d \<longleftrightarrow> (\<exists>c \<in> set (gd_chunks d). chunk_is_hit a c)"

lemma data_wf_shape: "data_wf d \<longleftrightarrow> (\<forall>(a, n) \<in> set (fst (data_shape d)). fits a n)"
  by (auto simp: data_wf_def data_shape_def)

lemma data_hit_shape: "data_hit a d \<longleftrightarrow> (\<exists>(b, n) \<in> set (fst (data_shape d)). b \<le> a \<and> a < b + of_nat n)"
  by (auto simp: data_hit_def data_shape_def chunk_is_hit_def chunk_end_def)

lemma has_data_shape: "gd_has_data d \<longleftrightarrow> fst (data_shape d) \<noteq> []"
  by (simp add: gd_has_data_def data_shape_def)

lemma device_shape: "gd_device d = snd (data_shape d)"
  by (simp add: data_shape_def)

lemma shape_eqD:
  assumes "data_shape d' = data_shape d"
  shows "data_wf d' = data_wf d" "data_hit a d' = data_hit a d" "gd_has_data d' = gd_has_data d"
    "gd_device d' = gd_device d"
  using assms by (simp_all add: data_wf_shape data_hit_shape has_data_shape device_shape)

lemma hit_offset:
  assumes "fits (gc_addr c) (length (gc_data c))"
  shows "chunk_is_hit a c \<longleftrightarrow> unat (a - gc_addr c) < length (gc_data c)"
  using hit_block [OF assms, of a] by (cases c) (simp add: chunk_is_hit_def chunk_end_def)

lemma set_byte_hit:
  assumes "data_wf d" and "data_hit a d"
  shows "\<exists>d'. gd_set_byte a b d = Some d' \<and> data_shape d' = data_shape d"
proof -
  have "\<exists>cs'. chunks_set_byte a b cs = Some cs' \<and>
      map (\<lambda>c. (gc_addr c, length (gc_data c))) cs' = map (\<lambda>c. (gc_addr c, length (gc_data c))) cs"
    if "\<forall>c \<in> set cs. fits (gc_addr c) (length (gc_data c))" "\<exists>c \<in> set cs. chunk_is_hit a c" for cs
    using that
  proof (induction cs)
    case (Cons c cs)
    show ?case
    proof (cases "chunk_is_hit a c")
      case True
      with Cons.prems hit_offset [of c a] show ?thesis by (auto simp: chunk_set_byte_def)
    next
      case False
      with Cons obtain cs' where "chunks_set_byte a b cs = Some cs'"
          "map (\<lambda>c. (gc_addr c, length (gc_data c))) cs' = map (\<lambda>c. (gc_addr c, length (gc_data c))) cs" by auto
      with False show ?thesis by (intro exI [of _ "c # cs'"]) simp
    qed
  qed simp
  with assms show ?thesis by (fastforce simp: data_wf_def data_hit_def data_shape_def gd_set_byte_def)
qed

section \<open>Loads are performed\<close>

lemma fold_opt_total:
  assumes "\<And>x s. x \<in> set xs \<Longrightarrow> P s \<Longrightarrow> \<exists>s'. f x s = Some s' \<and> P s'" and "P s"
  shows "\<exists>s'. fold_opt f xs s = Some s' \<and> P s'"
  using assms
proof (induction xs arbitrary: s)
  case (Cons x xs)
  then obtain s1 where "f x s = Some s1" "P s1" by (metis list.set_intros(1))
  with Cons.IH [of s1] Cons.prems(1) show ?case by simp
qed simp

lemma mem_ld_perform_total:
  assumes wf: "data_wf d"
  shows "\<exists>m' d'. mem_ld_perform gb d m = Some (m', d') \<and> data_shape d' = data_shape d"
proof -
  have "\<exists>p. fold_opt (mem_ld_byte gb) (concat (map chunk_addrs (gd_chunks d))) (m, d) = Some p \<and>
      data_shape (snd p) = data_shape d"
  proof (rule fold_opt_total)
    fix a and p :: "gold_mem \<times> gold_data"
    assume "a \<in> set (concat (map chunk_addrs (gd_chunks d)))" and p: "data_shape (snd p) = data_shape d"
    then obtain c i where "c \<in> set (gd_chunks d)" "i < length (gc_data c)" "a = gc_addr c + of_nat i"
      by (auto simp: chunk_addrs_def)
    moreover from this have "chunk_is_hit a c"
      using wf hit_offset [of c a] unat_of_nat_fits [of "gc_addr c" "length (gc_data c)" i] by (auto simp: data_wf_def)
    ultimately have "data_hit a d" by (auto simp: data_hit_def)
    then have set: "\<exists>d'. gd_set_byte a b (snd p) = Some d' \<and> data_shape d' = data_shape d" for b
      using set_byte_hit [of "snd p" a b] wf shape_eqD [OF p] p by auto
    obtain m x where mx: "p = (m, x)" by (cases p) auto
    obtain d' where "gd_set_byte a (case m a of None \<Rightarrow> gb a | Some b \<Rightarrow> b) x = Some d'" "data_shape d' = data_shape d"
      using set [of "case m a of None \<Rightarrow> gb a | Some b \<Rightarrow> b"] mx by auto
    then show "\<exists>q. mem_ld_byte gb a p = Some q \<and> data_shape (snd q) = data_shape d"
      unfolding mx mem_ld_byte_def by (cases "m a") simp_all
  qed simp
  then show ?thesis by (auto simp: mem_ld_perform_def)
qed

lemma has_byte_hit:
  assumes "data_wf d" and "gd_has_byte a d" and "a \<noteq> - 1" shows "data_hit a d"
proof -
  obtain c where c: "c \<in> set (gd_chunks d)" "gc_addr c \<le> a" "a + 1 \<le> chunk_end c"
    using assms(2) by (auto simp: gd_has_byte_def gd_has_full_overlap_def)
  have "1 + a \<noteq> 0" using assms(3) by (metis add_eq_0_iff)
  then have "a < chunk_end c" using c(3) unatSuc [of a] by (simp add: word_le_nat_alt word_less_nat_alt add.commute)
  with c show ?thesis by (auto simp: data_hit_def chunk_is_hit_def)
qed

lemma fits_not_last: "fits addr n \<Longrightarrow> i < n \<Longrightarrow> addr + of_nat i \<noteq> (- 1 :: u64)"
  using unat_add_fits [of addr n i] by (auto simp: fits_def unsigned_minus_1_eq_mask mask_eq_exp_minus_1)

lemma update_newer_total:
  assumes wf: "data_wf d" "data_wf d2"
  shows "\<exists>d'. gd_update_newer d2 d = Some d' \<and> data_shape d' = data_shape d"
  unfolding gd_update_newer_def
proof (rule fold_opt_total)
  fix c x assume c: "c \<in> set (gd_chunks d2)" and x: "data_shape x = data_shape d"
  let ?f = "\<lambda>i d. if gd_has_byte (gc_addr c + of_nat i) d
                   then gd_set_byte (gc_addr c + of_nat i) (gc_data c ! i) d else Some d"
  have "\<exists>y. fold_opt ?f [0..<length (gc_data c)] x = Some y \<and> data_shape y = data_shape d"
  proof (rule fold_opt_total)
    fix i y assume i: "i \<in> set [0..<length (gc_data c)]" and y: "data_shape y = data_shape d"
    have "fits (gc_addr c) (length (gc_data c))" using c wf(2) by (simp add: data_wf_def)
    with i have "gc_addr c + of_nat i \<noteq> - 1" by (intro fits_not_last) auto
    with has_byte_hit [of y] wf(1) set_byte_hit [of y] shape_eqD(1) [OF y] y
    show "\<exists>z. ?f i y = Some z \<and> data_shape z = data_shape d" by auto
  qed (rule x)
  with x show "\<exists>y. (if gd_has_partial_overlap (gc_addr c) (chunk_size8 c) x
      then fold_opt ?f [0..<length (gc_data c)] x else Some x) = Some y \<and> data_shape y = data_shape d"
    by auto
qed simp

section \<open>The queue\<close>

definition rob_wf :: "rob_entry list \<Rightarrow> bool" where
  "rob_wf es \<longleftrightarrow> sorted_wrt (\<lambda>e e'. re_rid e' < re_rid e) es \<and> (\<forall>e \<in> set es. data_wf (re_ld e) \<and> data_wf (re_st e))"

lemma rob_wf_distinct:
  assumes "rob_wf es" and "i < length es" and "j < length es" and "re_rid (es ! i) = re_rid (es ! j)"
  shows "i = j"
proof -
  have "\<And>i j. i < j \<Longrightarrow> j < length es \<Longrightarrow> re_rid (es ! j) < re_rid (es ! i)"
    using assms(1) by (auto simp: rob_wf_def sorted_wrt_iff_nth_less)
  with assms(2-4) show ?thesis by (metis less_irrefl linorder_neqE_nat)
qed

lemma rob_find_SomeI:
  "k < length es \<Longrightarrow> re_rid (es ! k) = rid \<Longrightarrow> (\<And>j. j < k \<Longrightarrow> re_rid (es ! j) \<noteq> rid) \<Longrightarrow> rob_find rid es = Some k"
proof (induction es arbitrary: k)
  case (Cons e es)
  show ?case
  proof (cases k)
    case (Suc n)
    with Cons.prems Cons.IH [of n] show ?thesis by fastforce
  qed (use Cons.prems in simp)
qed simp

lemma rob_find_wf:
  assumes "rob_wf es" and "k < length es" and "re_rid (es ! k) = rid"
  shows "rob_find rid es = Some k"
  using assms rob_wf_distinct [OF assms(1)] by (intro rob_find_SomeI) (auto, metis less_trans nat_neq_iff)

lemma rob_rfind_wf:
  assumes "rob_wf es" and "k < length es" and "re_rid (es ! k) = rid"
  shows "rob_rfind rid es = Some k"
proof -
  have "rob_find rid (rev es) = Some (length es - Suc k)"
  proof (rule rob_find_SomeI)
    fix j assume j: "j < length es - Suc k"
    show "re_rid (rev es ! j) \<noteq> rid"
      using rob_wf_distinct [OF assms(1), of "length es - Suc j" k] assms(2,3) j by (auto simp: rev_nth)
  qed (use assms in \<open>simp_all add: rev_nth\<close>)
  with assms(2) show ?thesis by (simp add: rob_rfind_def)
qed

lemma rob_older:
  assumes "rob_wf es" and "k < length es" and "re_rid (es ! k) = rid"
    and "e \<in> set (takeWhile (\<lambda>e. re_rid e \<noteq> rid) (rev es))"
  shows "e \<in> set es" and "re_rid e < rid"
proof -
  have split: "rev es = rev (drop (Suc k) es) @ es ! k # rev (take k es)"
    using id_take_nth_drop [OF assms(2)] by (metis append.assoc append_Cons append_Nil rev.simps(2) rev_append)
  have older: "\<forall>e \<in> set (drop (Suc k) es). re_rid e < rid"
    using assms(1-3) by (auto simp: rob_wf_def sorted_wrt_iff_nth_less in_set_conv_nth)
  then have "takeWhile (\<lambda>e. re_rid e \<noteq> rid) (rev es) = rev (drop (Suc k) es)"
    unfolding split using assms(3) by (subst takeWhile_append2) auto
  with assms(4) older show "e \<in> set es" "re_rid e < rid" by (auto dest: in_set_dropD)
qed

lemma ld_perform_wf:
  assumes wf: "rob_wf (co_rob c)" and j: "j < length (co_rob c)" and ld: "gd_has_data (re_ld (co_rob c ! j))"
  shows "\<exists>s' d. gold_ld_perform gb (re_rid (co_rob c ! j)) (c, s) =
      Some (rob_modify j (\<lambda>e. e\<lparr>re_ld := d, re_performed := True, re_error := []\<rparr>) c, s') \<and>
    data_shape d = data_shape (re_ld (co_rob c ! j))"
proof -
  let ?e = "co_rob c ! j" and ?rob = "co_rob c"
  let ?older = "takeWhile (\<lambda>e. re_rid e \<noteq> re_rid ?e) (rev ?rob)"
  have ewf: "e \<in> set ?rob \<Longrightarrow> data_wf (re_ld e) \<and> data_wf (re_st e)" for e using wf by (simp add: rob_wf_def)
  note find = rob_find_wf [OF wf j refl] and rfind = rob_rfind_wf [OF wf j refl]
  obtain m d where m: "mem_ld_perform gb (re_ld ?e) (g_mem s) = Some (m, d)" "data_shape d = data_shape (re_ld ?e)"
    using mem_ld_perform_total [of "re_ld ?e"] ewf j by force
  have "\<exists>p. fold_opt (ld_forward (re_rid ?e)) ?older (s\<lparr>g_mem := m\<rparr>, d) = Some p \<and> data_shape (snd p) = data_shape (re_ld ?e)"
  proof (rule fold_opt_total)
    fix e and p :: "gold_sys \<times> gold_data"
    assume e: "e \<in> set ?older" and p: "data_shape (snd p) = data_shape (re_ld ?e)"
    from rob_older [OF wf j refl e] ewf have "re_rid e < re_rid ?e" "data_wf (re_st e)" by auto
    moreover have "data_wf (snd p)" using shape_eqD(1) [OF p] ewf j by simp
    ultimately show "\<exists>q. ld_forward (re_rid ?e) e p = Some q \<and> data_shape (snd q) = data_shape (re_ld ?e)"
      using update_newer_total [of "snd p" "re_st e"] p by (cases p) (auto simp: ld_forward_def)
  qed (use m in simp)
  then obtain s' d' where fold: "fold_opt (ld_forward (re_rid ?e)) ?older (s\<lparr>g_mem := m\<rparr>, d) = Some (s', d')"
      "data_shape d' = data_shape (re_ld ?e)" by auto
  have ne: "?rob \<noteq> []" using j by auto
  have fe: "find_entry (re_rid ?e) (c, s) = (?e, c, s)" by (simp add: find_entry_def find)
  have pe: "put_entry (re_rid ?e) x (c, t) = (rob_modify j (\<lambda>_. x) c, t)" for x t by (simp add: put_entry_def find)
  show ?thesis
  proof (cases "re_rid (last ?rob) = re_rid ?e")
    case True
    with m ld ne show ?thesis by (auto simp: gold_ld_perform_def fe pe rob_modify_def)
  next
    case False
    with m ld ne fold rfind show ?thesis by (auto simp: gold_ld_perform_def fe pe rob_modify_def)
  qed
qed

section \<open>Marks\<close>

lemma chunks_ne_refl: "chunks_ne cs cs"
  by (induction cs) auto

lemma gd_ne_refl: "gd_ne d d \<longleftrightarrow> \<not> gd_device d"
  by (simp add: gd_ne_def chunks_ne_refl)

definition marked :: "int \<Rightarrow> bool \<Rightarrow> rob_entry \<Rightarrow> rob_entry \<Rightarrow> bool" where
  "marked iid b e e' \<longleftrightarrow> re_rid e' = re_rid e \<and> data_shape (re_ld e') = data_shape (re_ld e) \<and> re_st e' = re_st e \<and>
     re_performed e' = re_performed e \<and>
     re_error e' = (if b \<and> gd_has_data (re_ld e) \<and> re_performed e then if gd_device (re_ld e) then [] else [iid]
                    else re_error e)"

definition rob_marked :: "int \<Rightarrow> nat \<Rightarrow> rob_entry list \<Rightarrow> rob_entry list \<Rightarrow> bool" where
  "rob_marked iid k es es' \<longleftrightarrow> length es' = length es \<and> (\<forall>j < length es. marked iid (j < k) (es ! j) (es' ! j))"

lemma rob_marked_wf: "rob_marked iid k es es' \<Longrightarrow> rob_wf es \<Longrightarrow> rob_wf es'"
  by (auto simp: rob_wf_def rob_marked_def marked_def sorted_wrt_iff_nth_less all_set_conv_all_nth dest!: shape_eqD(1))

lemma check_load_marks:
  assumes wf: "rob_wf (co_rob c)" and k: "k < length (co_rob c)"
  shows "\<exists>e' s'. st_check_load gb iid k (c, s) = Some (rob_modify k (\<lambda>_. e') c, s') \<and> marked iid True (co_rob c ! k) e'"
proof (cases "gd_has_data (re_ld (co_rob c ! k)) \<and> re_performed (co_rob c ! k)")
  case True
  let ?e = "co_rob c ! k"
  obtain s1 d where 1: "gold_ld_perform gb (re_rid ?e) (c, s) =
      Some (rob_modify k (\<lambda>e. e\<lparr>re_ld := d, re_performed := True, re_error := []\<rparr>) c, s1)"
    and d: "data_shape d = data_shape (re_ld ?e)"
    using ld_perform_wf [OF wf k] True by blast
  let ?c1 = "rob_modify k (\<lambda>e. e\<lparr>re_ld := d, re_performed := True, re_error := []\<rparr>) c"
  have nth: "co_rob ?c1 ! k = ?e\<lparr>re_ld := d, re_performed := True, re_error := []\<rparr>" and len: "length (co_rob ?c1) = length (co_rob c)"
    using k by (simp_all add: rob_modify_def)
  have "rob_marked iid 0 ((co_rob c)[k := ?e\<lparr>re_error := []\<rparr>]) (co_rob ?c1)"
    using True d k by (auto simp: rob_marked_def marked_def rob_modify_def nth_list_update)
  moreover have "rob_wf ((co_rob c)[k := ?e\<lparr>re_error := []\<rparr>])"
    using wf k by (auto simp: rob_wf_def sorted_wrt_iff_nth_less nth_list_update all_set_conv_all_nth)
  ultimately have "rob_wf (co_rob ?c1)" by (rule rob_marked_wf)
  then have find: "rob_find (re_rid ?e) (co_rob ?c1) = Some k"
    by (rule rob_find_wf) (use k in \<open>simp_all add: len nth\<close>)
  let ?e' = "\<lambda>x. ?e\<lparr>re_ld := d, re_performed := True, re_error := x\<rparr>"
  have fe: "find_entry (re_rid ?e) (?c1, s1) = (?e' [], ?c1, s1)" by (simp add: find_entry_def find nth)
  have two: "rob_modify k (\<lambda>e. e\<lparr>re_error := x\<rparr>) ?c1 = rob_modify k (\<lambda>_. ?e' x) c" for x
    using k by (simp add: rob_modify_def)
  have "st_check_load gb iid k (c, s) =
      Some (if \<not> gd_device d then (rob_modify k (\<lambda>_. ?e' [iid]) c, gold_say (Msg_data_changed (re_rid ?e)) s1)
            else (rob_modify k (\<lambda>_. ?e' []) c, s1))"
    using True by (simp add: st_check_load_def Let_def 1 fe nth gd_ne_refl two) (simp add: rob_modify_def)
  then show ?thesis using True d shape_eqD(4) [OF d] by (auto simp: marked_def)
next
  case False
  then show ?thesis
    by (intro exI [of _ "co_rob c ! k"] exI [of _ s]) (auto simp: st_check_load_def marked_def rob_modify_def)
qed

lemma check_loads_mark:
  assumes "rob_wf (co_rob c)" and "k \<le> length (co_rob c)"
  shows "\<exists>c' s'. fold_opt (st_check_load gb iid) (rev [0..<k]) (c, s) = Some (c', s') \<and>
    rob_marked iid k (co_rob c) (co_rob c')"
  using assms
proof (induction k arbitrary: c s)
  case 0
  then show ?case by (simp add: rob_marked_def marked_def)
next
  case (Suc k)
  from check_load_marks [OF Suc.prems(1), of k gb iid s] Suc.prems(2) obtain e' s1 where 1:
      "st_check_load gb iid k (c, s) = Some (rob_modify k (\<lambda>_. e') c, s1)" "marked iid True (co_rob c ! k) e'"
    by auto
  let ?c1 = "rob_modify k (\<lambda>_. e') c"
  have c1: "co_rob ?c1 = (co_rob c)[k := e']" by (simp add: rob_modify_def)
  have "rob_wf (co_rob ?c1)"
    using Suc.prems 1(2) unfolding c1
    by (auto simp: rob_wf_def marked_def sorted_wrt_iff_nth_less nth_list_update all_set_conv_all_nth dest!: shape_eqD(1))
  from Suc.IH [OF this, of s1] Suc.prems(2) obtain c' s' where 2:
      "fold_opt (st_check_load gb iid) (rev [0..<k]) (?c1, s1) = Some (c', s')"
      "rob_marked iid k (co_rob ?c1) (co_rob c')" by (auto simp: c1)
  have "rob_marked iid (Suc k) (co_rob c) (co_rob c')"
    using 1(2) 2(2) Suc.prems(2) unfolding c1
    by (fastforce simp: rob_marked_def marked_def nth_list_update split: if_splits)
  with 1 2 show ?case by (simp add: rob_modify_def)
qed

text \<open>
  C26. A store that is performed locally, its assertions holding, marks every younger load of its core
  that has been performed and is not a device access as changed by it, whether or not the bytes
  overlap: the comparison of the data before and after sees the same object twice and its operator
  is inverted.  Marks of all other entries stay.
\<close>

theorem local_store_marks_younger_loads:
  assumes "rob_wf (co_rob c)" and "k < length (co_rob c)" and "re_rid (co_rob c ! k) = iid"
    and "gd_has_data (re_st (co_rob c ! k))"
  shows "\<exists>c' s'. gold_st_locally_perform gb iid (c, s) = Some (c', s') \<and> length (co_rob c') = length (co_rob c) \<and>
    (\<forall>j < length (co_rob c). re_error (co_rob c' ! j) =
       (if j < k \<and> gd_has_data (re_ld (co_rob c ! j)) \<and> re_performed (co_rob c ! j)
        then if gd_device (re_ld (co_rob c ! j)) then [] else [iid]
        else re_error (co_rob c ! j)))"
proof -
  let ?e = "co_rob c ! k"
  let ?c1 = "rob_modify k (\<lambda>_. ?e\<lparr>re_performed := True\<rparr>) c"
  have c1: "co_rob ?c1 = (co_rob c)[k := ?e\<lparr>re_performed := True\<rparr>]" by (simp add: rob_modify_def)
  note find = rob_find_wf [OF assms(1-3)]
  have wf: "rob_wf (co_rob ?c1)"
    using assms(1,2) unfolding c1
    by (auto simp: rob_wf_def sorted_wrt_iff_nth_less nth_list_update all_set_conv_all_nth)
  have rfind: "rob_rfind iid (co_rob ?c1) = Some k"
    by (rule rob_rfind_wf [OF wf]) (use assms in \<open>simp_all add: c1\<close>)
  obtain c' s' where 1: "fold_opt (st_check_load gb iid) (rev [0..<k]) (?c1, s) = Some (c', s')"
      "rob_marked iid k (co_rob ?c1) (co_rob c')"
    using check_loads_mark [OF wf, of k gb iid s] assms(2) by (auto simp: c1)
  have "gold_st_locally_perform gb iid (c, s) = Some (c', s')"
    using find rfind assms(4) 1(1) by (simp add: gold_st_locally_perform_def find_entry_def put_entry_def)
  moreover have "\<forall>j < length (co_rob c). re_error (co_rob c' ! j) =
       (if j < k \<and> gd_has_data (re_ld (co_rob c ! j)) \<and> re_performed (co_rob c ! j)
        then if gd_device (re_ld (co_rob c ! j)) then [] else [iid]
        else re_error (co_rob c ! j))"
  proof (intro allI impI)
    fix j assume j: "j < length (co_rob c)"
    then have "marked iid (j < k) (co_rob ?c1 ! j) (co_rob c' ! j)" using 1(2) by (simp add: rob_marked_def c1)
    then show "re_error (co_rob c' ! j) =
       (if j < k \<and> gd_has_data (re_ld (co_rob c ! j)) \<and> re_performed (co_rob c ! j)
        then if gd_device (re_ld (co_rob c ! j)) then [] else [iid]
        else re_error (co_rob c ! j))"
      using j by (cases "j = k") (simp_all add: c1 marked_def)
  qed
  ultimately show ?thesis using 1(2) by (auto simp: rob_marked_def c1)
qed

text \<open>
  The state of \<open>gold/core_test.cpp\<close> when the store is performed: a younger load has read the bytes
  0x134 to 0x136, an older one the byte 0x135.
\<close>

definition core_test :: gold_core where
  "core_test = \<lparr>co_rob =
     [(rob_entry_new 3)\<lparr>re_ld := blk False 0x134 [0x13, 0x13, 0x13], re_performed := True\<rparr>,
      (rob_entry_new 2)\<lparr>re_st := blk False 0x135 [0x55, 0x66], re_op := Mem_load\<rparr>,
      (rob_entry_new 1)\<lparr>re_ld := blk False 0x135 [0x13], re_op := Mem_load, re_performed := True\<rparr>],
     co_pnr = 2, co_cid = 0\<rparr>"

theorem local_store_marks_younger_loads_witness:
  "\<exists>c' s'. gold_st_locally_perform (\<lambda>a. ucast (drop_bit 4 a)) 2 (core_test, br_sys check_inorder_start) = Some (c', s') \<and>
     re_error (co_rob c' ! 0) = [2] \<and> re_error (co_rob c' ! 2) = []"
proof -
  have wf: "rob_wf (co_rob core_test)" "1 < length (co_rob core_test)" "re_rid (co_rob core_test ! 1) = 2"
      "gd_has_data (re_st (co_rob core_test ! 1))"
    by (simp_all add: core_test_def rob_wf_def data_wf_def fits_def blk_def gd_new_def gd_has_data_def)
  have "length (co_rob core_test) = 3" "re_performed (co_rob core_test ! 0)"
      "gd_has_data (re_ld (co_rob core_test ! 0))" "\<not> gd_device (re_ld (co_rob core_test ! 0))"
      "re_error (co_rob core_test ! 2) = []"
    by (simp_all add: core_test_def rob_entry_new_def blk_def gd_has_data_def)
  with local_store_marks_younger_loads [OF wf, of "\<lambda>a. ucast (drop_bit 4 a)" "br_sys check_inorder_start"]
  show ?thesis by fastforce
qed

end
