(* ===== verification/Gold_Props.thy ===== *)
theory Gold_Props
  imports Gold_Order
begin

text \<open>The properties of the gold memory checker.\<close>

section \<open>One call\<close>

definition gold_ready :: "gold_op \<Rightarrow> gold_bridge \<Rightarrow> bool" where
  "gold_ready x b \<longleftrightarrow> op_core x < length (br_cores b) \<and>
     (case op_range x of (addr, sz) \<Rightarrow> sz \<le> 8 \<and> fits addr (unat sz))"

definition call_ok :: "gold_bridge \<Rightarrow> (bool \<times> gold_bridge) option \<Rightarrow> bool \<times> gold_mem \<Rightarrow> bool" where
  "call_ok b r t \<longleftrightarrow>
     (\<exists>b'. r = Some (fst t, b') \<and> (fst t \<longrightarrow> bridge_inv b') \<and> length (br_cores b') = length (br_cores b) \<and>
        g_mem (br_sys b') = snd t \<and> g_instid (br_sys b') = g_instid (br_sys b) + 1)"

lemma call_okI:
  assumes "cid < length (br_cores b)" and "bridge_inv b"
    and "\<exists>c' s'. f (br_cores b ! cid, br_sys b) = Some (x, c', s') \<and> g_instid s' = g_instid (br_sys b) + 1 \<and>
      g_mem s' = m \<and> (\<forall>e \<in> set (co_rob c'). x \<longrightarrow> re_rid e \<le> g_instid s' \<and> \<not> gd_has_data (re_st e))"
  shows "call_ok b (on_core cid f b) (x, m)"
proof -
  obtain c' s' where 1: "f (br_cores b ! cid, br_sys b) = Some (x, c', s')" "g_instid s' = g_instid (br_sys b) + 1"
      "g_mem s' = m" "\<forall>e \<in> set (co_rob c'). x \<longrightarrow> re_rid e \<le> g_instid s' \<and> \<not> gd_has_data (re_st e)"
    using assms(3) by blast
  have "g_instid (br_sys b) \<le> g_instid s'" using 1(2) by simp
  from on_core_cases [of cid b f x c' s', OF assms(1,2) 1(1) this] 1(2-4)
  show ?thesis unfolding call_ok_def by (cases x) auto
qed

lemma core_quiet:
  assumes "bridge_inv b" and "cid < length (br_cores b)"
  shows "\<forall>e \<in> set (co_rob (br_cores b ! cid)). re_rid e \<le> g_instid (br_sys b) \<and> \<not> gd_has_data (re_st e)"
  using assms by (auto simp: bridge_inv_def)

text \<open>The part a load and an atomic operation share: the load is performed and compared.\<close>

lemma perform_compare:
  assumes rob: "co_rob c = e # es" "re_rid e = rid" and quiet: "quiet rid es"
    and ld: "re_ld e = blk io addr bs" and n: "length bs = unat sz" and fits: "fits addr (unat sz)" and sz: "sz \<le> 8"
  shows "\<exists>c' s' e'. Option.bind (gold_ld_perform gb rid (c, s)) (compare_load rnd cid rid addr sz rd io) =
      Some (io \<or> unat rd = sc_read addr (unat sz) (sc_touch gb addr (unat sz) (g_mem s)), c', s') \<and>
    co_rob c' = e' # es \<and> re_rid e' = rid \<and> re_st e' = re_st e \<and>
    g_mem s' = sc_touch gb addr (unat sz) (g_mem s) \<and> g_instid s' = g_instid s"
proof -
  have fits': "fits addr (length bs)" using fits n by simp
  obtain c1 s1 e1 where 1: "gold_ld_perform gb rid (c, s) = Some (c1, s1)" "co_rob c1 = e1 # es" "re_rid e1 = rid"
      "re_st e1 = re_st e" "re_ld e1 = blk io addr (mem_bytes addr (unat sz) (sc_touch gb addr (unat sz) (g_mem s)))"
      "g_mem s1 = sc_touch gb addr (unat sz) (g_mem s)" "g_instid s1 = g_instid s"
    using ld_perform_front [OF rob quiet ld fits', of gb s] unfolding n by blast
  from compare_front [OF 1(2,3,5) fits sz, of rnd cid rd io s1] 1 show ?thesis by auto
qed

lemma load_call:
  assumes inv: "bridge_inv b" and i: "g_instid (br_sys b) < 2 ^ 31 - 1" and x: "gold_ready (Op_load cid addr sz rd io) b"
  shows "call_ok b (check_inorder_load rnd gb cid addr sz rd io b) (sc_op gb (Op_load cid addr sz rd io) (g_mem (br_sys b)))"
proof -
  let ?c = "br_cores b ! cid" and ?s = "br_sys b" and ?rid = "g_instid (br_sys b) + 1"
  let ?m = "sc_touch gb addr (unat sz) (g_mem ?s)"
  have cid: "cid < length (br_cores b)" and sz: "sz \<le> 8" and fits: "fits addr (unat sz)"
    using x by (simp_all add: gold_ready_def)
  note start = inorder_front [OF i core_quiet [OF inv cid]]
  obtain bs where bs: "map_option (set_device_if io) (gd_add_range (rnd 0) addr sz gd_new) = Some (blk io addr bs)"
      "length bs = unat sz"
    using fill_ld [OF fits] by blast
  let ?e = "(rob_entry_new ?rid)\<lparr>re_ld := blk io addr bs\<rparr>"
  let ?c1 = "?c\<lparr>co_rob := ?e # co_rob ?c\<rparr>" and ?s1 = "?s\<lparr>g_instid := ?rid\<rparr>"
  obtain c' s' e' where p: "Option.bind (gold_ld_perform gb ?rid (?c1, ?s1)) (compare_load (rnd 1) cid ?rid addr sz rd io) =
        Some (io \<or> unat rd = sc_read addr (unat sz) ?m, c', s')"
      "co_rob c' = e' # co_rob ?c" "re_rid e' = ?rid" "re_st e' = gd_new" "g_mem s' = ?m" "g_instid s' = ?rid"
    using perform_compare [of ?c1 ?e "co_rob ?c" ?rid io addr bs sz gb ?s1 "rnd 1" cid rd, OF _ _ start(2) _ bs(2) fits sz]
    by auto
  show ?thesis
    unfolding check_inorder_load_def sc_op.simps Let_def
  proof (rule call_okI [OF cid inv], intro exI conjI)
    show "do {
        (rid, p) \<leftarrow> gold_inorder (?c, ?s);
        p \<leftarrow> with_ld_data rid (\<lambda>d. map_option (set_device_if io) (gd_add_range (rnd 0) addr sz d)) p;
        p \<leftarrow> gold_ld_perform gb rid p;
        compare_load (rnd 1) cid rid addr sz rd io p
      } = Some (io \<or> unat rd = sc_read addr (unat sz) ?m, c', s')"
      using p(1) bs(1) by (simp add: start(1) with_ld_front [where d = "blk io addr bs"])
    show "\<forall>e \<in> set (co_rob c'). (io \<or> unat rd = sc_read addr (unat sz) ?m) \<longrightarrow>
        re_rid e \<le> g_instid s' \<and> \<not> gd_has_data (re_st e)"
      using core_quiet [OF inv cid] p by (fastforce simp: gd_new_def gd_has_data_def)
  qed (use p in simp_all)
qed

lemma store_call:
  assumes inv: "bridge_inv b" and i: "g_instid (br_sys b) < 2 ^ 31 - 1" and x: "gold_ready (Op_store cid addr sz st io) b"
  shows "call_ok b (check_inorder_store rnd gb cid addr sz st io b) (sc_op gb (Op_store cid addr sz st io) (g_mem (br_sys b)))"
proof -
  let ?c = "br_cores b ! cid" and ?s = "br_sys b" and ?rid = "g_instid (br_sys b) + 1"
  have cid: "cid < length (br_cores b)" and sz: "sz \<le> 8" and fits: "fits addr (unat sz)"
    using x by (simp_all add: gold_ready_def)
  note start = inorder_front [OF i core_quiet [OF inv cid]]
  let ?d = "blk io addr (le_bytes (unat sz) st)"
  let ?e = "(rob_entry_new ?rid)\<lparr>re_st := ?d\<rparr>"
  let ?c1 = "?c\<lparr>co_rob := ?e # co_rob ?c\<rparr>" and ?s1 = "?s\<lparr>g_instid := ?rid\<rparr>"
  obtain c' s' where p: "gold_st_globally_perform gb ?rid (?c1, ?s1) = Some (c', s')" "co_rob c' = []"
      "g_mem s' = sc_write addr (unat sz) st (g_mem ?s)" "g_instid s' = ?rid"
    using st_globally_front [of ?c1 ?e "co_rob ?c" ?rid io addr "unat sz" st gb ?s1, OF _ _ start(2) _ fits] by auto
  show ?thesis
    unfolding check_inorder_store_def sc_op.simps
  proof (rule call_okI [OF cid inv], intro exI conjI)
    show "do {
        (rid, p) \<leftarrow> gold_inorder (?c, ?s);
        p \<leftarrow> with_st_data rid (\<lambda>d. do {
               d \<leftarrow> gd_add_range (rnd 0) addr sz d;
               map_option (set_device_if io) (gd_set_data addr sz st d) }) p;
        p \<leftarrow> gold_st_globally_perform gb rid p;
        Some (True, p)
      } = Some (True, c', s')"
      using p(1) by (simp add: start(1) with_st_front [where d = ?d] fill_st [OF fits sz])
  qed (use p in simp_all)
qed

lemma amo_call:
  assumes inv: "bridge_inv b" and i: "g_instid (br_sys b) < 2 ^ 31 - 1" and x: "gold_ready (Op_amo cid addr sz st rd io) b"
  shows "call_ok b (check_inorder_amo rnd gb cid addr sz st rd io b) (sc_op gb (Op_amo cid addr sz st rd io) (g_mem (br_sys b)))"
proof -
  let ?c = "br_cores b ! cid" and ?s = "br_sys b" and ?rid = "g_instid (br_sys b) + 1"
  let ?m = "sc_touch gb addr (unat sz) (g_mem ?s)"
  let ?ok = "io \<or> unat rd = sc_read addr (unat sz) ?m"
  have cid: "cid < length (br_cores b)" and sz: "sz \<le> 8" and fits: "fits addr (unat sz)"
    using x by (simp_all add: gold_ready_def)
  note start = inorder_front [OF i core_quiet [OF inv cid]]
  obtain bs where bs: "map_option (set_device_if io) (gd_add_range (rnd 1) addr sz gd_new) = Some (blk io addr bs)"
      "length bs = unat sz"
    using fill_ld [OF fits] by blast
  let ?d = "blk io addr (le_bytes (unat sz) st)"
  let ?e = "(rob_entry_new ?rid)\<lparr>re_st := ?d, re_ld := blk io addr bs\<rparr>"
  let ?c1 = "?c\<lparr>co_rob := ?e # co_rob ?c\<rparr>" and ?s1 = "?s\<lparr>g_instid := ?rid\<rparr>"
  obtain c2 s2 e2 where p: "Option.bind (gold_ld_perform gb ?rid (?c1, ?s1)) (compare_load (rnd 2) cid ?rid addr sz rd io) =
        Some (?ok, c2, s2)"
      "co_rob c2 = e2 # co_rob ?c" "re_rid e2 = ?rid" "re_st e2 = ?d" "g_mem s2 = ?m" "g_instid s2 = ?rid"
    using perform_compare [of ?c1 ?e "co_rob ?c" ?rid io addr bs sz gb ?s1 "rnd 2" cid rd, OF _ _ start(2) _ bs(2) fits sz]
    by auto
  then obtain p1 where p1: "gold_ld_perform gb ?rid (?c1, ?s1) = Some p1"
      "compare_load (rnd 2) cid ?rid addr sz rd io p1 = Some (?ok, c2, s2)"
    by (auto simp: bind_eq_Some_conv)
  obtain c' s' where q: "gold_st_globally_perform gb ?rid (c2, s2) = Some (c', s')" "co_rob c' = []"
      "g_mem s' = sc_write addr (unat sz) st ?m" "g_instid s' = ?rid"
    using st_globally_front [OF p(2,3) start(2) p(4) fits, of gb s2] p(5,6) by auto
  let ?c3 = "if ?ok then c' else c2" and ?s3 = "if ?ok then s' else s2"
  have split: "sc_op gb (Op_amo cid addr sz st rd io) (g_mem ?s) = (?ok, if ?ok then sc_write addr (unat sz) st ?m else ?m)"
    by (simp add: Let_def)
  show ?thesis
    unfolding check_inorder_amo_def split
  proof (rule call_okI [OF cid inv], intro exI conjI)
    show "do {
        (rid, p) \<leftarrow> gold_inorder (?c, ?s);
        p \<leftarrow> with_st_data rid (\<lambda>d. do {
               d \<leftarrow> gd_add_range (rnd 0) addr sz d;
               map_option (set_device_if io) (gd_set_data addr sz st d) }) p;
        p \<leftarrow> with_ld_data rid (\<lambda>d. map_option (set_device_if io) (gd_add_range (rnd 1) addr sz d)) p;
        p \<leftarrow> gold_ld_perform gb rid p;
        (ok, p) \<leftarrow> compare_load (rnd 2) cid rid addr sz rd io p;
        if \<not> ok then Some (False, p)
        else do { p \<leftarrow> gold_st_globally_perform gb rid p; Some (True, p) }
      } = Some (?ok, ?c3, ?s3)"
      using p1 q(1) bs(1)
      by (simp add: start(1) with_st_front [where d = ?d] fill_st [OF fits sz] with_ld_front [where d = "blk io addr bs"])
    show "\<forall>e \<in> set (co_rob ?c3). ?ok \<longrightarrow> re_rid e \<le> g_instid ?s3 \<and> \<not> gd_has_data (re_st e)"
      using q(2) by simp
  qed (use p q in simp_all)
qed

lemma op_call:
  assumes "bridge_inv b" and "g_instid (br_sys b) < 2 ^ 31 - 1" and "gold_ready x b"
  shows "call_ok b (bridge_op rnd gb x b) (sc_op gb x (g_mem (br_sys b)))"
  using assms load_call store_call amo_call by (cases x) (simp_all only: bridge_op.simps)

section \<open>A run\<close>

lemma run_refines:
  assumes "bridge_inv b" and "g_instid (br_sys b) + int (length xs) < 2 ^ 31"
    and "\<forall>(rnd, gb, x) \<in> set xs. gold_ready x b"
  shows "\<exists>b'. bridge_run xs b = Some (fst (sc_run xs (g_mem (br_sys b))), b') \<and>
    g_mem (br_sys b') = snd (sc_run xs (g_mem (br_sys b)))"
  using assms
proof (induction xs arbitrary: b)
  case (Cons y ys)
  obtain rnd gb x where y: "y = (rnd, gb, x)" by (cases y) auto
  from Cons.prems y have "g_instid (br_sys b) < 2 ^ 31 - 1" "gold_ready x b" by auto
  from op_call [OF Cons.prems(1) this, of rnd gb] obtain ok m b1 where 1:
      "sc_op gb x (g_mem (br_sys b)) = (ok, m)" "bridge_op rnd gb x b = Some (ok, b1)" "ok \<longrightarrow> bridge_inv b1"
      "length (br_cores b1) = length (br_cores b)" "g_mem (br_sys b1) = m"
      "g_instid (br_sys b1) = g_instid (br_sys b) + 1"
    by (cases "sc_op gb x (g_mem (br_sys b))") (auto simp: call_ok_def)
  show ?case
  proof (cases ok)
    case True
    have "\<forall>(rnd, gb, x) \<in> set ys. gold_ready x b1"
      using Cons.prems(3) 1(4) by (auto simp: gold_ready_def)
    moreover have "g_instid (br_sys b1) + int (length ys) < 2 ^ 31" using Cons.prems(2) 1(6) by simp
    ultimately show ?thesis using Cons.IH [of b1] True 1 y by simp
  qed (use 1 y in simp)
qed simp

text \<open>
  C25. The in-order gold checker implements one memory shared by all cores: over any sequence of
  loads, stores and atomic operations (at most eight bytes, not reaching the end of the address
  space) no assertion of the checker fails, it accepts exactly the loads and atomic operations that
  read what that memory holds, it stops at the first other one, and it ends with that memory.  A byte
  is taken from the simulator when it is first read.
\<close>

theorem gold_inorder_refines_memory:
  assumes "length xs < 2 ^ 31"
    and "\<forall>(rnd, gb, x) \<in> set xs. op_core x < n \<and> snd (op_range x) \<le> 8
           \<and> unat (fst (op_range x)) + unat (snd (op_range x)) < 2 ^ 64"
  shows "\<exists>b'. bridge_run xs (check_inorder_init n check_inorder_start) = Some (fst (sc_run xs Map.empty), b') \<and>
    g_mem (br_sys b') = snd (sc_run xs Map.empty)"
proof -
  let ?b = "check_inorder_init n check_inorder_start"
  have b: "bridge_inv ?b" "g_mem (br_sys ?b) = Map.empty" "g_instid (br_sys ?b) = 0" "length (br_cores ?b) = n"
    by (auto simp: bridge_inv_def check_inorder_init_def check_inorder_start_def gold_core_new_def)
  have "\<forall>(rnd, gb, x) \<in> set xs. gold_ready x ?b"
    using assms(2) b(4) by (auto simp: gold_ready_def fits_def split: prod.splits)
  with run_refines [of ?b xs] b assms(1) show ?thesis by simp
qed

text \<open>
  The witness: core 0 stores 0x1234 at address 0x1000, core 1 loads its low byte and then adds to the
  halfword atomically, and core 0's load of the byte the memory of the simulator supplies is wrong.
\<close>

definition gold_example :: "((nat \<Rightarrow> u64 \<Rightarrow> u8) \<times> (u64 \<Rightarrow> u8) \<times> gold_op) list" where
  "gold_example = map (\<lambda>x. (\<lambda>_ _. 0x55, \<lambda>a. ucast (drop_bit 4 a), x))
     [Op_store 0 0x1000 2 0x1234 False, Op_load 1 0x1000 1 0x34 False,
      Op_amo 1 0x1000 2 0x1235 0x1234 False, Op_load 0 0x1135 1 0x14 False]"

lemma gold_example_ready:
  "length gold_example < 2 ^ 31"
  "\<forall>(rnd, gb, x) \<in> set gold_example. op_core x < 2 \<and> snd (op_range x) \<le> 8
     \<and> unat (fst (op_range x)) + unat (snd (op_range x)) < 2 ^ 64"
  by (simp_all add: gold_example_def)

theorem gold_inorder_refines_memory_witness:
  "\<exists>b'. bridge_run gold_example (check_inorder_init 2 check_inorder_start) = Some (False, b')"
proof -
  have "fst (sc_run gold_example Map.empty) = False"
    by (simp add: gold_example_def sc_touch_def sc_write_def sc_read_def le_nat_def upt_rec lessThan_nat_numeral
        lessThan_Suc drop_bit_eq_div)
  with gold_inorder_refines_memory [OF gold_example_ready] show ?thesis by metis
qed

end
