(* ===== verification/Cosim_Gold.thy ===== *)
theory Cosim_Gold
  imports Cosim Boot Board_Props Gold_Props
begin

text \<open>
  The calls of the gold memory checker in \<open>dromajo_cosim_step\<close> (\<open>GOLDMEM_INORDER\<close>): after the
  simulator has executed the instruction of the device under test, its memory operation is given to
  the checker.
\<close>

section \<open>The calls\<close>

definition dromajo_get_byte_direct :: "'v Board_scheme \<Rightarrow> u64 \<Rightarrow> u8" where
  "dromajo_get_byte_direct b paddr =
     (case get_ram_ptr (board_map b) paddr of None \<Rightarrow> 0 | Some ptr \<Rightarrow> board_ram b ptr)"

definition gold_op_size :: "u32 \<Rightarrow> u8" where
  "gold_op_size func3 =
     (if func3 = 0 then 1 else if func3 = 1 then 2 else if func3 = 2 then 4 else if func3 = 3 then 8
      else if func3 = 4 then 1 else if func3 = 5 then 2 else if func3 = 6 then 4 else 0)"

definition gold_io_map :: "'v Board_scheme \<Rightarrow> u64 \<Rightarrow> bool" where
  "gold_io_map b paddr =
     (case get_phys_mem_range (board_map b) paddr of None \<Rightarrow> True | Some i \<Rightarrow> \<not> pr_is_ram (board_map b ! i))"

text \<open>
  \<open>last_value\<close> is the field \<open>last_data_value\<close> of the hart, the value of its last memory access.  The
  result is \<open>None\<close> when an assertion fails; \<open>False\<close> when the process exits.
\<close>

definition gold_check_store ::
  "(nat \<Rightarrow> u64 \<Rightarrow> u8) \<Rightarrow> nat \<Rightarrow> u8 \<Rightarrow> u64 option \<Rightarrow> 'v Board_scheme \<Rightarrow> gold_bridge \<Rightarrow> (bool \<times> gold_bridge) option" where
  "gold_check_store rnd hartid sz data b br =
     (let paddr = last_data_paddr (cpu_state b hartid)
      in case data of
           None \<Rightarrow> None
         | Some v \<Rightarrow>
             check_inorder_store rnd (dromajo_get_byte_direct b) hartid paddr sz v (gold_io_map b paddr) br)"

definition gold_check_load ::
  "(nat \<Rightarrow> u64 \<Rightarrow> u8) \<Rightarrow> nat \<Rightarrow> u8 \<Rightarrow> u64 \<Rightarrow> 'v Board_scheme \<Rightarrow> gold_bridge \<Rightarrow> (bool \<times> gold_bridge) option" where
  "gold_check_load rnd hartid sz dut_wdata b br =
     (let paddr = last_data_paddr (cpu_state b hartid)
      in check_inorder_load rnd (dromajo_get_byte_direct b) hartid paddr sz dut_wdata (gold_io_map b paddr) br)"

definition gold_check_amo ::
  "(nat \<Rightarrow> u64 \<Rightarrow> u8) \<Rightarrow> nat \<Rightarrow> u8 \<Rightarrow> u32 \<Rightarrow> u64 \<Rightarrow> u64 \<Rightarrow> 'v Board_scheme \<Rightarrow> gold_bridge \<Rightarrow> (bool \<times> gold_bridge) option" where
  "gold_check_amo rnd hartid sz dut_insn dut_wdata last_value b br =
     (let s = cpu_state b hartid; paddr = last_data_paddr s;
          func5 = drop_bit 27 dut_insn AND 0x1F; rd = uint (drop_bit 7 dut_insn AND 0x1f)
      in if riscv_get_reg s rd \<noteq> Some dut_wdata then None
         else if func5 = 2 \<or> func5 = 3 then Some (False, br)
         else check_inorder_amo rnd (dromajo_get_byte_direct b) hartid paddr sz last_value dut_wdata
                (gold_io_map b paddr) br)"

definition cosim_gold ::
  "(nat \<Rightarrow> u64 \<Rightarrow> u8) \<Rightarrow> nat \<Rightarrow> u32 \<Rightarrow> u64 \<Rightarrow> u64 \<Rightarrow> 'v Board_scheme \<Rightarrow> gold_bridge \<Rightarrow> (bool \<times> gold_bridge) option" where
  "cosim_gold rnd hartid dut_insn dut_wdata last_value b br =
     (let s = cpu_state b hartid;
          do_clw = (dut_insn AND 3 = 0 \<and> dut_insn AND 0xe000 = 0x4000);
          do_cld = (dut_insn AND 3 = 0 \<and> dut_insn AND 0xe000 = 0x6000);
          do_csw = (dut_insn AND 3 = 0 \<and> dut_insn AND 0xe000 = 0xC000);
          do_csd = (dut_insn AND 3 = 0 \<and> dut_insn AND 0xe000 = 0xe000);
          do_clwsp = (dut_insn AND 3 = 2 \<and> dut_insn AND 0xe000 = 0x4000);
          do_cldsp = (dut_insn AND 3 = 2 \<and> dut_insn AND 0xe000 = 0x6000);
          do_cswsp = (dut_insn AND 3 = 2 \<and> dut_insn AND 0xe000 = 0xC000);
          do_csdsp = (dut_insn AND 3 = 2 \<and> dut_insn AND 0xe000 = 0xe000);
          do_ld = (dut_insn AND 0x7F = 0x03 \<or> dut_insn AND 0x7F = 0x07);
          do_ist = (dut_insn AND 0x7F = 0x23);
          do_fst = (dut_insn AND 0x7F = 0x27);
          do_amo = (dut_insn AND 0x7F = 0x2F);
          sz = gold_op_size (drop_bit 12 dut_insn AND 7)
      in if do_ld then gold_check_load rnd hartid sz dut_wdata b br
         else if do_ist \<or> do_fst then
           let rs2 = uint (drop_bit 20 dut_insn AND 0x1f);
               data = (if do_ist then riscv_get_reg s rs2 else riscv_get_fpreg s rs2)
           in if data \<noteq> Some last_value then None else gold_check_store rnd hartid sz data b br
         else if do_amo then gold_check_amo rnd hartid sz dut_insn dut_wdata last_value b br
         else if do_clw \<or> do_cld \<or> do_clwsp \<or> do_cldsp then
           gold_check_load rnd hartid (if do_cld \<or> do_cldsp then 8 else 4) dut_wdata b br
         else if do_csw \<or> do_csd \<or> do_cswsp \<or> do_csdsp then
           let rs2 = (if do_csw \<or> do_csd then uint (drop_bit 2 dut_insn AND 7) + 8
                      else uint (drop_bit 2 dut_insn AND 0x1f))
           in gold_check_store rnd hartid (if do_csd \<or> do_csdsp then 8 else 4) (riscv_get_reg s rs2) b br
         else Some (True, br))"

section \<open>Values\<close>

lemma le_nat_append: "le_nat (bs @ [b]) = le_nat bs + unat b * 256 ^ length bs"
  by (simp add: le_nat_def nth_append)

lemma le_nat_le_bytes: "le_nat (le_bytes n v) = unat v mod 256 ^ n"
proof (induction n)
  case (Suc n)
  have "unat (ucast (drop_bit (8 * n) v) :: u8) = unat v div 256 ^ n mod 256"
    by (simp only: unsigned_ucast_eq unat_drop_bit_eq)
       (simp add: take_bit_eq_mod drop_bit_eq_div power_mult)
  then have "le_nat (le_bytes (Suc n) v) = unat v mod 256 ^ n + unat v div 256 ^ n mod 256 * 256 ^ n"
    using Suc by (simp add: le_bytes_def le_nat_append)
  then show ?case using mod_mult2_eq [of "unat v" "256 ^ n" 256] by (simp add: mult.commute)
qed simp

lemma sc_read_less: "sc_read addr n m < 256 ^ n"
  using le_nat_less [of "map (\<lambda>i. the (m (addr + of_nat i))) [0..<n]"] by (simp add: sc_read_def)

lemma sc_read_untouched:
  fixes v :: u64
  assumes "fits addr n" and "\<And>i. i < n \<Longrightarrow> m (addr + of_nat i) = None"
    and "\<And>i. i < n \<Longrightarrow> gb (addr + of_nat i) = ucast (drop_bit (8 * i) v)"
  shows "sc_read addr n (sc_touch gb addr n m) = unat v mod 256 ^ n"
proof -
  have "sc_touch gb addr n m (addr + of_nat i) = Some (ucast (drop_bit (8 * i) v))" if "i < n" for i
    using assms(2,3) [OF that] that unat_of_nat_fits [OF assms(1), of i] by (simp add: sc_touch_def)
  then have "map (\<lambda>i. the (sc_touch gb addr n m (addr + of_nat i))) [0..<n] = le_bytes n v"
    by (simp add: le_bytes_def)
  then show ?thesis by (simp add: sc_read_def le_nat_le_bytes)
qed

section \<open>False alarms\<close>

text \<open>
  The gold checker rejects every load from RAM of fewer than eight bytes whose register value has
  bits above the loaded bytes, as the sign extension of a negative byte, halfword or word has: it
  compares the register with the zero-extended bytes and ends the process.
\<close>

theorem cosim_gold_extended_load_rejected:
  assumes inv: "bridge_inv br" and i: "g_instid (br_sys br) < 2 ^ 31 - 1" and h: "hartid < length (br_cores br)"
    and insn: "dut_insn AND 0x7F = 3" and sz: "sz = gold_op_size (drop_bit 12 dut_insn AND 7)"
    and ram: "\<not> gold_io_map b (last_data_paddr (cpu_state b hartid))"
    and fits: "unat (last_data_paddr (cpu_state b hartid)) + unat sz < 2 ^ 64"
    and wide: "256 ^ unat sz \<le> unat dut_wdata"
  shows "\<exists>br'. cosim_gold rnd hartid dut_insn dut_wdata last_value b br = Some (False, br')"
proof -
  let ?a = "last_data_paddr (cpu_state b hartid)" and ?gb = "dromajo_get_byte_direct b"
  let ?x = "Op_load hartid ?a sz dut_wdata False"
  have "sz \<le> 8" unfolding sz by (simp add: gold_op_size_def)
  then have "gold_ready ?x br" using h fits by (simp add: gold_ready_def fits_def)
  from op_call [OF inv i this, of rnd ?gb]
  have "call_ok br (check_inorder_load rnd ?gb hartid ?a sz dut_wdata False br) (sc_op ?gb ?x (g_mem (br_sys br)))"
    by simp
  moreover have "fst (sc_op ?gb ?x (g_mem (br_sys br))) = False"
    using sc_read_less [of ?a "unat sz" "sc_touch ?gb ?a (unat sz) (g_mem (br_sys br))"] wide by (simp add: Let_def)
  ultimately show ?thesis
    using insn ram by (auto simp: call_ok_def cosim_gold_def gold_check_load_def Let_def sz)
qed


section \<open>Examples\<close>

text \<open>Hart 0 has accessed address 0x80000000, where memory holds \<open>x\<close>, and register 1 holds \<open>v\<close>.\<close>

definition gold_board :: "u8 \<Rightarrow> u64 \<Rightarrow> Board" where
  "gold_board x v = example_board\<lparr>cpu_state := (\<lambda>i. (cpu_state example_board i)\<lparr>last_data_paddr := 0x80000000,
     reg := (reg (cpu_state example_board i))(1 := v)\<rparr>), board_ram := (\<lambda>a. if a = 0x1000 then x else 0)\<rparr>"

lemma gold_board_simps:
  "last_data_paddr (cpu_state (gold_board x v) i) = 0x80000000" "reg (cpu_state (gold_board x v) i) (Suc 0) = v"
  "board_map (gold_board x v) = [example_range]" "board_ram (gold_board x v) = (\<lambda>a. if a = 0x1000 then x else 0)"
  by (simp_all add: gold_board_def example_board_def board_init_def)

lemma gold_board_range:
  "0x80000000 \<le> a \<Longrightarrow> a < 0x80001000 \<Longrightarrow> get_phys_mem_range [example_range] a = Some 0"
  by (simp add: get_phys_mem_range_def in_phys_range_def example_range_def)
 
lemma gold_board_ram: "\<not> gold_io_map (gold_board x v) 0x80000000"
proof -
  have "pr_is_ram example_range" by (simp add: example_range_def)
  then show ?thesis by (simp add: gold_io_map_def gold_board_simps gold_board_range)
qed

lemma gold_board_byte:
  assumes "i < 4"
  shows "dromajo_get_byte_direct (gold_board x v) (0x80000000 + of_nat i) = (if i = 0 then x else 0)"
proof -
  from assms consider "i = 0" | "i = 1" | "i = 2" | "i = 3" by linarith
  then show ?thesis
    by cases (simp_all add: dromajo_get_byte_direct_def get_ram_ptr_def gold_board_simps gold_board_range,
      simp_all add: example_range_def range_ptr_def)
qed

definition gold_start :: gold_bridge where
  "gold_start = check_inorder_init 1 check_inorder_start"

lemma gold_start_simps:
  "bridge_inv gold_start" "g_instid (br_sys gold_start) = 0" "length (br_cores gold_start) = 1"
  "g_mem (br_sys gold_start) a = None"
  by (simp_all add: gold_start_def check_inorder_init_def check_inorder_start_def bridge_inv_def gold_core_new_def)

text \<open>\<open>lb x1, 0(x2)\<close> loads 0x80.\<close>

theorem cosim_gold_extended_load_rejected_witness:
  "\<exists>br'. cosim_gold (\<lambda>_ _. 0) 0 0x00010083 0xFFFFFFFFFFFFFF80 0x80 (gold_board 0x80 0xFFFFFFFFFFFFFF80) gold_start
     = Some (False, br')"
  using cosim_gold_extended_load_rejected [of gold_start 0 "0x00010083" 1 "gold_board 0x80 0xFFFFFFFFFFFFFF80"
      "0xFFFFFFFFFFFFFF80" "\<lambda>_ _. 0" "0x80"] gold_board_ram
  by (simp add: gold_start_simps gold_board_simps gold_op_size_def)


end
