(* ===== verification/Json.thy ===== *)
theory Json
  imports Prelude
begin

text \<open>
  The parser of the configuration files (\<open>src/json.cpp\<close>, \<open>include/json.h\<close>).  A C string is the
  list of its characters without the terminating NUL, and a pointer into it is what follows; reading
  the end of the list gives NUL.
\<close>

datatype json =
    JSON_STR string
  | JSON_INT u64
  | JSON_OBJ "(string \<times> json) list"
  | JSON_ARRAY "json list"
  | JSON_BOOL bool
  | JSON_NULL
  | JSON_UNDEFINED
  | JSON_EXCEPTION string

fun json_is_error :: "json \<Rightarrow> bool" where
  "json_is_error (JSON_EXCEPTION _) = True"
| "json_is_error _ = False"

fun json_is_undefined :: "json \<Rightarrow> bool" where
  "json_is_undefined JSON_UNDEFINED = True"
| "json_is_undefined _ = False"

section \<open>Characters\<close>

abbreviation (input) QUOTE :: char where "QUOTE \<equiv> CHR 0x22"
abbreviation (input) BACKSLASH :: char where "BACKSLASH \<equiv> CHR 0x5C"
abbreviation (input) NEWLINE :: char where "NEWLINE \<equiv> CHR 0x0A"

definition at :: "string \<Rightarrow> char" where
  "at p = (case p of [] \<Rightarrow> CHR 0x00 | c # _ \<Rightarrow> c)"

definition char_in :: "char \<Rightarrow> char \<Rightarrow> char \<Rightarrow> bool" where
  "char_in a b c \<longleftrightarrow> (of_char a :: nat) \<le> of_char c \<and> (of_char c :: nat) \<le> of_char b"

text \<open>\<open>isspace\<close> and \<open>isdigit\<close> in the C locale.\<close>

definition isspace :: "char \<Rightarrow> bool" where
  "isspace c \<longleftrightarrow> c = CHR 0x20 \<or> char_in (CHR 0x09) (CHR 0x0D) c"

definition isdigit :: "char \<Rightarrow> bool" where
  "isdigit c \<longleftrightarrow> char_in (CHR ''0'') (CHR ''9'') c"

definition is_ident_first :: "char \<Rightarrow> bool" where
  "is_ident_first c \<longleftrightarrow> char_in (CHR ''a'') (CHR ''z'') c \<or> char_in (CHR ''A'') (CHR ''Z'') c \<or> c = CHR ''_'' \<or> c = CHR ''$''"

text \<open>The value of a digit in a base up to 36.\<close>

definition digit_val :: "char \<Rightarrow> nat option" where
  "digit_val c =
     (if isdigit c then Some (of_char c - 48)
      else if char_in (CHR ''a'') (CHR ''z'') c then Some (of_char c - 87)
      else if char_in (CHR ''A'') (CHR ''Z'') c then Some (of_char c - 55)
      else None)"

definition from_hex :: "char \<Rightarrow> nat option" where
  "from_hex c = (case digit_val c of None \<Rightarrow> None | Some d \<Rightarrow> if d < 16 then Some d else None)"

text \<open>Text in the single quotes of a message.\<close>

definition quoted :: "string \<Rightarrow> string" where
  "quoted s = [CHR 0x27] @ s @ [CHR 0x27]"

section \<open>Numbers\<close>

text \<open>\<open>%d\<close> of a number that is not negative.\<close>

fun dec :: "nat \<Rightarrow> string" where
  "dec n = (if n < 10 then [char_of (48 + n)] else dec (n div 10) @ [char_of (48 + n mod 10)])"

declare dec.simps [simp del]

text \<open>\<open>strtoll\<close>: leading space, a sign, the prefix of the base, digits; the value saturates.\<close>

definition is_digit_of :: "nat \<Rightarrow> char \<Rightarrow> bool" where
  "is_digit_of b c \<longleftrightarrow> (case digit_val c of None \<Rightarrow> False | Some d \<Rightarrow> d < b)"

definition hex_prefix :: "string \<Rightarrow> bool" where
  "hex_prefix p \<longleftrightarrow> (case p of z # x # h # _ \<Rightarrow> z = CHR ''0'' \<and> (x = CHR ''x'' \<or> x = CHR ''X'') \<and> is_digit_of 16 h | _ \<Rightarrow> False)"

definition digits_value :: "nat \<Rightarrow> string \<Rightarrow> nat" where
  "digits_value b ds = fold (\<lambda>c n. n * b + the (digit_val c)) ds 0"

definition saturate :: "bool \<Rightarrow> nat \<Rightarrow> u64" where
  "saturate neg n =
     (if neg then word_of_int (- int (min n (2 ^ 63))) else of_nat (min n (2 ^ 63 - 1)))"

definition strtoll_prefix :: "nat \<Rightarrow> string \<Rightarrow> nat \<times> string" where
  "strtoll_prefix base q =
     (if (base = 0 \<or> base = 16) \<and> hex_prefix q then (16, drop 2 q)
      else if base = 0 then (if at q = CHR ''0'' then 8 else 10, q)
      else (base, q))"

definition strtoll :: "nat \<Rightarrow> string \<Rightarrow> u64 \<times> string" where
  "strtoll base p =
     (let q = dropWhile isspace p;
          neg = (at q = CHR ''-'');
          (b, q) = strtoll_prefix base (if at q = CHR ''-'' \<or> at q = CHR ''+'' then tl q else q);
          ds = takeWhile (is_digit_of b) q
      in if ds = [] then (0, p) else (saturate neg (digits_value b ds), drop (length ds) q))"

section \<open>Tokens\<close>

text \<open>After \<open>/*\<close>.\<close>

fun skip_block :: "string \<Rightarrow> string" where
  "skip_block [] = []"
| "skip_block (c # p) = (if c = CHR ''*'' \<and> at p = CHR ''/'' then tl p else skip_block p)"

lemma length_skip_block: "length (skip_block p) \<le> length p"
  by (induction p) auto

function skip_spaces :: "string \<Rightarrow> string" where
  "skip_spaces [] = []"
| "skip_spaces (c # p) =
     (if isspace c then skip_spaces p
      else if c = CHR ''/'' \<and> at p = CHR ''/'' then skip_spaces (dropWhile (\<lambda>c. c \<noteq> NEWLINE) (tl p))
      else if c = CHR ''/'' \<and> at p = CHR ''*'' then skip_spaces (skip_block (tl p))
      else c # p)"
  by pat_completeness auto
termination
proof (relation "measure length", goal_cases)
  case (3 c p)
  have "length (dropWhile (\<lambda>c. c \<noteq> NEWLINE) (tl p)) \<le> length (tl p)" by (rule length_dropWhile_le)
  then show ?case by simp
next
  case (4 c p)
  then show ?case using length_skip_block [of "tl p"] by simp
qed auto

text \<open>The character an escape stands for, and what follows; \<open>p\<close> is behind the backslash.\<close>

definition escape :: "string \<Rightarrow> string + char \<times> string" where
  "escape p =
     (if p = [] then Inl ''unknown escape code''
      else if at p = CHR 0x27 \<or> at p = QUOTE \<or> at p = BACKSLASH then Inr (at p, tl p)
      else if at p = CHR ''n'' then Inr (NEWLINE, tl p)
      else if at p = CHR ''r'' then Inr (CHR 0x0D, tl p)
      else if at p = CHR ''t'' then Inr (CHR 0x09, tl p)
      else if at p = CHR ''x'' then
        (case from_hex (at (tl p)) of
           None \<Rightarrow> Inl ''invalid hex digit''
         | Some h \<Rightarrow>
             (case from_hex (at (drop 2 p)) of
                None \<Rightarrow> Inl ''invalid hex digit''
              | Some l \<Rightarrow> Inr (char_of (16 * h + l), drop 3 p)))
      else Inl ''unknown escape code'')"

lemma escape_length: "escape p = Inr (c, r) \<Longrightarrow> length r \<le> length p"
  by (auto simp: escape_def split: if_splits option.splits)

text \<open>
  The loop of \<open>parse_string\<close>: \<open>acc\<close> is what the buffer holds.  The result is an error or the content
  of the buffer and what follows the closing quote.
\<close>

function string_body :: "string \<Rightarrow> string \<Rightarrow> string + string \<times> string" where
  "string_body acc [] = Inl ''unterminated string''"
| "string_body acc (c # p) =
     (if c = NEWLINE then Inl ''unterminated string''
      else if c = QUOTE then Inr (acc, p)
      else
        case (if c = BACKSLASH then escape p else Inr (c, p)) of
          Inl m \<Rightarrow> Inl m
        | Inr (ch, r) \<Rightarrow> if length acc \<ge> 4095 then Inl ''string too long'' else string_body (acc @ [ch]) r)"
  by pat_completeness auto
termination
  by (relation "measure (\<lambda>(acc, p). length p)") (auto split: if_splits dest: escape_length)

text \<open>The string is copied up to its first NUL.  \<open>p\<close> starts with the opening quote.\<close>

definition json_string_new :: "string \<Rightarrow> string" where
  "json_string_new s = takeWhile (\<lambda>c. c \<noteq> CHR 0x00) s"

definition parse_string :: "string \<Rightarrow> string + string \<times> string" where
  "parse_string p = map_sum id (apfst json_string_new) (string_body [] (tl p))"

definition is_ident_char :: "char \<Rightarrow> bool" where
  "is_ident_char c \<longleftrightarrow> is_ident_first c \<or> isdigit c"

text \<open>\<open>Inl\<close>: the identifier does not fit; the buffer holds its first \<open>buf_size - 1\<close> characters.\<close>

definition parse_ident :: "nat \<Rightarrow> string \<Rightarrow> string + string \<times> string" where
  "parse_ident buf_size p =
     (let name = hd p # takeWhile is_ident_char (tl p)
      in if length name > buf_size - 1 then Inl (take (buf_size - 1) name) else Inr (name, drop (length name) p))"

section \<open>Objects and arrays\<close>

fun props_set :: "(string \<times> json) list \<Rightarrow> string \<Rightarrow> json \<Rightarrow> (string \<times> json) list" where
  "props_set [] name v = [(name, v)]"
| "props_set ((n, w) # ps) name v = (if n = name then (n, v) # ps else (n, w) # props_set ps name v)"

fun json_object_get :: "json \<Rightarrow> string \<Rightarrow> json" where
  "json_object_get (JSON_OBJ ps) name = (case map_of ps name of None \<Rightarrow> JSON_UNDEFINED | Some v \<Rightarrow> v)"
| "json_object_get _ name = JSON_UNDEFINED"

fun json_object_set :: "json \<Rightarrow> string \<Rightarrow> json \<Rightarrow> int \<times> json" where
  "json_object_set (JSON_OBJ ps) name v = (0, JSON_OBJ (props_set ps name v))"
| "json_object_set val name v = (- 1, val)"

text \<open>\<open>None\<close>: the index is negative and the access outside of the table.\<close>

fun json_array_get :: "json \<Rightarrow> int \<Rightarrow> json option" where
  "json_array_get (JSON_ARRAY vs) idx =
     (if idx < 0 then None else if idx < int (length vs) then Some (vs ! nat idx) else Some JSON_UNDEFINED)"
| "json_array_get _ idx = Some JSON_UNDEFINED"

fun json_array_set :: "json \<Rightarrow> int \<Rightarrow> json \<Rightarrow> (int \<times> json) option" where
  "json_array_set (JSON_ARRAY vs) idx v =
     (if idx < 0 then None
      else if idx < int (length vs) then Some (0, JSON_ARRAY (vs[nat idx := v]))
      else if idx = int (length vs) then Some (0, JSON_ARRAY (vs @ [v]))
      else Some (- 1, JSON_ARRAY vs))"
| "json_array_set val idx v = Some (- 1, val)"

fun json_get_str :: "json \<Rightarrow> string option" where
  "json_get_str (JSON_STR s) = Some s"
| "json_get_str _ = None"

fun json_get_error :: "json \<Rightarrow> string option" where
  "json_get_error (JSON_EXCEPTION s) = Some s"
| "json_get_error _ = None"

section \<open>Values\<close>

text \<open>
  \<open>json_parse_value2\<close> with the two loops it contains; the first argument bounds the depth of the
  calls (\<open>None\<close>: it is too small).  The pointer of the caller does not move when the result is an error
  returned early, and moves to the quote when it is the error of a string.  In the loops \<open>Inl\<close> is the
  error the function returns.
\<close>

fun json_value :: "nat \<Rightarrow> string \<Rightarrow> (json \<times> string) option"
  and json_props :: "nat \<Rightarrow> (string \<times> json) list \<Rightarrow> string \<Rightarrow> (string + (string \<times> json) list \<times> string) option"
  and json_elems :: "nat \<Rightarrow> json list \<Rightarrow> string \<Rightarrow> (string + json list \<times> string) option"
  where
  "json_value 0 p0 = None"
| "json_value (Suc n) p0 =
     (let p = skip_spaces p0; c = at p
      in if p = [] then Some (JSON_EXCEPTION ''unexpected end of file'', p0)
         else if c = CHR ''0'' \<and> at (tl p) = CHR ''x'' then Some (apfst JSON_INT (strtoll 16 (drop 2 p)))
         else if isdigit c then Some (apfst JSON_INT (strtoll 0 p))
         else if c = QUOTE then
           (case parse_string p of
              Inl m \<Rightarrow> Some (JSON_EXCEPTION m, p)
            | Inr (s, r) \<Rightarrow> Some (JSON_STR s, r))
         else if c = CHR ''{'' then
           (case json_props n [] (tl p) of
              None \<Rightarrow> None
            | Some (Inl m) \<Rightarrow> Some (JSON_EXCEPTION m, p0)
            | Some (Inr (ps, r)) \<Rightarrow> Some (JSON_OBJ ps, r))
         else if c = CHR ''['' then
           (case json_elems n [] (tl p) of
              None \<Rightarrow> None
            | Some (Inl m) \<Rightarrow> Some (JSON_EXCEPTION m, p0)
            | Some (Inr (vs, r)) \<Rightarrow> Some (JSON_ARRAY vs, r))
         else if is_ident_first c then
           (case parse_ident 128 p of
              Inl buf \<Rightarrow> Some (JSON_EXCEPTION (''unknown identifier: '' @ quoted buf), p0)
            | Inr (buf, r) \<Rightarrow>
                if buf = ''null'' then Some (JSON_NULL, r)
                else if buf = ''true'' then Some (JSON_BOOL True, r)
                else if buf = ''false'' then Some (JSON_BOOL False, r)
                else Some (JSON_EXCEPTION (''unknown identifier: '' @ quoted buf), p0))
         else Some (JSON_EXCEPTION ''unexpected character'', p0))"
| "json_props 0 ps p0 = None"
| "json_props (Suc n) ps p0 =
     (let p = skip_spaces p0
      in if at p = CHR ''}'' then Some (Inr (ps, tl p))
         else
           case (if at p = QUOTE then parse_string p
                 else if is_ident_first (at p) then map_sum (\<lambda>_. ''Invalid property name'') id (parse_ident 128 p)
                 else Inl ''Invalid property name'') of
             Inl m \<Rightarrow> Some (Inl m)
           | Inr (tag, r) \<Rightarrow>
               if tag = [] then Some (Inl ''Invalid property name'')
               else
                 let r = skip_spaces r
                 in if at r \<noteq> CHR '':'' then Some (Inl (quoted '':'' @ '' expected''))
                    else
                      case json_value n (tl r) of
                        None \<Rightarrow> None
                      | Some (v, r) \<Rightarrow>
                          let ps = props_set ps tag v; r = skip_spaces r
                          in if at r = CHR '','' then json_props n ps (tl r)
                             else if at r \<noteq> CHR ''}'' then Some (Inl (''expecting '' @ quoted '','' @ '' or '' @ quoted ''}''))
                             else json_props n ps r)"
| "json_elems 0 vs p0 = None"
| "json_elems (Suc n) vs p0 =
     (let p = skip_spaces p0
      in if at p = CHR '']'' then Some (Inr (vs, tl p))
         else
           case json_value n p of
             None \<Rightarrow> None
           | Some (v, r) \<Rightarrow>
               let vs = vs @ [v]; r = skip_spaces r
               in if at r = CHR '','' then json_elems n vs (tl r)
                  else if at r \<noteq> CHR '']'' then Some (Inl (''expecting '' @ quoted '','' @ '' or '' @ quoted '']''))
                  else json_elems n vs r)"

text \<open>\<open>json_parse_value_len\<close>: the text ends at its first NUL.\<close>

definition json_parse_value :: "string \<Rightarrow> json option" where
  "json_parse_value s =
     (let p = takeWhile (\<lambda>c. c \<noteq> CHR 0x00) s
      in case json_value (2 * length p + 1) p of
           None \<Rightarrow> None
         | Some (v, r) \<Rightarrow>
             Some (if json_is_error v then v
                   else if skip_spaces r \<noteq> [] then JSON_EXCEPTION ''unexpected characters at the end'' else v))"

end
