(* ===== verification/Config.thy ===== *)
theory Config
  imports Json
begin

text \<open>
  The configuration of the machine (\<open>src/machine.cpp\<close>): the parameters a configuration file sets and
  the files it names.  \<open>gmtoff\<close> is the offset of local time to UTC in seconds; a file system is a map
  from names to contents (\<open>None\<close>: \<open>load_file\<close> ends the process; files are shorter than 2 GB).
  An error is the message printed; the caller ends the process.
\<close>

section \<open>Parameters\<close>

record vm_config =
  cf_cfg_filename :: "string option"
  cf_ram_base_addr :: u64
  cf_ram_size :: u64
  cf_rtc_local_time :: bool
  cf_display_device :: "string option"
  cf_width :: u64
  cf_height :: u64
  cf_drives :: "(string \<times> string option) list"
  cf_fs :: "(string \<times> string) list"
  cf_eth :: "(string \<times> string option) list"
  cf_htif_base_addr :: u64
  cf_cmdline :: "string option"
  cf_accel_enable :: bool
  cf_input_device :: "string option"
  cf_bios :: "string option"
  cf_vga_bios :: "string option"
  cf_kernel :: "string option"
  cf_initrd :: "string option"
  cf_maxinsns :: u64
  cf_snapshot_load_name :: "string option"
  cf_bootrom_name :: "string option"
  cf_ncpus :: u64
  cf_physical_addr_len :: u64
  cf_logfile :: "string option"
  cf_dump_memories :: bool

section \<open>Properties of the JSON object\<close>

definition cfg_bind :: "string + 'a \<Rightarrow> ('a \<Rightarrow> string + 'b) \<Rightarrow> string + 'b" where
  "cfg_bind r f = (case r of Inl m \<Rightarrow> Inl m | Inr x \<Rightarrow> f x)"

definition vm_get_int :: "json \<Rightarrow> string \<Rightarrow> string + u64" where
  "vm_get_int obj name =
     (let val = json_object_get obj name
      in if json_is_undefined val then Inl (''expecting '' @ quoted name @ '' property'')
         else case val of JSON_INT v \<Rightarrow> Inr v | _ \<Rightarrow> Inl (name @ '': integer expected''))"

text \<open>A property of another type is reported and ignored.\<close>

definition vm_get_uint64_opt :: "json \<Rightarrow> string \<Rightarrow> u64 \<Rightarrow> u64" where
  "vm_get_uint64_opt obj name old = (case json_object_get obj name of JSON_INT v \<Rightarrow> v | _ \<Rightarrow> old)"

definition vm_get_str2 :: "json \<Rightarrow> string \<Rightarrow> bool \<Rightarrow> string + string option" where
  "vm_get_str2 obj name is_opt =
     (let val = json_object_get obj name
      in if json_is_undefined val then
           if is_opt then Inr None else Inl (''expecting '' @ quoted name @ '' property'')
         else case val of JSON_STR s \<Rightarrow> Inr (Some s) | _ \<Rightarrow> Inl (name @ '': string expected''))"

definition vm_get_str :: "json \<Rightarrow> string \<Rightarrow> string + string" where
  "vm_get_str obj name = cfg_bind (vm_get_str2 obj name False) (\<lambda>s. Inr (the s))"

definition vm_get_str_opt :: "json \<Rightarrow> string \<Rightarrow> string + string option" where
  "vm_get_str_opt obj name = vm_get_str2 obj name True"

section \<open>The command line\<close>

definition dec2 :: "nat \<Rightarrow> string" where
  "dec2 n = (if n < 10 then ''0'' @ dec n else dec n)"

definition tz_string :: "int \<Rightarrow> string" where
  "tz_string gmtoff =
     (let n = nat (\<bar>gmtoff\<bar> div 60)
      in ''UTC'' @ (if gmtoff \<le> - 60 then ''+'' else ''-'') @ dec2 (n div 60) @ '':'' @ dec2 (n mod 60))"

function cmdline_subst :: "int \<Rightarrow> string \<Rightarrow> string" where
  "cmdline_subst gmtoff [] = []"
| "cmdline_subst gmtoff (c # p) =
     (if c = CHR ''$'' \<and> at p = CHR ''{'' then
        let var_name = take 31 (takeWhile (\<lambda>c. c \<noteq> CHR ''}'') (tl p));
            rest = tl (dropWhile (\<lambda>c. c \<noteq> CHR ''}'') (tl p))
        in (if var_name = ''TZ'' then tz_string gmtoff else []) @ cmdline_subst gmtoff rest
      else c # cmdline_subst gmtoff p)"
  by pat_completeness auto
termination
proof (relation "measure (\<lambda>(g, p). length p)", goal_cases)
  case (2 gmtoff c p x xa)
  have "length (dropWhile (\<lambda>c. c \<noteq> CHR ''}'') (tl p)) \<le> length (tl p)" by (rule length_dropWhile_le)
  with 2 show ?case by simp
qed auto

definition vm_add_cmdline :: "string \<Rightarrow> vm_config \<Rightarrow> vm_config" where
  "vm_add_cmdline cmdline p =
     (if at cmdline = CHR ''!'' then p\<lparr>cf_cmdline := Some (tl cmdline)\<rparr>
      else p\<lparr>cf_cmdline := Some ((case cf_cmdline p of None \<Rightarrow> [] | Some old \<Rightarrow> old) @ '' '' @ cmdline)\<rparr>)"

section \<open>Devices\<close>

text \<open>The loops over \<open>drive0\<close>, \<open>fs0\<close>, \<open>eth0\<close> and so on, with the devices found so far.\<close>

function parse_drives :: "json \<Rightarrow> (string \<times> string option) list \<Rightarrow> string + (string \<times> string option) list" where
  "parse_drives cfg ds =
     (let obj = json_object_get cfg (''drive'' @ dec (length ds))
      in if json_is_undefined obj then Inr ds
         else if length ds \<ge> 4 then Inl ''Too many drives''
         else
           cfg_bind (vm_get_str obj ''file'') (\<lambda>file.
           cfg_bind (vm_get_str_opt obj ''device'') (\<lambda>device.
           parse_drives cfg (ds @ [(file, device)]))))"
  by pat_completeness auto
termination by (relation "measure (\<lambda>(cfg, ds). 4 - length ds)") auto

declare parse_drives.simps [simp del]

function parse_fs :: "json \<Rightarrow> (string \<times> string) list \<Rightarrow> string + (string \<times> string) list" where
  "parse_fs cfg ds =
     (let obj = json_object_get cfg (''fs'' @ dec (length ds))
      in if json_is_undefined obj then Inr ds
         else if length ds \<ge> 4 then Inl ''Too many filesystems''
         else
           cfg_bind (vm_get_str obj ''file'') (\<lambda>file.
           cfg_bind (vm_get_str_opt obj ''tag'') (\<lambda>tag.
           parse_fs cfg (ds @ [(file, case tag of Some t \<Rightarrow> t
              | None \<Rightarrow> if ds = [] then ''/dev/root'' else ''/dev/root'' @ dec (length ds))]))))"
  by pat_completeness auto
termination by (relation "measure (\<lambda>(cfg, ds). 4 - length ds)") auto

declare parse_fs.simps [simp del]

function parse_eth :: "json \<Rightarrow> (string \<times> string option) list \<Rightarrow> string + (string \<times> string option) list" where
  "parse_eth cfg ds =
     (let obj = json_object_get cfg (''eth'' @ dec (length ds))
      in if json_is_undefined obj then Inr ds
         else if length ds \<ge> 1 then Inl ''Too many ethernet interfaces''
         else
           cfg_bind (vm_get_str obj ''driver'') (\<lambda>driver.
           cfg_bind (if driver = ''tap'' then cfg_bind (vm_get_str obj ''ifname'') (\<lambda>s. Inr (Some s)) else Inr None) (\<lambda>ifname.
           parse_eth cfg (ds @ [(driver, ifname)]))))"
  by pat_completeness auto
termination by (relation "measure (\<lambda>(cfg, ds). 1 - length ds)") (auto simp: Suc_le_eq)

declare parse_eth.simps [simp del]

definition parse_display :: "json \<Rightarrow> vm_config \<Rightarrow> string + vm_config" where
  "parse_display cfg p =
     (let p = p\<lparr>cf_display_device := None\<rparr>; obj = json_object_get cfg ''display0''
      in if json_is_undefined obj then Inr p
         else
           cfg_bind (vm_get_str obj ''device'') (\<lambda>device.
           cfg_bind (vm_get_int obj ''width'') (\<lambda>width.
           cfg_bind (vm_get_int obj ''height'') (\<lambda>height.
           cfg_bind (vm_get_str_opt obj ''vga_bios'') (\<lambda>vga_bios.
           Inr (p\<lparr>cf_display_device := Some device, cf_width := width, cf_height := height, cf_vga_bios := vga_bios\<rparr>))))))"

definition parse_accel :: "json \<Rightarrow> bool \<Rightarrow> string + bool" where
  "parse_accel cfg old =
     cfg_bind (vm_get_str_opt cfg ''accel'') (\<lambda>str.
       case str of
         None \<Rightarrow> Inr old
       | Some s \<Rightarrow>
           if s = ''none'' then Inr False
           else if s = ''auto'' then Inr True
           else Inl (''unsupported '' @ quoted ''accel'' @ '' config: '' @ s))"

definition parse_rtc :: "json \<Rightarrow> bool \<Rightarrow> string + bool" where
  "parse_rtc cfg old =
     (let el = json_object_get cfg ''rtc_local_time''
      in if json_is_undefined el then Inr old
         else case el of JSON_BOOL b \<Rightarrow> Inr b | _ \<Rightarrow> Inl ''rtc_local_time: boolean expected'')"

section \<open>The configuration file\<close>

definition check_version :: "json \<Rightarrow> string + unit" where
  "check_version cfg =
     cfg_bind (vm_get_int cfg ''version'') (\<lambda>version.
       if version \<noteq> 1 then
         if 1 <s version then Inl ''The emulator is too old to run this VM: please upgrade''
         else Inl ''The VM configuration file is too old for this emulator version: please upgrade the VM configuration file''
       else Inr ())"

definition check_machine :: "json \<Rightarrow> string + unit" where
  "check_machine cfg =
     cfg_bind (vm_get_str cfg ''machine'') (\<lambda>str.
       if str \<noteq> ''riscv64''
       then Inl (''Unsupported machine: '' @ quoted str @ '' (running machine is '' @ quoted ''riscv64'' @ '')'')
       else Inr ())"

definition parse_files :: "json \<Rightarrow> int \<Rightarrow> vm_config \<Rightarrow> string + vm_config" where
  "parse_files cfg gmtoff p =
     cfg_bind (vm_get_str_opt cfg ''bios'') (\<lambda>bios.
     cfg_bind (vm_get_str_opt cfg ''kernel'') (\<lambda>kernel.
     cfg_bind (vm_get_str_opt cfg ''initrd'') (\<lambda>initrd.
     cfg_bind (vm_get_str_opt cfg ''cmdline'') (\<lambda>str.
     let p = p\<lparr>cf_bios := bios, cf_kernel := kernel, cf_initrd := initrd,
               cf_cmdline := (case str of None \<Rightarrow> cf_cmdline p | Some s \<Rightarrow> Some (cmdline_subst gmtoff s)),
               cf_htif_base_addr := vm_get_uint64_opt cfg ''htif_base_addr'' (cf_htif_base_addr p),
               cf_maxinsns := vm_get_uint64_opt cfg ''maxinsns'' (cf_maxinsns p)\<rparr>
     in cfg_bind (vm_get_str_opt cfg ''load'') (\<lambda>name. Inr (p\<lparr>cf_snapshot_load_name := name\<rparr>))))))"

definition parse_devices :: "json \<Rightarrow> vm_config \<Rightarrow> string + vm_config" where
  "parse_devices cfg p =
     cfg_bind (parse_drives cfg (cf_drives p)) (\<lambda>drives.
     cfg_bind (parse_fs cfg (cf_fs p)) (\<lambda>fs.
     cfg_bind (parse_eth cfg (cf_eth p)) (\<lambda>eth.
     parse_display cfg (p\<lparr>cf_drives := drives, cf_fs := fs, cf_eth := eth\<rparr>))))"

definition parse_rest :: "json \<Rightarrow> vm_config \<Rightarrow> string + vm_config" where
  "parse_rest cfg p =
     cfg_bind (vm_get_str_opt cfg ''input_device'') (\<lambda>input.
     cfg_bind (parse_accel cfg (cf_accel_enable p)) (\<lambda>accel.
     cfg_bind (parse_rtc cfg (cf_rtc_local_time p)) (\<lambda>rtc.
     let p = p\<lparr>cf_input_device := input, cf_accel_enable := accel, cf_rtc_local_time := rtc,
               cf_ncpus := vm_get_uint64_opt cfg ''ncpus'' (cf_ncpus p),
               cf_physical_addr_len := vm_get_uint64_opt cfg ''physical_addr_len'' (cf_physical_addr_len p)\<rparr>
     in cfg_bind (vm_get_str_opt cfg ''logfile'') (\<lambda>logfile.
        cfg_bind (vm_get_str_opt cfg ''bootrom'') (\<lambda>bootrom.
        Inr (p\<lparr>cf_logfile := logfile, cf_bootrom_name := bootrom\<rparr>))))))"

definition parse_config_object :: "json \<Rightarrow> int \<Rightarrow> vm_config \<Rightarrow> string + vm_config" where
  "parse_config_object cfg gmtoff p =
     (let p = p\<lparr>cf_maxinsns := 0, cf_dump_memories := False\<rparr>
      in cfg_bind (check_version cfg) (\<lambda>_.
         cfg_bind (check_machine cfg) (\<lambda>_.
         let p = p\<lparr>cf_ram_base_addr := vm_get_uint64_opt cfg ''memory_base_addr'' (cf_ram_base_addr p)\<rparr>
         in cfg_bind (vm_get_int cfg ''memory_size'') (\<lambda>val.
            cfg_bind (parse_files cfg gmtoff (p\<lparr>cf_ram_size := push_bit 20 val\<rparr>)) (\<lambda>p.
            cfg_bind (parse_devices cfg p) (\<lambda>p.
            parse_rest cfg p))))))"

text \<open>\<open>None\<close>: the parser of the text does not end, which Json\_Total excludes.\<close>

definition virt_machine_parse_config :: "string \<Rightarrow> int \<Rightarrow> vm_config \<Rightarrow> (string + vm_config) option" where
  "virt_machine_parse_config text gmtoff p =
     map_option (\<lambda>cfg.
       case json_get_error cfg of
         Some m \<Rightarrow> Inl (''error: '' @ m)
       | None \<Rightarrow> parse_config_object cfg gmtoff p) (json_parse_value text)"

section \<open>The files it names\<close>

definition get_file_path :: "string option \<Rightarrow> string \<Rightarrow> string" where
  "get_file_path base_filename filename =
     (case base_filename of
        None \<Rightarrow> filename
      | Some base \<Rightarrow>
          if CHR '':'' \<in> set filename then filename
          else if at filename = CHR ''/'' then filename
          else if CHR ''/'' \<notin> set base then filename
          else rev (dropWhile (\<lambda>c. c \<noteq> CHR ''/'') (rev base)) @ filename)"

text \<open>The files that are named are loaded in the order of \<open>VMFileTypeEnum\<close>.\<close>

fun load_files ::
  "(string \<Rightarrow> string option) \<Rightarrow> string option \<Rightarrow> string option list \<Rightarrow> string option list option" where
  "load_files fs base [] = Some []"
| "load_files fs base (None # names) = map_option (Cons None) (load_files fs base names)"
| "load_files fs base (Some name # names) =
     (case fs (get_file_path base name) of
        None \<Rightarrow> None
      | Some buf \<Rightarrow> map_option (Cons (Some buf)) (load_files fs base names))"

definition virt_machine_load_config_file ::
  "(string \<Rightarrow> string option) \<Rightarrow> int \<Rightarrow> string \<Rightarrow> vm_config \<Rightarrow> (vm_config \<times> string option list) option" where
  "virt_machine_load_config_file fs gmtoff filename p =
     (let p = p\<lparr>cf_cfg_filename := Some filename\<rparr>
      in case fs filename of
           None \<Rightarrow> None
         | Some text \<Rightarrow>
             (case virt_machine_parse_config text gmtoff p of
                Some (Inr p) \<Rightarrow>
                  map_option (Pair p)
                    (load_files fs (cf_cfg_filename p) [cf_bios p, cf_vga_bios p, cf_kernel p, cf_initrd p])
              | _ \<Rightarrow> None))"

end
