(* ===== verification/Json_Total.thy ===== *)
theory Json_Total
  imports Json
begin

text \<open>
  The parser of configuration files ends: every call moves forward, unless it reports an error at a
  character that is not space.
\<close>

section \<open>Tokens move forward\<close>

lemma skip_spaces_length: "length (skip_spaces p) \<le> length p"
proof (induction p rule: skip_spaces.induct)
  case (2 c p)
  note IH = "2.IH"
  have "length (dropWhile (\<lambda>c. c \<noteq> NEWLINE) (tl p)) \<le> length (tl p)" by (rule length_dropWhile_le)
  then have *: "length (dropWhile (\<lambda>c. c \<noteq> NEWLINE) (tl p)) \<le> length p" "length (skip_block (tl p)) \<le> length p"
    using length_skip_block [of "tl p"] by simp_all
  show ?case
  proof (cases "isspace c")
    case True
    with IH(1) show ?thesis by simp
  next
    case False
    show ?thesis
    proof (cases "c = CHR ''/'' \<and> at p = CHR ''/''")
      case True
      with IH(2) False * show ?thesis by simp
    next
      case F: False
      show ?thesis
      proof (cases "c = CHR ''/'' \<and> at p = CHR ''*''")
        case True
        with IH(3) False F * show ?thesis by simp
      qed (use False F in auto)
    qed
  qed
qed simp

lemma skip_spaces_idem [simp]: "skip_spaces (skip_spaces p) = skip_spaces p"
proof (induction p rule: skip_spaces.induct)
  case (2 c p)
  show ?case
  proof (cases "isspace c \<or> c = CHR ''/'' \<and> at p = CHR ''/'' \<or> c = CHR ''/'' \<and> at p = CHR ''*''")
    case True
    with 2 show ?thesis by auto
  next
    case False
    then have "skip_spaces (c # p) = c # p" by auto
    then show ?thesis by simp
  qed
qed simp

lemma at_ne: "at p = c \<Longrightarrow> c \<noteq> CHR 0x00 \<Longrightarrow> p \<noteq> []"
  by (auto simp: at_def)

lemma string_body_length: "string_body acc p = Inr (s, r) \<Longrightarrow> length r < length p"
proof (induction acc p arbitrary: s r rule: string_body.induct)
  case (2 acc c p)
  show ?case
  proof (cases "c = NEWLINE \<or> c = QUOTE")
    case False
    with "2.prems" obtain ch q where q: "(if c = BACKSLASH then escape p else Inr (c, p)) = Inr (ch, q)"
        "\<not> length acc \<ge> 4095" "string_body (acc @ [ch]) q = Inr (s, r)"
      by (auto split: sum.splits if_splits)
    have "length r < length q" using "2.IH" False q by blast
    moreover have "length q \<le> length p" using q(1) escape_length by (auto split: if_splits)
    ultimately show ?thesis by simp
  qed (use "2.prems" in auto)
qed simp

lemma parse_string_length: "parse_string p = Inr (s, r) \<Longrightarrow> p \<noteq> [] \<Longrightarrow> length r < length p"
  using string_body_length [of "[]" "tl p"]
  by (cases "string_body [] (tl p)") (fastforce simp: parse_string_def apfst_def map_prod_def split: prod.splits)+

lemma parse_ident_length: "parse_ident k p = Inr (s, r) \<Longrightarrow> p \<noteq> [] \<Longrightarrow> length r < length p"
  by (cases p) (auto simp: parse_ident_def Let_def split: if_splits)

lemma strtoll_prefix_length: "strtoll_prefix base q = (b, r) \<Longrightarrow> length r \<le> length q"
  by (auto simp: strtoll_prefix_def split: if_splits)

lemma strtoll_length: "length (snd (strtoll base p)) \<le> length p"
proof -
  let ?q = "dropWhile isspace p"
  let ?q1 = "if at ?q = CHR ''-'' \<or> at ?q = CHR ''+'' then tl ?q else ?q"
  obtain b r where r: "strtoll_prefix base ?q1 = (b, r)" by fastforce
  have "length ?q \<le> length p" by (rule length_dropWhile_le)
  then have "length ?q1 \<le> length p" by (auto intro: le_trans [OF diff_le_self])
  with strtoll_prefix_length [OF r] have "length r \<le> length p" by (rule le_trans)
  with r show ?thesis by (auto simp: strtoll_def Let_def intro: le_trans [OF diff_le_self])
qed

lemma strtoll_moves:
  assumes "p \<noteq> []" and "isdigit (at p)" shows "length (snd (strtoll 0 p)) < length p"
proof -
  obtain c q where p: "p = c # q" using assms(1) by (cases p) auto
  with assms(2) have c: "isdigit c" by (simp add: at_def)
  then have ns: "\<not> isspace c" "c \<noteq> CHR ''-''" "c \<noteq> CHR ''+''"
    by (auto simp: isspace_def isdigit_def char_in_def)
  have d: "digit_val c = Some (of_char c - 48)" using c by (simp add: digit_val_def)
  have "is_digit_of 10 c" using c by (auto simp: is_digit_of_def d isdigit_def char_in_def)
  moreover have "c = CHR ''0'' \<Longrightarrow> is_digit_of 8 c" by (simp add: is_digit_of_def digit_val_def isdigit_def char_in_def)
  ultimately show ?thesis using ns
    by (auto simp: strtoll_def strtoll_prefix_def Let_def p at_def hex_prefix_def takeWhile_eq_Nil_iff length_takeWhile_le le_imp_less_Suc
        split: list.splits)
qed

lemma strtoll_hex_moves: "p \<noteq> [] \<Longrightarrow> tl p \<noteq> [] \<Longrightarrow> length (snd (strtoll 16 (drop 2 p))) < length p"
  using strtoll_length [of 16 "drop 2 p"] by (cases p; cases "tl p") auto

section \<open>Values move forward\<close>

text \<open>An error leaves the parser at the same character after spaces.\<close>

lemma json_moves:
  "json_value n p = Some (v, r) \<Longrightarrow>
     length r \<le> length p \<and> (if json_is_error v then skip_spaces r = skip_spaces p else length r < length p)"
  "json_props n ps p = Some (Inr (qs, r)) \<Longrightarrow> length r < length p"
  "json_elems n vs p = Some (Inr (ws, r)) \<Longrightarrow> length r < length p"
proof (induction n p and n ps p and n vs p arbitrary: v r and qs r and ws r rule: json_value_json_props_json_elems.induct)
  case (2 n p0)
  let ?p = "skip_spaces p0"
  have le: "length ?p \<le> length p0" by (rule skip_spaces_length)
  show ?case
  proof (cases "?p = []")
    case True
    with "2.prems" show ?thesis by (auto simp: Let_def)
  next
    case ne: False
    then have tl: "length (tl ?p) < length ?p" by (cases ?p) auto
    show ?thesis
    proof (cases "at ?p = CHR ''0'' \<and> at (tl ?p) = CHR ''x''")
      case True
      then have "tl ?p \<noteq> []" by (auto simp: at_def)
      with strtoll_hex_moves [OF ne this] "2.prems" ne True le show ?thesis
        by (auto simp: Let_def apfst_def map_prod_def split: prod.splits)
    next
      case F1: False
      show ?thesis
      proof (cases "isdigit (at ?p)")
        case True
        with strtoll_moves [OF ne this] "2.prems" ne F1 le show ?thesis
          by (auto simp: Let_def apfst_def map_prod_def split: prod.splits)
      next
        case F2: False
        note moves = parse_string_length [OF _ ne] parse_ident_length [OF _ ne]
        have "length r \<le> length p0 \<and> (json_is_error v \<longrightarrow> skip_spaces r = ?p) \<and> (\<not> json_is_error v \<longrightarrow> length r < length p0)"
          using "2.prems" "2.IH"(1) [OF refl refl ne F1 F2] "2.IH"(2) [OF refl refl ne F1 F2] le tl ne F1 F2
          by (auto simp: Let_def dest!: moves split: if_splits option.splits sum.splits prod.splits)
        then show ?thesis by simp
      qed
    qed
  qed
next
  case (4 n ps p0)
  let ?p = "skip_spaces p0"
  have le: "length ?p \<le> length p0" by (rule skip_spaces_length)
  show ?case
  proof (cases "at ?p = CHR ''}''")
    case True
    then have "?p \<noteq> []" by (auto simp: at_def)
    with True le "4.prems" show ?thesis by (cases ?p) (auto simp: Let_def)
  next
    case F: False
    let ?tag = "if at ?p = QUOTE then parse_string ?p
                else if is_ident_first (at ?p) then map_sum (\<lambda>_. ''Invalid property name'') id (parse_ident 128 ?p)
                else Inl ''Invalid property name''"
    obtain tag r1 where tag: "?tag = Inr (tag, r1)" "tag \<noteq> []"
      using "4.prems" F by (fastforce simp: Let_def split: sum.splits if_splits)
    have ne: "?p \<noteq> []" using tag(1) by (auto simp: at_def is_ident_first_def char_in_def split: if_splits)
    have "length r1 < length ?p"
      using tag(1) parse_string_length [OF _ ne] parse_ident_length [OF _ ne, of 128 tag r1]
      by (cases "parse_ident 128 ?p") (auto split: if_splits)
    let ?r2 = "skip_spaces r1"
    have colon: "at ?r2 = CHR '':''" using "4.prems" F tag by (auto simp: Let_def split: if_splits)
    obtain v r3 where v: "json_value n (tl ?r2) = Some (v, r3)"
      using "4.prems" F tag colon by (auto simp: Let_def split: if_splits option.splits)
    let ?r4 = "skip_spaces r3"
    have "length r3 \<le> length (tl ?r2)"
      using "4.IH"(1) [OF refl F tag(1) refl tag(2) refl _ v] colon by simp
    moreover have "length ?r4 \<le> length r3" "length ?r2 \<le> length r1" by (rule skip_spaces_length)+
    moreover have "length r < length ?r4 + 1"
    proof (cases "at ?r4 = CHR '',''")
      case True
      then have "json_props n (props_set ps tag v) (tl ?r4) = Some (Inr (qs, r))"
        using "4.prems" F tag colon v by (auto simp: Let_def split: if_splits)
      from "4.IH"(2) [OF refl F tag(1) refl tag(2) refl _ v refl refl refl True this] colon show ?thesis by auto
    next
      case C: False
      then have B: "at ?r4 = CHR ''}''" and "json_props n (props_set ps tag v) ?r4 = Some (Inr (qs, r))"
        using "4.prems" F tag colon v by (auto simp: Let_def split: if_splits)
      from "4.IH"(3) [OF refl F tag(1) refl tag(2) refl _ v refl refl refl C _ this(2)] colon B show ?thesis by auto
    qed
    ultimately show ?thesis using le \<open>length r1 < length ?p\<close> colon at_ne [of ?r2] by (cases ?r2) auto
  qed
next
  case (6 n vs p0)
  let ?p = "skip_spaces p0"
  have le: "length ?p \<le> length p0" by (rule skip_spaces_length)
  show ?case
  proof (cases "at ?p = CHR '']''")
    case True
    then have "?p \<noteq> []" by (auto simp: at_def)
    with True le "6.prems" show ?thesis by (cases ?p) (auto simp: Let_def)
  next
    case F: False
    obtain v r1 where v: "json_value n ?p = Some (v, r1)"
      using "6.prems" F by (auto simp: Let_def split: option.splits)
    let ?r2 = "skip_spaces r1"
    have r1: "length r1 \<le> length ?p" "json_is_error v \<Longrightarrow> ?r2 = ?p" "\<not> json_is_error v \<Longrightarrow> length r1 < length ?p"
      using "6.IH"(1) [OF refl F v] by (auto split: if_splits)
    have r2: "length ?r2 \<le> length r1" by (rule skip_spaces_length)
    show ?thesis
    proof (cases "at ?r2 = CHR '',''")
      case True
      then have "json_elems n (vs @ [v]) (tl ?r2) = Some (Inr (ws, r))"
        using "6.prems" F v by (auto simp: Let_def split: if_splits)
      from "6.IH"(2) [OF refl F v refl refl refl True this] r1(1) r2 le show ?thesis by simp
    next
      case C: False
      then have B: "at ?r2 = CHR '']''" and "json_elems n (vs @ [v]) ?r2 = Some (Inr (ws, r))"
        using "6.prems" F v by (auto simp: Let_def split: if_splits)
      from "6.IH"(3) [OF refl F v refl refl refl C _ this(2)] B r1 r2 le F show ?thesis by auto
    qed
  qed
qed simp_all

section \<open>The parser ends\<close>

lemma json_ends:
  "(2 * length p + 1 \<le> n \<longrightarrow> json_value n p \<noteq> None) \<and>
   (2 * length p + 2 \<le> n \<longrightarrow> json_props n ps p \<noteq> None \<and> json_elems n vs p \<noteq> None)"
proof (induction n arbitrary: p ps vs)
  case (Suc n)
  let ?p = "skip_spaces p"
  have le: "length ?p \<le> length p" by (rule skip_spaces_length)
  have val: "json_value (Suc n) p \<noteq> None" if "2 * length p + 1 \<le> Suc n"
  proof (cases "?p = []")
    case False
    then have "2 * length (tl ?p) + 2 \<le> n" using le that by (cases ?p) auto
    with Suc.IH [of "tl ?p" "[]" "[]"] obtain x y where
        "json_props n [] (tl ?p) = Some x" "json_elems n [] (tl ?p) = Some y" by auto
    then show ?thesis
      by (cases x; cases y) (simp_all add: Let_def split: sum.split prod.split)
  qed (simp add: Let_def)
  have props: "json_props (Suc n) ps p \<noteq> None" if n: "2 * length p + 2 \<le> Suc n"
  proof (rule ccontr, simp only: not_not)
    assume none: "json_props (Suc n) ps p = None"
    let ?tag = "if at ?p = QUOTE then parse_string ?p
                else if is_ident_first (at ?p) then map_sum (\<lambda>_. ''Invalid property name'') id (parse_ident 128 ?p)
                else Inl ''Invalid property name''"
    obtain tag r1 where tag: "?tag = Inr (tag, r1)"
      using none by (fastforce simp: Let_def split: sum.splits if_splits)
    have ne: "?p \<noteq> []" using tag by (auto simp: at_def is_ident_first_def char_in_def split: if_splits)
    have "length r1 < length ?p"
      using tag parse_string_length [OF _ ne] parse_ident_length [OF _ ne, of 128 tag r1]
      by (cases "parse_ident 128 ?p") (auto split: if_splits)
    moreover have "length (skip_spaces r1) \<le> length r1" by (rule skip_spaces_length)
    ultimately have r2: "length (tl (skip_spaces r1)) < length p" using le by simp
    then have "2 * length (tl (skip_spaces r1)) + 1 \<le> n" using n by simp
    with Suc.IH obtain v r3 where v: "json_value n (tl (skip_spaces r1)) = Some (v, r3)" by fastforce
    let ?r4 = "skip_spaces r3"
    have "length ?r4 \<le> length (tl (skip_spaces r1))"
      using json_moves(1) [OF v] skip_spaces_length [of r3] by simp
    then have "2 * length ?r4 + 2 \<le> n" "2 * length (tl ?r4) + 2 \<le> n" using r2 n by simp_all
    with Suc.IH have "json_props n (props_set ps tag v) ?r4 \<noteq> None" "json_props n (props_set ps tag v) (tl ?r4) \<noteq> None"
      by blast+
    with none tag v show False by (simp add: Let_def split: if_splits)
  qed
  have elems: "json_elems (Suc n) vs p \<noteq> None" if n: "2 * length p + 2 \<le> Suc n"
  proof (rule ccontr, simp only: not_not)
    assume none: "json_elems (Suc n) vs p = None"
    then have F: "at ?p \<noteq> CHR '']''" by (auto simp: Let_def split: if_splits)
    have "2 * length ?p + 1 \<le> n" using n le by simp
    with Suc.IH obtain v r1 where v: "json_value n ?p = Some (v, r1)" by fastforce
    let ?r2 = "skip_spaces r1"
    have r1: "length r1 \<le> length ?p" "json_is_error v \<Longrightarrow> ?r2 = ?p" "\<not> json_is_error v \<Longrightarrow> length r1 < length ?p"
      using json_moves(1) [OF v] by (auto split: if_splits)
    have r2: "length ?r2 \<le> length r1" by (rule skip_spaces_length)
    have "json_elems n (vs @ [v]) (tl ?r2) \<noteq> None" if "at ?r2 = CHR '',''"
    proof -
      have "?r2 \<noteq> []" using that by (auto simp: at_def)
      then have "2 * length (tl ?r2) + 2 \<le> n" using r1(1) r2 le n by (cases ?r2) auto
      with Suc.IH show ?thesis by blast
    qed
    moreover have "json_elems n (vs @ [v]) ?r2 \<noteq> None" if "at ?r2 = CHR '']''"
    proof -
      have "\<not> json_is_error v" using that F r1(2) by auto
      then have "2 * length ?r2 + 2 \<le> n" using r1(3) r2 le n by simp
      with Suc.IH show ?thesis by blast
    qed
    ultimately show False using none F v by (simp add: Let_def split: if_splits)
  qed
  show ?case using val props elems by blast
qed simp

text \<open>Every text is parsed: the loops of the parser end, also after errors.\<close>

theorem json_parse_value_returns: "\<exists>v. json_parse_value s = Some v"
  using json_ends [of "takeWhile (\<lambda>c. c \<noteq> CHR 0x00) s" "2 * length (takeWhile (\<lambda>c. c \<noteq> CHR 0x00) s) + 1"]
  by (auto simp: json_parse_value_def Let_def)

end
