(* ===== verification/Json_Props.thy ===== *)
theory Json_Props
  imports Json_Total
begin

text \<open>The parser of configuration files reads back what a printer of JSON writes.\<close>

declare json_value.simps(2) [simp del] json_props.simps(2) [simp del] json_elems.simps(2) [simp del]

lemma at_Cons [simp]: "at (c # p) = c"
  by (simp add: at_def)

lemma space_brackets [simp]:
  "\<not> isspace (CHR '']'')" "\<not> isspace (CHR ''}'')" "\<not> isspace (CHR '','')" "\<not> isspace (CHR '':'')" "\<not> isspace QUOTE"
  by (simp_all add: isspace_def char_in_def)

section \<open>Printing\<close>

definition print_char :: "char \<Rightarrow> string" where
  "print_char c =
     (if c = QUOTE \<or> c = BACKSLASH then [BACKSLASH, c] else if c = NEWLINE then [BACKSLASH, CHR ''n''] else [c])"

definition print_string :: "string \<Rightarrow> string" where
  "print_string s = [QUOTE] @ concat (map print_char s) @ [QUOTE]"

fun join :: "string list \<Rightarrow> string" where
  "join [] = []"
| "join [x] = x"
| "join (x # y # zs) = x @ '','' @ join (y # zs)"

fun json_print :: "json \<Rightarrow> string" where
  "json_print (JSON_STR s) = print_string s"
| "json_print (JSON_INT w) = dec (unat w)"
| "json_print (JSON_OBJ ps) = ''{'' @ join (map (\<lambda>(k, v). print_string k @ '':'' @ json_print v) ps) @ ''}''"
| "json_print (JSON_ARRAY vs) = ''['' @ join (map json_print vs) @ '']''"
| "json_print (JSON_BOOL b) = (if b then ''true'' else ''false'')"
| "json_print JSON_NULL = ''null''"
| "json_print JSON_UNDEFINED = []"
| "json_print (JSON_EXCEPTION m) = []"

text \<open>
  Strings fit the buffer of the parser and hold no NUL, numbers are not negative (the parser has no
  minus sign), the names of an object are different and not empty.
\<close>

definition text_ok :: "string \<Rightarrow> bool" where
  "text_ok s \<longleftrightarrow> length s \<le> 4095 \<and> CHR 0x00 \<notin> set s"

fun json_printable :: "json \<Rightarrow> bool" where
  "json_printable (JSON_STR s) = text_ok s"
| "json_printable (JSON_INT w) = (unat w < 2 ^ 63)"
| "json_printable (JSON_OBJ ps) =
     (distinct (map fst ps) \<and> (\<forall>(k, v) \<in> set ps. k \<noteq> [] \<and> text_ok k \<and> json_printable v))"
| "json_printable (JSON_ARRAY vs) = (\<forall>v \<in> set vs. json_printable v)"
| "json_printable (JSON_BOOL b) = True"
| "json_printable JSON_NULL = True"
| "json_printable JSON_UNDEFINED = False"
| "json_printable (JSON_EXCEPTION m) = False"

section \<open>Strings\<close>

lemma string_body_print:
  "length acc + length s \<le> 4095 \<Longrightarrow> string_body acc (concat (map print_char s) @ QUOTE # r) = Inr (acc @ s, r)"
  by (induction s arbitrary: acc) (auto simp: print_char_def escape_def at_def)

lemma json_string_new_id: "CHR 0x00 \<notin> set s \<Longrightarrow> json_string_new s = s"
  by (auto simp: json_string_new_def takeWhile_eq_all_conv)

lemma parse_string_print: "text_ok s \<Longrightarrow> parse_string (print_string s @ r) = Inr (s, r)"
  using string_body_print [of "[]" s r]
  by (simp add: parse_string_def print_string_def text_ok_def json_string_new_id)

section \<open>Numbers\<close>

definition delim :: "string \<Rightarrow> bool" where
  "delim r \<longleftrightarrow> (case r of [] \<Rightarrow> True | c # _ \<Rightarrow> c = CHR '','' \<or> c = CHR '']'' \<or> c = CHR ''}'')"

lemma of_char_digit: "n < 10 \<Longrightarrow> (of_char (char_of (48 + n) :: char) :: nat) = 48 + n"
  by simp

lemma digit_char: "n < 10 \<Longrightarrow> isdigit (char_of (48 + n))" "n < 10 \<Longrightarrow> digit_val (char_of (48 + n)) = Some n"
  by (auto simp: digit_val_def isdigit_def char_in_def of_char_digit)

lemma dec_digits: "\<forall>c \<in> set (dec n). isdigit c"
proof (induction n rule: dec.induct)
  case (1 n)
  show ?case
  proof (cases "n < 10")
    case True
    then show ?thesis by (subst dec.simps) (simp add: digit_char)
  next
    case False
    with 1 show ?thesis by (subst dec.simps) (auto simp: digit_char)
  qed
qed

lemma dec_value: "digits_value 10 (dec n) = n"
proof (induction n rule: dec.induct)
  case (1 n)
  show ?case
  proof (cases "n < 10")
    case True
    then show ?thesis by (subst dec.simps) (simp add: digits_value_def digit_char)
  next
    case False
    with 1 show ?thesis by (subst dec.simps) (simp add: digits_value_def digit_char)
  qed
qed

lemma dec_head: "dec n \<noteq> [] \<and> (hd (dec n) = CHR ''0'' \<longrightarrow> n = 0)"
proof (induction n rule: dec.induct)
  case (1 n)
  show ?case
  proof (cases "n < 10")
    case True
    have "char_of (48 + n) = CHR ''0'' \<Longrightarrow> n = 0"
      using arg_cong [of "char_of (48 + n)" "CHR ''0''" "of_char :: char \<Rightarrow> nat"] of_char_digit [OF True] by simp
    with True show ?thesis by (simp add: dec.simps [of n])
  next
    case False
    with 1 have IH: "dec (n div 10) \<noteq> []" "hd (dec (n div 10)) = CHR ''0'' \<Longrightarrow> n div 10 = 0" by auto
    from False have d: "dec n = dec (n div 10) @ [char_of (48 + n mod 10)]" by (subst dec.simps) simp
    from IH False show ?thesis unfolding d by auto
  qed
qed

lemma delim_no_digit: "delim r \<Longrightarrow> r = [] \<or> \<not> is_digit_of b (hd r)"
  by (auto simp: delim_def is_digit_of_def digit_val_def isdigit_def char_in_def split: list.splits)

lemma isdigit_of_10: "isdigit c \<Longrightarrow> is_digit_of 10 c"
  by (auto simp: is_digit_of_def digit_val_def isdigit_def char_in_def)

lemma strtoll_dec:
  assumes "n < 2 ^ 63" and "delim r" shows "strtoll 0 (dec n @ r) = (of_nat n, r)"
proof -
  obtain c ds where d: "dec n = c # ds" and c0: "c = CHR ''0'' \<longrightarrow> n = 0" using dec_head [of n] by (cases "dec n") auto
  have dig: "isdigit c" "\<forall>x \<in> set ds. isdigit x" using dec_digits [of n] by (auto simp: d)
  have ns: "\<not> isspace c" "c \<noteq> CHR ''-''" "c \<noteq> CHR ''+''"
    using dig(1) by (auto simp: isspace_def isdigit_def char_in_def)
  have val: "digits_value 10 (c # ds) = n" using dec_value [of n] d by simp
  have sat: "saturate False n = of_nat n" using assms(1) by (simp add: saturate_def)
  show ?thesis
  proof (cases "c = CHR ''0''")
    case True
    then have ds: "ds = []" using c0 d by (subst (asm) dec.simps) auto
    have "\<not> hex_prefix (c # r)" using assms(2) by (auto simp: hex_prefix_def delim_def split: list.splits)
    then have "strtoll_prefix 0 (c # r) = (8, c # r)" by (simp add: strtoll_prefix_def True at_def)
    moreover have "takeWhile (is_digit_of 8) (c # r) = [c]"
      using delim_no_digit [OF assms(2), of 8] by (cases r) (auto simp: True is_digit_of_def digit_val_def isdigit_def char_in_def)
    moreover have "digits_value 8 [c] = n" using c0 by (simp add: True digits_value_def digit_val_def isdigit_def char_in_def)
    ultimately show ?thesis using ns sat by (simp add: strtoll_def d ds at_def)
  next
    case False
    then have "strtoll_prefix 0 (c # ds @ r) = (10, c # ds @ r)"
      by (auto simp: strtoll_prefix_def at_def hex_prefix_def split: list.splits)
    moreover have "takeWhile (is_digit_of 10) (c # ds @ r) = c # ds"
      using dig isdigit_of_10 delim_no_digit [OF assms(2), of 10]
      by (cases r) (auto simp: takeWhile_append2 takeWhile_eq_all_conv)
    ultimately show ?thesis using ns sat val by (simp add: strtoll_def d at_def)
  qed
qed

section \<open>Values\<close>

lemma print_head:
  assumes "json_printable v"
  shows "json_print v \<noteq> [] \<and> \<not> isspace (at (json_print v @ r)) \<and> at (json_print v @ r) \<noteq> CHR ''/'' \<and>
    at (json_print v @ r) \<noteq> CHR '']'' \<and> at (json_print v @ r) \<noteq> CHR ''}''"
proof (cases v)
  case (JSON_INT w)
  obtain c ds where d: "dec (unat w) = c # ds" using dec_head [of "unat w"] by (cases "dec (unat w)") auto
  then have "isdigit c" using dec_digits [of "unat w"] by simp
  then show ?thesis using JSON_INT d by (auto simp: at_def isspace_def isdigit_def char_in_def)
qed (use assms in \<open>auto simp: print_string_def at_def isspace_def char_in_def split: if_splits\<close>)

lemma skip_print: "json_printable v \<Longrightarrow> skip_spaces (json_print v @ r) = json_print v @ r"
  using print_head [of v r] by (cases "json_print v @ r") (auto simp: at_def)

lemma skip_nonspace: "\<not> isspace c \<Longrightarrow> c \<noteq> CHR ''/'' \<Longrightarrow> skip_spaces (c # r) = c # r"
  by simp

definition print_prop :: "string \<times> json \<Rightarrow> string" where
  "print_prop = (\<lambda>(k, v). print_string k @ '':'' @ json_print v)"

lemma join_Cons: "join (x # xs) = (if xs = [] then x else x @ '','' @ join xs)"
  by (cases xs) auto

lemma props_set_new: "k \<notin> fst ` set ps \<Longrightarrow> props_set ps k v = ps @ [(k, v)]"
  by (induction ps) auto

text \<open>The loops read the elements one after the other.\<close>

definition reads :: "json \<Rightarrow> bool" where
  "reads v \<longleftrightarrow> (\<forall>n r. 2 * length (json_print v) + 1 \<le> n \<longrightarrow> delim r \<longrightarrow> json_value n (json_print v @ r) = Some (v, r))"

lemma elems_read:
  assumes "\<forall>v \<in> set vs. json_printable v \<and> reads v" and "2 * length (join (map json_print vs)) + 3 \<le> n"
  shows "json_elems n ws (join (map json_print vs) @ '']'' @ r) = Some (Inr (ws @ vs, r))"
  using assms
proof (induction vs arbitrary: n ws)
  case Nil
  then obtain m where "n = Suc m" by (cases n) auto
  then show ?case by (simp add: json_elems.simps(2))
next
  case (Cons v vs)
  then obtain m where n: "n = Suc m" by (cases n) auto
  have v: "json_printable v" "reads v" using Cons.prems(1) by simp_all
  let ?q = "(if vs = [] then [] else '','' @ join (map json_print vs)) @ '']'' @ r"
  have split: "join (map json_print (v # vs)) @ '']'' @ r = json_print v @ ?q" by (simp add: join_Cons)
  have "delim ?q" by (simp add: delim_def)
  moreover have "2 * length (json_print v) + 1 \<le> m" using Cons.prems(2) n by (simp add: join_Cons split: if_splits)
  ultimately have val: "json_value m (json_print v @ ?q) = Some (v, ?q)" using v(2) by (simp add: reads_def)
  have q: "skip_spaces ?q = ?q" by simp
  note head = print_head [OF v(1), of ?q] skip_print [OF v(1), of ?q]
  show ?case
  proof (cases "vs = []")
    case True
    obtain k where "m = Suc k" using Cons.prems(2) n print_head [OF v(1)] by (cases m) (auto simp: True)
    then show ?thesis using val head q unfolding split n by (simp add: True Let_def json_elems.simps(2))
  next
    case False
    have "2 * length (join (map json_print vs)) + 3 \<le> m" using Cons.prems(2) n False by (simp add: join_Cons)
    then have "json_elems m (ws @ [v]) (join (map json_print vs) @ '']'' @ r) = Some (Inr ((ws @ [v]) @ vs, r))"
      using Cons.IH Cons.prems(1) by simp
    then show ?thesis using val head q unfolding split n by (simp add: False Let_def json_elems.simps(2))
  qed
qed


lemma quote_head: "print_string k @ r = QUOTE # (concat (map print_char k) @ QUOTE # r)"
  by (simp add: print_string_def)

lemma props_read:
  assumes "distinct (map fst (qs @ ps))"
    and "\<forall>(k, v) \<in> set ps. k \<noteq> [] \<and> text_ok k \<and> json_printable v \<and> reads v"
    and "2 * length (join (map print_prop ps)) + 3 \<le> n"
  shows "json_props n qs (join (map print_prop ps) @ ''}'' @ r) = Some (Inr (qs @ ps, r))"
  using assms
proof (induction ps arbitrary: n qs)
  case Nil
  then obtain m where "n = Suc m" by (cases n) auto
  then show ?case by (simp add: json_props.simps(2))
next
  case (Cons p ps)
  then obtain m where n: "n = Suc m" by (cases n) auto
  obtain k v where p: "p = (k, v)" by (cases p)
  have kv: "k \<noteq> []" "text_ok k" "json_printable v" "reads v" using Cons.prems(2) p by simp_all
  let ?q = "(if ps = [] then [] else '','' @ join (map print_prop ps)) @ ''}'' @ r"
  have split: "join (map print_prop (p # ps)) @ ''}'' @ r = print_string k @ CHR '':'' # json_print v @ ?q"
    by (simp add: join_Cons p print_prop_def)
  have "delim ?q" by (simp add: delim_def)
  moreover have len: "2 * length (json_print v) + 3 \<le> m"
    using Cons.prems(3) n by (simp add: join_Cons p print_prop_def print_string_def split: if_splits)
  ultimately have val: "json_value m (json_print v @ ?q) = Some (v, ?q)" using kv(4) by (simp add: reads_def)
  have q: "skip_spaces ?q = ?q" by simp
  have tag: "parse_string (print_string k @ CHR '':'' # json_print v @ ?q) = Inr (k, CHR '':'' # json_print v @ ?q)"
    by (rule parse_string_print [OF kv(2)])
  have skip: "skip_spaces (print_string k @ t) = print_string k @ t" "at (print_string k @ t) = QUOTE" for t
    by (simp_all add: quote_head)
  have set: "props_set qs k v = qs @ [(k, v)]" using Cons.prems(1) p by (intro props_set_new) auto
  show ?case
  proof (cases "ps = []")
    case True
    obtain j where "m = Suc j" using len by (cases m) auto
    then show ?thesis using val tag skip q set kv(1) unfolding split n by (simp add: True Let_def json_props.simps(2) p)
  next
    case False
    have "2 * length (join (map print_prop ps)) + 3 \<le> m" using Cons.prems(3) n False by (simp add: join_Cons)
    moreover have "distinct (map fst ((qs @ [(k, v)]) @ ps))" using Cons.prems(1) p by simp
    ultimately have "json_props m (qs @ [(k, v)]) (join (map print_prop ps) @ ''}'' @ r) = Some (Inr ((qs @ [(k, v)]) @ ps, r))"
      using Cons.IH Cons.prems(2) by simp
    then show ?thesis using val tag skip q set kv(1) unfolding split n by (simp add: False Let_def json_props.simps(2) p)
  qed
qed

lemma word_reads:
  assumes "s \<noteq> []" "\<forall>c \<in> set s. is_ident_char c" "is_ident_first (hd s)" "length s < 128" "delim r"
  shows "parse_ident 128 (s @ r) = Inr (s, r)"
proof -
  have "\<not> is_ident_char (at r)" using assms(5)
    by (auto simp: delim_def at_def is_ident_char_def is_ident_first_def isdigit_def char_in_def split: list.splits)
  then have "takeWhile is_ident_char (tl s @ r) = tl s"
    using assms(1,2) by (cases r; cases s) (auto simp: takeWhile_append2 takeWhile_eq_all_conv)
  with assms(1,4) show ?thesis by (cases s) (simp_all add: parse_ident_def)
qed

lemma printed_reads: "json_printable v \<Longrightarrow> reads v"
proof (induction v rule: json_print.induct)
  case (1 s)
  show ?case
    unfolding reads_def
  proof (intro allI impI)
    fix n r assume "2 * length (json_print (JSON_STR s)) + 1 \<le> n" "delim r"
    then obtain m where "n = Suc m" by (cases n) auto
    with parse_string_print [of s r] 1 show "json_value n (json_print (JSON_STR s) @ r) = Some (JSON_STR s, r)"
      by (simp add: json_value.simps(2) Let_def quote_head isdigit_def char_in_def)
  qed
next
  case (2 w)
  show ?case
    unfolding reads_def
  proof (intro allI impI)
    fix n r assume "2 * length (json_print (JSON_INT w)) + 1 \<le> n" and r: "delim r"
    then obtain m where n: "n = Suc m" by (cases n) auto
    obtain c ds where d: "dec (unat w) = c # ds" using dec_head [of "unat w"] by (cases "dec (unat w)") auto
    then have dig: "isdigit c" "\<forall>x \<in> set ds. isdigit x" using dec_digits [of "unat w"] by auto
    have "at (ds @ r) \<noteq> CHR ''x''"
      using dig(2) r by (cases ds) (auto simp: delim_def at_def isdigit_def char_in_def split: list.splits)
    with strtoll_dec [of "unat w" r] 2 r dig(1) n skip_print [OF 2, of r]
    show "json_value n (json_print (JSON_INT w) @ r) = Some (JSON_INT w, r)"
      by (simp add: json_value.simps(2) Let_def d)
  qed
next
  case (3 ps)
  have pp: "map (\<lambda>(k, v). print_string k @ '':'' @ json_print v) ps = map print_prop ps" by (simp add: print_prop_def)
  show ?case
    unfolding reads_def
  proof (intro allI impI)
    fix n r assume n: "2 * length (json_print (JSON_OBJ ps)) + 1 \<le> n"
    then obtain m where m: "n = Suc m" by (cases n) auto
    have "json_props m [] (join (map print_prop ps) @ ''}'' @ r) = Some (Inr ([] @ ps, r))"
      using 3 n m unfolding json_print.simps pp by (intro props_read) (fastforce)+
    then show "json_value n (json_print (JSON_OBJ ps) @ r) = Some (JSON_OBJ ps, r)"
      unfolding json_print.simps pp by (simp add: m json_value.simps(2) Let_def isdigit_def isspace_def char_in_def)
  qed
next
  case (4 vs)
  show ?case
    unfolding reads_def
  proof (intro allI impI)
    fix n r assume n: "2 * length (json_print (JSON_ARRAY vs)) + 1 \<le> n"
    then obtain m where m: "n = Suc m" by (cases n) auto
    have "json_elems m [] (join (map json_print vs) @ '']'' @ r) = Some (Inr ([] @ vs, r))"
      using 4 n m by (intro elems_read) auto
    then show "json_value n (json_print (JSON_ARRAY vs) @ r) = Some (JSON_ARRAY vs, r)"
      by (simp add: m json_value.simps(2) Let_def isdigit_def isspace_def char_in_def)
  qed
next
  case (5 b)
  show ?case
    unfolding reads_def
  proof (intro allI impI)
    fix n r assume n: "2 * length (json_print (JSON_BOOL b)) + 1 \<le> n" and r: "delim r"
    then obtain m where m: "n = Suc m" by (cases n) auto
    have "parse_ident 128 (''true'' @ r) = Inr (''true'', r)" "parse_ident 128 (''false'' @ r) = Inr (''false'', r)"
      by (rule word_reads; simp add: r is_ident_char_def is_ident_first_def char_in_def)+
    then show "json_value n (json_print (JSON_BOOL b) @ r) = Some (JSON_BOOL b, r)"
      by (simp add: m json_value.simps(2) Let_def isdigit_def isspace_def char_in_def is_ident_first_def)
  qed
next
  case 6
  show ?case
    unfolding reads_def
  proof (intro allI impI)
    fix n r assume n: "2 * length (json_print JSON_NULL) + 1 \<le> n" and r: "delim r"
    then obtain m where m: "n = Suc m" by (cases n) auto
    have "parse_ident 128 (''null'' @ r) = Inr (''null'', r)"
      by (rule word_reads; simp add: r is_ident_char_def is_ident_first_def char_in_def)
    then show "json_value n (json_print JSON_NULL @ r) = Some (JSON_NULL, r)"
      by (simp add: m json_value.simps(2) Let_def isdigit_def isspace_def char_in_def is_ident_first_def)
  qed
qed simp_all

section \<open>Texts\<close>

lemma set_join: "set (join xs) \<subseteq> insert (CHR '','') (\<Union>x \<in> set xs. set x)"
  by (induction xs rule: join.induct) auto

lemma set_print_string: "CHR 0x00 \<notin> set s \<Longrightarrow> CHR 0x00 \<notin> set (print_string s)"
  by (auto simp: print_string_def print_char_def split: if_splits)

lemma print_no_nul: "json_printable v \<Longrightarrow> CHR 0x00 \<notin> set (json_print v)"
proof (induction v rule: json_print.induct)
  case (1 s)
  then show ?case by (simp add: text_ok_def set_print_string)
next
  case (2 w)
  then show ?case using dec_digits [of "unat w"] by (auto simp: isdigit_def char_in_def)
next
  case (3 ps)
  have "CHR 0x00 \<notin> set (print_string k @ '':'' @ json_print v)" if "(k, v) \<in> set ps" for k v
    using 3 that set_print_string [of k] by (auto simp: text_ok_def)
  then show ?case using set_join [of "map (\<lambda>(k, v). print_string k @ '':'' @ json_print v) ps"] by fastforce
next
  case (4 vs)
  then show ?case using set_join [of "map json_print vs"] by fastforce
qed simp_all

lemma parse_printed:
  assumes "json_printable v" shows "json_parse_value (json_print v) = Some v"
proof -
  have nul: "takeWhile (\<lambda>c. c \<noteq> CHR 0x00) (json_print v) = json_print v"
    using print_no_nul [OF assms] by (auto simp: takeWhile_eq_all_conv)
  have "json_value (2 * length (json_print v) + 1) (json_print v @ []) = Some (v, [])"
    using printed_reads [OF assms] by (auto simp: reads_def delim_def simp del: append_Nil2)
  moreover have "\<not> json_is_error v" using assms by (cases v) auto
  ultimately show ?thesis by (simp add: json_parse_value_def nul)
qed

text \<open>
  C29. The parser of configuration files reads back what is printed: for every value of strings,
  non-negative numbers, truth values, null, arrays, and objects with different names that are not
  empty, parsing its JSON text gives the value.  (The parser knows no negative numbers, and strings
  of more than 4095 characters or with a NUL do not survive.)
\<close>

theorem json_roundtrip:
  assumes "json_printable v" shows "json_parse_value (json_print v) = Some v"
  by (rule parse_printed [OF assms])

definition json_example :: json where
  "json_example = JSON_OBJ [(''version'', JSON_INT 1), (''drives'', JSON_ARRAY [JSON_STR ''a.img'', JSON_NULL]), (''rtc'', JSON_BOOL True)]"

theorem json_roundtrip_witness:
  "json_parse_value (json_print json_example) = Some json_example"
  by (rule json_roundtrip) (simp add: json_example_def text_ok_def)

text \<open>
  An element that cannot be parsed is kept as an error inside the value when a comma or the closing
  bracket follows: the parser accepts the texts \<open>[,]\<close> and \<open>{a:}\<close>.
\<close>

lemma json_errors_kept:
  "json_parse_value ''[,]'' = Some (JSON_ARRAY [JSON_EXCEPTION ''unexpected character'']) \<and>
   json_parse_value ''{a:}'' = Some (JSON_OBJ [(''a'', JSON_EXCEPTION ''unexpected character'')])"
  by code_simp

end
