(* ===== verification/Config_Props.thy ===== *)
theory Config_Props
  imports Config Json_Props
begin

text \<open>A configuration written as a JSON object is read back from its text.\<close>

section \<open>Writing a configuration\<close>

definition present :: "(string \<times> json option) list \<Rightarrow> (string \<times> json) list" where
  "present t = concat (map (\<lambda>(n, x). case x of None \<Rightarrow> [] | Some v \<Rightarrow> [(n, v)]) t)"

definition str_prop :: "string option \<Rightarrow> json option" where
  "str_prop x = map_option JSON_STR x"

definition nth_prop :: "('a \<Rightarrow> json) \<Rightarrow> 'a list \<Rightarrow> nat \<Rightarrow> json option" where
  "nth_prop f xs i = (if i < length xs then Some (f (xs ! i)) else None)"

definition drive_json :: "string \<times> string option \<Rightarrow> json" where
  "drive_json = (\<lambda>(file, device). JSON_OBJ (present [(''file'', Some (JSON_STR file)), (''device'', str_prop device)]))"

definition fs_json :: "string \<times> string \<Rightarrow> json" where
  "fs_json = (\<lambda>(file, tag). JSON_OBJ (present [(''file'', Some (JSON_STR file)), (''tag'', Some (JSON_STR tag))]))"

definition eth_json :: "string \<times> string option \<Rightarrow> json" where
  "eth_json = (\<lambda>(driver, ifname). JSON_OBJ (present [(''driver'', Some (JSON_STR driver)), (''ifname'', str_prop ifname)]))"

definition display_json :: "vm_config \<Rightarrow> json option" where
  "display_json c = map_option (\<lambda>device. JSON_OBJ (present
     [(''device'', Some (JSON_STR device)), (''width'', Some (JSON_INT (cf_width c))),
      (''height'', Some (JSON_INT (cf_height c))), (''vga_bios'', str_prop (cf_vga_bios c))])) (cf_display_device c)"

definition config_table :: "vm_config \<Rightarrow> (string \<times> json option) list" where
  "config_table c =
     [(''version'', Some (JSON_INT 1)), (''machine'', Some (JSON_STR ''riscv64'')),
      (''memory_base_addr'', Some (JSON_INT (cf_ram_base_addr c))),
      (''memory_size'', Some (JSON_INT (drop_bit 20 (cf_ram_size c)))),
      (''bios'', str_prop (cf_bios c)), (''kernel'', str_prop (cf_kernel c)), (''initrd'', str_prop (cf_initrd c)),
      (''cmdline'', str_prop (cf_cmdline c)), (''htif_base_addr'', Some (JSON_INT (cf_htif_base_addr c))),
      (''maxinsns'', Some (JSON_INT (cf_maxinsns c))), (''load'', str_prop (cf_snapshot_load_name c)),
      (''drive0'', nth_prop drive_json (cf_drives c) 0), (''drive1'', nth_prop drive_json (cf_drives c) 1),
      (''drive2'', nth_prop drive_json (cf_drives c) 2), (''drive3'', nth_prop drive_json (cf_drives c) 3),
      (''fs0'', nth_prop fs_json (cf_fs c) 0), (''fs1'', nth_prop fs_json (cf_fs c) 1),
      (''fs2'', nth_prop fs_json (cf_fs c) 2), (''fs3'', nth_prop fs_json (cf_fs c) 3),
      (''eth0'', nth_prop eth_json (cf_eth c) 0), (''display0'', display_json c),
      (''input_device'', str_prop (cf_input_device c)),
      (''accel'', Some (JSON_STR (if cf_accel_enable c then ''auto'' else ''none''))),
      (''rtc_local_time'', Some (JSON_BOOL (cf_rtc_local_time c))), (''ncpus'', Some (JSON_INT (cf_ncpus c))),
      (''physical_addr_len'', Some (JSON_INT (cf_physical_addr_len c))),
      (''logfile'', str_prop (cf_logfile c)), (''bootrom'', str_prop (cf_bootrom_name c))]"

definition config_json :: "vm_config \<Rightarrow> json" where
  "config_json c = JSON_OBJ (present (config_table c))"

text \<open>Configurations that can be written, and the parameters the parser starts from.\<close>

definition opt_ok :: "string option \<Rightarrow> bool" where
  "opt_ok x \<longleftrightarrow> (case x of None \<Rightarrow> True | Some s \<Rightarrow> text_ok s)"

definition strings_ok :: "vm_config \<Rightarrow> bool" where
  "strings_ok c \<longleftrightarrow>
     (\<forall>x \<in> set [cf_bios c, cf_kernel c, cf_initrd c, cf_cmdline c, cf_snapshot_load_name c, cf_display_device c,
               cf_vga_bios c, cf_input_device c, cf_logfile c, cf_bootrom_name c]. opt_ok x) \<and>
     (\<forall>(f, d) \<in> set (cf_drives c). text_ok f \<and> opt_ok d) \<and>
     (\<forall>(f, t) \<in> set (cf_fs c). text_ok f \<and> text_ok t) \<and>
     (\<forall>(d, i) \<in> set (cf_eth c). text_ok d \<and> opt_ok i \<and> (i \<noteq> None \<longleftrightarrow> d = ''tap''))"

definition config_ok :: "vm_config \<Rightarrow> bool" where
  "config_ok c \<longleftrightarrow> strings_ok c \<and>
     (\<forall>w \<in> set [cf_ram_base_addr c, cf_htif_base_addr c, cf_maxinsns c, cf_width c, cf_height c, cf_ncpus c,
               cf_physical_addr_len c]. unat w < 2 ^ 63) \<and>
     push_bit 20 (drop_bit 20 (cf_ram_size c)) = cf_ram_size c \<and>
     (case cf_cmdline c of None \<Rightarrow> True | Some s \<Rightarrow> CHR ''$'' \<notin> set s) \<and>
     length (cf_drives c) \<le> 4 \<and> length (cf_fs c) \<le> 4 \<and> length (cf_eth c) \<le> 1 \<and> \<not> cf_dump_memories c"

definition starts_from :: "vm_config \<Rightarrow> vm_config \<Rightarrow> bool" where
  "starts_from p c \<longleftrightarrow> cf_cfg_filename p = cf_cfg_filename c \<and> cf_drives p = [] \<and> cf_fs p = [] \<and> cf_eth p = [] \<and>
     (cf_cmdline c = None \<longrightarrow> cf_cmdline p = None) \<and>
     (cf_display_device c = None \<longrightarrow>
        cf_width c = cf_width p \<and> cf_height c = cf_height p \<and> cf_vga_bios c = cf_vga_bios p)"

section \<open>Looking up\<close>

lemma present_simps [simp]:
  "present [] = []" "present ((n, None) # t) = present t" "present ((n, Some v) # t) = (n, v) # present t"
  by (simp_all add: present_def)

lemma in_present: "(n, v) \<in> set (present t) \<Longrightarrow> (n, Some v) \<in> set t"
  by (auto simp: present_def split: option.splits)

lemma fst_present: "fst ` set (present t) \<subseteq> fst ` set t"
  using in_present [of _ _ t] by force

lemma distinct_present: "distinct (map fst t) \<Longrightarrow> distinct (map fst (present t))"
proof (induction t)
  case (Cons x t)
  then show ?case using fst_present [of t] by (cases x; cases "snd x") (auto simp: subset_iff image_iff)
qed simp

lemma map_of_present:
  "distinct (map fst t) \<Longrightarrow> map_of (present t) n = (case map_of t n of Some (Some v) \<Rightarrow> Some v | _ \<Rightarrow> None)"
proof (induction t)
  case (Cons x t)
  obtain k y where x: "x = (k, y)" by (cases x)
  have "k \<notin> fst ` set t" using Cons.prems x by simp
  then have "map_of t k = None" by (simp add: map_of_eq_None_iff)
  then show ?case using Cons x by (cases y) auto
qed simp

lemma table_distinct: "distinct (map fst (config_table c))"
  by (simp add: config_table_def)

lemma get_config:
  "json_object_get (config_json c) n = (case map_of (config_table c) n of Some (Some v) \<Rightarrow> v | _ \<Rightarrow> JSON_UNDEFINED)"
  by (simp add: config_json_def map_of_present [OF table_distinct] split: option.splits)

lemma get_str_opt:
  "map_of (config_table c) n = Some (str_prop x) \<Longrightarrow> vm_get_str_opt (config_json c) n = Inr x"
  by (cases x) (simp_all add: vm_get_str_opt_def vm_get_str2_def get_config str_prop_def)

lemma get_uint: "map_of (config_table c) n = Some (Some (JSON_INT w)) \<Longrightarrow> vm_get_uint64_opt (config_json c) n old = w"
  by (simp add: vm_get_uint64_opt_def get_config)

lemma cfg_bind_Inr [simp]: "cfg_bind (Inr x) f = f x"
  by (simp add: cfg_bind_def)

lemma dec_small: "dec 0 = ''0''" "dec 1 = ''1''" "dec 2 = ''2''" "dec 3 = ''3''" "dec 4 = ''4''"
  by code_simp+

lemma table_devices:
  "map_of (config_table c) ''drive0'' = Some (nth_prop drive_json (cf_drives c) 0)"
  "map_of (config_table c) ''drive1'' = Some (nth_prop drive_json (cf_drives c) 1)"
  "map_of (config_table c) ''drive2'' = Some (nth_prop drive_json (cf_drives c) 2)"
  "map_of (config_table c) ''drive3'' = Some (nth_prop drive_json (cf_drives c) 3)"
  "map_of (config_table c) ''drive4'' = None"
  "map_of (config_table c) ''fs0'' = Some (nth_prop fs_json (cf_fs c) 0)"
  "map_of (config_table c) ''fs1'' = Some (nth_prop fs_json (cf_fs c) 1)"
  "map_of (config_table c) ''fs2'' = Some (nth_prop fs_json (cf_fs c) 2)"
  "map_of (config_table c) ''fs3'' = Some (nth_prop fs_json (cf_fs c) 3)"
  "map_of (config_table c) ''fs4'' = None"
  "map_of (config_table c) ''eth0'' = Some (nth_prop eth_json (cf_eth c) 0)"
  "map_of (config_table c) ''eth1'' = None"
  by (simp_all add: config_table_def)

lemma get_nth:
  assumes "map_of (config_table c) n = (if i < k then Some (nth_prop f xs i) else None)" and "length xs \<le> k"
  shows "json_object_get (config_json c) n = (if i < length xs then f (xs ! i) else JSON_UNDEFINED)"
  using assms by (simp add: get_config nth_prop_def)

lemma nat_le_4: "i \<le> 4 \<Longrightarrow> i = 0 \<or> i = 1 \<or> i = 2 \<or> i = 3 \<or> i = (4 :: nat)"
  by linarith

lemma get_drive:
  assumes "length (cf_drives c) \<le> 4" and "i \<le> length (cf_drives c)"
  shows "json_object_get (config_json c) (''drive'' @ dec i) =
    (if i < length (cf_drives c) then drive_json (cf_drives c ! i) else JSON_UNDEFINED)"
proof -
  consider "i = 0" | "i = 1" | "i = 2" | "i = 3" | "i = 4" using assms nat_le_4 [of i] by fastforce
  then show ?thesis
    by cases (rule get_nth [OF _ assms(1)]; simp add: dec_small dec_small(2) [unfolded One_nat_def] table_devices)+
qed

lemma get_fs:
  assumes "length (cf_fs c) \<le> 4" and "i \<le> length (cf_fs c)"
  shows "json_object_get (config_json c) (''fs'' @ dec i) =
    (if i < length (cf_fs c) then fs_json (cf_fs c ! i) else JSON_UNDEFINED)"
proof -
  consider "i = 0" | "i = 1" | "i = 2" | "i = 3" | "i = 4" using assms nat_le_4 [of i] by fastforce
  then show ?thesis
    by cases (rule get_nth [OF _ assms(1)]; simp add: dec_small dec_small(2) [unfolded One_nat_def] table_devices)+
qed

lemma get_eth:
  assumes "length (cf_eth c) \<le> 1" and "i \<le> length (cf_eth c)"
  shows "json_object_get (config_json c) (''eth'' @ dec i) =
    (if i < length (cf_eth c) then eth_json (cf_eth c ! i) else JSON_UNDEFINED)"
proof -
  consider "i = 0" | "i = 1" using assms by fastforce
  then show ?thesis
    by cases (rule get_nth [OF _ assms(1)]; simp add: dec_small dec_small(2) [unfolded One_nat_def] table_devices)+
qed

section \<open>Devices\<close>

lemma drives_read:
  assumes "length (cf_drives c) \<le> 4" and "i \<le> length (cf_drives c)"
  shows "parse_drives (config_json c) (take i (cf_drives c)) = Inr (cf_drives c)"
  using assms(2)
proof (induction i rule: inc_induct)
  case base
  show ?case using get_drive [OF assms(1), of "length (cf_drives c)"] by (subst parse_drives.simps) (simp add: Let_def)
next
  case (step i)
  obtain f d where fd: "cf_drives c ! i = (f, d)" by (cases "cf_drives c ! i")
  have "take (Suc i) (cf_drives c) = take i (cf_drives c) @ [(f, d)]" using step.hyps fd by (simp add: take_Suc_conv_app_nth)
  with step get_drive [OF assms(1), of i] assms(1) fd show ?case
    by (subst parse_drives.simps)
       (cases d; simp add: Let_def drive_json_def str_prop_def vm_get_str_def vm_get_str_opt_def vm_get_str2_def)
qed

lemma fs_read:
  assumes "length (cf_fs c) \<le> 4" and "i \<le> length (cf_fs c)"
  shows "parse_fs (config_json c) (take i (cf_fs c)) = Inr (cf_fs c)"
  using assms(2)
proof (induction i rule: inc_induct)
  case base
  show ?case using get_fs [OF assms(1), of "length (cf_fs c)"] by (subst parse_fs.simps) (simp add: Let_def)
next
  case (step i)
  obtain f t where ft: "cf_fs c ! i = (f, t)" by (cases "cf_fs c ! i")
  have "take (Suc i) (cf_fs c) = take i (cf_fs c) @ [(f, t)]" using step.hyps ft by (simp add: take_Suc_conv_app_nth)
  with step get_fs [OF assms(1), of i] assms(1) ft show ?case
    by (subst parse_fs.simps)
       (simp add: Let_def fs_json_def vm_get_str_def vm_get_str_opt_def vm_get_str2_def)
qed

lemma eth_read:
  assumes "length (cf_eth c) \<le> 1" and "i \<le> length (cf_eth c)"
    and ok: "\<forall>(d, i) \<in> set (cf_eth c). i \<noteq> None \<longleftrightarrow> d = ''tap''"
  shows "parse_eth (config_json c) (take i (cf_eth c)) = Inr (cf_eth c)"
  using assms(2)
proof (induction i rule: inc_induct)
  case base
  show ?case using get_eth [OF assms(1), of "length (cf_eth c)"] by (subst parse_eth.simps) (simp add: Let_def)
next
  case (step i)
  obtain d j where dj: "cf_eth c ! i = (d, j)" by (cases "cf_eth c ! i")
  have tap: "j \<noteq> None \<longleftrightarrow> d = ''tap''" using bspec [OF ok nth_mem [OF step.hyps(2)]] dj by simp
  have take: "take (Suc i) (cf_eth c) = take i (cf_eth c) @ [(d, j)]"
    using step.hyps dj by (simp add: take_Suc_conv_app_nth)
  have len: "length (take i (cf_eth c)) = i" "\<not> 1 \<le> i" using step.hyps assms(1) by simp_all
  have get: "json_object_get (config_json c) (''eth'' @ dec i) = eth_json (d, j)"
    using get_eth [OF assms(1), of i] step.hyps dj by simp
  have "parse_eth (config_json c) (take i (cf_eth c)) = parse_eth (config_json c) (take i (cf_eth c) @ [(d, j)])"
    unfolding parse_eth.simps [of _ "take i (cf_eth c)"] len get Let_def
    using len(2) tap by (cases j) (simp_all add: eth_json_def str_prop_def vm_get_str_def vm_get_str_opt_def vm_get_str2_def)
  with step.IH take show ?case by simp
qed

section \<open>The round trip\<close>

lemma table_lookups:
  "map_of (config_table c) ''version'' = Some (Some (JSON_INT 1))"
  "map_of (config_table c) ''machine'' = Some (Some (JSON_STR ''riscv64''))"
  "map_of (config_table c) ''memory_base_addr'' = Some (Some (JSON_INT (cf_ram_base_addr c)))"
  "map_of (config_table c) ''memory_size'' = Some (Some (JSON_INT (drop_bit 20 (cf_ram_size c))))"
  "map_of (config_table c) ''bios'' = Some (str_prop (cf_bios c))"
  "map_of (config_table c) ''kernel'' = Some (str_prop (cf_kernel c))"
  "map_of (config_table c) ''initrd'' = Some (str_prop (cf_initrd c))"
  "map_of (config_table c) ''cmdline'' = Some (str_prop (cf_cmdline c))"
  "map_of (config_table c) ''htif_base_addr'' = Some (Some (JSON_INT (cf_htif_base_addr c)))"
  "map_of (config_table c) ''maxinsns'' = Some (Some (JSON_INT (cf_maxinsns c)))"
  "map_of (config_table c) ''load'' = Some (str_prop (cf_snapshot_load_name c))"
  "map_of (config_table c) ''display0'' = Some (display_json c)"
  "map_of (config_table c) ''input_device'' = Some (str_prop (cf_input_device c))"
  "map_of (config_table c) ''accel'' = Some (Some (JSON_STR (if cf_accel_enable c then ''auto'' else ''none'')))"
  "map_of (config_table c) ''rtc_local_time'' = Some (Some (JSON_BOOL (cf_rtc_local_time c)))"
  "map_of (config_table c) ''ncpus'' = Some (Some (JSON_INT (cf_ncpus c)))"
  "map_of (config_table c) ''physical_addr_len'' = Some (Some (JSON_INT (cf_physical_addr_len c)))"
  "map_of (config_table c) ''logfile'' = Some (str_prop (cf_logfile c))"
  "map_of (config_table c) ''bootrom'' = Some (str_prop (cf_bootrom_name c))"
  by (simp_all add: config_table_def)

lemma cmdline_plain: "CHR ''$'' \<notin> set s \<Longrightarrow> cmdline_subst g s = s"
  by (induction s) auto

lemma display_read:
  assumes "cf_display_device c = None \<longrightarrow> cf_width c = cf_width p \<and> cf_height c = cf_height p \<and> cf_vga_bios c = cf_vga_bios p"
  shows "parse_display (config_json c) p = Inr (p\<lparr>cf_display_device := cf_display_device c, cf_width := cf_width c,
    cf_height := cf_height c, cf_vga_bios := cf_vga_bios c\<rparr>)"
proof (cases "cf_display_device c")
  case None
  with assms have "p\<lparr>cf_display_device := None\<rparr> = p\<lparr>cf_display_device := cf_display_device c, cf_width := cf_width c,
      cf_height := cf_height c, cf_vga_bios := cf_vga_bios c\<rparr>" by simp
  then show ?thesis using None by (simp add: parse_display_def get_config table_lookups display_json_def)
next
  case (Some d)
  then show ?thesis
    by (cases "cf_vga_bios c")
       (simp_all add: parse_display_def get_config table_lookups display_json_def str_prop_def
         vm_get_str_def vm_get_str_opt_def vm_get_str2_def vm_get_int_def)
qed

lemmas strs = get_str_opt [OF table_lookups(5)] get_str_opt [OF table_lookups(6)] get_str_opt [OF table_lookups(7)]
  get_str_opt [OF table_lookups(8)] get_str_opt [OF table_lookups(11)] get_str_opt [OF table_lookups(13)]
  get_str_opt [OF table_lookups(18)] get_str_opt [OF table_lookups(19)]

lemmas ints = get_uint [OF table_lookups(3)] get_uint [OF table_lookups(9)] get_uint [OF table_lookups(10)]
  get_uint [OF table_lookups(16)] get_uint [OF table_lookups(17)]

lemma files_read:
  assumes "case cf_cmdline c of None \<Rightarrow> cf_cmdline q = None | Some s \<Rightarrow> CHR ''$'' \<notin> set s"
  shows "parse_files (config_json c) gmtoff q = Inr (q\<lparr>cf_bios := cf_bios c, cf_kernel := cf_kernel c,
    cf_initrd := cf_initrd c, cf_cmdline := cf_cmdline c, cf_htif_base_addr := cf_htif_base_addr c,
    cf_maxinsns := cf_maxinsns c, cf_snapshot_load_name := cf_snapshot_load_name c\<rparr>)"
proof -
  have "(case cf_cmdline c of None \<Rightarrow> cf_cmdline q | Some s \<Rightarrow> Some (cmdline_subst gmtoff s)) = cf_cmdline c"
    using assms by (auto simp: cmdline_plain split: option.splits)
  then show ?thesis unfolding parse_files_def strs ints cfg_bind_Inr Let_def by simp
qed

lemma devices_read:
  assumes len: "length (cf_drives c) \<le> 4" "length (cf_fs c) \<le> 4" "length (cf_eth c) \<le> 1"
    and eth: "\<forall>(d, i) \<in> set (cf_eth c). i \<noteq> None \<longleftrightarrow> d = ''tap''"
    and none: "cf_drives q = []" "cf_fs q = []" "cf_eth q = []"
    and disp: "cf_display_device c = None \<longrightarrow> cf_width c = cf_width q \<and> cf_height c = cf_height q \<and> cf_vga_bios c = cf_vga_bios q"
  shows "parse_devices (config_json c) q = Inr (q\<lparr>cf_drives := cf_drives c, cf_fs := cf_fs c, cf_eth := cf_eth c,
    cf_display_device := cf_display_device c, cf_width := cf_width c, cf_height := cf_height c, cf_vga_bios := cf_vga_bios c\<rparr>)"
proof -
  have devs: "parse_drives (config_json c) [] = Inr (cf_drives c)" "parse_fs (config_json c) [] = Inr (cf_fs c)"
      "parse_eth (config_json c) [] = Inr (cf_eth c)"
    using drives_read [OF len(1), of 0] fs_read [OF len(2), of 0] eth_read [OF len(3) _ eth, of 0] by simp_all
  have "parse_display (config_json c) (q\<lparr>cf_drives := cf_drives c, cf_fs := cf_fs c, cf_eth := cf_eth c\<rparr>) =
    Inr (q\<lparr>cf_drives := cf_drives c, cf_fs := cf_fs c, cf_eth := cf_eth c,
      cf_display_device := cf_display_device c, cf_width := cf_width c, cf_height := cf_height c, cf_vga_bios := cf_vga_bios c\<rparr>)"
    by (rule display_read) (use disp in simp)
  then show ?thesis unfolding parse_devices_def none devs cfg_bind_Inr .
qed

lemma rest_read:
  "parse_rest (config_json c) q = Inr (q\<lparr>cf_input_device := cf_input_device c, cf_accel_enable := cf_accel_enable c,
    cf_rtc_local_time := cf_rtc_local_time c, cf_ncpus := cf_ncpus c, cf_physical_addr_len := cf_physical_addr_len c,
    cf_logfile := cf_logfile c, cf_bootrom_name := cf_bootrom_name c\<rparr>)"
proof -
  have accel: "parse_accel (config_json c) a = Inr (cf_accel_enable c)" for a
    using get_str_opt [of c "''accel''" "Some (if cf_accel_enable c then ''auto'' else ''none'')"]
    by (simp add: parse_accel_def table_lookups str_prop_def)
  have rtc: "parse_rtc (config_json c) a = Inr (cf_rtc_local_time c)" for a
    by (simp add: parse_rtc_def get_config table_lookups)
  show ?thesis unfolding parse_rest_def strs ints accel rtc cfg_bind_Inr Let_def ..
qed

lemma config_object_read:
  assumes ok: "config_ok c" and p: "starts_from p c"
  shows "parse_config_object (config_json c) gmtoff p = Inr c"
proof -
  have version: "check_version (config_json c) = Inr ()" "check_machine (config_json c) = Inr ()"
    by (simp_all add: check_version_def check_machine_def vm_get_int_def vm_get_str_def vm_get_str2_def get_config table_lookups)
  have size: "vm_get_int (config_json c) ''memory_size'' = Inr (drop_bit 20 (cf_ram_size c))"
    by (simp add: vm_get_int_def get_config table_lookups)
  let ?q1 = "p\<lparr>cf_maxinsns := 0, cf_dump_memories := False, cf_ram_base_addr := cf_ram_base_addr c,
     cf_ram_size := push_bit 20 (drop_bit 20 (cf_ram_size c))\<rparr>"
  let ?q2 = "?q1\<lparr>cf_bios := cf_bios c, cf_kernel := cf_kernel c,
    cf_initrd := cf_initrd c, cf_cmdline := cf_cmdline c, cf_htif_base_addr := cf_htif_base_addr c,
    cf_maxinsns := cf_maxinsns c, cf_snapshot_load_name := cf_snapshot_load_name c\<rparr>"
  have files: "parse_files (config_json c) gmtoff ?q1 = Inr ?q2"
    by (rule files_read) (use ok p in \<open>auto simp: config_ok_def starts_from_def split: option.splits\<close>)
  let ?q3 = "?q2\<lparr>cf_drives := cf_drives c, cf_fs := cf_fs c, cf_eth := cf_eth c,
    cf_display_device := cf_display_device c, cf_width := cf_width c, cf_height := cf_height c, cf_vga_bios := cf_vga_bios c\<rparr>"
  have devs: "parse_devices (config_json c) ?q2 = Inr ?q3"
    by (rule devices_read) (use ok p in \<open>simp_all add: config_ok_def strings_ok_def starts_from_def case_prod_beta\<close>)
  have "?q3\<lparr>cf_input_device := cf_input_device c, cf_accel_enable := cf_accel_enable c,
    cf_rtc_local_time := cf_rtc_local_time c, cf_ncpus := cf_ncpus c, cf_physical_addr_len := cf_physical_addr_len c,
    cf_logfile := cf_logfile c, cf_bootrom_name := cf_bootrom_name c\<rparr> = c"
    by (rule vm_config.equality) (use ok p in \<open>simp_all add: config_ok_def starts_from_def\<close>)
  then show ?thesis
    unfolding parse_config_object_def Let_def version cfg_bind_Inr size ints files devs rest_read by (rule arg_cong)
qed

lemma present_printable:
  assumes "distinct (map fst t)" and "\<And>n v. (n, Some v) \<in> set t \<Longrightarrow> n \<noteq> [] \<and> text_ok n \<and> json_printable v"
  shows "json_printable (JSON_OBJ (present t))"
  using distinct_present [OF assms(1)] assms(2) by (auto dest: in_present)

lemma str_prop_printable: "opt_ok x \<Longrightarrow> str_prop x = Some v \<Longrightarrow> json_printable v"
  by (auto simp: opt_ok_def str_prop_def)

lemma nth_prop_printable:
  "\<forall>x \<in> set xs. json_printable (f x) \<Longrightarrow> nth_prop f xs i = Some v \<Longrightarrow> json_printable v"
  by (auto simp: nth_prop_def split: if_splits)

lemma text_ok_lit: "text_ok ''file''" "text_ok ''device''" "text_ok ''tag''" "text_ok ''driver''" "text_ok ''ifname''"
  "text_ok ''width''" "text_ok ''height''" "text_ok ''vga_bios''" "text_ok ''riscv64''" "text_ok ''auto''" "text_ok ''none''"
  by (simp_all add: text_ok_def)

lemma device_jsons_printable:
  assumes "strings_ok c"
  shows "\<forall>x \<in> set (cf_drives c). json_printable (drive_json x)" "\<forall>x \<in> set (cf_fs c). json_printable (fs_json x)"
    "\<forall>x \<in> set (cf_eth c). json_printable (eth_json x)"
proof -
  show "\<forall>x \<in> set (cf_drives c). json_printable (drive_json x)"
  proof
    fix x assume "x \<in> set (cf_drives c)"
    then have "text_ok (fst x)" "opt_ok (snd x)" using assms by (auto simp: strings_ok_def)
    then show "json_printable (drive_json x)"
      by (cases x; cases "snd x") (simp_all add: drive_json_def str_prop_def opt_ok_def text_ok_lit)
  qed
  show "\<forall>x \<in> set (cf_fs c). json_printable (fs_json x)"
  proof
    fix x assume "x \<in> set (cf_fs c)"
    then have "text_ok (fst x)" "text_ok (snd x)" using assms by (auto simp: strings_ok_def)
    then show "json_printable (fs_json x)" by (cases x) (simp add: fs_json_def text_ok_lit)
  qed
  show "\<forall>x \<in> set (cf_eth c). json_printable (eth_json x)"
  proof
    fix x assume "x \<in> set (cf_eth c)"
    then have "text_ok (fst x)" "opt_ok (snd x)" using assms by (auto simp: strings_ok_def)
    then show "json_printable (eth_json x)"
      by (cases x; cases "snd x") (simp_all add: eth_json_def str_prop_def opt_ok_def text_ok_lit)
  qed
qed

lemma display_printable:
  assumes "config_ok c" and "display_json c = Some v" shows "json_printable v"
proof -
  obtain d where d: "cf_display_device c = Some d" using assms(2) by (auto simp: display_json_def)
  have "text_ok d" "opt_ok (cf_vga_bios c)" "unat (cf_width c) < 2 ^ 63" "unat (cf_height c) < 2 ^ 63"
    using assms(1) d by (auto simp: config_ok_def strings_ok_def opt_ok_def)
  then show ?thesis using assms(2) d
    by (cases "cf_vga_bios c") (auto simp: display_json_def str_prop_def opt_ok_def text_ok_lit)
qed

lemma table_names: "\<forall>n \<in> set (map fst (config_table c)). n \<noteq> [] \<and> text_ok n"
  by (simp add: config_table_def text_ok_def)

lemma config_printable:
  assumes ok: "config_ok c" shows "json_printable (config_json c)"
  unfolding config_json_def
proof (rule present_printable [OF table_distinct])
  fix n v assume nv: "(n, Some v) \<in> set (config_table c)"
  have names: "n \<noteq> [] \<and> text_ok n" using table_names [of c] nv by force
  have strs: "strings_ok c" using ok by (simp add: config_ok_def)
  then have opts: "opt_ok (cf_bios c)" "opt_ok (cf_kernel c)" "opt_ok (cf_initrd c)" "opt_ok (cf_cmdline c)"
      "opt_ok (cf_snapshot_load_name c)" "opt_ok (cf_input_device c)" "opt_ok (cf_logfile c)" "opt_ok (cf_bootrom_name c)"
    by (simp_all add: strings_ok_def)
  have "unat (drop_bit 20 (cf_ram_size c)) < 2 ^ 63"
    using unsigned_less [of "cf_ram_size c", where 'a = nat]
    by (simp only: unat_drop_bit_eq) (simp add: drop_bit_eq_div less_mult_imp_div_less)
  then have nums: "\<forall>w \<in> set [1, cf_ram_base_addr c, drop_bit 20 (cf_ram_size c), cf_htif_base_addr c, cf_maxinsns c,
      cf_ncpus c, cf_physical_addr_len c]. unat w < 2 ^ 63"
    using ok by (simp add: config_ok_def)
  note devs = nth_prop_printable [OF device_jsons_printable(1) [OF strs]] nth_prop_printable [OF device_jsons_printable(2) [OF strs]]
    nth_prop_printable [OF device_jsons_printable(3) [OF strs]]
  have "Some v \<in> set (map snd (config_table c))" using nv by force
  then have "v \<in> JSON_INT ` set [1, cf_ram_base_addr c, drop_bit 20 (cf_ram_size c), cf_htif_base_addr c, cf_maxinsns c,
        cf_ncpus c, cf_physical_addr_len c] \<or>
      v \<in> {JSON_STR ''riscv64'', JSON_STR ''auto'', JSON_STR ''none'', JSON_BOOL (cf_rtc_local_time c)} \<or>
      (\<exists>x. opt_ok x \<and> str_prop x = Some v) \<or> (\<exists>i. nth_prop drive_json (cf_drives c) i = Some v) \<or>
      (\<exists>i. nth_prop fs_json (cf_fs c) i = Some v) \<or> (\<exists>i. nth_prop eth_json (cf_eth c) i = Some v) \<or> display_json c = Some v"
    unfolding config_table_def list.map snd_conv list.set insert_iff empty_iff
    using opts by (elim disjE) (auto dest: sym)
  with nums have "json_printable v"
    by (elim disjE) (auto simp: text_ok_lit intro: str_prop_printable devs display_printable [OF ok])
  with names show "n \<noteq> [] \<and> text_ok n \<and> json_printable v" by blast
qed

text \<open>
  C28. A configuration file is read as it was written: for every configuration with at most four drives
  and four file systems and one network interface, whose strings fit the parser and whose numbers are
  below \<open>2^63\<close>, the text of its JSON object is parsed into exactly that configuration, whatever
  values the parameters had before (a property that is left out keeps the old value of the
  command line and of the display).
\<close>

theorem config_roundtrip:
  assumes "config_ok c" and "starts_from p c"
  shows "virt_machine_parse_config (json_print (config_json c)) gmtoff p = Some (Inr c)"
proof -
  have "json_parse_value (json_print (config_json c)) = Some (config_json c)"
    by (rule parse_printed [OF config_printable [OF assms(1)]])
  moreover have "json_get_error (config_json c) = None" by (simp add: config_json_def)
  ultimately show ?thesis using config_object_read [OF assms] by (simp add: virt_machine_parse_config_def)
qed

definition default_config :: vm_config where
  "default_config = \<lparr>cf_cfg_filename = Some ''boot.cfg'', cf_ram_base_addr = 0x80000000, cf_ram_size = 0,
     cf_rtc_local_time = False, cf_display_device = None, cf_width = 0, cf_height = 0, cf_drives = [], cf_fs = [],
     cf_eth = [], cf_htif_base_addr = 0, cf_cmdline = None, cf_accel_enable = False, cf_input_device = None,
     cf_bios = None, cf_vga_bios = None, cf_kernel = None, cf_initrd = None, cf_maxinsns = 0,
     cf_snapshot_load_name = None, cf_bootrom_name = None, cf_ncpus = 0, cf_physical_addr_len = 40,
     cf_logfile = None, cf_dump_memories = False\<rparr>"

definition example_config :: vm_config where
  "example_config = default_config\<lparr>cf_ram_size := 0x10000000, cf_bios := Some ''bbl.bin'',
     cf_cmdline := Some ''console=hvc0 root=/dev/vda'', cf_drives := [(''root.bin'', None)], cf_maxinsns := 1000, cf_ncpus := 2\<rparr>"

theorem config_roundtrip_witness:
  "virt_machine_parse_config (json_print (config_json example_config)) 0 default_config = Some (Inr example_config)"
  by (rule config_roundtrip)
     (simp_all add: example_config_def default_config_def config_ok_def strings_ok_def starts_from_def opt_ok_def text_ok_def)

end
