(* ===== verification/Snapshot.thy ===== *)
theory Snapshot
  imports Boot Riscv_Api Json
begin

text \<open>
  Snapshots (\<open>riscv_cpu_serialize\<close>, \<open>riscv_cpu_deserialize\<close> in \<open>src/riscv_cpu.cpp\<close>): a text with
  the registers, the contents of main memory, and the boot ROM that restores the hart.

  The files of the host are a map from names to contents.  \<open>wr name i\<close> is how many bytes the
  \<open>i\<close>-th call of \<open>write\<close> on a file takes at most, \<open>rd name\<close> how many bytes \<open>read\<close> returns at
  most; files can be opened.  \<open>None\<close> is the end of the process (\<open>err\<close>, \<open>exit\<close>, a failed
  assertion).
\<close>

type_synonym files = "string \<rightharpoonup> u8 list"

definition ram_block :: "host_mem \<Rightarrow> u64 \<Rightarrow> nat \<Rightarrow> u8 list" where
  "ram_block mem ptr n = map (\<lambda>i. mem (ptr + of_nat i)) [0..<n]"

section \<open>Memory\<close>

text \<open>
  X bytes remain and \<open>out\<close> has been written.  As in the source
  every call writes from the start of \<open>base\<close>.
\<close>

function write_loop :: "(nat \<Rightarrow> nat) \<Rightarrow> nat \<Rightarrow> u8 list \<Rightarrow> nat \<Rightarrow> u8 list \<Rightarrow> u8 list option" where
  "write_loop w i base n out =
     (if n = 0 then Some out
      else
        let written = min (w i) n
        in if written = 0 then None else write_loop w (i + 1) base (n - written) (out @ take written base))"
  by pat_completeness auto
termination by (relation "measure (\<lambda>(w, i, base, n, out). n)") auto

declare write_loop.simps [simp del]

definition serialize_memory :: "(string \<Rightarrow> nat \<Rightarrow> nat) \<Rightarrow> u8 list \<Rightarrow> string \<Rightarrow> files \<Rightarrow> files option" where
  "serialize_memory wr base file f =
     map_option (\<lambda>out. f(file \<mapsto> out)) (write_loop (wr file) 0 base (length base) [])"

definition deserialize_memory ::
  "(string \<Rightarrow> nat) \<Rightarrow> u64 \<Rightarrow> nat \<Rightarrow> string \<Rightarrow> files \<Rightarrow> host_mem \<Rightarrow> host_mem option" where
  "deserialize_memory rd base n file f mem =
     (case f file of
        None \<Rightarrow> None
      | Some bs \<Rightarrow>
          let sz = min (min n (length bs)) (rd file)
          in if sz \<noteq> n then None else Some (copy_bytes base (take sz bs) mem))"

section \<open>The registers\<close>

definition nl :: string where
  "nl = [CHR 0x0A]"

definition hex_line :: "string \<Rightarrow> nat \<Rightarrow> string" where
  "hex_line name v = name @ '':'' @ hex_digits v @ nl"

definition dec_line :: "string \<Rightarrow> nat \<Rightarrow> string" where
  "dec_line name v = name @ '':'' @ dec v @ nl"

definition int_line :: "string \<Rightarrow> int \<Rightarrow> string" where
  "int_line name v = name @ '':'' @ (if v < 0 then ''-'' else []) @ dec (nat \<bar>v\<bar>) @ nl"

definition regs_text :: "'z RISCVCPUState_scheme \<Rightarrow> string" where
  "regs_text s = concat (
     [''# DROMAJO serialization file'' @ nl, ''pc:0x'' @ hex_digits (unat (pc s)) @ nl]
     @ map (\<lambda>i. hex_line (''reg_x'' @ dec i) (unat (reg s i))) [1..<32]
     @ [''priv:'' @ [''USHM'' ! unat (priv s)] @ nl,
        dec_line ''insn_counter'' (unat (insn_counter s)),
        int_line ''pending_exception'' (pending_exception s),
        hex_line ''mstatus'' (unat (mstatus s)), hex_line ''mtvec'' (unat (mtvec s)),
        hex_line ''mscratch'' (unat (mscratch s)), hex_line ''mepc'' (unat (mepc s)),
        hex_line ''mcause'' (unat (mcause s)), hex_line ''mtval'' (unat (mtval s)),
        dec_line ''misa'' (unat (misa s)), dec_line ''mie'' (unat (mie s)), dec_line ''mip'' (unat (mip s)),
        dec_line ''medeleg'' (unat (medeleg s)), dec_line ''mideleg'' (unat (mideleg s)),
        dec_line ''mcounteren'' (unat (mcounteren s)), dec_line ''mcountinhibit'' (unat (mcountinhibit s)),
        dec_line ''tselect'' (unat (tselect s)),
        hex_line ''stvec'' (unat (stvec s)), hex_line ''sscratch'' (unat (sscratch s)),
        hex_line ''sepc'' (unat (sepc s)), hex_line ''scause'' (unat (scause s)),
        hex_line ''stval'' (unat (stval s)), hex_line ''satp'' (unat (satp s)),
        hex_line ''scounteren'' (unat (scounteren s))]
     @ map (\<lambda>i. hex_line (''pmpcfg'' @ dec i) (unat (csr_pmpcfg s i))) [0, 2]
     @ map (\<lambda>i. hex_line (''pmpaddr'' @ dec i) (unat (csr_pmpaddr s i))) [0..<16])"

definition range_line :: "nat \<Rightarrow> PhysMemoryRange \<Rightarrow> string" where
  "range_line i pr = ''mrange'' @ dec i @ '':0x'' @ hex_digits (unat (pr_addr pr)) @ '' 0x'' @ hex_digits (unat (pr_size pr))
     @ '' '' @ (if pr_is_ram pr then ''ram'' else ''io'') @ nl"

section \<open>The snapshot\<close>

text \<open>The loop over the ranges, from the last to the first.\<close>

record ser_state =
  ser_text :: string
  ser_boot :: "nat option"
  ser_main :: bool
  ser_files :: files

fun ser_ranges ::
  "(string \<Rightarrow> nat \<Rightarrow> nat) \<Rightarrow> u64 \<Rightarrow> string \<Rightarrow> host_mem \<Rightarrow> PhysMemoryMap \<Rightarrow> nat \<Rightarrow> ser_state \<Rightarrow> ser_state option" where
  "ser_ranges wr ram_base name mem mm 0 st = Some st"
| "ser_ranges wr ram_base name mem mm (Suc i) st =
     (let pr = mm ! i; st = st\<lparr>ser_text := ser_text st @ range_line i pr\<rparr>
      in if pr_is_ram pr \<and> pr_addr pr = ROM_BASE_ADDR then
           if ser_boot st \<noteq> None then None
           else ser_ranges wr ram_base name mem mm i (st\<lparr>ser_boot := Some i\<rparr>)
         else if pr_is_ram pr \<and> pr_addr pr = ram_base then
           if ser_main st then None
           else
             (case serialize_memory wr (ram_block mem (pr_phys_mem pr) (unat (pr_size pr))) (name @ ''.mainram'') (ser_files st) of
                None \<Rightarrow> None
              | Some f \<Rightarrow> ser_ranges wr ram_base name mem mm i (st\<lparr>ser_main := True, ser_files := f\<rparr>))
         else ser_ranges wr ram_base name mem mm i st)"

text \<open>The words of a boot ROM as the bytes of the array.\<close>

definition rom_bytes :: "(nat \<Rightarrow> u32) \<Rightarrow> u8 list" where
  "rom_bytes r = map (\<lambda>k. ucast (drop_bit (8 * (k mod 4)) (r (k div 4)))) [0..<0x1000]"

definition ser_rom ::
  "(string \<Rightarrow> nat \<Rightarrow> nat) \<Rightarrow> nat \<Rightarrow> string \<Rightarrow> u64 \<Rightarrow> ('d, 'z) RISCVMachine_scheme \<Rightarrow> PhysMemoryRange \<Rightarrow> files \<Rightarrow> files option" where
  "ser_rom wr n name clint_base_addr m boot f =
     (if priv m \<noteq> 3 \<or> ROM_BASE_ADDR + ROM_SIZE < pc m then
        (case create_boot_rom n clint_base_addr m of
           None \<Rightarrow> None
         | Some r \<Rightarrow> serialize_memory wr (rom_bytes r) (name @ ''.bootram'') f)
      else if BOOT_BASE_ADDR < pc m then None
      else if pc m = BOOT_BASE_ADDR then
        serialize_memory wr (ram_block (ram m) (pr_phys_mem boot) (unat (pr_size boot))) (name @ ''.bootram'') f
      else None)"

definition riscv_cpu_serialize ::
  "(string \<Rightarrow> nat \<Rightarrow> nat) \<Rightarrow> nat \<Rightarrow> u64 \<Rightarrow> string \<Rightarrow> u64 \<Rightarrow> ('d, 'z) RISCVMachine_scheme \<Rightarrow> files \<Rightarrow> files option" where
  "riscv_cpu_serialize wr n ram_base name clint_base_addr m f =
     (case ser_ranges wr ram_base name (ram m) (mem_map m) (length (mem_map m))
             \<lparr>ser_text = regs_text m, ser_boot = None, ser_main = False, ser_files = f\<rparr> of
        None \<Rightarrow> None
      | Some st \<Rightarrow>
          (case ser_boot st of
             None \<Rightarrow> None
           | Some b \<Rightarrow>
               if \<not> ser_main st then None
               else
                 map_option (\<lambda>f. f(name @ ''.re_regs'' \<mapsto> map of_char (ser_text st)))
                   (ser_rom wr n name clint_base_addr m (mem_map m ! b) (ser_files st))))"

fun deser_ranges ::
  "(string \<Rightarrow> nat) \<Rightarrow> u64 \<Rightarrow> string \<Rightarrow> files \<Rightarrow> PhysMemoryMap \<Rightarrow> nat \<Rightarrow> host_mem \<Rightarrow> host_mem option" where
  "deser_ranges rd ram_base name f mm 0 mem = Some mem"
| "deser_ranges rd ram_base name f mm (Suc i) mem =
     (let pr = mm ! i
      in case (if pr_is_ram pr \<and> pr_addr pr = ROM_BASE_ADDR then
                 deserialize_memory rd (pr_phys_mem pr) (unat (pr_size pr)) (name @ ''.bootram'') f mem
               else if pr_is_ram pr \<and> pr_addr pr = ram_base then
                 deserialize_memory rd (pr_phys_mem pr) (unat (pr_size pr)) (name @ ''.mainram'') f mem
               else Some mem) of
           None \<Rightarrow> None
         | Some mem \<Rightarrow> deser_ranges rd ram_base name f mm i mem)"

definition riscv_cpu_deserialize ::
  "(string \<Rightarrow> nat) \<Rightarrow> u64 \<Rightarrow> string \<Rightarrow> files \<Rightarrow> ('d, 'z) RISCVMachine_scheme \<Rightarrow> ('d, 'z) RISCVMachine_scheme option" where
  "riscv_cpu_deserialize rd ram_base name f m =
     map_option (\<lambda>mem. m\<lparr>ram := mem\<rparr>) (deser_ranges rd ram_base name f (mem_map m) (length (mem_map m)) (ram m))"

text \<open>Of a machine with one hart.  \<open>None\<close> with more: the assertion fails.\<close>

definition virt_machine_serialize ::
  "(string \<Rightarrow> nat \<Rightarrow> nat) \<Rightarrow> u64 \<Rightarrow> u64 \<Rightarrow> string \<Rightarrow> 'v Board_scheme \<Rightarrow> files \<Rightarrow> files option" where
  "virt_machine_serialize wr ram_base clint_base_addr name b f =
     (if ncpus b \<noteq> 1 then None else riscv_cpu_serialize wr 1 ram_base name clint_base_addr (hart_view 0 b) f)"

definition virt_machine_deserialize ::
  "(string \<Rightarrow> nat) \<Rightarrow> u64 \<Rightarrow> string \<Rightarrow> files \<Rightarrow> 'v Board_scheme \<Rightarrow> 'v Board_scheme option" where
  "virt_machine_deserialize rd ram_base name f b =
     (if ncpus b \<noteq> 1 then None
      else map_option (\<lambda>m. put_view 0 m) (riscv_cpu_deserialize rd ram_base name f (hart_view 0 b)))"

end
