(* ===== verification/Snapshot_Props.thy ===== *)
theory Snapshot_Props
  imports Snapshot Riscv_Example
begin

text \<open>What a snapshot keeps.\<close>

section \<open>Memory and files\<close>

lemma length_ram_block [simp]: "length (ram_block mem ptr n) = n"
  by (simp add: ram_block_def)

lemma length_rom_bytes [simp]: "length (rom_bytes r) = 0x1000"
  by (simp add: rom_bytes_def)

text \<open>Calls of \<open>write\<close> that take at most \<open>k\<close> bytes.\<close>

lemma periodic_split:
  assumes "0 < k" and "k < n" and "n \<le> length base"
  shows "take k base @ map (\<lambda>j. base ! (j mod k)) [0..<n - k] = map (\<lambda>j. base ! (j mod k)) [0..<n]"
proof (rule nth_equalityI)
  fix i assume "i < length (take k base @ map (\<lambda>j. base ! (j mod k)) [0..<n - k])"
  then show "(take k base @ map (\<lambda>j. base ! (j mod k)) [0..<n - k]) ! i = map (\<lambda>j. base ! (j mod k)) [0..<n] ! i"
    using assms by (auto simp: nth_append le_mod_geq)
qed (use assms in simp)

lemma write_loop_periodic:
  "0 < k \<Longrightarrow> n \<le> length base \<Longrightarrow>
   write_loop (\<lambda>_. k) i base n out = Some (out @ map (\<lambda>j. base ! (j mod k)) [0..<n])"
proof (induction n arbitrary: i out rule: less_induct)
  case (less n)
  show ?case
  proof (cases "k < n")
    case True
    then have "write_loop (\<lambda>_. k) i base n out = write_loop (\<lambda>_. k) (i + 1) base (n - k) (out @ take k base)"
      using less.prems by (subst write_loop.simps) (simp add: Let_def)
    also have "\<dots> = Some ((out @ take k base) @ map (\<lambda>j. base ! (j mod k)) [0..<n - k])"
      using less.IH [of "n - k"] less.prems True by simp
    finally show ?thesis using periodic_split [OF less.prems(1) True less.prems(2)] by simp
  next
    case False
    have "take n base = map (\<lambda>j. base ! (j mod k)) [0..<n]"
      by (rule nth_equalityI) (use less.prems False in auto)
    then show ?thesis using less.prems False
      by (cases "n = 0") (simp_all add: write_loop.simps [of _ _ _ n] write_loop.simps [of _ _ _ 0] Let_def min_absorb2)
  qed
qed

lemma serialize_whole:
  assumes "length base \<le> wr file 0" shows "serialize_memory wr base file f = Some (f(file \<mapsto> base))"
proof (cases "base = []")
  case True
  then show ?thesis by (simp add: serialize_memory_def write_loop.simps)
next
  case False
  then have "write_loop (wr file) 0 base (length base) [] = Some base"
    using assms by (simp add: write_loop.simps [of _ _ _ "length base"] write_loop.simps [of _ _ _ 0] Let_def min_absorb2)
  then show ?thesis by (simp add: serialize_memory_def)
qed

text \<open>
  When \<open>write\<close> takes at most \<open>k\<close> bytes at a time, as it does for blocks of 2 GB and more, the file
  written for a memory repeats its first \<open>k\<close> bytes: the loop starts every call at the same address.
\<close>

theorem serialize_memory_repeats:
  assumes "0 < k" and "\<forall>i. wr file i = k"
  shows "\<exists>bs. serialize_memory wr base file f = Some (f(file \<mapsto> bs)) \<and> length bs = length base \<and>
    (\<forall>j < length base. bs ! j = base ! (j mod k))"
proof -
  have "wr file = (\<lambda>_. k)" using assms(2) by auto
  then have "serialize_memory wr base file f = Some (f(file \<mapsto> map (\<lambda>j. base ! (j mod k)) [0..<length base]))"
    using write_loop_periodic [OF assms(1), of "length base" base 0 "[]"] by (simp add: serialize_memory_def)
  then show ?thesis by (intro exI [of _ "map (\<lambda>j. base ! (j mod k)) [0..<length base]"]) simp
qed

theorem serialize_memory_repeats_witness:
  "\<exists>bs. serialize_memory (\<lambda>_ _. 2) [1, 2, 3, 4] ''a'' Map.empty = Some [''a'' \<mapsto> bs] \<and> bs ! 2 = 1"
  using serialize_memory_repeats [of 2 "\<lambda>_ _. 2" "''a''" "[1, 2, 3, 4]" Map.empty]
  by (auto dest!: spec [of _ "2 :: nat"])

section \<open>The ranges\<close>

definition is_boot :: "PhysMemoryRange \<Rightarrow> bool" where
  "is_boot pr \<longleftrightarrow> pr_is_ram pr \<and> pr_addr pr = 0x10000"

definition is_main :: "u64 \<Rightarrow> PhysMemoryRange \<Rightarrow> bool" where
  "is_main ram_base pr \<longleftrightarrow> pr_is_ram pr \<and> pr_addr pr = ram_base"

definition in_block :: "PhysMemoryRange \<Rightarrow> u64 \<Rightarrow> bool" where
  "in_block pr p \<longleftrightarrow> unat (p - pr_phys_mem pr) < unat (pr_size pr)"

text \<open>One boot ROM of 4 KB and one main memory, in different blocks of host memory.\<close>

definition snapshot_ranges :: "u64 \<Rightarrow> PhysMemoryMap \<Rightarrow> nat \<Rightarrow> nat \<Rightarrow> bool" where
  "snapshot_ranges ram_base mm ib im \<longleftrightarrow> ib < length mm \<and> im < length mm \<and> ram_base \<noteq> 0x10000 \<and>
     (\<forall>i < length mm. is_boot (mm ! i) \<longleftrightarrow> i = ib) \<and> (\<forall>i < length mm. is_main ram_base (mm ! i) \<longleftrightarrow> i = im) \<and>
     pr_size (mm ! ib) = 0x1000 \<and> (\<forall>p. \<not> (in_block (mm ! ib) p \<and> in_block (mm ! im) p))"

lemma ser_ranges_files:
  assumes r: "snapshot_ranges ram_base mm ib im" and i: "i \<le> length mm"
    and st: "ser_boot st = (if ib < i then None else Some ib)" "ser_main st \<longleftrightarrow> \<not> im < i"
    and main: "im < i \<or> ser_files st (name @ ''.mainram'') = Some bs"
    and bs: "bs = ram_block mem (pr_phys_mem (mm ! im)) (unat (pr_size (mm ! im)))"
    and wr: "length bs \<le> wr (name @ ''.mainram'') 0"
  shows "\<exists>st'. ser_ranges wr ram_base name mem mm i st = Some st' \<and> ser_boot st' = Some ib \<and> ser_main st' \<and>
    ser_files st' (name @ ''.mainram'') = Some bs"
  using i st main
proof (induction i arbitrary: st)
  case (Suc i)
  have b: "is_boot (mm ! i) \<longleftrightarrow> i = ib" and m: "is_main ram_base (mm ! i) \<longleftrightarrow> i = im" and ne: "ram_base \<noteq> 0x10000"
    using r Suc.prems(1) by (simp_all add: snapshot_ranges_def)
  let ?st = "st\<lparr>ser_text := ser_text st @ range_line i (mm ! i)\<rparr>"
  show ?case
  proof (cases "i = ib")
    case True
    have "i \<noteq> im" using b m ne True by (auto simp: is_boot_def is_main_def)
    then have "\<exists>st'. ser_ranges wr ram_base name mem mm i (?st\<lparr>ser_boot := Some i\<rparr>) = Some st' \<and> ser_boot st' = Some ib \<and>
        ser_main st' \<and> ser_files st' (name @ ''.mainram'') = Some bs"
      using Suc.prems True by (intro Suc.IH) auto
    then show ?thesis using b True Suc.prems by (simp add: Let_def is_boot_def)
  next
    case nb: False
    show ?thesis
    proof (cases "i = im")
      case True
      have "\<exists>st'. ser_ranges wr ram_base name mem mm i (?st\<lparr>ser_main := True, ser_files := (ser_files st)(name @ ''.mainram'' \<mapsto> bs)\<rparr>) =
          Some st' \<and> ser_boot st' = Some ib \<and> ser_main st' \<and> ser_files st' (name @ ''.mainram'') = Some bs"
        using Suc.prems True nb by (intro Suc.IH) auto
      moreover have "serialize_memory wr (ram_block mem (pr_phys_mem (mm ! i)) (unat (pr_size (mm ! i)))) (name @ ''.mainram'') f =
          Some (f(name @ ''.mainram'' \<mapsto> bs))" for f
        using serialize_whole [of bs wr "name @ ''.mainram''" f] wr bs True by simp
      ultimately show ?thesis using b m nb True Suc.prems by (simp add: Let_def is_boot_def is_main_def)
    next
      case False
      have "\<exists>st'. ser_ranges wr ram_base name mem mm i ?st = Some st' \<and> ser_boot st' = Some ib \<and>
          ser_main st' \<and> ser_files st' (name @ ''.mainram'') = Some bs"
        using Suc.prems nb False by (intro Suc.IH) auto
      moreover have "\<not> (pr_is_ram (mm ! i) \<and> pr_addr (mm ! i) = 0x10000)" "\<not> (pr_is_ram (mm ! i) \<and> pr_addr (mm ! i) = ram_base)"
        using b m nb False by (simp_all add: is_boot_def is_main_def)
      ultimately show ?thesis by (simp only: ser_ranges.simps Let_def if_False)
    qed
  qed
qed simp

lemma deserialize_whole:
  assumes "f file = Some bs" and "length bs = n" and "n \<le> rd file"
  shows "deserialize_memory rd base n file f mem = Some (copy_bytes base bs mem)"
  using assms by (simp add: deserialize_memory_def)

lemma deser_ranges_memory:
  assumes r: "snapshot_ranges ram_base mm ib im" and i: "i \<le> length mm"
    and boot: "f (name @ ''.bootram'') = Some bb" "length bb = 0x1000" "0x1000 \<le> rd (name @ ''.bootram'')"
    and main: "f (name @ ''.mainram'') = Some mb" "length mb = unat (pr_size (mm ! im))" "length mb \<le> rd (name @ ''.mainram'')"
  shows "\<exists>mem'. deser_ranges rd ram_base name f mm i mem = Some mem' \<and>
    (\<forall>p. in_block (mm ! ib) p \<longrightarrow> mem' p = (if ib < i then bb ! unat (p - pr_phys_mem (mm ! ib)) else mem p)) \<and>
    (\<forall>p. in_block (mm ! im) p \<longrightarrow> mem' p = (if im < i then mb ! unat (p - pr_phys_mem (mm ! im)) else mem p))"
  using i
proof (induction i arbitrary: mem)
  case (Suc i)
  have b: "is_boot (mm ! i) \<longleftrightarrow> i = ib" and m: "is_main ram_base (mm ! i) \<longleftrightarrow> i = im" and ne: "ram_base \<noteq> 0x10000"
    and size: "pr_size (mm ! ib) = 0x1000" and disj: "\<And>p. \<not> (in_block (mm ! ib) p \<and> in_block (mm ! im) p)"
    using r Suc.prems by (simp_all add: snapshot_ranges_def)
  have i: "i \<le> length mm" using Suc.prems by simp
  show ?case
  proof (cases "i = ib")
    case True
    have im: "i \<noteq> im" using b m ne True by (auto simp: is_boot_def is_main_def)
    have "deserialize_memory rd (pr_phys_mem (mm ! i)) (unat (pr_size (mm ! i))) (name @ ''.bootram'') f mem =
        Some (copy_bytes (pr_phys_mem (mm ! i)) bb mem)"
      by (rule deserialize_whole) (use boot size True in simp_all)
    then have "deser_ranges rd ram_base name f mm (Suc i) mem =
        deser_ranges rd ram_base name f mm i (copy_bytes (pr_phys_mem (mm ! ib)) bb mem)"
      using b True by (simp add: Let_def is_boot_def)
    moreover have "copy_bytes (pr_phys_mem (mm ! ib)) bb mem p = bb ! unat (p - pr_phys_mem (mm ! ib))" if "in_block (mm ! ib) p" for p
      using that boot(2) size by (simp add: copy_bytes_def in_block_def)
    moreover have "copy_bytes (pr_phys_mem (mm ! ib)) bb mem p = mem p" if "in_block (mm ! im) p" for p
      using that disj [of p] boot(2) size by (simp add: copy_bytes_def in_block_def)
    ultimately show ?thesis
      using Suc.IH [OF i, of "copy_bytes (pr_phys_mem (mm ! ib)) bb mem"] True im by (auto simp: less_Suc_eq)
  next
    case nb: False
    show ?thesis
    proof (cases "i = im")
      case True
      have "deserialize_memory rd (pr_phys_mem (mm ! i)) (unat (pr_size (mm ! i))) (name @ ''.mainram'') f mem =
          Some (copy_bytes (pr_phys_mem (mm ! i)) mb mem)"
        by (rule deserialize_whole) (use main True in simp_all)
      then have "deser_ranges rd ram_base name f mm (Suc i) mem =
          deser_ranges rd ram_base name f mm i (copy_bytes (pr_phys_mem (mm ! im)) mb mem)"
        using b m nb True by (simp add: Let_def is_boot_def is_main_def)
      moreover have "copy_bytes (pr_phys_mem (mm ! im)) mb mem p = mb ! unat (p - pr_phys_mem (mm ! im))" if "in_block (mm ! im) p" for p
        using that main(2) by (simp add: copy_bytes_def in_block_def)
      moreover have "copy_bytes (pr_phys_mem (mm ! im)) mb mem p = mem p" if "in_block (mm ! ib) p" for p
        using that disj [of p] main(2) by (simp add: copy_bytes_def in_block_def)
      ultimately show ?thesis
        using Suc.IH [OF i, of "copy_bytes (pr_phys_mem (mm ! im)) mb mem"] True nb by (auto simp: less_Suc_eq)
    next
      case False
      have "\<not> (pr_is_ram (mm ! i) \<and> pr_addr (mm ! i) = 0x10000)" "\<not> (pr_is_ram (mm ! i) \<and> pr_addr (mm ! i) = ram_base)"
        using b m nb False by (simp_all add: is_boot_def is_main_def)
      then have "deser_ranges rd ram_base name f mm (Suc i) mem = deser_ranges rd ram_base name f mm i mem"
        by (simp only: deser_ranges.simps Let_def if_False option.case)
      then show ?thesis using Suc.IH [OF i, of mem] nb False by (auto simp: less_Suc_eq)
    qed
  qed
qed simp

section \<open>The boot ROM\<close>

text \<open>Every part of the ROM has a fixed size.\<close>

lemma emit_pos [simp]:
  "code_pos (emit_code w r) = code_pos r + 1" "data_pos (emit_code w r) = data_pos r"
  "code_pos (emit_data w r) = code_pos r" "data_pos (emit_data w r) = data_pos r + 1"
  "code_pos (emit_data64 v r) = code_pos r" "data_pos (emit_data64 v r) = data_pos r + 2"
  "code_pos (emit_load rd r) = code_pos r + 3" "data_pos (emit_load rd r) = data_pos r"
  by (simp_all add: emit_code_def emit_data_def emit_data64_def emit_load_def Let_def)

lemma recovery_pos [simp]:
  "code_pos (create_csr12_recovery csrn v12 r) = code_pos r + 2" "data_pos (create_csr12_recovery csrn v12 r) = data_pos r"
  "code_pos (create_csr64_recovery csrn v r) = code_pos r + 4" "data_pos (create_csr64_recovery csrn v r) = data_pos r + 2"
  "code_pos (create_reg_recovery rn v r) = code_pos r + 3" "data_pos (create_reg_recovery rn v r) = data_pos r + 2"
  "code_pos (create_io64_recovery addr v r) = code_pos r + 7" "data_pos (create_io64_recovery addr v r) = data_pos r + 4"
  "code_pos (create_hang_nonzero_hart r) = code_pos r + 4" "data_pos (create_hang_nonzero_hart r) = data_pos r"
  "code_pos (create_fpreg_recovery s i r) = code_pos r + 3" "data_pos (create_fpreg_recovery s i r) = data_pos r + 2"
  by (simp_all add: create_csr12_recovery_def create_csr64_recovery_def create_reg_recovery_def create_io64_recovery_def
      create_hang_nonzero_hart_def create_fpreg_recovery_def Let_def)

lemma fold_pos:
  assumes "\<And>x r. code_pos (f x r) = code_pos r + c" and "\<And>x r. data_pos (f x r) = data_pos r + d"
  shows "code_pos (fold f xs r) = code_pos r + length xs * c" and "data_pos (fold f xs r) = data_pos r + length xs * d"
  by (induction xs arbitrary: r) (simp_all add: assms)

lemma recover_pos:
  "code_pos (recover_fp s r) = code_pos r + (if fs s \<noteq> 0 then 102 else 0)"
  "data_pos (recover_fp s r) = data_pos r + (if fs s \<noteq> 0 then 64 else 0)"
  "code_pos (recover_hpm s r) = code_pos r + 174" "data_pos (recover_hpm s r) = data_pos r + 58"
  "code_pos (recover_machine_csrs s r) = code_pos r + 138" "data_pos (recover_machine_csrs s r) = data_pos r + 66"
  "code_pos (recover_tail c s r) = code_pos r + 122" "data_pos (recover_tail c s r) = data_pos r + 76"
  by (simp_all add: recover_fp_def recover_hpm_def recover_machine_csrs_def recover_tail_def Let_def
      fold_pos [where c = 3 and d = 2] fold_pos [where c = 6 and d = 2] fold_pos [where c = 4 and d = 2] del: upt_conv_Cons)

lemma layout_pos:
  "code_pos (layout_boot_rom n c s) \<le> 554" "data_pos (layout_boot_rom n c s) \<le> 974"
  by (simp_all add: layout_boot_rom_def Let_def recover_pos)

lemma create_boot_rom_eq: "create_boot_rom n c s = (if priv s = 2 then None else Some (rom (layout_boot_rom n c s)))"
  using layout_pos [of n c s] by (simp add: create_boot_rom_def Let_def)

text \<open>
  C31. The boot ROM of a snapshot always fits its 4 KB: whatever the registers hold, at most 554 of
  the 704 code words and 270 of the 320 data words are used, so the only machine the code
  refuses to snapshot there is one in the mode H.
\<close>

theorem boot_rom_fits:
  "(create_boot_rom n c s = None \<longleftrightarrow> priv s = 2) \<and>
   code_pos (layout_boot_rom n c s) \<le> 554 \<and> data_pos (layout_boot_rom n c s) \<le> 704 + 270"
  using layout_pos [of n c s] by (simp add: create_boot_rom_eq)

section \<open>Saving and loading\<close>

lemma main_name_ne [simp]: "name @ ''.mainram'' \<noteq> name @ ''.bootram''" "name @ ''.mainram'' \<noteq> name @ ''.re_regs''"
  "name @ ''.bootram'' \<noteq> name @ ''.re_regs''"
  by simp_all


text \<open>The example machine with a boot ROM.\<close>

definition snapshot_range :: PhysMemoryRange where
  "snapshot_range = example_range\<lparr>pr_addr := 0x10000, pr_phys_mem := 0x8000\<rparr>"

definition snapshot_machine :: "unit RISCVMachine" where
  "snapshot_machine = example_machine\<lparr>mem_map := [snapshot_range, example_range]\<rparr>"

lemma snapshot_example: "snapshot_ranges 0x80000000 (mem_map snapshot_machine) 0 1"
proof -
  have "\<not> (in_block snapshot_range p \<and> in_block example_range p)" for p
    by (simp add: in_block_def snapshot_range_def example_range_def unat_sub_if') (auto split: if_splits)
  then show ?thesis
    by (auto simp: snapshot_ranges_def snapshot_machine_def is_boot_def is_main_def snapshot_range_def example_range_def less_Suc_eq)
qed


end
