(* ===== verification/Virtio_9p.thy ===== *)
theory Virtio_9p
  imports Virtio_Devices
begin

text \<open>
  The 9p device (\<open>src/virtio.cpp\<close>): the table of open files and the requests of the subset of
  9P2000.L that is implemented.  The file system is the table of callbacks of \<open>include/fs.h\<close>, an
  argument; its state, which includes the files of the host, is part of the state of the device.
\<close>

section \<open>The file system\<close>

abbreviation (input) P9_EPROTO :: u32 where "P9_EPROTO \<equiv> 71"
abbreviation (input) P9_ENOTSUP :: u32 where "P9_ENOTSUP \<equiv> 524"

record FSQID =
  qid_type :: u8
  qid_version :: u32
  qid_path :: u64

record FSStatFS =
  f_bsize :: u32
  f_blocks :: u64
  f_bfree :: u64
  f_bavail :: u64
  f_files :: u64
  f_ffree :: u64

record FSStat =
  st_qid :: FSQID
  st_mode :: u32
  st_uid :: u32
  st_gid :: u32
  st_nlink :: u64
  st_rdev :: u64
  st_size :: u64
  st_blksize :: u64
  st_blocks :: u64
  st_atime_sec :: u64
  st_atime_nsec :: u32
  st_mtime_sec :: u64
  st_mtime_nsec :: u32
  st_ctime_sec :: u64
  st_ctime_nsec :: u32

record FSLock =
  lock_type :: u8
  lock_flags :: u32
  lock_start :: u64
  lock_length :: u64
  lock_proc_id :: u32
  lock_client_id :: "u8 list"

text \<open>Where the reply to a request goes.  The code packs it up for requests that end later.\<close>

record P9OpenInfo =
  oi_queue_idx :: nat
  oi_desc_idx :: u16
  oi_tag :: u16

text \<open>
  The callbacks, on the state \<open>'w\<close> of the file system and files \<open>'f\<close>.  Names are C strings, so
  without the NUL.  A result is followed by what the callback stores through its pointers.
\<close>

type_synonym name = "u8 list"

record ('w, 'f) FSDevice =
  fs_delete :: "'f \<Rightarrow> 'w \<Rightarrow> 'w"
  fs_statfs :: "'w \<Rightarrow> FSStatFS \<times> 'w"
  fs_attach :: "u32 \<Rightarrow> name \<Rightarrow> name \<Rightarrow> 'w \<Rightarrow> int \<times> 'f \<times> FSQID \<times> 'w"
  fs_walk :: "'f \<Rightarrow> name list \<Rightarrow> 'w \<Rightarrow> int \<times> 'f \<times> FSQID list \<times> 'w"
  fs_mkdir :: "'f \<Rightarrow> name \<Rightarrow> u32 \<Rightarrow> u32 \<Rightarrow> 'w \<Rightarrow> int \<times> FSQID \<times> 'w"
  fs_open :: "'f \<Rightarrow> u32 \<Rightarrow> P9OpenInfo \<Rightarrow> 'w \<Rightarrow> int \<times> FSQID \<times> 'w"
  fs_create :: "'f \<Rightarrow> name \<Rightarrow> u32 \<Rightarrow> u32 \<Rightarrow> u32 \<Rightarrow> 'w \<Rightarrow> int \<times> FSQID \<times> 'w"
  fs_stat :: "'f \<Rightarrow> 'w \<Rightarrow> int \<times> FSStat \<times> 'w"
  fs_setattr :: "'f \<Rightarrow> u32 \<Rightarrow> u32 \<Rightarrow> u32 \<Rightarrow> u32 \<Rightarrow> u64 \<Rightarrow> u64 \<Rightarrow> u64 \<Rightarrow> u64 \<Rightarrow> u64 \<Rightarrow> 'w \<Rightarrow> int \<times> 'w"
  fs_readdir :: "'f \<Rightarrow> u64 \<Rightarrow> int \<Rightarrow> 'w \<Rightarrow> int \<times> u8 list \<times> 'w"
  fs_read :: "'f \<Rightarrow> u64 \<Rightarrow> int \<Rightarrow> 'w \<Rightarrow> int \<times> u8 list \<times> 'w"
  fs_write :: "'f \<Rightarrow> u64 \<Rightarrow> u8 list \<Rightarrow> int \<Rightarrow> 'w \<Rightarrow> int \<times> 'w"
  fs_link :: "'f \<Rightarrow> 'f \<Rightarrow> name \<Rightarrow> 'w \<Rightarrow> int \<times> 'w"
  fs_symlink :: "'f \<Rightarrow> name \<Rightarrow> name \<Rightarrow> u32 \<Rightarrow> 'w \<Rightarrow> int \<times> FSQID \<times> 'w"
  fs_mknod :: "'f \<Rightarrow> name \<Rightarrow> u32 \<Rightarrow> u32 \<Rightarrow> u32 \<Rightarrow> u32 \<Rightarrow> 'w \<Rightarrow> int \<times> FSQID \<times> 'w"
  fs_readlink :: "int \<Rightarrow> 'f \<Rightarrow> 'w \<Rightarrow> int \<times> name \<times> 'w"
  fs_renameat :: "'f \<Rightarrow> name \<Rightarrow> 'f \<Rightarrow> name \<Rightarrow> 'w \<Rightarrow> int \<times> 'w"
  fs_unlinkat :: "'f \<Rightarrow> name \<Rightarrow> 'w \<Rightarrow> int \<times> 'w"
  fs_lock :: "'f \<Rightarrow> FSLock \<Rightarrow> 'w \<Rightarrow> int \<times> 'w"
  fs_getlock :: "'f \<Rightarrow> FSLock \<Rightarrow> 'w \<Rightarrow> int \<times> FSLock \<times> 'w"

section \<open>State\<close>

text \<open>The list \<open>fid_list\<close> of \<open>FIDDesc\<close>, first element first.\<close>

record ('w, 'f) VIRTIO9PDevice = VIRTIODevice +
  p9_fs :: 'w
  p9_msize :: u32
  fid_list :: "(u32 \<times> 'f) list"
  p9_req_in_progress :: bool

definition fid_find :: "('w, 'f, 'z) VIRTIO9PDevice_scheme \<Rightarrow> u32 \<Rightarrow> 'f option" where
  "fid_find s fid = map_of (fid_list s) fid"

fun del_fid :: "u32 \<Rightarrow> (u32 \<times> 'f) list \<Rightarrow> (u32 \<times> 'f) list" where
  "del_fid fid [] = []"
| "del_fid fid ((k, f) # l) = (if k = fid then l else (k, f) # del_fid fid l)"

fun set_fid :: "u32 \<Rightarrow> 'f \<Rightarrow> (u32 \<times> 'f) list \<Rightarrow> (u32 \<times> 'f) list" where
  "set_fid fid f [] = []"
| "set_fid fid f ((k, g) # l) = (if k = fid then (k, f) # l else (k, g) # set_fid fid f l)"

definition fid_delete :: "('w, 'f) FSDevice \<Rightarrow> ('w, 'f, 'z) VIRTIO9PDevice_scheme \<Rightarrow> u32 \<Rightarrow> ('w, 'f, 'z) VIRTIO9PDevice_scheme" where
  "fid_delete fsd s fid =
     (case fid_find s fid of
        None \<Rightarrow> s
      | Some f \<Rightarrow> s\<lparr>p9_fs := fs_delete fsd f (p9_fs s), fid_list := del_fid fid (fid_list s)\<rparr>)"

definition fid_set :: "('w, 'f) FSDevice \<Rightarrow> ('w, 'f, 'z) VIRTIO9PDevice_scheme \<Rightarrow> u32 \<Rightarrow> 'f \<Rightarrow> ('w, 'f, 'z) VIRTIO9PDevice_scheme" where
  "fid_set fsd s fid f =
     (case fid_find s fid of
        None \<Rightarrow> s\<lparr>fid_list := (fid, f) # fid_list s\<rparr>
      | Some g \<Rightarrow> s\<lparr>p9_fs := fs_delete fsd g (p9_fs s), fid_list := set_fid fid f (fid_list s)\<rparr>)"

section \<open>Marshalling\<close>

text \<open>The values, by the letters of the format strings.\<close>

datatype p9_val = P9_b u8 | P9_h u16 | P9_w u32 | P9_d u64 | P9_s "u8 list" | P9_Q FSQID

fun val_bytes :: "p9_val \<Rightarrow> u8 list" where
  "val_bytes (P9_b v) = [v]"
| "val_bytes (P9_h v) = le16_bytes v"
| "val_bytes (P9_w v) = le32_bytes v"
| "val_bytes (P9_d v) = le64_bytes v"
| "val_bytes (P9_s str) = le16_bytes (of_nat (length str)) @ str"
| "val_bytes (P9_Q qid) = [qid_type qid] @ le32_bytes (qid_version qid) @ le64_bytes (qid_path qid)"

fun val_ok :: "p9_val \<Rightarrow> bool" where
  "val_ok (P9_s str) \<longleftrightarrow> length str \<le> 65535"
| "val_ok v \<longleftrightarrow> True"

text \<open>\<open>None\<close>: an assertion on the space in the buffer fails.\<close>

fun marshall :: "nat \<Rightarrow> p9_val list \<Rightarrow> u8 list option" where
  "marshall max_len [] = Some []"
| "marshall max_len (v # vs) =
     (if val_ok v \<and> length (val_bytes v) \<le> max_len
      then map_option ((@) (val_bytes v)) (marshall (max_len - length (val_bytes v)) vs) else None)"

text \<open>
  What the stack and fresh blocks of memory hold: \<open>p9_fresh n\<close> for a buffer of \<open>n\<close> bytes, the upper
  half of an integer argument that is read as 64 bits, the field \<open>flags\<close> and the address of a structure \<open>FSLock\<close>
  and the bytes of its pointer \<open>client_id\<close> up to the first NUL.
\<close>

record p9_env =
  p9_fresh :: "nat \<Rightarrow> u8 list"
  arg_upper :: u32
  lock_flags_init :: u32
  lock_addr :: u64
  client_id_ptr :: "u8 list"

text \<open>\<open>Some None\<close>: the queue does not hold the values.  The buffer is kept from value to value.\<close>

definition take_field ::
  "'z VIRTIODevice_scheme \<Rightarrow> u8 list \<Rightarrow> nat \<Rightarrow> u16 \<Rightarrow> int \<Rightarrow> nat \<Rightarrow> u8 list option option" where
  "take_field s buf q i offset n =
     map_option (\<lambda>(r, buf). if r \<noteq> 0 then None else Some buf) (memcpy_from_queue s buf q i offset (int n))"

definition c_string :: "u8 list \<Rightarrow> u8 list" where
  "c_string bs = takeWhile (\<lambda>c. c \<noteq> 0) bs"

definition unmarshall1 ::
  "(nat \<Rightarrow> u8 list) \<Rightarrow> 'z VIRTIODevice_scheme \<Rightarrow> nat \<Rightarrow> u16 \<Rightarrow> char \<Rightarrow> int \<Rightarrow> u8 list
     \<Rightarrow> (p9_val \<times> int \<times> u8 list) option option" where
  "unmarshall1 fresh s q i c offset buf =
     (if c = CHR ''b'' then
        map_option (map_option (\<lambda>buf. (P9_b (buf ! 0), offset + 1, buf))) (take_field s buf q i offset 1)
      else if c = CHR ''h'' then
        map_option (map_option (\<lambda>buf. (P9_h (get_le16 (list_mem buf) 0), offset + 2, buf))) (take_field s buf q i offset 2)
      else if c = CHR ''w'' then
        map_option (map_option (\<lambda>buf. (P9_w (get_le32 (list_mem buf) 0), offset + 4, buf))) (take_field s buf q i offset 4)
      else if c = CHR ''d'' then
        map_option (map_option (\<lambda>buf. (P9_d (get_le64 (list_mem buf) 0), offset + 8, buf))) (take_field s buf q i offset 8)
      else if c = CHR ''s'' then
        Option.bind (take_field s buf q i offset 2) (\<lambda>r.
        case r of
          None \<Rightarrow> Some None
        | Some buf \<Rightarrow>
            let len = unat (get_le16 (list_mem buf) 0)
            in map_option (map_option (\<lambda>str. (P9_s (c_string (take len str)), offset + 2 + int len, buf)))
                 (take_field s (fresh (len + 1)) q i (offset + 2) len))
      else None)"

fun unmarshall_loop ::
  "(nat \<Rightarrow> u8 list) \<Rightarrow> 'z VIRTIODevice_scheme \<Rightarrow> nat \<Rightarrow> u16 \<Rightarrow> string \<Rightarrow> int \<Rightarrow> u8 list
     \<Rightarrow> (p9_val list \<times> int) option option" where
  "unmarshall_loop fresh s q i [] offset buf = Some (Some ([], offset))"
| "unmarshall_loop fresh s q i (c # fmt) offset buf =
     Option.bind (unmarshall1 fresh s q i c offset buf) (\<lambda>r.
     case r of
       None \<Rightarrow> Some None
     | Some (v, offset, buf) \<Rightarrow>
         map_option (map_option (\<lambda>(vs, offset). (v # vs, offset))) (unmarshall_loop fresh s q i fmt offset buf))"

definition unmarshall ::
  "(nat \<Rightarrow> u8 list) \<Rightarrow> 'z VIRTIODevice_scheme \<Rightarrow> nat \<Rightarrow> u16 \<Rightarrow> int \<Rightarrow> string \<Rightarrow> (p9_val list \<times> int) option option" where
  "unmarshall fresh s q i offset fmt = unmarshall_loop fresh s q i fmt offset (fresh 16)"

section \<open>Replies\<close>

definition virtio_9p_send_reply :: "'z VIRTIODevice_scheme \<Rightarrow> P9OpenInfo \<Rightarrow> u8 \<Rightarrow> u8 list \<Rightarrow> 'z VIRTIODevice_scheme option" where
  "virtio_9p_send_reply s oi op buf =
     (let len = length buf + 7;
          buf1 = le32_bytes (of_nat len) @ [op + 1] @ le16_bytes (oi_tag oi) @ buf
      in if 2 ^ 31 \<le> len then None
         else map_option (\<lambda>(r, s). virtio_consume_desc s (oi_queue_idx oi) (oi_desc_idx oi) (of_nat len))
                (memcpy_to_queue s (oi_queue_idx oi) (oi_desc_idx oi) 0 buf1 (int len)))"

definition virtio_9p_send_error :: "'z VIRTIODevice_scheme \<Rightarrow> P9OpenInfo \<Rightarrow> u32 \<Rightarrow> 'z VIRTIODevice_scheme option" where
  "virtio_9p_send_error s oi error =
     Option.bind (marshall 4 [P9_w (- error)]) (virtio_9p_send_reply s oi 6)"

definition virtio_9p_open_reply ::
  "('w, 'f, 'z) VIRTIO9PDevice_scheme \<Rightarrow> FSQID \<Rightarrow> int \<Rightarrow> P9OpenInfo \<Rightarrow> ('w, 'f, 'z) VIRTIO9PDevice_scheme option" where
  "virtio_9p_open_reply s qid err oi =
     (if err < 0 then virtio_9p_send_error s oi (of_int err)
      else Option.bind (marshall 32 [P9_Q qid, P9_w (p9_msize s - 24)]) (virtio_9p_send_reply s oi 12))"

text \<open>The labels \<open>protocol_error\<close> and \<open>fid_not_found\<close>.\<close>

definition protocol_error :: "'z VIRTIODevice_scheme \<Rightarrow> P9OpenInfo \<Rightarrow> 'z VIRTIODevice_scheme option" where
  "protocol_error s oi = virtio_9p_send_error s oi (- P9_EPROTO)"

text \<open>The values of a request, and the file of a number; without them the request fails.\<close>

definition p9_args ::
  "p9_env \<Rightarrow> 'z VIRTIODevice_scheme \<Rightarrow> P9OpenInfo \<Rightarrow> int \<Rightarrow> string
     \<Rightarrow> (p9_val list \<Rightarrow> int \<Rightarrow> 'z VIRTIODevice_scheme option) \<Rightarrow> 'z VIRTIODevice_scheme option" where
  "p9_args env s oi offset fmt k =
     Option.bind (unmarshall (p9_fresh env) s (oi_queue_idx oi) (oi_desc_idx oi) offset fmt) (\<lambda>r.
     case r of None \<Rightarrow> protocol_error s oi | Some (vs, offset) \<Rightarrow> k vs offset)"

definition p9_file ::
  "('w, 'f, 'z) VIRTIO9PDevice_scheme \<Rightarrow> P9OpenInfo \<Rightarrow> u32
     \<Rightarrow> ('f \<Rightarrow> ('w, 'f, 'z) VIRTIO9PDevice_scheme option) \<Rightarrow> ('w, 'f, 'z) VIRTIO9PDevice_scheme option" where
  "p9_file s oi fid k = (case fid_find s fid of None \<Rightarrow> protocol_error s oi | Some f \<Rightarrow> k f)"

text \<open>A reply with values in the buffer of 1024 bytes, or an error.\<close>

definition p9_reply :: "'z VIRTIODevice_scheme \<Rightarrow> P9OpenInfo \<Rightarrow> u8 \<Rightarrow> p9_val list \<Rightarrow> 'z VIRTIODevice_scheme option" where
  "p9_reply s oi op vs = Option.bind (marshall 1024 vs) (virtio_9p_send_reply s oi op)"

definition p9_result ::
  "'z VIRTIODevice_scheme \<Rightarrow> P9OpenInfo \<Rightarrow> int \<Rightarrow> u8 \<Rightarrow> p9_val list \<Rightarrow> 'z VIRTIODevice_scheme option" where
  "p9_result s oi err op vs = (if err \<noteq> 0 then virtio_9p_send_error s oi (of_int err) else p9_reply s oi op vs)"

section \<open>The requests\<close>

text \<open>
  The cases of \<open>virtio_9p_recv_request\<close>, on the device and the position \<open>offset\<close> after the header.
  The last case of each \<open>case\<close> is never taken, as \<open>unmarshall\<close> returns values of the format.
\<close>

type_synonym ('w, 'f, 'z) p9_handler =
  "('w, 'f) FSDevice \<Rightarrow> p9_env \<Rightarrow> P9OpenInfo \<Rightarrow> int \<Rightarrow> ('w, 'f, 'z) VIRTIO9PDevice_scheme
     \<Rightarrow> ('w, 'f, 'z) VIRTIO9PDevice_scheme option"

definition p9_statfs :: "('w, 'f, 'z) p9_handler" where
  "p9_statfs fsd env oi offset s =
     (case fs_statfs fsd (p9_fs s) of (st, w) \<Rightarrow>
      p9_reply (s\<lparr>p9_fs := w\<rparr>) oi 8
        [P9_w 0, P9_w (f_bsize st), P9_d (f_blocks st), P9_d (f_bfree st), P9_d (f_bavail st), P9_d (f_files st),
         P9_d (f_ffree st), P9_d (push_bit 32 (ucast (arg_upper env))), P9_w 256])"

definition p9_lopen :: "('w, 'f, 'z) p9_handler" where
  "p9_lopen fsd env oi offset s =
     p9_args env s oi offset ''ww'' (\<lambda>vs offset.
     case vs of
       [P9_w fid, P9_w flags] \<Rightarrow>
         p9_file s oi fid (\<lambda>f.
         case fs_open fsd f flags oi (p9_fs s) of (err, qid, w) \<Rightarrow>
           if err \<le> 0 then virtio_9p_open_reply (s\<lparr>p9_fs := w\<rparr>) qid err oi
           else Some (s\<lparr>p9_fs := w, p9_req_in_progress := True\<rparr>))
     | _ \<Rightarrow> None)"

definition p9_lcreate :: "('w, 'f, 'z) p9_handler" where
  "p9_lcreate fsd env oi offset s =
     p9_args env s oi offset ''wswww'' (\<lambda>vs offset.
     case vs of
       [P9_w fid, P9_s name, P9_w flags, P9_w mode, P9_w gid] \<Rightarrow>
         p9_file s oi fid (\<lambda>f.
         case fs_create fsd f name flags mode gid (p9_fs s) of (err, qid, w) \<Rightarrow>
           p9_result (s\<lparr>p9_fs := w\<rparr>) oi err 14 [P9_Q qid, P9_w (p9_msize s - 24)])
     | _ \<Rightarrow> None)"

definition p9_symlink :: "('w, 'f, 'z) p9_handler" where
  "p9_symlink fsd env oi offset s =
     p9_args env s oi offset ''wssw'' (\<lambda>vs offset.
     case vs of
       [P9_w fid, P9_s name, P9_s symgt, P9_w gid] \<Rightarrow>
         p9_file s oi fid (\<lambda>f.
         case fs_symlink fsd f name symgt gid (p9_fs s) of (err, qid, w) \<Rightarrow>
           p9_result (s\<lparr>p9_fs := w\<rparr>) oi err 16 [P9_Q qid])
     | _ \<Rightarrow> None)"

definition p9_mknod :: "('w, 'f, 'z) p9_handler" where
  "p9_mknod fsd env oi offset s =
     p9_args env s oi offset ''wswwww'' (\<lambda>vs offset.
     case vs of
       [P9_w fid, P9_s name, P9_w mode, P9_w major, P9_w minor, P9_w gid] \<Rightarrow>
         p9_file s oi fid (\<lambda>f.
         case fs_mknod fsd f name mode major minor gid (p9_fs s) of (err, qid, w) \<Rightarrow>
           p9_result (s\<lparr>p9_fs := w\<rparr>) oi err 18 [P9_Q qid])
     | _ \<Rightarrow> None)"

definition p9_readlink :: "('w, 'f, 'z) p9_handler" where
  "p9_readlink fsd env oi offset s =
     p9_args env s oi offset ''w'' (\<lambda>vs offset.
     case vs of
       [P9_w fid] \<Rightarrow>
         p9_file s oi fid (\<lambda>f.
         case fs_readlink fsd 1024 f (p9_fs s) of (err, str, w) \<Rightarrow> p9_result (s\<lparr>p9_fs := w\<rparr>) oi err 22 [P9_s str])
     | _ \<Rightarrow> None)"

definition stat_vals :: "u64 \<Rightarrow> FSStat \<Rightarrow> p9_val list" where
  "stat_vals msk st =
     [P9_d msk, P9_Q (st_qid st), P9_w (st_mode st), P9_w (st_uid st), P9_w (st_gid st), P9_d (st_nlink st),
      P9_d (st_rdev st), P9_d (st_size st), P9_d (st_blksize st), P9_d (st_blocks st),
      P9_d (st_atime_sec st), P9_d (ucast (st_atime_nsec st)), P9_d (st_mtime_sec st), P9_d (ucast (st_mtime_nsec st)),
      P9_d (st_ctime_sec st), P9_d (ucast (st_ctime_nsec st)), P9_d 0, P9_d 0, P9_d 0, P9_d 0]"

definition p9_getattr :: "('w, 'f, 'z) p9_handler" where
  "p9_getattr fsd env oi offset s =
     p9_args env s oi offset ''wd'' (\<lambda>vs offset.
     case vs of
       [P9_w fid, P9_d msk] \<Rightarrow>
         p9_file s oi fid (\<lambda>f.
         case fs_stat fsd f (p9_fs s) of (err, st, w) \<Rightarrow> p9_result (s\<lparr>p9_fs := w\<rparr>) oi err 24 (stat_vals msk st))
     | _ \<Rightarrow> None)"

definition p9_setattr :: "('w, 'f, 'z) p9_handler" where
  "p9_setattr fsd env oi offset s =
     p9_args env s oi offset ''wwwwwddddd'' (\<lambda>vs offset.
     case vs of
       [P9_w fid, P9_w msk, P9_w mode, P9_w uid, P9_w gid, P9_d sz, P9_d atime_sec, P9_d atime_nsec, P9_d mtime_sec, P9_d mtime_nsec] \<Rightarrow>
         p9_file s oi fid (\<lambda>f.
         case fs_setattr fsd f msk mode uid gid sz atime_sec atime_nsec mtime_sec mtime_nsec (p9_fs s) of (err, w) \<Rightarrow>
           p9_result (s\<lparr>p9_fs := w\<rparr>) oi err 26 [])
     | _ \<Rightarrow> None)"

definition p9_xattrwalk :: "('w, 'f, 'z) p9_handler" where
  "p9_xattrwalk fsd env oi offset s = virtio_9p_send_error s oi (- P9_ENOTSUP)"

text \<open>
  The end of \<open>readdir\<close> and \<open>read\<close>: the callback has stored \<open>bs\<close> behind the first four bytes of a
  buffer of \<open>count + 4\<close> bytes, a sum of 32 bits.
\<close>

definition reply_data ::
  "p9_env \<Rightarrow> 'z VIRTIODevice_scheme \<Rightarrow> P9OpenInfo \<Rightarrow> u8 \<Rightarrow> u32 \<Rightarrow> int \<Rightarrow> u8 list \<Rightarrow> 'z VIRTIODevice_scheme option" where
  "reply_data env s oi op count n bs =
     Option.bind (copy_into (p9_fresh env (unat (count + 4))) 4 bs) (\<lambda>buf.
     if n < 0 then virtio_9p_send_error s oi (of_int n)
     else
       Option.bind (copy_into buf 0 (le32_bytes (of_int n))) (\<lambda>buf.
       if length buf < nat n + 4 then None else virtio_9p_send_reply s oi op (take (nat n + 4) buf)))"

definition p9_readdir :: "('w, 'f, 'z) p9_handler" where
  "p9_readdir fsd env oi offset s =
     p9_args env s oi offset ''wdw'' (\<lambda>vs offset.
     case vs of
       [P9_w fid, P9_d offs, P9_w count] \<Rightarrow>
         p9_file s oi fid (\<lambda>f.
         case fs_readdir fsd f offs (c_int count) (p9_fs s) of (n, bs, w) \<Rightarrow>
           reply_data env (s\<lparr>p9_fs := w\<rparr>) oi 40 count n bs)
     | _ \<Rightarrow> None)"

definition p9_fsync :: "('w, 'f, 'z) p9_handler" where
  "p9_fsync fsd env oi offset s = p9_args env s oi offset ''w'' (\<lambda>vs offset. virtio_9p_send_reply s oi 50 [])"

definition p9_lock :: "('w, 'f, 'z) p9_handler" where
  "p9_lock fsd env oi offset s =
     p9_args env s oi offset ''wbwddws'' (\<lambda>vs offset.
     case vs of
       [P9_w fid, P9_b type, P9_w flags, P9_d start, P9_d len, P9_w proc_id, P9_s client_id] \<Rightarrow>
         p9_file s oi fid (\<lambda>f.
         case fs_lock fsd f \<lparr>lock_type = type, lock_flags = flags, lock_start = start, lock_length = len,
                lock_proc_id = proc_id, lock_client_id = client_id\<rparr> (p9_fs s) of (err, w) \<Rightarrow>
           if err < 0 then virtio_9p_send_error (s\<lparr>p9_fs := w\<rparr>) oi (of_int err)
           else p9_reply (s\<lparr>p9_fs := w\<rparr>) oi 52 [P9_b (of_int err)])
     | _ \<Rightarrow> None)"

text \<open>
  As in the source, the reply holds the addresses of the fields of the structure, not their contents.
  The callback may change the lock; \<open>flags\<close> is not set.
\<close>

definition p9_getlock :: "('w, 'f, 'z) p9_handler" where
  "p9_getlock fsd env oi offset s =
     p9_args env s oi offset ''wbddws'' (\<lambda>vs offset.
     case vs of
       [P9_w fid, P9_b type, P9_d start, P9_d len, P9_w proc_id, P9_s client_id] \<Rightarrow>
         p9_file s oi fid (\<lambda>f.
         case fs_getlock fsd f \<lparr>lock_type = type, lock_flags = lock_flags_init env, lock_start = start, lock_length = len,
                lock_proc_id = proc_id, lock_client_id = client_id\<rparr> (p9_fs s) of (err, lock, w) \<Rightarrow>
           if err < 0 then virtio_9p_send_error (s\<lparr>p9_fs := w\<rparr>) oi (of_int err)
           else p9_reply (s\<lparr>p9_fs := w\<rparr>) oi 54
                  [P9_b (ucast (lock_addr env)), P9_d (lock_addr env + 8), P9_d (lock_addr env + 16),
                   P9_w (ucast (lock_addr env + 24)), P9_s (client_id_ptr env)])
     | _ \<Rightarrow> None)"

definition p9_link :: "('w, 'f, 'z) p9_handler" where
  "p9_link fsd env oi offset s =
     p9_args env s oi offset ''wws'' (\<lambda>vs offset.
     case vs of
       [P9_w dfid, P9_w fid, P9_s name] \<Rightarrow>
         p9_file s oi dfid (\<lambda>df. p9_file s oi fid (\<lambda>f.
         case fs_link fsd df f name (p9_fs s) of (err, w) \<Rightarrow> p9_result (s\<lparr>p9_fs := w\<rparr>) oi err 70 []))
     | _ \<Rightarrow> None)"

definition p9_mkdir :: "('w, 'f, 'z) p9_handler" where
  "p9_mkdir fsd env oi offset s =
     p9_args env s oi offset ''wsww'' (\<lambda>vs offset.
     case vs of
       [P9_w fid, P9_s name, P9_w mode, P9_w gid] \<Rightarrow>
         p9_file s oi fid (\<lambda>f.
         case fs_mkdir fsd f name mode gid (p9_fs s) of (err, qid, w) \<Rightarrow> p9_result (s\<lparr>p9_fs := w\<rparr>) oi err 72 [P9_Q qid])
     | _ \<Rightarrow> None)"

definition p9_renameat :: "('w, 'f, 'z) p9_handler" where
  "p9_renameat fsd env oi offset s =
     p9_args env s oi offset ''wsws'' (\<lambda>vs offset.
     case vs of
       [P9_w fid, P9_s name, P9_w new_fid, P9_s new_name] \<Rightarrow>
         p9_file s oi fid (\<lambda>f. p9_file s oi new_fid (\<lambda>new_f.
         case fs_renameat fsd f name new_f new_name (p9_fs s) of (err, w) \<Rightarrow> p9_result (s\<lparr>p9_fs := w\<rparr>) oi err 74 []))
     | _ \<Rightarrow> None)"

definition p9_unlinkat :: "('w, 'f, 'z) p9_handler" where
  "p9_unlinkat fsd env oi offset s =
     p9_args env s oi offset ''wsw'' (\<lambda>vs offset.
     case vs of
       [P9_w fid, P9_s name, P9_w flags] \<Rightarrow>
         p9_file s oi fid (\<lambda>f.
         case fs_unlinkat fsd f name (p9_fs s) of (err, w) \<Rightarrow> p9_result (s\<lparr>p9_fs := w\<rparr>) oi err 76 [])
     | _ \<Rightarrow> None)"

definition p9_version :: "('w, 'f, 'z) p9_handler" where
  "p9_version fsd env oi offset s =
     p9_args env s oi offset ''ws'' (\<lambda>vs offset.
     case vs of
       [P9_w msize, P9_s version] \<Rightarrow>
         p9_reply (s\<lparr>p9_msize := msize\<rparr>) oi 100 [P9_w msize, P9_s (map of_char ''9P2000.L'')]
     | _ \<Rightarrow> None)"

definition p9_attach :: "('w, 'f, 'z) p9_handler" where
  "p9_attach fsd env oi offset s =
     p9_args env s oi offset ''wwssw'' (\<lambda>vs offset.
     case vs of
       [P9_w fid, P9_w afid, P9_s uname, P9_s aname, P9_w uid] \<Rightarrow>
         (case fs_attach fsd uid uname aname (p9_fs s) of (err, f, qid, w) \<Rightarrow>
            if err \<noteq> 0 then virtio_9p_send_error (s\<lparr>p9_fs := w\<rparr>) oi (of_int err)
            else p9_reply (fid_set fsd (s\<lparr>p9_fs := w\<rparr>) fid f) oi 104 [P9_Q qid])
     | _ \<Rightarrow> None)"

definition p9_flush :: "('w, 'f, 'z) p9_handler" where
  "p9_flush fsd env oi offset s = p9_args env s oi offset ''h'' (\<lambda>vs offset. virtio_9p_send_reply s oi 108 [])"

text \<open>The loop over the names; each call of \<open>unmarshall\<close> has its own buffer.\<close>

fun walk_names ::
  "(nat \<Rightarrow> u8 list) \<Rightarrow> 'z VIRTIODevice_scheme \<Rightarrow> P9OpenInfo \<Rightarrow> nat \<Rightarrow> int \<Rightarrow> name list option option" where
  "walk_names fresh s oi 0 offset = Some (Some [])"
| "walk_names fresh s oi (Suc n) offset =
     Option.bind (unmarshall fresh s (oi_queue_idx oi) (oi_desc_idx oi) offset ''s'') (\<lambda>r.
     case r of
       Some ([P9_s name], offset) \<Rightarrow> map_option (map_option ((#) name)) (walk_names fresh s oi n offset)
     | _ \<Rightarrow> Some None)"

text \<open>The first \<open>err\<close> of the \<open>qids\<close> are sent.  Those the callback has not stored are undefined.\<close>

definition p9_walk :: "('w, 'f, 'z) p9_handler" where
  "p9_walk fsd env oi offset s =
     p9_args env s oi offset ''wwh'' (\<lambda>vs offset.
     case vs of
       [P9_w fid, P9_w newfid, P9_h nwname] \<Rightarrow>
         p9_file s oi fid (\<lambda>f.
         Option.bind (walk_names (p9_fresh env) s oi (unat nwname) offset) (\<lambda>r.
         case r of
           None \<Rightarrow> protocol_error s oi
         | Some names \<Rightarrow>
             (case fs_walk fsd f names (p9_fs s) of (err, f, qids, w) \<Rightarrow>
              let s = s\<lparr>p9_fs := w\<rparr>
              in if err < 0 then virtio_9p_send_error s oi (of_int err)
                 else if length qids < nat err then None
                 else
                   Option.bind (marshall 1024 (P9_h (of_int err) # map P9_Q (take (nat err) qids))) (\<lambda>buf.
                   virtio_9p_send_reply (fid_set fsd s newfid f) oi 110 buf))))
     | _ \<Rightarrow> None)"

definition p9_read :: "('w, 'f, 'z) p9_handler" where
  "p9_read fsd env oi offset s =
     p9_args env s oi offset ''wdw'' (\<lambda>vs offset.
     case vs of
       [P9_w fid, P9_d offs, P9_w count] \<Rightarrow>
         p9_file s oi fid (\<lambda>f.
         case fs_read fsd f offs (c_int count) (p9_fs s) of (n, bs, w) \<Rightarrow>
           reply_data env (s\<lparr>p9_fs := w\<rparr>) oi 116 count n bs)
     | _ \<Rightarrow> None)"

definition p9_write :: "('w, 'f, 'z) p9_handler" where
  "p9_write fsd env oi offset s =
     p9_args env s oi offset ''wdw'' (\<lambda>vs offset.
     case vs of
       [P9_w fid, P9_d offs, P9_w count] \<Rightarrow>
         p9_file s oi fid (\<lambda>f.
         Option.bind (memcpy_from_queue s (p9_fresh env (unat count)) (oi_queue_idx oi) (oi_desc_idx oi) offset (c_int count)) (\<lambda>(r, buf1).
         if r \<noteq> 0 then protocol_error s oi
         else
           (case fs_write fsd f offs buf1 (c_int count) (p9_fs s) of (n, w) \<Rightarrow>
            if n < 0 then virtio_9p_send_error (s\<lparr>p9_fs := w\<rparr>) oi (of_int n)
            else p9_reply (s\<lparr>p9_fs := w\<rparr>) oi 118 [P9_w (of_int n)])))
     | _ \<Rightarrow> None)"

definition p9_clunk :: "('w, 'f, 'z) p9_handler" where
  "p9_clunk fsd env oi offset s =
     p9_args env s oi offset ''w'' (\<lambda>vs offset.
     case vs of
       [P9_w fid] \<Rightarrow> virtio_9p_send_reply (fid_delete fsd s fid) oi 120 []
     | _ \<Rightarrow> None)"

definition p9_dispatch :: "u8 \<Rightarrow> ('w, 'f, 'z) p9_handler" where
  "p9_dispatch op fsd env oi offset s =
     (if op = 8 then p9_statfs fsd env oi offset s
      else if op = 12 then p9_lopen fsd env oi offset s
      else if op = 14 then p9_lcreate fsd env oi offset s
      else if op = 16 then p9_symlink fsd env oi offset s
      else if op = 18 then p9_mknod fsd env oi offset s
      else if op = 22 then p9_readlink fsd env oi offset s
      else if op = 24 then p9_getattr fsd env oi offset s
      else if op = 26 then p9_setattr fsd env oi offset s
      else if op = 30 then p9_xattrwalk fsd env oi offset s
      else if op = 40 then p9_readdir fsd env oi offset s
      else if op = 50 then p9_fsync fsd env oi offset s
      else if op = 52 then p9_lock fsd env oi offset s
      else if op = 54 then p9_getlock fsd env oi offset s
      else if op = 70 then p9_link fsd env oi offset s
      else if op = 72 then p9_mkdir fsd env oi offset s
      else if op = 74 then p9_renameat fsd env oi offset s
      else if op = 76 then p9_unlinkat fsd env oi offset s
      else if op = 100 then p9_version fsd env oi offset s
      else if op = 104 then p9_attach fsd env oi offset s
      else if op = 108 then p9_flush fsd env oi offset s
      else if op = 110 then p9_walk fsd env oi offset s
      else if op = 116 then p9_read fsd env oi offset s
      else if op = 118 then p9_write fsd env oi offset s
      else if op = 120 then p9_clunk fsd env oi offset s
      else protocol_error s oi)"

definition virtio_9p_recv_request ::
  "('w, 'f) FSDevice \<Rightarrow> p9_env \<Rightarrow> ('w, 'f, 'z) VIRTIO9PDevice_scheme
     \<Rightarrow> nat \<Rightarrow> u16 \<Rightarrow> int \<Rightarrow> int \<Rightarrow> (int \<times> ('w, 'f, 'z) VIRTIO9PDevice_scheme) option" where
  "virtio_9p_recv_request fsd env s q i read_size write_size =
     (if q \<noteq> 0 then Some (0, s)
      else if p9_req_in_progress s then Some (- 1, s)
      else
        Option.bind (memcpy_from_queue s (p9_fresh env 1024) q i 0 7) (\<lambda>(r, h).
        map_option (\<lambda>s. (0, s))
          (if r \<noteq> 0 then protocol_error s \<lparr>oi_queue_idx = q, oi_desc_idx = i, oi_tag = 0\<rparr>
           else
             p9_dispatch (h ! 4) fsd env
               \<lparr>oi_queue_idx = q, oi_desc_idx = i, oi_tag = get_le16 (list_mem h) 5\<rparr> 7 s)))"

text \<open>The file system calls back when a file is open that took longer.\<close>

definition virtio_9p_open_cb ::
  "('w, 'f) FSDevice \<Rightarrow> p9_env \<Rightarrow> ('w, 'f, 'z) VIRTIO9PDevice_scheme \<Rightarrow> FSQID \<Rightarrow> int \<Rightarrow> P9OpenInfo
     \<Rightarrow> ('w, 'f, 'z) VIRTIO9PDevice_scheme option" where
  "virtio_9p_open_cb fsd env s qid err oi =
     Option.bind (virtio_9p_open_reply s qid err oi) (\<lambda>s.
     queue_notify (virtio_9p_recv_request fsd env) (oi_queue_idx oi) (s\<lparr>p9_req_in_progress := False\<rparr>))"

definition virtio_9p_init :: "PhysMemoryMap \<Rightarrow> host_mem \<Rightarrow> 'w \<Rightarrow> u8 list \<Rightarrow> ('w, 'f) VIRTIO9PDevice" where
  "virtio_9p_init mm mem w mount_tag =
     (let len = length mount_tag
      in VIRTIODevice.extend
           ((virtio_init mm mem 9 (of_nat (2 + len)))
              \<lparr>device_features := 1,
               config_space := copy_bytes 2 mount_tag ((\<lambda>_. 0)(0 := of_nat len, 1 := of_nat (len div 256)))\<rparr>)
           \<lparr>p9_fs = w, p9_msize = 8192, fid_list = [], p9_req_in_progress = False\<rparr>)"

end
