(* ===== verification/Virtio_9p_Lemmas.thy ===== *)
theory Virtio_9p_Lemmas
  imports Virtio_9p Virtio_Props
begin

text \<open>
  What a request to the 9p device does: it changes the table of files and the file system, and then
  sends one reply.
\<close>

section \<open>The table of files\<close>

definition fids_ok :: "('w, 'f, 'z) VIRTIO9PDevice_scheme \<Rightarrow> bool" where
  "fids_ok s \<longleftrightarrow> distinct (map fst (fid_list s))"

lemma del_fid_keys: "set (map fst (del_fid k l)) \<subseteq> set (map fst l)"
  by (induction k l rule: del_fid.induct) auto

lemma set_fid_keys: "map fst (set_fid k f l) = map fst l"
  by (induction k f l rule: set_fid.induct) auto

lemma del_fid_distinct: "distinct (map fst l) \<Longrightarrow> distinct (map fst (del_fid k l))"
proof (induction k l rule: del_fid.induct)
  case (2 k j f l)
  then show ?case using del_fid_keys [of k l] by (auto simp del: set_map)
qed simp

lemma map_of_del_fid: "distinct (map fst l) \<Longrightarrow> map_of (del_fid k l) = (map_of l)(k := None)"
  by (induction k l rule: del_fid.induct) (auto simp: fun_eq_iff map_of_eq_None_iff)

lemma map_of_set_fid: "map_of l k = Some g \<Longrightarrow> map_of (set_fid k f l) = (map_of l)(k \<mapsto> f)"
  by (induction k f l rule: set_fid.induct) (auto simp: fun_eq_iff split: if_splits)

lemma fid_set_ok: "fids_ok s \<Longrightarrow> fids_ok (fid_set fsd s k f)"
  by (auto simp: fids_ok_def fid_set_def fid_find_def set_fid_keys map_of_eq_None_iff split: option.split)

lemma fid_delete_ok: "fids_ok s \<Longrightarrow> fids_ok (fid_delete fsd s k)"
  by (auto simp: fids_ok_def fid_delete_def del_fid_distinct split: option.split)

lemma fid_find_set: "fid_find (fid_set fsd s k f) = (fid_find s)(k \<mapsto> f)"
  by (auto simp: fid_find_def fid_set_def map_of_set_fid fun_eq_iff split: option.split)

lemma fid_find_delete: "fids_ok s \<Longrightarrow> fid_find (fid_delete fsd s k) = (fid_find s)(k := None)"
  by (auto simp: fid_find_def fid_delete_def map_of_del_fid fids_ok_def fun_eq_iff split: option.split)

section \<open>Requests and replies\<close>

text \<open>Only the fields of the device behind the transport differ.\<close>

definition same_transport :: "'z VIRTIODevice_scheme \<Rightarrow> 'z VIRTIODevice_scheme \<Rightarrow> bool" where
  "same_transport s t \<longleftrightarrow> VIRTIODevice.truncate t = VIRTIODevice.truncate s"

text \<open>
  The request ends in a state with the table and the file system of \<open>t\<close>, after one reply: \<open>n\<close> is its
  number, or 6 for an error.
\<close>

definition replies :: "P9OpenInfo \<Rightarrow> u8 \<Rightarrow> ('w, 'f, 'z) VIRTIO9PDevice_scheme \<Rightarrow> ('w, 'f, 'z) VIRTIO9PDevice_scheme \<Rightarrow> bool" where
  "replies oi n s s' \<longleftrightarrow> (\<exists>t rid buf. same_transport s t \<and> (fids_ok s \<longrightarrow> fids_ok t) \<and> p9_req_in_progress t = p9_req_in_progress s \<and>
     rid \<in> {6, n} \<and> virtio_9p_send_reply t oi rid buf = Some s')"

lemma same_transport_simps [simp]:
  fixes s :: "('w, 'f, 'z) VIRTIO9PDevice_scheme"
  shows "same_transport s s" "same_transport s (s\<lparr>p9_fs := w\<rparr>)" "same_transport s (s\<lparr>p9_msize := m\<rparr>)"
    "same_transport s (s\<lparr>p9_req_in_progress := b\<rparr>)" "same_transport s (fid_set fsd s k f)"
    "same_transport s (fid_delete fsd s k)" "same_transport s (fid_set fsd (s\<lparr>p9_fs := w\<rparr>) k f)"
  by (simp_all add: same_transport_def VIRTIODevice.defs fid_set_def fid_delete_def split: option.split)

lemma table_simps [simp]:
  "fids_ok (s\<lparr>p9_fs := w\<rparr>) = fids_ok s" "fids_ok (s\<lparr>p9_msize := m\<rparr>) = fids_ok s"
  "p9_req_in_progress (fid_set fsd s k f) = p9_req_in_progress s" "p9_req_in_progress (fid_delete fsd s k) = p9_req_in_progress s"
  by (simp_all add: fids_ok_def fid_set_def fid_delete_def split: option.split)

definition changed :: "('w, 'f, 'z) VIRTIO9PDevice_scheme \<Rightarrow> ('w, 'f, 'z) VIRTIO9PDevice_scheme \<Rightarrow> bool" where
  "changed s t \<longleftrightarrow> same_transport s t \<and> (fids_ok s \<longrightarrow> fids_ok t) \<and> p9_req_in_progress t = p9_req_in_progress s"

lemma changed_simps [simp, intro]:
  "changed s s" "changed s (s\<lparr>p9_fs := w\<rparr>)" "changed s (s\<lparr>p9_msize := m\<rparr>)"
  "changed s (fid_set fsd s k f)" "changed s (fid_set fsd (s\<lparr>p9_fs := w\<rparr>) k f)" "changed s (fid_delete fsd s k)"
  by (simp_all add: changed_def fid_set_ok fid_delete_ok)

lemma reply_replies: "virtio_9p_send_reply t oi rid buf = Some s' \<Longrightarrow> changed s t \<Longrightarrow> rid \<in> {6, n} \<Longrightarrow> replies oi n s s'"
  by (auto simp: replies_def changed_def)

lemma error_replies: "virtio_9p_send_error t oi e = Some s' \<Longrightarrow> changed s t \<Longrightarrow> replies oi n s s'"
  by (auto simp: virtio_9p_send_error_def Option.bind_eq_Some_conv intro: reply_replies)

lemma vals_replies: "p9_reply t oi n vs = Some s' \<Longrightarrow> changed s t \<Longrightarrow> replies oi n s s'"
  by (auto simp: p9_reply_def Option.bind_eq_Some_conv intro: reply_replies)

lemma result_replies: "p9_result t oi err n vs = Some s' \<Longrightarrow> changed s t \<Longrightarrow> replies oi n s s'"
  by (auto simp: p9_result_def intro: error_replies vals_replies split: if_splits)

lemma protocol_error_replies: "protocol_error t oi = Some s' \<Longrightarrow> changed s t \<Longrightarrow> replies oi n s s'"
  by (auto simp: protocol_error_def intro: error_replies)

lemma open_reply_replies: "virtio_9p_open_reply t qid err oi = Some s' \<Longrightarrow> changed s t \<Longrightarrow> replies oi 12 s s'"
  by (auto simp: virtio_9p_open_reply_def Option.bind_eq_Some_conv intro: error_replies reply_replies split: if_splits)

lemma data_replies: "reply_data env t oi n count k bs = Some s' \<Longrightarrow> changed s t \<Longrightarrow> replies oi n s s'"
  by (auto simp: reply_data_def Option.bind_eq_Some_conv intro: error_replies reply_replies split: if_splits)

lemma args_replies:
  assumes "p9_args env s oi offset fmt k = Some s'" "\<And>vs offset. k vs offset = Some s' \<Longrightarrow> replies oi n s s'"
  shows "replies oi n s s'"
  using assms by (auto simp: p9_args_def Option.bind_eq_Some_conv intro: protocol_error_replies split: option.splits)

lemma file_replies:
  assumes "p9_file s oi fid k = Some s'" "\<And>f. k f = Some s' \<Longrightarrow> replies oi n s s'"
  shows "replies oi n s s'"
  using assms by (auto simp: p9_file_def intro: protocol_error_replies split: option.splits)

lemma bind_replies:
  assumes "Option.bind x k = Some s'" "\<And>r. x = Some r \<Longrightarrow> k r = Some s' \<Longrightarrow> replies oi n s s'"
  shows "replies oi n s s'"
  using assms by (auto simp: Option.bind_eq_Some_conv)

lemmas p9_replies = reply_replies error_replies vals_replies result_replies protocol_error_replies data_replies

lemma statfs_replies: "p9_statfs fsd env oi offset s = Some s' \<Longrightarrow> replies oi 8 s s'"
  by (auto simp: p9_statfs_def intro: p9_replies split: prod.splits)

lemma lcreate_replies: "p9_lcreate fsd env oi offset s = Some s' \<Longrightarrow> replies oi 14 s s'"
  unfolding p9_lcreate_def
  by (erule args_replies) (auto split: list.splits p9_val.splits prod.splits if_splits elim!: file_replies p9_replies)

lemma symlink_replies: "p9_symlink fsd env oi offset s = Some s' \<Longrightarrow> replies oi 16 s s'"
  unfolding p9_symlink_def
  by (erule args_replies) (auto split: list.splits p9_val.splits prod.splits if_splits elim!: file_replies p9_replies)

lemma mknod_replies: "p9_mknod fsd env oi offset s = Some s' \<Longrightarrow> replies oi 18 s s'"
  unfolding p9_mknod_def
  by (erule args_replies) (auto split: list.splits p9_val.splits prod.splits if_splits elim!: file_replies p9_replies)

lemma readlink_replies: "p9_readlink fsd env oi offset s = Some s' \<Longrightarrow> replies oi 22 s s'"
  unfolding p9_readlink_def
  by (erule args_replies) (auto split: list.splits p9_val.splits prod.splits if_splits elim!: file_replies p9_replies)

lemma getattr_replies: "p9_getattr fsd env oi offset s = Some s' \<Longrightarrow> replies oi 24 s s'"
  unfolding p9_getattr_def
  by (erule args_replies) (auto split: list.splits p9_val.splits prod.splits if_splits elim!: file_replies p9_replies)

lemma setattr_replies: "p9_setattr fsd env oi offset s = Some s' \<Longrightarrow> replies oi 26 s s'"
  unfolding p9_setattr_def
  by (erule args_replies) (auto split: list.splits p9_val.splits prod.splits if_splits elim!: file_replies p9_replies)

lemma readdir_replies: "p9_readdir fsd env oi offset s = Some s' \<Longrightarrow> replies oi 40 s s'"
  unfolding p9_readdir_def
  by (erule args_replies) (auto split: list.splits p9_val.splits prod.splits if_splits elim!: file_replies p9_replies)

lemma fsync_replies: "p9_fsync fsd env oi offset s = Some s' \<Longrightarrow> replies oi 50 s s'"
  unfolding p9_fsync_def
  by (erule args_replies) (auto split: list.splits p9_val.splits prod.splits if_splits elim!: file_replies p9_replies)

lemma lock_replies: "p9_lock fsd env oi offset s = Some s' \<Longrightarrow> replies oi 52 s s'"
  unfolding p9_lock_def
  by (erule args_replies) (auto split: list.splits p9_val.splits prod.splits if_splits elim!: file_replies p9_replies)

lemma getlock_replies: "p9_getlock fsd env oi offset s = Some s' \<Longrightarrow> replies oi 54 s s'"
  unfolding p9_getlock_def
  by (erule args_replies) (auto split: list.splits p9_val.splits prod.splits if_splits elim!: file_replies p9_replies)

lemma link_replies: "p9_link fsd env oi offset s = Some s' \<Longrightarrow> replies oi 70 s s'"
  unfolding p9_link_def
  by (erule args_replies) (auto split: list.splits p9_val.splits prod.splits if_splits elim!: file_replies p9_replies)

lemma mkdir_replies: "p9_mkdir fsd env oi offset s = Some s' \<Longrightarrow> replies oi 72 s s'"
  unfolding p9_mkdir_def
  by (erule args_replies) (auto split: list.splits p9_val.splits prod.splits if_splits elim!: file_replies p9_replies)

lemma renameat_replies: "p9_renameat fsd env oi offset s = Some s' \<Longrightarrow> replies oi 74 s s'"
  unfolding p9_renameat_def
  by (erule args_replies) (auto split: list.splits p9_val.splits prod.splits if_splits elim!: file_replies p9_replies)

lemma unlinkat_replies: "p9_unlinkat fsd env oi offset s = Some s' \<Longrightarrow> replies oi 76 s s'"
  unfolding p9_unlinkat_def
  by (erule args_replies) (auto split: list.splits p9_val.splits prod.splits if_splits elim!: file_replies p9_replies)

lemma version_replies: "p9_version fsd env oi offset s = Some s' \<Longrightarrow> replies oi 100 s s'"
  unfolding p9_version_def
  by (erule args_replies) (auto split: list.splits p9_val.splits prod.splits if_splits elim!: file_replies p9_replies)

lemma attach_replies: "p9_attach fsd env oi offset s = Some s' \<Longrightarrow> replies oi 104 s s'"
  unfolding p9_attach_def
  by (erule args_replies) (auto split: list.splits p9_val.splits prod.splits if_splits elim!: file_replies p9_replies)

lemma flush_replies: "p9_flush fsd env oi offset s = Some s' \<Longrightarrow> replies oi 108 s s'"
  unfolding p9_flush_def
  by (erule args_replies) (auto split: list.splits p9_val.splits prod.splits if_splits elim!: file_replies p9_replies)

lemma read_replies: "p9_read fsd env oi offset s = Some s' \<Longrightarrow> replies oi 116 s s'"
  unfolding p9_read_def
  by (erule args_replies) (auto split: list.splits p9_val.splits prod.splits if_splits elim!: file_replies p9_replies)

lemma write_replies: "p9_write fsd env oi offset s = Some s' \<Longrightarrow> replies oi 118 s s'"
  unfolding p9_write_def
  by (erule args_replies)
     (auto split: list.split_asm p9_val.split_asm prod.split_asm if_split_asm elim!: bind_replies file_replies p9_replies)

lemma clunk_replies: "p9_clunk fsd env oi offset s = Some s' \<Longrightarrow> replies oi 120 s s'"
  unfolding p9_clunk_def
  by (erule args_replies) (auto split: list.splits p9_val.splits prod.splits if_splits elim!: file_replies p9_replies)

lemma xattrwalk_replies: "p9_xattrwalk fsd env oi offset s = Some s' \<Longrightarrow> replies oi 30 s s'"
  by (auto simp: p9_xattrwalk_def elim: p9_replies)

lemma walk_replies: "p9_walk fsd env oi offset s = Some s' \<Longrightarrow> replies oi 110 s s'"
  unfolding p9_walk_def
  by (erule args_replies)
     (auto simp: Let_def simp del: marshall.simps split: list.split_asm p9_val.split_asm prod.split_asm if_split_asm option.split_asm
       elim!: bind_replies file_replies p9_replies)

lemma lopen_file_replies:
  assumes "(case fs_open fsd f flags oi (p9_fs s) of (err, qid, w) \<Rightarrow>
      if err \<le> 0 then virtio_9p_open_reply (s\<lparr>p9_fs := w\<rparr>) qid err oi
      else Some (s\<lparr>p9_fs := w, p9_req_in_progress := True\<rparr>)) = Some s'"
  shows "replies oi 12 s s' \<or> (\<exists>w. s' = s\<lparr>p9_fs := w, p9_req_in_progress := True\<rparr>)"
proof -
  obtain err qid w where "fs_open fsd f flags oi (p9_fs s) = (err, qid, w)" by (cases "fs_open fsd f flags oi (p9_fs s)")
  with assms show ?thesis by (auto split: if_split_asm elim: open_reply_replies)
qed

lemma lopen_replies:
  assumes "p9_lopen fsd env oi offset s = Some s'"
  shows "replies oi 12 s s' \<or> (\<exists>w. s' = s\<lparr>p9_fs := w, p9_req_in_progress := True\<rparr>)"
proof -
  obtain r where r: "unmarshall (p9_fresh env) s (oi_queue_idx oi) (oi_desc_idx oi) offset ''ww'' = Some r"
    using assms by (auto simp: p9_lopen_def p9_args_def Option.bind_eq_Some_conv)
  show ?thesis
  proof (cases r)
    case None
    then have "protocol_error s oi = Some s'" using assms r by (simp add: p9_lopen_def p9_args_def)
    then show ?thesis by (auto elim: protocol_error_replies)
  next
    case (Some p)
    then obtain fid flags where "p9_file s oi fid (\<lambda>f. case fs_open fsd f flags oi (p9_fs s) of (err, qid, w) \<Rightarrow>
        if err \<le> 0 then virtio_9p_open_reply (s\<lparr>p9_fs := w\<rparr>) qid err oi
        else Some (s\<lparr>p9_fs := w, p9_req_in_progress := True\<rparr>)) = Some s'"
      using assms r by (cases p) (auto simp: p9_lopen_def p9_args_def split: list.split_asm p9_val.split_asm)
    then consider "protocol_error s oi = Some s'" | f where "(case fs_open fsd f flags oi (p9_fs s) of (err, qid, w) \<Rightarrow>
        if err \<le> 0 then virtio_9p_open_reply (s\<lparr>p9_fs := w\<rparr>) qid err oi
        else Some (s\<lparr>p9_fs := w, p9_req_in_progress := True\<rparr>)) = Some s'"
      by (cases "fid_find s fid") (simp_all add: p9_file_def)
    then show ?thesis
    proof cases
      case 1
      then show ?thesis by (auto elim: protocol_error_replies)
    next
      case 2
      then show ?thesis by (rule lopen_file_replies)
    qed
  qed
qed

lemmas handler_replies = statfs_replies lcreate_replies symlink_replies mknod_replies readlink_replies getattr_replies
  setattr_replies xattrwalk_replies readdir_replies fsync_replies lock_replies getlock_replies link_replies mkdir_replies
  renameat_replies unlinkat_replies version_replies attach_replies flush_replies walk_replies read_replies write_replies
  clunk_replies

lemma case_if: "(if b then x else y) = Some s' \<Longrightarrow> (b \<Longrightarrow> x = Some s' \<Longrightarrow> P) \<Longrightarrow> (y = Some s' \<Longrightarrow> P) \<Longrightarrow> P"
  by (simp split: if_split_asm)

lemma dispatch_replies:
  assumes "p9_dispatch op fsd env oi offset s = Some s'"
  shows "replies oi op s s' \<or> op = 12 \<and> (\<exists>w. s' = s\<lparr>p9_fs := w, p9_req_in_progress := True\<rparr>)"
  using assms unfolding p9_dispatch_def
  apply (elim case_if)
  apply (drule handler_replies lopen_replies, simp)+
  apply (rule disjI1, erule protocol_error_replies, simp)
  done

section \<open>The contract of a device\<close>

lemma same_transport_fields:
  assumes "same_transport s t"
  shows "v_map t = v_map s" "v_ram t = v_ram s" "v_queue t = v_queue s" "v_irq t = v_irq s" "int_status t = int_status s"
    "queue_sel t = queue_sel s" "config_space_size t = config_space_size s"
  using assms by (simp_all add: same_transport_def VIRTIODevice.defs)

lemma transport_serves: "same_transport s t \<Longrightarrow> serves s t"
  by (simp add: serves_def same_transport_fields irq_ok_def irq_level_def)

lemma send_reply_serves: "virtio_9p_send_reply t oi rid buf = Some s' \<Longrightarrow> serves t s'"
  by (auto simp: virtio_9p_send_reply_def Let_def split: if_split_asm
      dest!: memcpy_to_queue_only intro: serves_trans [OF ram_only_serves consume_serves])

lemma write_more:
  "VIRTIODevice.more (virtio_write16 s a v) = VIRTIODevice.more s" "VIRTIODevice.more (virtio_write32 s a w) = VIRTIODevice.more s"
  by (simp_all add: virtio_write16_def virtio_write32_def split: option.split)

lemma consume_more: "VIRTIODevice.more (virtio_consume_desc s q i n) = VIRTIODevice.more s"
  by (simp add: virtio_consume_desc_def Let_def virtio_set_irq_def write_more)

lemma send_reply_more: "virtio_9p_send_reply t oi rid buf = Some s' \<Longrightarrow> VIRTIODevice.more s' = VIRTIODevice.more t"
  by (auto simp: virtio_9p_send_reply_def Let_def consume_more split: if_split_asm dest!: memcpy_to_queue_only ram_only_fields(7))

lemma more_fields:
  fixes s t :: "('w, 'f, 'z) VIRTIO9PDevice_scheme"
  assumes "VIRTIODevice.more s = VIRTIODevice.more t"
  shows "fid_list s = fid_list t" "p9_req_in_progress s = p9_req_in_progress t" "p9_fs s = p9_fs t" "p9_msize s = p9_msize t"
  using assms by (cases s; cases t; simp)+

lemma recv_cases:
  assumes "virtio_9p_recv_request fsd env s q i r w = Some (x, s')"
  obtains "q \<noteq> 0 \<or> p9_req_in_progress s" "s' = s" "x = (if q = 0 then - 1 else 0)"
    | y h where "q = 0" "\<not> p9_req_in_progress s" "x = 0" "memcpy_from_queue s (p9_fresh env 1024) q i 0 7 = Some (y, h)"
        "(if y \<noteq> 0 then protocol_error s \<lparr>oi_queue_idx = q, oi_desc_idx = i, oi_tag = 0\<rparr>
          else p9_dispatch (h ! 4) fsd env \<lparr>oi_queue_idx = q, oi_desc_idx = i, oi_tag = get_le16 (list_mem h) 5\<rparr> 7 s) = Some s'"
  using assms by (auto simp: virtio_9p_recv_request_def Option.bind_eq_Some_conv split: if_split_asm)

lemma replies_keeps:
  assumes "replies oi n s s'"
  shows "serves s s' \<and> (fids_ok s \<longrightarrow> fids_ok s') \<and> p9_req_in_progress s' = p9_req_in_progress s"
proof -
  obtain t rid buf where t: "same_transport s t" "fids_ok s \<longrightarrow> fids_ok t" "p9_req_in_progress t = p9_req_in_progress s"
    "virtio_9p_send_reply t oi rid buf = Some s'" using assms by (auto simp: replies_def)
  have "fid_list s' = fid_list t" "p9_req_in_progress s' = p9_req_in_progress t" using more_fields [OF send_reply_more [OF t(4)]] by simp_all
  then show ?thesis
    using t(2,3) serves_trans [OF transport_serves [OF t(1)] send_reply_serves [OF t(4)]] by (simp add: fids_ok_def)
qed

lemma recv_keeps:
  assumes "virtio_9p_recv_request fsd env s q i r w = Some (x, s')"
  shows "serves s s' \<and> (fids_ok s \<longrightarrow> fids_ok s')"
  using assms
proof (cases rule: recv_cases)
  case (2 y h)
  have p: "serves s (s\<lparr>p9_fs := w, p9_req_in_progress := True\<rparr>)" "fids_ok (s\<lparr>p9_fs := w, p9_req_in_progress := True\<rparr>) = fids_ok s" for w
    by (simp_all add: serves_def irq_ok_def irq_level_def fids_ok_def)
  show ?thesis
  proof (cases "y = 0")
    case True
    then show ?thesis using 2(5) by (auto dest!: dispatch_replies replies_keeps simp: p)
  next
    case False
    then have "protocol_error s \<lparr>oi_queue_idx = q, oi_desc_idx = i, oi_tag = 0\<rparr> = Some s'" using 2(5) by simp
    from protocol_error_replies [OF this changed_simps(1)] replies_keeps show ?thesis by blast
  qed
qed simp

interpretation p9: virtio_backend "virtio_9p_recv_request fsd env" id for fsd env
  by unfold_locales (auto dest: recv_keeps)

end
