(* ===== verification/Virtio_9p_Props.thy ===== *)
theory Virtio_9p_Props
  imports Virtio_9p_Lemmas
begin

text \<open>Properties of the 9p device: its files, its messages and its replies.\<close>

section \<open>Messages\<close>

lemma overlay_front: "length bs \<le> length buf \<Longrightarrow> overlay buf 0 bs = bs @ drop (length bs) buf"
  by (simp add: overlay_def)

lemma length_val_bytes [simp]:
  "length (le16_bytes a) = 2" "length (le32_bytes b) = 4" "length (le64_bytes c) = 8"
  by (simp_all add: le16_bytes_def le32_bytes_def le64_bytes_def)

lemma get_le16_bytes: "get_le16 (list_mem (le16_bytes v @ bs)) 0 = v"
proof -
  have "get_le16 (list_mem (le16_bytes v @ bs)) 0 = get_le16 (put_le16 (\<lambda>_. 0) 0 v) 0"
    by (simp add: get_le16_def put_le16_def list_mem_def le16_bytes_def)
  then show ?thesis by simp
qed

lemma get_le32_bytes: "get_le32 (list_mem (le32_bytes v @ bs)) 0 = v"
proof -
  have "get_le32 (list_mem (le32_bytes v @ bs)) 0 = get_le32 (put_le32 (\<lambda>_. 0) 0 v) 0"
    by (simp add: get_le32_def put_le32_def list_mem_def le32_bytes_def)
  then show ?thesis by simp
qed

lemma get_le64_bytes: "get_le64 (list_mem (le64_bytes v @ bs)) 0 = v"
proof -
  have "get_le64 (list_mem (le64_bytes v @ bs)) 0 = get_le64 (put_le64 (\<lambda>_. 0) 0 v) 0"
    by (simp add: get_le64_def get_le32_def put_le64_def put_le32_def list_mem_def le64_bytes_def le32_bytes_def)
  then show ?thesis by simp
qed

text \<open>The bytes \<open>bs\<close> are in the readable part of the chain, from \<open>off\<close> on.\<close>

definition message_at :: "'z VIRTIODevice_scheme \<Rightarrow> VIRTIODesc list \<Rightarrow> nat \<Rightarrow> u8 list \<Rightarrow> bool" where
  "message_at s rs off bs \<longleftrightarrow> off + length bs \<le> length (slots s rs) \<and>
     map (v_ram s) (take (length bs) (drop off (slots s rs))) = bs"

lemma message_append:
  assumes "message_at s rs off (bs @ cs)"
  shows "message_at s rs off bs" "message_at s rs (off + length bs) cs"
proof -
  let ?l = "map (v_ram s) (drop off (slots s rs))"
  have l: "length bs + length cs \<le> length ?l" and "take (length bs + length cs) ?l = bs @ cs"
    using assms by (auto simp: message_at_def take_map drop_map)
  then have "take (length bs) ?l @ take (length cs) (drop (length bs) ?l) = bs @ cs" by (simp only: take_add)
  then have "take (length bs) ?l = bs" "take (length cs) (drop (length bs) ?l) = cs"
    using l by (simp_all add: append_eq_append_conv)
  then show "message_at s rs off bs" "message_at s rs (off + length bs) cs"
    using l assms by (simp_all add: message_at_def take_map drop_map add.commute)
qed

lemma take_field_message:
  assumes "request s q i rs ws" "message_at s rs off bs" "length bs \<le> length buf"
  shows "take_field s buf q i (int off) (length bs) = Some (Some (bs @ drop (length bs) buf))"
  using memcpy_from_queue_chain [OF assms(1) _ assms(3), of off] assms(2,3)
  by (simp add: take_field_def message_at_def overlay_front)

fun letter :: "p9_val \<Rightarrow> char" where
  "letter (P9_b v) = CHR ''b''"
| "letter (P9_h v) = CHR ''h''"
| "letter (P9_w v) = CHR ''w''"
| "letter (P9_d v) = CHR ''d''"
| "letter (P9_s v) = CHR ''s''"
| "letter (P9_Q v) = CHR ''Q''"

text \<open>What a request may hold: everything but a \<open>FSQID\<close>; the strings are C strings.\<close>

fun val_plain :: "p9_val \<Rightarrow> bool" where
  "val_plain (P9_s str) \<longleftrightarrow> length str \<le> 65535 \<and> 0 \<notin> set str"
| "val_plain (P9_Q v) \<longleftrightarrow> False"
| "val_plain v \<longleftrightarrow> True"

lemma c_string_plain: "0 \<notin> set str \<Longrightarrow> c_string str = str"
  unfolding c_string_def takeWhile_eq_all_conv by auto

lemma unmarshall1_message:
  assumes "request s q i rs ws" "message_at s rs off (val_bytes v)" "val_plain v" "length buf = 16" "\<And>n. length (fresh n) = n"
  shows "\<exists>buf'. unmarshall1 fresh s q i (letter v) (int off) buf = Some (Some (v, int (off + length (val_bytes v)), buf')) \<and> length buf' = 16"
proof (cases v)
  case (P9_s str)
  have m: "message_at s rs off (le16_bytes (of_nat (length str)))" "message_at s rs (off + 2) str"
    using message_append [of s rs off "le16_bytes (of_nat (length str))" str] assms(2) P9_s by simp_all
  have len: "unat (of_nat (length str) :: u16) = length str" using assms(3) P9_s by (simp add: unat_of_nat)
  then have "uint (of_nat (length str) :: u16) = int (length str)" by (simp only: uint_nat)
  note len = len this
  show ?thesis
    using take_field_message [OF assms(1) m(1), of buf] take_field_message [OF assms(1) m(2), of "fresh (length str + 1)"]
      assms(3-) P9_s len
    by (simp add: unmarshall1_def get_le16_bytes c_string_plain Let_def add.commute)
qed (use take_field_message [OF assms(1,2), of buf] assms(3-) in
    \<open>auto simp: unmarshall1_def get_le16_bytes get_le32_bytes get_le64_bytes\<close>)

lemma unmarshall_loop_message:
  assumes "request s q i rs ws" "\<And>n. length (fresh n) = n"
  shows "message_at s rs off (concat (map val_bytes vs)) \<Longrightarrow> list_all val_plain vs \<Longrightarrow> length buf = 16 \<Longrightarrow>
    unmarshall_loop fresh s q i (map letter vs) (int off) buf = Some (Some (vs, int (off + length (concat (map val_bytes vs)))))"
proof (induction vs arbitrary: off buf)
  case (Cons v vs)
  have m: "message_at s rs off (val_bytes v)" "message_at s rs (off + length (val_bytes v)) (concat (map val_bytes vs))"
    using message_append [of s rs off "val_bytes v"] Cons.prems(1) by simp_all
  obtain buf' where "unmarshall1 fresh s q i (letter v) (int off) buf = Some (Some (v, int (off + length (val_bytes v)), buf'))" "length buf' = 16"
    using unmarshall1_message [OF assms(1) m(1) _ Cons.prems(3) assms(2)] Cons.prems(2) by auto
  then show ?case using Cons.IH [OF m(2)] Cons.prems(2) by (simp add: add.assoc)
qed simp

text \<open>
  C22. What a driver writes, the device reads: when the readable part of a chain of
  descriptors, however it is cut into pieces, holds the bytes of some values, \<open>unmarshall\<close> with their
  format returns these values and the position behind them.
\<close>

theorem unmarshall_marshall:
  assumes "request s q i rs ws" and "list_all val_plain vs" and "marshall n vs = Some bs" and "message_at s rs off bs"
    and "\<forall>n. length (fresh n) = n"
  shows "unmarshall fresh s q i (int off) (map letter vs) = Some (Some (vs, int (off + length bs)))"
proof -
  have "bs = concat (map val_bytes vs)" using assms(3)
    by (induction n vs arbitrary: bs rule: marshall.induct) (auto split: if_splits)
  then show ?thesis using unmarshall_loop_message [OF assms(1), of fresh off vs "fresh 16"] assms(2,4,5) by (simp add: unmarshall_def)
qed

section \<open>Replies\<close>

lemma same_transport_request:
  assumes "same_transport s t"
  shows "request t q i rs ws = request s q i rs ws" "slots t = slots s" "off_table t q w ws A = off_table s q w ws A"
proof -
  note f = same_transport_fields [OF assms]
  have d: "desc_in t q = desc_in s q" by (simp add: fun_eq_iff desc_in_def f)
  have l: "links t q e ds = links s q e ds" for e ds by (induction ds arbitrary: e) (simp_all add: d)
  have g: "seg_ok t = seg_ok s" "slots t = slots s" by (simp_all add: fun_eq_iff seg_ok_def slots_def seg_ptr_def f)
  then show "request t q i rs ws = request s q i rs ws" by (simp add: request_def chain_def d l)
  show "slots t = slots s" by (rule g)
  show "off_table t q w ws A = off_table s q w ws A" by (induction ws arbitrary: w) (simp_all add: entry_addrs_def f)
qed

text \<open>The frame of a reply: its length, its number and the tag of the request.\<close>

definition frame :: "u8 \<Rightarrow> u16 \<Rightarrow> u8 list \<Rightarrow> u8 list" where
  "frame rid tag buf = le32_bytes (of_nat (length buf + 7)) @ [rid + 1] @ le16_bytes tag @ buf"

lemma length_frame [simp]: "length (frame rid tag buf) = length buf + 7"
  by (simp add: frame_def)

lemma send_reply_frame:
  assumes "request s 0 i rs (w # ws)" "off_table s 0 w ws (set (slots s (w # ws)))" "length buf + 7 \<le> length (slots s (w # ws))"
  shows "virtio_9p_send_reply s \<lparr>oi_queue_idx = 0, oi_desc_idx = i, oi_tag = tag\<rparr> rid buf =
    Some (virtio_consume_desc (s\<lparr>v_ram := poke (take (length buf + 7) (slots s (w # ws))) (frame rid tag buf) (v_ram s)\<rparr>) 0 i
      (of_nat (length buf + 7)))"
proof -
  have "length (slots s (w # ws)) < 2 ^ 31" using assms(1) by (simp add: request_def del: slots_simps)
  moreover have "memcpy_to_queue s 0 i 0 (frame rid tag buf) (int (length buf + 7)) =
      Some (0, s\<lparr>v_ram := poke (take (length buf + 7) (slots s (w # ws))) (frame rid tag buf) (v_ram s)\<rparr>)"
    using memcpy_to_queue_chain [OF assms(1,2), of 0 "frame rid tag buf"] assms(3) by simp
  ultimately show ?thesis
    using assms(3) by (simp add: virtio_9p_send_reply_def Let_def frame_def del: slots_simps)
qed

text \<open>A chain with a header is dispatched.\<close>

lemma recv_dispatch:
  assumes "request s 0 i rs ws" "\<not> p9_req_in_progress s" "message_at s rs 0 (le32_bytes len @ [op] @ le16_bytes tag)"
    "length (p9_fresh env 1024) = 1024"
  shows "virtio_9p_recv_request fsd env s 0 i r wr =
    map_option (\<lambda>s. (0, s)) (p9_dispatch op fsd env \<lparr>oi_queue_idx = 0, oi_desc_idx = i, oi_tag = tag\<rparr> 7 s)"
proof -
  let ?h = "le32_bytes len @ [op] @ le16_bytes tag"
  let ?b = "?h @ drop 7 (p9_fresh env 1024)"
  have "memcpy_from_queue s (p9_fresh env 1024) 0 i 0 7 = Some (0, ?b)"
    using memcpy_from_queue_chain [OF assms(1), of 0 7 "p9_fresh env 1024"] assms(3,4) by (simp add: message_at_def overlay_front)
  moreover have "?b ! 4 = op" by (simp add: le32_bytes_def)
  moreover have "get_le16 (list_mem ?b) 5 = tag"
  proof -
    have "get_le16 (list_mem ?b) 5 = get_le16 (list_mem (le16_bytes tag)) 0"
      by (simp add: get_le16_def list_mem_def le32_bytes_def le16_bytes_def)
    then show ?thesis using get_le16_bytes [of tag "[]"] by simp
  qed
  ultimately show ?thesis using assms(2) by (simp add: virtio_9p_recv_request_def)
qed


section \<open>What a device keeps behind the transport\<close>

text \<open>
  A property of the state behind the transport that serving a request keeps is kept by everything a
  driver does.
\<close>

locale virtio_payload =
  fixes recv :: "'z VIRTIODevice_scheme device_recv" and P :: "'z \<Rightarrow> bool"
  assumes recv_payload: "recv s q i r w = Some (x, s') \<Longrightarrow> P (VIRTIODevice.more s) \<Longrightarrow> P (VIRTIODevice.more s')"
begin

lemma notify_payload:
  assumes "notify_loop recv q avail s = Some s'"
  shows "P (VIRTIODevice.more s) \<longrightarrow> P (VIRTIODevice.more s')"
proof -
  have "notify_loop r q avail s = Some s' \<Longrightarrow> r = recv \<longrightarrow> P (VIRTIODevice.more s) \<longrightarrow> P (VIRTIODevice.more s')" for r
  proof (rule notify_loop.raw_induct [where P = "\<lambda>r q avail s s'. r = recv \<longrightarrow> P (VIRTIODevice.more s) \<longrightarrow> P (VIRTIODevice.more s')"])
    fix loop :: "'z VIRTIODevice_scheme device_recv \<Rightarrow> nat \<Rightarrow> u16 \<Rightarrow> 'z VIRTIODevice_scheme \<Rightarrow> 'z VIRTIODevice_scheme option"
      and r q avail s s'
    assume IH: "\<And>r q avail s s'. loop r q avail s = Some s' \<Longrightarrow> r = recv \<longrightarrow> P (VIRTIODevice.more s) \<longrightarrow> P (VIRTIODevice.more s')"
      and run: "(if last_avail_idx (v_queue s q) = avail then Some s
        else let i = next_avail s q in Option.bind (get_desc_rw_size s q i) (\<lambda>sizes.
           case sizes of
             None \<Rightarrow> loop r q avail (bump_avail q s)
           | Some (read_size, write_size) \<Rightarrow>
               Option.bind (r s q i read_size write_size) (\<lambda>(x, s).
               if x < 0 then Some s else loop r q avail (bump_avail q s)))) = Some s'"
    have more: "VIRTIODevice.more (bump_avail q s) = VIRTIODevice.more s" for s :: "'z VIRTIODevice_scheme"
      by (simp add: bump_avail_def update_queue_def)
    show "r = recv \<longrightarrow> P (VIRTIODevice.more s) \<longrightarrow> P (VIRTIODevice.more s')"
      using run by (auto simp: Let_def Option.bind_eq_Some_conv more split: if_split_asm option.split_asm dest!: IH)
        (blast dest: recv_payload)+
  qed
  then show ?thesis using assms by blast
qed

lemma queue_notify_payload:
  "queue_notify recv q s = Some s' \<Longrightarrow> P (VIRTIODevice.more s) \<Longrightarrow> P (VIRTIODevice.more s')"
  using notify_payload by (auto simp: queue_notify_def split: if_split_asm)

lemma config_write_payload: "VIRTIODevice.more (virtio_config_write id s off v sz) = VIRTIODevice.more s"
  by (simp add: virtio_config_write_def)

lemma register_payload:
  "VIRTIODevice.more (update_selected f s) = VIRTIODevice.more s" "VIRTIODevice.more (set_queue_num v s) = VIRTIODevice.more s"
  "VIRTIODevice.more (write_status v s) = VIRTIODevice.more s" "VIRTIODevice.more (interrupt_ack v s) = VIRTIODevice.more s"
  by (simp_all add: update_selected_def update_queue_def set_queue_num_def write_status_def virtio_reset_eq virtio_set_irq_def
      interrupt_ack_def Let_def)

lemma mmio_write_payload:
  assumes "virtio_mmio_write recv id s off v sz = Some s'" "P (VIRTIODevice.more s)"
  shows "P (VIRTIODevice.more s')"
  using assms queue_notify_payload [OF _ assms(2)] unfolding virtio_mmio_write_def
  by (auto simp: register_payload config_write_payload split: if_split_asm)

lemma pci_write_payload:
  assumes "virtio_pci_write recv id s off v sz = Some s'" "P (VIRTIODevice.more s)"
  shows "P (VIRTIODevice.more s')"
  using assms queue_notify_payload [OF _ assms(2)] unfolding virtio_pci_write_def Let_def
  by (auto simp: register_payload config_write_payload split: if_split_asm)

lemma pci_read_payload: "virtio_pci_read s off sz = Some (v, s') \<Longrightarrow> VIRTIODevice.more s' = VIRTIODevice.more s"
  unfolding virtio_pci_read_def Let_def by (auto simp: virtio_set_irq_def split: if_split_asm)

end

section \<open>The table of files\<close>

text \<open>What happens to the device: accesses of the driver, and files that are open at last.\<close>

datatype p9_op =
  Mmio u32 u32 nat
| Pci_in u32 nat
| Pci_out u32 u32 nat
| Driver_memory host_mem
| Opened FSQID int P9OpenInfo

fun p9_step ::
  "('w, 'f) FSDevice \<Rightarrow> p9_env \<Rightarrow> p9_op \<Rightarrow> ('w, 'f, 'z) VIRTIO9PDevice_scheme \<Rightarrow> ('w, 'f, 'z) VIRTIO9PDevice_scheme option" where
  "p9_step fsd env (Mmio off v sz) s = virtio_mmio_write (virtio_9p_recv_request fsd env) id s off v sz"
| "p9_step fsd env (Pci_in off sz) s = map_option snd (virtio_pci_read s off sz)"
| "p9_step fsd env (Pci_out off v sz) s = virtio_pci_write (virtio_9p_recv_request fsd env) id s off v sz"
| "p9_step fsd env (Driver_memory m) s = Some (s\<lparr>v_ram := m\<rparr>)"
| "p9_step fsd env (Opened qid err oi) s = virtio_9p_open_cb fsd env s qid err oi"

fun p9_run ::
  "('w, 'f) FSDevice \<Rightarrow> p9_env \<Rightarrow> p9_op list \<Rightarrow> ('w, 'f, 'z) VIRTIO9PDevice_scheme \<Rightarrow> ('w, 'f, 'z) VIRTIO9PDevice_scheme option" where
  "p9_run fsd env [] s = Some s"
| "p9_run fsd env (x # xs) s = Option.bind (p9_step fsd env x s) (p9_run fsd env xs)"

text \<open>\<open>fids_ok\<close> as a property of what is behind the transport.\<close>

definition fids_payload :: "('w, 'f, 'z) VIRTIO9PDevice_ext \<Rightarrow> bool" where
  "fids_payload e \<longleftrightarrow> (\<forall>s. VIRTIODevice.more s = e \<longrightarrow> fids_ok s)"

lemma fids_payload_iff: "fids_payload (VIRTIODevice.more s) = fids_ok s"
  by (auto simp: fids_payload_def fids_ok_def dest: more_fields(1))

interpretation fids: virtio_payload "virtio_9p_recv_request fsd env" fids_payload for fsd env
  by unfold_locales (auto simp: fids_payload_iff dest: recv_keeps)

lemma open_reply_keeps:
  assumes "virtio_9p_open_reply s qid err oi = Some s'"
  shows "serves s s' \<and> (fids_ok s \<longrightarrow> fids_ok s')"
  using replies_keeps [OF open_reply_replies [OF assms changed_simps(1)]] by blast

lemma open_cb_keeps:
  assumes "virtio_9p_open_cb fsd env s qid err oi = Some s'" "virtio_ok s" "fids_ok s"
  shows "virtio_ok s' \<and> fids_ok s'"
proof -
  obtain t where t: "virtio_9p_open_reply s qid err oi = Some t"
    "queue_notify (virtio_9p_recv_request fsd env) (oi_queue_idx oi) (t\<lparr>p9_req_in_progress := False\<rparr>) = Some s'"
    using assms(1) by (auto simp: virtio_9p_open_cb_def Option.bind_eq_Some_conv)
  have "virtio_ok (t\<lparr>p9_req_in_progress := False\<rparr>)" "fids_ok (t\<lparr>p9_req_in_progress := False\<rparr>)"
    using open_reply_keeps [OF t(1)] serves_ok [of s t] assms(2,3)
    by (simp_all add: virtio_ok_def irq_ok_def irq_level_def fids_ok_def)
  then show ?thesis
    using p9.queue_notify_keeps [OF t(2)] fids.queue_notify_payload [OF t(2)] by (simp add: fids_payload_iff)
qed

lemma p9_step_keeps:
  assumes "p9_step fsd env x s = Some s'" "virtio_ok s" "fids_ok s"
  shows "virtio_ok s' \<and> fids_ok s'"
proof (cases x)
  case (Mmio off v sz)
  then show ?thesis using assms p9.mmio_write_keeps fids.mmio_write_payload by (fastforce simp: fids_payload_iff)
next
  case (Pci_in off sz)
  then obtain v where v: "virtio_pci_read s off sz = Some (v, s')" using assms(1) by auto
  have "fids_payload (VIRTIODevice.more s')" using fids.pci_read_payload [OF v] assms(3) by (simp add: fids_payload_iff)
  then show ?thesis using p9.pci_read_keeps [OF v assms(2)] by (simp add: fids_payload_iff)
next
  case (Pci_out off v sz)
  then show ?thesis using assms p9.pci_write_keeps fids.pci_write_payload by (fastforce simp: fids_payload_iff)
next
  case (Driver_memory m)
  then show ?thesis using assms by (auto simp: virtio_ok_def irq_ok_def irq_level_def fids_ok_def)
next
  case (Opened qid err oi)
  then show ?thesis using assms(1) open_cb_keeps [OF _ assms(2,3)] by simp
qed

lemma p9_run_keeps: "p9_run fsd env xs s = Some s' \<Longrightarrow> virtio_ok s \<Longrightarrow> fids_ok s \<Longrightarrow> virtio_ok s' \<and> fids_ok s'"
  by (induction xs arbitrary: s) (auto simp: Option.bind_eq_Some_conv dest!: p9_step_keeps)

lemma p9_init_ok:
  assumes "2 \<le> length tag" "length tag \<le> 254"
  shows "virtio_ok (virtio_9p_init mm mem fs0 tag)" "fids_ok (virtio_9p_init mm mem fs0 tag)"
proof -
  have "unat (of_nat (2 + length tag) :: u32) = 2 + length tag" using assms by (simp only: unat_of_nat) simp
  then have "4 \<le> (of_nat (2 + length tag) :: u32)" "(of_nat (2 + length tag) :: u32) \<le> 256"
    using assms by (simp_all add: word_le_nat_alt)
  then show "virtio_ok (virtio_9p_init mm mem fs0 tag)"
    by (simp only: virtio_9p_init_def Let_def extend_ok init_updates_ok virtio_init_ok)
  show "fids_ok (virtio_9p_init mm mem fs0 tag)" by (simp add: virtio_9p_init_def Let_def fids_ok_def VIRTIODevice.defs)
qed

text \<open>
  C21. The table of open files is a map from file numbers to files.  Whatever a driver does with a 9p device
  and whenever the file system finishes opening files, no number has two entries, so that opening
  and closing files updates the map, and the registers stay consistent.
\<close>

theorem p9_files_map:
  assumes "2 \<le> length tag" and "length tag \<le> 254" and "p9_run fsd env ops (virtio_9p_init mm mem fs0 tag) = Some s"
  shows "virtio_ok s \<and> distinct (map fst (fid_list s)) \<and>
    fid_find (fid_set fsd s fid f) = (fid_find s)(fid \<mapsto> f) \<and> fid_find (fid_delete fsd s fid) = (fid_find s)(fid := None)"
proof -
  have "virtio_ok s" "fids_ok s"
    using p9_run_keeps [OF assms(3) p9_init_ok(1) [OF assms(1,2)] p9_init_ok(2) [OF assms(1,2)]] by simp_all
  then show ?thesis by (simp add: fid_find_set fid_find_delete) (simp add: fids_ok_def)
qed

section \<open>Replies that are wrong\<close>

lemma getlock_update: "fs_getlock (fsd\<lparr>fs_getlock := g\<rparr>) = g"
  by simp

lemma case_middle:
  "(case (case x of (a, _, c) \<Rightarrow> (a, h c, c)) of (a, b, c) \<Rightarrow> g a c) = (case x of (a, b, c) \<Rightarrow> g a c)"
  by (cases x) simp


text \<open>More than 78 names in a \<open>walk\<close> do not fit the buffer of the reply, and an assertion fails.\<close>

lemma marshall_qids: "length qids * 13 > n \<Longrightarrow> marshall n (map P9_Q qids) = None"
proof (induction qids arbitrary: n)
  case (Cons q qids)
  then show ?case using Cons.IH [of "n - 13"] by (auto simp: le32_bytes_def le64_bytes_def)
qed simp


section \<open>A concrete device\<close>

text \<open>
  A device in the machine of the virtio examples.  Its memory holds a chain with a request of the
  bytes \<open>bs\<close> and 64 bytes for the reply.  Its file system has one file, the root, and no state.
\<close>

definition p9x_ram :: "u8 list \<Rightarrow> host_mem" where
  "p9x_ram bs = copy_bytes 0x100000 (desc_bytes (vx_read (of_nat (length bs))))
     (copy_bytes 0x100010 (desc_bytes (vx_write 64)) (copy_bytes 0x100400 bs (\<lambda>_. 0)))"

definition p9x_device :: "host_mem \<Rightarrow> (unit, unit) VIRTIO9PDevice" where
  "p9x_device m = (virtio_9p_init vx_map m () (map of_char ''root''))\<lparr>v_queue := (\<lambda>_. vx_queue)\<rparr>"

lemma p9x_simps [simp]:
  "v_map (p9x_device m) = vx_map" "v_ram (p9x_device m) = m" "v_queue (p9x_device m) = (\<lambda>_. vx_queue)"
  "p9_req_in_progress (p9x_device m) = False" "fid_list (p9x_device m) = []"
  by (simp_all add: p9x_device_def virtio_9p_init_def VIRTIODevice.defs virtio_init_def virtio_reset_eq Let_def)

lemma p9x_slots:
  "slots (p9x_device m) [vx_read n] = addrs 0x100400 (unat n)" "slots (p9x_device m) [vx_write n] = addrs 0x101000 (unat n)"
  by (simp_all add: seg_ptr_def vx_read_def vx_write_def vx_ptr_numeral)

lemma p9x_posted:
  assumes "0 < length bs" "length bs \<le> 0x800"
  shows "request (p9x_device (p9x_ram bs)) q 0 [vx_read (of_nat (length bs))] [vx_write 64]"
    and "message_at (p9x_device (p9x_ram bs)) [vx_read (of_nat (length bs))] 0 bs"
proof -
  let ?s = "p9x_device (p9x_ram bs)" and ?r = "vx_read (of_nat (length bs))" and ?w = "vx_write 64"
  let ?m2 = "copy_bytes 0x100400 bs (\<lambda>_. 0)"
  let ?m1 = "copy_bytes 0x100010 (desc_bytes ?w) ?m2"
  have len: "length (desc_bytes d) = 16" for d by (rule length_desc_bytes)
  have rl: "unat (of_nat (length bs) :: u32) = length bs" using assms(2) by (simp add: unat_of_nat)
  have "desc_at (p9x_ram bs) 0x100000 = ?r"
    unfolding p9x_ram_def by (rule desc_at_bytes) (use copy_bytes_read [of "desc_bytes ?r"] len in simp)
  moreover have "desc_at (p9x_ram bs) 0x100010 = ?w"
  proof (rule desc_at_bytes)
    have "map (p9x_ram bs) (addrs 0x100010 16) = map ?m1 (addrs 0x100010 16)"
      unfolding p9x_ram_def using copy_bytes_skip [of "desc_bytes ?r" 16 16 "0x100000"] len by simp
    also have "\<dots> = desc_bytes ?w" using copy_bytes_read [of "desc_bytes ?w"] len by simp
    finally show "map (p9x_ram bs) (addrs 0x100010 16) = desc_bytes ?w" .
  qed
  ultimately have d: "desc_in ?s q 0 ?r" "desc_in ?s q 1 ?w" using vx_desc_in [of ?s q] by simp_all
  have flags: "has_next ?r" "\<not> is_write ?r" "\<not> has_next ?w" "is_write ?w" "vd_next ?r = 1"
    by (simp_all add: has_next_def is_write_def vx_read_def vx_write_def)
  have "seg_ok ?s ?r" "seg_ok ?s ?w"
    using rl assms(2) vx_linear_numeral(4,5) by (simp_all add: seg_ok_def seg_ptr_def vx_read_def vx_write_def vx_ptr_numeral)
  moreover have "chain ?s q 0 ([?r] @ [?w])" using d flags by (auto simp: chain_def)
  ultimately show "request ?s q 0 [?r] [?w]" using flags rl assms(2) unfolding request_def p9x_slots by simp
  have "map (p9x_ram bs) (addrs 0x100400 (length bs)) = map ?m1 (addrs 0x100400 (length bs))"
    unfolding p9x_ram_def using copy_bytes_skip [of "desc_bytes ?r" "0x400" "length bs" "0x100000"] len assms(2) by simp
  also have "\<dots> = map ?m2 (addrs 0x100400 (length bs))"
    using copy_bytes_skip [of "desc_bytes ?w" "0x3f0" "length bs" "0x100010"] len assms(2) by simp
  also have "\<dots> = bs" using copy_bytes_read [of bs] assms(2) by simp
  finally show "message_at ?s [?r] 0 bs" unfolding message_at_def p9x_slots rl by simp
qed

definition p9x_env :: p9_env where
  "p9x_env = \<lparr>p9_fresh = (\<lambda>n. replicate n 0), arg_upper = 0, lock_flags_init = 0, lock_addr = 0, client_id_ptr = []\<rparr>"

text \<open>The file system: the root directory can be opened and walked to, everything else is not permitted.\<close>

definition root_qid :: FSQID where
  "root_qid = \<lparr>qid_type = 0x80, qid_version = 0, qid_path = 1\<rparr>"

definition p9x_fs :: "(unit, unit) FSDevice" where
  "p9x_fs = \<lparr>
     fs_delete = (\<lambda>_ w. w),
     fs_statfs = (\<lambda>w. (\<lparr>f_bsize = 4096, f_blocks = 1, f_bfree = 0, f_bavail = 0, f_files = 1, f_ffree = 0\<rparr>, w)),
     fs_attach = (\<lambda>_ _ _ w. (0, (), root_qid, w)),
     fs_walk = (\<lambda>_ names w. (if names = [] then 0 else - 2, (), [], w)),
     fs_mkdir = (\<lambda>_ _ _ _ w. (- 1, root_qid, w)),
     fs_open = (\<lambda>_ _ _ w. (0, root_qid, w)),
     fs_create = (\<lambda>_ _ _ _ _ w. (- 1, root_qid, w)),
     fs_stat = (\<lambda>_ w. (0, \<lparr>st_qid = root_qid, st_mode = 0x41ed, st_uid = 0, st_gid = 0, st_nlink = 1, st_rdev = 0, st_size = 0,
        st_blksize = 4096, st_blocks = 0, st_atime_sec = 0, st_atime_nsec = 0, st_mtime_sec = 0, st_mtime_nsec = 0,
        st_ctime_sec = 0, st_ctime_nsec = 0\<rparr>, w)),
     fs_setattr = (\<lambda>_ _ _ _ _ _ _ _ _ _ w. (- 1, w)),
     fs_readdir = (\<lambda>_ _ _ w. (0, [], w)),
     fs_read = (\<lambda>_ _ _ w. (- 1, [], w)),
     fs_write = (\<lambda>_ _ _ _ w. (- 1, w)),
     fs_link = (\<lambda>_ _ _ w. (- 1, w)),
     fs_symlink = (\<lambda>_ _ _ _ w. (- 1, root_qid, w)),
     fs_mknod = (\<lambda>_ _ _ _ _ _ w. (- 1, root_qid, w)),
     fs_readlink = (\<lambda>_ _ w. (- 1, [], w)),
     fs_renameat = (\<lambda>_ _ _ _ w. (- 1, w)),
     fs_unlinkat = (\<lambda>_ _ w. (- 1, w)),
     fs_lock = (\<lambda>_ _ w. (0, w)),
     fs_getlock = (\<lambda>_ l w. (0, l, w))\<rparr>"

theorem unmarshall_marshall_witness:
  "\<exists>bs. unmarshall (\<lambda>n. replicate n 0) (p9x_device (p9x_ram bs)) 0 0 0 ''ws'' = Some (Some ([P9_w 5, P9_s [97, 98]], 8)) \<and> length bs = 8"
proof -
  let ?vs = "[P9_w 5, P9_s [97, 98]]"
  obtain bs where bs: "marshall 8 ?vs = Some bs" "length bs = 8" by simp
  have "request (p9x_device (p9x_ram bs)) 0 0 [vx_read (of_nat (length bs))] [vx_write 64]"
    "message_at (p9x_device (p9x_ram bs)) [vx_read (of_nat (length bs))] 0 bs" by (rule p9x_posted; simp add: bs)+
  from unmarshall_marshall [OF this(1) _ bs(1) this(2), where fresh = "\<lambda>n. replicate n 0"] show ?thesis using bs(2) by auto
qed


theorem p9_files_map_witness:
  "\<exists>s. p9_run p9x_fs p9x_env [Mmio 0x70 0 2, Driver_memory (\<lambda>_. 1)] (virtio_9p_init vx_map (\<lambda>_. 0) () (map of_char ''root'')) = Some s \<and>
     fid_find (fid_set p9x_fs s 3 ()) = (fid_find s)(3 \<mapsto> ())"
proof -
  obtain s where s: "p9_run p9x_fs p9x_env [Mmio 0x70 0 2, Driver_memory (\<lambda>_. 1)] (virtio_9p_init vx_map (\<lambda>_. 0) () (map of_char ''root'')) = Some s"
    by (simp add: virtio_mmio_write_def)
  with p9_files_map [OF _ _ s] show ?thesis by simp
qed

end
