(* ===== verification/Pci.thy ===== *)
theory Pci
  imports Virtio
begin

text \<open>
  The PCI bus with the i440FX host bridge (\<open>src/pci.cpp\<close>) and the registration of a virtio device on it
  (\<open>virtio_init\<close> of \<open>src/virtio.cpp\<close>).  The board of this simulator has no PCI bus.

  The callback \<open>bar_set\<close> of the regions is an argument: it gets the device, the number of the region, the
  address and whether it is enabled, and changes \<open>bus_mem\<close>, what the devices are mapped into.
  \<open>None\<close> is a failed assertion or an access out of bounds.
\<close>

section \<open>State\<close>

abbreviation (input) PCI_ADDRESS_SPACE_MEM :: u8 where "PCI_ADDRESS_SPACE_MEM \<equiv> 0"
abbreviation (input) PCI_ADDRESS_SPACE_IO :: u8 where "PCI_ADDRESS_SPACE_IO \<equiv> 1"
abbreviation (input) PCI_ROM_SLOT :: nat where "PCI_ROM_SLOT \<equiv> 6"
abbreviation (input) PCI_NUM_REGIONS :: nat where "PCI_NUM_REGIONS \<equiv> 7"
abbreviation (input) PCI_COMMAND :: u64 where "PCI_COMMAND \<equiv> 0x04"
abbreviation (input) PCI_COMMAND_IO :: u16 where "PCI_COMMAND_IO \<equiv> 1"
abbreviation (input) PCI_COMMAND_MEMORY :: u16 where "PCI_COMMAND_MEMORY \<equiv> 2"
abbreviation (input) PCI_STATUS :: u64 where "PCI_STATUS \<equiv> 0x06"
abbreviation (input) PCI_STATUS_CAP_LIST :: u8 where "PCI_STATUS_CAP_LIST \<equiv> 0x10"
abbreviation (input) PCI_CAPABILITY_LIST :: u64 where "PCI_CAPABILITY_LIST \<equiv> 0x34"
abbreviation (input) PCI_INTERRUPT_LINE :: u64 where "PCI_INTERRUPT_LINE \<equiv> 0x3c"
abbreviation (input) PCI_INTERRUPT_PIN :: u64 where "PCI_INTERRUPT_PIN \<equiv> 0x3d"

record PCIIORegion =
  rg_size :: u32
  rg_type :: u8
  rg_enabled :: bool

text \<open>The configuration space starts at position 0.\<close>

record PCIDevice =
  pd_devfn :: nat
  pd_config :: host_mem
  next_cap_offset :: u8
  io_regions :: "PCIIORegion list"

record 'm PCIBus =
  bus_num :: u32
  pci_device :: "nat \<Rightarrow> PCIDevice option"
  irq_state :: "nat \<Rightarrow> nat \<Rightarrow> u32"
  bus_mem :: 'm

type_synonym 'm bar_set = "nat \<Rightarrow> nat \<Rightarrow> u32 \<Rightarrow> bool \<Rightarrow> 'm \<Rightarrow> 'm"

definition update_device :: "nat \<Rightarrow> PCIDevice \<Rightarrow> 'm PCIBus \<Rightarrow> 'm PCIBus" where
  "update_device devfn d b = b\<lparr>pci_device := (pci_device b)(devfn \<mapsto> d)\<rparr>"

section \<open>Interrupts\<close>

definition bus_map_irq :: "nat \<Rightarrow> nat \<Rightarrow> nat" where
  "bus_map_irq devfn irq_num = nat ((int irq_num + (int (devfn div 8) - 1)) mod 4)"

text \<open>The new state, and the line of the bus that is set and its level.\<close>

definition pci_device_set_irq :: "'m PCIBus \<Rightarrow> nat \<Rightarrow> nat \<Rightarrow> bool \<Rightarrow> 'm PCIBus \<times> nat \<times> bool" where
  "pci_device_set_irq b devfn irq_num level =
     (let n = bus_map_irq devfn irq_num;
          m = push_bit (devfn mod 32) 1;
          row = irq_state b n;
          row = row(devfn div 32 := if level then row (devfn div 32) OR m else row (devfn div 32) AND NOT m);
          msk = fold (\<lambda>i msk. msk OR row i) [0..<8] 0
      in (b\<lparr>irq_state := (irq_state b)(n := row)\<rparr>, n, msk \<noteq> 0))"

section \<open>Registration\<close>

fun first_free :: "(nat \<Rightarrow> PCIDevice option) \<Rightarrow> nat list \<Rightarrow> nat option" where
  "first_free device [] = None"
| "first_free device (n # ns) = (if device n = None then Some n else first_free device ns)"

definition devfn_alloc :: "'m PCIBus \<Rightarrow> nat option" where
  "devfn_alloc b = first_free (pci_device b) (map (\<lambda>i. 8 * i) [0..<32])"

definition new_device :: "nat \<Rightarrow> u16 \<Rightarrow> u16 \<Rightarrow> u8 \<Rightarrow> u16 \<Rightarrow> PCIDevice" where
  "new_device devfn vendor dev revision class_id =
     \<lparr>pd_devfn = devfn,
      pd_config = (put_le16 ((put_le16 (put_le16 (\<lambda>_. 0) 0 vendor) 2 dev)(8 := revision)) 0x0a class_id)(0x0e := 0),
      next_cap_offset = 0x40,
      io_regions = replicate PCI_NUM_REGIONS \<lparr>rg_size = 0, rg_type = 0, rg_enabled = False\<rparr>\<rparr>"

text \<open>Without a \<open>devfn\<close> one is allocated; \<open>None\<close> is the result \<open>NULL\<close>.\<close>

definition pci_register_device ::
  "'m PCIBus \<Rightarrow> nat option \<Rightarrow> u16 \<Rightarrow> u16 \<Rightarrow> u8 \<Rightarrow> u16 \<Rightarrow> (nat \<times> 'm PCIBus) option" where
  "pci_register_device b devfn vendor dev revision class_id =
     Option.bind (case devfn of None \<Rightarrow> devfn_alloc b | Some n \<Rightarrow> Some n) (\<lambda>devfn.
     if pci_device b devfn \<noteq> None then None
     else Some (devfn, update_device devfn (new_device devfn vendor dev revision class_id) b))"

definition bar_offset :: "nat \<Rightarrow> u64" where
  "bar_offset i = (if i = PCI_ROM_SLOT then 0x30 else 0x10 + 4 * of_nat i)"

definition pci_register_bar :: "PCIDevice \<Rightarrow> nat \<Rightarrow> u32 \<Rightarrow> u8 \<Rightarrow> PCIDevice option" where
  "pci_register_bar d bar_num sz type =
     (if bar_num < PCI_NUM_REGIONS \<and> sz AND (sz - 1) = 0 \<and> 4 \<le> sz \<and> rg_size (io_regions d ! bar_num) = 0 then
        Some (d\<lparr>io_regions := (io_regions d)[bar_num := \<lparr>rg_size = sz, rg_type = type, rg_enabled = False\<rparr>],
                pd_config := put_le32 (pd_config d) (bar_offset bar_num)
                  (if bar_num = PCI_ROM_SLOT then 0 else ucast type)\<rparr>)
      else None)"

definition pci_device_set_config8 :: "PCIDevice \<Rightarrow> u8 \<Rightarrow> u8 \<Rightarrow> PCIDevice" where
  "pci_device_set_config8 d addr v = d\<lparr>pd_config := (pd_config d)(ucast addr := v)\<rparr>"

definition pci_device_set_config16 :: "PCIDevice \<Rightarrow> u8 \<Rightarrow> u16 \<Rightarrow> PCIDevice" where
  "pci_device_set_config16 d addr v = d\<lparr>pd_config := put_le16 (pd_config d) (ucast addr) v\<rparr>"

text \<open>The offset of the capability, or -1.  \<open>buf\<close> has at least two bytes.\<close>

definition pci_add_capability :: "PCIDevice \<Rightarrow> u8 list \<Rightarrow> int \<times> PCIDevice" where
  "pci_add_capability d buf =
     (let offset = next_cap_offset d
      in if unat offset + length buf > 256 then (- 1, d)
         else
           let c = pd_config d;
               c = c(PCI_STATUS := c PCI_STATUS OR PCI_STATUS_CAP_LIST);
               c = copy_bytes (ucast offset) buf c;
               c = c(ucast offset + 1 := c PCI_CAPABILITY_LIST);
               c = c(PCI_CAPABILITY_LIST := offset)
           in (uint offset, d\<lparr>next_cap_offset := offset + of_nat (length buf), pd_config := c\<rparr>))"

section \<open>Configuration accesses\<close>

definition pci_device_config_read :: "PCIDevice \<Rightarrow> u32 \<Rightarrow> nat \<Rightarrow> u32 option" where
  "pci_device_config_read d addr size_log2 =
     (if 0xff < addr then None
      else if size_log2 = 0 then Some (ucast (pd_config d (ucast addr)))
      else if size_log2 = 1 then
        Some (if addr \<le> 0xfe then ucast (get_le16 (pd_config d) (ucast addr)) else ucast (pd_config d (ucast addr)))
      else if size_log2 = 2 then
        if 0xfc < addr then None else Some (get_le32 (pd_config d) (ucast addr))
      else None)"

text \<open>One step of the loop of \<open>pci_update_mappings\<close>.\<close>

definition region_enabled :: "u16 \<Rightarrow> nat \<Rightarrow> PCIIORegion \<Rightarrow> u32 \<Rightarrow> bool" where
  "region_enabled cmd i r new_addr =
     (if rg_size r = 0 then False
      else if rg_type r AND PCI_ADDRESS_SPACE_IO \<noteq> 0 \<and> cmd AND PCI_COMMAND_IO \<noteq> 0 then True
      else if cmd AND PCI_COMMAND_MEMORY \<noteq> 0 then (if i = PCI_ROM_SLOT then new_addr AND 1 \<noteq> 0 else True)
      else False)"

definition update_mapping :: "'m bar_set \<Rightarrow> nat \<Rightarrow> PCIDevice \<times> 'm \<Rightarrow> PCIDevice \<times> 'm" where
  "update_mapping bar_set i = (\<lambda>(d, m).
     (let r = io_regions d ! i;
          new_addr = get_le32 (pd_config d) (bar_offset i)
      in if region_enabled (get_le16 (pd_config d) PCI_COMMAND) i r new_addr then
           (d\<lparr>io_regions := (io_regions d)[i := r\<lparr>rg_enabled := True\<rparr>]\<rparr>,
            bar_set (pd_devfn d) i (new_addr AND NOT (rg_size r - 1)) True m)
         else if rg_enabled r then
           (d\<lparr>io_regions := (io_regions d)[i := r\<lparr>rg_enabled := False\<rparr>]\<rparr>, bar_set (pd_devfn d) i 0 False m)
         else (d, m)))"

definition pci_update_mappings :: "'m bar_set \<Rightarrow> PCIDevice \<times> 'm \<Rightarrow> PCIDevice \<times> 'm" where
  "pci_update_mappings bar_set dm = fold (update_mapping bar_set) [0..<PCI_NUM_REGIONS] dm"

text \<open>\<open>None\<close>: the write is not handled.\<close>

definition pci_write_bar :: "'m bar_set \<Rightarrow> u32 \<Rightarrow> u32 \<Rightarrow> PCIDevice \<times> 'm \<Rightarrow> (PCIDevice \<times> 'm) option" where
  "pci_write_bar bar_set addr v = (\<lambda>(d, m).
     (let reg = (if addr = 0x30 then PCI_ROM_SLOT else unat (drop_bit 2 (addr - 0x10)));
          r = io_regions d ! reg
      in if rg_size r = 0 then None
         else
           let v = (if reg = PCI_ROM_SLOT then v AND (NOT (rg_size r - 1) OR 1)
                    else (v AND NOT (rg_size r - 1)) OR ucast (rg_type r))
           in Some (pci_update_mappings bar_set (d\<lparr>pd_config := put_le32 (pd_config d) (ucast addr) v\<rparr>, m))))"

text \<open>The bytes that cannot be written, for an ordinary device and for a bridge.\<close>

definition read_only :: "u8 \<Rightarrow> u64 \<Rightarrow> bool" where
  "read_only header addr =
     (if header = 0x00 \<or> header = 0x80 then
        addr \<le> 0x03 \<or> 0x08 \<le> addr \<and> addr \<le> 0x0b \<or> addr = 0x0e \<or> 0x10 \<le> addr \<and> addr \<le> 0x27 \<or>
        0x30 \<le> addr \<and> addr \<le> 0x33 \<or> addr = 0x3d
      else
        addr \<le> 0x03 \<or> 0x08 \<le> addr \<and> addr \<le> 0x0b \<or> addr = 0x0e \<or> 0x38 \<le> addr \<and> addr \<le> 0x3b \<or> addr = 0x3d)"

definition pci_device_config_write8 :: "u64 \<Rightarrow> u8 \<Rightarrow> PCIDevice \<Rightarrow> PCIDevice" where
  "pci_device_config_write8 addr data d =
     (if addr = PCI_STATUS \<or> addr = PCI_STATUS + 1 then
        d\<lparr>pd_config := (pd_config d)(addr := pd_config d addr AND NOT data)\<rparr>
      else if read_only (pd_config d 0x0e) addr then d
      else d\<lparr>pd_config := (pd_config d)(addr := data)\<rparr>)"

definition config_write_bytes :: "u32 \<Rightarrow> u32 \<Rightarrow> nat \<Rightarrow> PCIDevice \<Rightarrow> PCIDevice" where
  "config_write_bytes addr data n d =
     fold (\<lambda>i d. if addr + of_nat i \<le> 0xff then pci_device_config_write8 (ucast (addr + of_nat i)) (ucast (drop_bit (i * 8) data)) d
                 else d) [0..<n] d"

definition pci_device_config_write :: "'m bar_set \<Rightarrow> u32 \<Rightarrow> u32 \<Rightarrow> nat \<Rightarrow> PCIDevice \<times> 'm \<Rightarrow> PCIDevice \<times> 'm" where
  "pci_device_config_write bar_set addr data size_log2 dm =
     (let bytes =
        (let n = 2 ^ size_log2; dm = (config_write_bytes addr data n (fst dm), snd dm)
         in if addr \<le> 4 \<and> 4 < addr + of_nat n then pci_update_mappings bar_set dm else dm)
      in if size_log2 = 2 \<and> (0x10 \<le> addr \<and> addr < 0x28 \<or> addr = 0x30) then
           (case pci_write_bar bar_set addr data dm of Some dm \<Rightarrow> dm | None \<Rightarrow> bytes)
         else bytes)"

definition bus_field :: "u32 \<Rightarrow> u32" where
  "bus_field addr = drop_bit 16 addr AND 0xff"

definition devfn_field :: "u32 \<Rightarrow> nat" where
  "devfn_field addr = unat (drop_bit 8 addr AND 0xff)"

definition pci_data_write :: "'m bar_set \<Rightarrow> 'm PCIBus \<Rightarrow> u32 \<Rightarrow> u32 \<Rightarrow> nat \<Rightarrow> 'm PCIBus" where
  "pci_data_write bar_set s addr data size_log2 =
     (if bus_field addr \<noteq> bus_num s then s
      else
        case pci_device s (devfn_field addr) of
          None \<Rightarrow> s
        | Some d \<Rightarrow>
            (case pci_device_config_write bar_set (addr AND 0xff) data size_log2 (d, bus_mem s) of
               (d, m) \<Rightarrow> update_device (devfn_field addr) d (s\<lparr>bus_mem := m\<rparr>)))"

definition val_ones :: "nat \<Rightarrow> u32" where
  "val_ones size_log2 = [0xff, 0xffff, 0xffffffff] ! size_log2"

definition pci_data_read :: "'m PCIBus \<Rightarrow> u32 \<Rightarrow> nat \<Rightarrow> u32 option" where
  "pci_data_read s addr size_log2 =
     (if bus_field addr \<noteq> bus_num s then Some (val_ones size_log2)
      else
        case pci_device s (devfn_field addr) of
          None \<Rightarrow> Some (val_ones size_log2)
        | Some d \<Rightarrow> pci_device_config_read d (addr AND 0xff) size_log2)"

definition pci_device_get_dma_ptr :: "PhysMemoryMap \<Rightarrow> u64 \<Rightarrow> u64 option" where
  "pci_device_get_dma_ptr mm addr =
     (case get_phys_mem_range mm addr of
        None \<Rightarrow> None
      | Some i \<Rightarrow> if pr_is_ram (mm ! i) then Some (range_ptr (mm ! i) addr) else None)"

section \<open>The host bridge\<close>

text \<open>\<open>pic_lines\<close> are the calls of \<open>set_irq\<close> for the lines of the interrupt controller, in order.\<close>

abbreviation (input) PIIX3 :: nat where "PIIX3 \<equiv> 8"

record 'm I440FXState =
  fx_bus :: "'m PCIBus"
  config_reg :: u32
  pic_irq_state :: "nat \<Rightarrow> u8"
  pic_lines :: "(nat \<times> bool) list"

definition i440fx_write_addr :: "'m I440FXState \<Rightarrow> u32 \<Rightarrow> 'm I440FXState" where
  "i440fx_write_addr s data = s\<lparr>config_reg := data\<rparr>"

definition i440fx_read_addr :: "'m I440FXState \<Rightarrow> u32" where
  "i440fx_read_addr s = config_reg s"

definition config_address :: "'m I440FXState \<Rightarrow> u32 \<Rightarrow> nat \<Rightarrow> u32" where
  "config_address s offset size_log2 = (if size_log2 = 2 then config_reg s AND NOT 3 else config_reg s OR offset)"

definition i440fx_write_data :: "'m bar_set \<Rightarrow> 'm I440FXState \<Rightarrow> u32 \<Rightarrow> u32 \<Rightarrow> nat \<Rightarrow> 'm I440FXState" where
  "i440fx_write_data bar_set s offset data size_log2 =
     (if config_reg s AND 0x80000000 \<noteq> 0
      then s\<lparr>fx_bus := pci_data_write bar_set (fx_bus s) (config_address s offset size_log2) data size_log2\<rparr> else s)"

definition i440fx_read_data :: "'m I440FXState \<Rightarrow> u32 \<Rightarrow> nat \<Rightarrow> u32 option" where
  "i440fx_read_data s offset size_log2 =
     (if config_reg s AND 0x80000000 = 0 then Some (val_ones size_log2)
      else pci_data_read (fx_bus s) (config_address s offset size_log2) size_log2)"

definition i440fx_set_irq :: "'m I440FXState \<Rightarrow> nat \<Rightarrow> bool \<Rightarrow> 'm I440FXState option" where
  "i440fx_set_irq s irq_num irq_level =
     (case pci_device (fx_bus s) PIIX3 of
        None \<Rightarrow> None
      | Some piix \<Rightarrow>
          let a = 0x60 + of_nat irq_num;
              pic_irq = pd_config piix a AND NOT 0x80;
              s = s\<lparr>fx_bus := update_device PIIX3 (piix\<lparr>pd_config := (pd_config piix)(a := pic_irq)\<rparr>) (fx_bus s)\<rparr>
          in if pic_irq < 16 then
               let k = unat pic_irq; x = pic_irq_state s k;
                   x = (if irq_level then x OR push_bit irq_num 1 else x AND NOT (push_bit irq_num 1))
               in Some (s\<lparr>pic_irq_state := (pic_irq_state s)(k := x), pic_lines := pic_lines s @ [(k, x \<noteq> 0)]\<rparr>)
             else Some s)"

text \<open>An interrupt signal of a device, through the bus.\<close>

definition i440fx_device_irq :: "'m I440FXState \<Rightarrow> nat \<Rightarrow> nat \<Rightarrow> bool \<Rightarrow> 'm I440FXState option" where
  "i440fx_device_irq s devfn irq_num level =
     (case pci_device_set_irq (fx_bus s) devfn irq_num level of
        (b, n, level) \<Rightarrow> i440fx_set_irq (s\<lparr>fx_bus := b\<rparr>) n level)"

definition empty_bus :: "'m \<Rightarrow> 'm PCIBus" where
  "empty_bus m = \<lparr>bus_num = 0, pci_device = (\<lambda>_. None), irq_state = (\<lambda>_ _. 0), bus_mem = m\<rparr>"

text \<open>The two ports are registered in \<open>port_map\<close> with the next free opaque numbers \<open>k\<close> and \<open>k + 1\<close>.\<close>

definition i440fx_init :: "'m \<Rightarrow> PhysMemoryMap \<Rightarrow> nat \<Rightarrow> ('m I440FXState \<times> PhysMemoryMap) option" where
  "i440fx_init m port_map k =
     Option.bind (cpu_register_device port_map 0xcf8 1 k DEVIO_SIZE32) (\<lambda>port_map.
     Option.bind (cpu_register_device port_map 0xcfc 4 (k + 1) (DEVIO_SIZE8 OR DEVIO_SIZE16 OR DEVIO_SIZE32)) (\<lambda>port_map.
     Option.bind (pci_register_device (empty_bus m) (Some 0) 0x8086 0x1237 0x02 0x0600) (\<lambda>(devfn, b).
     let d = the (pci_device b devfn);
         b = update_device devfn (d\<lparr>pd_config := put_le16 (put_le16 (pd_config d) 0x2c 0x1af4) 0x2e 0x1100\<rparr>) b
     in Option.bind (pci_register_device b (Some PIIX3) 0x8086 0x7000 0x00 0x0601) (\<lambda>(devfn, b).
        Some (\<lparr>fx_bus = update_device devfn (pci_device_set_config8 (the (pci_device b devfn)) 0x0e 0x80) b,
               config_reg = 0, pic_irq_state = (\<lambda>_. 0), pic_lines = []\<rparr>, port_map)))))"

text \<open>The routing of the lines and the two bytes \<open>elcr\<close>; \<open>None\<close>: an interrupt number beyond them.\<close>

fun route_lines :: "u8 list \<Rightarrow> nat \<Rightarrow> host_mem \<Rightarrow> u8 list \<Rightarrow> (host_mem \<times> u8 list) option" where
  "route_lines [] i c elcr = Some (c, elcr)"
| "route_lines (irq_num # irqs) i c elcr =
     (let k = unat (drop_bit 3 irq_num)
      in if k < length elcr then
           route_lines irqs (Suc i) (c(0x60 + of_nat i := irq_num))
             (elcr[k := elcr ! k OR push_bit (unat (irq_num AND 7)) 1])
         else None)"

definition set_line :: "host_mem \<Rightarrow> PCIDevice \<Rightarrow> PCIDevice" where
  "set_line hd_config d =
     (if pd_config d PCI_INTERRUPT_PIN \<noteq> 0 then
        let pic_irq = hd_config (0x60 + of_nat (bus_map_irq (pd_devfn d) 0))
        in if pic_irq < 16 then d\<lparr>pd_config := (pd_config d)(PCI_INTERRUPT_LINE := pic_irq)\<rparr> else d
      else d)"

definition i440fx_map_interrupts :: "'m I440FXState \<Rightarrow> u8 list \<Rightarrow> ('m I440FXState \<times> u8 list) option" where
  "i440fx_map_interrupts s pci_irqs =
     (case pci_device (fx_bus s) PIIX3 of
        None \<Rightarrow> None
      | Some piix \<Rightarrow>
          Option.bind (route_lines (take 4 pci_irqs) 0 (pd_config piix) [0, 0]) (\<lambda>(c, elcr).
          let b = update_device PIIX3 (piix\<lparr>pd_config := c\<rparr>) (fx_bus s)
          in Some (s\<lparr>fx_bus := b\<lparr>pci_device := (\<lambda>devfn.
               if devfn < 256 then map_option (set_line c) (pci_device b devfn) else pci_device b devfn)\<rparr>\<rparr>, elcr)))"

section \<open>Virtio devices on the bus\<close>

text \<open>The vendor specific capability; \<open>mult\<close> belongs to the notifications only.\<close>

definition virtio_capability :: "nat \<Rightarrow> nat \<Rightarrow> u32 \<Rightarrow> u32 \<Rightarrow> u32 \<Rightarrow> u8 list" where
  "virtio_capability cfg_type bar offset len mult =
     (let cap_len = (if cfg_type = 2 then 20 else 16)
      in [0x09, 0, of_nat cap_len, of_nat cfg_type, of_nat bar, 0, 0, 0] @ le32_bytes offset @ le32_bytes len
           @ (if cfg_type = 2 then le32_bytes mult else []))"

definition virtio_add_pci_capability :: "nat \<Rightarrow> nat \<Rightarrow> u32 \<Rightarrow> u32 \<Rightarrow> u32 \<Rightarrow> PCIDevice \<Rightarrow> PCIDevice" where
  "virtio_add_pci_capability cfg_type bar offset len mult d = snd (pci_add_capability d (virtio_capability cfg_type bar offset len mult))"

definition virtio_pci_ids :: "u16 \<Rightarrow> (u16 \<times> u16) option" where
  "virtio_pci_ids dev =
     (if dev = 1 then Some (0x1000, 0x0200)
      else if dev = 2 then Some (0x1001, 0x0100)
      else if dev = 3 then Some (0x1003, 0x0780)
      else if dev = 9 then Some (0x1040 + dev, 0x2)
      else if dev = 18 then Some (0x1040 + dev, 0x0980)
      else None)"

text \<open>
  The branch of \<open>virtio_init\<close> for a device with the number \<open>dev\<close> on a PCI bus: the function and range the
  device gets.  The bus is mapped into \<open>bus_mem\<close>, a map of ranges.
\<close>

definition virtio_pci_init :: "PhysMemoryMap PCIBus \<Rightarrow> u16 \<Rightarrow> nat \<Rightarrow> (nat \<times> nat \<times> PhysMemoryMap PCIBus) option" where
  "virtio_pci_init b dev opaque =
     Option.bind (virtio_pci_ids dev) (\<lambda>(pci_device_id, class_id).
     Option.bind (pci_register_device b None 0x1af4 pci_device_id 0 class_id) (\<lambda>(devfn, b).
     let d = the (pci_device b devfn);
         d = pci_device_set_config16 d 0x2c 0x1af4;
         d = pci_device_set_config16 d 0x2e dev;
         d = pci_device_set_config8 d 0x3d 1;
         d = virtio_add_pci_capability 1 4 0x0000 0x1000 0 d;
         d = virtio_add_pci_capability 3 4 0x1000 0x1000 0 d;
         d = virtio_add_pci_capability 4 4 0x2000 0x1000 0 d;
         d = virtio_add_pci_capability 2 4 0x3000 0x1000 0 d
     in Option.bind (cpu_register_device (bus_mem b) 0 0x4000 opaque
          (DEVIO_SIZE8 OR DEVIO_SIZE16 OR DEVIO_SIZE32 OR DEVIO_DISABLED)) (\<lambda>mm.
        map_option (\<lambda>d. (devfn, length (bus_mem b), update_device devfn d (b\<lparr>bus_mem := mm\<rparr>)))
          (pci_register_bar d 4 0x4000 PCI_ADDRESS_SPACE_MEM))))"

text \<open>The callback of a virtio device with the range number \<open>rg devfn\<close>; its range is not RAM.\<close>

definition virtio_pci_bar_set :: "(nat \<Rightarrow> nat) \<Rightarrow> PhysMemoryMap bar_set" where
  "virtio_pci_bar_set rg devfn bar_num addr enabled mm =
     fst (phys_mem_set_addr (\<lambda>_ _ u. u) mm (rg devfn) (ucast addr) enabled ())"

end
