(* ===== verification/Pci_Props.thy ===== *)
theory Pci_Props
  imports Pci
begin

text \<open>Properties of the PCI bus: its interrupt lines, the protected registers, and the lists of capabilities.\<close>

section \<open>Interrupt lines\<close>

text \<open>The levels of the interrupt pins after some changes, the last one of each pin.\<close>

fun pin_level :: "(nat \<times> nat \<times> bool) list \<Rightarrow> nat \<Rightarrow> nat \<Rightarrow> bool" where
  "pin_level [] d p \<longleftrightarrow> False"
| "pin_level ((d', p', l) # ops) d p \<longleftrightarrow> (if d' = d \<and> p' = p then l else pin_level ops d p)"

definition set_pins :: "(nat \<times> nat \<times> bool) list \<Rightarrow> 'm PCIBus \<Rightarrow> 'm PCIBus" where
  "set_pins ops b = foldr (\<lambda>(d, p, l) b. fst (pci_device_set_irq b d p l)) ops b"

lemma bus_map_irq_less [simp]: "bus_map_irq d p < 4"
proof -
  have "(int p + (int (d div 8) - 1)) mod 4 < 4" by simp
  then show ?thesis unfolding bus_map_irq_def by linarith
qed

lemma bus_map_irq_inj:
  assumes "bus_map_irq d p = bus_map_irq d p'" "p < 4" "p' < 4" shows "p = p'"
proof -
  have "(int p + (int (d div 8) - 1)) mod 4 = (int p' + (int (d div 8) - 1)) mod 4"
    using assms(1) unfolding bus_map_irq_def by (simp add: nat_eq_iff2)
  then have "int p mod 4 = int p' mod 4" by (metis add_diff_cancel_right' mod_diff_cong)
  then show ?thesis using assms(2,3) by simp
qed

lemma fold_or: "(fold (\<lambda>i msk. msk OR f i) is x \<noteq> 0) \<longleftrightarrow> x \<noteq> 0 \<or> (\<exists>i \<in> set is. f i \<noteq> (0 :: u32))"
  by (induction "is" arbitrary: x) (auto simp: or_eq_0_iff)

definition irq_bit :: "'m PCIBus \<Rightarrow> nat \<Rightarrow> nat \<Rightarrow> bool" where
  "irq_bit b n d \<longleftrightarrow> bit (irq_state b n (d div 32)) (d mod 32)"

lemma irq_bit_set:
  "irq_bit (fst (pci_device_set_irq b d p l)) n d' \<longleftrightarrow> (if n = bus_map_irq d p \<and> d' = d then l else irq_bit b n d')"
proof -
  have "d' div 32 = d div 32 \<Longrightarrow> d' mod 32 = d mod 32 \<Longrightarrow> d' = d" by (metis div_mult_mod_eq)
  then show ?thesis
    by (auto simp: irq_bit_def pci_device_set_irq_def Let_def bit_or_iff bit_and_iff bit_not_iff bit_push_bit_iff bit_1_iff push_bit_of_1 bit_exp_iff)
qed

lemma line_level:
  "snd (pci_device_set_irq b d p l) = (bus_map_irq d p, \<exists>d' < 256. irq_bit (fst (pci_device_set_irq b d p l)) (bus_map_irq d p) d')"
proof -
  let ?r = "irq_state (fst (pci_device_set_irq b d p l)) (bus_map_irq d p)"
  have "(\<exists>i \<in> set [0..<8]. ?r i \<noteq> 0) \<longleftrightarrow> (\<exists>d' < 256. bit (?r (d' div 32)) (d' mod 32))"
  proof
    assume "\<exists>i \<in> set [0..<8]. ?r i \<noteq> 0"
    then obtain i where i: "i < 8" "?r i \<noteq> 0" by auto
    then obtain k where k: "bit (?r i) k" by (metis bit_eqI bit_0_eq bot_apply bot_bool_def)
    then have "k < 32" using bit_imp_le_length [OF k] by simp
    then have "32 * i + k < 256" "(32 * i + k) div 32 = i" "(32 * i + k) mod 32 = k" using i(1) by simp_all
    then show "\<exists>d' < 256. bit (?r (d' div 32)) (d' mod 32)" using k by metis
  next
    assume "\<exists>d' < 256. bit (?r (d' div 32)) (d' mod 32)"
    then obtain d' where d': "d' < 256" "bit (?r (d' div 32)) (d' mod 32)" by blast
    then have "d' div 32 < 8" "?r (d' div 32) \<noteq> 0" by auto
    then show "\<exists>i \<in> set [0..<8]. ?r i \<noteq> 0" by auto
  qed
  then show ?thesis by (simp add: irq_bit_def pci_device_set_irq_def Let_def fold_or del: upt_rec_numeral)
qed

lemma set_pins_bits:
  assumes "\<forall>(d, p, l) \<in> set ops. p < 4" "irq_state b = (\<lambda>_ _. 0)"
  shows "irq_bit (set_pins ops b) n d \<longleftrightarrow> (\<exists>p < 4. bus_map_irq d p = n \<and> pin_level ops d p)"
  using assms(1)
proof (induction ops)
  case Nil
  then show ?case by (simp add: set_pins_def irq_bit_def assms(2))
next
  case (Cons x ops)
  obtain d' p' l where x: "x = (d', p', l)" by (cases x)
  have p': "p' < 4" and IH: "irq_bit (set_pins ops b) n d \<longleftrightarrow> (\<exists>p < 4. bus_map_irq d p = n \<and> pin_level ops d p)"
    using Cons x by auto
  have s: "set_pins (x # ops) b = fst (pci_device_set_irq (set_pins ops b) d' p' l)" by (simp add: set_pins_def x)
  show ?case unfolding s irq_bit_set using IH p' bus_map_irq_inj by (auto simp: x)
qed

text \<open>
  C33. The interrupt pins of the devices share the four lines of the bus: after any changes of the
  pins (the latest first), setting a pin sets the line it is routed to, to the disjunction of the levels of
  all pins of all devices that are routed to this line.
\<close>

theorem pci_irq_wired_or:
  assumes "\<forall>(d, p, l) \<in> set ops. p < 4" and "p < 4" and "irq_state b = (\<lambda>_ _. 0)"
  shows "snd (pci_device_set_irq (set_pins ops b) d p l) =
    (bus_map_irq d p, \<exists>d' < 256. \<exists>p' < 4. bus_map_irq d' p' = bus_map_irq d p \<and> pin_level ((d, p, l) # ops) d' p')"
proof -
  have "fst (pci_device_set_irq (set_pins ops b) d p l) = set_pins ((d, p, l) # ops) b" by (simp add: set_pins_def)
  then show ?thesis using set_pins_bits [of "(d, p, l) # ops" b] assms by (simp add: line_level)
qed

theorem pci_irq_wired_or_witness:
  "snd (pci_device_set_irq (set_pins [(16, 0, True)] (empty_bus ())) 8 1 False) = (1, True)"
proof -
  have "bus_map_irq 8 1 = 1" "bus_map_irq 16 0 = 1" by (simp_all add: bus_map_irq_def)
  moreover from this have "\<exists>d' < 256. \<exists>p' < 4. bus_map_irq d' p' = 1 \<and> pin_level [(8, 1, False), (16, 0, True)] d' p'"
    by (intro exI [of _ 16] conjI exI [of _ 0]) simp_all
  ultimately show ?thesis
    using pci_irq_wired_or [of "[(16, 0, True)]" 1 "empty_bus ()" 8 False] by (simp add: empty_bus_def)
qed

section \<open>Protected registers\<close>

text \<open>Identification, class, header type and interrupt pin.\<close>

definition protected_reg :: "u64 \<Rightarrow> bool" where
  "protected_reg a \<longleftrightarrow> a \<le> 0x03 \<or> 0x08 \<le> a \<and> a \<le> 0x0b \<or> a = 0x0e \<or> a = 0x3d"

text \<open>The fields that no access changes.\<close>

definition fixed_fields :: "PCIDevice \<Rightarrow> PCIDevice \<Rightarrow> bool" where
  "fixed_fields d d' \<longleftrightarrow> pd_devfn d' = pd_devfn d \<and> length (io_regions d') = length (io_regions d) \<and>
     (\<forall>i. rg_size (io_regions d' ! i) = rg_size (io_regions d ! i) \<and> rg_type (io_regions d' ! i) = rg_type (io_regions d ! i)) \<and>
     (\<forall>a. protected_reg a \<longrightarrow> pd_config d' a = pd_config d a)"

lemma fixed_refl [simp]: "fixed_fields d d"
  by (simp add: fixed_fields_def)

lemma fixed_trans: "fixed_fields d e \<Longrightarrow> fixed_fields e f \<Longrightarrow> fixed_fields d f"
  by (simp add: fixed_fields_def)

lemma list_update_at: "(xs[i := x]) ! j = (if j = i \<and> i < length xs then x else xs ! j)"
  by (cases "i < length xs") (auto simp: list_update_beyond)

lemma update_mapping_fixed:
  "fixed_fields d (fst (update_mapping bar_set i (d, m)))" "pd_config (fst (update_mapping bar_set i (d, m))) = pd_config d"
  by (auto simp: update_mapping_def fixed_fields_def Let_def list_update_at)

lemma update_mappings_fold:
  "fixed_fields d (fst (fold (update_mapping bar_set) is (d, m))) \<and> pd_config (fst (fold (update_mapping bar_set) is (d, m))) = pd_config d"
proof (induction "is" arbitrary: d m)
  case (Cons i "is")
  obtain d' m' where u: "update_mapping bar_set i (d, m) = (d', m')" by fastforce
  then have "fixed_fields d d'" "pd_config d' = pd_config d" using update_mapping_fixed [where d = d and bar_set = bar_set and i = i and m = m] by simp_all
  then show ?case using Cons [of d' m'] u by (auto intro: fixed_trans)
qed simp

lemma update_mappings_fixed:
  "fixed_fields d (fst (pci_update_mappings bar_set (d, m)))" "pd_config (fst (pci_update_mappings bar_set (d, m))) = pd_config d"
  using update_mappings_fold [where d = d and bar_set = bar_set and m = m] by (simp_all add: pci_update_mappings_def)

lemma write8_fixed: "fixed_fields d (pci_device_config_write8 addr data d)"
  by (auto simp: pci_device_config_write8_def fixed_fields_def protected_reg_def read_only_def)

lemma write_bytes_fixed: "fixed_fields d (config_write_bytes addr data n d)"
  unfolding config_write_bytes_def
  by (induction n) (auto intro: fixed_trans write8_fixed)

lemma put_bar_protected:
  assumes "0x10 \<le> addr \<and> addr < 0x28 \<or> addr = (0x30 :: u32)" "protected_reg a"
  shows "put_le32 c (ucast addr) v a = c a"
proof -
  have lt: "unat addr < 2 ^ LENGTH(32)" by (rule unsigned_less)
  then have lt': "take_bit 64 (unat addr) = unat addr" by (intro take_bit_nat_eq_self) simp
  have lo: "unat (ucast addr + of_nat k :: u64) = unat addr + k" if "k < 4" for k
    using that lt lt' by (simp add: unat_word_ariths unat_of_nat unsigned_ucast_eq)
  have "16 \<le> unat addr \<and> unat addr < 40 \<or> unat addr = 48" using assms(1) by (auto simp: word_le_nat_alt word_less_nat_alt)
  moreover have "unat a \<le> 3 \<or> 8 \<le> unat a \<and> unat a \<le> 11 \<or> unat a = 14 \<or> unat a = 61"
    using assms(2) by (auto simp: protected_reg_def word_le_nat_alt)
  ultimately have "unat (ucast addr + of_nat k :: u64) \<noteq> unat a" if "k < 4" for k using lo [OF that] that by linarith
  then have "ucast addr + of_nat k \<noteq> a" if "k < 4" for k using that by blast
  from this [of 0] this [of 1] this [of 2] this [of 3] show ?thesis by (simp add: put_le32_def)
qed

lemma write_bar_fixed:
  assumes "pci_write_bar bar_set addr v (d, m) = Some dm" "0x10 \<le> addr \<and> addr < 0x28 \<or> addr = 0x30"
  shows "fixed_fields d (fst dm)"
proof -
  obtain w where w: "dm = pci_update_mappings bar_set (d\<lparr>pd_config := put_le32 (pd_config d) (ucast addr) w\<rparr>, m)"
    using assms(1) unfolding pci_write_bar_def Let_def prod.case by (simp only: split: if_split_asm) blast+
  have "fixed_fields d (d\<lparr>pd_config := put_le32 (pd_config d) (ucast addr) w\<rparr>)"
    using put_bar_protected [OF assms(2)] by (simp add: fixed_fields_def)
  from fixed_trans [OF this update_mappings_fixed(1)] show ?thesis unfolding w .
qed

lemma config_write_fixed: "fixed_fields d (fst (pci_device_config_write bar_set addr data size_log2 (d, m)))" for size_log2
proof -
  let ?b = "config_write_bytes addr data (2 ^ size_log2) d"
  let ?w = "if addr \<le> 4 \<and> 4 < addr + of_nat (2 ^ size_log2) then pci_update_mappings bar_set (?b, m) else (?b, m)"
  have "fixed_fields d (fst (pci_update_mappings bar_set (?b, m)))"
    by (rule fixed_trans [OF write_bytes_fixed update_mappings_fixed(1)])
  then have w: "fixed_fields d (fst ?w)" using write_bytes_fixed [of d addr data] by (simp only: fst_conv split: if_split) blast
  show ?thesis
  proof (cases "size_log2 = 2 \<and> (0x10 \<le> addr \<and> addr < 0x28 \<or> addr = 0x30)")
    case True
    show ?thesis
    proof (cases "pci_write_bar bar_set addr data (d, m)")
      case None
      then have "pci_device_config_write bar_set addr data size_log2 (d, m) = ?w"
        using True unfolding pci_device_config_write_def Let_def by (simp only: if_True option.case fst_conv snd_conv simp_thms)
      then show ?thesis using w by simp
    next
      case (Some dm)
      then show ?thesis using write_bar_fixed [OF Some] True by (simp add: pci_device_config_write_def)
    qed
  next
    case False
    then have "pci_device_config_write bar_set addr data size_log2 (d, m) = ?w"
      unfolding pci_device_config_write_def Let_def by (simp only: if_False fst_conv snd_conv)
    then show ?thesis using w by simp
  qed
qed

text \<open>Writes of the processor through the two ports.\<close>

definition config_write :: "'m bar_set \<Rightarrow> u32 \<times> u32 \<times> u32 \<times> nat \<Rightarrow> 'm I440FXState \<Rightarrow> 'm I440FXState" where
  "config_write bar_set = (\<lambda>(a, offset, v, size_log2) s. i440fx_write_data bar_set (i440fx_write_addr s a) offset v size_log2)"

definition same_devices :: "'m PCIBus \<Rightarrow> 'm PCIBus \<Rightarrow> bool" where
  "same_devices b b' \<longleftrightarrow> bus_num b' = bus_num b \<and> irq_state b' = irq_state b \<and>
     (\<forall>devfn. rel_option fixed_fields (pci_device b devfn) (pci_device b' devfn))"

lemma same_devices_refl [simp]: "same_devices b b"
  by (simp add: same_devices_def option.rel_refl)

lemma same_devices_trans: "same_devices a b \<Longrightarrow> same_devices b c \<Longrightarrow> same_devices a c"
proof -
  assume "same_devices a b" "same_devices b c"
  moreover have "rel_option fixed_fields x z" if "rel_option fixed_fields x y" "rel_option fixed_fields y z" for x y z
    using that by (cases x; cases y; cases z) (auto intro: fixed_trans)
  ultimately show ?thesis unfolding same_devices_def by metis
qed

lemma data_write_same: "same_devices b (pci_data_write bar_set b addr data size_log2)"
proof (cases "bus_field addr = bus_num b \<and> pci_device b (devfn_field addr) \<noteq> None")
  case True
  then obtain d where d: "pci_device b (devfn_field addr) = Some d" by auto
  obtain d' m' where w: "pci_device_config_write bar_set (addr AND 0xff) data size_log2 (d, bus_mem b) = (d', m')" by fastforce
  have "fixed_fields d d'"
    using config_write_fixed [where d = d and bar_set = bar_set and addr = "addr AND 0xff" and data = data and m = "bus_mem b"]
    by (metis w fst_conv)
  then show ?thesis using True d w by (auto simp: pci_data_write_def update_device_def same_devices_def option.rel_refl)
next
  case False
  then have "pci_data_write bar_set b addr data size_log2 = b" by (auto simp: pci_data_write_def)
  then show ?thesis by simp
qed

lemma config_write_same: "same_devices (fx_bus s) (fx_bus (config_write bar_set w s))"
  by (cases w) (simp add: config_write_def i440fx_write_data_def i440fx_write_addr_def data_write_same)

lemma config_writes_same: "same_devices (fx_bus s) (fx_bus (fold (config_write bar_set) ws s))"
proof (induction ws arbitrary: s)
  case (Cons w ws)
  from same_devices_trans [OF config_write_same Cons.IH] show ?case by simp
qed simp

text \<open>
  C32. The processor cannot change what a PCI device is: whatever it writes to the configuration ports, in any
  size and at any address, the devices on the bus stay the same, and so do the identification, the class, the header
  type and the interrupt pin of each, and the sizes and types of its regions.
\<close>

theorem pci_config_protected:
  "(\<forall>devfn. (pci_device (fx_bus (fold (config_write bar_set) ws s)) devfn = None) = (pci_device (fx_bus s) devfn = None)) \<and>
   (pci_device (fx_bus s) devfn = Some d \<longrightarrow>
      (\<exists>d'. pci_device (fx_bus (fold (config_write bar_set) ws s)) devfn = Some d' \<and>
        map (\<lambda>r. (rg_size r, rg_type r)) (io_regions d') = map (\<lambda>r. (rg_size r, rg_type r)) (io_regions d) \<and>
        (\<forall>a. protected_reg a \<longrightarrow> pd_config d' a = pd_config d a)))"
proof -
  have "rel_option fixed_fields (pci_device (fx_bus s) n) (pci_device (fx_bus (fold (config_write bar_set) ws s)) n)" for n
    using config_writes_same [where s = s and bar_set = bar_set and ws = ws] by (simp add: same_devices_def)
  note rel = this
  have "(pci_device (fx_bus (fold (config_write bar_set) ws s)) n = None) = (pci_device (fx_bus s) n = None)" for n
    using rel [of n] by (cases "pci_device (fx_bus s) n") (auto simp: option_rel_Some1)
  moreover have "\<exists>d'. pci_device (fx_bus (fold (config_write bar_set) ws s)) devfn = Some d' \<and> fixed_fields d d'"
    if "pci_device (fx_bus s) devfn = Some d"
    using rel [of devfn] that by (auto simp: option_rel_Some1)
  ultimately show ?thesis by (fastforce simp: fixed_fields_def intro: nth_equalityI)
qed

theorem pci_config_protected_witness:
  "\<exists>s m d'. i440fx_init () [] 0 = Some (s, m) \<and>
     pci_device (fx_bus (fold (config_write (\<lambda>_ _ _ _ u. u)) [(0x80000000, 0, 0, 2), (0x80000008, 2, 7, 1)] s)) 0 = Some d' \<and>
     get_le16 (pd_config d') 0 = 0x8086"
proof -
  obtain s m where s: "i440fx_init () [] 0 = Some (s, m)" "\<exists>d. pci_device (fx_bus s) 0 = Some d \<and> get_le16 (pd_config d) 0 = 0x8086"
    by (auto simp: i440fx_init_def cpu_register_device_def pci_register_device_def empty_bus_def update_device_def new_device_def
        put_le16_def get_le16_def)
  then obtain d where d: "pci_device (fx_bus s) 0 = Some d" "get_le16 (pd_config d) 0 = 0x8086" by blast
  from pci_config_protected [of "\<lambda>_ _ _ _ u. u" "[(0x80000000, 0, 0, 2), (0x80000008, 2, 7, 1)]" s 0 d] d s(1)
  show ?thesis by (auto simp: get_le16_def protected_reg_def)
qed

section \<open>Regions\<close>

text \<open>As in the source, a region of the I/O space is mapped when memory accesses are enabled.\<close>

lemma io_region_by_memory: "rg_size r \<noteq> 0 \<Longrightarrow> i \<noteq> 6 \<Longrightarrow> region_enabled 2 i r a"
  by (simp add: region_enabled_def)

text \<open>Sizing: a base address register reads back what was written, with the low bits replaced by the type.\<close>

lemma write_bar_readback:
  assumes "pci_write_bar bar_set (0x10 + 4 * of_nat i) v (d, m) = Some dm" "i < 6"
  shows "get_le32 (pd_config (fst dm)) (ucast (0x10 + 4 * of_nat i :: u32)) =
    (v AND NOT (rg_size (io_regions d ! i) - 1)) OR ucast (rg_type (io_regions d ! i))"
proof -
  have i: "i \<in> {0, 1, 2, 3, 4, 5}" using assms(2) by auto
  then have "unat (drop_bit 2 (0x10 + 4 * of_nat i - 0x10 :: u32)) = i" "(0x10 + 4 * of_nat i :: u32) \<noteq> 0x30" "i \<noteq> 6"
    by (auto simp: drop_bit_eq_div)
  then show ?thesis using assms(1)
    by (auto simp: pci_write_bar_def Let_def update_mappings_fixed(2) split: if_split_asm)
qed

section \<open>Capabilities\<close>

text \<open>The list of capabilities that starts at \<open>off\<close>.\<close>

fun cap_chain :: "host_mem \<Rightarrow> u8 \<Rightarrow> nat list \<Rightarrow> bool" where
  "cap_chain c off [] \<longleftrightarrow> off = 0"
| "cap_chain c off (k # ks) \<longleftrightarrow> unat off = k \<and> k \<noteq> 0 \<and> cap_chain c (c (ucast off + 1)) ks"

lemma cap_chain_cong: "(\<forall>k \<in> set ks. c' (of_nat k + 1) = c (of_nat k + 1)) \<Longrightarrow> cap_chain c off ks \<Longrightarrow> cap_chain c' off ks"
proof (induction ks arbitrary: off)
  case (Cons k ks)
  have "of_nat k = (ucast off :: u64)" using Cons.prems(2) by (auto simp: word_eq_iff_unsigned)
  then show ?case using Cons by auto
qed simp

text \<open>The capabilities \<open>P\<close>, the latest first, are below \<open>k\<close>; the second byte of each is its link.\<close>

definition caps_at :: "PCIDevice \<Rightarrow> nat \<Rightarrow> (nat \<times> u8 list) list \<Rightarrow> bool" where
  "caps_at d k P \<longleftrightarrow> unat (next_cap_offset d) = k \<and> 0x40 \<le> k \<and>
     cap_chain (pd_config d) (pd_config d 0x34) (map fst P) \<and>
     (\<forall>(n, b) \<in> set P. 0x40 \<le> n \<and> 2 \<le> length b \<and> n + length b \<le> k \<and>
        (\<forall>j < length b. j \<noteq> 1 \<longrightarrow> pd_config d (of_nat (n + j)) = b ! j))"

lemma caps_add:
  assumes "caps_at d k P" "2 \<le> length buf" "k + length buf \<le> 255"
  shows "caps_at (snd (pci_add_capability d buf)) (k + length buf) ((k, buf) # P)"
proof -
  let ?off = "next_cap_offset d" and ?c = "pd_config d"
  let ?d = "snd (pci_add_capability d buf)"
  have k: "unat ?off = k" "0x40 \<le> k" using assms(1) by (simp_all add: caps_at_def)
  then have off: "ucast ?off = (of_nat k :: u64)" by (auto simp: word_eq_iff_unsigned)
  have sub: "unat (of_nat a - of_nat k :: u64) = a - k" if "k \<le> a" "a < 256" for a
    using that by (simp add: unat_sub word_le_nat_alt unat_of_nat)
  have below: "256 \<le> unat (of_nat a - of_nat k :: u64)" if "a < k" for a
  proof (rule ccontr)
    let ?m = "unat (of_nat a - of_nat k :: u64)"
    assume m: "\<not> 256 \<le> ?m"
    have "(of_nat a :: u64) = of_nat (k + ?m)" by simp
    then have "unat (of_nat a :: u64) = unat (of_nat (k + ?m) :: u64)" by (rule arg_cong)
    then have "a = k + ?m" using that assms(3) m by (simp only: unat_of_nat) simp
    then show False using that by simp
  qed
  have inj: "(of_nat a = (of_nat b :: u64)) \<longleftrightarrow> a = b" if "a < 256" "b < 256" for a b
    using of_nat_inverse [of a "of_nat a :: u64"] of_nat_inverse [of b "of_nat a :: u64"] that by auto
  have conf: "pd_config ?d (of_nat a) =
      (if a = 0x34 then ?off else if a = k + 1 then ?c 0x34
       else if k \<le> a \<and> a < k + length buf then buf ! (a - k) else if a = 6 then ?c 6 OR 0x10 else ?c (of_nat a))" if "a < 256" for a
  proof -
    let ?c1 = "?c(6 := ?c 6 OR 0x10)"
    have fit: "\<not> unat ?off + length buf > 256" using k assms(3) by simp
    have cb: "copy_bytes (of_nat k) buf ?c1 (of_nat a) = (if k \<le> a \<and> a < k + length buf then buf ! (a - k) else ?c1 (of_nat a))" if "a < 256" for a
      using sub [of a] below [of a] that assms(3) by (cases "a < k") (auto simp: copy_bytes_def)
    have "copy_bytes (of_nat k) buf ?c1 0x34 = ?c 0x34" using cb [of "0x34"] k by simp
    moreover have "(of_nat a = (0x34 :: u64)) = (a = 0x34)" "(of_nat a = (6 :: u64)) = (a = 6)" "(of_nat a = (of_nat k + 1 :: u64)) = (a = k + 1)"
      using inj [OF that, of "0x34"] inj [OF that, of 6] inj [OF that, of "k + 1"] k assms(2,3) by (simp_all add: add.commute)
    moreover have "pd_config ?d = (let c = copy_bytes (of_nat k) buf ?c1; c = c(of_nat k + 1 := c 0x34) in c(0x34 := ?off))"
      using fit unfolding pci_add_capability_def Let_def off by simp
    ultimately show ?thesis using cb [OF that] by (simp add: Let_def)
  qed
  have off': "next_cap_offset ?d = ?off + of_nat (length buf)"
    using k assms(3) by (simp add: pci_add_capability_def Let_def)
  have nxt: "unat (next_cap_offset ?d) = k + length buf"
    unfolding off' using k assms(3) by (simp add: unat_word_ariths unat_of_nat)
  have old: "pd_config ?d (of_nat a) = ?c (of_nat a)" if "0x40 \<le> a" "a < k" for a
    using conf [of a] that k assms(3) by simp
  have "cap_chain (pd_config ?d) (?c 0x34) (map fst P)"
  proof (rule cap_chain_cong)
    show "\<forall>n \<in> set (map fst P). pd_config ?d (of_nat n + 1) = ?c (of_nat n + 1)"
    proof
      fix n assume "n \<in> set (map fst P)"
      then have "0x40 \<le> n + 1" "n + 1 < k" using assms(1) by (auto simp: caps_at_def)
      from old [OF this] show "pd_config ?d (of_nat n + 1) = ?c (of_nat n + 1)" by (simp add: add.commute)
    qed
    show "cap_chain ?c (?c 0x34) (map fst P)" using assms(1) by (simp add: caps_at_def)
  qed
  moreover have "pd_config ?d 0x34 = ?off" "pd_config ?d (of_nat k + 1) = ?c 0x34"
    using conf [of "0x34"] conf [of "k + 1"] k assms(2,3) by (simp_all add: add.commute)
  ultimately have chain: "cap_chain (pd_config ?d) (pd_config ?d 0x34) (map fst ((k, buf) # P))" using k off by simp
  have "pd_config ?d (of_nat (n + j)) = b ! j" if "(n, b) \<in> set P" "j < length b" "j \<noteq> 1" for n b j
    using that old [of "n + j"] assms(1) by (fastforce simp: caps_at_def)
  moreover have "pd_config ?d (of_nat (k + j)) = buf ! j" if "j < length buf" "j \<noteq> 1" for j
    using conf [of "k + j"] that k assms(3) by simp
  ultimately show ?thesis
    using assms(1,2) nxt k chain unfolding caps_at_def by fastforce
qed

text \<open>The offsets of capabilities that are added one after the other.\<close>

fun cap_offsets :: "nat \<Rightarrow> u8 list list \<Rightarrow> nat list" where
  "cap_offsets k [] = []"
| "cap_offsets k (buf # bufs) = k # cap_offsets (k + length buf) bufs"

lemma length_cap_offsets [simp]: "length (cap_offsets k bufs) = length bufs"
  by (induction k bufs rule: cap_offsets.induct) simp_all

definition add_caps :: "u8 list list \<Rightarrow> PCIDevice \<Rightarrow> PCIDevice" where
  "add_caps bufs d = fold (\<lambda>buf d. snd (pci_add_capability d buf)) bufs d"

lemma caps_add_all:
  "caps_at d k P \<Longrightarrow> \<forall>buf \<in> set bufs. 2 \<le> length buf \<Longrightarrow> k + sum_list (map length bufs) \<le> 255 \<Longrightarrow>
   caps_at (add_caps bufs d) (k + sum_list (map length bufs)) (rev (zip (cap_offsets k bufs) bufs) @ P)"
proof (induction bufs arbitrary: d k P)
  case (Cons buf bufs)
  have "caps_at (snd (pci_add_capability d buf)) (k + length buf) ((k, buf) # P)" using Cons.prems by (intro caps_add) simp_all
  from Cons.IH [OF this] Cons.prems show ?case by (simp add: add_caps_def add.assoc)
qed (simp add: add_caps_def)

text \<open>
  A driver finds the capabilities of a device: when they fit the configuration space, the list that starts at
  \<open>PCI_CAPABILITY_LIST\<close> goes through all capabilities that were added, the latest first, and each has its
  contents, but for the byte of the link.
\<close>

theorem pci_capabilities_listed:
  assumes "\<forall>buf \<in> set bufs. 2 \<le> length buf" and "0x40 + sum_list (map length bufs) \<le> 255"
    and "d = add_caps bufs (new_device devfn vendor dev revision class_id)"
  shows "cap_chain (pd_config d) (pd_config d PCI_CAPABILITY_LIST) (rev (cap_offsets 0x40 bufs)) \<and>
    (\<forall>(n, buf) \<in> set (zip (cap_offsets 0x40 bufs) bufs). \<forall>j < length buf. j \<noteq> 1 \<longrightarrow> pd_config d (of_nat (n + j)) = buf ! j)"
proof -
  have "pd_config (new_device devfn vendor dev revision class_id) 0x34 = 0" by (simp add: new_device_def put_le16_def)
  then have "caps_at (new_device devfn vendor dev revision class_id) 0x40 []" by (simp add: caps_at_def) (simp add: new_device_def)
  from caps_add_all [OF this assms(1,2)] show ?thesis
    unfolding caps_at_def assms(3) by (auto simp: rev_map [symmetric])
qed

theorem pci_capabilities_listed_witness:
  "\<exists>d. d = add_caps [virtio_capability 1 4 0 0x1000 0, virtio_capability 2 4 0x3000 0x1000 0] (new_device 0 0x1af4 0x1001 0 0x0100) \<and>
     cap_chain (pd_config d) (pd_config d 0x34) [0x50, 0x40]"
  using pci_capabilities_listed [of "[virtio_capability 1 4 0 0x1000 0, virtio_capability 2 4 0x3000 0x1000 0]", OF _ _ refl]
  by (simp add: virtio_capability_def le32_bytes_def)

text \<open>The offset wraps around when the space is full: the next capability overwrites the identification.\<close>

lemma capability_over_vendor:
  assumes "next_cap_offset d = 0xf0" "length b = 16" "0 < length b'" "length b' \<le> 4"
  shows "pci_add_capability (snd (pci_add_capability d b)) b' = (0, snd (pci_add_capability (snd (pci_add_capability d b)) b'))"
  using assms by (simp add: pci_add_capability_def Let_def)

end
