(* ===== verification/Spec2Isabelle.thy ===== *)
theory Spec2Isabelle
  imports Base_Props Softfp_Props Riscv_Props Run_Props Board_Props Fdt_Props Cosim_Props Boot_Props Virtio_Props LiveCache_Props Gold_Flags Cosim_Gold Config_Props Snapshot_Props Virtio_9p_Props Pci_Props
begin

text \<open>
  Verification development for the Dromajo RISC-V simulator (\<open>src/utils/dromajo\<close>), the reference
  model this repository runs in lock step with its cache hierarchy.

  \<^bold>\<open>The program.\<close>  Dromajo interprets RV64GC with the privileged architecture.  A machine
  (\<open>RISCVMachine\<close>) has up to eight harts (\<open>RISCVCPUState\<close>), a physical memory map with RAM and device ranges,
  a CLINT, a PLIC, UARTs, virtio devices and an HTIF mailbox.  \<open>virt_machine_init\<close> creates it from parameters
  and images, with a boot ROM and a device tree of its own; \<open>iterate_core\<close> runs the harts in turn, and
  \<open>dromajo_cosim_step\<close> runs one hart against a device under test.  A hart reaches memory and
  devices through the memory map; a device reaches the harts through the PLIC and \<open>mip\<close>, and memory through
  the map.

  \<^bold>\<open>Theories and sources\<close> (file names under \<open>src/utils/dromajo\<close>; definitions keep the names of the
  functions they model).

  \<^item> \<open>Prelude\<close>: names of the C types, C conversions, collections of rules, facts on words.

  \<^item> \<open>Cutils\<close>, \<open>Iomem\<close> (\<open>include/cutils.h\<close>, \<open>include/iomem.h\<close>, \<open>src/iomem.cpp\<close>): byte order, bit search, the
    physical memory map with dirty bits.  Properties in \<open>Base_Props\<close>.

  \<^item> \<open>Softfp\<close>, \<open>Softfp_Arith\<close>, \<open>Softfp_Cvt\<close> (\<open>include/softfp_template.h\<close>, \<open>include/softfp_template_icvt.h\<close>,
    \<open>src/softfp.cpp\<close>): the floating point of 32, 64 and 128 bits as one definition over word types.
    Lemmas in \<open>Softfp_Lemmas\<close> (fields), \<open>Softfp_Order\<close> (comparison is the order of the values),
    \<open>Softfp_Wide\<close> (double words), \<open>Softfp_Total\<close> (no assertion fails); properties in \<open>Softfp_Props\<close>.

  \<^item> \<open>Riscv_State\<close>, \<open>Riscv_Mem\<close>, \<open>Riscv_CSR\<close>, \<open>Riscv_Trap\<close>, \<open>Riscv_ALU\<close>, \<open>Riscv_Exec\<close>, \<open>Riscv_FP\<close>, \<open>Riscv_Interp\<close>,
    \<open>Riscv_Api\<close> (\<open>src/riscv_cpu.cpp\<close>, \<open>include/riscv_cpu.h\<close>, \<open>include/dromajo_template.h\<close>,
    \<open>include/dromajo_fp_template.h\<close>): a hart.  Lemmas in \<open>Riscv_PMP\<close> (the unpacked table is what the registers
    say), \<open>Riscv_Invariant\<close> and \<open>Riscv_Run\<close> (well-formed harts over runs), \<open>Riscv_Total\<close> (runs
    return), \<open>Riscv_Trap_Lemmas\<close>, \<open>Riscv_ALU_Lemmas\<close>; properties in \<open>Riscv_Props\<close> and \<open>Run_Props\<close>;
    \<open>Riscv_Example\<close> is the machine the witnesses run on.

  \<^item> \<open>Uart\<close>, \<open>Board\<close> (\<open>src/dw_apb_uart.cpp\<close>, \<open>src/riscv_machine.cpp\<close>, \<open>src/dromajo.cpp\<close>, the console of
    \<open>src/dromajo_main.cpp\<close>): the serial devices, CLINT, PLIC, timer, HTIF and the main loop.  Lemmas
    in \<open>Uart_Lemmas\<close> (byte queues), \<open>Plic_Lemmas\<close> (an abstract claim/complete controller and its refinement),
    \<open>Board_Lemmas\<close>; properties in \<open>Board_Props\<close>.

  \<^item> \<open>Fdt\<close> (\<open>src/riscv_machine.cpp\<close>): the device tree; \<open>Fdt_Lemmas\<close> is a reader of the format, \<open>Fdt_Props\<close> says
    that it gets back the tree of the machine.

  \<^item> \<open>Elf64\<close>, \<open>Boot\<close> (\<open>src/elf64.cpp\<close>, \<open>src/riscv_machine.cpp\<close>): images and the creation of the
    machine; \<open>Boot_Run\<close> executes the boot ROM; properties in \<open>Elf_Props\<close> and \<open>Boot_Props\<close>.

  \<^item> \<open>Cosim\<close> (\<open>src/dromajo_cosim.cpp\<close>): co-simulation; properties in \<open>Cosim_Props\<close>.

  \<^item> \<open>Virtio\<close>, \<open>Virtio_Devices\<close> (\<open>src/virtio.cpp\<close>, the disk images of \<open>src/dromajo_main.cpp\<close>): queues,
    both transports, the block, network, console and input device.  Lemmas in \<open>Virtio_Lemmas\<close> (the contract
    of a device and the invariant of the registers), \<open>Virtio_Chain\<close> (a chain of descriptors as a list of addresses),
    \<open>Virtio_Block\<close> (disks as sectors, requests); properties in \<open>Virtio_Props\<close>.

  \<^item> \<open>LiveCache\<close> (\<open>include/LiveCacheCore.h\<close>, \<open>include/LiveCache.h\<close>, \<open>src/LiveCache.cpp\<close>): the cache beside
    memory of the LIVECACHE builds.  \<open>LiveCache_Lemmas\<close> shows what the sets hold after a history of
    accesses, \<open>LiveCache_Traverse\<close> that the traversal sorts by the last access; properties in
    \<open>LiveCache_Props\<close>.

  \<^item> \<open>Gold\<close>, \<open>Gold_Core\<close> (\<open>gold/Gold_data.hpp\<close>, \<open>gold/Gold_mem.hpp\<close>, \<open>gold/Gold_core.cpp\<close>,
    \<open>gold/bridge_inorder.cpp\<close>): the gold memory checker, its bytes, memory, queues and the functions for
    in-order cores.  \<open>Gold_Spec\<close> states the memory all cores share; \<open>Gold_Lemmas\<close> computes the operations
    on one block of bytes, \<open>Gold_Order\<close> those on the youngest entry of a queue, and \<open>Gold_Props\<close> shows the
    refinement.  \<open>Gold_Flags\<close> shows which loads a store marks.  \<open>Cosim_Gold\<close> is the code of
    \<open>src/dromajo_cosim.cpp\<close> that calls the checker, with the cases in which it rejects a correct device.
    Random bytes and the memory of the simulator are arguments of the operations; the messages the
    checker prints are part of its state, its dumps and traces are not modelled.
  \<^item> \<open>Json\<close> (\<open>src/json.cpp\<close>) and \<open>Config\<close> (\<open>src/machine.cpp\<close>): the parser of the configuration files, the
    parameters they set and the files they name.  The mutually recursive functions of the parser have a
    bound on their depth, which \<open>Json_Total\<close> shows to be large enough for every text; \<open>Json_Props\<close> and
    \<open>Config_Props\<close> hold the printers and the round trips.  The offset of local time and the contents of
    files are arguments.
  \<^item> \<open>Snapshot\<close>: saving a machine with one hart into files and loading the memory back
    (\<open>src/riscv_cpu.cpp\<close>); the sizes of partial reads and writes are arguments.  \<open>Snapshot_Props\<close>
    shows what is restored, and that the boot ROM always fits.
  \<^item> \<open>Virtio_9p\<close>: the 9p device of \<open>src/virtio.cpp\<close>, with the messages of the protocol and a definition
    for each request.  The file system is the table of callbacks \<open>FSDevice\<close> of \<open>include/fs.h\<close>, an
    argument, and its state is a field of the device.  \<open>Virtio_9p_Lemmas\<close> shows that every request sends one reply and
    meets the contract of a device, and \<open>Virtio_9p_Props\<close> states what this means for a driver.
  \<^item> \<open>Pci\<close>: the bus and the i440FX bridge of \<open>src/pci.cpp\<close>, with the callback of the regions as an argument, and the
    registration of a virtio device on the bus.  The board has no PCI bus, so nothing else uses this theory.
    \<open>Pci_Props\<close> is about interrupt lines, protected registers and capabilities.
  \<^bold>\<open>Conventions.\<close>  An unsigned C integer is a word of its width, so that \<open>+\<close> wraps as in C; signed
  operations go through \<open>sint\<close>.  Structures are records, enumerations datatypes, error returns are
  \<open>option\<close> or sums.  \<open>None\<close> of an operation that the source gives no failing result is the end of the
  simulator: a failed assertion, \<open>abort\<close>, an access through an invalid pointer, or a loop that does not
  end.  Host memory is a map from 64-bit addresses to bytes.

  \<^bold>\<open>Interfaces.\<close>  What one component requires of another is a locale with an interpretation on
  the model: \<open>hart_invariant\<close> (a predicate that CSR writes, changes of privilege and the callbacks of a hart keep is kept
  by every run), \<open>safe_env\<close> (callbacks that leave a hart alone, interpreted for the board),
  \<open>char_device\<close> and \<open>uart_invariant\<close> (what a UART needs of the character device and interrupt line behind it),
  \<open>virtio_backend\<close> (the contract of a virtio device, interpreted for the four devices).  The board
  takes the devices behind it as a parameter \<open>bus\<close> (the virtio devices on their own are in the
  \<open>Virtio\<close> theories).  Other parameters stand for what is not in the sources: the
  allocator and the contents of files (\<open>Boot\<close>), the time of the host (\<open>rtc_get_time\<close>), the content of
  uninitialised memory (\<open>fresh\<close> in \<open>Virtio_Devices\<close>).

  \<^bold>\<open>Bounds.\<close>  A run of a hart takes a number of cycles below \<open>2 ^ 31\<close>, since the source keeps the rest in
  an \<open>int\<close>.  The totality of floating point is for the formats of 32 and 64 bits, those the interpreter uses.
  \<open>cosim_loop\<close> and \<open>main_loop\<close> have a number of rounds as fuel: a step of the co-simulation is proved
  to need at most the cycles it is given, and the main loop at most \<open>maxinsns\<close> rounds.  Disks are smaller than
  \<open>2 ^ 40\<close> bytes, so that positions do not wrap.  The copies along a chain of descriptors are partial functions,
  because they do not return on a cyclic chain; for chains of a driver that end they are proved to return.

  \<^bold>\<open>Not modelled.\<close>  Output for the user (traces, error messages, logs) has no definition.  \<open>csrrw\<close>, \<open>csrrs\<close>
  and \<open>csrrc\<close> assign to \<open>insn_counter_addend\<close> the value it has; the assignment is left out.  The
  warm-up code in the boot ROM of a snapshot (its build does not compile), the options of the command line and
  the file system of the host behind the 9p device are
  not modelled; the vendored libraries and the SystemVerilog sources are outside of the language modelled.
\<close>

end
